(* ===== verification/Boot_Prelude.thy ===== *)
theory Boot_Prelude
  imports Main "HOL-Library.Word"
begin

text \<open>
  Shared vocabulary of the development: the C integer types of the firmware, the
  little-endian load and store helpers that several translation units define for
  themselves, overflow-checked additions, buffer writes, and the collections of
  rewrite rules the component theories fill.

  A \<open>uint8_t\<close> is an 8-bit word and a \<open>uint32_t\<close> a 32-bit word, so that sums and
  differences wrap as in C. A \<open>size_t\<close> (32 bits on the Cortex-M4) is a natural
  number; where the source subtracts or adds two sizes without a check of its own the
  model uses \<open>size_sub\<close> and \<open>size_add\<close>, which write the wrap-around out. A
  buffer with its length is a list of bytes. Memory addresses seen by the flash model
  are natural numbers, the value of the 32-bit address.
\<close>

unbundle bit_operations_syntax

type_synonym u8 = "8 word"
type_synonym u32 = "32 word"
type_synonym bytes = "8 word list"
type_synonym size_t = nat

named_theorems layout_simps
  \<open>numeric values of the generated memory layout\<close>

named_theorems slot_simps
  \<open>evaluation of the slot table\<close>

abbreviation (input) UINT32_MAX :: u32 where
  "UINT32_MAX \<equiv> 0xFFFFFFFF"

abbreviation (input) SIZE_MAX :: nat where
  "SIZE_MAX \<equiv> 4294967295"

section \<open>Size arithmetic\<close>

definition size_sub :: "size_t \<Rightarrow> size_t \<Rightarrow> size_t" where
  "size_sub a b = (if b \<le> a then a - b else a + 4294967296 - b)"

definition size_add :: "size_t \<Rightarrow> size_t \<Rightarrow> size_t" where
  "size_add a b = (a + b) mod 4294967296"

definition checked_u32_add :: "u32 \<Rightarrow> u32 \<Rightarrow> u32 option" where
  "checked_u32_add left right =
     (if right > UINT32_MAX - left then None else Some (left + right))"

definition checked_size_add :: "size_t \<Rightarrow> size_t \<Rightarrow> size_t option" where
  "checked_size_add left right =
     (if right > size_sub SIZE_MAX left then None else Some (size_add left right))"

lemma size_sub_le [simp]: "b \<le> a \<Longrightarrow> size_sub a b = a - b"
  by (simp add: size_sub_def)

lemma size_add_small [simp]: "a + b \<le> SIZE_MAX \<Longrightarrow> size_add a b = a + b"
  by (simp add: size_add_def)

lemma u32_unat_bound: "unat (w :: u32) \<le> SIZE_MAX"
proof -
  have "unat w < 2 ^ LENGTH(32)" by (rule unsigned_less)
  then show ?thesis by simp
qed

lemma u32_max_minus: "unat (UINT32_MAX - (w :: u32)) = SIZE_MAX - unat w"
  by (subst unat_sub) (simp_all add: word_le_nat_alt u32_unat_bound)

lemma u32_no_overflow:
  "unat (a :: u32) + unat b \<le> SIZE_MAX \<Longrightarrow> unat (a + b) = unat a + unat b"
  by (simp add: unat_word_ariths)

lemma u32_of_nat: "n \<le> SIZE_MAX \<Longrightarrow> unat (of_nat n :: u32) = n"
  by (simp add: unat_of_nat)

lemma checked_u32_add_Some:
  "checked_u32_add a b = Some c \<longleftrightarrow>
     unat a + unat b \<le> SIZE_MAX \<and> c = a + b"
  by (auto simp: checked_u32_add_def word_less_nat_alt u32_max_minus
      not_less le_diff_conv2 u32_unat_bound add.commute)

lemma checked_u32_add_unat:
  "checked_u32_add a b = Some c \<Longrightarrow> unat c = unat a + unat b"
  by (auto simp: checked_u32_add_Some u32_no_overflow)

lemma checked_size_add_Some:
  "a \<le> SIZE_MAX \<Longrightarrow>
   checked_size_add a b = Some c \<longleftrightarrow> a + b \<le> SIZE_MAX \<and> c = a + b"
  by (auto simp: checked_size_add_def)

section \<open>Texts\<close>

definition ascii :: "string \<Rightarrow> bytes" where
  "ascii s = map of_char s"

section \<open>Little-endian words\<close>

definition load_le32 :: "bytes \<Rightarrow> u32" where
  "load_le32 bs =
     ucast (bs ! 0) OR push_bit 8 (ucast (bs ! 1)) OR
     push_bit 16 (ucast (bs ! 2)) OR push_bit 24 (ucast (bs ! 3))"

definition le32 :: "u32 \<Rightarrow> bytes" where
  "le32 value =
     [ucast (value AND 0xFF), ucast (drop_bit 8 value AND 0xFF),
      ucast (drop_bit 16 value AND 0xFF), ucast (drop_bit 24 value AND 0xFF)]"

definition bytes_write :: "nat \<Rightarrow> bytes \<Rightarrow> bytes \<Rightarrow> bytes" where
  "bytes_write off new buf = take off buf @ new @ drop (off + length new) buf"

definition store_le32 :: "nat \<Rightarrow> u32 \<Rightarrow> bytes \<Rightarrow> bytes" where
  "store_le32 off value buf = bytes_write off (le32 value) buf"

lemma length_le32 [simp]: "length (le32 v) = 4"
  by (simp add: le32_def)

lemma byte_mask_bit: "bit (0xFF :: int) n \<longleftrightarrow> n < 8"
proof -
  have "bit (mask 8 :: int) n \<longleftrightarrow> n < 8"
    by (simp only: bit_mask_iff) simp
  moreover have "mask 8 = (0xFF :: int)"
    by (simp add: mask_eq_exp_minus_1)
  ultimately show ?thesis by simp
qed

lemma load_le32_le32: "load_le32 (le32 v @ rest) = v"
proof (rule bit_word_eqI)
  fix n :: nat
  assume "n < LENGTH(32)"
  then have n: "n < 32" by simp
  then consider "n < 8" | "8 \<le> n" "n < 16" | "16 \<le> n" "n < 24" | "24 \<le> n" "n < 32"
    by linarith
  then show "bit (load_le32 (le32 v @ rest)) n = bit v n"
  proof cases
    case 1
    then show ?thesis
      by (auto simp: load_le32_def le32_def bit_simps byte_mask_bit)
  next
    case 2
    then show ?thesis
      by (auto simp: load_le32_def le32_def bit_simps byte_mask_bit)
  next
    case 3
    then show ?thesis
      by (auto simp: load_le32_def le32_def bit_simps byte_mask_bit)
  next
    case 4
    then show ?thesis
      by (auto simp: load_le32_def le32_def bit_simps byte_mask_bit)
  qed
qed

lemma load_le32_cong:
  "(\<And>i. i < 4 \<Longrightarrow> bs ! i = cs ! i) \<Longrightarrow> load_le32 bs = load_le32 cs"
  by (simp add: load_le32_def)

lemma load_le32_byte:
  assumes "i < 4" "n < 8"
  shows "bit (load_le32 bs) (8 * i + n) = bit (bs ! i) n"
proof -
  from \<open>i < 4\<close> consider "i = 0" | "i = 1" | "i = 2" | "i = 3" by linarith
  then show ?thesis
    by cases (use \<open>n < 8\<close> in \<open>auto simp: load_le32_def bit_simps dest: bit_imp_le_length\<close>)
qed

lemma load_le32_inject:
  assumes "load_le32 bs = load_le32 cs" "i < 4"
  shows "bs ! i = cs ! i"
proof (rule bit_word_eqI)
  fix n assume "n < LENGTH(8)"
  then have "n < 8" by simp
  note byte = load_le32_byte [OF assms(2) this]
  from byte [of bs] byte [of cs] assms(1) show "bit (bs ! i) n = bit (cs ! i) n" by simp
qed

lemma bytes_eq_words:
  assumes len: "length bs = 4 * m" "length cs = 4 * m"
    and words: "\<And>k. k < m \<Longrightarrow> load_le32 (drop (4 * k) bs) = load_le32 (drop (4 * k) cs)"
  shows "bs = cs"
proof (rule nth_equalityI)
  fix i assume "i < length bs"
  with len have "i div 4 < m" by (simp add: less_mult_imp_div_less mult.commute)
  from load_le32_inject [OF words [OF this], of "i mod 4"]
  show "bs ! i = cs ! i" using \<open>i < length bs\<close> len by simp
qed (use len in simp)

section \<open>Bitwise cancellation\<close>

lemma xor_right_cancel: "a XOR c = b XOR c \<Longrightarrow> a = (b :: u32)"
proof -
  assume "a XOR c = b XOR c"
  then have "(a XOR c) XOR c = (b XOR c) XOR c" by simp
  then show ?thesis by (simp add: xor.assoc)
qed

lemma xor_left_cancel: "c XOR a = c XOR b \<Longrightarrow> a = (b :: u32)"
  by (metis xor.commute xor_right_cancel)

lemma ucast_byte_inj: "(ucast (b :: u8) :: u32) = ucast c \<Longrightarrow> b = c"
proof (rule bit_word_eqI)
  fix n assume eq: "(ucast b :: u32) = ucast c" and "n < LENGTH(8)"
  then have "bit (ucast b :: u32) n = bit (ucast c :: u32) n" "n < 32" by simp_all
  then show "bit b n = bit c n" by (simp add: bit_unsigned_iff)
qed

section \<open>Buffer writes\<close>

lemma length_bytes_write [simp]:
  "off + length new \<le> length buf \<Longrightarrow> length (bytes_write off new buf) = length buf"
  by (simp add: bytes_write_def)

lemma nth_bytes_write:
  "off + length new \<le> length buf \<Longrightarrow>
   bytes_write off new buf ! i =
     (if off \<le> i \<and> i < off + length new then new ! (i - off) else buf ! i)"
  by (auto simp: bytes_write_def nth_append)

lemma length_store_le32 [simp]:
  "off + 4 \<le> length buf \<Longrightarrow> length (store_le32 off v buf) = length buf"
  by (simp add: store_le32_def)

lemma nth_store_le32_other:
  "off + 4 \<le> length buf \<Longrightarrow> i < off \<or> off + 4 \<le> i \<Longrightarrow>
   store_le32 off v buf ! i = buf ! i"
  by (auto simp: store_le32_def nth_bytes_write)

lemma load_store_same:
  "off + 4 \<le> length buf \<Longrightarrow> load_le32 (drop off (store_le32 off v buf)) = v"
  by (simp add: store_le32_def bytes_write_def load_le32_le32)

lemma load_store_other:
  "off + 4 \<le> length buf \<Longrightarrow> o' + 4 \<le> length buf \<Longrightarrow> o' + 4 \<le> off \<or> off + 4 \<le> o' \<Longrightarrow>
   load_le32 (drop o' (store_le32 off v buf)) = load_le32 (drop o' buf)"
  by (rule load_le32_cong) (auto simp: nth_store_le32_other)

lemma take_store_le32:
  "n \<le> off \<Longrightarrow> off \<le> length buf \<Longrightarrow> take n (store_le32 off v buf) = take n buf"
  by (simp add: store_le32_def bytes_write_def)

lemmas store_simps = load_store_same load_store_other take_store_le32 nth_store_le32_other

section \<open>Memory ranges\<close>

definition mem_range :: "(nat \<Rightarrow> u8) \<Rightarrow> nat \<Rightarrow> nat \<Rightarrow> bytes" where
  "mem_range m a n = map (\<lambda>i. m (a + i)) [0..<n]"

lemma length_mem_range [simp]: "length (mem_range m a n) = n"
  by (simp add: mem_range_def)

lemma nth_mem_range [simp]: "i < n \<Longrightarrow> mem_range m a n ! i = m (a + i)"
  by (simp add: mem_range_def)

lemma mem_range_cong:
  "(\<And>x. a \<le> x \<Longrightarrow> x < a + n \<Longrightarrow> m x = m' x) \<Longrightarrow> mem_range m a n = mem_range m' a n"
  by (simp add: mem_range_def)

lemma mem_range_eq_iff:
  "length d = n \<Longrightarrow> mem_range m a n = d \<longleftrightarrow> (\<forall>i < n. m (a + i) = d ! i)"
  by (auto simp: list_eq_iff_nth_eq)

lemma mem_range_append: "mem_range m a (n + k) = mem_range m a n @ mem_range m (a + n) k"
  by (rule nth_equalityI) (auto simp: nth_append)

lemma take_mem_range: "k \<le> n \<Longrightarrow> take k (mem_range m a n) = mem_range m a k"
  by (rule nth_equalityI) auto

lemma drop_mem_range: "drop k (mem_range m a n) = mem_range m (a + k) (n - k)"
  by (rule nth_equalityI) (auto simp: add.assoc)

end
