(* ===== verification/Platform_Log.thy ===== *)
theory Platform_Log
  imports Boot_Prelude
begin

text \<open>
  The event ring of the research application (\<^verbatim>\<open>exp066_research_platform_core/src/log.c\<close>) and the
  texts its UART driver emits (\<^verbatim>\<open>uart.c\<close>).

  The driver waits until the transmitter is empty and sends one byte, so the model of an output
  function is the sequence of bytes it sends. The ring is a record with its 32 slots, the next
  sequence number, the two counters and the interrupt mask that the critical section saves.

  Lemmas: the decimal printer stays inside its ten-character buffer; the printers write the decimal
  and hexadecimal digits of the number; the ring refines an
  unbounded list of entries of which it shows the newest 32.
\<close>

type_synonym u16 = "16 word"

section \<open>Output\<close>

definition uart_puts :: "bytes \<Rightarrow> bytes" where
  "uart_puts t = concat (map (\<lambda>c. if c = 0x0A then [0x0D, c] else [c]) t)"

definition hex_digit :: "u32 \<Rightarrow> u8" where
  "hex_digit n = ascii ''0123456789ABCDEF'' ! unat (n AND 15)"

definition uart_put_hex32 :: "u32 \<Rightarrow> bytes" where
  "uart_put_hex32 v =
     uart_puts (ascii ''0x'') @ map (\<lambda>s. hex_digit (drop_bit s v)) [28, 24, 20, 16, 12, 8, 4, 0]"

text \<open>The digits in the order the loop stores them, the lowest first.\<close>

function u32_buffer :: "u32 \<Rightarrow> bytes" where
  "u32_buffer v = (if v \<noteq> 0 then (0x30 + ucast (v mod 10)) # u32_buffer (v div 10) else [])"
  by pat_completeness auto

lemma u32_div10_less: "v \<noteq> 0 \<Longrightarrow> unat (v div 10 :: u32) < unat v"
  by (simp add: unat_div unat_gt_0)

termination u32_buffer
  by (relation "measure unat") (auto simp: u32_div10_less)

declare u32_buffer.simps [simp del]

definition uart_put_u32 :: "u32 \<Rightarrow> bytes" where
  "uart_put_u32 v = (if v = 0 then [0x30] else rev (u32_buffer v))"

text \<open>The printer writes at most ten characters, the size of its buffer.\<close>

lemma u32_buffer_length: "unat v < 10 ^ n \<Longrightarrow> length (u32_buffer v) \<le> n"
proof (induction n arbitrary: v)
  case 0
  then have "v = 0" by (simp add: unat_eq_0)
  then show ?case by (simp add: u32_buffer.simps)
next
  case (Suc n)
  have "unat (v div 10) < 10 ^ n"
    using Suc.prems by (simp add: unat_div less_mult_imp_div_less mult.commute)
  from Suc.IH [OF this] show ?case by (subst u32_buffer.simps) simp
qed

lemma u32_buffer_fits: "length (u32_buffer v) \<le> 10"
proof (rule u32_buffer_length)
  show "unat v < 10 ^ 10" using u32_unat_bound [of v] by simp
qed

text \<open>
  What the printers should write, independently of their loops and masks: the decimal digits of a
  number, the highest first and without leading zeros, and its last \<open>k\<close> hexadecimal digits.
\<close>

fun decimal :: "nat \<Rightarrow> bytes" where
  "decimal n = (if n < 10 then [] else decimal (n div 10)) @ [0x30 + of_nat (n mod 10)]"

declare decimal.simps [simp del]

definition hexadecimal :: "nat \<Rightarrow> nat \<Rightarrow> bytes" where
  "hexadecimal k n = map (\<lambda>i. ascii ''0123456789ABCDEF'' ! (n div 16 ^ (k - 1 - i) mod 16)) [0..<k]"

lemma u32_buffer_decimal: "v \<noteq> 0 \<Longrightarrow> rev (u32_buffer v) = decimal (unat v)"
proof (induction v rule: u32_buffer.induct)
  case (1 v)
  have digit: "ucast (v mod 10) = (of_nat (unat v mod 10) :: u8)"
    by (simp add: unat_mod flip: of_nat_unat [of "v mod 10"])
  show ?case
  proof (cases "v div 10 = 0")
    case True
    have "unat v div 10 = unat (v div 10)" by (simp add: unat_div)
    with True have "unat v < 10" by (simp add: div_eq_0_iff)
    with True digit 1(2) show ?thesis
      by (subst u32_buffer.simps, subst decimal.simps) (simp add: u32_buffer.simps)
  next
    case False
    with 1 have "rev (u32_buffer (v div 10)) = decimal (unat v div 10)" by (simp add: unat_div)
    moreover from False have "\<not> unat v < 10" by (auto simp: unat_div word_unat_eq_iff)
    ultimately show ?thesis using digit 1(2)
      by (subst u32_buffer.simps, subst decimal.simps) simp
  qed
qed

lemma put_u32_decimal: "uart_put_u32 v = decimal (unat v)"
  using u32_buffer_decimal [of v] by (auto simp: uart_put_u32_def decimal.simps)

lemma mask_15: "(15 :: u32) = mask 4"
  by (simp add: mask_numeral)

lemma hex_digit_nat: "hex_digit (drop_bit (4 * k) v) = ascii ''0123456789ABCDEF'' ! (unat v div 16 ^ k mod 16)"
proof -
  have "unat (drop_bit (4 * k) v AND 15) = take_bit 4 (drop_bit (4 * k) (unat v))"
    by (simp only: mask_15 flip: take_bit_eq_mask) (simp only: unsigned_take_bit_eq unat_drop_bit_eq)
  also have "\<dots> = unat v div 16 ^ k mod 16" by (simp add: take_bit_eq_mod drop_bit_eq_div power_mult)
  finally have "unat (drop_bit (4 * k) v AND 15) = unat v div 16 ^ k mod 16" .
  then show ?thesis by (simp add: hex_digit_def)
qed

lemma hex_digits: "map (\<lambda>s. hex_digit (drop_bit s v)) [28, 24, 20, 16, 12, 8, 4, 0] = hexadecimal 8 (unat v)"
proof -
  have "map (\<lambda>s. hex_digit (drop_bit s v)) [28, 24, 20, 16, 12, 8, 4, 0] =
      map (\<lambda>i. hex_digit (drop_bit (4 * (8 - 1 - i)) v)) [0..<8]"
    by (simp add: upt_rec)
  then show ?thesis unfolding hex_digit_nat hexadecimal_def .
qed

lemma put_hex32_digits: "uart_put_hex32 v = ascii ''0x'' @ hexadecimal 8 (unat v)"
  unfolding uart_put_hex32_def hex_digits by (simp add: uart_puts_def ascii_def)

section \<open>The ring\<close>

abbreviation (input) LOG_CAPACITY :: u32 where "LOG_CAPACITY \<equiv> 32"
abbreviation (input) LOG_PAYLOAD :: u8 where "LOG_PAYLOAD \<equiv> 12"

datatype log_severity = LOG_DEBUG | LOG_INFO | LOG_WARNING | LOG_ERROR | LOG_CRITICAL

fun severity_code :: "log_severity \<Rightarrow> u8" where
  "severity_code LOG_DEBUG = 0"
| "severity_code LOG_INFO = 1"
| "severity_code LOG_WARNING = 2"
| "severity_code LOG_ERROR = 3"
| "severity_code LOG_CRITICAL = 4"

record log_record =
  lr_sequence :: u32
  lr_timestamp :: u32
  lr_source :: u16
  lr_event :: u16
  lr_severity :: u8
  lr_length :: u8
  lr_payload :: bytes

record platform_log =
  log_records :: "log_record list"
  log_next_sequence :: u32
  log_entries :: u32
  log_lost :: u32
  log_primask :: u32

definition copy_bytes :: "bytes \<Rightarrow> bytes \<Rightarrow> nat \<Rightarrow> bytes" where
  "copy_bytes d s n = take n s @ drop n d"

definition increment_dropped :: "platform_log \<Rightarrow> platform_log" where
  "increment_dropped l = (if log_lost l \<noteq> UINT32_MAX then l\<lparr>log_lost := log_lost l + 1\<rparr> else l)"

text \<open>The critical section: the mask that was set before, with the interrupts off.\<close>

definition critical_enter :: "platform_log \<Rightarrow> u32 \<times> platform_log" where
  "critical_enter l = (log_primask l, l\<lparr>log_primask := 1\<rparr>)"

definition critical_exit :: "u32 \<Rightarrow> platform_log \<Rightarrow> platform_log" where
  "critical_exit primask l = (if primask AND 1 = 0 then l\<lparr>log_primask := 0\<rparr> else l)"

definition log_init :: "platform_log \<Rightarrow> platform_log" where
  "log_init l = l\<lparr>log_next_sequence := 1, log_entries := 0, log_lost := 0\<rparr>"

text \<open>The slot a record goes to, and the record.\<close>

definition log_slot :: "u32 \<Rightarrow> nat" where
  "log_slot s = unat ((s - 1) mod LOG_CAPACITY)"

definition log_fill ::
    "u32 \<Rightarrow> u32 \<Rightarrow> log_severity \<Rightarrow> u16 \<Rightarrow> u16 \<Rightarrow> bytes option \<Rightarrow> u8 \<Rightarrow> log_record \<Rightarrow> log_record" where
  "log_fill now seq severity source event payload n r =
     r\<lparr>lr_sequence := seq, lr_timestamp := now, lr_source := source, lr_event := event,
       lr_severity := severity_code severity, lr_length := n,
       lr_payload := (case payload of
                        Some p \<Rightarrow> if n \<noteq> 0 then copy_bytes (lr_payload r) p (unat n) else lr_payload r
                      | None \<Rightarrow> lr_payload r)\<rparr>"

definition log_write ::
    "u32 \<Rightarrow> log_severity \<Rightarrow> u16 \<Rightarrow> u16 \<Rightarrow> bytes option \<Rightarrow> u8 \<Rightarrow> platform_log \<Rightarrow> platform_log" where
  "log_write now severity source event payload n l0 =
     (case critical_enter l0 of (primask, l) \<Rightarrow>
        if log_next_sequence l = 0 then critical_exit primask (increment_dropped l)
        else let (n', l1) = (if n > LOG_PAYLOAD then (LOG_PAYLOAD, increment_dropped l) else (n, l));
                 slot = log_slot (log_next_sequence l1);
                 r = log_fill now (log_next_sequence l1) severity source event payload n' (log_records l1 ! slot);
                 l2 = l1\<lparr>log_records := (log_records l1)[slot := r]\<rparr>;
                 l3 = (if log_entries l2 < LOG_CAPACITY then l2\<lparr>log_entries := log_entries l2 + 1\<rparr> else increment_dropped l2);
                 l4 = l3\<lparr>log_next_sequence :=
                        (if log_next_sequence l3 = UINT32_MAX then 0 else log_next_sequence l3 + 1)\<rparr>
             in critical_exit primask l4)"

definition log_last_sequence :: "platform_log \<Rightarrow> u32" where
  "log_last_sequence l = (if log_next_sequence l = 0 then UINT32_MAX else log_next_sequence l - 1)"

definition log_clear :: "platform_log \<Rightarrow> platform_log" where
  "log_clear l0 =
     (case critical_enter l0 of (p, l) \<Rightarrow> critical_exit p (l\<lparr>log_entries := 0, log_lost := 0\<rparr>))"

definition log_count :: "platform_log \<Rightarrow> u32" where
  "log_count l = log_entries l"

definition log_dropped :: "platform_log \<Rightarrow> u32" where
  "log_dropped l = log_lost l"

text \<open>The records that \<^verbatim>\<open>log_show\<close> walks over, oldest first, and the lines it prints.\<close>

definition log_walk :: "platform_log \<Rightarrow> log_record list" where
  "log_walk l =
     (let c = log_entries l; last = log_last_sequence l; first = (if c = 0 then 0 else last - c + 1)
      in map (\<lambda>i. log_records l ! log_slot (first + of_nat i)) [0..<unat c])"

definition log_line :: "log_record \<Rightarrow> bytes" where
  "log_line r =
     uart_puts (ascii ''seq='') @ uart_put_u32 (lr_sequence r) @
     uart_puts (ascii '' ms='') @ uart_put_u32 (lr_timestamp r) @
     uart_puts (ascii '' sev='') @ uart_put_u32 (ucast (lr_severity r)) @
     uart_puts (ascii '' src='') @ uart_put_u32 (ucast (lr_source r)) @
     uart_puts (ascii '' event='') @ uart_put_u32 (ucast (lr_event r)) @ uart_puts [0x0A]"

definition log_show :: "platform_log \<Rightarrow> bytes" where
  "log_show l =
     uart_puts (ascii ''records='') @ uart_put_u32 (log_entries l) @
     uart_puts (ascii '' dropped='') @ uart_put_u32 (log_lost l) @ uart_puts [0x0A] @
     concat (map log_line (log_walk l))"

section \<open>The ring shows the newest entries\<close>

definition log_ok :: "platform_log \<Rightarrow> bool" where
  "log_ok l \<longleftrightarrow> length (log_records l) = 32 \<and> unat (log_entries l) \<le> 32 \<and>
     unat (log_entries l) \<le> unat (log_last_sequence l)"

lemma log_slot_word: "log_slot (w + 1) = unat w mod 32"
  by (simp add: log_slot_def unat_mod)

lemma log_walk_nat:
  assumes "log_ok l"
  shows "log_walk l =
    map (\<lambda>i. log_records l ! ((unat (log_last_sequence l) - unat (log_entries l) + i) mod 32)) [0..<unat (log_entries l)]"
proof -
  have "log_slot (log_last_sequence l - log_entries l + 1 + of_nat i) =
      (unat (log_last_sequence l) - unat (log_entries l) + i) mod 32" if "i < unat (log_entries l)" for i
  proof -
    have le: "log_entries l \<le> log_last_sequence l" using assms by (simp add: log_ok_def word_le_nat_alt)
    have i: "unat (of_nat i :: u32) = i" using that u32_unat_bound [of "log_entries l"] by (intro u32_of_nat) simp
    have "log_last_sequence l - log_entries l + 1 + of_nat i = (log_last_sequence l - log_entries l + of_nat i) + 1" by simp
    then have "log_slot (log_last_sequence l - log_entries l + 1 + of_nat i) =
        unat (log_last_sequence l - log_entries l + of_nat i) mod 32" by (simp only: log_slot_word)
    also have "unat (log_last_sequence l - log_entries l + of_nat i) = unat (log_last_sequence l) - unat (log_entries l) + i"
      using le that i assms u32_unat_bound [of "log_last_sequence l"]
      by (subst u32_no_overflow) (auto simp: unat_sub log_ok_def)
    finally show ?thesis .
  qed
  then show ?thesis by (auto simp: log_walk_def Let_def)
qed

lemma increment_dropped_same [simp]:
  "log_records (increment_dropped l) = log_records l" "log_entries (increment_dropped l) = log_entries l"
  "log_next_sequence (increment_dropped l) = log_next_sequence l"
  "log_primask (increment_dropped l) = log_primask l"
  by (simp_all add: increment_dropped_def)

lemma critical_exit_same [simp]:
  "log_records (critical_exit p l) = log_records l" "log_entries (critical_exit p l) = log_entries l"
  "log_next_sequence (critical_exit p l) = log_next_sequence l" "log_lost (critical_exit p l) = log_lost l"
  by (simp_all add: critical_exit_def)

lemma log_write_fields:
  assumes "log_next_sequence l \<noteq> 0"
  shows "log_records (log_write now sev src ev p n l) =
      (log_records l)[log_slot (log_next_sequence l) :=
         log_fill now (log_next_sequence l) sev src ev p (if n > LOG_PAYLOAD then LOG_PAYLOAD else n)
           (log_records l ! log_slot (log_next_sequence l))]"
    and "log_entries (log_write now sev src ev p n l) = (if log_entries l < LOG_CAPACITY then log_entries l + 1 else log_entries l)"
    and "log_next_sequence (log_write now sev src ev p n l) =
      (if log_next_sequence l = UINT32_MAX then 0 else log_next_sequence l + 1)"
  using assms by (simp_all add: log_write_def critical_enter_def Let_def case_prod_unfold)

lemma log_write_full:
  assumes "log_next_sequence l = 0"
  shows "log_records (log_write now sev src ev p n l) = log_records l"
    and "log_entries (log_write now sev src ev p n l) = log_entries l"
    and "log_next_sequence (log_write now sev src ev p n l) = 0"
  using assms by (simp_all add: log_write_def critical_enter_def)

lemma u32_inc_zero: "(w :: u32) + 1 = 0 \<longleftrightarrow> w = UINT32_MAX"
proof
  assume "w + 1 = 0"
  then have "w = - 1" by (simp add: eq_neg_iff_add_eq_0)
  then show "w = UINT32_MAX" by simp
qed simp

lemma log_write_last:
  assumes "log_next_sequence l \<noteq> 0"
  shows "log_last_sequence (log_write now sev src ev p n l) = log_next_sequence l"
    and "unat (log_last_sequence (log_write now sev src ev p n l)) = Suc (unat (log_last_sequence l))"
proof -
  show last: "log_last_sequence (log_write now sev src ev p n l) = log_next_sequence l"
    using assms u32_inc_zero [of "log_next_sequence l"] by (auto simp: log_last_sequence_def log_write_fields)
  have pos: "0 < unat (log_next_sequence l)" using assms by (simp add: unat_gt_0)
  then have "unat (log_next_sequence l - 1) = unat (log_next_sequence l) - 1"
    by (simp add: unat_sub word_le_nat_alt)
  with pos show "unat (log_last_sequence (log_write now sev src ev p n l)) = Suc (unat (log_last_sequence l))"
    using assms unfolding last by (simp add: log_last_sequence_def)
qed

lemma log_write_ok: "log_ok l \<Longrightarrow> log_ok (log_write now sev src ev p n l)"
proof (cases "log_next_sequence l = 0")
  case False
  assume ok: "log_ok l"
  show ?thesis using ok False
    by (auto simp: log_ok_def log_write_fields log_write_last(2) word_less_nat_alt unat_word_ariths)
qed (simp add: log_ok_def log_write_full log_last_sequence_def)

lemma ring_distinct:
  fixes L d :: nat
  assumes "0 < d" "d < 32" "d \<le> L"
  shows "(L - d) mod 32 \<noteq> L mod 32"
proof
  assume "(L - d) mod 32 = L mod 32"
  then have "32 dvd L - (L - d)" by (metis mod_eq_dvd_iff_nat diff_le_self)
  with assms show False by (auto dest: dvd_imp_le)
qed

text \<open>One write adds one record at the end, and drops the oldest one when the ring is full.\<close>

lemma log_walk_write:
  assumes ok: "log_ok l" and seq: "log_next_sequence l \<noteq> 0"
    and r_def: "r = log_fill now (log_next_sequence l) sev src ev p (if n > LOG_PAYLOAD then LOG_PAYLOAD else n)
           (log_records l ! log_slot (log_next_sequence l))"
  shows "log_walk (log_write now sev src ev p n l) =
    (if log_entries l < LOG_CAPACITY then log_walk l else tl (log_walk l)) @ [r]"
proof -
  define L c where "L = unat (log_last_sequence l)" and "c = unat (log_entries l)"
  have c: "c \<le> 32" "c \<le> L" "length (log_records l) = 32" using ok by (auto simp: log_ok_def L_def c_def)
  have slot: "log_slot (log_next_sequence l) = L mod 32"
  proof -
    have "log_next_sequence l = log_last_sequence l + 1" using seq by (simp add: log_last_sequence_def)
    then show ?thesis using log_slot_word [of "log_last_sequence l"] by (simp add: L_def)
  qed
  let ?rs = "(log_records l)[L mod 32 := r]"
  have old: "log_walk l = map (\<lambda>i. log_records l ! ((L - c + i) mod 32)) [0..<c]"
    using log_walk_nat [OF ok] by (simp add: L_def c_def)
  show ?thesis
  proof (cases "log_entries l < LOG_CAPACITY")
    case True
    then have lt: "c < 32" by (simp add: c_def word_less_nat_alt)
    have ent: "unat (log_entries l + 1) = Suc c" using lt by (simp add: c_def unat_word_ariths)
    have keep: "?rs ! ((L - c + i) mod 32) = log_records l ! ((L - c + i) mod 32)" if "i < c" for i
    proof -
      have "L - c + i = L - (c - i)" using that c by simp
      moreover have "(L - (c - i)) mod 32 \<noteq> L mod 32" using that lt c by (intro ring_distinct) auto
      ultimately show ?thesis by simp
    qed
    have "log_walk (log_write now sev src ev p n l) = map (\<lambda>i. ?rs ! ((L - c + i) mod 32)) [0..<Suc c]"
      using log_walk_nat [OF log_write_ok [OF ok], of now sev src ev p n] True seq slot ent
      by (simp add: log_write_last(2) log_write_fields r_def L_def [symmetric])
    also have "\<dots> = log_walk l @ [r]" using c keep by (simp add: old)
    finally show ?thesis using True by simp
  next
    case False
    then have c32: "c = 32" "log_entries l = 32" using c
      by (auto simp: c_def word_less_nat_alt not_less dest!: le_antisym simp: word_unat_eq_iff)
    have keep: "?rs ! ((L - 31 + i) mod 32) = log_records l ! ((L - 31 + i) mod 32)" if "i < 31" for i
    proof -
      have "L - 31 + i = L - (31 - i)" using that c c32 by simp
      moreover have "(L - (31 - i)) mod 32 \<noteq> L mod 32" using that c c32 by (intro ring_distinct) auto
      ultimately show ?thesis by simp
    qed
    have "log_walk (log_write now sev src ev p n l) = map (\<lambda>i. ?rs ! ((L - 31 + i) mod 32)) [0..<32]"
      using log_walk_nat [OF log_write_ok [OF ok], of now sev src ev p n] c32 seq slot c
      by (simp add: log_write_last(2) log_write_fields r_def L_def [symmetric] Suc_diff_le)
    also have "[0..<32] = [0..<31] @ [31::nat]" by (simp add: upt_rec)
    also have "map (\<lambda>i. ?rs ! ((L - 31 + i) mod 32)) ([0..<31] @ [31]) =
        map (\<lambda>i. log_records l ! ((L - 31 + i) mod 32)) [0..<31] @ [r]" using c c32 keep by simp
    also have "map (\<lambda>i. log_records l ! ((L - 31 + i) mod 32)) [0..<31] = tl (log_walk l)"
    proof -
      have "[0..<32] = 0 # map Suc [0..<31]" by (simp add: upt_rec map_Suc_upt)
      then have "tl (log_walk l) = map (\<lambda>i. log_records l ! ((L - 32 + Suc i) mod 32)) [0..<31]"
        unfolding old c32 by (simp add: comp_def)
      also have "\<dots> = map (\<lambda>i. log_records l ! ((L - 31 + i) mod 32)) [0..<31]"
      proof -
        have "L - 32 + Suc i = L - 31 + i" for i using c c32 by simp
        then show ?thesis by (simp only:)
      qed
      finally show ?thesis by simp
    qed
    finally show ?thesis using c32 by simp
  qed
qed

section \<open>Refinement of an unbounded list\<close>

text \<open>
  The operations on the ring, and the history they make: the entries since the last clearing, the
  next number, and how many events were lost.
\<close>

datatype log_op =
    LOG_WRITE u32 log_severity u16 u16 "bytes option" u8
  | LOG_CLEAR

fun log_step :: "log_op \<Rightarrow> platform_log \<Rightarrow> platform_log" where
  "log_step (LOG_WRITE now sev src ev p n) l = log_write now sev src ev p n l"
| "log_step LOG_CLEAR l = log_clear l"

type_synonym log_item = "u32 \<times> u32 \<times> u16 \<times> u16 \<times> u8"

record log_history =
  items :: "log_item list"
  upcoming :: nat
  losses :: nat

fun history_step :: "log_op \<Rightarrow> log_history \<Rightarrow> log_history" where
  "history_step (LOG_WRITE now sev src ev p n) h =
     (if upcoming h \<le> SIZE_MAX
      then h\<lparr>items := items h @ [(of_nat (upcoming h), now, src, ev, severity_code sev)],
             upcoming := Suc (upcoming h),
             losses := losses h + (if n > LOG_PAYLOAD then 1 else 0) + (if length (items h) \<ge> 32 then 1 else 0)\<rparr>
      else h\<lparr>losses := Suc (losses h)\<rparr>)"
| "history_step LOG_CLEAR h = h\<lparr>items := [], losses := 0\<rparr>"

definition newest :: "nat \<Rightarrow> 'a list \<Rightarrow> 'a list" where
  "newest n xs = drop (length xs - n) xs"

definition log_item :: "log_record \<Rightarrow> log_item" where
  "log_item r = (lr_sequence r, lr_timestamp r, lr_source r, lr_event r, lr_severity r)"

definition log_abs :: "platform_log \<Rightarrow> log_history \<Rightarrow> bool" where
  "log_abs l h \<longleftrightarrow> log_ok l \<and> map log_item (log_walk l) = newest 32 (items h) \<and>
     Suc (unat (log_last_sequence l)) = upcoming h \<and> unat (log_lost l) = min (losses h) SIZE_MAX"

lemma newest_snoc:
  "newest 32 (xs @ [x]) = (if length xs < 32 then newest 32 xs else tl (newest 32 xs)) @ [x]"
proof (cases "length xs < 32")
  case False
  then have "length xs - 31 = Suc (length xs - 32)" by simp
  then show ?thesis using False by (simp add: newest_def drop_Suc tl_drop)
qed (simp add: newest_def)

lemma log_walk_length [simp]: "length (log_walk l) = unat (log_entries l)"
  by (simp add: log_walk_def Let_def)

definition bump :: "u32 \<Rightarrow> u32" where
  "bump w = (if w \<noteq> UINT32_MAX then w + 1 else w)"

lemma increment_dropped_lost [simp]: "log_lost (increment_dropped l) = bump (log_lost l)"
  by (simp add: increment_dropped_def bump_def)

lemma bump_min: "unat w = min n SIZE_MAX \<Longrightarrow> unat (bump w) = min (Suc n) SIZE_MAX"
  using u32_unat_bound [of w] by (auto simp: bump_def word_unat_eq_iff unat_word_ariths min_def split: if_splits)

lemma log_write_lost:
  "log_lost (log_write now sev src ev p k l) =
     (if log_next_sequence l = 0 then bump (log_lost l)
      else let w = (if k > LOG_PAYLOAD then bump (log_lost l) else log_lost l)
           in if log_entries l < LOG_CAPACITY then w else bump w)"
  by (simp add: log_write_def critical_enter_def Let_def case_prod_unfold)

lemma log_clear_fields:
  "log_records (log_clear l) = log_records l" "log_entries (log_clear l) = 0"
  "log_next_sequence (log_clear l) = log_next_sequence l" "log_lost (log_clear l) = 0"
  "log_last_sequence (log_clear l) = log_last_sequence l"
  by (simp_all add: log_clear_def critical_enter_def log_last_sequence_def)

lemma log_abs_write:
  assumes abs: "log_abs l h"
  shows "log_abs (log_write now sev src ev p n l) (history_step (LOG_WRITE now sev src ev p n) h)"
proof -
  from abs have ok: "log_ok l" and walk: "map log_item (log_walk l) = newest 32 (items h)"
    and next': "Suc (unat (log_last_sequence l)) = upcoming h" and lost: "unat (log_lost l) = min (losses h) SIZE_MAX"
    by (auto simp: log_abs_def)
  show ?thesis
  proof (cases "log_next_sequence l = 0")
    case True
    then have "upcoming h = Suc SIZE_MAX" using next' by (simp add: log_last_sequence_def)
    moreover have "log_walk (log_write now sev src ev p n l) = log_walk l"
      using True by (simp add: log_walk_def log_write_full log_last_sequence_def)
    ultimately show ?thesis
      using True ok walk next' bump_min [OF lost] log_write_ok [OF ok]
      by (simp add: log_abs_def log_write_lost log_write_full log_last_sequence_def)
  next
    case False
    have up: "upcoming h = unat (log_next_sequence l)"
      using next' log_write_last [OF False, of now sev src ev p n] by simp
    have num: "of_nat (upcoming h) = log_next_sequence l" "upcoming h \<le> SIZE_MAX"
      unfolding up by (simp, rule u32_unat_bound)
    have full: "log_entries l < LOG_CAPACITY \<longleftrightarrow> length (items h) < 32"
      using arg_cong [OF walk, of length] by (auto simp: newest_def word_less_nat_alt)
    note bumps = bump_min bump_min [OF bump_min, simplified]
    have "map log_item (log_walk (log_write now sev src ev p n l)) =
        newest 32 (items h @ [(log_next_sequence l, now, src, ev, severity_code sev)])"
      by (simp add: log_walk_write [OF ok False refl] newest_snoc walk [symmetric] full map_tl)
        (simp add: log_item_def log_fill_def)
    then show ?thesis
      using num next' log_write_ok [OF ok] log_write_last(2) [OF False] lost full False bumps [OF lost]
      by (simp add: log_abs_def log_write_lost Let_def)
  qed
qed

lemma log_abs_step: "log_abs l h \<Longrightarrow> log_abs (log_step op l) (history_step op h)"
proof (cases op)
  case LOG_CLEAR
  assume "log_abs l h"
  with LOG_CLEAR show ?thesis
    by (simp add: log_abs_def log_ok_def log_clear_fields log_walk_def newest_def)
qed (simp only: log_step.simps log_abs_write)

lemma log_abs_init:
  "length (log_records l) = 32 \<Longrightarrow> log_abs (log_init l) \<lparr>items = [], upcoming = 1, losses = 0\<rparr>"
  by (simp add: log_abs_def log_ok_def log_init_def log_last_sequence_def log_walk_def newest_def)

text \<open>
  C26. The event ring refines an unbounded log: after any sequence of writes and clearings, what
  \<^verbatim>\<open>log_show\<close> walks over is the newest 32 of the events written since the last clearing, in order and
  with consecutive sequence numbers, and the counter of lost events is exact until it saturates.
\<close>

theorem log_refines_history:
  assumes "length (log_records l) = 32"
  shows "map log_item (log_walk (fold log_step ops (log_init l))) =
      newest 32 (items (fold history_step ops \<lparr>items = [], upcoming = 1, losses = 0\<rparr>)) \<and>
    unat (log_dropped (fold log_step ops (log_init l))) =
      min (losses (fold history_step ops \<lparr>items = [], upcoming = 1, losses = 0\<rparr>)) SIZE_MAX"
proof -
  have "log_abs (fold log_step ops l') (fold history_step ops h)" if "log_abs l' h" for l' h
    using that by (induction ops arbitrary: l' h) (auto intro: log_abs_step)
  from this [OF log_abs_init [OF assms]] show ?thesis by (simp add: log_abs_def log_dropped_def)
qed

definition sample_log :: platform_log where
  "sample_log =
     \<lparr>log_records = replicate 32 \<lparr>lr_sequence = 0, lr_timestamp = 0, lr_source = 0, lr_event = 0,
                                 lr_severity = 0, lr_length = 0, lr_payload = replicate 12 0\<rparr>,
      log_next_sequence = 0, log_entries = 0, log_lost = 0, log_primask = 0\<rparr>"

theorem log_refines_history_witness:
  "map log_item (log_walk (fold log_step [LOG_WRITE 5 LOG_INFO 0x66 1 None 0, LOG_CLEAR, LOG_WRITE 9 LOG_ERROR 0x66 3 None 0]
     (log_init sample_log))) = [(2, 9, 0x66, 3, 3)]"
proof -
  have "length (log_records sample_log) = 32" by (simp add: sample_log_def)
  from log_refines_history [OF this, of "[LOG_WRITE 5 LOG_INFO 0x66 1 None 0, LOG_CLEAR, LOG_WRITE 9 LOG_ERROR 0x66 3 None 0]"]
  show ?thesis by (simp add: newest_def)
qed

text \<open>The critical section gives the interrupt mask back.\<close>

lemma log_write_primask:
  "log_primask l \<in> {0, 1} \<Longrightarrow> log_primask (log_write now sev src ev p n l) = log_primask l"
  by (auto simp: log_write_def critical_enter_def critical_exit_def Let_def case_prod_unfold)

lemma log_clear_primask: "log_primask l \<in> {0, 1} \<Longrightarrow> log_primask (log_clear l) = log_primask l"
  by (auto simp: log_clear_def critical_enter_def critical_exit_def)

end
