(* ===== verification/Memory_Layout.thy ===== *)
theory Memory_Layout
  imports Boot_Prelude
begin

text \<open>
  The generated memory layout (\<^verbatim>\<open>firmware/common/stm32f429_memory_layout.h\<close>, profile
  \<^verbatim>\<open>stm32f429_1m\<close>): each preprocessor constant that the boot loader uses is an
  abbreviation for its numeral, as the macro is. The sector geometry of the device is the
  list \<open>boot_flash_sectors\<close> of \<^verbatim>\<open>boot_flash.c\<close>.
\<close>

section \<open>Flash, slots and RAM\<close>

abbreviation (input) FLASH_BASE :: u32 where "FLASH_BASE \<equiv> 0x08000000"
abbreviation (input) FLASH_TOTAL_SIZE :: nat where "FLASH_TOTAL_SIZE \<equiv> 0x00100000"
abbreviation (input) FLASH_END :: u32 where "FLASH_END \<equiv> 0x08100000"
abbreviation (input) BOOTLOADER_BASE :: u32 where "BOOTLOADER_BASE \<equiv> 0x08000000"
abbreviation (input) BOOTLOADER_END :: u32 where "BOOTLOADER_END \<equiv> 0x08008000"
abbreviation (input) BOOT_METADATA_FORMAT_VERSION :: u32 where "BOOT_METADATA_FORMAT_VERSION \<equiv> 1"
abbreviation (input) BOOT_METADATA_RECORD_SIZE :: nat where "BOOT_METADATA_RECORD_SIZE \<equiv> 0x80"
abbreviation (input) BOOT_METADATA_A_BASE :: u32 where "BOOT_METADATA_A_BASE \<equiv> 0x08008000"
abbreviation (input) BOOT_METADATA_A_END :: u32 where "BOOT_METADATA_A_END \<equiv> 0x0800C000"
abbreviation (input) BOOT_METADATA_A_FIRST_SECTOR :: u32 where "BOOT_METADATA_A_FIRST_SECTOR \<equiv> 2"
abbreviation (input) BOOT_METADATA_B_BASE :: u32 where "BOOT_METADATA_B_BASE \<equiv> 0x0800C000"
abbreviation (input) BOOT_METADATA_B_END :: u32 where "BOOT_METADATA_B_END \<equiv> 0x08010000"
abbreviation (input) BOOT_METADATA_B_FIRST_SECTOR :: u32 where "BOOT_METADATA_B_FIRST_SECTOR \<equiv> 3"
abbreviation (input) UPDATE_METADATA_BASE :: u32 where "UPDATE_METADATA_BASE \<equiv> 0x08010000"
abbreviation (input) UPDATE_METADATA_END :: u32 where "UPDATE_METADATA_END \<equiv> 0x08020000"
abbreviation (input) SLOT_A_ID :: u32 where "SLOT_A_ID \<equiv> 0"
abbreviation (input) SLOT_A_SIGNED_IMAGE_BASE :: u32 where "SLOT_A_SIGNED_IMAGE_BASE \<equiv> 0x08020000"
abbreviation (input) SLOT_A_MANIFEST_BASE :: u32 where "SLOT_A_MANIFEST_BASE \<equiv> 0x08020000"
abbreviation (input) SLOT_A_SIGNATURE_BASE :: u32 where "SLOT_A_SIGNATURE_BASE \<equiv> 0x08020060"
abbreviation (input) SLOT_A_PAYLOAD_BASE :: u32 where "SLOT_A_PAYLOAD_BASE \<equiv> 0x08020200"
abbreviation (input) SLOT_A_END :: u32 where "SLOT_A_END \<equiv> 0x08080000"
abbreviation (input) SLOT_A_PAYLOAD_MAX_SIZE :: u32 where "SLOT_A_PAYLOAD_MAX_SIZE \<equiv> 0x0005FE00"
abbreviation (input) SLOT_A_FIRST_SECTOR :: u32 where "SLOT_A_FIRST_SECTOR \<equiv> 5"
abbreviation (input) SLOT_A_LAST_SECTOR :: u32 where "SLOT_A_LAST_SECTOR \<equiv> 7"
abbreviation (input) SLOT_B_ID :: u32 where "SLOT_B_ID \<equiv> 1"
abbreviation (input) SLOT_B_SIGNED_IMAGE_BASE :: u32 where "SLOT_B_SIGNED_IMAGE_BASE \<equiv> 0x08080000"
abbreviation (input) SLOT_B_MANIFEST_BASE :: u32 where "SLOT_B_MANIFEST_BASE \<equiv> 0x08080000"
abbreviation (input) SLOT_B_SIGNATURE_BASE :: u32 where "SLOT_B_SIGNATURE_BASE \<equiv> 0x08080060"
abbreviation (input) SLOT_B_PAYLOAD_BASE :: u32 where "SLOT_B_PAYLOAD_BASE \<equiv> 0x08080200"
abbreviation (input) SLOT_B_END :: u32 where "SLOT_B_END \<equiv> 0x080E0000"
abbreviation (input) SLOT_B_PAYLOAD_MAX_SIZE :: u32 where "SLOT_B_PAYLOAD_MAX_SIZE \<equiv> 0x0005FE00"
abbreviation (input) SLOT_B_FIRST_SECTOR :: u32 where "SLOT_B_FIRST_SECTOR \<equiv> 8"
abbreviation (input) SLOT_B_LAST_SECTOR :: u32 where "SLOT_B_LAST_SECTOR \<equiv> 10"
abbreviation (input) RECOVERY_BASE :: u32 where "RECOVERY_BASE \<equiv> 0x080E0000"
abbreviation (input) RECOVERY_END :: u32 where "RECOVERY_END \<equiv> 0x08100000"
abbreviation (input) SIGNED_MANIFEST_SIZE :: nat where "SIGNED_MANIFEST_SIZE \<equiv> 0x60"
abbreviation (input) SIGNED_SIGNATURE_SIZE :: nat where "SIGNED_SIGNATURE_SIZE \<equiv> 0x40"
abbreviation (input) SIGNED_IMAGE_HEADER_SIZE :: nat where "SIGNED_IMAGE_HEADER_SIZE \<equiv> 0x200"
abbreviation (input) APPLICATION_BASE_ADDRESS :: u32 where "APPLICATION_BASE_ADDRESS \<equiv> 0x08020200"
abbreviation (input) APPLICATION_FLASH_END :: u32 where "APPLICATION_FLASH_END \<equiv> 0x08080000"
abbreviation (input) MAX_PAYLOAD_SIZE :: u32 where "MAX_PAYLOAD_SIZE \<equiv> 0x0005FE00"
abbreviation (input) APPLICATION_MIN_SIZE :: u32 where "APPLICATION_MIN_SIZE \<equiv> 8"
abbreviation (input) SIGNED_IMAGE_FLAGS_ALLOWED_MASK :: u32 where "SIGNED_IMAGE_FLAGS_ALLOWED_MASK \<equiv> 0"
abbreviation (input) APPLICATION_MSP_BASE :: u32 where "APPLICATION_MSP_BASE \<equiv> 0x20000000"
abbreviation (input) APPLICATION_MSP_END :: u32 where "APPLICATION_MSP_END \<equiv> 0x20020000"
abbreviation (input) APPLICATION_MSP_ALIGNMENT :: u32 where "APPLICATION_MSP_ALIGNMENT \<equiv> 8"

section \<open>Sector geometry\<close>

record boot_flash_sector =
  sector_id :: u32
  sector_bank :: u32
  sector_base :: u32
  sector_size :: u32
  sector_end :: u32

definition mk_sector :: "u32 \<Rightarrow> u32 \<Rightarrow> u32 \<Rightarrow> u32 \<Rightarrow> u32 \<Rightarrow> boot_flash_sector" where
  "mk_sector i bank base sz e =
     \<lparr>sector_id = i, sector_bank = bank, sector_base = base, sector_size = sz,
      sector_end = e\<rparr>"

definition boot_flash_sectors :: "boot_flash_sector list" where
  "boot_flash_sectors =
     [mk_sector 0 1 0x08000000 0x04000 0x08004000,
      mk_sector 1 1 0x08004000 0x04000 0x08008000,
      mk_sector 2 1 0x08008000 0x04000 0x0800C000,
      mk_sector 3 1 0x0800C000 0x04000 0x08010000,
      mk_sector 4 1 0x08010000 0x10000 0x08020000,
      mk_sector 5 1 0x08020000 0x20000 0x08040000,
      mk_sector 6 1 0x08040000 0x20000 0x08060000,
      mk_sector 7 1 0x08060000 0x20000 0x08080000,
      mk_sector 8 1 0x08080000 0x20000 0x080A0000,
      mk_sector 9 1 0x080A0000 0x20000 0x080C0000,
      mk_sector 10 1 0x080C0000 0x20000 0x080E0000,
      mk_sector 11 1 0x080E0000 0x20000 0x08100000]"

lemma length_boot_flash_sectors [simp]: "length boot_flash_sectors = 12"
  by (simp add: boot_flash_sectors_def)

text \<open>
  A check over all twelve sectors, in executable form, and its consequence for a sector
  selected by its identifier.
\<close>

definition sector_row_ok :: "boot_flash_sector \<Rightarrow> bool" where
  "sector_row_ok s \<longleftrightarrow>
     FLASH_BASE \<le> sector_base s \<and> sector_end s \<le> FLASH_END \<and>
     unat (sector_base s) + unat (sector_size s) = unat (sector_end s) \<and>
     0 < sector_size s"

lemma sector_rows_ok: "list_all sector_row_ok boot_flash_sectors"
  by (simp add: boot_flash_sectors_def sector_row_ok_def mk_sector_def)

lemma sector_row_nth:
  "i < 12 \<Longrightarrow> sector_row_ok (boot_flash_sectors ! i)"
  using sector_rows_ok by (simp add: list_all_length)

end
