(* ===== verification/Boot_Slot.thy ===== *)
theory Boot_Slot
  imports Memory_Layout
begin

text \<open>
  The two application slots (\<^verbatim>\<open>boot_slot.h\<close>, \<^verbatim>\<open>boot_slot.c\<close>): the descriptor, the table of
  the two slots and the lookup by slot number. A failed lookup (status
  \<^verbatim>\<open>BOOT_SLOT_LOOKUP_INVALID\<close>, descriptor pointer NULL) is \<open>None\<close>. The static
  assertions of \<^verbatim>\<open>boot_slot.c\<close> are the geometry lemmas of the second section.
\<close>

section \<open>Descriptors and lookup\<close>

abbreviation (input) BOOT_SLOT_NONE :: u32 where "BOOT_SLOT_NONE \<equiv> 0xFFFFFFFF"

datatype boot_slot_id = BOOT_SLOT_A | BOOT_SLOT_B

fun slot_num :: "boot_slot_id \<Rightarrow> u32" where
  "slot_num BOOT_SLOT_A = 0"
| "slot_num BOOT_SLOT_B = 1"

record boot_slot_descriptor =
  slot_id :: boot_slot_id
  signed_image_base :: u32
  manifest_address :: u32
  signature_address :: u32
  payload_base :: u32
  slot_end :: u32
  maximum_payload_size :: u32
  first_sector :: u32
  last_sector :: u32

definition boot_slot_a :: boot_slot_descriptor where
  "boot_slot_a =
     \<lparr>slot_id = BOOT_SLOT_A,
      signed_image_base = SLOT_A_SIGNED_IMAGE_BASE,
      manifest_address = SLOT_A_MANIFEST_BASE,
      signature_address = SLOT_A_SIGNATURE_BASE,
      payload_base = SLOT_A_PAYLOAD_BASE,
      slot_end = SLOT_A_END,
      maximum_payload_size = SLOT_A_PAYLOAD_MAX_SIZE,
      first_sector = SLOT_A_FIRST_SECTOR,
      last_sector = SLOT_A_LAST_SECTOR\<rparr>"

definition boot_slot_b :: boot_slot_descriptor where
  "boot_slot_b =
     \<lparr>slot_id = BOOT_SLOT_B,
      signed_image_base = SLOT_B_SIGNED_IMAGE_BASE,
      manifest_address = SLOT_B_MANIFEST_BASE,
      signature_address = SLOT_B_SIGNATURE_BASE,
      payload_base = SLOT_B_PAYLOAD_BASE,
      slot_end = SLOT_B_END,
      maximum_payload_size = SLOT_B_PAYLOAD_MAX_SIZE,
      first_sector = SLOT_B_FIRST_SECTOR,
      last_sector = SLOT_B_LAST_SECTOR\<rparr>"

definition boot_slots :: "boot_slot_descriptor list" where
  "boot_slots = [boot_slot_a, boot_slot_b]"

definition boot_slot_lookup :: "u32 \<Rightarrow> boot_slot_descriptor option" where
  "boot_slot_lookup slot_id' =
     (if unat slot_id' \<ge> length boot_slots then None
      else if slot_num (slot_id (boot_slots ! unat slot_id')) \<noteq> slot_id' then None
      else Some (boot_slots ! unat slot_id'))"

definition boot_slot_default :: boot_slot_descriptor where
  "boot_slot_default = boot_slots ! unat (slot_num BOOT_SLOT_A)"

section \<open>Facts about the table\<close>

lemmas boot_slot_rows [slot_simps] = boot_slot_a_def boot_slot_b_def

lemma boot_slot_lookup_simps [simp]:
  "boot_slot_lookup 0 = Some boot_slot_a"
  "boot_slot_lookup 1 = Some boot_slot_b"
  "boot_slot_lookup BOOT_SLOT_NONE = None"
  by (simp_all add: boot_slot_lookup_def boot_slots_def boot_slot_rows)

lemma unat_less_2_cases: "unat (w :: u32) < 2 \<Longrightarrow> w = 0 \<or> w = 1"
proof -
  assume "unat w < 2"
  then have "unat w = 0 \<or> unat w = 1" by linarith
  then show ?thesis by (auto simp: word_unat_eq_iff)
qed

lemma boot_slot_lookup_Some:
  "boot_slot_lookup w = Some d \<longleftrightarrow>
     (w = 0 \<and> d = boot_slot_a) \<or> (w = 1 \<and> d = boot_slot_b)"
proof (cases "unat w < 2")
  case True
  then show ?thesis by (auto dest!: unat_less_2_cases)
next
  case False
  then have "boot_slot_lookup w = None" by (simp add: boot_slot_lookup_def boot_slots_def)
  moreover from False have "w \<noteq> 0" "w \<noteq> 1" by auto
  ultimately show ?thesis by simp
qed

lemma boot_slot_lookup_id:
  "boot_slot_lookup w = Some d \<Longrightarrow> slot_num (slot_id d) = w"
  by (auto simp: boot_slot_lookup_Some boot_slot_rows)

lemma boot_slot_lookup_num [simp]:
  "boot_slot_lookup (slot_num s) = Some (if s = BOOT_SLOT_A then boot_slot_a else boot_slot_b)"
  by (cases s) auto

lemma boot_slot_lookup_None:
  "boot_slot_lookup w = None \<longleftrightarrow> w \<noteq> 0 \<and> w \<noteq> 1"
  using boot_slot_lookup_Some [of w] by (cases "boot_slot_lookup w") auto

end
