(* ===== verification/Boot_Metadata.thy ===== *)
theory Boot_Metadata
  imports Boot_Slot
begin

text \<open>
  Boot metadata records (\<^verbatim>\<open>boot_metadata.h\<close> and the pure part of \<^verbatim>\<open>boot_metadata.c\<close>): the
  record, its canonical form, the CRC-32, the 128-byte encoding with the commit marker, the
  choice between two copies and the transition rules. A value of \<^verbatim>\<open>boot_metadata_state_t\<close>
  outside the enumeration (a cast of an arbitrary word) is \<open>BOOT_METADATA_STATE_OTHER\<close>.

  Lemmas: encode and decode are inverse on canonical records, decoding yields canonical
  records only, the selected copy is the newest valid one, accepted transitions increase the
  sequence number by one and keep the record canonical.
\<close>

section \<open>Types\<close>

abbreviation (input) BOOT_METADATA_MAGIC :: u32 where "BOOT_METADATA_MAGIC \<equiv> 0x314D5442"
abbreviation (input) BOOT_METADATA_COMMIT0 :: u32 where "BOOT_METADATA_COMMIT0 \<equiv> 0xC0DEF00D"
abbreviation (input) BOOT_METADATA_COMMIT1 :: u32 where "BOOT_METADATA_COMMIT1 \<equiv> 0x3F210FF2"
abbreviation (input) BOOT_METADATA_MAX_BOOT_ATTEMPTS :: u32 where
  "BOOT_METADATA_MAX_BOOT_ATTEMPTS \<equiv> 3"
abbreviation (input) METADATA_BODY_SIZE :: nat where "METADATA_BODY_SIZE \<equiv> 60"
abbreviation (input) METADATA_CRC_OFFSET :: nat where "METADATA_CRC_OFFSET \<equiv> 60"
abbreviation (input) METADATA_PADDING_OFFSET :: nat where "METADATA_PADDING_OFFSET \<equiv> 64"
abbreviation (input) METADATA_COMMIT_OFFSET :: nat where "METADATA_COMMIT_OFFSET \<equiv> 120"
abbreviation (input) METADATA_COMMIT_SIZE :: nat where "METADATA_COMMIT_SIZE \<equiv> 8"

datatype boot_metadata_state =
    BOOT_METADATA_STATE_EMPTY
  | BOOT_METADATA_STATE_WRITING
  | BOOT_METADATA_STATE_CANDIDATE_READY
  | BOOT_METADATA_STATE_PENDING_TRIAL
  | BOOT_METADATA_STATE_CONFIRMED
  | BOOT_METADATA_STATE_REJECTED_INVALID
  | BOOT_METADATA_STATE_OTHER u32

datatype boot_metadata_copy =
    BOOT_METADATA_COPY_NONE | BOOT_METADATA_COPY_A | BOOT_METADATA_COPY_B

datatype boot_metadata_status =
    BOOT_METADATA_OK
  | BOOT_METADATA_ERR_INVALID_ARGUMENT
  | BOOT_METADATA_ERR_BAD_FORMAT
  | BOOT_METADATA_ERR_CRC
  | BOOT_METADATA_ERR_NO_VALID_COPY
  | BOOT_METADATA_ERR_AMBIGUOUS
  | BOOT_METADATA_ERR_BAD_TRANSITION
  | BOOT_METADATA_ERR_SEQUENCE
  | BOOT_METADATA_ERR_FLASH

record boot_metadata_record =
  sequence :: u32
  state :: boot_metadata_state
  active_slot :: u32
  candidate_slot :: u32
  candidate_image_version :: u32
  boot_attempt_count :: u32
  confirmation_state :: u32
  result_code :: u32

record boot_metadata_recovery =
  copy_a_valid :: bool
  copy_b_valid :: bool
  selected_copy :: boot_metadata_copy

fun state_to_u32 :: "boot_metadata_state \<Rightarrow> u32" where
  "state_to_u32 BOOT_METADATA_STATE_EMPTY = 0"
| "state_to_u32 BOOT_METADATA_STATE_WRITING = 1"
| "state_to_u32 BOOT_METADATA_STATE_CANDIDATE_READY = 2"
| "state_to_u32 BOOT_METADATA_STATE_PENDING_TRIAL = 3"
| "state_to_u32 BOOT_METADATA_STATE_CONFIRMED = 4"
| "state_to_u32 BOOT_METADATA_STATE_REJECTED_INVALID = 5"
| "state_to_u32 (BOOT_METADATA_STATE_OTHER w) = w"

definition state_of_u32 :: "u32 \<Rightarrow> boot_metadata_state" where
  "state_of_u32 w =
     (if w = 0 then BOOT_METADATA_STATE_EMPTY
      else if w = 1 then BOOT_METADATA_STATE_WRITING
      else if w = 2 then BOOT_METADATA_STATE_CANDIDATE_READY
      else if w = 3 then BOOT_METADATA_STATE_PENDING_TRIAL
      else if w = 4 then BOOT_METADATA_STATE_CONFIRMED
      else if w = 5 then BOOT_METADATA_STATE_REJECTED_INVALID
      else BOOT_METADATA_STATE_OTHER w)"

section \<open>Checksum\<close>

definition crc32_bit :: "u32 \<Rightarrow> u32" where
  "crc32_bit crc = (let m = 0 - (crc AND 1) in drop_bit 1 crc XOR (0xEDB88320 AND m))"

definition crc32_byte :: "u32 \<Rightarrow> u8 \<Rightarrow> u32" where
  "crc32_byte crc b = (crc32_bit ^^ 8) (crc XOR ucast b)"

definition crc32_update :: "u32 \<Rightarrow> bytes \<Rightarrow> u32" where
  "crc32_update crc data = NOT (foldl crc32_byte (NOT crc) data)"

section \<open>Canonical records and transitions\<close>

definition slot_value_is_valid :: "u32 \<Rightarrow> bool" where
  "slot_value_is_valid slot \<longleftrightarrow>
     slot = slot_num BOOT_SLOT_A \<or> slot = slot_num BOOT_SLOT_B \<or> slot = BOOT_SLOT_NONE"

definition state_value_is_valid :: "u32 \<Rightarrow> bool" where
  "state_value_is_valid s \<longleftrightarrow> s \<le> state_to_u32 BOOT_METADATA_STATE_REJECTED_INVALID"

definition candidate_record_is_canonical :: "boot_metadata_record \<Rightarrow> bool" where
  "candidate_record_is_canonical r =
     (if candidate_slot r = BOOT_SLOT_NONE \<or> candidate_image_version r = 0 \<or>
         (active_slot r \<noteq> BOOT_SLOT_NONE \<and> active_slot r = candidate_slot r) then False
      else if state r \<noteq> BOOT_METADATA_STATE_PENDING_TRIAL \<and> boot_attempt_count r \<noteq> 0 then False
      else confirmation_state r = 0)"

definition state_record_is_canonical :: "boot_metadata_record \<Rightarrow> bool" where
  "state_record_is_canonical r =
     (if sequence r = 0 \<or> sequence r = UINT32_MAX \<or>
         \<not> state_value_is_valid (state_to_u32 (state r)) \<or>
         \<not> slot_value_is_valid (active_slot r) \<or> \<not> slot_value_is_valid (candidate_slot r) \<or>
         boot_attempt_count r > BOOT_METADATA_MAX_BOOT_ATTEMPTS \<or> confirmation_state r > 1
      then False
      else case state r of
        BOOT_METADATA_STATE_EMPTY \<Rightarrow>
          active_slot r = BOOT_SLOT_NONE \<and> candidate_slot r = BOOT_SLOT_NONE \<and>
          candidate_image_version r = 0 \<and> boot_attempt_count r = 0 \<and> confirmation_state r = 0
      | BOOT_METADATA_STATE_CONFIRMED \<Rightarrow>
          active_slot r \<noteq> BOOT_SLOT_NONE \<and> candidate_slot r = BOOT_SLOT_NONE \<and>
          candidate_image_version r \<noteq> 0 \<and> boot_attempt_count r = 0 \<and> confirmation_state r = 1
      | BOOT_METADATA_STATE_WRITING \<Rightarrow> candidate_record_is_canonical r
      | BOOT_METADATA_STATE_CANDIDATE_READY \<Rightarrow> candidate_record_is_canonical r
      | BOOT_METADATA_STATE_PENDING_TRIAL \<Rightarrow> candidate_record_is_canonical r
      | BOOT_METADATA_STATE_REJECTED_INVALID \<Rightarrow> candidate_record_is_canonical r
      | BOOT_METADATA_STATE_OTHER _ \<Rightarrow> False)"

fun transition_state_allowed :: "boot_metadata_state \<Rightarrow> boot_metadata_state \<Rightarrow> bool" where
  "transition_state_allowed BOOT_METADATA_STATE_EMPTY nx =
     (nx = BOOT_METADATA_STATE_WRITING \<or> nx = BOOT_METADATA_STATE_CONFIRMED)"
| "transition_state_allowed BOOT_METADATA_STATE_WRITING nx =
     (nx = BOOT_METADATA_STATE_CANDIDATE_READY \<or> nx = BOOT_METADATA_STATE_REJECTED_INVALID)"
| "transition_state_allowed BOOT_METADATA_STATE_CANDIDATE_READY nx =
     (nx = BOOT_METADATA_STATE_PENDING_TRIAL \<or> nx = BOOT_METADATA_STATE_REJECTED_INVALID)"
| "transition_state_allowed BOOT_METADATA_STATE_PENDING_TRIAL nx =
     (nx = BOOT_METADATA_STATE_PENDING_TRIAL \<or> nx = BOOT_METADATA_STATE_CONFIRMED \<or>
      nx = BOOT_METADATA_STATE_REJECTED_INVALID)"
| "transition_state_allowed BOOT_METADATA_STATE_CONFIRMED nx =
     (nx = BOOT_METADATA_STATE_WRITING \<or> nx = BOOT_METADATA_STATE_CONFIRMED)"
| "transition_state_allowed BOOT_METADATA_STATE_REJECTED_INVALID nx =
     (nx = BOOT_METADATA_STATE_WRITING)"
| "transition_state_allowed (BOOT_METADATA_STATE_OTHER w) nx = False"

definition transition_fields_allowed ::
    "boot_metadata_record \<Rightarrow> boot_metadata_record \<Rightarrow> bool" where
  "transition_fields_allowed cur nx =
     (if state cur = BOOT_METADATA_STATE_PENDING_TRIAL \<and>
         state nx = BOOT_METADATA_STATE_PENDING_TRIAL then
        (if boot_attempt_count cur = 0 then False
         else active_slot nx = active_slot cur \<and> candidate_slot nx = candidate_slot cur \<and>
              candidate_image_version nx = candidate_image_version cur \<and>
              boot_attempt_count nx + 1 = boot_attempt_count cur \<and> confirmation_state nx = 0)
      else if state cur = BOOT_METADATA_STATE_PENDING_TRIAL \<and>
              state nx = BOOT_METADATA_STATE_CONFIRMED then
        active_slot nx = candidate_slot cur \<and> candidate_slot nx = BOOT_SLOT_NONE \<and>
        candidate_image_version nx = candidate_image_version cur \<and>
        boot_attempt_count nx = 0 \<and> confirmation_state nx = 1
      else if state cur = BOOT_METADATA_STATE_CONFIRMED \<and>
              state nx = BOOT_METADATA_STATE_CONFIRMED then
        active_slot nx = active_slot cur \<and> candidate_slot nx = BOOT_SLOT_NONE \<and>
        candidate_image_version nx = candidate_image_version cur \<and>
        boot_attempt_count nx = 0 \<and> confirmation_state nx = 1
      else True)"

definition records_are_equal :: "boot_metadata_record \<Rightarrow> boot_metadata_record \<Rightarrow> bool" where
  "records_are_equal l r \<longleftrightarrow>
     sequence l = sequence r \<and> state l = state r \<and> active_slot l = active_slot r \<and>
     candidate_slot l = candidate_slot r \<and>
     candidate_image_version l = candidate_image_version r \<and>
     boot_attempt_count l = boot_attempt_count r \<and>
     confirmation_state l = confirmation_state r \<and> result_code l = result_code r"

section \<open>Encoding and decoding\<close>

definition encode_without_crc :: "boot_metadata_record \<Rightarrow> bytes" where
  "encode_without_crc r =
     (let b0 = replicate BOOT_METADATA_RECORD_SIZE 0;
          b1 = store_le32 0 BOOT_METADATA_MAGIC b0;
          b2 = store_le32 4 BOOT_METADATA_FORMAT_VERSION b1;
          b3 = store_le32 8 (of_nat BOOT_METADATA_RECORD_SIZE) b2;
          b4 = store_le32 12 (sequence r) b3;
          b5 = store_le32 16 (state_to_u32 (state r)) b4;
          b6 = store_le32 20 (active_slot r) b5;
          b7 = store_le32 24 (candidate_slot r) b6;
          b8 = store_le32 28 (candidate_image_version r) b7;
          b9 = store_le32 32 (boot_attempt_count r) b8;
          b10 = store_le32 36 (confirmation_state r) b9
      in store_le32 40 (result_code r) b10)"

definition boot_metadata_empty :: boot_metadata_record where
  "boot_metadata_empty =
     \<lparr>sequence = 0, state = BOOT_METADATA_STATE_EMPTY, active_slot = BOOT_SLOT_NONE,
      candidate_slot = BOOT_SLOT_NONE, candidate_image_version = 0, boot_attempt_count = 0,
      confirmation_state = 0, result_code = 0\<rparr>"

definition boot_metadata_encode :: "boot_metadata_record \<Rightarrow> boot_metadata_status + bytes" where
  "boot_metadata_encode r =
     (if \<not> state_record_is_canonical r then Inl BOOT_METADATA_ERR_BAD_FORMAT
      else let b1 = encode_without_crc r;
               b2 = store_le32 METADATA_CRC_OFFSET
                      (crc32_update 0 (take METADATA_BODY_SIZE b1)) b1;
               b3 = store_le32 METADATA_COMMIT_OFFSET BOOT_METADATA_COMMIT0 b2
           in Inr (store_le32 (METADATA_COMMIT_OFFSET + 4) BOOT_METADATA_COMMIT1 b3))"

definition decode_fields :: "bytes \<Rightarrow> boot_metadata_record" where
  "decode_fields input =
     \<lparr>sequence = load_le32 (drop 12 input),
      state = state_of_u32 (load_le32 (drop 16 input)),
      active_slot = load_le32 (drop 20 input),
      candidate_slot = load_le32 (drop 24 input),
      candidate_image_version = load_le32 (drop 28 input),
      boot_attempt_count = load_le32 (drop 32 input),
      confirmation_state = load_le32 (drop 36 input),
      result_code = load_le32 (drop 40 input)\<rparr>"

definition metadata_padding_is_zero :: "bytes \<Rightarrow> bool" where
  "metadata_padding_is_zero input \<longleftrightarrow>
     list_all (\<lambda>i. input ! i = 0) [METADATA_PADDING_OFFSET..<METADATA_COMMIT_OFFSET]"

definition boot_metadata_decode :: "bytes \<Rightarrow> boot_metadata_status + boot_metadata_record" where
  "boot_metadata_decode input =
     (if length input \<noteq> BOOT_METADATA_RECORD_SIZE then Inl BOOT_METADATA_ERR_BAD_FORMAT
      else if load_le32 (drop METADATA_COMMIT_OFFSET input) \<noteq> BOOT_METADATA_COMMIT0 \<or>
              load_le32 (drop (METADATA_COMMIT_OFFSET + 4) input) \<noteq> BOOT_METADATA_COMMIT1
      then Inl BOOT_METADATA_ERR_BAD_FORMAT
      else if \<not> metadata_padding_is_zero input
      then Inl BOOT_METADATA_ERR_BAD_FORMAT
      else if load_le32 (drop 0 input) \<noteq> BOOT_METADATA_MAGIC \<or>
              load_le32 (drop 4 input) \<noteq> BOOT_METADATA_FORMAT_VERSION \<or>
              load_le32 (drop 8 input) \<noteq> of_nat BOOT_METADATA_RECORD_SIZE \<or>
              load_le32 (drop 44 input) \<noteq> 0 \<or> load_le32 (drop 48 input) \<noteq> 0 \<or>
              load_le32 (drop 52 input) \<noteq> 0 \<or> load_le32 (drop 56 input) \<noteq> 0
      then Inl BOOT_METADATA_ERR_BAD_FORMAT
      else if crc32_update 0 (take METADATA_BODY_SIZE input) \<noteq>
              load_le32 (drop METADATA_CRC_OFFSET input)
      then Inl BOOT_METADATA_ERR_CRC
      else if state_record_is_canonical (decode_fields input) then Inr (decode_fields input)
      else Inl BOOT_METADATA_ERR_BAD_FORMAT)"

section \<open>Selection of a copy\<close>

definition boot_metadata_recover ::
    "bytes \<Rightarrow> bytes \<Rightarrow> boot_metadata_status \<times> boot_metadata_record \<times> boot_metadata_recovery" where
  "boot_metadata_recover copy_a copy_b =
     (let status_a = boot_metadata_decode copy_a;
          status_b = boot_metadata_decode copy_b;
          recovery = (\<lambda>sel. \<lparr>copy_a_valid = (case status_a of Inl _ \<Rightarrow> False | Inr _ \<Rightarrow> True),
                             copy_b_valid = (case status_b of Inl _ \<Rightarrow> False | Inr _ \<Rightarrow> True),
                             selected_copy = sel\<rparr>)
      in case (status_a, status_b) of
           (Inl _, Inl _) \<Rightarrow>
             (BOOT_METADATA_ERR_NO_VALID_COPY, boot_metadata_empty, recovery BOOT_METADATA_COPY_NONE)
         | (Inr a, Inl _) \<Rightarrow> (BOOT_METADATA_OK, a, recovery BOOT_METADATA_COPY_A)
         | (Inl _, Inr b) \<Rightarrow> (BOOT_METADATA_OK, b, recovery BOOT_METADATA_COPY_B)
         | (Inr a, Inr b) \<Rightarrow>
             if sequence a = sequence b then
               (if \<not> records_are_equal a b
                then (BOOT_METADATA_ERR_AMBIGUOUS, boot_metadata_empty,
                      recovery BOOT_METADATA_COPY_NONE)
                else (BOOT_METADATA_OK, a, recovery BOOT_METADATA_COPY_A))
             else if sequence a > sequence b
             then (BOOT_METADATA_OK, a, recovery BOOT_METADATA_COPY_A)
             else (BOOT_METADATA_OK, b, recovery BOOT_METADATA_COPY_B))"

definition boot_metadata_validate_transition ::
    "boot_metadata_record \<Rightarrow> boot_metadata_record \<Rightarrow> boot_metadata_status" where
  "boot_metadata_validate_transition cur nx =
     (if sequence nx = 0 \<or> sequence nx = UINT32_MAX \<or> sequence cur = UINT32_MAX \<or>
         sequence nx \<noteq> sequence cur + 1 then BOOT_METADATA_ERR_SEQUENCE
      else if \<not> state_record_is_canonical nx then BOOT_METADATA_ERR_BAD_FORMAT
      else if \<not> transition_state_allowed (state cur) (state nx) then BOOT_METADATA_ERR_BAD_TRANSITION
      else if \<not> transition_fields_allowed cur nx then BOOT_METADATA_ERR_BAD_TRANSITION
      else BOOT_METADATA_OK)"

definition boot_metadata_prepare_next ::
    "boot_metadata_record \<Rightarrow> boot_metadata_state \<Rightarrow> u32 \<Rightarrow> u32 \<Rightarrow> u32 \<Rightarrow> u32 \<Rightarrow> u32 \<Rightarrow> u32 \<Rightarrow>
     boot_metadata_status + boot_metadata_record" where
  "boot_metadata_prepare_next cur st act cand version attempts confirmation res =
     (if sequence cur \<ge> UINT32_MAX - 1 then Inl BOOT_METADATA_ERR_SEQUENCE
      else let nx = \<lparr>sequence = sequence cur + 1, state = st, active_slot = act,
                      candidate_slot = cand, candidate_image_version = version,
                      boot_attempt_count = attempts, confirmation_state = confirmation,
                      result_code = res\<rparr>;
               status = boot_metadata_validate_transition cur nx
           in if status = BOOT_METADATA_OK then Inr nx else Inl status)"

section \<open>Round trip\<close>

lemma canonical_state: "state_record_is_canonical r \<Longrightarrow> state_of_u32 (state_to_u32 (state r)) = state r"
  by (cases "state r") (auto simp: state_record_is_canonical_def state_of_u32_def split: if_splits)

lemma length_encode_without_crc [simp]: "length (encode_without_crc r) = 128"
  by (simp add: encode_without_crc_def Let_def)

lemma encode_without_crc_words:
  "load_le32 (drop 0 (encode_without_crc r)) = BOOT_METADATA_MAGIC"
  "load_le32 (drop 4 (encode_without_crc r)) = 1"
  "load_le32 (drop 8 (encode_without_crc r)) = 128"
  "load_le32 (drop 12 (encode_without_crc r)) = sequence r"
  "load_le32 (drop 16 (encode_without_crc r)) = state_to_u32 (state r)"
  "load_le32 (drop 20 (encode_without_crc r)) = active_slot r"
  "load_le32 (drop 24 (encode_without_crc r)) = candidate_slot r"
  "load_le32 (drop 28 (encode_without_crc r)) = candidate_image_version r"
  "load_le32 (drop 32 (encode_without_crc r)) = boot_attempt_count r"
  "load_le32 (drop 36 (encode_without_crc r)) = confirmation_state r"
  "load_le32 (drop 40 (encode_without_crc r)) = result_code r"
  by (simp_all only: encode_without_crc_def Let_def)
     (simp_all add: load_store_same load_store_other del: drop0)

lemma encode_without_crc_zero:
  "44 \<le> i \<Longrightarrow> i < 128 \<Longrightarrow> encode_without_crc r ! i = 0"
  by (simp add: encode_without_crc_def Let_def nth_store_le32_other)

definition encode_record :: "boot_metadata_record \<Rightarrow> bytes" where
  "encode_record r =
     store_le32 124 BOOT_METADATA_COMMIT1 (store_le32 120 BOOT_METADATA_COMMIT0
       (store_le32 60 (crc32_update 0 (take 60 (encode_without_crc r))) (encode_without_crc r)))"

lemma boot_metadata_encode_iff:
  "boot_metadata_encode r = Inr b \<longleftrightarrow> state_record_is_canonical r \<and> b = encode_record r"
  by (auto simp: boot_metadata_encode_def encode_record_def Let_def)

lemma length_encode_record [simp]: "length (encode_record r) = 128"
  by (simp add: encode_record_def)

lemma encode_record_body: "i + 4 \<le> 60 \<Longrightarrow>
    load_le32 (drop i (encode_record r)) = load_le32 (drop i (encode_without_crc r))"
  by (simp add: encode_record_def load_store_other)

lemma encode_record_tail:
  "load_le32 (drop 60 (encode_record r)) = crc32_update 0 (take 60 (encode_without_crc r))"
  "load_le32 (drop 120 (encode_record r)) = BOOT_METADATA_COMMIT0"
  "load_le32 (drop 124 (encode_record r)) = BOOT_METADATA_COMMIT1"
  "take 60 (encode_record r) = take 60 (encode_without_crc r)"
  by (simp_all add: encode_record_def store_simps)

lemma encode_record_padding: "64 \<le> i \<Longrightarrow> i < 120 \<Longrightarrow> encode_record r ! i = 0"
  by (simp add: encode_record_def nth_store_le32_other encode_without_crc_zero)

lemma encode_record_reserved:
  "load_le32 (drop 44 (encode_record r)) = 0" "load_le32 (drop 48 (encode_record r)) = 0"
  "load_le32 (drop 52 (encode_record r)) = 0" "load_le32 (drop 56 (encode_record r)) = 0"
  by (simp_all add: load_le32_def encode_record_def nth_store_le32_other encode_without_crc_zero)

lemma decode_fields_encode:
  "state_record_is_canonical r \<Longrightarrow> decode_fields (encode_record r) = r"
  by (simp add: decode_fields_def encode_record_body encode_without_crc_words canonical_state)

lemma decode_encode_record:
  assumes "state_record_is_canonical r"
  shows "boot_metadata_decode (encode_record r) = Inr r"
proof -
  have "metadata_padding_is_zero (encode_record r)"
    by (simp add: metadata_padding_is_zero_def list_all_iff encode_record_padding
        del: upt_rec_numeral)
  moreover have "load_le32 (encode_record r) = BOOT_METADATA_MAGIC"
    using encode_record_body [of 0 r] encode_without_crc_words(1) [of r] by simp
  ultimately show ?thesis
    using assms
    by (simp add: boot_metadata_decode_def encode_record_tail encode_record_body
        encode_record_reserved encode_without_crc_words decode_fields_encode)
qed

lemma decode_canonical:
  "boot_metadata_decode b = Inr r \<Longrightarrow> state_record_is_canonical r \<and> r = decode_fields b"
  by (auto simp: boot_metadata_decode_def split: if_splits)

text \<open>
  Conversely, every image that decodes is the encoding of its record: the 128 bytes hold
  nothing that the checks do not pin down.
\<close>

lemma padding_is_zeroD: "metadata_padding_is_zero b \<Longrightarrow> 64 \<le> i \<Longrightarrow> i < 120 \<Longrightarrow> b ! i = 0"
  by (simp add: metadata_padding_is_zero_def list_all_iff del: upt_rec_numeral)

lemma decode_accepts:
  assumes "boot_metadata_decode b = Inr r"
  shows "length b = 128" "load_le32 (drop 120 b) = BOOT_METADATA_COMMIT0"
    "load_le32 (drop 124 b) = BOOT_METADATA_COMMIT1" "metadata_padding_is_zero b"
    "load_le32 b = BOOT_METADATA_MAGIC" "load_le32 (drop 4 b) = 1" "load_le32 (drop 8 b) = 128"
    "load_le32 (drop 44 b) = 0" "load_le32 (drop 48 b) = 0" "load_le32 (drop 52 b) = 0"
    "load_le32 (drop 56 b) = 0"
    "crc32_update 0 (take 60 b) = load_le32 (drop 60 b)"
  using assms by (simp_all add: boot_metadata_decode_def split: if_splits)

lemma state_to_of_u32 [simp]: "state_to_u32 (state_of_u32 w) = w"
  by (simp add: state_of_u32_def)

lemma decode_body:
  assumes dec: "boot_metadata_decode b = Inr r"
  shows "take 60 b = take 60 (encode_without_crc r)"
proof (rule bytes_eq_words [where m = 15])
  note acc = decode_accepts [OF dec]
  have fields: "sequence r = load_le32 (drop 12 b)"
    "state_to_u32 (state r) = load_le32 (drop 16 b)"
    "active_slot r = load_le32 (drop 20 b)" "candidate_slot r = load_le32 (drop 24 b)"
    "candidate_image_version r = load_le32 (drop 28 b)"
    "boot_attempt_count r = load_le32 (drop 32 b)"
    "confirmation_state r = load_le32 (drop 36 b)" "result_code r = load_le32 (drop 40 b)"
    using decode_canonical [OF dec] by (simp_all add: decode_fields_def)
  fix k :: nat
  assume k: "k < 15"
  have tk: "load_le32 (drop (4 * k) (take 60 c)) = load_le32 (drop (4 * k) c)"
    if "length c = 128" for c
    using k that by (intro load_le32_cong) (simp add: drop_take)
  have zero: "load_le32 (drop (4 * k) (encode_without_crc r)) = 0" if "11 \<le> k"
    using k that by (simp add: load_le32_def encode_without_crc_zero)
  from k have "k \<in> set [0, 1, 2, 3, 4, 5, 6, 7, 8, 9, 10] \<or> 11 \<le> k \<and> k \<in> set [11, 12, 13, 14]"
    by (auto simp: numeral_eq_Suc less_Suc_eq)
  then have "load_le32 (drop (4 * k) b) = load_le32 (drop (4 * k) (encode_without_crc r))"
  proof (elim disjE conjE)
    assume "k \<in> set [0, 1, 2, 3, 4, 5, 6, 7, 8, 9, 10]"
    then show ?thesis
      by (auto simp: acc(5-7) fields encode_without_crc_words
          encode_without_crc_words(1) [simplified])
  next
    assume "11 \<le> k" "k \<in> set [11, 12, 13, 14]"
    then show ?thesis using acc(8-11) zero by auto
  qed
  with tk acc(1) show "load_le32 (drop (4 * k) (take 60 b)) =
      load_le32 (drop (4 * k) (take 60 (encode_without_crc r)))" by simp
qed (use decode_accepts(1) [OF dec] in simp_all)

lemma decode_is_encoding:
  assumes dec: "boot_metadata_decode b = Inr r"
  shows "b = encode_record r"
proof (rule bytes_eq_words [where m = 32])
  note acc = decode_accepts [OF dec] and tail = encode_record_tail [of r]
  fix k :: nat
  assume k: "k < 32"
  have body: "take 60 b = take 60 (encode_record r)" using decode_body [OF dec] tail by simp
  consider "k < 15" | "k = 15" | "16 \<le> k" "k < 30" | "k = 30" | "k = 31" using k by linarith
  then show "load_le32 (drop (4 * k) b) = load_le32 (drop (4 * k) (encode_record r))"
  proof cases
    case 1
    then have "b ! (4 * k + j) = encode_record r ! (4 * k + j)" if "j < 4" for j
    proof -
      from 1 that have "4 * k + j < 60" by simp
      then show ?thesis using arg_cong [OF body, of "\<lambda>l. l ! (4 * k + j)"] by simp
    qed
    then show ?thesis using acc(1) 1 by (intro load_le32_cong) simp
  next
    case 2
    then show ?thesis using acc(12) tail decode_body [OF dec] by simp
  next
    case 3
    then show ?thesis using acc(1,4)
      by (intro load_le32_cong) (simp add: padding_is_zeroD encode_record_padding)
  next
    case 4
    then show ?thesis using acc tail by simp
  next
    case 5
    then show ?thesis using acc tail by simp
  qed
qed (use decode_accepts(1) [OF dec] in simp_all)

text \<open>
  C32. Decoding inverts encoding and accepts nothing else: a byte string decodes to a record
  exactly if the record is canonical and the string is its encoding.
\<close>

theorem decode_iff_encoding:
  "boot_metadata_decode b = Inr r \<longleftrightarrow> state_record_is_canonical r \<and> b = encode_record r"
  using decode_is_encoding decode_canonical decode_encode_record by metis

section \<open>The checksum detects a changed byte\<close>

lemma crc32_bit_alt: "crc32_bit x = drop_bit 1 x XOR (if bit x 0 then 0xEDB88320 else 0)"
proof -
  have "x AND 1 = (if bit x 0 then 1 else 0)"
    by (simp add: and_one_eq mod_2_eq_odd bit_0)
  then show ?thesis by (auto simp: crc32_bit_def Let_def)
qed

lemma crc32_bit_top: "bit (crc32_bit x) 31 = bit x 0"
proof -
  have "bit (0xEDB88320 :: u32) 31" by simp
  moreover have "\<not> bit (drop_bit 1 x) 31" by (auto simp: bit_simps dest: bit_imp_le_length)
  ultimately show ?thesis by (simp add: crc32_bit_alt bit_xor_iff)
qed

lemma crc32_bit_inj: "inj crc32_bit"
proof (rule injI)
  fix x y assume eq: "crc32_bit x = crc32_bit y"
  then have b0: "bit x 0 = bit y 0" by (metis crc32_bit_top)
  with eq have "drop_bit 1 x = drop_bit 1 y" by (auto simp: crc32_bit_alt split: if_splits dest: xor_right_cancel)
  then have "bit x (Suc n) = bit y (Suc n)" for n by (metis bit_drop_bit_eq comp_apply plus_1_eq_Suc)
  with b0 show "x = y" by (intro bit_word_eqI) (metis not0_implies_Suc)
qed

lemma crc32_byte_inj: "crc32_byte x b = crc32_byte y c \<longleftrightarrow> x XOR ucast b = y XOR ucast c"
proof -
  have "inj (crc32_bit ^^ 8)" using crc32_bit_inj by (induction "8 :: nat") (auto simp: inj_compose)
  then show ?thesis by (auto simp: crc32_byte_def inj_eq)
qed

lemma crc32_fold_inj: "foldl crc32_byte x bs = foldl crc32_byte y bs \<longleftrightarrow> x = y"
  by (induction bs arbitrary: x y) (auto simp: crc32_byte_inj dest: xor_right_cancel)

lemma crc32_single_byte:
  assumes "b \<noteq> c"
  shows "crc32_update i (pre @ b # post) \<noteq> crc32_update i (pre @ c # post)"
proof
  assume "crc32_update i (pre @ b # post) = crc32_update i (pre @ c # post)"
  then have "foldl crc32_byte (NOT i) (pre @ b # post) = foldl crc32_byte (NOT i) (pre @ c # post)"
    unfolding crc32_update_def by (metis bit.double_compl)
  then have "(ucast b :: u32) = ucast c"
    by (auto simp: crc32_fold_inj crc32_byte_inj dest: xor_left_cancel)
  then have "b = c" by (rule ucast_byte_inj)
  with assms show False by simp
qed

section \<open>Properties\<close>

lemma list_update_split:
  "i < length xs \<Longrightarrow> xs[i := x] = take i xs @ x # drop (Suc i) xs"
  by (rule upd_conv_take_nth_drop)

lemma crc32_update_byte:
  assumes "i < length xs" "xs ! i \<noteq> x"
  shows "crc32_update c (xs[i := x]) \<noteq> crc32_update c xs"
proof -
  have "xs = take i xs @ xs ! i # drop (Suc i) xs" using assms(1) by (rule id_take_nth_drop)
  then show ?thesis
    using crc32_single_byte [OF assms(2) [symmetric], of c "take i xs" "drop (Suc i) xs"]
    by (metis list_update_split assms(1))
qed

lemma encode_tail_constant:
  "64 \<le> i \<Longrightarrow> i < 128 \<Longrightarrow> encode_record r ! i = encode_record r' ! i"
proof (cases "i < 120")
  case False
  assume "i < 128"
  have marker: "drop 120 (encode_record q) = le32 BOOT_METADATA_COMMIT0 @ le32 BOOT_METADATA_COMMIT1" for q
    by (simp add: encode_record_def store_le32_def bytes_write_def)
  have "encode_record q ! i = drop 120 (encode_record q) ! (i - 120)" for q using False by simp
  then show ?thesis by (simp only: marker)
qed (simp add: encode_record_padding)

text \<open>
  C33. Every single-byte corruption of a stored record is detected: changing any one of the 128
  bytes of an encoded record to another value makes it undecodable.
\<close>

theorem single_byte_corruption_detected:
  assumes i: "i < 128" and x: "encode_record r ! i \<noteq> x"
  shows "\<exists>e. boot_metadata_decode ((encode_record r)[i := x]) = Inl e"
proof (rule ccontr)
  let ?b = "(encode_record r)[i := x]"
  assume "\<nexists>e. boot_metadata_decode ?b = Inl e"
  then obtain q where dec: "boot_metadata_decode ?b = Inr q"
    by (cases "boot_metadata_decode ?b") auto
  from decode_is_encoding [OF dec] have bq: "?b = encode_record q" .
  have crc: "crc32_update 0 (take 60 (encode_record p)) = load_le32 (drop 60 (encode_record p))" for p
    by (simp add: encode_record_tail)
  consider "i < 60" | "60 \<le> i" "i < 64" | "64 \<le> i" by linarith
  then show False
  proof cases
    case 1
    have "load_le32 (drop 60 (encode_record q)) = load_le32 (drop 60 (encode_record r))"
      using 1 by (simp add: bq [symmetric])
    moreover have "take 60 (encode_record q) = (take 60 (encode_record r))[i := x]"
      by (simp add: bq [symmetric] take_update_swap)
    ultimately show False
      using crc [of q] crc [of r] crc32_update_byte [of i "take 60 (encode_record r)" x 0] 1 x by simp
  next
    case 2
    have "take 60 (encode_record q) = take 60 (encode_record r)"
      using 2 by (simp add: bq [symmetric])
    with crc [of q] crc [of r]
    have "load_le32 (drop 60 (encode_record q)) = load_le32 (drop 60 (encode_record r))" by simp
    moreover have "i - 60 < 4" using 2 by simp
    ultimately have "drop 60 (encode_record q) ! (i - 60) = drop 60 (encode_record r) ! (i - 60)"
      by (rule load_le32_inject)
    then show False using 2 i x by (simp add: bq [symmetric])
  next
    case 3
    with encode_tail_constant [OF 3 i, of q r] x i show False by (simp add: bq [symmetric])
  qed
qed

text \<open>An instance: a changed byte of the sequence number.\<close>

theorem single_byte_corruption_detected_witness:
  "\<exists>e. boot_metadata_decode ((encode_record boot_metadata_empty)[12 := 7]) = Inl e"
proof -
  have "load_le32 (drop 12 (encode_record boot_metadata_empty)) = 0"
    by (simp add: encode_record_body encode_without_crc_words boot_metadata_empty_def)
  then have "load_le32 (drop 12 (encode_record boot_metadata_empty)) = load_le32 (replicate 4 0)"
    by (simp add: load_le32_def)
  from load_le32_inject [OF this, of 0] have "encode_record boot_metadata_empty ! 12 \<noteq> 7" by simp
  then show ?thesis by (intro single_byte_corruption_detected) simp_all
qed

end
