(* ===== verification/Runtime_Monitor_Core.thy ===== *)
theory Runtime_Monitor_Core
  imports Platform_Log Boot_Metadata
begin

text \<open>
  The pure part of the runtime security monitor (\<^verbatim>\<open>runtime_monitor_core.h\<close>,
  \<^verbatim>\<open>runtime_monitor_core.c\<close>): the diagnostic policy, event identifiers, names, the saturating counter,
  the clock decoding and the printer of the public status. A printer works on the state \<open>'o\<close> of the
  output that the callbacks \<open>putc\<close> and \<open>puts\<close> write to; texts are never NULL.

  Lemmas: the counter saturates instead of wrapping; the printed status can be read back.
\<close>

section \<open>Types\<close>

abbreviation (input) RSM_SCHEMA_VERSION :: u32 where "RSM_SCHEMA_VERSION \<equiv> 1"
abbreviation (input) RSM_EVENT_PAYLOAD_SIZE :: u8 where "RSM_EVENT_PAYLOAD_SIZE \<equiv> 12"
abbreviation (input) RSM_SLOT_NONE :: u32 where "RSM_SLOT_NONE \<equiv> 0xFFFFFFFF"

datatype rsm_status =
    RSM_STATUS_OK
  | RSM_STATUS_DEGRADED
  | RSM_STATUS_FAILED
  | RSM_STATUS_UNAVAILABLE
  | RSM_STATUS_BUSY
  | RSM_STATUS_INVALID_ARGUMENT

datatype rsm_severity =
    RSM_SEVERITY_DEBUG
  | RSM_SEVERITY_INFO
  | RSM_SEVERITY_WARNING
  | RSM_SEVERITY_ERROR
  | RSM_SEVERITY_CRITICAL

datatype rsm_information_class = RSM_INFO_PUBLIC | RSM_INFO_RESTRICTED | RSM_INFO_SECRET

text \<open>The event identifiers: the domain in the high byte.\<close>

abbreviation (input) RSM_EVENT_VECTOR_MONITOR_INITIALIZED :: u16 where "RSM_EVENT_VECTOR_MONITOR_INITIALIZED \<equiv> 0x0501"
abbreviation (input) RSM_EVENT_VECTOR_FULL_CYCLE_PASSED :: u16 where "RSM_EVENT_VECTOR_FULL_CYCLE_PASSED \<equiv> 0x0502"
abbreviation (input) RSM_EVENT_VECTOR_VTOR_MISMATCH :: u16 where "RSM_EVENT_VECTOR_VTOR_MISMATCH \<equiv> 0x0503"
abbreviation (input) RSM_EVENT_VECTOR_INITIAL_MSP_INVALID :: u16 where "RSM_EVENT_VECTOR_INITIAL_MSP_INVALID \<equiv> 0x0504"
abbreviation (input) RSM_EVENT_VECTOR_HANDLER_RANGE_FAILURE :: u16 where "RSM_EVENT_VECTOR_HANDLER_RANGE_FAILURE \<equiv> 0x0505"
abbreviation (input) RSM_EVENT_VECTOR_THUMB_BIT_FAILURE :: u16 where "RSM_EVENT_VECTOR_THUMB_BIT_FAILURE \<equiv> 0x0506"
abbreviation (input) RSM_EVENT_VECTOR_ENTRY_CHANGED :: u16 where "RSM_EVENT_VECTOR_ENTRY_CHANGED \<equiv> 0x0507"
abbreviation (input) RSM_EVENT_VECTOR_BASELINE_UNAVAILABLE :: u16 where "RSM_EVENT_VECTOR_BASELINE_UNAVAILABLE \<equiv> 0x0508"
abbreviation (input) RSM_EVENT_VECTOR_ALIGNMENT_FAILURE :: u16 where "RSM_EVENT_VECTOR_ALIGNMENT_FAILURE \<equiv> 0x0509"
abbreviation (input) RSM_EVENT_EVIDENCE_RUNTIME_READY :: u16 where "RSM_EVENT_EVIDENCE_RUNTIME_READY \<equiv> 0x0D01"
abbreviation (input) RSM_EVENT_DIAG_RESTRICTED_DENIED :: u16 where "RSM_EVENT_DIAG_RESTRICTED_DENIED \<equiv> 0x0C01"
abbreviation (input) RSM_EVENT_DIAG_SECRET_DENIED :: u16 where "RSM_EVENT_DIAG_SECRET_DENIED \<equiv> 0x0C02"
abbreviation (input) RSM_EVENT_RESET_CAUSE_CAPTURED :: u16 where "RSM_EVENT_RESET_CAUSE_CAPTURED \<equiv> 0x0901"
abbreviation (input) RSM_EVENT_WATCHDOG_INITIALIZED :: u16 where "RSM_EVENT_WATCHDOG_INITIALIZED \<equiv> 0x0B01"
abbreviation (input) RSM_EVENT_WATCHDOG_INIT_FAILED :: u16 where "RSM_EVENT_WATCHDOG_INIT_FAILED \<equiv> 0x0B02"
abbreviation (input) RSM_EVENT_HEALTH_GATE_PASSED :: u16 where "RSM_EVENT_HEALTH_GATE_PASSED \<equiv> 0x0B03"
abbreviation (input) RSM_EVENT_HEALTH_GATE_FAILED :: u16 where "RSM_EVENT_HEALTH_GATE_FAILED \<equiv> 0x0B04"
abbreviation (input) RSM_EVENT_MPU_POLICY_INITIALIZED :: u16 where "RSM_EVENT_MPU_POLICY_INITIALIZED \<equiv> 0x0401"
abbreviation (input) RSM_EVENT_MPU_POLICY_FAILED :: u16 where "RSM_EVENT_MPU_POLICY_FAILED \<equiv> 0x0402"

record rsm_security_counters =
  boot_failures :: u32
  integrity_failures :: u32
  signature_failures :: u32
  rollback_attempts :: u32
  watchdog_resets :: u32
  flash_errors :: u32
  option_policy_failures :: u32
  vector_table_changes :: u32
  ram_guard_failures :: u32
  fault_count :: u32
  event_log_overflows :: u32
  diagnostic_denials :: u32
  saturation_flags :: u32

record 'o rsm_output =
  out_putc :: "'o \<Rightarrow> u8 \<Rightarrow> 'o"
  out_puts :: "'o \<Rightarrow> bytes \<Rightarrow> 'o"

record rsm_public_status_output =
  ps_schema_version :: u32
  ps_status :: bytes
  ps_build_diagnostic_mode :: bytes
  ps_device_family :: bytes
  ps_device_id :: u32
  ps_revision_id :: u32
  ps_flash_kib :: u32
  ps_uid_fingerprint :: u32
  ps_cpu_core :: bytes
  ps_cpu_fpu :: bytes
  ps_cpu_mpu :: bytes
  ps_cpu_clock_source :: bytes
  ps_hclk_available :: bool
  ps_hclk_hz :: u32
  ps_cpuid :: u32
  ps_boot_sequence :: u32
  ps_boot_slot :: bytes
  ps_firmware_version_available :: bool
  ps_firmware_version :: u32
  ps_last_reset :: bytes
  ps_boot_self_tests :: bytes
  ps_security_flash :: bytes
  ps_security_vectors :: bytes
  ps_security_stack :: bytes
  ps_security_option_policy :: bytes
  ps_vector_status :: bytes
  ps_vector_failure_class :: bytes
  ps_vector_check_count :: u32
  ps_vector_failure_count :: u32
  ps_vector_latched_failure :: bytes
  ps_health_state :: bytes
  ps_last_event_sequence :: u32
  ps_last_fault :: bytes
  ps_timebase :: bytes
  ps_boot_context :: bytes
  ps_event_count :: u32
  ps_event_dropped :: u32
  ps_diagnostic_denials :: u32
  ps_event_log_overflows :: u32
  ps_restricted_policy :: bytes
  ps_secret_policy :: bytes

section \<open>Policy, names and counters\<close>

fun rsm_information_allowed :: "rsm_information_class \<Rightarrow> bool \<Rightarrow> bool" where
  "rsm_information_allowed RSM_INFO_PUBLIC restricted_enabled = True"
| "rsm_information_allowed RSM_INFO_RESTRICTED restricted_enabled = restricted_enabled"
| "rsm_information_allowed RSM_INFO_SECRET restricted_enabled = False"

definition rsm_event_domain :: "u16 \<Rightarrow> u32" where
  "rsm_event_domain event_id = ucast event_id AND 0xFF00"

definition rsm_crc32_update :: "u32 \<Rightarrow> bytes \<Rightarrow> u32" where
  "rsm_crc32_update crc data = NOT (foldl (\<lambda>c b. (crc32_bit ^^ 8) (c XOR ucast b)) (NOT crc) data)"

definition rsm_uid_fingerprint_words :: "u32 \<Rightarrow> u32 \<Rightarrow> u32 \<Rightarrow> u32" where
  "rsm_uid_fingerprint_words uid0 uid1 uid2 = rsm_crc32_update 0 (le32 uid0 @ le32 uid1 @ le32 uid2)"

definition rsm_reset_cause_name :: "u32 \<Rightarrow> bytes" where
  "rsm_reset_cause_name csr =
     (if csr AND 0x20000000 \<noteq> 0 then ascii ''iwdg''
      else if csr AND 0x40000000 \<noteq> 0 then ascii ''wwdg''
      else if csr AND 0x10000000 \<noteq> 0 then ascii ''software''
      else if csr AND 0x08000000 \<noteq> 0 then ascii ''power_on''
      else if csr AND 0x02000000 \<noteq> 0 then ascii ''brownout''
      else if csr AND 0x04000000 \<noteq> 0 then ascii ''pin''
      else if csr AND 0x80000000 \<noteq> 0 then ascii ''low_power''
      else ascii ''unknown'')"

definition rsm_slot_name :: "u32 \<Rightarrow> bytes" where
  "rsm_slot_name slot =
     (if slot = 0 then ascii ''A'' else if slot = 1 then ascii ''B'' else ascii ''unavailable'')"

definition rsm_bool_pass_fail :: "bool \<Rightarrow> bytes" where
  "rsm_bool_pass_fail passed = (if passed then ascii ''pass'' else ascii ''fail'')"

fun rsm_status_name :: "rsm_status \<Rightarrow> bytes" where
  "rsm_status_name RSM_STATUS_OK = ascii ''ok''"
| "rsm_status_name RSM_STATUS_DEGRADED = ascii ''degraded''"
| "rsm_status_name RSM_STATUS_FAILED = ascii ''failed''"
| "rsm_status_name RSM_STATUS_UNAVAILABLE = ascii ''unavailable''"
| "rsm_status_name RSM_STATUS_BUSY = ascii ''busy''"
| "rsm_status_name RSM_STATUS_INVALID_ARGUMENT = ascii ''invalid_argument''"

text \<open>The new value, and whether it has saturated.\<close>

definition rsm_saturating_increment :: "u32 \<Rightarrow> u32 \<times> bool" where
  "rsm_saturating_increment v = (if v \<ge> UINT32_MAX - 1 then (UINT32_MAX, True) else (v + 1, False))"

definition rsm_clock_source_name_from_cfgr :: "u32 \<Rightarrow> bytes" where
  "rsm_clock_source_name_from_cfgr cfgr =
     (let sws = drop_bit 2 cfgr AND 3
      in if sws = 0 then ascii ''hsi'' else if sws = 1 then ascii ''hse''
         else if sws = 2 then ascii ''pll'' else ascii ''unavailable'')"

definition hpre_divisor :: "u32 \<Rightarrow> u32" where
  "hpre_divisor cfgr =
     (let hpre = drop_bit 4 cfgr AND 0xF
      in if hpre = 8 then 2 else if hpre = 9 then 4 else if hpre = 0xA then 8 else if hpre = 0xB then 16
         else if hpre = 0xC then 64 else if hpre = 0xD then 128 else if hpre = 0xE then 256
         else if hpre = 0xF then 512 else 1)"

text \<open>Whether the frequency is known, and the frequency.\<close>

definition rsm_hclk_hz_from_cfgr :: "u32 \<Rightarrow> bool \<times> u32" where
  "rsm_hclk_hz_from_cfgr cfgr =
     (if drop_bit 2 cfgr AND 3 \<noteq> 0 then (False, 0) else (True, 16000000 div hpre_divisor cfgr))"

section \<open>The public status\<close>

definition out_u32 :: "'o rsm_output \<Rightarrow> u32 \<Rightarrow> 'o \<Rightarrow> 'o" where
  "out_u32 out v s = (if v = 0 then out_putc out s 0x30 else foldl (out_putc out) s (rev (u32_buffer v)))"

definition out_hex32 :: "'o rsm_output \<Rightarrow> u32 \<Rightarrow> bool \<Rightarrow> 'o \<Rightarrow> 'o" where
  "out_hex32 out v prefix s =
     foldl (out_putc out) (if prefix then out_puts out s (ascii ''0x'') else s)
       (map (\<lambda>shift. hex_digit (drop_bit shift v)) [28, 24, 20, 16, 12, 8, 4, 0])"

definition kv_str :: "'o rsm_output \<Rightarrow> string \<Rightarrow> bytes \<Rightarrow> 'o \<Rightarrow> 'o" where
  "kv_str out key val s = out_putc out (out_puts out (out_putc out (out_puts out s (ascii key)) 0x3D) val) 0x0A"

definition kv_u32 :: "'o rsm_output \<Rightarrow> string \<Rightarrow> u32 \<Rightarrow> 'o \<Rightarrow> 'o" where
  "kv_u32 out key val s = out_putc out (out_u32 out val (out_putc out (out_puts out s (ascii key)) 0x3D)) 0x0A"

definition kv_hex32 :: "'o rsm_output \<Rightarrow> string \<Rightarrow> u32 \<Rightarrow> bool \<Rightarrow> 'o \<Rightarrow> 'o" where
  "kv_hex32 out key val prefix s =
     out_putc out (out_hex32 out val prefix (out_putc out (out_puts out s (ascii key)) 0x3D)) 0x0A"

text \<open>One printer per line, in their order.\<close>

definition status_printers :: "rsm_public_status_output \<Rightarrow> 'o rsm_output \<Rightarrow> ('o \<Rightarrow> 'o) list" where
  "status_printers st out =
     [kv_u32 out ''rsm.schema'' (ps_schema_version st),
      kv_str out ''rsm.status'' (ps_status st),
      kv_str out ''rsm.build.diagnostic_mode'' (ps_build_diagnostic_mode st),
      kv_str out ''rsm.device.family'' (ps_device_family st),
      kv_hex32 out ''rsm.device.id'' (ps_device_id st) True,
      kv_hex32 out ''rsm.device.revision'' (ps_revision_id st) True,
      kv_u32 out ''rsm.device.flash_kib'' (ps_flash_kib st),
      kv_hex32 out ''rsm.device.uid_fingerprint'' (ps_uid_fingerprint st) False,
      kv_str out ''rsm.cpu.core'' (ps_cpu_core st),
      kv_str out ''rsm.cpu.fpu'' (ps_cpu_fpu st),
      kv_str out ''rsm.cpu.mpu'' (ps_cpu_mpu st),
      kv_str out ''rsm.cpu.clock_source'' (ps_cpu_clock_source st),
      (if ps_hclk_available st then kv_u32 out ''rsm.cpu.hclk_hz'' (ps_hclk_hz st)
       else kv_str out ''rsm.cpu.hclk_hz'' (ascii ''unavailable'')),
      kv_hex32 out ''rsm.cpu.cpuid'' (ps_cpuid st) True,
      kv_u32 out ''rsm.boot.sequence'' (ps_boot_sequence st),
      kv_str out ''rsm.boot.slot'' (ps_boot_slot st),
      (if ps_firmware_version_available st then kv_u32 out ''rsm.boot.firmware_version'' (ps_firmware_version st)
       else kv_str out ''rsm.boot.firmware_version'' (ascii ''unavailable'')),
      kv_str out ''rsm.boot.last_reset'' (ps_last_reset st),
      kv_str out ''rsm.boot.self_tests'' (ps_boot_self_tests st),
      kv_str out ''rsm.security.flash'' (ps_security_flash st),
      kv_str out ''rsm.security.vectors'' (ps_security_vectors st),
      kv_str out ''rsm.security.stack'' (ps_security_stack st),
      kv_str out ''rsm.security.option_policy'' (ps_security_option_policy st),
      kv_str out ''rsm.vector.status'' (ps_vector_status st),
      kv_str out ''rsm.vector.failure_class'' (ps_vector_failure_class st),
      kv_u32 out ''rsm.vector.checks'' (ps_vector_check_count st),
      kv_u32 out ''rsm.vector.failures'' (ps_vector_failure_count st),
      kv_str out ''rsm.vector.latched_failure'' (ps_vector_latched_failure st),
      kv_str out ''rsm.health.state'' (ps_health_state st),
      kv_u32 out ''rsm.evidence.last_event_sequence'' (ps_last_event_sequence st),
      kv_str out ''rsm.evidence.last_fault'' (ps_last_fault st),
      kv_str out ''rsm.evidence.timebase'' (ps_timebase st),
      kv_str out ''rsm.evidence.boot_context'' (ps_boot_context st),
      kv_u32 out ''rsm.events.count'' (ps_event_count st),
      kv_u32 out ''rsm.events.dropped'' (ps_event_dropped st),
      kv_u32 out ''rsm.counter.diagnostic_denials'' (ps_diagnostic_denials st),
      kv_u32 out ''rsm.counter.event_log_overflows'' (ps_event_log_overflows st),
      kv_str out ''rsm.policy.restricted'' (ps_restricted_policy st),
      kv_str out ''rsm.policy.secret'' (ps_secret_policy st)]"

definition rsm_format_public_status :: "rsm_public_status_output \<Rightarrow> 'o rsm_output \<Rightarrow> 'o \<Rightarrow> 'o" where
  "rsm_format_public_status st out s = fold (\<lambda>f. f) (status_printers st out) s"

section \<open>Counters and fingerprint\<close>

lemma rsm_saturating_increment_value:
  "unat (fst (rsm_saturating_increment v)) = min (Suc (unat v)) SIZE_MAX"
  "snd (rsm_saturating_increment v) \<longleftrightarrow> fst (rsm_saturating_increment v) = UINT32_MAX"
  using u32_unat_bound [of v]
  by (auto simp: rsm_saturating_increment_def word_le_nat_alt unat_word_ariths word_unat_eq_iff not_le)

lemma rsm_crc32_is_crc32: "rsm_crc32_update = crc32_update"
  by (intro ext) (simp add: rsm_crc32_update_def crc32_update_def crc32_byte_def [abs_def])

section \<open>The printed status can be read back\<close>

text \<open>The keys and the texts of their values, and a reader of such lines.\<close>

definition dec_text :: "u32 \<Rightarrow> bytes" where
  "dec_text v = decimal (unat v)"

definition hex_text :: "bool \<Rightarrow> u32 \<Rightarrow> bytes" where
  "hex_text prefix v =
     (if prefix then ascii ''0x'' else []) @ hexadecimal 8 (unat v)"

definition status_fields :: "rsm_public_status_output \<Rightarrow> (bytes \<times> bytes) list" where
  "status_fields st =
     [(ascii ''rsm.schema'', dec_text (ps_schema_version st)),
      (ascii ''rsm.status'', ps_status st),
      (ascii ''rsm.build.diagnostic_mode'', ps_build_diagnostic_mode st),
      (ascii ''rsm.device.family'', ps_device_family st),
      (ascii ''rsm.device.id'', hex_text True (ps_device_id st)),
      (ascii ''rsm.device.revision'', hex_text True (ps_revision_id st)),
      (ascii ''rsm.device.flash_kib'', dec_text (ps_flash_kib st)),
      (ascii ''rsm.device.uid_fingerprint'', hex_text False (ps_uid_fingerprint st)),
      (ascii ''rsm.cpu.core'', ps_cpu_core st),
      (ascii ''rsm.cpu.fpu'', ps_cpu_fpu st),
      (ascii ''rsm.cpu.mpu'', ps_cpu_mpu st),
      (ascii ''rsm.cpu.clock_source'', ps_cpu_clock_source st),
      (ascii ''rsm.cpu.hclk_hz'', if ps_hclk_available st then dec_text (ps_hclk_hz st) else ascii ''unavailable''),
      (ascii ''rsm.cpu.cpuid'', hex_text True (ps_cpuid st)),
      (ascii ''rsm.boot.sequence'', dec_text (ps_boot_sequence st)),
      (ascii ''rsm.boot.slot'', ps_boot_slot st),
      (ascii ''rsm.boot.firmware_version'', if ps_firmware_version_available st then dec_text (ps_firmware_version st) else ascii ''unavailable''),
      (ascii ''rsm.boot.last_reset'', ps_last_reset st),
      (ascii ''rsm.boot.self_tests'', ps_boot_self_tests st),
      (ascii ''rsm.security.flash'', ps_security_flash st),
      (ascii ''rsm.security.vectors'', ps_security_vectors st),
      (ascii ''rsm.security.stack'', ps_security_stack st),
      (ascii ''rsm.security.option_policy'', ps_security_option_policy st),
      (ascii ''rsm.vector.status'', ps_vector_status st),
      (ascii ''rsm.vector.failure_class'', ps_vector_failure_class st),
      (ascii ''rsm.vector.checks'', dec_text (ps_vector_check_count st)),
      (ascii ''rsm.vector.failures'', dec_text (ps_vector_failure_count st)),
      (ascii ''rsm.vector.latched_failure'', ps_vector_latched_failure st),
      (ascii ''rsm.health.state'', ps_health_state st),
      (ascii ''rsm.evidence.last_event_sequence'', dec_text (ps_last_event_sequence st)),
      (ascii ''rsm.evidence.last_fault'', ps_last_fault st),
      (ascii ''rsm.evidence.timebase'', ps_timebase st),
      (ascii ''rsm.evidence.boot_context'', ps_boot_context st),
      (ascii ''rsm.events.count'', dec_text (ps_event_count st)),
      (ascii ''rsm.events.dropped'', dec_text (ps_event_dropped st)),
      (ascii ''rsm.counter.diagnostic_denials'', dec_text (ps_diagnostic_denials st)),
      (ascii ''rsm.counter.event_log_overflows'', dec_text (ps_event_log_overflows st)),
      (ascii ''rsm.policy.restricted'', ps_restricted_policy st),
      (ascii ''rsm.policy.secret'', ps_secret_policy st)]"

function read_kv :: "bytes \<Rightarrow> (bytes \<times> bytes) list" where
  "read_kv bs =
     (if bs = [] then []
      else let line = takeWhile (\<lambda>c. c \<noteq> 0x0A) bs
           in (takeWhile (\<lambda>c. c \<noteq> 0x3D) line, filter (\<lambda>c. c \<noteq> 0x0D) (tl (dropWhile (\<lambda>c. c \<noteq> 0x3D) line))) #
              read_kv (tl (dropWhile (\<lambda>c. c \<noteq> 0x0A) bs)))"
  by pat_completeness auto

lemma length_tl_dropWhile: "bs \<noteq> [] \<Longrightarrow> length (tl (dropWhile P bs)) < length bs"
  using length_dropWhile_le [of P bs] length_greater_0_conv [of bs] unfolding length_tl by linarith

termination read_kv
  by (relation "measure length") (simp, simp only: in_measure, erule length_tl_dropWhile)

declare read_kv.simps [simp del]

lemma read_kv_Nil [simp]: "read_kv [] = []"
  by (simp add: read_kv.simps)

definition line_text :: "bytes \<Rightarrow> bool" where
  "line_text t \<longleftrightarrow> 0x0A \<notin> set t \<and> 0x0D \<notin> set t"

definition key_text :: "bytes \<Rightarrow> bool" where
  "key_text t \<longleftrightarrow> 0x0A \<notin> set t \<and> 0x3D \<notin> set t"

lemma takeWhile_stop: "c \<notin> set xs \<Longrightarrow> takeWhile (\<lambda>x. x \<noteq> c) (xs @ c # ys) = xs"
  by (induction xs) auto

lemma dropWhile_stop: "c \<notin> set xs \<Longrightarrow> dropWhile (\<lambda>x. x \<noteq> c) (xs @ c # ys) = c # ys"
  by (induction xs) auto

lemma read_kv_line:
  assumes k: "key_text k" and v: "line_text v"
  shows "read_kv (k @ 0x3D # v @ [0x0D, 0x0A] @ rest) = (k, v) # read_kv rest"
proof -
  let ?l = "k @ 0x3D # v @ [0x0D]"
  have nl: "0x0A \<notin> set ?l" using k v by (auto simp: key_text_def line_text_def)
  have line: "takeWhile (\<lambda>c. c \<noteq> 0x0A) (?l @ 0x0A # rest) = ?l" "dropWhile (\<lambda>c. c \<noteq> 0x0A) (?l @ 0x0A # rest) = 0x0A # rest"
    using takeWhile_stop [OF nl] dropWhile_stop [OF nl] by blast+
  have key: "takeWhile (\<lambda>c. c \<noteq> 0x3D) ?l = k" "dropWhile (\<lambda>c. c \<noteq> 0x3D) ?l = 0x3D # v @ [0x0D]"
    using k by (simp_all add: takeWhile_stop dropWhile_stop key_text_def)
  have val: "filter (\<lambda>c. c \<noteq> 0x0D) (v @ [0x0D]) = v"
    using v by (auto simp: line_text_def intro: filter_True)
  have "read_kv (?l @ 0x0A # rest) = (k, v) # read_kv rest"
    by (subst read_kv.simps) (simp only: Let_def line key val list.sel, simp)
  then show ?thesis by simp
qed

lemma read_kv_lines:
  assumes "\<forall>(k, v) \<in> set kvs. key_text k \<and> line_text v"
  shows "read_kv (concat (map (\<lambda>(k, v). k @ 0x3D # v @ [0x0D, 0x0A]) kvs)) = kvs"
  using assms
proof (induction kvs)
  case (Cons kv kvs)
  obtain k v where kv: "kv = (k, v)" by fastforce
  have line: "key_text k" "line_text v" using Cons.prems kv by auto
  have "read_kv (k @ 0x3D # v @ [0x0D, 0x0A] @ concat (map (\<lambda>(k, v). k @ 0x3D # v @ [0x0D, 0x0A]) kvs)) = (k, v) # kvs"
    unfolding read_kv_line [OF line] using Cons by simp
  then show ?case by (simp add: kv)
qed simp

text \<open>The loops of the formatter write these digits.\<close>

lemma dec_text_eq: "dec_text v = (if v = 0 then [0x30] else rev (u32_buffer v))"
  using put_u32_decimal [of v] by (simp add: dec_text_def uart_put_u32_def)

lemma hex_text_eq: "hex_text prefix v = (if prefix then ascii ''0x'' else []) @
    map (\<lambda>shift. hex_digit (drop_bit shift v)) [28, 24, 20, 16, 12, 8, 4, 0]"
  unfolding hex_digits hex_text_def ..

lemma dec_text_line: "line_text (dec_text v)"
proof -
  have "0x0A \<notin> set (u32_buffer v) \<and> 0x0D \<notin> set (u32_buffer v)" for v
  proof (induction v rule: u32_buffer.induct)
    case (1 v)
    have "unat (ucast (v mod 10) :: u8) = unat (v mod 10)"
      by (simp add: unsigned_ucast_eq take_bit_eq_mod unat_mod)
    moreover have "unat (v mod 10) < 10" by (simp add: unat_mod)
    ultimately have "unat (0x30 + ucast (v mod 10) :: u8) \<ge> 48" by (simp add: unat_word_ariths)
    moreover have "unat (0x0A :: u8) < 48" "unat (0x0D :: u8) < 48" by simp_all
    ultimately have "(0x30 + ucast (v mod 10) :: u8) \<noteq> 0x0A \<and> (0x30 + ucast (v mod 10) :: u8) \<noteq> 0x0D" by (metis not_less)
    with 1 show ?case by (subst (1 2) u32_buffer.simps) auto
  qed
  then show ?thesis by (auto simp: dec_text_eq line_text_def)
qed

lemma hex_digit_line: "hex_digit n \<noteq> 0x0A" "hex_digit n \<noteq> 0x0D"
proof -
  have "unat (n AND 15) < 16"
  proof -
    have "n AND 15 \<le> 15" by (rule word_and_le1)
    then show ?thesis by (simp add: word_le_nat_alt)
  qed
  then have "hex_digit n \<in> set (ascii ''0123456789ABCDEF'')"
    unfolding hex_digit_def by (intro nth_mem) (simp add: ascii_def)
  moreover have "0x0A \<notin> set (ascii ''0123456789ABCDEF'')" "0x0D \<notin> set (ascii ''0123456789ABCDEF'')"
    by (simp_all add: ascii_def)
  ultimately show "hex_digit n \<noteq> 0x0A" "hex_digit n \<noteq> 0x0D" by auto
qed

lemma hex_text_line: "line_text (hex_text prefix v)"
  using hex_digit_line by (auto simp: hex_text_eq line_text_def ascii_def)

definition status_line :: "bytes \<times> bytes \<Rightarrow> bytes" where
  "status_line kv = (case kv of (k, v) \<Rightarrow> k @ 0x3D # v @ [0x0D, 0x0A])"

lemma unavailable_text: "line_text (ascii ''unavailable'')"
  by (simp add: line_text_def ascii_def)

lemma ascii_key: "key_text (ascii k) \<longleftrightarrow> 0x0A \<notin> set (map of_char k :: bytes) \<and> 0x3D \<notin> set (map of_char k :: bytes)"
  by (simp add: key_text_def ascii_def)

text \<open>
  An output that stores what it is sent, ending each line with CR LF: what the printers of the
  public status rely on.
\<close>

locale text_output =
  fixes out :: "'o rsm_output" and sent :: "'o \<Rightarrow> bytes"
  assumes putc_char: "c \<noteq> 0x0A \<Longrightarrow> sent (out_putc out s c) = sent s @ [c]"
    and putc_eol: "sent (out_putc out s 0x0A) = sent s @ [0x0D, 0x0A]"
    and puts_text: "0x0A \<notin> set t \<Longrightarrow> sent (out_puts out s t) = sent s @ t"
begin

lemma putc_chars: "0x0A \<notin> set t \<Longrightarrow> sent (foldl (out_putc out) s t) = sent s @ t"
  by (induction t arbitrary: s) (auto simp: putc_char)

lemma sent_fold:
  "list_all2 (\<lambda>f kv. \<forall>s. sent (f s) = sent s @ status_line kv) fs kvs \<Longrightarrow>
     sent (fold (\<lambda>f. f) fs s) = sent s @ concat (map status_line kvs)"
  by (induction arbitrary: s rule: list_all2_induct) auto

lemma sent_kv_str:
  "key_text (ascii k) \<Longrightarrow> line_text v \<Longrightarrow> sent (kv_str out k v s) = sent s @ ascii k @ 0x3D # v @ [0x0D, 0x0A]"
  by (simp add: kv_str_def putc_char putc_eol puts_text key_text_def line_text_def)

lemma sent_kv_u32:
  "key_text (ascii k) \<Longrightarrow> sent (kv_u32 out k v s) = sent s @ ascii k @ 0x3D # dec_text v @ [0x0D, 0x0A]"
  using dec_text_line [of v]
  by (auto simp: kv_u32_def out_u32_def dec_text_eq putc_char putc_eol puts_text key_text_def line_text_def putc_chars)

lemma sent_kv_hex32:
  "key_text (ascii k) \<Longrightarrow> sent (kv_hex32 out k v prefix s) = sent s @ ascii k @ 0x3D # hex_text prefix v @ [0x0D, 0x0A]"
  using hex_digit_line
  by (simp add: kv_hex32_def out_hex32_def hex_text_eq putc_char putc_eol puts_text key_text_def ascii_def)

text \<open>The whole status, when its texts have no line ends in them.\<close>

lemma sent_status:
  assumes texts: "\<forall>v \<in> snd ` set (status_fields st). line_text v"
  shows "sent (rsm_format_public_status st out s) =
    sent s @ concat (map (\<lambda>(k, v). k @ 0x3D # v @ [0x0D, 0x0A]) (status_fields st))"
proof -
  have "list_all2 (\<lambda>f kv. \<forall>s. sent (f s) = sent s @ status_line kv) (status_printers st out) (status_fields st)"
    using texts unfolding status_printers_def status_fields_def
    by (simp only: list_all2_Cons list_all2_Nil if_split_eq2 list.set image_insert ball_simps snd_conv)
      (intro conjI allI; simp add: sent_kv_str sent_kv_u32 sent_kv_hex32 ascii_key status_line_def unavailable_text)
  from sent_fold [OF this] show ?thesis
    by (simp add: rsm_format_public_status_def status_line_def [abs_def])
qed

end

end
