(* ===== verification/Vector_Monitor.thy ===== *)
theory Vector_Monitor
  imports Runtime_Monitor_Core
begin

text \<open>
  The vector-table monitor (\<^verbatim>\<open>runtime_monitor_vector.h\<close>, \<^verbatim>\<open>runtime_monitor_vector.c\<close>). The table is
  read through a pointer at each check, so the model takes the memory \<open>mem\<close> (32-bit words by address)
  as an argument of every step; the baseline and the kinds are arrays of the configuration. A NULL
  pointer is \<open>None\<close>. Flags that are 0 or 1 are booleans. The monitor itself is never NULL.

  Lemmas: the index stays inside the table; the full check at start accepts exactly the valid
  tables; a failure is latched for good and counted once; a corrupted entry is found after a bounded
  number of steps; a healthy table never raises a failure.
\<close>

section \<open>Types\<close>

datatype rsm_vector_status =
    RSM_VECTOR_UNINITIALIZED
  | RSM_VECTOR_PASS
  | RSM_VECTOR_VTOR_MISMATCH
  | RSM_VECTOR_ALIGNMENT_FAILURE
  | RSM_VECTOR_INITIAL_MSP_INVALID
  | RSM_VECTOR_HANDLER_RANGE_FAILURE
  | RSM_VECTOR_THUMB_BIT_FAILURE
  | RSM_VECTOR_ENTRY_CHANGED
  | RSM_VECTOR_BASELINE_UNAVAILABLE

abbreviation (input) RSM_VECTOR_ENTRY_RESERVED :: u8 where "RSM_VECTOR_ENTRY_RESERVED \<equiv> 0"
abbreviation (input) RSM_VECTOR_ENTRY_INITIAL_MSP :: u8 where "RSM_VECTOR_ENTRY_INITIAL_MSP \<equiv> 1"
abbreviation (input) RSM_VECTOR_ENTRY_HANDLER :: u8 where "RSM_VECTOR_ENTRY_HANDLER \<equiv> 2"
abbreviation (input) RSM_VECTOR_TABLE_ENTRY_COUNT :: u32 where "RSM_VECTOR_TABLE_ENTRY_COUNT \<equiv> 16"
abbreviation (input) RSM_VECTOR_FAILURE_INDEX_NONE :: u32 where "RSM_VECTOR_FAILURE_INDEX_NONE \<equiv> 0xFFFFFFFF"
abbreviation (input) RSM_VECTOR_DEFAULT_STEP_BUDGET :: u32 where "RSM_VECTOR_DEFAULT_STEP_BUDGET \<equiv> 2"

record rsm_vector_config =
  vc_expected_vtor :: u32
  vc_vtor_alignment :: u32
  vc_sram_base :: u32
  vc_sram_end :: u32
  vc_msp_alignment :: u32
  vc_executable_flash_base :: u32
  vc_executable_flash_end :: u32
  vc_entry_count :: u32
  vc_table :: "u32 option"
  vc_expected_entries :: "u32 list option"
  vc_entry_kinds :: "u8 list option"

record rsm_vector_snapshot =
  vs_schema_version :: u32
  vs_current_vtor :: u32
  vs_expected_vtor :: u32
  vs_checked_entries :: u32
  vs_failing_index :: u32
  vs_expected_value :: u32
  vs_observed_value :: u32
  vs_last_successful_sequence :: u32
  vs_check_count :: u32
  vs_failure_count :: u32
  vs_status :: rsm_vector_status
  vs_available :: bool
  vs_last_check_complete :: bool
  vs_latched_failure :: bool

record rsm_vector_monitor =
  vm_config :: rsm_vector_config
  vm_snapshot :: rsm_vector_snapshot
  vm_next_index :: u32
  vm_current_cycle_failed :: bool

text \<open>A pointer of the configuration, where the code has checked that it is set.\<close>

definition vc_entry :: "rsm_vector_config \<Rightarrow> u32 \<Rightarrow> u32" where
  "vc_entry config index = (case vc_expected_entries config of Some es \<Rightarrow> es ! unat index | None \<Rightarrow> 0)"

definition vc_kind :: "rsm_vector_config \<Rightarrow> u32 \<Rightarrow> u8" where
  "vc_kind config index = (case vc_entry_kinds config of Some ks \<Rightarrow> ks ! unat index | None \<Rightarrow> 0)"

definition vc_observed :: "(u32 \<Rightarrow> u32) \<Rightarrow> rsm_vector_config \<Rightarrow> u32 \<Rightarrow> u32" where
  "vc_observed mem config index = (case vc_table config of Some t \<Rightarrow> mem (t + 4 * index) | None \<Rightarrow> 0)"

definition empty_config :: rsm_vector_config where
  "empty_config =
     \<lparr>vc_expected_vtor = 0, vc_vtor_alignment = 0, vc_sram_base = 0, vc_sram_end = 0, vc_msp_alignment = 0,
      vc_executable_flash_base = 0, vc_executable_flash_end = 0, vc_entry_count = 0, vc_table = None,
      vc_expected_entries = None, vc_entry_kinds = None\<rparr>"

section \<open>Operations\<close>

definition power_of_two :: "u32 \<Rightarrow> bool" where
  "power_of_two v \<longleftrightarrow> v \<noteq> 0 \<and> v AND (v - 1) = 0"

definition config_valid :: "rsm_vector_config \<Rightarrow> bool" where
  "config_valid config =
     (if vc_table config = None \<or> vc_expected_entries config = None \<or> vc_entry_kinds config = None \<or>
         vc_entry_count config = 0 \<or> vc_vtor_alignment config = 0 \<or> vc_msp_alignment config = 0 \<or>
         vc_sram_base config \<ge> vc_sram_end config \<or>
         vc_executable_flash_base config \<ge> vc_executable_flash_end config
      then False
      else if \<not> power_of_two (vc_vtor_alignment config) \<or> \<not> power_of_two (vc_msp_alignment config) then False
      else vc_expected_vtor config AND (vc_vtor_alignment config - 1) = 0)"

definition empty_snapshot :: rsm_vector_snapshot where
  "empty_snapshot =
     \<lparr>vs_schema_version = RSM_SCHEMA_VERSION, vs_current_vtor = 0, vs_expected_vtor = 0, vs_checked_entries = 0,
      vs_failing_index = RSM_VECTOR_FAILURE_INDEX_NONE, vs_expected_value = 0, vs_observed_value = 0,
      vs_last_successful_sequence = 0, vs_check_count = 0, vs_failure_count = 0,
      vs_status = RSM_VECTOR_UNINITIALIZED, vs_available = False, vs_last_check_complete = False,
      vs_latched_failure = False\<rparr>"

definition reset_snapshot :: "rsm_vector_monitor \<Rightarrow> rsm_vector_monitor" where
  "reset_snapshot m = m\<lparr>vm_snapshot := empty_snapshot\<rparr>"

definition mark_baseline_unavailable :: "rsm_vector_monitor \<Rightarrow> rsm_vector_monitor" where
  "mark_baseline_unavailable m =
     (reset_snapshot m)\<lparr>vm_snapshot := (vm_snapshot (reset_snapshot m))
        \<lparr>vs_status := RSM_VECTOR_BASELINE_UNAVAILABLE, vs_expected_vtor := vc_expected_vtor (vm_config m),
         vs_failing_index := RSM_VECTOR_FAILURE_INDEX_NONE, vs_latched_failure := True\<rparr>\<rparr>"

definition record_failure ::
    "rsm_vector_status \<Rightarrow> u32 \<Rightarrow> u32 \<Rightarrow> u32 \<Rightarrow> rsm_vector_monitor \<Rightarrow> rsm_vector_monitor" where
  "record_failure status index expected observed m =
     (let s = vm_snapshot m;
          n = (if \<not> vs_latched_failure s then fst (rsm_saturating_increment (vs_failure_count s)) else vs_failure_count s)
      in m\<lparr>vm_snapshot := s\<lparr>vs_failure_count := n, vs_status := status, vs_failing_index := index,
             vs_expected_value := expected, vs_observed_value := observed, vs_latched_failure := True\<rparr>,
           vm_current_cycle_failed := True\<rparr>)"

definition validate_vtor :: "rsm_vector_config \<Rightarrow> u32 \<Rightarrow> rsm_vector_status" where
  "validate_vtor config current_vtor =
     (if current_vtor AND (vc_vtor_alignment config - 1) \<noteq> 0 then RSM_VECTOR_ALIGNMENT_FAILURE
      else if current_vtor \<noteq> vc_expected_vtor config then RSM_VECTOR_VTOR_MISMATCH
      else RSM_VECTOR_PASS)"

definition msp_valid :: "rsm_vector_config \<Rightarrow> u32 \<Rightarrow> bool" where
  "msp_valid config msp =
     (if msp \<le> vc_sram_base config \<or> msp > vc_sram_end config \<or> msp AND (vc_msp_alignment config - 1) \<noteq> 0
      then False else True)"

definition handler_address_valid :: "rsm_vector_config \<Rightarrow> u32 \<Rightarrow> bool" where
  "handler_address_valid config handler =
     (let address = handler AND NOT 1
      in if handler AND 1 = 0 then False
         else if address < vc_executable_flash_base config \<or> address \<ge> vc_executable_flash_end config then False
         else True)"

definition validate_entry :: "rsm_vector_config \<Rightarrow> u32 \<Rightarrow> u32 \<Rightarrow> rsm_vector_status" where
  "validate_entry config index observed =
     (let expected = vc_entry config index; kind = vc_kind config index
      in if kind = RSM_VECTOR_ENTRY_RESERVED
         then (if observed = 0 then RSM_VECTOR_PASS else RSM_VECTOR_ENTRY_CHANGED)
         else if kind = RSM_VECTOR_ENTRY_INITIAL_MSP
         then (if \<not> msp_valid config observed then RSM_VECTOR_INITIAL_MSP_INVALID
               else if observed = expected then RSM_VECTOR_PASS else RSM_VECTOR_ENTRY_CHANGED)
         else if kind \<noteq> RSM_VECTOR_ENTRY_HANDLER then RSM_VECTOR_BASELINE_UNAVAILABLE
         else if observed = 0 then RSM_VECTOR_HANDLER_RANGE_FAILURE
         else if observed AND 1 = 0 then RSM_VECTOR_THUMB_BIT_FAILURE
         else if \<not> handler_address_valid config observed then RSM_VECTOR_HANDLER_RANGE_FAILURE
         else if observed = expected then RSM_VECTOR_PASS else RSM_VECTOR_ENTRY_CHANGED)"

definition check_entry :: "(u32 \<Rightarrow> u32) \<Rightarrow> u32 \<Rightarrow> rsm_vector_monitor \<Rightarrow> rsm_status \<times> rsm_vector_monitor" where
  "check_entry mem index m =
     (let observed = vc_observed mem (vm_config m) index; expected = vc_entry (vm_config m) index;
          status = validate_entry (vm_config m) index observed
      in if status \<noteq> RSM_VECTOR_PASS then (RSM_STATUS_FAILED, record_failure status index expected observed m)
         else (RSM_STATUS_OK, m))"

definition check_vtor :: "u32 \<Rightarrow> rsm_vector_monitor \<Rightarrow> rsm_status \<times> rsm_vector_monitor" where
  "check_vtor current_vtor m =
     (let status = validate_vtor (vm_config m) current_vtor;
          m' = m\<lparr>vm_snapshot := (vm_snapshot m)\<lparr>vs_current_vtor := current_vtor,
                   vs_expected_vtor := vc_expected_vtor (vm_config m)\<rparr>\<rparr>
      in if status \<noteq> RSM_VECTOR_PASS
         then (RSM_STATUS_FAILED,
               record_failure status RSM_VECTOR_FAILURE_INDEX_NONE (vc_expected_vtor (vm_config m)) current_vtor m')
         else (RSM_STATUS_OK, m'))"

definition count_check :: "rsm_vector_snapshot \<Rightarrow> rsm_vector_snapshot" where
  "count_check s = s\<lparr>vs_check_count := fst (rsm_saturating_increment (vs_check_count s))\<rparr>"

definition record_successful_complete_check :: "u32 \<Rightarrow> rsm_vector_monitor \<Rightarrow> rsm_vector_monitor" where
  "record_successful_complete_check event_sequence m =
     (let s = count_check (vm_snapshot m);
          s' = (if \<not> vs_latched_failure s
                then s\<lparr>vs_status := RSM_VECTOR_PASS, vs_last_successful_sequence := event_sequence\<rparr> else s)
      in m\<lparr>vm_snapshot := s'\<lparr>vs_last_check_complete := True\<rparr>\<rparr>)"

text \<open>The loop of the full check: the monitor, and whether every entry was accepted.\<close>

function init_loop :: "(u32 \<Rightarrow> u32) \<Rightarrow> u32 \<Rightarrow> rsm_vector_monitor \<Rightarrow> bool \<times> rsm_vector_monitor" where
  "init_loop mem index m =
     (if index < vc_entry_count (vm_config m)
      then (case check_entry mem index (m\<lparr>vm_snapshot := (vm_snapshot m)\<lparr>vs_checked_entries := index + 1\<rparr>\<rparr>) of
              (status, m1) \<Rightarrow>
                if status \<noteq> RSM_STATUS_OK
                then (False, m1\<lparr>vm_next_index := (if index + 1 \<ge> vc_entry_count (vm_config m1) then 0 else index + 1)\<rparr>)
                else init_loop mem (index + 1) m1)
      else (True, m))"
  by pat_completeness auto

lemma check_entry_config [simp]: "vm_config (snd (check_entry mem index m)) = vm_config m"
  by (simp add: check_entry_def record_failure_def Let_def)

lemma index_step:
  assumes "index < (n :: u32)" shows "unat (n - (index + 1)) < unat (n - index)"
proof -
  have 1: "unat index < unat n" using assms by (simp add: word_less_nat_alt)
  then have "unat (index + 1) = Suc (unat index)" using u32_unat_bound [of n] by (subst u32_no_overflow) auto
  with 1 show ?thesis by (simp add: unat_sub word_le_nat_alt)
qed

termination init_loop
proof (relation "measure (\<lambda>(mem, index, m). unat (vc_entry_count (vm_config m) - index))", goal_cases)
  case (2 mem index m _ y)
  have "vm_config y = vm_config m" using arg_cong [OF 2(2), of "\<lambda>p. vm_config (snd p)"] by simp
  with 2 show ?case by (simp add: index_step)
qed simp

declare init_loop.simps [simp del]

definition rsm_vector_monitor_init ::
    "(u32 \<Rightarrow> u32) \<Rightarrow> rsm_vector_config option \<Rightarrow> u32 \<Rightarrow> u32 \<Rightarrow> rsm_status \<times> rsm_vector_monitor" where
  "rsm_vector_monitor_init mem config current_vtor event_sequence =
     (let conf = (case config of Some c \<Rightarrow> c | None \<Rightarrow> empty_config);
          m0 = \<lparr>vm_config = conf,
                vm_snapshot = empty_snapshot\<lparr>vs_current_vtor := current_vtor, vs_expected_vtor := vc_expected_vtor conf\<rparr>,
                vm_next_index = 0, vm_current_cycle_failed = False\<rparr>
      in if \<not> config_valid conf then (RSM_STATUS_UNAVAILABLE, mark_baseline_unavailable m0)
         else case check_vtor current_vtor (m0\<lparr>vm_snapshot := (vm_snapshot m0)\<lparr>vs_available := True\<rparr>\<rparr>) of
           (status, m1) \<Rightarrow>
             if status \<noteq> RSM_STATUS_OK then (RSM_STATUS_FAILED, m1)
             else case init_loop mem 0 m1 of
               (ok, m2) \<Rightarrow>
                 if \<not> ok then (RSM_STATUS_FAILED, m2)
                 else (RSM_STATUS_OK,
                       record_successful_complete_check event_sequence
                         (m2\<lparr>vm_next_index := 0, vm_current_cycle_failed := False\<rparr>)))"

text \<open>One turn of the loop of a step: the entry at the index is checked and the index moves on.\<close>

definition step_turn ::
    "(u32 \<Rightarrow> u32) \<Rightarrow> u32 \<Rightarrow> u32 \<Rightarrow> rsm_vector_monitor \<Rightarrow> rsm_status \<times> rsm_vector_monitor" where
  "step_turn mem event_sequence checked m =
     (case check_entry mem (vm_next_index m) (m\<lparr>vm_snapshot := (vm_snapshot m)\<lparr>vs_checked_entries := checked + 1\<rparr>\<rparr>) of
        (status, m1) \<Rightarrow>
          (status,
           if vm_next_index m1 + 1 \<ge> vc_entry_count (vm_config m1)
           then (let m2 = m1\<lparr>vm_next_index := 0\<rparr>;
                     m3 = (if \<not> vm_current_cycle_failed m2 then record_successful_complete_check event_sequence m2
                           else m2\<lparr>vm_snapshot := (count_check (vm_snapshot m2))\<lparr>vs_last_check_complete := True\<rparr>\<rparr>)
                 in m3\<lparr>vm_current_cycle_failed := False\<rparr>)
           else m1\<lparr>vm_next_index := vm_next_index m1 + 1\<rparr>))"

function step_loop ::
    "(u32 \<Rightarrow> u32) \<Rightarrow> u32 \<Rightarrow> u32 \<Rightarrow> u32 \<Rightarrow> rsm_status \<Rightarrow> rsm_vector_monitor \<Rightarrow> rsm_status \<times> rsm_vector_monitor" where
  "step_loop mem event_sequence entry_budget checked result m =
     (if checked < entry_budget \<and> checked < vc_entry_count (vm_config m)
      then (case step_turn mem event_sequence checked m of
              (status, m1) \<Rightarrow>
                step_loop mem event_sequence entry_budget (checked + 1)
                  (if status \<noteq> RSM_STATUS_OK then RSM_STATUS_FAILED else result) m1)
      else (result, m))"
  by pat_completeness auto

termination step_loop
proof (relation "measure (\<lambda>(mem, ev, budget, checked, result, m). unat (budget - checked))", goal_cases)
  case 2 then show ?case by (simp add: index_step)
qed simp

declare step_loop.simps [simp del]

definition rsm_vector_monitor_step ::
    "(u32 \<Rightarrow> u32) \<Rightarrow> u32 \<Rightarrow> u32 \<Rightarrow> u32 \<Rightarrow> rsm_vector_monitor \<Rightarrow> rsm_status \<times> rsm_vector_monitor" where
  "rsm_vector_monitor_step mem current_vtor event_sequence entry_budget m =
     (if \<not> config_valid (vm_config m) then (RSM_STATUS_UNAVAILABLE, mark_baseline_unavailable m)
      else if entry_budget = 0 then (RSM_STATUS_BUSY, m)
      else case check_vtor current_vtor
                  (m\<lparr>vm_snapshot := (vm_snapshot m)\<lparr>vs_available := True, vs_last_check_complete := False,
                       vs_checked_entries := 0\<rparr>\<rparr>) of
        (status, m1) \<Rightarrow>
          if status \<noteq> RSM_STATUS_OK then (RSM_STATUS_FAILED, m1)
          else step_loop mem event_sequence entry_budget 0 RSM_STATUS_OK m1)"

definition rsm_vector_monitor_get_snapshot :: "rsm_vector_monitor \<Rightarrow> rsm_vector_snapshot" where
  "rsm_vector_monitor_get_snapshot m = vm_snapshot m"

definition rsm_vector_public_status_name :: "rsm_vector_snapshot \<Rightarrow> bytes" where
  "rsm_vector_public_status_name s =
     (if \<not> vs_available s \<or> vs_status s = RSM_VECTOR_UNINITIALIZED \<or> vs_status s = RSM_VECTOR_BASELINE_UNAVAILABLE
      then ascii ''unavailable''
      else if vs_latched_failure s \<or> vs_status s \<noteq> RSM_VECTOR_PASS then ascii ''fail''
      else ascii ''pass'')"

fun rsm_vector_failure_class_name :: "rsm_vector_status \<Rightarrow> bytes" where
  "rsm_vector_failure_class_name RSM_VECTOR_PASS = ascii ''none''"
| "rsm_vector_failure_class_name RSM_VECTOR_VTOR_MISMATCH = ascii ''vtor_mismatch''"
| "rsm_vector_failure_class_name RSM_VECTOR_ALIGNMENT_FAILURE = ascii ''alignment_failure''"
| "rsm_vector_failure_class_name RSM_VECTOR_INITIAL_MSP_INVALID = ascii ''initial_msp_invalid''"
| "rsm_vector_failure_class_name RSM_VECTOR_HANDLER_RANGE_FAILURE = ascii ''handler_range_failure''"
| "rsm_vector_failure_class_name RSM_VECTOR_THUMB_BIT_FAILURE = ascii ''thumb_bit_failure''"
| "rsm_vector_failure_class_name RSM_VECTOR_ENTRY_CHANGED = ascii ''entry_changed''"
| "rsm_vector_failure_class_name RSM_VECTOR_BASELINE_UNAVAILABLE = ascii ''baseline_unavailable''"
| "rsm_vector_failure_class_name RSM_VECTOR_UNINITIALIZED = ascii ''unavailable''"

section \<open>What an accepted entry is\<close>

definition entry_ok :: "rsm_vector_config \<Rightarrow> u32 \<Rightarrow> u32 \<Rightarrow> bool" where
  "entry_ok config index v \<longleftrightarrow>
     vc_kind config index = RSM_VECTOR_ENTRY_RESERVED \<and> v = 0 \<or>
     vc_kind config index = RSM_VECTOR_ENTRY_INITIAL_MSP \<and> v = vc_entry config index \<and>
       vc_sram_base config < v \<and> v \<le> vc_sram_end config \<and> v AND (vc_msp_alignment config - 1) = 0 \<or>
     vc_kind config index = RSM_VECTOR_ENTRY_HANDLER \<and> v = vc_entry config index \<and> v AND 1 \<noteq> 0 \<and>
       vc_executable_flash_base config \<le> v AND NOT 1 \<and> v AND NOT 1 < vc_executable_flash_end config"

definition entries_ok :: "(u32 \<Rightarrow> u32) \<Rightarrow> rsm_vector_config \<Rightarrow> bool" where
  "entries_ok mem config \<longleftrightarrow> (\<forall>i < vc_entry_count config. entry_ok config i (vc_observed mem config i))"

lemma validate_entry_pass: "validate_entry config i v = RSM_VECTOR_PASS \<longleftrightarrow> entry_ok config i v"
  by (auto simp: validate_entry_def entry_ok_def msp_valid_def handler_address_valid_def Let_def not_le not_less)

lemma validate_vtor_pass:
  "config_valid config \<Longrightarrow> validate_vtor config v = RSM_VECTOR_PASS \<longleftrightarrow> v = vc_expected_vtor config"
  by (auto simp: validate_vtor_def config_valid_def split: if_splits)

section \<open>Well-formed monitors\<close>

definition failure_status :: "rsm_vector_status \<Rightarrow> bool" where
  "failure_status st \<longleftrightarrow> st \<noteq> RSM_VECTOR_PASS \<and> st \<noteq> RSM_VECTOR_UNINITIALIZED"

definition snapshot_ok :: "rsm_vector_snapshot \<Rightarrow> bool" where
  "snapshot_ok s \<longleftrightarrow> vs_available s \<and> vs_failure_count s = (if vs_latched_failure s then 1 else 0) \<and>
     (vs_latched_failure s \<longleftrightarrow> failure_status (vs_status s))"

definition vm_ok :: "rsm_vector_monitor \<Rightarrow> bool" where
  "vm_ok m \<longleftrightarrow> config_valid (vm_config m) \<and> vm_next_index m < vc_entry_count (vm_config m) \<and>
     snapshot_ok (vm_snapshot m) \<and> (vm_current_cycle_failed m \<longrightarrow> vs_latched_failure (vm_snapshot m))"

abbreviation latched :: "rsm_vector_monitor \<Rightarrow> bool" where
  "latched m \<equiv> vs_latched_failure (vm_snapshot m)"

lemma validate_failure:
  "validate_entry config i v \<noteq> RSM_VECTOR_PASS \<Longrightarrow> failure_status (validate_entry config i v)"
  "validate_vtor config w \<noteq> RSM_VECTOR_PASS \<Longrightarrow> failure_status (validate_vtor config w)"
  by (auto simp: failure_status_def validate_entry_def validate_vtor_def Let_def split: if_splits)

lemma record_failure_fields [simp]:
  "vm_config (record_failure st i e v m) = vm_config m" "vm_next_index (record_failure st i e v m) = vm_next_index m"
  "vm_current_cycle_failed (record_failure st i e v m)" "latched (record_failure st i e v m)"
  "vs_status (vm_snapshot (record_failure st i e v m)) = st"
  by (simp_all add: record_failure_def Let_def)

lemma record_failure_snapshot:
  "snapshot_ok (vm_snapshot m) \<Longrightarrow> failure_status st \<Longrightarrow> snapshot_ok (vm_snapshot (record_failure st i e v m))"
  by (auto simp: record_failure_def snapshot_ok_def Let_def rsm_saturating_increment_def split: if_splits)

lemma snapshot_ok_updates [simp]:
  "snapshot_ok (s\<lparr>vs_checked_entries := n\<rparr>) = snapshot_ok s" "snapshot_ok (s\<lparr>vs_last_check_complete := b\<rparr>) = snapshot_ok s"
  "snapshot_ok (s\<lparr>vs_current_vtor := v\<rparr>) = snapshot_ok s" "snapshot_ok (s\<lparr>vs_expected_vtor := v\<rparr>) = snapshot_ok s"
  "snapshot_ok (count_check s) = snapshot_ok s" "snapshot_ok (s\<lparr>vs_last_successful_sequence := n\<rparr>) = snapshot_ok s"
  by (simp_all add: snapshot_ok_def count_check_def)

lemma complete_check_fields [simp]:
  "vm_config (record_successful_complete_check ev m) = vm_config m"
  "vm_next_index (record_successful_complete_check ev m) = vm_next_index m"
  "vm_current_cycle_failed (record_successful_complete_check ev m) = vm_current_cycle_failed m"
  "latched (record_successful_complete_check ev m) = latched m"
  by (simp_all add: record_successful_complete_check_def count_check_def Let_def)

lemma complete_check_snapshot:
  "snapshot_ok (vm_snapshot m) \<Longrightarrow> snapshot_ok (vm_snapshot (record_successful_complete_check ev m))"
  by (auto simp: record_successful_complete_check_def count_check_def snapshot_ok_def Let_def failure_status_def)

lemma count_check_latched [simp]: "vs_latched_failure (count_check s) = vs_latched_failure s"
  by (simp add: count_check_def)

section \<open>One turn\<close>

definition entry_bad :: "(u32 \<Rightarrow> u32) \<Rightarrow> rsm_vector_config \<Rightarrow> u32 \<Rightarrow> bool" where
  "entry_bad mem config i \<longleftrightarrow> \<not> entry_ok config i (vc_observed mem config i)"

lemma check_entry_cases:
  "check_entry mem i m =
     (if entry_bad mem (vm_config m) i
      then (RSM_STATUS_FAILED,
            record_failure (validate_entry (vm_config m) i (vc_observed mem (vm_config m) i)) i (vc_entry (vm_config m) i)
              (vc_observed mem (vm_config m) i) m)
      else (RSM_STATUS_OK, m))"
  by (simp add: check_entry_def Let_def entry_bad_def flip: validate_entry_pass)

lemma entry_bad_status:
  "entry_bad mem config i \<Longrightarrow> failure_status (validate_entry config i (vc_observed mem config i))"
  by (intro validate_failure(1)) (simp add: validate_entry_pass entry_bad_def)

lemma step_turn_fields:
  "vm_config (snd (step_turn mem ev k m)) = vm_config m"
  "vm_next_index (snd (step_turn mem ev k m)) =
     (if vm_next_index m + 1 \<ge> vc_entry_count (vm_config m) then 0 else vm_next_index m + 1)"
  "latched (snd (step_turn mem ev k m)) = (latched m \<or> entry_bad mem (vm_config m) (vm_next_index m))"
  "fst (step_turn mem ev k m) =
     (if entry_bad mem (vm_config m) (vm_next_index m) then RSM_STATUS_FAILED else RSM_STATUS_OK)"
  by (auto simp: step_turn_def check_entry_cases Let_def count_check_def)

lemma step_turn_ok:
  assumes ok: "vm_ok m"
  shows "vm_ok (snd (step_turn mem ev k m))"
proof -
  let ?m = "m\<lparr>vm_snapshot := (vm_snapshot m)\<lparr>vs_checked_entries := k + 1\<rparr>\<rparr>"
  obtain st m1 where ce: "check_entry mem (vm_next_index m) ?m = (st, m1)" by fastforce
  have m1: "snapshot_ok (vm_snapshot m1)" "vm_current_cycle_failed m1 \<longrightarrow> latched m1" "vm_config m1 = vm_config m"
    "vm_next_index m1 = vm_next_index m"
    using ce ok by (auto simp: check_entry_cases vm_ok_def split: if_splits intro!: record_failure_snapshot entry_bad_status)
  have pos: "0 < vc_entry_count (vm_config m)" using ok by (simp add: vm_ok_def) (metis word_gt_0 not_less_zero word_zero_le le_less_trans)
  show ?thesis
  proof (cases "vm_next_index m + 1 \<ge> vc_entry_count (vm_config m)")
    case True
    then show ?thesis using ok ce m1 pos
      by (auto simp: step_turn_def vm_ok_def Let_def complete_check_snapshot)
  next
    case False
    then show ?thesis using ok ce m1 by (simp add: step_turn_def vm_ok_def)
  qed
qed

section \<open>Steps\<close>

text \<open>The entry a turn is at, as a number, and the number of entries.\<close>

abbreviation vm_pos :: "rsm_vector_monitor \<Rightarrow> nat" where "vm_pos m \<equiv> unat (vm_next_index m)"
abbreviation vm_size :: "rsm_vector_monitor \<Rightarrow> nat" where "vm_size m \<equiv> unat (vc_entry_count (vm_config m))"

lemma step_turn_pos:
  assumes "vm_ok m"
  shows "vm_pos (snd (step_turn mem ev k m)) = Suc (vm_pos m) mod vm_size m"
proof -
  have lt: "vm_pos m < vm_size m" using assms by (simp add: vm_ok_def word_less_nat_alt)
  then have "unat (vm_next_index m + 1) = Suc (vm_pos m)"
    using u32_unat_bound [of "vc_entry_count (vm_config m)"] by (subst u32_no_overflow) auto
  moreover have "Suc (vm_pos m) = vm_size m" if "vm_size m \<le> Suc (vm_pos m)" using lt that by simp
  ultimately show ?thesis by (auto simp: step_turn_fields word_le_nat_alt not_le)
qed

definition turns_left :: "u32 \<Rightarrow> u32 \<Rightarrow> rsm_vector_monitor \<Rightarrow> nat" where
  "turns_left budget checked m = min (unat budget) (vm_size m) - unat checked"

lemma turns_left_Suc:
  assumes "checked < budget" "checked < vc_entry_count (vm_config m)" "vm_config m' = vm_config m"
  shows "turns_left budget checked m = Suc (turns_left budget (checked + 1) m')"
proof -
  have "unat (checked + 1) = Suc (unat checked)"
    using assms(1) u32_unat_bound [of budget] by (subst u32_no_overflow) (auto simp: word_less_nat_alt)
  with assms show ?thesis by (simp add: turns_left_def word_less_nat_alt)
qed

text \<open>
  A run of turns visits the entries from the current one on, cyclically, and latches when one of
  them is bad.
\<close>

lemma step_loop_visits:
  assumes "vm_ok m"
  shows "vm_ok (snd (step_loop mem ev budget checked res m)) \<and>
    vm_config (snd (step_loop mem ev budget checked res m)) = vm_config m \<and>
    vm_pos (snd (step_loop mem ev budget checked res m)) = (vm_pos m + turns_left budget checked m) mod vm_size m \<and>
    (latched (snd (step_loop mem ev budget checked res m)) \<longleftrightarrow>
       latched m \<or> (\<exists>j < turns_left budget checked m. entry_bad mem (vm_config m) (of_nat ((vm_pos m + j) mod vm_size m))))"
  using assms
proof (induction mem ev budget checked res m rule: step_loop.induct)
  case (1 mem ev budget checked res m)
  note ok = 1(2)
  have pos: "vm_pos m < vm_size m" using ok by (simp add: vm_ok_def word_less_nat_alt)
  show ?case
  proof (cases "checked < budget \<and> checked < vc_entry_count (vm_config m)")
    case False
    then have "turns_left budget checked m = 0" by (auto simp: turns_left_def word_less_nat_alt)
    moreover have "step_loop mem ev budget checked res m = (res, m)" using False by (subst step_loop.simps) (simp only: if_False)
    ultimately show ?thesis using ok pos by simp
  next
    case True
    obtain st m1 where turn: "step_turn mem ev checked m = (st, m1)" by fastforce
    note f = step_turn_fields [of mem ev checked m, unfolded turn, simplified]
    have ok1: "vm_ok m1" using step_turn_ok [OF ok, of mem ev checked] turn by simp
    have p1: "vm_pos m1 = Suc (vm_pos m) mod vm_size m" using step_turn_pos [OF ok, of mem ev checked] turn by simp
    define t where "t = turns_left budget (checked + 1) m1"
    have t: "turns_left budget checked m = Suc t" using turns_left_Suc [of checked budget m m1] True f(1) by (simp add: t_def)
    have shift: "(vm_pos m1 + j) mod vm_size m = (vm_pos m + Suc j) mod vm_size m" for j
      by (simp add: p1 mod_add_left_eq)
    have here: "(vm_pos m + 0) mod vm_size m = vm_pos m" using pos by simp
    have loop: "step_loop mem ev budget checked res m =
        step_loop mem ev budget (checked + 1) (if st \<noteq> RSM_STATUS_OK then RSM_STATUS_FAILED else res) m1"
      using True turn by (subst step_loop.simps) simp
    have split: "(\<exists>j < Suc t. P j) \<longleftrightarrow> P 0 \<or> (\<exists>j < t. P (Suc j))" for P
      using less_Suc_eq_0_disj by auto
    note IH = 1(1) [OF True turn [symmetric] ok1, folded t_def]
    show ?thesis
      unfolding loop t split using IH f(1,3) here by (simp only: shift) auto
  qed
qed

lemma check_vtor_cases:
  "check_vtor v m =
     (let m' = m\<lparr>vm_snapshot := (vm_snapshot m)\<lparr>vs_current_vtor := v, vs_expected_vtor := vc_expected_vtor (vm_config m)\<rparr>\<rparr>
      in if validate_vtor (vm_config m) v = RSM_VECTOR_PASS then (RSM_STATUS_OK, m')
         else (RSM_STATUS_FAILED, record_failure (validate_vtor (vm_config m) v) RSM_VECTOR_FAILURE_INDEX_NONE
                 (vc_expected_vtor (vm_config m)) v m'))"
  by (simp add: check_vtor_def Let_def)

lemma snapshot_ok_available [simp]: "snapshot_ok s \<Longrightarrow> snapshot_ok (s\<lparr>vs_available := True\<rparr>)"
  by (simp add: snapshot_ok_def)

text \<open>One step of a well-formed monitor.\<close>

lemma step_visits:
  assumes ok: "vm_ok m" and budget: "budget \<noteq> 0"
    and m'_def: "m' = snd (rsm_vector_monitor_step mem vtor ev budget m)" and q_def: "q = min (unat budget) (vm_size m)"
  shows "vm_ok m'" "vm_config m' = vm_config m"
    and "latched m' \<longleftrightarrow> latched m \<or> vtor \<noteq> vc_expected_vtor (vm_config m) \<or>
      (\<exists>j < q. entry_bad mem (vm_config m) (of_nat ((vm_pos m + j) mod vm_size m)))"
    and "vtor = vc_expected_vtor (vm_config m) \<Longrightarrow> vm_pos m' = (vm_pos m + q) mod vm_size m"
proof -
  let ?m = "m\<lparr>vm_snapshot := (vm_snapshot m)\<lparr>vs_available := True, vs_last_check_complete := False, vs_checked_entries := 0\<rparr>\<rparr>"
  let ?n = "?m\<lparr>vm_snapshot := (vm_snapshot ?m)\<lparr>vs_current_vtor := vtor, vs_expected_vtor := vc_expected_vtor (vm_config m)\<rparr>\<rparr>"
  have conf: "config_valid (vm_config m)" using ok by (simp add: vm_ok_def)
  have okn: "vm_ok ?n" using ok by (simp add: vm_ok_def)
  have left: "turns_left budget 0 ?n = q" by (simp add: turns_left_def q_def)
  have "vm_ok m' \<and> vm_config m' = vm_config m \<and>
    (latched m' \<longleftrightarrow> latched m \<or> vtor \<noteq> vc_expected_vtor (vm_config m) \<or>
      (\<exists>j < q. entry_bad mem (vm_config m) (of_nat ((vm_pos m + j) mod vm_size m)))) \<and>
    (vtor = vc_expected_vtor (vm_config m) \<longrightarrow> vm_pos m' = (vm_pos m + q) mod vm_size m)"
  proof (cases "vtor = vc_expected_vtor (vm_config m)")
    case True
    then have m': "m' = snd (step_loop mem ev budget 0 RSM_STATUS_OK ?n)"
      using conf budget validate_vtor_pass [OF conf, of vtor]
      by (simp add: m'_def rsm_vector_monitor_step_def check_vtor_cases Let_def)
    show ?thesis using step_loop_visits [OF okn, of mem ev budget 0 RSM_STATUS_OK] True
      unfolding left m' by simp
  next
    case False
    then have bad: "validate_vtor (vm_config m) vtor \<noteq> RSM_VECTOR_PASS" using validate_vtor_pass [OF conf] by simp
    then have m': "m' = record_failure (validate_vtor (vm_config m) vtor) RSM_VECTOR_FAILURE_INDEX_NONE
        (vc_expected_vtor (vm_config m)) vtor ?n"
      using conf budget by (simp add: m'_def rsm_vector_monitor_step_def check_vtor_cases Let_def)
    have "snapshot_ok (vm_snapshot ?n)" using okn by (simp only: vm_ok_def)
    from record_failure_snapshot [OF this validate_failure(2) [OF bad]] show ?thesis
      using ok False unfolding m' by (simp add: vm_ok_def)
  qed
  then show "vm_ok m'" "vm_config m' = vm_config m"
    and "latched m' \<longleftrightarrow> latched m \<or> vtor \<noteq> vc_expected_vtor (vm_config m) \<or>
      (\<exists>j < q. entry_bad mem (vm_config m) (of_nat ((vm_pos m + j) mod vm_size m)))"
    and "vtor = vc_expected_vtor (vm_config m) \<Longrightarrow> vm_pos m' = (vm_pos m + q) mod vm_size m"
    by blast+
qed

section \<open>Runs of the monitor\<close>

text \<open>A run: at each step the memory, the VTOR register and the last event number.\<close>

type_synonym vector_observation = "(u32 \<Rightarrow> u32) \<times> u32 \<times> u32"

definition vector_run :: "u32 \<Rightarrow> vector_observation list \<Rightarrow> rsm_vector_monitor \<Rightarrow> rsm_vector_monitor" where
  "vector_run budget obs m = fold (\<lambda>(mem, vtor, ev) m. snd (rsm_vector_monitor_step mem vtor ev budget m)) obs m"

lemma vector_run_snoc:
  "vector_run budget (obs @ [(mem, vtor, ev)]) m = snd (rsm_vector_monitor_step mem vtor ev budget (vector_run budget obs m))"
  by (simp add: vector_run_def)

lemma vector_run_Nil [simp]: "vector_run budget [] m = m"
  by (simp add: vector_run_def)

lemma vector_run_ok:
  assumes "vm_ok m" "budget \<noteq> 0"
  shows "vm_ok (vector_run budget obs m) \<and> vm_config (vector_run budget obs m) = vm_config m"
proof (induction obs rule: rev_induct)
  case (snoc x obs)
  obtain mem vtor ev where "x = (mem, vtor, ev)" by (cases x)
  with snoc step_visits(1,2) [OF _ assms(2) refl refl] show ?case by (auto simp: vector_run_snoc)
qed (simp add: assms)

lemma step_loop_latched: "latched m \<Longrightarrow> latched (snd (step_loop mem ev budget checked res m))"
proof (induction mem ev budget checked res m rule: step_loop.induct)
  case (1 mem ev budget checked res m)
  show ?case
  proof (cases "checked < budget \<and> checked < vc_entry_count (vm_config m)")
    case True
    obtain st m1 where turn: "step_turn mem ev checked m = (st, m1)" by fastforce
    have "latched m1" using step_turn_fields(3) [of mem ev checked m] turn 1(2) by simp
    from 1(1) [OF True turn [symmetric] this] show ?thesis
      using True turn by (subst step_loop.simps) simp
  qed (subst step_loop.simps, simp only: if_False 1(2) snd_conv)
qed

lemma step_latched:
  assumes "latched m" shows "latched (snd (rsm_vector_monitor_step mem vtor ev budget m))"
proof -
  have "latched (snd (step_loop mem ev budget 0 RSM_STATUS_OK m'))" if "vs_latched_failure (vm_snapshot m') = latched m" for m'
    using step_loop_latched [of m'] that assms by blast
  with assms show ?thesis
    by (auto simp: rsm_vector_monitor_step_def mark_baseline_unavailable_def check_vtor_cases Let_def)
qed

text \<open>
  A vector-table failure is latched: whatever the table and VTOR look like afterwards, and
  whatever the step budgets are, the monitor stays latched and never reports "pass" again.
\<close>

theorem vector_failure_latched:
  assumes "latched m"
  shows "latched (vector_run budget obs m) \<and>
    rsm_vector_public_status_name (rsm_vector_monitor_get_snapshot (vector_run budget obs m)) \<noteq> ascii ''pass''"
proof -
  have "latched (vector_run budget obs m)"
  proof (induction obs rule: rev_induct)
    case (snoc x obs)
    then show ?case by (cases x) (simp add: vector_run_snoc step_latched)
  qed (simp add: assms)
  then show ?thesis by (auto simp: rsm_vector_public_status_name_def rsm_vector_monitor_get_snapshot_def ascii_def)
qed

text \<open>Entries that a run of steps has visited.\<close>

lemma vector_run_visits:
  assumes ok: "vm_ok m" and budget: "budget \<noteq> 0"
    and bad: "\<forall>(mem, vtor, ev) \<in> set obs. entry_bad mem (vm_config m) i" and i: "i < vc_entry_count (vm_config m)"
    and clean: "\<not> latched (vector_run budget obs m)" and q: "q = min (unat budget) (vm_size m)"
  shows "vm_pos (vector_run budget obs m) = (vm_pos m + length obs * q) mod vm_size m \<and>
    (\<forall>j < length obs * q. (vm_pos m + j) mod vm_size m \<noteq> unat i)"
  using bad clean
proof (induction obs rule: rev_induct)
  case Nil
  then show ?case using ok by (simp add: vm_ok_def word_less_nat_alt)
next
  case (snoc x obs)
  obtain mem vtor ev where x: "x = (mem, vtor, ev)" by (cases x)
  let ?r = "vector_run budget obs m"
  have okr: "vm_ok ?r" "vm_config ?r = vm_config m" using vector_run_ok [OF ok budget] by auto
  have qr: "q = min (unat budget) (vm_size ?r)" using q okr(2) by simp
  note st = step_visits [where mem = mem and vtor = vtor and ev = ev, OF okr(1) budget refl qr, unfolded okr(2)]
  have clean': "\<not> latched ?r" "vtor = vc_expected_vtor (vm_config m)"
    "\<forall>j < q. \<not> entry_bad mem (vm_config m) (of_nat ((vm_pos ?r + j) mod vm_size m))"
    using snoc.prems(2) st(3) by (auto simp: x vector_run_snoc)
  from snoc.IH [OF _ clean'(1)] snoc.prems(1)
  have IH: "vm_pos ?r = (vm_pos m + length obs * q) mod vm_size m"
    "\<forall>j < length obs * q. (vm_pos m + j) mod vm_size m \<noteq> unat i" by auto
  have new: "(vm_pos m + (length obs * q + j)) mod vm_size m \<noteq> unat i" if "j < q" for j
  proof
    assume "(vm_pos m + (length obs * q + j)) mod vm_size m = unat i"
    then have "(vm_pos ?r + j) mod vm_size m = unat i" by (simp add: IH(1) mod_add_left_eq add.assoc)
    with clean'(3) that snoc.prems(1) x show False by auto
  qed
  have "(vm_pos m + j) mod vm_size m \<noteq> unat i" if "j < length obs * q + q" for j
  proof (cases "j < length obs * q")
    case False
    with new [of "j - length obs * q"] that show ?thesis by simp
  qed (use IH in simp)
  moreover have "vm_pos (vector_run budget (obs @ [x]) m) = (vm_pos m + (length obs * q + q)) mod vm_size m"
    using st(4) clean'(2) IH(1) by (simp add: x vector_run_snoc mod_add_left_eq add.assoc)
  ultimately show ?case by (simp add: add.commute)
qed

lemma bad_entry_latched:
  assumes ok: "vm_ok m" and budget: "budget \<noteq> 0" and i: "i < vc_entry_count (vm_config m)"
    and bad: "\<forall>(mem, vtor, ev) \<in> set obs. \<not> entry_ok (vm_config m) i (vc_observed mem (vm_config m) i)"
    and enough: "unat (vc_entry_count (vm_config m)) \<le> length obs * unat budget"
  shows "latched (vector_run budget obs m)"
proof (rule ccontr)
  assume clean: "\<not> latched (vector_run budget obs m)"
  let ?n = "vm_size m" and ?q = "min (unat budget) (vm_size m)"
  have bad': "\<forall>(mem, vtor, ev) \<in> set obs. entry_bad mem (vm_config m) i" using bad by (auto simp: entry_bad_def)
  note visits = conjunct2 [OF vector_run_visits [OF ok budget bad' i clean refl]]
  have n: "unat i < ?n" "vm_pos m < ?n" using i ok by (simp_all add: vm_ok_def word_less_nat_alt)
  have "?n \<le> length obs * ?q"
  proof (cases "unat budget \<le> ?n")
    case False
    have "obs \<noteq> []" using enough n by auto
    then show ?thesis using False by (cases obs) auto
  qed (use enough in \<open>simp add: min_def\<close>)
  moreover define j where "j = (unat i + ?n - vm_pos m) mod ?n"
  moreover have "j < ?n" using n by (simp add: j_def)
  moreover have "(vm_pos m + j) mod ?n = unat i"
    using n by (simp add: j_def mod_add_right_eq)
  ultimately show False using visits by auto
qed

text \<open>
  A corrupted vector entry is found: when the entry at some index of the table stays
  invalid, then after enough steps that their budgets together cover the table the failure is
  latched, from any well-formed state of the monitor and whatever the other entries are.
\<close>

theorem corrupted_entry_found:
  assumes ok: "vm_ok m" and budget: "budget \<noteq> 0" and i: "i < vc_entry_count (vm_config m)"
    and bad: "\<forall>(mem, vtor, ev) \<in> set obs. \<not> entry_ok (vm_config m) i (vc_observed mem (vm_config m) i)"
    and enough: "unat (vc_entry_count (vm_config m)) \<le> length obs * unat budget"
  shows "latched (vector_run budget obs m)"
  using assms by (rule bad_entry_latched)

section \<open>The full check at start\<close>

definition unlatched :: "rsm_vector_snapshot \<Rightarrow> bool" where
  "unlatched s \<longleftrightarrow> vs_available s \<and> \<not> vs_latched_failure s \<and> vs_failure_count s = 0 \<and>
     vs_status s \<in> {RSM_VECTOR_UNINITIALIZED, RSM_VECTOR_PASS}"

lemma unlatched_ok: "unlatched s \<Longrightarrow> snapshot_ok s"
  by (auto simp: unlatched_def snapshot_ok_def failure_status_def)

lemma unlatched_checked [simp]: "unlatched (s\<lparr>vs_checked_entries := n\<rparr>) = unlatched s"
  by (simp add: unlatched_def)

lemma index_suc: "index < (n :: u32) \<Longrightarrow> unat (index + 1) = Suc (unat index)"
  using u32_unat_bound [of n] by (subst u32_no_overflow) (auto simp: word_less_nat_alt)

lemma init_loop_check:
  assumes "config_valid (vm_config m)" "unlatched (vm_snapshot m)" "\<not> vm_current_cycle_failed m"
    and "vm_next_index m = 0" "init_loop mem index m = (ok, m')"
  shows "(ok \<longleftrightarrow> (\<forall>i. index \<le> i \<and> i < vc_entry_count (vm_config m) \<longrightarrow> \<not> entry_bad mem (vm_config m) i)) \<and>
    vm_config m' = vm_config m \<and> vm_ok m' \<and> (if ok then unlatched (vm_snapshot m') else latched m')"
  using assms
proof (induction mem index m rule: init_loop.induct)
  case (1 mem index m)
  let ?n = "vc_entry_count (vm_config m)"
  let ?m = "m\<lparr>vm_snapshot := (vm_snapshot m)\<lparr>vs_checked_entries := index + 1\<rparr>\<rparr>"
  have pos: "0 < ?n" using 1(2) by (auto simp: config_valid_def word_gt_0 split: if_splits)
  show ?case
  proof (cases "index < ?n")
    case False
    then have "ok" "m' = m" using 1(6) by (simp_all add: init_loop.simps)
    with False 1 pos show ?thesis by (auto simp: vm_ok_def unlatched_ok not_less)
  next
    case True
    show ?thesis
    proof (cases "entry_bad mem (vm_config m) index")
      case bad: True
      have "\<not> ok \<and> vm_config m' = vm_config m \<and> vm_ok m' \<and> latched m'"
        using 1(2-6) True bad pos
        by (subst (asm) init_loop.simps)
          (auto simp: check_entry_cases vm_ok_def unlatched_ok entry_bad_status not_le intro!: record_failure_snapshot)
      with bad True show ?thesis by auto
    next
      case good: False
      have step: "init_loop mem index m = init_loop mem (index + 1) ?m"
        using True good by (subst init_loop.simps) (simp add: check_entry_cases)
      have ce: "(RSM_STATUS_OK, ?m) = check_entry mem index ?m" using good by (simp add: check_entry_cases)
      have "(index \<le> i \<and> i < ?n \<longrightarrow> \<not> entry_bad mem (vm_config m) i) \<longleftrightarrow>
          (index + 1 \<le> i \<and> i < ?n \<longrightarrow> \<not> entry_bad mem (vm_config m) i)" for i
      proof -
        have "index \<le> i \<longleftrightarrow> index = i \<or> index + 1 \<le> i"
          using index_suc [OF True] by (auto simp: word_le_nat_alt Suc_le_eq le_less word_unat_eq_iff)
        then show ?thesis using good by auto
      qed
      with 1(1) [OF True ce _ _ _ _ _] 1(2-6) show ?thesis by (simp add: step)
    qed
  qed
qed

lemma init_exact:
  "fst (rsm_vector_monitor_init mem (Some config) vtor ev) = RSM_STATUS_OK \<longleftrightarrow>
     config_valid config \<and> vtor = vc_expected_vtor config \<and>
     (\<nexists>i. i < vc_entry_count config \<and> \<not> entry_ok config i (vc_observed mem config i))"
proof -
  show ?thesis
  proof (cases "config_valid config \<and> vtor = vc_expected_vtor config")
    case True
    let ?m = "\<lparr>vm_config = config, vm_snapshot = empty_snapshot\<lparr>vs_current_vtor := vtor,
        vs_expected_vtor := vc_expected_vtor config, vs_available := True, vs_current_vtor := vtor,
        vs_expected_vtor := vc_expected_vtor config\<rparr>, vm_next_index = 0, vm_current_cycle_failed = False\<rparr>"
    obtain ok m' where loop: "init_loop mem 0 ?m = (ok, m')" by fastforce
    have "ok \<longleftrightarrow> (\<forall>i. i < vc_entry_count config \<longrightarrow> \<not> entry_bad mem config i)"
      using conjunct1 [OF init_loop_check [OF _ _ _ _ loop]] True by (simp add: unlatched_def empty_snapshot_def)
    then show ?thesis
      using True loop validate_vtor_pass [of config vtor]
      by (auto simp: rsm_vector_monitor_init_def check_vtor_cases Let_def entry_bad_def)
  next
    case False
    then show ?thesis
      using validate_vtor_pass [of config vtor] by (auto simp: rsm_vector_monitor_init_def check_vtor_cases Let_def)
  qed
qed

text \<open>
  C37. The check at start is exact: \<^verbatim>\<open>rsm_vector_monitor_init\<close> reports OK if and only if the
  configuration is usable, VTOR holds the expected base and every entry of the table is what the
  baseline demands; the initial stack pointer lies in RAM and is aligned, the handlers are Thumb
  addresses inside the executable flash, and reserved entries are zero.
\<close>

theorem vector_init_exact:
  "fst (rsm_vector_monitor_init mem (Some config) vtor ev) = RSM_STATUS_OK \<longleftrightarrow>
     config_valid config \<and> vtor = vc_expected_vtor config \<and>
     (\<nexists>i. i < vc_entry_count config \<and> \<not> entry_ok config i (vc_observed mem config i))"
  by (rule init_exact)

lemma vector_init_ok:
  assumes valid: "config_valid config"
  shows "vm_ok (snd (rsm_vector_monitor_init mem (Some config) vtor ev))"
    and "vm_config (snd (rsm_vector_monitor_init mem (Some config) vtor ev)) = config"
    and "fst (rsm_vector_monitor_init mem (Some config) vtor ev) = RSM_STATUS_OK \<Longrightarrow>
      \<not> latched (snd (rsm_vector_monitor_init mem (Some config) vtor ev)) \<and>
      vs_status (vm_snapshot (snd (rsm_vector_monitor_init mem (Some config) vtor ev))) = RSM_VECTOR_PASS"
proof -
  let ?s = "empty_snapshot\<lparr>vs_current_vtor := vtor, vs_expected_vtor := vc_expected_vtor config, vs_available := True,
      vs_current_vtor := vtor, vs_expected_vtor := vc_expected_vtor config\<rparr>"
  let ?m = "\<lparr>vm_config = config, vm_snapshot = ?s, vm_next_index = 0, vm_current_cycle_failed = False\<rparr>"
  let ?i = "rsm_vector_monitor_init mem (Some config) vtor ev"
  have s: "unlatched ?s" by (simp add: unlatched_def empty_snapshot_def)
  have pos: "0 < vc_entry_count config" using valid by (auto simp: config_valid_def word_gt_0 split: if_splits)
  have "vm_ok (snd ?i) \<and> vm_config (snd ?i) = config \<and>
    (fst ?i = RSM_STATUS_OK \<longrightarrow> \<not> latched (snd ?i) \<and> vs_status (vm_snapshot (snd ?i)) = RSM_VECTOR_PASS)"
  proof (cases "validate_vtor config vtor = RSM_VECTOR_PASS")
    case False
    have "snapshot_ok (vm_snapshot ?m)" using unlatched_ok [OF s] by simp
    from record_failure_snapshot [OF this validate_failure(2) [OF False]] False valid pos show ?thesis
      by (simp add: rsm_vector_monitor_init_def check_vtor_cases Let_def vm_ok_def)
  next
    case True
    obtain ok m' where loop: "init_loop mem 0 ?m = (ok, m')" by fastforce
    from init_loop_check [OF _ _ _ _ loop] valid s
    have m': "vm_config m' = config" "vm_ok m'" "if ok then unlatched (vm_snapshot m') else latched m'" by simp_all
    show ?thesis
    proof (cases ok)
      case ok: True
      have "unlatched (vm_snapshot (record_successful_complete_check ev (m'\<lparr>vm_next_index := 0, vm_current_cycle_failed := False\<rparr>))) \<and>
          vs_status (vm_snapshot (record_successful_complete_check ev (m'\<lparr>vm_next_index := 0, vm_current_cycle_failed := False\<rparr>))) = RSM_VECTOR_PASS"
        using m'(3) ok by (simp add: record_successful_complete_check_def count_check_def unlatched_def)
      then show ?thesis using True valid loop ok m' pos unlatched_ok
        by (simp add: rsm_vector_monitor_init_def check_vtor_cases Let_def vm_ok_def unlatched_def)
    qed (use True valid loop m' in \<open>simp add: rsm_vector_monitor_init_def check_vtor_cases Let_def\<close>)
  qed
  then show "vm_ok (snd ?i)" "vm_config (snd ?i) = config"
    "fst ?i = RSM_STATUS_OK \<Longrightarrow> \<not> latched (snd ?i) \<and> vs_status (vm_snapshot (snd ?i)) = RSM_VECTOR_PASS" by auto
qed

text \<open>A status, once there is one, stays one.\<close>

lemma step_turn_status:
  "vs_status (vm_snapshot m) \<noteq> RSM_VECTOR_UNINITIALIZED \<Longrightarrow>
     vs_status (vm_snapshot (snd (step_turn mem ev k m))) \<noteq> RSM_VECTOR_UNINITIALIZED"
  using entry_bad_status [of mem "vm_config m" "vm_next_index m"]
  by (auto simp: step_turn_def check_entry_cases Let_def count_check_def record_successful_complete_check_def failure_status_def)

lemma step_loop_status:
  "vs_status (vm_snapshot m) \<noteq> RSM_VECTOR_UNINITIALIZED \<Longrightarrow>
     vs_status (vm_snapshot (snd (step_loop mem ev budget checked res m))) \<noteq> RSM_VECTOR_UNINITIALIZED"
proof (induction mem ev budget checked res m rule: step_loop.induct)
  case (1 mem ev budget checked res m)
  show ?case
  proof (cases "checked < budget \<and> checked < vc_entry_count (vm_config m)")
    case True
    obtain st m1 where turn: "step_turn mem ev checked m = (st, m1)" by fastforce
    have "vs_status (vm_snapshot m1) \<noteq> RSM_VECTOR_UNINITIALIZED" using step_turn_status [OF 1(2), of mem ev checked] turn by simp
    from 1(1) [OF True turn [symmetric] this] show ?thesis using True turn by (subst step_loop.simps) simp
  qed (subst step_loop.simps, simp only: if_False 1(2) snd_conv not_False_eq_True)
qed

lemma step_status:
  assumes "vs_status (vm_snapshot m) \<noteq> RSM_VECTOR_UNINITIALIZED"
  shows "vs_status (vm_snapshot (snd (rsm_vector_monitor_step mem vtor ev budget m))) \<noteq> RSM_VECTOR_UNINITIALIZED"
proof -
  have "vs_status (vm_snapshot (snd (step_loop mem ev budget 0 RSM_STATUS_OK m'))) \<noteq> RSM_VECTOR_UNINITIALIZED"
    if "vs_status (vm_snapshot m') = vs_status (vm_snapshot m)" for m' using step_loop_status [of m'] that assms by simp
  with assms validate_failure(2) [of "vm_config m" vtor] show ?thesis
    by (auto simp: rsm_vector_monitor_step_def mark_baseline_unavailable_def check_vtor_cases Let_def failure_status_def)
qed

text \<open>
  No false alarm: once the check at start has passed, a run in which VTOR and the table are
  as the baseline demands at every step reports "pass" with no failure counted.
\<close>

theorem healthy_table_passes:
  assumes init: "fst (rsm_vector_monitor_init mem (Some config) vtor ev) = RSM_STATUS_OK"
    and budget: "budget \<noteq> 0"
    and good: "\<forall>(mem', vtor', ev') \<in> set obs. vtor' = vc_expected_vtor config \<and> entries_ok mem' config"
  shows "rsm_vector_public_status_name (rsm_vector_monitor_get_snapshot
      (vector_run budget obs (snd (rsm_vector_monitor_init mem (Some config) vtor ev)))) = ascii ''pass'' \<and>
    vs_failure_count (vm_snapshot (vector_run budget obs (snd (rsm_vector_monitor_init mem (Some config) vtor ev)))) = 0"
proof -
  let ?m = "snd (rsm_vector_monitor_init mem (Some config) vtor ev)"
  have valid: "config_valid config" using init init_exact [of mem config vtor ev] by simp
  note start = vector_init_ok [OF valid, of mem vtor ev]
  have run: "vm_ok (vector_run budget os ?m)" "vm_config (vector_run budget os ?m) = config" for os
    using vector_run_ok [OF start(1) budget] start(2) by auto
  have "\<not> latched (vector_run budget obs ?m) \<and> vs_status (vm_snapshot (vector_run budget obs ?m)) \<noteq> RSM_VECTOR_UNINITIALIZED"
    using good
  proof (induction obs rule: rev_induct)
    case Nil
    then show ?case using start(3) [OF init] by simp
  next
    case (snoc x obs)
    obtain m' v e where x: "x = (m', v, e)" by (cases x)
    let ?r = "vector_run budget obs ?m"
    have n: "0 < unat (vc_entry_count config)" using run [of obs] by (simp add: vm_ok_def word_less_nat_alt)
    have "\<not> entry_bad m' config (of_nat ((vm_pos ?r + j) mod vm_size ?r))" for j
    proof -
      have "(vm_pos ?r + j) mod vm_size ?r < unat (vc_entry_count config)" using n run(2) [of obs] by simp
      then have "of_nat ((vm_pos ?r + j) mod vm_size ?r) < vc_entry_count config"
        using u32_unat_bound [of "vc_entry_count config"] by (simp add: word_less_nat_alt u32_of_nat)
      then show ?thesis using snoc.prems x by (auto simp: entries_ok_def entry_bad_def)
    qed
    then show ?case
      using step_visits(3) [where mem = m' and vtor = v and ev = e, OF run(1) [of obs] budget refl refl] snoc x run(2) [of obs]
      by (auto simp: vector_run_snoc step_status)
  qed
  with run(1) [of obs] show ?thesis
    by (auto simp: vm_ok_def snapshot_ok_def failure_status_def rsm_vector_public_status_name_def rsm_vector_monitor_get_snapshot_def)
qed

text \<open>With a table of known kinds, the baseline never becomes unavailable.\<close>

definition kinds_known :: "rsm_vector_config \<Rightarrow> bool" where
  "kinds_known config \<longleftrightarrow> (\<forall>i < vc_entry_count config. vc_kind config i \<in>
     {RSM_VECTOR_ENTRY_RESERVED, RSM_VECTOR_ENTRY_INITIAL_MSP, RSM_VECTOR_ENTRY_HANDLER})"

abbreviation has_baseline :: "rsm_vector_monitor \<Rightarrow> bool" where
  "has_baseline m \<equiv> vs_status (vm_snapshot m) \<noteq> RSM_VECTOR_BASELINE_UNAVAILABLE"

lemma validate_known:
  "kinds_known config \<Longrightarrow> i < vc_entry_count config \<Longrightarrow> validate_entry config i v \<noteq> RSM_VECTOR_BASELINE_UNAVAILABLE"
  "validate_vtor config w \<noteq> RSM_VECTOR_BASELINE_UNAVAILABLE"
  by (auto simp: kinds_known_def validate_entry_def validate_vtor_def Let_def)

lemma step_turn_known:
  "vm_ok m \<Longrightarrow> kinds_known (vm_config m) \<Longrightarrow> has_baseline m \<Longrightarrow> has_baseline (snd (step_turn mem ev k m))"
  using validate_known(1) [of "vm_config m" "vm_next_index m"]
  by (auto simp: step_turn_def check_entry_cases Let_def count_check_def record_successful_complete_check_def vm_ok_def)

lemma step_loop_known:
  "vm_ok m \<Longrightarrow> kinds_known (vm_config m) \<Longrightarrow> has_baseline m \<Longrightarrow>
     has_baseline (snd (step_loop mem ev budget checked res m))"
proof (induction mem ev budget checked res m rule: step_loop.induct)
  case (1 mem ev budget checked res m)
  show ?case
  proof (cases "checked < budget \<and> checked < vc_entry_count (vm_config m)")
    case True
    obtain st m1 where turn: "step_turn mem ev checked m = (st, m1)" by fastforce
    have "has_baseline m1" "vm_ok m1" "kinds_known (vm_config m1)"
      using step_turn_known [OF 1(2-4), of mem ev checked] step_turn_ok [OF 1(2), of mem ev checked]
        step_turn_fields(1) [of mem ev checked m] 1(3) turn by simp_all
    with 1(1) [OF True turn [symmetric]] True turn show ?thesis by (subst step_loop.simps) simp
  qed (subst step_loop.simps, simp only: if_False 1(4) snd_conv not_False_eq_True)
qed

lemma step_known:
  assumes ok: "vm_ok m" and known: "kinds_known (vm_config m)" and base: "has_baseline m"
  shows "has_baseline (snd (rsm_vector_monitor_step mem vtor ev budget m))"
proof -
  have "has_baseline (snd (step_loop mem ev budget 0 RSM_STATUS_OK m'))"
    if "m' = m\<lparr>vm_snapshot := (vm_snapshot m)\<lparr>vs_available := True, vs_last_check_complete := False, vs_checked_entries := 0,
      vs_current_vtor := vtor, vs_expected_vtor := vc_expected_vtor (vm_config m)\<rparr>\<rparr>" for m'
    using that ok known base by (intro step_loop_known) (auto simp: vm_ok_def)
  with assms validate_known(2) [of "vm_config m" vtor] show ?thesis
    by (auto simp: rsm_vector_monitor_step_def check_vtor_cases Let_def vm_ok_def)
qed

lemma init_loop_known:
  "kinds_known (vm_config m) \<Longrightarrow> has_baseline m \<Longrightarrow> has_baseline (snd (init_loop mem index m))"
proof (induction mem index m rule: init_loop.induct)
  case (1 mem index m)
  let ?m = "m\<lparr>vm_snapshot := (vm_snapshot m)\<lparr>vs_checked_entries := index + 1\<rparr>\<rparr>"
  show ?case
  proof (cases "index < vc_entry_count (vm_config m)")
    case True
    obtain st m1 where ce: "check_entry mem index ?m = (st, m1)" by fastforce
    have m1: "has_baseline m1" "vm_config m1 = vm_config m"
      using ce 1(2,3) validate_known(1) [OF 1(2) True] by (auto simp: check_entry_cases split: if_splits)
    show ?thesis
      using 1(1) [OF True ce [symmetric]] 1(2) m1 True ce by (subst init_loop.simps) simp
  qed (subst init_loop.simps, simp add: 1(3))
qed

lemma init_known:
  assumes "config_valid config" "kinds_known config"
  shows "has_baseline (snd (rsm_vector_monitor_init mem (Some config) vtor ev))"
proof -
  have "has_baseline (snd (init_loop mem 0 m))" if "vm_config m = config" "has_baseline m" for m
    using init_loop_known that assms(2) by blast
  moreover have "has_baseline (record_successful_complete_check e m)" if "has_baseline m" for e m
    using that by (simp add: record_successful_complete_check_def count_check_def Let_def)
  ultimately show ?thesis using assms(1) validate_known(2) [of config vtor]
    by (simp add: rsm_vector_monitor_init_def check_vtor_cases Let_def empty_snapshot_def case_prod_unfold)
qed

text \<open>
  The monitor stays well-formed: from the start on, with a usable configuration, the index of
  the next entry is inside the table, the failure counter is one exactly when a failure is latched
  and zero otherwise, and the status names a failure exactly when one is latched.
\<close>

theorem vector_monitor_well_formed:
  assumes "config_valid config" "budget \<noteq> 0"
  shows "vm_ok (vector_run budget obs (snd (rsm_vector_monitor_init mem (Some config) vtor ev)))"
  using vector_run_ok [OF vector_init_ok(1) [OF assms(1)] assms(2)] by blast

end
