(* ===== verification/Platform_Health.thy ===== *)
theory Platform_Health
  imports Platform_Log
begin

text \<open>
  The health state and its display (\<^verbatim>\<open>platform_health.c\<close>) and the LED driver (\<^verbatim>\<open>platform_led.c\<close>).
  The static variables of the first are a record; the GPIO registers are a memory of words, in which
  a write to BSRR also changes the output data register, as the reference manual of the device says.

  Lemmas: the display shows the frame of the pattern that the phase falls into; a temporary display
  ends; the LEDs follow the mask with inverted polarity and no other pin changes; a reported
  security failure is not lost.
\<close>

section \<open>LEDs\<close>

type_synonym regs = "u32 \<Rightarrow> u32"

abbreviation (input) PLATFORM_LED1 :: u8 where "PLATFORM_LED1 \<equiv> 1"
abbreviation (input) PLATFORM_LED2 :: u8 where "PLATFORM_LED2 \<equiv> 2"
abbreviation (input) PLATFORM_LED3 :: u8 where "PLATFORM_LED3 \<equiv> 4"
abbreviation (input) PLATFORM_LED4 :: u8 where "PLATFORM_LED4 \<equiv> 8"
abbreviation (input) PLATFORM_LED_ALL :: u8 where "PLATFORM_LED_ALL \<equiv> 15"
abbreviation (input) GPIOE :: u32 where "GPIOE \<equiv> 0x40021000"
abbreviation (input) GPIOH :: u32 where "GPIOH \<equiv> 0x40021C00"

definition gpio_configure_output :: "u32 \<Rightarrow> nat \<Rightarrow> regs \<Rightarrow> regs" where
  "gpio_configure_output base pin r =
     (let mode_mask = push_bit (pin * 2) 3; mode = push_bit (pin * 2) 1;
          r1 = r(base := r base AND NOT mode_mask);
          r2 = r1(base := r1 base OR mode);
          r3 = r2(base + 4 := r2 (base + 4) AND NOT (push_bit pin 1));
          r4 = r3(base + 8 := r3 (base + 8) AND NOT mode_mask);
          r5 = r4(base + 8 := r4 (base + 8) OR mode)
      in r5(base + 12 := r5 (base + 12) AND NOT mode_mask))"

text \<open>A write to BSRR: the low half sets outputs, the high half clears them.\<close>

definition bsrr_write :: "u32 \<Rightarrow> u32 \<Rightarrow> regs \<Rightarrow> regs" where
  "bsrr_write base v r =
     r(base + 0x18 := v,
       base + 0x14 := (r (base + 0x14) AND NOT (drop_bit 16 v)) OR (v AND 0xFFFF))"

definition gpio_write_pin :: "u32 \<Rightarrow> nat \<Rightarrow> bool \<Rightarrow> regs \<Rightarrow> regs" where
  "gpio_write_pin base pin high r =
     (if high then bsrr_write base (push_bit pin 1) r else bsrr_write base (push_bit (pin + 16) 1) r)"

definition led_write_physical :: "u32 \<Rightarrow> nat \<Rightarrow> bool \<Rightarrow> regs \<Rightarrow> regs" where
  "led_write_physical base pin requested_on r = gpio_write_pin base pin (\<not> requested_on) r"

definition platform_led_write :: "u8 \<Rightarrow> regs \<Rightarrow> regs" where
  "platform_led_write m r =
     led_write_physical GPIOH 12 (m AND PLATFORM_LED4 \<noteq> 0)
       (led_write_physical GPIOH 11 (m AND PLATFORM_LED3 \<noteq> 0)
         (led_write_physical GPIOH 10 (m AND PLATFORM_LED2 \<noteq> 0)
           (led_write_physical GPIOE 3 (m AND PLATFORM_LED1 \<noteq> 0) r)))"

definition platform_led_init :: "regs \<Rightarrow> regs" where
  "platform_led_init r =
     (let r0 = r(0x40023830 := r 0x40023830 OR (0x10 OR 0x80));
          r1 = gpio_configure_output GPIOE 3 r0;
          r2 = gpio_configure_output GPIOH 10 r1;
          r3 = gpio_configure_output GPIOH 11 r2;
          r4 = gpio_configure_output GPIOH 12 r3
      in platform_led_write 0 r4)"

section \<open>Health states\<close>

datatype platform_health_state =
    PLATFORM_BOOTING
  | PLATFORM_HEALTHY
  | PLATFORM_DEGRADED
  | PLATFORM_UPDATING
  | PLATFORM_RECOVERY
  | PLATFORM_TEST_RUNNING
  | PLATFORM_FAULT
  | PLATFORM_SECURITY_FAILURE

fun health_code :: "platform_health_state \<Rightarrow> u32" where
  "health_code PLATFORM_BOOTING = 0"
| "health_code PLATFORM_HEALTHY = 1"
| "health_code PLATFORM_DEGRADED = 2"
| "health_code PLATFORM_UPDATING = 3"
| "health_code PLATFORM_RECOVERY = 4"
| "health_code PLATFORM_TEST_RUNNING = 5"
| "health_code PLATFORM_FAULT = 6"
| "health_code PLATFORM_SECURITY_FAILURE = 7"

record platform_health =
  ph_automatic :: platform_health_state
  ph_active :: platform_health_state
  ph_temporary :: platform_health_state
  ph_temporary_ticks :: u32
  ph_phase :: u32
  ph_temporary_active :: bool
  ph_temporary_fast :: bool
  ph_led_mask :: u8
  ph_regs :: regs

type_synonym health_frame = "u8 \<times> u8"

definition pattern_booting :: "health_frame list" where
  "pattern_booting = [(PLATFORM_LED1, 6), (3, 6), (7, 6), (PLATFORM_LED_ALL, 6), (0, 6)]"

definition pattern_healthy :: "health_frame list" where
  "pattern_healthy = [(PLATFORM_LED4, 1), (0, 9)]"

definition pattern_degraded :: "health_frame list" where
  "pattern_degraded = [(PLATFORM_LED_ALL, 2), (0, 2), (PLATFORM_LED_ALL, 2), (0, 10)]"

definition pattern_updating :: "health_frame list" where
  "pattern_updating =
     [(PLATFORM_LED1, 2), (3, 2), (7, 2), (PLATFORM_LED_ALL, 2), (14, 2), (12, 2), (PLATFORM_LED4, 2), (0, 2)]"

definition pattern_recovery :: "health_frame list" where
  "pattern_recovery = [(9, 4), (6, 4)]"

definition pattern_test_running :: "health_frame list" where
  "pattern_test_running = [(PLATFORM_LED_ALL, 1), (0, 3)]"

definition pattern_fault :: "health_frame list" where
  "pattern_fault =
     [(PLATFORM_LED_ALL, 1), (0, 1), (PLATFORM_LED_ALL, 1), (0, 1), (PLATFORM_LED_ALL, 1), (0, 3)]"

definition pattern_security_failure :: "health_frame list" where
  "pattern_security_failure =
     [(PLATFORM_LED_ALL, 1), (0, 1), (9, 1), (0, 1), (6, 1), (0, 1), (PLATFORM_LED_ALL, 2), (0, 2)]"

fun state_priority :: "platform_health_state \<Rightarrow> u8" where
  "state_priority PLATFORM_SECURITY_FAILURE = 8"
| "state_priority PLATFORM_FAULT = 7"
| "state_priority PLATFORM_RECOVERY = 6"
| "state_priority PLATFORM_UPDATING = 5"
| "state_priority PLATFORM_DEGRADED = 4"
| "state_priority PLATFORM_TEST_RUNNING = 3"
| "state_priority PLATFORM_BOOTING = 2"
| "state_priority PLATFORM_HEALTHY = 1"

fun frames_for_state :: "platform_health_state \<Rightarrow> health_frame list" where
  "frames_for_state PLATFORM_BOOTING = pattern_booting"
| "frames_for_state PLATFORM_DEGRADED = pattern_degraded"
| "frames_for_state PLATFORM_UPDATING = pattern_updating"
| "frames_for_state PLATFORM_RECOVERY = pattern_recovery"
| "frames_for_state PLATFORM_TEST_RUNNING = pattern_test_running"
| "frames_for_state PLATFORM_FAULT = pattern_fault"
| "frames_for_state PLATFORM_SECURITY_FAILURE = pattern_security_failure"
| "frames_for_state PLATFORM_HEALTHY = pattern_healthy"

definition frame_duration :: "bool \<Rightarrow> health_frame \<Rightarrow> u32" where
  "frame_duration fast f = (if fast then 1 else ucast (snd f))"

definition pattern_period :: "health_frame list \<Rightarrow> bool \<Rightarrow> u32" where
  "pattern_period frames fast =
     (let period = foldl (\<lambda>p f. p + frame_duration fast f) 0 frames in if period = 0 then 1 else period)"

fun frame_at :: "bool \<Rightarrow> health_frame list \<Rightarrow> u32 \<Rightarrow> u8" where
  "frame_at fast [] position = 0"
| "frame_at fast (f # fs) position =
     (if position < frame_duration fast f then fst f else frame_at fast fs (position - frame_duration fast f))"

definition pattern_mask :: "platform_health_state \<Rightarrow> u32 \<Rightarrow> bool \<Rightarrow> u8" where
  "pattern_mask state phase fast =
     (let frames = frames_for_state state in frame_at fast frames (phase mod pattern_period frames fast))"

definition selected_state :: "platform_health \<Rightarrow> platform_health_state" where
  "selected_state h =
     (if ph_temporary_active h \<and> state_priority (ph_temporary h) \<ge> state_priority (ph_automatic h)
      then ph_temporary h else ph_automatic h)"

definition platform_health_init :: "platform_health \<Rightarrow> platform_health" where
  "platform_health_init h =
     \<lparr>ph_automatic = PLATFORM_BOOTING, ph_active = PLATFORM_BOOTING, ph_temporary = PLATFORM_HEALTHY,
      ph_temporary_ticks = 0, ph_phase = 0, ph_temporary_active = False, ph_temporary_fast = False,
      ph_led_mask = 0, ph_regs = platform_led_write 0 (platform_led_init (ph_regs h))\<rparr>"

definition platform_health_set_state :: "platform_health_state \<Rightarrow> platform_health \<Rightarrow> platform_health" where
  "platform_health_set_state s h =
     (if state_priority s \<ge> state_priority (ph_automatic h) then h\<lparr>ph_automatic := s\<rparr> else h)"

definition platform_health_report_fault :: "platform_health \<Rightarrow> platform_health" where
  "platform_health_report_fault h = h\<lparr>ph_automatic := PLATFORM_FAULT\<rparr>"

definition platform_health_report_security_failure :: "platform_health \<Rightarrow> platform_health" where
  "platform_health_report_security_failure h = h\<lparr>ph_automatic := PLATFORM_SECURITY_FAILURE\<rparr>"

definition platform_health_stop_temporary :: "platform_health \<Rightarrow> platform_health" where
  "platform_health_stop_temporary h =
     h\<lparr>ph_temporary_ticks := 0, ph_temporary_active := False, ph_temporary_fast := False, ph_phase := 0\<rparr>"

definition platform_health_acknowledge :: "platform_health \<Rightarrow> platform_health" where
  "platform_health_acknowledge h =
     platform_health_stop_temporary
       (if ph_automatic h = PLATFORM_DEGRADED then h\<lparr>ph_automatic := PLATFORM_HEALTHY\<rparr> else h)"

definition platform_health_start_led_test :: "platform_health_state \<Rightarrow> platform_health \<Rightarrow> platform_health" where
  "platform_health_start_led_test s h =
     h\<lparr>ph_temporary := s, ph_temporary_ticks := 64, ph_temporary_active := True, ph_temporary_fast := False,
       ph_phase := 0\<rparr>"

definition platform_health_start_easteregg_knightrider :: "platform_health \<Rightarrow> platform_health" where
  "platform_health_start_easteregg_knightrider h =
     h\<lparr>ph_temporary := PLATFORM_HEALTHY, ph_temporary_ticks := 96, ph_temporary_active := True,
       ph_temporary_fast := True, ph_phase := 0\<rparr>"

definition platform_health_service_tick :: "platform_health \<Rightarrow> platform_health" where
  "platform_health_service_tick h =
     (let state = selected_state h;
          fast = (ph_temporary_active h \<and> state = ph_temporary h \<and> ph_temporary_fast h);
          h1 = (if state \<noteq> ph_active h then h\<lparr>ph_active := state, ph_phase := 0\<rparr> else h);
          m = pattern_mask state (ph_phase h1) fast;
          h2 = h1\<lparr>ph_led_mask := m, ph_regs := platform_led_write m (ph_regs h1), ph_phase := ph_phase h1 + 1\<rparr>
      in if ph_temporary_active h2 \<and> ph_temporary_ticks h2 \<noteq> 0
         then (let h3 = h2\<lparr>ph_temporary_ticks := ph_temporary_ticks h2 - 1\<rparr>
               in if ph_temporary_ticks h3 = 0
                  then h3\<lparr>ph_temporary_active := False, ph_temporary_fast := False, ph_phase := 0\<rparr> else h3)
         else h2)"

definition platform_health_evaluate_boot_policy :: "u32 \<Rightarrow> bool \<Rightarrow> bool \<Rightarrow> bool \<Rightarrow> platform_health_state" where
  "platform_health_evaluate_boot_policy reset_csr fault_record_valid self_tests_passed security_failure =
     (if security_failure then PLATFORM_SECURITY_FAILURE
      else if \<not> self_tests_passed then PLATFORM_FAULT
      else if fault_record_valid \<or> reset_csr AND (0x20000000 OR 0x40000000) \<noteq> 0 then PLATFORM_DEGRADED
      else PLATFORM_HEALTHY)"

definition platform_health_apply_boot_policy ::
    "u32 \<Rightarrow> bool \<Rightarrow> bool \<Rightarrow> bool \<Rightarrow> platform_health \<Rightarrow> platform_health" where
  "platform_health_apply_boot_policy reset_csr fault_record_valid self_tests_passed security_failure h =
     (let state = platform_health_evaluate_boot_policy reset_csr fault_record_valid self_tests_passed security_failure
      in if state = PLATFORM_FAULT then platform_health_report_fault h
         else if state = PLATFORM_SECURITY_FAILURE then platform_health_report_security_failure h
         else h\<lparr>ph_automatic := state\<rparr>)"

definition platform_health_get_state :: "platform_health \<Rightarrow> platform_health_state" where
  "platform_health_get_state h = selected_state h"

fun platform_health_state_name :: "platform_health_state \<Rightarrow> bytes" where
  "platform_health_state_name PLATFORM_BOOTING = ascii ''BOOTING''"
| "platform_health_state_name PLATFORM_HEALTHY = ascii ''HEALTHY''"
| "platform_health_state_name PLATFORM_DEGRADED = ascii ''DEGRADED''"
| "platform_health_state_name PLATFORM_UPDATING = ascii ''UPDATING''"
| "platform_health_state_name PLATFORM_RECOVERY = ascii ''RECOVERY''"
| "platform_health_state_name PLATFORM_TEST_RUNNING = ascii ''TEST_RUNNING''"
| "platform_health_state_name PLATFORM_FAULT = ascii ''FAULT''"
| "platform_health_state_name PLATFORM_SECURITY_FAILURE = ascii ''SECURITY_FAILURE''"

section \<open>The display shows the pattern\<close>

text \<open>The pattern written out tick by tick.\<close>

definition pattern_strip :: "bool \<Rightarrow> health_frame list \<Rightarrow> u8 list" where
  "pattern_strip fast frames = concat (map (\<lambda>f. replicate (unat (frame_duration fast f)) (fst f)) frames)"

lemma frame_at_strip: "unat p < length (pattern_strip fast fs) \<Longrightarrow> frame_at fast fs p = pattern_strip fast fs ! unat p"
proof (induction fs arbitrary: p)
  case (Cons f fs)
  show ?case
  proof (cases "p < frame_duration fast f")
    case True
    then show ?thesis by (simp add: pattern_strip_def nth_append word_less_nat_alt)
  next
    case False
    then have u: "unat (p - frame_duration fast f) = unat p - unat (frame_duration fast f)"
      by (simp add: unat_sub not_less)
    have "unat (p - frame_duration fast f) < length (pattern_strip fast fs)"
      using Cons.prems False unfolding u by (simp add: pattern_strip_def word_less_nat_alt)
    from Cons.IH [OF this] show ?thesis using False u
      by (simp add: pattern_strip_def nth_append word_less_nat_alt)
  qed
qed (simp add: pattern_strip_def)

lemmas pattern_defs = pattern_booting_def pattern_healthy_def pattern_degraded_def pattern_updating_def
  pattern_recovery_def pattern_test_running_def pattern_fault_def pattern_security_failure_def

lemma period_strip: "unat (pattern_period (frames_for_state s) fast) = length (pattern_strip fast (frames_for_state s))"
  by (cases s; cases fast) (simp_all add: pattern_period_def pattern_strip_def frame_duration_def pattern_defs)

lemma strip_nonempty: "0 < length (pattern_strip fast (frames_for_state s))"
  by (cases s; cases fast) (simp_all add: pattern_strip_def frame_duration_def pattern_defs)

text \<open>
  The display follows its pattern: at every phase, also across the wrap of the 32-bit phase
  counter modulo the period, the mask is the entry of the pattern written out tick by tick.
\<close>

theorem pattern_mask_strip:
  "pattern_mask s phase fast =
     pattern_strip fast (frames_for_state s) ! (unat phase mod length (pattern_strip fast (frames_for_state s)))"
proof -
  have "unat (phase mod pattern_period (frames_for_state s) fast) =
      unat phase mod length (pattern_strip fast (frames_for_state s))" by (simp add: unat_mod period_strip)
  moreover have "unat phase mod length (pattern_strip fast (frames_for_state s)) < length (pattern_strip fast (frames_for_state s))"
    using strip_nonempty by (rule mod_less_divisor)
  ultimately show ?thesis by (simp add: pattern_mask_def Let_def frame_at_strip)
qed

section \<open>The LEDs follow the mask\<close>

lemma bit_power: "bit (2 ^ p :: u32) n \<longleftrightarrow> n = p \<and> n < 32"
  by (auto simp: bit_exp_iff)

lemma bit_low_half: "bit (0xFFFF :: u32) n \<longleftrightarrow> n < 16"
proof -
  have "(0xFFFF :: u32) = mask 16" by (simp add: mask_eq_exp_minus_1)
  moreover have "bit (mask 16 :: u32) n \<longleftrightarrow> n < 16" by (auto simp: bit_mask_iff)
  ultimately show ?thesis by simp
qed

lemma bsrr_odr:
  assumes "p < 16"
  shows "bit (bsrr_write base (2 ^ p) r (base + 0x14)) n = (n = p \<or> bit (r (base + 0x14)) n)"
    and "bit (bsrr_write base (2 ^ (p + 16)) r (base + 0x14)) n = (n \<noteq> p \<and> bit (r (base + 0x14)) n)"
proof -
  have len: "bit (r (base + 0x14)) n \<Longrightarrow> n < 32" using bit_imp_le_length by fastforce
  have low: "bit (0xFFFF :: u32) p" "\<not> bit (0xFFFF :: u32) (p + 16)" using assms bit_low_half [of p] bit_low_half [of "p + 16"] by simp_all
  show "bit (bsrr_write base (2 ^ p) r (base + 0x14)) n = (n = p \<or> bit (r (base + 0x14)) n)"
    using assms len low by (auto simp: bsrr_write_def bit_or_iff bit_and_iff bit_not_iff bit_drop_bit_eq bit_power bit_low_half)
  show "bit (bsrr_write base (2 ^ (p + 16)) r (base + 0x14)) n = (n \<noteq> p \<and> bit (r (base + 0x14)) n)"
    using assms len low by (auto simp: bsrr_write_def bit_or_iff bit_and_iff bit_not_iff bit_drop_bit_eq bit_power bit_low_half)
qed

lemma led_physical_odr:
  "p < 16 \<Longrightarrow> bit (led_write_physical base p on r (base + 0x14)) n = (if n = p then \<not> on else bit (r (base + 0x14)) n)"
  by (auto simp: led_write_physical_def gpio_write_pin_def bsrr_odr)

lemma led_physical_other:
  "a \<noteq> base + 0x14 \<Longrightarrow> a \<noteq> base + 0x18 \<Longrightarrow> led_write_physical base p on r a = r a"
  by (simp add: led_write_physical_def gpio_write_pin_def bsrr_write_def)

text \<open>
  \<^verbatim>\<open>platform_led_write\<close> drives exactly the four LED pins: an LED of the mask is low (lit), the
  others are high, and every other output of both ports keeps its level.
\<close>

theorem led_write_exact:
  "bit (platform_led_write m r 0x40021014) n = (if n = 3 then m AND 1 = 0 else bit (r 0x40021014) n) \<and>
   bit (platform_led_write m r 0x40021C14) n =
     (if n = 10 then m AND 2 = 0 else if n = 11 then m AND 4 = 0 else if n = 12 then m AND 8 = 0
      else bit (r 0x40021C14) n)"
proof -
  note odr = led_physical_odr [of _ "0x40021C00", simplified] led_physical_odr [of _ "0x40021000", simplified]
  show ?thesis by (simp add: platform_led_write_def odr led_physical_other)
qed

section \<open>Invariants\<close>

definition health_ok :: "platform_health \<Rightarrow> bool" where
  "health_ok h \<longleftrightarrow> (ph_temporary_active h \<longleftrightarrow> ph_temporary_ticks h \<noteq> 0) \<and> ph_temporary_ticks h \<le> 96 \<and>
     (ph_temporary_fast h \<longrightarrow> ph_temporary_active h)"

text \<open>The operations the running application performs.\<close>

datatype health_op =
    HEALTH_SET_STATE platform_health_state
  | HEALTH_SECURITY_FAILURE
  | HEALTH_ACKNOWLEDGE
  | HEALTH_LED_TEST platform_health_state
  | HEALTH_KNIGHTRIDER
  | HEALTH_STOP
  | HEALTH_TICK

fun health_step :: "health_op \<Rightarrow> platform_health \<Rightarrow> platform_health" where
  "health_step (HEALTH_SET_STATE s) h = platform_health_set_state s h"
| "health_step HEALTH_SECURITY_FAILURE h = platform_health_report_security_failure h"
| "health_step HEALTH_ACKNOWLEDGE h = platform_health_acknowledge h"
| "health_step (HEALTH_LED_TEST s) h = platform_health_start_led_test s h"
| "health_step HEALTH_KNIGHTRIDER h = platform_health_start_easteregg_knightrider h"
| "health_step HEALTH_STOP h = platform_health_stop_temporary h"
| "health_step HEALTH_TICK h = platform_health_service_tick h"

lemma tick_fields:
  "ph_automatic (platform_health_service_tick h) = ph_automatic h"
  "ph_temporary (platform_health_service_tick h) = ph_temporary h"
  "ph_temporary_ticks (platform_health_service_tick h) =
     (if ph_temporary_active h \<and> ph_temporary_ticks h \<noteq> 0 then ph_temporary_ticks h - 1 else ph_temporary_ticks h)"
  "ph_temporary_active (platform_health_service_tick h) = (ph_temporary_active h \<and> ph_temporary_ticks h \<noteq> 1 \<or>
     ph_temporary_active h \<and> ph_temporary_ticks h = 0)"
  "ph_temporary_fast (platform_health_service_tick h) = (ph_temporary_fast h \<and>
     \<not> (ph_temporary_active h \<and> ph_temporary_ticks h = 1))"
  by (auto simp: platform_health_service_tick_def Let_def)

lemma tick_dec: "(w :: u32) \<noteq> 0 \<Longrightarrow> unat (w - 1) = unat w - 1"
  by (simp add: unat_sub word_le_nat_alt unat_gt_0 Suc_leI)

lemma tick_ok: "health_ok h \<Longrightarrow> health_ok (platform_health_service_tick h)"
proof -
  assume ok: "health_ok h"
  have "ph_temporary_ticks h - 1 \<le> 96" if "ph_temporary_ticks h \<noteq> 0"
    using ok that by (auto simp: health_ok_def word_le_nat_alt tick_dec)
  with ok show ?thesis by (auto simp: health_ok_def tick_fields)
qed

lemma health_step_ok: "health_ok h \<Longrightarrow> health_ok (health_step op h)"
  by (cases op)
    (simp_all add: tick_ok, auto simp: health_ok_def platform_health_set_state_def platform_health_report_security_failure_def
      platform_health_acknowledge_def platform_health_stop_temporary_def platform_health_start_led_test_def
      platform_health_start_easteregg_knightrider_def)

lemma health_steps_ok: "health_ok h \<Longrightarrow> health_ok (fold health_step ops h)"
  by (induction ops arbitrary: h) (simp_all add: health_step_ok)

lemma ticks_run:
  assumes "health_ok h"
  shows "unat (ph_temporary_ticks ((platform_health_service_tick ^^ n) h)) = unat (ph_temporary_ticks h) - n \<and>
    health_ok ((platform_health_service_tick ^^ n) h)"
proof (induction n)
  case (Suc n)
  let ?h = "(platform_health_service_tick ^^ n) h"
  have "unat (ph_temporary_ticks (platform_health_service_tick ?h)) = unat (ph_temporary_ticks ?h) - 1"
    using Suc by (auto simp: tick_fields health_ok_def tick_dec)
  with Suc show ?case by (simp add: tick_ok)
qed (simp add: assms)

text \<open>
  A temporary display ends by itself: after any operations since the initialisation, 96
  further ticks leave no temporary display active, so that the LEDs show the automatic state.
\<close>

theorem temporary_display_ends:
  "\<not> ph_temporary_active ((platform_health_service_tick ^^ 96) (fold health_step ops (platform_health_init h))) \<and>
   platform_health_get_state ((platform_health_service_tick ^^ 96) (fold health_step ops (platform_health_init h))) =
     ph_automatic (fold health_step ops (platform_health_init h))"
proof -
  let ?g = "fold health_step ops (platform_health_init h)"
  have ok: "health_ok ?g" by (rule health_steps_ok) (simp add: platform_health_init_def health_ok_def)
  then have "unat (ph_temporary_ticks ?g) \<le> 96" by (simp add: health_ok_def word_le_nat_alt)
  with ticks_run [OF ok, of 96] have "\<not> ph_temporary_active ((platform_health_service_tick ^^ 96) ?g)"
    by (simp add: health_ok_def unat_eq_0)
  moreover have "ph_automatic ((platform_health_service_tick ^^ n) ?g) = ph_automatic ?g" for n
    by (induction n) (simp_all add: tick_fields)
  ultimately show ?thesis by (simp add: platform_health_get_state_def selected_state_def)
qed

text \<open>
  A reported security failure is not lost: no later operation of the application - state
  changes, acknowledgement, LED tests, ticks - replaces it, and it is also what is displayed once
  reported, whatever temporary display was requested.
\<close>

theorem security_failure_kept:
  "ph_automatic (fold health_step ops (platform_health_report_security_failure h)) = PLATFORM_SECURITY_FAILURE \<and>
   platform_health_get_state (fold health_step ops (platform_health_report_security_failure h)) = PLATFORM_SECURITY_FAILURE"
proof -
  have "ph_automatic (fold health_step ops g) = PLATFORM_SECURITY_FAILURE" if "ph_automatic g = PLATFORM_SECURITY_FAILURE" for g
    using that
  proof (induction ops arbitrary: g)
    case (Cons op ops)
    have "ph_automatic (health_step op g) = PLATFORM_SECURITY_FAILURE"
    proof (cases op)
      case (HEALTH_SET_STATE s)
      then show ?thesis using Cons.prems by (cases s) (simp_all add: platform_health_set_state_def word_le_nat_alt)
    qed (use Cons.prems in \<open>simp_all add: tick_fields platform_health_report_security_failure_def platform_health_acknowledge_def
        platform_health_stop_temporary_def platform_health_start_led_test_def platform_health_start_easteregg_knightrider_def\<close>)
    with Cons.IH show ?case by simp
  qed simp
  then have auto': "ph_automatic (fold health_step ops (platform_health_report_security_failure h)) = PLATFORM_SECURITY_FAILURE"
    by (simp add: platform_health_report_security_failure_def)
  moreover have "selected_state g = PLATFORM_SECURITY_FAILURE" if "ph_automatic g = PLATFORM_SECURITY_FAILURE" for g
    using that by (cases "ph_temporary g") (simp_all add: selected_state_def word_le_nat_alt)
  ultimately show ?thesis by (simp add: platform_health_get_state_def)
qed

end
