(* ===== verification/Mpu_Policy.thy ===== *)
theory Mpu_Policy
  imports Platform_Log Memory_Layout
begin

text \<open>
  The memory protection policy (\<^verbatim>\<open>mpu_policy.c\<close>) and the independent watchdog (\<^verbatim>\<open>watchdog.c\<close>) of the
  research application. The MPU registers are a record; the address of the stack guard, a symbol of
  the linker script, is an argument, and so is the value of the read-only MPU_TYPE register. Polled
  registers are functions from the number of the read to the value read.

  What an access may do is defined as the ARMv7-M architecture defines it for privileged code: the
  enabled region with the highest number that contains the address decides; without one the default
  memory map applies when PRIVDEFENA is set.

  Lemmas: the policy makes flash read-only, keeps RAM and the boot loader from being executed and
  guards the null page and the stack; suspending for a metadata commit restores it; the
  initialisation of the watchdog ends after a bounded number of polls.
\<close>

section \<open>The policy\<close>

abbreviation (input) MPU_CTRL_ENABLE :: u32 where "MPU_CTRL_ENABLE \<equiv> 1"
abbreviation (input) MPU_CTRL_PRIVDEFENA :: u32 where "MPU_CTRL_PRIVDEFENA \<equiv> 4"
abbreviation (input) SCB_SHCSR_MEMFAULTENA :: u32 where "SCB_SHCSR_MEMFAULTENA \<equiv> 0x10000"
abbreviation (input) MPU_RASR_ENABLE :: u32 where "MPU_RASR_ENABLE \<equiv> 1"
abbreviation (input) MPU_RASR_XN :: u32 where "MPU_RASR_XN \<equiv> 0x10000000"
abbreviation (input) MPU_RASR_AP_PRIV_RO :: u32 where "MPU_RASR_AP_PRIV_RO \<equiv> 0x05000000"
abbreviation (input) MPU_RASR_AP_FULL :: u32 where "MPU_RASR_AP_FULL \<equiv> 0x03000000"
abbreviation (input) MPU_POLICY_STACK_GUARD_SIZE :: u32 where "MPU_POLICY_STACK_GUARD_SIZE \<equiv> 0x100"

definition MPU_RASR_SIZE :: "u32 \<Rightarrow> u32" where
  "MPU_RASR_SIZE n =
     (if n = 32 then push_bit 1 4 else if n = 256 then push_bit 1 7 else if n = 0x20000 then push_bit 1 16
      else if n = 0x100000 then push_bit 1 19 else 0)"

definition MPU_POLICY_FLASH_ATTRIBUTES :: u32 where
  "MPU_POLICY_FLASH_ATTRIBUTES = MPU_RASR_AP_PRIV_RO OR MPU_RASR_SIZE 0x100000 OR MPU_RASR_ENABLE"

definition MPU_POLICY_SRAM_ATTRIBUTES :: u32 where
  "MPU_POLICY_SRAM_ATTRIBUTES = MPU_RASR_XN OR MPU_RASR_AP_FULL OR MPU_RASR_SIZE 0x20000 OR MPU_RASR_ENABLE"

definition MPU_POLICY_PROTECTED_FLASH_ATTRIBUTES :: u32 where
  "MPU_POLICY_PROTECTED_FLASH_ATTRIBUTES = MPU_RASR_XN OR MPU_RASR_AP_PRIV_RO OR MPU_RASR_SIZE 0x20000 OR MPU_RASR_ENABLE"

definition MPU_POLICY_NO_ACCESS_ATTRIBUTES :: u32 where
  "MPU_POLICY_NO_ACCESS_ATTRIBUTES = MPU_RASR_XN OR MPU_RASR_SIZE 32 OR MPU_RASR_ENABLE"

definition MPU_POLICY_STACK_GUARD_ATTRIBUTES :: u32 where
  "MPU_POLICY_STACK_GUARD_ATTRIBUTES = MPU_RASR_XN OR MPU_RASR_SIZE MPU_POLICY_STACK_GUARD_SIZE OR MPU_RASR_ENABLE"

record mpu_policy_region =
  mr_number :: u32
  mr_base :: u32
  mr_size :: u32
  mr_attributes :: u32
  mr_name :: bytes

definition region_valid :: "u32 \<Rightarrow> u32 \<Rightarrow> bool" where
  "region_valid base n = (if n = 0 \<or> n AND (n - 1) \<noteq> 0 then False else base AND (n - 1) = 0)"

definition policy_regions :: "u32 \<Rightarrow> mpu_policy_region list" where
  "policy_regions guard =
     [\<lparr>mr_number = 0, mr_base = FLASH_BASE, mr_size = 0x100000, mr_attributes = MPU_POLICY_FLASH_ATTRIBUTES,
       mr_name = ascii ''internal-flash-read-only''\<rparr>,
      \<lparr>mr_number = 1, mr_base = 0x20000000, mr_size = 0x20000, mr_attributes = MPU_POLICY_SRAM_ATTRIBUTES,
       mr_name = ascii ''main-sram-no-execute''\<rparr>,
      \<lparr>mr_number = 2, mr_base = FLASH_BASE, mr_size = 0x20000, mr_attributes = MPU_POLICY_PROTECTED_FLASH_ATTRIBUTES,
       mr_name = ascii ''stage0-and-metadata-read-only''\<rparr>,
      \<lparr>mr_number = 3, mr_base = 0, mr_size = 32, mr_attributes = MPU_POLICY_NO_ACCESS_ATTRIBUTES,
       mr_name = ascii ''null-no-access''\<rparr>,
      \<lparr>mr_number = 4, mr_base = guard, mr_size = MPU_POLICY_STACK_GUARD_SIZE,
       mr_attributes = MPU_POLICY_STACK_GUARD_ATTRIBUTES, mr_name = ascii ''descending-stack-guard''\<rparr>]"

definition mpu_policy_build_regions :: "u32 \<Rightarrow> bool \<times> mpu_policy_region list" where
  "mpu_policy_build_regions guard =
     (list_all (\<lambda>r. region_valid (mr_base r) (mr_size r)) (policy_regions guard), policy_regions guard)"

record mpu =
  mpu_ctrl :: u32
  mpu_rnr :: u32
  mpu_rbar :: "u32 \<Rightarrow> u32"
  mpu_rasr :: "u32 \<Rightarrow> u32"
  scb_shcsr :: u32
  saved_mpu_ctrl :: u32
  policy_enabled :: bool

definition write_region :: "mpu_policy_region \<Rightarrow> mpu \<Rightarrow> mpu" where
  "write_region r m =
     (let m1 = m\<lparr>mpu_rnr := mr_number r\<rparr>;
          m2 = m1\<lparr>mpu_rbar := (mpu_rbar m1)(mpu_rnr m1 := mr_base r)\<rparr>
      in m2\<lparr>mpu_rasr := (mpu_rasr m2)(mpu_rnr m2 := mr_attributes r)\<rparr>)"

definition mpu_policy_init :: "u32 \<Rightarrow> u32 \<Rightarrow> mpu \<Rightarrow> bool \<times> mpu" where
  "mpu_policy_init guard mpu_type m =
     (case mpu_policy_build_regions guard of (valid, regions) \<Rightarrow>
        if mpu_type AND 0xFF00 < push_bit 8 5 \<or> \<not> valid then (False, m\<lparr>policy_enabled := False\<rparr>)
        else let m1 = fold write_region regions (m\<lparr>mpu_ctrl := 0\<rparr>)
             in (True, m1\<lparr>scb_shcsr := scb_shcsr m1 OR SCB_SHCSR_MEMFAULTENA,
                          mpu_ctrl := MPU_CTRL_ENABLE OR MPU_CTRL_PRIVDEFENA, policy_enabled := True\<rparr>))"

definition mpu_policy_is_enabled :: "mpu \<Rightarrow> bool" where
  "mpu_policy_is_enabled m = policy_enabled m"

definition mpu_policy_suspend_for_metadata_commit :: "mpu \<Rightarrow> mpu" where
  "mpu_policy_suspend_for_metadata_commit m = m\<lparr>saved_mpu_ctrl := mpu_ctrl m, mpu_ctrl := 0\<rparr>"

definition mpu_policy_resume_after_metadata_commit :: "mpu \<Rightarrow> mpu" where
  "mpu_policy_resume_after_metadata_commit m = m\<lparr>mpu_ctrl := saved_mpu_ctrl m\<rparr>"

definition mpu_policy_stack_guard_start :: "u32 \<Rightarrow> u32" where
  "mpu_policy_stack_guard_start guard = guard"

section \<open>What the hardware permits\<close>

datatype mpu_access = MPU_READ | MPU_WRITE | MPU_EXECUTE

definition region_size :: "u32 \<Rightarrow> nat" where
  "region_size rasr = 2 ^ (unat (drop_bit 1 rasr AND 0x1F) + 1)"

definition region_hit :: "mpu \<Rightarrow> u32 \<Rightarrow> u32 \<Rightarrow> bool" where
  "region_hit m a n \<longleftrightarrow> mpu_rasr m n AND MPU_RASR_ENABLE \<noteq> 0 \<and> unat (mpu_rbar m n) \<le> unat a \<and>
     unat a < unat (mpu_rbar m n) + region_size (mpu_rasr m n)"

fun attributes_permit :: "mpu_access \<Rightarrow> u32 \<Rightarrow> bool" where
  "attributes_permit MPU_READ rasr = (drop_bit 24 rasr AND 7 \<notin> {0, 4})"
| "attributes_permit MPU_WRITE rasr = (drop_bit 24 rasr AND 7 \<in> {1, 2, 3})"
| "attributes_permit MPU_EXECUTE rasr = (drop_bit 24 rasr AND 7 \<notin> {0, 4} \<and> rasr AND MPU_RASR_XN = 0)"

definition default_execute_never :: "u32 \<Rightarrow> bool" where
  "default_execute_never a \<longleftrightarrow> 0x40000000 \<le> a \<and> a < 0x60000000 \<or> 0xA0000000 \<le> a"

definition mpu_permits :: "mpu_access \<Rightarrow> mpu \<Rightarrow> u32 \<Rightarrow> bool" where
  "mpu_permits acc m a =
     (if mpu_ctrl m AND MPU_CTRL_ENABLE = 0 then acc = MPU_EXECUTE \<longrightarrow> \<not> default_execute_never a
      else case find (region_hit m a) [7, 6, 5, 4, 3, 2, 1, 0] of
             Some n \<Rightarrow> attributes_permit acc (mpu_rasr m n)
           | None \<Rightarrow> mpu_ctrl m AND MPU_CTRL_PRIVDEFENA \<noteq> 0 \<and> (acc = MPU_EXECUTE \<longrightarrow> \<not> default_execute_never a))"

section \<open>The policy in force\<close>

text \<open>The registers of the policy; the regions 5 to 7 are as reset leaves them.\<close>

definition policy_in_force :: "u32 \<Rightarrow> mpu \<Rightarrow> bool" where
  "policy_in_force guard m \<longleftrightarrow> mpu_ctrl m = 5 \<and> policy_enabled m \<and>
     (\<forall>r \<in> set (policy_regions guard). mpu_rbar m (mr_number r) = mr_base r \<and> mpu_rasr m (mr_number r) = mr_attributes r) \<and>
     mpu_rasr m 5 AND 1 = 0 \<and> mpu_rasr m 6 AND 1 = 0 \<and> mpu_rasr m 7 AND 1 = 0"

lemma mpu_policy_init_ok:
  assumes "mpu_policy_init guard ty m = (True, m')"
    and "mpu_rasr m 5 AND 1 = 0" "mpu_rasr m 6 AND 1 = 0" "mpu_rasr m 7 AND 1 = 0"
  shows "policy_in_force guard m'" "guard AND 0xFF = 0"
  using assms
  by (auto simp: mpu_policy_init_def mpu_policy_build_regions_def policy_regions_def policy_in_force_def write_region_def
      Let_def region_valid_def split: if_splits)

lemmas policy_attributes = MPU_POLICY_FLASH_ATTRIBUTES_def MPU_POLICY_SRAM_ATTRIBUTES_def
  MPU_POLICY_PROTECTED_FLASH_ATTRIBUTES_def MPU_POLICY_NO_ACCESS_ATTRIBUTES_def MPU_POLICY_STACK_GUARD_ATTRIBUTES_def
  MPU_RASR_SIZE_def

text \<open>The region that decides, in words: the guard first, then the null page, then the two flash regions and the RAM.\<close>

lemma policy_decides:
  assumes "policy_in_force guard m"
  shows "find (region_hit m a) [7, 6, 5, 4, 3, 2, 1, 0] =
    (if unat guard \<le> unat a \<and> unat a < unat guard + 256 then Some 4
     else if unat a < 32 then Some 3
     else if 0x08000000 \<le> unat a \<and> unat a < 0x08020000 then Some 2
     else if 0x20000000 \<le> unat a \<and> unat a < 0x20020000 then Some 1
     else if 0x08000000 \<le> unat a \<and> unat a < 0x08100000 then Some 0 else None)"
  using assms
  by (simp add: policy_in_force_def region_hit_def policy_regions_def region_size_def policy_attributes)

lemma policy_permits:
  assumes "policy_in_force guard m"
  shows "mpu_permits acc m a =
    (if unat guard \<le> unat a \<and> unat a < unat guard + 256 then False
     else if unat a < 32 then False
     else if 0x08000000 \<le> unat a \<and> unat a < 0x08020000 then acc = MPU_READ
     else if 0x20000000 \<le> unat a \<and> unat a < 0x20020000 then acc \<noteq> MPU_EXECUTE
     else if 0x08000000 \<le> unat a \<and> unat a < 0x08100000 then acc \<noteq> MPU_WRITE
     else acc = MPU_EXECUTE \<longrightarrow> \<not> default_execute_never a)"
proof -
  have regs: "mpu_ctrl m = 5" "mpu_rasr m 0 = 0x05000027" "mpu_rasr m 1 = 0x13000021" "mpu_rasr m 2 = 0x15000021"
    "mpu_rasr m 3 = 0x10000009" "mpu_rasr m 4 = 0x1000000F"
    using assms by (simp_all add: policy_in_force_def policy_regions_def policy_attributes)
  show ?thesis
    unfolding mpu_permits_def policy_decides [OF assms]
    by (cases acc) (simp_all add: regs)
qed

text \<open>
  The memory policy on the target: when \<^verbatim>\<open>mpu_policy_init\<close> reports success, no address of the
  internal flash can be written, neither the boot loader and the journal nor any address of the RAM
  can be executed, the first 32 bytes and the stack guard cannot be accessed at all, and outside the
  guard the RAM stays readable and writable and the application flash executable.
\<close>

theorem mpu_policy_protects:
  assumes init: "mpu_policy_init guard ty m = (True, m')"
    and reset: "mpu_rasr m 5 AND 1 = 0" "mpu_rasr m 6 AND 1 = 0" "mpu_rasr m 7 AND 1 = 0"
    and guard: "0x20000000 \<le> unat guard" "unat guard + 256 \<le> 0x20020000"
  shows "(0x08000000 \<le> unat a \<and> unat a < 0x08100000 \<longrightarrow> \<not> mpu_permits MPU_WRITE m' a) \<and>
    (0x08000000 \<le> unat a \<and> unat a < 0x08020000 \<longrightarrow> \<not> mpu_permits MPU_EXECUTE m' a) \<and>
    (0x20000000 \<le> unat a \<and> unat a < 0x20020000 \<longrightarrow> \<not> mpu_permits MPU_EXECUTE m' a) \<and>
    (unat a < 32 \<or> unat guard \<le> unat a \<and> unat a < unat guard + 256 \<longrightarrow> \<not> mpu_permits acc m' a) \<and>
    (0x20000000 \<le> unat a \<and> unat a < unat guard \<or> unat guard + 256 \<le> unat a \<and> unat a < 0x20020000 \<longrightarrow>
       mpu_permits MPU_READ m' a \<and> mpu_permits MPU_WRITE m' a) \<and>
    (0x08020000 \<le> unat a \<and> unat a < 0x08100000 \<longrightarrow> mpu_permits MPU_READ m' a \<and> mpu_permits MPU_EXECUTE m' a)"
proof -
  note p = policy_permits [OF mpu_policy_init_ok(1) [OF init reset], of _ a]
  show ?thesis using guard unfolding p by auto
qed

definition reset_mpu :: mpu where
  "reset_mpu = \<lparr>mpu_ctrl = 0, mpu_rnr = 0, mpu_rbar = (\<lambda>_. 0), mpu_rasr = (\<lambda>_. 0), scb_shcsr = 0, saved_mpu_ctrl = 0,
     policy_enabled = False\<rparr>"

theorem mpu_policy_protects_witness:
  "\<not> mpu_permits MPU_WRITE (snd (mpu_policy_init 0x2001E000 0x800 reset_mpu)) 0x08008000 \<and>
   mpu_permits MPU_EXECUTE (snd (mpu_policy_init 0x2001E000 0x800 reset_mpu)) 0x08020300"
proof -
  obtain m' where m': "mpu_policy_init 0x2001E000 0x800 reset_mpu = (True, m')"
    by (simp add: mpu_policy_init_def mpu_policy_build_regions_def policy_regions_def region_valid_def Let_def)
  have r: "mpu_rasr reset_mpu 5 AND 1 = 0" "mpu_rasr reset_mpu 6 AND 1 = 0" "mpu_rasr reset_mpu 7 AND 1 = 0"
    by (simp_all add: reset_mpu_def)
  from mpu_policy_protects [OF m' r, of "0x08008000"] mpu_policy_protects [OF m' r, of "0x08020300"] m'
  show ?thesis by simp
qed

text \<open>
  Error behaviour of the policy: \<^verbatim>\<open>mpu_policy_init\<close> reports failure exactly when the MPU has fewer
  than five regions or the stack guard is not aligned to its size, and then it leaves the MPU as it
  was and the policy marked as disabled.
\<close>

theorem mpu_policy_init_fails:
  "(fst (mpu_policy_init guard ty m) \<longleftrightarrow> 0x500 \<le> ty AND 0xFF00 \<and> guard AND 0xFF = 0) \<and>
   (fst (mpu_policy_init guard ty m) \<or>
      snd (mpu_policy_init guard ty m) = m\<lparr>policy_enabled := False\<rparr> \<and>
      \<not> mpu_policy_is_enabled (snd (mpu_policy_init guard ty m)))"
  by (auto simp: mpu_policy_init_def mpu_policy_build_regions_def policy_regions_def region_valid_def Let_def
      mpu_policy_is_enabled_def not_less)

text \<open>A suspension gives the control register back.\<close>

lemma suspend_resume:
  "mpu_ctrl (mpu_policy_resume_after_metadata_commit (mpu_policy_suspend_for_metadata_commit m)) = mpu_ctrl m"
  "policy_in_force guard m \<Longrightarrow>
     policy_in_force guard (mpu_policy_resume_after_metadata_commit (mpu_policy_suspend_for_metadata_commit m))"
  by (simp_all add: mpu_policy_resume_after_metadata_commit_def mpu_policy_suspend_for_metadata_commit_def policy_in_force_def)

section \<open>Watchdog\<close>

abbreviation (input) PLATFORM_IWDG_PRESCALER_REGISTER :: u32 where "PLATFORM_IWDG_PRESCALER_REGISTER \<equiv> 4"
abbreviation (input) PLATFORM_IWDG_RELOAD :: u32 where "PLATFORM_IWDG_RELOAD \<equiv> 2000"
abbreviation (input) PLATFORM_IWDG_TIMEOUT_NOMINAL_MS :: u32 where "PLATFORM_IWDG_TIMEOUT_NOMINAL_MS \<equiv> 4002"
abbreviation (input) PLATFORM_IWDG_TIMEOUT_MIN_MS :: nat where "PLATFORM_IWDG_TIMEOUT_MIN_MS \<equiv> 2724"
abbreviation (input) PLATFORM_IWDG_TIMEOUT_MAX_MS :: nat where "PLATFORM_IWDG_TIMEOUT_MAX_MS \<equiv> 7533"
abbreviation (input) IWDG_CONFIGURATION_WAIT :: u32 where "IWDG_CONFIGURATION_WAIT \<equiv> 1000000"
abbreviation (input) IWDG_KR :: u32 where "IWDG_KR \<equiv> 0x40003000"
abbreviation (input) IWDG_PR :: u32 where "IWDG_PR \<equiv> 0x40003004"
abbreviation (input) IWDG_RLR :: u32 where "IWDG_RLR \<equiv> 0x40003008"
abbreviation (input) RCC_CSR_ADDRESS :: u32 where "RCC_CSR_ADDRESS \<equiv> 0x40023874"

text \<open>The loop: the number of the next read and the counter, started with both.\<close>

function wait_while :: "(nat \<Rightarrow> bool) \<Rightarrow> nat \<Rightarrow> u32 \<Rightarrow> nat \<times> u32" where
  "wait_while busy i wait =
     (if busy i \<and> wait < IWDG_CONFIGURATION_WAIT then wait_while busy (Suc i) (wait + 1) else (Suc i, wait))"
  by pat_completeness auto

lemma wait_step: "(w :: u32) < 1000000 \<Longrightarrow> unat (w + 1) = Suc (unat w)"
  by (subst u32_no_overflow) (simp_all add: word_less_nat_alt)

termination wait_while
  by (relation "measure (\<lambda>(_, _, w). 1000000 - unat w)") (auto simp: wait_step word_less_nat_alt)

declare wait_while.simps [simp del]

text \<open>
  The result, the register writes in their order and the number of reads of the status registers.
  \<open>rcc\<close> and \<open>sr\<close> give the values read from RCC_CSR and IWDG_SR.
\<close>

definition platform_watchdog_init :: "(nat \<Rightarrow> u32) \<Rightarrow> (nat \<Rightarrow> u32) \<Rightarrow> bool \<times> (u32 \<times> u32) list \<times> nat" where
  "platform_watchdog_init rcc sr =
     (let start = [(IWDG_KR, 0xAAAA), (IWDG_KR, 0xCCCC), (IWDG_KR, 0xAAAA), (IWDG_KR, 0x5555),
                   (RCC_CSR_ADDRESS, rcc 0 OR 1)]
      in case wait_while (\<lambda>i. rcc i AND 2 = 0) 1 0 of
           (i, wait) \<Rightarrow>
             if rcc i AND 2 = 0 then (False, start, Suc i)
             else (case wait_while (\<lambda>j. sr j AND 3 \<noteq> 0) 0 wait of
                     (j, wait') \<Rightarrow>
                       if sr j AND 3 \<noteq> 0
                       then (False, start @ [(IWDG_PR, PLATFORM_IWDG_PRESCALER_REGISTER), (IWDG_RLR, PLATFORM_IWDG_RELOAD)],
                             Suc i + Suc j)
                       else (True,
                             start @ [(IWDG_PR, PLATFORM_IWDG_PRESCALER_REGISTER), (IWDG_RLR, PLATFORM_IWDG_RELOAD),
                                      (IWDG_KR, 0xCCCC), (IWDG_KR, 0xAAAA)],
                             Suc i + Suc j)))"

definition platform_watchdog_refresh :: "bool \<Rightarrow> (u32 \<times> u32) list" where
  "platform_watchdog_refresh active = (if active then [(IWDG_KR, 0xAAAA)] else [])"

lemma wait_while_bound:
  "wait_while busy i w = (i', w') \<Longrightarrow> unat w \<le> 1000000 \<Longrightarrow>
     unat w' \<le> 1000000 \<and> i' = Suc i + (unat w' - unat w) \<and> unat w \<le> unat w'"
proof (induction busy i w arbitrary: i' w' rule: wait_while.induct)
  case (1 busy i w)
  show ?case
  proof (cases "busy i \<and> w < 1000000")
    case True
    then have "unat (w + 1) \<le> 1000000" by (simp add: wait_step word_less_nat_alt)
    from 1(1) [OF True _ this] 1(2) True show ?thesis by (subst (asm) wait_while.simps) (auto simp: wait_step)
  qed (use 1(2,3) in \<open>subst (asm) wait_while.simps, auto\<close>)
qed

text \<open>
  Starting the watchdog takes a bounded time: whatever the status registers answer, the two
  waiting loops together read them at most 1000005 times. The writes follow one sequence (start with a
  refreshed counter, unlock, oscillator on, prescaler, reload, start, refresh), and the watchdog is
  reported active exactly when the whole sequence has been written.
\<close>

theorem watchdog_init_bounded:
  "snd (snd (platform_watchdog_init rcc sr)) \<le> 1000005 \<and>
   (\<exists>k \<le> 9.
      fst (snd (platform_watchdog_init rcc sr)) =
        take k [(0x40003000, 0xAAAA), (0x40003000, 0xCCCC), (0x40003000, 0xAAAA), (0x40003000, 0x5555),
          (0x40023874, rcc 0 OR 1), (0x40003004, 4), (0x40003008, 2000), (0x40003000, 0xCCCC), (0x40003000, 0xAAAA)] \<and>
      (fst (platform_watchdog_init rcc sr) \<longleftrightarrow> k = 9))"
proof -
  obtain i w where 1: "wait_while (\<lambda>i. rcc i AND 2 = 0) 1 0 = (i, w)" by fastforce
  obtain j w' where 2: "wait_while (\<lambda>j. sr j AND 3 \<noteq> 0) 0 w = (j, w')" by fastforce
  have "unat w \<le> 1000000" "i = 2 + unat w" using wait_while_bound [OF 1] by simp_all
  moreover from this wait_while_bound [OF 2] have "j = Suc (unat w' - unat w)" "unat w' \<le> 1000000" "unat w \<le> unat w'" by simp_all
  ultimately have "snd (snd (platform_watchdog_init rcc sr)) \<le> 1000005"
    using 1 2 by (simp add: platform_watchdog_init_def Let_def)
  then show ?thesis
    using 1 2 by (intro conjI exI [of _ "if rcc i AND 2 = 0 then 5 else if sr j AND 3 \<noteq> 0 then 7 else 9"])
      (auto simp: platform_watchdog_init_def Let_def)
qed

text \<open>The documented range of the timeout: LSI between 17 and 47 kHz, prescaler 64, reload 2000.\<close>

lemma watchdog_timeout_range:
  assumes "17000 \<le> lsi" "lsi \<le> 47000"
  shows "PLATFORM_IWDG_TIMEOUT_MIN_MS \<le> 64 * (2000 + 1) * 1000 div lsi \<and>
    64 * (2000 + 1) * 1000 div lsi \<le> PLATFORM_IWDG_TIMEOUT_MAX_MS"
proof -
  have "(128064000 :: nat) div 47000 \<le> 128064000 div lsi" using assms by (intro div_le_mono2) auto
  moreover have "128064000 div lsi \<le> (128064000 :: nat) div 17000" using assms by (intro div_le_mono2) auto
  ultimately show ?thesis by simp
qed

end
