(* ===== verification/Boot_Flash.thy ===== *)
theory Boot_Flash
  imports Memory_Layout
begin

text \<open>
  The flash access layer (\<^verbatim>\<open>boot_flash.h\<close>, \<^verbatim>\<open>boot_flash.c\<close>). The three function pointers of
  \<^verbatim>\<open>boot_flash_ops_t\<close> are the record \<open>boot_flash_ops\<close>; the opaque \<^verbatim>\<open>context\<close> they receive
  is the device state of type \<open>'c\<close>, passed in and returned. An output buffer is a
  returned list, a failed initialisation the left side of a sum.

  The locales at the end are the interface to a flash device. \<open>flash_frame\<close> says only
  which addresses a device operation may change; \<open>flash_backend\<close> adds what a device
  without bit corruption holds after an operation, where a failed or interrupted operation may
  leave any prefix of the bytes programmed; \<open>flash_reliable\<close> adds when operations succeed.
\<close>

section \<open>Types\<close>

datatype boot_flash_status =
    BOOT_FLASH_OK
  | BOOT_FLASH_ERR_INVALID_ARGUMENT
  | BOOT_FLASH_ERR_OUT_OF_BOUNDS
  | BOOT_FLASH_ERR_ALIGNMENT
  | BOOT_FLASH_ERR_PROTECTED_REGION
  | BOOT_FLASH_ERR_BACKEND
  | BOOT_FLASH_ERR_VERIFY

record boot_flash_region =
  region_base :: u32
  region_end :: u32

record 'c boot_flash_ops =
  op_read :: "'c \<Rightarrow> u32 \<Rightarrow> size_t \<Rightarrow> boot_flash_status \<times> bytes"
  op_erase_sector :: "'c \<Rightarrow> u32 \<Rightarrow> boot_flash_status \<times> 'c"
  op_program :: "'c \<Rightarrow> u32 \<Rightarrow> bytes \<Rightarrow> boot_flash_status \<times> 'c"

record 'c boot_flash =
  flash_base :: u32
  flash_end :: u32
  program_alignment :: u32
  write_regions :: "boot_flash_region list"
  flash_ops :: "'c boot_flash_ops"

section \<open>Range checks\<close>

definition checked_range_end :: "u32 \<Rightarrow> size_t \<Rightarrow> u32 option" where
  "checked_range_end address len =
     (if len > SIZE_MAX then None
      else if len > SIZE_MAX - unat address then None
      else Some (address + of_nat len))"

definition range_in_bounds :: "u32 \<Rightarrow> u32 \<Rightarrow> u32 \<Rightarrow> size_t \<Rightarrow> bool" where
  "range_in_bounds base e address len =
     (case checked_range_end address len of
        None \<Rightarrow> False
      | Some range_end \<Rightarrow> address \<ge> base \<and> range_end \<le> e \<and> range_end \<ge> address)"

definition range_is_write_allowed :: "'c boot_flash \<Rightarrow> u32 \<Rightarrow> size_t \<Rightarrow> bool" where
  "range_is_write_allowed flash address len =
     (case checked_range_end address len of
        None \<Rightarrow> False
      | Some range_end \<Rightarrow>
          list_ex (\<lambda>region. address \<ge> region_base region \<and> range_end \<le> region_end region)
            (write_regions flash))"

definition is_power_of_two :: "u32 \<Rightarrow> bool" where
  "is_power_of_two v \<longleftrightarrow> v \<noteq> 0 \<and> v AND (v - 1) = 0"

section \<open>Operations\<close>

definition boot_flash_init ::
    "'c boot_flash_ops \<Rightarrow> boot_flash_region list \<Rightarrow> u32 \<Rightarrow> boot_flash_status + 'c boot_flash" where
  "boot_flash_init ops regions alignment =
     (if \<not> is_power_of_two alignment then Inl BOOT_FLASH_ERR_INVALID_ARGUMENT
      else if list_ex (\<lambda>region. region_base region \<ge> region_end region \<or>
                 region_base region < FLASH_BASE \<or> region_end region > FLASH_END) regions
      then Inl BOOT_FLASH_ERR_OUT_OF_BOUNDS
      else Inr \<lparr>flash_base = FLASH_BASE, flash_end = FLASH_END,
                program_alignment = alignment, write_regions = regions, flash_ops = ops\<rparr>)"

definition boot_flash_sector_by_id :: "u32 \<Rightarrow> boot_flash_status + boot_flash_sector" where
  "boot_flash_sector_by_id i =
     (if unat i \<ge> length boot_flash_sectors then Inl BOOT_FLASH_ERR_INVALID_ARGUMENT
      else Inr (boot_flash_sectors ! unat i))"

definition boot_flash_bounds :: "'c boot_flash \<Rightarrow> u32 \<times> u32" where
  "boot_flash_bounds flash = (flash_base flash, flash_end flash)"

definition boot_flash_read ::
    "'c boot_flash \<Rightarrow> 'c \<Rightarrow> u32 \<Rightarrow> size_t \<Rightarrow> boot_flash_status \<times> bytes" where
  "boot_flash_read flash c address len =
     (if \<not> range_in_bounds (flash_base flash) (flash_end flash) address len
      then (BOOT_FLASH_ERR_OUT_OF_BOUNDS, [])
      else if len = 0 then (BOOT_FLASH_OK, [])
      else op_read (flash_ops flash) c address len)"

definition boot_flash_erase_sector ::
    "'c boot_flash \<Rightarrow> 'c \<Rightarrow> u32 \<Rightarrow> boot_flash_status \<times> 'c" where
  "boot_flash_erase_sector flash c i =
     (case boot_flash_sector_by_id i of
        Inl status \<Rightarrow> (status, c)
      | Inr sector \<Rightarrow>
          if \<not> range_is_write_allowed flash (sector_base sector) (unat (sector_size sector))
          then (BOOT_FLASH_ERR_PROTECTED_REGION, c)
          else op_erase_sector (flash_ops flash) c i)"

abbreviation (input) BOOT_FLASH_VERIFY_CHUNK :: size_t where
  "BOOT_FLASH_VERIFY_CHUNK \<equiv> 32"

function boot_flash_verify ::
    "'c boot_flash \<Rightarrow> 'c \<Rightarrow> u32 \<Rightarrow> bytes \<Rightarrow> size_t \<Rightarrow> boot_flash_status" where
  "boot_flash_verify flash c address data offset =
     (if offset < length data then
        (let chunk = (if length data - offset > BOOT_FLASH_VERIFY_CHUNK
                      then BOOT_FLASH_VERIFY_CHUNK else length data - offset)
         in case boot_flash_read flash c (address + of_nat offset) chunk of
              (status, verify) \<Rightarrow>
                if status \<noteq> BOOT_FLASH_OK then status
                else if verify \<noteq> take chunk (drop offset data) then BOOT_FLASH_ERR_VERIFY
                else boot_flash_verify flash c address data (offset + chunk))
      else BOOT_FLASH_OK)"
  by pat_completeness auto
termination
  by (relation "measure (\<lambda>(flash, c, address, data, offset). length data - offset)") auto

declare boot_flash_verify.simps [simp del]

definition boot_flash_program_aligned ::
    "'c boot_flash \<Rightarrow> 'c \<Rightarrow> u32 \<Rightarrow> bytes \<Rightarrow> boot_flash_status \<times> 'c" where
  "boot_flash_program_aligned flash c address data =
     (if length data = 0 then (BOOT_FLASH_OK, c)
      else if address AND (program_alignment flash - 1) \<noteq> 0 \<or>
              (of_nat (length data) :: u32) AND (program_alignment flash - 1) \<noteq> 0
      then (BOOT_FLASH_ERR_ALIGNMENT, c)
      else if \<not> range_in_bounds (flash_base flash) (flash_end flash) address (length data)
      then (BOOT_FLASH_ERR_OUT_OF_BOUNDS, c)
      else if \<not> range_is_write_allowed flash address (length data)
      then (BOOT_FLASH_ERR_PROTECTED_REGION, c)
      else case op_program (flash_ops flash) c address data of
             (status, c') \<Rightarrow>
               if status \<noteq> BOOT_FLASH_OK then (status, c')
               else (boot_flash_verify flash c' address data 0, c'))"

section \<open>Consequences of the checks\<close>

definition in_flash :: "nat \<Rightarrow> bool" where
  "in_flash n \<longleftrightarrow> unat FLASH_BASE \<le> n \<and> n < unat FLASH_END"

definition flash_span :: "u32 \<Rightarrow> nat \<Rightarrow> bool" where
  "flash_span a len \<longleftrightarrow> unat FLASH_BASE \<le> unat a \<and> unat a + len \<le> unat FLASH_END"

definition in_region :: "boot_flash_region \<Rightarrow> nat \<Rightarrow> bool" where
  "in_region r n \<longleftrightarrow> unat (region_base r) \<le> n \<and> n < unat (region_end r)"

definition writable :: "'c boot_flash \<Rightarrow> nat \<Rightarrow> bool" where
  "writable flash n \<longleftrightarrow> (\<exists>r \<in> set (write_regions flash). in_region r n)"

definition in_sector :: "u32 \<Rightarrow> nat \<Rightarrow> bool" where
  "in_sector i n \<longleftrightarrow>
     unat (sector_base (boot_flash_sectors ! unat i)) \<le> n \<and>
     n < unat (sector_end (boot_flash_sectors ! unat i))"

definition wf_flash :: "'c boot_flash \<Rightarrow> bool" where
  "wf_flash flash \<longleftrightarrow>
     flash_base flash = FLASH_BASE \<and> flash_end flash = FLASH_END \<and>
     is_power_of_two (program_alignment flash) \<and>
     list_all (\<lambda>r. region_base r < region_end r \<and> FLASH_BASE \<le> region_base r \<and>
                   region_end r \<le> FLASH_END) (write_regions flash)"

lemma checked_range_end_Some:
  "checked_range_end a n = Some e \<Longrightarrow> unat a + n \<le> SIZE_MAX \<and> unat e = unat a + n"
  using u32_unat_bound [of a]
  by (auto simp: checked_range_end_def u32_no_overflow u32_of_nat split: if_splits)

lemma checked_range_end_small:
  "unat a + n \<le> SIZE_MAX \<Longrightarrow> checked_range_end a n = Some (a + of_nat n)"
  by (auto simp: checked_range_end_def)

lemma range_in_bounds_iff:
  "range_in_bounds b e a n \<longleftrightarrow> b \<le> a \<and> unat a + n \<le> unat e"
proof
  assume "range_in_bounds b e a n"
  then show "b \<le> a \<and> unat a + n \<le> unat e"
    by (auto simp: range_in_bounds_def word_le_nat_alt split: option.splits
        dest: checked_range_end_Some)
next
  assume *: "b \<le> a \<and> unat a + n \<le> unat e"
  with u32_unat_bound [of e] have "unat a + n \<le> SIZE_MAX" by simp
  with * show "range_in_bounds b e a n"
    by (auto simp: range_in_bounds_def checked_range_end_small word_le_nat_alt
        u32_no_overflow u32_of_nat)
qed

lemma range_is_write_allowedD:
  assumes "range_is_write_allowed flash a n" and "unat a \<le> x" and "x < unat a + n"
  shows "writable flash x"
proof -
  from assms(1) obtain e r where e: "checked_range_end a n = Some e"
    and r: "r \<in> set (write_regions flash)" "region_base r \<le> a" "e \<le> region_end r"
    by (auto simp: range_is_write_allowed_def list_ex_iff split: option.splits)
  from e have "unat e = unat a + n" by (simp add: checked_range_end_Some)
  with r assms(2,3) show ?thesis
    by (auto simp: writable_def in_region_def word_le_nat_alt intro!: bexI [of _ r])
qed

lemma range_is_write_allowedI:
  assumes "r \<in> set (write_regions flash)" and "region_base r \<le> a"
    and "unat a + n \<le> unat (region_end r)"
  shows "range_is_write_allowed flash a n"
proof -
  from assms(3) u32_unat_bound [of "region_end r"] have "unat a + n \<le> SIZE_MAX" by simp
  with assms show ?thesis
    by (auto simp: range_is_write_allowed_def checked_range_end_small list_ex_iff
        word_le_nat_alt u32_no_overflow u32_of_nat)
qed

lemma boot_flash_init_wf: "boot_flash_init ops regions al = Inr flash \<Longrightarrow>
    wf_flash flash \<and> flash_ops flash = ops \<and> write_regions flash = regions \<and>
    program_alignment flash = al"
  by (auto simp: boot_flash_init_def wf_flash_def list_all_iff list_ex_iff not_le not_less
      split: if_splits)

lemma sector_span: "unat i < 12 \<Longrightarrow>
    flash_span (sector_base (boot_flash_sectors ! unat i))
      (unat (sector_size (boot_flash_sectors ! unat i)))"
  using sector_row_nth [of "unat i"]
  by (auto simp: sector_row_ok_def flash_span_def word_le_nat_alt)

lemma in_sector_iff: "unat i < 12 \<Longrightarrow>
    in_sector i n \<longleftrightarrow>
      unat (sector_base (boot_flash_sectors ! unat i)) \<le> n \<and>
      n < unat (sector_base (boot_flash_sectors ! unat i)) +
          unat (sector_size (boot_flash_sectors ! unat i))"
  using sector_row_nth [of "unat i"]
  by (auto simp: sector_row_ok_def in_sector_def)

section \<open>The device interface\<close>

text \<open>What any device operation leaves alone, whatever status it reports.\<close>

locale flash_frame =
  fixes ops :: "'c boot_flash_ops"
    and view :: "'c \<Rightarrow> nat \<Rightarrow> u8"
  assumes erase_frame:
    "op_erase_sector ops c i = (st, c') \<Longrightarrow> unat i < 12 \<Longrightarrow> in_flash n \<Longrightarrow>
     \<not> in_sector i n \<Longrightarrow> view c' n = view c n"
  and program_frame:
    "op_program ops c a d = (st, c') \<Longrightarrow> d \<noteq> [] \<Longrightarrow> flash_span a (length d) \<Longrightarrow>
     in_flash n \<Longrightarrow> \<not> (unat a \<le> n \<and> n < unat a + length d) \<Longrightarrow> view c' n = view c n"
begin

lemma erase_sector_frame:
  assumes ops: "flash_ops flash = ops"
    and run: "boot_flash_erase_sector flash c i = (st, c')"
    and n: "in_flash n" "\<not> (in_sector i n \<and> writable flash n)"
  shows "view c' n = view c n"
proof (cases "c' = c")
  case False
  with run ops have i: "unat i < 12"
    and allowed: "range_is_write_allowed flash (sector_base (boot_flash_sectors ! unat i))
                    (unat (sector_size (boot_flash_sectors ! unat i)))"
    and dev: "op_erase_sector ops c i = (st, c')"
    by (auto simp: boot_flash_erase_sector_def boot_flash_sector_by_id_def split: if_splits)
  have "\<not> in_sector i n"
    using n(2) range_is_write_allowedD [OF allowed] in_sector_iff [OF i] by auto
  then show ?thesis by (rule erase_frame [OF dev i n(1)])
qed simp

lemma program_aligned_frame:
  assumes ops: "flash_ops flash = ops" and wf: "wf_flash flash"
    and run: "boot_flash_program_aligned flash c a d = (st, c')"
    and n: "in_flash n" "\<not> (unat a \<le> n \<and> n < unat a + length d \<and> writable flash n)"
  shows "view c' n = view c n"
proof (cases "c' = c")
  case False
  with run ops obtain st' where d: "d \<noteq> []"
    and bounds: "range_in_bounds (flash_base flash) (flash_end flash) a (length d)"
    and allowed: "range_is_write_allowed flash a (length d)"
    and dev: "op_program ops c a d = (st', c')"
    by (auto simp: boot_flash_program_aligned_def split: if_splits prod.splits)
  from bounds wf have span: "flash_span a (length d)"
    by (auto simp: range_in_bounds_iff wf_flash_def flash_span_def word_le_nat_alt)
  have "\<not> (unat a \<le> n \<and> n < unat a + length d)"
    using n(2) range_is_write_allowedD [OF allowed] by auto
  then show ?thesis by (rule program_frame [OF dev d span n(1)])
qed simp

lemma protected_erase:
  "flash_ops flash = ops \<Longrightarrow> boot_flash_erase_sector flash c i = (st, c') \<Longrightarrow>
   in_flash n \<Longrightarrow> \<not> writable flash n \<Longrightarrow> view c' n = view c n"
  by (rule erase_sector_frame) auto

lemma protected_program:
  "flash_ops flash = ops \<Longrightarrow> wf_flash flash \<Longrightarrow>
   boot_flash_program_aligned flash c a d = (st, c') \<Longrightarrow>
   in_flash n \<Longrightarrow> \<not> writable flash n \<Longrightarrow> view c' n = view c n"
  by (rule program_aligned_frame) auto

end

text \<open>
  What a device without bit corruption holds after an operation. Programming can only clear
  bits; a failed or interrupted operation leaves a programmed prefix, or the sector as it was
  or erased.
\<close>

definition torn_program :: "(nat \<Rightarrow> u8) \<Rightarrow> (nat \<Rightarrow> u8) \<Rightarrow> nat \<Rightarrow> bytes \<Rightarrow> nat \<Rightarrow> bool" where
  "torn_program m m' a d k \<longleftrightarrow>
     (\<forall>i < length d. m' (a + i) = (if i < k then m (a + i) AND d ! i else m (a + i)))"

definition erased :: "(nat \<Rightarrow> u8) \<Rightarrow> u32 \<Rightarrow> bool" where
  "erased m i \<longleftrightarrow> (\<forall>n. in_sector i n \<longrightarrow> m n = 0xFF)"

locale flash_backend = flash_frame ops view
  for ops :: "'c boot_flash_ops" and view :: "'c \<Rightarrow> nat \<Rightarrow> u8" +
  fixes healthy :: "'c \<Rightarrow> bool"
  assumes read_law:
    "healthy c \<Longrightarrow> flash_span a n \<Longrightarrow> 0 < n \<Longrightarrow>
     op_read ops c a n = (BOOT_FLASH_OK, mem_range (view c) (unat a) n)"
  and erase_law:
    "healthy c \<Longrightarrow> unat i < 12 \<Longrightarrow> op_erase_sector ops c i = (st, c') \<Longrightarrow>
     healthy c' \<and> (erased (view c') i \<or>
       st \<noteq> BOOT_FLASH_OK \<and> (\<forall>n. in_sector i n \<longrightarrow> view c' n = view c n))"
  and program_law:
    "healthy c \<Longrightarrow> flash_span a (length d) \<Longrightarrow> d \<noteq> [] \<Longrightarrow> op_program ops c a d = (st, c') \<Longrightarrow>
     healthy c' \<and> (\<exists>k \<le> length d. torn_program (view c) (view c') (unat a) d k \<and>
       (st = BOOT_FLASH_OK \<longrightarrow> k = length d))"
begin

lemma read_ok:
  "flash_ops flash = ops \<Longrightarrow> wf_flash flash \<Longrightarrow> healthy c \<Longrightarrow> flash_span a n \<Longrightarrow>
   boot_flash_read flash c a n = (BOOT_FLASH_OK, mem_range (view c) (unat a) n)"
  by (auto simp: boot_flash_read_def range_in_bounds_iff wf_flash_def flash_span_def
      word_le_nat_alt read_law mem_range_def)

lemma verify_step:
  assumes dev: "flash_ops flash = ops" "wf_flash flash" "healthy c"
    and span: "flash_span a (length d)" and off: "off < length d"
    and chunk: "chunk = (if length d - off > 32 then 32 else length d - off)"
  shows "boot_flash_verify flash c a d off =
    (if \<forall>i. off \<le> i \<and> i < off + chunk \<longrightarrow> view c (unat a + i) = d ! i
     then boot_flash_verify flash c a d (off + chunk) else BOOT_FLASH_ERR_VERIFY)"
proof -
  have le: "off + chunk \<le> length d" using off by (auto simp: chunk)
  have addr: "unat (a + of_nat off) = unat a + off"
    using span off by (simp add: flash_span_def u32_no_overflow u32_of_nat)
  then have "flash_span (a + of_nat off) chunk"
    using span le by (simp add: flash_span_def)
  then have read: "boot_flash_read flash c (a + of_nat off) chunk =
      (BOOT_FLASH_OK, mem_range (view c) (unat a + off) chunk)"
    using dev read_ok [of flash c "a + of_nat off" chunk] by (simp add: addr)
  have "mem_range (view c) (unat a + off) chunk = take chunk (drop off d) \<longleftrightarrow>
      (\<forall>i < chunk. view c (unat a + (off + i)) = d ! (off + i))"
    using le by (subst mem_range_eq_iff) (auto simp: add.assoc)
  also have "\<dots> \<longleftrightarrow> (\<forall>i. off \<le> i \<and> i < off + chunk \<longrightarrow> view c (unat a + i) = d ! i)"
    by (metis le_add1 le_add_diff_inverse nat_add_left_cancel_less)
  finally show ?thesis
    using off read by (subst boot_flash_verify.simps) (auto simp: Let_def chunk [symmetric])
qed

lemma verify_iff:
  assumes dev: "flash_ops flash = ops" "wf_flash flash" "healthy c"
    and span: "flash_span a (length d)"
  shows "boot_flash_verify flash c a d off = BOOT_FLASH_OK \<longleftrightarrow>
         (\<forall>i. off \<le> i \<and> i < length d \<longrightarrow> view c (unat a + i) = d ! i)"
proof (induction "length d - off" arbitrary: off rule: less_induct)
  case less
  show ?case
  proof (cases "off < length d")
    case False
    then show ?thesis by (auto simp: boot_flash_verify.simps)
  next
    case True
    define chunk where "chunk = (if length d - off > 32 then 32 else length d - off)"
    have chunk: "0 < chunk" "off + chunk \<le> length d" using True by (auto simp: chunk_def)
    have IH: "boot_flash_verify flash c a d (off + chunk) = BOOT_FLASH_OK \<longleftrightarrow>
        (\<forall>i. off + chunk \<le> i \<and> i < length d \<longrightarrow> view c (unat a + i) = d ! i)"
      using True chunk by (intro less) simp
    have "(\<forall>i. off \<le> i \<and> i < length d \<longrightarrow> view c (unat a + i) = d ! i) \<longleftrightarrow>
        (\<forall>i. off \<le> i \<and> i < off + chunk \<longrightarrow> view c (unat a + i) = d ! i) \<and>
        (\<forall>i. off + chunk \<le> i \<and> i < length d \<longrightarrow> view c (unat a + i) = d ! i)"
      using chunk by (meson le_add1 le_trans less_le_trans not_le)
    with IH show ?thesis by (simp add: verify_step [OF dev span True chunk_def])
  qed
qed

lemma program_aligned_device:
  assumes "flash_ops flash = ops" "wf_flash flash" "d \<noteq> []"
    and "boot_flash_program_aligned flash c a d = (BOOT_FLASH_OK, c')"
  shows "flash_span a (length d)" "op_program ops c a d = (BOOT_FLASH_OK, c')"
    "boot_flash_verify flash c' a d 0 = BOOT_FLASH_OK"
  using assms
  by (auto simp: boot_flash_program_aligned_def range_in_bounds_iff wf_flash_def flash_span_def
      word_le_nat_alt split: if_splits prod.splits)

lemma program_aligned_ok:
  assumes dev: "flash_ops flash = ops" "wf_flash flash" "healthy c"
    and run: "boot_flash_program_aligned flash c a d = (BOOT_FLASH_OK, c')"
  shows "mem_range (view c') (unat a) (length d) = d"
proof (cases "d = []")
  case True
  then show ?thesis by (simp add: mem_range_def)
next
  case False
  note device = program_aligned_device [OF dev(1,2) False run]
  from program_law [OF dev(3) device(1) False device(2)] have "healthy c'" by simp
  with device dev show ?thesis
    by (subst mem_range_eq_iff) (auto simp: verify_iff)
qed

lemma program_aligned_torn:
  assumes dev: "flash_ops flash = ops" "wf_flash flash" "healthy c"
    and run: "boot_flash_program_aligned flash c a d = (st, c')"
  shows "healthy c' \<and> (\<exists>k \<le> length d. torn_program (view c) (view c') (unat a) d k)"
proof (cases "c' = c")
  case True
  then show ?thesis using dev by (auto simp: torn_program_def intro: exI [of _ 0])
next
  case False
  with run dev(1,2) obtain st' where d: "d \<noteq> []" and span: "flash_span a (length d)"
    and prog: "op_program ops c a d = (st', c')"
    by (auto simp: boot_flash_program_aligned_def range_in_bounds_iff wf_flash_def
        flash_span_def word_le_nat_alt split: if_splits prod.splits)
  from program_law [OF dev(3) span d prog] show ?thesis by auto
qed

lemma erase_sector_law:
  assumes dev: "flash_ops flash = ops" "healthy c"
    and run: "boot_flash_erase_sector flash c i = (st, c')"
  shows "healthy c' \<and>
    (unat i < 12 \<and> erased (view c') i \<or>
     st \<noteq> BOOT_FLASH_OK \<and> (\<forall>n. in_sector i n \<longrightarrow> view c' n = view c n))"
proof (cases "unat i < 12 \<and> op_erase_sector ops c i = (st, c')")
  case True
  with erase_law [OF dev(2)] show ?thesis by blast
next
  case False
  with run dev show ?thesis
    by (auto simp: boot_flash_erase_sector_def boot_flash_sector_by_id_def split: if_splits)
qed

end

text \<open>When operations succeed: on a device with no pending fault, within its write regions.\<close>

locale flash_reliable = flash_backend ops view healthy
  for ops :: "'c boot_flash_ops" and view :: "'c \<Rightarrow> nat \<Rightarrow> u8" and healthy :: "'c \<Rightarrow> bool" +
  fixes fault_free :: "'c \<Rightarrow> bool"
  assumes fault_free_healthy: "fault_free c \<Longrightarrow> healthy c"
  and erase_succeeds:
    "fault_free c \<Longrightarrow> unat i < 12 \<Longrightarrow>
     \<exists>c'. op_erase_sector ops c i = (BOOT_FLASH_OK, c') \<and> fault_free c'"
  and program_succeeds:
    "fault_free c \<Longrightarrow> flash_span a (length d) \<Longrightarrow> d \<noteq> [] \<Longrightarrow>
     (\<forall>i < length d. view c (unat a + i) AND d ! i = d ! i) \<Longrightarrow>
     \<exists>c'. op_program ops c a d = (BOOT_FLASH_OK, c') \<and> fault_free c'"
begin

lemma erase_sector_succeeds:
  assumes "flash_ops flash = ops" "fault_free c" "unat i < 12"
    and "range_is_write_allowed flash (sector_base (boot_flash_sectors ! unat i))
           (unat (sector_size (boot_flash_sectors ! unat i)))"
  shows "\<exists>c'. boot_flash_erase_sector flash c i = (BOOT_FLASH_OK, c') \<and> fault_free c'"
  using assms erase_succeeds [of c i]
  by (auto simp: boot_flash_erase_sector_def boot_flash_sector_by_id_def)

lemma program_aligned_succeeds:
  assumes dev: "flash_ops flash = ops" "wf_flash flash" "fault_free c"
    and span: "flash_span a (length d)"
    and al: "a AND (program_alignment flash - 1) = 0"
      "(of_nat (length d) :: u32) AND (program_alignment flash - 1) = 0"
    and allowed: "range_is_write_allowed flash a (length d)"
    and clear: "\<And>i. i < length d \<Longrightarrow> view c (unat a + i) AND d ! i = d ! i"
  shows "\<exists>c'. boot_flash_program_aligned flash c a d = (BOOT_FLASH_OK, c') \<and> fault_free c'"
proof (cases "d = []")
  case True
  then show ?thesis using dev by (simp add: boot_flash_program_aligned_def)
next
  case False
  from program_succeeds [OF dev(3) span False] clear obtain c'
    where prog: "op_program ops c a d = (BOOT_FLASH_OK, c')" and ff: "fault_free c'" by auto
  note h = fault_free_healthy [OF dev(3)]
  from program_law [OF h span False prog] have h': "healthy c'"
    and torn: "torn_program (view c) (view c') (unat a) d (length d)" by auto
  have "boot_flash_verify flash c' a d 0 = BOOT_FLASH_OK"
    using torn clear by (simp add: verify_iff [OF dev(1,2) h' span] torn_program_def)
  moreover have "range_in_bounds (flash_base flash) (flash_end flash) a (length d)"
    using span dev(2) by (simp add: range_in_bounds_iff wf_flash_def flash_span_def word_le_nat_alt)
  ultimately show ?thesis
    using False al allowed prog ff dev(1)
    by (auto simp: boot_flash_program_aligned_def)
qed

end

section \<open>Operations that are cut short\<close>

text \<open>
  A device under a schedule of outcomes, one for each erase or program operation to come: the
  operation works as the device performs it, or it is cut short and reports a backend error. A
  program operation cut at \<open>k\<close> has programmed the first \<open>k\<close> bytes, an erase operation cut at
  \<open>0\<close> has changed nothing and otherwise erased the sector. When the schedule is used up every
  operation works. A loss of power during an operation is \<open>Cut k\<close> followed by \<open>Cut 0\<close> for every
  later operation of the program, which then no longer changes anything; a single failing
  operation is one \<open>Cut k\<close> with \<open>Works\<close> behind it. A device that implements \<open>flash_backend\<close> still does so
  under every schedule.
\<close>

datatype operation_outcome = Works | Cut nat

definition scheduled_ops ::
    "'c boot_flash_ops \<Rightarrow> ('c \<times> operation_outcome list) boot_flash_ops" where
  "scheduled_ops ops =
     \<lparr>op_read = (\<lambda>(c, _). op_read ops c),
      op_erase_sector = (\<lambda>(c, outs) i.
        (case outs of
           Cut k # rest \<Rightarrow>
             (BOOT_FLASH_ERR_BACKEND, if k = 0 then c else snd (op_erase_sector ops c i), rest)
         | _ \<Rightarrow> (case op_erase_sector ops c i of (st, c') \<Rightarrow> (st, c', tl outs)))),
      op_program = (\<lambda>(c, outs) a d.
        (case outs of
           Cut k # rest \<Rightarrow>
             (BOOT_FLASH_ERR_BACKEND,
              if take k d = [] then c else snd (op_program ops c a (take k d)), rest)
         | _ \<Rightarrow> (case op_program ops c a d of (st, c') \<Rightarrow> (st, c', tl outs))))\<rparr>"

definition scheduled_flash :: "'c boot_flash \<Rightarrow> ('c \<times> operation_outcome list) boot_flash" where
  "scheduled_flash flash =
     \<lparr>flash_base = flash_base flash, flash_end = flash_end flash,
      program_alignment = program_alignment flash, write_regions = write_regions flash,
      flash_ops = scheduled_ops (flash_ops flash)\<rparr>"

text \<open>An operation that is cut short changes what the device's own operation on a prefix would.\<close>

lemma scheduled_erase_cases:
  assumes "op_erase_sector (scheduled_ops ops) (c, outs) i = (st, c', rest)"
  obtains (unchanged) "st \<noteq> BOOT_FLASH_OK" "c' = c"
  | (run) s where "op_erase_sector ops c i = (s, c')" "st = BOOT_FLASH_OK \<longrightarrow> s = BOOT_FLASH_OK"
  using assms
  by (cases "op_erase_sector ops c i")
    (auto simp: scheduled_ops_def split: list.splits operation_outcome.splits if_splits)

lemma scheduled_program_cases:
  assumes "op_program (scheduled_ops ops) (c, outs) a d = (st, c', rest)"
  obtains (unchanged) "st \<noteq> BOOT_FLASH_OK" "c' = c"
  | (prefix_run) s k where "st \<noteq> BOOT_FLASH_OK" "take k d \<noteq> []" "op_program ops c a (take k d) = (s, c')"
  | (run) "op_program ops c a d = (st, c')"
proof (cases outs)
  case (Cons out outs')
  show ?thesis
  proof (cases out)
    case (Cut k)
    with Cons assms that show ?thesis
      by (cases "op_program ops c a (take k d)") (auto simp: scheduled_ops_def split: if_splits)
  qed (use Cons assms that in \<open>auto simp: scheduled_ops_def split: prod.splits\<close>)
qed (use assms that in \<open>auto simp: scheduled_ops_def split: prod.splits\<close>)

lemma flash_span_take: "flash_span a (length d) \<Longrightarrow> flash_span a (length (take k d))"
  by (auto simp: flash_span_def)

lemma flash_span_in: "flash_span a n \<Longrightarrow> i < n \<Longrightarrow> in_flash (unat a + i)"
  by (simp add: flash_span_def in_flash_def)

context flash_backend
begin

lemma scheduled_erase_law:
  assumes "healthy c" and "unat i < 12"
    and run: "op_erase_sector (scheduled_ops ops) (c, outs) i = (st, c', rest)"
  shows "healthy c' \<and> (erased (view c') i \<or>
    st \<noteq> BOOT_FLASH_OK \<and> (\<forall>n. in_sector i n \<longrightarrow> view c' n = view c n))"
  using run
proof (cases rule: scheduled_erase_cases)
  case (run s)
  with erase_law [OF assms(1,2) this(1)] show ?thesis by auto
qed (use assms(1) in auto)

lemma scheduled_program_law:
  assumes good: "healthy c" and span: "flash_span a (length d)" and d: "d \<noteq> []"
    and run: "op_program (scheduled_ops ops) (c, outs) a d = (st, c', rest)"
  shows "healthy c' \<and> (\<exists>k \<le> length d. torn_program (view c) (view c') (unat a) d k \<and>
    (st = BOOT_FLASH_OK \<longrightarrow> k = length d))"
  using run
proof (cases rule: scheduled_program_cases)
  case unchanged
  with good show ?thesis by (auto simp: torn_program_def intro!: exI [of _ 0])
next
  case (prefix_run s k)
  note part = flash_span_take [OF span, of k]
  from program_law [OF good part prefix_run(2,3)] obtain j where good': "healthy c'"
    and j: "j \<le> length (take k d)" "torn_program (view c) (view c') (unat a) (take k d) j" by blast
  have "view c' (unat a + i) = view c (unat a + i)" if "i < length d" "\<not> i < k" for i
    using program_frame [OF prefix_run(3,2) part flash_span_in [OF span that(1)]] that by simp
  with j have "torn_program (view c) (view c') (unat a) d j"
    unfolding torn_program_def by (metis length_take min_less_iff_conj nth_take order_less_le_trans)
  with good' j prefix_run(1) show ?thesis by auto
next
  case run
  then show ?thesis by (rule program_law [OF good span d])
qed

lemma scheduled_backend:
  "flash_backend (scheduled_ops ops) (\<lambda>c. view (fst c)) (\<lambda>c. healthy (fst c))"
proof (unfold_locales, goal_cases)
  case (1 c i st c' n)
  obtain d outs e rest where eqs: "c = (d, outs)" "c' = (e, rest)" by fastforce
  from 1(1) show ?case unfolding eqs
    by (cases rule: scheduled_erase_cases) (use 1 erase_frame in \<open>auto simp: eqs\<close>)
next
  case (2 c a d st c' n)
  obtain x outs e rest where eqs: "c = (x, outs)" "c' = (e, rest)" by fastforce
  from 2(1) show ?case unfolding eqs
  proof (cases rule: scheduled_program_cases)
    case (prefix_run s k)
    from program_frame [OF prefix_run(3,2) flash_span_take [OF 2(3)] 2(4)] 2(5)
    show "view (fst (e, rest)) n = view (fst (x, outs)) n" by auto
  next
    case run
    from program_frame [OF run 2(2-5)] show "view (fst (e, rest)) n = view (fst (x, outs)) n" by simp
  qed simp
next
  case (3 c a n)
  then show ?case by (cases c) (simp add: scheduled_ops_def read_law)
next
  case (4 c i st c')
  then show ?case using scheduled_erase_law by (cases c; cases c') simp
next
  case (5 c a d st c')
  then show ?case using scheduled_program_law by (cases c; cases c') simp
qed

end

end
