(* ===== verification/Boot_Flash_Target.thy ===== *)
theory Boot_Flash_Target
  imports Boot_Flash
begin

text \<open>
  The target flash driver (\<^verbatim>\<open>boot_flash_target.h\<close>, \<^verbatim>\<open>boot_flash_target.c\<close>) in its host
  build (\<^verbatim>\<open>BOOT_FLASH_TARGET_HOST_TEST\<close>), where the flash registers and the flash array are
  fields of \<^verbatim>\<open>boot_flash_target_host_context_t\<close>: unlock and lock sequence, status flags,
  sector erase, byte programming that can only clear bits, and the fault switches of the
  context. The register-level variants selected for the device itself touch memory-mapped
  hardware and are not modelled; the driver functions \<open>target_*\<close> are shared by both builds.

  The theory ends with the interpretations of the device interface on the operations tables
  \<open>writable_ops\<close>, \<open>readonly_ops\<close> and \<open>disabled_ops\<close>.
\<close>

section \<open>Registers and context\<close>

abbreviation (input) FLASH_KEY1 :: u32 where "FLASH_KEY1 \<equiv> 0x45670123"
abbreviation (input) FLASH_KEY2 :: u32 where "FLASH_KEY2 \<equiv> 0xCDEF89AB"
abbreviation (input) FLASH_SR_OPERR :: u32 where "FLASH_SR_OPERR \<equiv> 0x2"
abbreviation (input) FLASH_SR_PGAERR :: u32 where "FLASH_SR_PGAERR \<equiv> 0x20"
abbreviation (input) FLASH_SR_PGSERR :: u32 where "FLASH_SR_PGSERR \<equiv> 0x80"
abbreviation (input) FLASH_SR_BSY :: u32 where "FLASH_SR_BSY \<equiv> 0x10000"
abbreviation (input) FLASH_SR_CLEAR_MASK :: u32 where "FLASH_SR_CLEAR_MASK \<equiv> 0x1F3"
abbreviation (input) FLASH_SR_ERROR_MASK :: u32 where "FLASH_SR_ERROR_MASK \<equiv> 0x1F2"
abbreviation (input) FLASH_CR_LOCK :: u32 where "FLASH_CR_LOCK \<equiv> 0x80000000"
abbreviation (input) BOOT_FLASH_TARGET_PROGRAM_ALIGNMENT :: u32 where
  "BOOT_FLASH_TARGET_PROGRAM_ALIGNMENT \<equiv> 1"

record host_context =
  storage :: "nat \<Rightarrow> u8"
  acr :: u32
  sr :: u32
  cr :: u32
  keyr :: u32
  unlock_failure :: u32
  busy_timeout :: u32
  erase_error :: u32
  program_error :: u32
  lock_failure :: u32
  corrupt_after_program :: u32
  saved_primask :: u32
  restored_primask :: u32
  critical_enter_count :: u32
  critical_exit_count :: u32
  ramfunc_valid :: u32

definition boot_flash_target_host_context_init :: host_context where
  "boot_flash_target_host_context_init =
     \<lparr>storage = (\<lambda>_. 0xFF), acr = 0, sr = 0, cr = FLASH_CR_LOCK, keyr = 0,
      unlock_failure = 0, busy_timeout = 0, erase_error = 0, program_error = 0,
      lock_failure = 0, corrupt_after_program = 0, saved_primask = UINT32_MAX,
      restored_primask = UINT32_MAX, critical_enter_count = 0, critical_exit_count = 0,
      ramfunc_valid = 1\<rparr>"

definition interrupt_save_disable :: "host_context \<Rightarrow> u32 \<times> host_context" where
  "interrupt_save_disable host =
     (0, host\<lparr>saved_primask := 0, critical_enter_count := critical_enter_count host + 1\<rparr>)"

definition interrupt_restore :: "host_context \<Rightarrow> u32 \<Rightarrow> host_context" where
  "interrupt_restore host primask =
     host\<lparr>restored_primask := primask, critical_exit_count := critical_exit_count host + 1\<rparr>"

definition flash_sr_write_host :: "host_context \<Rightarrow> u32 \<Rightarrow> host_context" where
  "flash_sr_write_host host v = host\<lparr>sr := sr host AND NOT v\<rparr>"

definition flash_keyr_write_host :: "host_context \<Rightarrow> u32 \<Rightarrow> host_context" where
  "flash_keyr_write_host host v =
     (if v = FLASH_KEY2 then host\<lparr>keyr := v, cr := cr host AND NOT FLASH_CR_LOCK\<rparr>
      else host\<lparr>keyr := v\<rparr>)"

definition flash_read_u8_host :: "host_context \<Rightarrow> u32 \<Rightarrow> u8" where
  "flash_read_u8_host host address = storage host (unat (address - FLASH_BASE))"

definition flash_write_u8_host :: "host_context \<Rightarrow> u32 \<Rightarrow> u8 \<Rightarrow> host_context" where
  "flash_write_u8_host host address v =
     (let offset = unat (address - FLASH_BASE)
      in host\<lparr>storage := (storage host)(offset := storage host offset AND v)\<rparr>)"

section \<open>Critical sections\<close>

definition flash_wait_not_busy_host :: "host_context \<Rightarrow> bool \<times> host_context" where
  "flash_wait_not_busy_host host =
     (if busy_timeout host \<noteq> 0 then (False, host\<lparr>sr := sr host OR FLASH_SR_BSY\<rparr>)
      else let host' = host\<lparr>sr := sr host AND NOT FLASH_SR_BSY\<rparr>
           in (sr host' AND FLASH_SR_ERROR_MASK = 0, host'))"

definition flash_erase_sector_critical_host ::
    "host_context \<Rightarrow> u32 \<Rightarrow> bool \<times> host_context" where
  "flash_erase_sector_critical_host host i =
     (case boot_flash_sector_by_id i of
        Inl _ \<Rightarrow> (False, host\<lparr>sr := sr host OR FLASH_SR_OPERR\<rparr>)
      | Inr sector \<Rightarrow>
          if erase_error host \<noteq> 0 then (False, host\<lparr>sr := sr host OR FLASH_SR_OPERR\<rparr>)
          else case flash_wait_not_busy_host host of
                 (ok, host') \<Rightarrow>
                   if \<not> ok then (False, host')
                   else (True, host'\<lparr>storage :=
                     (\<lambda>n. if unat (sector_base sector - FLASH_BASE) \<le> n \<and>
                             n < unat (sector_base sector - FLASH_BASE) + unat (sector_size sector)
                          then 0xFF else storage host' n)\<rparr>))"

definition flash_program_byte_host ::
    "host_context \<Rightarrow> u32 \<Rightarrow> nat \<Rightarrow> u8 \<Rightarrow> bool \<times> host_context" where
  "flash_program_byte_host host address i b =
     (let current_address = address + of_nat i;
          offset = unat (current_address - FLASH_BASE);
          current = flash_read_u8_host host current_address
      in if current AND b \<noteq> b then (False, host\<lparr>sr := sr host OR FLASH_SR_PGAERR\<rparr>)
         else let host1 = flash_write_u8_host host current_address b
              in (True,
                  if corrupt_after_program host1 \<noteq> 0 \<and> i = 0
                  then host1\<lparr>storage :=
                         (storage host1)(offset := storage host1 offset XOR 0x01)\<rparr>
                  else host1))"

fun flash_program_bytes_host ::
    "host_context \<Rightarrow> u32 \<Rightarrow> nat \<Rightarrow> bytes \<Rightarrow> bool \<times> host_context" where
  "flash_program_bytes_host host address i [] = (True, host)"
| "flash_program_bytes_host host address i (b # bs) =
     (case flash_program_byte_host host address i b of
        (ok, host') \<Rightarrow>
          if \<not> ok then (False, host')
          else flash_program_bytes_host host' address (Suc i) bs)"

definition flash_program_critical_host ::
    "host_context \<Rightarrow> u32 \<Rightarrow> bytes \<Rightarrow> bool \<times> host_context" where
  "flash_program_critical_host host address data =
     (if program_error host \<noteq> 0 then (False, host\<lparr>sr := sr host OR FLASH_SR_PGSERR\<rparr>)
      else case flash_wait_not_busy_host host of
             (ok, host') \<Rightarrow>
               if \<not> ok then (False, host')
               else flash_program_bytes_host host' address 0 data)"

section \<open>Driver operations\<close>

definition target_range_is_flash :: "u32 \<Rightarrow> size_t \<Rightarrow> bool" where
  "target_range_is_flash address len =
     (if address < FLASH_BASE \<or> address > FLASH_END \<or> len > FLASH_TOTAL_SIZE then False
      else len \<le> unat (FLASH_END - address))"

definition target_disabled_read ::
    "host_context \<Rightarrow> u32 \<Rightarrow> size_t \<Rightarrow> boot_flash_status \<times> bytes" where
  "target_disabled_read host address len = (BOOT_FLASH_ERR_BACKEND, [])"

definition target_read ::
    "host_context \<Rightarrow> u32 \<Rightarrow> size_t \<Rightarrow> boot_flash_status \<times> bytes" where
  "target_read host address len =
     (if \<not> target_range_is_flash address len then (BOOT_FLASH_ERR_BACKEND, [])
      else if len = 0 then (BOOT_FLASH_OK, [])
      else (BOOT_FLASH_OK, mem_range (storage host) (unat (address - FLASH_BASE)) len))"

definition target_disabled_erase_sector ::
    "host_context \<Rightarrow> u32 \<Rightarrow> boot_flash_status \<times> host_context" where
  "target_disabled_erase_sector host i = (BOOT_FLASH_ERR_PROTECTED_REGION, host)"

definition target_disabled_program ::
    "host_context \<Rightarrow> u32 \<Rightarrow> bytes \<Rightarrow> boot_flash_status \<times> host_context" where
  "target_disabled_program host address data = (BOOT_FLASH_ERR_PROTECTED_REGION, host)"

definition target_unlock :: "host_context \<Rightarrow> boot_flash_status \<times> host_context" where
  "target_unlock host =
     (if unlock_failure host \<noteq> 0 then (BOOT_FLASH_ERR_BACKEND, host)
      else if cr host AND FLASH_CR_LOCK = 0 then (BOOT_FLASH_OK, host)
      else let host' = flash_keyr_write_host (flash_keyr_write_host host FLASH_KEY1) FLASH_KEY2
           in (if cr host' AND FLASH_CR_LOCK = 0 then BOOT_FLASH_OK else BOOT_FLASH_ERR_BACKEND,
               host'))"

definition target_lock :: "host_context \<Rightarrow> boot_flash_status \<times> host_context" where
  "target_lock host =
     (let host' = (if lock_failure host = 0 then host\<lparr>cr := cr host OR FLASH_CR_LOCK\<rparr> else host)
      in (if cr host' AND FLASH_CR_LOCK \<noteq> 0 then BOOT_FLASH_OK else BOOT_FLASH_ERR_BACKEND,
          host'))"

definition target_clear_status_flags :: "host_context \<Rightarrow> host_context" where
  "target_clear_status_flags host = flash_sr_write_host host FLASH_SR_CLEAR_MASK"

definition target_erase_sector ::
    "host_context \<Rightarrow> u32 \<Rightarrow> boot_flash_status \<times> host_context" where
  "target_erase_sector host i =
     (if i \<ge> 12 then (BOOT_FLASH_ERR_BACKEND, host)
      else case target_unlock host of
        (status, host1) \<Rightarrow>
          if status \<noteq> BOOT_FLASH_OK then (status, host1)
          else case interrupt_save_disable (target_clear_status_flags host1) of
            (primask, host2) \<Rightarrow>
              case flash_erase_sector_critical_host host2 i of
                (ok, host3) \<Rightarrow>
                  case target_lock (interrupt_restore host3 primask) of
                    (lock_status, host4) \<Rightarrow>
                      (if \<not> ok then BOOT_FLASH_ERR_BACKEND
                       else if lock_status = BOOT_FLASH_OK then BOOT_FLASH_OK
                       else lock_status, host4))"

definition target_program ::
    "host_context \<Rightarrow> u32 \<Rightarrow> bytes \<Rightarrow> boot_flash_status \<times> host_context" where
  "target_program host address data =
     (if length data = 0 \<or> \<not> target_range_is_flash address (length data)
      then (BOOT_FLASH_ERR_BACKEND, host)
      else case target_unlock host of
        (status, host1) \<Rightarrow>
          if status \<noteq> BOOT_FLASH_OK then (status, host1)
          else case interrupt_save_disable (target_clear_status_flags host1) of
            (primask, host2) \<Rightarrow>
              case flash_program_critical_host host2 address data of
                (ok, host3) \<Rightarrow>
                  case target_lock (interrupt_restore host3 primask) of
                    (lock_status, host4) \<Rightarrow>
                      (if \<not> ok then BOOT_FLASH_ERR_BACKEND
                       else if lock_status = BOOT_FLASH_OK then BOOT_FLASH_OK
                       else lock_status, host4))"

definition disabled_ops :: "host_context boot_flash_ops" where
  "disabled_ops = \<lparr>op_read = target_disabled_read,
     op_erase_sector = target_disabled_erase_sector, op_program = target_disabled_program\<rparr>"

definition readonly_ops :: "host_context boot_flash_ops" where
  "readonly_ops = \<lparr>op_read = target_read,
     op_erase_sector = target_disabled_erase_sector, op_program = target_disabled_program\<rparr>"

definition writable_ops :: "host_context boot_flash_ops" where
  "writable_ops = \<lparr>op_read = target_read,
     op_erase_sector = target_erase_sector, op_program = target_program\<rparr>"

section \<open>Flash objects\<close>

definition mk_region :: "u32 \<Rightarrow> u32 \<Rightarrow> boot_flash_region" where
  "mk_region b e = \<lparr>region_base = b, region_end = e\<rparr>"

definition metadata_write_regions :: "boot_flash_region list" where
  "metadata_write_regions =
     [mk_region BOOT_METADATA_A_BASE BOOT_METADATA_A_END,
      mk_region BOOT_METADATA_B_BASE BOOT_METADATA_B_END]"

definition target_region_is_protected :: "u32 \<Rightarrow> u32 \<Rightarrow> bool" where
  "target_region_is_protected start e =
     (start \<ge> e \<or> start < FLASH_BASE \<or> e > FLASH_END \<or>
      list_ex (\<lambda>r. start < region_end r \<and> region_base r < e)
        [mk_region BOOTLOADER_BASE BOOTLOADER_END,
         mk_region BOOT_METADATA_A_BASE BOOT_METADATA_A_END,
         mk_region BOOT_METADATA_B_BASE BOOT_METADATA_B_END,
         mk_region UPDATE_METADATA_BASE UPDATE_METADATA_END,
         mk_region RECOVERY_BASE RECOVERY_END])"

fun lab_regions_disjoint :: "boot_flash_region list \<Rightarrow> bool" where
  "lab_regions_disjoint [] = True"
| "lab_regions_disjoint (r # rs) =
     (\<not> target_region_is_protected (region_base r) (region_end r) \<and>
      \<not> list_ex (\<lambda>q. region_base r < region_end q \<and> region_base q < region_end r) rs \<and>
      lab_regions_disjoint rs)"

definition lab_regions_are_valid :: "boot_flash_region list \<Rightarrow> bool" where
  "lab_regions_are_valid regions = (regions \<noteq> [] \<and> lab_regions_disjoint regions)"

definition boot_flash_target_init_disabled :: "boot_flash_status + host_context boot_flash" where
  "boot_flash_target_init_disabled =
     boot_flash_init disabled_ops [] BOOT_FLASH_TARGET_PROGRAM_ALIGNMENT"

definition boot_flash_target_init_readonly :: "boot_flash_status + host_context boot_flash" where
  "boot_flash_target_init_readonly =
     boot_flash_init readonly_ops [] BOOT_FLASH_TARGET_PROGRAM_ALIGNMENT"

text \<open>In the host build the RAM-function bounds check is constantly true.\<close>

definition boot_flash_target_ramfunc_bounds_valid :: bool where
  "boot_flash_target_ramfunc_bounds_valid = True"

definition boot_flash_target_init :: "boot_flash_status + host_context boot_flash" where
  "boot_flash_target_init =
     (if \<not> boot_flash_target_ramfunc_bounds_valid then Inl BOOT_FLASH_ERR_BACKEND
      else boot_flash_init writable_ops [] BOOT_FLASH_TARGET_PROGRAM_ALIGNMENT)"

definition boot_flash_target_init_metadata :: "boot_flash_status + host_context boot_flash" where
  "boot_flash_target_init_metadata =
     (if \<not> boot_flash_target_ramfunc_bounds_valid then Inl BOOT_FLASH_ERR_BACKEND
      else boot_flash_init writable_ops metadata_write_regions
             BOOT_FLASH_TARGET_PROGRAM_ALIGNMENT)"

text \<open>The flag stands for the compile-time switch \<^verbatim>\<open>BOOT_ENABLE_LAB_CANARY_WRITES\<close>.\<close>

definition boot_flash_target_init_lab_canary ::
    "bool \<Rightarrow> boot_flash_region list \<Rightarrow> boot_flash_status + host_context boot_flash" where
  "boot_flash_target_init_lab_canary enabled regions =
     (if \<not> enabled then Inl BOOT_FLASH_ERR_PROTECTED_REGION
      else if \<not> boot_flash_target_ramfunc_bounds_valid \<or> \<not> lab_regions_are_valid regions
      then Inl BOOT_FLASH_ERR_PROTECTED_REGION
      else boot_flash_init writable_ops regions BOOT_FLASH_TARGET_PROGRAM_ALIGNMENT)"

definition boot_flash_target_init_host ::
    "host_context \<Rightarrow> boot_flash_region list \<Rightarrow> boot_flash_status + host_context boot_flash" where
  "boot_flash_target_init_host context regions =
     (if ramfunc_valid context = 0 then Inl BOOT_FLASH_ERR_BACKEND
      else boot_flash_init writable_ops regions BOOT_FLASH_TARGET_PROGRAM_ALIGNMENT)"

section \<open>Effect of the driver on the array and the fault switches\<close>

definition host_view :: "host_context \<Rightarrow> nat \<Rightarrow> u8" where
  "host_view host n = storage host (n - unat FLASH_BASE)"

definition faults :: "host_context \<Rightarrow> u32 list" where
  "faults h = [unlock_failure h, busy_timeout h, erase_error h, program_error h,
     lock_failure h, corrupt_after_program h]"

abbreviation same_faults :: "host_context \<Rightarrow> host_context \<Rightarrow> bool" where
  "same_faults h h' \<equiv> faults h' = faults h"

lemma same_faults_corrupt:
  "same_faults h h' \<Longrightarrow> corrupt_after_program h' = corrupt_after_program h"
  by (simp add: faults_def)

lemma target_unlock_effect:
  "target_unlock h = (st, h') \<Longrightarrow> storage h' = storage h \<and> same_faults h h'"
  by (auto simp: target_unlock_def flash_keyr_write_host_def faults_def Let_def
      split: if_splits)

lemma target_lock_effect:
  "target_lock h = (st, h') \<Longrightarrow> storage h' = storage h \<and> same_faults h h'"
  by (auto simp: target_lock_def faults_def Let_def split: if_splits)

lemma wait_effect:
  "flash_wait_not_busy_host h = (ok, h') \<Longrightarrow> storage h' = storage h \<and> same_faults h h'"
  by (auto simp: flash_wait_not_busy_host_def faults_def Let_def split: if_splits)

lemma enter_effect:
  "interrupt_save_disable (target_clear_status_flags h) = (p, h') \<Longrightarrow>
   storage h' = storage h \<and> same_faults h h' \<and> sr h' = sr h AND NOT FLASH_SR_CLEAR_MASK"
  by (auto simp: interrupt_save_disable_def target_clear_status_flags_def
      flash_sr_write_host_def faults_def)

lemma exit_effect:
  "storage (interrupt_restore h p) = storage h \<and> same_faults h (interrupt_restore h p)"
  by (simp add: interrupt_restore_def faults_def)

lemma array_offset:
  "flash_span a m \<Longrightarrow> j < m \<Longrightarrow>
   unat (a + of_nat j - FLASH_BASE) = unat a - unat FLASH_BASE + j"
proof -
  assume span: "flash_span a m" and j: "j < m"
  then have *: "unat (a + of_nat j) = unat a + j"
    by (simp add: flash_span_def u32_no_overflow u32_of_nat)
  with span have "FLASH_BASE \<le> a + of_nat j"
    by (simp add: flash_span_def word_le_nat_alt)
  then have "unat (a + of_nat j - FLASH_BASE) = unat a + j - unat FLASH_BASE"
    by (simp add: unat_sub *)
  with span show ?thesis by (simp add: flash_span_def)
qed

lemma program_byte_effect:
  assumes "flash_program_byte_host h a i b = (ok, h')" and "flash_span a m" and "i < m"
  defines "off \<equiv> unat a - unat FLASH_BASE + i"
  shows "same_faults h h'" and "n \<noteq> off \<Longrightarrow> storage h' n = storage h n"
    and "corrupt_after_program h = 0 \<Longrightarrow> ok \<Longrightarrow> storage h' off = storage h off AND b"
    and "\<not> ok \<Longrightarrow> storage h' = storage h"
    and "ok \<longleftrightarrow> storage h off AND b = b"
  using assms array_offset [OF assms(2,3)]
  by (auto simp: flash_program_byte_host_def Let_def flash_read_u8_host_def
      flash_write_u8_host_def faults_def split: if_splits)

lemma program_bytes_frame:
  assumes "flash_program_bytes_host h a i bs = (ok, h')" and "flash_span a (i + length bs)"
  shows "same_faults h h' \<and>
    (\<forall>n. \<not> (unat a - unat FLASH_BASE + i \<le> n \<and> n < unat a - unat FLASH_BASE + i + length bs)
      \<longrightarrow> storage h' n = storage h n)"
  using assms
proof (induction bs arbitrary: h i)
  case Nil
  then show ?case by (simp add: faults_def)
next
  case (Cons b bs)
  obtain ok1 h1 where step: "flash_program_byte_host h a i b = (ok1, h1)" by fastforce
  note eff = program_byte_effect [OF step Cons.prems(2)]
  show ?case
  proof (cases ok1)
    case False
    with Cons.prems(1) step eff show ?thesis by auto
  next
    case True
    with Cons.prems step have "flash_program_bytes_host h1 a (Suc i) bs = (ok, h')"
      "flash_span a (Suc i + length bs)" by simp_all
    from Cons.IH [OF this] eff show ?thesis
      by auto
  qed
qed

lemma program_bytes_torn:
  assumes "flash_program_bytes_host h a i bs = (ok, h')" and "flash_span a (i + length bs)"
    and "corrupt_after_program h = 0"
  shows "\<exists>k \<le> length bs. (ok \<longrightarrow> k = length bs) \<and>
    (\<forall>j < length bs. storage h' (unat a - unat FLASH_BASE + i + j) =
       (if j < k then storage h (unat a - unat FLASH_BASE + i + j) AND bs ! j
        else storage h (unat a - unat FLASH_BASE + i + j)))"
  using assms
proof (induction bs arbitrary: h i)
  case (Cons b bs)
  let ?o = "unat a - unat FLASH_BASE"
  obtain ok1 h1 where step: "flash_program_byte_host h a i b = (ok1, h1)" by fastforce
  note eff = program_byte_effect [OF step Cons.prems(2)]
  show ?case
  proof (cases ok1)
    case False
    with Cons.prems(1) step eff show ?thesis by (auto intro!: exI [of _ 0])
  next
    case True
    with Cons.prems step have rec: "flash_program_bytes_host h1 a (Suc i) bs = (ok, h')"
      "flash_span a (Suc i + length bs)" by simp_all
    have "corrupt_after_program h1 = 0" using same_faults_corrupt [OF eff(1)] Cons.prems(3) by simp
    from Cons.IH [OF rec this] obtain k where k: "k \<le> length bs" "ok \<longrightarrow> k = length bs"
      "\<forall>j < length bs. storage h' (?o + Suc i + j) =
         (if j < k then storage h1 (?o + Suc i + j) AND bs ! j else storage h1 (?o + Suc i + j))"
      by blast
    have first: "storage h' (?o + i) = storage h (?o + i) AND b"
      using program_bytes_frame [OF rec] eff True Cons.prems(3) by simp
    have "storage h' (?o + i + j) =
       (if j < Suc k then storage h (?o + i + j) AND (b # bs) ! j else storage h (?o + i + j))"
      if "j < length (b # bs)" for j
      using first k(3) eff that by (cases j) auto
    with k show ?thesis by (intro exI [of _ "Suc k"]) auto
  qed
qed simp

lemma program_bytes_succeeds:
  assumes "flash_span a (i + length bs)" and "corrupt_after_program h = 0"
    and "\<And>j. j < length bs \<Longrightarrow>
      storage h (unat a - unat FLASH_BASE + i + j) AND bs ! j = bs ! j"
  shows "fst (flash_program_bytes_host h a i bs)"
  using assms
proof (induction bs arbitrary: h i)
  case (Cons b bs)
  obtain ok1 h1 where step: "flash_program_byte_host h a i b = (ok1, h1)" by fastforce
  note eff = program_byte_effect [OF step Cons.prems(1)]
  have ok1 using eff(5) Cons.prems(3) [of 0] by simp
  moreover have "fst (flash_program_bytes_host h1 a (Suc i) bs)"
    using Cons.prems eff Cons.prems(3) [of "Suc j" for j]
    by (intro Cons.IH) (auto simp: faults_def)
  ultimately show ?case using step by simp
qed simp

lemma erase_critical_effect:
  assumes run: "flash_erase_sector_critical_host h i = (ok, h')" and i: "unat i < 12"
  shows "same_faults h h'"
    and "\<not> ok \<Longrightarrow> storage h' = storage h"
    and "ok \<Longrightarrow> in_flash n \<Longrightarrow> host_view h' n = (if in_sector i n then 0xFF else host_view h n)"
proof -
  let ?s = "boot_flash_sectors ! unat i"
  have row: "sector_row_ok ?s" using i by (rule sector_row_nth)
  then have base: "unat (sector_base ?s - FLASH_BASE) = unat (sector_base ?s) - unat FLASH_BASE"
    by (simp add: sector_row_ok_def unat_sub)
  have by_id: "boot_flash_sector_by_id i = Inr ?s"
    using i by (simp add: boot_flash_sector_by_id_def)
  obtain ok1 h1 where wait: "flash_wait_not_busy_host h = (ok1, h1)" by fastforce
  note w = wait_effect [OF wait]
  show "same_faults h h'" and "\<not> ok \<Longrightarrow> storage h' = storage h"
    using run w by (auto simp: flash_erase_sector_critical_host_def by_id wait faults_def
        split: if_splits)
  assume ok and n: "in_flash n"
  with run w have "storage h' = (\<lambda>n. if unat (sector_base ?s - FLASH_BASE) \<le> n \<and>
      n < unat (sector_base ?s - FLASH_BASE) + unat (sector_size ?s) then 0xFF else storage h n)"
    by (auto simp: flash_erase_sector_critical_host_def by_id wait split: if_splits)
  moreover have "unat (sector_base ?s - FLASH_BASE) \<le> n - unat FLASH_BASE \<and>
      n - unat FLASH_BASE < unat (sector_base ?s - FLASH_BASE) + unat (sector_size ?s) \<longleftrightarrow>
      in_sector i n"
    using n row unfolding base in_sector_iff [OF i]
    by (auto simp: in_flash_def sector_row_ok_def word_le_nat_alt)
  ultimately show "host_view h' n = (if in_sector i n then 0xFF else host_view h n)"
    by (simp add: host_view_def)
qed

lemma target_erase_sector_effect:
  assumes run: "target_erase_sector h i = (st, h')" and i: "unat i < 12"
  shows "same_faults h h' \<and>
    (st \<noteq> BOOT_FLASH_OK \<and> storage h' = storage h \<or>
     (\<forall>n. in_flash n \<longrightarrow> host_view h' n = (if in_sector i n then 0xFF else host_view h n)))"
proof -
  obtain st1 h1 where u: "target_unlock h = (st1, h1)" by fastforce
  obtain p h2 where e: "interrupt_save_disable (target_clear_status_flags h1) = (p, h2)" by fastforce
  obtain ok h3 where c: "flash_erase_sector_critical_host h2 i = (ok, h3)" by fastforce
  obtain st4 h4 where l: "target_lock (interrupt_restore h3 p) = (st4, h4)" by fastforce
  note effects = target_unlock_effect [OF u] enter_effect [OF e] erase_critical_effect [OF c i]
    target_lock_effect [OF l] exit_effect [of h3 p]
  have "\<not> i \<ge> 12" using i by (simp add: word_le_nat_alt)
  with run u e c l have "(st, h') = (if st1 \<noteq> BOOT_FLASH_OK then (st1, h1) else
      (if \<not> ok then BOOT_FLASH_ERR_BACKEND else st4, h4))"
    by (simp add: target_erase_sector_def split: if_splits)
  then consider "st \<noteq> BOOT_FLASH_OK" "h' = h1" | "st \<noteq> BOOT_FLASH_OK" "h' = h4" "\<not> ok" | "h' = h4" ok
    by (auto split: if_splits)
  then show ?thesis
    by cases (use effects in \<open>auto simp: host_view_def\<close>)
qed

lemma target_program_cases:
  assumes run: "target_program h a d = (st, h')" and span: "flash_span a (length d)"
  obtains (untouched) "st \<noteq> BOOT_FLASH_OK" "storage h' = storage h" "same_faults h h'"
  | (bytes) hw ok hb where "flash_program_bytes_host hw a 0 d = (ok, hb)" "storage hw = storage h"
      "same_faults h hw" "storage h' = storage hb" "same_faults hb h'" "st = BOOT_FLASH_OK \<Longrightarrow> ok"
proof -
  obtain st1 h1 where u: "target_unlock h = (st1, h1)" by fastforce
  obtain p h2 where e: "interrupt_save_disable (target_clear_status_flags h1) = (p, h2)" by fastforce
  obtain okw hw where w: "flash_wait_not_busy_host h2 = (okw, hw)" by fastforce
  obtain okb hb where b: "flash_program_bytes_host hw a 0 d = (okb, hb)" by fastforce
  obtain ok h3 where c: "flash_program_critical_host h2 a d = (ok, h3)" by fastforce
  obtain st4 h4 where l: "target_lock (interrupt_restore h3 p) = (st4, h4)" by fastforce
  note effects = target_unlock_effect [OF u] enter_effect [OF e] wait_effect [OF w]
    target_lock_effect [OF l] exit_effect [of h3 p]
  have crit: "h3 = hb \<and> ok = okb \<or> \<not> ok \<and> storage h3 = storage h2 \<and> same_faults h2 h3"
    using c w b effects(3)
    by (auto simp: flash_program_critical_host_def faults_def split: if_splits)
  have result: "st1 = BOOT_FLASH_OK \<and> (st, h') = (if \<not> ok then BOOT_FLASH_ERR_BACKEND else st4, h4) \<or>
      st \<noteq> BOOT_FLASH_OK \<and> storage h' = storage h \<and> same_faults h h'"
    using run u e c l effects(1) by (auto simp: target_program_def split: if_splits)
  have "st \<noteq> BOOT_FLASH_OK \<and> storage h' = storage h \<and> same_faults h h' \<or>
      storage h' = storage hb \<and> same_faults hb h' \<and> (st = BOOT_FLASH_OK \<longrightarrow> okb)"
    using result crit effects by (auto split: if_splits)
  moreover have "storage hw = storage h" "same_faults h hw" using effects by simp_all
  ultimately show thesis using untouched bytes [OF b] by blast
qed

lemma target_program_faults:
  assumes "target_program h a d = (st, h')" and "flash_span a (length d)"
  shows "same_faults h h'"
  using assms
proof (cases rule: target_program_cases)
  case (bytes hw ok hb)
  with program_bytes_frame [OF bytes(1)] assms(2) show ?thesis by simp
qed

lemma target_program_frame:
  assumes "target_program h a d = (st, h')" and "flash_span a (length d)"
    and n: "in_flash n" "\<not> (unat a \<le> n \<and> n < unat a + length d)"
  shows "host_view h' n = host_view h n"
  using assms(1,2)
proof (cases rule: target_program_cases)
  case (bytes hw ok hb)
  have "\<not> (unat a - unat FLASH_BASE + 0 \<le> n - unat FLASH_BASE \<and>
      n - unat FLASH_BASE < unat a - unat FLASH_BASE + 0 + length d)"
    using n assms(2) by (auto simp: in_flash_def flash_span_def)
  with program_bytes_frame [OF bytes(1)] assms(2) bytes show ?thesis
    by (simp add: host_view_def)
qed (simp add: host_view_def)

lemma target_program_torn:
  assumes "target_program h a d = (st, h')" and span: "flash_span a (length d)"
    and clean: "corrupt_after_program h = 0"
  shows "\<exists>k \<le> length d. torn_program (host_view h) (host_view h') (unat a) d k \<and>
    (st = BOOT_FLASH_OK \<longrightarrow> k = length d)"
  using assms(1,2)
proof (cases rule: target_program_cases)
  case untouched
  then show ?thesis by (intro exI [of _ 0]) (simp add: torn_program_def host_view_def)
next
  case (bytes hw ok hb)
  have "corrupt_after_program hw = 0" using same_faults_corrupt [OF bytes(3)] clean by simp
  with program_bytes_torn [OF bytes(1)] span obtain k where k: "k \<le> length d" "ok \<longrightarrow> k = length d"
    and st: "\<forall>j < length d. storage hb (unat a - unat FLASH_BASE + 0 + j) =
       (if j < k then storage hw (unat a - unat FLASH_BASE + 0 + j) AND d ! j
        else storage hw (unat a - unat FLASH_BASE + 0 + j))" by (metis add_0)
  have at: "unat a + j - unat FLASH_BASE = unat a - unat FLASH_BASE + 0 + j" for j
    using span by (simp add: flash_span_def)
  have "torn_program (host_view h) (host_view h') (unat a) d k"
    unfolding torn_program_def host_view_def at bytes(4) using st bytes(2) by simp
  with k bytes(6) show ?thesis by blast
qed

section \<open>The driver implements the device interface\<close>

definition host_healthy :: "host_context \<Rightarrow> bool" where
  "host_healthy h \<longleftrightarrow> corrupt_after_program h = 0"

definition host_fault_free :: "host_context \<Rightarrow> bool" where
  "host_fault_free h \<longleftrightarrow> faults h = replicate 6 0"

lemma target_read_ok:
  "flash_span a n \<Longrightarrow> 0 < n \<Longrightarrow>
   target_read h a n = (BOOT_FLASH_OK, mem_range (host_view h) (unat a) n)"
  by (auto simp: target_read_def target_range_is_flash_def flash_span_def word_less_nat_alt
      unat_sub word_le_nat_alt mem_range_def host_view_def)

interpretation host_frame: flash_frame writable_ops host_view
proof
  fix c i st c' n
  assume "op_erase_sector writable_ops c i = (st, c')" "unat i < 12" "in_flash n" "\<not> in_sector i n"
  then show "host_view c' n = host_view c n"
    using target_erase_sector_effect [of c i st c'] by (auto simp: writable_ops_def host_view_def)
next
  fix c a d st c' n
  assume "op_program writable_ops c a d = (st, c')" "flash_span a (length d)" "in_flash n"
    "\<not> (unat a \<le> n \<and> n < unat a + length d)"
  then show "host_view c' n = host_view c n"
    using target_program_frame [of c a d st c' n] by (simp add: writable_ops_def)
qed

interpretation readonly_frame: flash_frame readonly_ops host_view
  by unfold_locales
    (simp_all add: readonly_ops_def target_disabled_erase_sector_def target_disabled_program_def)

interpretation disabled_frame: flash_frame disabled_ops host_view
  by unfold_locales
    (simp_all add: disabled_ops_def target_disabled_erase_sector_def target_disabled_program_def)

interpretation host_backend: flash_backend writable_ops host_view host_healthy
proof
  fix c a n
  assume "flash_span a n" "0 < n"
  then show "op_read writable_ops c a n = (BOOT_FLASH_OK, mem_range (host_view c) (unat a) n)"
    by (simp add: writable_ops_def target_read_ok)
next
  fix c i st c'
  assume h: "host_healthy c" and i: "unat i < 12" and "op_erase_sector writable_ops c i = (st, c')"
  then have eff: "target_erase_sector c i = (st, c')" by (simp add: writable_ops_def)
  have flash: "in_flash n" if "in_sector i n" for n
    using that sector_row_nth [OF i]
    by (auto simp: in_sector_def sector_row_ok_def in_flash_def word_le_nat_alt)
  note effect = target_erase_sector_effect [OF eff i]
  from effect h have "host_healthy c'" using same_faults_corrupt [of c c'] by (simp add: host_healthy_def)
  with effect flash show "host_healthy c' \<and> (erased (host_view c') i \<or>
      st \<noteq> BOOT_FLASH_OK \<and> (\<forall>n. in_sector i n \<longrightarrow> host_view c' n = host_view c n))"
    by (auto simp: erased_def host_view_def)
next
  fix c a d st c'
  assume h: "host_healthy c" and span: "flash_span a (length d)"
    and "op_program writable_ops c a d = (st, c')"
  then have run: "target_program c a d = (st, c')" by (simp add: writable_ops_def)
  have "host_healthy c'"
    using h same_faults_corrupt [OF target_program_faults [OF run span]] by (simp add: host_healthy_def)
  with target_program_torn [OF run span] h
  show "host_healthy c' \<and> (\<exists>k \<le> length d.
      torn_program (host_view c) (host_view c') (unat a) d k \<and> (st = BOOT_FLASH_OK \<longrightarrow> k = length d))"
    by (simp add: host_healthy_def)
qed

lemma mask_cleared: "(w AND NOT m) AND m = (0 :: u32)"
  by (rule bit_word_eqI) (auto simp: bit_simps)

lemma mask_set: "(w OR m) AND m = (m :: u32)"
  by (rule bit_word_eqI) (auto simp: bit_simps)

lemma mask_disjoint: "x AND e = 0 \<Longrightarrow> ((w AND x) AND y) AND e = (0 :: u32)"
proof -
  assume "x AND e = 0"
  moreover have "((w AND x) AND y) AND e = (w AND y) AND (x AND e)" by (simp add: ac_simps)
  ultimately show ?thesis by simp
qed

lemma status_cleared:
  "((w AND NOT FLASH_SR_CLEAR_MASK) AND NOT FLASH_SR_BSY) AND FLASH_SR_ERROR_MASK = 0"
  by (rule mask_disjoint) simp

lemma fault_free_simps:
  assumes "host_fault_free h"
  shows "unlock_failure h = 0" "busy_timeout h = 0" "erase_error h = 0" "program_error h = 0"
    "lock_failure h = 0" "corrupt_after_program h = 0"
  using assms by (simp_all add: host_fault_free_def faults_def numeral_eq_Suc)

lemma same_faults_fault_free: "same_faults h h' \<Longrightarrow> host_fault_free h' = host_fault_free h"
  by (simp add: host_fault_free_def)

lemma unlock_succeeds: "host_fault_free h \<Longrightarrow> fst (target_unlock h) = BOOT_FLASH_OK"
  by (simp add: target_unlock_def fault_free_simps flash_keyr_write_host_def Let_def
      mask_cleared [of _ FLASH_CR_LOCK, simplified])

lemma lock_succeeds: "host_fault_free h \<Longrightarrow> fst (target_lock h) = BOOT_FLASH_OK"
  by (simp add: target_lock_def fault_free_simps Let_def mask_set [of _ FLASH_CR_LOCK, simplified])

lemma wait_succeeds:
  "host_fault_free h \<Longrightarrow> sr h = w AND NOT FLASH_SR_CLEAR_MASK \<Longrightarrow> fst (flash_wait_not_busy_host h)"
  using status_cleared [of w] by (simp add: flash_wait_not_busy_host_def fault_free_simps Let_def)

lemma erase_succeeds_host:
  assumes ff: "host_fault_free h" and i: "unat i < 12"
  shows "fst (target_erase_sector h i) = BOOT_FLASH_OK"
proof -
  obtain st1 h1 where u: "target_unlock h = (st1, h1)" by fastforce
  obtain p h2 where e: "interrupt_save_disable (target_clear_status_flags h1) = (p, h2)" by fastforce
  obtain ok h3 where c: "flash_erase_sector_critical_host h2 i = (ok, h3)" by fastforce
  obtain st4 h4 where l: "target_lock (interrupt_restore h3 p) = (st4, h4)" by fastforce
  note effects = target_unlock_effect [OF u] enter_effect [OF e] erase_critical_effect [OF c i]
    exit_effect [of h3 p]
  have h2: "host_fault_free h2" using ff effects same_faults_fault_free by metis
  have h3: "host_fault_free (interrupt_restore h3 p)" using h2 effects same_faults_fault_free by metis
  have "st1 = BOOT_FLASH_OK" using unlock_succeeds [OF ff] u by simp
  moreover have ok
    using c wait_succeeds [OF h2] effects i
    by (auto simp: flash_erase_sector_critical_host_def boot_flash_sector_by_id_def
        fault_free_simps [OF h2] split: prod.splits if_splits)
  moreover have "st4 = BOOT_FLASH_OK" using lock_succeeds [OF h3] l by simp
  moreover have "\<not> i \<ge> 12" using i by (simp add: word_le_nat_alt)
  ultimately show ?thesis using u e c l by (simp add: target_erase_sector_def)
qed

lemma program_succeeds_host:
  assumes ff: "host_fault_free h" and span: "flash_span a (length d)" and d: "d \<noteq> []"
    and clear: "\<And>j. j < length d \<Longrightarrow> host_view h (unat a + j) AND d ! j = d ! j"
  shows "fst (target_program h a d) = BOOT_FLASH_OK"
proof -
  obtain st1 h1 where u: "target_unlock h = (st1, h1)" by fastforce
  obtain p h2 where e: "interrupt_save_disable (target_clear_status_flags h1) = (p, h2)" by fastforce
  obtain okw hw where w: "flash_wait_not_busy_host h2 = (okw, hw)" by fastforce
  obtain ok h3 where b: "flash_program_bytes_host hw a 0 d = (ok, h3)" by fastforce
  obtain st4 h4 where l: "target_lock (interrupt_restore h3 p) = (st4, h4)" by fastforce
  note effects = target_unlock_effect [OF u] enter_effect [OF e] wait_effect [OF w]
    exit_effect [of h3 p]
  have h2: "host_fault_free h2" "host_fault_free hw" using ff effects same_faults_fault_free by metis+
  have "same_faults hw h3" using program_bytes_frame [OF b] span by simp
  then have h3: "host_fault_free (interrupt_restore h3 p)"
    using h2 effects same_faults_fault_free by metis
  have "st1 = BOOT_FLASH_OK" using unlock_succeeds [OF ff] u by simp
  moreover have okw using wait_succeeds [OF h2(1)] effects w by (metis fst_conv)
  moreover have at: "storage hw (unat a - unat FLASH_BASE + 0 + j) = host_view h (unat a + j)" for j
    using effects span by (simp add: host_view_def flash_span_def)
  have ok using program_bytes_succeeds [of a 0 d hw] span fault_free_simps [OF h2(2)] clear b
    unfolding at by simp
  moreover have "st4 = BOOT_FLASH_OK" using lock_succeeds [OF h3] l by simp
  moreover have "target_range_is_flash a (length d)"
    using span by (auto simp: target_range_is_flash_def flash_span_def word_less_nat_alt unat_sub
        word_le_nat_alt)
  ultimately show ?thesis
    using u e w b l d fault_free_simps [OF h2(1)]
    by (simp add: target_program_def flash_program_critical_host_def)
qed

interpretation host_reliable: flash_reliable writable_ops host_view host_healthy host_fault_free
proof
  fix c :: host_context
  assume "host_fault_free c"
  then show "host_healthy c" by (simp add: host_healthy_def fault_free_simps)
next
  fix c :: host_context and i :: u32
  assume ff: "host_fault_free c" and i: "unat i < 12"
  obtain st c' where run: "target_erase_sector c i = (st, c')" by fastforce
  have "same_faults c c'" using target_erase_sector_effect [OF run i] by (rule conjunct1)
  moreover have "st = BOOT_FLASH_OK" using erase_succeeds_host [OF ff i] run by simp
  ultimately show "\<exists>c'. op_erase_sector writable_ops c i = (BOOT_FLASH_OK, c') \<and> host_fault_free c'"
    using ff run same_faults_fault_free [of c c'] by (simp add: writable_ops_def)
next
  fix c :: host_context and a :: u32 and d
  assume ff: "host_fault_free c" and span: "flash_span a (length d)" and "d \<noteq> []"
    and "\<forall>i < length d. host_view c (unat a + i) AND d ! i = d ! i"
  then have "fst (target_program c a d) = BOOT_FLASH_OK" by (intro program_succeeds_host) auto
  moreover obtain st c' where run: "target_program c a d = (st, c')" by fastforce
  moreover have "same_faults c c'" by (rule target_program_faults [OF run span])
  ultimately show "\<exists>c'. op_program writable_ops c a d = (BOOT_FLASH_OK, c') \<and> host_fault_free c'"
    using ff same_faults_fault_free [of c c'] by (simp add: writable_ops_def)
qed

section \<open>Properties\<close>

text \<open>
  C34. Write protection: a flash object made by \<^verbatim>\<open>boot_flash_init\<close> never changes a byte outside its
  write regions, whatever sector or range it is asked to erase or program and whatever the
  driver reports.
\<close>

theorem flash_write_protection:
  assumes init: "boot_flash_init writable_ops regions al = Inr flash"
    and n: "in_flash n" "\<forall>r \<in> set regions. \<not> in_region r n"
  shows "host_view (snd (boot_flash_erase_sector flash c i)) n = host_view c n \<and>
    host_view (snd (boot_flash_program_aligned flash c a d)) n = host_view c n"
proof -
  from boot_flash_init_wf [OF init] have wf: "wf_flash flash" "flash_ops flash = writable_ops"
    and "\<not> writable flash n" using n by (auto simp: writable_def)
  then show ?thesis
    using host_frame.protected_erase [OF wf(2), of c i] host_frame.protected_program [OF wf(2,1), of c a d] n
    by (metis prod.collapse)
qed

text \<open>An instance: the metadata flash object cannot change the first byte of the boot loader.\<close>

theorem flash_write_protection_witness:
  "\<exists>flash. boot_flash_init writable_ops metadata_write_regions 1 = Inr flash \<and>
     host_view (snd (boot_flash_erase_sector flash boot_flash_target_host_context_init 0)) 0x08000000 =
     host_view boot_flash_target_host_context_init 0x08000000"
proof -
  obtain flash where init: "boot_flash_init writable_ops metadata_write_regions 1 = Inr flash"
    by (simp add: boot_flash_init_def is_power_of_two_def metadata_write_regions_def mk_region_def)
  have "in_flash 0x08000000" "\<forall>r \<in> set metadata_write_regions. \<not> in_region r 0x08000000"
    by (simp_all add: in_flash_def metadata_write_regions_def mk_region_def in_region_def)
  with flash_write_protection [OF init] init show ?thesis by blast
qed

text \<open>
  A successful program operation has been read back: on a driver without bit corruption the
  flash then holds exactly the data, and every other byte of the flash is unchanged.
\<close>

theorem program_reads_back:
  assumes init: "boot_flash_init writable_ops regions al = Inr flash" and good: "host_healthy c"
    and run: "boot_flash_program_aligned flash c a d = (BOOT_FLASH_OK, c')"
  shows "mem_range (host_view c') (unat a) (length d) = d \<and>
    (\<forall>n. in_flash n \<longrightarrow> \<not> (unat a \<le> n \<and> n < unat a + length d) \<longrightarrow> host_view c' n = host_view c n)"
proof -
  from boot_flash_init_wf [OF init] have wf: "flash_ops flash = writable_ops" "wf_flash flash" by auto
  show ?thesis
    using host_backend.program_aligned_ok [OF wf good run] host_frame.program_aligned_frame [OF wf run]
    by blast
qed

text \<open>
  A program operation within the write regions succeeds: without a pending fault, for a range
  inside a write region, aligned, and whose bits are all still set where the data has ones.
\<close>

theorem program_progress:
  assumes init: "boot_flash_init writable_ops regions al = Inr flash" and ff: "host_fault_free c"
    and r: "r \<in> set regions" "region_base r \<le> a" "unat a + length d \<le> unat (region_end r)"
    and al: "a AND (al - 1) = 0" "(of_nat (length d) :: u32) AND (al - 1) = 0"
    and clear: "\<forall>i < length d. host_view c (unat a + i) AND d ! i = d ! i"
  shows "\<exists>c'. boot_flash_program_aligned flash c a d = (BOOT_FLASH_OK, c') \<and> host_fault_free c'"
proof -
  from boot_flash_init_wf [OF init] have wf: "flash_ops flash = writable_ops" "wf_flash flash"
    "write_regions flash = regions" "program_alignment flash = al" by auto
  with r have "FLASH_BASE \<le> region_base r" "region_end r \<le> FLASH_END"
    by (auto simp: wf_flash_def list_all_iff)
  with r have "flash_span a (length d)" by (auto simp: flash_span_def word_le_nat_alt)
  moreover have "range_is_write_allowed flash a (length d)"
    using r wf(3) by (intro range_is_write_allowedI) auto
  ultimately show ?thesis
    using al clear wf by (intro host_reliable.program_aligned_succeeds [OF wf(1,2) ff]) auto
qed

lemma blank_program:
  fixes d :: bytes
  assumes d: "length d \<le> 16"
  obtains flash c' where "boot_flash_init writable_ops metadata_write_regions 1 = Inr flash"
    "boot_flash_program_aligned flash boot_flash_target_host_context_init 0x08008000 d =
      (BOOT_FLASH_OK, c')"
proof -
  obtain flash where init: "boot_flash_init writable_ops metadata_write_regions 1 = Inr flash"
    by (simp add: boot_flash_init_def is_power_of_two_def metadata_write_regions_def mk_region_def)
  from boot_flash_init_wf [OF init] have wf: "flash_ops flash = writable_ops" "wf_flash flash"
    "write_regions flash = metadata_write_regions" "program_alignment flash = 1" by auto
  have ones: "(0xFF :: u8) AND w = w" for w
  proof -
    have "(0xFF :: u8) = - 1" by simp
    then show ?thesis by (metis and.left_neutral)
  qed
  have ff: "host_fault_free boot_flash_target_host_context_init"
    by (simp add: host_fault_free_def faults_def boot_flash_target_host_context_init_def numeral_eq_Suc)
  have "range_is_write_allowed flash 0x08008000 (length d)"
    by (rule range_is_write_allowedI [of "mk_region BOOT_METADATA_A_BASE BOOT_METADATA_A_END"])
      (use d wf(3) in \<open>simp_all add: metadata_write_regions_def mk_region_def\<close>)
  moreover have "flash_span 0x08008000 (length d)" using d by (simp add: flash_span_def)
  ultimately have "\<exists>c'. boot_flash_program_aligned flash boot_flash_target_host_context_init 0x08008000 d =
      (BOOT_FLASH_OK, c') \<and> host_fault_free c'"
    by (intro host_reliable.program_aligned_succeeds [OF wf(1,2) ff])
      (simp_all add: wf(4) host_view_def boot_flash_target_host_context_init_def ones)
  with init that show ?thesis by blast
qed

text \<open>Instances: four bytes written to a blank metadata sector.\<close>

theorem program_reads_back_witness:
  "\<exists>flash c'. boot_flash_program_aligned flash boot_flash_target_host_context_init 0x08008000 [1, 2, 3, 4] =
     (BOOT_FLASH_OK, c') \<and>
     mem_range (host_view c') (unat (0x08008000 :: u32)) (length [1, 2, 3, 4 :: u8]) = [1, 2, 3, 4]"
proof -
  obtain flash c' where init: "boot_flash_init writable_ops metadata_write_regions 1 = Inr flash"
    and run: "boot_flash_program_aligned flash boot_flash_target_host_context_init 0x08008000 [1, 2, 3, 4] =
      (BOOT_FLASH_OK, c')" by (rule blank_program [of "[1, 2, 3, 4]"]) simp
  have "host_healthy boot_flash_target_host_context_init"
    by (simp add: host_healthy_def boot_flash_target_host_context_init_def)
  from program_reads_back [OF init this run] run show ?thesis by blast
qed

theorem program_progress_witness:
  "\<exists>flash c'. boot_flash_program_aligned flash boot_flash_target_host_context_init 0x08008000 [0xFF] =
     (BOOT_FLASH_OK, c')"
proof -
  obtain flash where init: "boot_flash_init writable_ops metadata_write_regions 1 = Inr flash"
    by (simp add: boot_flash_init_def is_power_of_two_def metadata_write_regions_def mk_region_def)
  have "host_fault_free boot_flash_target_host_context_init"
    by (simp add: host_fault_free_def faults_def boot_flash_target_host_context_init_def numeral_eq_Suc)
  from program_progress [OF init this, where a = "0x08008000" and d = "[0xFF]"
      and r = "mk_region BOOT_METADATA_A_BASE BOOT_METADATA_A_END"]
  show ?thesis
    by (auto simp: metadata_write_regions_def mk_region_def host_view_def
        boot_flash_target_host_context_init_def)
qed

end
