(* ===== verification/Metadata_Journal.thy ===== *)
theory Metadata_Journal
  imports Boot_Flash_Target Boot_Metadata
begin

text \<open>
  The part of \<^verbatim>\<open>boot_metadata.c\<close> that reads and writes flash: recovery of the current record
  from the two copies, the two-phase write of one copy, the commit of the next record and
  the reinitialisation used by recovery mode.

  The locale \<open>metadata_journal\<close> is the contract the clients rely on: a commit takes effect
  completely or not at all, whatever operation fails or is interrupted. It is derived from
  the device interface in the locale \<open>journal_device\<close> and holds for the flash objects of
  \<^verbatim>\<open>boot_flash_target.c\<close> by interpretation.
\<close>

section \<open>Operations\<close>

type_synonym recovered =
  "boot_metadata_status \<times> (boot_metadata_record \<times> boot_metadata_recovery) option"

text \<open>The record and the report stay unset when a copy cannot be read.\<close>

definition boot_metadata_recover_from_flash :: "'c boot_flash \<Rightarrow> 'c \<Rightarrow> recovered" where
  "boot_metadata_recover_from_flash flash c =
     (case boot_flash_read flash c BOOT_METADATA_A_BASE BOOT_METADATA_RECORD_SIZE of
        (status_a, copy_a) \<Rightarrow>
          if status_a \<noteq> BOOT_FLASH_OK then (BOOT_METADATA_ERR_FLASH, None)
          else case boot_flash_read flash c BOOT_METADATA_B_BASE BOOT_METADATA_RECORD_SIZE of
            (status_b, copy_b) \<Rightarrow>
              if status_b \<noteq> BOOT_FLASH_OK then (BOOT_METADATA_ERR_FLASH, None)
              else case boot_metadata_recover copy_a copy_b of
                (status, selected, recovery) \<Rightarrow> (status, Some (selected, recovery)))"

definition copy_base :: "boot_metadata_copy \<Rightarrow> u32" where
  "copy_base copy = (if copy = BOOT_METADATA_COPY_B then BOOT_METADATA_B_BASE
                     else BOOT_METADATA_A_BASE)"

definition copy_sector :: "boot_metadata_copy \<Rightarrow> u32" where
  "copy_sector copy = (if copy = BOOT_METADATA_COPY_B then BOOT_METADATA_B_FIRST_SECTOR
                       else BOOT_METADATA_A_FIRST_SECTOR)"

definition write_copy ::
    "'c boot_flash \<Rightarrow> 'c \<Rightarrow> boot_metadata_copy \<Rightarrow> boot_metadata_record \<Rightarrow>
     boot_metadata_status \<times> 'c" where
  "write_copy flash c copy r =
     (if copy \<noteq> BOOT_METADATA_COPY_A \<and> copy \<noteq> BOOT_METADATA_COPY_B
      then (BOOT_METADATA_ERR_INVALID_ARGUMENT, c)
      else case boot_metadata_encode r of
        Inl _ \<Rightarrow> (BOOT_METADATA_ERR_BAD_FORMAT, c)
      | Inr encoded \<Rightarrow>
          (case boot_flash_erase_sector flash c (copy_sector copy) of
             (st1, c1) \<Rightarrow>
               if st1 \<noteq> BOOT_FLASH_OK then (BOOT_METADATA_ERR_FLASH, c1)
               else case boot_flash_program_aligned flash c1 (copy_base copy)
                           (take METADATA_COMMIT_OFFSET encoded) of
                 (st2, c2) \<Rightarrow>
                   if st2 \<noteq> BOOT_FLASH_OK then (BOOT_METADATA_ERR_FLASH, c2)
                   else case boot_flash_program_aligned flash c2
                               (copy_base copy + of_nat METADATA_COMMIT_OFFSET)
                               (take METADATA_COMMIT_SIZE (drop METADATA_COMMIT_OFFSET encoded)) of
                     (st3, c3) \<Rightarrow>
                       if st3 \<noteq> BOOT_FLASH_OK then (BOOT_METADATA_ERR_FLASH, c3)
                       else (BOOT_METADATA_OK, c3)))"

definition commit_target :: "boot_metadata_recovery \<Rightarrow> boot_metadata_copy" where
  "commit_target recovery =
     (if \<not> copy_a_valid recovery \<and> \<not> copy_b_valid recovery then BOOT_METADATA_COPY_A
      else if \<not> copy_a_valid recovery then BOOT_METADATA_COPY_A
      else if \<not> copy_b_valid recovery then BOOT_METADATA_COPY_B
      else if selected_copy recovery = BOOT_METADATA_COPY_A then BOOT_METADATA_COPY_B
      else BOOT_METADATA_COPY_A)"

definition boot_metadata_commit ::
    "'c boot_flash \<Rightarrow> 'c \<Rightarrow> boot_metadata_record \<Rightarrow> boot_metadata_status \<times> 'c" where
  "boot_metadata_commit flash c nx =
     (case boot_metadata_recover_from_flash flash c of
        (status, None) \<Rightarrow> (status, c)
      | (status, Some (selected, recovery)) \<Rightarrow>
          if status \<noteq> BOOT_METADATA_ERR_NO_VALID_COPY \<and> status \<noteq> BOOT_METADATA_OK
          then (status, c)
          else let current = (if status = BOOT_METADATA_ERR_NO_VALID_COPY
                              then boot_metadata_empty else selected);
                   transition = boot_metadata_validate_transition current nx
               in if transition \<noteq> BOOT_METADATA_OK then (transition, c)
                  else write_copy flash c (commit_target recovery) nx)"

definition boot_metadata_reinitialize_for_recovery ::
    "'c boot_flash \<Rightarrow> 'c \<Rightarrow> boot_metadata_record \<Rightarrow> boot_metadata_status \<times> 'c" where
  "boot_metadata_reinitialize_for_recovery flash c nx =
     (if sequence nx \<noteq> 1 \<or> state nx \<noteq> BOOT_METADATA_STATE_WRITING \<or>
         active_slot nx \<noteq> BOOT_SLOT_NONE \<or> candidate_slot nx \<noteq> slot_num BOOT_SLOT_A \<or>
         boot_metadata_validate_transition boot_metadata_empty nx \<noteq> BOOT_METADATA_OK
      then (BOOT_METADATA_ERR_BAD_TRANSITION, c)
      else case boot_flash_erase_sector flash c BOOT_METADATA_A_FIRST_SECTOR of
        (st1, c1) \<Rightarrow>
          if st1 \<noteq> BOOT_FLASH_OK then (BOOT_METADATA_ERR_FLASH, c1)
          else case boot_flash_erase_sector flash c1 BOOT_METADATA_B_FIRST_SECTOR of
            (st2, c2) \<Rightarrow>
              if st2 \<noteq> BOOT_FLASH_OK then (BOOT_METADATA_ERR_FLASH, c2)
              else write_copy flash c2 BOOT_METADATA_COPY_A nx)"

section \<open>Selection and transitions\<close>

lemma records_are_equal_iff [simp]: "records_are_equal l r \<longleftrightarrow> l = r"
  by (cases l; cases r) (auto simp: records_are_equal_def)

lemma validate_transition_ok:
  assumes "boot_metadata_validate_transition cur nx = BOOT_METADATA_OK"
  shows "state_record_is_canonical nx" "sequence cur < sequence nx"
    "sequence nx = sequence cur + 1" "transition_state_allowed (state cur) (state nx)"
    "transition_fields_allowed cur nx"
proof -
  from assms show "state_record_is_canonical nx" "sequence nx = sequence cur + 1"
    "transition_state_allowed (state cur) (state nx)" "transition_fields_allowed cur nx"
    by (auto simp: boot_metadata_validate_transition_def split: if_splits)
  from assms have "sequence cur \<noteq> UINT32_MAX" "sequence nx = sequence cur + 1"
    by (auto simp: boot_metadata_validate_transition_def split: if_splits)
  then show "sequence cur < sequence nx"
    using u32_unat_bound [of "sequence cur"]
    by (simp add: word_less_nat_alt u32_no_overflow word_unat_eq_iff)
qed

lemma prepare_next_ok:
  assumes "boot_metadata_prepare_next cur st act cand ver att conf res = Inr nx"
  shows "boot_metadata_validate_transition cur nx = BOOT_METADATA_OK"
    "nx = \<lparr>sequence = sequence cur + 1, state = st, active_slot = act, candidate_slot = cand,
           candidate_image_version = ver, boot_attempt_count = att,
           confirmation_state = conf, result_code = res\<rparr>"
  using assms by (auto simp: boot_metadata_prepare_next_def Let_def split: if_splits)

lemma recover_cases:
  "boot_metadata_recover a b = (st, r, v) \<Longrightarrow>
   (st = BOOT_METADATA_OK \<and>
      (selected_copy v = BOOT_METADATA_COPY_A \<and> boot_metadata_decode a = Inr r \<or>
       selected_copy v = BOOT_METADATA_COPY_B \<and> boot_metadata_decode b = Inr r)) \<or>
   (st = BOOT_METADATA_ERR_NO_VALID_COPY \<and> r = boot_metadata_empty \<and>
      \<not> copy_a_valid v \<and> \<not> copy_b_valid v) \<or>
   (st = BOOT_METADATA_ERR_AMBIGUOUS \<and> copy_a_valid v \<and> copy_b_valid v)"
  by (auto simp: boot_metadata_recover_def Let_def split: sum.splits if_splits)


text \<open>
  What is left in the target copy after a write that may have been cut short: the old bytes,
  bytes that do not decode, or the complete new record.
\<close>

definition copy_after_write :: "bytes \<Rightarrow> boot_metadata_record \<Rightarrow> bytes \<Rightarrow> bool" where
  "copy_after_write old r new \<longleftrightarrow>
     new = old \<or> (\<exists>e. boot_metadata_decode new = Inl e) \<or> new = encode_record r"

text \<open>The status and the record of a recovery, without the report on the copies.\<close>

definition recover_view :: "bytes \<Rightarrow> bytes \<Rightarrow> boot_metadata_status \<times> boot_metadata_record" where
  "recover_view a b = (case boot_metadata_recover a b of (st, r, _) \<Rightarrow> (st, r))"

lemma recover_view_simps:
  "boot_metadata_decode a = Inl e \<Longrightarrow> boot_metadata_decode b = Inl f \<Longrightarrow>
     recover_view a b = (BOOT_METADATA_ERR_NO_VALID_COPY, boot_metadata_empty)"
  "boot_metadata_decode a = Inr r \<Longrightarrow> boot_metadata_decode b = Inl f \<Longrightarrow>
     recover_view a b = (BOOT_METADATA_OK, r)"
  "boot_metadata_decode a = Inl e \<Longrightarrow> boot_metadata_decode b = Inr q \<Longrightarrow>
     recover_view a b = (BOOT_METADATA_OK, q)"
  "boot_metadata_decode a = Inr r \<Longrightarrow> boot_metadata_decode b = Inr q \<Longrightarrow>
     recover_view a b =
       (if sequence r = sequence q then
          (if r = q then (BOOT_METADATA_OK, r)
           else (BOOT_METADATA_ERR_AMBIGUOUS, boot_metadata_empty))
        else if sequence r > sequence q then (BOOT_METADATA_OK, r) else (BOOT_METADATA_OK, q))"
  by (simp_all add: recover_view_def boot_metadata_recover_def Let_def)

text \<open>The commit never targets the only valid copy nor the selected one.\<close>

lemma commit_target_spares:
  assumes rec: "boot_metadata_recover a b = (st, r, v)"
    and st: "st = BOOT_METADATA_OK \<or> st = BOOT_METADATA_ERR_NO_VALID_COPY"
  obtains
    (fresh) e f where "commit_target v = BOOT_METADATA_COPY_A" "boot_metadata_decode a = Inl e"
      "boot_metadata_decode b = Inl f" "st = BOOT_METADATA_ERR_NO_VALID_COPY"
      "r = boot_metadata_empty"
  | (over_a) "commit_target v = BOOT_METADATA_COPY_A" "boot_metadata_decode b = Inr r"
      "st = BOOT_METADATA_OK"
  | (over_b) "commit_target v = BOOT_METADATA_COPY_B" "boot_metadata_decode a = Inr r"
      "st = BOOT_METADATA_OK"
  using assms
  by (auto simp: boot_metadata_recover_def commit_target_def Let_def
      split: sum.splits if_splits)

lemma write_complete_selects:
  assumes rec: "boot_metadata_recover a b = (st, r, v)"
    and st: "st = BOOT_METADATA_OK \<or> st = BOOT_METADATA_ERR_NO_VALID_COPY"
    and tr: "boot_metadata_validate_transition r nx = BOOT_METADATA_OK"
    and target: "commit_target v = BOOT_METADATA_COPY_A \<and> b' = b \<and> a' = encode_record nx \<or>
                 commit_target v = BOOT_METADATA_COPY_B \<and> a' = a \<and> b' = encode_record nx"
  shows "recover_view a' b' = (BOOT_METADATA_OK, nx)"
proof -
  have enc: "boot_metadata_decode (encode_record nx) = Inr nx"
    using validate_transition_ok(1) [OF tr] by (rule decode_encode_record)
  have less: "sequence r < sequence nx" "\<not> sequence nx < sequence r" "sequence r \<noteq> sequence nx"
    using validate_transition_ok(2) [OF tr] by auto
  from rec st show ?thesis
    by (cases rule: commit_target_spares) (use target enc less in \<open>auto simp: recover_view_simps\<close>)
qed

lemma write_selects:
  assumes rec: "boot_metadata_recover a b = (st, r, v)"
    and st: "st = BOOT_METADATA_OK \<or> st = BOOT_METADATA_ERR_NO_VALID_COPY"
    and tr: "boot_metadata_validate_transition r nx = BOOT_METADATA_OK"
    and target: "commit_target v = BOOT_METADATA_COPY_A \<and> b' = b \<and> copy_after_write a nx a' \<or>
                 commit_target v = BOOT_METADATA_COPY_B \<and> a' = a \<and> copy_after_write b nx b'"
  shows "recover_view a' b' = (st, r) \<or> recover_view a' b' = (BOOT_METADATA_OK, nx)"
proof (cases "commit_target v = BOOT_METADATA_COPY_A \<and> b' = b \<and> a' = encode_record nx \<or>
              commit_target v = BOOT_METADATA_COPY_B \<and> a' = a \<and> b' = encode_record nx")
  case True
  with write_complete_selects [OF rec st tr] show ?thesis by blast
next
  case False
  have old: "recover_view a b = (st, r)" by (simp add: recover_view_def rec)
  from rec st show ?thesis
    by (cases rule: commit_target_spares)
      (use target False old in \<open>auto simp: recover_view_simps copy_after_write_def\<close>)
qed

section \<open>An interrupted write never decodes\<close>

lemma commit_marker:
  "drop 120 (encode_record r) = [0x0D, 0xF0, 0xDE, 0xC0, 0xF2, 0x0F, 0x21, 0x3F]"
  by (simp add: encode_record_def store_le32_def bytes_write_def le32_def)

lemma unprogrammed_marker:
  assumes "k < 8" and "b ! (120 + k) = 0xFF"
  shows "\<exists>e. boot_metadata_decode b = Inl e"
proof (cases "boot_metadata_decode b")
  case (Inr r)
  then have b: "b = encode_record r" by (rule decode_is_encoding)
  then have "b ! (120 + k) = drop 120 (encode_record r) ! k" by simp
  also have "\<dots> = [0x0D, 0xF0, 0xDE, 0xC0, 0xF2, 0x0F, 0x21, 0x3F] ! k" by (simp only: commit_marker)
  also have "\<dots> \<noteq> 0xFF"
  proof -
    have "list_all (\<lambda>x. x \<noteq> 0xFF) [0x0D, 0xF0, 0xDE, 0xC0, 0xF2, 0x0F, 0x21, 0x3F :: u8]" by simp
    then show ?thesis using assms(1) by (simp only: list_all_length) simp
  qed
  finally show ?thesis using assms(2) by simp
qed auto

lemma and_ones [simp]: "0xFF AND (w :: u8) = w" "w AND (0xFF :: u8) = w"
proof -
  have "(0xFF :: u8) = - 1" by simp
  then show "0xFF AND w = w" "w AND 0xFF = w" by (metis and.left_neutral, metis and.right_neutral)
qed

section \<open>Copies on a flash device\<close>

lemma copy_geometry:
  assumes "copy = BOOT_METADATA_COPY_A \<or> copy = BOOT_METADATA_COPY_B"
  shows "unat (copy_sector copy) < 12" "i < 128 \<Longrightarrow> in_sector (copy_sector copy) (unat (copy_base copy) + i)"
    "n \<le> 128 \<Longrightarrow> flash_span (copy_base copy) n" "unat (copy_base copy + 120) = unat (copy_base copy) + 120"
    "i < 128 \<Longrightarrow> in_flash (unat (copy_base copy) + i)"
  using assms
  by (auto simp: copy_sector_def copy_base_def in_sector_def boot_flash_sectors_def mk_sector_def
      flash_span_def in_flash_def)

lemma other_copy_sector:
  "i < 128 \<Longrightarrow> \<not> in_sector 2 (unat BOOT_METADATA_B_BASE + i)"
  "i < 128 \<Longrightarrow> \<not> in_sector 3 (unat BOOT_METADATA_A_BASE + i)"
  by (auto simp: in_sector_def boot_flash_sectors_def mk_sector_def)

text \<open>The three device operations of a write, and which of their results it returns.\<close>

lemma write_copy_cases:
  assumes run: "write_copy flash c copy r = (st, c')"
  obtains
    (skipped) "c' = c" "st \<noteq> BOOT_METADATA_OK"
  | (written) st1 c1 st2 c2 st3 c3
    where "copy = BOOT_METADATA_COPY_A \<or> copy = BOOT_METADATA_COPY_B"
      "boot_flash_erase_sector flash c (copy_sector copy) = (st1, c1)"
      "boot_flash_program_aligned flash c1 (copy_base copy) (take 120 (encode_record r)) = (st2, c2)"
      "boot_flash_program_aligned flash c2 (copy_base copy + 120)
         (take 8 (drop 120 (encode_record r))) = (st3, c3)"
      "(st, c') = (if st1 \<noteq> BOOT_FLASH_OK then (BOOT_METADATA_ERR_FLASH, c1)
         else if st2 \<noteq> BOOT_FLASH_OK then (BOOT_METADATA_ERR_FLASH, c2)
         else if st3 \<noteq> BOOT_FLASH_OK then (BOOT_METADATA_ERR_FLASH, c3)
         else (BOOT_METADATA_OK, c3))"
proof (cases "(copy = BOOT_METADATA_COPY_A \<or> copy = BOOT_METADATA_COPY_B) \<and>
              state_record_is_canonical r")
  case False
  with run show ?thesis
    by (intro skipped) (auto simp: write_copy_def boot_metadata_encode_def split: if_splits)
next
  case True
  then have enc: "boot_metadata_encode r = Inr (encode_record r)" by (simp add: boot_metadata_encode_iff)
  obtain st1 c1 where e1: "boot_flash_erase_sector flash c (copy_sector copy) = (st1, c1)"
    by fastforce
  obtain st2 c2 where e2: "boot_flash_program_aligned flash c1 (copy_base copy)
      (take 120 (encode_record r)) = (st2, c2)" by fastforce
  obtain st3 c3 where e3: "boot_flash_program_aligned flash c2 (copy_base copy + 120)
      (take 8 (drop 120 (encode_record r))) = (st3, c3)" by fastforce
  have off: "word_of_nat 120 = (120 :: u32)" by simp
  have valid: "(copy \<noteq> BOOT_METADATA_COPY_A \<and> copy \<noteq> BOOT_METADATA_COPY_B) = False"
    using True by blast
  show ?thesis
    using run True
    by (intro written [OF _ e1 e2 e3]) (simp_all add: write_copy_def valid enc e1 e2 e3 [simplified] off cong: if_cong)
qed

locale journal_device = flash_backend ops view healthy
  for ops :: "'c boot_flash_ops" and view :: "'c \<Rightarrow> nat \<Rightarrow> u8" and healthy :: "'c \<Rightarrow> bool" +
  fixes flash :: "'c boot_flash"
  assumes dev_ops: "flash_ops flash = ops" and dev_wf: "wf_flash flash"
begin

definition copy_bytes :: "'c \<Rightarrow> boot_metadata_copy \<Rightarrow> bytes" where
  "copy_bytes c copy = mem_range (view c) (unat (copy_base copy)) 128"

lemma length_copy_bytes [simp]: "length (copy_bytes c copy) = 128"
  by (simp add: copy_bytes_def)

lemma copy_bytes_nth: "i < 128 \<Longrightarrow> copy_bytes c copy ! i = view c (unat (copy_base copy) + i)"
  by (simp add: copy_bytes_def)

lemma recover_from_flash_eq:
  assumes "healthy c"
  shows "boot_metadata_recover_from_flash flash c =
    (case boot_metadata_recover (copy_bytes c BOOT_METADATA_COPY_A)
            (copy_bytes c BOOT_METADATA_COPY_B) of (st, r, v) \<Rightarrow> (st, Some (r, v)))"
proof -
  have "boot_flash_read flash c BOOT_METADATA_A_BASE 128 =
      (BOOT_FLASH_OK, copy_bytes c BOOT_METADATA_COPY_A)"
    "boot_flash_read flash c BOOT_METADATA_B_BASE 128 =
      (BOOT_FLASH_OK, copy_bytes c BOOT_METADATA_COPY_B)"
    using read_ok [OF dev_ops dev_wf assms, of BOOT_METADATA_A_BASE 128]
      read_ok [OF dev_ops dev_wf assms, of BOOT_METADATA_B_BASE 128]
    by (simp_all add: copy_bytes_def copy_base_def flash_span_def)
  then show ?thesis by (simp add: boot_metadata_recover_from_flash_def split: prod.splits)
qed

lemma erased_copy:
  assumes "copy = BOOT_METADATA_COPY_A \<or> copy = BOOT_METADATA_COPY_B"
    and "erased (view c) (copy_sector copy)" and "i < 128"
  shows "copy_bytes c copy ! i = 0xFF"
  using assms copy_geometry(2) by (simp add: copy_bytes_nth erased_def)

text \<open>The first phase writes everything but the marker and leaves the marker blank.\<close>

lemma write_body:
  assumes copy: "copy = BOOT_METADATA_COPY_A \<or> copy = BOOT_METADATA_COPY_B"
    and good: "healthy c" and er: "erased (view c) (copy_sector copy)"
    and run: "boot_flash_program_aligned flash c (copy_base copy) (take 120 (encode_record r)) = (st, c')"
  shows "healthy c'" "120 \<le> i \<Longrightarrow> i < 128 \<Longrightarrow> copy_bytes c' copy ! i = 0xFF"
    "st = BOOT_FLASH_OK \<Longrightarrow> i < 120 \<Longrightarrow> copy_bytes c' copy ! i = encode_record r ! i"
proof -
  note geo = copy_geometry [OF copy]
  show "healthy c'" using program_aligned_torn [OF dev_ops dev_wf good run] by simp
  { assume i: "120 \<le> i" "i < 128"
    then have "view c' (unat (copy_base copy) + i) = view c (unat (copy_base copy) + i)"
      using geo(5) by (intro program_aligned_frame [OF dev_ops dev_wf run]) auto
    then show "copy_bytes c' copy ! i = 0xFF"
      using erased_copy [OF copy er i(2)] i by (simp add: copy_bytes_nth) }
  { assume "st = BOOT_FLASH_OK" "i < 120"
    with program_aligned_ok [OF dev_ops dev_wf good] run
    have "mem_range (view c') (unat (copy_base copy)) 120 = take 120 (encode_record r)" by fastforce
    then have "mem_range (view c') (unat (copy_base copy)) 120 ! i = take 120 (encode_record r) ! i"
      by simp
    with \<open>i < 120\<close> show "copy_bytes c' copy ! i = encode_record r ! i"
      by (simp add: copy_bytes_nth) }
qed

text \<open>The second phase writes the marker.\<close>

lemma write_marker:
  assumes copy: "copy = BOOT_METADATA_COPY_A \<or> copy = BOOT_METADATA_COPY_B"
    and good: "healthy c"
    and blank: "\<And>i. 120 \<le> i \<Longrightarrow> i < 128 \<Longrightarrow> copy_bytes c copy ! i = 0xFF"
    and body: "\<And>i. i < 120 \<Longrightarrow> copy_bytes c copy ! i = encode_record r ! i"
    and run: "boot_flash_program_aligned flash c (copy_base copy + 120)
                (take 8 (drop 120 (encode_record r))) = (st, c')"
  shows "healthy c'"
    "copy_bytes c' copy = encode_record r \<or> (\<exists>e. boot_metadata_decode (copy_bytes c' copy) = Inl e)"
    "st = BOOT_FLASH_OK \<Longrightarrow> copy_bytes c' copy = encode_record r"
proof -
  note geo = copy_geometry [OF copy]
  let ?m = "take 8 (drop 120 (encode_record r))"
  have m: "length ?m = 8" "i < 8 \<Longrightarrow> ?m ! i = encode_record r ! (120 + i)" for i by auto
  from program_aligned_torn [OF dev_ops dev_wf good run] m(1) obtain k where
    h: "healthy c'" and k: "k \<le> 8"
    and torn: "torn_program (view c) (view c') (unat (copy_base copy + 120)) ?m k" by auto
  have body': "copy_bytes c' copy ! i = encode_record r ! i" if "i < 120" for i
  proof -
    have "view c' (unat (copy_base copy) + i) = view c (unat (copy_base copy) + i)"
      using geo(4,5) that by (intro program_aligned_frame [OF dev_ops dev_wf run]) auto
    then show ?thesis using body [OF that] that by (simp add: copy_bytes_nth)
  qed
  have marker: "copy_bytes c' copy ! (120 + i) = (if i < k then encode_record r ! (120 + i) else 0xFF)"
    if "i < 8" for i
    using torn blank [of "120 + i"] that m geo(4)
    by (simp add: torn_program_def copy_bytes_nth add.assoc)
  have full: "copy_bytes c' copy = encode_record r"
    if "\<And>i. i < 8 \<Longrightarrow> copy_bytes c' copy ! (120 + i) = encode_record r ! (120 + i)"
  proof (rule nth_equalityI)
    fix i assume "i < length (copy_bytes c' copy)"
    then show "copy_bytes c' copy ! i = encode_record r ! i"
      using body' [of i] that [of "i - 120"] by (cases "i < 120") auto
  qed simp
  show "healthy c'" by (rule h)
  show "copy_bytes c' copy = encode_record r \<or> (\<exists>e. boot_metadata_decode (copy_bytes c' copy) = Inl e)"
  proof (cases "k = 8")
    case True
    with full marker show ?thesis by auto
  next
    case False
    with k marker [of k] unprogrammed_marker [of k] show ?thesis by auto
  qed
  assume "st = BOOT_FLASH_OK"
  with program_aligned_ok [OF dev_ops dev_wf good] run m(1)
  have "mem_range (view c') (unat (copy_base copy + 120)) 8 = ?m" by fastforce
  then have "mem_range (view c') (unat (copy_base copy) + 120) 8 ! i = ?m ! i" for i
    using geo(4) by simp
  then have "view c' (unat (copy_base copy) + 120 + i) = encode_record r ! (120 + i)" if "i < 8" for i
    using that m(2) nth_mem_range by metis
  then show "copy_bytes c' copy = encode_record r"
    by (intro full) (simp add: copy_bytes_nth add.assoc)
qed

lemma write_copy_effect:
  assumes copy: "copy = BOOT_METADATA_COPY_A \<or> copy = BOOT_METADATA_COPY_B"
    and good: "healthy c" and run: "write_copy flash c copy r = (st, c')"
  shows "healthy c' \<and> copy_after_write (copy_bytes c copy) r (copy_bytes c' copy) \<and>
    (st = BOOT_METADATA_OK \<longrightarrow> copy_bytes c' copy = encode_record r)"
using run
proof (cases rule: write_copy_cases)
  case skipped
  with good show ?thesis by (simp add: copy_after_write_def)
next
  case (written st1 c1 st2 c2 st3 c3)
  note e1 = written(2) and e2 = written(3) and e3 = written(4) and res = written(5)
  from erase_sector_law [OF dev_ops good e1] have h1: "healthy c1"
    and er: "erased (view c1) (copy_sector copy) \<or>
      st1 \<noteq> BOOT_FLASH_OK \<and> copy_bytes c1 copy = copy_bytes c copy"
    using copy_geometry(2) [OF copy] by (auto intro!: nth_equalityI simp: copy_bytes_nth)
  show ?thesis
  proof (cases "erased (view c1) (copy_sector copy)")
    case False
    with er res h1 show ?thesis by (auto simp: copy_after_write_def)
  next
    case True
    note b = write_body [OF copy h1 True e2]
    have blank1: "\<exists>e. boot_metadata_decode (copy_bytes c1 copy) = Inl e"
      using unprogrammed_marker [of 0] erased_copy [OF copy True] by simp
    have blank2: "\<exists>e. boot_metadata_decode (copy_bytes c2 copy) = Inl e"
      using unprogrammed_marker [of 0] b(2) by simp
    show ?thesis
    proof (cases "st2 = BOOT_FLASH_OK")
      case False
      with res h1 b(1) blank1 blank2 show ?thesis by (auto simp: copy_after_write_def split: if_splits)
    next
      case True
      note m = write_marker [OF copy b(1) b(2) b(3) [OF True] e3]
      with res h1 blank1 True show ?thesis by (auto simp: copy_after_write_def split: if_splits)
    qed
  qed
qed

end

context flash_frame
begin

lemma write_copy_frame:
  assumes dev: "flash_ops flash = ops" "wf_flash flash"
    and run: "write_copy flash c copy r = (st, c')"
    and n: "in_flash n" "\<not> (in_sector (copy_sector copy) n \<and> writable flash n)"
  shows "view c' n = view c n"
using run
proof (cases rule: write_copy_cases)
  case (written st1 c1 st2 c2 st3 c3)
  note copy = written(1)
  note geo = copy_geometry [OF copy]
  have out: "\<not> (unat (copy_base copy) \<le> n \<and> n < unat (copy_base copy) + 128 \<and> writable flash n)"
    using n(2) geo(2) [of "n - unat (copy_base copy)"] by (auto simp: less_diff_conv2)
  have prog: "view d' n = view d n"
    if "boot_flash_program_aligned flash d a bs = (s, d')"
      "unat (copy_base copy) \<le> unat a" "unat a + length bs \<le> unat (copy_base copy) + 128"
    for d d' a bs s
    using that out by (intro program_aligned_frame [OF dev that(1) n(1)]) auto
  have "view c1 n = view c n" by (rule erase_sector_frame [OF dev(1) written(2) n])
  moreover have "view c2 n = view c1 n" by (rule prog [OF written(3)]) simp_all
  moreover have "view c3 n = view c2 n" by (rule prog [OF written(4)]) (simp_all add: geo(4))
  ultimately show ?thesis using written(5) by (auto split: if_splits)
qed simp

end

section \<open>The journal contract\<close>

definition journal_view :: "recovered \<Rightarrow> boot_metadata_status \<times> boot_metadata_record option" where
  "journal_view x = (fst x, map_option fst (snd x))"

text \<open>The record a commit starts from: the recovered one, or the empty one on a blank journal.\<close>

definition commit_base :: "recovered \<Rightarrow> boot_metadata_record option" where
  "commit_base x =
     (if fst x = BOOT_METADATA_OK \<or> fst x = BOOT_METADATA_ERR_NO_VALID_COPY
      then map_option fst (snd x) else None)"

definition valid_step :: "boot_metadata_record \<Rightarrow> boot_metadata_record \<Rightarrow> bool" where
  "valid_step r r' \<longleftrightarrow> boot_metadata_validate_transition r r' = BOOT_METADATA_OK"

locale metadata_journal =
  fixes recover :: "'c \<Rightarrow> recovered"
    and commit :: "'c \<Rightarrow> boot_metadata_record \<Rightarrow> boot_metadata_status \<times> 'c"
    and good :: "'c \<Rightarrow> bool"
  assumes readable: "good c \<Longrightarrow> snd (recover c) \<noteq> None"
    and recover_canonical:
      "good c \<Longrightarrow> recover c = (BOOT_METADATA_OK, Some (r, v)) \<Longrightarrow> state_record_is_canonical r"
    and commit_good: "good c \<Longrightarrow> commit c nx = (st, c') \<Longrightarrow> good c'"
    and commit_atomic:
      "good c \<Longrightarrow> commit c nx = (st, c') \<Longrightarrow>
       st \<noteq> BOOT_METADATA_OK \<and> journal_view (recover c') = journal_view (recover c) \<or>
       journal_view (recover c') = (BOOT_METADATA_OK, Some nx) \<and>
       (\<exists>r. commit_base (recover c) = Some r \<and> valid_step r nx)"
begin

lemma commit_ok_view:
  "good c \<Longrightarrow> commit c nx = (BOOT_METADATA_OK, c') \<Longrightarrow>
   journal_view (recover c') = (BOOT_METADATA_OK, Some nx)"
  using commit_atomic [of c nx BOOT_METADATA_OK c'] by simp

lemma commit_ok_recover:
  "good c \<Longrightarrow> commit c nx = (BOOT_METADATA_OK, c') \<Longrightarrow>
   \<exists>v. recover c' = (BOOT_METADATA_OK, Some (nx, v))"
  using commit_ok_view [of c nx c'] by (cases "recover c'") (auto simp: journal_view_def)

lemma commit_history_step:
  assumes "good c" "journal_view (recover c) = (BOOT_METADATA_OK, Some r)" "commit c nx = (st, c')"
  shows "\<exists>r'. journal_view (recover c') = (BOOT_METADATA_OK, Some r') \<and> (r' = r \<or> r' = nx \<and> valid_step r nx)"
  using commit_atomic [OF assms(1,3)] assms(2)
  by (auto simp: commit_base_def journal_view_def)

text \<open>A sequence of commit attempts, each of which may fail.\<close>

lemma commits_history:
  assumes "good c" "journal_view (recover c) = (BOOT_METADATA_OK, Some r)"
  shows "\<exists>r'. journal_view (recover (foldl (\<lambda>d nx. snd (commit d nx)) c rs)) =
      (BOOT_METADATA_OK, Some r') \<and> valid_step\<^sup>*\<^sup>* r r'"
  using assms
proof (induction rs arbitrary: c r)
  case Nil
  then show ?case by auto
next
  case (Cons nx rs)
  obtain st c' where run: "commit c nx = (st, c')" by fastforce
  from commit_history_step [OF Cons.prems run] obtain r' where
    r': "journal_view (recover c') = (BOOT_METADATA_OK, Some r')" "r' = r \<or> r' = nx \<and> valid_step r nx"
    by blast
  from Cons.IH [OF commit_good [OF Cons.prems(1) run] r'(1)] r'(2) run show ?case
    by (auto intro: converse_rtranclp_into_rtranclp)
qed

end

lemma valid_steps_sequence: "valid_step\<^sup>*\<^sup>* r r' \<Longrightarrow> sequence r \<le> sequence r'"
  by (induction rule: rtranclp_induct)
    (auto simp: valid_step_def dest!: validate_transition_ok(2) intro: less_imp_le order_trans)

context journal_device
begin

lemma recover_journal_view:
  assumes "healthy c"
  shows "journal_view (boot_metadata_recover_from_flash flash c) =
    (case recover_view (copy_bytes c BOOT_METADATA_COPY_A) (copy_bytes c BOOT_METADATA_COPY_B) of
       (st, r) \<Rightarrow> (st, Some r))"
  using recover_from_flash_eq [OF assms]
  by (auto simp: journal_view_def recover_view_def split: prod.splits)

lemma commit_cases:
  assumes good: "healthy c" and run: "boot_metadata_commit flash c nx = (st, c')"
  obtains
    (refused) "c' = c" "st \<noteq> BOOT_METADATA_OK"
  | (stored) s r v where
      "boot_metadata_recover (copy_bytes c BOOT_METADATA_COPY_A) (copy_bytes c BOOT_METADATA_COPY_B) = (s, r, v)"
      "boot_metadata_recover_from_flash flash c = (s, Some (r, v))"
      "s = BOOT_METADATA_OK \<or> s = BOOT_METADATA_ERR_NO_VALID_COPY"
      "boot_metadata_validate_transition r nx = BOOT_METADATA_OK"
      "write_copy flash c (commit_target v) nx = (st, c')"
proof -
  obtain s r v where rec: "boot_metadata_recover (copy_bytes c BOOT_METADATA_COPY_A)
      (copy_bytes c BOOT_METADATA_COPY_B) = (s, r, v)" by (metis prod_cases3)
  with recover_from_flash_eq [OF good]
  have rf: "boot_metadata_recover_from_flash flash c = (s, Some (r, v))" by simp
  from recover_cases [OF rec] have empty: "s = BOOT_METADATA_ERR_NO_VALID_COPY \<Longrightarrow> r = boot_metadata_empty"
    by auto
  show ?thesis
  proof (cases "(s = BOOT_METADATA_OK \<or> s = BOOT_METADATA_ERR_NO_VALID_COPY) \<and>
                boot_metadata_validate_transition r nx = BOOT_METADATA_OK")
    case True
    with run rf empty show ?thesis
      by (intro stored [OF rec rf]) (auto simp: boot_metadata_commit_def)
  next
    case False
    with run rf empty show ?thesis
      by (intro refused) (auto simp: boot_metadata_commit_def Let_def split: if_splits)
  qed
qed

lemma commit_target_valid:
  "commit_target v = BOOT_METADATA_COPY_A \<or> commit_target v = BOOT_METADATA_COPY_B"
  by (simp add: commit_target_def)

lemma other_copy_kept:
  assumes run: "write_copy flash c copy r = (st, c')"
    and copies: "copy = BOOT_METADATA_COPY_A \<and> other = BOOT_METADATA_COPY_B \<or>
                 copy = BOOT_METADATA_COPY_B \<and> other = BOOT_METADATA_COPY_A"
  shows "copy_bytes c' other = copy_bytes c other"
proof (rule nth_equalityI)
  fix i assume "i < length (copy_bytes c' other)"
  then have i: "i < 128" by simp
  have "view c' (unat (copy_base other) + i) = view c (unat (copy_base other) + i)"
    using copies other_copy_sector [OF i] copy_geometry(5) [OF _ i, of other]
    by (intro write_copy_frame [OF dev_ops dev_wf run]) (auto simp: copy_sector_def copy_base_def)
  with i show "copy_bytes c' other ! i = copy_bytes c other ! i" by (simp add: copy_bytes_nth)
qed simp

lemma commit_journal:
  assumes good: "healthy c" and run: "boot_metadata_commit flash c nx = (st, c')"
  shows "healthy c' \<and>
    (st \<noteq> BOOT_METADATA_OK \<and>
       journal_view (boot_metadata_recover_from_flash flash c') =
       journal_view (boot_metadata_recover_from_flash flash c) \<or>
     journal_view (boot_metadata_recover_from_flash flash c') = (BOOT_METADATA_OK, Some nx) \<and>
     (\<exists>r. commit_base (boot_metadata_recover_from_flash flash c) = Some r \<and> valid_step r nx))"
  using good run
proof (cases rule: commit_cases)
  case refused
  with good show ?thesis by simp
next
  case (stored s r v)
  let ?A = BOOT_METADATA_COPY_A and ?B = BOOT_METADATA_COPY_B
  note eff = write_copy_effect [OF commit_target_valid good stored(5)]
  have target: "commit_target v = ?A \<and> copy_bytes c' ?B = copy_bytes c ?B \<or>
      commit_target v = ?B \<and> copy_bytes c' ?A = copy_bytes c ?A"
    using commit_target_valid [of v] other_copy_kept [OF stored(5)] by auto
  have old: "journal_view (boot_metadata_recover_from_flash flash c) = (s, Some r)"
    by (simp add: stored(2) journal_view_def)
  have step: "\<exists>r. commit_base (boot_metadata_recover_from_flash flash c) = Some r \<and> valid_step r nx"
    using stored(2,3,4) by (auto simp: commit_base_def valid_step_def)
  show ?thesis
  proof (cases "st = BOOT_METADATA_OK")
    case True
    with eff target
    have "recover_view (copy_bytes c' ?A) (copy_bytes c' ?B) = (BOOT_METADATA_OK, nx)"
      by (intro write_complete_selects [OF stored(1,3,4)]) auto
    with eff step show ?thesis by (simp add: recover_journal_view)
  next
    case False
    from eff target
    have "recover_view (copy_bytes c' ?A) (copy_bytes c' ?B) = (s, r) \<or>
        recover_view (copy_bytes c' ?A) (copy_bytes c' ?B) = (BOOT_METADATA_OK, nx)"
      by (intro write_selects [OF stored(1,3,4)]) auto
    with False eff step old show ?thesis by (auto simp: recover_journal_view)
  qed
qed

end

sublocale journal_device \<subseteq>
  metadata_journal "boot_metadata_recover_from_flash flash" "boot_metadata_commit flash" healthy
proof
  fix c assume good: "healthy c"
  show "snd (boot_metadata_recover_from_flash flash c) \<noteq> None"
    using recover_from_flash_eq [OF good] by (auto split: prod.splits)
  fix r v assume "boot_metadata_recover_from_flash flash c = (BOOT_METADATA_OK, Some (r, v))"
  then show "state_record_is_canonical r"
    using recover_from_flash_eq [OF good] decode_canonical
    by (fastforce split: prod.splits dest: recover_cases)
next
  fix c nx st c' assume "healthy c" "boot_metadata_commit flash c nx = (st, c')"
  from commit_journal [OF this] show "healthy c'"
    "st \<noteq> BOOT_METADATA_OK \<and>
       journal_view (boot_metadata_recover_from_flash flash c') =
       journal_view (boot_metadata_recover_from_flash flash c) \<or>
     journal_view (boot_metadata_recover_from_flash flash c') = (BOOT_METADATA_OK, Some nx) \<and>
     (\<exists>r. commit_base (boot_metadata_recover_from_flash flash c) = Some r \<and> valid_step r nx)"
    by simp_all
qed

text \<open>A commit changes nothing outside the two metadata sectors.\<close>

definition in_metadata :: "nat \<Rightarrow> bool" where
  "in_metadata n \<longleftrightarrow> unat BOOT_METADATA_A_BASE \<le> n \<and> n < unat BOOT_METADATA_B_END"

lemma metadata_sectors: "in_sector 2 n \<Longrightarrow> in_metadata n" "in_sector 3 n \<Longrightarrow> in_metadata n"
  by (simp_all add: in_sector_def in_metadata_def boot_flash_sectors_def mk_sector_def)

lemma copy_sector_metadata: "in_sector (copy_sector copy) n \<Longrightarrow> in_metadata n"
  by (cases copy) (simp_all add: copy_sector_def metadata_sectors)

context flash_frame
begin

lemma commit_frame:
  assumes dev: "flash_ops flash = ops" "wf_flash flash"
    and run: "boot_metadata_commit flash c nx = (st, c')"
    and n: "in_flash n" "\<not> (in_metadata n \<and> writable flash n)"
  shows "view c' n = view c n"
proof (cases "c' = c")
  case False
  with run obtain copy where w: "write_copy flash c copy nx = (st, c')"
    by (auto simp: boot_metadata_commit_def Let_def split: prod.splits option.splits if_splits)
  have "\<not> (in_sector (copy_sector copy) n \<and> writable flash n)"
    using n(2) copy_sector_metadata by blast
  then show ?thesis by (rule write_copy_frame [OF dev w n(1)])
qed simp

lemma reinitialize_frame:
  assumes dev: "flash_ops flash = ops" "wf_flash flash"
    and run: "boot_metadata_reinitialize_for_recovery flash c nx = (st, c')"
    and n: "in_flash n" "\<not> (in_metadata n \<and> writable flash n)"
  shows "view c' n = view c n"
proof -
  have er: "view d' n = view d n"
    if "boot_flash_erase_sector flash d i = (s, d')" "i = 2 \<or> i = 3" for d d' i s
    using that n metadata_sectors by (blast intro: erase_sector_frame [OF dev(1)])
  have wr: "view d' n = view d n" if "write_copy flash d copy nx = (s, d')" for d d' copy s
    using that n copy_sector_metadata by (blast intro: write_copy_frame [OF dev])
  from run show ?thesis
    by (auto simp: boot_metadata_reinitialize_for_recovery_def split: if_splits prod.splits
        dest!: er wr)
qed

end

section \<open>Success on a fault-free device\<close>

text \<open>A device whose write regions include both metadata sectors, programmed by bytes.\<close>

locale journal_reliable = flash_reliable ops view healthy fault_free +
    journal_device ops view healthy flash
  for ops :: "'c boot_flash_ops" and view :: "'c \<Rightarrow> nat \<Rightarrow> u8" and healthy :: "'c \<Rightarrow> bool"
    and fault_free :: "'c \<Rightarrow> bool" and flash :: "'c boot_flash" +
  assumes byte_programming: "program_alignment flash = 1"
    and copies_writable: "range_is_write_allowed flash BOOT_METADATA_A_BASE 0x4000"
      "range_is_write_allowed flash BOOT_METADATA_B_BASE 0x4000"
begin

lemma write_allowed_part:
  assumes "range_is_write_allowed flash a n" "unat a \<le> unat b" "unat b + m \<le> unat a + n"
  shows "range_is_write_allowed flash b m"
proof -
  from assms(1) obtain e r where e: "checked_range_end a n = Some e"
    and r: "r \<in> set (write_regions flash)" "region_base r \<le> a" "e \<le> region_end r"
    by (auto simp: range_is_write_allowed_def list_ex_iff split: option.splits)
  from checked_range_end_Some [OF e] r assms(2,3) show ?thesis
    by (intro range_is_write_allowedI [OF r(1)]) (auto simp: word_le_nat_alt)
qed

lemma write_copy_succeeds:
  assumes copy: "copy = BOOT_METADATA_COPY_A \<or> copy = BOOT_METADATA_COPY_B"
    and ff: "fault_free c" and r: "state_record_is_canonical r"
  shows "\<exists>c'. write_copy flash c copy r = (BOOT_METADATA_OK, c') \<and> fault_free c'"
proof -
  note geo = copy_geometry [OF copy]
  have al: "x AND (program_alignment flash - 1) = 0" for x by (simp add: byte_programming)
  have region: "range_is_write_allowed flash (copy_base copy) 0x4000"
    using copies_writable by (simp add: copy_base_def)
  have sector: "range_is_write_allowed flash
      (sector_base (boot_flash_sectors ! unat (copy_sector copy)))
      (unat (sector_size (boot_flash_sectors ! unat (copy_sector copy))))"
    using copies_writable by (simp add: copy_sector_def boot_flash_sectors_def mk_sector_def)
  obtain c1 where e1: "boot_flash_erase_sector flash c (copy_sector copy) = (BOOT_FLASH_OK, c1)"
    and f1: "fault_free c1" using erase_sector_succeeds [OF dev_ops ff geo(1) sector] by blast
  note h1 = fault_free_healthy [OF f1]
  have er: "erased (view c1) (copy_sector copy)"
    using erase_sector_law [OF dev_ops fault_free_healthy [OF ff] e1] by simp
  have blank1: "view c1 (unat (copy_base copy) + i) = 0xFF" if "i < 128" for i
    using erased_copy [OF copy er that] that by (simp add: copy_bytes_nth)
  obtain c2 where e2: "boot_flash_program_aligned flash c1 (copy_base copy)
      (take 120 (encode_record r)) = (BOOT_FLASH_OK, c2)" and f2: "fault_free c2"
    using program_aligned_succeeds [OF dev_ops dev_wf f1, of "copy_base copy" "take 120 (encode_record r)"]
      geo(3) [of 120] al write_allowed_part [OF region, of "copy_base copy" 120] blank1
    by auto
  have blank2: "view c2 (unat (copy_base copy) + (120 + i)) = 0xFF" if "i < 8" for i
    using write_body(2) [OF copy h1 er e2, of "120 + i"] that by (simp add: copy_bytes_nth)
  have sp: "flash_span (copy_base copy + 120) 8"
    using geo(3) [of 128] geo(4) by (simp add: flash_span_def)
  obtain c3 where e3: "boot_flash_program_aligned flash c2 (copy_base copy + 120)
      (take 8 (drop 120 (encode_record r))) = (BOOT_FLASH_OK, c3)" and f3: "fault_free c3"
    using program_aligned_succeeds [OF dev_ops dev_wf f2, of "copy_base copy + 120"
        "take 8 (drop 120 (encode_record r))"]
      sp al write_allowed_part [OF region, of "copy_base copy + 120" 8] blank2 geo(4)
    by (auto simp: add.assoc)
  have enc: "boot_metadata_encode r = Inr (encode_record r)" using r by (simp add: boot_metadata_encode_iff)
  have off: "word_of_nat 120 = (120 :: u32)" by simp
  show ?thesis using copy f3 by (auto simp: write_copy_def enc e1 e2 e3 [simplified] off)
qed

lemma commit_succeeds:
  assumes ff: "fault_free c" and base: "commit_base (boot_metadata_recover_from_flash flash c) = Some r"
    and step: "valid_step r nx"
  shows "\<exists>c'. boot_metadata_commit flash c nx = (BOOT_METADATA_OK, c') \<and> fault_free c'"
proof -
  obtain s v where rf: "boot_metadata_recover_from_flash flash c = (s, Some (r, v))"
    and s: "s = BOOT_METADATA_OK \<or> s = BOOT_METADATA_ERR_NO_VALID_COPY"
    using base by (cases "boot_metadata_recover_from_flash flash c")
      (auto simp: commit_base_def split: if_splits)
  have empty: "s = BOOT_METADATA_ERR_NO_VALID_COPY \<Longrightarrow> r = boot_metadata_empty"
    using rf recover_from_flash_eq [OF fault_free_healthy [OF ff]]
    by (auto split: prod.splits dest!: recover_cases)
  have "state_record_is_canonical nx"
    using step validate_transition_ok(1) by (simp add: valid_step_def)
  from write_copy_succeeds [OF commit_target_valid [of v] ff this] s empty step rf show ?thesis
    by (auto simp: boot_metadata_commit_def valid_step_def)
qed

end

section \<open>Reinitialisation\<close>

context journal_device
begin

lemma erase_copy_effect:
  assumes copies: "copy = BOOT_METADATA_COPY_A \<and> other = BOOT_METADATA_COPY_B \<or>
                   copy = BOOT_METADATA_COPY_B \<and> other = BOOT_METADATA_COPY_A"
    and good: "healthy c"
    and run: "boot_flash_erase_sector flash c (copy_sector copy) = (st, c')"
  shows "healthy c'" "copy_bytes c' other = copy_bytes c other"
    "(\<exists>e. boot_metadata_decode (copy_bytes c' copy) = Inl e) \<or>
     st \<noteq> BOOT_FLASH_OK \<and> copy_bytes c' copy = copy_bytes c copy"
proof -
  have copy: "copy = BOOT_METADATA_COPY_A \<or> copy = BOOT_METADATA_COPY_B" using copies by blast
  note law = erase_sector_law [OF dev_ops good run]
  show "healthy c'" using law by simp
  show "copy_bytes c' other = copy_bytes c other"
  proof (rule nth_equalityI)
    fix i assume "i < length (copy_bytes c' other)"
    then have i: "i < 128" by simp
    have "view c' (unat (copy_base other) + i) = view c (unat (copy_base other) + i)"
      using copies other_copy_sector [OF i] copy_geometry(5) [OF _ i, of other]
      by (intro erase_sector_frame [OF dev_ops run]) (auto simp: copy_sector_def copy_base_def)
    with i show "copy_bytes c' other ! i = copy_bytes c other ! i" by (simp add: copy_bytes_nth)
  qed simp
  show "(\<exists>e. boot_metadata_decode (copy_bytes c' copy) = Inl e) \<or>
     st \<noteq> BOOT_FLASH_OK \<and> copy_bytes c' copy = copy_bytes c copy"
  proof (cases "erased (view c') (copy_sector copy)")
    case True
    then show ?thesis using unprogrammed_marker [of 0] erased_copy [OF copy True] by simp
  next
    case False
    with law copy_geometry(2) [OF copy] show ?thesis
      by (auto intro!: nth_equalityI simp: copy_bytes_nth)
  qed
qed

text \<open>
  Reinitialisation is not atomic: erasing copy A first lets a valid copy B survive alone until
  its own sector is erased.
\<close>

lemma reinitialize_effect:
  assumes good: "healthy c"
    and run: "boot_metadata_reinitialize_for_recovery flash c nx = (st, c')"
  shows "healthy c' \<and>
    (if st = BOOT_METADATA_OK
     then journal_view (boot_metadata_recover_from_flash flash c') = (BOOT_METADATA_OK, Some nx)
     else journal_view (boot_metadata_recover_from_flash flash c') \<in>
            {journal_view (boot_metadata_recover_from_flash flash c),
             (BOOT_METADATA_ERR_NO_VALID_COPY, Some boot_metadata_empty),
             (BOOT_METADATA_OK, Some nx)} \<or>
          (\<exists>r. boot_metadata_decode (copy_bytes c BOOT_METADATA_COPY_B) = Inr r \<and>
             journal_view (boot_metadata_recover_from_flash flash c') = (BOOT_METADATA_OK, Some r)))"
proof (cases "c' = c \<and> st \<noteq> BOOT_METADATA_OK")
  case True
  with good show ?thesis by simp
next
  case False
  let ?A = BOOT_METADATA_COPY_A and ?B = BOOT_METADATA_COPY_B
  from False run have canon: "state_record_is_canonical nx"
    by (auto simp: boot_metadata_reinitialize_for_recovery_def split: if_splits
        dest: validate_transition_ok(1))
  obtain st1 c1 where e1: "boot_flash_erase_sector flash c 2 = (st1, c1)" by fastforce
  obtain st2 c2 where e2: "boot_flash_erase_sector flash c1 3 = (st2, c2)" by fastforce
  obtain st3 c3 where w: "write_copy flash c2 ?A nx = (st3, c3)" by fastforce
  have res: "(st, c') = (if st1 \<noteq> BOOT_FLASH_OK then (BOOT_METADATA_ERR_FLASH, c1)
      else if st2 \<noteq> BOOT_FLASH_OK then (BOOT_METADATA_ERR_FLASH, c2) else (st3, c3))"
    using run False
    by (auto simp: boot_metadata_reinitialize_for_recovery_def e1 e2 w split: if_splits)
  note er1 = erase_copy_effect [of ?A ?B c st1 c1, OF _ good]
  have A: "healthy c1" "copy_bytes c1 ?B = copy_bytes c ?B"
    "(\<exists>e. boot_metadata_decode (copy_bytes c1 ?A) = Inl e) \<or>
     st1 \<noteq> BOOT_FLASH_OK \<and> copy_bytes c1 ?A = copy_bytes c ?A"
    using er1 e1 by (simp_all add: copy_sector_def)
  note er2 = erase_copy_effect [of ?B ?A c1 st2 c2, OF _ A(1)]
  have B: "healthy c2" "copy_bytes c2 ?A = copy_bytes c1 ?A"
    "(\<exists>e. boot_metadata_decode (copy_bytes c2 ?B) = Inl e) \<or>
     st2 \<noteq> BOOT_FLASH_OK \<and> copy_bytes c2 ?B = copy_bytes c1 ?B"
    using er2 e2 by (simp_all add: copy_sector_def)
  have W: "healthy c3" "copy_after_write (copy_bytes c2 ?A) nx (copy_bytes c3 ?A)"
    "st3 = BOOT_METADATA_OK \<longrightarrow> copy_bytes c3 ?A = encode_record nx"
    "copy_bytes c3 ?B = copy_bytes c2 ?B"
    using write_copy_effect [OF _ B(1) w] other_copy_kept [OF w, of ?B] by simp_all
  note jv = recover_journal_view [OF good] recover_journal_view [OF A(1)]
    recover_journal_view [OF B(1)] recover_journal_view [OF W(1)]
  note dec = decode_encode_record [OF canon]
  consider "st1 \<noteq> BOOT_FLASH_OK" | "st1 = BOOT_FLASH_OK" "st2 \<noteq> BOOT_FLASH_OK"
    | "st1 = BOOT_FLASH_OK" "st2 = BOOT_FLASH_OK" by blast
  then show ?thesis
  proof cases
    case 1
    with res have "st \<noteq> BOOT_METADATA_OK" "c' = c1" by auto
    with A jv(1,2) show ?thesis
      by (cases "boot_metadata_decode (copy_bytes c ?B)") (auto simp: recover_view_simps)
  next
    case 2
    with res have "st \<noteq> BOOT_METADATA_OK" "c' = c2" by auto
    with A B 2 jv(1,3) show ?thesis
      by (cases "boot_metadata_decode (copy_bytes c ?B)") (auto simp: recover_view_simps)
  next
    case 3
    with res have "st = st3" "c' = c3" by auto
    with A B W 3 jv(1,4) dec show ?thesis
      by (auto simp: recover_view_simps copy_after_write_def)
  qed
qed

end

section \<open>The journal of the target driver\<close>

definition metadata_flash :: "host_context boot_flash" where
  "metadata_flash =
     \<lparr>flash_base = FLASH_BASE, flash_end = FLASH_END, program_alignment = 1,
      write_regions = metadata_write_regions, flash_ops = writable_ops\<rparr>"

lemma boot_flash_target_init_metadata_eq: "boot_flash_target_init_metadata = Inr metadata_flash"
  by (simp add: boot_flash_target_init_metadata_def boot_flash_init_def metadata_flash_def
      boot_flash_target_ramfunc_bounds_valid_def is_power_of_two_def metadata_write_regions_def
      mk_region_def)

lemma metadata_flash_wf: "wf_flash metadata_flash" "flash_ops metadata_flash = writable_ops"
  by (simp_all add: metadata_flash_def wf_flash_def is_power_of_two_def metadata_write_regions_def
      mk_region_def)

lemma host_journal_device:
  "wf_flash flash \<Longrightarrow> flash_ops flash = writable_ops \<Longrightarrow>
   journal_device writable_ops host_view host_healthy flash"
  by (simp add: journal_device_def journal_device_axioms_def host_backend.flash_backend_axioms)

interpretation target_journal: journal_device writable_ops host_view host_healthy metadata_flash
  by (rule host_journal_device) (rule metadata_flash_wf)+

text \<open>The same journal on a driver whose operations may each fail or be cut short.\<close>

lemma scheduled_flash_wf: "wf_flash flash \<Longrightarrow> wf_flash (scheduled_flash flash)"
  by (simp add: wf_flash_def scheduled_flash_def)

interpretation torn_journal: journal_device "scheduled_ops writable_ops" "\<lambda>c. host_view (fst c)"
  "\<lambda>c. host_healthy (fst c)" "scheduled_flash metadata_flash"
  by (simp add: journal_device_def journal_device_axioms_def host_backend.scheduled_backend
      scheduled_flash_wf metadata_flash_wf) (simp add: scheduled_flash_def metadata_flash_wf)

lemma torn_recovery:
  "host_healthy c \<Longrightarrow> boot_metadata_recover_from_flash (scheduled_flash metadata_flash) (c, outs) =
    boot_metadata_recover_from_flash metadata_flash c"
  by (simp add: torn_journal.recover_from_flash_eq target_journal.recover_from_flash_eq
      torn_journal.copy_bytes_def target_journal.copy_bytes_def)

interpretation target_journal_reliable:
  journal_reliable writable_ops host_view host_healthy host_fault_free metadata_flash
  by unfold_locales
    (simp_all add: metadata_flash_def range_is_write_allowed_def metadata_write_regions_def
      mk_region_def checked_range_end_def)

section \<open>Properties\<close>

text \<open>
  Recovery returns the newest valid copy: a recovered record is the content of one of the two
  copies, and no valid copy has a higher sequence number.
\<close>

theorem recover_newest_copy:
  assumes "boot_metadata_recover a b = (BOOT_METADATA_OK, r, v)"
  shows "(boot_metadata_decode a = Inr r \<or> boot_metadata_decode b = Inr r) \<and>
    (\<forall>q. boot_metadata_decode a = Inr q \<or> boot_metadata_decode b = Inr q \<longrightarrow> sequence q \<le> sequence r)"
  using assms by (auto simp: boot_metadata_recover_def Let_def split: sum.splits if_splits)

text \<open>
  C4. A commit is atomic under failure and power loss. On a driver that does not corrupt bits,
  let the schedule \<open>outs\<close> decide for every erase and program operation of the commit separately whether it works or is
  cut short with an error after any number of programmed bytes, later operations working again or
  not: the next recovery sees exactly what it saw before or exactly the committed
  record; a commit that reports success has taken effect; and the record takes effect only as a
  valid successor of the recovered one.
\<close>

theorem commit_is_atomic:
  assumes good: "host_healthy c"
    and run: "boot_metadata_commit (scheduled_flash metadata_flash) (c, outs) nx = (st, c', rest)"
  shows "host_healthy c' \<and>
    (st \<noteq> BOOT_METADATA_OK \<and>
       journal_view (boot_metadata_recover_from_flash metadata_flash c') =
       journal_view (boot_metadata_recover_from_flash metadata_flash c) \<or>
     journal_view (boot_metadata_recover_from_flash metadata_flash c') = (BOOT_METADATA_OK, Some nx) \<and>
     (\<exists>r. commit_base (boot_metadata_recover_from_flash metadata_flash c) = Some r \<and> valid_step r nx))"
  using torn_journal.commit_journal [OF _ run] good torn_recovery [of c] torn_recovery [of c'] by auto

text \<open>
  C29. The journal never goes back: after any sequence of commit attempts with any outcomes, the
  recovered record is reachable from the first one by valid transitions, so its sequence number
  has not decreased.
\<close>

theorem journal_history:
  assumes "host_healthy c"
    and "journal_view (boot_metadata_recover_from_flash metadata_flash c) = (BOOT_METADATA_OK, Some r)"
  shows "\<exists>r'. journal_view (boot_metadata_recover_from_flash metadata_flash
      (foldl (\<lambda>d nx. snd (boot_metadata_commit metadata_flash d nx)) c rs)) =
      (BOOT_METADATA_OK, Some r') \<and> valid_step\<^sup>*\<^sup>* r r' \<and> sequence r \<le> sequence r'"
  using target_journal.commits_history [OF assms] valid_steps_sequence by blast

text \<open>
  C30. A valid commit succeeds on a fault-free device: if the record is a valid successor of the
  recovered one (or of the empty one on a blank journal), the commit reports success.
\<close>

theorem commit_progress:
  assumes "host_fault_free c"
    and "commit_base (boot_metadata_recover_from_flash metadata_flash c) = Some r"
    and "valid_step r nx"
  shows "\<exists>c'. boot_metadata_commit metadata_flash c nx = (BOOT_METADATA_OK, c') \<and> host_fault_free c' \<and>
    journal_view (boot_metadata_recover_from_flash metadata_flash c') = (BOOT_METADATA_OK, Some nx)"
  using target_journal_reliable.commit_succeeds [OF assms]
    target_journal.commit_ok_view [OF host_reliable.fault_free_healthy [OF assms(1)]] by blast

text \<open>
  Journal writes stay in the journal: neither a commit nor a recovery reinitialisation, with
  whatever outcome and even on a driver that corrupts bits, changes a flash byte outside the two
  metadata sectors.
\<close>

theorem journal_writes_confined:
  assumes "in_flash n" and "\<not> in_metadata n"
  shows "host_view (snd (boot_metadata_commit metadata_flash c nx)) n = host_view c n \<and>
    host_view (snd (boot_metadata_reinitialize_for_recovery metadata_flash c nx)) n = host_view c n"
proof
  obtain s c1 where "boot_metadata_commit metadata_flash c nx = (s, c1)" by fastforce
  with host_frame.commit_frame [OF metadata_flash_wf(2,1) this assms(1)] assms
  show "host_view (snd (boot_metadata_commit metadata_flash c nx)) n = host_view c n" by simp
  obtain s c2 where "boot_metadata_reinitialize_for_recovery metadata_flash c nx = (s, c2)" by fastforce
  with host_frame.reinitialize_frame [OF metadata_flash_wf(2,1) this assms(1)] assms
  show "host_view (snd (boot_metadata_reinitialize_for_recovery metadata_flash c nx)) n = host_view c n"
    by simp
qed

text \<open>
  Reinitialisation for recovery: success leaves exactly the new record; a failure leaves the
  journal as it was, blank, with the new record, or with the record of copy B alone. In the last
  case a journal that was rejected as ambiguous becomes readable again.
\<close>

theorem reinitialize_outcomes:
  assumes good: "host_healthy c"
    and run: "boot_metadata_reinitialize_for_recovery metadata_flash c nx = (st, c')"
  shows "if st = BOOT_METADATA_OK
    then journal_view (boot_metadata_recover_from_flash metadata_flash c') = (BOOT_METADATA_OK, Some nx)
    else journal_view (boot_metadata_recover_from_flash metadata_flash c') \<in>
           {journal_view (boot_metadata_recover_from_flash metadata_flash c),
            (BOOT_METADATA_ERR_NO_VALID_COPY, Some boot_metadata_empty),
            (BOOT_METADATA_OK, Some nx)} \<or>
         (\<exists>r. boot_metadata_decode (mem_range (host_view c) (unat BOOT_METADATA_B_BASE) 128) = Inr r \<and>
            journal_view (boot_metadata_recover_from_flash metadata_flash c') = (BOOT_METADATA_OK, Some r))"
proof -
  have "target_journal.copy_bytes c BOOT_METADATA_COPY_B =
      mem_range (host_view c) (unat BOOT_METADATA_B_BASE) 128"
    by (simp add: target_journal.copy_bytes_def copy_base_def)
  with conjunct2 [OF target_journal.reinitialize_effect [OF assms]] show ?thesis by (simp only:)
qed

end
