(* ===== verification/Signed_Image.thy ===== *)
theory Signed_Image
  imports Boot_Slot
begin

text \<open>
  Verification of a signed image (\<^verbatim>\<open>signed_image.h\<close>, \<^verbatim>\<open>signed_image.c\<close>): the manifest, the range
  checks and their redundant second version, the vector table, the SHA-512 and Ed25519 checks,
  the jump context and the final jump.

  A pointer to a buffer is the list of its bytes, the capacity that the code passes beside it
  stays a separate argument. The Monocypher functions are the fields of the record \<open>crypto\<close>;
  every definition that hashes or checks a signature takes it as its first argument. The
  register writes of the jump are a list of effects in program order. Cycle counts
  (\<^verbatim>\<open>performance.h\<close>) are left out: they are recorded and never read by the verifier.
\<close>

section \<open>Types\<close>

abbreviation (input) SIGNED_IMAGE_MAGIC :: u32 where "SIGNED_IMAGE_MAGIC \<equiv> 0x31474953"
abbreviation (input) SIGNED_HEADER_VERSION :: u32 where "SIGNED_HEADER_VERSION \<equiv> 1"
abbreviation (input) UPDATE_PACKAGE_FORMAT_VERSION :: u32 where "UPDATE_PACKAGE_FORMAT_VERSION \<equiv> 2"
abbreviation (input) UPDATE_PACKAGE_TARGET_STM32F429IGT6_AB_V1 :: u32 where
  "UPDATE_PACKAGE_TARGET_STM32F429IGT6_AB_V1 \<equiv> 0xF429AB01"
abbreviation (input) UPDATE_PACKAGE_IMAGE_TYPE_APPLICATION :: u32 where
  "UPDATE_PACKAGE_IMAGE_TYPE_APPLICATION \<equiv> 1"
abbreviation (input) MIN_IMAGE_VERSION :: u32 where "MIN_IMAGE_VERSION \<equiv> 2"
abbreviation (input) SIGNED_PAYLOAD_HASH_SIZE :: nat where "SIGNED_PAYLOAD_HASH_SIZE \<equiv> 64"
abbreviation (input) APPLICATION_VECTOR_MIN_SIZE :: u32 where "APPLICATION_VECTOR_MIN_SIZE \<equiv> 8"
abbreviation (input) APPLICATION_VTOR_ALIGNMENT :: u32 where "APPLICATION_VTOR_ALIGNMENT \<equiv> 0x100"

record 'h crypto =
  crypto_sha512 :: "bytes \<Rightarrow> bytes"
  crypto_sha512_init :: 'h
  crypto_sha512_absorb :: "'h \<Rightarrow> bytes \<Rightarrow> 'h"
  crypto_sha512_final :: "'h \<Rightarrow> bytes"
  crypto_ed25519_check :: "bytes \<Rightarrow> bytes \<Rightarrow> bytes \<Rightarrow> bool"

record signed_manifest =
  magic :: u32
  header_version :: u32
  image_version :: u32
  vector_address :: u32
  image_size :: u32
  flags :: u32
  reserved0 :: u32
  reserved1 :: u32
  payload_sha512 :: bytes

datatype verify_status =
    VERIFY_OK
  | VERIFY_BAD_MAGIC
  | VERIFY_BAD_HEADER_VERSION
  | VERIFY_ROLLBACK_VERSION
  | VERIFY_BAD_VECTOR_ADDRESS
  | VERIFY_BAD_SIZE
  | VERIFY_BAD_STACK
  | VERIFY_BAD_RESET_VECTOR
  | VERIFY_BAD_PAYLOAD_HASH
  | VERIFY_BAD_SIGNATURE
  | VERIFY_BAD_FLAGS
  | VERIFY_BAD_RESERVED
  | VERIFY_BAD_PAYLOAD_RANGE
  | VERIFY_BAD_TARGET_COMPATIBILITY
  | VERIFY_BAD_IMAGE_TYPE

record signed_image_jump_context =
  ctx_vector_address :: u32
  ctx_image_size :: u32
  ctx_payload_end :: u32
  ctx_initial_msp :: u32
  ctx_reset_vector :: u32
  ctx_reset_address :: u32

record application_vector =
  initial_msp :: u32
  reset_vector :: u32
  reset_address :: u32

record signed_image_validation_policy =
  pol_header_version :: u32
  pol_vector_address :: u32
  pol_payload_flash_end :: u32
  pol_maximum_payload_size :: u32
  pol_allowed_flags_mask :: u32
  pol_target_compatibility :: u32
  pol_image_type :: u32
  pol_require_update_fields :: bool

section \<open>Manifest and ranges\<close>

definition u32_equal_redundant :: "u32 \<Rightarrow> u32 \<Rightarrow> bool" where
  "u32_equal_redundant left right \<longleftrightarrow> left = right \<and> left XOR right = 0"

definition decode_manifest_bytes :: "bytes \<Rightarrow> signed_manifest" where
  "decode_manifest_bytes bs =
     \<lparr>magic = load_le32 (drop 0 bs),
      header_version = load_le32 (drop 4 bs),
      image_version = load_le32 (drop 8 bs),
      vector_address = load_le32 (drop 12 bs),
      image_size = load_le32 (drop 16 bs),
      flags = load_le32 (drop 20 bs),
      reserved0 = load_le32 (drop 24 bs),
      reserved1 = load_le32 (drop 28 bs),
      payload_sha512 = take SIGNED_PAYLOAD_HASH_SIZE (drop 32 bs)\<rparr>"

definition signed_image_decode_manifest :: "bytes \<Rightarrow> verify_status \<times> signed_manifest" where
  "signed_image_decode_manifest bs = (VERIFY_OK, decode_manifest_bytes bs)"

definition validate_manifest_header ::
    "signed_manifest \<Rightarrow> signed_image_validation_policy \<Rightarrow> verify_status" where
  "validate_manifest_header m policy =
     (if \<not> u32_equal_redundant (magic m) SIGNED_IMAGE_MAGIC then VERIFY_BAD_MAGIC
      else if \<not> u32_equal_redundant (header_version m) (pol_header_version policy)
      then VERIFY_BAD_HEADER_VERSION
      else if flags m AND NOT (pol_allowed_flags_mask policy) \<noteq> 0 then VERIFY_BAD_FLAGS
      else if pol_require_update_fields policy \<and> reserved0 m \<noteq> pol_target_compatibility policy
      then VERIFY_BAD_TARGET_COMPATIBILITY
      else if pol_require_update_fields policy \<and> reserved1 m \<noteq> pol_image_type policy
      then VERIFY_BAD_IMAGE_TYPE
      else if \<not> pol_require_update_fields policy \<and> (reserved0 m \<noteq> 0 \<or> reserved1 m \<noteq> 0)
      then VERIFY_BAD_RESERVED
      else if image_version m < MIN_IMAGE_VERSION then VERIFY_ROLLBACK_VERSION
      else VERIFY_OK)"

definition validate_payload_range ::
    "signed_manifest \<Rightarrow> signed_image_validation_policy \<Rightarrow> verify_status + u32" where
  "validate_payload_range m policy =
     (if \<not> u32_equal_redundant (vector_address m) (pol_vector_address policy)
      then Inl VERIFY_BAD_VECTOR_ADDRESS
      else if image_size m < APPLICATION_MIN_SIZE then Inl VERIFY_BAD_SIZE
      else case checked_u32_add (vector_address m) (image_size m) of
        None \<Rightarrow> Inl VERIFY_BAD_PAYLOAD_RANGE
      | Some payload_end \<Rightarrow>
          if image_size m > pol_maximum_payload_size policy then Inl VERIFY_BAD_SIZE
          else if payload_end > pol_payload_flash_end policy then Inl VERIFY_BAD_PAYLOAD_RANGE
          else Inr payload_end)"

definition validate_payload_range_independent ::
    "signed_manifest \<Rightarrow> signed_image_validation_policy \<Rightarrow> u32 \<Rightarrow> verify_status" where
  "validate_payload_range_independent m policy payload_end =
     (if pol_payload_flash_end policy < pol_vector_address policy then VERIFY_BAD_PAYLOAD_RANGE
      else let application_capacity = pol_payload_flash_end policy - pol_vector_address policy
           in if \<not> u32_equal_redundant (vector_address m) (pol_vector_address policy)
              then VERIFY_BAD_VECTOR_ADDRESS
              else if image_size m < APPLICATION_VECTOR_MIN_SIZE then VERIFY_BAD_SIZE
              else if image_size m > application_capacity then VERIFY_BAD_SIZE
              else if pol_payload_flash_end policy - vector_address m < image_size m
              then VERIFY_BAD_PAYLOAD_RANGE
              else if payload_end < vector_address m \<or> payload_end > pol_payload_flash_end policy
              then VERIFY_BAD_PAYLOAD_RANGE
              else if payload_end - vector_address m \<noteq> image_size m
              then VERIFY_BAD_PAYLOAD_RANGE
              else VERIFY_OK)"

section \<open>Vector table\<close>

definition validate_application_msp :: "u32 \<Rightarrow> verify_status" where
  "validate_application_msp msp =
     (if msp \<le> APPLICATION_MSP_BASE \<or> msp > APPLICATION_MSP_END \<or>
         msp AND (APPLICATION_MSP_ALIGNMENT - 1) \<noteq> 0
      then VERIFY_BAD_STACK else VERIFY_OK)"

definition validate_application_reset ::
    "u32 \<Rightarrow> u32 \<Rightarrow> u32 \<Rightarrow> u32 \<Rightarrow> u32 \<Rightarrow> verify_status" where
  "validate_application_reset rv ra vector payload_end payload_flash_end =
     (if rv AND 1 = 0 \<or> rv AND NOT 1 \<noteq> ra \<or> ra < vector \<or> ra \<ge> payload_end \<or>
         ra \<ge> payload_flash_end
      then VERIFY_BAD_RESET_VECTOR else VERIFY_OK)"

definition read_application_vector :: "bytes \<Rightarrow> application_vector" where
  "read_application_vector payload =
     (let rv = load_le32 (drop 4 payload)
      in \<lparr>initial_msp = load_le32 (drop 0 payload), reset_vector = rv,
          reset_address = rv AND NOT 1\<rparr>)"

definition validate_vector_table ::
    "signed_manifest \<Rightarrow> signed_image_validation_policy \<Rightarrow> bytes \<Rightarrow> u32 \<Rightarrow>
     verify_status + signed_image_jump_context" where
  "validate_vector_table m policy payload payload_end =
     (let vector = read_application_vector payload;
          msp_status = validate_application_msp (initial_msp vector)
      in if msp_status \<noteq> VERIFY_OK then Inl msp_status
         else let reset_status =
                validate_application_reset (reset_vector vector) (reset_address vector)
                  (vector_address m) payload_end (pol_payload_flash_end policy)
              in if reset_status \<noteq> VERIFY_OK then Inl reset_status
                 else Inr \<lparr>ctx_vector_address = vector_address m,
                           ctx_image_size = image_size m,
                           ctx_payload_end = payload_end,
                           ctx_initial_msp = initial_msp vector,
                           ctx_reset_vector = reset_vector vector,
                           ctx_reset_address = reset_address vector\<rparr>)"

definition slot_for_vector_address :: "u32 \<Rightarrow> verify_status + boot_slot_descriptor" where
  "slot_for_vector_address vector =
     (case boot_slot_lookup (slot_num BOOT_SLOT_A) of
        Some candidate \<Rightarrow>
          if payload_base candidate = vector then Inr candidate
          else (case boot_slot_lookup (slot_num BOOT_SLOT_B) of
                  Some candidate' \<Rightarrow>
                    if payload_base candidate' = vector then Inr candidate'
                    else Inl VERIFY_BAD_VECTOR_ADDRESS
                | None \<Rightarrow> Inl VERIFY_BAD_VECTOR_ADDRESS)
      | None \<Rightarrow>
          (case boot_slot_lookup (slot_num BOOT_SLOT_B) of
             Some candidate' \<Rightarrow>
               if payload_base candidate' = vector then Inr candidate'
               else Inl VERIFY_BAD_VECTOR_ADDRESS
           | None \<Rightarrow> Inl VERIFY_BAD_VECTOR_ADDRESS))"

definition validate_jump_context :: "signed_image_jump_context \<Rightarrow> verify_status" where
  "validate_jump_context context =
     (case slot_for_vector_address (ctx_vector_address context) of
        Inl status \<Rightarrow> status
      | Inr slot \<Rightarrow>
          if ctx_vector_address context AND (APPLICATION_VTOR_ALIGNMENT - 1) \<noteq> 0
          then VERIFY_BAD_VECTOR_ADDRESS
          else if ctx_image_size context < APPLICATION_VECTOR_MIN_SIZE then VERIFY_BAD_SIZE
          else if ctx_image_size context > maximum_payload_size slot then VERIFY_BAD_SIZE
          else (case checked_u32_add (ctx_vector_address context) (ctx_image_size context) of
                  None \<Rightarrow> VERIFY_BAD_PAYLOAD_RANGE
                | Some recomputed_payload_end \<Rightarrow>
                    if \<not> u32_equal_redundant recomputed_payload_end (ctx_payload_end context)
                    then VERIFY_BAD_PAYLOAD_RANGE
                    else if ctx_payload_end context \<le> ctx_vector_address context \<or>
                            ctx_payload_end context > slot_end slot
                    then VERIFY_BAD_PAYLOAD_RANGE
                    else let msp_status = validate_application_msp (ctx_initial_msp context)
                         in if msp_status \<noteq> VERIFY_OK then msp_status
                            else validate_application_reset (ctx_reset_vector context)
                                   (ctx_reset_address context) (ctx_vector_address context)
                                   (ctx_payload_end context) (slot_end slot)))"

section \<open>Verification and jump\<close>

text \<open>\<^verbatim>\<open>crypto_verify64\<close> compares 64 bytes in constant time; its result is that of equality.\<close>

definition crypto_verify64 :: "bytes \<Rightarrow> bytes \<Rightarrow> bool" where
  "crypto_verify64 a b \<longleftrightarrow> take 64 a = take 64 b"

definition signed_image_verify_buffer_with_policy ::
    "'h crypto \<Rightarrow> bytes \<Rightarrow> bytes \<Rightarrow> bytes \<Rightarrow> size_t \<Rightarrow> bytes \<Rightarrow>
     signed_image_validation_policy \<Rightarrow> verify_status" where
  "signed_image_verify_buffer_with_policy cr manifest_bytes signature_bytes payload
       payload_capacity public_key policy =
     (let m = decode_manifest_bytes manifest_bytes;
          header_status = validate_manifest_header m policy
      in if header_status \<noteq> VERIFY_OK then header_status
         else case validate_payload_range m policy of
           Inl status \<Rightarrow> status
         | Inr payload_end \<Rightarrow>
             (let range_status = validate_payload_range_independent m policy payload_end
              in if range_status \<noteq> VERIFY_OK then range_status
                 else if unat (image_size m) > payload_capacity then VERIFY_BAD_PAYLOAD_RANGE
                 else case validate_vector_table m policy payload payload_end of
                   Inl status \<Rightarrow> status
                 | Inr _ \<Rightarrow>
                     if \<not> crypto_verify64
                            (crypto_sha512 cr (take (unat (image_size m)) payload))
                            (payload_sha512 m)
                     then VERIFY_BAD_PAYLOAD_HASH
                     else if \<not> crypto_ed25519_check cr signature_bytes public_key
                                 (take SIGNED_MANIFEST_SIZE manifest_bytes)
                     then VERIFY_BAD_SIGNATURE
                     else VERIFY_OK))"

definition application_policy :: signed_image_validation_policy where
  "application_policy =
     \<lparr>pol_header_version = SIGNED_HEADER_VERSION,
      pol_vector_address = APPLICATION_BASE_ADDRESS,
      pol_payload_flash_end = APPLICATION_FLASH_END,
      pol_maximum_payload_size = MAX_PAYLOAD_SIZE,
      pol_allowed_flags_mask = SIGNED_IMAGE_FLAGS_ALLOWED_MASK,
      pol_target_compatibility = 0, pol_image_type = 0, pol_require_update_fields = False\<rparr>"

definition slot_policy :: "boot_slot_descriptor \<Rightarrow> signed_image_validation_policy" where
  "slot_policy slot =
     \<lparr>pol_header_version = UPDATE_PACKAGE_FORMAT_VERSION,
      pol_vector_address = payload_base slot,
      pol_payload_flash_end = slot_end slot,
      pol_maximum_payload_size = maximum_payload_size slot,
      pol_allowed_flags_mask = SIGNED_IMAGE_FLAGS_ALLOWED_MASK,
      pol_target_compatibility = UPDATE_PACKAGE_TARGET_STM32F429IGT6_AB_V1,
      pol_image_type = UPDATE_PACKAGE_IMAGE_TYPE_APPLICATION,
      pol_require_update_fields = True\<rparr>"

definition signed_image_verify_buffer ::
    "'h crypto \<Rightarrow> bytes \<Rightarrow> bytes \<Rightarrow> bytes \<Rightarrow> size_t \<Rightarrow> bytes \<Rightarrow> verify_status" where
  "signed_image_verify_buffer cr manifest_bytes signature_bytes payload payload_capacity public_key =
     signed_image_verify_buffer_with_policy cr manifest_bytes signature_bytes payload
       payload_capacity public_key application_policy"

definition slot_descriptor_is_bad :: "boot_slot_descriptor \<Rightarrow> bool" where
  "slot_descriptor_is_bad slot \<longleftrightarrow>
     payload_base slot \<le> signed_image_base slot \<or> payload_base slot \<ge> slot_end slot \<or>
     maximum_payload_size slot \<noteq> slot_end slot - payload_base slot"

definition signed_image_verify_update_slot_buffer ::
    "'h crypto \<Rightarrow> bytes \<Rightarrow> bytes \<Rightarrow> bytes \<Rightarrow> size_t \<Rightarrow> bytes \<Rightarrow> boot_slot_descriptor \<Rightarrow>
     verify_status" where
  "signed_image_verify_update_slot_buffer cr manifest_bytes signature_bytes payload
       payload_capacity public_key slot =
     (if slot_descriptor_is_bad slot then VERIFY_BAD_PAYLOAD_RANGE
      else signed_image_verify_buffer_with_policy cr manifest_bytes signature_bytes payload
             payload_capacity public_key (slot_policy slot))"

text \<open>
  The common part of the two functions that fill a jump context. Only the one that works on a
  buffer checks the capacity of the buffer.
\<close>

definition exceeds_capacity :: "u32 \<Rightarrow> size_t option \<Rightarrow> bool" where
  "exceeds_capacity sz capacity =
     (case capacity of None \<Rightarrow> False | Some cap \<Rightarrow> unat sz > cap)"

definition prepare_with_policy ::
    "bytes \<Rightarrow> bytes \<Rightarrow> size_t option \<Rightarrow> signed_image_validation_policy \<Rightarrow>
     verify_status + signed_image_jump_context" where
  "prepare_with_policy manifest_bytes payload payload_capacity policy =
     (let m = decode_manifest_bytes manifest_bytes;
          header_status = validate_manifest_header m policy
      in if header_status \<noteq> VERIFY_OK then Inl header_status
         else case validate_payload_range m policy of
           Inl status \<Rightarrow> Inl status
         | Inr payload_end \<Rightarrow>
             (let range_status = validate_payload_range_independent m policy payload_end
              in if range_status \<noteq> VERIFY_OK then Inl range_status
                 else if exceeds_capacity (image_size m) payload_capacity
                 then Inl VERIFY_BAD_PAYLOAD_RANGE
                 else case validate_vector_table m policy payload payload_end of
                   Inl status \<Rightarrow> Inl status
                 | Inr context \<Rightarrow>
                     (let status = validate_jump_context context
                      in if status = VERIFY_OK then Inr context else Inl status)))"

definition signed_image_prepare_update_slot_buffer ::
    "bytes \<Rightarrow> bytes \<Rightarrow> size_t \<Rightarrow> boot_slot_descriptor \<Rightarrow>
     verify_status + signed_image_jump_context" where
  "signed_image_prepare_update_slot_buffer manifest_bytes payload payload_capacity slot =
     (if slot_descriptor_is_bad slot then Inl VERIFY_BAD_PAYLOAD_RANGE
      else prepare_with_policy manifest_bytes payload (Some payload_capacity) (slot_policy slot))"

text \<open>The functions that read the flash array directly take it as \<open>mem\<close>, by address.\<close>

definition signed_image_verify :: "'h crypto \<Rightarrow> bytes \<Rightarrow> (nat \<Rightarrow> u8) \<Rightarrow> verify_status" where
  "signed_image_verify cr firmware_public_key mem =
     signed_image_verify_buffer cr
       (mem_range mem (unat SLOT_A_SIGNED_IMAGE_BASE) SIGNED_MANIFEST_SIZE)
       (mem_range mem (unat SLOT_A_SIGNATURE_BASE) SIGNED_SIGNATURE_SIZE)
       (mem_range mem (unat APPLICATION_BASE_ADDRESS) (unat MAX_PAYLOAD_SIZE))
       (unat MAX_PAYLOAD_SIZE) firmware_public_key"

definition signed_image_prepare_jump ::
    "(nat \<Rightarrow> u8) \<Rightarrow> verify_status + signed_image_jump_context" where
  "signed_image_prepare_jump mem =
     prepare_with_policy
       (mem_range mem (unat SLOT_A_SIGNED_IMAGE_BASE) SIGNED_MANIFEST_SIZE)
       (mem_range mem (unat APPLICATION_BASE_ADDRESS) (unat APPLICATION_VECTOR_MIN_SIZE))
       None application_policy"

definition confirm_jump_context_matches_flash ::
    "(nat \<Rightarrow> u8) \<Rightarrow> signed_image_jump_context \<Rightarrow> verify_status" where
  "confirm_jump_context_matches_flash mem context =
     (case slot_for_vector_address (ctx_vector_address context) of
        Inl status \<Rightarrow> status
      | Inr slot \<Rightarrow>
          let vector = read_application_vector (mem_range mem (unat (ctx_vector_address context)) 8)
          in if \<not> u32_equal_redundant (initial_msp vector) (ctx_initial_msp context)
             then VERIFY_BAD_STACK
             else if \<not> u32_equal_redundant (reset_vector vector) (ctx_reset_vector context) \<or>
                     \<not> u32_equal_redundant (reset_address vector) (ctx_reset_address context)
             then VERIFY_BAD_RESET_VECTOR
             else let msp_status = validate_application_msp (initial_msp vector)
                  in if msp_status \<noteq> VERIFY_OK then msp_status
                     else validate_application_reset (reset_vector vector) (reset_address vector)
                            (ctx_vector_address context) (ctx_payload_end context) (slot_end slot))"

datatype cpu_effect =
    CPSID_I | CPSIE_I | DSB | ISB
  | WRITE_REG u32 u32
  | SET_MSP u32
  | ENTER u32

definition nvic_clear :: "cpu_effect list" where
  "nvic_clear =
     concat (map (\<lambda>i. [WRITE_REG (0xE000E180 + of_nat i * 4) 0xFFFFFFFF,
                       WRITE_REG (0xE000E280 + of_nat i * 4) 0xFFFFFFFF]) [0..<8])"

definition signed_image_jump ::
    "(nat \<Rightarrow> u8) \<Rightarrow> signed_image_jump_context \<Rightarrow> verify_status \<times> cpu_effect list" where
  "signed_image_jump mem context =
     (let context_status = validate_jump_context context
      in if context_status \<noteq> VERIFY_OK then (context_status, [])
         else let flash_status = confirm_jump_context_matches_flash mem context
              in if flash_status \<noteq> VERIFY_OK then (flash_status, [])
                 else (VERIFY_BAD_RESET_VECTOR,
                       [CPSID_I, DSB, ISB, WRITE_REG 0xE000E010 0] @ nvic_clear @
                       [WRITE_REG 0xE000ED08 (ctx_vector_address context), DSB, ISB,
                        SET_MSP (ctx_initial_msp context), DSB, ISB, CPSIE_I,
                        ENTER (ctx_reset_vector context)]))"

section \<open>What the verifier accepts\<close>

text \<open>
  The specification of an acceptable image, over natural numbers and without the order and
  redundancy of the checks: \<open>vector_ok\<close> for the first two words of the payload, \<open>image_ok\<close> for
  the manifest and its placement, \<open>image_authentic\<close> for the hash and the signature.
\<close>

definition vector_ok :: "bytes \<Rightarrow> nat \<Rightarrow> nat \<Rightarrow> bool" where
  "vector_ok payload base lim \<longleftrightarrow>
     0x20000000 < unat (load_le32 payload) \<and> unat (load_le32 payload) \<le> 0x20020000 \<and>
     8 dvd unat (load_le32 payload) \<and>
     odd (unat (load_le32 (drop 4 payload))) \<and>
     base < unat (load_le32 (drop 4 payload)) \<and> unat (load_le32 (drop 4 payload)) \<le> lim"

definition image_ok ::
    "signed_manifest \<Rightarrow> signed_image_validation_policy \<Rightarrow> bytes \<Rightarrow> bool" where
  "image_ok m policy payload \<longleftrightarrow>
     magic m = SIGNED_IMAGE_MAGIC \<and> header_version m = pol_header_version policy \<and>
     flags m AND NOT (pol_allowed_flags_mask policy) = 0 \<and>
     reserved0 m = (if pol_require_update_fields policy then pol_target_compatibility policy else 0) \<and>
     reserved1 m = (if pol_require_update_fields policy then pol_image_type policy else 0) \<and>
     2 \<le> unat (image_version m) \<and>
     vector_address m = pol_vector_address policy \<and>
     8 \<le> unat (image_size m) \<and> unat (image_size m) \<le> unat (pol_maximum_payload_size policy) \<and>
     unat (vector_address m) + unat (image_size m) \<le> unat (pol_payload_flash_end policy) \<and>
     vector_ok payload (unat (vector_address m)) (unat (vector_address m) + unat (image_size m))"

definition image_authentic ::
    "'h crypto \<Rightarrow> bytes \<Rightarrow> bytes \<Rightarrow> bytes \<Rightarrow> bytes \<Rightarrow> bool" where
  "image_authentic cr manifest_bytes signature_bytes payload public_key \<longleftrightarrow>
     (let m = decode_manifest_bytes manifest_bytes
      in crypto_verify64 (crypto_sha512 cr (take (unat (image_size m)) payload)) (payload_sha512 m) \<and>
         crypto_ed25519_check cr signature_bytes public_key (take 96 manifest_bytes))"

lemma u32_equal_redundant_iff [simp]: "u32_equal_redundant a b \<longleftrightarrow> a = b"
  by (auto simp: u32_equal_redundant_def)

lemma header_ok_iff:
  "validate_manifest_header m policy = VERIFY_OK \<longleftrightarrow>
     magic m = SIGNED_IMAGE_MAGIC \<and> header_version m = pol_header_version policy \<and>
     flags m AND NOT (pol_allowed_flags_mask policy) = 0 \<and>
     reserved0 m = (if pol_require_update_fields policy then pol_target_compatibility policy else 0) \<and>
     reserved1 m = (if pol_require_update_fields policy then pol_image_type policy else 0) \<and>
     2 \<le> unat (image_version m)"
  by (auto simp: validate_manifest_header_def word_less_nat_alt not_less)

lemma payload_range_Inr:
  "validate_payload_range m policy = Inr e \<longleftrightarrow>
     vector_address m = pol_vector_address policy \<and> 8 \<le> unat (image_size m) \<and>
     unat (image_size m) \<le> unat (pol_maximum_payload_size policy) \<and>
     unat (vector_address m) + unat (image_size m) \<le> unat (pol_payload_flash_end policy) \<and>
     e = vector_address m + image_size m"
proof (cases "checked_u32_add (vector_address m) (image_size m)")
  case None
  then have "\<not> unat (vector_address m) + unat (image_size m) \<le> SIZE_MAX"
    using checked_u32_add_Some
      [of "vector_address m" "image_size m" "vector_address m + image_size m"] by auto
  with None u32_unat_bound [of "pol_payload_flash_end policy"] show ?thesis
    by (auto simp: validate_payload_range_def)
next
  case (Some e')
  then have "e' = vector_address m + image_size m"
    "unat e' = unat (vector_address m) + unat (image_size m)"
    by (simp_all add: checked_u32_add_Some u32_no_overflow)
  with Some show ?thesis
    by (auto simp: validate_payload_range_def word_less_nat_alt not_less
        split: if_splits option.splits)
qed

lemma payload_range_end:
  assumes "validate_payload_range m policy = Inr e"
  shows "unat e = unat (vector_address m) + unat (image_size m)"
    "unat e \<le> unat (pol_payload_flash_end policy)"
proof -
  note r = assms [unfolded payload_range_Inr]
  have "unat (vector_address m) + unat (image_size m) \<le> SIZE_MAX"
    using r u32_unat_bound [of "pol_payload_flash_end policy"] by linarith
  then show e: "unat e = unat (vector_address m) + unat (image_size m)"
    using r u32_no_overflow by blast
  with r show "unat e \<le> unat (pol_payload_flash_end policy)" by linarith
qed

lemma image_ok_checks:
  "validate_payload_range m policy = Inr e \<Longrightarrow>
   image_ok m policy payload \<longleftrightarrow>
     validate_manifest_header m policy = VERIFY_OK \<and>
     vector_ok payload (unat (vector_address m)) (unat e)"
  using payload_range_Inr [of m policy e] payload_range_end(1) [of m policy e]
  by (auto simp: image_ok_def header_ok_iff)

lemma image_not_ok: "validate_payload_range m policy = Inl st \<Longrightarrow> \<not> image_ok m policy payload"
  using payload_range_Inr [of m policy "vector_address m + image_size m"]
  by (auto simp: image_ok_def)

text \<open>The second range check never rejects what the first accepted.\<close>

lemma independent_range_check:
  assumes "validate_payload_range m policy = Inr e"
  shows "validate_payload_range_independent m policy e = VERIFY_OK"
proof -
  note r = assms [unfolded payload_range_Inr]
  note e = payload_range_end(1) [OF assms]
  have cap: "unat (pol_payload_flash_end policy - vector_address m) =
      unat (pol_payload_flash_end policy) - unat (vector_address m)"
    using r unfolding word_le_nat_alt by (intro unat_sub) (unfold word_le_nat_alt, linarith)
  have sz: "e - vector_address m = image_size m" using r by simp
  show ?thesis
    using r e cap sz
    by (auto simp: validate_payload_range_independent_def word_less_nat_alt word_le_nat_alt)
qed

lemma low_bits_zero: "(w :: u32) AND 7 = 0 \<longleftrightarrow> 8 dvd unat w"
proof -
  have "w AND 7 = take_bit 3 w" by (simp add: take_bit_eq_mask mask_eq_exp_minus_1)
  moreover have "take_bit 3 w = 0 \<longleftrightarrow> unat (take_bit 3 w) = 0" by (simp add: unat_eq_0)
  moreover have "unat (take_bit 3 w) = unat w mod 8"
    by (simp only: unsigned_take_bit_eq) (simp add: take_bit_eq_mod)
  ultimately show ?thesis by (simp add: dvd_eq_mod_eq_0)
qed

lemma msp_ok_iff:
  "validate_application_msp w = VERIFY_OK \<longleftrightarrow>
     0x20000000 < unat w \<and> unat w \<le> 0x20020000 \<and> 8 dvd unat w"
  by (auto simp: validate_application_msp_def low_bits_zero word_less_nat_alt word_le_nat_alt not_le)

lemma u32_and_one: "unat ((w :: u32) AND 1) = unat w mod 2"
  by (simp only: unsigned_and_eq) (simp add: and_one_eq)

lemma low_bit_clear: "unat ((w :: u32) AND NOT 1) = unat w - unat w mod 2"
proof -
  have "(w AND NOT 1) + (w AND 1) = (w AND NOT 1) OR (w AND 1)"
    by (rule disjunctive_add) (auto simp: bit_simps)
  also have "\<dots> = w" by (rule bit_word_eqI) (auto simp: bit_simps)
  finally have "w AND NOT 1 = w - (w AND 1)" by (metis add_diff_cancel_right')
  moreover have "unat (w - (w AND 1)) = unat w - unat (w AND 1)"
    by (rule unat_sub) (simp add: word_le_nat_alt u32_and_one)
  ultimately show ?thesis by (simp add: u32_and_one)
qed

lemma reset_ok_iff:
  "validate_application_reset w (w AND NOT 1) base e lim = VERIFY_OK \<longleftrightarrow>
    odd (unat w) \<and> unat base < unat w \<and> unat w \<le> unat e \<and> unat w \<le> unat lim"
proof -
  have bit: "w AND 1 = 0 \<longleftrightarrow> even (unat w)"
    using u32_and_one [of w] by (simp add: unat_eq_0 [symmetric] even_iff_mod_2_eq_zero)
  have clear: "odd (unat w) \<Longrightarrow> unat (w AND NOT 1) = unat w - 1"
    by (simp only: low_bit_clear odd_iff_mod_2_eq_one)
  have pos: "odd (unat w) \<Longrightarrow> 0 < unat w" by (cases "unat w") auto
  show ?thesis
  proof (cases "odd (unat w)")
    case True
    then show ?thesis using pos clear
      by (auto simp: validate_application_reset_def bit word_less_nat_alt word_le_nat_alt)
  qed (simp add: validate_application_reset_def bit)
qed

lemma vector_table_Inr:
  assumes "unat e \<le> unat (pol_payload_flash_end policy)"
  shows "validate_vector_table m policy payload e = Inr ctx \<longleftrightarrow>
    vector_ok payload (unat (vector_address m)) (unat e) \<and>
    ctx = \<lparr>ctx_vector_address = vector_address m, ctx_image_size = image_size m,
           ctx_payload_end = e, ctx_initial_msp = load_le32 payload,
           ctx_reset_vector = load_le32 (drop 4 payload),
           ctx_reset_address = load_le32 (drop 4 payload) AND NOT 1\<rparr>"
  using assms
  by (auto simp: validate_vector_table_def read_application_vector_def vector_ok_def Let_def
      msp_ok_iff reset_ok_iff [simplified])

lemma vector_table_Inl:
  assumes "unat e \<le> unat (pol_payload_flash_end policy)"
    and "\<not> vector_ok payload (unat (vector_address m)) (unat e)"
  obtains st where "validate_vector_table m policy payload e = Inl st" "st \<noteq> VERIFY_OK"
proof (cases "validate_vector_table m policy payload e")
  case (Inl st)
  moreover from Inl have "st \<noteq> VERIFY_OK"
    by (auto simp: validate_vector_table_def Let_def split: if_splits)
  ultimately show ?thesis by (rule that)
next
  case (Inr ctx)
  with vector_table_Inr [OF assms(1)] assms(2) show ?thesis by simp
qed

lemma payload_range_Inl: "validate_payload_range m policy = Inl st \<Longrightarrow> st \<noteq> VERIFY_OK"
  by (auto simp: validate_payload_range_def split: if_splits option.splits)

lemma verify_buffer_iff:
  "signed_image_verify_buffer_with_policy cr mb sb payload cap pk policy = VERIFY_OK \<longleftrightarrow>
     image_ok (decode_manifest_bytes mb) policy payload \<and>
     unat (image_size (decode_manifest_bytes mb)) \<le> cap \<and> image_authentic cr mb sb payload pk"
proof (cases "validate_payload_range (decode_manifest_bytes mb) policy")
  case (Inl st)
  with payload_range_Inl [OF Inl] image_not_ok [OF Inl] show ?thesis
    by (simp add: signed_image_verify_buffer_with_policy_def Let_def)
next
  case (Inr e)
  let ?m = "decode_manifest_bytes mb"
  note lim = payload_range_end(2) [OF Inr] and checks = image_ok_checks [OF Inr, of payload]
    and range = Inr independent_range_check [OF Inr]
  show ?thesis
  proof (cases "vector_ok payload (unat (vector_address ?m)) (unat e)")
    case True
    with vector_table_Inr [OF lim] have "\<exists>ctx. validate_vector_table ?m policy payload e = Inr ctx"
      by blast
    with True checks range show ?thesis
      by (auto simp: signed_image_verify_buffer_with_policy_def Let_def image_authentic_def)
  next
    case False
    with vector_table_Inl [OF lim] obtain st where
      "validate_vector_table ?m policy payload e = Inl st" "st \<noteq> VERIFY_OK" by blast
    with False checks range show ?thesis
      by (simp add: signed_image_verify_buffer_with_policy_def Let_def)
  qed
qed

section \<open>Jump contexts\<close>

definition jump_context_of :: "signed_manifest \<Rightarrow> bytes \<Rightarrow> signed_image_jump_context" where
  "jump_context_of m payload =
     \<lparr>ctx_vector_address = vector_address m, ctx_image_size = image_size m,
      ctx_payload_end = vector_address m + image_size m, ctx_initial_msp = load_le32 payload,
      ctx_reset_vector = load_le32 (drop 4 payload),
      ctx_reset_address = load_le32 (drop 4 payload) AND NOT 1\<rparr>"

lemma slot_for_vector_address_Inr:
  "slot_for_vector_address v = Inr slot \<longleftrightarrow>
     (slot = boot_slot_a \<or> slot = boot_slot_b) \<and> v = payload_base slot"
  by (auto simp: slot_for_vector_address_def boot_slot_rows)

lemma slot_for_vector_address_Inl: "slot_for_vector_address v = Inl st \<Longrightarrow> st \<noteq> VERIFY_OK"
  by (auto simp: slot_for_vector_address_def split: if_splits)

lemma slot_table_geometry:
  assumes "slot = boot_slot_a \<or> slot = boot_slot_b"
  shows "\<not> slot_descriptor_is_bad slot" "payload_base slot AND 0xFF = 0"
    "unat (payload_base slot) + unat (maximum_payload_size slot) = unat (slot_end slot)"
    "unat (slot_end slot) \<le> SIZE_MAX"
  using assms by (auto simp: slot_descriptor_is_bad_def boot_slot_rows)

lemma validate_jump_context_ok:
  "validate_jump_context ctx = VERIFY_OK \<longleftrightarrow>
    (\<exists>slot. (slot = boot_slot_a \<or> slot = boot_slot_b) \<and>
       ctx_vector_address ctx = payload_base slot \<and> 8 \<le> unat (ctx_image_size ctx) \<and>
       unat (ctx_image_size ctx) \<le> unat (maximum_payload_size slot) \<and>
       ctx_payload_end ctx = payload_base slot + ctx_image_size ctx \<and>
       validate_application_msp (ctx_initial_msp ctx) = VERIFY_OK \<and>
       validate_application_reset (ctx_reset_vector ctx) (ctx_reset_address ctx)
         (payload_base slot) (ctx_payload_end ctx) (slot_end slot) = VERIFY_OK)"
  (is "_ \<longleftrightarrow> (\<exists>slot. ?R slot)")
proof (cases "slot_for_vector_address (ctx_vector_address ctx)")
  case (Inl st)
  then have "\<not> ?R slot" for slot
    using slot_for_vector_address_Inr [of "ctx_vector_address ctx" slot] by auto
  with Inl slot_for_vector_address_Inl [OF Inl] show ?thesis by (simp add: validate_jump_context_def)
next
  case (Inr slot)
  then have slot: "slot = boot_slot_a \<or> slot = boot_slot_b"
    and v: "ctx_vector_address ctx = payload_base slot"
    by (simp_all add: slot_for_vector_address_Inr)
  note geo = slot_table_geometry [OF slot]
  have uniq: "slot' = slot" if "?R slot'" for slot'
    using that Inr slot_for_vector_address_Inr [of "ctx_vector_address ctx" slot'] by simp
  have "validate_jump_context ctx = VERIFY_OK \<longleftrightarrow> ?R slot"
  proof (cases "unat (ctx_image_size ctx) \<le> unat (maximum_payload_size slot)")
    case False
    then show ?thesis using Inr v geo by (auto simp: validate_jump_context_def word_less_nat_alt)
  next
    case True
    with geo have sum: "unat (payload_base slot) + unat (ctx_image_size ctx) \<le> unat (slot_end slot)"
      and fit: "unat (payload_base slot) + unat (ctx_image_size ctx) \<le> SIZE_MAX" by linarith+
    then have add: "checked_u32_add (payload_base slot) (ctx_image_size ctx) =
        Some (payload_base slot + ctx_image_size ctx)"
      by (simp add: checked_u32_add_Some)
    from u32_no_overflow [OF fit] sum show ?thesis
      using Inr v geo(2) slot True
      by (auto simp: validate_jump_context_def add word_less_nat_alt word_le_nat_alt Let_def)
  qed
  with uniq show ?thesis by blast
qed

lemma prepared_context_valid:
  assumes slot: "slot = boot_slot_a \<or> slot = boot_slot_b"
    and ok: "image_ok m (slot_policy slot) payload"
  shows "validate_jump_context (jump_context_of m payload) = VERIFY_OK"
proof -
  have fit: "unat (payload_base slot) + unat (image_size m) \<le> unat (slot_end slot)"
    using ok by (auto simp: image_ok_def slot_policy_def)
  then have "unat (payload_base slot + image_size m) = unat (payload_base slot) + unat (image_size m)"
    using slot_table_geometry(4) [OF slot] by (intro u32_no_overflow) simp
  with ok fit slot show ?thesis
    by (auto simp: validate_jump_context_ok jump_context_of_def image_ok_def slot_policy_def
        vector_ok_def msp_ok_iff reset_ok_iff [simplified])
qed

lemma prepare_slot_iff:
  assumes slot: "slot = boot_slot_a \<or> slot = boot_slot_b"
  shows "signed_image_prepare_update_slot_buffer mb payload cap slot = Inr ctx \<longleftrightarrow>
    image_ok (decode_manifest_bytes mb) (slot_policy slot) payload \<and>
    unat (image_size (decode_manifest_bytes mb)) \<le> cap \<and>
    ctx = jump_context_of (decode_manifest_bytes mb) payload"
proof (cases "validate_payload_range (decode_manifest_bytes mb) (slot_policy slot)")
  case (Inl st)
  with image_not_ok [OF Inl] show ?thesis
    by (simp add: signed_image_prepare_update_slot_buffer_def prepare_with_policy_def Let_def)
next
  case (Inr e)
  let ?m = "decode_manifest_bytes mb"
  note lim = payload_range_end(2) [OF Inr] and checks = image_ok_checks [OF Inr, of payload]
    and range = Inr independent_range_check [OF Inr] slot_table_geometry(1) [OF slot]
  show ?thesis
  proof (cases "vector_ok payload (unat (vector_address ?m)) (unat e)")
    case True
    have "validate_vector_table ?m (slot_policy slot) payload e = Inr (jump_context_of ?m payload)"
      using True Inr by (simp only: vector_table_Inr [OF lim]) (simp add: jump_context_of_def payload_range_Inr)
    with True checks range prepared_context_valid [OF slot, of ?m payload] show ?thesis
      by (auto simp: signed_image_prepare_update_slot_buffer_def prepare_with_policy_def Let_def
          exceeds_capacity_def)
  next
    case False
    with vector_table_Inl [OF lim] obtain st where
      "validate_vector_table ?m (slot_policy slot) payload e = Inl st" "st \<noteq> VERIFY_OK" by blast
    with False checks range show ?thesis
      by (simp add: signed_image_prepare_update_slot_buffer_def prepare_with_policy_def Let_def)
  qed
qed

section \<open>The jump\<close>

definition flash_word :: "(nat \<Rightarrow> u8) \<Rightarrow> nat \<Rightarrow> u32" where
  "flash_word mem a = load_le32 (mem_range mem a 4)"

lemma read_vector_flash:
  "read_application_vector (mem_range mem a 8) =
     \<lparr>initial_msp = flash_word mem a, reset_vector = flash_word mem (a + 4),
      reset_address = flash_word mem (a + 4) AND NOT 1\<rparr>"
proof -
  have "load_le32 (mem_range mem a 8) = flash_word mem a"
    "load_le32 (drop 4 (mem_range mem a 8)) = flash_word mem (a + 4)"
    by (auto simp: flash_word_def drop_mem_range intro!: load_le32_cong)
  then show ?thesis by (simp add: read_application_vector_def Let_def)
qed

definition context_matches_flash :: "(nat \<Rightarrow> u8) \<Rightarrow> signed_image_jump_context \<Rightarrow> bool" where
  "context_matches_flash mem ctx \<longleftrightarrow>
     ctx_initial_msp ctx = flash_word mem (unat (ctx_vector_address ctx)) \<and>
     ctx_reset_vector ctx = flash_word mem (unat (ctx_vector_address ctx) + 4) \<and>
     ctx_reset_address ctx = flash_word mem (unat (ctx_vector_address ctx) + 4) AND NOT 1"

lemma confirm_iff:
  assumes "validate_jump_context ctx = VERIFY_OK"
  shows "confirm_jump_context_matches_flash mem ctx = VERIFY_OK \<longleftrightarrow> context_matches_flash mem ctx"
proof -
  from assms obtain slot where slot: "slot = boot_slot_a \<or> slot = boot_slot_b"
    and v: "ctx_vector_address ctx = payload_base slot"
    and msp: "validate_application_msp (ctx_initial_msp ctx) = VERIFY_OK"
    and reset: "validate_application_reset (ctx_reset_vector ctx) (ctx_reset_address ctx)
         (payload_base slot) (ctx_payload_end ctx) (slot_end slot) = VERIFY_OK"
    by (auto simp: validate_jump_context_ok)
  have "slot_for_vector_address (ctx_vector_address ctx) = Inr slot"
    using slot v by (simp add: slot_for_vector_address_Inr)
  with msp reset show ?thesis
    by (auto simp: confirm_jump_context_matches_flash_def context_matches_flash_def
        read_vector_flash v Let_def)
qed

lemma jump_enters_iff:
  "snd (signed_image_jump mem ctx) \<noteq> [] \<longleftrightarrow>
     validate_jump_context ctx = VERIFY_OK \<and> context_matches_flash mem ctx"
  by (auto simp: signed_image_jump_def Let_def confirm_iff)

lemma jump_effects:
  assumes "snd (signed_image_jump mem ctx) \<noteq> []"
  shows "snd (signed_image_jump mem ctx) =
    [CPSID_I, DSB, ISB, WRITE_REG 0xE000E010 0] @ nvic_clear @
    [WRITE_REG 0xE000ED08 (ctx_vector_address ctx), DSB, ISB,
     SET_MSP (ctx_initial_msp ctx), DSB, ISB, CPSIE_I, ENTER (ctx_reset_vector ctx)]"
  using assms by (auto simp: signed_image_jump_def Let_def split: if_splits)

lemma nvic_clear_simps:
  "ENTER a \<notin> set nvic_clear" "SET_MSP a \<notin> set nvic_clear"
  "WRITE_REG 0xE000ED08 a \<notin> set nvic_clear"
proof -
  have "list_all (\<lambda>e. case e of WRITE_REG r v \<Rightarrow> r \<noteq> 0xE000ED08 | _ \<Rightarrow> False) nvic_clear"
    by (simp add: nvic_clear_def upt_conv_Cons del: set_upt)
  then show "ENTER a \<notin> set nvic_clear" "SET_MSP a \<notin> set nvic_clear"
    "WRITE_REG 0xE000ED08 a \<notin> set nvic_clear"
    by (auto simp: list_all_iff split: cpu_effect.splits)
qed

text \<open>
  The boot loader enters only code inside one of the two slots: whenever the jump starts an
  application, the entry point is the reset vector stored in flash behind the slot's vector
  table, it is a Thumb address inside the slot, the stack pointer is the stored one, aligned
  and inside SRAM, and the vector table register points at the slot.
\<close>

theorem jump_confined_to_slot:
  assumes "ENTER a \<in> set (snd (signed_image_jump mem ctx))"
  shows "\<exists>slot \<in> {boot_slot_a, boot_slot_b}.
    a = flash_word mem (unat (payload_base slot) + 4) \<and> odd (unat a) \<and>
    unat (payload_base slot) < unat a \<and> unat a \<le> unat (slot_end slot) \<and>
    (\<forall>sp. SET_MSP sp \<in> set (snd (signed_image_jump mem ctx)) \<longrightarrow>
       sp = flash_word mem (unat (payload_base slot)) \<and>
       0x20000000 < unat sp \<and> unat sp \<le> 0x20020000 \<and> 8 dvd unat sp) \<and>
    (\<forall>v. WRITE_REG 0xE000ED08 v \<in> set (snd (signed_image_jump mem ctx)) \<longrightarrow>
       v = payload_base slot)"
proof -
  from assms have ne: "snd (signed_image_jump mem ctx) \<noteq> []" by auto
  then have valid: "validate_jump_context ctx = VERIFY_OK" and match: "context_matches_flash mem ctx"
    by (simp_all add: jump_enters_iff)
  note effects = jump_effects [OF ne]
  from assms have a: "a = ctx_reset_vector ctx" by (auto simp: effects nvic_clear_simps)
  from valid obtain slot where slot: "slot = boot_slot_a \<or> slot = boot_slot_b"
    and v: "ctx_vector_address ctx = payload_base slot"
    and msp: "validate_application_msp (ctx_initial_msp ctx) = VERIFY_OK"
    and reset: "validate_application_reset (ctx_reset_vector ctx) (ctx_reset_address ctx)
         (payload_base slot) (ctx_payload_end ctx) (slot_end slot) = VERIFY_OK"
    by (auto simp: validate_jump_context_ok)
  have "ctx_reset_address ctx = ctx_reset_vector ctx AND NOT 1"
    using match by (simp add: context_matches_flash_def)
  with reset have "odd (unat a)" "unat (payload_base slot) < unat a" "unat a \<le> unat (slot_end slot)"
    by (simp_all add: a reset_ok_iff [simplified])
  with slot v msp match a show ?thesis
    by (intro bexI [of _ slot])
      (auto simp: effects nvic_clear_simps msp_ok_iff context_matches_flash_def)
qed

section \<open>Properties\<close>

text \<open>
  C31. Exactly which images verify for a slot: the checks accept an image if and only if the slot
  descriptor is sane, the manifest, its placement and the vector table satisfy the specification,
  the image fits the buffer, the payload has the signed hash and the signature is valid.
\<close>

theorem verify_slot_image_iff:
  "signed_image_verify_update_slot_buffer cr mb sb payload cap pk slot = VERIFY_OK \<longleftrightarrow>
     \<not> slot_descriptor_is_bad slot \<and>
     image_ok (decode_manifest_bytes mb) (slot_policy slot) payload \<and>
     unat (image_size (decode_manifest_bytes mb)) \<le> cap \<and> image_authentic cr mb sb payload pk"
  by (simp add: signed_image_verify_update_slot_buffer_def verify_buffer_iff)

text \<open>
  The redundant range check is redundant: the independent recomputation of the payload range
  accepts every range the first check accepts, so it rejects only after a fault.
\<close>

theorem redundant_range_check_agrees:
  assumes "validate_payload_range m policy = Inr e"
  shows "validate_payload_range_independent m policy e = VERIFY_OK"
  by (rule independent_range_check [OF assms])

text \<open>An instance: an image of eight bytes in slot A.\<close>

theorem redundant_range_check_agrees_witness:
  "validate_payload_range_independent
     \<lparr>magic = 0, header_version = 0, image_version = 0, vector_address = 0x08020200,
      image_size = 8, flags = 0, reserved0 = 0, reserved1 = 0, payload_sha512 = []\<rparr>
     application_policy 0x08020208 = VERIFY_OK"
  by (rule redundant_range_check_agrees)
    (simp add: validate_payload_range_def application_policy_def checked_u32_add_def)

text \<open>
  A verified image can be started: for both slots, an image that verifies yields a jump context,
  the context passes the checks made before the jump, and the jump enters the reset vector of the
  image if the flash still holds its vector table.
\<close>

theorem verified_image_starts:
  assumes slot: "boot_slot_lookup i = Some slot"
    and ver: "signed_image_verify_update_slot_buffer cr mb sb payload cap pk slot = VERIFY_OK"
    and flash: "flash_word mem (unat (payload_base slot)) = load_le32 payload"
      "flash_word mem (unat (payload_base slot) + 4) = load_le32 (drop 4 payload)"
  shows "\<exists>ctx. signed_image_prepare_update_slot_buffer mb payload cap slot = Inr ctx \<and>
    last (snd (signed_image_jump mem ctx)) = ENTER (load_le32 (drop 4 payload))"
proof -
  have ab: "slot = boot_slot_a \<or> slot = boot_slot_b" using slot by (auto simp: boot_slot_lookup_Some)
  let ?m = "decode_manifest_bytes mb"
  from ver have ok: "image_ok ?m (slot_policy slot) payload" "unat (image_size ?m) \<le> cap"
    by (auto simp: signed_image_verify_update_slot_buffer_def verify_buffer_iff split: if_splits)
  have "signed_image_prepare_update_slot_buffer mb payload cap slot = Inr (jump_context_of ?m payload)"
    using ok by (simp add: prepare_slot_iff [OF ab])
  moreover have "context_matches_flash mem (jump_context_of ?m payload)"
    using ok(1) flash by (simp add: context_matches_flash_def jump_context_of_def image_ok_def slot_policy_def)
  then have "snd (signed_image_jump mem (jump_context_of ?m payload)) \<noteq> []"
    using prepared_context_valid [OF ab ok(1)] by (simp add: jump_enters_iff)
  note jump_effects [OF this]
  ultimately show ?thesis by (simp add: jump_context_of_def)
qed

end
