(* ===== verification/Boot_Slot_Selection.thy ===== *)
theory Boot_Slot_Selection
  imports Metadata_Journal Signed_Image
begin

text \<open>
  The choice of the slot to boot (\<^verbatim>\<open>boot_slot_selection.h\<close>, \<^verbatim>\<open>boot_slot_selection.c\<close>). The
  options record holds the metadata flash object, the verification callback, the optional
  fault hook of the tests and the reset result. The callback reads the device, so it takes
  the device state; it returns its status, the verify status and the jump context it filled
  (if it did). Every operation returns its status, the result record and the device state.

  Lemmas: a selected slot has been verified, a trial is recorded in the journal before it is
  selected, and the number of trial boots of one candidate is bounded.
\<close>

section \<open>Types\<close>

abbreviation (input) BOOT_SLOT_SELECTION_RESULT_NONE :: u32 where
  "BOOT_SLOT_SELECTION_RESULT_NONE \<equiv> 0"
abbreviation (input) BOOT_SLOT_SELECTION_RESULT_ATTEMPTS_EXHAUSTED :: u32 where
  "BOOT_SLOT_SELECTION_RESULT_ATTEMPTS_EXHAUSTED \<equiv> 1"
abbreviation (input) BOOT_SLOT_SELECTION_RESULT_CANDIDATE_VERIFY_FAILED :: u32 where
  "BOOT_SLOT_SELECTION_RESULT_CANDIDATE_VERIFY_FAILED \<equiv> 2"

datatype boot_slot_selection_status =
    BOOT_SLOT_SELECTION_OK
  | BOOT_SLOT_SELECTION_ERR_INVALID_ARGUMENT
  | BOOT_SLOT_SELECTION_ERR_METADATA
  | BOOT_SLOT_SELECTION_ERR_AMBIGUOUS_METADATA
  | BOOT_SLOT_SELECTION_ERR_SLOT
  | BOOT_SLOT_SELECTION_ERR_VERIFY
  | BOOT_SLOT_SELECTION_ERR_COMMIT
  | BOOT_SLOT_SELECTION_ERR_NO_BOOTABLE_SLOT
  | BOOT_SLOT_SELECTION_ERR_INJECTED

datatype boot_slot_selection_decision =
    BOOT_SLOT_SELECTION_DECISION_NONE
  | BOOT_SLOT_SELECTION_DECISION_CONFIRMED
  | BOOT_SLOT_SELECTION_DECISION_TRIAL
  | BOOT_SLOT_SELECTION_DECISION_FALLBACK

datatype boot_slot_selection_fault_point =
    BOOT_SLOT_SELECTION_FAULT_VERIFY_CANDIDATE
  | BOOT_SLOT_SELECTION_FAULT_VERIFY_CONFIRMED
  | BOOT_SLOT_SELECTION_FAULT_METADATA_PENDING_TRIAL
  | BOOT_SLOT_SELECTION_FAULT_METADATA_ATTEMPT_DECREMENT
  | BOOT_SLOT_SELECTION_FAULT_METADATA_REJECT_INVALID

type_synonym slot_verdict =
  "boot_slot_selection_status \<times> verify_status \<times> signed_image_jump_context option"

record 'c boot_slot_selection_options =
  opt_metadata_flash :: "'c boot_flash"
  opt_verify_slot :: "'c \<Rightarrow> boot_slot_descriptor \<Rightarrow> slot_verdict"
  opt_fault_hook :: "(boot_slot_selection_fault_point \<Rightarrow> u32 \<Rightarrow> boot_slot_selection_status) option"
  opt_trial_reset_result :: u32

record boot_slot_selection_result =
  res_decision :: boot_slot_selection_decision
  res_selected_slot :: u32
  res_confirmed_slot :: u32
  res_candidate_slot :: u32
  res_image_version :: u32
  res_attempts_remaining_before :: u32
  res_attempts_remaining_after :: u32
  res_metadata_before :: "boot_metadata_record option"
  res_metadata_recovery :: "boot_metadata_recovery option"
  res_selected_verify_status :: verify_status
  res_candidate_verify_status :: verify_status
  res_confirmed_verify_status :: verify_status
  res_fallback_cause :: boot_slot_selection_status
  res_jump_context :: "signed_image_jump_context option"

section \<open>Operations\<close>

definition init_result :: boot_slot_selection_result where
  "init_result =
     \<lparr>res_decision = BOOT_SLOT_SELECTION_DECISION_NONE,
      res_selected_slot = BOOT_SLOT_NONE,
      res_confirmed_slot = BOOT_SLOT_NONE,
      res_candidate_slot = BOOT_SLOT_NONE,
      res_image_version = 0,
      res_attempts_remaining_before = 0,
      res_attempts_remaining_after = 0,
      res_metadata_before = None,
      res_metadata_recovery = None,
      res_selected_verify_status = VERIFY_BAD_PAYLOAD_RANGE,
      res_candidate_verify_status = VERIFY_BAD_PAYLOAD_RANGE,
      res_confirmed_verify_status = VERIFY_BAD_PAYLOAD_RANGE,
      res_fallback_cause = BOOT_SLOT_SELECTION_OK,
      res_jump_context = None\<rparr>"

definition maybe_inject ::
    "'c boot_slot_selection_options \<Rightarrow> boot_slot_selection_fault_point \<Rightarrow> u32 \<Rightarrow>
     boot_slot_selection_status" where
  "maybe_inject options point detail =
     (case opt_fault_hook options of
        None \<Rightarrow> BOOT_SLOT_SELECTION_OK
      | Some fault_hook \<Rightarrow> fault_hook point detail)"

definition verify_slot ::
    "'c boot_slot_selection_options \<Rightarrow> 'c \<Rightarrow> boot_slot_descriptor \<Rightarrow>
     boot_slot_selection_fault_point \<Rightarrow> slot_verdict" where
  "verify_slot options c slot fault_point =
     (let injected = maybe_inject options fault_point (slot_num (slot_id slot))
      in if injected \<noteq> BOOT_SLOT_SELECTION_OK then (injected, VERIFY_BAD_PAYLOAD_RANGE, None)
         else case opt_verify_slot options c slot of
           (status, verdict, context) \<Rightarrow>
             if status \<noteq> BOOT_SLOT_SELECTION_OK then (status, verdict, context)
             else (if verdict = VERIFY_OK then BOOT_SLOT_SELECTION_OK
                   else BOOT_SLOT_SELECTION_ERR_VERIFY, verdict, context))"

definition commit_next ::
    "'c boot_slot_selection_options \<Rightarrow> 'c \<Rightarrow> boot_metadata_record \<Rightarrow>
     boot_slot_selection_fault_point \<Rightarrow> u32 \<Rightarrow> boot_slot_selection_status \<times> 'c" where
  "commit_next options c nx fault_point detail =
     (let injected = maybe_inject options fault_point detail
      in if injected \<noteq> BOOT_SLOT_SELECTION_OK then (injected, c)
         else case boot_metadata_commit (opt_metadata_flash options) c nx of
           (status, c') \<Rightarrow>
             (if status = BOOT_METADATA_OK then BOOT_SLOT_SELECTION_OK
              else BOOT_SLOT_SELECTION_ERR_COMMIT, c'))"

definition prepare_rejected_invalid :: "boot_metadata_record \<Rightarrow> u32 \<Rightarrow> boot_metadata_record" where
  "prepare_rejected_invalid current code =
     (case boot_metadata_prepare_next current BOOT_METADATA_STATE_REJECTED_INVALID
             (active_slot current) (candidate_slot current) (candidate_image_version current)
             0 0 code of
        Inl _ \<Rightarrow> boot_metadata_empty
      | Inr nx \<Rightarrow> nx)"

definition reject_invalid_best_effort ::
    "'c boot_slot_selection_options \<Rightarrow> 'c \<Rightarrow> boot_metadata_record \<Rightarrow> u32 \<Rightarrow> 'c" where
  "reject_invalid_best_effort options c current code =
     (let rejected = prepare_rejected_invalid current code
      in if sequence rejected \<noteq> 0
         then snd (commit_next options c rejected
                     BOOT_SLOT_SELECTION_FAULT_METADATA_REJECT_INVALID code)
         else c)"

definition select_confirmed_slot ::
    "'c boot_slot_selection_options \<Rightarrow> 'c \<Rightarrow> boot_metadata_record \<Rightarrow>
     boot_slot_selection_decision \<Rightarrow> boot_slot_selection_result \<Rightarrow>
     boot_slot_selection_status \<times> boot_slot_selection_result" where
  "select_confirmed_slot options c metadata decision result =
     (case boot_slot_lookup (active_slot metadata) of
        None \<Rightarrow> (BOOT_SLOT_SELECTION_ERR_SLOT, result)
      | Some slot \<Rightarrow>
          (case verify_slot options c slot BOOT_SLOT_SELECTION_FAULT_VERIFY_CONFIRMED of
             (status, verdict, context) \<Rightarrow>
               let result' = result\<lparr>res_confirmed_verify_status := verdict\<rparr>
               in if status \<noteq> BOOT_SLOT_SELECTION_OK
                  then (if status = BOOT_SLOT_SELECTION_ERR_VERIFY
                        then BOOT_SLOT_SELECTION_ERR_NO_BOOTABLE_SLOT else status, result')
                  else (BOOT_SLOT_SELECTION_OK,
                        result'\<lparr>res_decision := decision,
                                res_selected_slot := slot_num (slot_id slot),
                                res_selected_verify_status := verdict,
                                res_jump_context := context\<rparr>)))"

definition fallback_to_confirmed ::
    "'c boot_slot_selection_options \<Rightarrow> 'c \<Rightarrow> boot_metadata_record \<Rightarrow>
     boot_slot_selection_result \<Rightarrow> boot_slot_selection_status \<times> boot_slot_selection_result" where
  "fallback_to_confirmed options c metadata result =
     (if active_slot metadata = BOOT_SLOT_NONE
      then (BOOT_SLOT_SELECTION_ERR_NO_BOOTABLE_SLOT, result)
      else select_confirmed_slot options c metadata BOOT_SLOT_SELECTION_DECISION_FALLBACK result)"

text \<open>The fallback does not write, so its device state is the one it is given.\<close>

definition with_state :: "'c \<Rightarrow> 'a \<times> 'b \<Rightarrow> 'a \<times> 'b \<times> 'c" where
  "with_state c x = (fst x, snd x, c)"

definition start_or_continue_trial ::
    "'c boot_slot_selection_options \<Rightarrow> 'c \<Rightarrow> boot_metadata_record \<Rightarrow>
     boot_slot_selection_result \<Rightarrow>
     boot_slot_selection_status \<times> boot_slot_selection_result \<times> 'c" where
  "start_or_continue_trial options c metadata result =
     (case boot_slot_lookup (candidate_slot metadata) of
        None \<Rightarrow>
          with_state c (fallback_to_confirmed options c metadata
            (result\<lparr>res_fallback_cause := BOOT_SLOT_SELECTION_ERR_SLOT\<rparr>))
      | Some slot \<Rightarrow>
          (case verify_slot options c slot BOOT_SLOT_SELECTION_FAULT_VERIFY_CANDIDATE of
             (status, verdict, context) \<Rightarrow>
               let result1 = result\<lparr>res_candidate_verify_status := verdict\<rparr>
               in if status \<noteq> BOOT_SLOT_SELECTION_OK then
                    (let c1 = reject_invalid_best_effort options c metadata
                                BOOT_SLOT_SELECTION_RESULT_CANDIDATE_VERIFY_FAILED
                     in with_state c1 (fallback_to_confirmed options c1 metadata
                          (result1\<lparr>res_fallback_cause := status\<rparr>)))
                  else if state metadata \<noteq> BOOT_METADATA_STATE_CANDIDATE_READY \<and>
                          \<not> boot_attempt_count metadata > 0 then
                    (let c1 = reject_invalid_best_effort options c metadata
                                BOOT_SLOT_SELECTION_RESULT_ATTEMPTS_EXHAUSTED
                     in with_state c1 (fallback_to_confirmed options c1 metadata
                          (result1\<lparr>res_fallback_cause :=
                                     BOOT_SLOT_SELECTION_ERR_NO_BOOTABLE_SLOT\<rparr>)))
                  else
                    (let next_attempts =
                           (if state metadata = BOOT_METADATA_STATE_CANDIDATE_READY
                            then BOOT_METADATA_MAX_BOOT_ATTEMPTS - 1
                            else boot_attempt_count metadata - 1);
                         fault_point =
                           (if state metadata = BOOT_METADATA_STATE_CANDIDATE_READY
                            then BOOT_SLOT_SELECTION_FAULT_METADATA_PENDING_TRIAL
                            else BOOT_SLOT_SELECTION_FAULT_METADATA_ATTEMPT_DECREMENT)
                     in case boot_metadata_prepare_next metadata
                               BOOT_METADATA_STATE_PENDING_TRIAL (active_slot metadata)
                               (candidate_slot metadata) (candidate_image_version metadata)
                               next_attempts 0
                               (if opt_trial_reset_result options \<noteq> 0
                                then opt_trial_reset_result options
                                else BOOT_SLOT_SELECTION_RESULT_NONE) of
                          Inl _ \<Rightarrow>
                            with_state c (fallback_to_confirmed options c metadata
                              (result1\<lparr>res_fallback_cause := BOOT_SLOT_SELECTION_ERR_METADATA\<rparr>))
                        | Inr nx \<Rightarrow>
                            (case commit_next options c nx fault_point next_attempts of
                               (commit_status, c1) \<Rightarrow>
                                 if commit_status \<noteq> BOOT_SLOT_SELECTION_OK then
                                   with_state c1 (fallback_to_confirmed options c1 metadata
                                     (result1\<lparr>res_fallback_cause := commit_status\<rparr>))
                                 else
                                   (BOOT_SLOT_SELECTION_OK,
                                    result1\<lparr>res_decision := BOOT_SLOT_SELECTION_DECISION_TRIAL,
                                            res_selected_slot := slot_num (slot_id slot),
                                            res_selected_verify_status := verdict,
                                            res_attempts_remaining_after := next_attempts,
                                            res_jump_context := context\<rparr>, c1)))))"

definition boot_slot_selection_select ::
    "'c boot_slot_selection_options \<Rightarrow> 'c \<Rightarrow>
     boot_slot_selection_status \<times> boot_slot_selection_result \<times> 'c" where
  "boot_slot_selection_select options c =
     (case boot_metadata_recover_from_flash (opt_metadata_flash options) c of
        (metadata_status, recovered) \<Rightarrow>
          if metadata_status = BOOT_METADATA_ERR_AMBIGUOUS
          then (BOOT_SLOT_SELECTION_ERR_AMBIGUOUS_METADATA, init_result, c)
          else if metadata_status \<noteq> BOOT_METADATA_OK
          then (BOOT_SLOT_SELECTION_ERR_METADATA, init_result, c)
          else case recovered of
            None \<Rightarrow> (BOOT_SLOT_SELECTION_ERR_METADATA, init_result, c)
          | Some (metadata, recovery) \<Rightarrow>
              (let result =
                 init_result\<lparr>res_metadata_before := Some metadata,
                             res_metadata_recovery := Some recovery,
                             res_confirmed_slot := active_slot metadata,
                             res_candidate_slot := candidate_slot metadata,
                             res_image_version := candidate_image_version metadata,
                             res_attempts_remaining_before := boot_attempt_count metadata,
                             res_attempts_remaining_after := boot_attempt_count metadata\<rparr>
               in case state metadata of
                    BOOT_METADATA_STATE_CONFIRMED \<Rightarrow>
                      with_state c (select_confirmed_slot options c metadata
                        BOOT_SLOT_SELECTION_DECISION_CONFIRMED result)
                  | BOOT_METADATA_STATE_CANDIDATE_READY \<Rightarrow>
                      start_or_continue_trial options c metadata result
                  | BOOT_METADATA_STATE_PENDING_TRIAL \<Rightarrow>
                      start_or_continue_trial options c metadata result
                  | BOOT_METADATA_STATE_WRITING \<Rightarrow>
                      with_state c (fallback_to_confirmed options c metadata result)
                  | BOOT_METADATA_STATE_REJECTED_INVALID \<Rightarrow>
                      with_state c (fallback_to_confirmed options c metadata result)
                  | BOOT_METADATA_STATE_EMPTY \<Rightarrow>
                      (BOOT_SLOT_SELECTION_ERR_NO_BOOTABLE_SLOT, result, c)
                  | BOOT_METADATA_STATE_OTHER _ \<Rightarrow>
                      (BOOT_SLOT_SELECTION_ERR_NO_BOOTABLE_SLOT, result, c)))"

section \<open>Outcomes\<close>

lemma verify_slot_ok:
  "verify_slot options c slot p = (BOOT_SLOT_SELECTION_OK, v, ctx) \<Longrightarrow>
   v = VERIFY_OK \<and> opt_verify_slot options c slot = (BOOT_SLOT_SELECTION_OK, VERIFY_OK, ctx)"
  by (auto simp: verify_slot_def Let_def split: if_splits prod.splits)

lemma select_confirmed_ok:
  assumes "select_confirmed_slot options c metadata d res = (BOOT_SLOT_SELECTION_OK, res')"
  shows "\<exists>slot ctx. boot_slot_lookup (active_slot metadata) = Some slot \<and>
    opt_verify_slot options c slot = (BOOT_SLOT_SELECTION_OK, VERIFY_OK, ctx) \<and>
    res_decision res' = d \<and> res_selected_slot res' = active_slot metadata \<and>
    res_jump_context res' = ctx"
  using assms
  by (auto simp: select_confirmed_slot_def Let_def boot_slot_lookup_id
      split: option.splits prod.splits if_splits dest!: verify_slot_ok)

lemma fallback_ok:
  assumes "fallback_to_confirmed options c metadata res = (BOOT_SLOT_SELECTION_OK, res')"
  shows "\<exists>slot ctx. boot_slot_lookup (active_slot metadata) = Some slot \<and>
    opt_verify_slot options c slot = (BOOT_SLOT_SELECTION_OK, VERIFY_OK, ctx) \<and>
    res_decision res' = BOOT_SLOT_SELECTION_DECISION_FALLBACK \<and>
    res_selected_slot res' = active_slot metadata \<and> res_jump_context res' = ctx"
  using assms by (auto simp: fallback_to_confirmed_def split: if_splits dest: select_confirmed_ok)

lemma fallback_decision:
  "fallback_to_confirmed options c metadata res = (st, res') \<Longrightarrow>
   res_decision res \<noteq> BOOT_SLOT_SELECTION_DECISION_TRIAL \<Longrightarrow>
   res_decision res' \<noteq> BOOT_SLOT_SELECTION_DECISION_TRIAL"
  by (auto simp: fallback_to_confirmed_def select_confirmed_slot_def Let_def
      split: if_splits option.splits prod.splits)

lemma commit_next_cases:
  assumes "commit_next options c nx p d = (st, c')"
  obtains (skipped) "c' = c" "st \<noteq> BOOT_SLOT_SELECTION_OK"
  | (tried) s where "boot_metadata_commit (opt_metadata_flash options) c nx = (s, c')"
      "st = BOOT_SLOT_SELECTION_OK \<longleftrightarrow> s = BOOT_METADATA_OK"
  using assms by (auto simp: commit_next_def Let_def split: if_splits prod.splits)

lemma prepare_next_step:
  "boot_metadata_prepare_next r st a b v n f res = Inr nx \<Longrightarrow> valid_step r nx"
  by (auto simp: valid_step_def dest: prepare_next_ok(1))

lemma reject_cases:
  assumes "reject_invalid_best_effort options c r code = c'"
  obtains (same) "c' = c"
  | (tried) s nx where "boot_metadata_commit (opt_metadata_flash options) c nx = (s, c')"
      "valid_step r nx" "state nx = BOOT_METADATA_STATE_REJECTED_INVALID"
      "active_slot nx = active_slot r" "candidate_slot nx = candidate_slot r"
proof (cases "boot_metadata_prepare_next r BOOT_METADATA_STATE_REJECTED_INVALID (active_slot r)
                (candidate_slot r) (candidate_image_version r) 0 0 code")
  case (Inl e)
  with assms same show ?thesis
    by (simp add: reject_invalid_best_effort_def prepare_rejected_invalid_def boot_metadata_empty_def)
next
  case (Inr nx)
  obtain st d where run: "commit_next options c nx
      BOOT_SLOT_SELECTION_FAULT_METADATA_REJECT_INVALID code = (st, d)" by fastforce
  have st: "state nx = BOOT_METADATA_STATE_REJECTED_INVALID" "active_slot nx = active_slot r"
    "candidate_slot nx = candidate_slot r" using prepare_next_ok(2) [OF Inr] by simp_all
  from assms Inr run have "c' = c \<or> c' = d"
    by (auto simp: reject_invalid_best_effort_def prepare_rejected_invalid_def Let_def)
  moreover from run have "c' = d \<Longrightarrow> ?thesis"
    by (cases rule: commit_next_cases)
      (use same tried prepare_next_step [OF Inr] st in auto)
  ultimately show ?thesis using same by blast
qed

text \<open>
  The trial path either commits the decremented record and selects the candidate, or falls back
  after at most one commit attempt. \<open>trial_tried\<close> is the state change of such an attempt,
  \<open>trial_next\<close> the record a trial commits.
\<close>

definition trial_tried ::
    "'c boot_slot_selection_options \<Rightarrow> boot_metadata_record \<Rightarrow> 'c \<Rightarrow> 'c \<Rightarrow> bool" where
  "trial_tried options metadata c c' \<longleftrightarrow> c' = c \<or>
     (\<exists>s nx. boot_metadata_commit (opt_metadata_flash options) c nx = (s, c') \<and>
        valid_step metadata nx \<and> state nx \<in> {BOOT_METADATA_STATE_REJECTED_INVALID,
          BOOT_METADATA_STATE_PENDING_TRIAL} \<and>
        active_slot nx = active_slot metadata \<and> candidate_slot nx = candidate_slot metadata)"

definition trial_next ::
    "'c boot_slot_selection_options \<Rightarrow> boot_metadata_record \<Rightarrow> boot_metadata_record" where
  "trial_next options metadata =
     \<lparr>sequence = sequence metadata + 1, state = BOOT_METADATA_STATE_PENDING_TRIAL,
      active_slot = active_slot metadata, candidate_slot = candidate_slot metadata,
      candidate_image_version = candidate_image_version metadata,
      boot_attempt_count = (if state metadata = BOOT_METADATA_STATE_CANDIDATE_READY then 2
                            else boot_attempt_count metadata - 1),
      confirmation_state = 0, result_code = opt_trial_reset_result options\<rparr>"

lemma reject_tried: "trial_tried options metadata c (reject_invalid_best_effort options c metadata code)"
  by (cases rule: reject_cases [OF refl, of options c metadata code]) (auto simp: trial_tried_def)

lemma trial_commit:
  assumes slot: "boot_slot_lookup (candidate_slot metadata) = Some slot"
    and ver: "verify_slot options c slot BOOT_SLOT_SELECTION_FAULT_VERIFY_CANDIDATE =
                (BOOT_SLOT_SELECTION_OK, v, ctx)"
    and may: "state metadata = BOOT_METADATA_STATE_CANDIDATE_READY \<or> 0 < boot_attempt_count metadata"
    and run: "start_or_continue_trial options c metadata res = (st, res', c')"
  shows "(\<exists>res1. fallback_to_confirmed options c' metadata res1 = (st, res') \<and>
            res_decision res1 = res_decision res \<and> trial_tried options metadata c c') \<or>
    st = BOOT_SLOT_SELECTION_OK \<and> valid_step metadata (trial_next options metadata) \<and>
    boot_metadata_commit (opt_metadata_flash options) c (trial_next options metadata) =
      (BOOT_METADATA_OK, c') \<and>
    res' = res\<lparr>res_candidate_verify_status := v,
               res_decision := BOOT_SLOT_SELECTION_DECISION_TRIAL,
               res_selected_slot := candidate_slot metadata, res_selected_verify_status := v,
               res_attempts_remaining_after := boot_attempt_count (trial_next options metadata),
               res_jump_context := ctx\<rparr>"
proof -
  let ?nx = "trial_next options metadata"
  let ?n = "boot_attempt_count ?nx"
  let ?p = "if state metadata = BOOT_METADATA_STATE_CANDIDATE_READY
            then BOOT_SLOT_SELECTION_FAULT_METADATA_PENDING_TRIAL
            else BOOT_SLOT_SELECTION_FAULT_METADATA_ATTEMPT_DECREMENT"
  let ?prep = "boot_metadata_prepare_next metadata BOOT_METADATA_STATE_PENDING_TRIAL
    (active_slot metadata) (candidate_slot metadata) (candidate_image_version metadata) ?n 0
    (opt_trial_reset_result options)"
  have n: "?n = (if state metadata = BOOT_METADATA_STATE_CANDIDATE_READY then 2
      else boot_attempt_count metadata - 1)"
    by (simp add: trial_next_def)
  have reset: "(if opt_trial_reset_result options \<noteq> 0 then opt_trial_reset_result options
      else BOOT_SLOT_SELECTION_RESULT_NONE) = opt_trial_reset_result options" by simp
  have guard: "(state metadata \<noteq> BOOT_METADATA_STATE_CANDIDATE_READY \<and>
      \<not> 0 < boot_attempt_count metadata) = False" using may by blast
  note unfold = start_or_continue_trial_def slot ver reset guard Let_def n
  show ?thesis
  proof (cases ?prep)
    case (Inl e)
    with run show ?thesis
      by (auto simp: unfold with_state_def trial_tried_def cong: if_cong)
  next
    case (Inr nx)
    from prepare_next_ok(2) [OF Inr] have "nx = ?nx" by (simp add: trial_next_def)
    with Inr have prep: "?prep = Inr ?nx" and step: "valid_step metadata ?nx"
      by (simp_all add: prepare_next_step)
    obtain cs c1 where com: "commit_next options c ?nx ?p ?n = (cs, c1)" by fastforce
    have st: "state ?nx = BOOT_METADATA_STATE_PENDING_TRIAL" "active_slot ?nx = active_slot metadata"
      "candidate_slot ?nx = candidate_slot metadata" by (simp_all add: trial_next_def)
    from com have tried: "trial_tried options metadata c c1"
      by (cases rule: commit_next_cases) (use step st in \<open>auto simp: trial_tried_def\<close>)
    have committed: "cs = BOOT_SLOT_SELECTION_OK \<Longrightarrow>
        boot_metadata_commit (opt_metadata_flash options) c ?nx = (BOOT_METADATA_OK, c1)"
      using com by (cases rule: commit_next_cases) auto
    from run prep com boot_slot_lookup_id [OF slot] tried committed step show ?thesis
      by (auto simp: unfold with_state_def split: if_splits)
  qed
qed

lemma trial_cases:
  assumes run: "start_or_continue_trial options c metadata res = (st, res', c')"
  obtains
    (trial) slot ctx where "st = BOOT_SLOT_SELECTION_OK"
      "boot_slot_lookup (candidate_slot metadata) = Some slot"
      "opt_verify_slot options c slot = (BOOT_SLOT_SELECTION_OK, VERIFY_OK, ctx)"
      "boot_metadata_commit (opt_metadata_flash options) c (trial_next options metadata) =
         (BOOT_METADATA_OK, c')"
      "valid_step metadata (trial_next options metadata)"
      "state metadata = BOOT_METADATA_STATE_CANDIDATE_READY \<or> 0 < boot_attempt_count metadata"
      "res_decision res' = BOOT_SLOT_SELECTION_DECISION_TRIAL"
      "res_selected_slot res' = candidate_slot metadata" "res_jump_context res' = ctx"
      "res_attempts_remaining_after res' = boot_attempt_count (trial_next options metadata)"
  | (fallback) res1 where "fallback_to_confirmed options c' metadata res1 = (st, res')"
      "res_decision res1 = res_decision res" "trial_tried options metadata c c'"
proof (cases "boot_slot_lookup (candidate_slot metadata)")
  case None
  with run have "fallback_to_confirmed options c' metadata
      (res\<lparr>res_fallback_cause := BOOT_SLOT_SELECTION_ERR_SLOT\<rparr>) = (st, res')" "c' = c"
    by (auto simp: start_or_continue_trial_def with_state_def)
  then show ?thesis
    using fallback [of "res\<lparr>res_fallback_cause := BOOT_SLOT_SELECTION_ERR_SLOT\<rparr>"]
    by (simp add: trial_tried_def)
next
  case (Some slot)
  obtain vs v ctx where ver: "verify_slot options c slot
      BOOT_SLOT_SELECTION_FAULT_VERIFY_CANDIDATE = (vs, v, ctx)" by (metis prod_cases3)
  show ?thesis
  proof (cases "vs = BOOT_SLOT_SELECTION_OK \<and>
      (state metadata = BOOT_METADATA_STATE_CANDIDATE_READY \<or> 0 < boot_attempt_count metadata)")
    case True
    with ver have ver': "verify_slot options c slot BOOT_SLOT_SELECTION_FAULT_VERIFY_CANDIDATE =
      (BOOT_SLOT_SELECTION_OK, v, ctx)" by simp
    from trial_commit [OF Some ver' conjunct2 [OF True] run] verify_slot_ok [OF ver'] True Some
    show ?thesis using trial [of slot ctx] fallback by auto
  next
    case False
    let ?go = "\<lambda>code res1. with_state (reject_invalid_best_effort options c metadata code)
      (fallback_to_confirmed options (reject_invalid_best_effort options c metadata code)
         metadata res1)"
    let ?r = "res\<lparr>res_candidate_verify_status := v\<rparr>"
    from False run Some ver have "?go 2 (?r\<lparr>res_fallback_cause := vs\<rparr>) = (st, res', c') \<or>
        ?go 1 (?r\<lparr>res_fallback_cause := BOOT_SLOT_SELECTION_ERR_NO_BOOTABLE_SLOT\<rparr>) = (st, res', c')"
      by (auto simp: start_or_continue_trial_def Let_def split: if_splits)
    with reject_tried [of options metadata c]
      fallback [of "?r\<lparr>res_fallback_cause := vs\<rparr>"]
      fallback [of "?r\<lparr>res_fallback_cause := BOOT_SLOT_SELECTION_ERR_NO_BOOTABLE_SLOT\<rparr>"]
    show ?thesis by (auto simp: with_state_def)
  qed
qed

section \<open>Selection\<close>

text \<open>The cases of a selection that recovered a record.\<close>

lemma select_cases:
  assumes run: "boot_slot_selection_select options c = (st, res, c')"
  obtains
    (unreadable) "c' = c" "st \<noteq> BOOT_SLOT_SELECTION_OK"
      "res_decision res \<noteq> BOOT_SLOT_SELECTION_DECISION_TRIAL"
  | (confirmed) metadata v res0 where
      "boot_metadata_recover_from_flash (opt_metadata_flash options) c =
         (BOOT_METADATA_OK, Some (metadata, v))"
      "state metadata = BOOT_METADATA_STATE_CONFIRMED" "c' = c"
      "select_confirmed_slot options c metadata BOOT_SLOT_SELECTION_DECISION_CONFIRMED res0 = (st, res)"
      "res_decision res0 = BOOT_SLOT_SELECTION_DECISION_NONE"
  | (candidate) metadata v res0 where
      "boot_metadata_recover_from_flash (opt_metadata_flash options) c =
         (BOOT_METADATA_OK, Some (metadata, v))"
      "state metadata = BOOT_METADATA_STATE_CANDIDATE_READY \<or>
       state metadata = BOOT_METADATA_STATE_PENDING_TRIAL"
      "start_or_continue_trial options c metadata res0 = (st, res, c')"
      "res_decision res0 = BOOT_SLOT_SELECTION_DECISION_NONE"
  | (rejected) metadata v res0 where
      "boot_metadata_recover_from_flash (opt_metadata_flash options) c =
         (BOOT_METADATA_OK, Some (metadata, v))"
      "state metadata = BOOT_METADATA_STATE_WRITING \<or>
       state metadata = BOOT_METADATA_STATE_REJECTED_INVALID" "c' = c"
      "fallback_to_confirmed options c metadata res0 = (st, res)"
      "res_decision res0 = BOOT_SLOT_SELECTION_DECISION_NONE"
proof -
  obtain ms rc where rec: "boot_metadata_recover_from_flash (opt_metadata_flash options) c = (ms, rc)"
    by fastforce
  show ?thesis
  proof (cases "ms = BOOT_METADATA_OK \<and> rc \<noteq> None")
    case False
    with run rec show ?thesis
      by (cases rc)
        (auto simp: boot_slot_selection_select_def init_result_def split: if_splits intro!: unreadable)
  next
    case True
    then obtain metadata v where rc: "rc = Some (metadata, v)" and ms: "ms = BOOT_METADATA_OK" by auto
    note rec' = rec [unfolded rc ms]
    show ?thesis
      by (cases "state metadata")
        (use run rec' in \<open>auto simp: boot_slot_selection_select_def Let_def with_state_def init_result_def
          intro: unreadable confirmed [OF rec'] candidate [OF rec'] rejected [OF rec']\<close>)
  qed
qed

text \<open>A successful selection names a slot that its callback verified, with the context it filled.\<close>

lemma select_ok_verified:
  assumes run: "boot_slot_selection_select options c = (BOOT_SLOT_SELECTION_OK, res, c')"
  shows "\<exists>slot ctx d. boot_slot_lookup (res_selected_slot res) = Some slot \<and>
    (d = c \<or> d = c') \<and>
    opt_verify_slot options d slot = (BOOT_SLOT_SELECTION_OK, VERIFY_OK, ctx) \<and>
    res_jump_context res = ctx"
  using run
proof (cases rule: select_cases)
  case (confirmed metadata v res0)
  with select_confirmed_ok [OF confirmed(4)] show ?thesis by force
next
  case (rejected metadata v res0)
  with fallback_ok [OF rejected(4)] show ?thesis by force
next
  case (candidate metadata v res0)
  from candidate(3) show ?thesis
  proof (cases rule: trial_cases)
    case (trial slot ctx)
    then show ?thesis by auto
  next
    case (fallback res1)
    with fallback_ok [OF fallback(1)] show ?thesis by force
  qed
qed simp

lemma select_trial:
  assumes run: "boot_slot_selection_select options c = (st, res, c')"
    and trial: "res_decision res = BOOT_SLOT_SELECTION_DECISION_TRIAL"
  shows "\<exists>metadata v. boot_metadata_recover_from_flash (opt_metadata_flash options) c =
      (BOOT_METADATA_OK, Some (metadata, v)) \<and>
    (state metadata = BOOT_METADATA_STATE_CANDIDATE_READY \<or>
     state metadata = BOOT_METADATA_STATE_PENDING_TRIAL \<and> 0 < boot_attempt_count metadata) \<and>
    boot_metadata_commit (opt_metadata_flash options) c (trial_next options metadata) =
      (BOOT_METADATA_OK, c') \<and>
    valid_step metadata (trial_next options metadata) \<and>
    res_selected_slot res = candidate_slot metadata"
  using run
proof (cases rule: select_cases)
  case (candidate metadata v res0)
  from candidate(3) show ?thesis
    by (cases rule: trial_cases) (use candidate trial in \<open>auto dest: fallback_decision\<close>)
next
  case (confirmed metadata v res0)
  with trial show ?thesis
    by (auto simp: select_confirmed_slot_def Let_def split: option.splits prod.splits if_splits)
next
  case (rejected metadata v res0)
  with trial show ?thesis by (auto dest: fallback_decision)
qed (use trial in simp)

section \<open>Bounded trials\<close>

text \<open>The trial boots a record still allows.\<close>

definition trial_budget :: "boot_metadata_record \<Rightarrow> nat" where
  "trial_budget r =
     (case state r of
        BOOT_METADATA_STATE_CANDIDATE_READY \<Rightarrow> 3
      | BOOT_METADATA_STATE_PENDING_TRIAL \<Rightarrow> unat (boot_attempt_count r)
      | _ \<Rightarrow> 0)"

lemma canonical_attempts: "state_record_is_canonical r \<Longrightarrow> unat (boot_attempt_count r) \<le> 3"
  by (auto simp: state_record_is_canonical_def word_less_nat_alt split: if_splits)

lemma canonical_budget: "state_record_is_canonical r \<Longrightarrow> trial_budget r \<le> 3"
  using canonical_attempts [of r] by (auto simp: trial_budget_def split: boot_metadata_state.splits)

lemma u32_dec: "0 < (w :: u32) \<Longrightarrow> Suc (unat (w - 1)) = unat w"
  by (subst unat_minus_one) (auto simp: word_less_nat_alt)

lemma trial_next_budget:
  assumes "state r = BOOT_METADATA_STATE_CANDIDATE_READY \<or>
     state r = BOOT_METADATA_STATE_PENDING_TRIAL \<and> 0 < boot_attempt_count r"
  shows "Suc (trial_budget (trial_next options r)) = trial_budget r"
  using assms u32_dec [of "boot_attempt_count r"] by (auto simp: trial_budget_def trial_next_def)

lemma valid_step_budget:
  assumes step: "valid_step r nx"
    and st: "state r = BOOT_METADATA_STATE_CANDIDATE_READY \<or> state r = BOOT_METADATA_STATE_PENDING_TRIAL"
    and nx: "state nx \<in> {BOOT_METADATA_STATE_REJECTED_INVALID, BOOT_METADATA_STATE_PENDING_TRIAL}"
  shows "trial_budget nx \<le> trial_budget r"
proof -
  note v = validate_transition_ok [OF step [unfolded valid_step_def]]
  have "unat (boot_attempt_count nx) \<le> 3" using canonical_attempts [OF v(1)] .
  moreover have "unat (boot_attempt_count nx) \<le> unat (boot_attempt_count r)"
    if "state r = BOOT_METADATA_STATE_PENDING_TRIAL" "state nx = BOOT_METADATA_STATE_PENDING_TRIAL"
  proof -
    have "boot_attempt_count r \<noteq> 0" "boot_attempt_count nx = boot_attempt_count r - 1"
      using v(5) that by (auto simp: transition_fields_allowed_def eq_diff_eq split: if_splits)
    then show ?thesis by (simp add: unat_minus_one)
  qed
  ultimately show ?thesis using st nx by (auto simp: trial_budget_def)
qed

text \<open>Repeated boots with the same journal, each with its own callback, hook and reset result.\<close>

fun boots ::
    "'c boot_slot_selection_options list \<Rightarrow> 'c \<Rightarrow> boot_slot_selection_decision list \<times> 'c" where
  "boots [] c = ([], c)"
| "boots (options # rest) c =
     (case boot_slot_selection_select options c of
        (st, res, c1) \<Rightarrow> (case boots rest c1 of (ds, c2) \<Rightarrow> (res_decision res # ds, c2)))"

definition trial_boots :: "boot_slot_selection_decision list \<Rightarrow> nat" where
  "trial_boots ds = length (filter (\<lambda>d. d = BOOT_SLOT_SELECTION_DECISION_TRIAL) ds)"

context journal_device
begin

lemma select_budget:
  assumes flash: "opt_metadata_flash options = flash" and good: "healthy c"
    and view: "journal_view (boot_metadata_recover_from_flash flash c) = (BOOT_METADATA_OK, Some r)"
    and run: "boot_slot_selection_select options c = (st, res, c')"
  shows "healthy c' \<and> (\<exists>r'.
    journal_view (boot_metadata_recover_from_flash flash c') = (BOOT_METADATA_OK, Some r') \<and>
    trial_budget r' + (if res_decision res = BOOT_SLOT_SELECTION_DECISION_TRIAL then 1 else 0)
      \<le> trial_budget r)"
proof (cases "res_decision res = BOOT_SLOT_SELECTION_DECISION_TRIAL")
  case True
  from select_trial [OF run True] flash obtain m v where
    m: "boot_metadata_recover_from_flash flash c = (BOOT_METADATA_OK, Some (m, v))"
      "state m = BOOT_METADATA_STATE_CANDIDATE_READY \<or>
       state m = BOOT_METADATA_STATE_PENDING_TRIAL \<and> 0 < boot_attempt_count m"
    and com: "boot_metadata_commit flash c (trial_next options m) = (BOOT_METADATA_OK, c')" by auto
  from m(1) view have "m = r" by (simp add: journal_view_def)
  with trial_next_budget [OF m(2), of options] commit_good [OF good com] commit_ok_view [OF good com] True
  show ?thesis by auto
next
  case False
  have unchanged: ?thesis if "c' = c" using that good view False by auto
  from run show ?thesis
  proof (cases rule: select_cases)
    case (candidate m v res0)
    with view flash have mr: "m = r" by (simp add: journal_view_def)
    from candidate(3) show ?thesis
    proof (cases rule: trial_cases)
      case (fallback res1)
      then consider "c' = c" | s nx where "boot_metadata_commit flash c nx = (s, c')" "valid_step m nx"
        "state nx \<in> {BOOT_METADATA_STATE_REJECTED_INVALID, BOOT_METADATA_STATE_PENDING_TRIAL}"
        using flash by (auto simp: trial_tried_def)
      then show ?thesis
      proof cases
        case (2 s nx)
        with commit_history_step [OF good view 2(1)] commit_good [OF good 2(1)] candidate(2) mr False
        show ?thesis using valid_step_budget [of m nx] by auto
      qed (rule unchanged)
    qed (use False in simp)
  qed (rule unchanged; assumption)+
qed

lemma boots_budget:
  assumes "\<forall>options \<in> set os. opt_metadata_flash options = flash" and "healthy c"
    and "journal_view (boot_metadata_recover_from_flash flash c) = (BOOT_METADATA_OK, Some r)"
    and "boots os c = (ds, c')"
  shows "trial_boots ds \<le> trial_budget r"
  using assms
proof (induction os arbitrary: c r ds c')
  case (Cons options rest)
  obtain st res c1 where run: "boot_slot_selection_select options c = (st, res, c1)"
    by (metis prod_cases3)
  from select_budget [OF _ Cons.prems(2,3) run] Cons.prems(1) obtain r' where
    r': "healthy c1" "journal_view (boot_metadata_recover_from_flash flash c1) = (BOOT_METADATA_OK, Some r')"
      "trial_budget r' + (if res_decision res = BOOT_SLOT_SELECTION_DECISION_TRIAL then 1 else 0)
        \<le> trial_budget r" by auto
  obtain ds' c2 where rest: "boots rest c1 = (ds', c2)" by fastforce
  with Cons.IH [OF _ r'(1,2) rest] Cons.prems(1,4) run r'(3) show ?case
    by (auto simp: trial_boots_def split: if_splits)
qed (simp add: trial_boots_def)

end

section \<open>Properties\<close>

text \<open>
  C19. A trial is paid for before it starts: when the selection decides for a trial, the journal
  already holds the record with one attempt less, and the selected slot is its candidate.
\<close>

theorem trial_recorded_first:
  assumes flash: "opt_metadata_flash options = metadata_flash" and good: "host_healthy c"
    and run: "boot_slot_selection_select options c = (st, res, c')"
    and trial: "res_decision res = BOOT_SLOT_SELECTION_DECISION_TRIAL"
  shows "\<exists>r. journal_view (boot_metadata_recover_from_flash metadata_flash c) = (BOOT_METADATA_OK, Some r) \<and>
    journal_view (boot_metadata_recover_from_flash metadata_flash c') =
      (BOOT_METADATA_OK, Some (trial_next options r)) \<and>
    trial_budget r = Suc (trial_budget (trial_next options r)) \<and>
    res_selected_slot res = candidate_slot r"
proof -
  from select_trial [OF run trial] flash obtain r v where
    r: "boot_metadata_recover_from_flash metadata_flash c = (BOOT_METADATA_OK, Some (r, v))"
    "state r = BOOT_METADATA_STATE_CANDIDATE_READY \<or>
     state r = BOOT_METADATA_STATE_PENDING_TRIAL \<and> 0 < boot_attempt_count r"
    "boot_metadata_commit metadata_flash c (trial_next options r) = (BOOT_METADATA_OK, c')"
    "res_selected_slot res = candidate_slot r" by auto
  with target_journal.commit_ok_view [OF good r(3)] trial_next_budget [OF r(2), of options]
  show ?thesis by (auto simp: journal_view_def)
qed

text \<open>
  C18. At most three trial boots: over any sequence of boots of a candidate that is not confirmed,
  with any verification results, injected faults, reset causes and failing commits, the number
  of boots that start the candidate is at most the budget of the initial record, which is at
  most three.
\<close>

theorem trial_boots_bounded:
  assumes flash: "\<forall>options \<in> set os. opt_metadata_flash options = metadata_flash"
    and good: "host_healthy c"
    and view: "boot_metadata_recover_from_flash metadata_flash c = (BOOT_METADATA_OK, Some (r, v))"
  shows "trial_boots (fst (boots os c)) \<le> trial_budget r \<and> trial_budget r \<le> 3"
proof -
  have "journal_view (boot_metadata_recover_from_flash metadata_flash c) = (BOOT_METADATA_OK, Some r)"
    by (simp add: journal_view_def view)
  from target_journal.boots_budget [OF flash good this, of "fst (boots os c)" "snd (boots os c)"]
  show ?thesis using canonical_budget target_journal.recover_canonical [OF good view] by simp
qed

text \<open>
  An interrupted or rejected update never boots: with a journal in state WRITING or
  REJECTED\_INVALID the selection writes nothing, and if it selects a slot it is the active one,
  as a fallback.
\<close>

theorem interrupted_update_falls_back:
  assumes rec: "boot_metadata_recover_from_flash (opt_metadata_flash options) c =
      (BOOT_METADATA_OK, Some (r, v))"
    and st: "state r \<in> {BOOT_METADATA_STATE_WRITING, BOOT_METADATA_STATE_REJECTED_INVALID}"
    and run: "boot_slot_selection_select options c = (s, res, c')"
  shows "c' = c \<and> (s = BOOT_SLOT_SELECTION_OK \<longrightarrow>
    res_decision res = BOOT_SLOT_SELECTION_DECISION_FALLBACK \<and>
    res_selected_slot res = active_slot r \<and> active_slot r \<noteq> BOOT_SLOT_NONE)"
proof -
  obtain res0 where "c' = c" "fallback_to_confirmed options c r res0 = (s, res)"
    using run rec st
    by (auto simp: boot_slot_selection_select_def Let_def with_state_def)
  then show ?thesis by (auto dest!: fallback_ok)
qed

end
