(* ===== verification/Boot_Confirmation.thy ===== *)
theory Boot_Confirmation
  imports Metadata_Journal
begin

text \<open>
  Confirmation of the running slot (\<^verbatim>\<open>boot_confirmation.h\<close>, \<^verbatim>\<open>boot_confirmation.c\<close>), called by
  the application once its health gate has passed.

  Lemmas: a confirmation succeeds only for the slot that is on trial (or already confirmed),
  and then the journal holds it as the confirmed slot.
\<close>

datatype boot_confirm_status =
    BOOT_CONFIRM_OK
  | BOOT_CONFIRM_ERR_INVALID_ARGUMENT
  | BOOT_CONFIRM_ERR_METADATA
  | BOOT_CONFIRM_ERR_AMBIGUOUS_METADATA
  | BOOT_CONFIRM_ERR_SLOT
  | BOOT_CONFIRM_ERR_NOT_PENDING
  | BOOT_CONFIRM_ERR_COMMIT

record boot_confirm_result =
  confirm_slot :: u32
  confirm_image_version :: u32
  confirm_already :: bool
  confirm_metadata_before :: "boot_metadata_record option"
  confirm_metadata_recovery :: "boot_metadata_recovery option"

definition init_confirm_result :: boot_confirm_result where
  "init_confirm_result =
     \<lparr>confirm_slot = BOOT_SLOT_NONE, confirm_image_version = 0, confirm_already = False,
      confirm_metadata_before = None, confirm_metadata_recovery = None\<rparr>"

definition boot_confirm_slot_from_vector_address :: "u32 \<Rightarrow> boot_confirm_status \<times> u32" where
  "boot_confirm_slot_from_vector_address vector =
     (case boot_slot_lookup (slot_num BOOT_SLOT_A) of
        Some slot \<Rightarrow>
          if payload_base slot = vector then (BOOT_CONFIRM_OK, slot_num (slot_id slot))
          else (case boot_slot_lookup (slot_num BOOT_SLOT_B) of
                  Some slot' \<Rightarrow>
                    if payload_base slot' = vector
                    then (BOOT_CONFIRM_OK, slot_num (slot_id slot'))
                    else (BOOT_CONFIRM_ERR_SLOT, BOOT_SLOT_NONE)
                | None \<Rightarrow> (BOOT_CONFIRM_ERR_SLOT, BOOT_SLOT_NONE))
      | None \<Rightarrow>
          (case boot_slot_lookup (slot_num BOOT_SLOT_B) of
             Some slot' \<Rightarrow>
               if payload_base slot' = vector
               then (BOOT_CONFIRM_OK, slot_num (slot_id slot'))
               else (BOOT_CONFIRM_ERR_SLOT, BOOT_SLOT_NONE)
           | None \<Rightarrow> (BOOT_CONFIRM_ERR_SLOT, BOOT_SLOT_NONE)))"

definition boot_confirm_current_slot ::
    "'c boot_flash \<Rightarrow> 'c \<Rightarrow> u32 \<Rightarrow> boot_confirm_status \<times> boot_confirm_result \<times> 'c" where
  "boot_confirm_current_slot flash c running_slot =
     (case boot_slot_lookup running_slot of
        None \<Rightarrow> (BOOT_CONFIRM_ERR_SLOT, init_confirm_result, c)
      | Some _ \<Rightarrow>
          (case boot_metadata_recover_from_flash flash c of
             (metadata_status, recovered) \<Rightarrow>
               if metadata_status = BOOT_METADATA_ERR_AMBIGUOUS
               then (BOOT_CONFIRM_ERR_AMBIGUOUS_METADATA, init_confirm_result, c)
               else if metadata_status \<noteq> BOOT_METADATA_OK
               then (BOOT_CONFIRM_ERR_METADATA, init_confirm_result, c)
               else case recovered of
                 None \<Rightarrow> (BOOT_CONFIRM_ERR_METADATA, init_confirm_result, c)
               | Some (metadata, recovery) \<Rightarrow>
                   (let result = init_confirm_result\<lparr>confirm_metadata_before := Some metadata,
                                   confirm_metadata_recovery := Some recovery\<rparr>
                    in if state metadata = BOOT_METADATA_STATE_CONFIRMED \<and>
                          active_slot metadata = running_slot \<and>
                          candidate_slot metadata = BOOT_SLOT_NONE \<and>
                          confirmation_state metadata = 1
                       then (BOOT_CONFIRM_OK,
                             result\<lparr>confirm_already := True, confirm_slot := running_slot,
                                    confirm_image_version := candidate_image_version metadata\<rparr>, c)
                       else if state metadata \<noteq> BOOT_METADATA_STATE_PENDING_TRIAL \<or>
                               candidate_slot metadata \<noteq> running_slot \<or>
                               confirmation_state metadata \<noteq> 0
                       then (BOOT_CONFIRM_ERR_NOT_PENDING, result, c)
                       else case boot_metadata_prepare_next metadata
                                   BOOT_METADATA_STATE_CONFIRMED running_slot BOOT_SLOT_NONE
                                   (candidate_image_version metadata) 0 1 0 of
                         Inl _ \<Rightarrow> (BOOT_CONFIRM_ERR_NOT_PENDING, result, c)
                       | Inr confirmed \<Rightarrow>
                           (case boot_metadata_commit flash c confirmed of
                              (commit_status, c') \<Rightarrow>
                                if commit_status \<noteq> BOOT_METADATA_OK
                                then (BOOT_CONFIRM_ERR_COMMIT, result, c')
                                else (BOOT_CONFIRM_OK,
                                      result\<lparr>confirm_slot := running_slot,
                                             confirm_image_version := candidate_image_version metadata,
                                             confirm_already := False\<rparr>, c')))))"

section \<open>Outcomes\<close>

text \<open>A confirmation writes at most one record, and only for the candidate on trial.\<close>

lemma confirm_cases:
  assumes run: "boot_confirm_current_slot flash c running = (st, res, c')"
  obtains
    (refused) "c' = c" "st \<noteq> BOOT_CONFIRM_OK"
  | (already) metadata v where "c' = c" "st = BOOT_CONFIRM_OK"
      "boot_metadata_recover_from_flash flash c = (BOOT_METADATA_OK, Some (metadata, v))"
      "state metadata = BOOT_METADATA_STATE_CONFIRMED" "active_slot metadata = running"
      "confirm_already res"
  | (confirmed) metadata v nx s where
      "boot_metadata_recover_from_flash flash c = (BOOT_METADATA_OK, Some (metadata, v))"
      "state metadata = BOOT_METADATA_STATE_PENDING_TRIAL" "candidate_slot metadata = running"
      "boot_metadata_prepare_next metadata BOOT_METADATA_STATE_CONFIRMED running BOOT_SLOT_NONE
         (candidate_image_version metadata) 0 1 0 = Inr nx"
      "boot_metadata_commit flash c nx = (s, c')"
      "st = BOOT_CONFIRM_OK \<longleftrightarrow> s = BOOT_METADATA_OK"
      "st = BOOT_CONFIRM_OK \<Longrightarrow> \<not> confirm_already res"
proof -
  obtain ms rc where rec: "boot_metadata_recover_from_flash flash c = (ms, rc)" by fastforce
  show ?thesis
  proof (cases "boot_slot_lookup running = None \<or> ms \<noteq> BOOT_METADATA_OK \<or> rc = None")
    case True
    with run rec show ?thesis
      by (intro refused) (auto simp: boot_confirm_current_slot_def split: option.splits if_splits)
  next
    case False
    then obtain slot metadata v where ok: "boot_slot_lookup running = Some slot"
      "rc = Some (metadata, v)" "ms = BOOT_METADATA_OK" by auto
    note rec' = rec [unfolded ok]
    let ?prep = "boot_metadata_prepare_next metadata BOOT_METADATA_STATE_CONFIRMED running BOOT_SLOT_NONE
         (candidate_image_version metadata) 0 1 0"
    note unfold = boot_confirm_current_slot_def ok(1) rec' Let_def
    show ?thesis
    proof (cases ?prep)
      case (Inl e)
      with run show ?thesis
        by (auto simp: unfold split: if_splits intro: refused already [OF _ _ rec'])
    next
      case (Inr nx)
      with run show ?thesis
        by (auto simp: unfold split: if_splits prod.splits
            intro: refused already [OF _ _ rec'] confirmed [OF rec' _ _ Inr])
    qed
  qed
qed

text \<open>
  Confirmation on the target: when the call reports success, the journal afterwards holds a
  confirmed record for the running slot, and before the call that slot was either already
  confirmed or was the candidate of a pending trial.
\<close>

theorem confirm_only_running_candidate:
  assumes good: "host_healthy c"
    and run: "boot_confirm_current_slot metadata_flash c running = (BOOT_CONFIRM_OK, res, c')"
  shows "\<exists>r r'.
    journal_view (boot_metadata_recover_from_flash metadata_flash c) = (BOOT_METADATA_OK, Some r) \<and>
    (state r = BOOT_METADATA_STATE_CONFIRMED \<and> active_slot r = running \<or>
     state r = BOOT_METADATA_STATE_PENDING_TRIAL \<and> candidate_slot r = running) \<and>
    journal_view (boot_metadata_recover_from_flash metadata_flash c') = (BOOT_METADATA_OK, Some r') \<and>
    state r' = BOOT_METADATA_STATE_CONFIRMED \<and> active_slot r' = running \<and>
    candidate_image_version r' = candidate_image_version r"
  using run
proof (cases rule: confirm_cases)
  case (already metadata v)
  then show ?thesis by (auto simp: journal_view_def)
next
  case (confirmed metadata v nx s)
  then have "boot_metadata_commit metadata_flash c nx = (BOOT_METADATA_OK, c')" by simp
  from target_journal.commit_ok_view [OF good this] confirmed(1-3) prepare_next_ok(2) [OF confirmed(4)]
  show ?thesis by (auto simp: journal_view_def)
qed simp

end
