(* ===== verification/Boot_Policy.thy ===== *)
theory Boot_Policy
  imports Boot_Slot_Selection Boot_Confirmation
begin

text \<open>
  The boot policy of the target (\<^verbatim>\<open>reset_cause.c\<close>, \<^verbatim>\<open>boot_mode.c\<close>, \<^verbatim>\<open>recovery_policy.c\<close>,
  \<^verbatim>\<open>boot_policy.c\<close>, \<^verbatim>\<open>boot_sequence.c\<close>) on the driver of \<^verbatim>\<open>boot_flash_target.c\<close>. The flash
  array is read through \<open>host_view\<close>, the way the target reads its memory-mapped flash. The
  reset flags are the value of the register \<^verbatim>\<open>RCC_CSR\<close>. The boot sequence returns the trace
  of its visible actions and its outcome; the printed performance figures are one event.
\<close>

section \<open>Reset cause\<close>

record reset_cause =
  raw_csr :: u32
  low_power_reset :: bool
  window_watchdog_reset :: bool
  independent_watchdog_reset :: bool
  software_reset :: bool
  power_on_reset :: bool
  pin_reset :: bool
  brownout_reset :: bool

datatype reset_cause_kind =
    RESET_CAUSE_KIND_NONE
  | RESET_CAUSE_KIND_IWDG
  | RESET_CAUSE_KIND_WWDG
  | RESET_CAUSE_KIND_SOFTWARE
  | RESET_CAUSE_KIND_BROWNOUT
  | RESET_CAUSE_KIND_PIN
  | RESET_CAUSE_KIND_POWER_ON
  | RESET_CAUSE_KIND_LOW_POWER
  | RESET_CAUSE_KIND_UNKNOWN

abbreviation (input) RCC_CSR_RMVF :: u32 where "RCC_CSR_RMVF \<equiv> 0x01000000"
abbreviation (input) RCC_CSR_BORRSTF :: u32 where "RCC_CSR_BORRSTF \<equiv> 0x02000000"
abbreviation (input) RCC_CSR_PINRSTF :: u32 where "RCC_CSR_PINRSTF \<equiv> 0x04000000"
abbreviation (input) RCC_CSR_PORRSTF :: u32 where "RCC_CSR_PORRSTF \<equiv> 0x08000000"
abbreviation (input) RCC_CSR_SFTRSTF :: u32 where "RCC_CSR_SFTRSTF \<equiv> 0x10000000"
abbreviation (input) RCC_CSR_IWDGRSTF :: u32 where "RCC_CSR_IWDGRSTF \<equiv> 0x20000000"
abbreviation (input) RCC_CSR_WWDGRSTF :: u32 where "RCC_CSR_WWDGRSTF \<equiv> 0x40000000"
abbreviation (input) RCC_CSR_LPWRRSTF :: u32 where "RCC_CSR_LPWRRSTF \<equiv> 0x80000000"
abbreviation (input) RESET_KNOWN_FLAGS :: u32 where "RESET_KNOWN_FLAGS \<equiv> 0xFE000000"

definition flag_is_set :: "u32 \<Rightarrow> u32 \<Rightarrow> bool" where
  "flag_is_set v m \<longleftrightarrow> v AND m \<noteq> 0"

definition reset_cause_capture :: "u32 \<Rightarrow> reset_cause" where
  "reset_cause_capture csr =
     \<lparr>raw_csr = csr,
      low_power_reset = flag_is_set csr RCC_CSR_LPWRRSTF,
      window_watchdog_reset = flag_is_set csr RCC_CSR_WWDGRSTF,
      independent_watchdog_reset = flag_is_set csr RCC_CSR_IWDGRSTF,
      software_reset = flag_is_set csr RCC_CSR_SFTRSTF,
      power_on_reset = flag_is_set csr RCC_CSR_PORRSTF,
      pin_reset = flag_is_set csr RCC_CSR_PINRSTF,
      brownout_reset = flag_is_set csr RCC_CSR_BORRSTF\<rparr>"

definition reset_cause_clear :: "u32 \<Rightarrow> u32" where
  "reset_cause_clear csr = csr OR RCC_CSR_RMVF"

definition reset_cause_primary_kind_from_raw :: "u32 \<Rightarrow> reset_cause_kind" where
  "reset_cause_primary_kind_from_raw csr =
     (if csr AND RCC_CSR_IWDGRSTF \<noteq> 0 then RESET_CAUSE_KIND_IWDG
      else if csr AND RCC_CSR_WWDGRSTF \<noteq> 0 then RESET_CAUSE_KIND_WWDG
      else if csr AND RCC_CSR_SFTRSTF \<noteq> 0 then RESET_CAUSE_KIND_SOFTWARE
      else if csr AND RCC_CSR_BORRSTF \<noteq> 0 then RESET_CAUSE_KIND_BROWNOUT
      else if csr AND RCC_CSR_PINRSTF \<noteq> 0 then RESET_CAUSE_KIND_PIN
      else if csr AND RCC_CSR_PORRSTF \<noteq> 0 then RESET_CAUSE_KIND_POWER_ON
      else if csr AND RCC_CSR_LPWRRSTF \<noteq> 0 then RESET_CAUSE_KIND_LOW_POWER
      else if csr AND RESET_KNOWN_FLAGS = 0 then RESET_CAUSE_KIND_NONE
      else RESET_CAUSE_KIND_UNKNOWN)"

definition reset_cause_primary_kind :: "reset_cause option \<Rightarrow> reset_cause_kind" where
  "reset_cause_primary_kind cause =
     (case cause of None \<Rightarrow> RESET_CAUSE_KIND_UNKNOWN
      | Some r \<Rightarrow> reset_cause_primary_kind_from_raw (raw_csr r))"

definition reset_cause_kind_text :: "reset_cause_kind \<Rightarrow> string" where
  "reset_cause_kind_text kind =
     (case kind of
        RESET_CAUSE_KIND_NONE \<Rightarrow> ''NONE''
      | RESET_CAUSE_KIND_IWDG \<Rightarrow> ''IWDG''
      | RESET_CAUSE_KIND_WWDG \<Rightarrow> ''WWDG''
      | RESET_CAUSE_KIND_SOFTWARE \<Rightarrow> ''SOFTWARE''
      | RESET_CAUSE_KIND_BROWNOUT \<Rightarrow> ''BROWNOUT''
      | RESET_CAUSE_KIND_PIN \<Rightarrow> ''PIN''
      | RESET_CAUSE_KIND_POWER_ON \<Rightarrow> ''POWER_ON''
      | RESET_CAUSE_KIND_LOW_POWER \<Rightarrow> ''LOW_POWER''
      | RESET_CAUSE_KIND_UNKNOWN \<Rightarrow> ''UNKNOWN'')"

definition reset_cause_trial_result :: "u32 \<Rightarrow> u32" where
  "reset_cause_trial_result csr =
     (case reset_cause_primary_kind_from_raw csr of
        RESET_CAUSE_KIND_IWDG \<Rightarrow> 0x1001
      | RESET_CAUSE_KIND_WWDG \<Rightarrow> 0x1002
      | RESET_CAUSE_KIND_SOFTWARE \<Rightarrow> 0x1003
      | RESET_CAUSE_KIND_BROWNOUT \<Rightarrow> 0x1004
      | RESET_CAUSE_KIND_PIN \<Rightarrow> 0x1005
      | RESET_CAUSE_KIND_POWER_ON \<Rightarrow> 0x1006
      | RESET_CAUSE_KIND_LOW_POWER \<Rightarrow> 0x1007
      | RESET_CAUSE_KIND_NONE \<Rightarrow> 0
      | RESET_CAUSE_KIND_UNKNOWN \<Rightarrow> 0x10FF)"

section \<open>Mode and recovery policy\<close>

datatype boot_mode = BOOT_MODE_NORMAL | BOOT_MODE_RECOVERY

datatype recovery_policy_status = RECOVERY_POLICY_NOT_REQUESTED | RECOVERY_POLICY_UNAVAILABLE

definition boot_mode_detect :: boot_mode where
  "boot_mode_detect = BOOT_MODE_NORMAL"

definition recovery_policy_evaluate :: "boot_mode \<Rightarrow> recovery_policy_status" where
  "recovery_policy_evaluate mode =
     (if mode = BOOT_MODE_RECOVERY then RECOVERY_POLICY_UNAVAILABLE
      else RECOVERY_POLICY_NOT_REQUESTED)"

section \<open>Slot policy\<close>

definition slot_manifest :: "(nat \<Rightarrow> u8) \<Rightarrow> boot_slot_descriptor \<Rightarrow> bytes" where
  "slot_manifest mem slot = mem_range mem (unat (manifest_address slot)) SIGNED_MANIFEST_SIZE"

definition slot_signature :: "(nat \<Rightarrow> u8) \<Rightarrow> boot_slot_descriptor \<Rightarrow> bytes" where
  "slot_signature mem slot = mem_range mem (unat (signature_address slot)) SIGNED_SIGNATURE_SIZE"

definition slot_payload :: "(nat \<Rightarrow> u8) \<Rightarrow> boot_slot_descriptor \<Rightarrow> bytes" where
  "slot_payload mem slot =
     mem_range mem (unat (payload_base slot)) (unat (maximum_payload_size slot))"

definition verify_target_slot ::
    "'h crypto \<Rightarrow> bytes \<Rightarrow> host_context \<Rightarrow> boot_slot_descriptor \<Rightarrow> slot_verdict" where
  "verify_target_slot crypt firmware_public_key c slot =
     (let mem = host_view c;
          verify_status =
            signed_image_verify_update_slot_buffer crypt (slot_manifest mem slot)
              (slot_signature mem slot) (slot_payload mem slot)
              (unat (maximum_payload_size slot)) firmware_public_key slot
      in if verify_status \<noteq> VERIFY_OK
         then (BOOT_SLOT_SELECTION_ERR_VERIFY, verify_status, None)
         else case signed_image_prepare_update_slot_buffer (slot_manifest mem slot)
                     (slot_payload mem slot) (unat (maximum_payload_size slot)) slot of
           Inl status \<Rightarrow> (BOOT_SLOT_SELECTION_ERR_VERIFY, status, None)
         | Inr context \<Rightarrow> (BOOT_SLOT_SELECTION_OK, VERIFY_OK, Some context))"

definition boot_policy_options ::
    "'h crypto \<Rightarrow> bytes \<Rightarrow> host_context boot_flash \<Rightarrow> u32 \<Rightarrow>
     host_context boot_slot_selection_options" where
  "boot_policy_options crypt firmware_public_key flash reset_csr =
     \<lparr>opt_metadata_flash = flash,
      opt_verify_slot = verify_target_slot crypt firmware_public_key,
      opt_fault_hook = None,
      opt_trial_reset_result = reset_cause_trial_result reset_csr\<rparr>"

text \<open>The result record is left as the caller had it when the flash object cannot be made.\<close>

definition boot_policy_select ::
    "'h crypto \<Rightarrow> bytes \<Rightarrow> host_context \<Rightarrow> u32 \<Rightarrow>
     boot_slot_selection_status \<times> boot_slot_selection_result option \<times> host_context" where
  "boot_policy_select crypt firmware_public_key c reset_csr =
     (case boot_flash_target_init_metadata of
        Inl _ \<Rightarrow> (BOOT_SLOT_SELECTION_ERR_METADATA, None, c)
      | Inr flash \<Rightarrow>
          (case boot_slot_selection_select
                  (boot_policy_options crypt firmware_public_key flash reset_csr) c of
             (status, result, c') \<Rightarrow> (status, Some result, c')))"

section \<open>Boot sequence\<close>

datatype boot_led_state = BOOT_LED_STATE_BOOTING | BOOT_LED_STATE_VERIFYING
  | BOOT_LED_STATE_RECOVERY | BOOT_LED_STATE_FATAL

datatype boot_event =
    WATCHDOG_REFRESH
  | PERFORMANCE_INIT
  | LED_INIT
  | LED_INDICATE boot_led_state
  | LED_ALL_OFF
  | DELAY nat
  | BANNER
  | RESET_CAUSE_PRINT reset_cause
  | MODE_PRINT boot_mode recovery_policy_status
  | MEASUREMENTS_RESET
  | SELECTION_PRINT boot_slot_selection_status "boot_slot_selection_result option"
  | PERFORMANCE_PRINT
  | UART_PUTS string
  | RESET_CAUSE_CLEAR

datatype boot_outcome =
    BOOT_HALTED
  | BOOT_RECOVERY_MODE
  | BOOT_JUMP verify_status "cpu_effect list"

definition zero_jump_context :: signed_image_jump_context where
  "zero_jump_context =
     \<lparr>ctx_vector_address = 0, ctx_image_size = 0, ctx_payload_end = 0, ctx_initial_msp = 0,
      ctx_reset_vector = 0, ctx_reset_address = 0\<rparr>"

text \<open>
  A context that the selection did not fill is the zeroed one of \<^verbatim>\<open>init_result\<close>. After a jump that
  returned the LED halt is entered; its outcome is the jump with no effects.
\<close>

definition boot_sequence_execute ::
    "'h crypto \<Rightarrow> bytes \<Rightarrow> host_context \<Rightarrow> u32 \<Rightarrow>
     boot_event list \<times> boot_outcome \<times> host_context" where
  "boot_sequence_execute crypt firmware_public_key c csr =
     (let cause = reset_cause_capture csr;
          mode = boot_mode_detect;
          recovery_status = recovery_policy_evaluate mode;
          start = [WATCHDOG_REFRESH, PERFORMANCE_INIT, LED_INIT,
                   LED_INDICATE BOOT_LED_STATE_BOOTING, DELAY 700000, WATCHDOG_REFRESH,
                   LED_ALL_OFF, BANNER, RESET_CAUSE_PRINT cause, MODE_PRINT mode recovery_status]
      in if recovery_status = RECOVERY_POLICY_UNAVAILABLE
         then (start @ [UART_PUTS ''Recovery request rejected safely.'',
                        UART_PUTS ''Bootloader halted safely.'',
                        LED_INDICATE BOOT_LED_STATE_RECOVERY], BOOT_HALTED, c)
         else case boot_policy_select crypt firmware_public_key c (raw_csr cause) of
           (status, result, c') \<Rightarrow>
             (let middle = [UART_PUTS ''Selecting boot slot and verifying image...'',
                            LED_INDICATE BOOT_LED_STATE_VERIFYING, MEASUREMENTS_RESET,
                            WATCHDOG_REFRESH, SELECTION_PRINT status result,
                            PERFORMANCE_PRINT, WATCHDOG_REFRESH]
              in if status \<noteq> BOOT_SLOT_SELECTION_OK
                 then (start @ middle @
                         [UART_PUTS ''RECOVERY ENTER reason=boot-policy-failure'',
                          RESET_CAUSE_CLEAR], BOOT_RECOVERY_MODE, c')
                 else let context =
                        (case result of
                           None \<Rightarrow> zero_jump_context
                         | Some r \<Rightarrow> (case res_jump_context r of
                                        None \<Rightarrow> zero_jump_context | Some ctx \<Rightarrow> ctx))
                      in case signed_image_jump (host_view c') context of
                           (jump_status, effects) \<Rightarrow>
                             (start @ middle @
                                [UART_PUTS ''Signature and payload hash accepted.'',
                                 UART_PUTS ''Jumping to application...'', LED_ALL_OFF,
                                 DELAY 4000000, WATCHDOG_REFRESH],
                              BOOT_JUMP jump_status effects, c')))"

section \<open>Bootable slots\<close>

definition slot_bootable ::
    "'h crypto \<Rightarrow> bytes \<Rightarrow> (nat \<Rightarrow> u8) \<Rightarrow> boot_slot_descriptor \<Rightarrow> bool" where
  "slot_bootable crypt pk mem slot \<longleftrightarrow>
     image_ok (decode_manifest_bytes (slot_manifest mem slot)) (slot_policy slot)
       (slot_payload mem slot) \<and>
     image_authentic crypt (slot_manifest mem slot) (slot_signature mem slot)
       (slot_payload mem slot) pk"

definition slot_entry :: "(nat \<Rightarrow> u8) \<Rightarrow> boot_slot_descriptor \<Rightarrow> u32" where
  "slot_entry mem slot = flash_word mem (unat (payload_base slot) + 4)"

definition in_slot :: "boot_slot_descriptor \<Rightarrow> nat \<Rightarrow> bool" where
  "in_slot slot n \<longleftrightarrow> unat (signed_image_base slot) \<le> n \<and> n < unat (slot_end slot)"

lemma slot_parts_in_slot:
  assumes "slot = boot_slot_a \<or> slot = boot_slot_b"
  shows "i < 96 \<Longrightarrow> in_slot slot (unat (manifest_address slot) + i)"
    "i < 64 \<Longrightarrow> in_slot slot (unat (signature_address slot) + i)"
    "i < unat (maximum_payload_size slot) \<Longrightarrow> in_slot slot (unat (payload_base slot) + i)"
    "in_slot slot n \<Longrightarrow> in_flash n \<and> \<not> in_metadata n"
  using assms by (auto simp: in_slot_def boot_slot_rows in_flash_def in_metadata_def)

lemma slot_contents_cong:
  assumes slot: "slot = boot_slot_a \<or> slot = boot_slot_b"
    and same: "\<And>n. in_slot slot n \<Longrightarrow> mem n = mem' n"
  shows "slot_manifest mem slot = slot_manifest mem' slot"
    "slot_signature mem slot = slot_signature mem' slot"
    "slot_payload mem slot = slot_payload mem' slot"
  using slot_parts_in_slot [OF slot] same
  by (auto simp: slot_manifest_def slot_signature_def slot_payload_def mem_range_def)

lemma slot_bootable_cong:
  assumes "slot = boot_slot_a \<or> slot = boot_slot_b" and "\<And>n. in_slot slot n \<Longrightarrow> mem n = mem' n"
  shows "slot_bootable crypt pk mem slot = slot_bootable crypt pk mem' slot"
  using slot_contents_cong [OF assms] by (simp add: slot_bootable_def)

lemma slot_payload_words:
  assumes "slot = boot_slot_a \<or> slot = boot_slot_b"
  shows "load_le32 (slot_payload mem slot) = flash_word mem (unat (payload_base slot))"
    "load_le32 (drop 4 (slot_payload mem slot)) = slot_entry mem slot"
proof -
  have "8 \<le> unat (maximum_payload_size slot)" using assms by (auto simp: boot_slot_rows)
  then show "load_le32 (slot_payload mem slot) = flash_word mem (unat (payload_base slot))"
    "load_le32 (drop 4 (slot_payload mem slot)) = slot_entry mem slot"
    by (auto simp: slot_payload_def slot_entry_def flash_word_def drop_mem_range add.assoc
        intro!: load_le32_cong)
qed

lemma verify_target_slot_ok:
  assumes slot: "slot = boot_slot_a \<or> slot = boot_slot_b"
  shows "verify_target_slot crypt pk c slot = (BOOT_SLOT_SELECTION_OK, v, x) \<longleftrightarrow>
    slot_bootable crypt pk (host_view c) slot \<and> v = VERIFY_OK \<and>
    x = Some (jump_context_of (decode_manifest_bytes (slot_manifest (host_view c) slot))
               (slot_payload (host_view c) slot))"
proof -
  let ?m = "slot_manifest (host_view c) slot" and ?p = "slot_payload (host_view c) slot"
  have size: "image_ok (decode_manifest_bytes ?m) (slot_policy slot) ?p \<Longrightarrow>
      unat (image_size (decode_manifest_bytes ?m)) \<le> unat (maximum_payload_size slot)"
    by (simp add: image_ok_def slot_policy_def)
  show ?thesis
  proof (cases "slot_bootable crypt pk (host_view c) slot")
    case True
    then have "image_ok (decode_manifest_bytes ?m) (slot_policy slot) ?p"
      "image_authentic crypt ?m (slot_signature (host_view c) slot) ?p pk"
      by (simp_all add: slot_bootable_def)
    moreover from this size have "signed_image_prepare_update_slot_buffer ?m ?p
        (unat (maximum_payload_size slot)) slot = Inr (jump_context_of (decode_manifest_bytes ?m) ?p)"
      by (simp add: prepare_slot_iff [OF slot])
    ultimately show ?thesis using True size slot_table_geometry(1) [OF slot]
      by (auto simp: verify_target_slot_def signed_image_verify_update_slot_buffer_def
          verify_buffer_iff Let_def)
  next
    case False
    then show ?thesis
      by (auto simp: verify_target_slot_def signed_image_verify_update_slot_buffer_def
          verify_buffer_iff slot_bootable_def Let_def split: if_splits)
  qed
qed

lemma bootable_context:
  assumes slot: "slot = boot_slot_a \<or> slot = boot_slot_b"
    and boot: "slot_bootable crypt pk mem slot"
  defines "ctx \<equiv> jump_context_of (decode_manifest_bytes (slot_manifest mem slot)) (slot_payload mem slot)"
  shows "validate_jump_context ctx = VERIFY_OK" "context_matches_flash mem ctx"
    "ctx_reset_vector ctx = slot_entry mem slot"
proof -
  from boot have ok: "image_ok (decode_manifest_bytes (slot_manifest mem slot)) (slot_policy slot)
      (slot_payload mem slot)" by (simp add: slot_bootable_def)
  then show "validate_jump_context ctx = VERIFY_OK"
    unfolding ctx_def by (rule prepared_context_valid [OF slot])
  from ok have "vector_address (decode_manifest_bytes (slot_manifest mem slot)) = payload_base slot"
    by (simp add: image_ok_def slot_policy_def)
  then show "context_matches_flash mem ctx" "ctx_reset_vector ctx = slot_entry mem slot"
    using slot_payload_words [OF slot, of mem]
    by (simp_all add: ctx_def context_matches_flash_def jump_context_of_def slot_entry_def)
qed

section \<open>The sequence boots only verified images\<close>

lemma boot_policy_select_eq:
  "boot_policy_select crypt pk c csr =
     (case boot_slot_selection_select (boot_policy_options crypt pk metadata_flash csr) c of
        (status, result, c') \<Rightarrow> (status, Some result, c'))"
  by (simp add: boot_policy_select_def boot_flash_target_init_metadata_eq)

lemma options_simps [simp]:
  "opt_metadata_flash (boot_policy_options crypt pk flash csr) = flash"
  "opt_verify_slot (boot_policy_options crypt pk flash csr) = verify_target_slot crypt pk"
  "opt_fault_hook (boot_policy_options crypt pk flash csr) = None"
  "opt_trial_reset_result (boot_policy_options crypt pk flash csr) = reset_cause_trial_result csr"
  by (simp_all add: boot_policy_options_def)

lemma select_writes:
  assumes "boot_slot_selection_select options c = (st, res, c')"
  shows "c' = c \<or> (\<exists>s nx. boot_metadata_commit (opt_metadata_flash options) c nx = (s, c'))"
  using assms
proof (cases rule: select_cases)
  case (candidate metadata v res0)
  from candidate(3) show ?thesis
    by (cases rule: trial_cases) (auto simp: trial_tried_def)
qed auto

lemma select_keeps_images:
  assumes run: "boot_slot_selection_select (boot_policy_options crypt pk metadata_flash csr) c = (st, res, c')"
    and n: "in_flash n" "\<not> in_metadata n"
  shows "host_view c' n = host_view c n"
  using select_writes [OF run] host_frame.commit_frame [OF metadata_flash_wf(2,1), of c _ _ c' n] n
  by auto

lemma select_ok_bootable:
  assumes run: "boot_slot_selection_select (boot_policy_options crypt pk metadata_flash csr) c =
      (BOOT_SLOT_SELECTION_OK, res, c')"
  obtains slot where "boot_slot_lookup (res_selected_slot res) = Some slot"
    "slot_bootable crypt pk (host_view c') slot"
    "res_jump_context res =
       Some (jump_context_of (decode_manifest_bytes (slot_manifest (host_view c') slot))
              (slot_payload (host_view c') slot))"
proof -
  from select_ok_verified [OF run] obtain slot ctx d where
    slot: "boot_slot_lookup (res_selected_slot res) = Some slot" and d: "d = c \<or> d = c'"
    and ver: "verify_target_slot crypt pk d slot = (BOOT_SLOT_SELECTION_OK, VERIFY_OK, ctx)"
    and ctx: "res_jump_context res = ctx" by auto
  have ab: "slot = boot_slot_a \<or> slot = boot_slot_b" using slot by (auto simp: boot_slot_lookup_Some)
  have same: "host_view d n = host_view c' n" if "in_slot slot n" for n
    using d select_keeps_images [OF run] slot_parts_in_slot(4) [OF ab that] by auto
  note contents = slot_contents_cong [OF ab same] and bootable = slot_bootable_cong [OF ab same]
  from ver ctx have "slot_bootable crypt pk (host_view c') slot"
    "res_jump_context res =
       Some (jump_context_of (decode_manifest_bytes (slot_manifest (host_view c') slot))
              (slot_payload (host_view c') slot))"
    by (auto simp: verify_target_slot_ok [OF ab] contents bootable)
  with slot show ?thesis by (rule that)
qed

text \<open>What a boot does with the flash: a jump starts the selected, verified slot.\<close>

lemma boot_jump_cases:
  assumes "boot_sequence_execute crypt pk c csr = (ev, BOOT_JUMP st effs, c')"
  obtains slot where "slot = boot_slot_a \<or> slot = boot_slot_b"
    "slot_bootable crypt pk (host_view c') slot"
    "(st, effs) = signed_image_jump (host_view c')
       (jump_context_of (decode_manifest_bytes (slot_manifest (host_view c') slot))
         (slot_payload (host_view c') slot))"
proof -
  obtain s res d where sel: "boot_slot_selection_select
      (boot_policy_options crypt pk metadata_flash csr) c = (s, res, d)" by (metis prod_cases3)
  have csr: "raw_csr (reset_cause_capture csr) = csr" by (simp add: reset_cause_capture_def)
  from assms sel have ok: "s = BOOT_SLOT_SELECTION_OK" "d = c'"
    and jump: "(st, effs) = signed_image_jump (host_view c')
      (case res_jump_context res of None \<Rightarrow> zero_jump_context | Some ctx \<Rightarrow> ctx)"
    by (auto simp: boot_sequence_execute_def Let_def boot_policy_select_eq csr
        split: if_splits prod.splits)
  from select_ok_bootable [OF sel [unfolded ok]] obtain slot where
    "boot_slot_lookup (res_selected_slot res) = Some slot"
    "slot_bootable crypt pk (host_view c') slot"
    "res_jump_context res =
       Some (jump_context_of (decode_manifest_bytes (slot_manifest (host_view c') slot))
              (slot_payload (host_view c') slot))" by blast
  with jump show ?thesis by (intro that [of slot]) (auto simp: boot_slot_lookup_Some)
qed

text \<open>
  C1. Secure boot: whatever the flash and the journal hold, and whichever flash operations fail,
  every application entry made by the boot sequence goes to the reset vector of one of the two
  slots, and at that moment the slot holds an image whose manifest, placement and vector table
  are acceptable, whose payload has the signed hash and whose manifest has a valid signature
  under the embedded key.
\<close>

theorem secure_boot:
  assumes run: "boot_sequence_execute crypt pk c csr = (ev, BOOT_JUMP st effs, c')"
    and enter: "ENTER a \<in> set effs"
  shows "\<exists>slot \<in> {boot_slot_a, boot_slot_b}.
    a = slot_entry (host_view c') slot \<and> slot_bootable crypt pk (host_view c') slot"
  using run
proof (cases rule: boot_jump_cases)
  case (1 slot)
  let ?ctx = "jump_context_of (decode_manifest_bytes (slot_manifest (host_view c') slot))
    (slot_payload (host_view c') slot)"
  from 1(3) have effs: "effs = snd (signed_image_jump (host_view c') ?ctx)"
    by (metis snd_conv)
  with enter have "snd (signed_image_jump (host_view c') ?ctx) \<noteq> []" by auto
  from jump_effects [OF this] effs enter have "a = ctx_reset_vector ?ctx"
    by (auto simp: nvic_clear_simps)
  with 1 bootable_context(3) [OF 1(1,2)] show ?thesis by auto
qed

lemma boot_confirmed_run:
  assumes rec: "boot_metadata_recover_from_flash metadata_flash c = (BOOT_METADATA_OK, Some (r, v))"
    and st: "state r = BOOT_METADATA_STATE_CONFIRMED"
    and slot: "boot_slot_lookup (active_slot r) = Some slot"
    and boot: "slot_bootable crypt pk (host_view c) slot"
  shows "\<exists>ev s effs. boot_sequence_execute crypt pk c csr = (ev, BOOT_JUMP s effs, c) \<and>
    effs \<noteq> [] \<and> last effs = ENTER (slot_entry (host_view c) slot)"
proof -
  have ab: "slot = boot_slot_a \<or> slot = boot_slot_b" using slot by (auto simp: boot_slot_lookup_Some)
  let ?ctx = "jump_context_of (decode_manifest_bytes (slot_manifest (host_view c) slot))
    (slot_payload (host_view c) slot)"
  have "verify_target_slot crypt pk c slot = (BOOT_SLOT_SELECTION_OK, VERIFY_OK, Some ?ctx)"
    using boot by (simp add: verify_target_slot_ok [OF ab])
  then obtain res where sel: "boot_slot_selection_select
      (boot_policy_options crypt pk metadata_flash csr) c = (BOOT_SLOT_SELECTION_OK, res, c)"
    and ctx: "res_jump_context res = Some ?ctx"
    using rec st slot
    by (auto simp: boot_slot_selection_select_def select_confirmed_slot_def verify_slot_def
        maybe_inject_def with_state_def Let_def)
  note bc = bootable_context [OF ab boot]
  have ne: "snd (signed_image_jump (host_view c) ?ctx) \<noteq> []"
    by (simp add: jump_enters_iff bc)
  obtain s effs where jump: "signed_image_jump (host_view c) ?ctx = (s, effs)" by fastforce
  with jump_effects [OF ne] bc(3) have "effs \<noteq> []" "last effs = ENTER (slot_entry (host_view c) slot)"
    by simp_all
  with sel ctx jump show ?thesis
    by (simp add: boot_sequence_execute_def Let_def boot_policy_select_eq reset_cause_capture_def
        recovery_policy_evaluate_def boot_mode_detect_def)
qed

text \<open>
  A verified confirmed image boots: if the journal recovers to a confirmed record and its
  active slot holds an acceptable, authentic image, the sequence writes nothing and enters the
  application of that slot.
\<close>

theorem confirmed_image_boots:
  assumes rec: "boot_metadata_recover_from_flash metadata_flash c = (BOOT_METADATA_OK, Some (r, v))"
    and st: "state r = BOOT_METADATA_STATE_CONFIRMED"
    and slot: "boot_slot_lookup (active_slot r) = Some slot"
    and boot: "slot_bootable crypt pk (host_view c) slot"
  shows "\<exists>ev s effs. boot_sequence_execute crypt pk c csr = (ev, BOOT_JUMP s effs, c) \<and>
    last effs = ENTER (slot_entry (host_view c) slot)"
  using boot_confirmed_run [OF assms, of csr] by blast

lemma ready_trial_step:
  assumes canon: "state_record_is_canonical r" and st: "state r = BOOT_METADATA_STATE_CANDIDATE_READY"
    and seq: "sequence r < UINT32_MAX - 1"
  shows "boot_metadata_prepare_next r BOOT_METADATA_STATE_PENDING_TRIAL (active_slot r)
    (candidate_slot r) (candidate_image_version r) 2 0 (opt_trial_reset_result options) =
    Inr (trial_next options r)"
proof -
  have "sequence r + 1 \<noteq> 0" "sequence r + 1 \<noteq> UINT32_MAX" "sequence r \<noteq> UINT32_MAX"
    using seq by (auto simp: word_less_nat_alt word_unat_eq_iff unat_word_ariths)
  moreover have "\<not> UINT32_MAX - 1 \<le> sequence r" using seq by simp
  moreover have "candidate_record_is_canonical r" "slot_value_is_valid (active_slot r)"
    "slot_value_is_valid (candidate_slot r)"
    using canon st by (simp_all add: state_record_is_canonical_def split: if_splits)
  ultimately show ?thesis
    using st
    by (simp add: boot_metadata_prepare_next_def Let_def trial_next_def
        boot_metadata_validate_transition_def state_record_is_canonical_def
        candidate_record_is_canonical_def state_value_is_valid_def transition_fields_allowed_def
        split: if_splits)
qed

lemma select_ready_trial:
  fixes csr :: u32
  assumes ff: "host_fault_free c"
    and rec: "boot_metadata_recover_from_flash metadata_flash c = (BOOT_METADATA_OK, Some (r, v))"
    and st: "state r = BOOT_METADATA_STATE_CANDIDATE_READY"
    and seq: "sequence r < UINT32_MAX - 1"
    and slot: "boot_slot_lookup (candidate_slot r) = Some slot"
    and boot: "slot_bootable crypt pk (host_view c) slot"
  defines "options \<equiv> boot_policy_options crypt pk metadata_flash csr"
  shows "\<exists>res c'. boot_slot_selection_select options c = (BOOT_SLOT_SELECTION_OK, res, c') \<and>
    res_decision res = BOOT_SLOT_SELECTION_DECISION_TRIAL \<and>
    res_jump_context res = Some (jump_context_of
      (decode_manifest_bytes (slot_manifest (host_view c) slot)) (slot_payload (host_view c) slot)) \<and>
    boot_metadata_commit metadata_flash c (trial_next options r) = (BOOT_METADATA_OK, c')"
proof -
  note good = host_reliable.fault_free_healthy [OF ff]
  have ab: "slot = boot_slot_a \<or> slot = boot_slot_b" using slot by (auto simp: boot_slot_lookup_Some)
  note prep = ready_trial_step [OF target_journal.recover_canonical [OF good rec] st seq, of options]
  from prepare_next_step [OF prep] target_journal_reliable.commit_succeeds [OF ff] rec
  obtain c' where com: "boot_metadata_commit metadata_flash c (trial_next options r) = (BOOT_METADATA_OK, c')"
    by (fastforce simp: commit_base_def)
  have "verify_target_slot crypt pk c slot = (BOOT_SLOT_SELECTION_OK, VERIFY_OK, Some (jump_context_of
      (decode_manifest_bytes (slot_manifest (host_view c) slot)) (slot_payload (host_view c) slot)))"
    using boot by (simp add: verify_target_slot_ok [OF ab])
  moreover have "(if x \<noteq> 0 then x else 0) = x" for x :: u32 by simp
  ultimately show ?thesis
    using rec st slot prep com
    by (simp add: boot_slot_selection_select_def start_or_continue_trial_def verify_slot_def
        maybe_inject_def commit_next_def options_def Let_def cong: if_cong split del: if_split)
qed

lemma ready_candidate_boots:
  assumes ff: "host_fault_free c"
    and rec: "boot_metadata_recover_from_flash metadata_flash c = (BOOT_METADATA_OK, Some (r, v))"
    and st: "state r = BOOT_METADATA_STATE_CANDIDATE_READY"
    and seq: "sequence r < UINT32_MAX - 1"
    and slot: "boot_slot_lookup (candidate_slot r) = Some slot"
    and boot: "slot_bootable crypt pk (host_view c) slot"
  shows "\<exists>ev s effs c' r'. boot_sequence_execute crypt pk c csr = (ev, BOOT_JUMP s effs, c') \<and>
    last effs = ENTER (slot_entry (host_view c) slot) \<and>
    journal_view (boot_metadata_recover_from_flash metadata_flash c') = (BOOT_METADATA_OK, Some r') \<and>
    state r' = BOOT_METADATA_STATE_PENDING_TRIAL \<and> boot_attempt_count r' = 2"
proof -
  have ab: "slot = boot_slot_a \<or> slot = boot_slot_b" using slot by (auto simp: boot_slot_lookup_Some)
  let ?ctx = "jump_context_of (decode_manifest_bytes (slot_manifest (host_view c) slot))
    (slot_payload (host_view c) slot)"
  let ?o = "boot_policy_options crypt pk metadata_flash csr"
  obtain res c' where sel: "boot_slot_selection_select ?o c = (BOOT_SLOT_SELECTION_OK, res, c')"
    and ctx: "res_jump_context res = Some ?ctx"
    and com: "boot_metadata_commit metadata_flash c (trial_next ?o r) = (BOOT_METADATA_OK, c')"
    using select_ready_trial [OF assms] by blast
  have same: "host_view c n = host_view c' n" if "in_slot slot n" for n
    using select_keeps_images [OF sel] slot_parts_in_slot(4) [OF ab that] by simp
  note contents = slot_contents_cong [OF ab same]
  have "slot_bootable crypt pk (host_view c') slot"
    using boot slot_bootable_cong [of slot "host_view c" "host_view c'" crypt pk] ab same by simp
  note bc = bootable_context [OF ab this]
  have ne: "snd (signed_image_jump (host_view c') ?ctx) \<noteq> []"
    by (simp add: jump_enters_iff contents bc)
  have entry: "ctx_reset_vector ?ctx = slot_entry (host_view c) slot"
    by (rule bootable_context(3) [OF ab boot])
  obtain s effs where jump: "signed_image_jump (host_view c') ?ctx = (s, effs)" by fastforce
  with jump_effects [OF ne] entry have "last effs = ENTER (slot_entry (host_view c) slot)" by simp
  moreover have "journal_view (boot_metadata_recover_from_flash metadata_flash c') =
      (BOOT_METADATA_OK, Some (trial_next ?o r))"
    by (rule target_journal.commit_ok_view [OF host_reliable.fault_free_healthy [OF ff] com])
  ultimately show ?thesis
    using sel ctx jump st
    by (auto simp: boot_sequence_execute_def Let_def boot_policy_select_eq reset_cause_capture_def
        recovery_policy_evaluate_def boot_mode_detect_def trial_next_def)
qed

text \<open>
  A verified candidate gets its trial: on a fault-free device whose journal announces a
  candidate and whose candidate slot holds an acceptable, authentic image, the sequence records
  the first trial (two attempts left) and enters the candidate.
\<close>

theorem verified_candidate_boots:
  assumes ff: "host_fault_free c"
    and rec: "boot_metadata_recover_from_flash metadata_flash c = (BOOT_METADATA_OK, Some (r, v))"
    and st: "state r = BOOT_METADATA_STATE_CANDIDATE_READY"
    and seq: "sequence r < UINT32_MAX - 1"
    and slot: "boot_slot_lookup (candidate_slot r) = Some slot"
    and boot: "slot_bootable crypt pk (host_view c) slot"
  shows "\<exists>ev s effs c' r'. boot_sequence_execute crypt pk c csr = (ev, BOOT_JUMP s effs, c') \<and>
    last effs = ENTER (slot_entry (host_view c) slot) \<and>
    journal_view (boot_metadata_recover_from_flash metadata_flash c') = (BOOT_METADATA_OK, Some r') \<and>
    state r' = BOOT_METADATA_STATE_PENDING_TRIAL \<and> boot_attempt_count r' = 2"
  by (rule ready_candidate_boots [OF assms])

section \<open>A verified active image keeps the device bootable\<close>

lemma select_ok_boots:
  assumes sel: "boot_slot_selection_select (boot_policy_options crypt pk metadata_flash csr) c =
      (BOOT_SLOT_SELECTION_OK, res, c')"
  shows "\<exists>ev s effs. boot_sequence_execute crypt pk c csr = (ev, BOOT_JUMP s effs, c') \<and>
    (\<exists>slot \<in> {boot_slot_a, boot_slot_b}. slot_bootable crypt pk (host_view c') slot \<and>
       effs \<noteq> [] \<and> last effs = ENTER (slot_entry (host_view c') slot))"
proof -
  from select_ok_bootable [OF sel] obtain slot where
    slot: "boot_slot_lookup (res_selected_slot res) = Some slot"
    and boot: "slot_bootable crypt pk (host_view c') slot"
    and ctx: "res_jump_context res =
       Some (jump_context_of (decode_manifest_bytes (slot_manifest (host_view c') slot))
              (slot_payload (host_view c') slot))" .
  let ?ctx = "jump_context_of (decode_manifest_bytes (slot_manifest (host_view c') slot))
              (slot_payload (host_view c') slot)"
  have ab: "slot = boot_slot_a \<or> slot = boot_slot_b" using slot by (auto simp: boot_slot_lookup_Some)
  note bc = bootable_context [OF ab boot]
  have ne: "snd (signed_image_jump (host_view c') ?ctx) \<noteq> []"
    by (simp add: jump_enters_iff bc)
  obtain s effs where jump: "signed_image_jump (host_view c') ?ctx = (s, effs)" by fastforce
  with jump_effects [OF ne] bc(3) have "effs \<noteq> []" "last effs = ENTER (slot_entry (host_view c') slot)"
    by simp_all
  with sel ctx jump ab boot show ?thesis
    by (auto simp: boot_sequence_execute_def Let_def boot_policy_select_eq reset_cause_capture_def
        recovery_policy_evaluate_def boot_mode_detect_def)
qed

lemma commit_keeps_bootable:
  assumes slot: "slot = boot_slot_a \<or> slot = boot_slot_b"
    and run: "boot_metadata_commit metadata_flash c nx = (st, c')"
    and boot: "slot_bootable crypt pk (host_view c) slot"
  shows "slot_bootable crypt pk (host_view c') slot"
proof -
  have "host_view c n = host_view c' n" if "in_slot slot n" for n
    using host_frame.commit_frame [OF metadata_flash_wf(2,1) run] slot_parts_in_slot(4) [OF slot that] by simp
  with slot_bootable_cong [OF slot, of "host_view c" "host_view c'"] boot show ?thesis by blast
qed

lemma fallback_boots:
  assumes slot: "boot_slot_lookup (active_slot r) = Some slot"
    and boot: "slot_bootable crypt pk (host_view c) slot"
  shows "fst (fallback_to_confirmed (boot_policy_options crypt pk fl csr) c r res) = BOOT_SLOT_SELECTION_OK"
    "fst (select_confirmed_slot (boot_policy_options crypt pk fl csr) c r d res) = BOOT_SLOT_SELECTION_OK"
proof -
  have ab: "slot = boot_slot_a \<or> slot = boot_slot_b" using slot by (auto simp: boot_slot_lookup_Some)
  have "active_slot r \<noteq> BOOT_SLOT_NONE" using slot by auto
  moreover obtain x where "verify_target_slot crypt pk c slot = (BOOT_SLOT_SELECTION_OK, VERIFY_OK, x)"
    using boot by (simp add: verify_target_slot_ok [OF ab])
  ultimately show "fst (fallback_to_confirmed (boot_policy_options crypt pk fl csr) c r res) = BOOT_SLOT_SELECTION_OK"
    "fst (select_confirmed_slot (boot_policy_options crypt pk fl csr) c r d res) = BOOT_SLOT_SELECTION_OK"
    using slot by (simp_all add: fallback_to_confirmed_def select_confirmed_slot_def verify_slot_def
        maybe_inject_def Let_def)
qed

lemma trial_falls_back:
  assumes slot: "boot_slot_lookup (active_slot r) = Some slot"
    and boot: "slot_bootable crypt pk (host_view c) slot"
  shows "fst (start_or_continue_trial (boot_policy_options crypt pk metadata_flash csr) c r res) = BOOT_SLOT_SELECTION_OK"
proof -
  let ?o = "boot_policy_options crypt pk metadata_flash csr"
  have ab: "slot = boot_slot_a \<or> slot = boot_slot_b" using slot by (auto simp: boot_slot_lookup_Some)
  have after: "fst (with_state d (fallback_to_confirmed ?o d r res')) = BOOT_SLOT_SELECTION_OK"
    if "d = c \<or> (\<exists>st nx. boot_metadata_commit metadata_flash c nx = (st, d))" for d res'
    using that boot commit_keeps_bootable [OF ab _ boot] fallback_boots(1) [OF slot, of crypt pk d]
    by (auto simp: with_state_def)
  have rej: "fst (with_state (reject_invalid_best_effort ?o c r code)
      (fallback_to_confirmed ?o (reject_invalid_best_effort ?o c r code) r res')) = BOOT_SLOT_SELECTION_OK"
    for code res'
    by (rule after) (auto simp: reject_invalid_best_effort_def commit_next_def maybe_inject_def Let_def
        split: prod.splits)
  have com: "fst (with_state d (fallback_to_confirmed ?o d r res')) = BOOT_SLOT_SELECTION_OK"
    if "commit_next ?o c nx p k = (st, d)" for nx p k st d res'
    by (rule after) (use that in \<open>auto simp: commit_next_def maybe_inject_def Let_def split: prod.splits\<close>)
  show ?thesis
    by (simp only: start_or_continue_trial_def Let_def after [OF disjI1 [OF refl]] rej
        split: option.split prod.split sum.split if_split) (auto dest: com)
qed

lemma active_image_boots:
  assumes rec: "boot_metadata_recover_from_flash metadata_flash c = (BOOT_METADATA_OK, Some (r, v))"
    and good: "host_healthy c"
    and slot: "boot_slot_lookup (active_slot r) = Some slot"
    and boot: "slot_bootable crypt pk (host_view c) slot"
  shows "\<exists>ev s effs c'. boot_sequence_execute crypt pk c csr = (ev, BOOT_JUMP s effs, c') \<and>
    (\<exists>entered \<in> {boot_slot_a, boot_slot_b}. slot_bootable crypt pk (host_view c') entered \<and>
       last effs = ENTER (slot_entry (host_view c') entered))"
proof -
  let ?o = "boot_policy_options crypt pk metadata_flash csr"
  have "active_slot r \<noteq> BOOT_SLOT_NONE" using slot by auto
  then have st: "state r \<noteq> BOOT_METADATA_STATE_EMPTY \<and> (\<forall>w. state r \<noteq> BOOT_METADATA_STATE_OTHER w)"
    using target_journal.recover_canonical [OF good rec]
    by (auto simp: state_record_is_canonical_def split: if_splits)
  obtain s res c' where sel: "boot_slot_selection_select ?o c = (s, res, c')" by (metis prod_cases3)
  have "fst (boot_slot_selection_select ?o c) = BOOT_SLOT_SELECTION_OK"
    using rec st fallback_boots [OF slot boot] trial_falls_back [OF slot boot]
    by (simp add: boot_slot_selection_select_def Let_def with_state_def
        split: boot_metadata_state.splits)
  with sel select_ok_boots [of crypt pk csr c res c'] show ?thesis by fastforce
qed

text \<open>
  A verified active image keeps the device bootable: if the journal recovers to any record
  whose active slot holds an acceptable, authentic image, the boot sequence enters an
  application, whichever journal writes fail on the way and whatever the candidate slot holds.
\<close>

theorem active_image_keeps_booting:
  assumes rec: "boot_metadata_recover_from_flash metadata_flash c = (BOOT_METADATA_OK, Some (r, v))"
    and good: "host_healthy c"
    and slot: "boot_slot_lookup (active_slot r) = Some slot"
    and boot: "slot_bootable crypt pk (host_view c) slot"
  shows "\<exists>ev s effs c'. boot_sequence_execute crypt pk c csr = (ev, BOOT_JUMP s effs, c') \<and>
    (\<exists>entered \<in> {boot_slot_a, boot_slot_b}. slot_bootable crypt pk (host_view c') entered \<and>
       last effs = ENTER (slot_entry (host_view c') entered))"
  by (rule active_image_boots [OF assms])

end
