(* ===== verification/Update_Package.thy ===== *)
theory Update_Package
  imports Boot_Policy
begin

text \<open>
  The update package format (\<^verbatim>\<open>update_package.h\<close>, \<^verbatim>\<open>update_package.c\<close>): a 512 byte header with
  manifest, signature and padding, followed by the payload. A package is the list of its bytes,
  so its size is the length of the list. The pointers that the parser hands out are the byte
  ranges they point to, with the length their users read. A failed parse is the left side of a
  sum; the optional output \<^verbatim>\<open>verify_status\<close> is always returned.
\<close>

section \<open>Types\<close>

datatype update_package_status =
    UPDATE_PACKAGE_OK
  | UPDATE_PACKAGE_ERR_INVALID_ARGUMENT
  | UPDATE_PACKAGE_ERR_TRUNCATED
  | UPDATE_PACKAGE_ERR_TRAILING_DATA
  | UPDATE_PACKAGE_ERR_OVERSIZED
  | UPDATE_PACKAGE_ERR_UNSUPPORTED_VERSION
  | UPDATE_PACKAGE_ERR_UNKNOWN_FLAGS
  | UPDATE_PACKAGE_ERR_BAD_TARGET
  | UPDATE_PACKAGE_ERR_BAD_IMAGE_TYPE
  | UPDATE_PACKAGE_ERR_BAD_SIZE
  | UPDATE_PACKAGE_ERR_BAD_PADDING
  | UPDATE_PACKAGE_ERR_INCOMPATIBLE_SLOT
  | UPDATE_PACKAGE_ERR_VERIFY

record update_package =
  pkg_bytes :: bytes
  pkg_package_size :: size_t
  pkg_manifest_bytes :: bytes
  pkg_signature_bytes :: bytes
  pkg_payload :: bytes
  pkg_payload_size :: size_t
  pkg_manifest :: signed_manifest

record update_package_header =
  hdr_manifest :: signed_manifest
  hdr_manifest_bytes :: bytes
  hdr_signature_bytes :: bytes
  hdr_payload_size :: size_t
  hdr_package_size :: size_t

section \<open>Parsing and verification\<close>

definition largest_slot_payload_size :: u32 where
  "largest_slot_payload_size =
     (if SLOT_A_PAYLOAD_MAX_SIZE > SLOT_B_PAYLOAD_MAX_SIZE
      then SLOT_A_PAYLOAD_MAX_SIZE else SLOT_B_PAYLOAD_MAX_SIZE)"

definition padding_is_canonical :: "bytes \<Rightarrow> bool" where
  "padding_is_canonical package_bytes \<longleftrightarrow>
     list_all (\<lambda>i. package_bytes ! i = 0xFF)
       [SIGNED_MANIFEST_SIZE + SIGNED_SIGNATURE_SIZE..<SIGNED_IMAGE_HEADER_SIZE]"

definition parse_header_common :: "bytes \<Rightarrow> update_package_status + update_package_header" where
  "parse_header_common header_bytes =
     (if length header_bytes < SIGNED_IMAGE_HEADER_SIZE then Inl UPDATE_PACKAGE_ERR_TRUNCATED
      else case signed_image_decode_manifest header_bytes of (decoded, m) \<Rightarrow>
        if decoded \<noteq> VERIFY_OK then Inl UPDATE_PACKAGE_ERR_INVALID_ARGUMENT
        else if magic m \<noteq> SIGNED_IMAGE_MAGIC then Inl UPDATE_PACKAGE_ERR_VERIFY
        else if header_version m \<noteq> UPDATE_PACKAGE_FORMAT_VERSION
        then Inl UPDATE_PACKAGE_ERR_UNSUPPORTED_VERSION
        else if flags m AND NOT SIGNED_IMAGE_FLAGS_ALLOWED_MASK \<noteq> 0
        then Inl UPDATE_PACKAGE_ERR_UNKNOWN_FLAGS
        else if reserved0 m \<noteq> UPDATE_PACKAGE_TARGET_STM32F429IGT6_AB_V1
        then Inl UPDATE_PACKAGE_ERR_BAD_TARGET
        else if reserved1 m \<noteq> UPDATE_PACKAGE_IMAGE_TYPE_APPLICATION
        then Inl UPDATE_PACKAGE_ERR_BAD_IMAGE_TYPE
        else if image_size m < APPLICATION_MIN_SIZE then Inl UPDATE_PACKAGE_ERR_BAD_SIZE
        else if image_size m > largest_slot_payload_size then Inl UPDATE_PACKAGE_ERR_OVERSIZED
        else (case checked_size_add SIGNED_IMAGE_HEADER_SIZE (unat (image_size m)) of
                None \<Rightarrow> Inl UPDATE_PACKAGE_ERR_OVERSIZED
              | Some expected_size \<Rightarrow>
                  if \<not> padding_is_canonical header_bytes then Inl UPDATE_PACKAGE_ERR_BAD_PADDING
                  else Inr \<lparr>hdr_manifest = m,
                            hdr_manifest_bytes = take SIGNED_MANIFEST_SIZE header_bytes,
                            hdr_signature_bytes =
                              take SIGNED_SIGNATURE_SIZE (drop SIGNED_MANIFEST_SIZE header_bytes),
                            hdr_payload_size = unat (image_size m),
                            hdr_package_size = expected_size\<rparr>))"

definition update_package_parse :: "bytes \<Rightarrow> update_package_status + update_package" where
  "update_package_parse package_bytes =
     (case parse_header_common package_bytes of
        Inl status \<Rightarrow> Inl status
      | Inr header \<Rightarrow>
          if length package_bytes < hdr_package_size header then Inl UPDATE_PACKAGE_ERR_TRUNCATED
          else if length package_bytes > hdr_package_size header
          then Inl UPDATE_PACKAGE_ERR_TRAILING_DATA
          else Inr \<lparr>pkg_bytes = package_bytes,
                    pkg_package_size = length package_bytes,
                    pkg_manifest_bytes = take SIGNED_MANIFEST_SIZE package_bytes,
                    pkg_signature_bytes =
                      take SIGNED_SIGNATURE_SIZE (drop SIGNED_MANIFEST_SIZE package_bytes),
                    pkg_payload = drop SIGNED_IMAGE_HEADER_SIZE package_bytes,
                    pkg_payload_size = hdr_payload_size header,
                    pkg_manifest = hdr_manifest header\<rparr>)"

definition update_package_verify_header_for_slot ::
    "'h crypto \<Rightarrow> bytes \<Rightarrow> bytes \<Rightarrow> boot_slot_descriptor \<Rightarrow>
     (update_package_status + update_package_header) \<times> verify_status" where
  "update_package_verify_header_for_slot crypt header_bytes public_key slot =
     (if length header_bytes < SIGNED_IMAGE_HEADER_SIZE
      then (Inl UPDATE_PACKAGE_ERR_TRUNCATED, VERIFY_BAD_PAYLOAD_RANGE)
      else if length header_bytes > SIGNED_IMAGE_HEADER_SIZE
      then (Inl UPDATE_PACKAGE_ERR_TRAILING_DATA, VERIFY_BAD_PAYLOAD_RANGE)
      else case parse_header_common header_bytes of
        Inl status \<Rightarrow> (Inl status, VERIFY_BAD_PAYLOAD_RANGE)
      | Inr parsed \<Rightarrow>
          if vector_address (hdr_manifest parsed) \<noteq> payload_base slot
          then (Inl UPDATE_PACKAGE_ERR_INCOMPATIBLE_SLOT, VERIFY_BAD_VECTOR_ADDRESS)
          else if image_size (hdr_manifest parsed) > maximum_payload_size slot
          then (Inl UPDATE_PACKAGE_ERR_INCOMPATIBLE_SLOT, VERIFY_BAD_SIZE)
          else if \<not> crypto_ed25519_check crypt (hdr_signature_bytes parsed) public_key
                      (hdr_manifest_bytes parsed)
          then (Inl UPDATE_PACKAGE_ERR_VERIFY, VERIFY_BAD_SIGNATURE)
          else (Inr parsed, VERIFY_OK))"

definition update_package_verify_for_slot ::
    "'h crypto \<Rightarrow> bytes \<Rightarrow> bytes \<Rightarrow> boot_slot_descriptor \<Rightarrow>
     (update_package_status + update_package) \<times> verify_status" where
  "update_package_verify_for_slot crypt package_bytes public_key slot =
     (case update_package_parse package_bytes of
        Inl status \<Rightarrow> (Inl status, VERIFY_BAD_PAYLOAD_RANGE)
      | Inr parsed \<Rightarrow>
          if vector_address (pkg_manifest parsed) \<noteq> payload_base slot \<or>
             image_size (pkg_manifest parsed) > maximum_payload_size slot
          then (Inl UPDATE_PACKAGE_ERR_INCOMPATIBLE_SLOT, VERIFY_BAD_PAYLOAD_RANGE)
          else let verified = signed_image_verify_update_slot_buffer crypt
                 (pkg_manifest_bytes parsed) (pkg_signature_bytes parsed) (pkg_payload parsed)
                 (pkg_payload_size parsed) public_key slot
               in if verified \<noteq> VERIFY_OK then (Inl UPDATE_PACKAGE_ERR_VERIFY, verified)
                  else (Inr parsed, verified))"

section \<open>What the parser accepts\<close>

text \<open>
  The format without the order of the checks: \<open>header_layout_ok\<close> for the fixed fields, the
  size bounds and the padding.
\<close>

definition header_layout_ok :: "bytes \<Rightarrow> bool" where
  "header_layout_ok bs \<longleftrightarrow>
     (let m = decode_manifest_bytes bs
      in 512 \<le> length bs \<and> magic m = SIGNED_IMAGE_MAGIC \<and>
         header_version m = UPDATE_PACKAGE_FORMAT_VERSION \<and> flags m = 0 \<and>
         reserved0 m = UPDATE_PACKAGE_TARGET_STM32F429IGT6_AB_V1 \<and>
         reserved1 m = UPDATE_PACKAGE_IMAGE_TYPE_APPLICATION \<and>
         8 \<le> unat (image_size m) \<and> unat (image_size m) \<le> 0x5FE00 \<and>
         (\<forall>i. 160 \<le> i \<and> i < 512 \<longrightarrow> bs ! i = 0xFF))"

definition header_of :: "bytes \<Rightarrow> update_package_header" where
  "header_of bs =
     \<lparr>hdr_manifest = decode_manifest_bytes bs, hdr_manifest_bytes = take 96 bs,
      hdr_signature_bytes = take 64 (drop 96 bs),
      hdr_payload_size = unat (image_size (decode_manifest_bytes bs)),
      hdr_package_size = 512 + unat (image_size (decode_manifest_bytes bs))\<rparr>"

definition package_of :: "bytes \<Rightarrow> update_package" where
  "package_of bs =
     \<lparr>pkg_bytes = bs, pkg_package_size = length bs, pkg_manifest_bytes = take 96 bs,
      pkg_signature_bytes = take 64 (drop 96 bs), pkg_payload = drop 512 bs,
      pkg_payload_size = unat (image_size (decode_manifest_bytes bs)),
      pkg_manifest = decode_manifest_bytes bs\<rparr>"

lemma padding_iff: "padding_is_canonical bs \<longleftrightarrow> (\<forall>i. 160 \<le> i \<and> i < 512 \<longrightarrow> bs ! i = 0xFF)"
  by (auto simp: padding_is_canonical_def list_all_iff simp del: upt_rec_numeral)

lemma parse_header_iff:
  "parse_header_common bs = Inr h \<longleftrightarrow> header_layout_ok bs \<and> h = header_of bs"
proof (cases "unat (image_size (decode_manifest_bytes bs)) \<le> 0x5FE00")
  case True
  then have add: "checked_size_add 512 (unat (image_size (decode_manifest_bytes bs))) =
      Some (512 + unat (image_size (decode_manifest_bytes bs)))"
    by (simp add: checked_size_add_Some)
  show ?thesis
    using True
    by (auto simp: parse_header_common_def header_layout_ok_def header_of_def add Let_def
        signed_image_decode_manifest_def largest_slot_payload_size_def padding_iff word_less_nat_alt)
next
  case False
  then show ?thesis
    by (auto simp: parse_header_common_def header_layout_ok_def Let_def
        signed_image_decode_manifest_def largest_slot_payload_size_def word_less_nat_alt)
qed

lemma parse_iff:
  "update_package_parse bs = Inr p \<longleftrightarrow>
     header_layout_ok bs \<and> length bs = 512 + unat (image_size (decode_manifest_bytes bs)) \<and>
     p = package_of bs"
proof (cases "parse_header_common bs")
  case (Inl st)
  with parse_header_iff [of bs "header_of bs"] show ?thesis
    by (auto simp: update_package_parse_def)
next
  case (Inr h)
  with parse_header_iff [of bs h] show ?thesis
    by (auto simp: update_package_parse_def header_of_def package_of_def)
qed

section \<open>Packages and slot contents\<close>

lemma decode_manifest_take: "96 \<le> length bs \<Longrightarrow> decode_manifest_bytes (take 96 bs) = decode_manifest_bytes bs"
  by (auto simp: decode_manifest_bytes_def drop_take min_def intro!: load_le32_cong)

lemma image_ok_payload_cong:
  assumes "take (unat (image_size m)) p = take (unat (image_size m)) q"
  shows "image_ok m policy p = image_ok m policy q"
proof (cases "8 \<le> unat (image_size m)")
  case True
  have same: "p ! i = q ! i" if "i < 8" for i
    using True that nth_take [of i "unat (image_size m)" p] nth_take [of i "unat (image_size m)" q] assms
    by simp
  have len: "min (unat (image_size m)) (length p) = min (unat (image_size m)) (length q)"
    using arg_cong [OF assms, of length] by (simp add: min.commute)
  have "load_le32 p = load_le32 q" by (rule load_le32_cong) (simp add: same)
  moreover have "load_le32 (drop 4 p) = load_le32 (drop 4 q)"
  proof (cases "4 \<le> length p")
    case True
    with len \<open>8 \<le> _\<close> have "4 \<le> length q" by (auto simp: min_def split: if_splits)
    with True show ?thesis by (intro load_le32_cong) (simp add: same)
  next
    case False
    with len \<open>8 \<le> _\<close> have "drop 4 p = []" "drop 4 q = []" by (auto simp: min_def split: if_splits)
    then show ?thesis by simp
  qed
  ultimately show ?thesis by (simp add: image_ok_def vector_ok_def)
qed (simp add: image_ok_def)

lemma authentic_payload_cong:
  assumes "take (unat (image_size (decode_manifest_bytes mb))) p =
    take (unat (image_size (decode_manifest_bytes mb))) q"
  shows "image_authentic crypt mb sb p pk = image_authentic crypt mb sb q pk"
  using assms by (simp add: image_authentic_def Let_def)

lemma slot_holds_parts:
  assumes slot: "slot = boot_slot_a \<or> slot = boot_slot_b"
    and held: "mem_range mem (unat (signed_image_base slot)) (length bs) = bs"
    and len: "length bs = 512 + n" "n \<le> 0x5FE00"
  shows "slot_manifest mem slot = take 96 bs" "slot_signature mem slot = take 64 (drop 96 bs)"
    "take n (slot_payload mem slot) = drop 512 bs"
proof -
  have geo: "unat (manifest_address slot) = unat (signed_image_base slot)"
    "unat (signature_address slot) = unat (signed_image_base slot) + 96"
    "unat (payload_base slot) = unat (signed_image_base slot) + 512"
    "unat (maximum_payload_size slot) = 0x5FE00"
    using slot by (auto simp: boot_slot_rows)
  let ?r = "mem_range mem (unat (signed_image_base slot)) (512 + n)"
  have r: "?r = bs" using held len by simp
  have "take 96 ?r = mem_range mem (unat (signed_image_base slot)) 96" by (simp add: take_mem_range)
  then show "slot_manifest mem slot = take 96 bs" by (simp add: slot_manifest_def geo r)
  have "take 64 (drop 96 ?r) = mem_range mem (unat (signed_image_base slot) + 96) 64"
    by (simp add: drop_mem_range take_mem_range)
  then show "slot_signature mem slot = take 64 (drop 96 bs)" by (simp add: slot_signature_def geo r)
  have "drop 512 ?r = mem_range mem (unat (signed_image_base slot) + 512) n"
    by (simp add: drop_mem_range)
  then show "take n (slot_payload mem slot) = drop 512 bs"
    using len(2) by (simp add: slot_payload_def geo take_mem_range r)
qed

text \<open>
  C35. The package parser accepts exactly the well-formed packages: fixed fields, size bounds,
  canonical padding, and a total length of header and payload with nothing missing or trailing.
  What it returns is the manifest, signature and payload at their places in the package.
\<close>

theorem package_parse_exact:
  "update_package_parse bs = Inr p \<longleftrightarrow>
     header_layout_ok bs \<and> length bs = 512 + unat (image_size (decode_manifest_bytes bs)) \<and>
     p = package_of bs"
  by (rule parse_iff)

lemma verify_package_iff:
  assumes slot: "slot = boot_slot_a \<or> slot = boot_slot_b"
  shows "fst (update_package_verify_for_slot crypt bs pk slot) = Inr p \<longleftrightarrow>
    update_package_parse bs = Inr p \<and>
    image_ok (decode_manifest_bytes bs) (slot_policy slot) (drop 512 bs) \<and>
    image_authentic crypt (take 96 bs) (take 64 (drop 96 bs)) (drop 512 bs) pk"
proof (cases "update_package_parse bs")
  case (Inl st)
  then show ?thesis by (simp add: update_package_verify_for_slot_def)
next
  case (Inr q)
  note parsed = Inr [unfolded parse_iff]
  then have len: "96 \<le> length bs" by (simp add: header_layout_ok_def Let_def)
  have "signed_image_verify_update_slot_buffer crypt (take 96 bs) (take 64 (drop 96 bs)) (drop 512 bs)
      (unat (image_size (decode_manifest_bytes bs))) pk slot = VERIFY_OK \<longleftrightarrow>
    image_ok (decode_manifest_bytes bs) (slot_policy slot) (drop 512 bs) \<and>
    image_authentic crypt (take 96 bs) (take 64 (drop 96 bs)) (drop 512 bs) pk"
    using slot_table_geometry(1) [OF slot]
    by (simp add: signed_image_verify_update_slot_buffer_def verify_buffer_iff decode_manifest_take [OF len])
  moreover have "image_ok (decode_manifest_bytes bs) (slot_policy slot) (drop 512 bs) \<Longrightarrow>
      vector_address (decode_manifest_bytes bs) = payload_base slot \<and>
      \<not> maximum_payload_size slot < image_size (decode_manifest_bytes bs)"
    by (simp add: image_ok_def slot_policy_def word_less_nat_alt)
  ultimately show ?thesis
    using Inr parsed
    by (auto simp: update_package_verify_for_slot_def package_of_def Let_def)
qed

text \<open>What a valid package must satisfy for the slot it is meant for.\<close>

definition package_ok :: "'h crypto \<Rightarrow> bytes \<Rightarrow> boot_slot_descriptor \<Rightarrow> bytes \<Rightarrow> bool" where
  "package_ok crypt pk slot bs \<longleftrightarrow>
     header_layout_ok bs \<and> length bs = 512 + unat (image_size (decode_manifest_bytes bs)) \<and>
     image_ok (decode_manifest_bytes bs) (slot_policy slot) (drop 512 bs) \<and>
     image_authentic crypt (take 96 bs) (take 64 (drop 96 bs)) (drop 512 bs) pk"

lemma package_ok_iff:
  "slot = boot_slot_a \<or> slot = boot_slot_b \<Longrightarrow>
   package_ok crypt pk slot bs \<longleftrightarrow> fst (update_package_verify_for_slot crypt bs pk slot) = Inr (package_of bs)"
  by (simp add: verify_package_iff parse_iff package_ok_def)

lemma header_bytes_of_package:
  assumes "512 \<le> length bs"
  shows "decode_manifest_bytes (take 512 bs) = decode_manifest_bytes bs" "header_of (take 512 bs) = header_of bs"
    "header_layout_ok (take 512 bs) = header_layout_ok bs"
proof -
  have t: "take 96 (take 512 bs) = take 96 bs" "take 64 (drop 96 (take 512 bs)) = take 64 (drop 96 bs)"
    by (simp_all add: drop_take)
  show m: "decode_manifest_bytes (take 512 bs) = decode_manifest_bytes bs"
    using decode_manifest_take [of "take 512 bs"] decode_manifest_take [of bs] t(1) assms by simp
  show "header_of (take 512 bs) = header_of bs" by (simp add: header_of_def m t del: take_take)
  show "header_layout_ok (take 512 bs) = header_layout_ok bs"
    using assms by (auto simp: header_layout_ok_def Let_def m)
qed

lemma package_bootable:
  assumes ab: "slot = boot_slot_a \<or> slot = boot_slot_b" and ok: "package_ok crypt pk slot bs"
    and held: "mem_range mem (unat (signed_image_base slot)) (length bs) = bs"
  shows "slot_bootable crypt pk mem slot"
proof -
  let ?m = "decode_manifest_bytes bs" and ?n = "unat (image_size (decode_manifest_bytes bs))"
  have lay: "header_layout_ok bs" "length bs = 512 + ?n" "?n \<le> 0x5FE00" "96 \<le> length bs"
    using ok by (auto simp: package_ok_def header_layout_ok_def Let_def)
  note parts = slot_holds_parts [OF ab held lay(2,3)]
  have m: "decode_manifest_bytes (take 96 bs) = ?m" using lay by (simp add: decode_manifest_take)
  have "take ?n (slot_payload mem slot) = take ?n (drop 512 bs)" using parts(3) lay(2) by simp
  with ok image_ok_payload_cong authentic_payload_cong [of "take 96 bs"] m show ?thesis
    unfolding slot_bootable_def parts(1,2) package_ok_def by metis
qed

text \<open>
  An accepted package is a bootable image: once its bytes stand in the slot it was verified
  for, the slot passes every check of the boot loader; and the streaming check of its header
  alone accepts the same header.
\<close>

theorem verified_package_bootable:
  assumes slot: "slot \<in> {boot_slot_a, boot_slot_b}"
    and ver: "fst (update_package_verify_for_slot crypt bs pk slot) = Inr p"
    and held: "mem_range mem (unat (signed_image_base slot)) (length bs) = bs"
  shows "slot_bootable crypt pk mem slot \<and>
    update_package_verify_header_for_slot crypt (take 512 bs) pk slot = (Inr (header_of bs), VERIFY_OK)"
proof -
  have ab: "slot = boot_slot_a \<or> slot = boot_slot_b" using slot by simp
  have ok: "package_ok crypt pk slot bs"
    using ver by (simp add: verify_package_iff [OF ab] parse_iff package_ok_def)
  then have lay: "header_layout_ok bs" "512 \<le> length bs" by (simp_all add: package_ok_def)
  then have "parse_header_common (take 512 bs) = Inr (header_of bs)"
    by (simp add: parse_header_iff header_bytes_of_package)
  moreover have "take 64 (drop 96 (take 512 bs)) = take 64 (drop 96 bs)" by (simp add: drop_take)
  ultimately show ?thesis
    using ok package_bootable [OF ab ok held]
    by (auto simp: update_package_verify_header_for_slot_def header_of_def image_ok_def package_ok_def
        image_authentic_def slot_policy_def Let_def word_less_nat_alt)
qed

end
