(* ===== verification/Update_Installer.thy ===== *)
theory Update_Installer
  imports Update_Package
begin

text \<open>
  The update installer (\<^verbatim>\<open>update_installer.h\<close>, \<^verbatim>\<open>update_installer.c\<close>): a session that selects the
  inactive slot, checks the package header, announces the update in the journal, erases and
  programs the slot, verifies what it installed and announces the candidate.

  The session is a record, threaded with the device through every operation. Its helpers
  receive pointers into the session (options, result, block counter); here they receive and
  return the session itself. \<open>ses_result\<close> is the memory behind the result pointer, \<open>None\<close> for a
  null pointer. The program buffer is a list of bytes in the options, the read-back buffer is
  overwritten before each use and only its size is kept. The pointers to the active and the
  candidate slot are read through \<open>host_view\<close>, as the target reads its memory-mapped flash.
  Watchdog refreshes and the wiping of hash buffers have no effect on the state kept here.

  The loops run in steps of the buffer size. \<^verbatim>\<open>update_installer_session_init\<close> refuses an empty
  buffer, so a loop step of length zero, with which the C loop would not end, is never reached
  from an initialised session; there the model stops with \<^verbatim>\<open>UPDATE_INSTALL_ERR_STATE\<close>.
\<close>

section \<open>Types\<close>

datatype update_install_status =
    UPDATE_INSTALL_OK
  | UPDATE_INSTALL_ERR_INVALID_ARGUMENT
  | UPDATE_INSTALL_ERR_PACKAGE
  | UPDATE_INSTALL_ERR_METADATA
  | UPDATE_INSTALL_ERR_ACTIVE_STATE
  | UPDATE_INSTALL_ERR_SLOT
  | UPDATE_INSTALL_ERR_ROLLBACK
  | UPDATE_INSTALL_ERR_CAPACITY
  | UPDATE_INSTALL_ERR_ERASE
  | UPDATE_INSTALL_ERR_PROGRAM
  | UPDATE_INSTALL_ERR_READBACK
  | UPDATE_INSTALL_ERR_HASH
  | UPDATE_INSTALL_ERR_INSTALLED_VERIFY
  | UPDATE_INSTALL_ERR_INJECTED
  | UPDATE_INSTALL_ERR_STATE
  | UPDATE_INSTALL_ERR_SEQUENCE

datatype update_install_fault_point =
    UPDATE_INSTALL_FAULT_METADATA_WRITING
  | UPDATE_INSTALL_FAULT_ERASE_SECTOR
  | UPDATE_INSTALL_FAULT_PROGRAM_BLOCK
  | UPDATE_INSTALL_FAULT_READBACK
  | UPDATE_INSTALL_FAULT_HASH_COMPLETE
  | UPDATE_INSTALL_FAULT_VERIFY_INSTALLED
  | UPDATE_INSTALL_FAULT_METADATA_CANDIDATE_READY
  | UPDATE_INSTALL_FAULT_HASH_BEGIN

record update_install_options =
  io_program_buffer :: bytes
  io_program_buffer_size :: size_t
  io_readback_buffer_size :: size_t
  io_fault_hook :: "(update_install_fault_point \<Rightarrow> u32 \<Rightarrow> update_install_status) option"
  io_recovery_bootstrap :: bool

record update_install_result =
  ir_active_slot :: u32
  ir_candidate_slot :: u32
  ir_image_version :: u32
  ir_erased_sector_count :: u32
  ir_programmed_block_count :: u32
  ir_package_verify_status :: verify_status
  ir_installed_verify_status :: verify_status
  ir_metadata_recovery :: boot_metadata_recovery

datatype update_installer_session_state =
    UPDATE_INSTALL_SESSION_EMPTY
  | UPDATE_INSTALL_SESSION_INITIALIZED
  | UPDATE_INSTALL_SESSION_WRITING
  | UPDATE_INSTALL_SESSION_PAYLOAD_COMPLETE
  | UPDATE_INSTALL_SESSION_FINISHED
  | UPDATE_INSTALL_SESSION_ABORTED
  | UPDATE_INSTALL_SESSION_FAILED

record 'h update_installer_session =
  ses_state :: update_installer_session_state
  ses_restricted_flash :: "host_context boot_flash"
  ses_public_key :: bytes
  ses_options :: update_install_options
  ses_result :: "update_install_result option"
  ses_metadata_before :: boot_metadata_record
  ses_writing_metadata :: boot_metadata_record
  ses_metadata_recovery :: boot_metadata_recovery
  ses_active :: "boot_slot_descriptor option"
  ses_candidate :: boot_slot_descriptor
  ses_active_slot_id :: u32
  ses_header :: update_package_header
  ses_payload_hash_ctx :: 'h
  ses_payload_received :: size_t
  ses_payload_programmed :: size_t
  ses_payload_program_size :: size_t
  ses_program_fill :: size_t
  ses_programmed_block_count :: u32
  ses_metadata_writing_committed :: bool
  ses_candidate_erased :: bool
  ses_payload_hash_finalized :: bool

section \<open>Helpers\<close>

definition checked_round_up :: "size_t \<Rightarrow> size_t \<Rightarrow> size_t option" where
  "checked_round_up value alignment =
     (if alignment = 0 then None
      else let remainder = value AND (alignment - 1)
           in if remainder = 0 then Some value
              else checked_size_add value (alignment - remainder))"

definition options_are_valid :: "host_context boot_flash \<Rightarrow> update_install_options \<Rightarrow> bool" where
  "options_are_valid flash options \<longleftrightarrow>
     \<not> (io_program_buffer_size options = 0 \<or>
        io_readback_buffer_size options < io_program_buffer_size options \<or>
        io_program_buffer_size options > SIZE_MAX \<or>
        program_alignment flash = 0 \<or>
        program_alignment flash AND (program_alignment flash - 1) \<noteq> 0 \<or>
        io_program_buffer_size options AND unat (program_alignment flash - 1) \<noteq> 0)"

definition maybe_fault ::
    "update_install_options \<Rightarrow> update_install_fault_point \<Rightarrow> u32 \<Rightarrow> update_install_status" where
  "maybe_fault options point detail =
     (case io_fault_hook options of None \<Rightarrow> UPDATE_INSTALL_OK | Some hook \<Rightarrow> hook point detail)"

definition select_inactive_slot ::
    "boot_metadata_record \<Rightarrow>
     update_install_status + (boot_slot_descriptor option \<times> boot_slot_descriptor)" where
  "select_inactive_slot metadata =
     (if state metadata = BOOT_METADATA_STATE_CONFIRMED \<and>
         (candidate_slot metadata \<noteq> BOOT_SLOT_NONE \<or> confirmation_state metadata \<noteq> 1)
      then Inl UPDATE_INSTALL_ERR_ACTIVE_STATE
      else if state metadata = BOOT_METADATA_STATE_REJECTED_INVALID \<and>
         (active_slot metadata = BOOT_SLOT_NONE \<or> candidate_slot metadata = BOOT_SLOT_NONE \<or>
          confirmation_state metadata \<noteq> 0)
      then Inl UPDATE_INSTALL_ERR_ACTIVE_STATE
      else if state metadata \<noteq> BOOT_METADATA_STATE_CONFIRMED \<and>
              state metadata \<noteq> BOOT_METADATA_STATE_REJECTED_INVALID
      then Inl UPDATE_INSTALL_ERR_ACTIVE_STATE
      else case boot_slot_lookup (active_slot metadata) of
        None \<Rightarrow> Inl UPDATE_INSTALL_ERR_SLOT
      | Some act \<Rightarrow>
          (let candidate_slot_id = (if active_slot metadata = slot_num BOOT_SLOT_A
                                    then slot_num BOOT_SLOT_B else slot_num BOOT_SLOT_A)
           in case boot_slot_lookup candidate_slot_id of
                None \<Rightarrow> Inl UPDATE_INSTALL_ERR_SLOT
              | Some cand \<Rightarrow>
                  if state metadata = BOOT_METADATA_STATE_REJECTED_INVALID \<and>
                     candidate_slot metadata \<noteq> candidate_slot_id
                  then Inl UPDATE_INSTALL_ERR_ACTIVE_STATE
                  else Inr (Some act, cand)))"

definition select_recovery_slot ::
    "update_install_status + (boot_slot_descriptor option \<times> boot_slot_descriptor)" where
  "select_recovery_slot =
     (case boot_slot_lookup (slot_num BOOT_SLOT_A) of
        None \<Rightarrow> Inl UPDATE_INSTALL_ERR_SLOT
      | Some cand \<Rightarrow> Inr (None, cand))"

definition restricted_regions :: "boot_slot_descriptor \<Rightarrow> boot_flash_region list" where
  "restricted_regions cand =
     [mk_region BOOT_METADATA_A_BASE BOOT_METADATA_A_END,
      mk_region BOOT_METADATA_B_BASE BOOT_METADATA_B_END,
      mk_region (signed_image_base cand) (slot_end cand)]"

definition init_restricted_flash ::
    "host_context boot_flash \<Rightarrow> boot_slot_descriptor \<Rightarrow>
     update_install_status + host_context boot_flash" where
  "init_restricted_flash flash cand =
     (case boot_flash_init (flash_ops flash) (restricted_regions cand) (program_alignment flash) of
        Inl _ \<Rightarrow> Inl UPDATE_INSTALL_ERR_INVALID_ARGUMENT
      | Inr restricted \<Rightarrow> Inr restricted)"

definition commit_metadata_state ::
    "host_context boot_flash \<Rightarrow> host_context \<Rightarrow> boot_metadata_record \<Rightarrow> boot_metadata_state \<Rightarrow>
     u32 \<Rightarrow> u32 \<Rightarrow> u32 \<Rightarrow> update_install_options \<Rightarrow> update_install_fault_point \<Rightarrow>
     update_install_status \<times> host_context" where
  "commit_metadata_state flash c current st act cand version options fault_point =
     (case boot_metadata_prepare_next current st act cand version 0 0 0 of
        Inl _ \<Rightarrow> (UPDATE_INSTALL_ERR_METADATA, c)
      | Inr nx \<Rightarrow>
          (let fault = maybe_fault options fault_point version
           in if fault \<noteq> UPDATE_INSTALL_OK then (fault, c)
              else case boot_metadata_commit flash c nx of
                (status, c') \<Rightarrow>
                  (if status = BOOT_METADATA_OK then UPDATE_INSTALL_OK
                   else UPDATE_INSTALL_ERR_METADATA, c')))"

fun erase_sectors ::
    "u32 list \<Rightarrow> 'h update_installer_session \<Rightarrow> host_context \<Rightarrow>
     update_install_status \<times> 'h update_installer_session \<times> host_context" where
  "erase_sectors [] s c = (UPDATE_INSTALL_OK, s, c)"
| "erase_sectors (sector # sectors) s c =
     (let fault = maybe_fault (ses_options s) UPDATE_INSTALL_FAULT_ERASE_SECTOR sector
      in if fault \<noteq> UPDATE_INSTALL_OK then (fault, s, c)
         else case boot_flash_erase_sector (ses_restricted_flash s) c sector of
           (status, c') \<Rightarrow>
             if status \<noteq> BOOT_FLASH_OK then (UPDATE_INSTALL_ERR_ERASE, s, c')
             else erase_sectors sectors
                    (s\<lparr>ses_result := map_option (\<lambda>r. r\<lparr>ir_erased_sector_count :=
                         ir_erased_sector_count r + 1\<rparr>) (ses_result s)\<rparr>) c')"

definition erase_candidate_slot ::
    "'h update_installer_session \<Rightarrow> host_context \<Rightarrow>
     update_install_status \<times> 'h update_installer_session \<times> host_context" where
  "erase_candidate_slot s c =
     erase_sectors (map of_nat [unat (first_sector (ses_candidate s))..<
                                Suc (unat (last_sector (ses_candidate s)))]) s c"

definition fail_session ::
    "'h update_installer_session \<Rightarrow> host_context \<Rightarrow> update_install_status \<Rightarrow>
     update_install_status \<times> 'h update_installer_session \<times> host_context" where
  "fail_session s c status =
     (status, if status \<noteq> UPDATE_INSTALL_OK then s\<lparr>ses_state := UPDATE_INSTALL_SESSION_FAILED\<rparr>
              else s, c)"

definition metadata_matches_start ::
    "boot_metadata_record \<Rightarrow> boot_metadata_record \<Rightarrow> bool" where
  "metadata_matches_start actual expected \<longleftrightarrow>
     sequence actual = sequence expected \<and> state actual = state expected \<and>
     active_slot actual = active_slot expected \<and>
     candidate_slot actual = candidate_slot expected \<and>
     candidate_image_version actual = candidate_image_version expected \<and>
     boot_attempt_count actual = boot_attempt_count expected \<and>
     confirmation_state actual = confirmation_state expected \<and>
     result_code actual = result_code expected"

definition candidate_package_fits ::
    "host_context boot_flash \<Rightarrow> boot_slot_descriptor \<Rightarrow> update_package_header \<Rightarrow>
     update_install_status + size_t" where
  "candidate_package_fits flash cand header =
     (case (checked_round_up (hdr_package_size header) (unat (program_alignment flash)),
            checked_round_up (hdr_payload_size header) (unat (program_alignment flash))) of
        (Some aligned_package_size, Some aligned_payload_size) \<Rightarrow>
          if aligned_package_size > SIZE_MAX then Inl UPDATE_INSTALL_ERR_CAPACITY
          else (case checked_u32_add (signed_image_base cand) (of_nat aligned_package_size) of
                  None \<Rightarrow> Inl UPDATE_INSTALL_ERR_CAPACITY
                | Some slot_program_end \<Rightarrow>
                    if slot_program_end > slot_end cand then Inl UPDATE_INSTALL_ERR_CAPACITY
                    else Inr aligned_payload_size)
      | _ \<Rightarrow> Inl UPDATE_INSTALL_ERR_CAPACITY)"

definition confirmed_version_for_update ::
    "'h crypto \<Rightarrow> 'h update_installer_session \<Rightarrow> host_context \<Rightarrow> update_install_status + u32" where
  "confirmed_version_for_update crypt s c =
     (if state (ses_metadata_before s) = BOOT_METADATA_STATE_CONFIRMED
      then Inr (candidate_image_version (ses_metadata_before s))
      else case ses_active s of
        None \<Rightarrow> Inr (MIN_IMAGE_VERSION - 1)
      | Some act \<Rightarrow>
          (let mem = host_view c;
               verified = signed_image_verify_update_slot_buffer crypt (slot_manifest mem act)
                 (slot_signature mem act) (slot_payload mem act)
                 (unat (maximum_payload_size act)) (ses_public_key s) act
           in if verified \<noteq> VERIFY_OK then Inl UPDATE_INSTALL_ERR_METADATA
              else case signed_image_decode_manifest (slot_manifest mem act) of
                (decoded, manifest) \<Rightarrow>
                  if decoded \<noteq> VERIFY_OK then Inl UPDATE_INSTALL_ERR_METADATA
                  else Inr (image_version manifest)))"

section \<open>Programming\<close>

definition count_block :: "'h update_installer_session \<Rightarrow> 'h update_installer_session" where
  "count_block s =
     s\<lparr>ses_programmed_block_count := ses_programmed_block_count s + 1,
       ses_result := map_option (\<lambda>r. r\<lparr>ir_programmed_block_count :=
         ir_programmed_block_count r + 1\<rparr>) (ses_result s)\<rparr>"

definition program_aligned_block ::
    "'h update_installer_session \<Rightarrow> host_context \<Rightarrow> u32 \<Rightarrow> bytes \<Rightarrow>
     update_install_status \<times> 'h update_installer_session \<times> host_context" where
  "program_aligned_block s c address data =
     (let flash = ses_restricted_flash s;
          detail = ses_programmed_block_count s;
          fault = maybe_fault (ses_options s) UPDATE_INSTALL_FAULT_PROGRAM_BLOCK detail
      in if fault \<noteq> UPDATE_INSTALL_OK then (fault, s, c)
         else case boot_flash_program_aligned flash c address data of
           (programmed, c') \<Rightarrow>
             if programmed \<noteq> BOOT_FLASH_OK then (UPDATE_INSTALL_ERR_PROGRAM, s, c')
             else let fault' = maybe_fault (ses_options s) UPDATE_INSTALL_FAULT_READBACK detail
                  in if fault' \<noteq> UPDATE_INSTALL_OK then (fault', s, c')
                     else case boot_flash_read flash c' address (length data) of
                       (readable, readback) \<Rightarrow>
                         if readable \<noteq> BOOT_FLASH_OK then (UPDATE_INSTALL_ERR_READBACK, s, c')
                         else if readback \<noteq> data then (UPDATE_INSTALL_ERR_READBACK, s, c')
                         else if ses_programmed_block_count s = UINT32_MAX
                         then (UPDATE_INSTALL_ERR_CAPACITY, s, c')
                         else (UPDATE_INSTALL_OK, count_block s, c'))"

definition set_program_buffer ::
    "'h update_installer_session \<Rightarrow> size_t \<Rightarrow> bytes \<Rightarrow> 'h update_installer_session" where
  "set_program_buffer s off data =
     s\<lparr>ses_options := (ses_options s)\<lparr>io_program_buffer :=
         bytes_write off data (io_program_buffer (ses_options s))\<rparr>\<rparr>"

text \<open>One step of the loop of \<^verbatim>\<open>program_source_range\<close>: fill the buffer and program it.\<close>

definition program_source_chunk ::
    "u32 \<Rightarrow> bytes \<Rightarrow> size_t \<Rightarrow> size_t \<Rightarrow> size_t \<Rightarrow> 'h update_installer_session \<Rightarrow> host_context \<Rightarrow>
     update_install_status \<times> 'h update_installer_session \<times> host_context" where
  "program_source_chunk base_address source data_size chunk offset s c =
     (let available = (if offset < data_size then min (data_size - offset) chunk else 0);
          s1 = set_program_buffer s 0 (replicate chunk 0xFF);
          s2 = set_program_buffer s1 0 (take available (drop offset source))
      in case checked_u32_add base_address (of_nat offset) of
           None \<Rightarrow> (UPDATE_INSTALL_ERR_CAPACITY, s2, c)
         | Some address \<Rightarrow>
             program_aligned_block s2 c address (take chunk (io_program_buffer (ses_options s2))))"

function program_source_loop ::
    "u32 \<Rightarrow> bytes \<Rightarrow> size_t \<Rightarrow> size_t \<Rightarrow> size_t \<Rightarrow> 'h update_installer_session \<Rightarrow> host_context \<Rightarrow>
     update_install_status \<times> 'h update_installer_session \<times> host_context" where
  "program_source_loop base_address source data_size padded_size offset s c =
     (if offset < padded_size then
        (let chunk = min (padded_size - offset) (io_program_buffer_size (ses_options s))
         in if chunk = 0 then (UPDATE_INSTALL_ERR_STATE, s, c)
            else case program_source_chunk base_address source data_size chunk offset s c of
              (status, s', c') \<Rightarrow>
                if status \<noteq> UPDATE_INSTALL_OK then (status, s', c')
                else program_source_loop base_address source data_size padded_size
                       (offset + chunk) s' c')
      else (UPDATE_INSTALL_OK, s, c))"
  by pat_completeness auto
termination
  by (relation "measure (\<lambda>(base_address, source, data_size, padded_size, offset, s, c).
        padded_size - offset)") auto

declare program_source_loop.simps [simp del]

definition program_source_range ::
    "u32 \<Rightarrow> bytes \<Rightarrow> size_t \<Rightarrow> size_t \<Rightarrow> 'h update_installer_session \<Rightarrow> host_context \<Rightarrow>
     update_install_status \<times> 'h update_installer_session \<times> host_context" where
  "program_source_range base_address source data_size padded_size s c =
     (if data_size > padded_size \<or> padded_size > SIZE_MAX
      then (UPDATE_INSTALL_ERR_INVALID_ARGUMENT, s, c)
      else program_source_loop base_address source data_size padded_size 0 s c)"

definition flush_payload_program_buffer ::
    "'h update_installer_session \<Rightarrow> host_context \<Rightarrow> bool \<Rightarrow>
     update_install_status \<times> 'h update_installer_session \<times> host_context" where
  "flush_payload_program_buffer s c final_flush =
     (let fill = ses_program_fill s;
          rounded = (if final_flush
                     then checked_round_up fill (unat (program_alignment (ses_restricted_flash s)))
                     else Some fill)
      in if fill = 0 then (UPDATE_INSTALL_OK, s, c)
         else if final_flush \<and> rounded = None then (UPDATE_INSTALL_ERR_CAPACITY, s, c)
         else if \<not> final_flush \<and> fill \<noteq> io_program_buffer_size (ses_options s)
         then (UPDATE_INSTALL_ERR_STATE, s, c)
         else let program_length = (case rounded of None \<Rightarrow> fill | Some n \<Rightarrow> n);
                  s1 = (if final_flush
                        then set_program_buffer s fill (replicate (size_sub program_length fill) 0xFF)
                        else s)
              in if ses_payload_programmed s > ses_payload_program_size s \<or>
                    program_length > ses_payload_program_size s - ses_payload_programmed s
                 then (UPDATE_INSTALL_ERR_CAPACITY, s1, c)
                 else case checked_u32_add (payload_base (ses_candidate s))
                             (of_nat (ses_payload_programmed s)) of
                   None \<Rightarrow> (UPDATE_INSTALL_ERR_CAPACITY, s1, c)
                 | Some address \<Rightarrow>
                     (case program_aligned_block s1 c address
                             (take program_length (io_program_buffer (ses_options s1))) of
                        (status, s2, c') \<Rightarrow>
                          if status \<noteq> UPDATE_INSTALL_OK then (status, s2, c')
                          else (UPDATE_INSTALL_OK,
                                s2\<lparr>ses_payload_programmed := ses_payload_programmed s2 + program_length,
                                   ses_program_fill := 0\<rparr>, c')))"

section \<open>Verification of the installed image\<close>

function hash_payload_loop ::
    "'h crypto \<Rightarrow> 'h update_installer_session \<Rightarrow> host_context \<Rightarrow> size_t \<Rightarrow> 'h \<Rightarrow>
     update_install_status + 'h" where
  "hash_payload_loop crypt s c offset ctx =
     (if offset < hdr_payload_size (ses_header s) then
        (let chunk = min (hdr_payload_size (ses_header s) - offset)
                         (io_readback_buffer_size (ses_options s))
         in if chunk = 0 then Inl UPDATE_INSTALL_ERR_STATE
            else case checked_u32_add (payload_base (ses_candidate s)) (of_nat offset) of
              None \<Rightarrow> Inl UPDATE_INSTALL_ERR_CAPACITY
            | Some address \<Rightarrow>
                (case boot_flash_read (ses_restricted_flash s) c address chunk of
                   (status, readback) \<Rightarrow>
                     if status \<noteq> BOOT_FLASH_OK then Inl UPDATE_INSTALL_ERR_READBACK
                     else hash_payload_loop crypt s c (offset + chunk)
                            (crypto_sha512_absorb crypt ctx readback)))
      else Inr ctx)"
  by pat_completeness auto
termination
  by (relation "measure (\<lambda>(crypt, s, c, offset, ctx). hdr_payload_size (ses_header s) - offset)")
    auto

declare hash_payload_loop.simps [simp del]

definition hash_installed_payload ::
    "'h crypto \<Rightarrow> 'h update_installer_session \<Rightarrow> host_context \<Rightarrow> update_install_status" where
  "hash_installed_payload crypt s c =
     (let version = image_version (hdr_manifest (ses_header s));
          fault = maybe_fault (ses_options s) UPDATE_INSTALL_FAULT_HASH_BEGIN version
      in if fault \<noteq> UPDATE_INSTALL_OK then fault
         else case hash_payload_loop crypt s c 0 (crypto_sha512_init crypt) of
           Inl status \<Rightarrow> status
         | Inr ctx \<Rightarrow>
             (let computed = crypto_sha512_final crypt ctx;
                  fault' = maybe_fault (ses_options s) UPDATE_INSTALL_FAULT_HASH_COMPLETE version
              in if fault' \<noteq> UPDATE_INSTALL_OK then fault'
                 else if \<not> crypto_verify64 computed (payload_sha512 (hdr_manifest (ses_header s)))
                 then UPDATE_INSTALL_ERR_HASH
                 else UPDATE_INSTALL_OK))"

definition manifest_matches_header :: "signed_manifest \<Rightarrow> update_package_header \<Rightarrow> bool" where
  "manifest_matches_header installed header \<longleftrightarrow>
     (let expected = hdr_manifest header
      in magic installed = magic expected \<and> header_version installed = header_version expected \<and>
         image_version installed = image_version expected \<and>
         vector_address installed = vector_address expected \<and>
         image_size installed = image_size expected \<and> flags installed = flags expected \<and>
         reserved0 installed = reserved0 expected \<and> reserved1 installed = reserved1 expected \<and>
         crypto_verify64 (payload_sha512 installed) (payload_sha512 expected))"

definition installed_header_matches_expected ::
    "(nat \<Rightarrow> u8) \<Rightarrow> boot_slot_descriptor \<Rightarrow> update_package_header \<Rightarrow> bool" where
  "installed_header_matches_expected mem cand header \<longleftrightarrow>
     slot_manifest mem cand = take SIGNED_MANIFEST_SIZE (hdr_manifest_bytes header) \<and>
     slot_signature mem cand = take SIGNED_SIGNATURE_SIZE (hdr_signature_bytes header) \<and>
     list_all (\<lambda>b. b = 0xFF)
       (mem_range mem (unat (signature_address cand + of_nat SIGNED_SIGNATURE_SIZE))
          (SIGNED_IMAGE_HEADER_SIZE - (SIGNED_MANIFEST_SIZE + SIGNED_SIGNATURE_SIZE)))"

definition installed_verify_status ::
    "'h crypto \<Rightarrow> 'h update_installer_session \<Rightarrow> host_context \<Rightarrow> verify_status" where
  "installed_verify_status crypt s c =
     (let mem = host_view c; cand = ses_candidate s;
          verified = signed_image_verify_update_slot_buffer crypt (slot_manifest mem cand)
            (slot_signature mem cand) (slot_payload mem cand)
            (unat (maximum_payload_size cand)) (ses_public_key s) cand
      in if verified \<noteq> VERIFY_OK then verified
         else case signed_image_decode_manifest (slot_manifest mem cand) of
           (decoded, manifest) \<Rightarrow>
             if decoded \<noteq> VERIFY_OK then decoded
             else if \<not> manifest_matches_header manifest (ses_header s) then VERIFY_BAD_SIGNATURE
             else if \<not> installed_header_matches_expected mem cand (ses_header s)
             then VERIFY_BAD_SIGNATURE
             else VERIFY_OK)"

definition verify_installed_package ::
    "'h crypto \<Rightarrow> 'h update_installer_session \<Rightarrow> host_context \<Rightarrow>
     update_install_status \<times> 'h update_installer_session" where
  "verify_installed_package crypt s c =
     (let fault = maybe_fault (ses_options s) UPDATE_INSTALL_FAULT_VERIFY_INSTALLED
                    (image_version (hdr_manifest (ses_header s)))
      in if fault \<noteq> UPDATE_INSTALL_OK then (fault, s)
         else let verified = installed_verify_status crypt s c;
                  s' = s\<lparr>ses_result := map_option (\<lambda>r. r\<lparr>ir_installed_verify_status := verified\<rparr>)
                          (ses_result s)\<rparr>
              in (if verified = VERIFY_OK then UPDATE_INSTALL_OK
                  else UPDATE_INSTALL_ERR_INSTALLED_VERIFY, s'))"

definition verify_streaming_payload_hash ::
    "'h crypto \<Rightarrow> 'h update_installer_session \<Rightarrow>
     update_install_status \<times> 'h update_installer_session" where
  "verify_streaming_payload_hash crypt s =
     (let computed = crypto_sha512_final crypt (ses_payload_hash_ctx s);
          s' = s\<lparr>ses_payload_hash_finalized := True\<rparr>
      in if \<not> crypto_verify64 computed (payload_sha512 (hdr_manifest (ses_header s)))
         then (UPDATE_INSTALL_ERR_HASH, s') else (UPDATE_INSTALL_OK, s'))"

section \<open>Session operations\<close>

definition zero_manifest :: signed_manifest where
  "zero_manifest =
     \<lparr>magic = 0, header_version = 0, image_version = 0, vector_address = 0, image_size = 0,
      flags = 0, reserved0 = 0, reserved1 = 0, payload_sha512 = replicate 64 0\<rparr>"

definition zero_metadata :: boot_metadata_record where
  "zero_metadata =
     \<lparr>sequence = 0, state = BOOT_METADATA_STATE_EMPTY, active_slot = 0, candidate_slot = 0,
      candidate_image_version = 0, boot_attempt_count = 0, confirmation_state = 0,
      result_code = 0\<rparr>"

definition no_recovery :: boot_metadata_recovery where
  "no_recovery =
     \<lparr>copy_a_valid = False, copy_b_valid = False, selected_copy = BOOT_METADATA_COPY_NONE\<rparr>"

text \<open>
  The session that \<^verbatim>\<open>memset\<close> leaves. The members that are null pointers there (flash, key,
  options, slots, hash state) hold the arguments of the initialisation or the default slot; they
  are not read before the session is initialised.
\<close>

definition empty_session ::
    "'h crypto \<Rightarrow> host_context boot_flash \<Rightarrow> bytes \<Rightarrow> update_install_options \<Rightarrow>
     update_install_result option \<Rightarrow> 'h update_installer_session" where
  "empty_session crypt flash public_key options result =
     \<lparr>ses_state = UPDATE_INSTALL_SESSION_EMPTY, ses_restricted_flash = flash,
      ses_public_key = public_key, ses_options = options, ses_result = result,
      ses_metadata_before = zero_metadata, ses_writing_metadata = zero_metadata,
      ses_metadata_recovery = no_recovery, ses_active = None, ses_candidate = boot_slot_default,
      ses_active_slot_id = 0,
      ses_header = \<lparr>hdr_manifest = zero_manifest, hdr_manifest_bytes = replicate 96 0,
                    hdr_signature_bytes = replicate 64 0, hdr_payload_size = 0,
                    hdr_package_size = 0\<rparr>,
      ses_payload_hash_ctx = crypto_sha512_init crypt,
      ses_payload_received = 0, ses_payload_programmed = 0, ses_payload_program_size = 0,
      ses_program_fill = 0, ses_programmed_block_count = 0,
      ses_metadata_writing_committed = False, ses_candidate_erased = False,
      ses_payload_hash_finalized = False\<rparr>"

definition empty_install_result :: update_install_result where
  "empty_install_result =
     \<lparr>ir_active_slot = BOOT_SLOT_NONE, ir_candidate_slot = BOOT_SLOT_NONE, ir_image_version = 0,
      ir_erased_sector_count = 0, ir_programmed_block_count = 0,
      ir_package_verify_status = VERIFY_BAD_PAYLOAD_RANGE,
      ir_installed_verify_status = VERIFY_BAD_PAYLOAD_RANGE,
      ir_metadata_recovery = no_recovery\<rparr>"

text \<open>A journal that recovery mode may replace: unreadable as a record, but readable as flash.\<close>

definition bootstrap_allowed :: "update_install_options \<Rightarrow> boot_metadata_status \<Rightarrow> bool" where
  "bootstrap_allowed options status \<longleftrightarrow>
     io_recovery_bootstrap options \<and>
     (status = BOOT_METADATA_ERR_NO_VALID_COPY \<or> status = BOOT_METADATA_ERR_AMBIGUOUS)"

definition start_metadata ::
    "update_install_options \<Rightarrow> recovered \<Rightarrow>
     (boot_metadata_record \<times> boot_metadata_recovery) option" where
  "start_metadata options recovered =
     (case recovered of
        (status, found) \<Rightarrow>
          if status = BOOT_METADATA_OK then found
          else if bootstrap_allowed options status then Some (boot_metadata_empty, no_recovery)
          else None)"

definition update_installer_session_init ::
    "'h crypto \<Rightarrow> host_context boot_flash \<Rightarrow> bytes \<Rightarrow> update_install_options \<Rightarrow>
     update_install_result option \<Rightarrow> host_context \<Rightarrow>
     update_install_status \<times> 'h update_installer_session" where
  "update_installer_session_init crypt flash public_key options result c =
     (let s0 = empty_session crypt flash public_key options result
      in if \<not> options_are_valid flash options then (UPDATE_INSTALL_ERR_INVALID_ARGUMENT, s0)
         else
           let s1 = s0\<lparr>ses_result := map_option (\<lambda>_. empty_install_result) result\<rparr>;
               failed = (\<lambda>status. (status, s1\<lparr>ses_state := UPDATE_INSTALL_SESSION_FAILED\<rparr>));
               recovered = boot_metadata_recover_from_flash flash c
           in case start_metadata options recovered of
                None \<Rightarrow> failed UPDATE_INSTALL_ERR_METADATA
              | Some (current, recovery) \<Rightarrow>
                  (case (if fst recovered \<noteq> BOOT_METADATA_OK then select_recovery_slot
                         else select_inactive_slot current) of
                     Inl status \<Rightarrow> failed status
                   | Inr (act, cand) \<Rightarrow>
                       (case init_restricted_flash flash cand of
                          Inl status \<Rightarrow> failed status
                        | Inr restricted \<Rightarrow>
                            (let act_id = (case act of None \<Rightarrow> BOOT_SLOT_NONE
                                           | Some slot \<Rightarrow> slot_num (slot_id slot))
                             in (UPDATE_INSTALL_OK,
                                 s1\<lparr>ses_state := UPDATE_INSTALL_SESSION_INITIALIZED,
                                    ses_restricted_flash := restricted,
                                    ses_metadata_before := current,
                                    ses_metadata_recovery := recovery,
                                    ses_active := act, ses_candidate := cand,
                                    ses_active_slot_id := act_id,
                                    ses_result := map_option (\<lambda>r. r\<lparr>ir_active_slot := act_id,
                                      ir_candidate_slot := slot_num (slot_id cand),
                                      ir_metadata_recovery := recovery\<rparr>) (ses_result s1)\<rparr>)))))"

text \<open>\<^verbatim>\<open>update_installer_begin\<close> up to the first write: journal, header, version and space.\<close>

definition begin_checks ::
    "'h crypto \<Rightarrow> 'h update_installer_session \<Rightarrow> host_context \<Rightarrow> bytes \<Rightarrow>
     update_install_status \<times> 'h update_installer_session" where
  "begin_checks crypt s c header_bytes =
     (case start_metadata (ses_options s)
             (boot_metadata_recover_from_flash (ses_restricted_flash s) c) of
        None \<Rightarrow> (UPDATE_INSTALL_ERR_METADATA, s)
      | Some (recovered, _) \<Rightarrow>
          if \<not> metadata_matches_start recovered (ses_metadata_before s)
          then (UPDATE_INSTALL_ERR_ACTIVE_STATE, s)
          else case update_package_verify_header_for_slot crypt header_bytes (ses_public_key s)
                      (ses_candidate s) of
            (package, verified) \<Rightarrow>
              (let s1 = s\<lparr>ses_result := map_option (\<lambda>r. r\<lparr>ir_package_verify_status := verified\<rparr>)
                           (ses_result s)\<rparr>
               in case package of
                    Inl _ \<Rightarrow> (UPDATE_INSTALL_ERR_PACKAGE, s1)
                  | Inr header \<Rightarrow>
                      (let s2 = s1\<lparr>ses_header := header\<rparr>
                       in case confirmed_version_for_update crypt s2 c of
                            Inl status \<Rightarrow> (status, s2)
                          | Inr confirmed_version \<Rightarrow>
                              if image_version (hdr_manifest header) \<le> confirmed_version
                              then (UPDATE_INSTALL_ERR_ROLLBACK, s2)
                              else case candidate_package_fits (ses_restricted_flash s)
                                          (ses_candidate s) header of
                                Inl status \<Rightarrow> (status, s2)
                              | Inr payload_program_size \<Rightarrow>
                                  (UPDATE_INSTALL_OK,
                                   s2\<lparr>ses_payload_program_size := payload_program_size,
                                      ses_result := map_option (\<lambda>r. r\<lparr>ir_image_version :=
                                        image_version (hdr_manifest header)\<rparr>) (ses_result s2)\<rparr>))))"

text \<open>The journal entry that announces the update.\<close>

definition begin_journal ::
    "'h update_installer_session \<Rightarrow> host_context \<Rightarrow> update_install_status \<times> host_context" where
  "begin_journal s c =
     (let version = image_version (hdr_manifest (ses_header s));
          cand = slot_num (slot_id (ses_candidate s))
      in if io_recovery_bootstrap (ses_options s) \<and>
            \<not> copy_a_valid (ses_metadata_recovery s) \<and> \<not> copy_b_valid (ses_metadata_recovery s)
         then
           (case boot_metadata_prepare_next (ses_metadata_before s) BOOT_METADATA_STATE_WRITING
                   (ses_active_slot_id s) cand version 0 0 0 of
              Inl _ \<Rightarrow> (UPDATE_INSTALL_ERR_METADATA, c)
            | Inr writing \<Rightarrow>
                (let fault = maybe_fault (ses_options s) UPDATE_INSTALL_FAULT_METADATA_WRITING version
                 in if fault \<noteq> UPDATE_INSTALL_OK then (fault, c)
                    else case boot_metadata_reinitialize_for_recovery (ses_restricted_flash s) c
                                writing of
                      (status, c') \<Rightarrow>
                        (if status = BOOT_METADATA_OK then UPDATE_INSTALL_OK
                         else UPDATE_INSTALL_ERR_METADATA, c')))
         else commit_metadata_state (ses_restricted_flash s) c (ses_metadata_before s)
                BOOT_METADATA_STATE_WRITING (ses_active_slot_id s) cand version (ses_options s)
                UPDATE_INSTALL_FAULT_METADATA_WRITING)"

text \<open>The rest: read the entry back, erase the slot, program the header.\<close>

definition begin_store ::
    "'h crypto \<Rightarrow> 'h update_installer_session \<Rightarrow> host_context \<Rightarrow> bytes \<Rightarrow>
     update_install_status \<times> 'h update_installer_session \<times> host_context" where
  "begin_store crypt s c header_bytes =
     (case boot_metadata_recover_from_flash (ses_restricted_flash s) c of
        (BOOT_METADATA_OK, Some (writing, _)) \<Rightarrow>
          (let s1 = s\<lparr>ses_writing_metadata := writing\<rparr>
           in if state writing \<noteq> BOOT_METADATA_STATE_WRITING \<or>
                 active_slot writing \<noteq> ses_active_slot_id s \<or>
                 candidate_slot writing \<noteq> slot_num (slot_id (ses_candidate s))
              then fail_session s1 c UPDATE_INSTALL_ERR_METADATA
              else case erase_candidate_slot s1 c of
                (erase_status, s2, c2) \<Rightarrow>
                  if erase_status \<noteq> UPDATE_INSTALL_OK then fail_session s2 c2 erase_status
                  else case program_source_range (signed_image_base (ses_candidate s)) header_bytes
                              SIGNED_IMAGE_HEADER_SIZE SIGNED_IMAGE_HEADER_SIZE
                              (s2\<lparr>ses_candidate_erased := True\<rparr>) c2 of
                    (programmed, s3, c3) \<Rightarrow>
                      if programmed \<noteq> UPDATE_INSTALL_OK then fail_session s3 c3 programmed
                      else (UPDATE_INSTALL_OK,
                            s3\<lparr>ses_payload_hash_ctx := crypto_sha512_init crypt,
                               ses_state := UPDATE_INSTALL_SESSION_WRITING\<rparr>, c3))
      | _ \<Rightarrow> fail_session s c UPDATE_INSTALL_ERR_METADATA)"

definition update_installer_begin ::
    "'h crypto \<Rightarrow> 'h update_installer_session \<Rightarrow> host_context \<Rightarrow> bytes \<Rightarrow>
     update_install_status \<times> 'h update_installer_session \<times> host_context" where
  "update_installer_begin crypt s c header_bytes =
     (if ses_state s \<noteq> UPDATE_INSTALL_SESSION_INITIALIZED then (UPDATE_INSTALL_ERR_STATE, s, c)
      else case begin_checks crypt s c header_bytes of
        (checked, s1) \<Rightarrow>
          if checked \<noteq> UPDATE_INSTALL_OK then fail_session s1 c checked
          else case begin_journal s1 c of
            (announced, c1) \<Rightarrow>
              if announced \<noteq> UPDATE_INSTALL_OK then fail_session s1 c1 announced
              else begin_store crypt (s1\<lparr>ses_metadata_writing_committed := True\<rparr>) c1 header_bytes)"

text \<open>One step of the loop of \<^verbatim>\<open>update_installer_write\<close>: buffer and hash some bytes, flush a full buffer.\<close>

definition write_chunk ::
    "'h crypto \<Rightarrow> 'h update_installer_session \<Rightarrow> host_context \<Rightarrow> bytes \<Rightarrow>
     update_install_status \<times> 'h update_installer_session \<times> host_context" where
  "write_chunk crypt s c piece =
     (let s1 = (set_program_buffer s (ses_program_fill s) piece)
                 \<lparr>ses_payload_hash_ctx := crypto_sha512_absorb crypt (ses_payload_hash_ctx s) piece,
                  ses_program_fill := size_add (ses_program_fill s) (length piece),
                  ses_payload_received := size_add (ses_payload_received s) (length piece)\<rparr>
      in if ses_program_fill s1 = io_program_buffer_size (ses_options s1)
         then (case flush_payload_program_buffer s1 c False of
                 (status, s2, c') \<Rightarrow>
                   if status \<noteq> UPDATE_INSTALL_OK then fail_session s2 c' status
                   else (UPDATE_INSTALL_OK, s2, c'))
         else (UPDATE_INSTALL_OK, s1, c))"

function write_loop ::
    "'h crypto \<Rightarrow> 'h update_installer_session \<Rightarrow> host_context \<Rightarrow> bytes \<Rightarrow>
     update_install_status \<times> 'h update_installer_session \<times> host_context" where
  "write_loop crypt s c input =
     (if 0 < length input then
        (let buffer_space = size_sub (io_program_buffer_size (ses_options s)) (ses_program_fill s);
             consumed = min (length input) buffer_space
         in if consumed = 0 then (UPDATE_INSTALL_ERR_STATE, s, c)
            else case write_chunk crypt s c (take consumed input) of
              (status, s', c') \<Rightarrow>
                if status \<noteq> UPDATE_INSTALL_OK then (status, s', c')
                else write_loop crypt s' c' (drop consumed input))
      else (UPDATE_INSTALL_OK, s, c))"
  by pat_completeness auto
termination
  by (relation "measure (\<lambda>(crypt, s, c, input). length input)") auto

declare write_loop.simps [simp del]

definition update_installer_write ::
    "'h crypto \<Rightarrow> 'h update_installer_session \<Rightarrow> host_context \<Rightarrow> size_t \<Rightarrow> bytes \<Rightarrow>
     update_install_status \<times> 'h update_installer_session \<times> host_context" where
  "update_installer_write crypt s c payload_offset data =
     (if ses_state s = UPDATE_INSTALL_SESSION_PAYLOAD_COMPLETE
      then fail_session s c UPDATE_INSTALL_ERR_SEQUENCE
      else if ses_state s \<noteq> UPDATE_INSTALL_SESSION_WRITING then (UPDATE_INSTALL_ERR_STATE, s, c)
      else if length data = 0 then (UPDATE_INSTALL_ERR_INVALID_ARGUMENT, s, c)
      else if payload_offset \<noteq> ses_payload_received s
      then fail_session s c UPDATE_INSTALL_ERR_SEQUENCE
      else if length data > size_sub (hdr_payload_size (ses_header s)) (ses_payload_received s)
      then fail_session s c UPDATE_INSTALL_ERR_SEQUENCE
      else case write_loop crypt s c data of
        (status, s1, c1) \<Rightarrow>
          if status \<noteq> UPDATE_INSTALL_OK then (status, s1, c1)
          else if ses_payload_received s1 = hdr_payload_size (ses_header s1)
          then (UPDATE_INSTALL_OK, s1\<lparr>ses_state := UPDATE_INSTALL_SESSION_PAYLOAD_COMPLETE\<rparr>, c1)
          else (UPDATE_INSTALL_OK, s1, c1))"

definition update_installer_finish ::
    "'h crypto \<Rightarrow> 'h update_installer_session \<Rightarrow> host_context \<Rightarrow>
     update_install_status \<times> 'h update_installer_session \<times> host_context" where
  "update_installer_finish crypt s c =
     (if ses_state s = UPDATE_INSTALL_SESSION_WRITING
      then fail_session s c UPDATE_INSTALL_ERR_SEQUENCE
      else if ses_state s \<noteq> UPDATE_INSTALL_SESSION_PAYLOAD_COMPLETE
      then (UPDATE_INSTALL_ERR_STATE, s, c)
      else case flush_payload_program_buffer s c True of
        (flushed, s1, c1) \<Rightarrow>
          if flushed \<noteq> UPDATE_INSTALL_OK then fail_session s1 c1 flushed
          else if ses_payload_programmed s1 \<noteq> ses_payload_program_size s1
          then fail_session s1 c1 UPDATE_INSTALL_ERR_CAPACITY
          else case verify_streaming_payload_hash crypt s1 of
            (streamed, s2) \<Rightarrow>
              if streamed \<noteq> UPDATE_INSTALL_OK then fail_session s2 c1 streamed
              else let hashed = hash_installed_payload crypt s2 c1
                   in if hashed \<noteq> UPDATE_INSTALL_OK then fail_session s2 c1 hashed
                      else case verify_installed_package crypt s2 c1 of
                        (verified, s3) \<Rightarrow>
                          if verified \<noteq> UPDATE_INSTALL_OK then fail_session s3 c1 verified
                          else case commit_metadata_state (ses_restricted_flash s3) c1
                                      (ses_writing_metadata s3) BOOT_METADATA_STATE_CANDIDATE_READY
                                      (ses_active_slot_id s3) (slot_num (slot_id (ses_candidate s3)))
                                      (image_version (hdr_manifest (ses_header s3))) (ses_options s3)
                                      UPDATE_INSTALL_FAULT_METADATA_CANDIDATE_READY of
                            (committed, c2) \<Rightarrow>
                              if committed \<noteq> UPDATE_INSTALL_OK then fail_session s3 c2 committed
                              else (UPDATE_INSTALL_OK,
                                    s3\<lparr>ses_state := UPDATE_INSTALL_SESSION_FINISHED\<rparr>, c2))"

definition update_installer_abort ::
    "'h update_installer_session \<Rightarrow> host_context \<Rightarrow>
     update_install_status \<times> 'h update_installer_session \<times> host_context" where
  "update_installer_abort s c =
     (let flash = ses_restricted_flash s;
          cand = slot_num (slot_id (ses_candidate s));
          version = image_version (hdr_manifest (ses_header s));
          aborted = s\<lparr>ses_state := UPDATE_INSTALL_SESSION_ABORTED\<rparr>
      in if ses_state s = UPDATE_INSTALL_SESSION_FINISHED then (UPDATE_INSTALL_ERR_STATE, s, c)
         else if ses_state s = UPDATE_INSTALL_SESSION_ABORTED then (UPDATE_INSTALL_OK, s, c)
         else if \<not> ses_metadata_writing_committed s then (UPDATE_INSTALL_OK, aborted, c)
         else case boot_metadata_recover_from_flash flash c of
           (BOOT_METADATA_OK, Some (current, _)) \<Rightarrow>
             if state current = BOOT_METADATA_STATE_WRITING \<and>
                active_slot current = ses_active_slot_id s \<and> candidate_slot current = cand \<and>
                candidate_image_version current = version
             then (case boot_metadata_prepare_next current BOOT_METADATA_STATE_REJECTED_INVALID
                          (ses_active_slot_id s) cand version 0 0 0 of
                     Inl _ \<Rightarrow> fail_session s c UPDATE_INSTALL_ERR_METADATA
                   | Inr rejected \<Rightarrow>
                       (case boot_metadata_commit flash c rejected of
                          (status, c') \<Rightarrow>
                            if status \<noteq> BOOT_METADATA_OK
                            then fail_session s c' UPDATE_INSTALL_ERR_METADATA
                            else (UPDATE_INSTALL_OK, aborted, c')))
             else if state current = BOOT_METADATA_STATE_CANDIDATE_READY
             then fail_session s c UPDATE_INSTALL_ERR_STATE
             else (UPDATE_INSTALL_OK, aborted, c)
         | _ \<Rightarrow> fail_session s c UPDATE_INSTALL_ERR_METADATA)"

function install_loop ::
    "'h crypto \<Rightarrow> update_install_options \<Rightarrow> bytes \<Rightarrow> size_t \<Rightarrow> size_t \<Rightarrow>
     'h update_installer_session \<Rightarrow> host_context \<Rightarrow>
     update_install_status \<times> 'h update_installer_session \<times> host_context" where
  "install_loop crypt options payload payload_size payload_offset s c =
     (if payload_offset < payload_size then
        (let chunk = min (payload_size - payload_offset) (io_program_buffer_size options)
         in if chunk = 0 then (UPDATE_INSTALL_ERR_STATE, s, c)
            else case update_installer_write crypt s c payload_offset
                        (take chunk (drop payload_offset payload)) of
              (status, s', c') \<Rightarrow>
                if status \<noteq> UPDATE_INSTALL_OK
                then (case update_installer_abort s' c' of (_, s2, c2) \<Rightarrow> (status, s2, c2))
                else install_loop crypt options payload payload_size (payload_offset + chunk) s' c')
      else case update_installer_finish crypt s c of
        (status, s', c') \<Rightarrow>
          if status \<noteq> UPDATE_INSTALL_OK
          then (case update_installer_abort s' c' of (_, s2, c2) \<Rightarrow> (status, s2, c2))
          else (UPDATE_INSTALL_OK, s', c'))"
  by pat_completeness auto
termination
  by (relation "measure (\<lambda>(crypt, options, payload, payload_size, payload_offset, s, c).
        payload_size - payload_offset)") auto

declare install_loop.simps [simp del]

text \<open>The result that the caller sees is that of the returned session.\<close>

definition update_installer_install ::
    "'h crypto \<Rightarrow> host_context boot_flash \<Rightarrow> bytes \<Rightarrow> bytes \<Rightarrow> update_install_options \<Rightarrow>
     update_install_result option \<Rightarrow> host_context \<Rightarrow>
     update_install_status \<times> 'h update_installer_session \<times> host_context" where
  "update_installer_install crypt flash package_bytes public_key options result c =
     (case update_installer_session_init crypt flash public_key options result c of
        (started, s0) \<Rightarrow>
          if started \<noteq> UPDATE_INSTALL_OK then (started, s0, c)
          else case update_package_verify_for_slot crypt package_bytes public_key
                      (ses_candidate s0) of
            (package, verified) \<Rightarrow>
              (let s1 = s0\<lparr>ses_result := map_option (\<lambda>r. r\<lparr>ir_package_verify_status := verified\<rparr>)
                            (ses_result s0)\<rparr>
               in case package of
                    Inl _ \<Rightarrow> (UPDATE_INSTALL_ERR_PACKAGE, s1, c)
                  | Inr pkg \<Rightarrow>
                      (case update_installer_begin crypt s1 c
                              (take SIGNED_IMAGE_HEADER_SIZE package_bytes) of
                         (begun, s2, c2) \<Rightarrow>
                           if begun \<noteq> UPDATE_INSTALL_OK then (begun, s2, c2)
                           else install_loop crypt options (pkg_payload pkg) (pkg_payload_size pkg)
                                  0 s2 c2)))"

end
