(* ===== verification/Update_Session.thy ===== *)
theory Update_Session
  imports Update_Installer
begin

text \<open>
  What the operations of an installer session may change: the session members they keep, the
  flash addresses they leave alone and the health of the device. The properties of the installer
  rest on these lemmas and on the journal contract.
\<close>

section \<open>Frames\<close>

definition session_fixed where
  "session_fixed (s :: 'h update_installer_session) =
     (ses_restricted_flash s, ses_public_key s, ses_active s, ses_candidate s, ses_active_slot_id s,
      (ses_metadata_before s, ses_metadata_recovery s),
      (io_program_buffer_size (ses_options s), io_readback_buffer_size (ses_options s),
       io_fault_hook (ses_options s), io_recovery_bootstrap (ses_options s)))"

text \<open>Everything but the counters, the result and the contents of the program buffer.\<close>

definition session_core :: "'h update_installer_session \<Rightarrow> 'h update_installer_session" where
  "session_core s =
     s\<lparr>ses_result := None, ses_programmed_block_count := 0,
       ses_options := (ses_options s)\<lparr>io_program_buffer := []\<rparr>\<rparr>"

definition session_device :: "'h update_installer_session \<Rightarrow> bool" where
  "session_device s \<longleftrightarrow>
     wf_flash (ses_restricted_flash s) \<and> flash_ops (ses_restricted_flash s) = writable_ops \<and>
     write_regions (ses_restricted_flash s) = restricted_regions (ses_candidate s) \<and>
     (ses_candidate s = boot_slot_a \<or> ses_candidate s = boot_slot_b)"

definition in_candidate :: "'h update_installer_session \<Rightarrow> nat \<Rightarrow> bool" where
  "in_candidate s n \<longleftrightarrow> in_slot (ses_candidate s) n"

definition kept :: "(nat \<Rightarrow> bool) \<Rightarrow> host_context \<Rightarrow> host_context \<Rightarrow> bool" where
  "kept R c c' \<longleftrightarrow>
     (host_healthy c \<longrightarrow> host_healthy c') \<and>
     (\<forall>n. in_flash n \<longrightarrow> \<not> R n \<longrightarrow> host_view c' n = host_view c n)"

lemma kept_refl [simp, intro]: "kept R c c"
  by (simp add: kept_def)

lemma kept_trans: "kept R c c' \<Longrightarrow> kept R c' c'' \<Longrightarrow> kept R c c''"
  by (auto simp: kept_def)

lemma kept_mono: "kept R c c' \<Longrightarrow> (\<And>n. R n \<Longrightarrow> Q n) \<Longrightarrow> kept Q c c'"
  by (auto simp: kept_def)

lemma core_fixed: "session_core s' = session_core s \<Longrightarrow> session_fixed s' = session_fixed s"
proof -
  assume eq: "session_core s' = session_core s"
  have "session_fixed (session_core s) = session_fixed s" for s :: "'h update_installer_session"
    by (simp add: session_core_def session_fixed_def)
  then show ?thesis using eq by metis
qed

lemma core_members:
  assumes "session_core s' = session_core s"
  shows "ses_restricted_flash s' = ses_restricted_flash s" "ses_candidate s' = ses_candidate s"
    "ses_header s' = ses_header s" "ses_state s' = ses_state s"
    "ses_writing_metadata s' = ses_writing_metadata s" "ses_public_key s' = ses_public_key s"
    "ses_active_slot_id s' = ses_active_slot_id s" "ses_program_fill s' = ses_program_fill s"
    "ses_payload_programmed s' = ses_payload_programmed s"
    "ses_payload_received s' = ses_payload_received s"
    "ses_payload_program_size s' = ses_payload_program_size s"
    "ses_payload_hash_ctx s' = ses_payload_hash_ctx s"
    "ses_metadata_writing_committed s' = ses_metadata_writing_committed s"
    "ses_metadata_before s' = ses_metadata_before s" "ses_active s' = ses_active s"
    "ses_metadata_recovery s' = ses_metadata_recovery s"
    "ses_candidate_erased s' = ses_candidate_erased s"
  using assms by (cases s; cases s'; simp add: session_core_def)+

lemma writable_restricted:
  assumes "session_device s"
  shows "writable (ses_restricted_flash s) n \<longleftrightarrow> in_metadata n \<or> in_candidate s n"
  using assms
  by (auto simp: session_device_def writable_def restricted_regions_def in_candidate_def in_slot_def
      in_region_def mk_region_def in_metadata_def)

lemma candidate_not_metadata: "session_device s \<Longrightarrow> in_candidate s n \<Longrightarrow> \<not> in_metadata n"
  by (auto simp: session_device_def in_candidate_def in_slot_def in_metadata_def boot_slot_rows)

lemma candidate_above_metadata:
  "session_device s \<Longrightarrow> unat BOOT_METADATA_B_END \<le> unat (signed_image_base (ses_candidate s))"
  by (auto simp: session_device_def boot_slot_rows)

lemma session_journal:
  "session_device s \<Longrightarrow> journal_device writable_ops host_view host_healthy (ses_restricted_flash s)"
  by (rule host_journal_device) (simp_all add: session_device_def)

lemma kept_program:
  assumes dev: "session_device s"
    and run: "boot_flash_program_aligned (ses_restricted_flash s) c a d = (st, c')"
    and above: "unat (signed_image_base (ses_candidate s)) \<le> unat a"
  shows "kept (in_candidate s) c c'"
proof -
  have f: "flash_ops (ses_restricted_flash s) = writable_ops" "wf_flash (ses_restricted_flash s)"
    using dev by (simp_all add: session_device_def)
  have "\<not> (unat a \<le> n \<and> n < unat a + length d \<and> writable (ses_restricted_flash s) n)"
    if "\<not> in_candidate s n" for n
    using that above candidate_above_metadata [OF dev] writable_restricted [OF dev, of n]
    by (auto simp: in_metadata_def)
  then show ?thesis
    using host_frame.program_aligned_frame [OF f run] host_backend.program_aligned_torn [OF f _ run]
    by (auto simp: kept_def)
qed

lemma program_block_cases:
  assumes "program_aligned_block s c a d = (st, s', c')"
  obtains (untouched) "c' = c" "s' = s" "st \<noteq> UPDATE_INSTALL_OK"
  | (failed) p where "boot_flash_program_aligned (ses_restricted_flash s) c a d = (p, c')"
      "s' = s" "st \<noteq> UPDATE_INSTALL_OK"
  | (programmed) "boot_flash_program_aligned (ses_restricted_flash s) c a d = (BOOT_FLASH_OK, c')"
      "s' = count_block s" "st = UPDATE_INSTALL_OK"
  using assms
  by (auto simp: program_aligned_block_def Let_def split: prod.splits if_splits)

lemma count_block_core [simp]: "session_core (count_block s) = session_core s"
  by (simp add: count_block_def session_core_def)

lemma set_buffer_core [simp]: "session_core (set_program_buffer s off d) = session_core s"
  by (simp add: set_program_buffer_def session_core_def)

lemma program_block_kept:
  assumes dev: "session_device s" and run: "program_aligned_block s c a d = (st, s', c')"
    and above: "unat (signed_image_base (ses_candidate s)) \<le> unat a"
  shows "session_core s' = session_core s \<and> kept (in_candidate s) c c'"
  using run
proof (cases rule: program_block_cases)
  case (failed p)
  then show ?thesis using kept_program [OF dev failed(1) above] by simp
next
  case programmed
  then show ?thesis using kept_program [OF dev programmed(1) above] by simp
qed simp

lemma device_core:
  assumes "session_core s' = session_core s"
  shows "session_device s' = session_device s"
  by (simp add: session_device_def core_members(1,2) [OF assms])

lemma candidate_core:
  assumes "session_core s' = session_core s"
  shows "in_candidate s' = in_candidate s"
  by (simp add: in_candidate_def core_members(2) [OF assms] fun_eq_iff)

section \<open>Loop rules\<close>

text \<open>Invariant rules for the loops: \<open>P\<close> holds at every head, \<open>Q\<close> of every result.\<close>

lemma program_source_loop_rule:
  assumes "P off s c"
    and step: "\<And>off s c chunk st s' c'. P off s c \<Longrightarrow> off < m \<Longrightarrow>
      chunk = min (m - off) (io_program_buffer_size (ses_options s)) \<Longrightarrow> 0 < chunk \<Longrightarrow>
      program_source_chunk base src n chunk off s c = (st, s', c') \<Longrightarrow>
      if st = UPDATE_INSTALL_OK then P (off + chunk) s' c' else Q st s' c'"
    and final: "\<And>off s c. P off s c \<Longrightarrow> m \<le> off \<Longrightarrow> Q UPDATE_INSTALL_OK s c"
    and stuck: "\<And>off s c. P off s c \<Longrightarrow> io_program_buffer_size (ses_options s) = 0 \<Longrightarrow>
      Q UPDATE_INSTALL_ERR_STATE s c"
    and run: "program_source_loop base src n m off s c = (st, s', c')"
  shows "Q st s' c'"
  using assms(1) run
proof (induction "m - off" arbitrary: off s c rule: less_induct)
  case less
  let ?chunk = "min (m - off) (io_program_buffer_size (ses_options s))"
  note run = less.prems(2) [unfolded program_source_loop.simps [of base src n m off s c] Let_def]
  consider "m \<le> off" | "off < m" "?chunk = 0" | "off < m" "0 < ?chunk" by linarith
  then show ?case
  proof cases
    case 3
    obtain p s1 c1 where c: "program_source_chunk base src n ?chunk off s c = (p, s1, c1)"
      by (metis prod_cases3)
    note st = step [OF less.prems(1) 3(1) refl 3(2) c]
    show ?thesis
    proof (cases "p = UPDATE_INSTALL_OK")
      case True
      with run 3 c have "program_source_loop base src n m (off + ?chunk) s1 c1 = (st, s', c')" by simp
      moreover have "m - (off + ?chunk) < m - off" using 3 by linarith
      ultimately show ?thesis using less.hyps [of "off + ?chunk" s1 c1] st True by simp
    qed (use run 3 c st in simp)
  qed (use run final [OF less.prems(1)] stuck [OF less.prems(1)] in \<open>auto simp: min_def split: if_splits\<close>)
qed

lemma write_loop_rule:
  assumes "P s c input"
    and step: "\<And>s c input k st s' c'. P s c input \<Longrightarrow> 0 < k \<Longrightarrow> k \<le> length input \<Longrightarrow>
      k = min (length input)
            (size_sub (io_program_buffer_size (ses_options s)) (ses_program_fill s)) \<Longrightarrow>
      write_chunk crypt s c (take k input) = (st, s', c') \<Longrightarrow>
      if st = UPDATE_INSTALL_OK then P s' c' (drop k input) else Q st s' c'"
    and final: "\<And>s c. P s c [] \<Longrightarrow> Q UPDATE_INSTALL_OK s c"
    and stuck: "\<And>s c input. P s c input \<Longrightarrow>
      size_sub (io_program_buffer_size (ses_options s)) (ses_program_fill s) = 0 \<Longrightarrow>
      Q UPDATE_INSTALL_ERR_STATE s c"
    and run: "write_loop crypt s c input = (st, s', c')"
  shows "Q st s' c'"
  using assms(1) run
proof (induction "length input" arbitrary: s c input rule: less_induct)
  case less
  define k where "k = min (length input)
    (size_sub (io_program_buffer_size (ses_options s)) (ses_program_fill s))"
  note run = less.prems(2) [unfolded write_loop.simps [of crypt s c input] Let_def, folded k_def]
  consider "input = []" | "input \<noteq> []" "k = 0" | "0 < k" "input \<noteq> []"
    by (cases "k = 0") (auto simp: k_def)
  then show ?case
  proof cases
    case 3
    have len: "k \<le> length input" by (simp add: k_def)
    obtain p s1 c1 where c: "write_chunk crypt s c (take k input) = (p, s1, c1)"
      by (metis prod_cases3)
    note st = step [OF less.prems(1) 3(1) len k_def c]
    show ?thesis
    proof (cases "p = UPDATE_INSTALL_OK")
      case True
      with run 3 c have "write_loop crypt s1 c1 (drop k input) = (st, s', c')" by simp
      moreover have "length (drop k input) < length input" using 3 len by simp
      ultimately show ?thesis using less.hyps [of "drop k input" s1 c1] st True by simp
    qed (use run 3 c st in simp)
  next
    case 2
    then show ?thesis using run stuck [OF less.prems(1)] by (simp add: k_def min_def split: if_splits)
  qed (use run final less.prems(1) in simp)
qed

section \<open>What the operations keep\<close>

lemma source_chunk_kept:
  assumes dev: "session_device s"
    and above: "unat (signed_image_base (ses_candidate s)) \<le> unat base"
    and run: "program_source_chunk base src n k off s c = (st, s', c')"
  shows "session_core s' = session_core s \<and> kept (in_candidate s) c c'"
proof (cases "checked_u32_add base (of_nat off)")
  case None
  with run show ?thesis by (auto simp: program_source_chunk_def Let_def)
next
  case (Some a)
  define s2 where "s2 = set_program_buffer (set_program_buffer s 0 (replicate k 0xFF)) 0
    (take (if off < n then min (n - off) k else 0) (drop off src))"
  have core: "session_core s2 = session_core s" by (simp add: s2_def)
  from run Some have blk: "program_aligned_block s2 c a (take k (io_program_buffer (ses_options s2))) = (st, s', c')"
    by (simp add: program_source_chunk_def Let_def s2_def)
  have "unat (signed_image_base (ses_candidate s2)) \<le> unat a"
    using above checked_u32_add_unat [OF Some] core_members(2) [OF core] by simp
  with program_block_kept [OF _ blk] dev show ?thesis
    by (simp add: device_core [OF core] candidate_core [OF core] core)
qed

lemma program_source_range_kept:
  assumes dev: "session_device s"
    and above: "unat (signed_image_base (ses_candidate s)) \<le> unat base"
    and run: "program_source_range base src n m s c = (st, s', c')"
  shows "session_core s' = session_core s \<and> kept (in_candidate s) c c'"
proof (cases "n > m \<or> m > SIZE_MAX")
  case False
  with run have loop: "program_source_loop base src n m 0 s c = (st, s', c')"
    by (simp add: program_source_range_def)
  let ?P = "\<lambda>s1 c1. session_core s1 = session_core s \<and> kept (in_candidate s) c c1"
  show ?thesis
  proof (rule program_source_loop_rule [where P = "\<lambda>_. ?P" and Q = "\<lambda>_. ?P", OF _ _ _ _ loop])
    fix off s1 c1 k st s2 c2
    assume p: "?P s1 c1" and run: "program_source_chunk base src n k off s1 c1 = (st, s2, c2)"
    from p have "session_core s1 = session_core s" ..
    note core = this device_core [OF this] candidate_core [OF this] core_members(2) [OF this]
    from source_chunk_kept [OF _ _ run] p core dev above
    show "if st = UPDATE_INSTALL_OK then ?P s2 c2 else ?P s2 c2"
      by (auto intro: kept_trans)
  qed auto
qed (use run in \<open>auto simp: program_source_range_def\<close>)

lemma kept_erase:
  assumes dev: "session_device s" and i: "5 \<le> unat i"
    and run: "boot_flash_erase_sector (ses_restricted_flash s) c i = (st, c')"
  shows "kept (in_candidate s) c c'"
proof -
  have f: "flash_ops (ses_restricted_flash s) = writable_ops"
    using dev by (simp add: session_device_def)
  have low: "\<not> in_metadata n" if n: "in_sector i n" and lt: "unat i < 12" for n
  proof -
    from i lt consider "unat i = 5" | "unat i = 6" | "unat i = 7" | "unat i = 8" | "unat i = 9"
      | "unat i = 10" | "unat i = 11" by linarith
    then show ?thesis using n
      by cases (simp_all add: in_sector_def in_metadata_def boot_flash_sectors_def mk_sector_def)
  qed
  show ?thesis
  proof (cases "unat i < 12")
    case True
    with low writable_restricted [OF dev] host_frame.erase_sector_frame [OF f run]
      host_backend.erase_sector_law [OF f _ run] show ?thesis
      unfolding kept_def by blast
  next
    case False
    with run have "c' = c" by (simp add: boot_flash_erase_sector_def boot_flash_sector_by_id_def)
    then show ?thesis by simp
  qed
qed

lemma erase_sectors_kept:
  assumes "session_device s" "\<forall>i \<in> set is. 5 \<le> unat i" "erase_sectors is s c = (st, s', c')"
  shows "session_core s' = session_core s \<and> kept (in_candidate s) c c'"
  using assms
proof (induction "is" s c rule: erase_sectors.induct)
  case (2 i "is" s c)
  obtain e c1 where er: "boot_flash_erase_sector (ses_restricted_flash s) c i = (e, c1)" by fastforce
  let ?s = "s\<lparr>ses_result := map_option (\<lambda>r. r\<lparr>ir_erased_sector_count :=
    ir_erased_sector_count r + 1\<rparr>) (ses_result s)\<rparr>"
  have core: "session_core ?s = session_core s" by (simp add: session_core_def)
  have k: "kept (in_candidate s) c c1" using "2.prems" by (intro kept_erase [OF _ _ er]) auto
  show ?case
  proof (cases "maybe_fault (ses_options s) UPDATE_INSTALL_FAULT_ERASE_SECTOR i = UPDATE_INSTALL_OK \<and>
      e = BOOT_FLASH_OK")
    case True
    with "2.prems"(3) er have "erase_sectors is ?s c1 = (st, s', c')" by simp
    with "2.IH" [OF refl _ er [symmetric]] True "2.prems" have
      "session_core s' = session_core ?s \<and> kept (in_candidate ?s) c1 c'"
      by (simp add: device_core [OF core])
    with k core show ?thesis by (simp add: candidate_core [OF core] kept_trans [OF k])
  qed (use "2.prems"(3) er k in \<open>auto simp: Let_def split: if_splits\<close>)
qed simp

lemma erase_candidate_kept:
  assumes dev: "session_device s" and run: "erase_candidate_slot s c = (st, s', c')"
  shows "session_core s' = session_core s \<and> kept (in_candidate s) c c'"
proof (rule erase_sectors_kept [OF dev _ run [unfolded erase_candidate_slot_def]])
  show "\<forall>i\<in>set (map word_of_nat [unat (first_sector (ses_candidate s))..<
      Suc (unat (last_sector (ses_candidate s)))]). 5 \<le> unat (i :: u32)"
    using dev by (auto simp: session_device_def boot_slot_rows unat_of_nat)
qed

text \<open>The members that programming and verifying leave alone.\<close>

definition session_update where
  "session_update (s :: 'h update_installer_session) =
     (session_fixed s, ses_header s, ses_writing_metadata s, ses_metadata_writing_committed s,
      ses_payload_program_size s)"

lemma update_members:
  assumes "session_update s' = session_update s"
  shows "session_fixed s' = session_fixed s" "ses_header s' = ses_header s"
    "ses_writing_metadata s' = ses_writing_metadata s"
    "ses_metadata_writing_committed s' = ses_metadata_writing_committed s"
    "ses_payload_program_size s' = ses_payload_program_size s"
  using assms by (simp_all add: session_update_def)

lemma fixed_members:
  assumes "session_fixed s' = session_fixed s"
  shows "ses_restricted_flash s' = ses_restricted_flash s" "ses_candidate s' = ses_candidate s"
    "ses_public_key s' = ses_public_key s" "ses_active_slot_id s' = ses_active_slot_id s"
    "ses_active s' = ses_active s" "ses_metadata_before s' = ses_metadata_before s"
    "ses_metadata_recovery s' = ses_metadata_recovery s"
    "io_program_buffer_size (ses_options s') = io_program_buffer_size (ses_options s)"
    "io_readback_buffer_size (ses_options s') = io_readback_buffer_size (ses_options s)"
    "io_fault_hook (ses_options s') = io_fault_hook (ses_options s)"
    "io_recovery_bootstrap (ses_options s') = io_recovery_bootstrap (ses_options s)"
    "session_device s' = session_device s" "in_candidate s' = in_candidate s"
  using assms by (simp_all add: session_fixed_def session_device_def in_candidate_def fun_eq_iff)

lemma core_update:
  assumes "session_core s' = session_core s"
  shows "session_update s' = session_update s"
  by (simp add: session_update_def core_fixed [OF assms] core_members(3,5,11,13) [OF assms])

lemma update_simps [simp]:
  "session_update (s\<lparr>ses_state := x\<rparr>) = session_update s"
  "session_update (s\<lparr>ses_program_fill := k\<rparr>) = session_update s"
  "session_update (s\<lparr>ses_payload_programmed := k\<rparr>) = session_update s"
  "session_update (s\<lparr>ses_payload_received := k\<rparr>) = session_update s"
  "session_update (s\<lparr>ses_payload_hash_ctx := h\<rparr>) = session_update s"
  "session_update (s\<lparr>ses_payload_hash_finalized := b\<rparr>) = session_update s"
  "session_update (s\<lparr>ses_result := r\<rparr>) = session_update s"
  "session_update (set_program_buffer s off d) = session_update s"
  by (simp_all add: session_update_def session_fixed_def set_program_buffer_def)

lemma flush_kept:
  assumes dev: "session_device s"
    and run: "flush_payload_program_buffer s c final = (st, s', c')"
  shows "session_update s' = session_update s \<and> kept (in_candidate s) c c'"
proof -
  define n where "n = (case if final then checked_round_up (ses_program_fill s)
      (unat (program_alignment (ses_restricted_flash s))) else Some (ses_program_fill s) of
      None \<Rightarrow> ses_program_fill s | Some n \<Rightarrow> n)"
  define s1 where "s1 = (if final then set_program_buffer s (ses_program_fill s)
      (replicate (size_sub n (ses_program_fill s)) 0xFF) else s)"
  have core: "session_core s1 = session_core s" by (simp add: s1_def)
  note run' = run [unfolded flush_payload_program_buffer_def Let_def, folded n_def, folded s1_def]
  show ?thesis
  proof (cases "checked_u32_add (payload_base (ses_candidate s)) (of_nat (ses_payload_programmed s))")
    case None
    with run' core_update [OF core] show ?thesis by (auto split: if_splits)
  next
    case (Some a)
    obtain p s2 c2 where blk: "program_aligned_block s1 c a
        (take n (io_program_buffer (ses_options s1))) = (p, s2, c2)" by (metis prod_cases3)
    have "unat (signed_image_base (ses_candidate s1)) \<le> unat a"
      using dev checked_u32_add_unat [OF Some]
      by (auto simp: session_device_def boot_slot_rows core_members(2) [OF core])
    from program_block_kept [OF _ blk this] dev
    have "session_core s2 = session_core s" "kept (in_candidate s) c c2"
      by (simp_all add: device_core [OF core] candidate_core [OF core] core)
    with run' Some blk core_update [OF core] core_update [of s2 s] show ?thesis
      by (auto split: if_splits)
  qed
qed

lemma fail_session_simps [simp]:
  "fst (fail_session s c st) = st" "snd (snd (fail_session s c st)) = c"
  "session_update (fst (snd (fail_session s c st))) = session_update s"
  by (simp_all add: fail_session_def)

lemma fail_session_eq:
  "fail_session s c st = (st', s', c') \<longleftrightarrow>
     st' = st \<and> c' = c \<and>
     s' = (if st = UPDATE_INSTALL_OK then s else s\<lparr>ses_state := UPDATE_INSTALL_SESSION_FAILED\<rparr>)"
  by (auto simp: fail_session_def)

lemma write_chunk_kept:
  assumes dev: "session_device s" and run: "write_chunk crypt s c piece = (st, s', c')"
  shows "session_update s' = session_update s \<and> kept (in_candidate s) c c'"
proof -
  define s1 where "s1 = (set_program_buffer s (ses_program_fill s) piece)
    \<lparr>ses_payload_hash_ctx := crypto_sha512_absorb crypt (ses_payload_hash_ctx s) piece,
     ses_program_fill := size_add (ses_program_fill s) (length piece),
     ses_payload_received := size_add (ses_payload_received s) (length piece)\<rparr>"
  have up: "session_update s1 = session_update s" by (simp add: s1_def)
  note mem = fixed_members [OF update_members(1) [OF up]]
  obtain p s2 c2 where fl: "flush_payload_program_buffer s1 c False = (p, s2, c2)"
    by (metis prod_cases3)
  from flush_kept [OF _ fl] dev mem have "session_update s2 = session_update s" "kept (in_candidate s) c c2"
    by (simp_all add: up)
  with run fl up show ?thesis
    unfolding write_chunk_def Let_def s1_def [symmetric]
    by (auto simp: fail_session_eq split: if_splits)
qed

lemma write_loop_kept:
  assumes dev: "session_device s" and run: "write_loop crypt s c input = (st, s', c')"
  shows "session_update s' = session_update s \<and> kept (in_candidate s) c c'"
proof -
  let ?P = "\<lambda>s1 c1. session_update s1 = session_update s \<and> kept (in_candidate s) c c1"
  show ?thesis
  proof (rule write_loop_rule [where P = "\<lambda>s c _. ?P s c" and Q = "\<lambda>_. ?P", OF _ _ _ _ run])
    fix s1 c1 st s2 c2 and input :: bytes and k
    assume p: "?P s1 c1" and run: "write_chunk crypt s1 c1 (take k input) = (st, s2, c2)"
    note mem = fixed_members [OF update_members(1) [OF conjunct1 [OF p]]]
    from write_chunk_kept [OF _ run] p mem dev
    show "if st = UPDATE_INSTALL_OK then ?P s2 c2 else ?P s2 c2" by (auto intro: kept_trans)
  qed auto
qed

lemma write_kept:
  assumes dev: "session_device s" and run: "update_installer_write crypt s c off d = (st, s', c')"
  shows "session_update s' = session_update s \<and> kept (in_candidate s) c c'"
proof -
  obtain p s1 c1 where loop: "write_loop crypt s c d = (p, s1, c1)" by (metis prod_cases3)
  from write_loop_kept [OF dev loop] run loop show ?thesis
    by (auto simp: update_installer_write_def fail_session_eq split: if_splits)
qed

lemma commit_kept:
  assumes dev: "session_device s"
    and run: "boot_metadata_commit (ses_restricted_flash s) c nx = (st, c')"
  shows "kept in_metadata c c'"
proof -
  have f: "flash_ops (ses_restricted_flash s) = writable_ops" "wf_flash (ses_restricted_flash s)"
    using dev by (simp_all add: session_device_def)
  from host_frame.commit_frame [OF f run] journal_device.commit_journal [OF session_journal [OF dev] _ run]
  show ?thesis by (auto simp: kept_def)
qed

lemma reinitialize_kept:
  assumes dev: "session_device s"
    and run: "boot_metadata_reinitialize_for_recovery (ses_restricted_flash s) c nx = (st, c')"
  shows "kept in_metadata c c'"
proof -
  have f: "flash_ops (ses_restricted_flash s) = writable_ops" "wf_flash (ses_restricted_flash s)"
    using dev by (simp_all add: session_device_def)
  from host_frame.reinitialize_frame [OF f run]
    journal_device.reinitialize_effect [OF session_journal [OF dev] _ run]
  show ?thesis by (auto simp: kept_def)
qed

lemma commit_state_cases:
  assumes "commit_metadata_state flash c cur st act cand v options point = (r, c')"
  obtains (untouched) "c' = c" "r \<noteq> UPDATE_INSTALL_OK"
  | (committed) nx status where "boot_metadata_prepare_next cur st act cand v 0 0 0 = Inr nx"
      "boot_metadata_commit flash c nx = (status, c')"
      "r = UPDATE_INSTALL_OK \<longleftrightarrow> status = BOOT_METADATA_OK"
  using assms
  by (auto simp: commit_metadata_state_def Let_def split: sum.splits prod.splits if_splits)

lemma commit_state_kept:
  assumes dev: "session_device s"
    and run: "commit_metadata_state (ses_restricted_flash s) c cur st act cand v options point = (r, c')"
  shows "kept in_metadata c c'"
  using run
proof (cases rule: commit_state_cases)
  case (committed nx status)
  then show ?thesis using commit_kept [OF dev] by blast
qed simp

lemma begin_journal_kept:
  assumes dev: "session_device s" and run: "begin_journal s c = (r, c')"
  shows "kept in_metadata c c'"
  using run reinitialize_kept [OF dev] commit_state_kept [OF dev]
  by (auto simp: begin_journal_def Let_def split: sum.splits prod.splits if_splits)

lemma begin_checks_fixed:
  assumes "begin_checks crypt s c hb = (st, s')"
  shows "session_fixed s' = session_fixed s"
    "ses_metadata_writing_committed s' = ses_metadata_writing_committed s"
    "ses_state s' = ses_state s"
  using assms
  by (auto simp: begin_checks_def Let_def session_fixed_def split: option.splits if_splits
      prod.splits sum.splits)

lemma core_flags:
  "session_fixed (s\<lparr>ses_candidate_erased := b\<rparr>) = session_fixed s"
  "session_fixed (s\<lparr>ses_writing_metadata := w\<rparr>) = session_fixed s"
  "session_fixed (s\<lparr>ses_metadata_writing_committed := b\<rparr>) = session_fixed s"
  "session_fixed (s\<lparr>ses_state := x\<rparr>) = session_fixed s"
  "session_fixed (s\<lparr>ses_payload_hash_ctx := h\<rparr>) = session_fixed s"
  "session_fixed (s\<lparr>ses_result := r\<rparr>) = session_fixed s"
  by (simp_all add: session_fixed_def)

definition writing_entry :: "'h update_installer_session \<Rightarrow> boot_metadata_record \<Rightarrow> bool" where
  "writing_entry s w \<longleftrightarrow>
     state w = BOOT_METADATA_STATE_WRITING \<and> active_slot w = ses_active_slot_id s \<and>
     candidate_slot w = slot_num (slot_id (ses_candidate s))"

lemma begin_store_cases:
  assumes run: "begin_store crypt s c hb = (st, s', c')"
  obtains (unannounced) "st = UPDATE_INSTALL_ERR_METADATA" "c' = c"
      "\<exists>w. s' = s\<lparr>ses_writing_metadata := w, ses_state := UPDATE_INSTALL_SESSION_FAILED\<rparr>"
  | (unerased) w v s1 where "boot_metadata_recover_from_flash (ses_restricted_flash s) c = (BOOT_METADATA_OK, Some (w, v))"
      "writing_entry s w" "erase_candidate_slot (s\<lparr>ses_writing_metadata := w\<rparr>) c = (st, s1, c')"
      "st \<noteq> UPDATE_INSTALL_OK" "s' = s1\<lparr>ses_state := UPDATE_INSTALL_SESSION_FAILED\<rparr>"
  | (erased) w v s1 c1 s2 where
      "boot_metadata_recover_from_flash (ses_restricted_flash s) c = (BOOT_METADATA_OK, Some (w, v))"
      "writing_entry s w"
      "erase_candidate_slot (s\<lparr>ses_writing_metadata := w\<rparr>) c = (UPDATE_INSTALL_OK, s1, c1)"
      "program_source_range (signed_image_base (ses_candidate s)) hb 512 512
         (s1\<lparr>ses_candidate_erased := True\<rparr>) c1 = (st, s2, c')"
      "s' = (if st = UPDATE_INSTALL_OK
             then s2\<lparr>ses_payload_hash_ctx := crypto_sha512_init crypt,
                     ses_state := UPDATE_INSTALL_SESSION_WRITING\<rparr>
             else s2\<lparr>ses_state := UPDATE_INSTALL_SESSION_FAILED\<rparr>)"
proof -
  consider (none) "\<nexists>w v. boot_metadata_recover_from_flash (ses_restricted_flash s) c = (BOOT_METADATA_OK, Some (w, v))"
    | (some) w v where "boot_metadata_recover_from_flash (ses_restricted_flash s) c = (BOOT_METADATA_OK, Some (w, v))"
    by blast
  then show ?thesis
  proof cases
    case none
    then obtain x y where "boot_metadata_recover_from_flash (ses_restricted_flash s) c = (x, y)"
      "x \<noteq> BOOT_METADATA_OK \<or> y = None" by (metis option.exhaust prod.exhaust)
    with run show ?thesis
      by (intro unannounced) (auto simp: begin_store_def fail_session_eq intro!: exI [of _ "ses_writing_metadata s"]
          split: boot_metadata_status.splits option.splits)
  next
    case (some w v)
    obtain e s1 c1 where er: "erase_candidate_slot (s\<lparr>ses_writing_metadata := w\<rparr>) c = (e, s1, c1)"
      by (metis prod_cases3)
    obtain p s2 c2 where pr: "program_source_range (signed_image_base (ses_candidate s)) hb 512 512
      (s1\<lparr>ses_candidate_erased := True\<rparr>) c1 = (p, s2, c2)" by (metis prod_cases3)
    note facts = run [unfolded begin_store_def some prod.case option.case Let_def er pr
        boot_metadata_status.case]
    consider "\<not> writing_entry s w" | "writing_entry s w" "e \<noteq> UPDATE_INSTALL_OK"
      | "writing_entry s w" "e = UPDATE_INSTALL_OK" by blast
    then show ?thesis
    proof cases
      case 1
      with facts show ?thesis
        by (intro unannounced) (auto simp: writing_entry_def fail_session_eq split: if_splits)
    next
      case 2
      with facts er show ?thesis
        by (intro unerased [OF some]) (auto simp: writing_entry_def fail_session_eq)
    next
      case 3
      with facts er pr show ?thesis
        by (intro erased [OF some, of s1 c1 s2]) (auto simp: writing_entry_def fail_session_eq split: if_splits)
    qed
  qed
qed

lemma begin_store_kept:
  assumes dev: "session_device s" and run: "begin_store crypt s c hb = (st, s', c')"
  shows "session_fixed s' = session_fixed s \<and> ses_header s' = ses_header s \<and>
    ses_metadata_writing_committed s' = ses_metadata_writing_committed s \<and>
    ses_payload_program_size s' = ses_payload_program_size s \<and>
    kept (in_candidate s) c c'"
  using run
proof (cases rule: begin_store_cases)
  case unannounced
  then show ?thesis by (auto simp: core_flags)
next
  case (unerased w v s1)
  let ?s = "s\<lparr>ses_writing_metadata := w\<rparr>"
  note mem = fixed_members [OF core_flags(2) [where s = s and w = w]]
  from erase_candidate_kept [OF _ unerased(3)] dev mem
  have "session_core s1 = session_core ?s" "kept (in_candidate s) c c'" by simp_all
  with core_fixed [OF this(1)] core_members(3,11,13) [OF this(1)] unerased(5) show ?thesis
    by (simp add: core_flags)
next
  case (erased w v s1 c1 s2)
  let ?s = "s\<lparr>ses_writing_metadata := w\<rparr>"
  note mem = fixed_members [OF core_flags(2) [where s = s and w = w]]
  from erase_candidate_kept [OF _ erased(3)] dev mem
  have core1: "session_core s1 = session_core ?s" and k1: "kept (in_candidate s) c c1" by simp_all
  let ?s1 = "s1\<lparr>ses_candidate_erased := True\<rparr>"
  have fix1: "session_fixed ?s1 = session_fixed s" by (simp add: core_flags core_fixed [OF core1])
  note mem1 = fixed_members [OF fix1]
  from program_source_range_kept [OF _ _ erased(4)] dev mem1
  have core2: "session_core s2 = session_core ?s1" and k2: "kept (in_candidate s) c1 c'" by simp_all
  from core_fixed [OF core2] core_members(3,11,13) [OF core2] core_members(3,11,13) [OF core1] fix1
    kept_trans [OF k1 k2] erased(5) show ?thesis
    by (simp add: core_flags)
qed

definition in_update_area :: "'h update_installer_session \<Rightarrow> nat \<Rightarrow> bool" where
  "in_update_area s n \<longleftrightarrow> in_metadata n \<or> in_candidate s n"

lemma kept_areas: "kept in_metadata c c' \<Longrightarrow> kept (in_update_area s) c c'"
  "kept (in_candidate s) c c' \<Longrightarrow> kept (in_update_area s) c c'"
  by (erule kept_mono, simp add: in_update_area_def)+

lemma begin_kept:
  assumes dev: "session_device s" and run: "update_installer_begin crypt s c hb = (st, s', c')"
  shows "session_fixed s' = session_fixed s \<and> kept (in_update_area s) c c'"
proof -
  obtain ck s1 where chk: "begin_checks crypt s c hb = (ck, s1)" by fastforce
  obtain an c1 where ann: "begin_journal s1 c = (an, c1)" by fastforce
  obtain p s2 c2 where sto: "begin_store crypt (s1\<lparr>ses_metadata_writing_committed := True\<rparr>) c1 hb = (p, s2, c2)"
    by (metis prod_cases3)
  note fix1 = begin_checks_fixed(1) [OF chk]
  note mem1 = fixed_members [OF fix1]
  have k1: "kept (in_update_area s) c c1"
    using begin_journal_kept [OF _ ann] dev mem1 by (simp add: kept_areas)
  have "session_device (s1\<lparr>ses_metadata_writing_committed := True\<rparr>)"
    "in_candidate (s1\<lparr>ses_metadata_writing_committed := True\<rparr>) = in_candidate s"
    using fixed_members(12,13) [OF core_flags(3) [where s = s1 and b = True]] dev mem1 by simp_all
  with begin_store_kept [OF _ sto] fix1
  have fix2: "session_fixed s2 = session_fixed s" and k2: "kept (in_update_area s) c1 c2"
    by (simp_all add: core_flags kept_areas)
  from run chk ann sto fix1 fix2 k1 kept_trans [OF k1 k2] show ?thesis
    by (auto simp: update_installer_begin_def fail_session_eq core_flags split: if_splits)
qed

lemma installed_verify_cong:
  assumes "session_update s' = session_update s"
  shows "installed_verify_status crypt s' c = installed_verify_status crypt s c"
  by (simp only: installed_verify_status_def fixed_members(2,3) [OF update_members(1) [OF assms]]
      update_members(2) [OF assms])

definition commit_ready where
  "commit_ready (s :: 'h update_installer_session) c =
     commit_metadata_state (ses_restricted_flash s) c (ses_writing_metadata s)
       BOOT_METADATA_STATE_CANDIDATE_READY (ses_active_slot_id s)
       (slot_num (slot_id (ses_candidate s))) (image_version (hdr_manifest (ses_header s)))
       (ses_options s) UPDATE_INSTALL_FAULT_METADATA_CANDIDATE_READY"

lemma finish_cases:
  assumes dev: "session_device s" and run: "update_installer_finish crypt s c = (st, s', c')"
  obtains (unverified) "st \<noteq> UPDATE_INSTALL_OK" "session_update s' = session_update s"
      "kept (in_candidate s) c c'"
  | (verified) c1 s0 s1 where "ses_state s = UPDATE_INSTALL_SESSION_PAYLOAD_COMPLETE"
      "kept (in_candidate s) c c1" "session_update s1 = session_update s"
      "installed_verify_status crypt s1 c1 = VERIFY_OK" "commit_ready s1 c1 = (st, c')"
      "s' = s1\<lparr>ses_state := (if st = UPDATE_INSTALL_OK then UPDATE_INSTALL_SESSION_FINISHED
                           else UPDATE_INSTALL_SESSION_FAILED)\<rparr>"
      "flush_payload_program_buffer s c True = (UPDATE_INSTALL_OK, s0, c1)"
proof (cases "ses_state s = UPDATE_INSTALL_SESSION_PAYLOAD_COMPLETE")
  case False
  with run show ?thesis
    by (intro unverified) (auto simp: update_installer_finish_def fail_session_eq split: if_splits)
next
  case complete: True
  obtain fl s1 c1 where flush: "flush_payload_program_buffer s c True = (fl, s1, c1)"
    by (metis prod_cases3)
  obtain sh s2 where stream: "verify_streaming_payload_hash crypt s1 = (sh, s2)" by fastforce
  obtain iv s3 where inst: "verify_installed_package crypt s2 c1 = (iv, s3)" by fastforce
  obtain cm c2 where com: "commit_ready s3 c1 = (cm, c2)" by fastforce
  have up1: "session_update s1 = session_update s" "kept (in_candidate s) c c1"
    using flush_kept [OF dev flush] by simp_all
  have up2: "session_update s2 = session_update s"
    using stream up1 by (auto simp: verify_streaming_payload_hash_def Let_def split: if_splits)
  have up3: "session_update s3 = session_update s"
    using inst up2 by (auto simp: verify_installed_package_def Let_def split: if_splits)
  have ok: "iv = UPDATE_INSTALL_OK \<Longrightarrow> installed_verify_status crypt s3 c1 = VERIFY_OK"
    using inst installed_verify_cong [of s3 s2 crypt c1] up2 up3
    by (auto simp: verify_installed_package_def Let_def split: if_splits)
  note facts = run [unfolded update_installer_finish_def flush prod.case stream inst Let_def,
      folded commit_ready_def, unfolded com prod.case]
  show ?thesis
  proof (cases "fl = UPDATE_INSTALL_OK \<and> ses_payload_programmed s1 = ses_payload_program_size s1 \<and>
      sh = UPDATE_INSTALL_OK \<and> hash_installed_payload crypt s2 c1 = UPDATE_INSTALL_OK \<and>
      iv = UPDATE_INSTALL_OK")
    case True
    with facts complete com flush show ?thesis
      by (intro verified [OF complete up1(2) up3 ok, of s1])
        (auto simp: fail_session_eq split: if_splits)
  next
    case False
    with facts complete up1 up2 up3 show ?thesis
      by (intro unverified) (auto simp: fail_session_eq split: if_splits)
  qed
qed

lemma finish_kept:
  assumes dev: "session_device s" and run: "update_installer_finish crypt s c = (st, s', c')"
  shows "session_update s' = session_update s \<and> kept (in_update_area s) c c'"
  using dev run
proof (cases rule: finish_cases)
  case (verified c1 s0 s1)
  note mem = fixed_members [OF update_members(1) [OF verified(3)]]
  have "kept in_metadata c1 c'"
    using commit_state_kept [OF _ verified(5) [unfolded commit_ready_def]] dev mem by simp
  with verified show ?thesis by (auto intro: kept_trans kept_areas)
qed (simp add: kept_areas)

lemma abort_cases:
  assumes run: "update_installer_abort s c = (st, s', c')"
  obtains (quiet) "c' = c"
  | (rejected) r v nx status where "ses_state s \<noteq> UPDATE_INSTALL_SESSION_FINISHED"
      "ses_metadata_writing_committed s"
      "boot_metadata_recover_from_flash (ses_restricted_flash s) c = (BOOT_METADATA_OK, Some (r, v))"
      "writing_entry s r" "candidate_image_version r = image_version (hdr_manifest (ses_header s))"
      "boot_metadata_prepare_next r BOOT_METADATA_STATE_REJECTED_INVALID (ses_active_slot_id s)
         (slot_num (slot_id (ses_candidate s))) (image_version (hdr_manifest (ses_header s))) 0 0 0 = Inr nx"
      "boot_metadata_commit (ses_restricted_flash s) c nx = (status, c')"
      "st = UPDATE_INSTALL_OK \<longleftrightarrow> status = BOOT_METADATA_OK"
  using run
  by (auto simp: update_installer_abort_def Let_def fail_session_eq writing_entry_def
      split: if_splits prod.splits option.splits boot_metadata_status.splits sum.splits)

lemma abort_update: "update_installer_abort s c = (st, s', c') \<Longrightarrow> session_update s' = session_update s"
  by (auto simp: update_installer_abort_def Let_def fail_session_eq
      split: if_splits prod.splits option.splits boot_metadata_status.splits sum.splits)

lemma abort_kept:
  assumes dev: "session_device s" and run: "update_installer_abort s c = (st, s', c')"
  shows "session_update s' = session_update s \<and> kept in_metadata c c'"
  using run
proof (cases rule: abort_cases)
  case (rejected r v nx status)
  then show ?thesis using commit_kept [OF dev] abort_update [OF run] by blast
qed (simp add: abort_update [OF run])

section \<open>The journal during a session\<close>

lemma recover_host:
  assumes "wf_flash flash" "flash_ops flash = writable_ops" "host_healthy c"
  shows "boot_metadata_recover_from_flash flash c = boot_metadata_recover_from_flash metadata_flash c"
  using journal_device.recover_from_flash_eq [OF host_journal_device [OF assms(1,2)] assms(3)]
    target_journal.recover_from_flash_eq [OF assms(3)]
  by simp

lemma recover_session:
  "session_device s \<Longrightarrow> host_healthy c \<Longrightarrow>
   boot_metadata_recover_from_flash (ses_restricted_flash s) c =
   boot_metadata_recover_from_flash metadata_flash c"
  by (rule recover_host) (simp_all add: session_device_def)

lemma copy_in_metadata: "i < 128 \<Longrightarrow> in_metadata (unat (copy_base copy) + i) \<and> in_flash (unat (copy_base copy) + i)"
  by (simp add: copy_base_def in_metadata_def in_flash_def)

lemma recover_kept:
  assumes dev: "session_device s" and good: "host_healthy c" and k: "kept (in_candidate s) c c'"
  shows "boot_metadata_recover_from_flash metadata_flash c' = boot_metadata_recover_from_flash metadata_flash c"
proof -
  have good': "host_healthy c'" using k good by (simp add: kept_def)
  have same: "host_view c' (unat (copy_base copy) + i) = host_view c (unat (copy_base copy) + i)"
    if "i < 128" for copy i
    using k copy_in_metadata [OF that, of copy] candidate_not_metadata [OF dev] unfolding kept_def by blast
  have "target_journal.copy_bytes c' copy = target_journal.copy_bytes c copy" for copy
    by (auto intro!: nth_equalityI simp: target_journal.copy_bytes_nth same)
  then show ?thesis by (simp add: target_journal.recover_from_flash_eq good good')
qed

definition journal_record :: "host_context \<Rightarrow> boot_metadata_record \<Rightarrow> bool" where
  "journal_record c r \<longleftrightarrow> journal_view (boot_metadata_recover_from_flash metadata_flash c) = (BOOT_METADATA_OK, Some r)"

lemma journal_recordI:
  "boot_metadata_recover_from_flash metadata_flash c = (BOOT_METADATA_OK, Some (r, v)) \<Longrightarrow> journal_record c r"
  by (simp add: journal_record_def journal_view_def)

lemma journal_recordE:
  assumes "journal_record c r"
  obtains v where "boot_metadata_recover_from_flash metadata_flash c = (BOOT_METADATA_OK, Some (r, v))"
  using assms
  by (cases "boot_metadata_recover_from_flash metadata_flash c") (auto simp: journal_record_def journal_view_def)

lemma journal_record_unique: "journal_record c r \<Longrightarrow> journal_record c r' \<Longrightarrow> r = r'"
  by (simp add: journal_record_def)

lemma journal_record_kept:
  assumes "session_device s" "host_healthy c" "kept (in_candidate s) c c'"
  shows "journal_record c' r = journal_record c r"
  by (simp add: journal_record_def recover_kept [OF assms])

lemma commit_record:
  assumes dev: "session_device s" and good: "host_healthy c"
    and run: "boot_metadata_commit (ses_restricted_flash s) c nx = (st, c')"
    and r: "journal_record c r"
  shows "host_healthy c'" "st = BOOT_METADATA_OK \<longrightarrow> journal_record c' nx"
    "journal_record c' r \<or> journal_record c' nx \<and> valid_step r nx"
proof -
  note j = journal_device.commit_journal [OF session_journal [OF dev] good run]
  then show good': "host_healthy c'" by simp
  show "st = BOOT_METADATA_OK \<longrightarrow> journal_record c' nx" "journal_record c' r \<or> journal_record c' nx \<and> valid_step r nx"
    using j r unfolding recover_session [OF dev good] recover_session [OF dev good']
    by (auto simp: journal_record_def commit_base_def journal_view_def)
qed

lemma prepare_next_fields:
  assumes "boot_metadata_prepare_next cur st act cand v a cf rc = Inr nx"
  shows "nx = \<lparr>sequence = sequence cur + 1, state = st, active_slot = act, candidate_slot = cand,
    candidate_image_version = v, boot_attempt_count = a, confirmation_state = cf, result_code = rc\<rparr>"
  using assms by (auto simp: boot_metadata_prepare_next_def Let_def split: if_splits)

section \<open>Initialised sessions\<close>

definition session_slots :: "'h update_installer_session \<Rightarrow> bool" where
  "session_slots s \<longleftrightarrow>
     (case ses_active s of
        None \<Rightarrow> ses_active_slot_id s = BOOT_SLOT_NONE \<and> ses_candidate s = boot_slot_a
      | Some act \<Rightarrow>
          (act = boot_slot_a \<and> ses_candidate s = boot_slot_b \<or>
           act = boot_slot_b \<and> ses_candidate s = boot_slot_a) \<and>
          ses_active_slot_id s = slot_num (slot_id act))"

lemma select_inactive_Inr:
  assumes "select_inactive_slot r = Inr (act, cand)"
  obtains a where "act = Some a" "boot_slot_lookup (active_slot r) = Some a"
    "a = boot_slot_a \<and> cand = boot_slot_b \<or> a = boot_slot_b \<and> cand = boot_slot_a"
    "state r = BOOT_METADATA_STATE_CONFIRMED \<or>
     state r = BOOT_METADATA_STATE_REJECTED_INVALID \<and> candidate_slot r = slot_num (slot_id cand)"
  using assms
  by (auto simp: select_inactive_slot_def Let_def boot_slot_lookup_Some boot_slot_rows
      split: if_splits option.splits)

lemma selection_errors:
  "select_recovery_slot \<noteq> Inl UPDATE_INSTALL_OK" "select_inactive_slot r \<noteq> Inl UPDATE_INSTALL_OK"
  "init_restricted_flash flash cand \<noteq> Inl UPDATE_INSTALL_OK"
  by (auto simp: select_recovery_slot_def select_inactive_slot_def init_restricted_flash_def Let_def
      split: option.splits sum.splits)

definition started_session where
  "started_session crypt flash pk options res (cur :: boot_metadata_record) rv act cand restricted =
     (empty_session crypt flash pk options res)
       \<lparr>ses_state := UPDATE_INSTALL_SESSION_INITIALIZED, ses_restricted_flash := restricted,
        ses_metadata_before := cur, ses_metadata_recovery := rv, ses_active := act,
        ses_candidate := cand,
        ses_active_slot_id := (case act of None \<Rightarrow> BOOT_SLOT_NONE | Some slot \<Rightarrow> slot_num (slot_id slot)),
        ses_result := map_option (\<lambda>_. empty_install_result\<lparr>ir_active_slot :=
          (case act of None \<Rightarrow> BOOT_SLOT_NONE | Some slot \<Rightarrow> slot_num (slot_id slot)),
          ir_candidate_slot := slot_num (slot_id cand), ir_metadata_recovery := rv\<rparr>) res\<rparr>"

lemma session_init_cases:
  assumes run: "update_installer_session_init crypt flash pk options res c = (UPDATE_INSTALL_OK, s)"
  obtains cur rv act cand restricted where "options_are_valid flash options"
    "start_metadata options (boot_metadata_recover_from_flash flash c) = Some (cur, rv)"
    "(if fst (boot_metadata_recover_from_flash flash c) \<noteq> BOOT_METADATA_OK then select_recovery_slot
      else select_inactive_slot cur) = Inr (act, cand)"
    "init_restricted_flash flash cand = Inr restricted"
    "s = started_session crypt flash pk options res cur rv act cand restricted"
proof -
  let ?rec = "boot_metadata_recover_from_flash flash c"
  from run have opt: "options_are_valid flash options"
    by (auto simp: update_installer_session_init_def Let_def split: if_splits)
  note run' = run [unfolded update_installer_session_init_def Let_def]
  from run' opt obtain cur rv where start: "start_metadata options ?rec = Some (cur, rv)"
    by (cases "start_metadata options ?rec") auto
  define sel where "sel = (if fst ?rec \<noteq> BOOT_METADATA_OK then select_recovery_slot
      else select_inactive_slot cur)"
  have "sel \<noteq> Inl UPDATE_INSTALL_OK" by (simp add: sel_def selection_errors)
  with run' opt start obtain act cand where s: "sel = Inr (act, cand)"
    by (cases sel) (auto simp: sel_def [symmetric])
  with run' opt start selection_errors(3) [of flash cand] obtain restricted where
    fl: "init_restricted_flash flash cand = Inr restricted"
    by (cases "init_restricted_flash flash cand") (auto simp: sel_def [symmetric])
  with run' opt start s have "s = started_session crypt flash pk options res cur rv act cand restricted"
    by (auto simp: sel_def [symmetric] started_session_def empty_session_def comp_def option.map_comp)
  with opt start s fl show ?thesis by (intro that) (simp_all add: sel_def)
qed

lemma session_init_ok:
  assumes run: "update_installer_session_init crypt flash pk options res c = (UPDATE_INSTALL_OK, s)"
    and ops: "flash_ops flash = writable_ops"
  shows "session_device s" "session_slots s" "ses_state s = UPDATE_INSTALL_SESSION_INITIALIZED"
    "\<not> ses_metadata_writing_committed s" "ses_public_key s = pk"
    "start_metadata options (boot_metadata_recover_from_flash flash c) =
       Some (ses_metadata_before s, ses_metadata_recovery s)"
    "fst (boot_metadata_recover_from_flash flash c) = BOOT_METADATA_OK \<Longrightarrow>
       \<exists>act. ses_active s = Some act \<and> boot_slot_lookup (active_slot (ses_metadata_before s)) = Some act \<and>
         ses_active_slot_id s = active_slot (ses_metadata_before s)"
    "0 < io_program_buffer_size (ses_options s)"
    "ses_options s = options"
    "ses_payload_received s = 0" "ses_payload_programmed s = 0" "ses_program_fill s = 0"
    "ses_programmed_block_count s = 0"
    "program_alignment (ses_restricted_flash s) = program_alignment flash"
    "options_are_valid flash options"
proof -
  let ?rec = "boot_metadata_recover_from_flash flash c"
  from run obtain cur rv act cand restricted where
    opt: "options_are_valid flash options" and
    start: "start_metadata options ?rec = Some (cur, rv)" and
    sel: "(if fst ?rec \<noteq> BOOT_METADATA_OK then select_recovery_slot else select_inactive_slot cur) = Inr (act, cand)"
    and fl: "init_restricted_flash flash cand = Inr restricted"
    and s_eq: "s = started_session crypt flash pk options res cur rv act cand restricted"
    by (rule session_init_cases)
  have s: "ses_state s = UPDATE_INSTALL_SESSION_INITIALIZED" "ses_restricted_flash s = restricted"
      "ses_public_key s = pk" "ses_options s = options" "ses_metadata_before s = cur"
      "ses_metadata_recovery s = rv" "ses_active s = act" "ses_candidate s = cand"
      "ses_active_slot_id s = (case act of None \<Rightarrow> BOOT_SLOT_NONE | Some slot \<Rightarrow> slot_num (slot_id slot))"
      "\<not> ses_metadata_writing_committed s" "ses_payload_received s = 0" "ses_payload_programmed s = 0"
      "ses_program_fill s = 0" "ses_programmed_block_count s = 0"
    by (simp_all add: s_eq started_session_def empty_session_def)
  show "ses_state s = UPDATE_INSTALL_SESSION_INITIALIZED" "\<not> ses_metadata_writing_committed s"
    "ses_public_key s = pk" "start_metadata options ?rec = Some (ses_metadata_before s, ses_metadata_recovery s)"
    "ses_options s = options" "ses_payload_received s = 0" "ses_payload_programmed s = 0"
    "ses_program_fill s = 0" "ses_programmed_block_count s = 0" "options_are_valid flash options"
    using s start opt by simp_all
  show "0 < io_program_buffer_size (ses_options s)" using opt s by (simp add: options_are_valid_def)
  from fl have init: "boot_flash_init writable_ops (restricted_regions cand) (program_alignment flash) = Inr restricted"
    by (simp add: init_restricted_flash_def ops split: sum.splits)
  note wf = boot_flash_init_wf [OF init]
  then show "program_alignment (ses_restricted_flash s) = program_alignment flash" using s by simp
  have slots: "act = None \<and> cand = boot_slot_a \<and> fst ?rec \<noteq> BOOT_METADATA_OK \<or>
      (\<exists>a. act = Some a \<and> boot_slot_lookup (active_slot cur) = Some a \<and>
        (a = boot_slot_a \<and> cand = boot_slot_b \<or> a = boot_slot_b \<and> cand = boot_slot_a))"
    using sel by (auto simp: select_recovery_slot_def split: if_splits elim!: select_inactive_Inr)
  with wf s show "session_device s" by (auto simp: session_device_def)
  from slots s show "session_slots s" by (auto simp: session_slots_def split: option.splits)
  assume "fst ?rec = BOOT_METADATA_OK"
  with slots s show "\<exists>act. ses_active s = Some act \<and>
      boot_slot_lookup (active_slot (ses_metadata_before s)) = Some act \<and>
      ses_active_slot_id s = active_slot (ses_metadata_before s)"
    by (auto dest: boot_slot_lookup_id)
qed

end
