(* ===== verification/Update_Safety.thy ===== *)
theory Update_Safety
  imports Update_Session
begin

text \<open>
  Safety of the installer over whole sessions. A session is driven by any sequence of calls
  (\<open>session_ops\<close>), with any arguments and in any order, on a device whose flash operations may
  fail at any point. The invariant \<open>session_inv\<close> relates the session to the journal and to the
  candidate slot.
\<close>

section \<open>Sessions as sequences of calls\<close>

datatype session_op = OP_BEGIN bytes | OP_WRITE size_t bytes | OP_FINISH | OP_ABORT

fun session_call ::
    "'h crypto \<Rightarrow> session_op \<Rightarrow> 'h update_installer_session \<Rightarrow> host_context \<Rightarrow>
     update_install_status \<times> 'h update_installer_session \<times> host_context" where
  "session_call crypt (OP_BEGIN header_bytes) s c = update_installer_begin crypt s c header_bytes"
| "session_call crypt (OP_WRITE off data) s c = update_installer_write crypt s c off data"
| "session_call crypt OP_FINISH s c = update_installer_finish crypt s c"
| "session_call crypt OP_ABORT s c = update_installer_abort s c"

fun session_ops ::
    "'h crypto \<Rightarrow> session_op list \<Rightarrow> 'h update_installer_session \<Rightarrow> host_context \<Rightarrow>
     'h update_installer_session \<times> host_context" where
  "session_ops crypt [] s c = (s, c)"
| "session_ops crypt (x # xs) s c =
     (case session_call crypt x s c of (_, s', c') \<Rightarrow> session_ops crypt xs s' c')"

lemma area_fixed: "session_fixed s' = session_fixed s \<Longrightarrow> in_update_area s' = in_update_area s"
  using fixed_members(13) [of s' s] by (simp add: in_update_area_def fun_eq_iff)

lemma session_call_kept:
  assumes dev: "session_device s" and run: "session_call crypt x s c = (st, s', c')"
  shows "session_fixed s' = session_fixed s \<and> kept (in_update_area s) c c'"
proof (cases x)
  case (OP_BEGIN hb)
  with begin_kept [OF dev] run show ?thesis by auto
next
  case (OP_WRITE off d)
  with write_kept [OF dev, of crypt c off d st s' c'] run show ?thesis
    by (auto dest: update_members(1) intro: kept_areas)
next
  case OP_FINISH
  with finish_kept [OF dev, of crypt c st s' c'] run show ?thesis by (auto dest: update_members(1))
next
  case OP_ABORT
  with abort_kept [OF dev, of c st s' c'] run show ?thesis
    by (auto dest: update_members(1) intro: kept_areas)
qed

lemma session_ops_kept:
  assumes "session_device s" "session_ops crypt xs s c = (s', c')"
  shows "session_fixed s' = session_fixed s \<and> kept (in_update_area s) c c'"
  using assms
proof (induction xs arbitrary: s c)
  case (Cons x xs)
  obtain st s1 c1 where call: "session_call crypt x s c = (st, s1, c1)" by (metis prod_cases3)
  with Cons.prems have rest: "session_ops crypt xs s1 c1 = (s', c')" by simp
  have k: "session_fixed s1 = session_fixed s" "kept (in_update_area s) c c1"
    using session_call_kept [OF Cons.prems(1) call] by simp_all
  with Cons.IH [OF _ rest] Cons.prems(1) fixed_members(12) [OF k(1)]
  have "session_fixed s' = session_fixed s" "kept (in_update_area s1) c1 c'" by simp_all
  with k show ?case by (simp add: area_fixed [OF k(1)] kept_trans [OF k(2)])
qed simp

section \<open>The session invariant\<close>

definition session_writing :: "'h update_installer_session \<Rightarrow> bool" where
  "session_writing s \<longleftrightarrow>
     ses_state s = UPDATE_INSTALL_SESSION_WRITING \<or> ses_state s = UPDATE_INSTALL_SESSION_PAYLOAD_COMPLETE"

definition session_open :: "'h update_installer_session \<Rightarrow> bool" where
  "session_open s \<longleftrightarrow> ses_state s = UPDATE_INSTALL_SESSION_INITIALIZED \<or> session_writing s"

definition session_inv :: "'h crypto \<Rightarrow> 'h update_installer_session \<Rightarrow> host_context \<Rightarrow> bool" where
  "session_inv crypt s c \<longleftrightarrow>
     session_device s \<and> host_healthy c \<and>
     (copy_a_valid (ses_metadata_recovery s) \<or> copy_b_valid (ses_metadata_recovery s)) \<and>
     (\<exists>r. journal_record c r \<and> active_slot r = ses_active_slot_id s \<and>
        state r \<noteq> BOOT_METADATA_STATE_PENDING_TRIAL \<and>
        (state r = BOOT_METADATA_STATE_CANDIDATE_READY \<longrightarrow>
           candidate_slot r = slot_num (slot_id (ses_candidate s)) \<and>
           slot_bootable crypt (ses_public_key s) (host_view c) (ses_candidate s) \<and>
           \<not> session_open s) \<and>
        (session_writing s \<longrightarrow> r = ses_writing_metadata s \<and> writing_entry s r))"

lemma installed_bootable:
  assumes dev: "session_device s" and "installed_verify_status crypt s c = VERIFY_OK"
  shows "slot_bootable crypt (ses_public_key s) (host_view c) (ses_candidate s)"
    "manifest_matches_header (decode_manifest_bytes (slot_manifest (host_view c) (ses_candidate s))) (ses_header s)"
    "installed_header_matches_expected (host_view c) (ses_candidate s) (ses_header s)"
  using assms
  by (auto simp: installed_verify_status_def Let_def signed_image_verify_update_slot_buffer_def
      verify_buffer_iff slot_bootable_def signed_image_decode_manifest_def split: if_splits)

lemma bootable_metadata_write:
  assumes dev: "session_device s" and k: "kept in_metadata c c'"
    and boot: "slot_bootable crypt pk (host_view c) (ses_candidate s)"
  shows "slot_bootable crypt pk (host_view c') (ses_candidate s)"
proof -
  have ab: "ses_candidate s = boot_slot_a \<or> ses_candidate s = boot_slot_b"
    using dev by (simp add: session_device_def)
  have "host_view c n = host_view c' n" if "in_slot (ses_candidate s) n" for n
    using k slot_parts_in_slot(4) [OF ab that] by (simp add: kept_def)
  with slot_bootable_cong [OF ab, of "host_view c" "host_view c'"] boot show ?thesis by blast
qed

lemma recover_ok_copies:
  "boot_metadata_recover_from_flash flash c = (BOOT_METADATA_OK, Some (r, v)) \<Longrightarrow>
   copy_a_valid v \<or> copy_b_valid v"
  by (auto simp: boot_metadata_recover_from_flash_def boot_metadata_recover_def Let_def
      split: prod.splits if_splits sum.splits)

lemma inv_init:
  assumes run: "update_installer_session_init crypt flash pk options res c = (UPDATE_INSTALL_OK, s)"
    and flash: "flash_ops flash = writable_ops" "wf_flash flash" and good: "host_healthy c"
    and rec: "boot_metadata_recover_from_flash metadata_flash c = (BOOT_METADATA_OK, Some (r, v))"
  shows "session_inv crypt s c" "ses_metadata_before s = r"
proof -
  note init = session_init_ok [OF run flash(1)]
  have rf: "boot_metadata_recover_from_flash flash c = (BOOT_METADATA_OK, Some (r, v))"
    using recover_host [OF flash(2,1) good] rec by simp
  with init(6) have before: "ses_metadata_before s = r" "ses_metadata_recovery s = v"
    by (simp_all add: start_metadata_def)
  then show "ses_metadata_before s = r" by simp
  from init(7) rf before have active: "active_slot r = ses_active_slot_id s" by auto
  have "state r \<noteq> BOOT_METADATA_STATE_CANDIDATE_READY \<and> state r \<noteq> BOOT_METADATA_STATE_PENDING_TRIAL"
    using run rf by (elim session_init_cases)
      (auto simp: start_metadata_def elim: select_inactive_Inr)
  with active init(1,3) good before recover_ok_copies [OF rf] journal_recordI [OF rec]
  show "session_inv crypt s c" by (auto simp: session_inv_def session_writing_def)
qed

text \<open>
  A call ends in one of two ways: it leaves the journal entry alone and changes the candidate
  slot only while the update is in progress, or it commits the next entry.
\<close>

lemma inv_members:
  assumes "session_fixed s' = session_fixed s"
  shows "writing_entry s' r = writing_entry s r"
    "slot_bootable crypt (ses_public_key s') m (ses_candidate s') =
     slot_bootable crypt (ses_public_key s) m (ses_candidate s)"
    "in_slot (ses_candidate s') = in_slot (ses_candidate s)"
  using fixed_members(2,3,4) [OF assms] by (simp_all add: writing_entry_def)

definition not_announced :: "host_context \<Rightarrow> bool" where
  "not_announced c \<longleftrightarrow> (\<forall>r. journal_record c r \<longrightarrow> state r \<noteq> BOOT_METADATA_STATE_CANDIDATE_READY)"

lemma inv_same_journal:
  assumes inv: "session_inv crypt s c" and fixed: "session_fixed s' = session_fixed s"
    and progress: "c' = c \<or> not_announced c" and k: "kept (in_candidate s) c c'"
    and stop: "not_announced c \<or> \<not> session_open s'"
    and more: "session_writing s' \<Longrightarrow>
      journal_record c (ses_writing_metadata s') \<and> writing_entry s (ses_writing_metadata s')"
  shows "session_inv crypt s' c'"
proof -
  from inv obtain r where dev: "session_device s" and good: "host_healthy c"
    and copies: "copy_a_valid (ses_metadata_recovery s) \<or> copy_b_valid (ses_metadata_recovery s)"
    and r: "journal_record c r" and act: "active_slot r = ses_active_slot_id s"
      "state r \<noteq> BOOT_METADATA_STATE_PENDING_TRIAL"
    and ready: "state r = BOOT_METADATA_STATE_CANDIDATE_READY \<longrightarrow>
      candidate_slot r = slot_num (slot_id (ses_candidate s)) \<and>
      slot_bootable crypt (ses_public_key s) (host_view c) (ses_candidate s)"
    unfolding session_inv_def by blast
  have "journal_record c' r" using journal_record_kept [OF dev good k] r by simp
  moreover have "host_healthy c'" using k good by (simp add: kept_def)
  moreover have "state r = BOOT_METADATA_STATE_CANDIDATE_READY \<longrightarrow> c' = c \<and> \<not> session_open s'"
    using progress stop r by (auto simp: not_announced_def)
  moreover have "session_writing s' \<longrightarrow> r = ses_writing_metadata s' \<and> writing_entry s r"
    using more journal_record_unique [OF r] by auto
  ultimately show ?thesis
    unfolding session_inv_def fixed_members [OF fixed] inv_members [OF fixed]
    using dev copies act ready by metis
qed

lemma inv_device: "session_inv crypt s c \<Longrightarrow> session_device s"
  by (simp add: session_inv_def)

lemma inv_healthy: "session_inv crypt s c \<Longrightarrow> host_healthy c"
  by (simp add: session_inv_def)

lemma inv_open:
  assumes "session_inv crypt s c" "session_open s"
  shows "not_announced c"
  using assms unfolding session_inv_def not_announced_def by (metis journal_record_unique)

lemma inv_writing:
  assumes "session_inv crypt s c" "session_writing s"
  shows "journal_record c (ses_writing_metadata s)" "writing_entry s (ses_writing_metadata s)"
  using assms unfolding session_inv_def by blast+

text \<open>While the update is in progress, programming the candidate slot keeps the invariant.\<close>

lemma inv_progress:
  assumes inv: "session_inv crypt s c" and wr: "session_writing s"
    and up: "session_update s' = session_update s" and k: "kept (in_candidate s) c c'"
  shows "session_inv crypt s' c'"
  using inv_same_journal [OF inv update_members(1) [OF up] _ k] inv_open [OF inv]
    inv_writing [OF inv wr] update_members(3) [OF up] wr
  by (auto simp: session_open_def)

lemma inv_write:
  assumes inv: "session_inv crypt s c" and run: "update_installer_write crypt s c off d = (st, s', c')"
  shows "session_inv crypt s' c'"
proof (cases "session_writing s")
  case False
  with run inv show ?thesis by (auto simp: update_installer_write_def session_writing_def split: if_splits)
next
  case True
  from write_kept [OF inv_device [OF inv] run] inv_progress [OF inv True] show ?thesis by blast
qed

text \<open>A commit attempt: the entry becomes the prepared one, or stays.\<close>

lemma inv_commit:
  assumes inv: "session_inv crypt s c"
    and run: "boot_metadata_commit (ses_restricted_flash s) c nx = (st, c')"
    and fixed: "session_fixed s' = session_fixed s"
    and nr: "not_announced c" and shut: "\<not> session_open s'"
    and act: "active_slot nx = ses_active_slot_id s"
    and ready: "state nx = BOOT_METADATA_STATE_CANDIDATE_READY \<Longrightarrow>
      candidate_slot nx = slot_num (slot_id (ses_candidate s)) \<and>
      slot_bootable crypt (ses_public_key s) (host_view c) (ses_candidate s)"
    and trial: "state nx \<noteq> BOOT_METADATA_STATE_PENDING_TRIAL"
  shows "session_inv crypt s' c'"
proof -
  from inv obtain r where dev: "session_device s" and good: "host_healthy c"
    and copies: "copy_a_valid (ses_metadata_recovery s) \<or> copy_b_valid (ses_metadata_recovery s)"
    and r: "journal_record c r" and old: "active_slot r = ses_active_slot_id s"
      "state r \<noteq> BOOT_METADATA_STATE_PENDING_TRIAL"
    unfolding session_inv_def by blast
  note com = commit_record [OF dev good run r]
  have boot: "slot_bootable crypt (ses_public_key s) (host_view c) (ses_candidate s) \<Longrightarrow>
      slot_bootable crypt (ses_public_key s) (host_view c') (ses_candidate s)"
    by (rule bootable_metadata_write [OF dev commit_kept [OF dev run]])
  from com(3) obtain r' where "journal_record c' r'" "active_slot r' = ses_active_slot_id s"
    "state r' \<noteq> BOOT_METADATA_STATE_PENDING_TRIAL"
    "state r' = BOOT_METADATA_STATE_CANDIDATE_READY \<longrightarrow>
      candidate_slot r' = slot_num (slot_id (ses_candidate s)) \<and>
      slot_bootable crypt (ses_public_key s) (host_view c') (ses_candidate s)"
    using old nr r act ready boot trial unfolding not_announced_def by metis
  then show ?thesis
    unfolding session_inv_def fixed_members [OF fixed] inv_members [OF fixed]
    using dev com(1) copies shut by (auto simp: session_open_def)
qed

lemma inv_finish:
  assumes inv: "session_inv crypt s c" and run: "update_installer_finish crypt s c = (st, s', c')"
  shows "session_inv crypt s' c'"
proof (cases "session_writing s")
  case False
  with run inv show ?thesis by (auto simp: update_installer_finish_def session_writing_def split: if_splits)
next
  case wr: True
  from inv_device [OF inv] run show ?thesis
  proof (cases rule: finish_cases)
    case unverified
    with inv_progress [OF inv wr] show ?thesis by blast
  next
    case (verified c1 s0 s1)
    have inv1: "session_inv crypt s c1" by (rule inv_progress [OF inv wr refl verified(2)])
    note mem = fixed_members [OF update_members(1) [OF verified(3)]] update_members(2,3) [OF verified(3)]
    have fixed': "session_fixed s' = session_fixed s"
      using verified(6) update_members(1) [OF verified(3)] by (simp add: core_flags)
    have shut: "\<not> session_open s'" using verified(6) by (simp add: session_open_def session_writing_def)
    have nr: "not_announced c1" using inv_open [OF inv1] wr by (simp add: session_open_def)
    from verified(5) [unfolded commit_ready_def] show ?thesis
    proof (cases rule: commit_state_cases)
      case untouched
      show ?thesis
        using inv_same_journal [OF inv1 fixed', of c'] untouched nr shut by (auto simp: session_open_def)
    next
      case (committed nx status)
      from installed_bootable(1) [OF _ verified(4)] inv_device [OF inv] mem
      have "slot_bootable crypt (ses_public_key s) (host_view c1) (ses_candidate s)" by simp
      with inv_commit [OF inv1 _ fixed' nr shut] committed(2) prepare_next_fields [OF committed(1)] mem
      show ?thesis by simp
    qed
  qed
qed

lemma abort_state:
  "update_installer_abort s c = (st, s', c') \<Longrightarrow>
   s' = s \<and> c' = c \<or> ses_state s' = UPDATE_INSTALL_SESSION_ABORTED \<or> ses_state s' = UPDATE_INSTALL_SESSION_FAILED"
  by (auto simp: update_installer_abort_def Let_def fail_session_eq
      split: if_splits prod.splits option.splits boot_metadata_status.splits sum.splits)

lemma inv_abort:
  assumes inv: "session_inv crypt s c" and run: "update_installer_abort s c = (st, s', c')"
  shows "session_inv crypt s' c'"
proof (cases "s' = s \<and> c' = c")
  case False
  with abort_state [OF run] have shut: "\<not> session_open s'" by (auto simp: session_open_def session_writing_def)
  have fixed: "session_fixed s' = session_fixed s" by (rule update_members(1) [OF abort_update [OF run]])
  from run show ?thesis
  proof (cases rule: abort_cases)
    case quiet
    with inv_same_journal [OF inv fixed] shut show ?thesis by (auto simp: session_open_def)
  next
    case (rejected r v nx status)
    have "journal_record c r"
      using rejected(3) recover_session [OF inv_device [OF inv] inv_healthy [OF inv]] by (simp add: journal_recordI)
    with rejected(4) have "not_announced c"
      by (auto simp: not_announced_def writing_entry_def dest: journal_record_unique)
    with inv_commit [OF inv rejected(7) fixed _ shut] prepare_next_fields [OF rejected(6)] show ?thesis by simp
  qed
qed (use inv in simp)

lemma begin_cases:
  assumes "update_installer_begin crypt s c hb = (st, s', c')"
  obtains (refused) "ses_state s \<noteq> UPDATE_INSTALL_SESSION_INITIALIZED" "st = UPDATE_INSTALL_ERR_STATE" "s' = s" "c' = c"
  | (rejected) s1 where "ses_state s = UPDATE_INSTALL_SESSION_INITIALIZED"
      "begin_checks crypt s c hb = (st, s1)" "st \<noteq> UPDATE_INSTALL_OK"
      "s' = s1\<lparr>ses_state := UPDATE_INSTALL_SESSION_FAILED\<rparr>" "c' = c"
  | (unannounced) s1 where "ses_state s = UPDATE_INSTALL_SESSION_INITIALIZED"
      "begin_checks crypt s c hb = (UPDATE_INSTALL_OK, s1)" "begin_journal s1 c = (st, c')"
      "st \<noteq> UPDATE_INSTALL_OK" "s' = s1\<lparr>ses_state := UPDATE_INSTALL_SESSION_FAILED\<rparr>"
  | (announced) s1 c1 where "ses_state s = UPDATE_INSTALL_SESSION_INITIALIZED"
      "begin_checks crypt s c hb = (UPDATE_INSTALL_OK, s1)" "begin_journal s1 c = (UPDATE_INSTALL_OK, c1)"
      "begin_store crypt (s1\<lparr>ses_metadata_writing_committed := True\<rparr>) c1 hb = (st, s', c')"
proof (cases "ses_state s = UPDATE_INSTALL_SESSION_INITIALIZED")
  case True
  obtain ck s1 where chk: "begin_checks crypt s c hb = (ck, s1)" by fastforce
  obtain an c1 where ann: "begin_journal s1 c = (an, c1)" by fastforce
  note run = assms [unfolded update_installer_begin_def chk prod.case ann]
  consider "ck \<noteq> UPDATE_INSTALL_OK" | "ck = UPDATE_INSTALL_OK" "an \<noteq> UPDATE_INSTALL_OK"
    | "ck = UPDATE_INSTALL_OK" "an = UPDATE_INSTALL_OK" by blast
  then show ?thesis
  proof cases
    case 1
    with run True chk show ?thesis by (intro rejected [of s1]) (auto simp: fail_session_eq)
  next
    case 2
    with run True chk ann show ?thesis by (intro unannounced [of s1]) (auto simp: fail_session_eq)
  next
    case 3
    with run True chk ann show ?thesis by (intro announced [of s1 c1]) auto
  qed
next
  case False
  with assms show ?thesis by (intro refused) (auto simp: update_installer_begin_def)
qed

lemma begin_journal_commit:
  assumes "copy_a_valid (ses_metadata_recovery s) \<or> copy_b_valid (ses_metadata_recovery s)"
    and "begin_journal s c = (st, c')"
  obtains (untouched) "c' = c" "st \<noteq> UPDATE_INSTALL_OK"
  | (committed) nx status where "boot_metadata_prepare_next (ses_metadata_before s)
        BOOT_METADATA_STATE_WRITING (ses_active_slot_id s) (slot_num (slot_id (ses_candidate s)))
        (image_version (hdr_manifest (ses_header s))) 0 0 0 = Inr nx"
      "boot_metadata_commit (ses_restricted_flash s) c nx = (status, c')"
      "st = UPDATE_INSTALL_OK \<longleftrightarrow> status = BOOT_METADATA_OK"
proof -
  from assms have "commit_metadata_state (ses_restricted_flash s) c (ses_metadata_before s)
      BOOT_METADATA_STATE_WRITING (ses_active_slot_id s) (slot_num (slot_id (ses_candidate s)))
      (image_version (hdr_manifest (ses_header s))) (ses_options s)
      UPDATE_INSTALL_FAULT_METADATA_WRITING = (st, c')"
    by (auto simp: begin_journal_def Let_def)
  then show ?thesis by (cases rule: commit_state_cases) (use untouched committed in auto)
qed

lemma inv_announce:
  assumes inv: "session_inv crypt s c" and op: "session_open s"
    and fixed: "session_fixed s1 = session_fixed s" and run: "begin_journal s1 c = (st, c')"
  shows "session_inv crypt (s\<lparr>ses_state := UPDATE_INSTALL_SESSION_FAILED\<rparr>) c'"
proof -
  let ?F = "s\<lparr>ses_state := UPDATE_INSTALL_SESSION_FAILED\<rparr>"
  note mem = fixed_members [OF fixed]
  have shut: "\<not> session_open ?F" by (simp add: session_open_def session_writing_def)
  have copies: "copy_a_valid (ses_metadata_recovery s1) \<or> copy_b_valid (ses_metadata_recovery s1)"
    using inv mem by (simp add: session_inv_def)
  note nr = inv_open [OF inv op]
  from copies run show ?thesis
  proof (cases rule: begin_journal_commit)
    case untouched
    with inv_same_journal [OF inv core_flags(4) _ _ disjI2 [OF shut]] shut show ?thesis
      by (auto simp: session_open_def)
  next
    case (committed nx status)
    have run: "boot_metadata_commit (ses_restricted_flash s) c nx = (status, c')"
      using committed(2) mem(1) by simp
    have "active_slot nx = ses_active_slot_id s" "state nx = BOOT_METADATA_STATE_WRITING"
      using prepare_next_fields [OF committed(1)] mem(4) by simp_all
    with inv_commit [OF inv run core_flags(4) nr shut] show ?thesis by simp
  qed
qed

lemma inv_begin:
  assumes inv: "session_inv crypt s c" and run: "update_installer_begin crypt s c hb = (st, s', c')"
  shows "session_inv crypt s' c'"
  using run
proof (cases rule: begin_cases)
  case refused
  with inv show ?thesis by simp
next
  case (rejected s1)
  then have shut: "\<not> session_open s'" by (simp add: session_open_def session_writing_def)
  with inv_same_journal [OF inv _ _ _ disjI2 [OF shut]] rejected begin_checks_fixed(1) [OF rejected(2)]
  show ?thesis by (auto simp: core_flags session_open_def)
next
  case (unannounced s1)
  have "session_open s" using unannounced(1) by (simp add: session_open_def)
  note fixed = begin_checks_fixed(1) [OF unannounced(2)]
  note inv1 = inv_announce [OF inv \<open>session_open s\<close> fixed unannounced(3)]
  have shut: "\<not> session_open s'" using unannounced(5) by (simp add: session_open_def session_writing_def)
  with inv_same_journal [OF inv1 _ _ _ disjI2 [OF shut]] unannounced(5) fixed show ?thesis
    by (auto simp: core_flags session_open_def)
next
  case (announced s1 c1)
  have op: "session_open s" using announced(1) by (simp add: session_open_def)
  note fixed1 = begin_checks_fixed(1) [OF announced(2)]
  let ?F = "s\<lparr>ses_state := UPDATE_INSTALL_SESSION_FAILED\<rparr>"
  let ?s = "s1\<lparr>ses_metadata_writing_committed := True\<rparr>"
  note inv1 = inv_announce [OF inv op fixed1 announced(3)]
  have fixed2: "session_fixed ?s = session_fixed ?F" by (simp add: core_flags fixed1)
  note mem = fixed_members [OF fixed2]
  have dev: "session_device ?s" using inv_device [OF inv1] mem by simp
  from begin_store_kept [OF dev announced(4)] fixed2 mem
  have fixed: "session_fixed s' = session_fixed ?F" and k: "kept (in_candidate ?F) c1 c'" by simp_all
  have rec: "boot_metadata_recover_from_flash (ses_restricted_flash ?s) c1 =
      boot_metadata_recover_from_flash metadata_flash c1"
    by (rule recover_session [OF dev inv_healthy [OF inv1]])
  have progress: "not_announced c1 \<and> (session_writing s' \<longrightarrow>
      journal_record c1 (ses_writing_metadata s') \<and> writing_entry ?F (ses_writing_metadata s')) \<or>
      c' = c1 \<and> \<not> session_open s'"
    using announced(4)
  proof (cases rule: begin_store_cases)
    case unannounced
    then show ?thesis by (auto simp: session_open_def session_writing_def)
  next
    case (unerased w v s2)
    with rec have "journal_record c1 w" by (simp add: journal_recordI)
    with unerased show ?thesis
      by (auto simp: session_writing_def not_announced_def writing_entry_def dest: journal_record_unique)
  next
    case (erased w v s2 c2 s3)
    with rec have w: "journal_record c1 w" by (simp add: journal_recordI)
    have "ses_writing_metadata s2 = w"
      using core_members(5) [OF conjunct1 [OF erase_candidate_kept [OF _ erased(3)]]]
        fixed_members(12) [OF core_flags(2) [where s = ?s and w = w]] dev by simp
    moreover have "session_fixed (s2\<lparr>ses_candidate_erased := True\<rparr>) = session_fixed ?s"
      using core_fixed [OF conjunct1 [OF erase_candidate_kept [OF _ erased(3)]]]
        fixed_members(12) [OF core_flags(2) [where s = ?s and w = w]] dev by (simp add: core_flags)
    with core_members(5) [OF conjunct1 [OF program_source_range_kept [OF _ _ erased(4)]]] dev
      fixed_members(2,12) [OF this]
    have "ses_writing_metadata s3 = ses_writing_metadata s2" by simp
    ultimately have "ses_writing_metadata s' = w" using erased(5) by simp
    with w erased(2) inv_members(1) [OF fixed2] show ?thesis
      by (auto simp: session_writing_def not_announced_def writing_entry_def dest: journal_record_unique)
  qed
  with inv_same_journal [OF inv1 fixed _ k] show ?thesis by (auto simp: session_open_def)
qed

lemma inv_ops:
  assumes "session_inv crypt s c" "session_ops crypt xs s c = (s', c')"
  shows "session_inv crypt s' c'"
  using assms
proof (induction xs arbitrary: s c)
  case (Cons x xs)
  obtain st s1 c1 where call: "session_call crypt x s c = (st, s1, c1)" by (metis prod_cases3)
  have "session_inv crypt s1 c1"
    using Cons.prems(1) call
    by (cases x) (auto intro: inv_begin inv_write inv_finish inv_abort)
  with Cons call show ?case by auto
qed simp

section \<open>Properties\<close>

text \<open>
  C14. An update cannot touch what it must keep: whatever sequence of installer calls is made,
  with whatever arguments and whichever flash operations fail, every flash address outside
  the journal sectors and the candidate slot keeps its contents; in particular the active
  slot does.
\<close>

theorem update_confined:
  assumes init: "update_installer_session_init crypt flash pk options res c = (UPDATE_INSTALL_OK, s)"
    and flash: "flash_ops flash = writable_ops"
    and run: "session_ops crypt xs s c = (s', c')"
  shows "(\<forall>n. in_flash n \<and> \<not> in_metadata n \<and> \<not> in_slot (ses_candidate s) n \<longrightarrow>
      host_view c' n = host_view c n) \<and>
    (\<forall>act. ses_active s = Some act \<longrightarrow> (\<forall>n. in_slot act n \<longrightarrow> host_view c' n = host_view c n))"
proof -
  note start = session_init_ok [OF init flash]
  from session_ops_kept [OF start(1) run]
  have same: "host_view c' n = host_view c n"
    if "in_flash n" "\<not> in_metadata n" "\<not> in_slot (ses_candidate s) n" for n
    using that by (simp add: kept_def in_update_area_def in_candidate_def)
  have "host_view c' n = host_view c n" if act: "ses_active s = Some act" and n: "in_slot act n" for act n
  proof -
    from start(2) act have ab: "act = boot_slot_a \<or> act = boot_slot_b"
      and "\<not> in_slot (ses_candidate s) n"
      using n by (auto simp: session_slots_def in_slot_def boot_slot_rows)
    with slot_parts_in_slot(4) [OF ab n] show ?thesis by (intro same) auto
  qed
  with same show ?thesis by blast
qed

text \<open>
  C13. A candidate is announced only when it is bootable: after any sequence of installer calls on
  a device without silent corruption, if the journal says CANDIDATE\_READY then it names the
  candidate slot of the session, and this slot holds an acceptable, authentic image. This
  includes the sessions whose last commit was interrupted.
\<close>

theorem announced_candidate_bootable:
  assumes init: "update_installer_session_init crypt flash pk options res c = (UPDATE_INSTALL_OK, s)"
    and flash: "flash_ops flash = writable_ops" "wf_flash flash" and good: "host_healthy c"
    and start: "boot_metadata_recover_from_flash metadata_flash c = (BOOT_METADATA_OK, Some (r, v))"
    and run: "session_ops crypt xs s c = (s', c')"
    and ready: "journal_record c' r'" "state r' = BOOT_METADATA_STATE_CANDIDATE_READY"
  shows "candidate_slot r' = slot_num (slot_id (ses_candidate s)) \<and>
    slot_bootable crypt pk (host_view c') (ses_candidate s)"
proof -
  note inv = inv_ops [OF inv_init(1) [OF init flash good start] run]
  from session_ops_kept [OF session_init_ok(1) [OF init flash(1)] run]
  have "session_fixed s' = session_fixed s" by simp
  note mem = fixed_members(2,3) [OF this]
  from inv ready have "candidate_slot r' = slot_num (slot_id (ses_candidate s'))"
    "slot_bootable crypt (ses_public_key s') (host_view c') (ses_candidate s')"
    unfolding session_inv_def by (metis journal_record_unique)+
  with mem session_init_ok(5) [OF init flash(1)] show ?thesis by simp
qed

text \<open>
  An update never bricks the device: if the active slot holds an acceptable, authentic image
  when the session starts, then after any sequence of installer calls, with any flash operation
  failing or interrupted at any point, a reboot enters the application of a slot that holds an
  acceptable, authentic image.
\<close>

theorem update_never_bricks:
  assumes init: "update_installer_session_init crypt flash pk options res c = (UPDATE_INSTALL_OK, s)"
    and flash: "flash_ops flash = writable_ops" "wf_flash flash" and good: "host_healthy c"
    and start: "boot_metadata_recover_from_flash metadata_flash c = (BOOT_METADATA_OK, Some (r, v))"
    and slot: "boot_slot_lookup (active_slot r) = Some act"
    and boot: "slot_bootable crypt pk (host_view c) act"
    and run: "session_ops crypt xs s c = (s', c')"
  shows "\<exists>ev st effs c''. boot_sequence_execute crypt pk c' csr = (ev, BOOT_JUMP st effs, c'') \<and>
    (\<exists>entered \<in> {boot_slot_a, boot_slot_b}. slot_bootable crypt pk (host_view c'') entered \<and>
       last effs = ENTER (slot_entry (host_view c'') entered))"
proof -
  note ok = session_init_ok [OF init flash(1)]
  note before = inv_init [OF init flash good start]
  have "fst (boot_metadata_recover_from_flash flash c) = BOOT_METADATA_OK"
    using recover_host [OF flash(2,1) good] start by simp
  with ok(7) before(2) slot have active: "ses_active s = Some act" "ses_active_slot_id s = active_slot r"
    by auto
  from session_ops_kept [OF ok(1) run] have fixed: "session_fixed s' = session_fixed s"
    and k: "kept (in_update_area s) c c'" by simp_all
  from inv_ops [OF before(1) run] obtain r' where good': "host_healthy c'"
    and r': "journal_record c' r'" "active_slot r' = ses_active_slot_id s'"
    unfolding session_inv_def by blast
  from r'(1) obtain v' where rec: "boot_metadata_recover_from_flash metadata_flash c' = (BOOT_METADATA_OK, Some (r', v'))"
    by (rule journal_recordE)
  have slot': "boot_slot_lookup (active_slot r') = Some act"
    using r'(2) fixed_members(4) [OF fixed] active(2) slot by simp
  have ab: "act = boot_slot_a \<or> act = boot_slot_b" using slot by (auto simp: boot_slot_lookup_Some)
  have "host_view c n = host_view c' n" if "in_slot act n" for n
    using that k ok(2) active(1) slot_parts_in_slot(4) [OF ab that]
    by (auto simp: kept_def in_update_area_def in_candidate_def session_slots_def in_slot_def boot_slot_rows)
  with slot_bootable_cong [OF ab, of "host_view c" "host_view c'"] boot
  have "slot_bootable crypt pk (host_view c') act" by blast
  from active_image_boots [OF rec good' slot' this] show ?thesis .
qed

end
