(* ===== verification/Update_Frames.thy ===== *)
theory Update_Frames
  imports Boot_Metadata
begin

text \<open>
  The framing of the update protocol (first part of \<^verbatim>\<open>update_protocol.h\<close>, \<^verbatim>\<open>update_protocol.c\<close>): a
  frame is the magic bytes SUPD, version, command, sequence number and payload length, the
  payload, and a CRC-32 over all of it. The receiver is a parser that takes one byte at a time.

  The parser state is the C structure; its state member is the byte of the source, so the
  default branch of the switch is a branch of the model. An array is a list of fixed length; a
  C store through an index is a list update, which is the store only while the index is in
  range: \<open>parser_in_bounds\<close> below shows that it always is.
\<close>

type_synonym u16 = "16 word"

section \<open>Types\<close>

abbreviation UPDATE_PROTOCOL_MAGIC_SIZE :: nat where "UPDATE_PROTOCOL_MAGIC_SIZE \<equiv> 4"
abbreviation UPDATE_PROTOCOL_HEADER_SIZE :: nat where "UPDATE_PROTOCOL_HEADER_SIZE \<equiv> 10"
abbreviation UPDATE_PROTOCOL_CRC_SIZE :: nat where "UPDATE_PROTOCOL_CRC_SIZE \<equiv> 4"
abbreviation UPDATE_PROTOCOL_MAX_PAYLOAD_SIZE :: nat where "UPDATE_PROTOCOL_MAX_PAYLOAD_SIZE \<equiv> 1024"
abbreviation UPDATE_PROTOCOL_MAX_FRAME_SIZE :: nat where "UPDATE_PROTOCOL_MAX_FRAME_SIZE \<equiv> 1038"
abbreviation UPDATE_PROTOCOL_VERSION :: u8 where "UPDATE_PROTOCOL_VERSION \<equiv> 1"

abbreviation UPDATE_PROTOCOL_STATE_SYNC :: u8 where "UPDATE_PROTOCOL_STATE_SYNC \<equiv> 0"
abbreviation UPDATE_PROTOCOL_STATE_HEADER :: u8 where "UPDATE_PROTOCOL_STATE_HEADER \<equiv> 1"
abbreviation UPDATE_PROTOCOL_STATE_PAYLOAD :: u8 where "UPDATE_PROTOCOL_STATE_PAYLOAD \<equiv> 2"
abbreviation UPDATE_PROTOCOL_STATE_CRC :: u8 where "UPDATE_PROTOCOL_STATE_CRC \<equiv> 3"

datatype update_protocol_status =
    UPDATE_PROTOCOL_STATUS_OK
  | UPDATE_PROTOCOL_STATUS_PARSER_ERROR
  | UPDATE_PROTOCOL_STATUS_STATE_ERROR
  | UPDATE_PROTOCOL_STATUS_FLASH_ERROR
  | UPDATE_PROTOCOL_STATUS_VERIFY_ERROR
  | UPDATE_PROTOCOL_STATUS_ROLLBACK_ERROR
  | UPDATE_PROTOCOL_STATUS_CRC_ERROR
  | UPDATE_PROTOCOL_STATUS_VERSION_ERROR
  | UPDATE_PROTOCOL_STATUS_LENGTH_ERROR
  | UPDATE_PROTOCOL_STATUS_OVERSIZE_ERROR
  | UPDATE_PROTOCOL_STATUS_SEQUENCE_ERROR
  | UPDATE_PROTOCOL_STATUS_UNKNOWN_COMMAND
  | UPDATE_PROTOCOL_STATUS_TIMEOUT
  | UPDATE_PROTOCOL_STATUS_IO_ERROR
  | UPDATE_PROTOCOL_STATUS_INVALID_ARGUMENT
  | UPDATE_PROTOCOL_STATUS_INSTALLER_ERROR

datatype update_protocol_parse_status =
    UPDATE_PROTOCOL_PARSE_NEED_MORE
  | UPDATE_PROTOCOL_PARSE_FRAME_READY
  | UPDATE_PROTOCOL_PARSE_ERR_OVERSIZE
  | UPDATE_PROTOCOL_PARSE_ERR_CRC
  | UPDATE_PROTOCOL_PARSE_ERR_INVALID_ARGUMENT

record update_protocol_frame =
  fr_version :: u8
  fr_command :: u8
  fr_sequence :: u16
  fr_payload_length :: u16
  fr_payload :: bytes

record update_protocol_parser =
  ps_state :: u8
  ps_magic_matched :: nat
  ps_header_decoded :: bool
  ps_header_received :: size_t
  ps_payload_received :: size_t
  ps_crc_received :: size_t
  ps_header :: bytes
  ps_crc_bytes :: bytes
  ps_frame :: update_protocol_frame
  ps_error_info_valid :: bool
  ps_error_command :: u8
  ps_error_sequence :: u16

section \<open>Parser\<close>

definition protocol_magic :: bytes where
  "protocol_magic = [0x53, 0x55, 0x50, 0x44]"

definition load_le16 :: "bytes \<Rightarrow> u16" where
  "load_le16 bs = ucast (bs ! 0) OR push_bit 8 (ucast (bs ! 1))"

definition le16 :: "u16 \<Rightarrow> bytes" where
  "le16 v = [ucast (v AND 0xFF), ucast (drop_bit 8 v AND 0xFF)]"

definition parser_reset_state :: "update_protocol_parser \<Rightarrow> update_protocol_parser" where
  "parser_reset_state p =
     p\<lparr>ps_state := UPDATE_PROTOCOL_STATE_SYNC, ps_magic_matched := 0, ps_header_decoded := False,
       ps_header_received := 0, ps_payload_received := 0, ps_crc_received := 0\<rparr>"

definition update_protocol_parser_init :: update_protocol_parser where
  "update_protocol_parser_init = parser_reset_state
     \<lparr>ps_state = 0, ps_magic_matched = 0, ps_header_decoded = False, ps_header_received = 0,
      ps_payload_received = 0, ps_crc_received = 0, ps_header = replicate 10 0,
      ps_crc_bytes = replicate 4 0,
      ps_frame = \<lparr>fr_version = 0, fr_command = 0, fr_sequence = 0, fr_payload_length = 0,
                  fr_payload = replicate 1024 0\<rparr>,
      ps_error_info_valid = False, ps_error_command = 0, ps_error_sequence = 0\<rparr>"

definition update_protocol_crc32_update :: "u32 \<Rightarrow> bytes \<Rightarrow> u32" where
  "update_protocol_crc32_update crc data = NOT (foldl crc32_byte (NOT crc) data)"

definition update_protocol_crc32 :: "bytes \<Rightarrow> u32" where
  "update_protocol_crc32 data = update_protocol_crc32_update 0 data"

definition parser_decode_header ::
    "update_protocol_parser \<Rightarrow> update_protocol_parse_status \<times> update_protocol_parser" where
  "parser_decode_header p =
     (let f = (ps_frame p)\<lparr>fr_version := ps_header p ! 4, fr_command := ps_header p ! 5,
                fr_sequence := load_le16 (drop 6 (ps_header p)),
                fr_payload_length := load_le16 (drop 8 (ps_header p))\<rparr>;
          q = p\<lparr>ps_frame := f, ps_error_command := fr_command f, ps_error_sequence := fr_sequence f,
                ps_error_info_valid := True, ps_header_decoded := True\<rparr>
      in if unat (fr_payload_length f) > UPDATE_PROTOCOL_MAX_PAYLOAD_SIZE
         then (UPDATE_PROTOCOL_PARSE_ERR_OVERSIZE, parser_reset_state q)
         else (UPDATE_PROTOCOL_PARSE_NEED_MORE,
               q\<lparr>ps_state := (if fr_payload_length f = 0 then UPDATE_PROTOCOL_STATE_CRC
                               else UPDATE_PROTOCOL_STATE_PAYLOAD)\<rparr>))"

definition parser_accept_magic_byte ::
    "update_protocol_parser \<Rightarrow> u8 \<Rightarrow> update_protocol_parse_status \<times> update_protocol_parser" where
  "parser_accept_magic_byte p b =
     (if b = protocol_magic ! ps_magic_matched p then
        (let q = (if ps_magic_matched p = 0 then p\<lparr>ps_error_info_valid := False\<rparr> else p);
             q1 = q\<lparr>ps_header := (ps_header q)[ps_magic_matched q := b],
                    ps_magic_matched := ps_magic_matched q + 1,
                    ps_header_received := ps_magic_matched q + 1\<rparr>
         in (UPDATE_PROTOCOL_PARSE_NEED_MORE,
             if ps_magic_matched q1 = UPDATE_PROTOCOL_MAGIC_SIZE
             then q1\<lparr>ps_state := UPDATE_PROTOCOL_STATE_HEADER\<rparr> else q1))
      else if b = protocol_magic ! 0
      then (UPDATE_PROTOCOL_PARSE_NEED_MORE,
            p\<lparr>ps_error_info_valid := False, ps_header := (ps_header p)[0 := b],
              ps_magic_matched := 1, ps_header_received := 1\<rparr>)
      else (UPDATE_PROTOCOL_PARSE_NEED_MORE,
            p\<lparr>ps_magic_matched := 0, ps_header_received := 0\<rparr>))"

definition parser_finish_frame ::
    "update_protocol_parser \<Rightarrow> update_protocol_parse_status \<times> update_protocol_parser" where
  "parser_finish_frame p =
     (let expected_crc = load_le32 (ps_crc_bytes p);
          actual_crc = update_protocol_crc32_update (update_protocol_crc32_update 0 (ps_header p))
            (take (unat (fr_payload_length (ps_frame p))) (fr_payload (ps_frame p)))
      in (if actual_crc = expected_crc then UPDATE_PROTOCOL_PARSE_FRAME_READY
          else UPDATE_PROTOCOL_PARSE_ERR_CRC, parser_reset_state p))"

definition update_protocol_parser_push ::
    "update_protocol_parser \<Rightarrow> u8 \<Rightarrow> update_protocol_parse_status \<times> update_protocol_parser" where
  "update_protocol_parser_push p b =
     (if ps_state p = UPDATE_PROTOCOL_STATE_SYNC then parser_accept_magic_byte p b
      else if ps_state p = UPDATE_PROTOCOL_STATE_HEADER then
        (let q = p\<lparr>ps_header := (ps_header p)[ps_header_received p := b],
                   ps_header_received := ps_header_received p + 1\<rparr>
         in if ps_header_received q = UPDATE_PROTOCOL_HEADER_SIZE then parser_decode_header q
            else (UPDATE_PROTOCOL_PARSE_NEED_MORE, q))
      else if ps_state p = UPDATE_PROTOCOL_STATE_PAYLOAD then
        (let q = p\<lparr>ps_frame := (ps_frame p)\<lparr>fr_payload := (fr_payload (ps_frame p))[ps_payload_received p := b]\<rparr>,
                   ps_payload_received := ps_payload_received p + 1\<rparr>
         in (UPDATE_PROTOCOL_PARSE_NEED_MORE,
             if ps_payload_received q = unat (fr_payload_length (ps_frame q))
             then q\<lparr>ps_state := UPDATE_PROTOCOL_STATE_CRC\<rparr> else q))
      else if ps_state p = UPDATE_PROTOCOL_STATE_CRC then
        (let q = p\<lparr>ps_crc_bytes := (ps_crc_bytes p)[ps_crc_received p := b],
                   ps_crc_received := ps_crc_received p + 1\<rparr>
         in if ps_crc_received q = UPDATE_PROTOCOL_CRC_SIZE then parser_finish_frame q
            else (UPDATE_PROTOCOL_PARSE_NEED_MORE, q))
      else (UPDATE_PROTOCOL_PARSE_ERR_INVALID_ARGUMENT, parser_reset_state p))"

definition update_protocol_parser_has_partial :: "update_protocol_parser \<Rightarrow> bool" where
  "update_protocol_parser_has_partial p \<longleftrightarrow> ps_state p \<noteq> UPDATE_PROTOCOL_STATE_SYNC"

definition update_protocol_parser_error_info :: "update_protocol_parser \<Rightarrow> (u8 \<times> u16) option" where
  "update_protocol_parser_error_info p =
     (if ps_error_info_valid p then Some (ps_error_command p, ps_error_sequence p) else None)"

section \<open>Encoder\<close>

text \<open>The payload and its length are one list.\<close>

definition build_header ::
    "u8 \<Rightarrow> u16 \<Rightarrow> bytes \<Rightarrow> update_protocol_status + (bytes \<times> u32)" where
  "build_header command seq payload =
     (if length payload > UPDATE_PROTOCOL_MAX_PAYLOAD_SIZE
      then Inl UPDATE_PROTOCOL_STATUS_INVALID_ARGUMENT
      else let header = protocol_magic @ [UPDATE_PROTOCOL_VERSION, command] @ le16 seq @
                        le16 (of_nat (length payload))
           in Inr (header, update_protocol_crc32_update (update_protocol_crc32_update 0 header) payload))"

definition update_protocol_encode_frame ::
    "u8 \<Rightarrow> u16 \<Rightarrow> bytes \<Rightarrow> size_t \<Rightarrow> update_protocol_status + bytes" where
  "update_protocol_encode_frame command seq payload output_capacity =
     (if output_capacity < UPDATE_PROTOCOL_HEADER_SIZE + length payload + UPDATE_PROTOCOL_CRC_SIZE
      then Inl UPDATE_PROTOCOL_STATUS_INVALID_ARGUMENT
      else case build_header command seq payload of
        Inl status \<Rightarrow> Inl status
      | Inr (header, crc) \<Rightarrow> Inr (header @ payload @ le32 crc))"

text \<open>A writer is a function with its context; every call returns the changed context.\<close>

record 'w update_protocol_writer =
  writer_context :: 'w
  writer_write :: "'w \<Rightarrow> bytes \<Rightarrow> update_protocol_status \<times> 'w"

definition writer_put ::
    "'w update_protocol_writer \<Rightarrow> bytes \<Rightarrow> update_protocol_status \<times> 'w update_protocol_writer" where
  "writer_put w data =
     (case writer_write w (writer_context w) data of (status, ctx) \<Rightarrow> (status, w\<lparr>writer_context := ctx\<rparr>))"

definition update_protocol_write_frame ::
    "'w update_protocol_writer \<Rightarrow> u8 \<Rightarrow> u16 \<Rightarrow> bytes \<Rightarrow>
     update_protocol_status \<times> 'w update_protocol_writer" where
  "update_protocol_write_frame w command seq payload =
     (case build_header command seq payload of
        Inl status \<Rightarrow> (status, w)
      | Inr (header, crc) \<Rightarrow>
          (case writer_put w header of
             (status, w1) \<Rightarrow>
               if status \<noteq> UPDATE_PROTOCOL_STATUS_OK then (status, w1)
               else if length payload \<noteq> 0 then
                 (case writer_put w1 payload of
                    (status2, w2) \<Rightarrow>
                      if status2 \<noteq> UPDATE_PROTOCOL_STATUS_OK then (status2, w2)
                      else writer_put w2 (le32 crc))
               else writer_put w1 (le32 crc)))"

section \<open>Invariant of the parser\<close>

definition parser_wf :: "update_protocol_parser \<Rightarrow> bool" where
  "parser_wf p \<longleftrightarrow>
     length (ps_header p) = 10 \<and> length (ps_crc_bytes p) = 4 \<and> length (fr_payload (ps_frame p)) = 1024 \<and>
     (ps_state p = UPDATE_PROTOCOL_STATE_SYNC \<and> ps_magic_matched p < 4 \<and> ps_payload_received p = 0 \<and>
        ps_crc_received p = 0 \<or>
      ps_state p = UPDATE_PROTOCOL_STATE_HEADER \<and> 4 \<le> ps_header_received p \<and> ps_header_received p < 10 \<and>
        ps_payload_received p = 0 \<and> ps_crc_received p = 0 \<or>
      ps_state p = UPDATE_PROTOCOL_STATE_PAYLOAD \<and> ps_crc_received p = 0 \<and>
        ps_payload_received p < unat (fr_payload_length (ps_frame p)) \<and>
        unat (fr_payload_length (ps_frame p)) \<le> 1024 \<or>
      ps_state p = UPDATE_PROTOCOL_STATE_CRC \<and> ps_crc_received p < 4 \<and>
        unat (fr_payload_length (ps_frame p)) \<le> 1024)"

lemma parser_wf_init: "parser_wf update_protocol_parser_init"
  by (simp add: parser_wf_def update_protocol_parser_init_def parser_reset_state_def)

text \<open>The parser step in each of its four states.\<close>

lemma push_sync:
  assumes "ps_state p = UPDATE_PROTOCOL_STATE_SYNC"
  shows "update_protocol_parser_push p b = (UPDATE_PROTOCOL_PARSE_NEED_MORE,
    if b = protocol_magic ! ps_magic_matched p then
      p\<lparr>ps_error_info_valid := ps_error_info_valid p \<and> ps_magic_matched p \<noteq> 0,
        ps_header := (ps_header p)[ps_magic_matched p := b],
        ps_magic_matched := Suc (ps_magic_matched p), ps_header_received := Suc (ps_magic_matched p),
        ps_state := (if ps_magic_matched p = 3 then UPDATE_PROTOCOL_STATE_HEADER else ps_state p)\<rparr>
    else if b = protocol_magic ! 0 then
      p\<lparr>ps_error_info_valid := False, ps_header := (ps_header p)[0 := b], ps_magic_matched := 1,
        ps_header_received := 1\<rparr>
    else p\<lparr>ps_magic_matched := 0, ps_header_received := 0\<rparr>)"
  using assms
  by (cases p) (simp add: update_protocol_parser_push_def parser_accept_magic_byte_def Let_def)

lemma push_header:
  assumes "ps_state p = UPDATE_PROTOCOL_STATE_HEADER"
  shows "update_protocol_parser_push p b =
    (let q = p\<lparr>ps_header := (ps_header p)[ps_header_received p := b], ps_header_received := Suc (ps_header_received p)\<rparr>
     in if Suc (ps_header_received p) = 10 then parser_decode_header q else (UPDATE_PROTOCOL_PARSE_NEED_MORE, q))"
  by (simp add: update_protocol_parser_push_def assms Let_def)

lemma push_payload:
  assumes "ps_state p = UPDATE_PROTOCOL_STATE_PAYLOAD"
  shows "update_protocol_parser_push p b = (UPDATE_PROTOCOL_PARSE_NEED_MORE,
    p\<lparr>ps_frame := (ps_frame p)\<lparr>fr_payload := (fr_payload (ps_frame p))[ps_payload_received p := b]\<rparr>,
      ps_payload_received := Suc (ps_payload_received p),
      ps_state := (if Suc (ps_payload_received p) = unat (fr_payload_length (ps_frame p))
                   then UPDATE_PROTOCOL_STATE_CRC else UPDATE_PROTOCOL_STATE_PAYLOAD)\<rparr>)"
  by (simp add: update_protocol_parser_push_def assms Let_def)

lemma push_crc:
  assumes "ps_state p = UPDATE_PROTOCOL_STATE_CRC"
  shows "update_protocol_parser_push p b =
    (let q = p\<lparr>ps_crc_bytes := (ps_crc_bytes p)[ps_crc_received p := b], ps_crc_received := Suc (ps_crc_received p)\<rparr>
     in if Suc (ps_crc_received p) = 4 then parser_finish_frame q else (UPDATE_PROTOCOL_PARSE_NEED_MORE, q))"
  by (simp add: update_protocol_parser_push_def assms Let_def)

lemma wf_sync:
  assumes "parser_wf p" "ps_state p = UPDATE_PROTOCOL_STATE_SYNC"
  shows "parser_wf (snd (update_protocol_parser_push p b))"
    "fst (update_protocol_parser_push p b) = UPDATE_PROTOCOL_PARSE_NEED_MORE"
  using assms by (simp_all add: push_sync parser_wf_def)

lemma wf_header:
  assumes "parser_wf p" "ps_state p = UPDATE_PROTOCOL_STATE_HEADER"
  shows "parser_wf (snd (update_protocol_parser_push p b))"
    "fst (update_protocol_parser_push p b) = UPDATE_PROTOCOL_PARSE_NEED_MORE \<or>
     fst (update_protocol_parser_push p b) = UPDATE_PROTOCOL_PARSE_ERR_OVERSIZE \<and>
     ps_state (snd (update_protocol_parser_push p b)) = UPDATE_PROTOCOL_STATE_SYNC"
  using assms
  by (simp_all add: push_header parser_wf_def parser_decode_header_def parser_reset_state_def Let_def unat_gt_0)

lemma wf_payload:
  assumes "parser_wf p" "ps_state p = UPDATE_PROTOCOL_STATE_PAYLOAD"
  shows "parser_wf (snd (update_protocol_parser_push p b))"
    "fst (update_protocol_parser_push p b) = UPDATE_PROTOCOL_PARSE_NEED_MORE"
  using assms by (simp_all add: push_payload parser_wf_def)

lemma wf_crc:
  assumes "parser_wf p" "ps_state p = UPDATE_PROTOCOL_STATE_CRC"
  shows "parser_wf (snd (update_protocol_parser_push p b))"
    "fst (update_protocol_parser_push p b) = UPDATE_PROTOCOL_PARSE_NEED_MORE \<or>
     fst (update_protocol_parser_push p b) \<in> {UPDATE_PROTOCOL_PARSE_FRAME_READY, UPDATE_PROTOCOL_PARSE_ERR_CRC} \<and>
     ps_state (snd (update_protocol_parser_push p b)) = UPDATE_PROTOCOL_STATE_SYNC"
  using assms
  by (simp_all add: push_crc parser_wf_def parser_finish_frame_def parser_reset_state_def Let_def)

lemma wf_cases:
  assumes "parser_wf p"
  obtains "ps_state p = UPDATE_PROTOCOL_STATE_SYNC" | "ps_state p = UPDATE_PROTOCOL_STATE_HEADER"
  | "ps_state p = UPDATE_PROTOCOL_STATE_PAYLOAD" | "ps_state p = UPDATE_PROTOCOL_STATE_CRC"
  using assms by (auto simp: parser_wf_def)

lemma parser_wf_push:
  assumes wf: "parser_wf p" and push: "update_protocol_parser_push p b = (st, q)"
  shows "parser_wf q" "st \<noteq> UPDATE_PROTOCOL_PARSE_ERR_INVALID_ARGUMENT"
    "st \<noteq> UPDATE_PROTOCOL_PARSE_NEED_MORE \<Longrightarrow> ps_state q = UPDATE_PROTOCOL_STATE_SYNC"
  using wf wf_sync [OF wf, of b] wf_header [OF wf, of b] wf_payload [OF wf, of b] wf_crc [OF wf, of b] push
  by (cases rule: wf_cases; auto)+

section \<open>Parsing byte sequences\<close>

fun push_all ::
    "update_protocol_parser \<Rightarrow> bytes \<Rightarrow> update_protocol_parse_status list \<times> update_protocol_parser" where
  "push_all p [] = ([], p)"
| "push_all p (b # bs) =
     (case update_protocol_parser_push p b of
        (st, q) \<Rightarrow> (case push_all q bs of (sts, r) \<Rightarrow> (st # sts, r)))"

lemma push_all_append:
  "push_all p (xs @ ys) =
     (case push_all p xs of (s, q) \<Rightarrow> (case push_all q ys of (t, r) \<Rightarrow> (s @ t, r)))"
  by (induction xs arbitrary: p) (auto split: prod.splits)

lemma parser_wf_push_all:
  assumes "parser_wf p" "push_all p bs = (sts, q)"
  shows "parser_wf q \<and> UPDATE_PROTOCOL_PARSE_ERR_INVALID_ARGUMENT \<notin> set sts"
  using assms
proof (induction bs arbitrary: p sts q)
  case (Cons b bs)
  obtain st p1 where push: "update_protocol_parser_push p b = (st, p1)" by fastforce
  obtain sts' q' where rest: "push_all p1 bs = (sts', q')" by fastforce
  from Cons.IH [OF parser_wf_push(1) [OF Cons.prems(1) push] rest] parser_wf_push(2) [OF Cons.prems(1) push]
    Cons.prems(2) push rest show ?case by auto
qed simp

text \<open>
  A complete frame, in the four stages of the parser. The parser may have seen part of the
  magic bytes before.
\<close>

lemma push_first_magic:
  assumes "parser_wf p" "ps_state p = UPDATE_PROTOCOL_STATE_SYNC"
  shows "update_protocol_parser_push p 0x53 = (UPDATE_PROTOCOL_PARSE_NEED_MORE,
    p\<lparr>ps_error_info_valid := False, ps_header := (ps_header p)[0 := 0x53], ps_magic_matched := 1,
      ps_header_received := 1\<rparr>)"
proof -
  have "ps_magic_matched p < 4" using assms by (auto simp: parser_wf_def)
  then consider "ps_magic_matched p = 0" | "ps_magic_matched p = 1" | "ps_magic_matched p = 2"
    | "ps_magic_matched p = 3" by linarith
  then show ?thesis
    using assms(2) by cases (cases p; simp add: push_sync protocol_magic_def)+
qed

lemma parse_magic:
  assumes "parser_wf p" "ps_state p = UPDATE_PROTOCOL_STATE_SYNC"
  shows "push_all p protocol_magic = (replicate 4 UPDATE_PROTOCOL_PARSE_NEED_MORE,
    p\<lparr>ps_error_info_valid := False, ps_header := bytes_write 0 protocol_magic (ps_header p),
      ps_magic_matched := 4, ps_header_received := 4, ps_state := UPDATE_PROTOCOL_STATE_HEADER\<rparr>)"
proof -
  have len: "length (ps_header p) = 10" using assms by (simp add: parser_wf_def)
  then have "(ps_header p)[0 := 0x53, 1 := 0x55, 2 := 0x50, 3 := 0x44] = bytes_write 0 protocol_magic (ps_header p)"
    by (intro nth_equalityI)
      (auto simp: nth_bytes_write protocol_magic_def nth_list_update less_Suc_eq numeral_eq_Suc)
  with assms(2) show ?thesis
    unfolding protocol_magic_def
    by (simp add: push_first_magic [OF assms] push_sync numeral_eq_Suc protocol_magic_def)
qed

text \<open>The frame that a header describes.\<close>

definition header_frame :: "bytes \<Rightarrow> bytes \<Rightarrow> update_protocol_frame" where
  "header_frame h buf =
     \<lparr>fr_version = h ! 4, fr_command = h ! 5, fr_sequence = load_le16 (drop 6 h),
      fr_payload_length = load_le16 (drop 8 h), fr_payload = buf\<rparr>"

lemma header_stage:
  assumes "ps_state p = UPDATE_PROTOCOL_STATE_HEADER" "ps_header_received p = k" "k < 10" "length (ps_header p) = 10"
    and "length d = 10 - k" and h: "h = bytes_write k d (ps_header p)"
    and n: "unat (load_le16 (drop 8 h)) \<le> 1024"
  shows "push_all p d = (replicate (10 - k) UPDATE_PROTOCOL_PARSE_NEED_MORE,
    p\<lparr>ps_header := h, ps_header_received := 10, ps_frame := header_frame h (fr_payload (ps_frame p)),
      ps_error_command := h ! 5, ps_error_sequence := load_le16 (drop 6 h), ps_error_info_valid := True,
      ps_header_decoded := True,
      ps_state := (if load_le16 (drop 8 h) = 0 then UPDATE_PROTOCOL_STATE_CRC else UPDATE_PROTOCOL_STATE_PAYLOAD)\<rparr>)"
  using assms
proof (induction d arbitrary: p k)
  case (Cons b d)
  let ?p = "p\<lparr>ps_header := (ps_header p)[k := b], ps_header_received := Suc k\<rparr>"
  have upd: "bytes_write (Suc k) d ((ps_header p)[k := b]) = bytes_write k (b # d) (ps_header p)"
    using Cons.prems(3-5) by (simp add: bytes_write_def take_Suc_conv_app_nth)
  show ?case
  proof (cases "Suc k = 10")
    case True
    with Cons.prems have d: "d = []" "h = (ps_header p)[k := b]" using upd by (simp_all add: bytes_write_def)
    with Cons.prems True show ?thesis
      by (simp add: push_header parser_decode_header_def header_frame_def Let_def)
  next
    case False
    have "push_all ?p d = (replicate (10 - Suc k) UPDATE_PROTOCOL_PARSE_NEED_MORE,
      ?p\<lparr>ps_header := h, ps_header_received := 10, ps_frame := header_frame h (fr_payload (ps_frame p)),
      ps_error_command := h ! 5, ps_error_sequence := load_le16 (drop 6 h), ps_error_info_valid := True,
      ps_header_decoded := True,
      ps_state := (if load_le16 (drop 8 h) = 0 then UPDATE_PROTOCOL_STATE_CRC else UPDATE_PROTOCOL_STATE_PAYLOAD)\<rparr>)"
      using Cons.IH [of ?p "Suc k"] Cons.prems False upd by simp
    moreover have "10 - k = Suc (10 - Suc k)" using Cons.prems(3) by simp
    ultimately show ?thesis using Cons.prems False by (simp add: push_header)
  qed
qed simp

lemma payload_stage:
  assumes "ps_state p = UPDATE_PROTOCOL_STATE_PAYLOAD" "ps_payload_received p = k"
    "k + length d = unat (fr_payload_length (ps_frame p))" "d \<noteq> []" "k + length d \<le> length (fr_payload (ps_frame p))"
  shows "push_all p d = (replicate (length d) UPDATE_PROTOCOL_PARSE_NEED_MORE,
    p\<lparr>ps_frame := (ps_frame p)\<lparr>fr_payload := bytes_write k d (fr_payload (ps_frame p))\<rparr>,
      ps_payload_received := k + length d, ps_state := UPDATE_PROTOCOL_STATE_CRC\<rparr>)"
  using assms
proof (induction d arbitrary: p k)
  case (Cons b d)
  let ?buf = "fr_payload (ps_frame p)"
  have upd: "bytes_write (Suc k) d (?buf[k := b]) = bytes_write k (b # d) ?buf"
    using Cons.prems(5) by (simp add: bytes_write_def take_Suc_conv_app_nth)
  show ?case
  proof (cases "d = []")
    case True
    with Cons.prems show ?thesis by (simp add: push_payload bytes_write_def upd_conv_take_nth_drop)
  next
    case False
    let ?p = "p\<lparr>ps_frame := (ps_frame p)\<lparr>fr_payload := ?buf[k := b]\<rparr>, ps_payload_received := Suc k,
      ps_state := UPDATE_PROTOCOL_STATE_PAYLOAD\<rparr>"
    have "Suc k \<noteq> unat (fr_payload_length (ps_frame p))" using False Cons.prems(3) by (cases d) auto
    then have "update_protocol_parser_push p b = (UPDATE_PROTOCOL_PARSE_NEED_MORE, ?p)"
      using Cons.prems by (simp add: push_payload)
    moreover have "push_all ?p d = (replicate (length d) UPDATE_PROTOCOL_PARSE_NEED_MORE,
      ?p\<lparr>ps_frame := (ps_frame ?p)\<lparr>fr_payload := bytes_write (Suc k) d (fr_payload (ps_frame ?p))\<rparr>,
        ps_payload_received := Suc k + length d, ps_state := UPDATE_PROTOCOL_STATE_CRC\<rparr>)"
      by (rule Cons.IH) (use Cons.prems False in simp_all)
    ultimately show ?thesis using upd by simp
  qed
qed simp

lemma four_bytes: "length (d :: bytes) = 4 \<Longrightarrow> \<exists>a b c e. d = [a, b, c, e]"
  by (auto simp: length_Suc_conv numeral_eq_Suc)

lemma crc_stage:
  assumes "ps_state p = UPDATE_PROTOCOL_STATE_CRC" "ps_crc_received p = 0" "length (ps_crc_bytes p) = 4" "length d = 4"
  shows "push_all p d =
    ([UPDATE_PROTOCOL_PARSE_NEED_MORE, UPDATE_PROTOCOL_PARSE_NEED_MORE, UPDATE_PROTOCOL_PARSE_NEED_MORE,
      fst (parser_finish_frame (p\<lparr>ps_crc_bytes := d, ps_crc_received := 4\<rparr>))],
     snd (parser_finish_frame (p\<lparr>ps_crc_bytes := d, ps_crc_received := 4\<rparr>)))"
proof -
  obtain a b c e where d: "d = [a, b, c, e]" using four_bytes [OF assms(4)] by blast
  obtain w x y z where "ps_crc_bytes p = [w, x, y, z]" using four_bytes [OF assms(3)] by blast
  then show ?thesis using assms(1,2) by (simp add: d push_crc split: prod.split) (simp add: eval_nat_numeral)
qed

text \<open>Every byte string that has the form of a frame is taken as one, and checked.\<close>

lemma parse_frame:
  assumes wf: "parser_wf p" and sync: "ps_state p = UPDATE_PROTOCOL_STATE_SYNC"
    and h: "length h = 10" "take 4 h = protocol_magic"
    and d: "length d = unat (load_le16 (drop 8 h))" "length d \<le> 1024" and crc: "length e = 4"
  shows "\<exists>q. push_all p (h @ d @ e) =
      (replicate (length d + 13) UPDATE_PROTOCOL_PARSE_NEED_MORE @
         [if update_protocol_crc32_update 0 (h @ d) = load_le32 e then UPDATE_PROTOCOL_PARSE_FRAME_READY
          else UPDATE_PROTOCOL_PARSE_ERR_CRC], q) \<and>
    ps_frame q = header_frame h (bytes_write 0 d (fr_payload (ps_frame p))) \<and>
    ps_state q = UPDATE_PROTOCOL_STATE_SYNC \<and>
    update_protocol_parser_error_info q = Some (h ! 5, load_le16 (drop 6 h))"
proof -
  let ?NM = UPDATE_PROTOCOL_PARSE_NEED_MORE and ?buf = "fr_payload (ps_frame p)"
  have len: "length (ps_header p) = 10" "length (ps_crc_bytes p) = 4" "length ?buf = 1024"
    "ps_payload_received p = 0" "ps_crc_received p = 0" using wf sync by (auto simp: parser_wf_def)
  define p1 where "p1 = p\<lparr>ps_error_info_valid := False, ps_header := bytes_write 0 protocol_magic (ps_header p),
      ps_magic_matched := 4, ps_header_received := 4, ps_state := UPDATE_PROTOCOL_STATE_HEADER\<rparr>"
  have s1: "push_all p (take 4 h) = (replicate 4 ?NM, p1)" unfolding h(2) p1_def by (rule parse_magic [OF wf sync])
  have h': "h = bytes_write 4 (drop 4 h) (ps_header p1)"
    using append_take_drop_id [of 4 h] h len(1) by (simp add: p1_def bytes_write_def protocol_magic_def)
  define p2 where "p2 = p1\<lparr>ps_header := h, ps_header_received := 10, ps_frame := header_frame h ?buf,
      ps_error_command := h ! 5, ps_error_sequence := load_le16 (drop 6 h), ps_error_info_valid := True,
      ps_header_decoded := True,
      ps_state := (if load_le16 (drop 8 h) = 0 then UPDATE_PROTOCOL_STATE_CRC else UPDATE_PROTOCOL_STATE_PAYLOAD)\<rparr>"
  have s2: "push_all p1 (drop 4 h) = (replicate 6 ?NM, p2)"
    using header_stage [of p1 4 "drop 4 h" h, OF _ _ _ _ _ h'] h len d
    by (simp add: p1_def p2_def protocol_magic_def)
  define p3 where "p3 = p2\<lparr>ps_frame := header_frame h (bytes_write 0 d ?buf), ps_payload_received := length d,
      ps_state := UPDATE_PROTOCOL_STATE_CRC\<rparr>"
  have s3: "push_all p2 d = (replicate (length d) ?NM, p3)"
  proof (cases "d = []")
    case True
    with d(1) have "load_le16 (drop 8 h) = 0" by (simp add: unat_eq_zero)
    with True len show ?thesis by (simp add: p3_def p2_def p1_def bytes_write_def)
  next
    case False
    then have "load_le16 (drop 8 h) \<noteq> 0" using d(1) by auto
    with payload_stage [of p2 0 d] False len d show ?thesis
      by (simp add: p3_def p2_def p1_def header_frame_def)
  qed
  let ?q = "p3\<lparr>ps_crc_bytes := e, ps_crc_received := 4\<rparr>"
  have s4: "push_all p3 e = ([?NM, ?NM, ?NM, fst (parser_finish_frame ?q)], snd (parser_finish_frame ?q))"
    using crc_stage [of p3 e] crc len by (simp add: p3_def p2_def p1_def)
  have "take (length d) (bytes_write 0 d ?buf) = d" by (simp add: bytes_write_def)
  then have "update_protocol_crc32_update (update_protocol_crc32_update 0 h)
      (take (unat (load_le16 (drop 8 h))) (bytes_write 0 d ?buf)) = update_protocol_crc32_update 0 (h @ d)"
    by (simp add: update_protocol_crc32_update_def d(1) [symmetric])
  then have fin: "fst (parser_finish_frame ?q) = (if update_protocol_crc32_update 0 (h @ d) = load_le32 e
      then UPDATE_PROTOCOL_PARSE_FRAME_READY else UPDATE_PROTOCOL_PARSE_ERR_CRC)"
    by (simp add: parser_finish_frame_def Let_def p3_def p2_def header_frame_def)
  have "h @ d @ e = take 4 h @ drop 4 h @ d @ e" by simp
  then have "push_all p (h @ d @ e) = (replicate 4 ?NM @ replicate 6 ?NM @ replicate (length d) ?NM @
      [?NM, ?NM, ?NM, fst (parser_finish_frame ?q)], snd (parser_finish_frame ?q))"
    by (simp only: push_all_append s1 s2 s3 s4 prod.case)
  moreover have "replicate 4 ?NM @ replicate 6 ?NM @ replicate (length d) ?NM @ [?NM, ?NM, ?NM, x] =
      replicate (length d + 13) ?NM @ [x]" for x
    by (simp add: numeral_eq_Suc replicate_app_Cons_same)
  ultimately show ?thesis
    by (simp add: fin) (simp add: parser_finish_frame_def parser_reset_state_def Let_def p3_def p2_def
        update_protocol_parser_error_info_def)
qed

section \<open>Encoded frames\<close>

lemma length_le16 [simp]: "length (le16 v) = 2"
  by (simp add: le16_def)

lemma load_le16_le16: "load_le16 (le16 v @ rest) = v"
proof (rule bit_word_eqI)
  fix n :: nat
  assume "n < LENGTH(16)"
  then have n: "n < 16" by simp
  then consider "n < 8" | "8 \<le> n" by linarith
  then show "bit (load_le16 (le16 v @ rest)) n = bit v n"
    by cases (use n in \<open>auto simp: load_le16_def le16_def bit_simps byte_mask_bit\<close>)
qed

definition frame_header :: "u8 \<Rightarrow> u16 \<Rightarrow> nat \<Rightarrow> bytes" where
  "frame_header command seq n = protocol_magic @ [UPDATE_PROTOCOL_VERSION, command] @ le16 seq @ le16 (of_nat n)"

lemma frame_header_fields:
  "length (frame_header command seq n) = 10" "take 4 (frame_header command seq n) = protocol_magic"
  "frame_header command seq n ! 4 = UPDATE_PROTOCOL_VERSION" "frame_header command seq n ! 5 = command"
  "load_le16 (drop 6 (frame_header command seq n)) = seq"
  "n \<le> 1024 \<Longrightarrow> unat (load_le16 (drop 8 (frame_header command seq n))) = n"
  using load_le16_le16 [of "of_nat n" "[]"]
  by (simp_all add: frame_header_def protocol_magic_def load_le16_le16 unat_of_nat)

lemma encode_frame_Inr:
  assumes "update_protocol_encode_frame command seq payload capacity = Inr bs"
  shows "length payload \<le> 1024" "bs = frame_header command seq (length payload) @ payload @
    le32 (update_protocol_crc32_update 0 (frame_header command seq (length payload) @ payload))"
  using assms
  by (auto simp: update_protocol_encode_frame_def build_header_def frame_header_def Let_def
      update_protocol_crc32_update_def split: if_splits)

lemma crc_update_eq: "update_protocol_crc32_update = crc32_update"
  by (simp add: fun_eq_iff update_protocol_crc32_update_def crc32_update_def)

section \<open>Properties\<close>

text \<open>
  Where the next byte is stored, and that this is inside the array.
\<close>

definition next_store_in_bounds :: "update_protocol_parser \<Rightarrow> bool" where
  "next_store_in_bounds p \<longleftrightarrow>
     (if ps_state p = UPDATE_PROTOCOL_STATE_SYNC
      then ps_magic_matched p < length protocol_magic \<and> ps_magic_matched p < length (ps_header p)
      else if ps_state p = UPDATE_PROTOCOL_STATE_HEADER then ps_header_received p < length (ps_header p)
      else if ps_state p = UPDATE_PROTOCOL_STATE_PAYLOAD
      then ps_payload_received p < length (fr_payload (ps_frame p))
      else ps_state p = UPDATE_PROTOCOL_STATE_CRC \<and> ps_crc_received p < length (ps_crc_bytes p) \<and>
        unat (fr_payload_length (ps_frame p)) \<le> length (fr_payload (ps_frame p)))"

text \<open>
  C27. The frame parser is memory safe on every input: after any bytes, in any order, it is in one
  of its four states, the next byte is stored inside the array of this state, the announced
  payload length does not exceed the payload buffer, and the error branch for an unknown state
  is never taken.
\<close>

theorem parser_in_bounds:
  "next_store_in_bounds (snd (push_all update_protocol_parser_init bs)) \<and>
   UPDATE_PROTOCOL_PARSE_ERR_INVALID_ARGUMENT \<notin> set (fst (push_all update_protocol_parser_init bs))"
proof -
  obtain sts p where run: "push_all update_protocol_parser_init bs = (sts, p)" by fastforce
  from parser_wf_push_all [OF parser_wf_init run] have "parser_wf p" and no: "UPDATE_PROTOCOL_PARSE_ERR_INVALID_ARGUMENT \<notin> set sts"
    by simp_all
  then have "next_store_in_bounds p"
    by (auto simp: parser_wf_def next_store_in_bounds_def protocol_magic_def)
  with run no show ?thesis by simp
qed

text \<open>
  C28. What is sent is received: whatever bytes arrived before, if the parser is between frames, an
  encoded frame makes it ask for more up to the last byte and then report a frame with the
  command, sequence number and payload that were encoded.
\<close>

theorem frame_round_trip:
  assumes "update_protocol_encode_frame command seq payload capacity = Inr bs"
    and "push_all update_protocol_parser_init before = (sts, p)" "\<not> update_protocol_parser_has_partial p"
  shows "\<exists>q. push_all p bs = (replicate (length bs - 1) UPDATE_PROTOCOL_PARSE_NEED_MORE @
      [UPDATE_PROTOCOL_PARSE_FRAME_READY], q) \<and>
    fr_version (ps_frame q) = UPDATE_PROTOCOL_VERSION \<and> fr_command (ps_frame q) = command \<and>
    fr_sequence (ps_frame q) = seq \<and> unat (fr_payload_length (ps_frame q)) = length payload \<and>
    take (length payload) (fr_payload (ps_frame q)) = payload"
proof -
  let ?h = "frame_header command seq (length payload)"
  note enc = encode_frame_Inr [OF assms(1)] and h = frame_header_fields [where command = command and seq = seq and n = "length payload"]
  have wf: "parser_wf p" using parser_wf_push_all [OF parser_wf_init assms(2)] by simp
  have sync: "ps_state p = UPDATE_PROTOCOL_STATE_SYNC"
    using assms(3) by (simp add: update_protocol_parser_has_partial_def)
  from parse_frame [OF wf sync h(1,2) _ enc(1), of "le32 (update_protocol_crc32_update 0 (?h @ payload))"] h(6) enc(1)
  obtain q where "push_all p bs = (replicate (length payload + 13) UPDATE_PROTOCOL_PARSE_NEED_MORE @
      [UPDATE_PROTOCOL_PARSE_FRAME_READY], q)"
    and "ps_frame q = header_frame ?h (bytes_write 0 payload (fr_payload (ps_frame p)))"
    unfolding enc(2) using load_le32_le32 [of _ "[]"] by auto
  moreover have "length bs - 1 = length payload + 13" by (simp add: enc(2) h(1))
  ultimately show ?thesis using h enc(1) by (simp add: header_frame_def bytes_write_def)
qed

text \<open>
  Transmission errors are detected: if one byte of an encoded frame is changed, other than the
  magic bytes and the length field, which decide where the frame is seen, the parser reports a
  checksum error after the last byte and no frame.
\<close>

theorem frame_corruption_detected:
  assumes "update_protocol_encode_frame command seq payload capacity = Inr bs"
    and "push_all update_protocol_parser_init before = (sts, p)" "\<not> update_protocol_parser_has_partial p"
    and i: "i < length bs" "4 \<le> i" "i \<noteq> 8" "i \<noteq> 9" and x: "x \<noteq> bs ! i"
  shows "fst (push_all p (bs[i := x])) =
    replicate (length bs - 1) UPDATE_PROTOCOL_PARSE_NEED_MORE @ [UPDATE_PROTOCOL_PARSE_ERR_CRC]"
proof -
  let ?h = "frame_header command seq (length payload)"
  let ?c = "update_protocol_crc32_update 0 (?h @ payload)"
  note enc = encode_frame_Inr [OF assms(1)] and h = frame_header_fields [where command = command and seq = seq and n = "length payload"]
  have wf: "parser_wf p" using parser_wf_push_all [OF parser_wf_init assms(2)] by simp
  have sync: "ps_state p = UPDATE_PROTOCOL_STATE_SYNC"
    using assms(3) by (simp add: update_protocol_parser_has_partial_def)
  have len: "length bs = length payload + 14" by (simp add: enc(2) h(1))
  have bad: "fst (push_all p (h' @ d @ e)) =
      replicate (length bs - 1) UPDATE_PROTOCOL_PARSE_NEED_MORE @ [UPDATE_PROTOCOL_PARSE_ERR_CRC]"
    if "length h' = 10" "take 4 h' = protocol_magic" "load_le16 (drop 8 h') = load_le16 (drop 8 ?h)"
      "length d = length payload" "length e = 4" "update_protocol_crc32_update 0 (h' @ d) \<noteq> load_le32 e" for h' d e
    using parse_frame [OF wf sync that(1,2), of d e] that enc(1) h(6) len by auto
  have "i < 10 \<or> i = 10 + (i - 10) \<and> i - 10 < length payload \<or>
      i = 10 + length payload + (i - 10 - length payload) \<and> i - 10 - length payload < 4"
    using i(1) len by linarith
  then consider (header) "i < 10" | (payload) j where "i = 10 + j" "j < length payload"
    | (crc) j where "i = 10 + length payload + j" "j < 4" by blast
  then show ?thesis
  proof cases
    case header
    have "take 4 (?h[i := x]) = protocol_magic" using i(2) h(2) by (simp add: take_update_cancel)
    moreover have "load_le16 (drop 8 (?h[i := x])) = load_le16 (drop 8 ?h)"
      using header i(3,4) by (simp add: load_le16_def h(1))
    moreover have "update_protocol_crc32_update 0 (?h[i := x] @ payload) \<noteq> ?c"
      using crc32_update_byte [of i "?h @ payload" x 0] header h(1) x
      by (simp add: crc_update_eq list_update_append1 enc(2) nth_append)
    ultimately show ?thesis
      using bad [of "?h[i := x]" payload "le32 ?c"] header h(1) load_le32_le32 [of ?c "[]"]
      by (simp add: enc(2) list_update_append1)
  next
    case (payload j)
    have "update_protocol_crc32_update 0 (?h @ payload[j := x]) \<noteq> ?c"
      using crc32_update_byte [of i "?h @ payload" x 0] payload h(1) x
      by (simp add: crc_update_eq list_update_append enc(2) nth_append)
    then show ?thesis
      using bad [of ?h "payload[j := x]" "le32 ?c"] payload h(1,2) load_le32_le32 [of ?c "[]"]
      by (simp add: enc(2) list_update_append)
  next
    case (crc j)
    have "load_le32 ((le32 ?c)[j := x]) \<noteq> load_le32 (le32 ?c)"
      using load_le32_inject [of "(le32 ?c)[j := x]" "le32 ?c" j] crc x h(1) by (auto simp: enc(2) nth_append)
    then show ?thesis
      using bad [of ?h payload "(le32 ?c)[j := x]"] crc h(1,2) load_le32_le32 [of ?c "[]"]
      by (simp add: enc(2) list_update_append)
  qed
qed

lemma sample_frame:
  "\<exists>bs. update_protocol_encode_frame 4 7 [1, 2, 3] 1038 = Inr bs \<and> length bs = 17 \<and> bs ! 12 = 3"
  by (simp add: update_protocol_encode_frame_def build_header_def Let_def protocol_magic_def le16_def le32_def)

lemma idle_parser:
  "push_all update_protocol_parser_init [] = ([], update_protocol_parser_init)"
  "\<not> update_protocol_parser_has_partial update_protocol_parser_init"
  by (simp_all add: update_protocol_parser_has_partial_def update_protocol_parser_init_def parser_reset_state_def)

theorem frame_round_trip_witness:
  "\<exists>bs q. update_protocol_encode_frame 4 7 [1, 2, 3] 1038 = Inr bs \<and>
     push_all update_protocol_parser_init bs =
       (replicate 16 UPDATE_PROTOCOL_PARSE_NEED_MORE @ [UPDATE_PROTOCOL_PARSE_FRAME_READY], q) \<and>
     fr_command (ps_frame q) = 4 \<and> fr_sequence (ps_frame q) = 7"
proof -
  from sample_frame obtain bs where enc: "update_protocol_encode_frame 4 7 [1, 2, 3] 1038 = Inr bs" "length bs = 17"
    by blast
  from frame_round_trip [OF enc(1) idle_parser] enc show ?thesis by auto
qed

theorem frame_corruption_detected_witness:
  "\<exists>bs. update_protocol_encode_frame 4 7 [1, 2, 3] 1038 = Inr bs \<and>
     last (fst (push_all update_protocol_parser_init (bs[12 := 9]))) = UPDATE_PROTOCOL_PARSE_ERR_CRC"
proof -
  from sample_frame obtain bs where enc: "update_protocol_encode_frame 4 7 [1, 2, 3] 1038 = Inr bs" "length bs = 17"
    "bs ! 12 = 3" by blast
  from frame_corruption_detected [OF enc(1) idle_parser, of 12 9] enc show ?thesis by auto
qed

end
