(* ===== verification/Update_Protocol.thy ===== *)
theory Update_Protocol
  imports Update_Safety Update_Frames
begin

text \<open>
  The command layer of the update protocol (second part of \<^verbatim>\<open>update_protocol.c\<close>) and the byte
  reader (\<^verbatim>\<open>byte_reader.c\<close>). A protocol session owns a frame parser, a writer for the responses
  and an installer session; it executes the commands of the frames it receives in the order of
  their sequence numbers.

  The result structure of the installation is the memory behind the result pointer of the
  installer session, so it is read there. The writer and the character source are functions with
  a context, as in the source; they are parameters of the model. The program buffer is shared
  memory; every byte of it is written before it is programmed, so the contents with which a new
  installer session starts do not matter.
\<close>

section \<open>Types\<close>

abbreviation UPDATE_PROTOCOL_CMD_HELLO :: u8 where "UPDATE_PROTOCOL_CMD_HELLO \<equiv> 0x01"
abbreviation UPDATE_PROTOCOL_CMD_GET_INFO :: u8 where "UPDATE_PROTOCOL_CMD_GET_INFO \<equiv> 0x02"
abbreviation UPDATE_PROTOCOL_CMD_BEGIN_UPDATE :: u8 where "UPDATE_PROTOCOL_CMD_BEGIN_UPDATE \<equiv> 0x03"
abbreviation UPDATE_PROTOCOL_CMD_WRITE_BLOCK :: u8 where "UPDATE_PROTOCOL_CMD_WRITE_BLOCK \<equiv> 0x04"
abbreviation UPDATE_PROTOCOL_CMD_FINISH_UPDATE :: u8 where "UPDATE_PROTOCOL_CMD_FINISH_UPDATE \<equiv> 0x05"
abbreviation UPDATE_PROTOCOL_CMD_GET_STATUS :: u8 where "UPDATE_PROTOCOL_CMD_GET_STATUS \<equiv> 0x06"
abbreviation UPDATE_PROTOCOL_CMD_ABORT_UPDATE :: u8 where "UPDATE_PROTOCOL_CMD_ABORT_UPDATE \<equiv> 0x07"
abbreviation UPDATE_PROTOCOL_CMD_RESET :: u8 where "UPDATE_PROTOCOL_CMD_RESET \<equiv> 0x08"
abbreviation UPDATE_PROTOCOL_CMD_ACK :: u8 where "UPDATE_PROTOCOL_CMD_ACK \<equiv> 0x80"
abbreviation UPDATE_PROTOCOL_CMD_NACK :: u8 where "UPDATE_PROTOCOL_CMD_NACK \<equiv> 0x81"

datatype update_protocol_session_state =
    UPDATE_PROTOCOL_SESSION_IDLE
  | UPDATE_PROTOCOL_SESSION_UPDATING
  | UPDATE_PROTOCOL_SESSION_FINISHED
  | UPDATE_PROTOCOL_SESSION_ABORTED
  | UPDATE_PROTOCOL_SESSION_FAILED
  | UPDATE_PROTOCOL_SESSION_RESET_REQUESTED

record ('h, 'w) update_protocol_session =
  up_parser :: update_protocol_parser
  up_writer :: "'w update_protocol_writer"
  up_flash :: "host_context boot_flash"
  up_public_key :: bytes
  up_install_options :: update_install_options
  up_installer :: "'h update_installer_session"
  up_state :: update_protocol_session_state
  up_last_status :: update_protocol_status
  up_expected_sequence :: u16
  up_update_payload_offset :: size_t
  up_installer_started :: bool

text \<open>The values of the enumerations, as the responses carry them.\<close>

fun protocol_status_num :: "update_protocol_status \<Rightarrow> u16" where
  "protocol_status_num UPDATE_PROTOCOL_STATUS_OK = 0"
| "protocol_status_num UPDATE_PROTOCOL_STATUS_PARSER_ERROR = 1"
| "protocol_status_num UPDATE_PROTOCOL_STATUS_STATE_ERROR = 2"
| "protocol_status_num UPDATE_PROTOCOL_STATUS_FLASH_ERROR = 3"
| "protocol_status_num UPDATE_PROTOCOL_STATUS_VERIFY_ERROR = 4"
| "protocol_status_num UPDATE_PROTOCOL_STATUS_ROLLBACK_ERROR = 5"
| "protocol_status_num UPDATE_PROTOCOL_STATUS_CRC_ERROR = 6"
| "protocol_status_num UPDATE_PROTOCOL_STATUS_VERSION_ERROR = 7"
| "protocol_status_num UPDATE_PROTOCOL_STATUS_LENGTH_ERROR = 8"
| "protocol_status_num UPDATE_PROTOCOL_STATUS_OVERSIZE_ERROR = 9"
| "protocol_status_num UPDATE_PROTOCOL_STATUS_SEQUENCE_ERROR = 10"
| "protocol_status_num UPDATE_PROTOCOL_STATUS_UNKNOWN_COMMAND = 11"
| "protocol_status_num UPDATE_PROTOCOL_STATUS_TIMEOUT = 12"
| "protocol_status_num UPDATE_PROTOCOL_STATUS_IO_ERROR = 13"
| "protocol_status_num UPDATE_PROTOCOL_STATUS_INVALID_ARGUMENT = 14"
| "protocol_status_num UPDATE_PROTOCOL_STATUS_INSTALLER_ERROR = 15"

fun session_state_num :: "update_protocol_session_state \<Rightarrow> u8" where
  "session_state_num UPDATE_PROTOCOL_SESSION_IDLE = 0"
| "session_state_num UPDATE_PROTOCOL_SESSION_UPDATING = 1"
| "session_state_num UPDATE_PROTOCOL_SESSION_FINISHED = 2"
| "session_state_num UPDATE_PROTOCOL_SESSION_ABORTED = 3"
| "session_state_num UPDATE_PROTOCOL_SESSION_FAILED = 4"
| "session_state_num UPDATE_PROTOCOL_SESSION_RESET_REQUESTED = 5"

fun installer_state_num :: "update_installer_session_state \<Rightarrow> u8" where
  "installer_state_num UPDATE_INSTALL_SESSION_EMPTY = 0"
| "installer_state_num UPDATE_INSTALL_SESSION_INITIALIZED = 1"
| "installer_state_num UPDATE_INSTALL_SESSION_WRITING = 2"
| "installer_state_num UPDATE_INSTALL_SESSION_PAYLOAD_COMPLETE = 3"
| "installer_state_num UPDATE_INSTALL_SESSION_FINISHED = 4"
| "installer_state_num UPDATE_INSTALL_SESSION_ABORTED = 5"
| "installer_state_num UPDATE_INSTALL_SESSION_FAILED = 6"

section \<open>Responses\<close>

definition response_common :: "u8 \<Rightarrow> update_protocol_status \<Rightarrow> bytes" where
  "response_common request_command status = request_command # le16 (protocol_status_num status)"

definition send_response ::
    "('h, 'w) update_protocol_session \<Rightarrow> u8 \<Rightarrow> u16 \<Rightarrow> bytes \<Rightarrow>
     update_protocol_status \<times> ('h, 'w) update_protocol_session" where
  "send_response s response_command seq payload =
     (case update_protocol_write_frame (up_writer s) response_command seq payload of
        (status, w) \<Rightarrow> (status, s\<lparr>up_writer := w\<rparr>))"

definition send_nack ::
    "('h, 'w) update_protocol_session \<Rightarrow> u16 \<Rightarrow> u8 \<Rightarrow> update_protocol_status \<Rightarrow>
     update_protocol_status \<times> ('h, 'w) update_protocol_session" where
  "send_nack s seq request_command status =
     (let status' = (if status = UPDATE_PROTOCOL_STATUS_OK then UPDATE_PROTOCOL_STATUS_PARSER_ERROR
                     else status)
      in send_response (s\<lparr>up_last_status := status'\<rparr>) UPDATE_PROTOCOL_CMD_NACK seq
           (response_common request_command status'))"

definition send_ack ::
    "('h, 'w) update_protocol_session \<Rightarrow> u16 \<Rightarrow> u8 \<Rightarrow> bytes \<Rightarrow>
     update_protocol_status \<times> ('h, 'w) update_protocol_session" where
  "send_ack s seq request_command extra =
     (if length extra > 18 then (UPDATE_PROTOCOL_STATUS_INVALID_ARGUMENT, s)
      else send_response (s\<lparr>up_last_status := UPDATE_PROTOCOL_STATUS_OK\<rparr>) UPDATE_PROTOCOL_CMD_ACK seq
             (response_common request_command UPDATE_PROTOCOL_STATUS_OK @ extra))"

fun map_installer_status :: "update_install_status \<Rightarrow> update_protocol_status" where
  "map_installer_status UPDATE_INSTALL_OK = UPDATE_PROTOCOL_STATUS_OK"
| "map_installer_status UPDATE_INSTALL_ERR_ROLLBACK = UPDATE_PROTOCOL_STATUS_ROLLBACK_ERROR"
| "map_installer_status UPDATE_INSTALL_ERR_PACKAGE = UPDATE_PROTOCOL_STATUS_VERIFY_ERROR"
| "map_installer_status UPDATE_INSTALL_ERR_HASH = UPDATE_PROTOCOL_STATUS_VERIFY_ERROR"
| "map_installer_status UPDATE_INSTALL_ERR_INSTALLED_VERIFY = UPDATE_PROTOCOL_STATUS_VERIFY_ERROR"
| "map_installer_status UPDATE_INSTALL_ERR_METADATA = UPDATE_PROTOCOL_STATUS_FLASH_ERROR"
| "map_installer_status UPDATE_INSTALL_ERR_SLOT = UPDATE_PROTOCOL_STATUS_FLASH_ERROR"
| "map_installer_status UPDATE_INSTALL_ERR_CAPACITY = UPDATE_PROTOCOL_STATUS_FLASH_ERROR"
| "map_installer_status UPDATE_INSTALL_ERR_ERASE = UPDATE_PROTOCOL_STATUS_FLASH_ERROR"
| "map_installer_status UPDATE_INSTALL_ERR_PROGRAM = UPDATE_PROTOCOL_STATUS_FLASH_ERROR"
| "map_installer_status UPDATE_INSTALL_ERR_READBACK = UPDATE_PROTOCOL_STATUS_FLASH_ERROR"
| "map_installer_status UPDATE_INSTALL_ERR_ACTIVE_STATE = UPDATE_PROTOCOL_STATUS_STATE_ERROR"
| "map_installer_status UPDATE_INSTALL_ERR_STATE = UPDATE_PROTOCOL_STATUS_STATE_ERROR"
| "map_installer_status UPDATE_INSTALL_ERR_SEQUENCE = UPDATE_PROTOCOL_STATUS_SEQUENCE_ERROR"
| "map_installer_status UPDATE_INSTALL_ERR_INVALID_ARGUMENT = UPDATE_PROTOCOL_STATUS_INVALID_ARGUMENT"
| "map_installer_status UPDATE_INSTALL_ERR_INJECTED = UPDATE_PROTOCOL_STATUS_INSTALLER_ERROR"

section \<open>Commands\<close>

definition payload_is_empty :: "update_protocol_frame \<Rightarrow> bool" where
  "payload_is_empty f \<longleftrightarrow> fr_payload_length f = 0"

definition send_hello_ack ::
    "('h, 'w) update_protocol_session \<Rightarrow> u16 \<Rightarrow> u8 \<Rightarrow>
     update_protocol_status \<times> ('h, 'w) update_protocol_session" where
  "send_hello_ack s seq command =
     send_ack s seq command
       ([UPDATE_PROTOCOL_VERSION] @ le16 1024 @ le16 1020 @ le16 10 @ le16 4 @
        [session_state_num (up_state s)])"

definition handle_hello ::
    "('h, 'w) update_protocol_session \<Rightarrow> update_protocol_frame \<Rightarrow>
     update_protocol_status \<times> ('h, 'w) update_protocol_session" where
  "handle_hello s f =
     (if \<not> payload_is_empty f
      then send_nack s (fr_sequence f) (fr_command f) UPDATE_PROTOCOL_STATUS_LENGTH_ERROR
      else send_hello_ack s (fr_sequence f) (fr_command f))"

definition handle_get_info ::
    "('h, 'w) update_protocol_session \<Rightarrow> update_protocol_frame \<Rightarrow>
     update_protocol_status \<times> ('h, 'w) update_protocol_session" where
  "handle_get_info s f = handle_hello s f"

definition zero_install_result :: update_install_result where
  "zero_install_result =
     \<lparr>ir_active_slot = 0, ir_candidate_slot = 0, ir_image_version = 0, ir_erased_sector_count = 0,
      ir_programmed_block_count = 0, ir_package_verify_status = VERIFY_OK,
      ir_installed_verify_status = VERIFY_OK,
      ir_metadata_recovery = \<lparr>copy_a_valid = False, copy_b_valid = False,
                              selected_copy = BOOT_METADATA_COPY_NONE\<rparr>\<rparr>"

definition install_result :: "('h, 'w) update_protocol_session \<Rightarrow> update_install_result" where
  "install_result s =
     (case ses_result (up_installer s) of None \<Rightarrow> zero_install_result | Some r \<Rightarrow> r)"

definition build_status_payload :: "('h, 'w) update_protocol_session \<Rightarrow> bytes" where
  "build_status_payload s =
     [session_state_num (up_state s)] @ le16 (protocol_status_num (up_last_status s)) @
     le16 (up_expected_sequence s) @ [installer_state_num (ses_state (up_installer s))] @
     le32 (of_nat (up_update_payload_offset s)) @ le32 (ir_image_version (install_result s)) @
     le32 (ir_programmed_block_count (install_result s))"

definition handle_get_status ::
    "('h, 'w) update_protocol_session \<Rightarrow> update_protocol_frame \<Rightarrow>
     update_protocol_status \<times> ('h, 'w) update_protocol_session" where
  "handle_get_status s f =
     (if \<not> payload_is_empty f
      then send_nack s (fr_sequence f) (fr_command f) UPDATE_PROTOCOL_STATUS_LENGTH_ERROR
      else send_ack s (fr_sequence f) (fr_command f) (build_status_payload s))"

text \<open>Handlers that reach the device return it as well.\<close>

definition with_device ::
    "host_context \<Rightarrow> update_protocol_status \<times> ('h, 'w) update_protocol_session \<Rightarrow>
     update_protocol_status \<times> ('h, 'w) update_protocol_session \<times> host_context" where
  "with_device c r = (fst r, snd r, c)"

definition handle_begin_update ::
    "'h crypto \<Rightarrow> ('h, 'w) update_protocol_session \<Rightarrow> host_context \<Rightarrow> update_protocol_frame \<Rightarrow>
     update_protocol_status \<times> ('h, 'w) update_protocol_session \<times> host_context" where
  "handle_begin_update crypt s c f =
     (if unat (fr_payload_length f) \<noteq> SIGNED_IMAGE_HEADER_SIZE
      then with_device c (send_nack s (fr_sequence f) (fr_command f) UPDATE_PROTOCOL_STATUS_LENGTH_ERROR)
      else if up_state s \<noteq> UPDATE_PROTOCOL_SESSION_IDLE \<and> up_state s \<noteq> UPDATE_PROTOCOL_SESSION_ABORTED
      then with_device c (send_nack s (fr_sequence f) (fr_command f) UPDATE_PROTOCOL_STATUS_STATE_ERROR)
      else case update_installer_session_init crypt (up_flash s) (up_public_key s) (up_install_options s)
                  (ses_result (up_installer s)) c of
        (initialised, i0) \<Rightarrow>
          (let s0 = s\<lparr>up_installer := i0\<rparr>;
               (protocol_status, s1, c1) =
                 (if map_installer_status initialised = UPDATE_PROTOCOL_STATUS_OK
                  then (case update_installer_begin crypt i0 c
                               (take (unat (fr_payload_length f)) (fr_payload f)) of
                          (begun, i1, c1) \<Rightarrow>
                            (map_installer_status begun,
                             s0\<lparr>up_installer_started := True, up_installer := i1\<rparr>, c1))
                  else (map_installer_status initialised, s0, c))
           in if protocol_status \<noteq> UPDATE_PROTOCOL_STATUS_OK
              then (let (s2, c2) =
                      (if up_installer_started s1
                       then (case update_installer_abort (up_installer s1) c1 of
                               (_, i2, c2) \<Rightarrow> (s1\<lparr>up_installer := i2\<rparr>, c2))
                       else (s1, c1))
                    in with_device c2 (send_nack (s2\<lparr>up_state := UPDATE_PROTOCOL_SESSION_FAILED\<rparr>)
                         (fr_sequence f) (fr_command f) protocol_status))
              else with_device c1 (send_ack (s1\<lparr>up_state := UPDATE_PROTOCOL_SESSION_UPDATING,
                                                up_update_payload_offset := 0\<rparr>)
                     (fr_sequence f) (fr_command f) [])))"

definition handle_write_block ::
    "'h crypto \<Rightarrow> ('h, 'w) update_protocol_session \<Rightarrow> host_context \<Rightarrow> update_protocol_frame \<Rightarrow>
     update_protocol_status \<times> ('h, 'w) update_protocol_session \<times> host_context" where
  "handle_write_block crypt s c f =
     (let nack = (\<lambda>s c status. with_device c (send_nack s (fr_sequence f) (fr_command f) status));
          len = unat (fr_payload_length f)
      in if up_state s \<noteq> UPDATE_PROTOCOL_SESSION_UPDATING \<or> \<not> up_installer_started s
         then nack s c UPDATE_PROTOCOL_STATUS_STATE_ERROR
         else if len \<le> 4 \<or> len > UPDATE_PROTOCOL_MAX_PAYLOAD_SIZE
         then nack s c UPDATE_PROTOCOL_STATUS_LENGTH_ERROR
         else let payload_offset = unat (load_le32 (fr_payload f));
                  block_length = len - 4
              in if payload_offset \<noteq> up_update_payload_offset s
                 then nack (s\<lparr>up_state := UPDATE_PROTOCOL_SESSION_FAILED\<rparr>) c
                        UPDATE_PROTOCOL_STATUS_SEQUENCE_ERROR
                 else case update_installer_write crypt (up_installer s) c payload_offset
                             (take block_length (drop 4 (fr_payload f))) of
                   (written, i1, c1) \<Rightarrow>
                     (let s1 = s\<lparr>up_installer := i1\<rparr>
                      in if map_installer_status written \<noteq> UPDATE_PROTOCOL_STATUS_OK
                         then nack (s1\<lparr>up_state := UPDATE_PROTOCOL_SESSION_FAILED\<rparr>) c1
                                (map_installer_status written)
                         else with_device c1 (send_ack (s1\<lparr>up_update_payload_offset :=
                                  size_add (up_update_payload_offset s1) block_length\<rparr>)
                                (fr_sequence f) (fr_command f) [])))"

definition handle_finish_update ::
    "'h crypto \<Rightarrow> ('h, 'w) update_protocol_session \<Rightarrow> host_context \<Rightarrow> update_protocol_frame \<Rightarrow>
     update_protocol_status \<times> ('h, 'w) update_protocol_session \<times> host_context" where
  "handle_finish_update crypt s c f =
     (let nack = (\<lambda>s c status. with_device c (send_nack s (fr_sequence f) (fr_command f) status))
      in if \<not> payload_is_empty f then nack s c UPDATE_PROTOCOL_STATUS_LENGTH_ERROR
         else if up_state s \<noteq> UPDATE_PROTOCOL_SESSION_UPDATING \<or> \<not> up_installer_started s
         then nack s c UPDATE_PROTOCOL_STATUS_STATE_ERROR
         else case update_installer_finish crypt (up_installer s) c of
           (finished, i1, c1) \<Rightarrow>
             (let s1 = s\<lparr>up_installer := i1\<rparr>
              in if map_installer_status finished \<noteq> UPDATE_PROTOCOL_STATUS_OK
                 then nack (s1\<lparr>up_state := UPDATE_PROTOCOL_SESSION_FAILED\<rparr>) c1
                        (map_installer_status finished)
                 else let s2 = s1\<lparr>up_state := UPDATE_PROTOCOL_SESSION_FINISHED\<rparr>
                      in with_device c1 (send_ack s2 (fr_sequence f) (fr_command f)
                           (build_status_payload s2))))"

definition handle_abort_update ::
    "('h, 'w) update_protocol_session \<Rightarrow> host_context \<Rightarrow> update_protocol_frame \<Rightarrow>
     update_protocol_status \<times> ('h, 'w) update_protocol_session \<times> host_context" where
  "handle_abort_update s c f =
     (let nack = (\<lambda>s c status. with_device c (send_nack s (fr_sequence f) (fr_command f) status))
      in if \<not> payload_is_empty f then nack s c UPDATE_PROTOCOL_STATUS_LENGTH_ERROR
         else if up_state s = UPDATE_PROTOCOL_SESSION_FINISHED
         then nack s c UPDATE_PROTOCOL_STATUS_STATE_ERROR
         else let (protocol_status, s1, c1) =
                (if up_installer_started s
                 then (case update_installer_abort (up_installer s) c of
                         (aborted, i1, c1) \<Rightarrow>
                           (map_installer_status aborted, s\<lparr>up_installer := i1\<rparr>, c1))
                 else (UPDATE_PROTOCOL_STATUS_OK, s, c))
              in if protocol_status \<noteq> UPDATE_PROTOCOL_STATUS_OK
                 then nack (s1\<lparr>up_state := UPDATE_PROTOCOL_SESSION_FAILED\<rparr>) c1 protocol_status
                 else with_device c1 (send_ack (s1\<lparr>up_state := UPDATE_PROTOCOL_SESSION_ABORTED\<rparr>)
                        (fr_sequence f) (fr_command f) []))"

definition handle_reset ::
    "('h, 'w) update_protocol_session \<Rightarrow> update_protocol_frame \<Rightarrow>
     update_protocol_status \<times> ('h, 'w) update_protocol_session" where
  "handle_reset s f =
     (if \<not> payload_is_empty f
      then send_nack s (fr_sequence f) (fr_command f) UPDATE_PROTOCOL_STATUS_LENGTH_ERROR
      else send_ack (s\<lparr>up_state := UPDATE_PROTOCOL_SESSION_RESET_REQUESTED\<rparr>)
             (fr_sequence f) (fr_command f) [])"

definition execute_frame ::
    "'h crypto \<Rightarrow> ('h, 'w) update_protocol_session \<Rightarrow> host_context \<Rightarrow> update_protocol_frame \<Rightarrow>
     update_protocol_status \<times> ('h, 'w) update_protocol_session \<times> host_context" where
  "execute_frame crypt s c f =
     (if fr_command f = UPDATE_PROTOCOL_CMD_HELLO then with_device c (handle_hello s f)
      else if fr_command f = UPDATE_PROTOCOL_CMD_GET_INFO then with_device c (handle_get_info s f)
      else if fr_command f = UPDATE_PROTOCOL_CMD_BEGIN_UPDATE then handle_begin_update crypt s c f
      else if fr_command f = UPDATE_PROTOCOL_CMD_WRITE_BLOCK then handle_write_block crypt s c f
      else if fr_command f = UPDATE_PROTOCOL_CMD_FINISH_UPDATE then handle_finish_update crypt s c f
      else if fr_command f = UPDATE_PROTOCOL_CMD_GET_STATUS then with_device c (handle_get_status s f)
      else if fr_command f = UPDATE_PROTOCOL_CMD_ABORT_UPDATE then handle_abort_update s c f
      else if fr_command f = UPDATE_PROTOCOL_CMD_RESET then with_device c (handle_reset s f)
      else with_device c (send_nack s (fr_sequence f) (fr_command f)
             UPDATE_PROTOCOL_STATUS_UNKNOWN_COMMAND))"

definition advance_sequence :: "('h, 'w) update_protocol_session \<Rightarrow> ('h, 'w) update_protocol_session" where
  "advance_sequence s = s\<lparr>up_expected_sequence := up_expected_sequence s + 1\<rparr>"

definition update_protocol_session_accept_initial_hello ::
    "('h, 'w) update_protocol_session \<Rightarrow> update_protocol_status \<times> ('h, 'w) update_protocol_session" where
  "update_protocol_session_accept_initial_hello s =
     (if up_expected_sequence s \<noteq> 0
      then send_nack s 0 UPDATE_PROTOCOL_CMD_HELLO UPDATE_PROTOCOL_STATUS_SEQUENCE_ERROR
      else case send_hello_ack s 0 UPDATE_PROTOCOL_CMD_HELLO of
        (status, s') \<Rightarrow>
          (status, if status = UPDATE_PROTOCOL_STATUS_OK then advance_sequence s' else s'))"

definition handle_frame ::
    "'h crypto \<Rightarrow> ('h, 'w) update_protocol_session \<Rightarrow> host_context \<Rightarrow> update_protocol_frame \<Rightarrow>
     update_protocol_status \<times> ('h, 'w) update_protocol_session \<times> host_context" where
  "handle_frame crypt s c f =
     (if fr_version f \<noteq> UPDATE_PROTOCOL_VERSION
      then with_device c (send_nack s (fr_sequence f) (fr_command f) UPDATE_PROTOCOL_STATUS_VERSION_ERROR)
      else if fr_sequence f \<noteq> up_expected_sequence s
      then with_device c (send_nack s (fr_sequence f) (fr_command f) UPDATE_PROTOCOL_STATUS_SEQUENCE_ERROR)
      else case execute_frame crypt s c f of
        (status, s', c') \<Rightarrow> (status, advance_sequence s', c'))"

definition update_protocol_session_init ::
    "'h crypto \<Rightarrow> host_context boot_flash \<Rightarrow> bytes \<Rightarrow> update_install_options \<Rightarrow>
     ('w \<Rightarrow> bytes \<Rightarrow> update_protocol_status \<times> 'w) \<Rightarrow> 'w \<Rightarrow> ('h, 'w) update_protocol_session" where
  "update_protocol_session_init crypt flash public_key install_options wr write_context =
     \<lparr>up_parser = update_protocol_parser_init,
      up_writer = \<lparr>writer_context = write_context, writer_write = wr\<rparr>,
      up_flash = flash, up_public_key = public_key, up_install_options = install_options,
      up_installer = empty_session crypt flash public_key install_options (Some zero_install_result),
      up_state = UPDATE_PROTOCOL_SESSION_IDLE, up_last_status = UPDATE_PROTOCOL_STATUS_OK,
      up_expected_sequence = 0, up_update_payload_offset = 0, up_installer_started = False\<rparr>"

definition handle_parse_error ::
    "('h, 'w) update_protocol_session \<Rightarrow> update_protocol_parse_status \<Rightarrow>
     update_protocol_status \<times> ('h, 'w) update_protocol_session" where
  "handle_parse_error s parse_status =
     (let status = (case parse_status of
                      UPDATE_PROTOCOL_PARSE_ERR_OVERSIZE \<Rightarrow> UPDATE_PROTOCOL_STATUS_OVERSIZE_ERROR
                    | UPDATE_PROTOCOL_PARSE_ERR_CRC \<Rightarrow> UPDATE_PROTOCOL_STATUS_CRC_ERROR
                    | UPDATE_PROTOCOL_PARSE_ERR_INVALID_ARGUMENT \<Rightarrow> UPDATE_PROTOCOL_STATUS_INVALID_ARGUMENT
                    | _ \<Rightarrow> UPDATE_PROTOCOL_STATUS_PARSER_ERROR);
          (command, seq) = (case update_protocol_parser_error_info (up_parser s) of
                              None \<Rightarrow> (0, up_expected_sequence s)
                            | Some info \<Rightarrow> info)
      in send_nack s seq command status)"

text \<open>What a byte does once the parser has taken it.\<close>

definition handle_parsed ::
    "'h crypto \<Rightarrow> ('h, 'w) update_protocol_session \<Rightarrow> host_context \<Rightarrow> update_protocol_parse_status \<Rightarrow>
     update_protocol_status \<times> ('h, 'w) update_protocol_session \<times> host_context" where
  "handle_parsed crypt s c parse_status =
     (if parse_status = UPDATE_PROTOCOL_PARSE_FRAME_READY
      then handle_frame crypt s c (ps_frame (up_parser s))
      else with_device c (handle_parse_error s parse_status))"

definition update_protocol_session_process_byte ::
    "'h crypto \<Rightarrow> ('h, 'w) update_protocol_session \<Rightarrow> host_context \<Rightarrow> u8 \<Rightarrow>
     update_protocol_status \<times> ('h, 'w) update_protocol_session \<times> host_context" where
  "update_protocol_session_process_byte crypt s c b =
     (case update_protocol_parser_push (up_parser s) b of
        (parse_status, p) \<Rightarrow>
          if parse_status = UPDATE_PROTOCOL_PARSE_NEED_MORE
          then (UPDATE_PROTOCOL_STATUS_OK, s\<lparr>up_parser := p\<rparr>, c)
          else handle_parsed crypt (s\<lparr>up_parser := p\<rparr>) c parse_status)"

section \<open>Byte reader\<close>

datatype byte_reader_status =
    BYTE_READER_OK
  | BYTE_READER_NO_DATA
  | BYTE_READER_TIMEOUT
  | BYTE_READER_ERR_INVALID_ARGUMENT
  | BYTE_READER_ERR_IO

text \<open>The character source: status, byte and the source after the call.\<close>

type_synonym 'r getc = "'r \<Rightarrow> byte_reader_status \<times> u8 \<times> 'r"

definition byte_reader_getc_nonblocking :: "'r getc \<Rightarrow> 'r \<Rightarrow> byte_reader_status \<times> u8 \<times> 'r" where
  "byte_reader_getc_nonblocking getc r = getc r"

fun getc_polls :: "'r getc \<Rightarrow> 'r \<Rightarrow> nat \<Rightarrow> byte_reader_status \<times> u8 \<times> 'r" where
  "getc_polls getc r 0 = (BYTE_READER_TIMEOUT, 0, r)"
| "getc_polls getc r (Suc polls) =
     (case byte_reader_getc_nonblocking getc r of
        (status, b, r') \<Rightarrow>
          if status \<noteq> BYTE_READER_NO_DATA then (status, b, r') else getc_polls getc r' polls)"

definition byte_reader_getc_timeout :: "'r getc \<Rightarrow> 'r \<Rightarrow> u32 \<Rightarrow> byte_reader_status \<times> u8 \<times> 'r" where
  "byte_reader_getc_timeout getc r timeout_polls = getc_polls getc r (unat timeout_polls)"

fun read_bytes :: "'r getc \<Rightarrow> 'r \<Rightarrow> nat \<Rightarrow> u32 \<Rightarrow> byte_reader_status \<times> bytes \<times> 'r" where
  "read_bytes getc r 0 polls = (BYTE_READER_OK, [], r)"
| "read_bytes getc r (Suc n) polls =
     (case byte_reader_getc_timeout getc r polls of
        (status, b, r1) \<Rightarrow>
          if status \<noteq> BYTE_READER_OK then (status, [], r1)
          else case read_bytes getc r1 n polls of (status', bs, r2) \<Rightarrow> (status', b # bs, r2))"

text \<open>The buffer and the number of bytes read are one list.\<close>

definition byte_reader_read_timeout ::
    "'r getc \<Rightarrow> 'r \<Rightarrow> size_t \<Rightarrow> u32 \<Rightarrow> byte_reader_status \<times> bytes \<times> 'r" where
  "byte_reader_read_timeout getc r len per_byte_timeout_polls = read_bytes getc r len per_byte_timeout_polls"

section \<open>Receiving\<close>

definition reader_timeout ::
    "('h, 'w) update_protocol_session \<Rightarrow> update_protocol_status \<times> ('h, 'w) update_protocol_session" where
  "reader_timeout s =
     (if update_protocol_parser_has_partial (up_parser s) then
        (let info = update_protocol_parser_error_info (up_parser s);
             s1 = s\<lparr>up_parser := update_protocol_parser_init,
                    up_last_status := UPDATE_PROTOCOL_STATUS_TIMEOUT\<rparr>
         in case info of
              None \<Rightarrow> (UPDATE_PROTOCOL_STATUS_TIMEOUT, s1)
            | Some (command, seq) \<Rightarrow>
                (case send_nack s1 seq command UPDATE_PROTOCOL_STATUS_TIMEOUT of
                   (write_status, s2) \<Rightarrow>
                     (if write_status \<noteq> UPDATE_PROTOCOL_STATUS_OK then write_status
                      else UPDATE_PROTOCOL_STATUS_TIMEOUT, s2)))
      else (UPDATE_PROTOCOL_STATUS_TIMEOUT, s))"

text \<open>
  The loop of \<^verbatim>\<open>update_protocol_session_process_reader\<close>; \<open>fuel\<close> is the number of bytes that may
  still arrive before the limit of the source (twice the largest frame) is exceeded.
\<close>

fun process_reader_loop ::
    "'h crypto \<Rightarrow> 'r getc \<Rightarrow> u32 \<Rightarrow> nat \<Rightarrow> ('h, 'w) update_protocol_session \<Rightarrow> 'r \<Rightarrow> host_context \<Rightarrow>
     update_protocol_status \<times> ('h, 'w) update_protocol_session \<times> 'r \<times> host_context" where
  "process_reader_loop crypt getc polls fuel s r c =
     (case byte_reader_getc_timeout getc r polls of
        (read_status, b, r1) \<Rightarrow>
          if read_status = BYTE_READER_TIMEOUT
          then (case reader_timeout s of (status, s1) \<Rightarrow> (status, s1, r1, c))
          else if read_status \<noteq> BYTE_READER_OK
          then (UPDATE_PROTOCOL_STATUS_IO_ERROR,
                s\<lparr>up_last_status := UPDATE_PROTOCOL_STATUS_IO_ERROR\<rparr>, r1, c)
          else (case fuel of
                  0 \<Rightarrow> (UPDATE_PROTOCOL_STATUS_TIMEOUT,
                        s\<lparr>up_parser := update_protocol_parser_init,
                          up_last_status := UPDATE_PROTOCOL_STATUS_TIMEOUT\<rparr>, r1, c)
                | Suc fuel' \<Rightarrow>
                    (case update_protocol_parser_push (up_parser s) b of
                       (parse_status, p) \<Rightarrow>
                         if parse_status = UPDATE_PROTOCOL_PARSE_NEED_MORE
                         then process_reader_loop crypt getc polls fuel' (s\<lparr>up_parser := p\<rparr>) r1 c
                         else case handle_parsed crypt (s\<lparr>up_parser := p\<rparr>) c parse_status of
                           (status, s1, c1) \<Rightarrow> (status, s1, r1, c1))))"

declare process_reader_loop.simps [simp del]

definition update_protocol_session_process_reader ::
    "'h crypto \<Rightarrow> 'r getc \<Rightarrow> ('h, 'w) update_protocol_session \<Rightarrow> 'r \<Rightarrow> u32 \<Rightarrow> host_context \<Rightarrow>
     update_protocol_status \<times> ('h, 'w) update_protocol_session \<times> 'r \<times> host_context" where
  "update_protocol_session_process_reader crypt getc s r byte_timeout_polls c =
     process_reader_loop crypt getc byte_timeout_polls (2 * UPDATE_PROTOCOL_MAX_FRAME_SIZE) s r c"

end
