(* ===== verification/Update_Protocol_Safety.thy ===== *)
theory Update_Protocol_Safety
  imports Update_Protocol
begin

text \<open>
  Safety of the protocol. Whatever bytes arrive, the session drives the installer only through
  its calls, so the guarantees of the installer carry over: the active slot keeps its contents,
  a candidate is announced only when it is bootable, and the device boots after a reset at any
  point. Frames that are refused change nothing but the response and the last status.
\<close>

section \<open>Responses change only the writer and the last status\<close>

definition session_core_part where
  "session_core_part (s :: ('h, 'w) update_protocol_session) =
     (up_parser s, up_flash s, up_public_key s, up_install_options s, up_installer s, up_state s,
      up_expected_sequence s, up_update_payload_offset s, up_installer_started s)"

lemma core_part_members:
  assumes "session_core_part s' = session_core_part s"
  shows "up_parser s' = up_parser s" "up_flash s' = up_flash s" "up_public_key s' = up_public_key s"
    "up_install_options s' = up_install_options s" "up_installer s' = up_installer s"
    "up_state s' = up_state s" "up_expected_sequence s' = up_expected_sequence s"
    "up_update_payload_offset s' = up_update_payload_offset s"
    "up_installer_started s' = up_installer_started s"
  using assms by (simp_all add: session_core_part_def)

lemma response_core:
  "session_core_part (snd (send_response s cmd seq payload)) = session_core_part s"
  "session_core_part (snd (send_nack s seq cmd st)) = session_core_part s"
  "session_core_part (snd (send_ack s seq cmd extra)) = session_core_part s"
  "session_core_part (snd (send_hello_ack s seq cmd)) = session_core_part s"
  by (simp_all add: send_response_def send_nack_def send_ack_def send_hello_ack_def session_core_part_def
      Let_def split: prod.split)

lemma query_core:
  "session_core_part (snd (handle_hello s f)) = session_core_part s"
  "session_core_part (snd (handle_get_info s f)) = session_core_part s"
  "session_core_part (snd (handle_get_status s f)) = session_core_part s"
  by (simp_all add: handle_hello_def handle_get_info_def handle_get_status_def response_core)

lemma with_device_simps [simp]:
  "fst (with_device c r) = fst r" "fst (snd (with_device c r)) = snd r" "snd (snd (with_device c r)) = c"
  by (simp_all add: with_device_def)

lemma map_installer_ok [simp]: "map_installer_status st = UPDATE_PROTOCOL_STATUS_OK \<longleftrightarrow> st = UPDATE_INSTALL_OK"
  by (cases st) simp_all

section \<open>The installer behind the protocol\<close>

text \<open>A session of the installer for the given active slot, or one that has done nothing.\<close>

definition installer_link ::
    "'h crypto \<Rightarrow> bytes \<Rightarrow> boot_slot_descriptor \<Rightarrow> 'h update_installer_session \<Rightarrow> host_context \<Rightarrow> bool" where
  "installer_link crypt pk act i c \<longleftrightarrow>
     session_inv crypt i c \<and> session_slots i \<and> ses_active i = Some act \<and> ses_public_key i = pk"

definition installer_inert :: "'h update_installer_session \<Rightarrow> bool" where
  "installer_inert i \<longleftrightarrow>
     \<not> ses_metadata_writing_committed i \<and>
     ses_state i \<in> {UPDATE_INSTALL_SESSION_EMPTY, UPDATE_INSTALL_SESSION_FAILED, UPDATE_INSTALL_SESSION_ABORTED}"

text \<open>
  What the device must keep, compared with its state before the session: the active slot, and a
  journal for it whose announced candidate, unless it was announced before, is bootable.
\<close>

definition device_ok ::
    "'h crypto \<Rightarrow> bytes \<Rightarrow> boot_slot_descriptor \<Rightarrow> host_context \<Rightarrow> host_context \<Rightarrow> bool" where
  "device_ok crypt pk act old c \<longleftrightarrow>
     host_healthy c \<and> (\<forall>n. in_slot act n \<longrightarrow> host_view c n = host_view old n) \<and>
     (\<exists>r. journal_record c r \<and> boot_slot_lookup (active_slot r) = Some act \<and>
        (state r \<in> {BOOT_METADATA_STATE_CANDIDATE_READY, BOOT_METADATA_STATE_PENDING_TRIAL} \<longrightarrow>
           journal_record old r \<or>
           (\<exists>slot. boot_slot_lookup (candidate_slot r) = Some slot \<and>
              slot_bootable crypt pk (host_view c) slot)))"

definition protocol_inv ::
    "'h crypto \<Rightarrow> bytes \<Rightarrow> boot_slot_descriptor \<Rightarrow> host_context \<Rightarrow>
     ('h, 'w) update_protocol_session \<Rightarrow> host_context \<Rightarrow> bool" where
  "protocol_inv crypt pk act old s c \<longleftrightarrow>
     flash_ops (up_flash s) = writable_ops \<and> wf_flash (up_flash s) \<and> up_public_key s = pk \<and>
     device_ok crypt pk act old c \<and>
     (up_installer_started s \<longrightarrow>
        installer_link crypt pk act (up_installer s) c \<or> installer_inert (up_installer s))"

lemma protocol_inv_core:
  assumes "session_core_part s' = session_core_part s"
  shows "protocol_inv crypt pk act old s' c = protocol_inv crypt pk act old s c"
  by (simp add: protocol_inv_def core_part_members [OF assms])

lemma slots_lookup:
  assumes "session_slots i" "ses_active i = Some act"
  shows "boot_slot_lookup (ses_active_slot_id i) = Some act"
    "boot_slot_lookup (slot_num (slot_id (ses_candidate i))) = Some (ses_candidate i)"
    "in_slot act n \<Longrightarrow> in_flash n \<and> \<not> in_update_area i n"
proof -
  have ab: "act = boot_slot_a \<or> act = boot_slot_b"
    using assms by (auto simp: session_slots_def)
  from assms show "boot_slot_lookup (ses_active_slot_id i) = Some act"
    "boot_slot_lookup (slot_num (slot_id (ses_candidate i))) = Some (ses_candidate i)"
    by (auto simp: session_slots_def boot_slot_rows)
  assume n: "in_slot act n"
  from slot_parts_in_slot(4) [OF ab n] assms n show "in_flash n \<and> \<not> in_update_area i n"
    by (auto simp: session_slots_def in_update_area_def in_candidate_def in_slot_def boot_slot_rows)
qed

lemma installer_link_device:
  assumes link: "installer_link crypt pk act i c" and same: "\<forall>n. in_slot act n \<longrightarrow> host_view c n = host_view old n"
  shows "device_ok crypt pk act old c"
proof -
  note l = link [unfolded installer_link_def]
  note look = slots_lookup [of i act]
  from l obtain r where "journal_record c r" "active_slot r = ses_active_slot_id i"
    "state r \<noteq> BOOT_METADATA_STATE_PENDING_TRIAL"
    "state r = BOOT_METADATA_STATE_CANDIDATE_READY \<longrightarrow> candidate_slot r = slot_num (slot_id (ses_candidate i)) \<and>
       slot_bootable crypt (ses_public_key i) (host_view c) (ses_candidate i)"
    unfolding session_inv_def by blast
  with l look same inv_healthy [of crypt i c] show ?thesis unfolding device_ok_def by auto
qed

lemma installer_call:
  assumes link: "installer_link crypt pk act i c" and dev: "device_ok crypt pk act old c"
    and call: "session_call crypt op i c = (st, i', c')"
  shows "installer_link crypt pk act i' c' \<and> device_ok crypt pk act old c'"
proof -
  note l = link [unfolded installer_link_def]
  have sd: "session_device i" using l inv_device by blast
  from session_call_kept [OF sd call] have fixed: "session_fixed i' = session_fixed i"
    and k: "kept (in_update_area i) c c'" by simp_all
  note fm = fixed_members [OF fixed]
  have inv: "session_inv crypt i' c'"
    using l call by (cases op) (auto intro: inv_begin inv_write inv_finish inv_abort)
  have "session_slots i' = session_slots i" by (simp only: session_slots_def fm)
  with inv l fm have link': "installer_link crypt pk act i' c'" by (simp add: installer_link_def)
  have "\<forall>n. in_slot act n \<longrightarrow> host_view c' n = host_view old n"
    using dev k slots_lookup(3) [of i act] l by (auto simp: device_ok_def kept_def)
  from link' installer_link_device [OF link' this] show ?thesis by simp
qed

lemma abort_inert:
  assumes "installer_inert i"
  shows "\<exists>st i'. update_installer_abort i c = (st, i', c) \<and> installer_inert i'"
  using assms by (auto simp: installer_inert_def update_installer_abort_def Let_def)

lemma abort_any:
  assumes "installer_link crypt pk act i c \<or> installer_inert i" "device_ok crypt pk act old c"
    and run: "update_installer_abort i c = (st, i', c')"
  shows "(installer_link crypt pk act i' c' \<or> installer_inert i') \<and> device_ok crypt pk act old c'"
  using assms(1)
proof
  assume "installer_link crypt pk act i c"
  from installer_call [OF this assms(2), of OP_ABORT] run show ?thesis by simp
next
  assume "installer_inert i"
  from abort_inert [OF this, of c] run assms(2) show ?thesis by auto
qed


section \<open>Every command keeps the invariant\<close>

lemma inv_responses:
  assumes "protocol_inv crypt pk act old s c"
  shows "protocol_inv crypt pk act old (snd (send_nack s seq cmd st)) c"
    "protocol_inv crypt pk act old (snd (send_ack s seq cmd extra)) c"
  using assms protocol_inv_core response_core(2,3) by blast+

lemma inv_state:
  "protocol_inv crypt pk act old (s\<lparr>up_state := x\<rparr>) c = protocol_inv crypt pk act old s c"
  "protocol_inv crypt pk act old (s\<lparr>up_update_payload_offset := k\<rparr>) c = protocol_inv crypt pk act old s c"
  "protocol_inv crypt pk act old (s\<lparr>up_parser := p\<rparr>) c = protocol_inv crypt pk act old s c"
  "protocol_inv crypt pk act old (s\<lparr>up_last_status := st\<rparr>) c = protocol_inv crypt pk act old s c"
  "protocol_inv crypt pk act old (advance_sequence s) c = protocol_inv crypt pk act old s c"
  by (simp_all add: protocol_inv_def advance_sequence_def)

lemma inv_installer:
  assumes "protocol_inv crypt pk act old s c" "device_ok crypt pk act old c'"
    "installer_link crypt pk act i c' \<or> installer_inert i"
  shows "protocol_inv crypt pk act old (s\<lparr>up_installer := i\<rparr>) c'"
    "protocol_inv crypt pk act old (s\<lparr>up_installer_started := True, up_installer := i\<rparr>) c'"
  using assms by (auto simp: protocol_inv_def)

lemma inv_started:
  assumes "protocol_inv crypt pk act old s c" "up_installer_started s"
  shows "installer_link crypt pk act (up_installer s) c \<or> installer_inert (up_installer s)"
    "device_ok crypt pk act old c"
  using assms by (auto simp: protocol_inv_def)

lemma init_fails_inert:
  assumes "update_installer_session_init crypt flash pk options res c = (st, i)" "st \<noteq> UPDATE_INSTALL_OK"
  shows "installer_inert i"
  using assms
  by (auto simp: update_installer_session_init_def Let_def installer_inert_def empty_session_def
      split: if_splits option.splits sum.splits)

lemma init_links:
  assumes run: "update_installer_session_init crypt flash pk options res c = (UPDATE_INSTALL_OK, i)"
    and flash: "flash_ops flash = writable_ops" "wf_flash flash" and dev: "device_ok crypt pk act old c"
  shows "installer_link crypt pk act i c"
proof -
  from dev obtain r where r: "journal_record c r" "boot_slot_lookup (active_slot r) = Some act" and good: "host_healthy c"
    by (auto simp: device_ok_def)
  then obtain v where rec: "boot_metadata_recover_from_flash metadata_flash c = (BOOT_METADATA_OK, Some (r, v))"
    by (auto elim: journal_recordE)
  note start = session_init_ok [OF run flash(1)] and inv = inv_init [OF run flash good rec]
  have "fst (boot_metadata_recover_from_flash flash c) = BOOT_METADATA_OK"
    using recover_host [OF flash(2,1) good] rec by simp
  with start(7) inv(2) r(2) have "ses_active i = Some act" by auto
  with start(2,5) inv(1) show ?thesis by (simp add: installer_link_def)
qed

lemma begin_keeps:
  assumes inv: "protocol_inv crypt pk act old s c"
  shows "protocol_inv crypt pk act old (fst (snd (handle_begin_update crypt s c f))) (snd (snd (handle_begin_update crypt s c f)))"
proof -
  have flash: "flash_ops (up_flash s) = writable_ops" "wf_flash (up_flash s)" "up_public_key s = pk"
    and dev: "device_ok crypt pk act old c" using inv by (auto simp: protocol_inv_def)
  obtain st0 i0 where init: "update_installer_session_init crypt (up_flash s) (up_public_key s) (up_install_options s)
      (ses_result (up_installer s)) c = (st0, i0)" by fastforce
  let ?hb = "take 512 (fr_payload f)"
  obtain st1 i1 c1 where beg: "update_installer_begin crypt i0 c ?hb = (st1, i1, c1)" by (metis prod_cases3)
  obtain st2 i2 c2 where ab: "update_installer_abort i1 c1 = (st2, i2, c2)" by (metis prod_cases3)
  obtain st3 i3 c3 where ab0: "update_installer_abort i0 c = (st3, i3, c3)" by (metis prod_cases3)
  consider "unat (fr_payload_length f) \<noteq> 512" | "unat (fr_payload_length f) = 512" "st0 = UPDATE_INSTALL_OK"
    | "unat (fr_payload_length f) = 512" "st0 \<noteq> UPDATE_INSTALL_OK" by blast
  then show ?thesis
  proof cases
    case 1
    with inv show ?thesis by (simp add: handle_begin_update_def inv_responses)
  next
    case 2
    have link: "installer_link crypt pk act i0 c"
      using init_links [OF _ flash(1,2) dev] init 2 flash(3) by simp
    from installer_call [OF link dev, of "OP_BEGIN ?hb"] beg
    have l1: "installer_link crypt pk act i1 c1" "device_ok crypt pk act old c1" by simp_all
    from abort_any [OF disjI1 [OF l1(1)] l1(2) ab]
    have l2: "installer_link crypt pk act i2 c2 \<or> installer_inert i2" "device_ok crypt pk act old c2" by simp_all
    have "protocol_inv crypt pk act old (s\<lparr>up_installer_started := True, up_installer := i1\<rparr>) c1"
      "protocol_inv crypt pk act old (s\<lparr>up_installer_started := True, up_installer := i2\<rparr>) c2"
      using inv l1 l2 by (simp_all add: protocol_inv_def)
    with init beg ab 2 inv show ?thesis
      by (simp add: handle_begin_update_def inv_responses inv_state)
  next
    case 3
    note inert = init_fails_inert [OF init 3(2)]
    from abort_any [OF disjI2 [OF inert] dev ab0]
    have l3: "installer_link crypt pk act i3 c3 \<or> installer_inert i3" "device_ok crypt pk act old c3" by simp_all
    have "protocol_inv crypt pk act old (s\<lparr>up_installer := i3\<rparr>) c3" "protocol_inv crypt pk act old (s\<lparr>up_installer := i0\<rparr>) c"
      using inv l3 inert by (auto simp: protocol_inv_def)
    with init ab0 3 inv show ?thesis
      by (simp add: handle_begin_update_def inv_responses inv_state Let_def)
  qed
qed

lemma call_keeps:
  assumes inv: "protocol_inv crypt pk act old s c" and started: "up_installer_started s"
    and run: "update_installer_write crypt (up_installer s) c off d = (st, i, c') \<or>
      update_installer_finish crypt (up_installer s) c = (st, i, c') \<or>
      update_installer_abort (up_installer s) c = (st, i, c')"
  shows "protocol_inv crypt pk act old (s\<lparr>up_installer := i\<rparr>) c'"
  using inv_started(1) [OF inv started]
proof
  assume link: "installer_link crypt pk act (up_installer s) c"
  from run installer_call [OF link inv_started(2) [OF inv started], of "OP_WRITE off d"]
    installer_call [OF link inv_started(2) [OF inv started], of OP_FINISH]
    installer_call [OF link inv_started(2) [OF inv started], of OP_ABORT]
  have "installer_link crypt pk act i c' \<and> device_ok crypt pk act old c'" by auto
  with inv show ?thesis by (simp add: protocol_inv_def)
next
  assume inert: "installer_inert (up_installer s)"
  then have "update_installer_write crypt (up_installer s) c off d = (UPDATE_INSTALL_ERR_STATE, up_installer s, c)"
    "update_installer_finish crypt (up_installer s) c = (UPDATE_INSTALL_ERR_STATE, up_installer s, c)"
    by (auto simp: installer_inert_def update_installer_write_def update_installer_finish_def)
  with run abort_inert [OF inert, of c] inert have "c' = c" "installer_inert i" by auto
  with inv show ?thesis by (simp add: protocol_inv_def)
qed

lemma write_keeps:
  assumes inv: "protocol_inv crypt pk act old s c"
  shows "protocol_inv crypt pk act old (fst (snd (handle_write_block crypt s c f))) (snd (snd (handle_write_block crypt s c f)))"
proof -
  obtain st i c' where w: "update_installer_write crypt (up_installer s) c (up_update_payload_offset s)
      (take (unat (fr_payload_length f) - 4) (drop 4 (fr_payload f))) = (st, i, c')" by (metis prod_cases3)
  from inv call_keeps [OF inv _ disjI1 [OF w]] w show ?thesis
    by (simp add: handle_write_block_def Let_def inv_responses inv_state)
qed

lemma finish_keeps:
  assumes inv: "protocol_inv crypt pk act old s c"
  shows "protocol_inv crypt pk act old (fst (snd (handle_finish_update crypt s c f))) (snd (snd (handle_finish_update crypt s c f)))"
proof -
  obtain st i c' where w: "update_installer_finish crypt (up_installer s) c = (st, i, c')" by (metis prod_cases3)
  from inv call_keeps [OF inv _ disjI2 [OF disjI1 [OF w]]] w show ?thesis
    by (simp add: handle_finish_update_def Let_def inv_responses inv_state)
qed

lemma abort_keeps:
  assumes inv: "protocol_inv crypt pk act old s c"
  shows "protocol_inv crypt pk act old (fst (snd (handle_abort_update s c f))) (snd (snd (handle_abort_update s c f)))"
proof -
  obtain st i c' where w: "update_installer_abort (up_installer s) c = (st, i, c')" by (metis prod_cases3)
  from inv call_keeps [OF inv _ disjI2 [OF disjI2 [OF w]]] w show ?thesis
    by (simp add: handle_abort_update_def Let_def inv_responses inv_state)
qed

lemma frame_keeps:
  assumes inv: "protocol_inv crypt pk act old s c" and run: "handle_frame crypt s c f = (st, s', c')"
  shows "protocol_inv crypt pk act old s' c'"
proof -
  have q: "protocol_inv crypt pk act old (snd (handle_hello s f)) c" "protocol_inv crypt pk act old (snd (handle_get_info s f)) c"
    "protocol_inv crypt pk act old (snd (handle_get_status s f)) c" "protocol_inv crypt pk act old (snd (handle_reset s f)) c"
    using inv
    by (simp_all add: protocol_inv_core [OF query_core(1)] protocol_inv_core [OF query_core(2)]
        protocol_inv_core [OF query_core(3)] handle_reset_def inv_responses inv_state)
  obtain st1 s1 c1 where ex: "execute_frame crypt s c f = (st1, s1, c1)" by (metis prod_cases3)
  have "protocol_inv crypt pk act old (fst (snd (execute_frame crypt s c f))) (snd (snd (execute_frame crypt s c f)))"
    using inv q begin_keeps [OF inv, of f] write_keeps [OF inv, of f] finish_keeps [OF inv, of f] abort_keeps [OF inv, of f]
    by (simp add: execute_frame_def inv_responses)
  then have "protocol_inv crypt pk act old s1 c1" by (simp add: ex)
  with run ex inv show ?thesis
    by (auto simp: handle_frame_def inv_state with_device_def inv_responses split: if_splits)
qed

lemma parsed_keeps:
  assumes inv: "protocol_inv crypt pk act old s c" and run: "handle_parsed crypt s c ps = (st, s', c')"
  shows "protocol_inv crypt pk act old s' c'"
proof (cases "ps = UPDATE_PROTOCOL_PARSE_FRAME_READY")
  case True
  with run frame_keeps [OF inv] show ?thesis by (simp add: handle_parsed_def)
next
  case False
  have "protocol_inv crypt pk act old (snd (handle_parse_error s ps)) c"
    by (simp add: handle_parse_error_def Let_def inv_responses [OF inv] split: prod.split)
  with False run show ?thesis by (simp add: handle_parsed_def with_device_def)
qed

lemma byte_keeps:
  assumes inv: "protocol_inv crypt pk act old s c"
    and run: "update_protocol_session_process_byte crypt s c b = (st, s', c')"
  shows "protocol_inv crypt pk act old s' c'"
proof -
  obtain ps p where push: "update_protocol_parser_push (up_parser s) b = (ps, p)" by fastforce
  have "protocol_inv crypt pk act old (s\<lparr>up_parser := p\<rparr>) c" using inv by (simp add: inv_state)
  with run push parsed_keeps [OF this] show ?thesis
    by (auto simp: update_protocol_session_process_byte_def split: if_splits)
qed

section \<open>Properties\<close>

text \<open>Bytes arriving one after the other.\<close>

fun receive ::
    "'h crypto \<Rightarrow> bytes \<Rightarrow> ('h, 'w) update_protocol_session \<Rightarrow> host_context \<Rightarrow>
     ('h, 'w) update_protocol_session \<times> host_context" where
  "receive crypt [] s c = (s, c)"
| "receive crypt (b # bs) s c =
     (case update_protocol_session_process_byte crypt s c b of (_, s', c') \<Rightarrow> receive crypt bs s' c')"

lemma receive_keeps:
  assumes "protocol_inv crypt pk act old s c" "receive crypt bs s c = (s', c')"
  shows "protocol_inv crypt pk act old s' c'"
  using assms
proof (induction bs arbitrary: s c)
  case (Cons b bs)
  obtain st s1 c1 where run: "update_protocol_session_process_byte crypt s c b = (st, s1, c1)" by (metis prod_cases3)
  with Cons byte_keeps [OF Cons.prems(1) run] show ?case by auto
qed simp

lemma device_ok_start:
  assumes "host_healthy c" "boot_metadata_recover_from_flash metadata_flash c = (BOOT_METADATA_OK, Some (r, v))"
    and "boot_slot_lookup (active_slot r) = Some act"
  shows "device_ok crypt pk act c c"
  using assms journal_recordI [OF assms(2)] by (auto simp: device_ok_def)

lemma device_ok_boots:
  assumes dev: "device_ok crypt pk act old c" and ab: "act = boot_slot_a \<or> act = boot_slot_b"
    and boot: "slot_bootable crypt pk (host_view old) act"
  shows "\<exists>ev st effs c'. boot_sequence_execute crypt pk c csr = (ev, BOOT_JUMP st effs, c') \<and>
    (\<exists>entered \<in> {boot_slot_a, boot_slot_b}. slot_bootable crypt pk (host_view c') entered \<and>
       last effs = ENTER (slot_entry (host_view c') entered))"
proof -
  from dev obtain r where good: "host_healthy c" and r: "journal_record c r" "boot_slot_lookup (active_slot r) = Some act"
    and same: "\<forall>n. in_slot act n \<longrightarrow> host_view c n = host_view old n"
    by (auto simp: device_ok_def)
  from r(1) obtain v where rec: "boot_metadata_recover_from_flash metadata_flash c = (BOOT_METADATA_OK, Some (r, v))"
    by (rule journal_recordE)
  have "slot_bootable crypt pk (host_view c) act"
    using slot_bootable_cong [OF ab, of "host_view old" "host_view c"] same boot by auto
  from active_image_boots [OF rec good r(2) this] show ?thesis .
qed

lemma protocol_inv_init:
  assumes "flash_ops flash = writable_ops" "wf_flash flash" "host_healthy c"
    "boot_metadata_recover_from_flash metadata_flash c = (BOOT_METADATA_OK, Some (r, v))"
    "boot_slot_lookup (active_slot r) = Some act"
  shows "protocol_inv crypt pk act c (update_protocol_session_init crypt flash pk options wr ctx) c"
  using assms device_ok_start [OF assms(3-5)]
  by (simp add: protocol_inv_def update_protocol_session_init_def)

text \<open>
  C20. No input over the update channel can brick the device: with a readable journal and an
  acceptable, authentic image in the active slot, whatever bytes a session receives, at every
  point the active slot has its contents, a candidate that the session announced is bootable,
  and a reset enters a slot that holds an acceptable, authentic image. Any flash operation may
  fail on the way, and the responses may get lost.
\<close>

theorem protocol_never_bricks:
  assumes flash: "flash_ops flash = writable_ops" "wf_flash flash" and good: "host_healthy c"
    and rec: "boot_metadata_recover_from_flash metadata_flash c = (BOOT_METADATA_OK, Some (r, v))"
    and slot: "boot_slot_lookup (active_slot r) = Some act"
    and boot: "slot_bootable crypt pk (host_view c) act"
    and run: "receive crypt bs (update_protocol_session_init crypt flash pk options wr ctx) c = (s, c')"
  shows "(\<forall>n. in_slot act n \<longrightarrow> host_view c' n = host_view c n) \<and>
    (\<exists>r'. journal_record c' r' \<and> active_slot r' = active_slot r \<and>
      (state r' = BOOT_METADATA_STATE_CANDIDATE_READY \<longrightarrow> r' = r \<or>
        (\<exists>cand. boot_slot_lookup (candidate_slot r') = Some cand \<and> slot_bootable crypt pk (host_view c') cand))) \<and>
    (\<exists>ev st effs c''. boot_sequence_execute crypt pk c' csr = (ev, BOOT_JUMP st effs, c'') \<and>
      (\<exists>entered \<in> {boot_slot_a, boot_slot_b}. slot_bootable crypt pk (host_view c'') entered \<and>
         last effs = ENTER (slot_entry (host_view c'') entered)))"
proof -
  have ab: "act = boot_slot_a \<or> act = boot_slot_b" using slot by (auto simp: boot_slot_lookup_Some)
  from receive_keeps [OF protocol_inv_init [OF flash good rec slot] run] have dev: "device_ok crypt pk act c c'"
    by (simp add: protocol_inv_def)
  then obtain r' where r': "journal_record c' r'" "boot_slot_lookup (active_slot r') = Some act"
    "state r' = BOOT_METADATA_STATE_CANDIDATE_READY \<longrightarrow> journal_record c r' \<or>
      (\<exists>cand. boot_slot_lookup (candidate_slot r') = Some cand \<and> slot_bootable crypt pk (host_view c') cand)"
    by (auto simp: device_ok_def)
  have "active_slot r' = active_slot r" using boot_slot_lookup_id [OF r'(2)] boot_slot_lookup_id [OF slot] by simp
  moreover have "journal_record c r' \<Longrightarrow> r' = r" using journal_recordI [OF rec] journal_record_unique by blast
  ultimately show ?thesis using r' dev device_ok_boots [OF dev ab boot] by (auto simp: device_ok_def)
qed

lemma sequence_answers:
  "up_expected_sequence (snd (send_nack s seq cmd st)) = up_expected_sequence s"
  "up_expected_sequence (snd (send_ack s seq cmd extra)) = up_expected_sequence s"
  by (fact core_part_members(7) [OF response_core(2)] core_part_members(7) [OF response_core(3)])+

lemma sequence_queries:
  "up_expected_sequence (snd (handle_hello s f)) = up_expected_sequence s"
  "up_expected_sequence (snd (handle_get_info s f)) = up_expected_sequence s"
  "up_expected_sequence (snd (handle_get_status s f)) = up_expected_sequence s"
  "up_expected_sequence (snd (handle_reset s f)) = up_expected_sequence s"
  by (simp_all add: core_part_members(7) [OF query_core(1)] core_part_members(7) [OF query_core(2)]
      core_part_members(7) [OF query_core(3)] handle_reset_def sequence_answers)

lemma sequence_calls:
  "up_expected_sequence (fst (snd (handle_begin_update crypt s c f))) = up_expected_sequence s"
  "up_expected_sequence (fst (snd (handle_write_block crypt s c f))) = up_expected_sequence s"
  "up_expected_sequence (fst (snd (handle_finish_update crypt s c f))) = up_expected_sequence s"
  "up_expected_sequence (fst (snd (handle_abort_update s c f))) = up_expected_sequence s"
  by (simp_all add: handle_begin_update_def handle_write_block_def handle_finish_update_def
      handle_abort_update_def sequence_answers case_prod_unfold Let_def)

lemma sequence_kept:
  "up_expected_sequence (fst (snd (execute_frame crypt s c f))) = up_expected_sequence s"
  by (simp add: execute_frame_def sequence_answers sequence_queries sequence_calls)

text \<open>
  What a writer gets when a byte sequence is sent in pieces: the pieces in order, up to the first
  one it does not accept.
\<close>

fun put_pieces :: "'w update_protocol_writer \<Rightarrow> bytes list \<Rightarrow> update_protocol_status \<times> 'w update_protocol_writer" where
  "put_pieces w [] = (UPDATE_PROTOCOL_STATUS_OK, w)"
| "put_pieces w (d # ds) =
     (case writer_write w (writer_context w) d of
        (st, ctx) \<Rightarrow> if st \<noteq> UPDATE_PROTOCOL_STATUS_OK then (st, w\<lparr>writer_context := ctx\<rparr>)
                     else put_pieces (w\<lparr>writer_context := ctx\<rparr>) ds)"

definition frame_pieces :: "u8 \<Rightarrow> u16 \<Rightarrow> bytes \<Rightarrow> bytes list" where
  "frame_pieces command seq payload =
     [frame_header command seq (length payload), payload,
      le32 (update_protocol_crc32_update 0 (frame_header command seq (length payload) @ payload))]"

lemma write_frame_pieces:
  assumes "length payload \<le> 1024" and "payload \<noteq> []"
  shows "update_protocol_write_frame w command seq payload =
    put_pieces w (frame_pieces command seq payload)"
proof -
  let ?h = "frame_header command seq (length payload)"
  have header: "build_header command seq payload =
      Inr (?h, update_protocol_crc32_update 0 (?h @ payload))"
    using assms by (simp add: build_header_def frame_header_def update_protocol_crc32_update_def Let_def)
  show ?thesis
    unfolding update_protocol_write_frame_def header frame_pieces_def
    using assms(2) by (auto simp: writer_put_def split: prod.splits)
qed

lemma send_nack_pieces:
  assumes "status \<noteq> UPDATE_PROTOCOL_STATUS_OK"
  shows "(fst (send_nack s seq command status), up_writer (snd (send_nack s seq command status))) =
      put_pieces (up_writer s) (frame_pieces 0x81 seq (command # le16 (protocol_status_num status)))"
    "up_last_status (snd (send_nack s seq command status)) = status"
proof -
  have "length (command # le16 (protocol_status_num status)) \<le> 1024" by (simp add: le16_def)
  from assms write_frame_pieces [OF this]
  show "(fst (send_nack s seq command status), up_writer (snd (send_nack s seq command status))) =
      put_pieces (up_writer s) (frame_pieces 0x81 seq (command # le16 (protocol_status_num status)))"
    by (simp add: send_nack_def send_response_def response_common_def Let_def case_prod_unfold del: put_pieces.simps)
  from assms show "up_last_status (snd (send_nack s seq command status)) = status"
    by (simp add: send_nack_def send_response_def Let_def split: prod.split)
qed

text \<open>
  C22. A frame with another version or another sequence number than the expected one, such as a
  repeated or delayed frame, is answered by a NACK frame and otherwise ignored: the writer gets
  exactly one frame, byte for byte (command 0x81, the sequence number of the refused frame, its
  command and the error number 7 for the version or 10 for the sequence number, with the CRC); the device, the
  installer, the state of the session and the expected sequence number stay as they are. An
  executed frame advances the sequence number by one.
\<close>

theorem stale_frame_ignored:
  assumes run: "handle_frame crypt s c f = (st, s', c')"
  shows "if fr_version f = UPDATE_PROTOCOL_VERSION \<and> fr_sequence f = up_expected_sequence s
    then up_expected_sequence s' = up_expected_sequence s + 1
    else c' = c \<and> session_core_part s' = session_core_part s \<and>
      up_last_status s' \<noteq> UPDATE_PROTOCOL_STATUS_OK \<and>
      (st, up_writer s') = put_pieces (up_writer s) (frame_pieces 0x81 (fr_sequence f)
        [fr_command f, if fr_version f \<noteq> UPDATE_PROTOCOL_VERSION then 7 else 10, 0])"
proof (cases "fr_version f = UPDATE_PROTOCOL_VERSION \<and> fr_sequence f = up_expected_sequence s")
  case True
  with run sequence_kept [of crypt s c f] show ?thesis
    by (auto simp: handle_frame_def advance_sequence_def split: prod.splits)
next
  case False
  define e where "e = (if fr_version f \<noteq> UPDATE_PROTOCOL_VERSION then UPDATE_PROTOCOL_STATUS_VERSION_ERROR
      else UPDATE_PROTOCOL_STATUS_SEQUENCE_ERROR)"
  have ne: "e \<noteq> UPDATE_PROTOCOL_STATUS_OK" by (simp add: e_def)
  have code: "le16 (protocol_status_num e) = [if fr_version f \<noteq> UPDATE_PROTOCOL_VERSION then 7 else 10, 0]"
    by (simp add: e_def le16_def)
  from False run have "send_nack s (fr_sequence f) (fr_command f) e = (st, s')" and "c' = c"
    by (auto simp: handle_frame_def with_device_def e_def split: if_splits prod.splits)
  with False send_nack_pieces [OF ne, of s "fr_sequence f" "fr_command f"] ne
    response_core(2) [of s "fr_sequence f" "fr_command f" e]
  show ?thesis unfolding code by (subst if_not_P [OF False]) simp
qed

end
