(* ===== verification/Update_Service.thy ===== *)
theory Update_Service
  imports Update_Protocol_Safety
begin

text \<open>
  The update service (\<^verbatim>\<open>update_service.c\<close>): after a reset it waits a bounded time for a HELLO
  frame, then runs the update protocol on the received bytes until the host has finished, aborted
  or reset the session, or until it falls silent. A session that ends any other way than with
  success or a reset request is aborted before booting goes on.

  The pointers of the configuration are values here, so a valid configuration is one by
  construction; the refresh of the watchdog is not modelled. The reset callback and its context
  are parameters.
\<close>

section \<open>Types\<close>

abbreviation UPDATE_SERVICE_DEFAULT_ENTRY_IDLE_POLLS :: u32 where
  "UPDATE_SERVICE_DEFAULT_ENTRY_IDLE_POLLS \<equiv> 800000"
abbreviation UPDATE_SERVICE_DEFAULT_ENTRY_MAX_BYTES :: u32 where
  "UPDATE_SERVICE_DEFAULT_ENTRY_MAX_BYTES \<equiv> of_nat (UPDATE_PROTOCOL_MAX_FRAME_SIZE * 2)"
abbreviation UPDATE_SERVICE_DEFAULT_FRAME_BYTE_TIMEOUT_POLLS :: u32 where
  "UPDATE_SERVICE_DEFAULT_FRAME_BYTE_TIMEOUT_POLLS \<equiv> 200000"
abbreviation UPDATE_SERVICE_DEFAULT_MAX_FRAME_TIMEOUTS :: u32 where
  "UPDATE_SERVICE_DEFAULT_MAX_FRAME_TIMEOUTS \<equiv> 3"

datatype update_service_result =
    UPDATE_SERVICE_RESULT_BOOT_CONTINUE
  | UPDATE_SERVICE_RESULT_RESET_REQUESTED
  | UPDATE_SERVICE_RESULT_RECOVERY_REQUESTED

datatype update_service_entry_status =
    UPDATE_SERVICE_ENTRY_NO_HELLO
  | UPDATE_SERVICE_ENTRY_HELLO

record ('w, 'r, 'x) update_service_config =
  sc_flash :: "host_context boot_flash"
  sc_public_key :: bytes
  sc_install_options :: update_install_options
  sc_reader :: "'r getc"
  sc_write :: "'w \<Rightarrow> bytes \<Rightarrow> update_protocol_status \<times> 'w"
  sc_write_context :: 'w
  sc_reset :: "('x \<Rightarrow> 'x) option"
  sc_reset_context :: 'x
  sc_entry_idle_polls :: u32
  sc_entry_max_bytes :: u32
  sc_frame_byte_timeout_polls :: u32
  sc_max_frame_timeouts :: u32

section \<open>Waiting for the host\<close>

definition config_or_default :: "u32 \<Rightarrow> u32 \<Rightarrow> u32" where
  "config_or_default value default_value = (if value \<noteq> 0 then value else default_value)"

definition frame_is_initial_hello :: "update_protocol_frame \<Rightarrow> bool" where
  "frame_is_initial_hello f \<longleftrightarrow>
     fr_version f = UPDATE_PROTOCOL_VERSION \<and> fr_command f = UPDATE_PROTOCOL_CMD_HELLO \<and>
     fr_sequence f = 0 \<and> fr_payload_length f = 0"

text \<open>The entry parser after a completed or refused frame that was no initial HELLO is reset.\<close>

definition entry_parser_next :: "update_protocol_parse_status \<Rightarrow> update_protocol_parser \<Rightarrow> update_protocol_parser" where
  "entry_parser_next parse_status p =
     (if parse_status = UPDATE_PROTOCOL_PARSE_NEED_MORE then p else update_protocol_parser_init)"

definition hello_ready :: "update_protocol_parse_status \<Rightarrow> update_protocol_parser \<Rightarrow> bool" where
  "hello_ready parse_status p \<longleftrightarrow>
     parse_status = UPDATE_PROTOCOL_PARSE_FRAME_READY \<and> frame_is_initial_hello (ps_frame p)"

function wait_hello_loop ::
    "'r getc \<Rightarrow> u32 \<Rightarrow> u32 \<Rightarrow> u32 \<Rightarrow> u32 \<Rightarrow> update_protocol_parser \<Rightarrow> 'r \<Rightarrow>
     update_service_entry_status \<times> update_protocol_parser \<times> 'r" where
  "wait_hello_loop getc max_idle_polls max_bytes idle_polls byte_count p r =
     (if idle_polls < max_idle_polls \<and> byte_count < max_bytes
      then (case byte_reader_getc_nonblocking getc r of
              (read_status, b, r1) \<Rightarrow>
                if read_status = BYTE_READER_NO_DATA
                then wait_hello_loop getc max_idle_polls max_bytes (idle_polls + 1) byte_count p r1
                else if read_status \<noteq> BYTE_READER_OK then (UPDATE_SERVICE_ENTRY_NO_HELLO, p, r1)
                else (case update_protocol_parser_push p b of
                        (parse_status, p1) \<Rightarrow>
                          if hello_ready parse_status p1 then (UPDATE_SERVICE_ENTRY_HELLO, p1, r1)
                          else wait_hello_loop getc max_idle_polls max_bytes 0 (byte_count + 1)
                                 (entry_parser_next parse_status p1) r1))
      else (UPDATE_SERVICE_ENTRY_NO_HELLO, p, r))"
  by pat_completeness auto

text \<open>The counters stay below their limits, so they do not wrap around.\<close>

lemma counter_step: "unat (m - (n + 1)) < unat (m - n)" if "n < m" for n m :: u32
proof -
  from that have "m - n \<noteq> 0" by auto
  then have "unat (m - n - 1) < unat (m - n)" by (simp add: measure_unat)
  then show ?thesis by (simp add: algebra_simps)
qed

termination wait_hello_loop
  by (relation "measures [\<lambda>(_, _, mb, _, n, _, _). unat (mb - n), \<lambda>(_, mi, _, n, _, _, _). unat (mi - n)]")
    (auto simp: counter_step)

declare wait_hello_loop.simps [simp del]

definition wait_for_binary_hello ::
    "('w, 'r, 'x) update_service_config \<Rightarrow> 'r \<Rightarrow> update_service_entry_status \<times> update_protocol_parser \<times> 'r" where
  "wait_for_binary_hello config r =
     wait_hello_loop (sc_reader config)
       (config_or_default (sc_entry_idle_polls config) UPDATE_SERVICE_DEFAULT_ENTRY_IDLE_POLLS)
       (config_or_default (sc_entry_max_bytes config) UPDATE_SERVICE_DEFAULT_ENTRY_MAX_BYTES)
       0 0 update_protocol_parser_init r"

section \<open>Running the protocol\<close>

definition service_session ::
    "'h crypto \<Rightarrow> ('w, 'r, 'x) update_service_config \<Rightarrow> ('h, 'w) update_protocol_session" where
  "service_session crypt config =
     update_protocol_session_init crypt (sc_flash config) (sc_public_key config) (sc_install_options config)
       (sc_write config) (sc_write_context config)"

definition accept_initial_hello ::
    "'h crypto \<Rightarrow> ('w, 'r, 'x) update_service_config \<Rightarrow> update_protocol_status \<times> ('h, 'w) update_protocol_session" where
  "accept_initial_hello crypt config =
     update_protocol_session_accept_initial_hello (service_session crypt config)"

definition abort_started_installer ::
    "('h, 'w) update_protocol_session \<Rightarrow> host_context \<Rightarrow> ('h, 'w) update_protocol_session \<times> host_context" where
  "abort_started_installer s c =
     (if up_installer_started s \<and> up_state s \<noteq> UPDATE_PROTOCOL_SESSION_FINISHED \<and>
         up_state s \<noteq> UPDATE_PROTOCOL_SESSION_ABORTED
      then (case update_installer_abort (up_installer s) c of
              (_, i, c') \<Rightarrow> (s\<lparr>up_installer := i, up_state := UPDATE_PROTOCOL_SESSION_ABORTED\<rparr>, c'))
      else (s, c))"

text \<open>
  The outcome of a service run: its result, the protocol session if one was opened (the structure
  is zero otherwise), the source, the device and the reset context.
\<close>

type_synonym ('h, 'w, 'r, 'x) service_outcome =
  "update_service_result \<times> ('h, 'w) update_protocol_session option \<times> 'r \<times> host_context \<times> 'x"

definition request_reset ::
    "('w, 'r, 'x) update_service_config \<Rightarrow> ('h, 'w) update_protocol_session \<Rightarrow> 'r \<Rightarrow> host_context \<Rightarrow>
     ('h, 'w, 'r, 'x) service_outcome" where
  "request_reset config s r c =
     (UPDATE_SERVICE_RESULT_RESET_REQUESTED, Some s, r, c,
      (case sc_reset config of None \<Rightarrow> sc_reset_context config | Some f \<Rightarrow> f (sc_reset_context config)))"

definition boot_continue ::
    "('w, 'r, 'x) update_service_config \<Rightarrow> ('h, 'w) update_protocol_session option \<Rightarrow> 'r \<Rightarrow> host_context \<Rightarrow>
     ('h, 'w, 'r, 'x) service_outcome" where
  "boot_continue config s r c = (UPDATE_SERVICE_RESULT_BOOT_CONTINUE, s, r, c, sc_reset_context config)"

definition abort_and_continue ::
    "('w, 'r, 'x) update_service_config \<Rightarrow> ('h, 'w) update_protocol_session \<Rightarrow> 'r \<Rightarrow> host_context \<Rightarrow>
     ('h, 'w, 'r, 'x) service_outcome" where
  "abort_and_continue config s r c =
     (case abort_started_installer s c of (s', c') \<Rightarrow> boot_continue config (Some s') r c')"

text \<open>
  What the loop does after one frame: \<open>Inl\<close> the next value of the timeout counter, or \<open>Inr\<close> the
  outcome of the run.
\<close>

definition after_frame ::
    "('w, 'r, 'x) update_service_config \<Rightarrow> u32 \<Rightarrow> update_protocol_status \<Rightarrow> ('h, 'w) update_protocol_session \<Rightarrow>
     'r \<Rightarrow> host_context \<Rightarrow> u32 + ('h, 'w, 'r, 'x) service_outcome" where
  "after_frame config frame_timeouts protocol_status s r c =
     (if protocol_status = UPDATE_PROTOCOL_STATUS_TIMEOUT
      then (if frame_timeouts + 1 \<ge> config_or_default (sc_max_frame_timeouts config)
                 UPDATE_SERVICE_DEFAULT_MAX_FRAME_TIMEOUTS
            then Inr (abort_and_continue config s r c)
            else Inl (frame_timeouts + 1))
      else if protocol_status \<noteq> UPDATE_PROTOCOL_STATUS_OK
      then (if up_state s = UPDATE_PROTOCOL_SESSION_FINISHED \<or> up_state s = UPDATE_PROTOCOL_SESSION_RESET_REQUESTED
            then Inr (request_reset config s r c)
            else Inr (abort_and_continue config s r c))
      else (case up_state s of
              UPDATE_PROTOCOL_SESSION_FINISHED \<Rightarrow> Inr (request_reset config s r c)
            | UPDATE_PROTOCOL_SESSION_RESET_REQUESTED \<Rightarrow> Inr (request_reset config s r c)
            | UPDATE_PROTOCOL_SESSION_ABORTED \<Rightarrow> Inr (boot_continue config (Some s) r c)
            | UPDATE_PROTOCOL_SESSION_FAILED \<Rightarrow> Inr (abort_and_continue config s r c)
            | UPDATE_PROTOCOL_SESSION_IDLE \<Rightarrow> Inl 0
            | UPDATE_PROTOCOL_SESSION_UPDATING \<Rightarrow> Inl 0))"

text \<open>The loop goes on as long as the host sends frames, so it is a partial function.\<close>

partial_function (option) run_update_protocol ::
    "'h crypto \<Rightarrow> ('w, 'r, 'x) update_service_config \<Rightarrow> u32 \<Rightarrow> ('h, 'w) update_protocol_session \<Rightarrow> 'r \<Rightarrow>
     host_context \<Rightarrow> ('h, 'w, 'r, 'x) service_outcome option" where
  [code]: "run_update_protocol crypt config frame_timeouts s r c =
     (case update_protocol_session_process_reader crypt (sc_reader config) s r
             (config_or_default (sc_frame_byte_timeout_polls config) UPDATE_SERVICE_DEFAULT_FRAME_BYTE_TIMEOUT_POLLS) c of
        (protocol_status, s1, r1, c1) \<Rightarrow>
          (case after_frame config frame_timeouts protocol_status s1 r1 c1 of
             Inl frame_timeouts' \<Rightarrow> run_update_protocol crypt config frame_timeouts' s1 r1 c1
           | Inr result \<Rightarrow> Some result))"

definition update_service_run_after_hello ::
    "'h crypto \<Rightarrow> ('w, 'r, 'x) update_service_config \<Rightarrow> 'r \<Rightarrow> host_context \<Rightarrow>
     ('h, 'w, 'r, 'x) service_outcome option" where
  "update_service_run_after_hello crypt config r c =
     (case accept_initial_hello crypt config of
        (status, s) \<Rightarrow>
          if status \<noteq> UPDATE_PROTOCOL_STATUS_OK then Some (boot_continue config (Some s) r c)
          else run_update_protocol crypt config 0 s r c)"

definition update_service_run ::
    "'h crypto \<Rightarrow> ('w, 'r, 'x) update_service_config \<Rightarrow> 'r \<Rightarrow> host_context \<Rightarrow>
     ('h, 'w, 'r, 'x) service_outcome option" where
  "update_service_run crypt config r c =
     (case wait_for_binary_hello config r of
        (entry, _, r1) \<Rightarrow>
          if entry \<noteq> UPDATE_SERVICE_ENTRY_HELLO
          then Some (boot_continue config None r1 c)
          else update_service_run_after_hello crypt config r1 c)"

end
