(* ===== verification/Update_Service_Safety.thy ===== *)
theory Update_Service_Safety
  imports Update_Service
begin

text \<open>
  Properties of the update service: it returns once the host falls silent, whatever the host has
  sent before; the device stays bootable; and booting goes on only with the update session closed.
\<close>

section \<open>Sources that run dry\<close>

text \<open>Every byte delivered lowers the measure \<open>m\<close>, and no call raises it.\<close>

definition source_drains :: "'r getc \<Rightarrow> ('r \<Rightarrow> nat) \<Rightarrow> bool" where
  "source_drains getc m \<longleftrightarrow>
     (\<forall>r status b r'. getc r = (status, b, r') \<longrightarrow> m r' \<le> m r \<and> (status = BYTE_READER_OK \<longrightarrow> m r' < m r))"

lemma getc_polls_drains:
  assumes src: "source_drains getc m" and run: "getc_polls getc r n = (status, b, r')"
  shows "m r' \<le> m r \<and> (status = BYTE_READER_OK \<longrightarrow> m r' < m r)"
  using run
proof (induction n arbitrary: r)
  case (Suc n)
  obtain st1 b1 r1 where one: "getc r = (st1, b1, r1)" by (metis prod_cases3)
  with src have m: "m r1 \<le> m r \<and> (st1 = BYTE_READER_OK \<longrightarrow> m r1 < m r)" by (simp add: source_drains_def)
  from Suc.prems one have "st1 = BYTE_READER_NO_DATA \<and> getc_polls getc r1 n = (status, b, r') \<or>
      (status, b, r') = (st1, b1, r1)"
    by (auto simp: byte_reader_getc_nonblocking_def split: if_splits)
  with Suc.IH [of r1] m show ?case by auto
qed simp

lemma timeout_not_ok: "fst (reader_timeout s) \<noteq> UPDATE_PROTOCOL_STATUS_OK"
  by (simp add: reader_timeout_def Let_def split: option.split prod.split)

lemma process_reader_drains:
  assumes src: "source_drains getc m" and run: "process_reader_loop crypt getc polls fuel s r c = (st, s', r', c')"
  shows "m r' \<le> m r \<and> (st = UPDATE_PROTOCOL_STATUS_OK \<longrightarrow> m r' < m r)"
  using run
proof (induction fuel arbitrary: s r)
  case 0
  obtain st1 b1 r1 where one: "byte_reader_getc_timeout getc r polls = (st1, b1, r1)" by (metis prod_cases3)
  with getc_polls_drains [OF src] have m: "m r1 \<le> m r"
    unfolding byte_reader_getc_timeout_def by blast
  from 0 one m timeout_not_ok [of s] show ?case
    by (subst (asm) process_reader_loop.simps) (auto split: if_splits prod.splits)
next
  case (Suc fuel)
  obtain st1 b1 r1 where one: "byte_reader_getc_timeout getc r polls = (st1, b1, r1)" by (metis prod_cases3)
  with getc_polls_drains [OF src] have m: "m r1 \<le> m r \<and> (st1 = BYTE_READER_OK \<longrightarrow> m r1 < m r)"
    unfolding byte_reader_getc_timeout_def by blast
  obtain ps p where push: "update_protocol_parser_push (up_parser s) b1 = (ps, p)" by fastforce
  note unfolded = Suc.prems [unfolded process_reader_loop.simps [of crypt getc polls "Suc fuel" s r c] one]
  show ?case
  proof (cases "st1 = BYTE_READER_OK \<and> ps = UPDATE_PROTOCOL_PARSE_NEED_MORE")
    case True
    with unfolded push Suc.IH [of "s\<lparr>up_parser := p\<rparr>" r1] m show ?thesis by auto
  next
    case False
    with unfolded push m timeout_not_ok [of s] show ?thesis by (auto split: if_splits prod.splits)
  qed
qed

section \<open>The service returns\<close>

lemma after_frame_goes_on:
  assumes "after_frame config n st s r c = Inl n'"
  shows "st = UPDATE_PROTOCOL_STATUS_OK \<and> n' = 0 \<or>
    st = UPDATE_PROTOCOL_STATUS_TIMEOUT \<and> n' = n + 1 \<and>
    n' < config_or_default (sc_max_frame_timeouts config) UPDATE_SERVICE_DEFAULT_MAX_FRAME_TIMEOUTS"
  using assms
  by (auto simp: after_frame_def split: if_splits update_protocol_session_state.splits)

lemma config_or_default_pos: "0 < d \<Longrightarrow> 0 < config_or_default v d"
  by (simp add: config_or_default_def word_neq_0_conv)

lemma run_returns:
  assumes src: "source_drains (sc_reader config) m"
    and n: "n < config_or_default (sc_max_frame_timeouts config) UPDATE_SERVICE_DEFAULT_MAX_FRAME_TIMEOUTS"
  shows "\<exists>out. run_update_protocol crypt config n s r c = Some out"
  using n
proof (induction "(r, n)" arbitrary: r n s c rule: wf_induct_rule [OF wf_measures [of "[\<lambda>(r, n). m r,
      \<lambda>(r, n). unat (config_or_default (sc_max_frame_timeouts config) UPDATE_SERVICE_DEFAULT_MAX_FRAME_TIMEOUTS - n)]"]])
  case (1 r n)
  let ?max = "config_or_default (sc_max_frame_timeouts config) UPDATE_SERVICE_DEFAULT_MAX_FRAME_TIMEOUTS"
  obtain st s1 r1 c1 where fr: "update_protocol_session_process_reader crypt (sc_reader config) s r
      (config_or_default (sc_frame_byte_timeout_polls config) UPDATE_SERVICE_DEFAULT_FRAME_BYTE_TIMEOUT_POLLS) c =
      (st, s1, r1, c1)" by (metis prod_cases4)
  then have m: "m r1 \<le> m r" "st = UPDATE_PROTOCOL_STATUS_OK \<Longrightarrow> m r1 < m r"
    using process_reader_drains [OF src] unfolding update_protocol_session_process_reader_def by blast+
  show ?case
  proof (cases "after_frame config n st s1 r1 c1")
    case (Inl n')
    have "\<exists>out. run_update_protocol crypt config n' s1 r1 c1 = Some out"
      by (rule 1(1)) (use after_frame_goes_on [OF Inl] m 1(2) counter_step [of n ?max] config_or_default_pos in auto)
    with fr Inl show ?thesis by (subst run_update_protocol.simps) simp
  next
    case (Inr out)
    with fr have "run_update_protocol crypt config n s r c = Some out"
      by (subst run_update_protocol.simps) simp
    then show ?thesis ..
  qed
qed

section \<open>The service keeps the device bootable\<close>

lemma reader_timeout_keeps:
  assumes "protocol_inv crypt pk act old s c"
  shows "protocol_inv crypt pk act old (snd (reader_timeout s)) c"
  using assms
  by (auto simp: reader_timeout_def Let_def inv_state inv_responses case_prod_unfold split: option.split)

lemma process_reader_keeps:
  assumes "protocol_inv crypt pk act old s c"
    and "process_reader_loop crypt getc polls fuel s r c = (st, s', r', c')"
  shows "protocol_inv crypt pk act old s' c'"
  using assms
proof (induction fuel arbitrary: s r)
  case 0
  obtain st1 b1 r1 where one: "byte_reader_getc_timeout getc r polls = (st1, b1, r1)" by (metis prod_cases3)
  with 0 reader_timeout_keeps [OF 0(1)] show ?case
    by (subst (asm) process_reader_loop.simps) (auto simp: inv_state split: if_splits prod.splits)
next
  case (Suc fuel)
  obtain st1 b1 r1 where one: "byte_reader_getc_timeout getc r polls = (st1, b1, r1)" by (metis prod_cases3)
  obtain ps p where push: "update_protocol_parser_push (up_parser s) b1 = (ps, p)" by fastforce
  have inv: "protocol_inv crypt pk act old (s\<lparr>up_parser := p\<rparr>) c" using Suc.prems(1) by (simp add: inv_state)
  note unfolded = Suc.prems(2) [unfolded process_reader_loop.simps [of crypt getc polls "Suc fuel" s r c] one]
  show ?case
  proof (cases "st1 = BYTE_READER_OK")
    case True
    with unfolded push Suc.IH [OF inv] parsed_keeps [OF inv] show ?thesis
      by (auto split: if_splits prod.splits)
  next
    case False
    with unfolded Suc.prems(1) reader_timeout_keeps [OF Suc.prems(1)] show ?thesis
      by (auto simp: inv_state split: if_splits prod.splits)
  qed
qed

lemma abort_started_keeps:
  assumes inv: "protocol_inv crypt pk act old s c" and run: "abort_started_installer s c = (s', c')"
  shows "protocol_inv crypt pk act old s' c'"
proof -
  obtain st i c1 where ab: "update_installer_abort (up_installer s) c = (st, i, c1)" by (metis prod_cases3)
  have "protocol_inv crypt pk act old (s\<lparr>up_installer := i\<rparr>) c1" if "up_installer_started s"
    using call_keeps [OF inv that] ab by blast
  with run ab inv show ?thesis
    by (auto simp: abort_started_installer_def inv_state split: if_splits)
qed

section \<open>Booting goes on with the session closed\<close>

definition installer_open :: "'h update_installer_session \<Rightarrow> bool" where
  "installer_open i \<longleftrightarrow>
     ses_state i \<in> {UPDATE_INSTALL_SESSION_INITIALIZED, UPDATE_INSTALL_SESSION_WRITING,
                    UPDATE_INSTALL_SESSION_PAYLOAD_COMPLETE}"

definition closed_inv :: "('h, 'w) update_protocol_session \<Rightarrow> bool" where
  "closed_inv s \<longleftrightarrow>
     (up_installer_started s \<and> up_state s \<in> {UPDATE_PROTOCOL_SESSION_FINISHED, UPDATE_PROTOCOL_SESSION_ABORTED} \<longrightarrow>
      \<not> installer_open (up_installer s))"

lemma abort_closes: "\<not> installer_open (fst (snd (update_installer_abort i c)))"
  by (auto simp: update_installer_abort_def Let_def installer_open_def fail_session_def
      split: prod.split option.split boot_metadata_status.split sum.split)

lemma finish_closes:
  "fst (update_installer_finish crypt i c) = UPDATE_INSTALL_OK \<Longrightarrow>
   \<not> installer_open (fst (snd (update_installer_finish crypt i c)))"
  by (auto simp: update_installer_finish_def Let_def installer_open_def fail_session_def
      split: if_splits prod.splits)

lemma closed_core: "session_core_part s' = session_core_part s \<Longrightarrow> closed_inv s' = closed_inv s"
  by (simp add: closed_inv_def session_core_part_def)

lemmas closed_responses = closed_core [OF response_core(2)] closed_core [OF response_core(3)]
  closed_core [OF query_core(1)] closed_core [OF query_core(2)] closed_core [OF query_core(3)]

lemma closed_state:
  "st \<notin> {UPDATE_PROTOCOL_SESSION_FINISHED, UPDATE_PROTOCOL_SESSION_ABORTED} \<Longrightarrow> closed_inv (s\<lparr>up_state := st\<rparr>)"
  "st \<notin> {UPDATE_PROTOCOL_SESSION_FINISHED, UPDATE_PROTOCOL_SESSION_ABORTED} \<Longrightarrow>
     closed_inv (s\<lparr>up_state := st, up_update_payload_offset := k\<rparr>)"
  "\<not> installer_open i \<Longrightarrow> closed_inv (s\<lparr>up_installer := i\<rparr>)"
  "\<not> installer_open i \<Longrightarrow> closed_inv (s\<lparr>up_installer := i, up_state := q\<rparr>)"
  "up_state s = UPDATE_PROTOCOL_SESSION_UPDATING \<Longrightarrow>
     closed_inv (s\<lparr>up_installer := i, up_update_payload_offset := k\<rparr>)"
  "\<not> up_installer_started s \<Longrightarrow> closed_inv s"
  "closed_inv (s\<lparr>up_parser := p\<rparr>) = closed_inv s"
  "closed_inv (s\<lparr>up_last_status := l\<rparr>) = closed_inv s"
  "closed_inv (advance_sequence s) = closed_inv s"
  by (auto simp: closed_inv_def advance_sequence_def)

lemma closed_calls:
  assumes inv: "closed_inv s"
  shows "closed_inv (fst (snd (handle_begin_update crypt s c f)))"
    "closed_inv (fst (snd (handle_write_block crypt s c f)))"
    "closed_inv (fst (snd (handle_finish_update crypt s c f)))"
    "closed_inv (fst (snd (handle_abort_update s c f)))"
  using inv
  by (simp_all add: handle_begin_update_def handle_write_block_def handle_finish_update_def
      handle_abort_update_def closed_responses closed_state abort_closes finish_closes case_prod_unfold Let_def)

lemma closed_frame:
  assumes "closed_inv s"
  shows "closed_inv (fst (snd (handle_frame crypt s c f)))"
  using assms closed_calls [OF assms]
  by (simp add: handle_frame_def execute_frame_def handle_reset_def closed_responses closed_state
      case_prod_unfold)

lemma closed_parsed:
  assumes "closed_inv s"
  shows "closed_inv (fst (snd (handle_parsed crypt s c ps)))"
  using assms closed_frame [OF assms]
  by (simp add: handle_parsed_def handle_parse_error_def closed_responses Let_def case_prod_unfold)

lemma closed_process_reader:
  assumes "closed_inv s"
  shows "closed_inv (fst (snd (process_reader_loop crypt getc polls fuel s r c)))"
  using assms
proof (induction fuel arbitrary: s r)
  case 0
  then show ?case
    by (subst process_reader_loop.simps)
      (simp add: reader_timeout_def Let_def closed_responses closed_state case_prod_unfold split: option.split)
next
  case (Suc fuel)
  then show ?case
    by (subst process_reader_loop.simps)
      (simp add: reader_timeout_def Let_def closed_responses closed_state closed_parsed case_prod_unfold
        split: option.split)
qed

text \<open>The outcomes of the service: who may see the device, and in which state the session is.\<close>

definition outcome_closed :: "('h, 'w, 'r, 'x) service_outcome \<Rightarrow> bool" where
  "outcome_closed out \<longleftrightarrow>
     (fst out = UPDATE_SERVICE_RESULT_BOOT_CONTINUE \<longrightarrow>
      (case fst (snd out) of None \<Rightarrow> True
       | Some s \<Rightarrow> up_installer_started s \<longrightarrow> \<not> installer_open (up_installer s)))"

lemma abort_and_continue_closed:
  "closed_inv s \<Longrightarrow> outcome_closed (abort_and_continue config s r c)"
  by (auto simp: outcome_closed_def abort_and_continue_def boot_continue_def abort_started_installer_def
      closed_inv_def abort_closes case_prod_unfold)

lemma request_reset_closed: "outcome_closed (request_reset config s r c)"
  by (simp add: outcome_closed_def request_reset_def)

lemma aborted_closed:
  "closed_inv s \<Longrightarrow> up_state s = UPDATE_PROTOCOL_SESSION_ABORTED \<Longrightarrow> outcome_closed (boot_continue config (Some s) r c)"
  by (simp add: outcome_closed_def boot_continue_def closed_inv_def)

lemma after_frame_closed:
  assumes "closed_inv s" "after_frame config n st s r c = Inr out"
  shows "outcome_closed out"
  using assms
  by (auto simp: after_frame_def abort_and_continue_closed request_reset_closed aborted_closed
      split: if_splits update_protocol_session_state.splits)

section \<open>The loop of the service\<close>

text \<open>Invariant rule: \<open>P\<close> holds of the session and the device at the head of the loop, \<open>Q\<close> of every outcome.\<close>

lemma run_update_protocol_rule:
  assumes run: "run_update_protocol crypt config n s r c = Some out" and start: "P s c"
    and frame: "\<And>s r c polls st s' r' c'. P s c \<Longrightarrow>
      update_protocol_session_process_reader crypt (sc_reader config) s r polls c = (st, s', r', c') \<Longrightarrow> P s' c'"
    and final: "\<And>n st s r c out. P s c \<Longrightarrow> after_frame config n st s r c = Inr out \<Longrightarrow> Q out"
  shows "Q out"
proof -
  have "crypt = crypt \<longrightarrow> config = config \<longrightarrow> P s c \<longrightarrow> Q out"
    by (rule run_update_protocol.raw_induct [where P = "\<lambda>cr cf n s r c out. cr = crypt \<longrightarrow> cf = config \<longrightarrow> P s c \<longrightarrow> Q out",
        OF _ run])
      (auto split: prod.splits sum.splits dest: frame final)
  with start show ?thesis by simp
qed

lemma accept_hello_core:
  "session_core_part ((snd (accept_initial_hello crypt config))\<lparr>up_expected_sequence := 0\<rparr>) =
   session_core_part (service_session crypt config)"
proof -
  let ?s = "service_session crypt config"
  have "up_expected_sequence ?s = 0" by (simp add: service_session_def update_protocol_session_init_def)
  with core_part_members [OF response_core(4), of ?s 0 UPDATE_PROTOCOL_CMD_HELLO] show ?thesis
    by (simp add: accept_initial_hello_def update_protocol_session_accept_initial_hello_def session_core_part_def
        advance_sequence_def case_prod_unfold)
qed

lemma accept_hello_closed: "closed_inv (snd (accept_initial_hello crypt config))"
proof -
  let ?s = "snd (accept_initial_hello crypt config)"
  have "up_installer_started (?s\<lparr>up_expected_sequence := 0\<rparr>) = False"
    using core_part_members(9) [OF accept_hello_core, of crypt config]
    by (simp add: service_session_def update_protocol_session_init_def)
  then show ?thesis by (simp add: closed_inv_def)
qed

lemma accept_hello_keeps:
  assumes "protocol_inv crypt pk act old (service_session crypt config) c"
  shows "protocol_inv crypt pk act old (snd (accept_initial_hello crypt config)) c"
proof -
  have "protocol_inv crypt pk act old ((snd (accept_initial_hello crypt config))\<lparr>up_expected_sequence := 0\<rparr>) c"
    using protocol_inv_core [OF accept_hello_core] assms by blast
  then show ?thesis by (simp add: protocol_inv_def)
qed

lemma service_after_hello_returns:
  assumes "source_drains (sc_reader config) m"
  shows "\<exists>out. update_service_run_after_hello crypt config r c = Some out"
proof -
  have "\<exists>out. run_update_protocol crypt config 0 (snd (accept_initial_hello crypt config)) r c = Some out"
    by (rule run_returns [OF assms]) (simp add: config_or_default_pos)
  then show ?thesis by (simp add: update_service_run_after_hello_def boot_continue_def case_prod_unfold)
qed

text \<open>An outcome whose device is as good as before.\<close>

definition outcome_ok ::
    "'h crypto \<Rightarrow> bytes \<Rightarrow> boot_slot_descriptor \<Rightarrow> host_context \<Rightarrow> ('h, 'w, 'r, 'x) service_outcome \<Rightarrow> bool" where
  "outcome_ok crypt pk act old out \<longleftrightarrow>
     device_ok crypt pk act old (fst (snd (snd (snd out)))) \<and> outcome_closed out"

lemma after_frame_ok:
  assumes inv: "protocol_inv crypt pk act old s c" and closed: "closed_inv s" and run: "after_frame config n st s r c = Inr out"
  shows "outcome_ok crypt pk act old out"
proof -
  obtain s1 c1 where ab: "abort_started_installer s c = (s1, c1)" by fastforce
  from inv abort_started_keeps [OF inv ab] have "device_ok crypt pk act old c" "device_ok crypt pk act old c1"
    by (auto simp: protocol_inv_def)
  with run ab have "device_ok crypt pk act old (fst (snd (snd (snd out))))"
    by (auto simp: after_frame_def abort_and_continue_def boot_continue_def request_reset_def
        split: if_splits update_protocol_session_state.splits)
  with after_frame_closed [OF closed run] show ?thesis by (simp add: outcome_ok_def)
qed

lemma frame_ok:
  assumes inv: "protocol_inv crypt pk act old s c \<and> closed_inv s"
    and run: "update_protocol_session_process_reader crypt getc s r polls c = (st, s', r', c')"
  shows "protocol_inv crypt pk act old s' c' \<and> closed_inv s'"
proof -
  note loop = run [unfolded update_protocol_session_process_reader_def]
  from process_reader_keeps [OF conjunct1 [OF inv] loop] closed_process_reader [OF conjunct2 [OF inv]] loop
  show ?thesis by (metis fst_conv snd_conv)
qed

lemma service_after_hello_ok:
  assumes inv: "protocol_inv crypt pk act old (service_session crypt config) c"
    and run: "update_service_run_after_hello crypt config r c = Some out"
  shows "outcome_ok crypt pk act old out"
proof -
  let ?s = "snd (accept_initial_hello crypt config)"
  have P: "protocol_inv crypt pk act old ?s c \<and> closed_inv ?s"
    using accept_hello_keeps [OF inv] accept_hello_closed by blast
  note unfolded = run [unfolded update_service_run_after_hello_def case_prod_unfold]
  show ?thesis
  proof (cases "fst (accept_initial_hello crypt config) = UPDATE_PROTOCOL_STATUS_OK")
    case False
    with unfolded have out: "out = boot_continue config (Some ?s) r c" by simp
    have "\<not> up_installer_started ?s"
      using core_part_members(9) [OF accept_hello_core, of crypt config]
      by (simp add: service_session_def update_protocol_session_init_def)
    with out P show ?thesis by (simp add: outcome_ok_def boot_continue_def outcome_closed_def protocol_inv_def)
  next
    case True
    with unfolded have loop: "run_update_protocol crypt config 0 ?s r c = Some out" by simp
    show ?thesis
      by (rule run_update_protocol_rule [where P = "\<lambda>s c. protocol_inv crypt pk act old s c \<and> closed_inv s"
          and Q = "outcome_ok crypt pk act old", OF loop P frame_ok])
        (auto intro: after_frame_ok)
  qed
qed

lemma service_run_ok:
  assumes inv: "protocol_inv crypt pk act old (service_session crypt config) c"
    and run: "update_service_run crypt config r c = Some out"
  shows "outcome_ok crypt pk act old out"
proof -
  obtain entry p r1 where wait: "wait_for_binary_hello config r = (entry, p, r1)" by (metis prod_cases3)
  show ?thesis
  proof (cases "entry = UPDATE_SERVICE_ENTRY_HELLO")
    case True
    with run wait service_after_hello_ok [OF inv] show ?thesis by (simp add: update_service_run_def)
  next
    case False
    with run wait have "out = boot_continue config None r1 c" by (simp add: update_service_run_def)
    with inv show ?thesis by (simp add: outcome_ok_def outcome_closed_def boot_continue_def protocol_inv_def)
  qed
qed

lemma service_returns:
  assumes "source_drains (sc_reader config) m"
  shows "\<exists>out. update_service_run crypt config r c = Some out"
proof -
  obtain entry p r1 where wait: "wait_for_binary_hello config r = (entry, p, r1)" by (metis prod_cases3)
  from service_after_hello_returns [OF assms, of crypt r1 c] wait show ?thesis
    by (auto simp: update_service_run_def boot_continue_def)
qed

section \<open>Properties\<close>

text \<open>
  C21. The update service ends when the host does: with any source that runs dry, whatever bytes it
  delivers before and whatever the device does, the service returns.
\<close>

theorem service_terminates:
  assumes "source_drains (sc_reader config) m"
  shows "\<exists>result s r' c' x. update_service_run crypt config r c = Some (result, s, r', c', x)"
  using service_returns [OF assms, of crypt r c] by (metis prod_cases5)

text \<open>
  A run of the update service never bricks the device: with a readable journal and an acceptable,
  authentic image in the active slot, the service returns once the source has run dry; the active
  slot then has its contents, a reset enters a slot with an acceptable, authentic image, and if the
  service lets the boot go on, the installer session is closed.
\<close>

theorem service_never_bricks:
  assumes src: "source_drains (sc_reader config) m"
    and flash: "flash_ops (sc_flash config) = writable_ops" "wf_flash (sc_flash config)" and good: "host_healthy c"
    and rec: "boot_metadata_recover_from_flash metadata_flash c = (BOOT_METADATA_OK, Some (rd, v))"
    and slot: "boot_slot_lookup (active_slot rd) = Some act"
    and boot: "slot_bootable crypt (sc_public_key config) (host_view c) act"
  shows "\<exists>result s r' c' x. update_service_run crypt config r c = Some (result, s, r', c', x) \<and>
    (\<forall>n. in_slot act n \<longrightarrow> host_view c' n = host_view c n) \<and>
    (result = UPDATE_SERVICE_RESULT_BOOT_CONTINUE \<longrightarrow>
      (\<forall>session. s = Some session \<longrightarrow> up_installer_started session \<longrightarrow> \<not> installer_open (up_installer session))) \<and>
    (\<exists>ev st effs c''. boot_sequence_execute crypt (sc_public_key config) c' csr = (ev, BOOT_JUMP st effs, c'') \<and>
      (\<exists>entered \<in> {boot_slot_a, boot_slot_b}. slot_bootable crypt (sc_public_key config) (host_view c'') entered \<and>
         last effs = ENTER (slot_entry (host_view c'') entered)))"
proof -
  let ?pk = "sc_public_key config"
  have ab: "act = boot_slot_a \<or> act = boot_slot_b" using slot by (auto simp: boot_slot_lookup_Some)
  have inv: "protocol_inv crypt ?pk act c (service_session crypt config) c"
    unfolding service_session_def by (rule protocol_inv_init [OF flash good rec slot])
  obtain out where run: "update_service_run crypt config r c = Some out" using service_returns [OF src] by blast
  note ok = service_run_ok [OF inv run]
  obtain result s r' c' x where out: "out = (result, s, r', c', x)" by (metis prod_cases5)
  with ok have dev: "device_ok crypt ?pk act c c'" and closed: "outcome_closed out" by (simp_all add: outcome_ok_def)
  from dev have "\<forall>n. in_slot act n \<longrightarrow> host_view c' n = host_view c n" by (simp add: device_ok_def)
  with run closed out device_ok_boots [OF dev ab boot] show ?thesis
    by (auto simp: outcome_closed_def split: option.splits)
qed

end
