(* ===== verification/Device_Life.thy ===== *)
theory Device_Life
  imports Update_Service_Safety Boot_Confirmation Boot_Policy
begin

text \<open>
  The life of a device: update sessions, resets and confirmations in any order, each of them cut
  short at any point. The device stays bootable all along. An update that is interrupted while
  the journal says WRITING blocks every later update.
\<close>

section \<open>Updates are refused while the journal holds an unfinished one\<close>

definition journal_busy :: "host_context \<Rightarrow> bool" where
  "journal_busy c \<longleftrightarrow>
     (\<exists>r. journal_record c r \<and> state r \<noteq> BOOT_METADATA_STATE_CONFIRMED \<and> state r \<noteq> BOOT_METADATA_STATE_REJECTED_INVALID)"

definition blocked :: "('h, 'w) update_protocol_session \<Rightarrow> bool" where
  "blocked s \<longleftrightarrow> flash_ops (up_flash s) = writable_ops \<and> wf_flash (up_flash s) \<and> \<not> up_installer_started s"

lemma init_refused:
  assumes flash: "flash_ops flash = writable_ops" "wf_flash flash" and good: "host_healthy c" and busy: "journal_busy c"
  shows "fst (update_installer_session_init crypt flash pk options res c) =
    (if options_are_valid flash options then UPDATE_INSTALL_ERR_ACTIVE_STATE else UPDATE_INSTALL_ERR_INVALID_ARGUMENT)"
proof -
  from busy obtain r where r: "journal_record c r" "state r \<noteq> BOOT_METADATA_STATE_CONFIRMED"
    "state r \<noteq> BOOT_METADATA_STATE_REJECTED_INVALID" by (auto simp: journal_busy_def)
  from r(1) obtain v where "boot_metadata_recover_from_flash metadata_flash c = (BOOT_METADATA_OK, Some (r, v))"
    by (rule journal_recordE)
  then have "boot_metadata_recover_from_flash flash c = (BOOT_METADATA_OK, Some (r, v))"
    using recover_host [OF flash(2,1) good] by simp
  with r show ?thesis
    by (simp add: update_installer_session_init_def Let_def start_metadata_def select_inactive_slot_def)
qed

lemma blocked_core: "session_core_part s' = session_core_part s \<Longrightarrow> blocked s' = blocked s"
  by (simp add: blocked_def session_core_part_def)

lemmas blocked_responses = blocked_core [OF response_core(2)] blocked_core [OF response_core(3)]
  blocked_core [OF query_core(1)] blocked_core [OF query_core(2)] blocked_core [OF query_core(3)]

lemma blocked_state:
  "blocked (s\<lparr>up_state := st\<rparr>) = blocked s" "blocked (s\<lparr>up_installer := i, up_state := st\<rparr>) = blocked s"
  "blocked (s\<lparr>up_parser := p\<rparr>) = blocked s" "blocked (s\<lparr>up_last_status := l\<rparr>) = blocked s"
  "blocked (advance_sequence s) = blocked s"
  by (simp_all add: blocked_def advance_sequence_def)

lemma blocked_begin:
  assumes s: "blocked s" and good: "host_healthy c" and busy: "journal_busy c"
  shows "blocked (fst (snd (handle_begin_update crypt s c f))) \<and> snd (snd (handle_begin_update crypt s c f)) = c"
proof -
  have "fst (update_installer_session_init crypt (up_flash s) (up_public_key s) (up_install_options s)
      (ses_result (up_installer s)) c) \<noteq> UPDATE_INSTALL_OK"
    using s by (simp add: blocked_def init_refused good busy)
  with s show ?thesis
    by (simp add: handle_begin_update_def blocked_responses blocked_state case_prod_unfold Let_def)
      (simp add: blocked_def)
qed

lemma blocked_frame:
  assumes s: "blocked s" and good: "host_healthy c" and busy: "journal_busy c"
  shows "blocked (fst (snd (handle_frame crypt s c f)))" "snd (snd (handle_frame crypt s c f)) = c"
proof -
  have ns: "\<not> up_installer_started s" using s by (simp add: blocked_def)
  show "blocked (fst (snd (handle_frame crypt s c f)))" "snd (snd (handle_frame crypt s c f)) = c"
    using s ns blocked_begin [OF assms, of crypt f]
    by (simp_all add: handle_frame_def execute_frame_def handle_reset_def handle_write_block_def handle_finish_update_def
        handle_abort_update_def blocked_responses blocked_state case_prod_unfold Let_def)
qed

lemma blocked_parsed:
  assumes s: "blocked s" and good: "host_healthy c" and busy: "journal_busy c"
  shows "blocked (fst (snd (handle_parsed crypt s c ps)))" "snd (snd (handle_parsed crypt s c ps)) = c"
  using s blocked_frame [OF assms]
  by (simp_all add: handle_parsed_def handle_parse_error_def blocked_responses Let_def case_prod_unfold)

lemma blocked_receive:
  assumes "blocked s" and good: "host_healthy c" and busy: "journal_busy c"
  shows "snd (receive crypt bs s c) = c"
  using assms(1)
proof (induction bs arbitrary: s)
  case (Cons b bs)
  obtain ps p where push: "update_protocol_parser_push (up_parser s) b = (ps, p)" by fastforce
  have b: "blocked (s\<lparr>up_parser := p\<rparr>)" using Cons.prems by (simp add: blocked_state)
  from push Cons.IH [OF b] Cons.IH [OF blocked_parsed(1) [OF b good busy]] blocked_parsed(2) [OF b good busy]
  show ?case by (simp add: update_protocol_session_process_byte_def case_prod_unfold)
qed simp

lemma blocked_process_reader:
  assumes "blocked s" and good: "host_healthy c" and busy: "journal_busy c"
  shows "blocked (fst (snd (process_reader_loop crypt getc polls fuel s r c))) \<and>
    snd (snd (snd (process_reader_loop crypt getc polls fuel s r c))) = c"
  using assms(1)
proof (induction fuel arbitrary: s r)
  case 0
  then show ?case
    by (subst (1 2) process_reader_loop.simps)
      (simp add: reader_timeout_def Let_def blocked_responses blocked_state case_prod_unfold split: option.split)
next
  case (Suc fuel)
  then show ?case
    by (subst (1 2) process_reader_loop.simps)
      (simp add: reader_timeout_def Let_def blocked_responses blocked_state blocked_parsed good busy case_prod_unfold
        split: option.split)
qed

lemma blocked_after_frame:
  assumes "blocked s" "after_frame config n st s r c = Inr out"
  shows "fst (snd (snd (snd out))) = c"
  using assms
  by (auto simp: after_frame_def abort_and_continue_def boot_continue_def request_reset_def
      abort_started_installer_def blocked_def split: if_splits update_protocol_session_state.splits)

lemma blocked_start: "flash_ops flash = writable_ops \<Longrightarrow> wf_flash flash \<Longrightarrow>
   blocked (update_protocol_session_init crypt flash pk options wr ctx)"
  by (simp add: blocked_def update_protocol_session_init_def)

lemma blocked_accept_hello:
  assumes "blocked (service_session crypt config)"
  shows "blocked (snd (accept_initial_hello crypt config))"
proof -
  have "blocked ((snd (accept_initial_hello crypt config))\<lparr>up_expected_sequence := 0\<rparr>)"
    using blocked_core [OF accept_hello_core] assms by blast
  then show ?thesis by (simp add: blocked_def)
qed

lemma blocked_after_hello:
  assumes flash: "flash_ops (sc_flash config) = writable_ops" "wf_flash (sc_flash config)"
    and good: "host_healthy c" and busy: "journal_busy c"
    and run: "update_service_run_after_hello crypt config r c = Some (result, s, r', c', x)"
  shows "c' = c"
proof -
  let ?s = "snd (accept_initial_hello crypt config)"
  have start: "blocked ?s \<and> c = c"
    by (simp add: blocked_accept_hello service_session_def blocked_start flash)
  note unfolded = run [unfolded update_service_run_after_hello_def case_prod_unfold]
  show ?thesis
  proof (cases "fst (accept_initial_hello crypt config) = UPDATE_PROTOCOL_STATUS_OK")
    case True
    with unfolded have loop: "run_update_protocol crypt config 0 ?s r c = Some (result, s, r', c', x)" by simp
    have "fst (snd (snd (snd (result, s, r', c', x)))) = c"
    proof (rule run_update_protocol_rule [where P = "\<lambda>s d. blocked s \<and> d = c"
          and Q = "\<lambda>out. fst (snd (snd (snd out))) = c", OF loop start])
      show "blocked s' \<and> c' = c" if "blocked s \<and> d = c"
        "update_protocol_session_process_reader crypt (sc_reader config) s r polls d = (st, s', r', c')"
        for s r d polls st s' r' c'
        using blocked_process_reader [of s c crypt "sc_reader config" polls "2 * UPDATE_PROTOCOL_MAX_FRAME_SIZE" r]
          good busy that by (simp add: update_protocol_session_process_reader_def)
    qed (auto dest: blocked_after_frame)
    then show ?thesis by simp
  next
    case False
    with unfolded show ?thesis by (simp add: boot_continue_def)
  qed
qed

lemma blocked_service:
  assumes flash: "flash_ops (sc_flash config) = writable_ops" "wf_flash (sc_flash config)"
    and good: "host_healthy c" and busy: "journal_busy c"
    and run: "update_service_run crypt config r c = Some (result, s, r', c', x)"
  shows "c' = c"
proof -
  obtain entry p r1 where wait: "wait_for_binary_hello config r = (entry, p, r1)" by (metis prod_cases3)
  with run blocked_after_hello [OF flash good busy, of crypt r1] show ?thesis
    by (auto simp: update_service_run_def boot_continue_def split: if_splits)
qed

section \<open>Events\<close>

text \<open>
  \<open>UPDATE_CUT\<close>: a session that the power cuts after the given bytes; \<open>UPDATE_SERVICE\<close>: a run of the
  update service that returns; \<open>RESET\<close>: a boot, with its reset cause flags; \<open>CONFIRM\<close>: the running
  application confirms a slot.
\<close>

datatype ('w, 'r, 'x) device_event =
    UPDATE_CUT "('w, 'r, 'x) update_service_config" bytes
  | UPDATE_SERVICE "('w, 'r, 'x) update_service_config" 'r
  | RESET u32
  | CONFIRM u32

fun run_event :: "'h crypto \<Rightarrow> bytes \<Rightarrow> ('w, 'r, 'x) device_event \<Rightarrow> host_context \<Rightarrow> host_context" where
  "run_event crypt pk (UPDATE_CUT config bs) c = snd (receive crypt bs (service_session crypt config) c)"
| "run_event crypt pk (UPDATE_SERVICE config r) c =
     (case update_service_run crypt config r c of None \<Rightarrow> c | Some (_, _, _, c', _) \<Rightarrow> c')"
| "run_event crypt pk (RESET csr) c = snd (snd (boot_sequence_execute crypt pk c csr))"
| "run_event crypt pk (CONFIRM running) c = snd (snd (boot_confirm_current_slot metadata_flash c running))"

definition device_life ::
    "'h crypto \<Rightarrow> bytes \<Rightarrow> ('w, 'r, 'x) device_event list \<Rightarrow> host_context \<Rightarrow> host_context" where
  "device_life crypt pk es c = fold (run_event crypt pk) es c"

definition config_ok :: "bytes \<Rightarrow> ('w, 'r, 'x) update_service_config \<Rightarrow> bool" where
  "config_ok pk config \<longleftrightarrow>
     flash_ops (sc_flash config) = writable_ops \<and> wf_flash (sc_flash config) \<and> sc_public_key config = pk"

fun event_ok :: "bytes \<Rightarrow> ('w, 'r, 'x) device_event \<Rightarrow> bool" where
  "event_ok pk (UPDATE_CUT config bs) = config_ok pk config"
| "event_ok pk (UPDATE_SERVICE config r) = config_ok pk config"
| "event_ok pk (RESET csr) = True"
| "event_ok pk (CONFIRM running) = True"

section \<open>The journal names bootable slots only\<close>

definition slot_good :: "'h crypto \<Rightarrow> bytes \<Rightarrow> (nat \<Rightarrow> u8) \<Rightarrow> u32 \<Rightarrow> bool" where
  "slot_good crypt pk mem n \<longleftrightarrow> (\<exists>slot. boot_slot_lookup n = Some slot \<and> slot_bootable crypt pk mem slot)"

definition record_good :: "'h crypto \<Rightarrow> bytes \<Rightarrow> (nat \<Rightarrow> u8) \<Rightarrow> boot_metadata_record \<Rightarrow> bool" where
  "record_good crypt pk mem r \<longleftrightarrow> slot_good crypt pk mem (active_slot r) \<and>
     (state r \<in> {BOOT_METADATA_STATE_CANDIDATE_READY, BOOT_METADATA_STATE_PENDING_TRIAL} \<longrightarrow>
      slot_good crypt pk mem (candidate_slot r))"

definition life_inv :: "'h crypto \<Rightarrow> bytes \<Rightarrow> host_context \<Rightarrow> bool" where
  "life_inv crypt pk c \<longleftrightarrow>
     host_healthy c \<and> (\<exists>r. journal_record c r \<and> record_good crypt pk (host_view c) r)"

lemma record_good_cong:
  assumes same: "\<And>n. in_flash n \<Longrightarrow> \<not> in_metadata n \<Longrightarrow> mem' n = mem n"
  shows "record_good crypt pk mem' r = record_good crypt pk mem r"
proof -
  have "slot_bootable crypt pk mem' slot = slot_bootable crypt pk mem slot"
    if "boot_slot_lookup n = Some slot" for n slot
  proof -
    have ab: "slot = boot_slot_a \<or> slot = boot_slot_b" using that by (auto simp: boot_slot_lookup_Some)
    show ?thesis using slot_bootable_cong [OF ab, of mem' mem] slot_parts_in_slot(4) [OF ab] same by blast
  qed
  then show ?thesis by (auto simp: record_good_def slot_good_def)
qed

lemma life_commit:
  assumes good: "host_healthy c" and r: "journal_record c r" "record_good crypt pk (host_view c) r"
    and nx: "record_good crypt pk (host_view c) nx"
    and run: "boot_metadata_commit metadata_flash c nx = (st, c')"
  shows "life_inv crypt pk c'"
proof -
  obtain r' where r': "journal_record c' r'" "r' = r \<or> r' = nx"
    using target_journal.commit_history_step [OF good _ run, of r] r(1) unfolding journal_record_def by blast
  have "record_good crypt pk (host_view c') x = record_good crypt pk (host_view c) x" for x
    by (rule record_good_cong) (use host_frame.commit_frame [OF metadata_flash_wf(2,1) run] in blast)
  with r r' nx target_journal.commit_good [OF good run] show ?thesis by (auto simp: life_inv_def)
qed

lemma life_boot:
  assumes inv: "life_inv crypt pk c"
  shows "life_inv crypt pk (snd (snd (boot_sequence_execute crypt pk c csr)))"
proof -
  let ?o = "boot_policy_options crypt pk metadata_flash csr"
  from inv obtain r where good: "host_healthy c" and r: "journal_record c r" "record_good crypt pk (host_view c) r"
    by (auto simp: life_inv_def)
  obtain st res c' where sel: "boot_slot_selection_select ?o c = (st, res, c')" by (metis prod_cases3)
  have "life_inv crypt pk c'"
    using sel
  proof (cases rule: select_cases)
    case (candidate m v res0)
    have rec: "boot_metadata_recover_from_flash metadata_flash c = (BOOT_METADATA_OK, Some (m, v))"
      using candidate(1) by simp
    note mr = journal_record_unique [OF journal_recordI [OF rec] r(1)]
    from candidate(3) show ?thesis
    proof (cases rule: trial_cases)
      case (trial slot ctx)
      with mr r(2) candidate(2) have "record_good crypt pk (host_view c) (trial_next ?o m)"
        by (auto simp: record_good_def trial_next_def)
      with trial life_commit [OF good r] show ?thesis by auto
    next
      case (fallback res1)
      then consider "c' = c" | s nx where "boot_metadata_commit metadata_flash c nx = (s, c')"
        "active_slot nx = active_slot m" "candidate_slot nx = candidate_slot m" "state nx \<in>
          {BOOT_METADATA_STATE_REJECTED_INVALID, BOOT_METADATA_STATE_PENDING_TRIAL}"
        by (auto simp: trial_tried_def)
      then show ?thesis
      proof cases
        case (2 s nx)
        have "record_good crypt pk (host_view c) nx" using 2 r(2) mr candidate(2) by (auto simp: record_good_def)
        then show ?thesis by (rule life_commit [OF good r _ 2(1)])
      qed (use inv in simp)
    qed
  qed (use inv in simp_all)
  with inv sel show ?thesis
    by (simp add: boot_sequence_execute_def Let_def boot_policy_select_eq reset_cause_capture_def case_prod_unfold)
qed

lemma life_confirm:
  assumes inv: "life_inv crypt pk c"
  shows "life_inv crypt pk (snd (snd (boot_confirm_current_slot metadata_flash c running)))"
proof -
  from inv obtain r where good: "host_healthy c" and r: "journal_record c r" "record_good crypt pk (host_view c) r"
    by (auto simp: life_inv_def)
  obtain st res c' where run: "boot_confirm_current_slot metadata_flash c running = (st, res, c')" by (metis prod_cases3)
  then have "life_inv crypt pk c'"
  proof (cases rule: confirm_cases)
    case (confirmed m v nx s)
    note mr = journal_record_unique [OF journal_recordI [OF confirmed(1)] r(1)]
    have "record_good crypt pk (host_view c) nx"
      using prepare_next_fields [OF confirmed(4)] r(2) mr confirmed(2,3) by (simp add: record_good_def)
    then show ?thesis by (rule life_commit [OF good r _ confirmed(5)])
  qed (use inv in simp_all)
  with run show ?thesis by simp
qed

lemma life_device:
  assumes inv: "life_inv crypt pk c" and free: "\<not> journal_busy c"
    and dev: "\<And>r act. journal_record c r \<Longrightarrow> boot_slot_lookup (active_slot r) = Some act \<Longrightarrow> device_ok crypt pk act c c'"
  shows "life_inv crypt pk c'"
proof -
  from inv obtain r act where r: "journal_record c r" and act: "boot_slot_lookup (active_slot r) = Some act"
    and boot: "slot_bootable crypt pk (host_view c) act"
    by (auto simp: life_inv_def record_good_def slot_good_def)
  have ab: "act = boot_slot_a \<or> act = boot_slot_b" using act by (auto simp: boot_slot_lookup_Some)
  from dev [OF r act] obtain r' where good: "host_healthy c'" and r': "journal_record c' r'"
    and act': "boot_slot_lookup (active_slot r') = Some act"
    and cand: "state r' \<in> {BOOT_METADATA_STATE_CANDIDATE_READY, BOOT_METADATA_STATE_PENDING_TRIAL} \<longrightarrow>
      journal_record c r' \<or> slot_good crypt pk (host_view c') (candidate_slot r')"
    and same: "\<forall>n. in_slot act n \<longrightarrow> host_view c' n = host_view c n"
    by (auto simp: device_ok_def slot_good_def)
  have "slot_good crypt pk (host_view c') (active_slot r')"
    using slot_bootable_cong [OF ab, of "host_view c'" "host_view c"] same boot act' by (auto simp: slot_good_def)
  moreover have "\<not> journal_record c r'" if "state r' \<in> {BOOT_METADATA_STATE_CANDIDATE_READY, BOOT_METADATA_STATE_PENDING_TRIAL}"
    using free that by (auto simp: journal_busy_def)
  ultimately show ?thesis using good r' cand by (auto simp: life_inv_def record_good_def)
qed

lemma service_session_inv:
  assumes "config_ok pk config" "host_healthy c" "journal_record c r" "boot_slot_lookup (active_slot r) = Some act"
  shows "protocol_inv crypt pk act c (service_session crypt config) c"
proof -
  from assms(3) obtain v where rec: "boot_metadata_recover_from_flash metadata_flash c = (BOOT_METADATA_OK, Some (r, v))"
    by (rule journal_recordE)
  from assms(1) protocol_inv_init [OF _ _ assms(2) rec assms(4)] show ?thesis
    by (auto simp: config_ok_def service_session_def)
qed

lemma life_after_hello:
  assumes inv: "life_inv crypt pk c" and cfg: "config_ok pk config"
    and run: "update_service_run_after_hello crypt config r c = Some (result, s, r', c', x)"
  shows "life_inv crypt pk c'"
proof (cases "journal_busy c")
  case True
  have "host_healthy c" using inv by (simp add: life_inv_def)
  with blocked_after_hello [OF _ _ _ True run] cfg inv show ?thesis by (simp add: config_ok_def)
next
  case False
  have good: "host_healthy c" using inv by (simp add: life_inv_def)
  show ?thesis
    by (rule life_device [OF inv False])
      (use service_after_hello_ok [OF service_session_inv [OF cfg good] run] in \<open>simp add: outcome_ok_def\<close>)
qed

lemma life_event:
  assumes inv: "life_inv crypt pk c" and ok: "event_ok pk e"
  shows "life_inv crypt pk (run_event crypt pk e c)"
proof (cases e)
  case (UPDATE_CUT config bs)
  have good: "host_healthy c" using inv by (simp add: life_inv_def)
  have cfg: "config_ok pk config" using ok UPDATE_CUT by simp
  obtain s' c' where run: "receive crypt bs (service_session crypt config) c = (s', c')" by fastforce
  show ?thesis
  proof (cases "journal_busy c")
    case True
    have "blocked (service_session crypt config)"
      using cfg by (simp add: config_ok_def service_session_def blocked_start)
    with inv UPDATE_CUT show ?thesis by (simp add: blocked_receive good True)
  next
    case False
    have "life_inv crypt pk c'"
      by (rule life_device [OF inv False])
        (use receive_keeps [OF service_session_inv [OF cfg good] run] in \<open>simp add: protocol_inv_def\<close>)
    with run UPDATE_CUT show ?thesis by simp
  qed
next
  case (UPDATE_SERVICE config r)
  have good: "host_healthy c" using inv by (simp add: life_inv_def)
  have cfg: "config_ok pk config" using ok UPDATE_SERVICE by simp
  show ?thesis
  proof (cases "update_service_run crypt config r c")
    case (Some out)
    obtain result s r' c' x where out: "out = (result, s, r', c', x)" by (metis prod_cases5)
    note run = Some [unfolded out]
    have "life_inv crypt pk c'"
      using run inv life_after_hello [OF inv cfg] by (auto simp: update_service_run_def boot_continue_def split: if_splits prod.splits)
    with run UPDATE_SERVICE show ?thesis by simp
  qed (use inv UPDATE_SERVICE in simp)
qed (use inv life_boot life_confirm in simp_all)

lemma life_run:
  assumes "life_inv crypt pk c" "list_all (event_ok pk) es"
  shows "life_inv crypt pk (device_life crypt pk es c)"
  using assms
  by (induction es arbitrary: c) (simp_all add: device_life_def life_event)

lemma device_boots:
  assumes inv: "life_inv crypt pk c"
  shows "\<exists>ev st effs c'. boot_sequence_execute crypt pk c csr = (ev, BOOT_JUMP st effs, c') \<and>
    (\<exists>entered \<in> {boot_slot_a, boot_slot_b}. slot_bootable crypt pk (host_view c') entered \<and>
       last effs = ENTER (slot_entry (host_view c') entered))"
proof -
  from inv obtain r act where good: "host_healthy c" and r: "journal_record c r" "boot_slot_lookup (active_slot r) = Some act"
    "slot_bootable crypt pk (host_view c) act"
    by (auto simp: life_inv_def record_good_def slot_good_def)
  from r(1) obtain v where "boot_metadata_recover_from_flash metadata_flash c = (BOOT_METADATA_OK, Some (r, v))"
    by (rule journal_recordE)
  from active_image_boots [OF this good r(2,3)] show ?thesis .
qed

lemma writing_event:
  assumes good: "host_healthy c" and r: "journal_record c r" "state r = BOOT_METADATA_STATE_WRITING"
    and ok: "event_ok pk e"
  shows "run_event crypt pk e c = c"
proof -
  have busy: "journal_busy c" using r by (auto simp: journal_busy_def)
  from r(1) obtain v where rec: "boot_metadata_recover_from_flash metadata_flash c = (BOOT_METADATA_OK, Some (r, v))"
    by (rule journal_recordE)
  show ?thesis
  proof (cases e)
    case (UPDATE_CUT config bs)
    with ok show ?thesis
      by (simp add: config_ok_def service_session_def blocked_start blocked_receive good busy)
  next
    case (UPDATE_SERVICE config r)
    with ok blocked_service [OF _ _ good busy, of config crypt r] show ?thesis
      by (auto simp: config_ok_def split: option.splits)
  next
    case (RESET csr)
    obtain st res c' where sel: "boot_slot_selection_select (boot_policy_options crypt pk metadata_flash csr) c = (st, res, c')"
      by (metis prod_cases3)
    then have "c' = c"
      using rec r(2) by (cases rule: select_cases) auto
    with sel RESET show ?thesis
      by (simp add: boot_sequence_execute_def Let_def boot_policy_select_eq reset_cause_capture_def case_prod_unfold)
  next
    case (CONFIRM running)
    with rec r(2) show ?thesis
      by (simp add: boot_confirm_current_slot_def Let_def split: option.split)
  qed
qed

section \<open>Properties\<close>

text \<open>
  C2. The device cannot be bricked over its life: starting from a readable journal whose active slot,
  and announced candidate if there is one, hold acceptable, authentic images, after any sequence of
  update sessions (with any bytes, cut short anywhere or run to their end by the service), resets
  and confirmation requests, with any flash operation failing on the way, the next reset enters a
  slot that holds an acceptable, authentic image.
\<close>

theorem device_always_boots:
  assumes good: "host_healthy c" and r: "journal_record c r" "record_good crypt pk (host_view c) r"
    and events: "list_all (event_ok pk) es"
  shows "\<exists>ev st effs c'. boot_sequence_execute crypt pk (device_life crypt pk es c) csr = (ev, BOOT_JUMP st effs, c') \<and>
    (\<exists>entered \<in> {boot_slot_a, boot_slot_b}. slot_bootable crypt pk (host_view c') entered \<and>
       last effs = ENTER (slot_entry (host_view c') entered))"
proof -
  have "life_inv crypt pk c" using good r by (auto simp: life_inv_def)
  from device_boots [OF life_run [OF this events]] show ?thesis .
qed

text \<open>
  C15. An interrupted update blocks every later one: when the journal says WRITING, as the loss of
  power or a RESET command during an update leaves it, no sequence of update sessions, service runs,
  resets and confirmation requests changes anything on the device, and the installer refuses every
  session with ACTIVE\_STATE, whatever its options.
\<close>

theorem interrupted_update_blocks:
  assumes good: "host_healthy c" and r: "journal_record c r" "state r = BOOT_METADATA_STATE_WRITING"
    and events: "list_all (event_ok pk) es"
  shows "device_life crypt pk es c = c \<and>
    (\<forall>flash options res. flash_ops flash = writable_ops \<longrightarrow> wf_flash flash \<longrightarrow> options_are_valid flash options \<longrightarrow>
      fst (update_installer_session_init crypt flash pk options res (device_life crypt pk es c)) =
        UPDATE_INSTALL_ERR_ACTIVE_STATE)"
proof -
  have busy: "journal_busy c" using r by (auto simp: journal_busy_def)
  have "device_life crypt pk es c = c"
    using events by (induction es) (simp_all add: device_life_def writing_event [OF good r])
  then show ?thesis by (simp add: init_refused good busy)
qed

end
