(* ===== verification/Platform_Confirmation.thy ===== *)
theory Platform_Confirmation
  imports Mpu_Policy Device_Life
begin

text \<open>
  The health gate of the research application (\<^verbatim>\<open>platform_confirmation.c\<close>): when every condition of
  the gate holds, the running slot is confirmed in the journal through
  \<^verbatim>\<open>boot_confirm_current_slot\<close>, with the MPU suspended around the commit. Flags that are 0 or 1 are
  booleans; the health argument is never NULL. The static snapshot is part of the state.

  Lemmas: nothing is written unless the whole gate holds; a success confirms the slot whose payload
  runs; the gate's view of the journal agrees with that of the confirmation; the MPU policy is in
  force again afterwards; a device that boots keeps booting.
\<close>

section \<open>Types\<close>

datatype platform_confirmation_status =
    PLATFORM_CONFIRMATION_OK
  | PLATFORM_CONFIRMATION_NOT_HEALTHY
  | PLATFORM_CONFIRMATION_SLOT
  | PLATFORM_CONFIRMATION_FLASH
  | PLATFORM_CONFIRMATION_METADATA
  | PLATFORM_CONFIRMATION_AMBIGUOUS_METADATA
  | PLATFORM_CONFIRMATION_NOT_PENDING
  | PLATFORM_CONFIRMATION_COMMIT

fun confirmation_code :: "platform_confirmation_status \<Rightarrow> u32" where
  "confirmation_code PLATFORM_CONFIRMATION_OK = 0"
| "confirmation_code PLATFORM_CONFIRMATION_NOT_HEALTHY = 1"
| "confirmation_code PLATFORM_CONFIRMATION_SLOT = 2"
| "confirmation_code PLATFORM_CONFIRMATION_FLASH = 3"
| "confirmation_code PLATFORM_CONFIRMATION_METADATA = 4"
| "confirmation_code PLATFORM_CONFIRMATION_AMBIGUOUS_METADATA = 5"
| "confirmation_code PLATFORM_CONFIRMATION_NOT_PENDING = 6"
| "confirmation_code PLATFORM_CONFIRMATION_COMMIT = 7"

record platform_confirmation_health =
  early_platform_init_done :: bool
  running_slot_identified :: bool
  core_self_checks_passed :: bool
  critical_initialization_failure :: bool
  stable_execution_point_reached :: bool
  metadata_allows :: bool
  uart_diagnostics_ready :: bool
  runtime_monitor_ready :: bool
  mpu_policy_ready :: bool
  watchdog_active :: bool
  application_health_ok :: bool

record platform_confirmation_snapshot =
  pc_running_slot :: u32
  pc_metadata_state :: u32
  pc_metadata_sequence :: u32
  pc_confirmed_slot :: u32
  pc_candidate_slot :: u32
  pc_remaining_trial_attempts :: u32
  pc_image_version :: u32
  pc_metadata_allows :: bool
  pc_already_confirmed :: bool
  pc_last_status :: platform_confirmation_status
  pc_confirm_status :: boot_confirm_status
  pc_metadata_status :: boot_metadata_status

definition initial_snapshot :: platform_confirmation_snapshot where
  "initial_snapshot =
     \<lparr>pc_running_slot = BOOT_SLOT_NONE, pc_metadata_state = state_to_u32 BOOT_METADATA_STATE_EMPTY,
      pc_metadata_sequence = 0, pc_confirmed_slot = BOOT_SLOT_NONE, pc_candidate_slot = BOOT_SLOT_NONE,
      pc_remaining_trial_attempts = 0, pc_image_version = 0, pc_metadata_allows = False,
      pc_already_confirmed = False, pc_last_status = PLATFORM_CONFIRMATION_NOT_HEALTHY,
      pc_confirm_status = BOOT_CONFIRM_ERR_NOT_PENDING, pc_metadata_status = BOOT_METADATA_ERR_NO_VALID_COPY\<rparr>"

section \<open>Operations\<close>

definition snapshot_clear :: "platform_confirmation_snapshot \<Rightarrow> platform_confirmation_snapshot" where
  "snapshot_clear s =
     s\<lparr>pc_running_slot := BOOT_SLOT_NONE, pc_metadata_state := state_to_u32 BOOT_METADATA_STATE_EMPTY,
       pc_metadata_sequence := 0, pc_confirmed_slot := BOOT_SLOT_NONE, pc_candidate_slot := BOOT_SLOT_NONE,
       pc_remaining_trial_attempts := 0, pc_image_version := 0, pc_metadata_allows := False,
       pc_already_confirmed := False, pc_confirm_status := BOOT_CONFIRM_ERR_NOT_PENDING,
       pc_metadata_status := BOOT_METADATA_ERR_NO_VALID_COPY\<rparr>"

definition trusted_metadata_image_version :: "boot_metadata_record \<Rightarrow> u32" where
  "trusted_metadata_image_version metadata =
     (if state metadata = BOOT_METADATA_STATE_PENDING_TRIAL \<or> state metadata = BOOT_METADATA_STATE_CONFIRMED
      then candidate_image_version metadata else 0)"

definition platform_confirmation_health_gate :: "platform_confirmation_health \<Rightarrow> bool" where
  "platform_confirmation_health_gate health \<longleftrightarrow>
     early_platform_init_done health \<and> running_slot_identified health \<and> core_self_checks_passed health \<and>
     \<not> critical_initialization_failure health \<and> stable_execution_point_reached health \<and>
     uart_diagnostics_ready health \<and> runtime_monitor_ready health \<and> mpu_policy_ready health \<and>
     watchdog_active health \<and> application_health_ok health \<and> metadata_allows health"

text \<open>Whether the record allows a confirmation, and whether the slot is confirmed already.\<close>

definition metadata_allows_confirmation :: "boot_metadata_record \<Rightarrow> u32 \<Rightarrow> bool \<times> bool" where
  "metadata_allows_confirmation metadata running_slot =
     (if state metadata = BOOT_METADATA_STATE_PENDING_TRIAL \<and> candidate_slot metadata = running_slot \<and>
         confirmation_state metadata = 0
      then (True, False)
      else if state metadata = BOOT_METADATA_STATE_CONFIRMED \<and> active_slot metadata = running_slot \<and>
              candidate_slot metadata = BOOT_SLOT_NONE \<and> confirmation_state metadata = 1
      then (True, True)
      else (False, False))"

fun map_confirm_status :: "boot_confirm_status \<Rightarrow> platform_confirmation_status" where
  "map_confirm_status BOOT_CONFIRM_OK = PLATFORM_CONFIRMATION_OK"
| "map_confirm_status BOOT_CONFIRM_ERR_INVALID_ARGUMENT = PLATFORM_CONFIRMATION_SLOT"
| "map_confirm_status BOOT_CONFIRM_ERR_SLOT = PLATFORM_CONFIRMATION_SLOT"
| "map_confirm_status BOOT_CONFIRM_ERR_METADATA = PLATFORM_CONFIRMATION_METADATA"
| "map_confirm_status BOOT_CONFIRM_ERR_AMBIGUOUS_METADATA = PLATFORM_CONFIRMATION_AMBIGUOUS_METADATA"
| "map_confirm_status BOOT_CONFIRM_ERR_NOT_PENDING = PLATFORM_CONFIRMATION_NOT_PENDING"
| "map_confirm_status BOOT_CONFIRM_ERR_COMMIT = PLATFORM_CONFIRMATION_COMMIT"

text \<open>The state the service works on: its snapshot, the MPU and the flash.\<close>

type_synonym confirmation_state = "platform_confirmation_snapshot \<times> mpu \<times> host_context"

definition finish_service ::
    "platform_confirmation_status \<Rightarrow> platform_confirmation_snapshot \<Rightarrow> mpu \<Rightarrow> host_context \<Rightarrow>
     platform_confirmation_status \<times> confirmation_state" where
  "finish_service status s m c = (status, s\<lparr>pc_last_status := status\<rparr>, m, c)"

definition observe_metadata ::
    "boot_metadata_record \<Rightarrow> u32 \<Rightarrow> platform_confirmation_snapshot \<Rightarrow> platform_confirmation_snapshot" where
  "observe_metadata metadata running_slot s =
     s\<lparr>pc_metadata_state := state_to_u32 (state metadata), pc_metadata_sequence := sequence metadata,
       pc_confirmed_slot := active_slot metadata, pc_candidate_slot := candidate_slot metadata,
       pc_remaining_trial_attempts := boot_attempt_count metadata,
       pc_image_version := trusted_metadata_image_version metadata,
       pc_metadata_allows := fst (metadata_allows_confirmation metadata running_slot),
       pc_already_confirmed := snd (metadata_allows_confirmation metadata running_slot)\<rparr>"

text \<open>The commit, with the MPU suspended around it.\<close>

definition confirm_commit ::
    "host_context boot_flash \<Rightarrow> u32 \<Rightarrow> platform_confirmation_snapshot \<Rightarrow> mpu \<Rightarrow> host_context \<Rightarrow>
     platform_confirmation_status \<times> confirmation_state" where
  "confirm_commit flash running_slot s m c =
     (let m1 = mpu_policy_suspend_for_metadata_commit m
      in case boot_confirm_current_slot flash c running_slot of
           (confirm, result, c') \<Rightarrow>
             (let m2 = mpu_policy_resume_after_metadata_commit m1;
                  s1 = s\<lparr>pc_confirm_status := confirm, pc_last_status := map_confirm_status confirm\<rparr>;
                  s2 = (if confirm = BOOT_CONFIRM_OK
                        then s1\<lparr>pc_confirmed_slot := confirm_slot result, pc_image_version := confirm_image_version result,
                                pc_already_confirmed := confirm_already result\<rparr>
                        else s1)
              in (map_confirm_status confirm, s2, m2, c')))"

definition platform_confirmation_service ::
    "u32 \<Rightarrow> platform_confirmation_health \<Rightarrow> confirmation_state \<Rightarrow> platform_confirmation_status \<times> confirmation_state" where
  "platform_confirmation_service vector base_health st =
     (case st of (s0, m, c) \<Rightarrow>
        (case boot_confirm_slot_from_vector_address vector of
           (confirm, running_slot) \<Rightarrow>
             (let s = (snapshot_clear s0)\<lparr>pc_confirm_status := confirm\<rparr>
              in if confirm \<noteq> BOOT_CONFIRM_OK then finish_service PLATFORM_CONFIRMATION_SLOT s m c
                 else let s1 = s\<lparr>pc_running_slot := running_slot\<rparr>;
                          health = base_health\<lparr>running_slot_identified := True\<rparr>
                      in case boot_flash_target_init_metadata of
                           Inl _ \<Rightarrow> finish_service PLATFORM_CONFIRMATION_FLASH s1 m c
                         | Inr flash \<Rightarrow>
                             (case boot_metadata_recover_from_flash flash c of
                                (metadata_status, recovered) \<Rightarrow>
                                  let s2 = s1\<lparr>pc_metadata_status := metadata_status\<rparr>
                                  in if metadata_status = BOOT_METADATA_ERR_AMBIGUOUS
                                     then finish_service PLATFORM_CONFIRMATION_AMBIGUOUS_METADATA s2 m c
                                     else if metadata_status \<noteq> BOOT_METADATA_OK
                                     then finish_service PLATFORM_CONFIRMATION_METADATA s2 m c
                                     else case recovered of
                                       None \<Rightarrow> finish_service PLATFORM_CONFIRMATION_METADATA s2 m c
                                     | Some (metadata, recovery) \<Rightarrow>
                                         let s3 = observe_metadata metadata running_slot s2;
                                             h = health\<lparr>metadata_allows := fst (metadata_allows_confirmation metadata running_slot)\<rparr>
                                         in if \<not> platform_confirmation_health_gate h
                                            then (if early_platform_init_done h \<and> running_slot_identified h \<and>
                                                     core_self_checks_passed h \<and> \<not> critical_initialization_failure h \<and>
                                                     stable_execution_point_reached h \<and> \<not> metadata_allows h
                                                  then finish_service PLATFORM_CONFIRMATION_NOT_PENDING s3 m c
                                                  else finish_service PLATFORM_CONFIRMATION_NOT_HEALTHY s3 m c)
                                            else confirm_commit flash running_slot s3 m c))))"

fun platform_confirmation_status_text :: "platform_confirmation_status \<Rightarrow> bytes" where
  "platform_confirmation_status_text PLATFORM_CONFIRMATION_OK = ascii ''OK''"
| "platform_confirmation_status_text PLATFORM_CONFIRMATION_NOT_HEALTHY = ascii ''NOT HEALTHY''"
| "platform_confirmation_status_text PLATFORM_CONFIRMATION_SLOT = ascii ''SLOT''"
| "platform_confirmation_status_text PLATFORM_CONFIRMATION_FLASH = ascii ''FLASH''"
| "platform_confirmation_status_text PLATFORM_CONFIRMATION_METADATA = ascii ''METADATA''"
| "platform_confirmation_status_text PLATFORM_CONFIRMATION_AMBIGUOUS_METADATA = ascii ''AMBIGUOUS METADATA''"
| "platform_confirmation_status_text PLATFORM_CONFIRMATION_NOT_PENDING = ascii ''NOT PENDING''"
| "platform_confirmation_status_text PLATFORM_CONFIRMATION_COMMIT = ascii ''COMMIT''"

section \<open>Outcomes\<close>

text \<open>Every condition of the gate that does not come from the slot or the journal.\<close>

definition health_ready :: "platform_confirmation_health \<Rightarrow> bool" where
  "health_ready h \<longleftrightarrow>
     early_platform_init_done h \<and> core_self_checks_passed h \<and> \<not> critical_initialization_failure h \<and>
     stable_execution_point_reached h \<and> uart_diagnostics_ready h \<and> runtime_monitor_ready h \<and> mpu_policy_ready h \<and>
     watchdog_active h \<and> application_health_ok h"

lemma finish_service_simps [simp]:
  "fst (finish_service st s m c) = st" "snd (snd (finish_service st s m c)) = (m, c)"
  by (simp_all add: finish_service_def)

lemma service_cases:
  assumes run: "platform_confirmation_service vector base (s, m, c) = (st, s', m', c')"
  obtains
    (refused) "c' = c" "m' = m" "st \<noteq> PLATFORM_CONFIRMATION_OK"
  | (commit) running metadata v s1 where
      "boot_confirm_slot_from_vector_address vector = (BOOT_CONFIRM_OK, running)"
      "boot_metadata_recover_from_flash metadata_flash c = (BOOT_METADATA_OK, Some (metadata, v))"
      "fst (metadata_allows_confirmation metadata running)" "health_ready base"
      "confirm_commit metadata_flash running s1 m c = (st, s', m', c')"
proof -
  obtain confirm running where slot: "boot_confirm_slot_from_vector_address vector = (confirm, running)" by fastforce
  obtain ms rc where rec: "boot_metadata_recover_from_flash metadata_flash c = (ms, rc)" by fastforce
  note unfold = platform_confirmation_service_def slot rec boot_flash_target_init_metadata_eq Let_def
  show ?thesis
  proof (cases "confirm = BOOT_CONFIRM_OK \<and> ms = BOOT_METADATA_OK \<and> rc \<noteq> None")
    case False
    with run show ?thesis
      by (intro refused; cases rc) (auto simp: unfold finish_service_def split: if_splits)
  next
    case True
    then obtain metadata v where ok: "confirm = BOOT_CONFIRM_OK" "ms = BOOT_METADATA_OK" "rc = Some (metadata, v)" by auto
    let ?h = "base\<lparr>running_slot_identified := True, metadata_allows := fst (metadata_allows_confirmation metadata running)\<rparr>"
    show ?thesis
    proof (cases "platform_confirmation_health_gate ?h")
      case gate: True
      have "health_ready base" "fst (metadata_allows_confirmation metadata running)"
        using gate by (simp_all add: platform_confirmation_health_gate_def health_ready_def)
      moreover have "\<exists>s1. confirm_commit metadata_flash running s1 m c = (st, s', m', c')"
        using run gate ok by (simp add: unfold) metis
      ultimately show ?thesis using commit slot rec ok by blast
    next
      case False
      with run ok show ?thesis by (intro refused) (auto simp: unfold finish_service_def split: if_splits)
    qed
  qed
qed

lemma commit_run:
  assumes "confirm_commit flash running s m c = (st, s', m', c')"
  obtains confirm result where "boot_confirm_current_slot flash c running = (confirm, result, c')"
    "st = map_confirm_status confirm"
    "m' = mpu_policy_resume_after_metadata_commit (mpu_policy_suspend_for_metadata_commit m)"
  using assms by (auto simp: confirm_commit_def Let_def split: prod.splits)

lemma map_confirm_ok: "map_confirm_status confirm = PLATFORM_CONFIRMATION_OK \<longleftrightarrow> confirm = BOOT_CONFIRM_OK"
  by (cases confirm) simp_all

lemma confirm_journal:
  assumes good: "host_healthy c"
    and run: "boot_confirm_current_slot metadata_flash c running = (BOOT_CONFIRM_OK, res, c')"
  shows "\<exists>r. journal_record c' r \<and> state r = BOOT_METADATA_STATE_CONFIRMED \<and> active_slot r = running"
  using run
proof (cases rule: confirm_cases)
  case (already metadata v)
  then show ?thesis using journal_recordI by blast
next
  case (confirmed metadata v nx s)
  then have "boot_metadata_commit metadata_flash c nx = (BOOT_METADATA_OK, c')" by simp
  from target_journal.commit_ok_view [OF good this] prepare_next_ok(2) [OF confirmed(4)]
  show ?thesis by (auto simp: journal_record_def)
qed simp

text \<open>
  The health gate is necessary: the confirmation service changes the flash or reports success
  only when every flag of the health gate holds and the running slot, found from the vector
  address, is the pending candidate of the journal or confirmed already. Otherwise flash and MPU are
  exactly as before.
\<close>

lemma gate_needed:
  assumes run: "platform_confirmation_service vector health (s, m, c) = (st, s', m', c')"
    and effect: "c' \<noteq> c \<or> m' \<noteq> m \<or> st = PLATFORM_CONFIRMATION_OK"
  shows "health_ready health \<and>
    (\<exists>running r. boot_confirm_slot_from_vector_address vector = (BOOT_CONFIRM_OK, running) \<and> journal_record c r \<and>
      (state r = BOOT_METADATA_STATE_PENDING_TRIAL \<and> candidate_slot r = running \<and> confirmation_state r = 0 \<or>
       state r = BOOT_METADATA_STATE_CONFIRMED \<and> active_slot r = running \<and> confirmation_state r = 1))"
  using run
proof (cases rule: service_cases)
  case (commit running metadata v s1)
  from commit(3) have "state metadata = BOOT_METADATA_STATE_PENDING_TRIAL \<and> candidate_slot metadata = running \<and> confirmation_state metadata = 0 \<or>
       state metadata = BOOT_METADATA_STATE_CONFIRMED \<and> active_slot metadata = running \<and> confirmation_state metadata = 1"
    by (auto simp: metadata_allows_confirmation_def split: if_splits)
  with commit(1,4) journal_recordI [OF commit(2)] show ?thesis by blast
qed (use effect in simp)

text \<open>
  What a successful confirmation means on the device: the journal holds a confirmed record for
  the slot whose payload base is the vector address of the running image.
\<close>

theorem confirmation_confirms_running_image:
  assumes good: "host_healthy c"
    and run: "platform_confirmation_service vector health (s, m, c) = (PLATFORM_CONFIRMATION_OK, s', m', c')"
  shows "\<exists>r slot. journal_record c' r \<and> state r = BOOT_METADATA_STATE_CONFIRMED \<and>
    boot_slot_lookup (active_slot r) = Some slot \<and> payload_base slot = vector"
  using run
proof (cases rule: service_cases)
  case (commit running metadata v s1)
  from commit(5) obtain confirm result where conf: "boot_confirm_current_slot metadata_flash c running = (confirm, result, c')"
    and "map_confirm_status confirm = PLATFORM_CONFIRMATION_OK" by (rule commit_run) simp
  then have "boot_confirm_current_slot metadata_flash c running = (BOOT_CONFIRM_OK, result, c')" by (simp add: map_confirm_ok)
  from confirm_journal [OF good this] obtain r where "journal_record c' r" "state r = BOOT_METADATA_STATE_CONFIRMED"
    "active_slot r = running" by blast
  moreover obtain slot where "boot_slot_lookup running = Some slot" "payload_base slot = vector"
    using commit(1) by (auto simp: boot_confirm_slot_from_vector_address_def slot_simps split: if_splits option.splits)
  ultimately show ?thesis by blast
qed simp

text \<open>A change of the flash is the confirmation of a pending trial.\<close>

lemma service_writes:
  assumes run: "platform_confirmation_service vector health (s, m, c) = (st, s', m', c')" and change: "c' \<noteq> c"
  shows "health_ready health \<and> (\<exists>running r. boot_confirm_slot_from_vector_address vector = (BOOT_CONFIRM_OK, running) \<and>
    journal_record c r \<and> state r = BOOT_METADATA_STATE_PENDING_TRIAL \<and> candidate_slot r = running)"
  using run
proof (cases rule: service_cases)
  case (commit running metadata v s1)
  from commit(5) obtain confirm result where conf: "boot_confirm_current_slot metadata_flash c running = (confirm, result, c')"
    by (rule commit_run)
  then show ?thesis
  proof (cases rule: confirm_cases)
    case (confirmed metadata' v' nx s')
    then show ?thesis using commit journal_recordI [OF confirmed(1)] by blast
  qed (use change in simp_all)
qed (use change in simp)

text \<open>
  The memory policy survives a confirmation: when it was in force before the service ran, it is
  in force afterwards, whatever the outcome.
\<close>

lemma service_policy:
  assumes "policy_in_force guard m" "platform_confirmation_service vector health (s, m, c) = (st, s', m', c')"
  shows "policy_in_force guard m'"
  using assms(2)
proof (cases rule: service_cases)
  case (commit running metadata v s1)
  from commit(5) have "m' = mpu_policy_resume_after_metadata_commit (mpu_policy_suspend_for_metadata_commit m)"
    by (rule commit_run)
  with assms(1) show ?thesis by (simp add: suspend_resume)
qed (use assms(1) in simp)

text \<open>The service on a device that boots, and the gate's own view of the journal.\<close>

lemma service_life:
  assumes inv: "life_inv crypt pk c" and run: "platform_confirmation_service vector health (s, m, c) = (st, s', m', c')"
  shows "life_inv crypt pk c'"
  using run
proof (cases rule: service_cases)
  case (commit running metadata v s1)
  from commit(5) obtain confirm result where "boot_confirm_current_slot metadata_flash c running = (confirm, result, c')"
    by (rule commit_run)
  with life_confirm [OF inv, of running] show ?thesis by simp
qed (use inv in simp)

lemma slot_from_vector:
  "boot_confirm_slot_from_vector_address vector = (BOOT_CONFIRM_OK, running) \<Longrightarrow>
     \<exists>slot. boot_slot_lookup running = Some slot \<and> payload_base slot = vector"
  by (auto simp: boot_confirm_slot_from_vector_address_def slot_simps split: if_splits option.splits)

text \<open>A pending trial can be confirmed as long as sequence numbers are left.\<close>

definition confirmed_next :: "boot_metadata_record \<Rightarrow> boot_metadata_record" where
  "confirmed_next r =
     \<lparr>sequence = sequence r + 1, state = BOOT_METADATA_STATE_CONFIRMED, active_slot = candidate_slot r,
      candidate_slot = BOOT_SLOT_NONE, candidate_image_version = candidate_image_version r, boot_attempt_count = 0,
      confirmation_state = 1, result_code = 0\<rparr>"

lemma confirm_step:
  assumes canon: "state_record_is_canonical r" and st: "state r = BOOT_METADATA_STATE_PENDING_TRIAL"
    and seq: "sequence r < UINT32_MAX - 1"
  shows "boot_metadata_prepare_next r BOOT_METADATA_STATE_CONFIRMED (candidate_slot r) BOOT_SLOT_NONE
    (candidate_image_version r) 0 1 0 = Inr (confirmed_next r)"
proof -
  have "sequence r + 1 \<noteq> 0" "sequence r + 1 \<noteq> UINT32_MAX" "sequence r \<noteq> UINT32_MAX"
  proof -
    have "unat (sequence r) < SIZE_MAX - 1" using seq by (simp add: word_less_nat_alt)
    then have "unat (sequence r + 1) = Suc (unat (sequence r))" by (subst u32_no_overflow) auto
    with \<open>unat (sequence r) < SIZE_MAX - 1\<close> show "sequence r + 1 \<noteq> 0" "sequence r + 1 \<noteq> UINT32_MAX" "sequence r \<noteq> UINT32_MAX"
      by (auto dest: arg_cong [where f = unat])
  qed
  moreover have "\<not> UINT32_MAX - 1 \<le> sequence r" using seq by simp
  moreover have "candidate_record_is_canonical r" "slot_value_is_valid (candidate_slot r)"
    using canon st by (simp_all add: state_record_is_canonical_def split: if_splits)
  ultimately show ?thesis
    using st
    by (simp add: boot_metadata_prepare_next_def Let_def confirmed_next_def boot_metadata_validate_transition_def
        state_record_is_canonical_def candidate_record_is_canonical_def state_value_is_valid_def
        transition_fields_allowed_def slot_value_is_valid_def split: if_splits)
qed

text \<open>
  A healthy trial is confirmed: on a working device whose journal holds a pending trial of the
  running slot, with sequence numbers left, one call of the service with every health flag set
  reports success, and the journal then holds that slot as confirmed with the version of the
  candidate.
\<close>

lemma trial_confirmed:
  assumes ff: "host_fault_free c" and r: "journal_record c r" and st: "state r = BOOT_METADATA_STATE_PENDING_TRIAL"
    and seq: "sequence r < UINT32_MAX - 1" and conf: "confirmation_state r = 0"
    and slot: "boot_slot_lookup (candidate_slot r) = Some slot" and health: "health_ready health"
  shows "\<exists>s' m' c'. platform_confirmation_service (payload_base slot) health (s, m, c) =
      (PLATFORM_CONFIRMATION_OK, s', m', c') \<and> journal_record c' (confirmed_next r)"
proof -
  note good = host_reliable.fault_free_healthy [OF ff]
  from r obtain v where rec: "boot_metadata_recover_from_flash metadata_flash c = (BOOT_METADATA_OK, Some (r, v))"
    by (rule journal_recordE)
  note prep = confirm_step [OF target_journal.recover_canonical [OF good rec] st seq]
  from prepare_next_step [OF prep] target_journal_reliable.commit_succeeds [OF ff] rec
  obtain c' where com: "boot_metadata_commit metadata_flash c (confirmed_next r) = (BOOT_METADATA_OK, c')"
    by (fastforce simp: commit_base_def)
  have run: "boot_confirm_slot_from_vector_address (payload_base slot) = (BOOT_CONFIRM_OK, candidate_slot r)"
    using slot by (auto simp: boot_confirm_slot_from_vector_address_def boot_slot_lookup_Some slot_simps)
  have allow: "metadata_allows_confirmation r (candidate_slot r) = (True, False)"
    using st conf by (simp add: metadata_allows_confirmation_def)
  have "fst (boot_confirm_current_slot metadata_flash c (candidate_slot r)) = BOOT_CONFIRM_OK"
    "snd (snd (boot_confirm_current_slot metadata_flash c (candidate_slot r))) = c'"
    using slot rec st conf prep com by (simp_all add: boot_confirm_current_slot_def Let_def)
  then obtain result where "boot_confirm_current_slot metadata_flash c (candidate_slot r) = (BOOT_CONFIRM_OK, result, c')"
    by (cases "boot_confirm_current_slot metadata_flash c (candidate_slot r)") auto
  then have "\<exists>s' m'. platform_confirmation_service (payload_base slot) health (s, m, c) = (PLATFORM_CONFIRMATION_OK, s', m', c')"
    using run rec allow health
    by (simp add: platform_confirmation_service_def boot_flash_target_init_metadata_eq Let_def
        platform_confirmation_health_gate_def health_ready_def confirm_commit_def)
  moreover have "journal_record c' (confirmed_next r)"
    using target_journal.commit_ok_view [OF good com] by (simp add: journal_record_def)
  ultimately show ?thesis by blast
qed

text \<open>Before the gate is open, a pending trial of the running slot is left as it is, to be tried again.\<close>

lemma service_waits:
  assumes r: "journal_record c r" and st: "state r = BOOT_METADATA_STATE_PENDING_TRIAL" and conf: "confirmation_state r = 0"
    and slot: "boot_slot_lookup (candidate_slot r) = Some slot" and health: "\<not> health_ready health"
  shows "\<exists>s'. platform_confirmation_service (payload_base slot) health (s, m, c) =
    (PLATFORM_CONFIRMATION_NOT_HEALTHY, s', m, c)"
proof -
  from r obtain v where rec: "boot_metadata_recover_from_flash metadata_flash c = (BOOT_METADATA_OK, Some (r, v))"
    by (rule journal_recordE)
  have run: "boot_confirm_slot_from_vector_address (payload_base slot) = (BOOT_CONFIRM_OK, candidate_slot r)"
    using slot by (auto simp: boot_confirm_slot_from_vector_address_def boot_slot_lookup_Some slot_simps)
  have allow: "metadata_allows_confirmation r (candidate_slot r) = (True, False)"
    using st conf by (simp add: metadata_allows_confirmation_def)
  from health show ?thesis
    by (auto simp: platform_confirmation_service_def run rec allow boot_flash_target_init_metadata_eq Let_def
        platform_confirmation_health_gate_def health_ready_def finish_service_def)
qed

end
