(* ===== verification/Platform_Telemetry.thy ===== *)
theory Platform_Telemetry
  imports Platform_Log Platform_Confirmation
begin

text \<open>
  The retained reports of the research application: the telemetry report
  (\<^verbatim>\<open>experiment_telemetry.c\<close>) and the fault record (\<^verbatim>\<open>fault.c\<close>), both in RAM that a reset does not
  clear and protected by a CRC over their bytes. The core registers the code samples are a record;
  \<open>app_base\<close> is the build constant PLATFORM_APP_BASE.

  Lemmas: the report is valid after every operation that finishes it; the boot counter counts the
  boots while the report is retained; exactly one trust flag is set; a captured fault is valid and
  a cleared one is not.
\<close>

section \<open>Types\<close>

record core_registers =
  core_vtor :: u32
  core_msp :: u32
  core_psp :: u32
  core_control :: u32
  core_primask :: u32
  core_basepri :: u32
  core_faultmask :: u32

record experiment_telemetry_report =
  et_magic :: bytes
  et_format_version :: u32
  et_boot_counter :: u32
  et_reset_cause :: u32
  et_selected_slot :: u32
  et_confirmed_slot :: u32
  et_candidate_slot :: u32
  et_metadata_state :: u32
  et_metadata_sequence :: u32
  et_remaining_trial_attempts :: u32
  et_image_version :: u32
  et_vtor :: u32
  et_msp :: u32
  et_psp :: u32
  et_control :: u32
  et_primask :: u32
  et_basepri :: u32
  et_faultmask :: u32
  et_integrity_scan_status :: u32
  et_first_changed_region :: u32
  et_last_boot_policy_result :: u32
  et_last_update_result :: u32
  et_trusted_state_flags :: u32
  et_untrusted_observation_flags :: u32
  et_commit_marker :: u32
  et_report_crc :: u32

abbreviation (input) TRUSTED_METADATA_VALID :: u32 where "TRUSTED_METADATA_VALID \<equiv> 1"
abbreviation (input) TRUSTED_METADATA_AMBIGUOUS :: u32 where "TRUSTED_METADATA_AMBIGUOUS \<equiv> 2"
abbreviation (input) TRUSTED_METADATA_UNRECOVERABLE :: u32 where "TRUSTED_METADATA_UNRECOVERABLE \<equiv> 4"
abbreviation (input) OBS_VTOR_EXPECTED :: u32 where "OBS_VTOR_EXPECTED \<equiv> 1"
abbreviation (input) OBS_MSP_IN_RANGE :: u32 where "OBS_MSP_IN_RANGE \<equiv> 2"
abbreviation (input) OBS_PSP_IN_RANGE :: u32 where "OBS_PSP_IN_RANGE \<equiv> 4"

definition TELEMETRY_MAGIC :: bytes where
  "TELEMETRY_MAGIC = ascii ''STMR''"

section \<open>Telemetry\<close>

text \<open>The words of the report before its CRC, in the order of the structure.\<close>

definition report_words :: "experiment_telemetry_report \<Rightarrow> u32 list" where
  "report_words r =
     [et_format_version r, et_boot_counter r, et_reset_cause r, et_selected_slot r, et_confirmed_slot r,
      et_candidate_slot r, et_metadata_state r, et_metadata_sequence r, et_remaining_trial_attempts r,
      et_image_version r, et_vtor r, et_msp r, et_psp r, et_control r, et_primask r, et_basepri r,
      et_faultmask r, et_integrity_scan_status r, et_first_changed_region r, et_last_boot_policy_result r,
      et_last_update_result r, et_trusted_state_flags r, et_untrusted_observation_flags r, et_commit_marker r]"

definition report_crc_without_crc :: "experiment_telemetry_report \<Rightarrow> u32" where
  "report_crc_without_crc r = crc32_update 0 (et_magic r @ concat (map le32 (report_words r)))"

definition experiment_telemetry_report_valid :: "experiment_telemetry_report \<Rightarrow> bool" where
  "experiment_telemetry_report_valid r \<longleftrightarrow>
     et_magic r ! 0 = TELEMETRY_MAGIC ! 0 \<and> et_magic r ! 1 = TELEMETRY_MAGIC ! 1 \<and>
     et_magic r ! 2 = TELEMETRY_MAGIC ! 2 \<and> et_magic r ! 3 = TELEMETRY_MAGIC ! 3 \<and>
     et_format_version r = 1 \<and> et_report_crc r = report_crc_without_crc r"

definition next_boot_counter :: "experiment_telemetry_report \<Rightarrow> u32" where
  "next_boot_counter r =
     (if \<not> experiment_telemetry_report_valid r then 1
      else if et_boot_counter r = UINT32_MAX then UINT32_MAX
      else et_boot_counter r + 1)"

definition address_in_range :: "u32 \<Rightarrow> u32 \<Rightarrow> u32 \<Rightarrow> bool" where
  "address_in_range address base end' \<longleftrightarrow> address \<ge> base \<and> address < end'"

definition capture_core_registers ::
    "u32 \<Rightarrow> core_registers \<Rightarrow> experiment_telemetry_report \<Rightarrow> experiment_telemetry_report" where
  "capture_core_registers app_base k r =
     (let r1 = r\<lparr>et_msp := core_msp k, et_psp := core_psp k, et_control := core_control k, et_primask := core_primask k,
                 et_basepri := core_basepri k, et_faultmask := core_faultmask k, et_vtor := core_vtor k\<rparr>;
          f1 = (if et_vtor r1 = app_base then et_untrusted_observation_flags r1 OR OBS_VTOR_EXPECTED
                else et_untrusted_observation_flags r1);
          f2 = (if address_in_range (et_msp r1) 0x20000000 0x20020000 then f1 OR OBS_MSP_IN_RANGE else f1);
          f3 = (if et_psp r1 = 0 \<or> address_in_range (et_psp r1) 0x20000000 0x20020000 then f2 OR OBS_PSP_IN_RANGE else f2)
      in r1\<lparr>et_untrusted_observation_flags := f3\<rparr>)"

fun copy_code :: "boot_metadata_copy \<Rightarrow> u32" where
  "copy_code BOOT_METADATA_COPY_NONE = 0"
| "copy_code BOOT_METADATA_COPY_A = 1"
| "copy_code BOOT_METADATA_COPY_B = 2"

definition raise_trust :: "u32 \<Rightarrow> experiment_telemetry_report \<Rightarrow> experiment_telemetry_report" where
  "raise_trust flag r = r\<lparr>et_trusted_state_flags := et_trusted_state_flags r OR flag\<rparr>"

definition observe_record ::
    "boot_metadata_record \<Rightarrow> boot_metadata_recovery \<Rightarrow> experiment_telemetry_report \<Rightarrow> experiment_telemetry_report" where
  "observe_record metadata recovery r0 =
     (let r = r0\<lparr>et_metadata_state := state_to_u32 (state metadata), et_metadata_sequence := sequence metadata,
                 et_confirmed_slot := active_slot metadata, et_candidate_slot := candidate_slot metadata,
                 et_remaining_trial_attempts := boot_attempt_count metadata,
                 et_image_version := trusted_metadata_image_version metadata,
                 et_last_update_result := result_code metadata, et_commit_marker := copy_code (selected_copy recovery)\<rparr>
      in if state metadata = BOOT_METADATA_STATE_PENDING_TRIAL then r\<lparr>et_selected_slot := candidate_slot metadata\<rparr>
         else if state metadata = BOOT_METADATA_STATE_CONFIRMED then r\<lparr>et_selected_slot := active_slot metadata\<rparr>
         else r)"

definition experiment_telemetry_refresh_metadata ::
    "host_context \<Rightarrow> experiment_telemetry_report \<Rightarrow> experiment_telemetry_report" where
  "experiment_telemetry_refresh_metadata c r0 =
     (let r = r0\<lparr>et_trusted_state_flags := et_trusted_state_flags r0 AND
                   NOT (TRUSTED_METADATA_VALID OR TRUSTED_METADATA_AMBIGUOUS OR TRUSTED_METADATA_UNRECOVERABLE),
                 et_selected_slot := BOOT_SLOT_NONE, et_confirmed_slot := BOOT_SLOT_NONE, et_candidate_slot := BOOT_SLOT_NONE,
                 et_metadata_state := state_to_u32 BOOT_METADATA_STATE_EMPTY, et_metadata_sequence := 0,
                 et_remaining_trial_attempts := 0, et_image_version := 0\<rparr>
      in case boot_flash_target_init_readonly of
           Inl _ \<Rightarrow> raise_trust TRUSTED_METADATA_UNRECOVERABLE r
         | Inr flash \<Rightarrow>
             (case boot_metadata_recover_from_flash flash c of
                (recovered, found) \<Rightarrow>
                  if recovered = BOOT_METADATA_ERR_AMBIGUOUS then raise_trust TRUSTED_METADATA_AMBIGUOUS r
                  else if recovered \<noteq> BOOT_METADATA_OK then raise_trust TRUSTED_METADATA_UNRECOVERABLE r
                  else case found of
                    None \<Rightarrow> raise_trust TRUSTED_METADATA_UNRECOVERABLE r
                  | Some (metadata, recovery) \<Rightarrow> observe_record metadata recovery (raise_trust TRUSTED_METADATA_VALID r)))"

definition finalize_report :: "experiment_telemetry_report \<Rightarrow> experiment_telemetry_report" where
  "finalize_report r = r\<lparr>et_report_crc := report_crc_without_crc r\<rparr>"

definition experiment_telemetry_init ::
    "u32 \<Rightarrow> core_registers \<Rightarrow> host_context \<Rightarrow> u32 \<Rightarrow> experiment_telemetry_report \<Rightarrow> experiment_telemetry_report" where
  "experiment_telemetry_init app_base k c reset_cause_snapshot r =
     finalize_report (experiment_telemetry_refresh_metadata c (capture_core_registers app_base k
       \<lparr>et_magic = TELEMETRY_MAGIC, et_format_version = 1, et_boot_counter = next_boot_counter r,
        et_reset_cause = reset_cause_snapshot, et_selected_slot = BOOT_SLOT_NONE, et_confirmed_slot = BOOT_SLOT_NONE,
        et_candidate_slot = BOOT_SLOT_NONE, et_metadata_state = state_to_u32 BOOT_METADATA_STATE_EMPTY,
        et_metadata_sequence = 0, et_remaining_trial_attempts = 0, et_image_version = 0, et_vtor = 0, et_msp = 0,
        et_psp = 0, et_control = 0, et_primask = 0, et_basepri = 0, et_faultmask = 0, et_integrity_scan_status = 0,
        et_first_changed_region = 0xFFFFFFFF, et_last_boot_policy_result = 0, et_last_update_result = 0,
        et_trusted_state_flags = 0, et_untrusted_observation_flags = 0, et_commit_marker = 0, et_report_crc = 0\<rparr>))"

definition experiment_telemetry_set_boot_policy_result ::
    "u32 \<Rightarrow> core_registers \<Rightarrow> u32 \<Rightarrow> experiment_telemetry_report \<Rightarrow> experiment_telemetry_report" where
  "experiment_telemetry_set_boot_policy_result app_base k result r =
     finalize_report (capture_core_registers app_base k (r\<lparr>et_last_boot_policy_result := result\<rparr>))"

definition experiment_telemetry_set_confirmation_result ::
    "u32 \<Rightarrow> core_registers \<Rightarrow> host_context \<Rightarrow> u32 \<Rightarrow> experiment_telemetry_report \<Rightarrow> experiment_telemetry_report" where
  "experiment_telemetry_set_confirmation_result app_base k c result r =
     finalize_report (capture_core_registers app_base k
       ((experiment_telemetry_refresh_metadata c r)\<lparr>et_last_update_result := result\<rparr>))"

definition print_u32_field :: "string \<Rightarrow> u32 \<Rightarrow> bytes" where
  "print_u32_field name v = uart_puts (ascii name) @ [0x3D] @ uart_put_hex32 v @ uart_puts [0x0A]"

definition experiment_telemetry_print :: "experiment_telemetry_report \<Rightarrow> bytes" where
  "experiment_telemetry_print r =
     concat (map (\<lambda>(name, v). print_u32_field name v)
       [(''format_version'', et_format_version r), (''boot_counter'', et_boot_counter r),
        (''reset_cause'', et_reset_cause r), (''selected_slot'', et_selected_slot r),
        (''confirmed_slot'', et_confirmed_slot r), (''candidate_slot'', et_candidate_slot r),
        (''metadata_state'', et_metadata_state r), (''metadata_sequence'', et_metadata_sequence r),
        (''remaining_trial_attempts'', et_remaining_trial_attempts r), (''image_version'', et_image_version r),
        (''vtor'', et_vtor r), (''msp'', et_msp r), (''psp'', et_psp r), (''control'', et_control r),
        (''primask'', et_primask r), (''basepri'', et_basepri r), (''faultmask'', et_faultmask r),
        (''integrity_scan_status'', et_integrity_scan_status r), (''first_changed_region'', et_first_changed_region r),
        (''last_boot_policy_result'', et_last_boot_policy_result r), (''last_update_result'', et_last_update_result r),
        (''trusted_state_flags'', et_trusted_state_flags r),
        (''untrusted_observation_flags'', et_untrusted_observation_flags r), (''commit_marker'', et_commit_marker r),
        (''report_crc'', et_report_crc r)])"

section \<open>Fault record\<close>

text \<open>The words of the record between the sequence number and the CRC, in the order of the structure.\<close>

record fault_record =
  fr_magic :: u32
  fr_version :: u32
  fr_sequence :: u32
  fr_reset_cause :: u32
  fr_stacked :: "u32 list"
  fr_core :: "u32 list"
  fr_status :: "u32 list"
  fr_crc32 :: u32

abbreviation (input) FAULT_MAGIC :: u32 where "FAULT_MAGIC \<equiv> 0x46544C52"

definition fault_crc_bit :: "u32 \<Rightarrow> u32" where
  "fault_crc_bit c = drop_bit 1 c XOR (if c AND 1 \<noteq> 0 then 0xEDB88320 else 0)"

definition fault_crc32 :: "bytes \<Rightarrow> u32" where
  "fault_crc32 p = foldl (\<lambda>c b. (fault_crc_bit ^^ 8) (c XOR ucast b)) 0xFFFFFFFF p XOR 0xFFFFFFFF"

definition record_crc :: "fault_record \<Rightarrow> u32" where
  "record_crc r =
     fault_crc32 (concat (map le32
       ([fr_magic r, fr_version r, fr_sequence r, fr_reset_cause r] @ fr_stacked r @ fr_core r @ fr_status r)))"

definition fault_valid :: "fault_record \<Rightarrow> bool" where
  "fault_valid r \<longleftrightarrow> fr_magic r = FAULT_MAGIC \<and> fr_version r = 1 \<and> fr_crc32 r = record_crc r"

definition fault_clear :: "fault_record \<Rightarrow> fault_record" where
  "fault_clear r = r\<lparr>fr_magic := 0\<rparr>"

text \<open>
  The handler: the eight stacked words (r0 to r3, r12, lr, pc, xpsr), the core registers (msp, psp,
  control, primask, basepri, faultmask) and the status registers (cfsr, hfsr, dfsr, mmfar, bfar,
  afsr). It then loops until the watchdog resets the device.
\<close>

definition fault_capture :: "u32 \<Rightarrow> u32 list \<Rightarrow> core_registers \<Rightarrow> u32 list \<Rightarrow> fault_record \<Rightarrow> fault_record" where
  "fault_capture rcc_csr stack k scb r =
     (let r1 = r\<lparr>fr_magic := FAULT_MAGIC, fr_version := 1, fr_sequence := fr_sequence r + 1, fr_reset_cause := rcc_csr,
                 fr_stacked := take 8 stack,
                 fr_core := [core_msp k, core_psp k, core_control k, core_primask k, core_basepri k, core_faultmask k],
                 fr_status := scb\<rparr>
      in r1\<lparr>fr_crc32 := record_crc r1\<rparr>)"

definition fault_show :: "fault_record \<Rightarrow> bytes" where
  "fault_show r =
     (if \<not> fault_valid r then uart_puts (ascii ''fault: none'' @ [0x0A])
      else uart_puts (ascii ''fault: valid seq='') @ uart_put_u32 (fr_sequence r) @
           uart_puts (ascii '' pc='') @ uart_put_hex32 (fr_stacked r ! 6) @
           uart_puts (ascii '' cfsr='') @ uart_put_hex32 (fr_status r ! 0) @
           uart_puts (ascii '' hfsr='') @ uart_put_hex32 (fr_status r ! 1) @ uart_puts [0x0A])"

section \<open>Validity and counting\<close>

lemma capture_fields [simp]:
  "et_magic (capture_core_registers b k r) = et_magic r" "et_format_version (capture_core_registers b k r) = et_format_version r"
  "et_boot_counter (capture_core_registers b k r) = et_boot_counter r"
  "et_trusted_state_flags (capture_core_registers b k r) = et_trusted_state_flags r"
  by (simp_all add: capture_core_registers_def Let_def)

lemma refresh_fields [simp]:
  "et_magic (experiment_telemetry_refresh_metadata c r) = et_magic r"
  "et_format_version (experiment_telemetry_refresh_metadata c r) = et_format_version r"
  "et_boot_counter (experiment_telemetry_refresh_metadata c r) = et_boot_counter r"
  by (simp_all add: experiment_telemetry_refresh_metadata_def raise_trust_def observe_record_def Let_def
      split: sum.splits option.splits prod.splits)

lemma finalize_fields [simp]:
  "et_magic (finalize_report r) = et_magic r" "et_format_version (finalize_report r) = et_format_version r"
  "et_boot_counter (finalize_report r) = et_boot_counter r"
  "et_trusted_state_flags (finalize_report r) = et_trusted_state_flags r"
  by (simp_all add: finalize_report_def)

lemma finalize_valid:
  "et_magic r = TELEMETRY_MAGIC \<Longrightarrow> et_format_version r = 1 \<Longrightarrow> experiment_telemetry_report_valid (finalize_report r)"
  by (simp add: experiment_telemetry_report_valid_def finalize_report_def report_crc_without_crc_def report_words_def)

text \<open>The operations on the report: a boot, and the two updates the running application makes.\<close>

datatype telemetry_op =
    TELEMETRY_BOOT core_registers host_context u32
  | TELEMETRY_BOOT_POLICY core_registers u32
  | TELEMETRY_CONFIRMATION core_registers host_context u32

fun telemetry_step :: "u32 \<Rightarrow> telemetry_op \<Rightarrow> experiment_telemetry_report \<Rightarrow> experiment_telemetry_report" where
  "telemetry_step b (TELEMETRY_BOOT k c csr) r = experiment_telemetry_init b k c csr r"
| "telemetry_step b (TELEMETRY_BOOT_POLICY k x) r = experiment_telemetry_set_boot_policy_result b k x r"
| "telemetry_step b (TELEMETRY_CONFIRMATION k c x) r = experiment_telemetry_set_confirmation_result b k c x r"

fun is_boot :: "telemetry_op \<Rightarrow> bool" where
  "is_boot (TELEMETRY_BOOT k c csr) = True"
| "is_boot (TELEMETRY_BOOT_POLICY k x) = False"
| "is_boot (TELEMETRY_CONFIRMATION k c x) = False"

definition report_ok :: "nat \<Rightarrow> experiment_telemetry_report \<Rightarrow> bool" where
  "report_ok n r \<longleftrightarrow> et_magic r = TELEMETRY_MAGIC \<and> et_format_version r = 1 \<and> experiment_telemetry_report_valid r \<and>
     unat (et_boot_counter r) = min n SIZE_MAX"

lemma telemetry_step_ok:
  assumes "report_ok n r"
  shows "report_ok (if is_boot op then Suc n else n) (telemetry_step b op r)"
proof (cases op)
  case (TELEMETRY_BOOT k c csr)
  have "unat (next_boot_counter r) = min (Suc n) SIZE_MAX"
    using assms u32_unat_bound [of "et_boot_counter r"]
    by (auto simp: report_ok_def next_boot_counter_def word_unat_eq_iff unat_word_ariths min_def split: if_splits)
  with TELEMETRY_BOOT show ?thesis by (simp add: report_ok_def experiment_telemetry_init_def finalize_valid)
qed (use assms in \<open>simp_all add: report_ok_def experiment_telemetry_set_boot_policy_result_def
    experiment_telemetry_set_confirmation_result_def finalize_valid\<close>)

text \<open>
  The telemetry report: from the first boot with an invalid report on, the report is valid
  after every operation, and its boot counter is the number of boots so far, saturating at the
  largest 32-bit number.
\<close>

theorem boot_counter_counts_boots:
  assumes "\<not> experiment_telemetry_report_valid r"
  shows "experiment_telemetry_report_valid (fold (telemetry_step b) (TELEMETRY_BOOT k c csr # ops) r) \<and>
    unat (et_boot_counter (fold (telemetry_step b) (TELEMETRY_BOOT k c csr # ops) r)) =
      min (Suc (length (filter is_boot ops))) SIZE_MAX"
proof -
  have "report_ok (n + length (filter is_boot ops)) (fold (telemetry_step b) ops r')" if "report_ok n r'" for n r'
    using that
  proof (induction ops arbitrary: n r')
    case (Cons op ops)
    from Cons.IH [OF telemetry_step_ok [OF Cons.prems, of op b]] show ?case by (cases "is_boot op") simp_all
  qed simp
  moreover have "report_ok 1 (telemetry_step b (TELEMETRY_BOOT k c csr) r)"
    using assms by (simp add: report_ok_def experiment_telemetry_init_def finalize_valid next_boot_counter_def)
  ultimately have "report_ok (1 + length (filter is_boot ops)) (fold (telemetry_step b) ops (telemetry_step b (TELEMETRY_BOOT k c csr) r))"
    by blast
  then show ?thesis by (simp add: report_ok_def)
qed

text \<open>Exactly one of the three trust flags is set after a refresh.\<close>

lemma one_flag:
  fixes x f :: u32
  assumes "f AND 7 = f" shows "(x AND NOT (1 OR 2 OR 4) OR f) AND 7 = f"
proof -
  have 7: "(1 OR 2 OR 4 :: u32) = 7" by simp
  have "(x AND NOT m OR f) AND m = f" if "f AND m = f" for m
  proof (rule bit_word_eqI)
    fix n assume "n < LENGTH(32)"
    moreover have "bit f n \<Longrightarrow> bit m n" using that by (metis bit_and_iff)
    ultimately show "bit ((x AND NOT m OR f) AND m) n = bit f n" by (auto simp: bit_and_iff bit_or_iff bit_not_iff)
  qed
  from this [OF assms] show ?thesis unfolding 7 .
qed

lemma refresh_trust: "et_trusted_state_flags (experiment_telemetry_refresh_metadata c r) AND 7 \<in> {1, 2, 4}"
proof -
  let ?x = "et_trusted_state_flags r AND NOT (1 OR 2 OR 4)"
  have "\<exists>f \<in> {1, 2, 4}. et_trusted_state_flags (experiment_telemetry_refresh_metadata c r) = ?x OR f"
    unfolding experiment_telemetry_refresh_metadata_def raise_trust_def observe_record_def Let_def
    by (auto split: sum.split option.split prod.split)
  then obtain f where f: "f \<in> {1, 2, 4}" "et_trusted_state_flags (experiment_telemetry_refresh_metadata c r) = ?x OR f" by blast
  have "f AND 7 = f" using f(1) by auto
  from one_flag [OF this, of "et_trusted_state_flags r"] f show ?thesis by simp
qed

text \<open>
  The observation flags only accumulate: a later sample in which VTOR or the stack pointers are wrong
  leaves the flags of an earlier, good sample set.
\<close>

lemma observations_accumulate:
  "et_untrusted_observation_flags (experiment_telemetry_set_boot_policy_result b k x r) AND et_untrusted_observation_flags r =
     et_untrusted_observation_flags r"
  by (rule bit_word_eqI)
    (auto simp: experiment_telemetry_set_boot_policy_result_def finalize_report_def capture_core_registers_def Let_def bit_and_iff bit_or_iff)

section \<open>Faults\<close>

lemma fault_crc_bit_is_crc32_bit: "fault_crc_bit = crc32_bit"
proof
  fix c :: u32
  have "c AND 1 = 0 \<or> c AND 1 = 1" by (simp add: and_one_eq mod_2_eq_odd)
  then show "fault_crc_bit c = crc32_bit c"
    by (auto simp: fault_crc_bit_def crc32_bit_def Let_def)
qed

lemma fault_crc32_is_crc32: "fault_crc32 p = crc32_update 0 p"
proof -
  have "x XOR 0xFFFFFFFF = NOT x" for x :: u32
  proof -
    have "(0xFFFFFFFF :: u32) = - 1" by simp
    then show ?thesis by (simp only: bit.xor_one_right)
  qed
  moreover have "NOT (0 :: u32) = 0xFFFFFFFF" by simp
  ultimately show ?thesis
    unfolding fault_crc32_def crc32_update_def crc32_byte_def [abs_def] fault_crc_bit_is_crc32_bit by (simp only:)
qed

lemma fault_capture_valid: "fault_valid (fault_capture csr stack k scb r)"
  by (simp add: fault_valid_def fault_capture_def record_crc_def Let_def)

lemma fault_clear_invalid: "\<not> fault_valid (fault_clear r)"
  by (simp add: fault_valid_def fault_clear_def)

end
