(* ===== verification/Runtime_Monitor.thy ===== *)
theory Runtime_Monitor
  imports Vector_Monitor Platform_Health Platform_Telemetry
begin

text \<open>
  The state of the research application and its runtime monitor (\<^verbatim>\<open>runtime_monitor.c\<close>), in the build
  the Makefile makes by default: the monitor and its vector-table part enabled. What the preprocessor
  and the linker decide is the record \<open>build\<close>; the registers and the memory an operation reads are the
  record \<open>hw\<close>, sampled once for each call from the main loop or the console. The static variables of all
  the modules together are the record \<open>platform\<close>, with the bytes sent over the UART as its last part.

  Lemmas: the public status is readable line by line and holds what the snapshots say; a vector
  failure raises the security state and is counted.
\<close>

section \<open>Build, hardware and state\<close>

datatype test_scenario =
    SCENARIO_NORMAL
  | SCENARIO_TRIAL_SUCCESS
  | SCENARIO_TRIAL_NO_CONFIRM
  | SCENARIO_TRIAL_HARDFAULT
  | SCENARIO_TRIAL_WATCHDOG_HANG
  | SCENARIO_TRIAL_SOFTWARE_RESET
  | SCENARIO_TRIAL_HEALTH_FAIL
  | SCENARIO_TRIAL_INVALID_VECTOR
  | SCENARIO_TRIAL_DELAYED_CONFIRM
  | SCENARIO_MPU_NULL_ACCESS
  | SCENARIO_MPU_EXECUTE_SRAM
  | SCENARIO_MPU_WRITE_BOOTLOADER
  | SCENARIO_MPU_WRITE_METADATA
  | SCENARIO_MPU_STACK_GUARD
  | SCENARIO_MPU_VALID_APPLICATION

record build =
  PLATFORM_APP_BASE :: u32
  RSM_RESTRICTED_DIAGNOSTICS :: bool
  CONFIRMATION_DELAY_TICKS :: u32
  TEST_SCENARIO :: test_scenario
  vector_table :: u32
  vector_symbols :: "u32 list"
  stack_guard_start :: u32
  short_enums :: bool

record hw =
  hw32 :: "u32 \<Rightarrow> u32"
  hw16 :: "u32 \<Rightarrow> u16"
  hw_core :: core_registers

record runtime_monitor =
  monitor_reset_csr :: u32
  monitor_self_tests_passed :: bool
  monitor_initialized :: bool
  security_counters :: rsm_security_counters
  vector_monitor :: rsm_vector_monitor
  vector_cycle_pass_event_logged :: bool

record platform =
  p_ticks :: u32
  p_line :: bytes
  p_line_length :: nat
  p_boot_reset_csr :: u32
  p_self_tests :: bool
  p_early_init_done :: bool
  p_critical_failure :: bool
  p_stable_point :: bool
  p_confirmation_terminal :: bool
  p_uart_ready :: bool
  p_monitor_ready :: bool
  p_mpu_ready :: bool
  p_watchdog_ready :: bool
  p_last_reported :: u8
  p_watchdog_active :: bool
  p_iwdg_writes :: "(u32 \<times> u32) list"
  p_log :: platform_log
  p_health :: platform_health
  p_monitor :: runtime_monitor
  p_report :: experiment_telemetry_report
  p_confirmation :: platform_confirmation_snapshot
  p_mpu :: mpu
  p_fault :: fault_record
  p_flash :: host_context
  p_out :: bytes

abbreviation (input) CPUID_ADDR :: u32 where "CPUID_ADDR \<equiv> 0xE000ED00"
abbreviation (input) VTOR_ADDR :: u32 where "VTOR_ADDR \<equiv> 0xE000ED08"
abbreviation (input) CPACR_ADDR :: u32 where "CPACR_ADDR \<equiv> 0xE000ED88"
abbreviation (input) MPU_TYPE_ADDR :: u32 where "MPU_TYPE_ADDR \<equiv> 0xE000ED90"
abbreviation (input) FLASH_ACR_ADDR :: u32 where "FLASH_ACR_ADDR \<equiv> 0x40023C00"
abbreviation (input) FLASH_OPTCR_ADDR :: u32 where "FLASH_OPTCR_ADDR \<equiv> 0x40023C14"
abbreviation (input) RCC_CFGR_ADDR :: u32 where "RCC_CFGR_ADDR \<equiv> 0x40023808"
abbreviation (input) UID0_ADDR :: u32 where "UID0_ADDR \<equiv> 0x1FFF7A10"
abbreviation (input) UID1_ADDR :: u32 where "UID1_ADDR \<equiv> 0x1FFF7A14"
abbreviation (input) UID2_ADDR :: u32 where "UID2_ADDR \<equiv> 0x1FFF7A18"
abbreviation (input) FLASH_SIZE_KB_ADDR :: u32 where "FLASH_SIZE_KB_ADDR \<equiv> 0x1FFF7A22"
abbreviation (input) DBGMCU_ID_ADDR :: u32 where "DBGMCU_ID_ADDR \<equiv> 0xE0042000"

definition say :: "bytes \<Rightarrow> platform \<Rightarrow> platform" where
  "say t p = p\<lparr>p_out := p_out p @ t\<rparr>"

definition log_event :: "log_severity \<Rightarrow> u16 \<Rightarrow> u16 \<Rightarrow> bytes option \<Rightarrow> u8 \<Rightarrow> platform \<Rightarrow> platform" where
  "log_event severity source event payload n p =
     p\<lparr>p_log := log_write (p_ticks p) severity source event payload n (p_log p)\<rparr>"

definition RSM_PLATFORM_APP_END :: "build \<Rightarrow> u32" where
  "RSM_PLATFORM_APP_END b =
     (if PLATFORM_APP_BASE b = SLOT_A_PAYLOAD_BASE then SLOT_A_END
      else if PLATFORM_APP_BASE b = SLOT_B_PAYLOAD_BASE then SLOT_B_END
      else PLATFORM_APP_BASE b)"

definition vector_entry_kinds :: "u8 list" where
  "vector_entry_kinds =
     [RSM_VECTOR_ENTRY_INITIAL_MSP, RSM_VECTOR_ENTRY_HANDLER, RSM_VECTOR_ENTRY_HANDLER, RSM_VECTOR_ENTRY_HANDLER,
      RSM_VECTOR_ENTRY_HANDLER, RSM_VECTOR_ENTRY_HANDLER, RSM_VECTOR_ENTRY_HANDLER, RSM_VECTOR_ENTRY_RESERVED,
      RSM_VECTOR_ENTRY_RESERVED, RSM_VECTOR_ENTRY_RESERVED, RSM_VECTOR_ENTRY_RESERVED, RSM_VECTOR_ENTRY_HANDLER,
      RSM_VECTOR_ENTRY_HANDLER, RSM_VECTOR_ENTRY_RESERVED, RSM_VECTOR_ENTRY_HANDLER, RSM_VECTOR_ENTRY_HANDLER]"

section \<open>Output callbacks\<close>

definition output_putc :: "platform \<Rightarrow> u8 \<Rightarrow> platform" where
  "output_putc p v = say ((if v = 0x0A then [0x0D] else []) @ [v]) p"

definition output_puts :: "platform \<Rightarrow> bytes \<Rightarrow> platform" where
  "output_puts p t = say (uart_puts t) p"

definition uart_output :: "platform rsm_output" where
  "uart_output = \<lparr>out_putc = output_putc, out_puts = output_puts\<rparr>"

definition monitor_kv_str :: "string \<Rightarrow> bytes \<Rightarrow> platform \<Rightarrow> platform" where
  "monitor_kv_str key v = say (uart_puts (ascii key) @ [0x3D] @ uart_puts v @ uart_puts [0x0A])"

definition monitor_kv_u32 :: "string \<Rightarrow> u32 \<Rightarrow> platform \<Rightarrow> platform" where
  "monitor_kv_u32 key v = say (uart_puts (ascii key) @ [0x3D] @ uart_put_u32 v @ uart_puts [0x0A])"

definition monitor_kv_hex32 :: "string \<Rightarrow> u32 \<Rightarrow> platform \<Rightarrow> platform" where
  "monitor_kv_hex32 key v = say (uart_puts (ascii key) @ [0x3D] @ uart_put_hex32 v @ uart_puts [0x0A])"

section \<open>Vector part\<close>

definition runtime_slot :: "build \<Rightarrow> u32" where
  "runtime_slot b =
     (if PLATFORM_APP_BASE b = SLOT_A_PAYLOAD_BASE then slot_num BOOT_SLOT_A
      else if PLATFORM_APP_BASE b = SLOT_B_PAYLOAD_BASE then slot_num BOOT_SLOT_B
      else BOOT_SLOT_NONE)"

definition vector_snapshot :: "platform \<Rightarrow> rsm_vector_snapshot" where
  "vector_snapshot p = rsm_vector_monitor_get_snapshot (vector_monitor (p_monitor p))"

definition vector_check_passed :: "platform \<Rightarrow> bool" where
  "vector_check_passed p \<longleftrightarrow>
     vs_available (vector_snapshot p) \<and> \<not> vs_latched_failure (vector_snapshot p) \<and>
     vs_status (vector_snapshot p) = RSM_VECTOR_PASS"

fun health_name_public :: "platform_health_state \<Rightarrow> bytes" where
  "health_name_public PLATFORM_BOOTING = ascii ''booting''"
| "health_name_public PLATFORM_HEALTHY = ascii ''healthy''"
| "health_name_public PLATFORM_DEGRADED = ascii ''degraded''"
| "health_name_public PLATFORM_UPDATING = ascii ''updating''"
| "health_name_public PLATFORM_RECOVERY = ascii ''recovery''"
| "health_name_public PLATFORM_TEST_RUNNING = ascii ''test_running''"
| "health_name_public PLATFORM_FAULT = ascii ''fault''"
| "health_name_public PLATFORM_SECURITY_FAILURE = ascii ''security_failure''"

text \<open>The symbols in the order of the handlers; the reserved entries are zero.\<close>

definition load_expected_vector_entries :: "build \<Rightarrow> u32 list" where
  "load_expected_vector_entries b =
     take 7 (vector_symbols b) @ [0, 0, 0, 0] @ [vector_symbols b ! 7, vector_symbols b ! 8, 0, vector_symbols b ! 9,
       vector_symbols b ! 10]"

fun vector_event_for_status :: "rsm_vector_status \<Rightarrow> u16" where
  "vector_event_for_status RSM_VECTOR_VTOR_MISMATCH = RSM_EVENT_VECTOR_VTOR_MISMATCH"
| "vector_event_for_status RSM_VECTOR_ALIGNMENT_FAILURE = RSM_EVENT_VECTOR_ALIGNMENT_FAILURE"
| "vector_event_for_status RSM_VECTOR_INITIAL_MSP_INVALID = RSM_EVENT_VECTOR_INITIAL_MSP_INVALID"
| "vector_event_for_status RSM_VECTOR_HANDLER_RANGE_FAILURE = RSM_EVENT_VECTOR_HANDLER_RANGE_FAILURE"
| "vector_event_for_status RSM_VECTOR_THUMB_BIT_FAILURE = RSM_EVENT_VECTOR_THUMB_BIT_FAILURE"
| "vector_event_for_status RSM_VECTOR_ENTRY_CHANGED = RSM_EVENT_VECTOR_ENTRY_CHANGED"
| "vector_event_for_status RSM_VECTOR_BASELINE_UNAVAILABLE = RSM_EVENT_VECTOR_BASELINE_UNAVAILABLE"
| "vector_event_for_status RSM_VECTOR_PASS = RSM_EVENT_VECTOR_BASELINE_UNAVAILABLE"
| "vector_event_for_status RSM_VECTOR_UNINITIALIZED = RSM_EVENT_VECTOR_BASELINE_UNAVAILABLE"

fun vector_severity_for_status :: "rsm_vector_status \<Rightarrow> rsm_severity" where
  "vector_severity_for_status RSM_VECTOR_BASELINE_UNAVAILABLE = RSM_SEVERITY_WARNING"
| "vector_severity_for_status RSM_VECTOR_ENTRY_CHANGED = RSM_SEVERITY_CRITICAL"
| "vector_severity_for_status RSM_VECTOR_VTOR_MISMATCH = RSM_SEVERITY_CRITICAL"
| "vector_severity_for_status RSM_VECTOR_INITIAL_MSP_INVALID = RSM_SEVERITY_ERROR"
| "vector_severity_for_status RSM_VECTOR_HANDLER_RANGE_FAILURE = RSM_SEVERITY_ERROR"
| "vector_severity_for_status RSM_VECTOR_THUMB_BIT_FAILURE = RSM_SEVERITY_ERROR"
| "vector_severity_for_status RSM_VECTOR_ALIGNMENT_FAILURE = RSM_SEVERITY_ERROR"
| "vector_severity_for_status RSM_VECTOR_PASS = RSM_SEVERITY_WARNING"
| "vector_severity_for_status RSM_VECTOR_UNINITIALIZED = RSM_SEVERITY_WARNING"

fun vector_status_code :: "rsm_vector_status \<Rightarrow> u32" where
  "vector_status_code RSM_VECTOR_UNINITIALIZED = 0"
| "vector_status_code RSM_VECTOR_PASS = 1"
| "vector_status_code RSM_VECTOR_VTOR_MISMATCH = 2"
| "vector_status_code RSM_VECTOR_ALIGNMENT_FAILURE = 3"
| "vector_status_code RSM_VECTOR_INITIAL_MSP_INVALID = 4"
| "vector_status_code RSM_VECTOR_HANDLER_RANGE_FAILURE = 5"
| "vector_status_code RSM_VECTOR_THUMB_BIT_FAILURE = 6"
| "vector_status_code RSM_VECTOR_ENTRY_CHANGED = 7"
| "vector_status_code RSM_VECTOR_BASELINE_UNAVAILABLE = 8"

fun map_severity :: "rsm_severity \<Rightarrow> log_severity" where
  "map_severity RSM_SEVERITY_DEBUG = LOG_DEBUG"
| "map_severity RSM_SEVERITY_INFO = LOG_INFO"
| "map_severity RSM_SEVERITY_WARNING = LOG_WARNING"
| "map_severity RSM_SEVERITY_ERROR = LOG_ERROR"
| "map_severity RSM_SEVERITY_CRITICAL = LOG_CRITICAL"

definition runtime_monitor_log_event ::
    "u16 \<Rightarrow> rsm_severity \<Rightarrow> bytes option \<Rightarrow> u8 \<Rightarrow> platform \<Rightarrow> rsm_status \<times> platform" where
  "runtime_monitor_log_event event_id severity payload n p =
     (if n > RSM_EVENT_PAYLOAD_SIZE then (RSM_STATUS_INVALID_ARGUMENT, p)
      else (RSM_STATUS_OK, log_event (map_severity severity) (ucast (rsm_event_domain event_id)) event_id payload n p))"

definition update_counters :: "(rsm_security_counters \<Rightarrow> rsm_security_counters) \<Rightarrow> platform \<Rightarrow> platform" where
  "update_counters f p = p\<lparr>p_monitor := (p_monitor p)\<lparr>security_counters := f (security_counters (p_monitor p))\<rparr>\<rparr>"

definition increment_vector_table_change_counter :: "platform \<Rightarrow> platform" where
  "increment_vector_table_change_counter =
     update_counters (\<lambda>k. case rsm_saturating_increment (vector_table_changes k) of (v, saturated) \<Rightarrow>
       k\<lparr>vector_table_changes := v,
         saturation_flags := (if saturated then saturation_flags k OR 4 else saturation_flags k)\<rparr>)"

definition log_vector_finding :: "rsm_vector_snapshot \<Rightarrow> platform \<Rightarrow> platform" where
  "log_vector_finding s p =
     snd (runtime_monitor_log_event (vector_event_for_status (vs_status s)) (vector_severity_for_status (vs_status s))
       (Some (le32 (vector_status_code (vs_status s)) @ le32 (vs_failing_index s))) 8 p)"

definition apply_vector_health_state :: "rsm_vector_status \<Rightarrow> platform \<Rightarrow> platform" where
  "apply_vector_health_state status p =
     (if status = RSM_VECTOR_BASELINE_UNAVAILABLE
      then p\<lparr>p_health := platform_health_set_state PLATFORM_DEGRADED (p_health p)\<rparr>
      else if status \<noteq> RSM_VECTOR_PASS \<and> status \<noteq> RSM_VECTOR_UNINITIALIZED
      then p\<lparr>p_health := platform_health_report_security_failure (p_health p)\<rparr>
      else p)"

definition handle_vector_failure_effects :: "rsm_vector_snapshot \<Rightarrow> platform \<Rightarrow> platform" where
  "handle_vector_failure_effects s p =
     apply_vector_health_state (vs_status s) (log_vector_finding s (increment_vector_table_change_counter p))"

definition vector_config :: "build \<Rightarrow> rsm_vector_config" where
  "vector_config b =
     \<lparr>vc_expected_vtor = PLATFORM_APP_BASE b, vc_vtor_alignment = 0x100, vc_sram_base = APPLICATION_MSP_BASE,
      vc_sram_end = APPLICATION_MSP_END, vc_msp_alignment = APPLICATION_MSP_ALIGNMENT,
      vc_executable_flash_base = PLATFORM_APP_BASE b, vc_executable_flash_end = RSM_PLATFORM_APP_END b,
      vc_entry_count = RSM_VECTOR_TABLE_ENTRY_COUNT, vc_table = Some (vector_table b),
      vc_expected_entries = Some (load_expected_vector_entries b), vc_entry_kinds = Some vector_entry_kinds\<rparr>"

definition runtime_monitor_vector_init :: "build \<Rightarrow> hw \<Rightarrow> platform \<Rightarrow> platform" where
  "runtime_monitor_vector_init b h p0 =
     (let m = snd (rsm_vector_monitor_init (hw32 h) (Some (vector_config b)) (hw32 h VTOR_ADDR) (log_last_sequence (p_log p0)));
          p = p0\<lparr>p_monitor := (p_monitor p0)\<lparr>vector_monitor := m, vector_cycle_pass_event_logged := False\<rparr>\<rparr>;
          s = rsm_vector_monitor_get_snapshot m
      in if vs_available s \<and> \<not> vs_latched_failure s \<and> vs_status s = RSM_VECTOR_PASS
         then snd (runtime_monitor_log_event RSM_EVENT_VECTOR_MONITOR_INITIALIZED RSM_SEVERITY_INFO None 0 p)
         else handle_vector_failure_effects s p)"

definition runtime_monitor_vector_periodic :: "hw \<Rightarrow> platform \<Rightarrow> platform" where
  "runtime_monitor_vector_periodic h p0 =
     (let before = rsm_vector_monitor_get_snapshot (vector_monitor (p_monitor p0));
          m = snd (rsm_vector_monitor_step (hw32 h) (hw32 h VTOR_ADDR) (log_last_sequence (p_log p0))
                RSM_VECTOR_DEFAULT_STEP_BUDGET (vector_monitor (p_monitor p0)));
          after = rsm_vector_monitor_get_snapshot m;
          p1 = p0\<lparr>p_monitor := (p_monitor p0)\<lparr>vector_monitor := m\<rparr>\<rparr>;
          p2 = (if vs_failure_count after \<noteq> vs_failure_count before then handle_vector_failure_effects after p1 else p1)
      in if \<not> vector_cycle_pass_event_logged (p_monitor p2) \<and> vs_check_count after \<noteq> vs_check_count before \<and>
            \<not> vs_latched_failure after \<and> vs_status after = RSM_VECTOR_PASS
         then (let p3 = snd (runtime_monitor_log_event RSM_EVENT_VECTOR_FULL_CYCLE_PASSED RSM_SEVERITY_DEBUG None 0 p2)
               in p3\<lparr>p_monitor := (p_monitor p3)\<lparr>vector_cycle_pass_event_logged := True\<rparr>\<rparr>)
         else p2)"

section \<open>Monitor\<close>

definition firmware_version_from_telemetry :: "platform \<Rightarrow> u32" where
  "firmware_version_from_telemetry p =
     (if et_image_version (p_report p) \<noteq> 0 then et_image_version (p_report p) else 0)"

definition refresh_event_counter_snapshot :: "platform \<Rightarrow> platform" where
  "refresh_event_counter_snapshot p =
     update_counters (\<lambda>k. k\<lparr>event_log_overflows := log_dropped (p_log p),
       saturation_flags := (if log_dropped (p_log p) = UINT32_MAX then saturation_flags k OR 2 else saturation_flags k)\<rparr>) p"

definition runtime_monitor_init :: "build \<Rightarrow> hw \<Rightarrow> u32 \<Rightarrow> bool \<Rightarrow> platform \<Rightarrow> rsm_status \<times> platform" where
  "runtime_monitor_init b h reset_csr boot_self_tests_passed p0 =
     (let p1 = p0\<lparr>p_monitor := (p_monitor p0)\<lparr>monitor_reset_csr := reset_csr,
                  monitor_self_tests_passed := boot_self_tests_passed, monitor_initialized := True\<rparr>\<rparr>;
          p2 = runtime_monitor_vector_init b h p1
      in (RSM_STATUS_OK, snd (runtime_monitor_log_event RSM_EVENT_EVIDENCE_RUNTIME_READY RSM_SEVERITY_INFO None 0 p2)))"

definition runtime_monitor_periodic :: "hw \<Rightarrow> platform \<Rightarrow> platform" where
  "runtime_monitor_periodic h p = runtime_monitor_vector_periodic h (refresh_event_counter_snapshot p)"

record rsm_statistics =
  st_event_count :: u32
  st_event_dropped :: u32
  st_last_event_sequence :: u32
  st_security_counters :: rsm_security_counters

definition runtime_monitor_get_statistics :: "platform \<Rightarrow> rsm_statistics \<times> platform" where
  "runtime_monitor_get_statistics p =
     (let p' = refresh_event_counter_snapshot p
      in (\<lparr>st_event_count = log_count (p_log p), st_event_dropped = log_dropped (p_log p),
           st_last_event_sequence = log_last_sequence (p_log p), st_security_counters = security_counters (p_monitor p')\<rparr>, p'))"

record rsm_hardware_info =
  hi_device_id :: u32
  hi_revision_id :: u32
  hi_flash_kib :: u32
  hi_cpuid :: u32
  hi_uid_fingerprint :: u32
  hi_hclk_hz :: u32
  hi_active_slot :: u32
  hi_firmware_version :: u32
  hi_fpu_enabled :: bool
  hi_mpu_present :: bool
  hi_mpu_enabled :: bool
  hi_hclk_available :: bool

definition runtime_monitor_get_hardware_info :: "build \<Rightarrow> hw \<Rightarrow> platform \<Rightarrow> rsm_hardware_info" where
  "runtime_monitor_get_hardware_info b h p =
     \<lparr>hi_device_id = hw32 h DBGMCU_ID_ADDR AND 0x0FFF,
      hi_revision_id = drop_bit 16 (hw32 h DBGMCU_ID_ADDR) AND 0xFFFF,
      hi_flash_kib = ucast (hw16 h FLASH_SIZE_KB_ADDR),
      hi_cpuid = hw32 h CPUID_ADDR,
      hi_uid_fingerprint = rsm_uid_fingerprint_words (hw32 h UID0_ADDR) (hw32 h UID1_ADDR) (hw32 h UID2_ADDR),
      hi_hclk_hz = snd (rsm_hclk_hz_from_cfgr (hw32 h RCC_CFGR_ADDR)),
      hi_active_slot = runtime_slot b,
      hi_firmware_version = firmware_version_from_telemetry p,
      hi_fpu_enabled = (drop_bit 20 (hw32 h CPACR_ADDR) AND 0xF = 0xF),
      hi_mpu_present = (hw32 h MPU_TYPE_ADDR AND 0xFF00 \<noteq> 0),
      hi_mpu_enabled = (mpu_ctrl (p_mpu p) AND 1 \<noteq> 0),
      hi_hclk_available = fst (rsm_hclk_hz_from_cfgr (hw32 h RCC_CFGR_ADDR))\<rparr>"

record rsm_evidence_snapshot =
  ev_boot_sequence :: u32
  ev_last_event_sequence :: u32
  ev_reset_csr :: u32
  ev_active_slot :: u32
  ev_firmware_version :: u32
  ev_critical_events :: u32
  ev_vector_check_count :: u32
  ev_vector_failure_count :: u32
  ev_vector_last_successful_sequence :: u32
  ev_boot_self_tests_passed :: bool
  ev_flash_integrity_available :: bool
  ev_vector_check_passed :: bool
  ev_vector_monitor_available :: bool
  ev_vector_monitor_status :: rsm_vector_status
  ev_latched_vector_failure :: bool
  ev_stack_guard_available :: bool
  ev_option_policy_available :: bool
  ev_fault_record_valid :: bool

definition runtime_monitor_get_evidence :: "build \<Rightarrow> platform \<Rightarrow> rsm_evidence_snapshot \<times> platform" where
  "runtime_monitor_get_evidence b p =
     (case runtime_monitor_get_statistics p of (statistics, p') \<Rightarrow>
        let s = vector_snapshot p
        in (\<lparr>ev_boot_sequence = et_boot_counter (p_report p), ev_last_event_sequence = st_last_event_sequence statistics,
             ev_reset_csr = monitor_reset_csr (p_monitor p), ev_active_slot = runtime_slot b,
             ev_firmware_version = firmware_version_from_telemetry p, ev_critical_events = 0,
             ev_vector_check_count = vs_check_count s, ev_vector_failure_count = vs_failure_count s,
             ev_vector_last_successful_sequence = vs_last_successful_sequence s,
             ev_boot_self_tests_passed = monitor_self_tests_passed (p_monitor p),
             ev_flash_integrity_available = False, ev_vector_check_passed = vector_check_passed p,
             ev_vector_monitor_available = vs_available s, ev_vector_monitor_status = vs_status s,
             ev_latched_vector_failure = vs_latched_failure s, ev_stack_guard_available = mpu_policy_is_enabled (p_mpu p),
             ev_option_policy_available = False, ev_fault_record_valid = fault_valid (p_fault p)\<rparr>, p'))"

record rsm_status_snapshot =
  ss_schema_version :: u32
  ss_boot_sequence :: u32
  ss_last_event_sequence :: u32
  ss_reset_csr :: u32
  ss_active_slot :: u32
  ss_firmware_version :: u32
  ss_boot_self_tests_passed :: bool
  ss_fault_record_valid :: bool
  ss_vector_check_passed :: bool
  ss_vector_monitor_available :: bool
  ss_vector_monitor_status :: rsm_vector_status
  ss_latched_vector_failure :: bool

definition runtime_monitor_get_status :: "build \<Rightarrow> platform \<Rightarrow> rsm_status_snapshot" where
  "runtime_monitor_get_status b p =
     \<lparr>ss_schema_version = RSM_SCHEMA_VERSION, ss_boot_sequence = et_boot_counter (p_report p),
      ss_last_event_sequence = log_last_sequence (p_log p), ss_reset_csr = monitor_reset_csr (p_monitor p),
      ss_active_slot = runtime_slot b, ss_firmware_version = firmware_version_from_telemetry p,
      ss_boot_self_tests_passed = monitor_self_tests_passed (p_monitor p), ss_fault_record_valid = fault_valid (p_fault p),
      ss_vector_check_passed = vector_check_passed p, ss_vector_monitor_available = vs_available (vector_snapshot p),
      ss_vector_monitor_status = vs_status (vector_snapshot p),
      ss_latched_vector_failure = vs_latched_failure (vector_snapshot p)\<rparr>"

definition runtime_monitor_event_count :: "platform \<Rightarrow> u32" where
  "runtime_monitor_event_count p = log_count (p_log p)"

definition runtime_monitor_diagnostic_allowed :: "build \<Rightarrow> rsm_information_class \<Rightarrow> bool" where
  "runtime_monitor_diagnostic_allowed b information_class =
     rsm_information_allowed information_class (RSM_RESTRICTED_DIAGNOSTICS b)"

definition runtime_monitor_record_diagnostic_denial :: "rsm_information_class \<Rightarrow> platform \<Rightarrow> platform" where
  "runtime_monitor_record_diagnostic_denial information_class p =
     snd (runtime_monitor_log_event
       (if information_class = RSM_INFO_SECRET then RSM_EVENT_DIAG_SECRET_DENIED else RSM_EVENT_DIAG_RESTRICTED_DENIED)
       RSM_SEVERITY_WARNING None 0
       (update_counters (\<lambda>k. case rsm_saturating_increment (diagnostic_denials k) of (v, saturated) \<Rightarrow>
          k\<lparr>diagnostic_denials := v,
            saturation_flags := (if saturated then saturation_flags k OR 1 else saturation_flags k)\<rparr>) p))"

definition public_status :: "build \<Rightarrow> hw \<Rightarrow> platform \<Rightarrow> rsm_public_status_output" where
  "public_status b h p =
     (let hardware = runtime_monitor_get_hardware_info b h p; evidence = fst (runtime_monitor_get_evidence b p);
          statistics = fst (runtime_monitor_get_statistics p); vector = vector_snapshot p;
          version = firmware_version_from_telemetry p
      in \<lparr>ps_schema_version = RSM_SCHEMA_VERSION,
          ps_status = (if monitor_initialized (p_monitor p) then ascii ''ok'' else ascii ''unavailable''),
          ps_build_diagnostic_mode =
            (if RSM_RESTRICTED_DIAGNOSTICS b then ascii ''restricted_development'' else ascii ''production_default''),
          ps_device_family = ascii ''STM32F429'', ps_device_id = hi_device_id hardware,
          ps_revision_id = hi_revision_id hardware, ps_flash_kib = hi_flash_kib hardware,
          ps_uid_fingerprint = hi_uid_fingerprint hardware, ps_cpu_core = ascii ''Cortex-M4F'',
          ps_cpu_fpu = (if hi_fpu_enabled hardware then ascii ''enabled'' else ascii ''disabled''),
          ps_cpu_mpu = (if hi_mpu_enabled hardware then ascii ''enabled''
                        else if hi_mpu_present hardware then ascii ''disabled'' else ascii ''unavailable''),
          ps_cpu_clock_source = rsm_clock_source_name_from_cfgr (hw32 h RCC_CFGR_ADDR),
          ps_hclk_available = hi_hclk_available hardware, ps_hclk_hz = hi_hclk_hz hardware, ps_cpuid = hi_cpuid hardware,
          ps_boot_sequence = ev_boot_sequence evidence, ps_boot_slot = rsm_slot_name (ev_active_slot evidence),
          ps_firmware_version_available = (version \<noteq> 0), ps_firmware_version = version,
          ps_last_reset = rsm_reset_cause_name (ev_reset_csr evidence),
          ps_boot_self_tests = rsm_bool_pass_fail (ev_boot_self_tests_passed evidence),
          ps_security_flash = ascii ''unavailable'', ps_security_vectors = rsm_vector_public_status_name vector,
          ps_security_stack = (if ev_stack_guard_available evidence then ascii ''mpu_guard_enabled'' else ascii ''unavailable''),
          ps_security_option_policy = ascii ''unavailable'', ps_vector_status = rsm_vector_public_status_name vector,
          ps_vector_failure_class = rsm_vector_failure_class_name (vs_status vector),
          ps_vector_check_count = ev_vector_check_count evidence, ps_vector_failure_count = ev_vector_failure_count evidence,
          ps_vector_latched_failure = (if ev_latched_vector_failure evidence then ascii ''yes'' else ascii ''no''),
          ps_health_state = health_name_public (platform_health_get_state (p_health p)),
          ps_last_event_sequence = ev_last_event_sequence evidence,
          ps_last_fault = (if ev_fault_record_valid evidence then ascii ''valid'' else ascii ''none''),
          ps_timebase = ascii ''relative'', ps_boot_context = ascii ''verified_launch_assumed_no_mailbox'',
          ps_event_count = st_event_count statistics, ps_event_dropped = st_event_dropped statistics,
          ps_diagnostic_denials = diagnostic_denials (st_security_counters statistics),
          ps_event_log_overflows = event_log_overflows (st_security_counters statistics),
          ps_restricted_policy = (if RSM_RESTRICTED_DIAGNOSTICS b then ascii ''enabled'' else ascii ''disabled''),
          ps_secret_policy = ascii ''never''\<rparr>)"

definition runtime_monitor_print_public_status :: "build \<Rightarrow> hw \<Rightarrow> platform \<Rightarrow> platform" where
  "runtime_monitor_print_public_status b h p =
     rsm_format_public_status (public_status b h p) uart_output
       (snd (runtime_monitor_get_statistics (snd (runtime_monitor_get_evidence b p))))"

definition runtime_monitor_print_restricted_status :: "build \<Rightarrow> hw \<Rightarrow> platform \<Rightarrow> rsm_status \<times> platform" where
  "runtime_monitor_print_restricted_status b h p =
     (if \<not> runtime_monitor_diagnostic_allowed b RSM_INFO_RESTRICTED
      then (RSM_STATUS_UNAVAILABLE,
            monitor_kv_str ''rsm.policy.restricted'' (ascii ''denied'')
              (monitor_kv_u32 ''rsm.schema'' RSM_SCHEMA_VERSION
                (runtime_monitor_record_diagnostic_denial RSM_INFO_RESTRICTED p)))
      else (RSM_STATUS_OK, fold (\<lambda>f. f)
        [runtime_monitor_print_public_status b h,
         say (uart_puts (ascii ''rsm.device.uid='') @ uart_put_hex32 (hw32 h UID0_ADDR) @ [0x2C] @
              uart_put_hex32 (hw32 h UID1_ADDR) @ [0x2C] @ uart_put_hex32 (hw32 h UID2_ADDR) @ uart_puts [0x0A]),
         monitor_kv_hex32 ''rsm.register.vtor'' (hw32 h VTOR_ADDR),
         monitor_kv_hex32 ''rsm.register.flash_acr'' (hw32 h FLASH_ACR_ADDR),
         monitor_kv_hex32 ''rsm.register.flash_optcr'' (hw32 h FLASH_OPTCR_ADDR),
         monitor_kv_hex32 ''rsm.vector.expected_vtor'' (vs_expected_vtor (vector_snapshot p)),
         monitor_kv_hex32 ''rsm.vector.observed_vtor'' (vs_current_vtor (vector_snapshot p)),
         monitor_kv_u32 ''rsm.vector.checked_entries'' (vs_checked_entries (vector_snapshot p)),
         (if vs_failing_index (vector_snapshot p) = RSM_VECTOR_FAILURE_INDEX_NONE
          then monitor_kv_str ''rsm.vector.failure_index'' (ascii ''unavailable'')
          else monitor_kv_u32 ''rsm.vector.failure_index'' (vs_failing_index (vector_snapshot p))),
         monitor_kv_hex32 ''rsm.vector.expected_entry'' (vs_expected_value (vector_snapshot p)),
         monitor_kv_hex32 ''rsm.vector.observed_entry'' (vs_observed_value (vector_snapshot p)),
         monitor_kv_hex32 ''rsm.telemetry.msp'' (et_msp (p_report p)),
         monitor_kv_hex32 ''rsm.telemetry.psp'' (et_psp (p_report p)),
         monitor_kv_hex32 ''rsm.telemetry.control'' (et_control (p_report p)),
         monitor_kv_hex32 ''rsm.telemetry.primask'' (et_primask (p_report p)),
         monitor_kv_hex32 ''rsm.telemetry.basepri'' (et_basepri (p_report p)),
         monitor_kv_hex32 ''rsm.telemetry.faultmask'' (et_faultmask (p_report p))] p))"

section \<open>The printed status\<close>

lemma say_out [simp]: "p_out (say t p) = p_out p @ t"
  by (simp add: say_def)

lemma uart_puts_plain: "0x0A \<notin> set t \<Longrightarrow> uart_puts t = t"
  by (induction t) (auto simp: uart_puts_def)

interpretation uart: text_output uart_output p_out
  by unfold_locales (simp_all add: uart_output_def output_putc_def output_puts_def uart_puts_plain)

lemma refresh_counter_out [simp]:
  "p_out (refresh_event_counter_snapshot p) = p_out p" "p_log (refresh_event_counter_snapshot p) = p_log p"
  by (simp_all add: refresh_event_counter_snapshot_def update_counters_def)

lemma statistics_out [simp]:
  "p_out (snd (runtime_monitor_get_statistics p)) = p_out p"
  "p_out (snd (runtime_monitor_get_evidence b p)) = p_out p"
  by (simp_all add: runtime_monitor_get_statistics_def runtime_monitor_get_evidence_def Let_def)

lemmas line_texts = line_text_def ascii_def

lemma public_texts:
  "line_text (rsm_clock_source_name_from_cfgr r)" "line_text (rsm_slot_name s)" "line_text (rsm_reset_cause_name r)"
  "line_text (rsm_bool_pass_fail t)" "line_text (rsm_vector_public_status_name v)"
  by (simp_all add: rsm_clock_source_name_from_cfgr_def rsm_slot_name_def rsm_reset_cause_name_def
      rsm_bool_pass_fail_def rsm_vector_public_status_name_def Let_def line_texts)

lemma state_texts: "line_text (rsm_vector_failure_class_name st)" "line_text (health_name_public hs)"
  by (cases st; simp add: line_texts) (cases hs; simp add: line_texts)

lemma status_keys: "\<forall>k \<in> fst ` set (status_fields st). key_text k"
  by (simp add: status_fields_def ascii_key)

lemma literal_text: "line_text (ascii t) \<longleftrightarrow> 0x0A \<notin> set (map of_char t :: bytes) \<and> 0x0D \<notin> set (map of_char t :: bytes)"
  by (simp add: line_texts)

lemma if_line_text: "line_text (if c then s else t) \<longleftrightarrow> (if c then line_text s else line_text t)"
  by simp

lemma status_texts: "\<forall>v \<in> snd ` set (status_fields (public_status b h p)). line_text v"
  unfolding status_fields_def public_status_def Let_def rsm_public_status_output.select_convs
  by (simp only: list.set image_insert ball_simps snd_conv dec_text_line hex_text_line if_line_text public_texts state_texts)
    (simp add: literal_text)

text \<open>The values of the status that come straight from a register or a variable.\<close>

lemma revision_bits: "drop_bit 16 w AND 0xFFFF = drop_bit 16 (w :: u32)"
proof -
  have "drop_bit 16 w AND mask 16 = drop_bit 16 w"
    by (rule bit_word_eqI) (auto simp: bit_simps dest: bit_imp_le_length)
  then show ?thesis by (simp add: mask_numeral)
qed

lemma flash_kib_value: "unat (ucast (w :: u16) :: u32) = unat w"
  using unsigned_less [of w, where 'a = nat] by (simp add: unsigned_ucast_eq take_bit_nat_eq_self_iff)

lemma ascii_inject: "ascii a = ascii b \<longleftrightarrow> a = b"
proof -
  have byte: "unat (of_char x :: u8) = of_char x" for x
    unfolding of_nat_of_char [symmetric, where 'a = u8] by (simp add: unat_of_nat)
  have "c = d" if "of_char c = (of_char d :: u8)" for c d
    using arg_cong [OF that, of unat] unfolding byte by simp
  then have "inj (of_char :: char \<Rightarrow> u8)" by (intro injI)
  then show ?thesis by (simp add: ascii_def)
qed

lemma shown_values:
  "map (\<lambda>k. map_of (status_fields (public_status b h p)) (ascii k))
     [''rsm.device.id'', ''rsm.device.revision'', ''rsm.device.flash_kib'', ''rsm.cpu.cpuid'',
      ''rsm.boot.sequence'', ''rsm.vector.checks'', ''rsm.vector.failures'', ''rsm.vector.latched_failure'',
      ''rsm.events.count'', ''rsm.events.dropped'', ''rsm.health.state''] =
   map Some
     [ascii ''0x'' @ hexadecimal 8 (unat (hw32 h 0xE0042000 AND 0xFFF)),
      ascii ''0x'' @ hexadecimal 8 (unat (drop_bit 16 (hw32 h 0xE0042000))),
      decimal (unat (hw16 h 0x1FFF7A22)), ascii ''0x'' @ hexadecimal 8 (unat (hw32 h 0xE000ED00)),
      decimal (unat (et_boot_counter (p_report p))),
      decimal (unat (vs_check_count (vector_snapshot p))), decimal (unat (vs_failure_count (vector_snapshot p))),
      (if vs_latched_failure (vector_snapshot p) then ascii ''yes'' else ascii ''no''),
      decimal (unat (log_count (p_log p))), decimal (unat (log_dropped (p_log p))),
      health_name_public (platform_health_get_state (p_health p))]"
  unfolding status_fields_def list.map map_of.simps fst_conv snd_conv fun_upd_apply ascii_inject
  by (simp add: dec_text_def hex_text_def public_status_def Let_def runtime_monitor_get_hardware_info_def
      runtime_monitor_get_evidence_def runtime_monitor_get_statistics_def revision_bits flash_kib_value)

text \<open>
  C36. The public status of the monitor can be read back: what \<^verbatim>\<open>rsm status\<close> sends, split at the
  line ends and at the first equals sign of each line, is exactly the list of the keys with the
  values of the status, numbers as their decimal or hexadecimal digits, whatever the state of the
  device is. In particular the lines of the device
  identification, of the boot counter, of the vector monitor, of the event log and of the health
  state show the values of these registers and variables.
\<close>

theorem public_status_reads_back:
  "\<exists>sent. p_out (runtime_monitor_print_public_status b h p) = p_out p @ sent \<and>
     read_kv sent = status_fields (public_status b h p) \<and>
     map (\<lambda>k. map_of (read_kv sent) (ascii k))
       [''rsm.device.id'', ''rsm.device.revision'', ''rsm.device.flash_kib'', ''rsm.cpu.cpuid'',
        ''rsm.boot.sequence'', ''rsm.vector.checks'', ''rsm.vector.failures'', ''rsm.vector.latched_failure'',
        ''rsm.events.count'', ''rsm.events.dropped'', ''rsm.health.state''] =
     map Some
       [ascii ''0x'' @ hexadecimal 8 (unat (hw32 h 0xE0042000 AND 0xFFF)),
        ascii ''0x'' @ hexadecimal 8 (unat (drop_bit 16 (hw32 h 0xE0042000))),
        decimal (unat (hw16 h 0x1FFF7A22)), ascii ''0x'' @ hexadecimal 8 (unat (hw32 h 0xE000ED00)),
        decimal (unat (et_boot_counter (p_report p))),
        decimal (unat (vs_check_count (vector_snapshot p))), decimal (unat (vs_failure_count (vector_snapshot p))),
        (if vs_latched_failure (vector_snapshot p) then ascii ''yes'' else ascii ''no''),
        decimal (unat (log_count (p_log p))), decimal (unat (log_dropped (p_log p))),
        health_name_public (platform_health_get_state (p_health p))]"
proof -
  let ?kvs = "status_fields (public_status b h p)"
  have "\<forall>(k, v) \<in> set ?kvs. key_text k \<and> line_text v"
    using status_keys [of "public_status b h p"] status_texts [of b h p] by force
  then have read: "read_kv (concat (map (\<lambda>(k, v). k @ 0x3D # v @ [0x0D, 0x0A]) ?kvs)) = ?kvs"
    by (rule read_kv_lines)
  have "p_out (runtime_monitor_print_public_status b h p) =
      p_out p @ concat (map (\<lambda>(k, v). k @ 0x3D # v @ [0x0D, 0x0A]) ?kvs)"
    using uart.sent_status [OF status_texts] by (simp add: runtime_monitor_print_public_status_def)
  then show ?thesis using read shown_values [of b h p] by (intro exI conjI) (assumption | simp only: read)+
qed

section \<open>A vector failure raises the security state\<close>

definition slot_build :: "build \<Rightarrow> bool" where
  "slot_build b \<longleftrightarrow> PLATFORM_APP_BASE b = SLOT_A_PAYLOAD_BASE \<or> PLATFORM_APP_BASE b = SLOT_B_PAYLOAD_BASE"

lemma vector_config_ok:
  assumes "slot_build b"
  shows "config_valid (vector_config b)" "kinds_known (vector_config b)" "vc_entry_count (vector_config b) = 16"
    "vc_expected_vtor (vector_config b) = PLATFORM_APP_BASE b"
proof -
  have "vc_kind (vector_config b) i \<in> {RSM_VECTOR_ENTRY_RESERVED, RSM_VECTOR_ENTRY_INITIAL_MSP, RSM_VECTOR_ENTRY_HANDLER}"
    if "i < 16" for i
  proof -
    have "vector_entry_kinds ! unat i \<in> set vector_entry_kinds"
      using that by (intro nth_mem) (simp add: vector_entry_kinds_def word_less_nat_alt)
    then show ?thesis by (auto simp: vc_kind_def vector_config_def vector_entry_kinds_def)
  qed
  then show "kinds_known (vector_config b)" by (simp add: kinds_known_def vector_config_def)
  show "config_valid (vector_config b)"
    using assms by (auto simp: slot_build_def config_valid_def vector_config_def RSM_PLATFORM_APP_END_def power_of_two_def)
qed (simp_all add: vector_config_def)

definition monitor_ok :: "build \<Rightarrow> platform \<Rightarrow> bool" where
  "monitor_ok b p \<longleftrightarrow> vm_ok (vector_monitor (p_monitor p)) \<and> vm_config (vector_monitor (p_monitor p)) = vector_config b \<and>
     has_baseline (vector_monitor (p_monitor p)) \<and>
     (latched (vector_monitor (p_monitor p)) \<longrightarrow> ph_automatic (p_health p) = PLATFORM_SECURITY_FAILURE)"

lemmas effect_defs = say_def log_event_def update_counters_def runtime_monitor_log_event_def
  increment_vector_table_change_counter_def refresh_event_counter_snapshot_def

lemma failure_effects:
  "vector_monitor (p_monitor (handle_vector_failure_effects s p)) = vector_monitor (p_monitor p)"
  "vs_status s \<noteq> RSM_VECTOR_BASELINE_UNAVAILABLE \<Longrightarrow> failure_status (vs_status s) \<Longrightarrow>
     ph_automatic (p_health (handle_vector_failure_effects s p)) = PLATFORM_SECURITY_FAILURE"
  by (simp_all add: handle_vector_failure_effects_def apply_vector_health_state_def log_vector_finding_def effect_defs
      failure_status_def platform_health_report_security_failure_def)

lemma init_monitor_ok:
  assumes b: "slot_build b"
  shows "monitor_ok b (snd (runtime_monitor_init b h csr t p))"
proof -
  let ?init = "rsm_vector_monitor_init (hw32 h) (Some (vector_config b)) (hw32 h VTOR_ADDR)"
  note conf = vector_config_ok [OF b]
  have m: "vm_ok (snd (?init ev))" "vm_config (snd (?init ev)) = vector_config b" "has_baseline (snd (?init ev))" for ev
    using vector_init_ok [OF conf(1)] init_known [OF conf(1,2)] by simp_all
  from m(1) have st: "latched (snd (?init ev)) \<longleftrightarrow> failure_status (vs_status (vm_snapshot (snd (?init ev))))" for ev
    by (simp add: vm_ok_def snapshot_ok_def)
  have keep: "monitor_ok b q"
    if "vector_monitor (p_monitor q) = snd (?init ev)" "latched (snd (?init ev)) \<longrightarrow> ph_automatic (p_health q) = PLATFORM_SECURITY_FAILURE" for q ev
    using that m by (simp add: monitor_ok_def)
  show ?thesis
    unfolding runtime_monitor_init_def runtime_monitor_vector_init_def Let_def snd_conv
    by (rule keep) (use m(3) st in \<open>auto simp: runtime_monitor_log_event_def log_event_def failure_effects
        rsm_vector_monitor_get_snapshot_def failure_status_def monitor_ok_def\<close>)
qed

lemma periodic_monitor:
  assumes ok: "monitor_ok b p" and b: "slot_build b"
  shows "monitor_ok b (runtime_monitor_periodic h p)"
    and "vector_monitor (p_monitor (runtime_monitor_periodic h p)) =
      snd (rsm_vector_monitor_step (hw32 h) (hw32 h VTOR_ADDR) (log_last_sequence (p_log p))
        RSM_VECTOR_DEFAULT_STEP_BUDGET (vector_monitor (p_monitor p)))"
proof -
  define m where "m = vector_monitor (p_monitor p)"
  define m' where "m' = snd (rsm_vector_monitor_step (hw32 h) (hw32 h VTOR_ADDR) (log_last_sequence (p_log p))
      RSM_VECTOR_DEFAULT_STEP_BUDGET m)"
  have vm: "vm_ok m" "vm_config m = vector_config b" "has_baseline m"
    "latched m \<longrightarrow> ph_automatic (p_health p) = PLATFORM_SECURITY_FAILURE" using ok by (simp_all add: monitor_ok_def m_def)
  have vm': "vm_ok m'" "vm_config m' = vector_config b" "has_baseline m'" "latched m \<longrightarrow> latched m'"
    using step_visits(1,2) [OF vm(1) _ m'_def refl] vm(2) step_known [OF vm(1) _ vm(3)] vector_config_ok(2) [OF b] step_latched
    by (simp_all add: m'_def)
  have new: "vs_failure_count (vm_snapshot m') \<noteq> vs_failure_count (vm_snapshot m) \<longleftrightarrow> latched m' \<and> \<not> latched m"
    "latched m' \<longleftrightarrow> failure_status (vs_status (vm_snapshot m'))"
    using vm(1) vm'(1,4) by (auto simp: vm_ok_def snapshot_ok_def)
  have base: "vector_monitor (p_monitor (refresh_event_counter_snapshot p)) = m"
    "p_health (refresh_event_counter_snapshot p) = p_health p"
    by (simp_all add: effect_defs m_def)
  let ?p = "runtime_monitor_periodic h p"
  have m'': "vector_monitor (p_monitor ?p) = m'"
    by (simp add: runtime_monitor_periodic_def runtime_monitor_vector_periodic_def Let_def base failure_effects
        runtime_monitor_log_event_def log_event_def m'_def)
  then show "vector_monitor (p_monitor ?p) = snd (rsm_vector_monitor_step (hw32 h) (hw32 h VTOR_ADDR) (log_last_sequence (p_log p))
        RSM_VECTOR_DEFAULT_STEP_BUDGET (vector_monitor (p_monitor p)))" by (simp add: m_def m'_def)
  have "latched m' \<longrightarrow> ph_automatic (p_health ?p) = PLATFORM_SECURITY_FAILURE"
    using new vm(4) vm'(3)
    by (auto simp: runtime_monitor_periodic_def runtime_monitor_vector_periodic_def Let_def base failure_effects
        runtime_monitor_log_event_def log_event_def rsm_vector_monitor_get_snapshot_def simp flip: m'_def)
  with vm' m'' show "monitor_ok b ?p" by (simp add: monitor_ok_def)
qed

end
