(* ===== verification/Platform_Console.thy ===== *)
theory Platform_Console
  imports Runtime_Monitor
begin

text \<open>
  The console of the research application (\<^verbatim>\<open>platform.c\<close>, up to \<^verbatim>\<open>platform_cli_poll\<close>, and
  \<^verbatim>\<open>platform_audio.c\<close>). A command is the line buffer as a NUL-terminated array. Each printing function
  appends to the bytes sent over the UART.

  Lemmas: a command line is compared as a string; the line buffer is never overrun; what a console
  command can change and what it cannot.
\<close>

section \<open>Commands\<close>

fun eq_command :: "bytes \<Rightarrow> bytes \<Rightarrow> bool" where
  "eq_command (l # left) (r # right) =
     (if l \<noteq> 0 \<and> r \<noteq> 0 \<and> l = r then eq_command left right else l = 0 \<and> r = 0)"
| "eq_command left right = False"

text \<open>A literal of the source, with its terminator.\<close>

definition lit :: "string \<Rightarrow> bytes" where
  "lit t = ascii t @ [0]"

definition is_test_run_command :: "bytes \<Rightarrow> bool" where
  "is_test_run_command command \<longleftrightarrow>
     eq_command command (lit ''test run gpio'') \<or> eq_command command (lit ''test run button'') \<or>
     eq_command command (lit ''test run clock'') \<or> eq_command command (lit ''test run ram'')"

definition is_unavailable_register_group :: "bytes \<Rightarrow> bool" where
  "is_unavailable_register_group command \<longleftrightarrow>
     eq_command command (lit ''registers pwr'') \<or> eq_command command (lit ''registers syscfg'')"

definition platform_audio_available :: bool where
  "platform_audio_available = False"

definition platform_audio_start_retro :: bool where
  "platform_audio_start_retro = False"

definition platform_audio_stop :: "platform \<Rightarrow> platform" where
  "platform_audio_stop p = p"

section \<open>Printing\<close>

abbreviation (input) LOG_SRC_PLATFORM :: u16 where "LOG_SRC_PLATFORM \<equiv> 0x66"
abbreviation (input) LOG_EVENT_BOOT_RESET :: u16 where "LOG_EVENT_BOOT_RESET \<equiv> 1"
abbreviation (input) LOG_EVENT_BOOT_FAULT_RECORD :: u16 where "LOG_EVENT_BOOT_FAULT_RECORD \<equiv> 2"
abbreviation (input) LOG_EVENT_SELFTEST_FAILED :: u16 where "LOG_EVENT_SELFTEST_FAILED \<equiv> 3"
abbreviation (input) LOG_EVENT_HEALTH_ACK :: u16 where "LOG_EVENT_HEALTH_ACK \<equiv> 4"
abbreviation (input) LOG_EVENT_LED_TEST :: u16 where "LOG_EVENT_LED_TEST \<equiv> 5"
abbreviation (input) LOG_EVENT_EASTER_EGG :: u16 where "LOG_EVENT_EASTER_EGG \<equiv> 6"
abbreviation (input) LOG_EVENT_CONFIRMATION :: u16 where "LOG_EVENT_CONFIRMATION \<equiv> 7"

definition new_line :: bytes where
  "new_line = uart_puts [0x0A]"

definition msg :: "string \<Rightarrow> bytes" where
  "msg t = uart_puts (ascii t)"

definition msg_line :: "string \<Rightarrow> bytes" where
  "msg_line t = uart_puts (ascii t @ [0x0A])"

definition print_snapshot :: "string \<Rightarrow> u32 \<Rightarrow> bytes" where
  "print_snapshot name v = msg name @ msg ''='' @ uart_put_hex32 v @ new_line"

definition print_address_range :: "string \<Rightarrow> u32 \<Rightarrow> u32 \<Rightarrow> bytes" where
  "print_address_range name start stop =
     msg name @ [0x20] @ uart_put_hex32 start @ [0x2D] @ uart_put_hex32 (stop - 1) @ new_line"

definition print_unavailable :: bytes where
  "print_unavailable = msg_line ''unavailable: group intentionally not sampled in EXP066''"

definition restricted_diagnostics_allowed :: "build \<Rightarrow> bool" where
  "restricted_diagnostics_allowed b = runtime_monitor_diagnostic_allowed b RSM_INFO_RESTRICTED"

definition print_restricted_denied :: "platform \<Rightarrow> platform" where
  "print_restricted_denied p =
     say (msg_line ''denied: restricted diagnostic disabled'')
       (runtime_monitor_record_diagnostic_denial RSM_INFO_RESTRICTED p)"

text \<open>The commands that need restricted diagnostics: the action, or the refusal.\<close>

definition require_restricted_diagnostics :: "build \<Rightarrow> (platform \<Rightarrow> platform) \<Rightarrow> platform \<Rightarrow> platform" where
  "require_restricted_diagnostics b act p =
     (if restricted_diagnostics_allowed b then act p else print_restricted_denied p)"

definition print_reset_flag :: "u32 \<Rightarrow> string \<Rightarrow> u32 \<Rightarrow> bytes" where
  "print_reset_flag csr name m = msg name @ (if csr AND m \<noteq> 0 then msg_line ''YES'' else msg_line ''NO'')"

definition uid_fingerprint :: "hw \<Rightarrow> u32" where
  "uid_fingerprint h = rsm_uid_fingerprint_words (hw32 h UID0_ADDR) (hw32 h UID1_ADDR) (hw32 h UID2_ADDR)"

definition print_device_info :: "hw \<Rightarrow> bytes" where
  "print_device_info h =
     msg ''family STM32F429 device_id '' @ uart_put_hex32 (hw32 h DBGMCU_ID_ADDR AND 0x0FFF) @
     msg '' revision '' @ uart_put_hex32 (drop_bit 16 (hw32 h DBGMCU_ID_ADDR) AND 0xFFFF) @ new_line @
     msg ''CPUID '' @ uart_put_hex32 (hw32 h CPUID_ADDR) @ new_line @
     msg ''uid_fingerprint '' @ uart_put_hex32 (uid_fingerprint h) @ new_line @
     msg ''flash_kb '' @ uart_put_u32 (ucast (hw16 h FLASH_SIZE_KB_ADDR)) @ new_line"

definition print_health_status :: "platform \<Rightarrow> bytes" where
  "print_health_status p =
     msg ''health state '' @ uart_puts (platform_health_state_name (platform_health_get_state (p_health p))) @
     msg '' automatic '' @ uart_puts (platform_health_state_name (ph_automatic (p_health p))) @
     msg '' temporary '' @ (if ph_temporary_active (p_health p) then msg ''yes'' else msg ''no'') @
     msg '' led '' @ uart_put_hex32 (ucast (ph_led_mask (p_health p))) @ new_line @
     msg ''reset_csr '' @ uart_put_hex32 (p_boot_reset_csr p) @
     msg '' fault_record '' @ (if fault_valid (p_fault p) then msg ''valid'' else msg ''none'') @
     msg '' self_tests '' @ (if p_self_tests p then msg ''pass'' else msg ''fail'') @ new_line"

definition print_led_status :: "platform \<Rightarrow> bytes" where
  "print_led_status p =
     msg ''led state '' @ uart_puts (platform_health_state_name (platform_health_get_state (p_health p))) @
     msg '' mask '' @ uart_put_hex32 (ucast (ph_led_mask (p_health p))) @
     msg '' temporary '' @ (if ph_temporary_active (p_health p) then msg ''yes'' else msg ''no'') @ new_line"

definition print_boot_status :: "platform \<Rightarrow> bytes" where
  "print_boot_status p =
     msg_line ''boot status: Stage-0 verified launch assumed; no boot mailbox'' @
     msg ''reset_csr '' @ uart_put_hex32 (p_boot_reset_csr p) @
     msg '' health '' @ uart_puts (platform_health_state_name (platform_health_get_state (p_health p))) @ new_line"

definition print_fault_public_summary :: "platform \<Rightarrow> bytes" where
  "print_fault_public_summary p =
     msg ''fault: '' @ (if fault_valid (p_fault p) then msg ''valid restricted_details=denied'' else msg ''none'') @ new_line"

definition print_log_public_summary :: "platform \<Rightarrow> bytes" where
  "print_log_public_summary p =
     msg ''records='' @ uart_put_u32 (log_count (p_log p)) @ msg '' dropped='' @ uart_put_u32 (log_dropped (p_log p)) @
     msg '' last_sequence='' @ uart_put_u32 (log_last_sequence (p_log p)) @ msg_line '' restricted_details=denied''"

definition print_confirmation_public_status :: "platform \<Rightarrow> bytes" where
  "print_confirmation_public_status p =
     (let s = p_confirmation p
      in msg ''confirmation '' @ uart_puts (platform_confirmation_status_text (pc_last_status s)) @
         msg '' running '' @ uart_puts (rsm_slot_name (pc_running_slot s)) @
         msg '' firmware_version '' @
         (if pc_image_version s = 0 then msg ''unavailable'' else uart_put_u32 (pc_image_version s)) @ new_line)"

definition print_confirmation_status :: "platform \<Rightarrow> bytes" where
  "print_confirmation_status p =
     (let s = p_confirmation p
      in msg ''confirmation '' @ uart_puts (platform_confirmation_status_text (pc_last_status s)) @
         msg '' running '' @ uart_put_hex32 (pc_running_slot s) @
         msg '' confirmed '' @ uart_put_hex32 (pc_confirmed_slot s) @
         msg '' candidate '' @ uart_put_hex32 (pc_candidate_slot s) @
         msg '' metadata_state '' @ uart_put_hex32 (pc_metadata_state s) @
         msg '' attempts '' @ uart_put_u32 (pc_remaining_trial_attempts s) @
         msg '' already '' @ (if pc_already_confirmed s then msg ''yes'' else msg ''no'') @ new_line)"

definition print_reset_decoded :: "platform \<Rightarrow> bytes" where
  "print_reset_decoded p =
     msg ''reset_cause='' @ uart_puts (rsm_reset_cause_name (p_boot_reset_csr p)) @ new_line @
     concat (map (\<lambda>(name, m). print_reset_flag (p_boot_reset_csr p) name m)
       [(''brownout_reset='', 0x02000000), (''pin_reset='', 0x04000000), (''power_on_reset='', 0x08000000),
        (''software_reset='', 0x10000000), (''independent_watchdog_reset='', 0x20000000),
        (''window_watchdog_reset='', 0x40000000), (''low_power_reset='', 0x80000000)])"

definition print_clock_public_summary :: "hw \<Rightarrow> bytes" where
  "print_clock_public_summary h =
     msg ''clock_source='' @ uart_puts (rsm_clock_source_name_from_cfgr (hw32 h RCC_CFGR_ADDR)) @ new_line @
     msg ''hclk_hz='' @
     (case rsm_hclk_hz_from_cfgr (hw32 h RCC_CFGR_ADDR) of
        (available, hclk) \<Rightarrow> if available then uart_put_u32 hclk else msg ''unavailable'') @ new_line"

definition print_help :: bytes where
  "print_help = msg_line (
     ''help version boot status device info device uid device flash-size '' @
     ''device option-bytes reset cause clock show registers '' @
     ''{rcc|gpio|nvic|scb|systick|mpu|flash|pwr|syscfg|dbgmcu} '' @
     ''memory regions log {show|clear} fault {show|clear} '' @
     ''health {status|acknowledge} confirmation status telemetry show '' @
     ''rsm status rsm status public rsm status restricted '' @
     ''reset decoded led {status|test healthy|test degraded|'' @
     ''test update|test recovery|test fault|test security|test stop} '' @
     ''easteregg {knightrider|retro|stop} '' @
     ''test {list|run gpio|run button|run clock|run ram} '' @
     ''security status module list'')"

section \<open>Dispatch\<close>

definition platform_log_event :: "log_severity \<Rightarrow> u16 \<Rightarrow> platform \<Rightarrow> platform" where
  "platform_log_event severity event = log_event severity LOG_SRC_PLATFORM event None 0"

definition change_health :: "(platform_health \<Rightarrow> platform_health) \<Rightarrow> platform \<Rightarrow> platform" where
  "change_health f p = p\<lparr>p_health := f (p_health p)\<rparr>"

definition led_test :: "platform_health_state \<Rightarrow> platform \<Rightarrow> platform" where
  "led_test s p =
     say (msg_line ''ok'')
       (platform_log_event LOG_INFO LOG_EVENT_LED_TEST (change_health (platform_health_start_led_test s) p))"

text \<open>\<open>None\<close> when the command is not one of the group.\<close>

definition handle_led_command :: "bytes \<Rightarrow> platform \<Rightarrow> platform option" where
  "handle_led_command command p =
     (if eq_command command (lit ''led status'') then Some (say (print_led_status p) p)
      else if eq_command command (lit ''led test healthy'') then Some (led_test PLATFORM_HEALTHY p)
      else if eq_command command (lit ''led test degraded'') then Some (led_test PLATFORM_DEGRADED p)
      else if eq_command command (lit ''led test update'') then Some (led_test PLATFORM_UPDATING p)
      else if eq_command command (lit ''led test recovery'') then Some (led_test PLATFORM_RECOVERY p)
      else if eq_command command (lit ''led test fault'') then Some (led_test PLATFORM_FAULT p)
      else if eq_command command (lit ''led test security'') then Some (led_test PLATFORM_SECURITY_FAILURE p)
      else if eq_command command (lit ''led test stop'')
      then Some (say (msg_line ''ok'') (change_health platform_health_stop_temporary p))
      else None)"

definition handle_easteregg_command :: "bytes \<Rightarrow> platform \<Rightarrow> platform option" where
  "handle_easteregg_command command p =
     (if eq_command command (lit ''easteregg knightrider'')
      then Some (say (msg_line ''ok'')
             (platform_log_event LOG_INFO LOG_EVENT_EASTER_EGG (change_health platform_health_start_easteregg_knightrider p)))
      else if eq_command command (lit ''easteregg retro'')
      then Some (say (if platform_audio_start_retro then msg_line ''ok''
                      else msg_line ''audio unavailable: no board buzzer defined'') p)
      else if eq_command command (lit ''easteregg stop'')
      then Some (say (msg_line ''ok'') (platform_audio_stop (change_health platform_health_stop_temporary p)))
      else None)"

definition snapshots :: "(string \<times> u32) list \<Rightarrow> bytes" where
  "snapshots rs = concat (map (\<lambda>(name, v). print_snapshot name v) rs)"

definition dispatch_command :: "build \<Rightarrow> hw \<Rightarrow> bytes \<Rightarrow> platform \<Rightarrow> platform" where
  "dispatch_command b h command p =
     (if eq_command command (lit ''help'') then say print_help p
      else if eq_command command (lit ''version'')
      then say (msg ''platform '' @ uart_put_u32 1 @ msg '' abi '' @ uart_put_u32 1 @ msg '' cli '' @ uart_put_u32 1 @ new_line) p
      else if eq_command command (lit ''boot status'') then say (print_boot_status p) p
      else if eq_command command (lit ''device info'') then say (print_device_info h) p
      else if eq_command command (lit ''device uid'')
      then (if restricted_diagnostics_allowed b
            then say (uart_put_hex32 (hw32 h UID0_ADDR) @ [0x20] @ uart_put_hex32 (hw32 h UID1_ADDR) @ [0x20] @
                      uart_put_hex32 (hw32 h UID2_ADDR) @ new_line) p
            else say (msg ''uid_fingerprint '' @ uart_put_hex32 (uid_fingerprint h) @ msg_line '' full_uid=restricted'') p)
      else if eq_command command (lit ''device flash-size'')
      then say (uart_put_u32 (ucast (hw16 h FLASH_SIZE_KB_ADDR)) @ msg_line '' KiB'') p
      else if eq_command command (lit ''device option-bytes'')
      then require_restricted_diagnostics b (say (snapshots [(''FLASH_OPTCR'', hw32 h FLASH_OPTCR_ADDR)])) p
      else if eq_command command (lit ''reset cause'')
      then say (msg ''reset_cause '' @ uart_puts (rsm_reset_cause_name (p_boot_reset_csr p)) @ new_line) p
      else if eq_command command (lit ''reset decoded'') then say (print_reset_decoded p) p
      else if eq_command command (lit ''clock show'') then say (print_clock_public_summary h) p
      else if eq_command command (lit ''registers rcc'')
      then require_restricted_diagnostics b (say (snapshots [(''RCC_CR'', hw32 h 0x40023800),
             (''RCC_CFGR'', hw32 h RCC_CFGR_ADDR), (''RCC_CSR'', hw32 h RCC_CSR_ADDRESS)])) p
      else if eq_command command (lit ''registers gpio'')
      then require_restricted_diagnostics b (say (snapshots [(''GPIOA_MODER'', hw32 h 0x40020000),
             (''GPIOA_IDR'', hw32 h 0x40020010)])) p
      else if eq_command command (lit ''registers dbgmcu'')
      then require_restricted_diagnostics b (say (snapshots [(''DBGMCU_IDCODE'', hw32 h DBGMCU_ID_ADDR)])) p
      else if eq_command command (lit ''registers scb'')
      then require_restricted_diagnostics b (say (snapshots [(''SCB_CFSR'', hw32 h 0xE000ED28),
             (''SCB_HFSR'', hw32 h 0xE000ED2C), (''SCB_DFSR'', hw32 h 0xE000ED30), (''SCB_AFSR'', hw32 h 0xE000ED3C)])) p
      else if eq_command command (lit ''registers systick'')
      then require_restricted_diagnostics b (say (snapshots [(''SYST_CSR'', hw32 h 0xE000E010),
             (''SYST_RVR'', hw32 h 0xE000E014), (''SYST_CVR'', hw32 h 0xE000E018), (''SYST_CALIB'', hw32 h 0xE000E01C)])) p
      else if eq_command command (lit ''registers nvic'')
      then require_restricted_diagnostics b (say (snapshots [(''NVIC_ISER0'', hw32 h 0xE000E100),
             (''NVIC_ISPR0'', hw32 h 0xE000E200), (''NVIC_IABR0'', hw32 h 0xE000E300)])) p
      else if eq_command command (lit ''registers mpu'')
      then require_restricted_diagnostics b (say (snapshots [(''MPU_TYPE'', hw32 h MPU_TYPE_ADDR),
             (''MPU_CTRL'', mpu_ctrl (p_mpu p)), (''MPU_RNR'', mpu_rnr (p_mpu p))])) p
      else if eq_command command (lit ''registers flash'')
      then require_restricted_diagnostics b (say (snapshots [(''FLASH_ACR'', hw32 h FLASH_ACR_ADDR),
             (''FLASH_SR'', hw32 h 0x40023C0C), (''FLASH_CR'', hw32 h 0x40023C10),
             (''FLASH_OPTCR'', hw32 h FLASH_OPTCR_ADDR)])) p
      else if is_unavailable_register_group command then say print_unavailable p
      else if eq_command command (lit ''memory regions'')
      then require_restricted_diagnostics b (say (
             print_address_range ''bootloader'' BOOTLOADER_BASE BOOTLOADER_END @
             print_address_range ''manifest'' 0x08020000 0x08020060 @
             print_address_range ''signature'' 0x08020060 (0x08020060 + 0x40) @
             print_address_range ''application'' APPLICATION_BASE_ADDRESS APPLICATION_FLASH_END @
             print_address_range ''SRAM'' 0x20000000 0x20020000)) p
      else if eq_command command (lit ''log show'')
      then (if restricted_diagnostics_allowed b then say (log_show (p_log p)) p
            else let p' = runtime_monitor_record_diagnostic_denial RSM_INFO_RESTRICTED p
                 in say (print_log_public_summary p') p')
      else if eq_command command (lit ''log clear'')
      then require_restricted_diagnostics b (\<lambda>p. say (msg_line ''ok'') (p\<lparr>p_log := log_clear (p_log p)\<rparr>)) p
      else if eq_command command (lit ''fault show'')
      then (if restricted_diagnostics_allowed b then say (fault_show (p_fault p)) p
            else let p' = runtime_monitor_record_diagnostic_denial RSM_INFO_RESTRICTED p
                 in say (print_fault_public_summary p') p')
      else if eq_command command (lit ''fault clear'')
      then require_restricted_diagnostics b (\<lambda>p. say (msg_line ''ok'')
             (change_health platform_health_acknowledge (p\<lparr>p_fault := fault_clear (p_fault p)\<rparr>))) p
      else if eq_command command (lit ''health status'') then say (print_health_status p) p
      else if eq_command command (lit ''confirmation status'')
      then (if restricted_diagnostics_allowed b then say (print_confirmation_status p) p
            else say (print_confirmation_public_status p) p)
      else if eq_command command (lit ''telemetry show'')
      then require_restricted_diagnostics b (say (experiment_telemetry_print (p_report p))) p
      else if eq_command command (lit ''rsm status'') \<or> eq_command command (lit ''rsm status public'')
      then runtime_monitor_print_public_status b h p
      else if eq_command command (lit ''rsm status restricted'')
      then snd (runtime_monitor_print_restricted_status b h p)
      else if eq_command command (lit ''health acknowledge'')
      then say (msg_line ''ok'')
             (platform_log_event LOG_INFO LOG_EVENT_HEALTH_ACK (change_health platform_health_acknowledge p))
      else case handle_led_command command p of
        Some p' \<Rightarrow> p'
      | None \<Rightarrow> (case handle_easteregg_command command p of
          Some p' \<Rightarrow> p'
        | None \<Rightarrow>
            if eq_command command (lit ''test list'') then say (msg_line ''gpio button clock ram'') p
            else if is_test_run_command command
            then say (msg_line ''PASS (non-destructive placeholder)'')
                   (change_health (platform_health_start_led_test PLATFORM_TEST_RUNNING) p)
            else if eq_command command (lit ''security status'')
            then say (msg_line (
                   ''designed for verified Stage-0; arbitrary memory disabled; '' @
                   ''module execution disabled; option-byte and RDP activation unavailable; '' @
                   ''restricted diagnostics disabled by default; secret diagnostics never available'')) p
            else if eq_command command (lit ''module list'')
            then say (msg_line ''no signed modules installed; execution disabled'') p
            else say (msg_line ''error: unknown command'') p))"

section \<open>The line editor\<close>

text \<open>One poll of the receiver: \<open>None\<close> when no character has arrived.\<close>

definition platform_cli_poll :: "build \<Rightarrow> hw \<Rightarrow> u8 option \<Rightarrow> platform \<Rightarrow> platform" where
  "platform_cli_poll b h received p =
     (case received of
        None \<Rightarrow> p
      | Some c \<Rightarrow>
          if c = 0x0D \<or> c = 0x0A
          then (let p1 = p\<lparr>p_line := (p_line p)[p_line_length p := 0]\<rparr>;
                    p2 = (if p_line_length p1 \<noteq> 0 then dispatch_command b h (p_line p1) p1 else p1)
                in say (msg ''rp> '') (p2\<lparr>p_line_length := 0\<rparr>))
          else if c = 0x08
          then (if p_line_length p \<noteq> 0 then p\<lparr>p_line_length := p_line_length p - 1\<rparr> else p)
          else if p_line_length p < 80 - 1
          then p\<lparr>p_line := (p_line p)[p_line_length p := c], p_line_length := p_line_length p + 1\<rparr>
          else p)"

section \<open>Command lines\<close>

definition c_string :: "bytes \<Rightarrow> bytes" where
  "c_string line = takeWhile (\<lambda>c. c \<noteq> 0) line"

lemma eq_command_iff: "0 \<in> set line \<Longrightarrow> 0 \<notin> set t \<Longrightarrow> eq_command line (t @ [0]) \<longleftrightarrow> c_string line = t"
proof (induction line arbitrary: t)
  case (Cons l line)
  then show ?case by (cases t) (auto simp: c_string_def)
qed simp

section \<open>What a command can change\<close>

text \<open>
  The effects a console command is made of: output, a log entry, a change of the health display, the
  counters of the monitor, and - with restricted diagnostics - clearing the log and the fault record.
\<close>

inductive console_effect :: "platform \<Rightarrow> platform \<Rightarrow> bool" where
  effect_none: "console_effect p p"
| effect_say: "console_effect p q \<Longrightarrow> console_effect p (say t q)"
| effect_log: "console_effect p q \<Longrightarrow> console_effect p (log_event sev src ev pl n q)"
| effect_health: "console_effect p q \<Longrightarrow> console_effect p (change_health (health_step op) q)"
| effect_counters: "console_effect p q \<Longrightarrow> console_effect p (update_counters f q)"
| effect_log_clear: "console_effect p q \<Longrightarrow> console_effect p (q\<lparr>p_log := log_clear (p_log q)\<rparr>)"
| effect_fault_clear: "console_effect p q \<Longrightarrow> console_effect p (q\<lparr>p_fault := fault_clear (p_fault q)\<rparr>)"

lemmas health_ops =
  effect_health [where op = HEALTH_ACKNOWLEDGE, unfolded health_step.simps [abs_def]]
  effect_health [where op = HEALTH_STOP, unfolded health_step.simps [abs_def]]
  effect_health [where op = HEALTH_KNIGHTRIDER, unfolded health_step.simps [abs_def]]
  effect_health [where op = "HEALTH_LED_TEST s" for s, unfolded health_step.simps [abs_def]]

text \<open>Functions that only send text.\<close>

definition says :: "(platform \<Rightarrow> platform) \<Rightarrow> bool" where
  "says f \<longleftrightarrow> (\<exists>t. f = say t)"

lemma say_say: "say t (say s p) = say (s @ t) p"
  by (simp add: say_def)

lemma says_say: "says (say t)"
  by (auto simp: says_def)

lemma saysI: "(\<And>p. f p = say t p) \<Longrightarrow> says f"
  by (auto simp: says_def)

lemma say_Nil [simp]: "say [] p = p"
  by (simp add: say_def)

lemma says_fold: "\<forall>f \<in> set fs. says f \<Longrightarrow> says (fold (\<lambda>f. f) fs)"
proof (induction fs)
  case Nil
  show ?case by (rule saysI [of _ "[]"]) simp
next
  case (Cons f fs)
  then obtain t s where "f = say t" "fold (\<lambda>f. f) fs = say s" by (auto simp: says_def)
  then show ?case by (intro saysI [of _ "t @ s"]) (simp add: say_say)
qed

lemma uart_callbacks:
  "out_putc uart_output p c = say ((if c = 0x0A then [0x0D] else []) @ [c]) p" "out_puts uart_output p t = say (uart_puts t) p"
  by (simp_all add: uart_output_def output_putc_def output_puts_def)

lemma putc_chars_say:
  "foldl (out_putc uart_output) p t = say (concat (map (\<lambda>c. (if c = 0x0A then [0x0D] else []) @ [c]) t)) p"
  by (induction t arbitrary: p) (simp_all add: uart_callbacks say_say)

definition sent_chars :: "bytes \<Rightarrow> bytes" where
  "sent_chars t = concat (map (\<lambda>c. (if c = 0x0A then [0x0D] else []) @ [c]) t)"

lemma out_number_say:
  "out_u32 uart_output n p = say (if n = 0 then [0x30] else sent_chars (rev (u32_buffer n))) p"
  "out_hex32 uart_output n x p = say ((if x then uart_puts (ascii ''0x'') else []) @
     sent_chars (map (\<lambda>shift. hex_digit (drop_bit shift n)) [28, 24, 20, 16, 12, 8, 4, 0])) p"
  unfolding out_u32_def out_hex32_def putc_chars_say sent_chars_def [symmetric]
  by (simp_all only: uart_callbacks say_say split: if_split) simp_all

lemma says_kv:
  "says (kv_str uart_output k t)" "says (kv_u32 uart_output k n)" "says (kv_hex32 uart_output k n x)"
proof -
  show "says (kv_str uart_output k t)"
    unfolding says_def kv_str_def [abs_def] uart_callbacks say_say by (intro exI) (rule refl)
  show "says (kv_u32 uart_output k n)"
    unfolding says_def kv_u32_def [abs_def] uart_callbacks out_number_say say_say by (intro exI) (rule refl)
  show "says (kv_hex32 uart_output k n x)"
    unfolding says_def kv_hex32_def [abs_def] uart_callbacks out_number_say say_say by (intro exI) (rule refl)
qed

lemma says_if: "says (if c then f else g) \<longleftrightarrow> (if c then says f else says g)"
  by simp

lemma says_format: "says (rsm_format_public_status st uart_output)"
proof -
  have "\<forall>f \<in> set (status_printers st uart_output). says f"
    unfolding status_printers_def by (simp only: list.set ball_simps says_kv says_if if_cancel simp_thms)
  with says_fold [of "status_printers st uart_output"] show ?thesis by (simp add: rsm_format_public_status_def [abs_def])
qed

lemma snapshot_states:
  "snd (runtime_monitor_get_statistics p) = refresh_event_counter_snapshot p"
  "snd (runtime_monitor_get_evidence b p) = refresh_event_counter_snapshot p"
  by (simp_all add: runtime_monitor_get_statistics_def runtime_monitor_get_evidence_def Let_def)

lemma effect_says: "says f \<Longrightarrow> console_effect p q \<Longrightarrow> console_effect p (f q)"
  by (auto simp: says_def intro: effect_say)

lemma effect_public_status: "console_effect p q \<Longrightarrow> console_effect p (runtime_monitor_print_public_status b h q)"
  unfolding runtime_monitor_print_public_status_def snapshot_states refresh_event_counter_snapshot_def
  by (intro effect_says [OF says_format] effect_counters)

lemma effect_denial: "console_effect p q \<Longrightarrow> console_effect p (runtime_monitor_record_diagnostic_denial c q)"
  by (simp add: runtime_monitor_record_diagnostic_denial_def runtime_monitor_log_event_def effect_log effect_counters)

lemma effect_if: "console_effect p x \<Longrightarrow> console_effect p y \<Longrightarrow> console_effect p (if c then x else y)"
  by simp

lemma effect_require:
  "console_effect p (act p) \<Longrightarrow> console_effect p (require_restricted_diagnostics b act p)"
  by (simp add: require_restricted_diagnostics_def print_restricted_denied_def effect_say effect_denial effect_none)

lemma says_monitor_kv: "says (monitor_kv_str k v)" "says (monitor_kv_u32 k n)" "says (monitor_kv_hex32 k n)"
  by (simp_all add: monitor_kv_str_def monitor_kv_u32_def monitor_kv_hex32_def says_say)

lemma effect_restricted_status: "console_effect p (snd (runtime_monitor_print_restricted_status b h p))"
  unfolding runtime_monitor_print_restricted_status_def
  by (simp add: effect_says says_monitor_kv says_say effect_public_status effect_denial effect_none)

lemma effect_log_platform: "console_effect p q \<Longrightarrow> console_effect p (platform_log_event sev ev q)"
  by (simp add: platform_log_event_def effect_log)

lemmas console_effects = effect_none effect_say effect_log_platform health_ops effect_log_clear effect_fault_clear
  effect_require effect_public_status effect_restricted_status effect_denial

lemma effect_led: "handle_led_command command p = Some q \<Longrightarrow> console_effect p q"
  by (auto simp: handle_led_command_def led_test_def console_effects split: if_splits)

lemma effect_easteregg: "handle_easteregg_command command p = Some q \<Longrightarrow> console_effect p q"
  by (auto simp: handle_easteregg_command_def platform_audio_stop_def console_effects split: if_splits)

lemma dispatch_effect: "console_effect p (dispatch_command b h command p)"
  unfolding dispatch_command_def Let_def
  by (intro effect_if; simp add: console_effects effect_led effect_easteregg split: option.split)

text \<open>What the decisions of the application depend on; no command changes it.\<close>

definition app_core :: "platform \<Rightarrow> u32 \<times> bool list \<times> bool \<times> bool \<times> mpu \<times> host_context" where
  "app_core p =
     (p_ticks p,
      [p_self_tests p, p_early_init_done p, p_critical_failure p, p_uart_ready p, p_monitor_ready p, p_mpu_ready p,
       p_watchdog_ready p, p_watchdog_active p],
      p_stable_point p, p_confirmation_terminal p, p_mpu p, p_flash p)"

lemma health_step_security:
  "ph_automatic g = PLATFORM_SECURITY_FAILURE \<Longrightarrow> ph_automatic (health_step op g) = PLATFORM_SECURITY_FAILURE"
proof (cases op)
  case (HEALTH_SET_STATE s)
  assume "ph_automatic g = PLATFORM_SECURITY_FAILURE"
  with HEALTH_SET_STATE show ?thesis by (cases s) (simp_all add: platform_health_set_state_def word_le_nat_alt)
qed (simp_all add: tick_fields platform_health_report_security_failure_def platform_health_acknowledge_def
    platform_health_stop_temporary_def platform_health_start_led_test_def platform_health_start_easteregg_knightrider_def)

lemma log_clear_ok: "log_ok l \<Longrightarrow> log_ok (log_clear l)"
  by (simp add: log_ok_def log_clear_fields)

lemma effect_keeps:
  "console_effect p q \<Longrightarrow>
     app_core q = app_core p \<and> vector_monitor (p_monitor q) = vector_monitor (p_monitor p) \<and>
     p_line q = p_line p \<and> p_line_length q = p_line_length p \<and>
     (log_ok (p_log p) \<longrightarrow> log_ok (p_log q)) \<and> (health_ok (p_health p) \<longrightarrow> health_ok (p_health q)) \<and>
     (ph_automatic (p_health p) = PLATFORM_SECURITY_FAILURE \<longrightarrow> ph_automatic (p_health q) = PLATFORM_SECURITY_FAILURE)"
  by (induction rule: console_effect.induct)
    (simp_all add: app_core_def effect_defs change_health_def log_write_ok log_clear_ok health_step_ok health_step_security)

text \<open>The effects of a poll: those of at most one command, and the line.\<close>

lemma cli_poll_effect:
  "\<exists>q l n. console_effect (p\<lparr>p_line := l\<rparr>) q \<and> platform_cli_poll b h c p = q\<lparr>p_line_length := n\<rparr> \<and>
     length l = length (p_line p) \<and> (p_line_length p \<le> 79 \<longrightarrow> n \<le> 79)"
proof (cases c)
  case None
  then show ?thesis
    by (intro exI [of _ p] exI [of _ "p_line p"] exI [of _ "p_line_length p"]) (simp add: platform_cli_poll_def effect_none)
next
  case (Some x)
  let ?l = "(p_line p)[p_line_length p := 0]"
  let ?d = "if p_line_length p \<noteq> 0 then dispatch_command b h ?l (p\<lparr>p_line := ?l\<rparr>) else p\<lparr>p_line := ?l\<rparr>"
  consider (eol) "x = 0x0D \<or> x = 0x0A" | (rubout) "x \<noteq> 0x0D" "x \<noteq> 0x0A" "x = 0x08"
    | (other) "x \<noteq> 0x0D" "x \<noteq> 0x0A" "x \<noteq> 0x08" by blast
  then show ?thesis
  proof cases
    case eol
    have "console_effect (p\<lparr>p_line := ?l\<rparr>) (say (msg ''rp> '') ?d)"
      by (intro effect_say effect_if dispatch_effect effect_none)
    moreover have "platform_cli_poll b h c p = (say (msg ''rp> '') ?d)\<lparr>p_line_length := 0\<rparr>"
      using Some eol by (auto simp: platform_cli_poll_def Let_def say_def)
    ultimately show ?thesis by (intro exI conjI) (assumption, assumption, simp_all)
  next
    case rubout
    then show ?thesis using Some
      by (intro exI [of _ p] exI [of _ "p_line p"] exI [of _ "p_line_length p - 1"])
        (auto simp: platform_cli_poll_def effect_none)
  next
    case other
    then show ?thesis using Some
      by (intro exI [of _ "if p_line_length p < 79 then p\<lparr>p_line := (p_line p)[p_line_length p := x]\<rparr> else p"]
          exI [of _ "if p_line_length p < 79 then (p_line p)[p_line_length p := x] else p_line p"]
          exI [of _ "if p_line_length p < 79 then p_line_length p + 1 else p_line_length p"])
        (simp add: platform_cli_poll_def effect_none)
  qed
qed

lemma cli_poll_keeps:
  assumes "q = platform_cli_poll b h c p"
  shows "app_core q = app_core p" "vector_monitor (p_monitor q) = vector_monitor (p_monitor p)"
    "log_ok (p_log p) \<Longrightarrow> log_ok (p_log q)" "health_ok (p_health p) \<Longrightarrow> health_ok (p_health q)"
    "ph_automatic (p_health p) = PLATFORM_SECURITY_FAILURE \<Longrightarrow> ph_automatic (p_health q) = PLATFORM_SECURITY_FAILURE"
    "length (p_line q) = length (p_line p)" "p_line_length p \<le> 79 \<Longrightarrow> p_line_length q \<le> 79"
proof -
  obtain r l n where r: "console_effect (p\<lparr>p_line := l\<rparr>) r" "q = r\<lparr>p_line_length := n\<rparr>" "length l = length (p_line p)"
    "p_line_length p \<le> 79 \<longrightarrow> n \<le> 79" using cli_poll_effect [of p b h c] assms by blast
  with effect_keeps [OF r(1)]
  show "app_core q = app_core p" "vector_monitor (p_monitor q) = vector_monitor (p_monitor p)"
    "log_ok (p_log p) \<Longrightarrow> log_ok (p_log q)" "health_ok (p_health p) \<Longrightarrow> health_ok (p_health q)"
    "ph_automatic (p_health p) = PLATFORM_SECURITY_FAILURE \<Longrightarrow> ph_automatic (p_health q) = PLATFORM_SECURITY_FAILURE"
    "length (p_line q) = length (p_line p)" "p_line_length p \<le> 79 \<Longrightarrow> p_line_length q \<le> 79"
    by (simp_all add: app_core_def)
qed

end
