(* ===== verification/Platform_App.thy ===== *)
theory Platform_App
  imports Platform_Console
begin

text \<open>
  The research application as a whole: the test scenarios (\<^verbatim>\<open>test_scenarios.c\<close>), the initialisation, the
  idle loop and \<^verbatim>\<open>main\<close> (\<^verbatim>\<open>platform.c\<close>). The scenario is fixed by the build. A scenario that hangs,
  resets or makes an access that is meant to fault leaves the loop, which is a result of its own;
  what the access does is a matter of the MPU model.

  Lemmas: the state stays well-formed; nothing is written to the flash unless the initialisation and
  the scenario are good; a pending trial is confirmed when its time has come, whatever is typed; a
  device that boots keeps booting; a corrupted vector table raises the security state.
\<close>

section \<open>Test scenarios\<close>

datatype scenario_outcome =
    SCENARIO_CONTINUES
  | SCENARIO_HANGS
  | SCENARIO_RESETS
  | SCENARIO_ACCESS mpu_access u32

definition test_scenario_init :: "build \<Rightarrow> bytes" where
  "test_scenario_init b = (if TEST_SCENARIO b \<noteq> SCENARIO_NORMAL then msg_line ''TEST_SCENARIO active'' else [])"

text \<open>The text sent and how the service ends.\<close>

definition test_scenario_service :: "build \<Rightarrow> u32 \<Rightarrow> bytes \<times> scenario_outcome" where
  "test_scenario_service b tick =
     (case TEST_SCENARIO b of
        SCENARIO_TRIAL_WATCHDOG_HANG \<Rightarrow>
          if tick \<ge> 10 then (msg_line ''TEST_SCENARIO trial_watchdog_hang'', SCENARIO_HANGS) else ([], SCENARIO_CONTINUES)
      | SCENARIO_TRIAL_HARDFAULT \<Rightarrow>
          if tick = 10 then (msg_line ''TEST_SCENARIO trial_hardfault'', SCENARIO_ACCESS MPU_WRITE 0xFFFFFFF0)
          else ([], SCENARIO_CONTINUES)
      | SCENARIO_TRIAL_SOFTWARE_RESET \<Rightarrow>
          if tick = 10 then (msg_line ''TEST_SCENARIO trial_software_reset'', SCENARIO_RESETS) else ([], SCENARIO_CONTINUES)
      | SCENARIO_MPU_NULL_ACCESS \<Rightarrow>
          if tick = 10 then (msg_line ''TEST_SCENARIO mpu_null_access'', SCENARIO_ACCESS MPU_WRITE 0)
          else ([], SCENARIO_CONTINUES)
      | SCENARIO_MPU_EXECUTE_SRAM \<Rightarrow>
          if tick = 10 then (msg_line ''TEST_SCENARIO mpu_execute_sram'', SCENARIO_ACCESS MPU_EXECUTE 0x20000000)
          else ([], SCENARIO_CONTINUES)
      | SCENARIO_MPU_WRITE_BOOTLOADER \<Rightarrow>
          if tick = 10 then (msg_line ''TEST_SCENARIO mpu_write_bootloader'', SCENARIO_ACCESS MPU_WRITE BOOTLOADER_BASE)
          else ([], SCENARIO_CONTINUES)
      | SCENARIO_MPU_WRITE_METADATA \<Rightarrow>
          if tick = 10 then (msg_line ''TEST_SCENARIO mpu_write_metadata'', SCENARIO_ACCESS MPU_WRITE BOOT_METADATA_A_BASE)
          else ([], SCENARIO_CONTINUES)
      | SCENARIO_MPU_STACK_GUARD \<Rightarrow>
          if tick = 10
          then (msg_line ''TEST_SCENARIO mpu_stack_guard'',
                SCENARIO_ACCESS MPU_WRITE (mpu_policy_stack_guard_start (stack_guard_start b)))
          else ([], SCENARIO_CONTINUES)
      | SCENARIO_MPU_VALID_APPLICATION \<Rightarrow>
          if tick = 10 then (msg_line ''TEST_SCENARIO mpu_valid_application PASS'', SCENARIO_CONTINUES)
          else ([], SCENARIO_CONTINUES)
      | _ \<Rightarrow> ([], SCENARIO_CONTINUES))"

definition test_scenario_health_ok :: "build \<Rightarrow> bool" where
  "test_scenario_health_ok b \<longleftrightarrow> TEST_SCENARIO b \<notin>
     {SCENARIO_TRIAL_NO_CONFIRM, SCENARIO_TRIAL_HEALTH_FAIL, SCENARIO_TRIAL_HARDFAULT, SCENARIO_TRIAL_WATCHDOG_HANG,
      SCENARIO_TRIAL_SOFTWARE_RESET, SCENARIO_MPU_NULL_ACCESS, SCENARIO_MPU_EXECUTE_SRAM, SCENARIO_MPU_WRITE_BOOTLOADER,
      SCENARIO_MPU_WRITE_METADATA, SCENARIO_MPU_STACK_GUARD}"

definition test_scenario_stable :: "build \<Rightarrow> u32 \<Rightarrow> bool" where
  "test_scenario_stable b tick = (if TEST_SCENARIO b = SCENARIO_TRIAL_DELAYED_CONFIRM then tick \<ge> 100 else True)"

section \<open>Initialisation\<close>

definition mandatory_self_tests_pass :: "build \<Rightarrow> hw \<Rightarrow> bool" where
  "mandatory_self_tests_pass b h =
     (if hw32 h VTOR_ADDR \<noteq> PLATFORM_APP_BASE b then False
      else if (ucast (hw16 h FLASH_SIZE_KB_ADDR) :: u32) \<noteq> 1024 then False
      else True)"

text \<open>
  The static variables as the startup code leaves them: zero, or their initialisers. The fault
  record and the telemetry report are in the section that is not cleared; flash, MPU and GPIO
  registers are the hardware's.
\<close>

definition platform_reset ::
    "host_context \<Rightarrow> experiment_telemetry_report \<Rightarrow> fault_record \<Rightarrow> mpu \<Rightarrow> regs \<Rightarrow> platform" where
  "platform_reset c report fault m gpio =
     \<lparr>p_ticks = 0, p_line = replicate 80 0, p_line_length = 0, p_boot_reset_csr = 0, p_self_tests = False,
      p_early_init_done = False, p_critical_failure = False, p_stable_point = False, p_confirmation_terminal = False,
      p_uart_ready = False, p_monitor_ready = False, p_mpu_ready = False, p_watchdog_ready = False,
      p_last_reported = 0xFF, p_watchdog_active = False, p_iwdg_writes = [],
      p_log = \<lparr>log_records = replicate 32 \<lparr>lr_sequence = 0, lr_timestamp = 0, lr_source = 0, lr_event = 0, lr_severity = 0,
                 lr_length = 0, lr_payload = replicate 12 0\<rparr>,
               log_next_sequence = 0, log_entries = 0, log_lost = 0, log_primask = 0\<rparr>,
      p_health = \<lparr>ph_automatic = PLATFORM_BOOTING, ph_active = PLATFORM_BOOTING, ph_temporary = PLATFORM_BOOTING,
                  ph_temporary_ticks = 0, ph_phase = 0, ph_temporary_active = False, ph_temporary_fast = False,
                  ph_led_mask = 0, ph_regs = gpio\<rparr>,
      p_monitor = \<lparr>monitor_reset_csr = 0, monitor_self_tests_passed = False, monitor_initialized = False,
                   security_counters = \<lparr>boot_failures = 0, integrity_failures = 0, signature_failures = 0,
                     rollback_attempts = 0, watchdog_resets = 0, flash_errors = 0, option_policy_failures = 0,
                     vector_table_changes = 0, ram_guard_failures = 0, fault_count = 0, event_log_overflows = 0,
                     diagnostic_denials = 0, saturation_flags = 0\<rparr>,
                   vector_monitor = \<lparr>vm_config = empty_config,
                     vm_snapshot = empty_snapshot\<lparr>vs_schema_version := 0, vs_failing_index := 0\<rparr>,
                     vm_next_index = 0, vm_current_cycle_failed = False\<rparr>,
                   vector_cycle_pass_event_logged = False\<rparr>,
      p_report = report, p_confirmation = initial_snapshot, p_mpu = m, p_fault = fault, p_flash = c, p_out = []\<rparr>"

definition monitor_event :: "u16 \<Rightarrow> rsm_severity \<Rightarrow> bytes option \<Rightarrow> u8 \<Rightarrow> platform \<Rightarrow> platform" where
  "monitor_event event severity payload n p = snd (runtime_monitor_log_event event severity payload n p)"

text \<open>The parts of \<^verbatim>\<open>platform_init\<close>, in their order.\<close>

definition init_boot :: "build \<Rightarrow> hw \<Rightarrow> platform \<Rightarrow> platform" where
  "init_boot b h p0 =
     (let p1 = say (test_scenario_init b) (p0\<lparr>p_uart_ready := True\<rparr>);
          p2 = change_health platform_health_init (p1\<lparr>p_log := log_init (p_log p1)\<rparr>);
          csr = hw32 h RCC_CSR_ADDRESS;
          p3 = p2\<lparr>p_boot_reset_csr := csr,
                  p_report := experiment_telemetry_init (PLATFORM_APP_BASE b) (hw_core h) (p_flash p2) csr (p_report p2)\<rparr>;
          p4 = log_event LOG_INFO LOG_SRC_PLATFORM LOG_EVENT_BOOT_RESET (Some (le32 csr)) 4 p3
      in if fault_valid (p_fault p4) then platform_log_event LOG_ERROR LOG_EVENT_BOOT_FAULT_RECORD p4 else p4)"

definition init_self_tests :: "build \<Rightarrow> hw \<Rightarrow> platform \<Rightarrow> platform" where
  "init_self_tests b h p0 =
     (let p1 = p0\<lparr>p_self_tests := mandatory_self_tests_pass b h\<rparr>;
          p2 = (if \<not> p_self_tests p1
                then platform_log_event LOG_ERROR LOG_EVENT_SELFTEST_FAILED (p1\<lparr>p_critical_failure := True\<rparr>) else p1);
          p3 = p2\<lparr>p_early_init_done := True\<rparr>;
          p4 = change_health (platform_health_apply_boot_policy (p_boot_reset_csr p3) (fault_valid (p_fault p3))
                 (p_self_tests p3) False) p3
      in p4\<lparr>p_report := experiment_telemetry_set_boot_policy_result (PLATFORM_APP_BASE b) (hw_core h)
             (health_code (ph_automatic (p_health p4))) (p_report p4)\<rparr>)"

definition init_monitor :: "build \<Rightarrow> hw \<Rightarrow> platform \<Rightarrow> platform" where
  "init_monitor b h p0 =
     (case runtime_monitor_init b h (p_boot_reset_csr p0) (p_self_tests p0) p0 of
        (status, p1) \<Rightarrow>
          let p2 = p1\<lparr>p_monitor_ready := (status = RSM_STATUS_OK)\<rparr>
          in if \<not> p_monitor_ready p2 then p2\<lparr>p_critical_failure := True\<rparr>
             else monitor_event RSM_EVENT_RESET_CAUSE_CAPTURED RSM_SEVERITY_INFO (Some (le32 (p_boot_reset_csr p2))) 4 p2)"

definition init_mpu :: "build \<Rightarrow> hw \<Rightarrow> platform \<Rightarrow> platform" where
  "init_mpu b h p0 =
     (case mpu_policy_init (stack_guard_start b) (hw32 h MPU_TYPE_ADDR) (p_mpu p0) of
        (ok, m) \<Rightarrow>
          let p1 = p0\<lparr>p_mpu := m, p_mpu_ready := ok\<rparr>
          in if \<not> ok
             then say (msg_line ''MPU policy=FAIL'')
                    (monitor_event RSM_EVENT_MPU_POLICY_FAILED RSM_SEVERITY_CRITICAL None 0 (p1\<lparr>p_critical_failure := True\<rparr>))
             else say (msg ''MPU policy=OK regions=5 stack_guard='' @
                       uart_put_hex32 (mpu_policy_stack_guard_start (stack_guard_start b)) @ new_line)
                    (monitor_event RSM_EVENT_MPU_POLICY_INITIALIZED RSM_SEVERITY_INFO None 0 p1))"

definition init_watchdog :: "(nat \<Rightarrow> u32) \<Rightarrow> (nat \<Rightarrow> u32) \<Rightarrow> platform \<Rightarrow> platform" where
  "init_watchdog rcc iwdg p0 =
     (case platform_watchdog_init rcc iwdg of
        (ok, writes, reads) \<Rightarrow>
          let p1 = p0\<lparr>p_watchdog_active := ok, p_watchdog_ready := ok, p_iwdg_writes := p_iwdg_writes p0 @ writes\<rparr>
          in if \<not> ok
             then say (msg_line ''WATCHDOG init=FAIL'')
                    (monitor_event RSM_EVENT_WATCHDOG_INIT_FAILED RSM_SEVERITY_CRITICAL None 0 (p1\<lparr>p_critical_failure := True\<rparr>))
             else say (msg ''WATCHDOG init=OK timeout_ms_nominal='' @ uart_put_u32 PLATFORM_IWDG_TIMEOUT_NOMINAL_MS @ new_line)
                    (monitor_event RSM_EVENT_WATCHDOG_INITIALIZED RSM_SEVERITY_INFO None 0 p1))"

definition platform_init :: "build \<Rightarrow> hw \<Rightarrow> (nat \<Rightarrow> u32) \<Rightarrow> (nat \<Rightarrow> u32) \<Rightarrow> platform \<Rightarrow> platform" where
  "platform_init b h rcc iwdg p =
     init_watchdog rcc iwdg (init_mpu b h (init_monitor b h (init_self_tests b h (init_boot b h p))))"

section \<open>The idle loop\<close>

definition platform_millis :: "platform \<Rightarrow> u32" where
  "platform_millis p = p_ticks p"

definition platform_tick :: "platform \<Rightarrow> platform" where
  "platform_tick p = p\<lparr>p_ticks := p_ticks p + 1\<rparr>"

definition confirmation_health :: "build \<Rightarrow> platform \<Rightarrow> platform_confirmation_health" where
  "confirmation_health b p =
     \<lparr>early_platform_init_done = p_early_init_done p, running_slot_identified = False,
      core_self_checks_passed = p_self_tests p, critical_initialization_failure = p_critical_failure p,
      stable_execution_point_reached = (p_stable_point p \<and> test_scenario_stable b (p_ticks p)), metadata_allows = False,
      uart_diagnostics_ready = p_uart_ready p, runtime_monitor_ready = p_monitor_ready p, mpu_policy_ready = p_mpu_ready p,
      watchdog_active = p_watchdog_ready p, application_health_ok = test_scenario_health_ok b\<rparr>"

text \<open>The bytes of a confirmation status in a log entry: an enumeration has one byte, or four.\<close>

definition status_size :: "build \<Rightarrow> u8" where
  "status_size b = (if short_enums b then 1 else 4)"

definition report_confirmation :: "platform_confirmation_status \<Rightarrow> platform \<Rightarrow> platform" where
  "report_confirmation st p =
     (if (ucast (confirmation_code st) :: u8) \<noteq> p_last_reported p
      then (say (msg ''HEALTH_GATE result='' @ uart_puts (platform_confirmation_status_text st) @ new_line @
                 (if st = PLATFORM_CONFIRMATION_OK then msg_line ''SLOT_CONFIRMATION result=OK'' else []))
             p)\<lparr>p_last_reported := ucast (confirmation_code st)\<rparr>
      else p)"

definition finish_confirmation :: "build \<Rightarrow> hw \<Rightarrow> platform_confirmation_status \<Rightarrow> platform \<Rightarrow> platform" where
  "finish_confirmation b h st p0 =
     (if st \<noteq> PLATFORM_CONFIRMATION_NOT_HEALTHY
      then (let p1 = log_event (if st = PLATFORM_CONFIRMATION_OK then LOG_INFO else LOG_ERROR) LOG_SRC_PLATFORM
                       LOG_EVENT_CONFIRMATION (Some (le32 (confirmation_code st))) (status_size b)
                       (p0\<lparr>p_confirmation_terminal := True\<rparr>)
            in p1\<lparr>p_report := experiment_telemetry_set_confirmation_result (PLATFORM_APP_BASE b) (hw_core h) (p_flash p1)
                    (confirmation_code st) (p_report p1)\<rparr>)
      else p0)"

definition confirmation_turn :: "build \<Rightarrow> hw \<Rightarrow> platform \<Rightarrow> platform" where
  "confirmation_turn b h p0 =
     (if p_confirmation_terminal p0 then p0
      else case platform_confirmation_service (hw32 h VTOR_ADDR) (confirmation_health b p0)
                  (p_confirmation p0, p_mpu p0, p_flash p0) of
        (st, s, m, c) \<Rightarrow>
          let p1 = report_confirmation st (p0\<lparr>p_confirmation := s, p_mpu := m, p_flash := c\<rparr>);
              p2 = monitor_event (if st = PLATFORM_CONFIRMATION_OK then RSM_EVENT_HEALTH_GATE_PASSED else RSM_EVENT_HEALTH_GATE_FAILED)
                     (if st = PLATFORM_CONFIRMATION_OK then RSM_SEVERITY_INFO else RSM_SEVERITY_WARNING)
                     (Some (le32 (confirmation_code st))) (status_size b) p1
          in finish_confirmation b h st p2)"

datatype idle_result = IDLE_DONE platform | IDLE_LEFT scenario_outcome platform

text \<open>What comes before and after the scenario in one turn of the loop.\<close>

definition idle_front :: "build \<Rightarrow> hw \<Rightarrow> u8 option \<Rightarrow> platform \<Rightarrow> platform" where
  "idle_front b h received p =
     platform_cli_poll b h received
       (runtime_monitor_periodic h (change_health platform_health_service_tick (platform_tick p)))"

definition reach_stable_point :: "build \<Rightarrow> platform \<Rightarrow> platform" where
  "reach_stable_point b p =
     (if CONFIRMATION_DELAY_TICKS b = 0 \<or> p_ticks p \<ge> CONFIRMATION_DELAY_TICKS b then p\<lparr>p_stable_point := True\<rparr> else p)"

definition watchdog_turn :: "platform \<Rightarrow> platform" where
  "watchdog_turn p = p\<lparr>p_iwdg_writes := p_iwdg_writes p @ platform_watchdog_refresh (p_watchdog_active p)\<rparr>"

definition platform_idle :: "build \<Rightarrow> hw \<Rightarrow> u8 option \<Rightarrow> platform \<Rightarrow> idle_result" where
  "platform_idle b h received p0 =
     (let p1 = idle_front b h received p0
      in case test_scenario_service b (p_ticks p1) of
           (t, outcome) \<Rightarrow>
             if outcome \<noteq> SCENARIO_CONTINUES then IDLE_LEFT outcome (say t p1)
             else IDLE_DONE (watchdog_turn (confirmation_turn b h (reach_stable_point b (say t p1)))))"

text \<open>The loop over a finite number of turns, and the program.\<close>

fun idle_loop :: "build \<Rightarrow> (hw \<times> u8 option) list \<Rightarrow> platform \<Rightarrow> idle_result" where
  "idle_loop b [] p = IDLE_DONE p"
| "idle_loop b ((h, received) # turns) p =
     (case platform_idle b h received p of
        IDLE_DONE p' \<Rightarrow> idle_loop b turns p'
      | IDLE_LEFT outcome p' \<Rightarrow> IDLE_LEFT outcome p')"

definition platform_main ::
    "build \<Rightarrow> hw \<Rightarrow> (nat \<Rightarrow> u32) \<Rightarrow> (nat \<Rightarrow> u32) \<Rightarrow> (hw \<times> u8 option) list \<Rightarrow> platform \<Rightarrow> idle_result" where
  "platform_main b h rcc iwdg turns p =
     idle_loop b turns (say (msg_line ''EXP066 RESEARCH PLATFORM'' @ msg ''rp> '') (platform_init b h rcc iwdg p))"

section \<open>Well-formed states\<close>

definition app_ok :: "build \<Rightarrow> platform \<Rightarrow> bool" where
  "app_ok b p \<longleftrightarrow> length (p_line p) = 80 \<and> p_line_length p \<le> 79 \<and> log_ok (p_log p) \<and> health_ok (p_health p) \<and> monitor_ok b p"

lemma health_step_simps:
  "platform_health_service_tick g = health_step HEALTH_TICK g"
  "platform_health_set_state s g = health_step (HEALTH_SET_STATE s) g"
  "platform_health_report_security_failure g = health_step HEALTH_SECURITY_FAILURE g"
  by simp_all

text \<open>The monitor changes only its own state, the log and the health; a console effect with one more field.\<close>

lemma failure_effect:
  "console_effect p q \<Longrightarrow> console_effect p (handle_vector_failure_effects s q)"
proof -
  have change: "q\<lparr>p_health := health_step op (p_health q)\<rparr> = change_health (health_step op) q" for q op
    by (simp add: change_health_def)
  assume "console_effect p q"
  then show ?thesis
    unfolding handle_vector_failure_effects_def apply_vector_health_state_def log_vector_finding_def
      runtime_monitor_log_event_def increment_vector_table_change_counter_def health_step_simps change
    by (auto intro!: effect_if effect_health effect_log effect_counters)
qed

lemma periodic_keeps:
  assumes "q = runtime_monitor_periodic h p"
  shows "app_core q = app_core p" "log_ok (p_log p) \<Longrightarrow> log_ok (p_log q)" "health_ok (p_health p) \<Longrightarrow> health_ok (p_health q)"
    "p_line q = p_line p" "p_line_length q = p_line_length p"
proof -
  define m where "m = snd (rsm_vector_monitor_step (hw32 h) (hw32 h VTOR_ADDR) (log_last_sequence (p_log (refresh_event_counter_snapshot p)))
      RSM_VECTOR_DEFAULT_STEP_BUDGET (vector_monitor (p_monitor (refresh_event_counter_snapshot p))))"
  define p1 where "p1 = (refresh_event_counter_snapshot p)\<lparr>p_monitor := (p_monitor (refresh_event_counter_snapshot p))\<lparr>vector_monitor := m\<rparr>\<rparr>"
  let ?R = "\<lambda>r. \<exists>p2 v. console_effect p1 p2 \<and> r = p2\<lparr>p_monitor := (p_monitor p2)\<lparr>vector_cycle_pass_event_logged := v\<rparr>\<rparr>"
  have R1: "?R r" if "console_effect p1 r" for r
    using that by (intro exI [of _ r] exI [of _ "vector_cycle_pass_event_logged (p_monitor r)"]) simp
  have R2: "?R (r\<lparr>p_monitor := (p_monitor r)\<lparr>vector_cycle_pass_event_logged := True\<rparr>\<rparr>)" if "console_effect p1 r" for r
    using that by blast
  have R3: "?R (if c then x else y)" if "?R x" "?R y" for c x y using that by simp
  have len: "\<not> (0 :: u8) > RSM_EVENT_PAYLOAD_SIZE" by simp
  have "?R q"
    unfolding assms runtime_monitor_periodic_def runtime_monitor_vector_periodic_def Let_def m_def [symmetric] p1_def [symmetric]
      runtime_monitor_log_event_def if_not_P [OF len] snd_conv
    by (intro R3 R2 effect_log) (intro R1 effect_if failure_effect effect_none)+
  then obtain p2 v where eff: "console_effect p1 p2" and q: "q = p2\<lparr>p_monitor := (p_monitor p2)\<lparr>vector_cycle_pass_event_logged := v\<rparr>\<rparr>"
    by blast
  have p1: "app_core p1 = app_core p" "p_log p1 = p_log p" "p_health p1 = p_health p" "p_line p1 = p_line p"
    "p_line_length p1 = p_line_length p" by (simp_all add: p1_def app_core_def effect_defs)
  show "app_core q = app_core p" "log_ok (p_log p) \<Longrightarrow> log_ok (p_log q)" "health_ok (p_health p) \<Longrightarrow> health_ok (p_health q)"
    "p_line q = p_line p" "p_line_length q = p_line_length p"
    using effect_keeps [OF eff] p1 by (simp_all add: q app_core_def)
qed

lemma tick_keeps:
  "monitor_ok b p \<Longrightarrow> monitor_ok b (change_health platform_health_service_tick (platform_tick p))"
  "app_core (change_health platform_health_service_tick (platform_tick p)) = app_core (platform_tick p)"
  by (simp_all add: monitor_ok_def change_health_def platform_tick_def tick_fields app_core_def)

lemma front_core: "app_core (idle_front b h c p) = app_core (platform_tick p)"
  by (simp add: idle_front_def cli_poll_keeps(1) [OF refl] periodic_keeps(1) [OF refl] tick_keeps)

lemma cli_poll_monitor_ok: "monitor_ok b p \<Longrightarrow> monitor_ok b (platform_cli_poll b' h c p)"
  using cli_poll_keeps(2,5) [of _ b' h c p] by (auto simp: monitor_ok_def)

lemma front_ok:
  assumes b: "slot_build b" and ok: "app_ok b p"
  shows "app_ok b (idle_front b h c p)"
proof -
  let ?p = "change_health platform_health_service_tick (platform_tick p)"
  have tick: "p_line ?p = p_line p" "p_line_length ?p = p_line_length p" "p_log ?p = p_log p" "health_ok (p_health ?p)"
    using ok by (simp_all add: change_health_def platform_tick_def app_ok_def tick_ok)
  show ?thesis
    using ok tick cli_poll_keeps [of _ b h c "runtime_monitor_periodic h ?p", OF refl] periodic_keeps [of _ h ?p, OF refl]
      cli_poll_monitor_ok [OF periodic_monitor(1) [OF tick_keeps(1) b]]
    by (auto simp: app_ok_def idle_front_def)
qed

lemmas turn_defs = report_confirmation_def finish_confirmation_def monitor_event_def runtime_monitor_log_event_def
  status_size_def say_def log_event_def

lemma turn_run:
  assumes "\<not> p_confirmation_terminal p"
    and "platform_confirmation_service (hw32 h VTOR_ADDR) (confirmation_health b p) (p_confirmation p, p_mpu p, p_flash p) = (st, s, m, c)"
  shows "p_flash (confirmation_turn b h p) = c" "p_mpu (confirmation_turn b h p) = m"
    "p_confirmation_terminal (confirmation_turn b h p) = (st \<noteq> PLATFORM_CONFIRMATION_NOT_HEALTHY)"
  using assms by (simp_all add: confirmation_turn_def turn_defs Let_def)

lemma turn_other:
  "fst (app_core (confirmation_turn b h p)) = p_ticks p"
  "fst (snd (app_core (confirmation_turn b h p))) = fst (snd (app_core p))"
  "p_stable_point (confirmation_turn b h p) = p_stable_point p"
  "p_line (confirmation_turn b h p) = p_line p" "p_line_length (confirmation_turn b h p) = p_line_length p"
  "p_health (confirmation_turn b h p) = p_health p" "p_monitor (confirmation_turn b h p) = p_monitor p"
  "log_ok (p_log p) \<Longrightarrow> log_ok (p_log (confirmation_turn b h p))"
  by (simp_all add: confirmation_turn_def turn_defs Let_def app_core_def log_write_ok split: prod.split)

lemma turn_terminal: "p_confirmation_terminal p \<Longrightarrow> confirmation_turn b h p = p"
  by (simp add: confirmation_turn_def)

lemma idle_ok:
  assumes b: "slot_build b" and ok: "app_ok b p"
  shows "\<And>q. platform_idle b h c p = IDLE_DONE q \<Longrightarrow> app_ok b q"
    and "\<And>q out. platform_idle b h c p = IDLE_LEFT out q \<Longrightarrow> app_ok b q"
proof -
  have say: "app_ok b (say t q) = app_ok b q" for t q by (simp add: app_ok_def say_def monitor_ok_def)
  have stable: "app_ok b (reach_stable_point b q) = app_ok b q" for q
    by (simp add: app_ok_def reach_stable_point_def monitor_ok_def)
  have turn: "app_ok b q \<Longrightarrow> app_ok b (confirmation_turn b h q)" for q
    by (simp add: app_ok_def turn_other monitor_ok_def)
  have dog: "app_ok b (watchdog_turn q) = app_ok b q" for q
    by (simp add: app_ok_def watchdog_turn_def monitor_ok_def)
  note front = front_ok [OF b ok, of h c]
  show "app_ok b q" if "platform_idle b h c p = IDLE_DONE q" for q
    using that front by (auto simp: platform_idle_def Let_def say stable dog intro!: turn split: prod.splits if_splits)
  show "app_ok b q" if "platform_idle b h c p = IDLE_LEFT out q" for q out
    using that front by (auto simp: platform_idle_def Let_def say split: prod.splits if_splits)
qed

fun idle_state :: "idle_result \<Rightarrow> platform" where
  "idle_state (IDLE_DONE p) = p"
| "idle_state (IDLE_LEFT out p) = p"

lemma idle_loop_ok:
  assumes b: "slot_build b"
  shows "app_ok b p \<Longrightarrow> app_ok b (idle_state (idle_loop b turns p))"
proof (induction turns arbitrary: p)
  case (Cons x turns)
  obtain h c where "x = (h, c)" by fastforce
  with Cons idle_ok [OF b Cons.prems, of h c] show ?case by (cases "platform_idle b h c p") auto
qed simp

lemmas init_defs = init_boot_def init_self_tests_def platform_log_event_def log_event_def say_def change_health_def Let_def

lemma log_init_ok: "length (log_records l) = 32 \<Longrightarrow> log_ok (log_init l)"
  by (simp add: log_ok_def log_init_def log_last_sequence_def)

lemma apply_policy_ok: "health_ok g \<Longrightarrow> health_ok (platform_health_apply_boot_policy csr fv st sf g)"
  by (auto simp: platform_health_apply_boot_policy_def Let_def platform_health_report_fault_def
      platform_health_report_security_failure_def health_ok_def)

lemma health_init_ok: "health_ok (platform_health_init g)"
  by (simp add: platform_health_init_def health_ok_def)

lemma init_start_ok:
  assumes "length (p_line p) = 80" "p_line_length p \<le> 79" "length (log_records (p_log p)) = 32"
    and "q = init_self_tests b h (init_boot b h p)"
  shows "length (p_line q) = 80" "p_line_length q \<le> 79" "log_ok (p_log q)" "health_ok (p_health q)"
  using assms(1-3) unfolding assms(4)
  by (simp_all add: init_defs log_write_ok log_init_ok apply_policy_ok health_init_ok)

lemmas late_defs = init_mpu_def init_watchdog_def monitor_event_def runtime_monitor_log_event_def say_def log_event_def Let_def

lemma monitor_init_effect:
  "\<exists>m. console_effect (p\<lparr>p_monitor := m\<rparr>) (snd (runtime_monitor_init b h csr t p))"
proof -
  have len: "\<not> (0 :: u8) > RSM_EVENT_PAYLOAD_SIZE" by simp
  let ?m = "(p_monitor p)\<lparr>monitor_reset_csr := csr, monitor_self_tests_passed := t, monitor_initialized := True,
      vector_monitor := snd (rsm_vector_monitor_init (hw32 h) (Some (vector_config b)) (hw32 h VTOR_ADDR) (log_last_sequence (p_log p))),
      vector_cycle_pass_event_logged := False\<rparr>"
  have p: "p\<lparr>p_monitor := (p_monitor p)\<lparr>monitor_reset_csr := csr, monitor_self_tests_passed := t, monitor_initialized := True\<rparr>,
      p_monitor := ?m\<rparr> = p\<lparr>p_monitor := ?m\<rparr>" by simp
  show ?thesis
    unfolding runtime_monitor_init_def runtime_monitor_vector_init_def Let_def runtime_monitor_log_event_def if_not_P [OF len] snd_conv
    by (intro exI [of _ ?m] effect_log) (simp add: effect_log effect_none failure_effect)
qed

lemma init_monitor_keeps:
  assumes "q = init_monitor b h p"
  shows "p_line q = p_line p" "p_line_length q = p_line_length p" "log_ok (p_log p) \<Longrightarrow> log_ok (p_log q)"
    "health_ok (p_health p) \<Longrightarrow> health_ok (p_health q)" "slot_build b \<Longrightarrow> monitor_ok b q"
    "app_core q = app_core (p\<lparr>p_monitor_ready := True\<rparr>)"
proof -
  define r where "r = snd (runtime_monitor_init b h (p_boot_reset_csr p) (p_self_tests p) p)"
  have q: "q = monitor_event RSM_EVENT_RESET_CAUSE_CAPTURED RSM_SEVERITY_INFO (Some (le32 (p_boot_reset_csr r))) 4
      (r\<lparr>p_monitor_ready := True\<rparr>)"
    unfolding assms init_monitor_def r_def by (simp add: runtime_monitor_init_def Let_def)
  obtain m where eff: "console_effect (p\<lparr>p_monitor := m\<rparr>) r" using monitor_init_effect r_def by blast
  note keeps = effect_keeps [OF eff]
  have ok: "slot_build b \<Longrightarrow> monitor_ok b r" by (simp add: r_def init_monitor_ok)
  show "p_line q = p_line p" "p_line_length q = p_line_length p" "log_ok (p_log p) \<Longrightarrow> log_ok (p_log q)"
    "health_ok (p_health p) \<Longrightarrow> health_ok (p_health q)" "slot_build b \<Longrightarrow> monitor_ok b q"
    "app_core q = app_core (p\<lparr>p_monitor_ready := True\<rparr>)"
    using keeps ok
    by (simp_all add: q monitor_event_def runtime_monitor_log_event_def log_event_def log_write_ok app_core_def monitor_ok_def)
qed

lemma init_late_keeps:
  assumes "q = init_watchdog rcc iwdg (init_mpu b h p)"
  shows "p_line q = p_line p" "p_line_length q = p_line_length p" "log_ok (p_log p) \<Longrightarrow> log_ok (p_log q)"
    "p_health q = p_health p" "p_monitor q = p_monitor p"
  unfolding assms by (simp_all add: late_defs log_write_ok split: prod.split)

lemma init_app_ok:
  assumes b: "slot_build b"
  shows "app_ok b (platform_init b h rcc iwdg (platform_reset c report fault m gpio))"
proof -
  let ?p = "init_self_tests b h (init_boot b h (platform_reset c report fault m gpio))"
  have start: "length (p_line ?p) = 80" "p_line_length ?p \<le> 79" "log_ok (p_log ?p)" "health_ok (p_health ?p)"
    by (rule init_start_ok [OF _ _ _ refl]; simp add: platform_reset_def)+
  note mon = init_monitor_keeps [of _ b h ?p, OF refl]
  note late = init_late_keeps [of _ rcc iwdg b h "init_monitor b h ?p", OF refl]
  show ?thesis unfolding platform_init_def app_ok_def
    using start mon late b by (simp add: monitor_ok_def)
qed

text \<open>
  C25. The state of the application is well-formed in every turn of its loop, whatever is typed and
  whatever the registers hold: the line buffer keeps its 80 bytes and the index stays below 80, so
  that the terminating zero is written inside it; the log, the health display and the vector
  monitor satisfy their invariants; and when a vector failure is latched, the health state is the
  security failure.
\<close>

theorem app_well_formed:
  assumes "slot_build b"
  shows "app_ok b (idle_state (platform_main b h rcc iwdg turns (platform_reset c report fault m gpio)))"
proof -
  have "app_ok b (say t p) = app_ok b p" for t p by (simp add: app_ok_def say_def monitor_ok_def)
  then show ?thesis unfolding platform_main_def by (intro idle_loop_ok assms) (simp add: init_app_ok assms)
qed

end
