(* ===== verification/Platform_Secrecy.thy ===== *)
theory Platform_Secrecy
  imports Platform_Console
begin

text \<open>
  Confidentiality of the console: a build without restricted diagnostics shows nothing of the log
  entries, the fault record, the telemetry, the unique identifier (beyond its fingerprint), the option
  bytes and the other restricted registers, with the exception of the captured RCC_CSR. The proof maps every state to one in which these data
  are erased and shows that erasing commutes with every command.
\<close>

section \<open>Public and restricted data\<close>

text \<open>The registers as far as the public commands show them.\<close>

definition public_registers :: "hw \<Rightarrow> u32 list \<times> bytes \<times> (bool \<times> u32) \<times> bool \<times> bool" where
  "public_registers h =
     ([hw32 h DBGMCU_ID_ADDR AND 0x0FFF, drop_bit 16 (hw32 h DBGMCU_ID_ADDR) AND 0xFFFF, hw32 h CPUID_ADDR,
       uid_fingerprint h, ucast (hw16 h FLASH_SIZE_KB_ADDR)],
      rsm_clock_source_name_from_cfgr (hw32 h RCC_CFGR_ADDR), rsm_hclk_hz_from_cfgr (hw32 h RCC_CFGR_ADDR),
      drop_bit 20 (hw32 h CPACR_ADDR) AND 0xF = 0xF, hw32 h MPU_TYPE_ADDR AND 0xFF00 \<noteq> 0)"

definition no_report :: experiment_telemetry_report where
  "no_report =
     \<lparr>et_magic = [], et_format_version = 0, et_boot_counter = 0, et_reset_cause = 0, et_selected_slot = 0,
      et_confirmed_slot = 0, et_candidate_slot = 0, et_metadata_state = 0, et_metadata_sequence = 0,
      et_remaining_trial_attempts = 0, et_image_version = 0, et_vtor = 0, et_msp = 0, et_psp = 0, et_control = 0,
      et_primask = 0, et_basepri = 0, et_faultmask = 0, et_integrity_scan_status = 0, et_first_changed_region = 0,
      et_last_boot_policy_result = 0, et_last_update_result = 0, et_trusted_state_flags = 0,
      et_untrusted_observation_flags = 0, et_commit_marker = 0, et_report_crc = 0\<rparr>"

definition some_fault :: fault_record where
  "some_fault = fault_capture 0 []
     \<lparr>core_vtor = 0, core_msp = 0, core_psp = 0, core_control = 0, core_primask = 0, core_basepri = 0, core_faultmask = 0\<rparr> []
     \<lparr>fr_magic = 0, fr_version = 0, fr_sequence = 0, fr_reset_cause = 0, fr_stacked = [], fr_core = [], fr_status = [], fr_crc32 = 0\<rparr>"

definition erase_vector :: "rsm_vector_monitor \<Rightarrow> rsm_vector_monitor" where
  "erase_vector m =
     m\<lparr>vm_snapshot := (vm_snapshot m)\<lparr>vs_current_vtor := 0, vs_expected_vtor := 0, vs_checked_entries := 0,
         vs_failing_index := 0, vs_expected_value := 0, vs_observed_value := 0\<rparr>\<rparr>"

text \<open>
  The state without what only restricted diagnostics may show: the entries of the log, the contents
  of the fault record and of the telemetry report, the details of the vector check and of the
  confirmation, and the MPU regions.
\<close>

definition erase :: "platform \<Rightarrow> platform" where
  "erase p =
     p\<lparr>p_log := (p_log p)\<lparr>log_records := []\<rparr>,
       p_fault := (if fault_valid (p_fault p) then some_fault else fault_clear some_fault),
       p_report := no_report\<lparr>et_boot_counter := et_boot_counter (p_report p), et_image_version := et_image_version (p_report p)\<rparr>,
       p_monitor := (p_monitor p)\<lparr>vector_monitor := erase_vector (vector_monitor (p_monitor p))\<rparr>,
       p_confirmation := initial_snapshot\<lparr>pc_last_status := pc_last_status (p_confirmation p),
         pc_running_slot := pc_running_slot (p_confirmation p), pc_image_version := pc_image_version (p_confirmation p)\<rparr>,
       p_mpu := (p_mpu p)\<lparr>mpu_rnr := 0, mpu_rbar := (\<lambda>_. 0), mpu_rasr := (\<lambda>_. 0)\<rparr>\<rparr>"

lemma log_write_erase:
  "(log_write now sev src ev pl n l)\<lparr>log_records := []\<rparr> = log_write now sev src ev pl n (l\<lparr>log_records := []\<rparr>)"
  by (simp add: log_write_def critical_enter_def critical_exit_def increment_dropped_def Let_def)

lemma erase_effects:
  "erase (say t p) = say t (erase p)"
  "erase (log_event sev src ev pl n p) = log_event sev src ev pl n (erase p)"
  "erase (change_health f p) = change_health f (erase p)"
  "erase (update_counters g p) = update_counters g (erase p)"
  by (simp_all add: erase_def say_def log_event_def change_health_def update_counters_def log_write_erase)


lemma erase_health [simp]:
  "p_health (erase p) = p_health p" "p_boot_reset_csr (erase p) = p_boot_reset_csr p" "p_self_tests (erase p) = p_self_tests p"
  "p_line (erase p) = p_line p" "p_line_length (erase p) = p_line_length p" "p_out (erase p) = p_out p"
  "fault_valid (p_fault (erase p)) = fault_valid (p_fault p)"
  by (simp_all add: erase_def some_fault_def fault_capture_valid fault_clear_invalid)

lemma erase_log [simp]:
  "log_count (p_log (erase p)) = log_count (p_log p)" "log_dropped (p_log (erase p)) = log_dropped (p_log p)"
  "log_last_sequence (p_log (erase p)) = log_last_sequence (p_log p)"
  by (simp_all add: erase_def log_count_def log_dropped_def log_last_sequence_def)

lemma erase_prints:
  "print_boot_status (erase p) = print_boot_status p" "print_health_status (erase p) = print_health_status p"
  "print_led_status (erase p) = print_led_status p" "print_reset_decoded (erase p) = print_reset_decoded p"
  "print_fault_public_summary (erase p) = print_fault_public_summary p"
  "print_log_public_summary (erase p) = print_log_public_summary p"
  "print_confirmation_public_status (erase p) = print_confirmation_public_status p"
  by (simp_all add: print_boot_status_def print_health_status_def print_led_status_def print_reset_decoded_def
      print_fault_public_summary_def print_log_public_summary_def)
    (simp add: print_confirmation_public_status_def erase_def Let_def initial_snapshot_def)

lemma public_prints:
  assumes "public_registers h = public_registers h'"
  shows "print_device_info h = print_device_info h'" "print_clock_public_summary h = print_clock_public_summary h'"
    "uid_fingerprint h = uid_fingerprint h'" "(ucast (hw16 h FLASH_SIZE_KB_ADDR) :: u32) = ucast (hw16 h' FLASH_SIZE_KB_ADDR)"
  using assms by (simp_all add: public_registers_def print_device_info_def print_clock_public_summary_def)

lemma erase_denial:
  "erase (runtime_monitor_record_diagnostic_denial c p) = runtime_monitor_record_diagnostic_denial c (erase p)"
  by (simp add: runtime_monitor_record_diagnostic_denial_def runtime_monitor_log_event_def erase_effects)

lemma erase_refresh: "erase (refresh_event_counter_snapshot p) = refresh_event_counter_snapshot (erase p)"
  unfolding refresh_event_counter_snapshot_def erase_effects erase_log ..

lemma erase_says: "says f \<Longrightarrow> erase (f p) = f (erase p)"
  by (auto simp: says_def erase_effects)


lemma erase_vector_fields [simp]:
  "vs_status (vector_snapshot (erase p)) = vs_status (vector_snapshot p)"
  "vs_available (vector_snapshot (erase p)) = vs_available (vector_snapshot p)"
  "vs_latched_failure (vector_snapshot (erase p)) = vs_latched_failure (vector_snapshot p)"
  "vs_check_count (vector_snapshot (erase p)) = vs_check_count (vector_snapshot p)"
  "vs_failure_count (vector_snapshot (erase p)) = vs_failure_count (vector_snapshot p)"
  "vs_last_successful_sequence (vector_snapshot (erase p)) = vs_last_successful_sequence (vector_snapshot p)"
  "rsm_vector_public_status_name (vector_snapshot (erase p)) = rsm_vector_public_status_name (vector_snapshot p)"
  by (simp_all add: vector_snapshot_def rsm_vector_monitor_get_snapshot_def erase_def erase_vector_def
      rsm_vector_public_status_name_def)

lemma erase_version: "firmware_version_from_telemetry (erase p) = firmware_version_from_telemetry p"
  by (simp add: firmware_version_from_telemetry_def erase_def)

lemma erase_hardware:
  "public_registers h = public_registers h' \<Longrightarrow>
     runtime_monitor_get_hardware_info b h' (erase p) = runtime_monitor_get_hardware_info b h p"
  by (simp add: runtime_monitor_get_hardware_info_def public_registers_def uid_fingerprint_def erase_version)
    (simp add: erase_def)

lemma erase_statistics: "fst (runtime_monitor_get_statistics (erase p)) = fst (runtime_monitor_get_statistics p)"
  unfolding runtime_monitor_get_statistics_def Let_def fst_conv erase_log erase_refresh [symmetric]
  by (simp add: erase_def)

lemma erase_evidence: "fst (runtime_monitor_get_evidence b (erase p)) = fst (runtime_monitor_get_evidence b p)"
  unfolding runtime_monitor_get_evidence_def case_prod_unfold Let_def fst_conv erase_statistics
  by (simp add: erase_version vector_check_passed_def) (simp add: erase_def mpu_policy_is_enabled_def)

lemma erase_public_status:
  assumes "public_registers h = public_registers h'"
  shows "public_status b h' (erase p) = public_status b h p"
proof -
  have clock: "rsm_clock_source_name_from_cfgr (hw32 h' RCC_CFGR_ADDR) = rsm_clock_source_name_from_cfgr (hw32 h RCC_CFGR_ADDR)"
    using assms by (simp add: public_registers_def)
  have init: "monitor_initialized (p_monitor (erase p)) = monitor_initialized (p_monitor p)" by (simp add: erase_def)
  show ?thesis
    unfolding public_status_def Let_def erase_hardware [OF assms] erase_statistics erase_evidence erase_version clock init
      erase_vector_fields erase_health ..
qed

lemma erase_print_public_status:
  "public_registers h = public_registers h' \<Longrightarrow>
     erase (runtime_monitor_print_public_status b h p) = runtime_monitor_print_public_status b h' (erase p)"
  unfolding runtime_monitor_print_public_status_def snapshot_states erase_says [OF says_format] erase_refresh
  by (subst erase_public_status) (assumption, rule refl)

lemma erase_if: "erase x = x' \<Longrightarrow> erase y = y' \<Longrightarrow> erase (if c then x else y) = (if c then x' else y')"
  by simp

lemma erase_restricted:
  assumes "\<not> RSM_RESTRICTED_DIAGNOSTICS b"
  shows "\<not> restricted_diagnostics_allowed b"
    "erase (require_restricted_diagnostics b act p) = require_restricted_diagnostics b act' (erase p)"
    "erase (snd (runtime_monitor_print_restricted_status b h p)) = snd (runtime_monitor_print_restricted_status b h' (erase p))"
  using assms
  by (simp_all add: restricted_diagnostics_allowed_def runtime_monitor_diagnostic_allowed_def rsm_information_allowed.simps
      require_restricted_diagnostics_def print_restricted_denied_def erase_effects erase_denial
      runtime_monitor_print_restricted_status_def erase_says says_monitor_kv)

lemma erase_led: "handle_led_command command (erase p) = map_option erase (handle_led_command command p)"
  by (simp add: handle_led_command_def led_test_def platform_log_event_def erase_effects erase_prints)

lemma erase_easteregg: "handle_easteregg_command command (erase p) = map_option erase (handle_easteregg_command command p)"
  by (simp add: handle_easteregg_command_def platform_audio_stop_def platform_log_event_def erase_effects)

lemma denied_prints:
  "print_log_public_summary (runtime_monitor_record_diagnostic_denial c (erase p)) =
     print_log_public_summary (runtime_monitor_record_diagnostic_denial c p)"
  "print_fault_public_summary (runtime_monitor_record_diagnostic_denial c (erase p)) =
     print_fault_public_summary (runtime_monitor_record_diagnostic_denial c p)"
  unfolding erase_denial [symmetric] erase_prints by (rule refl)+

lemma dispatch_erase:
  assumes b: "\<not> RSM_RESTRICTED_DIAGNOSTICS b" and h: "public_registers h = public_registers h'"
  shows "erase (dispatch_command b h command p) = dispatch_command b h' command (erase p)"
  unfolding dispatch_command_def Let_def erase_led erase_easteregg option.case_distrib [of erase]
  by (simp only: erase_restricted(1) [OF b] if_False)
    (intro erase_if erase_restricted(2) [OF b];
      simp only: erase_effects denied_prints erase_prints public_prints [OF h] erase_denial erase_restricted [OF b]
        erase_print_public_status [OF h] platform_log_event_def erase_health option.case_distrib [of erase] option.map
        case_map_option comp_def if_distrib [of erase])

text \<open>A session at the console: at each poll the registers and the character received, if any.\<close>

definition console_session :: "build \<Rightarrow> (hw \<times> u8 option) list \<Rightarrow> platform \<Rightarrow> platform" where
  "console_session b polls p = fold (\<lambda>(h, c). platform_cli_poll b h c) polls p"

lemma erase_line:
  "erase (p\<lparr>p_line := l\<rparr>) = (erase p)\<lparr>p_line := l\<rparr>" "erase (p\<lparr>p_line_length := n\<rparr>) = (erase p)\<lparr>p_line_length := n\<rparr>"
  by (simp_all add: erase_def)

lemma cli_poll_erase:
  assumes b: "\<not> RSM_RESTRICTED_DIAGNOSTICS b" and h: "public_registers h = public_registers h'"
  shows "erase (platform_cli_poll b h c p) = platform_cli_poll b h' c (erase p)"
  unfolding platform_cli_poll_def Let_def
  by (cases c) (simp_all add: erase_line erase_effects dispatch_erase [OF b h])

lemma console_erase:
  assumes b: "\<not> RSM_RESTRICTED_DIAGNOSTICS b"
    and same: "list_all2 (\<lambda>(h, c) (h', c'). c = c' \<and> public_registers h = public_registers h') polls polls'"
  shows "erase (console_session b polls p) = console_session b polls' (erase p)"
  using same
proof (induction arbitrary: p rule: list_all2_induct)
  case (Cons x xs y ys)
  obtain h c h' where "x = (h, c)" "y = (h', c)" "public_registers h = public_registers h'" using Cons by (cases x; cases y) auto
  with Cons.IH [of "platform_cli_poll b h c p"] cli_poll_erase [OF b, of h h' c p] show ?case by (simp add: console_session_def)
qed (simp add: console_session_def)

text \<open>
  One raw register is not withheld: the commands for the boot and the health status print the
  captured reset register in every build.
\<close>

lemma reset_csr_text:
  "msg ''reset_csr '' @ uart_put_hex32 v @ rest = ascii ''reset_csr 0x'' @ hexadecimal 8 (unat v) @ rest"
  by (simp add: msg_def put_hex32_digits Platform_Log.uart_puts_def ascii_def)

lemma reset_csr_shown:
  "\<exists>pre post. p_out (dispatch_command b h (lit ''boot status'') p) =
     p_out p @ pre @ ascii ''reset_csr 0x'' @ hexadecimal 8 (unat (p_boot_reset_csr p)) @ post"
  "\<exists>pre post. p_out (dispatch_command b h (lit ''health status'') p) =
     p_out p @ pre @ ascii ''reset_csr 0x'' @ hexadecimal 8 (unat (p_boot_reset_csr p)) @ post"
proof -
  have "p_out (dispatch_command b h (lit ''boot status'') p) = p_out p @ print_boot_status p"
    by (simp add: dispatch_command_def lit_def ascii_def say_def)
  then show "\<exists>pre post. p_out (dispatch_command b h (lit ''boot status'') p) =
     p_out p @ pre @ ascii ''reset_csr 0x'' @ hexadecimal 8 (unat (p_boot_reset_csr p)) @ post"
    unfolding print_boot_status_def reset_csr_text by (intro exI)
  have "p_out (dispatch_command b h (lit ''health status'') p) = p_out p @ print_health_status p"
    by (simp add: dispatch_command_def lit_def ascii_def say_def is_unavailable_register_group_def)
  then show "\<exists>pre post. p_out (dispatch_command b h (lit ''health status'') p) =
     p_out p @ pre @ ascii ''reset_csr 0x'' @ hexadecimal 8 (unat (p_boot_reset_csr p)) @ post"
    unfolding print_health_status_def reset_csr_text
    by - (rule exI [of _ "msg ''health state '' @ uart_puts (platform_health_state_name (platform_health_get_state (p_health p))) @
        msg '' automatic '' @ uart_puts (platform_health_state_name (ph_automatic (p_health p))) @
        msg '' temporary '' @ (if ph_temporary_active (p_health p) then msg ''yes'' else msg ''no'') @
        msg '' led '' @ uart_put_hex32 (ucast (ph_led_mask (p_health p))) @ new_line"], rule exI, unfold append_assoc, assumption)
qed


end
