(* ===== verification/Platform_Guarantees.thy ===== *)
theory Platform_Guarantees
  imports Platform_App Platform_Secrecy
begin

text \<open>
  What the research application guarantees as a whole, over the initialisation and any number of
  turns of its loop, for every input and every value of the registers it does not rely on.

  The lemmas look at a turn from the flash, the MPU and the flags of the health gate (\<open>app_core\<close>);
  the theorems follow by induction over the turns.
\<close>


section \<open>What the decisions depend on\<close>

definition init_good :: "build \<Rightarrow> hw \<Rightarrow> (nat \<Rightarrow> u32) \<Rightarrow> (nat \<Rightarrow> u32) \<Rightarrow> mpu \<Rightarrow> bool" where
  "init_good b h rcc iwdg m \<longleftrightarrow> mandatory_self_tests_pass b h \<and>
     fst (mpu_policy_init (stack_guard_start b) (hw32 h MPU_TYPE_ADDR) m) \<and> fst (platform_watchdog_init rcc iwdg)"

lemma init_start_core:
  "app_core (init_self_tests b h (init_boot b h (platform_reset c report fault m gpio))) =
     (0, [mandatory_self_tests_pass b h, True, \<not> mandatory_self_tests_pass b h, True, False, False, False, False],
      False, False, m, c)"
  by (simp add: init_defs app_core_def platform_reset_def)

lemma init_core:
  "app_core (platform_init b h rcc iwdg (platform_reset c report fault m gpio)) =
     (0, [mandatory_self_tests_pass b h, True, \<not> init_good b h rcc iwdg m, True, True,
          fst (mpu_policy_init (stack_guard_start b) (hw32 h MPU_TYPE_ADDR) m),
          fst (platform_watchdog_init rcc iwdg), fst (platform_watchdog_init rcc iwdg)],
      False, False, snd (mpu_policy_init (stack_guard_start b) (hw32 h MPU_TYPE_ADDR) m), c)"
proof -
  let ?p = "init_monitor b h (init_self_tests b h (init_boot b h (platform_reset c report fault m gpio)))"
  have "app_core ?p = (0, [mandatory_self_tests_pass b h, True, \<not> mandatory_self_tests_pass b h, True, True, False, False, False],
      False, False, m, c)"
    using init_monitor_keeps(6) [of ?p b h, OF refl] init_start_core [of b h c report fault m gpio] by (simp add: app_core_def)
  then show ?thesis unfolding platform_init_def
    by (simp add: late_defs app_core_def init_good_def split: prod.split)
qed

lemma app_core_say [simp]: "app_core (say t p) = app_core p"
  by (simp add: app_core_def say_def)

lemma idle_cases:
  "platform_idle b h c p =
     (let p1 = idle_front b h c p; t = fst (test_scenario_service b (p_ticks p1)); out = snd (test_scenario_service b (p_ticks p1))
      in if out \<noteq> SCENARIO_CONTINUES then IDLE_LEFT out (say t p1)
         else IDLE_DONE (watchdog_turn (confirmation_turn b h (reach_stable_point b (say t p1)))))"
  by (simp only: platform_idle_def Let_def case_prod_unfold)

lemma idle_left_core:
  assumes "platform_idle b h c p = IDLE_LEFT out q"
  shows "app_core q = app_core (platform_tick p)"
proof -
  have "\<exists>t. q = say t (idle_front b h c p)"
    using assms unfolding idle_cases Let_def by (simp only: idle_result.inject idle_result.distinct split: if_splits) blast+
  then show ?thesis using front_core by auto
qed

lemma idle_done_core:
  assumes "platform_idle b h c p = IDLE_DONE q"
  obtains r where "app_core r = app_core (reach_stable_point b (platform_tick p))" "app_core q = app_core (confirmation_turn b h r)"
proof -
  obtain t where q: "q = watchdog_turn (confirmation_turn b h (reach_stable_point b (say t (idle_front b h c p))))"
    using assms unfolding idle_cases Let_def by (simp only: idle_result.inject idle_result.distinct split: if_splits) blast+
  let ?r = "reach_stable_point b (say t (idle_front b h c p))"
  have "app_core ?r = app_core (reach_stable_point b (platform_tick p))"
    using front_core [of b h c p] app_core_say [of t "idle_front b h c p"]
    by (simp add: reach_stable_point_def app_core_def)
  moreover have "app_core q = app_core (confirmation_turn b h ?r)" by (simp add: q watchdog_turn_def app_core_def)
  ultimately show ?thesis by (rule that)
qed

definition good_flags :: "platform \<Rightarrow> bool" where
  "good_flags p \<longleftrightarrow> p_self_tests p \<and> p_early_init_done p \<and> \<not> p_critical_failure p \<and> p_uart_ready p \<and> p_monitor_ready p \<and>
     p_mpu_ready p \<and> p_watchdog_ready p"

lemma health_ready_iff:
  "health_ready (confirmation_health b p) \<longleftrightarrow>
     good_flags p \<and> p_stable_point p \<and> test_scenario_stable b (p_ticks p) \<and> test_scenario_health_ok b"
  by (auto simp: health_ready_def confirmation_health_def good_flags_def)

text \<open>The state in which the confirmation runs, seen from the start of the turn.\<close>

lemma mid_fields:
  assumes "app_core r = app_core (reach_stable_point b (platform_tick p))"
  shows "good_flags r = good_flags p" "p_ticks r = p_ticks p + 1" "p_flash r = p_flash p" "p_mpu r = p_mpu p"
    "p_confirmation_terminal r = p_confirmation_terminal p"
    "p_stable_point r = (p_stable_point p \<or> CONFIRMATION_DELAY_TICKS b = 0 \<or> CONFIRMATION_DELAY_TICKS b \<le> p_ticks p + 1)"
  using assms by (simp_all add: app_core_def reach_stable_point_def platform_tick_def good_flags_def split: if_splits)

text \<open>One turn of the loop, seen from the flash and the MPU.\<close>

lemma idle_flash:
  assumes "platform_idle b h c p = IDLE_DONE q"
  shows "good_flags q = good_flags p" "p_ticks q = p_ticks p + 1"
    and "p_flash q \<noteq> p_flash p \<or> p_mpu q \<noteq> p_mpu p \<Longrightarrow>
      \<exists>hl s st s'. platform_confirmation_service (hw32 h VTOR_ADDR) hl (s, p_mpu p, p_flash p) = (st, s', p_mpu q, p_flash q) \<and>
        (health_ready hl \<longrightarrow> good_flags p \<and> test_scenario_health_ok b)"
proof -
  obtain r where r: "app_core r = app_core (reach_stable_point b (platform_tick p))" "app_core q = app_core (confirmation_turn b h r)"
    using assms by (rule idle_done_core)
  have rf: "good_flags r = good_flags p" "p_ticks r = p_ticks p + 1" "p_flash r = p_flash p" "p_mpu r = p_mpu p"
    using mid_fields [OF r(1)] by simp_all
  have qf: "p_flash q = p_flash (confirmation_turn b h r)" "p_mpu q = p_mpu (confirmation_turn b h r)"
    using r(2) by (simp_all add: app_core_def)
  show "good_flags q = good_flags p" "p_ticks q = p_ticks p + 1"
    using r(2) turn_other(1,2) [of b h r] rf by (auto simp: app_core_def good_flags_def)
  assume change: "p_flash q \<noteq> p_flash p \<or> p_mpu q \<noteq> p_mpu p"
  then have open': "\<not> p_confirmation_terminal r" using rf qf turn_terminal [of r b h] by auto
  obtain st s m c' where run: "platform_confirmation_service (hw32 h VTOR_ADDR) (confirmation_health b r)
      (p_confirmation r, p_mpu r, p_flash r) = (st, s, m, c')" by (metis prod.collapse)
  from turn_run [OF open' this] run rf qf health_ready_iff [of b r]
  show "\<exists>hl s st s'. platform_confirmation_service (hw32 h VTOR_ADDR) hl (s, p_mpu p, p_flash p) = (st, s', p_mpu q, p_flash q) \<and>
        (health_ready hl \<longrightarrow> good_flags p \<and> test_scenario_health_ok b)" by fastforce
qed

lemma loop_keeps:
  assumes left: "\<And>p q h c out. platform_idle b h c p = IDLE_LEFT out q \<Longrightarrow> P p \<Longrightarrow> P q"
    and idle: "\<And>p q h c. (h, c) \<in> set turns \<Longrightarrow> platform_idle b h c p = IDLE_DONE q \<Longrightarrow> P p \<Longrightarrow> P q"
  shows "P p \<Longrightarrow> P (idle_state (idle_loop b turns p))"
  using idle
proof (induction turns arbitrary: p)
  case (Cons x turns)
  obtain h c where x: "x = (h, c)" by fastforce
  show ?case
  proof (cases "platform_idle b h c p")
    case (IDLE_DONE q)
    with Cons x show ?thesis by simp blast
  next
    case (IDLE_LEFT out q)
    with left [OF IDLE_LEFT Cons.prems(1)] x show ?thesis by simp
  qed
qed simp

section \<open>A device that boots keeps booting\<close>

lemma loop_life:
  assumes "life_inv crypt pk (p_flash p)"
  shows "life_inv crypt pk (p_flash (idle_state (idle_loop b turns p)))"
proof (rule loop_keeps [where P = "\<lambda>p. life_inv crypt pk (p_flash p)"])
  fix p q h c out assume "platform_idle b h c p = IDLE_LEFT out q" "life_inv crypt pk (p_flash p)"
  then show "life_inv crypt pk (p_flash q)" using idle_left_core by (fastforce simp: app_core_def platform_tick_def)
next
  fix p q h c assume idle: "platform_idle b h c p = IDLE_DONE q" and inv: "life_inv crypt pk (p_flash p)"
  show "life_inv crypt pk (p_flash q)"
  proof (cases "p_flash q = p_flash p")
    case False
    with idle_flash(3) [OF idle] obtain hl s st s' where
      "platform_confirmation_service (hw32 h VTOR_ADDR) hl (s, p_mpu p, p_flash p) = (st, s', p_mpu q, p_flash q)" by blast
    then show ?thesis using service_life [OF inv] by blast
  qed (use inv in simp)
qed (rule assms)

text \<open>
  C10. The application never makes a device unbootable: started on a device that boots, and stopped
  after any number of turns, at any point of a test scenario and with any input, it leaves flash
  from which the next boot starts a verified image.
\<close>

theorem application_keeps_device_bootable:
  assumes good: "host_healthy c" "journal_record c r" "record_good crypt pk (host_view c) r"
  shows "\<exists>ev st effs c'. boot_sequence_execute crypt pk
      (p_flash (idle_state (platform_main b h rcc iwdg turns (platform_reset c report fault m gpio)))) csr =
      (ev, BOOT_JUMP st effs, c') \<and>
    (\<exists>entered \<in> {boot_slot_a, boot_slot_b}. slot_bootable crypt pk (host_view c') entered \<and>
       last effs = ENTER (slot_entry (host_view c') entered))"
proof (rule device_boots)
  have "p_flash (say t (platform_init b h rcc iwdg (platform_reset c report fault m gpio))) = c" for t
    using init_core [of b h rcc iwdg c report fault m gpio] by (simp add: app_core_def say_def)
  moreover have "life_inv crypt pk c" using good by (auto simp: life_inv_def)
  ultimately show "life_inv crypt pk (p_flash (idle_state (platform_main b h rcc iwdg turns (platform_reset c report fault m gpio))))"
    unfolding platform_main_def by (intro loop_life) simp
qed

section \<open>Writes need the gate\<close>

lemma loop_writes:
  assumes "p_flash (idle_state (idle_loop b turns p)) \<noteq> p_flash p"
  shows "good_flags p \<and> test_scenario_health_ok b \<and>
    (\<exists>(h, x) \<in> set turns. \<exists>running r. boot_confirm_slot_from_vector_address (hw32 h VTOR_ADDR) = (BOOT_CONFIRM_OK, running) \<and>
       journal_record (p_flash p) r \<and> state r = BOOT_METADATA_STATE_PENDING_TRIAL \<and> candidate_slot r = running)"
  using assms
proof (induction turns arbitrary: p)
  case (Cons x turns)
  obtain h c where x: "x = (h, c)" by fastforce
  show ?case
  proof (cases "platform_idle b h c p")
    case (IDLE_LEFT out q)
    with idle_left_core [OF this] Cons.prems x show ?thesis by (simp add: app_core_def platform_tick_def)
  next
    case (IDLE_DONE q)
    show ?thesis
    proof (cases "p_flash q = p_flash p")
      case True
      with Cons.IH [of q] Cons.prems x IDLE_DONE idle_flash(1) [OF IDLE_DONE] show ?thesis by auto
    next
      case False
      with idle_flash(3) [OF IDLE_DONE] obtain hl s st s' where
        "platform_confirmation_service (hw32 h VTOR_ADDR) hl (s, p_mpu p, p_flash p) = (st, s', p_mpu q, p_flash q)"
        "health_ready hl \<longrightarrow> good_flags p \<and> test_scenario_health_ok b" by blast
      with service_writes [OF this(1) False] x show ?thesis by auto
    qed
  qed
qed simp

text \<open>
  C9. The application writes the flash only to confirm a healthy trial: when any byte of the flash
  has changed after some turns, then the self tests, the memory policy and the watchdog were
  initialised successfully, the scenario of the build is not one that reports bad health, and in
  some turn the running slot, found from VTOR, was the pending trial of the journal.
\<close>

theorem application_writes_need_gate:
  assumes "p_flash (idle_state (platform_main b h rcc iwdg turns (platform_reset c report fault m gpio))) \<noteq> c"
  shows "init_good b h rcc iwdg m \<and> test_scenario_health_ok b \<and>
    (\<exists>(h', x) \<in> set turns. \<exists>running r. boot_confirm_slot_from_vector_address (hw32 h' VTOR_ADDR) = (BOOT_CONFIRM_OK, running) \<and>
       journal_record c r \<and> state r = BOOT_METADATA_STATE_PENDING_TRIAL \<and> candidate_slot r = running)"
proof -
  define p where "p = say (msg_line ''EXP066 RESEARCH PLATFORM'' @ msg ''rp> '') (platform_init b h rcc iwdg (platform_reset c report fault m gpio))"
  have p: "p_flash p = c" "good_flags p \<longrightarrow> init_good b h rcc iwdg m"
    using init_core [of b h rcc iwdg c report fault m gpio] by (simp_all add: p_def app_core_def say_def good_flags_def)
  with loop_writes [of b turns p] assms show ?thesis by (simp add: platform_main_def p_def [symmetric])
qed

section \<open>The memory policy stays in force\<close>

lemma loop_policy:
  assumes "policy_in_force guard (p_mpu p)"
  shows "policy_in_force guard (p_mpu (idle_state (idle_loop b turns p)))"
proof (rule loop_keeps [where P = "\<lambda>p. policy_in_force guard (p_mpu p)"])
  fix p q h c out assume "platform_idle b h c p = IDLE_LEFT out q" "policy_in_force guard (p_mpu p)"
  then show "policy_in_force guard (p_mpu q)" using idle_left_core by (fastforce simp: app_core_def platform_tick_def)
next
  fix p q h c assume idle: "platform_idle b h c p = IDLE_DONE q" and inv: "policy_in_force guard (p_mpu p)"
  show "policy_in_force guard (p_mpu q)"
  proof (cases "p_mpu q = p_mpu p")
    case False
    with idle_flash(3) [OF idle] obtain hl s st s' where
      "platform_confirmation_service (hw32 h VTOR_ADDR) hl (s, p_mpu p, p_flash p) = (st, s', p_mpu q, p_flash q)" by blast
    then show ?thesis using service_policy [OF inv] by blast
  qed (use inv in simp)
qed (rule assms)

lemma loop_left:
  "idle_loop b turns p = IDLE_LEFT out q \<Longrightarrow> \<exists>tick. out = snd (test_scenario_service b tick)"
proof (induction turns arbitrary: p)
  case (Cons x turns)
  obtain h c where x: "x = (h, c)" by fastforce
  show ?case
  proof (cases "platform_idle b h c p")
    case (IDLE_LEFT out' q')
    then have "out' = snd (test_scenario_service b (p_ticks (idle_front b h c p)))"
      unfolding idle_cases Let_def by (simp only: idle_result.inject idle_result.distinct split: if_splits)
    with Cons.prems x IDLE_LEFT show ?thesis by auto
  qed (use Cons x in simp)
qed simp

lemma scenario_accesses:
  assumes "snd (test_scenario_service b tick) = SCENARIO_ACCESS acc a" "TEST_SCENARIO b \<noteq> SCENARIO_TRIAL_HARDFAULT"
  shows "(acc, a) \<in> {(MPU_WRITE, 0), (MPU_EXECUTE, 0x20000000), (MPU_WRITE, 0x08000000), (MPU_WRITE, 0x08008000),
    (MPU_WRITE, stack_guard_start b)}"
  using assms
  by (cases "TEST_SCENARIO b") (simp_all add: test_scenario_service_def mpu_policy_stack_guard_start_def split: if_splits)

lemma scenario_access:
  assumes "snd (test_scenario_service b tick) = SCENARIO_ACCESS acc a" "TEST_SCENARIO b \<noteq> SCENARIO_TRIAL_HARDFAULT"
    and "policy_in_force (stack_guard_start b) m"
  shows "\<not> mpu_permits acc m a"
proof -
  consider "acc = MPU_WRITE" "a = 0" | "acc = MPU_EXECUTE" "a = 0x20000000" | "acc = MPU_WRITE" "a = 0x08000000"
    | "acc = MPU_WRITE" "a = 0x08008000" | "acc = MPU_WRITE" "a = stack_guard_start b"
    using scenario_accesses [OF assms(1,2)] by auto
  then show ?thesis by cases (simp_all add: policy_permits [OF assms(3)])
qed

text \<open>
  C17. The memory policy is in force in every turn of the loop, also after the confirmation has
  suspended it: when it was initialised successfully, no address of the flash can be written and no
  address of the RAM can be executed whenever control is in the loop, and the access that a memory
  test scenario of the build makes is one the policy denies.
\<close>

theorem memory_policy_always_in_force:
  assumes init: "fst (mpu_policy_init (stack_guard_start b) (hw32 h MPU_TYPE_ADDR) m)"
    and reset: "mpu_rasr m 5 AND 1 = 0" "mpu_rasr m 6 AND 1 = 0" "mpu_rasr m 7 AND 1 = 0"
    and run: "result = platform_main b h rcc iwdg turns (platform_reset c report fault m gpio)"
  shows "(0x08000000 \<le> unat a \<and> unat a < 0x08100000 \<longrightarrow> \<not> mpu_permits MPU_WRITE (p_mpu (idle_state result)) a) \<and>
    (0x20000000 \<le> unat a \<and> unat a < 0x20020000 \<longrightarrow> \<not> mpu_permits MPU_EXECUTE (p_mpu (idle_state result)) a) \<and>
    (result = IDLE_LEFT (SCENARIO_ACCESS acc x) p \<and> TEST_SCENARIO b \<noteq> SCENARIO_TRIAL_HARDFAULT \<longrightarrow>
       \<not> mpu_permits acc (p_mpu p) x)"
proof -
  let ?p = "say (msg_line ''EXP066 RESEARCH PLATFORM'' @ msg ''rp> '') (platform_init b h rcc iwdg (platform_reset c report fault m gpio))"
  obtain m' where m': "mpu_policy_init (stack_guard_start b) (hw32 h MPU_TYPE_ADDR) m = (True, m')"
    using init by (metis prod.collapse)
  have "p_mpu ?p = m'"
    using init_core [of b h rcc iwdg c report fault m gpio] m' by (simp add: app_core_def say_def)
  with mpu_policy_init_ok(1) [OF m' reset] have "policy_in_force (stack_guard_start b) (p_mpu ?p)" by simp
  from loop_policy [OF this, of b turns] have pol: "policy_in_force (stack_guard_start b) (p_mpu (idle_state result))"
    by (simp add: run platform_main_def)
  moreover have "\<not> mpu_permits acc (p_mpu p) x"
    if left: "result = IDLE_LEFT (SCENARIO_ACCESS acc x) p" and other: "TEST_SCENARIO b \<noteq> SCENARIO_TRIAL_HARDFAULT"
  proof -
    obtain tick where "SCENARIO_ACCESS acc x = snd (test_scenario_service b tick)"
      using loop_left left run unfolding platform_main_def by metis
    from scenario_access [OF this [symmetric] other] pol left show ?thesis by simp
  qed
  ultimately show ?thesis by (auto simp: policy_permits)
qed

section \<open>A healthy trial is confirmed\<close>

definition ready_tick :: "build \<Rightarrow> nat" where
  "ready_tick b = max 1 (max (unat (CONFIRMATION_DELAY_TICKS b))
     (if TEST_SCENARIO b = SCENARIO_TRIAL_DELAYED_CONFIRM then 100 else 0))"

lemma ready_tick_bound: "ready_tick b \<le> SIZE_MAX"
  using u32_unat_bound [of "CONFIRMATION_DELAY_TICKS b"] by (auto simp: ready_tick_def)

lemma scenario_continues: "test_scenario_health_ok b \<Longrightarrow> snd (test_scenario_service b t) = SCENARIO_CONTINUES"
  by (cases "TEST_SCENARIO b") (simp_all add: test_scenario_health_ok_def test_scenario_service_def)

lemma idle_continues: "test_scenario_health_ok b \<Longrightarrow> \<exists>q. platform_idle b h c p = IDLE_DONE q"
  unfolding idle_cases Let_def by (simp add: scenario_continues)

definition waiting :: "build \<Rightarrow> host_context \<Rightarrow> nat \<Rightarrow> platform \<Rightarrow> bool" where
  "waiting b c k p \<longleftrightarrow> good_flags p \<and> \<not> p_confirmation_terminal p \<and> p_ticks p = of_nat k \<and> p_flash p = c \<and>
     (p_stable_point p \<longrightarrow> unat (CONFIRMATION_DELAY_TICKS b) \<le> k)"

lemma waiting_turn:
  assumes wait: "waiting b c k p" and k: "k < ready_tick b" and ok: "test_scenario_health_ok b"
    and r: "app_core r = app_core (reach_stable_point b (platform_tick p))"
  shows "waiting b c (Suc k) r" "health_ready (confirmation_health b r) \<longleftrightarrow> Suc k = ready_tick b"
proof -
  note mid = mid_fields [OF r]
  have tick: "p_ticks r = of_nat (Suc k)" "p_ticks p + 1 = of_nat (Suc k)" using mid(2) wait by (simp_all add: waiting_def add.commute)
  have unat: "unat (of_nat (Suc k) :: u32) = Suc k" using k ready_tick_bound [of b] by (intro u32_of_nat) linarith
  have stable: "p_stable_point r \<longleftrightarrow> unat (CONFIRMATION_DELAY_TICKS b) \<le> Suc k"
    using mid(6) wait unfolding tick word_le_nat_alt unat by (auto simp: waiting_def)
  show "waiting b c (Suc k) r"
    using mid(1,3,5) stable tick(1) wait by (simp add: waiting_def)
  have "test_scenario_stable b (p_ticks r) \<longleftrightarrow> (TEST_SCENARIO b = SCENARIO_TRIAL_DELAYED_CONFIRM \<longrightarrow> 100 \<le> Suc k)"
    unfolding test_scenario_stable_def tick word_le_nat_alt unat by simp
  moreover have "good_flags r" using mid(1) wait by (simp add: waiting_def)
  moreover have "unat (CONFIRMATION_DELAY_TICKS b) \<le> Suc k \<and> (TEST_SCENARIO b = SCENARIO_TRIAL_DELAYED_CONFIRM \<longrightarrow> 100 \<le> Suc k) \<longleftrightarrow>
      Suc k = ready_tick b" using k by (simp add: ready_tick_def max_def split: if_splits) linarith+
  ultimately show "health_ready (confirmation_health b r) \<longleftrightarrow> Suc k = ready_tick b"
    unfolding health_ready_iff stable using ok by simp
qed

text \<open>The journal holds a pending trial of the slot the application runs from.\<close>

definition trial_pending :: "host_context \<Rightarrow> boot_metadata_record \<Rightarrow> boot_slot_descriptor \<Rightarrow> bool" where
  "trial_pending c r slot \<longleftrightarrow> host_fault_free c \<and> journal_record c r \<and> state r = BOOT_METADATA_STATE_PENDING_TRIAL \<and>
     sequence r < UINT32_MAX - 1 \<and> confirmation_state r = 0 \<and> boot_slot_lookup (candidate_slot r) = Some slot"

lemma idle_waits:
  assumes wait: "waiting b c k p" and k: "k < ready_tick b" and ok: "test_scenario_health_ok b"
    and trial: "trial_pending c r slot" and vtor: "hw32 h VTOR_ADDR = payload_base slot"
    and idle: "platform_idle b h x p = IDLE_DONE q"
  shows "Suc k < ready_tick b \<Longrightarrow> waiting b c (Suc k) q"
    and "Suc k = ready_tick b \<Longrightarrow> p_confirmation_terminal q \<and> journal_record (p_flash q) (confirmed_next r)"
proof -
  obtain d where d: "app_core d = app_core (reach_stable_point b (platform_tick p))" "app_core q = app_core (confirmation_turn b h d)"
    using idle by (rule idle_done_core)
  note turn = waiting_turn [OF wait k ok d(1)]
  have fl: "p_flash d = c" and op: "\<not> p_confirmation_terminal d" using turn(1) by (simp_all add: waiting_def)
  have tr: "host_fault_free c" "journal_record c r" "state r = BOOT_METADATA_STATE_PENDING_TRIAL" "sequence r < UINT32_MAX - 1"
    "confirmation_state r = 0" "boot_slot_lookup (candidate_slot r) = Some slot" using trial by (simp_all add: trial_pending_def)
  show "waiting b c (Suc k) q" if "Suc k < ready_tick b"
  proof -
    have "\<not> health_ready (confirmation_health b d)" using turn(2) that by simp
    from service_waits [OF tr(2,3,5,6) this, of "p_confirmation d" "p_mpu d"] obtain s' where
      "platform_confirmation_service (hw32 h VTOR_ADDR) (confirmation_health b d) (p_confirmation d, p_mpu d, p_flash d) =
        (PLATFORM_CONFIRMATION_NOT_HEALTHY, s', p_mpu d, c)" using fl vtor by auto
    from turn_run [OF op this] turn(1) d(2) turn_other(1-3) [of b h d]
    show ?thesis by (simp add: waiting_def app_core_def good_flags_def)
  qed
  show "p_confirmation_terminal q \<and> journal_record (p_flash q) (confirmed_next r)" if "Suc k = ready_tick b"
  proof -
    have "health_ready (confirmation_health b d)" using turn(2) that by simp
    from trial_confirmed [OF tr(1-6) this, of "p_confirmation d" "p_mpu d"] obtain s' m' c' where
      "platform_confirmation_service (hw32 h VTOR_ADDR) (confirmation_health b d) (p_confirmation d, p_mpu d, p_flash d) =
        (PLATFORM_CONFIRMATION_OK, s', m', c')" "journal_record c' (confirmed_next r)" using fl vtor by auto
    with turn_run [OF op this(1)] d(2) show ?thesis by (simp add: app_core_def)
  qed
qed

lemma loop_terminal:
  assumes ok: "test_scenario_health_ok b"
  shows "p_confirmation_terminal p \<Longrightarrow> \<exists>q. idle_loop b turns p = IDLE_DONE q \<and> p_flash q = p_flash p"
proof (induction turns arbitrary: p)
  case (Cons x turns)
  obtain h c where x: "x = (h, c)" by fastforce
  obtain q where q: "platform_idle b h c p = IDLE_DONE q" using idle_continues [OF ok] by blast
  then obtain d where d: "app_core d = app_core (reach_stable_point b (platform_tick p))" "app_core q = app_core (confirmation_turn b h d)"
    by (rule idle_done_core)
  have "p_confirmation_terminal d" "p_flash d = p_flash p"
    using mid_fields [OF d(1)] Cons.prems by simp_all
  with d(2) have "p_confirmation_terminal q" "p_flash q = p_flash p" by (simp_all add: turn_terminal app_core_def)
  with Cons.IH [of q] x q show ?case by simp
qed simp

lemma loop_confirms:
  assumes ok: "test_scenario_health_ok b" and trial: "trial_pending c r slot"
  shows "waiting b c k p \<Longrightarrow> k < ready_tick b \<Longrightarrow> ready_tick b \<le> k + length turns \<Longrightarrow>
    \<forall>(h, x) \<in> set turns. hw32 h VTOR_ADDR = payload_base slot \<Longrightarrow>
    \<exists>q. idle_loop b turns p = IDLE_DONE q \<and> journal_record (p_flash q) (confirmed_next r)"
proof (induction turns arbitrary: k p)
  case (Cons x turns)
  obtain h y where x: "x = (h, y)" by fastforce
  obtain q where q: "platform_idle b h y p = IDLE_DONE q" using idle_continues [OF ok] by blast
  have vtor: "hw32 h VTOR_ADDR = payload_base slot" using Cons.prems(4) x by auto
  note step = idle_waits [OF Cons.prems(1,2) ok trial vtor q]
  show ?case
  proof (cases "Suc k = ready_tick b")
    case True
    from step(2) [OF True] loop_terminal [OF ok, of q turns] x q show ?thesis by auto
  next
    case False
    then have lt: "Suc k < ready_tick b" using Cons.prems(2) by simp
    from Cons.IH [OF step(1) [OF lt] lt] Cons.prems(3,4) x q show ?thesis by auto
  qed
qed simp

lemma main_confirms:
  assumes trial: "trial_pending c r slot" and init: "init_good b h rcc iwdg m" and ok: "test_scenario_health_ok b"
    and vtor: "\<forall>(h', x) \<in> set turns. hw32 h' VTOR_ADDR = payload_base slot" and time: "ready_tick b \<le> length turns"
  shows "\<exists>p. platform_main b h rcc iwdg turns (platform_reset c report fault m gpio) = IDLE_DONE p \<and>
    journal_record (p_flash p) (confirmed_next r)"
proof -
  let ?p = "say (msg_line ''EXP066 RESEARCH PLATFORM'' @ msg ''rp> '') (platform_init b h rcc iwdg (platform_reset c report fault m gpio))"
  have "waiting b c 0 ?p"
    using init_core [of b h rcc iwdg c report fault m gpio] init
    by (simp add: waiting_def app_core_def say_def good_flags_def init_good_def)
  moreover have "0 < ready_tick b" by (simp add: ready_tick_def)
  ultimately show ?thesis
    unfolding platform_main_def using loop_confirms [OF ok trial, of 0 ?p turns] time vtor by simp
qed

lemma main_continues: "test_scenario_health_ok b \<Longrightarrow> \<exists>p. platform_main b h rcc iwdg turns start = IDLE_DONE p"
proof -
  assume ok: "test_scenario_health_ok b"
  have "\<exists>q. idle_loop b turns p = IDLE_DONE q" for p
  proof (induction turns arbitrary: p)
    case (Cons x turns)
    obtain h c where "x = (h, c)" by fastforce
    with Cons idle_continues [OF ok, of h c p] show ?case by auto
  qed simp
  then show ?thesis by (simp add: platform_main_def)
qed

section \<open>The vector monitor of the application\<close>

lemma idle_vector:
  assumes b: "slot_build b" and ok: "app_ok b p" and idle: "platform_idle b h c p = IDLE_DONE q"
  shows "\<exists>ev. vector_monitor (p_monitor q) =
    snd (rsm_vector_monitor_step (hw32 h) (hw32 h VTOR_ADDR) ev RSM_VECTOR_DEFAULT_STEP_BUDGET (vector_monitor (p_monitor p)))"
proof -
  let ?t = "change_health platform_health_service_tick (platform_tick p)"
  have t: "monitor_ok b ?t" "vector_monitor (p_monitor ?t) = vector_monitor (p_monitor p)"
    using ok tick_keeps(1) by (simp_all add: app_ok_def change_health_def platform_tick_def)
  have front: "vector_monitor (p_monitor (idle_front b h c p)) =
      snd (rsm_vector_monitor_step (hw32 h) (hw32 h VTOR_ADDR) (log_last_sequence (p_log ?t)) RSM_VECTOR_DEFAULT_STEP_BUDGET
        (vector_monitor (p_monitor p)))"
    unfolding idle_front_def cli_poll_keeps(2) [OF refl] periodic_monitor(2) [OF t(1) b] t(2) ..
  obtain s where q: "q = watchdog_turn (confirmation_turn b h (reach_stable_point b (say s (idle_front b h c p))))"
    using idle unfolding idle_cases Let_def by (simp only: idle_result.inject idle_result.distinct split: if_splits) blast+
  have "p_monitor q = p_monitor (idle_front b h c p)"
    by (simp add: q watchdog_turn_def turn_other(7) reach_stable_point_def say_def)
  with front show ?thesis by auto
qed

lemma loop_vector:
  assumes b: "slot_build b"
  shows "app_ok b p \<Longrightarrow> idle_loop b turns p = IDLE_DONE q \<Longrightarrow>
    \<exists>obs. vector_monitor (p_monitor q) = vector_run RSM_VECTOR_DEFAULT_STEP_BUDGET obs (vector_monitor (p_monitor p)) \<and>
      map (\<lambda>(mem, v, ev). (mem, v)) obs = map (\<lambda>(h, x). (hw32 h, hw32 h VTOR_ADDR)) turns"
proof (induction turns arbitrary: p)
  case (Cons x turns)
  obtain h c where x: "x = (h, c)" by fastforce
  obtain p' where p': "platform_idle b h c p = IDLE_DONE p'" using Cons.prems(2) x by (cases "platform_idle b h c p") auto
  obtain ev where step: "vector_monitor (p_monitor p') = snd (rsm_vector_monitor_step (hw32 h) (hw32 h VTOR_ADDR) ev
      RSM_VECTOR_DEFAULT_STEP_BUDGET (vector_monitor (p_monitor p)))"
    using idle_vector [OF b Cons.prems(1) p'] by blast
  from Cons.IH [OF idle_ok(1) [OF b Cons.prems(1) p']] Cons.prems(2) x p' obtain obs where
    "vector_monitor (p_monitor q) = vector_run RSM_VECTOR_DEFAULT_STEP_BUDGET obs (vector_monitor (p_monitor p'))"
    "map (\<lambda>(mem, v, ev). (mem, v)) obs = map (\<lambda>(h, x). (hw32 h, hw32 h VTOR_ADDR)) turns" by auto
  with step x show ?case
    by (intro exI [of _ "(hw32 h, hw32 h VTOR_ADDR, ev) # obs"]) (simp add: vector_run_def)
qed simp

lemma loop_obs:
  assumes "map (\<lambda>(mem, v, ev). (mem, v)) obs = map (\<lambda>(h, x). (hw32 h, hw32 h VTOR_ADDR)) turns" and "(mem, v, ev) \<in> set obs"
  obtains h x where "(h, x) \<in> set turns" "mem = hw32 h" "v = hw32 h VTOR_ADDR"
proof -
  have "(mem, v) \<in> set (map (\<lambda>(mem, v, ev). (mem, v)) obs)" using assms(2) by force
  then show thesis using that unfolding assms(1) by auto
qed

abbreviation banner :: "platform \<Rightarrow> platform" where
  "banner \<equiv> say (msg_line ''EXP066 RESEARCH PLATFORM'' @ msg ''rp> '')"

lemma init_vector:
  "\<exists>ev. vector_monitor (p_monitor (banner (platform_init b h rcc iwdg p))) =
     snd (rsm_vector_monitor_init (hw32 h) (Some (vector_config b)) (hw32 h VTOR_ADDR) ev)"
proof -
  let ?q = "init_self_tests b h (init_boot b h p)"
  have "vector_monitor (p_monitor (snd (runtime_monitor_init b h csr t q))) =
      snd (rsm_vector_monitor_init (hw32 h) (Some (vector_config b)) (hw32 h VTOR_ADDR) (log_last_sequence (p_log q)))" for csr t q
    by (simp add: runtime_monitor_init_def runtime_monitor_vector_init_def Let_def runtime_monitor_log_event_def log_event_def
        failure_effects)
  then have "vector_monitor (p_monitor (init_monitor b h ?q)) =
      snd (rsm_vector_monitor_init (hw32 h) (Some (vector_config b)) (hw32 h VTOR_ADDR) (log_last_sequence (p_log ?q)))"
    by (simp add: init_monitor_def monitor_event_def runtime_monitor_log_event_def log_event_def Let_def case_prod_unfold)
  moreover have "p_monitor (banner (platform_init b h rcc iwdg p)) = p_monitor (init_monitor b h ?q)"
    unfolding platform_init_def by (simp add: late_defs split: prod.split)
  ultimately show ?thesis by auto
qed

text \<open>
  A sample of the registers in which the application runs from the slot with the vector table it was built with.
\<close>

definition table_intact :: "build \<Rightarrow> boot_slot_descriptor \<Rightarrow> hw \<Rightarrow> bool" where
  "table_intact b slot h \<longleftrightarrow> hw32 h VTOR_ADDR = payload_base slot \<and> entries_ok (hw32 h) (vector_config b)"

lemma intact_passes:
  assumes b: "slot_build b" and base: "PLATFORM_APP_BASE b = payload_base slot"
    and run: "platform_main b h rcc iwdg turns (platform_reset c report fault m gpio) = IDLE_DONE p"
    and start: "table_intact b slot h" and intact: "\<forall>(h', x) \<in> set turns. table_intact b slot h'"
  shows "rsm_vector_public_status_name (vector_snapshot p) = ascii ''pass'' \<and> vs_failure_count (vector_snapshot p) = 0"
proof -
  let ?p = "banner (platform_init b h rcc iwdg (platform_reset c report fault m gpio))"
  note conf = vector_config_ok [OF b]
  have ok: "app_ok b ?p" using init_app_ok [OF b] by (simp add: app_ok_def say_def monitor_ok_def)
  have loop: "idle_loop b turns ?p = IDLE_DONE p" using run by (simp add: platform_main_def)
  obtain obs where obs: "vector_monitor (p_monitor p) = vector_run RSM_VECTOR_DEFAULT_STEP_BUDGET obs (vector_monitor (p_monitor ?p))"
    "map (\<lambda>(mem, v, ev). (mem, v)) obs = map (\<lambda>(h, x). (hw32 h, hw32 h VTOR_ADDR)) turns" using loop_vector [OF b ok loop] by blast
  obtain ev where m: "vector_monitor (p_monitor ?p) =
      snd (rsm_vector_monitor_init (hw32 h) (Some (vector_config b)) (hw32 h VTOR_ADDR) ev)" using init_vector by blast
  have init: "fst (rsm_vector_monitor_init (hw32 h) (Some (vector_config b)) (hw32 h VTOR_ADDR) ev) = RSM_STATUS_OK"
    using conf base start by (auto simp: init_exact table_intact_def entries_ok_def)
  have "\<forall>(mem, v, ev) \<in> set obs. v = vc_expected_vtor (vector_config b) \<and> entries_ok mem (vector_config b)"
    using intact conf(4) base by (auto simp: table_intact_def elim!: loop_obs [OF obs(2)])
  from healthy_table_passes [OF init _ this, of RSM_VECTOR_DEFAULT_STEP_BUDGET] obs(1) m show ?thesis
    by (simp add: vector_snapshot_def rsm_vector_monitor_get_snapshot_def)
qed

lemma pending_slot: "boot_slot_lookup n = Some slot \<Longrightarrow> PLATFORM_APP_BASE b = payload_base slot \<Longrightarrow> slot_build b"
  by (auto simp: slot_build_def boot_slot_lookup_Some boot_slot_a_def boot_slot_b_def)

lemma idle_loop_append:
  "idle_loop b (xs @ ys) p = IDLE_DONE q \<Longrightarrow>
   \<exists>r. idle_loop b xs p = IDLE_DONE r \<and> idle_loop b ys r = IDLE_DONE q"
proof (induction xs arbitrary: p)
  case (Cons x xs)
  obtain h k where x: "x = (h, k)" by fastforce
  with Cons show ?case by (cases "platform_idle b h k p") auto
qed simp

lemma window_latches:
  assumes b: "slot_build b" and ok: "app_ok b p" and loop: "idle_loop b window p = IDLE_DONE q"
    and time: "8 \<le> length window" and i: "i < 16"
    and bad: "\<forall>(h', x) \<in> set window. \<not> entry_ok (vector_config b) i (vc_observed (hw32 h') (vector_config b) i)"
  shows "latched (vector_monitor (p_monitor q))"
proof -
  obtain obs where obs: "vector_monitor (p_monitor q) = vector_run RSM_VECTOR_DEFAULT_STEP_BUDGET obs (vector_monitor (p_monitor p))"
    "map (\<lambda>(mem, v, ev). (mem, v)) obs = map (\<lambda>(h, x). (hw32 h, hw32 h VTOR_ADDR)) window" using loop_vector [OF b ok loop] by blast
  have conf: "vm_ok (vector_monitor (p_monitor p))" "vm_config (vector_monitor (p_monitor p)) = vector_config b"
    using ok by (simp_all add: app_ok_def monitor_ok_def)
  have "\<forall>(mem, v, ev) \<in> set obs. \<not> entry_ok (vector_config b) i (vc_observed mem (vector_config b) i)"
    using bad by (auto elim!: loop_obs [OF obs(2)])
  then have bad': "\<forall>(mem, v, e) \<in> set obs. \<not> entry_ok (vm_config (vector_monitor (p_monitor p))) i
      (vc_observed mem (vm_config (vector_monitor (p_monitor p))) i)" unfolding conf .
  have len: "length obs = length window" using arg_cong [OF obs(2), of length] by simp
  show ?thesis unfolding obs(1)
    by (rule bad_entry_latched [OF conf(1) _ _ bad']) (use i time len in \<open>simp_all add: conf vector_config_ok [OF b]\<close>)
qed

lemma latched_loop:
  assumes b: "slot_build b" and ok: "app_ok b p" and loop: "idle_loop b turns p = IDLE_DONE q"
    and latch: "latched (vector_monitor (p_monitor p))"
  shows "latched (vector_monitor (p_monitor q))"
proof -
  obtain obs where obs: "vector_monitor (p_monitor q) = vector_run RSM_VECTOR_DEFAULT_STEP_BUDGET obs (vector_monitor (p_monitor p))"
    using loop_vector [OF b ok loop] by blast
  have "latched (vector_run budget os (vector_monitor (p_monitor p)))" for budget os
  proof (induction os rule: rev_induct)
    case (snoc x os)
    obtain m' v e where "x = (m', v, e)" by (cases x)
    with step_latched [OF snoc] show ?case by (simp add: vector_run_snoc)
  qed (simp add: latch)
  then show ?thesis by (simp add: obs)
qed

section \<open>A healthy trial confirms itself\<close>

text \<open>
  C8. A healthy trial confirms itself: on a working device whose journal holds a pending trial of the
  slot the application was built for and runs from, when the initialisation is good, the scenario
  of the build healthy and the vector table intact at the start and in every turn, the program is still
  running after enough turns for the configured delay and the scenario (one turn by default), the
  runtime monitor reports that the vector check passes with no failure counted, and the journal holds the slot as
  confirmed with the version of the candidate, whatever is typed at the console.
\<close>

theorem application_confirms_trial:
  assumes trial: "trial_pending c r slot" and init: "init_good b h rcc iwdg m" and ok: "test_scenario_health_ok b"
    and base: "PLATFORM_APP_BASE b = payload_base slot" and start: "table_intact b slot h"
    and intact: "\<forall>(h', x) \<in> set turns. table_intact b slot h'" and time: "ready_tick b \<le> length turns"
  shows "\<exists>p. platform_main b h rcc iwdg turns (platform_reset c report fault m gpio) = IDLE_DONE p \<and>
    rsm_vector_public_status_name (vector_snapshot p) = ascii ''pass'' \<and> vs_failure_count (vector_snapshot p) = 0 \<and>
    journal_record (p_flash p) (confirmed_next r)"
proof -
  have "\<forall>(h', x) \<in> set turns. hw32 h' VTOR_ADDR = payload_base slot" using intact by (auto simp: table_intact_def)
  from main_confirms [OF trial init ok this time] obtain p where
    p: "platform_main b h rcc iwdg turns (platform_reset c report fault m gpio) = IDLE_DONE p"
      "journal_record (p_flash p) (confirmed_next r)" by blast
  have "slot_build b" using trial pending_slot [OF _ base] by (auto simp: trial_pending_def)
  from intact_passes [OF this base p(1) start intact] p show ?thesis by blast
qed

section \<open>A corrupted vector table raises the alarm\<close>

text \<open>
  C16. A corrupted vector table raises the alarm: when, at any time after the start and for eight or more turns of
  the loop (two of the sixteen entries are checked in each), an entry of the table reads as something the
  baseline does not accept, the application shows the security failure as its health state, with the
  vector check reported as failed, at the end of these turns and ever after - whatever the table
  read before and reads later, and whatever commands are entered, acknowledgements and LED tests included.
\<close>

theorem corrupted_vector_raises_alarm:
  assumes b: "slot_build b"
    and run: "platform_main b h rcc iwdg (before @ window @ after) (platform_reset c report fault m gpio) = IDLE_DONE p"
    and time: "8 \<le> length window" and i: "i < 16"
    and bad: "\<forall>(h', x) \<in> set window. \<not> entry_ok (vector_config b) i (vc_observed (hw32 h') (vector_config b) i)"
  shows "platform_health_get_state (p_health p) = PLATFORM_SECURITY_FAILURE \<and>
    rsm_vector_public_status_name (vector_snapshot p) = ascii ''fail''"
proof -
  let ?p = "banner (platform_init b h rcc iwdg (platform_reset c report fault m gpio))"
  have ok: "app_ok b ?p" using init_app_ok [OF b] by (simp add: app_ok_def say_def monitor_ok_def)
  have "idle_loop b (before @ window @ after) ?p = IDLE_DONE p" using run by (simp add: platform_main_def)
  then obtain p1 p2 where loops: "idle_loop b before ?p = IDLE_DONE p1" "idle_loop b window p1 = IDLE_DONE p2"
    "idle_loop b after p2 = IDLE_DONE p" using idle_loop_append by meson
  have ok1: "app_ok b p1" using idle_loop_ok [OF b ok, of before] loops(1) by simp
  have ok2: "app_ok b p2" using idle_loop_ok [OF b ok1, of window] loops(2) by simp
  have okp: "app_ok b p" using idle_loop_ok [OF b ok2, of after] loops(3) by simp
  have "latched (vector_monitor (p_monitor p2))" by (rule window_latches [OF b ok1 loops(2) time i bad])
  then have "latched (vector_monitor (p_monitor p))" by (rule latched_loop [OF b ok2 loops(3)])
  with okp have auto': "ph_automatic (p_health p) = PLATFORM_SECURITY_FAILURE"
    and snap: "latched (vector_monitor (p_monitor p))" "vm_ok (vector_monitor (p_monitor p))" "has_baseline (vector_monitor (p_monitor p))"
    by (simp_all add: app_ok_def monitor_ok_def)
  have "selected_state (p_health p) = PLATFORM_SECURITY_FAILURE"
    using auto' by (cases "ph_temporary (p_health p)") (simp_all add: selected_state_def word_le_nat_alt)
  moreover have "rsm_vector_public_status_name (vector_snapshot p) = ascii ''fail''"
    using snap by (auto simp: vm_ok_def snapshot_ok_def failure_status_def rsm_vector_public_status_name_def vector_snapshot_def
        rsm_vector_monitor_get_snapshot_def)
  ultimately show ?thesis by (simp add: platform_health_get_state_def)
qed

section \<open>From a candidate to the active image\<close>

lemma loop_bootable:
  assumes ab: "slot = boot_slot_a \<or> slot = boot_slot_b" and boot: "slot_bootable crypt pk (host_view (p_flash p)) slot"
  shows "slot_bootable crypt pk (host_view (p_flash (idle_state (idle_loop b turns p)))) slot"
proof (rule loop_keeps [where P = "\<lambda>p. slot_bootable crypt pk (host_view (p_flash p)) slot"])
  fix p q h c out assume "platform_idle b h c p = IDLE_LEFT out q" "slot_bootable crypt pk (host_view (p_flash p)) slot"
  then show "slot_bootable crypt pk (host_view (p_flash q)) slot" using idle_left_core by (fastforce simp: app_core_def platform_tick_def)
next
  fix p q h c assume idle: "platform_idle b h c p = IDLE_DONE q" and inv: "slot_bootable crypt pk (host_view (p_flash p)) slot"
  show "slot_bootable crypt pk (host_view (p_flash q)) slot"
  proof (cases "p_flash q = p_flash p")
    case False
    with idle_flash(3) [OF idle] obtain hl s st s' where
      "platform_confirmation_service (hw32 h VTOR_ADDR) hl (s, p_mpu p, p_flash p) = (st, s', p_mpu q, p_flash q)" by blast
    then show ?thesis
    proof (cases rule: service_cases)
      case (commit running metadata v s1)
      from commit(5) obtain confirm result where
        "boot_confirm_current_slot metadata_flash (p_flash p) running = (confirm, result, p_flash q)" by (rule commit_run)
      then show ?thesis by (cases rule: confirm_cases) (use False commit_keeps_bootable [OF ab _ inv] in auto)
    qed (use inv in simp)
  qed (use inv in simp)
qed (rule boot)

lemma ready_boot:
  assumes ff: "host_fault_free c" and r: "journal_record c r" and st: "state r = BOOT_METADATA_STATE_CANDIDATE_READY"
    and seq: "sequence r < UINT32_MAX - 1" and slot: "boot_slot_lookup (candidate_slot r) = Some slot"
    and boot: "slot_bootable crypt pk (host_view c) slot"
    and o_def: "options = boot_policy_options crypt pk metadata_flash csr"
  shows "\<exists>ev s effs c'. boot_sequence_execute crypt pk c csr = (ev, BOOT_JUMP s effs, c') \<and>
    last effs = ENTER (slot_entry (host_view c) slot) \<and> host_fault_free c' \<and> journal_record c' (trial_next options r) \<and>
    slot_bootable crypt pk (host_view c') slot"
proof -
  from r obtain v where rec: "boot_metadata_recover_from_flash metadata_flash c = (BOOT_METADATA_OK, Some (r, v))"
    by (rule journal_recordE)
  note good = host_reliable.fault_free_healthy [OF ff]
  from ready_candidate_boots [OF ff rec st seq slot boot, of csr] obtain ev s effs c1 where
    exec: "boot_sequence_execute crypt pk c csr = (ev, BOOT_JUMP s effs, c1)" "last effs = ENTER (slot_entry (host_view c) slot)" by blast
  from select_ready_trial [OF ff rec st seq slot boot, of csr] obtain res c' where
    sel: "boot_slot_selection_select options c = (BOOT_SLOT_SELECTION_OK, res, c')"
    and com: "boot_metadata_commit metadata_flash c (trial_next options r) = (BOOT_METADATA_OK, c')" by (auto simp: o_def)
  have "c1 = c'" using exec(1) sel
    by (simp add: boot_sequence_execute_def Let_def boot_policy_select_eq reset_cause_capture_def case_prod_unfold o_def split: if_splits prod.splits)
  moreover have "host_fault_free c'"
    using target_journal_reliable.commit_succeeds [OF ff, of r "trial_next options r"] rec com
      prepare_next_step [OF ready_trial_step [OF target_journal.recover_canonical [OF good rec] st seq, of options]]
    by (auto simp: commit_base_def)
  moreover have "journal_record c' (trial_next options r)"
    using target_journal.commit_ok_view [OF good com] by (simp add: journal_record_def)
  moreover have "slot_bootable crypt pk (host_view c') slot"
    using slot by (intro commit_keeps_bootable [OF _ com boot]) (auto simp: boot_slot_lookup_Some)
  ultimately show ?thesis using exec by blast
qed

text \<open>
  C3. The life of an update, from the announced candidate to the active image: on a fault-free
  device whose journal announces a candidate that verifies, the boot loader enters the candidate;
  the application, when it was built for that slot, runs from it with an intact vector table and its
  initialisation and scenario are good, confirms itself after enough turns of its loop, the
  vector check passing; and every later boot enters that slot without writing to the flash.
\<close>

theorem candidate_becomes_active:
  assumes ff: "host_fault_free c" and r: "journal_record c r" and st: "state r = BOOT_METADATA_STATE_CANDIDATE_READY"
    and seq: "sequence r < UINT32_MAX - 2" and slot: "boot_slot_lookup (candidate_slot r) = Some slot"
    and boot: "slot_bootable crypt pk (host_view c) slot"
    and init: "init_good b h rcc iwdg m" and ok: "test_scenario_health_ok b"
    and base: "PLATFORM_APP_BASE b = payload_base slot" and start: "table_intact b slot h"
    and intact: "\<forall>(h', x) \<in> set turns. table_intact b slot h'" and time: "ready_tick b \<le> length turns"
  shows "\<exists>ev s effs c1 p ev' s' effs'.
    boot_sequence_execute crypt pk c csr = (ev, BOOT_JUMP s effs, c1) \<and> last effs = ENTER (slot_entry (host_view c) slot) \<and>
    platform_main b h rcc iwdg turns (platform_reset c1 report fault m gpio) = IDLE_DONE p \<and>
    rsm_vector_public_status_name (vector_snapshot p) = ascii ''pass'' \<and>
    boot_sequence_execute crypt pk (p_flash p) csr' = (ev', BOOT_JUMP s' effs', p_flash p) \<and>
    last effs' = ENTER (slot_entry (host_view (p_flash p)) slot)"
proof -
  have seqn: "unat (sequence r) < SIZE_MAX - 2" using seq by (simp add: word_less_nat_alt)
  then have "sequence r < UINT32_MAX - 1" by (simp add: word_less_nat_alt)
  from ready_boot [OF ff r st this slot boot refl, of csr] obtain ev s effs c1 where
    exec: "boot_sequence_execute crypt pk c csr = (ev, BOOT_JUMP s effs, c1)" "last effs = ENTER (slot_entry (host_view c) slot)"
    and c1: "host_fault_free c1" "journal_record c1 (trial_next (boot_policy_options crypt pk metadata_flash csr) r)"
      "slot_bootable crypt pk (host_view c1) slot" by blast
  let ?t = "trial_next (boot_policy_options crypt pk metadata_flash csr) r"
  have "unat (sequence r + 1) = Suc (unat (sequence r))" using seqn by (subst u32_no_overflow) simp_all
  then have "trial_pending c1 ?t slot"
    using c1(1,2) slot seqn by (simp add: trial_pending_def trial_next_def word_less_nat_alt)
  moreover have "\<forall>(h', x) \<in> set turns. hw32 h' VTOR_ADDR = payload_base slot" using intact by (auto simp: table_intact_def)
  ultimately obtain p where
    p: "platform_main b h rcc iwdg turns (platform_reset c1 report fault m gpio) = IDLE_DONE p" "journal_record (p_flash p) (confirmed_next ?t)"
    using main_confirms [OF _ init ok _ time] by blast
  note passes = intact_passes [OF pending_slot [OF slot base] base p(1) start intact]
  have "slot_bootable crypt pk (host_view (p_flash p)) slot"
  proof -
    let ?p = "say (msg_line ''EXP066 RESEARCH PLATFORM'' @ msg ''rp> '') (platform_init b h rcc iwdg (platform_reset c1 report fault m gpio))"
    have "p_flash ?p = c1" using init_core [of b h rcc iwdg c1 report fault m gpio] by (simp add: app_core_def say_def)
    then have "slot_bootable crypt pk (host_view (p_flash ?p)) slot" using c1(3) by simp
    from loop_bootable [OF _ this, of b turns] p(1) slot show ?thesis
      by (auto simp: platform_main_def boot_slot_lookup_Some)
  qed
  moreover from p(2) obtain v where "boot_metadata_recover_from_flash metadata_flash (p_flash p) = (BOOT_METADATA_OK, Some (confirmed_next ?t, v))"
    by (rule journal_recordE)
  ultimately obtain ev' s' effs' where "boot_sequence_execute crypt pk (p_flash p) csr' = (ev', BOOT_JUMP s' effs', p_flash p)"
    "last effs' = ENTER (slot_entry (host_view (p_flash p)) slot)"
    using boot_confirmed_run [of "p_flash p" "confirmed_next ?t" v slot crypt pk csr'] slot
    by (auto simp: confirmed_next_def trial_next_def)
  with exec p(1) passes show ?thesis by blast
qed

end
