(* ===== verification/Sample_Device.thy ===== *)
theory Sample_Device
  imports Boot_Policy
begin

text \<open>
  A concrete device on which the theorems of the boot path are exercised: a fault-free flash
  driver whose metadata copy A holds a given record, whose copy B is blank, and whose slot A
  holds a small image; and a concrete instance of the cryptographic functions. Each theorem
  with hypotheses has its instance here.
\<close>

section \<open>Data\<close>

definition sample_crypto :: "bytes crypto" where
  "sample_crypto =
     \<lparr>crypto_sha512 = (\<lambda>_. replicate 64 0), crypto_sha512_init = [],
      crypto_sha512_absorb = (\<lambda>h d. h @ d), crypto_sha512_final = (\<lambda>_. replicate 64 0),
      crypto_ed25519_check = (\<lambda>sig pk msg. take 4 msg = le32 SIGNED_IMAGE_MAGIC)\<rparr>"

definition sample_manifest :: bytes where
  "sample_manifest =
     le32 SIGNED_IMAGE_MAGIC @ le32 2 @ le32 5 @ le32 0x08020200 @ le32 8 @ le32 0 @
     le32 0xF429AB01 @ le32 1 @ replicate 64 0"

definition sample_vectors :: bytes where
  "sample_vectors = le32 0x20020000 @ le32 0x08020205"

definition sample_storage :: "boot_metadata_record \<Rightarrow> nat \<Rightarrow> u8" where
  "sample_storage r n =
     (if 0x8000 \<le> n \<and> n < 0x8080 then encode_record r ! (n - 0x8000)
      else if 0x20000 \<le> n \<and> n < 0x20060 then sample_manifest ! (n - 0x20000)
      else if 0x20200 \<le> n \<and> n < 0x20208 then sample_vectors ! (n - 0x20200)
      else 0xFF)"

definition sample_device :: "boot_metadata_record \<Rightarrow> host_context" where
  "sample_device r = boot_flash_target_host_context_init\<lparr>storage := sample_storage r\<rparr>"

definition confirmed_record :: boot_metadata_record where
  "confirmed_record =
     \<lparr>sequence = 1, state = BOOT_METADATA_STATE_CONFIRMED, active_slot = 0,
      candidate_slot = BOOT_SLOT_NONE, candidate_image_version = 5, boot_attempt_count = 0,
      confirmation_state = 1, result_code = 0\<rparr>"

definition ready_record :: boot_metadata_record where
  "ready_record =
     \<lparr>sequence = 2, state = BOOT_METADATA_STATE_CANDIDATE_READY, active_slot = BOOT_SLOT_NONE,
      candidate_slot = 0, candidate_image_version = 5, boot_attempt_count = 0,
      confirmation_state = 0, result_code = 0\<rparr>"

definition trial_record :: boot_metadata_record where
  "trial_record =
     \<lparr>sequence = 3, state = BOOT_METADATA_STATE_PENDING_TRIAL, active_slot = BOOT_SLOT_NONE,
      candidate_slot = 0, candidate_image_version = 5, boot_attempt_count = 2,
      confirmation_state = 0, result_code = 0\<rparr>"

lemmas sample_records = confirmed_record_def ready_record_def trial_record_def

lemma sample_canonical:
  "state_record_is_canonical confirmed_record" "state_record_is_canonical ready_record"
  "state_record_is_canonical trial_record"
  by (simp_all add: sample_records state_record_is_canonical_def candidate_record_is_canonical_def
      slot_value_is_valid_def state_value_is_valid_def)

section \<open>What the device holds\<close>

lemma sample_healthy: "host_healthy (sample_device r)" "host_fault_free (sample_device r)"
  by (simp_all add: sample_device_def host_healthy_def host_fault_free_def faults_def
      boot_flash_target_host_context_init_def numeral_eq_Suc)

lemma sample_view: "host_view (sample_device r) n = sample_storage r (n - 0x08000000)"
  by (simp add: host_view_def sample_device_def)

lemma sample_copies:
  "target_journal.copy_bytes (sample_device r) BOOT_METADATA_COPY_A = encode_record r"
  "target_journal.copy_bytes (sample_device r) BOOT_METADATA_COPY_B = replicate 128 0xFF"
  by (auto simp: target_journal.copy_bytes_nth copy_base_def sample_view sample_storage_def
      intro!: nth_equalityI)

lemma sample_recover:
  assumes "state_record_is_canonical r"
  shows "boot_metadata_recover_from_flash metadata_flash (sample_device r) =
    (BOOT_METADATA_OK, Some (r, \<lparr>copy_a_valid = True, copy_b_valid = False,
       selected_copy = BOOT_METADATA_COPY_A\<rparr>))"
proof -
  obtain e where "boot_metadata_decode (replicate 128 0xFF) = Inl e"
    using unprogrammed_marker [of 0 "replicate 128 0xFF"] by auto
  then show ?thesis
    using decode_encode_record [OF assms]
    by (simp add: target_journal.recover_from_flash_eq [OF sample_healthy(1)] sample_copies
        boot_metadata_recover_def)
qed

lemma sample_manifest_words:
  "decode_manifest_bytes sample_manifest =
     \<lparr>magic = SIGNED_IMAGE_MAGIC, header_version = 2, image_version = 5,
      vector_address = 0x08020200, image_size = 8, flags = 0, reserved0 = 0xF429AB01,
      reserved1 = 1, payload_sha512 = replicate 64 0\<rparr>"
  by (simp add: decode_manifest_bytes_def sample_manifest_def le32_def load_le32_def)

lemma sample_manifest_magic: "take 4 (take 96 sample_manifest) = le32 SIGNED_IMAGE_MAGIC"
  by (simp add: sample_manifest_def)

lemma slot_a_fields:
  "payload_base boot_slot_a = 0x08020200" "slot_end boot_slot_a = 0x08080000"
  "maximum_payload_size boot_slot_a = 0x0005FE00" "manifest_address boot_slot_a = 0x08020000"
  by (simp_all add: boot_slot_a_def)

lemma sample_slot:
  "slot_manifest (host_view (sample_device r)) boot_slot_a = sample_manifest"
  "flash_word (host_view (sample_device r)) 0x08020200 = 0x20020000"
  "flash_word (host_view (sample_device r)) 0x08020204 = 0x08020205"
proof -
  have "length sample_manifest = 96" by (simp add: sample_manifest_def)
  then show "slot_manifest (host_view (sample_device r)) boot_slot_a = sample_manifest"
    by (auto simp: slot_manifest_def slot_a_fields sample_view sample_storage_def intro!: nth_equalityI)
qed (simp_all add: flash_word_def load_le32_def sample_view sample_storage_def sample_vectors_def le32_def)

lemma sample_bootable: "slot_bootable sample_crypto pk (host_view (sample_device r)) boot_slot_a"
proof -
  have slot: "boot_slot_a = boot_slot_a \<or> boot_slot_a = boot_slot_b" by simp
  have "load_le32 (slot_payload (host_view (sample_device r)) boot_slot_a) = 0x20020000"
    "load_le32 (drop 4 (slot_payload (host_view (sample_device r)) boot_slot_a)) = 0x08020205"
    using sample_slot [of r]
    by (simp_all add: slot_payload_words [OF slot] slot_entry_def slot_a_fields)
  then show ?thesis
    by (simp add: slot_bootable_def sample_slot sample_manifest_words image_ok_def vector_ok_def
        slot_policy_def slot_a_fields image_authentic_def sample_crypto_def crypto_verify64_def
        sample_manifest_magic [simplified])
qed

section \<open>Instances\<close>

lemma sample_jump_context:
  "jump_context_of (decode_manifest_bytes sample_manifest) (sample_vectors @ rest) =
     \<lparr>ctx_vector_address = 0x08020200, ctx_image_size = 8, ctx_payload_end = 0x08020208,
      ctx_initial_msp = 0x20020000, ctx_reset_vector = 0x08020205, ctx_reset_address = 0x08020204\<rparr>"
  by (simp add: jump_context_of_def sample_manifest_words sample_vectors_def le32_def load_le32_def)

theorem jump_confined_to_slot_witness:
  "\<exists>slot \<in> {boot_slot_a, boot_slot_b}. 0x08020205 = flash_word (host_view (sample_device ready_record))
     (unat (payload_base slot) + 4)"
proof -
  let ?mem = "host_view (sample_device ready_record)"
  let ?ctx = "jump_context_of (decode_manifest_bytes sample_manifest) sample_vectors"
  have ctx: "?ctx = \<lparr>ctx_vector_address = 0x08020200, ctx_image_size = 8,
      ctx_payload_end = 0x08020208, ctx_initial_msp = 0x20020000, ctx_reset_vector = 0x08020205,
      ctx_reset_address = 0x08020204\<rparr>"
    using sample_jump_context [of "[]"] by simp
  have "validate_jump_context ?ctx = VERIFY_OK"
    by (simp add: ctx validate_jump_context_def slot_for_vector_address_def slot_a_fields
        checked_u32_add_def validate_application_msp_def validate_application_reset_def)
  moreover have "context_matches_flash ?mem ?ctx"
    by (simp add: ctx context_matches_flash_def sample_slot)
  ultimately have "snd (signed_image_jump ?mem ?ctx) \<noteq> []" by (simp add: jump_enters_iff)
  from jump_effects [OF this] have "ENTER 0x08020205 \<in> set (snd (signed_image_jump ?mem ?ctx))"
    by (simp add: ctx)
  from jump_confined_to_slot [OF this] show ?thesis by blast
qed

lemma confirmed_sample:
  "state confirmed_record = BOOT_METADATA_STATE_CONFIRMED"
  "boot_slot_lookup (active_slot confirmed_record) = Some boot_slot_a"
  by (simp_all add: confirmed_record_def)

theorem secure_boot_witness:
  "\<exists>ev s effs. boot_sequence_execute sample_crypto [] (sample_device confirmed_record) 0 =
     (ev, BOOT_JUMP s effs, sample_device confirmed_record) \<and> ENTER 0x08020205 \<in> set effs \<and>
     (\<exists>slot \<in> {boot_slot_a, boot_slot_b}.
        slot_bootable sample_crypto [] (host_view (sample_device confirmed_record)) slot)"
proof -
  let ?c = "sample_device confirmed_record"
  from boot_confirmed_run [OF sample_recover [OF sample_canonical(1)] confirmed_sample sample_bootable]
  obtain ev s effs where run: "boot_sequence_execute sample_crypto [] ?c 0 = (ev, BOOT_JUMP s effs, ?c)"
    and "effs \<noteq> []" "last effs = ENTER (slot_entry (host_view ?c) boot_slot_a)" by blast
  then have enter: "ENTER 0x08020205 \<in> set effs"
    by (simp add: slot_entry_def slot_a_fields sample_slot) (metis last_in_set)
  from secure_boot [OF run enter] run enter show ?thesis by blast
qed

theorem confirmed_image_boots_witness:
  "\<exists>ev s effs. boot_sequence_execute sample_crypto [] (sample_device confirmed_record) 0 =
     (ev, BOOT_JUMP s effs, sample_device confirmed_record) \<and> last effs = ENTER 0x08020205"
proof -
  from confirmed_image_boots
    [OF sample_recover [OF sample_canonical(1)] confirmed_sample sample_bootable]
  show ?thesis by (simp add: slot_entry_def slot_a_fields sample_slot)
qed

theorem confirm_only_running_candidate_witness:
  "\<exists>res c'. boot_confirm_current_slot metadata_flash (sample_device confirmed_record) 0 =
     (BOOT_CONFIRM_OK, res, c') \<and>
     (\<exists>r'. journal_view (boot_metadata_recover_from_flash metadata_flash c') = (BOOT_METADATA_OK, Some r') \<and>
       active_slot r' = 0)"
proof -
  obtain res where run: "boot_confirm_current_slot metadata_flash (sample_device confirmed_record) 0 =
      (BOOT_CONFIRM_OK, res, sample_device confirmed_record)"
    by (simp add: boot_confirm_current_slot_def sample_recover [OF sample_canonical(1)])
      (simp add: confirmed_record_def)
  from confirm_only_running_candidate [OF sample_healthy(1) run] run show ?thesis by blast
qed

lemma sample_views:
  "state_record_is_canonical r \<Longrightarrow>
   journal_view (boot_metadata_recover_from_flash metadata_flash (sample_device r)) =
     (BOOT_METADATA_OK, Some r)"
  "state_record_is_canonical r \<Longrightarrow>
   commit_base (boot_metadata_recover_from_flash metadata_flash (sample_device r)) = Some r"
  by (simp_all add: sample_recover journal_view_def commit_base_def)

theorem recover_newest_copy_witness:
  "\<exists>v. boot_metadata_recover (encode_record trial_record) (encode_record ready_record) =
     (BOOT_METADATA_OK, trial_record, v) \<and>
     (\<forall>q. boot_metadata_decode (encode_record ready_record) = Inr q \<longrightarrow> sequence q \<le> sequence trial_record)"
proof -
  obtain v where run: "boot_metadata_recover (encode_record trial_record) (encode_record ready_record) =
      (BOOT_METADATA_OK, trial_record, v)"
    by (simp add: boot_metadata_recover_def decode_encode_record sample_canonical)
      (simp add: sample_records)
  from recover_newest_copy [OF run] run show ?thesis by blast
qed

lemma ready_to_trial: "valid_step ready_record trial_record"
  using sample_canonical(3)
  by (simp add: valid_step_def boot_metadata_validate_transition_def)
    (simp add: sample_records transition_fields_allowed_def)

theorem commit_progress_witness:
  "\<exists>c'. boot_metadata_commit metadata_flash (sample_device ready_record) trial_record = (BOOT_METADATA_OK, c') \<and>
     journal_view (boot_metadata_recover_from_flash metadata_flash c') = (BOOT_METADATA_OK, Some trial_record)"
  using commit_progress
    [OF sample_healthy(2) sample_views(2) [OF sample_canonical(2)] ready_to_trial] by blast

theorem commit_is_atomic_witness:
  "\<exists>st c' rest. boot_metadata_commit (scheduled_flash metadata_flash)
      (sample_device ready_record, [Works, Cut 64]) trial_record = (st, c', rest) \<and>
     (st \<noteq> BOOT_METADATA_OK \<and>
       journal_view (boot_metadata_recover_from_flash metadata_flash c') = (BOOT_METADATA_OK, Some ready_record) \<or>
       journal_view (boot_metadata_recover_from_flash metadata_flash c') = (BOOT_METADATA_OK, Some trial_record))"
proof -
  obtain st c' rest where run: "boot_metadata_commit (scheduled_flash metadata_flash)
      (sample_device ready_record, [Works, Cut 64]) trial_record = (st, c', rest)"
    by (metis surj_pair)
  from commit_is_atomic [OF sample_healthy(1) run] run sample_views(1) [OF sample_canonical(2)]
  show ?thesis by auto
qed

theorem journal_history_witness:
  "\<exists>r'. journal_view (boot_metadata_recover_from_flash metadata_flash
     (foldl (\<lambda>d nx. snd (boot_metadata_commit metadata_flash d nx)) (sample_device ready_record)
       [trial_record, ready_record])) = (BOOT_METADATA_OK, Some r') \<and> sequence ready_record \<le> sequence r'"
  using journal_history [OF sample_healthy(1) sample_views(1) [OF sample_canonical(2)],
      of "[trial_record, ready_record]"] by blast

theorem journal_writes_confined_witness:
  "host_view (snd (boot_metadata_commit metadata_flash (sample_device ready_record) trial_record)) 0x08020200 =
   host_view (sample_device ready_record) 0x08020200"
proof -
  have "in_flash 0x08020200" "\<not> in_metadata 0x08020200" by (simp_all add: in_flash_def in_metadata_def)
  from journal_writes_confined [OF this] show ?thesis by blast
qed

theorem reinitialize_outcomes_witness:
  "\<exists>st c'. boot_metadata_reinitialize_for_recovery metadata_flash (sample_device ready_record) trial_record = (st, c') \<and>
     st \<noteq> BOOT_METADATA_OK \<and>
     (journal_view (boot_metadata_recover_from_flash metadata_flash c') \<in>
        {(BOOT_METADATA_OK, Some ready_record),
         (BOOT_METADATA_ERR_NO_VALID_COPY, Some boot_metadata_empty),
         (BOOT_METADATA_OK, Some trial_record)} \<or>
      (\<exists>r. journal_view (boot_metadata_recover_from_flash metadata_flash c') = (BOOT_METADATA_OK, Some r)))"
proof -
  obtain st c' where run: "boot_metadata_reinitialize_for_recovery metadata_flash
      (sample_device ready_record) trial_record = (st, c')" and st: "st \<noteq> BOOT_METADATA_OK"
    by (simp add: boot_metadata_reinitialize_for_recovery_def trial_record_def)
  from reinitialize_outcomes [OF sample_healthy(1) run] st run show ?thesis
    by (simp add: sample_views(1) [OF sample_canonical(2)]) blast
qed

lemma sample_trial:
  "\<exists>res c'. boot_slot_selection_select (boot_policy_options sample_crypto [] metadata_flash 0)
     (sample_device ready_record) = (BOOT_SLOT_SELECTION_OK, res, c') \<and>
   res_decision res = BOOT_SLOT_SELECTION_DECISION_TRIAL"
proof -
  have "state ready_record = BOOT_METADATA_STATE_CANDIDATE_READY" "sequence ready_record < UINT32_MAX - 1"
    "boot_slot_lookup (candidate_slot ready_record) = Some boot_slot_a"
    by (simp_all add: ready_record_def)
  from select_ready_trial [OF sample_healthy(2) sample_recover [OF sample_canonical(2)] this sample_bootable]
  show ?thesis by blast
qed

theorem trial_recorded_first_witness:
  "\<exists>r. journal_view (boot_metadata_recover_from_flash metadata_flash (sample_device ready_record)) =
     (BOOT_METADATA_OK, Some r) \<and>
     trial_budget r = Suc (trial_budget (trial_next (boot_policy_options sample_crypto [] metadata_flash 0) r))"
proof -
  from sample_trial obtain res c' where
    run: "boot_slot_selection_select (boot_policy_options sample_crypto [] metadata_flash 0)
      (sample_device ready_record) = (BOOT_SLOT_SELECTION_OK, res, c')"
    and trial: "res_decision res = BOOT_SLOT_SELECTION_DECISION_TRIAL" by blast
  from trial_recorded_first [OF options_simps(1) sample_healthy(1) run trial] show ?thesis by blast
qed

theorem trial_boots_bounded_witness:
  "trial_boots (fst (boots (replicate 5 (boot_policy_options sample_crypto [] metadata_flash 0))
     (sample_device ready_record))) \<le> 3"
proof -
  have "\<forall>options \<in> set (replicate 5 (boot_policy_options sample_crypto [] metadata_flash 0)).
      opt_metadata_flash options = metadata_flash" by simp
  from trial_boots_bounded [OF this sample_healthy(1) sample_recover [OF sample_canonical(2)]]
  show ?thesis by linarith
qed

definition writing_record :: boot_metadata_record where
  "writing_record =
     \<lparr>sequence = 4, state = BOOT_METADATA_STATE_WRITING, active_slot = 0, candidate_slot = 1,
      candidate_image_version = 6, boot_attempt_count = 0, confirmation_state = 0, result_code = 0\<rparr>"

lemma writing_canonical: "state_record_is_canonical writing_record"
  by (simp add: writing_record_def state_record_is_canonical_def candidate_record_is_canonical_def
      slot_value_is_valid_def state_value_is_valid_def)

theorem interrupted_update_falls_back_witness:
  "\<exists>s res. boot_slot_selection_select (boot_policy_options sample_crypto [] metadata_flash 0)
     (sample_device writing_record) = (s, res, sample_device writing_record) \<and>
     (s = BOOT_SLOT_SELECTION_OK \<longrightarrow> res_selected_slot res = 0)"
proof -
  let ?o = "boot_policy_options sample_crypto [] metadata_flash 0"
  obtain s res c' where run: "boot_slot_selection_select ?o (sample_device writing_record) = (s, res, c')"
    by (metis prod_cases3)
  have rec: "boot_metadata_recover_from_flash (opt_metadata_flash ?o) (sample_device writing_record) =
      (BOOT_METADATA_OK, Some (writing_record, \<lparr>copy_a_valid = True, copy_b_valid = False,
        selected_copy = BOOT_METADATA_COPY_A\<rparr>))"
    using sample_recover [OF writing_canonical] by simp
  have "state writing_record \<in> {BOOT_METADATA_STATE_WRITING, BOOT_METADATA_STATE_REJECTED_INVALID}"
    by (simp add: writing_record_def)
  from interrupted_update_falls_back [OF rec this run] run show ?thesis
    by (auto simp: writing_record_def)
qed

theorem verified_candidate_boots_witness:
  "\<exists>ev s effs c'. boot_sequence_execute sample_crypto [] (sample_device ready_record) 0 =
     (ev, BOOT_JUMP s effs, c') \<and> last effs = ENTER 0x08020205"
proof -
  have "state ready_record = BOOT_METADATA_STATE_CANDIDATE_READY" "sequence ready_record < UINT32_MAX - 1"
    "boot_slot_lookup (candidate_slot ready_record) = Some boot_slot_a"
    by (simp_all add: ready_record_def)
  from verified_candidate_boots
    [OF sample_healthy(2) sample_recover [OF sample_canonical(2)] this sample_bootable, of "[]" 0]
  show ?thesis by (auto simp: slot_entry_def slot_a_fields sample_slot)
qed

theorem verified_image_starts_witness:
  "\<exists>ctx. signed_image_prepare_update_slot_buffer sample_manifest sample_vectors 8 boot_slot_a = Inr ctx \<and>
     last (snd (signed_image_jump (host_view (sample_device ready_record)) ctx)) = ENTER 0x08020205"
proof -
  have words: "load_le32 sample_vectors = 0x20020000" "load_le32 (drop 4 sample_vectors) = 0x08020205"
    by (simp_all add: sample_vectors_def le32_def load_le32_def)
  have look: "boot_slot_lookup 0 = Some boot_slot_a" by simp
  have "signed_image_verify_update_slot_buffer sample_crypto sample_manifest [] sample_vectors 8 []
      boot_slot_a = VERIFY_OK"
    by (simp add: signed_image_verify_update_slot_buffer_def verify_buffer_iff slot_table_geometry(1)
        sample_manifest_words image_ok_def slot_policy_def slot_a_fields vector_ok_def words
        image_authentic_def sample_crypto_def crypto_verify64_def sample_manifest_magic [simplified])
  from verified_image_starts [OF look this, of "host_view (sample_device ready_record)"]
  show ?thesis by (simp add: slot_a_fields sample_slot words)
qed

end
