(* ===== verification/Update_Stream.thy ===== *)
theory Update_Stream
  imports Update_Session
begin

text \<open>
  What a session stores. The abstract state of a session that is being written is the header
  and the payload bytes accepted so far (\<open>stream\<close>): a prefix of them is in the candidate slot,
  the rest in the program buffer, and the hash state has absorbed all of them. Every successful
  \<^verbatim>\<open>update_installer_write\<close> appends its data to this abstract state.
\<close>

section \<open>Stored bytes\<close>

definition stored :: "host_context \<Rightarrow> nat \<Rightarrow> bytes \<Rightarrow> bool" where
  "stored c b x \<longleftrightarrow> mem_range (host_view c) b (length x) = x"

lemma stored_Nil [simp]: "stored c b []"
  by (simp add: stored_def mem_range_def)

lemma stored_nth: "stored c b x \<longleftrightarrow> (\<forall>i < length x. host_view c (b + i) = x ! i)"
  by (simp add: stored_def mem_range_eq_iff)

lemma stored_appendI:
  "stored c b x \<Longrightarrow> stored c (b + length x) y \<Longrightarrow> stored c b (x @ y)"
  by (simp add: stored_def mem_range_append)

lemma stored_append_iff: "stored c b (x @ y) \<longleftrightarrow> stored c b x \<and> stored c (b + length x) y"
  by (simp add: stored_def mem_range_append)

lemma program_block_ok:
  assumes dev: "session_device s" and good: "host_healthy c"
    and run: "program_aligned_block s c a d = (UPDATE_INSTALL_OK, s', c')"
  shows "stored c' (unat a) d" "s' = count_block s" "host_healthy c'"
    "d \<noteq> [] \<Longrightarrow> flash_span a (length d)"
    "in_flash n \<Longrightarrow> \<not> (unat a \<le> n \<and> n < unat a + length d) \<Longrightarrow> host_view c' n = host_view c n"
proof -
  have f: "flash_ops (ses_restricted_flash s) = writable_ops" "wf_flash (ses_restricted_flash s)"
    using dev by (simp_all add: session_device_def)
  from run have prog: "boot_flash_program_aligned (ses_restricted_flash s) c a d = (BOOT_FLASH_OK, c')"
    and s': "s' = count_block s" by (auto elim: program_block_cases)
  show "s' = count_block s" by (rule s')
  show "stored c' (unat a) d"
    using host_backend.program_aligned_ok [OF f good prog] by (simp add: stored_def)
  show "host_healthy c'" using host_backend.program_aligned_torn [OF f good prog] by simp
  show "d \<noteq> [] \<Longrightarrow> flash_span a (length d)"
    using host_backend.program_aligned_device(1) [OF f _ prog] by simp
  show "in_flash n \<Longrightarrow> \<not> (unat a \<le> n \<and> n < unat a + length d) \<Longrightarrow> host_view c' n = host_view c n"
    using host_frame.program_aligned_frame [OF f prog] by blast
qed

text \<open>Programming right behind stored bytes extends them.\<close>

lemma stored_extend:
  assumes dev: "session_device s" and good: "host_healthy c"
    and run: "program_aligned_block s c a d = (UPDATE_INSTALL_OK, s', c')"
    and x: "stored c b x" and a: "unat a = b + length x" and b: "unat FLASH_BASE \<le> b"
  shows "stored c' b (x @ d)"
proof (cases "d = []")
  case True
  with run have "c' = c"
    by (auto elim!: program_block_cases simp: boot_flash_program_aligned_def)
  with x True show ?thesis by simp
next
  case False
  note blk = program_block_ok [OF dev good run]
  have "host_view c' (b + i) = host_view c (b + i)" if "i < length x" for i
    using that blk(4) [OF False] a b by (intro blk(5)) (auto simp: in_flash_def flash_span_def)
  with x have "stored c' b x" by (simp add: stored_nth)
  with blk(1) a show ?thesis by (simp add: stored_appendI)
qed

lemma source_chunk_bytes:
  fixes s :: "'h update_installer_session"
  assumes "0 < k" "off + k \<le> n" "n \<le> length src"
  defines "s2 \<equiv> set_program_buffer (set_program_buffer s 0 (replicate k 0xFF)) 0
    (take (if off < n then min (n - off) k else 0) (drop off src))"
  shows "take k (io_program_buffer (ses_options s2)) = take k (drop off src)"
  using assms by (simp add: set_program_buffer_def bytes_write_def)

lemma program_source_stores:
  assumes dev: "session_device s" and good: "host_healthy c"
    and base: "unat (signed_image_base (ses_candidate s)) \<le> unat base"
    and src: "length src = n" and n: "n \<le> SIZE_MAX"
    and run: "program_source_range base src n n s c = (UPDATE_INSTALL_OK, s', c')"
  shows "stored c' (unat base) src \<and> host_healthy c'"
proof -
  from run n have loop: "program_source_loop base src n n 0 s c = (UPDATE_INSTALL_OK, s', c')"
    by (simp add: program_source_range_def)
  have flash: "unat FLASH_BASE \<le> unat base"
    using base dev by (auto simp: session_device_def boot_slot_rows)
  define P where "P off s1 c1 \<longleftrightarrow> session_core s1 = session_core s \<and> host_healthy c1 \<and> off \<le> n \<and>
      stored c1 (unat base) (take off src)" for off s1 c1
  define Q where "Q st s1 c1 \<longleftrightarrow>
      (st = UPDATE_INSTALL_OK \<longrightarrow> stored c1 (unat base) src \<and> host_healthy c1)"
    for st and s1 :: "'a update_installer_session" and c1
  have "Q UPDATE_INSTALL_OK s' c'"
  proof (rule program_source_loop_rule [where P = P and Q = Q, OF _ _ _ _ loop])
    show "P 0 s c" using good by (simp add: P_def)
    fix off s1 c1 k st s2 c2
    assume p: "P off s1 c1" and off: "off < n"
      and k: "k = min (n - off) (io_program_buffer_size (ses_options s1))" "0 < k"
      and run: "program_source_chunk base src n k off s1 c1 = (st, s2, c2)"
    show "if st = UPDATE_INSTALL_OK then P (off + k) s2 c2 else Q st s2 c2"
    proof (cases "st = UPDATE_INSTALL_OK")
      case True
      define t where "t = set_program_buffer (set_program_buffer s1 0 (replicate k 0xFF)) 0
        (take (if off < n then min (n - off) k else 0) (drop off src))"
      have core: "session_core t = session_core s" using p by (simp add: t_def P_def)
      have bytes: "take k (io_program_buffer (ses_options t)) = take k (drop off src)"
        unfolding t_def using off k src by (intro source_chunk_bytes) auto
      from run True obtain a where a: "checked_u32_add base (of_nat off) = Some a"
        and blk: "program_aligned_block t c1 a (take k (drop off src)) = (UPDATE_INSTALL_OK, s2, c2)"
        by (auto simp: program_source_chunk_def Let_def t_def [symmetric] bytes split: option.splits)
      have ua: "unat a = unat base + length (take off src)"
        using checked_u32_add_unat [OF a] off src n by (simp add: u32_of_nat)
      have dev': "session_device t" using dev device_core [OF core] by simp
      have good1: "host_healthy c1" and st1: "stored c1 (unat base) (take off src)"
        using p by (simp_all add: P_def)
      from stored_extend [OF dev' good1 blk st1 ua flash] take_add [of off k src]
      have "stored c2 (unat base) (take (off + k) src)" by simp
      with program_block_ok(2,3) [OF dev' good1 blk] core True off k show ?thesis by (simp add: P_def)
    qed (simp add: Q_def)
  qed (auto simp: P_def Q_def src)
  then show ?thesis by (simp add: Q_def)
qed

section \<open>The abstract stream\<close>

definition absorbed :: "'h crypto \<Rightarrow> 'h \<Rightarrow> bytes \<Rightarrow> bool" where
  "absorbed crypt ctx p \<longleftrightarrow>
     (\<exists>chunks. ctx = foldl (crypto_sha512_absorb crypt) (crypto_sha512_init crypt) chunks \<and>
        concat chunks = p)"

lemma absorbed_init: "absorbed crypt (crypto_sha512_init crypt) []"
  by (auto simp: absorbed_def intro: exI [of _ "[]"])

lemma absorbed_step:
  assumes "absorbed crypt ctx p"
  shows "absorbed crypt (crypto_sha512_absorb crypt ctx x) (p @ x)"
proof -
  from assms obtain chunks where "ctx = foldl (crypto_sha512_absorb crypt) (crypto_sha512_init crypt) chunks"
    "concat chunks = p" by (auto simp: absorbed_def)
  then show ?thesis unfolding absorbed_def by (intro exI [of _ "chunks @ [x]"]) simp
qed

definition header_stored :: "'h update_installer_session \<Rightarrow> host_context \<Rightarrow> bytes \<Rightarrow> bool" where
  "header_stored s c hb \<longleftrightarrow>
     session_device s \<and> host_healthy c \<and> length hb = 512 \<and> ses_header s = header_of hb \<and>
     hdr_payload_size (header_of hb) \<le> 0x5FE00 \<and>
     stored c (unat (signed_image_base (ses_candidate s))) hb"

definition stream :: "'h crypto \<Rightarrow> 'h update_installer_session \<Rightarrow> host_context \<Rightarrow> bytes \<Rightarrow> bytes \<Rightarrow> bool" where
  "stream crypt s c hb p \<longleftrightarrow>
     header_stored s c hb \<and>
     stored c (unat (payload_base (ses_candidate s))) (take (ses_payload_programmed s) p) \<and>
     ses_payload_programmed s + ses_program_fill s = length p \<and>
     ses_payload_received s = length p \<and> length p \<le> hdr_payload_size (ses_header s) \<and>
     ses_program_fill s \<le> length (io_program_buffer (ses_options s)) \<and>
     take (ses_program_fill s) (io_program_buffer (ses_options s)) = drop (ses_payload_programmed s) p \<and>
     absorbed crypt (ses_payload_hash_ctx s) p"

lemma candidate_payload_base:
  assumes "session_device s"
  shows "unat (payload_base (ses_candidate s)) = unat (signed_image_base (ses_candidate s)) + 512"
    "unat FLASH_BASE \<le> unat (payload_base (ses_candidate s))"
    "unat (signed_image_base (ses_candidate s)) + 512 + 0x5FE00 = unat (slot_end (ses_candidate s))"
    "unat FLASH_BASE \<le> unat (signed_image_base (ses_candidate s))"
    "unat (slot_end (ses_candidate s)) \<le> unat FLASH_END"
    "unat (payload_base (ses_candidate s)) + 0x5FE00 \<le> SIZE_MAX"
  using assms by (auto simp: session_device_def boot_slot_rows)

lemma header_kept:
  assumes hdr: "header_stored s c hb"
    and run: "program_aligned_block s1 c a d = (UPDATE_INSTALL_OK, s', c')"
    and core: "session_core s1 = session_core s"
    and a: "unat (payload_base (ses_candidate s)) \<le> unat a"
  shows "header_stored s c' hb"
proof -
  have dev: "session_device s" "session_device s1" and good: "host_healthy c"
    using hdr device_core [OF core] by (simp_all add: header_stored_def)
  note blk = program_block_ok [OF dev(2) good run] and pb = candidate_payload_base [OF dev(1)]
  have "host_view c' (unat (signed_image_base (ses_candidate s)) + i) =
      host_view c (unat (signed_image_base (ses_candidate s)) + i)" if "i < 512" for i
    using that a pb by (intro blk(5)) (auto simp: in_flash_def)
  with hdr blk(3) show ?thesis by (simp add: header_stored_def stored_nth)
qed

lemma take_padded_buffer:
  assumes "f \<le> length buf"
  shows "take (f + k) (bytes_write f (replicate k v) buf) = take f buf @ replicate k v"
  using assms by (simp add: bytes_write_def min_def)

lemma checked_round_up_ge: "checked_round_up v al = Some n \<Longrightarrow> v \<le> SIZE_MAX \<Longrightarrow> v \<le> n"
  by (auto simp: checked_round_up_def Let_def checked_size_add_Some split: if_splits)

lemma flush_stores:
  assumes str: "stream crypt s c hb p"
    and run: "flush_payload_program_buffer s c final = (UPDATE_INSTALL_OK, s', c')"
  shows "header_stored s c' hb" "stored c' (unat (payload_base (ses_candidate s))) p"
    "ses_program_fill s' = 0" "ses_payload_hash_ctx s' = ses_payload_hash_ctx s"
    "ses_payload_received s' = ses_payload_received s" "ses_state s' = ses_state s"
    "\<not> final \<Longrightarrow> ses_payload_programmed s' = length p"
proof -
  let ?f = "ses_program_fill s" and ?b = "payload_base (ses_candidate s)"
  let ?buf = "io_program_buffer (ses_options s)"
  have hdr: "header_stored s c hb" and dev: "session_device s" and good: "host_healthy c"
    and st: "stored c (unat ?b) (take (ses_payload_programmed s) p)"
    and len: "ses_payload_programmed s + ?f = length p" "length p \<le> 0x5FE00"
    and buf: "?f \<le> length ?buf" "take ?f ?buf = drop (ses_payload_programmed s) p"
    using str by (auto simp: stream_def header_stored_def)
  have "header_stored s c' hb \<and> stored c' (unat ?b) p \<and> ses_program_fill s' = 0 \<and>
    ses_payload_hash_ctx s' = ses_payload_hash_ctx s \<and> ses_payload_received s' = ses_payload_received s \<and>
    ses_state s' = ses_state s \<and> (\<not> final \<longrightarrow> ses_payload_programmed s' = length p)"
  proof (cases "?f = 0")
    case True
    with run hdr st len show ?thesis by (simp add: flush_payload_program_buffer_def Let_def)
  next
    case False
    define n where "n = (case if final then checked_round_up ?f (unat (program_alignment (ses_restricted_flash s)))
        else Some ?f of None \<Rightarrow> ?f | Some n \<Rightarrow> n)"
    define s1 where "s1 = (if final then set_program_buffer s ?f (replicate (size_sub n ?f) 0xFF) else s)"
    have core: "session_core s1 = session_core s" by (simp add: s1_def)
    note run' = run [unfolded flush_payload_program_buffer_def Let_def, folded n_def, folded s1_def]
    from run' False obtain a s2 where a: "checked_u32_add ?b (of_nat (ses_payload_programmed s)) = Some a"
      and blk: "program_aligned_block s1 c a (take n (io_program_buffer (ses_options s1))) =
        (UPDATE_INSTALL_OK, s2, c')"
      and s': "s' = s2\<lparr>ses_payload_programmed := ses_payload_programmed s2 + n, ses_program_fill := 0\<rparr>"
      and some: "final \<Longrightarrow> checked_round_up ?f (unat (program_alignment (ses_restricted_flash s))) \<noteq> None"
      by (auto split: if_splits option.splits prod.splits)
    have n: "?f \<le> n" "\<not> final \<Longrightarrow> n = ?f"
      using some len checked_round_up_ge
      by (cases "checked_round_up ?f (unat (program_alignment (ses_restricted_flash s)))")
        (auto simp: n_def)
    have bytes: "take n (io_program_buffer (ses_options s1)) =
        drop (ses_payload_programmed s) p @ (if final then replicate (n - ?f) 0xFF else [])"
      using n buf take_padded_buffer [OF buf(1), of "n - ?f"]
      by (auto simp: s1_def set_program_buffer_def)
    have dev1: "session_device s1" using dev device_core [OF core] by simp
    have ua: "unat a = unat ?b + length (take (ses_payload_programmed s) p)"
      using checked_u32_add_unat [OF a] len by (simp add: u32_of_nat)
    from stored_extend [OF dev1 good blk st ua candidate_payload_base(2) [OF dev]] bytes
    have "stored c' (unat ?b) (p @ (if final then replicate (n - ?f) 0xFF else []))"
      by (simp add: append_assoc [symmetric] del: append_assoc)
    then have "stored c' (unat ?b) p" by (simp only: stored_append_iff)
    moreover have "header_stored s c' hb" by (rule header_kept [OF hdr blk core]) (simp add: ua)
    moreover note program_block_ok(2) [OF dev1 good blk]
    ultimately show ?thesis
      using s' n len core_members(4,9,10,12) [OF core] by (auto simp: count_block_def)
  qed
  then show "header_stored s c' hb" "stored c' (unat ?b) p" "ses_program_fill s' = 0"
    "ses_payload_hash_ctx s' = ses_payload_hash_ctx s" "ses_payload_received s' = ses_payload_received s"
    "ses_state s' = ses_state s" "\<not> final \<Longrightarrow> ses_payload_programmed s' = length p"
    by blast+
qed

lemma header_stored_cong:
  assumes "session_update s' = session_update s"
  shows "header_stored s' c hb = header_stored s c hb"
  by (simp add: header_stored_def update_members(2) [OF assms]
      fixed_members(2,12) [OF update_members(1) [OF assms]])

lemma take_write_buffer:
  "f \<le> length buf \<Longrightarrow> take (f + length x) (bytes_write f x buf) = take f buf @ x"
  "f \<le> length buf \<Longrightarrow> f + length x \<le> length (bytes_write f x buf)"
  by (simp_all add: bytes_write_def min_def)

text \<open>The session after a piece has been buffered and hashed, before the buffer is flushed.\<close>

definition buffered :: "'h crypto \<Rightarrow> 'h update_installer_session \<Rightarrow> bytes \<Rightarrow> 'h update_installer_session" where
  "buffered crypt s piece = (set_program_buffer s (ses_program_fill s) piece)
     \<lparr>ses_payload_hash_ctx := crypto_sha512_absorb crypt (ses_payload_hash_ctx s) piece,
      ses_program_fill := size_add (ses_program_fill s) (length piece),
      ses_payload_received := size_add (ses_payload_received s) (length piece)\<rparr>"

lemma buffered_update [simp]: "session_update (buffered crypt s piece) = session_update s"
  by (simp add: buffered_def)

lemma buffered_stream:
  assumes str: "stream crypt s c hb p"
    and fits: "length p + length piece \<le> hdr_payload_size (ses_header s)"
  shows "stream crypt (buffered crypt s piece) c hb (p @ piece)"
    "ses_program_fill (buffered crypt s piece) = ses_program_fill s + length piece"
    "ses_state (buffered crypt s piece) = ses_state s"
proof -
  let ?f = "ses_program_fill s" and ?s = "buffered crypt s piece"
  note up = buffered_update [of crypt s piece]
  note mem = fixed_members(2) [OF update_members(1) [OF up]] update_members(2) [OF up]
    and hs = header_stored_cong [OF up]
  have hdr: "header_stored s c hb"
    and st: "stored c (unat (payload_base (ses_candidate s))) (take (ses_payload_programmed s) p)"
    and len: "ses_payload_programmed s + ?f = length p" "ses_payload_received s = length p"
    and buf: "?f \<le> length (io_program_buffer (ses_options s))"
      "take ?f (io_program_buffer (ses_options s)) = drop (ses_payload_programmed s) p"
    and ab: "absorbed crypt (ses_payload_hash_ctx s) p"
    using str by (simp_all add: stream_def)
  have small: "length p + length piece \<le> 0x5FE00" using fits hdr by (simp add: header_stored_def)
  have s1: "ses_payload_programmed ?s = ses_payload_programmed s"
    "ses_program_fill ?s = ?f + length piece" "ses_payload_received ?s = length p + length piece"
    "io_program_buffer (ses_options ?s) = bytes_write ?f piece (io_program_buffer (ses_options s))"
    "ses_payload_hash_ctx ?s = crypto_sha512_absorb crypt (ses_payload_hash_ctx s) piece"
    "ses_state ?s = ses_state s"
    using len small by (simp_all add: buffered_def set_program_buffer_def)
  then show "ses_program_fill ?s = ?f + length piece" "ses_state ?s = ses_state s" by simp_all
  show "stream crypt ?s c hb (p @ piece)"
    unfolding stream_def s1 mem hs
    using hdr st len fits take_write_buffer [OF buf(1), of piece] buf(2) absorbed_step [OF ab]
    by auto
qed

lemma write_chunk_stream:
  assumes str: "stream crypt s c hb p"
    and fits: "length p + length piece \<le> hdr_payload_size (ses_header s)"
    and run: "write_chunk crypt s c piece = (UPDATE_INSTALL_OK, s', c')"
  shows "stream crypt s' c' hb (p @ piece)" "ses_state s' = ses_state s"
proof -
  let ?s = "buffered crypt s piece"
  note buf = buffered_stream [OF str fits]
  have "stream crypt s' c' hb (p @ piece) \<and> ses_state s' = ses_state s"
  proof (cases "ses_program_fill ?s = io_program_buffer_size (ses_options ?s)")
    case False
    with run buf show ?thesis by (simp add: write_chunk_def Let_def buffered_def [symmetric])
  next
    case True
    with run obtain s2 where fl: "flush_payload_program_buffer ?s c False = (UPDATE_INSTALL_OK, s2, c')"
      and s': "s' = s2"
      by (auto simp: write_chunk_def Let_def buffered_def [symmetric] fail_session_eq split: prod.splits if_splits)
    note fs = flush_stores [OF buf(1) fl]
    have dev1: "session_device ?s" using buf(1) by (simp add: stream_def header_stored_def)
    from flush_kept [OF dev1 fl] have up2: "session_update s2 = session_update ?s" by simp
    note mem2 = fixed_members(2) [OF update_members(1) [OF up2]] update_members(2) [OF up2]
    show ?thesis
      unfolding s' stream_def header_stored_cong [OF up2] mem2
      using fs buf by (auto simp: stream_def)
  qed
  then show "stream crypt s' c' hb (p @ piece)" "ses_state s' = ses_state s" by simp_all
qed

lemma write_loop_stream:
  assumes str: "stream crypt s c hb p"
    and fits: "length p + length d \<le> hdr_payload_size (ses_header s)"
    and run: "write_loop crypt s c d = (UPDATE_INSTALL_OK, s', c')"
  shows "stream crypt s' c' hb (p @ d) \<and> ses_state s' = ses_state s"
proof -
  have hdr: "ses_header s = header_of hb" using str by (simp add: stream_def header_stored_def)
  define P where "P s1 c1 input \<longleftrightarrow> (\<exists>done. done @ input = d \<and> stream crypt s1 c1 hb (p @ done) \<and>
      ses_state s1 = ses_state s)" for s1 c1 input
  define Q where "Q st s1 c1 \<longleftrightarrow> (st = UPDATE_INSTALL_OK \<longrightarrow> stream crypt s1 c1 hb (p @ d) \<and>
      ses_state s1 = ses_state s)" for st s1 c1
  have "Q UPDATE_INSTALL_OK s' c'"
  proof (rule write_loop_rule [where P = P and Q = Q, OF _ _ _ _ run])
    show "P s c d" using str by (simp add: P_def)
    fix s1 c1 st s2 c2 and input :: bytes and k
    assume p: "P s1 c1 input" and k: "k \<le> length input"
      and run: "write_chunk crypt s1 c1 (take k input) = (st, s2, c2)"
    from p obtain x where x: "x @ input = d" "stream crypt s1 c1 hb (p @ x)" "ses_state s1 = ses_state s"
      by (auto simp: P_def)
    have h1: "ses_header s1 = header_of hb" using x(2) by (simp add: stream_def header_stored_def)
    have "length (p @ x) + length (take k input) \<le> hdr_payload_size (ses_header s1)"
      using fits hdr h1 x(1) k by auto
    note wc = write_chunk_stream [OF x(2) this, of s2 c2]
    from wc run x show "if st = UPDATE_INSTALL_OK then P s2 c2 (drop k input) else Q st s2 c2"
      by (auto simp: P_def Q_def intro!: exI [of _ "x @ take k input"])
  qed (auto simp: P_def Q_def)
  then show ?thesis by (simp add: Q_def)
qed

text \<open>A successful call appends its data to the stream, in order, and completes it exactly at the announced size.\<close>

lemma write_stream:
  assumes str: "stream crypt s c hb p"
    and run: "update_installer_write crypt s c off d = (UPDATE_INSTALL_OK, s', c')"
  shows "stream crypt s' c' hb (p @ d) \<and> off = length p \<and>
    ses_state s' = (if length (p @ d) = hdr_payload_size (header_of hb)
                    then UPDATE_INSTALL_SESSION_PAYLOAD_COMPLETE else UPDATE_INSTALL_SESSION_WRITING)"
proof -
  have hdr: "ses_header s = header_of hb" and rec: "ses_payload_received s = length p"
    and lp: "length p \<le> hdr_payload_size (header_of hb)"
    using str by (auto simp: stream_def header_stored_def)
  from run obtain s1 where st: "ses_state s = UPDATE_INSTALL_SESSION_WRITING" and off: "off = length p"
    and fits: "length d \<le> size_sub (hdr_payload_size (header_of hb)) (length p)"
    and loop: "write_loop crypt s c d = (UPDATE_INSTALL_OK, s1, c')"
    and s': "s' = (if ses_payload_received s1 = hdr_payload_size (ses_header s1)
        then s1\<lparr>ses_state := UPDATE_INSTALL_SESSION_PAYLOAD_COMPLETE\<rparr> else s1)"
    by (auto simp: update_installer_write_def fail_session_eq hdr rec not_less split: if_splits prod.splits)
  have "length p + length d \<le> hdr_payload_size (ses_header s)" using fits lp hdr by simp
  from write_loop_stream [OF str this loop]
  have str1: "stream crypt s1 c' hb (p @ d)" and st1: "ses_state s1 = UPDATE_INSTALL_SESSION_WRITING"
    using st by simp_all
  have h1: "ses_header s1 = header_of hb" "ses_payload_received s1 = length (p @ d)"
    using str1 by (auto simp: stream_def header_stored_def)
  have "stream crypt (s1\<lparr>ses_state := x\<rparr>) c' hb (p @ d)" for x
    using str1 header_stored_cong [OF update_simps(1) [where s = s1 and x = x], of c' hb] by (simp add: stream_def)
  with str1 st1 s' h1 off show ?thesis by auto
qed

section \<open>Beginning an update\<close>

definition header_accepted ::
    "'h crypto \<Rightarrow> bytes \<Rightarrow> boot_slot_descriptor \<Rightarrow> bytes \<Rightarrow> bool" where
  "header_accepted crypt pk slot hb \<longleftrightarrow>
     length hb = 512 \<and> header_layout_ok hb \<and>
     vector_address (decode_manifest_bytes hb) = payload_base slot \<and>
     unat (image_size (decode_manifest_bytes hb)) \<le> unat (maximum_payload_size slot) \<and>
     crypto_ed25519_check crypt (take 64 (drop 96 hb)) pk (take 96 hb)"

lemma verify_header_iff:
  "update_package_verify_header_for_slot crypt hb pk slot = (Inr h, vs) \<longleftrightarrow>
     header_accepted crypt pk slot hb \<and> h = header_of hb \<and> vs = VERIFY_OK"
proof (cases "parse_header_common hb")
  case (Inl e)
  with parse_header_iff [of hb "header_of hb"] show ?thesis
    by (auto simp: update_package_verify_header_for_slot_def header_accepted_def)
next
  case (Inr h')
  with parse_header_iff [of hb h'] have "header_layout_ok hb" "h' = header_of hb" by auto
  with Inr show ?thesis
    by (auto simp: update_package_verify_header_for_slot_def header_accepted_def header_of_def
        word_less_nat_alt not_less)
qed

text \<open>The version an update must exceed, as the session computes it.\<close>

lemma confirmed_version_cong:
  assumes "session_fixed s' = session_fixed s"
  shows "confirmed_version_for_update crypt s' c = confirmed_version_for_update crypt s c"
  by (simp only: confirmed_version_for_update_def fixed_members(3,5,6) [OF assms])

lemma begin_checks_ok:
  assumes "begin_checks crypt s c hb = (UPDATE_INSTALL_OK, s1)"
  obtains r v version n res where
    "start_metadata (ses_options s) (boot_metadata_recover_from_flash (ses_restricted_flash s) c) = Some (r, v)"
    "r = ses_metadata_before s"
    "header_accepted crypt (ses_public_key s) (ses_candidate s) hb"
    "confirmed_version_for_update crypt s c = Inr version"
    "version < image_version (decode_manifest_bytes hb)"
    "candidate_package_fits (ses_restricted_flash s) (ses_candidate s) (header_of hb) = Inr n"
    "s1 = s\<lparr>ses_header := header_of hb, ses_payload_program_size := n, ses_result := res\<rparr>"
proof -
  let ?rec = "start_metadata (ses_options s) (boot_metadata_recover_from_flash (ses_restricted_flash s) c)"
  obtain pk vs where ver: "update_package_verify_header_for_slot crypt hb (ses_public_key s) (ses_candidate s) = (pk, vs)"
    by fastforce
  note run = assms [unfolded begin_checks_def ver prod.case Let_def]
  from run obtain r v where r: "?rec = Some (r, v)" by (cases ?rec) auto
  from run r have same: "metadata_matches_start r (ses_metadata_before s)" by (auto split: if_splits)
  then have eq: "r = ses_metadata_before s" by (simp add: metadata_matches_start_def)
  from run r same obtain h where h: "pk = Inr h" by (cases pk) auto
  with ver verify_header_iff [of crypt hb "ses_public_key s" "ses_candidate s" h vs]
  have acc: "header_accepted crypt (ses_public_key s) (ses_candidate s) hb" "h = header_of hb" by simp_all
  let ?s2 = "s\<lparr>ses_result := map_option (\<lambda>r. r\<lparr>ir_package_verify_status := vs\<rparr>) (ses_result s),
    ses_header := h\<rparr>"
  have "session_fixed ?s2 = session_fixed s" by (simp add: session_fixed_def)
  note cv = confirmed_version_cong [OF this, of crypt c]
  have err: "confirmed_version_for_update crypt s c \<noteq> Inl UPDATE_INSTALL_OK"
    by (auto simp: confirmed_version_for_update_def Let_def split: option.splits prod.splits)
  from run r same h err obtain version where v: "confirmed_version_for_update crypt s c = Inr version"
    by (cases "confirmed_version_for_update crypt s c") (auto simp: cv)
  have err2: "candidate_package_fits (ses_restricted_flash s) (ses_candidate s) h \<noteq> Inl UPDATE_INSTALL_OK"
    by (auto simp: candidate_package_fits_def split: option.splits prod.splits)
  from run r same h v err2 obtain n where
    n: "candidate_package_fits (ses_restricted_flash s) (ses_candidate s) h = Inr n"
    "version < image_version (hdr_manifest h)"
    by (cases "candidate_package_fits (ses_restricted_flash s) (ses_candidate s) h")
      (auto simp: cv not_le split: if_splits)
  with run r same h v cv obtain res where
    "s1 = s\<lparr>ses_header := h, ses_payload_program_size := n, ses_result := res\<rparr>"
    by (auto simp: not_le [symmetric])
  with r eq acc v n show ?thesis by (intro that) (simp_all add: header_of_def)
qed

lemma begin_store_ok:
  assumes dev: "session_device s" and good: "host_healthy c" and len: "length hb = 512"
    and run: "begin_store crypt s c hb = (UPDATE_INSTALL_OK, s', c')"
  obtains w where "journal_record c w" "writing_entry s w" "ses_writing_metadata s' = w"
    "ses_state s' = UPDATE_INSTALL_SESSION_WRITING" "ses_payload_hash_ctx s' = crypto_sha512_init crypt"
    "stored c' (unat (signed_image_base (ses_candidate s))) hb" "host_healthy c'"
    "ses_payload_received s' = ses_payload_received s"
    "ses_payload_programmed s' = ses_payload_programmed s" "ses_program_fill s' = ses_program_fill s"
  using run
proof (cases rule: begin_store_cases)
  case (erased w v s1 c1 s2)
  let ?s = "s\<lparr>ses_writing_metadata := w\<rparr>"
  note mem = fixed_members [OF core_flags(2) [where s = s and w = w]]
  from erase_candidate_kept [OF _ erased(3)] dev mem
  have core1: "session_core s1 = session_core ?s" and k1: "kept (in_candidate s) c c1" by simp_all
  let ?s1 = "s1\<lparr>ses_candidate_erased := True\<rparr>"
  have "session_fixed ?s1 = session_fixed s" by (simp add: core_flags core_fixed [OF core1])
  note mem1 = fixed_members [OF this]
  from program_source_range_kept [OF _ _ erased(4)] dev mem1
  have core2: "session_core s2 = session_core ?s1" by simp
  have "journal_record c w"
    using erased(1) recover_session [OF dev good] by (simp add: journal_recordI)
  moreover have "stored c' (unat (signed_image_base (ses_candidate s))) hb" "host_healthy c'"
    using program_source_stores [OF _ _ _ len _ erased(4)] dev mem1 k1 good by (simp_all add: kept_def)
  ultimately show ?thesis
    using erased(2,5) core_members(5,8,9,10) [OF core1] core_members(5,8,9,10) [OF core2]
    by (intro that [of w]) simp_all
qed simp_all

end
