(* ===== verification/Update_Progress.thy ===== *)
theory Update_Progress
  imports Update_Safety Update_Stream
begin

text \<open>
  What the successful calls of a session have achieved: a begun update has an accepted header
  with a newer version and is announced in the journal; a written one has appended its bytes to
  the stream; a finished one has the package in the slot and the candidate in the journal.
\<close>

section \<open>Successful calls\<close>

lemma begin_ok:
  assumes inv: "session_inv crypt s c"
    and fresh: "ses_payload_received s = 0" "ses_payload_programmed s = 0" "ses_program_fill s = 0"
    and run: "update_installer_begin crypt s c hb = (UPDATE_INSTALL_OK, s', c')"
  obtains version w where "header_accepted crypt (ses_public_key s) (ses_candidate s) hb"
    "confirmed_version_for_update crypt s c = Inr version"
    "version < image_version (decode_manifest_bytes hb)"
    "journal_record c (ses_metadata_before s)"
    "boot_metadata_prepare_next (ses_metadata_before s) BOOT_METADATA_STATE_WRITING (ses_active_slot_id s)
       (slot_num (slot_id (ses_candidate s))) (image_version (decode_manifest_bytes hb)) 0 0 0 = Inr w"
    "journal_record c' w" "ses_writing_metadata s' = w" "session_writing s'"
    "ses_state s' = UPDATE_INSTALL_SESSION_WRITING"
    "stream crypt s' c' hb []" "session_fixed s' = session_fixed s"
    "candidate_package_fits (ses_restricted_flash s) (ses_candidate s) (header_of hb) =
       Inr (ses_payload_program_size s')"
  using run
proof (cases rule: begin_cases)
  case (announced s1 c1)
  note dev = inv_device [OF inv] and good = inv_healthy [OF inv]
  from announced(2) obtain r v version n res where
    r: "start_metadata (ses_options s) (boot_metadata_recover_from_flash (ses_restricted_flash s) c) = Some (r, v)"
      "r = ses_metadata_before s"
    and acc: "header_accepted crypt (ses_public_key s) (ses_candidate s) hb"
    and ver: "confirmed_version_for_update crypt s c = Inr version"
      "version < image_version (decode_manifest_bytes hb)"
    and fits: "candidate_package_fits (ses_restricted_flash s) (ses_candidate s) (header_of hb) = Inr n"
    and s1: "s1 = s\<lparr>ses_header := header_of hb, ses_payload_program_size := n, ses_result := res\<rparr>"
    by (rule begin_checks_ok)
  from inv obtain r0 where r0: "journal_record c r0"
    and copies: "copy_a_valid (ses_metadata_recovery s) \<or> copy_b_valid (ses_metadata_recovery s)"
    unfolding session_inv_def by blast
  then obtain v0 where "boot_metadata_recover_from_flash metadata_flash c = (BOOT_METADATA_OK, Some (r0, v0))"
    by (auto elim: journal_recordE)
  with r recover_session [OF dev good] have before: "journal_record c (ses_metadata_before s)"
    using r0 by (simp add: start_metadata_def)
  from announced(3) have j: "begin_journal s1 c = (UPDATE_INSTALL_OK, c1)" .
  have copies1: "copy_a_valid (ses_metadata_recovery s1) \<or> copy_b_valid (ses_metadata_recovery s1)"
    using copies s1 by simp
  from copies1 j obtain w where prep: "boot_metadata_prepare_next (ses_metadata_before s)
      BOOT_METADATA_STATE_WRITING (ses_active_slot_id s) (slot_num (slot_id (ses_candidate s)))
      (image_version (decode_manifest_bytes hb)) 0 0 0 = Inr w"
    and com: "boot_metadata_commit (ses_restricted_flash s) c w = (BOOT_METADATA_OK, c1)"
    by (cases rule: begin_journal_commit) (auto simp: s1 header_of_def)
  note jw = commit_record [OF dev good com before]
  let ?s = "s1\<lparr>ses_metadata_writing_committed := True\<rparr>"
  have fixed: "session_fixed ?s = session_fixed s" by (simp add: s1 session_fixed_def)
  note mem = fixed_members [OF fixed]
  have dev1: "session_device ?s" using dev mem by simp
  have len: "length hb = 512" using acc by (simp add: header_accepted_def)
  from begin_store_kept [OF dev1 announced(4)] fixed mem
  have f': "session_fixed s' = session_fixed s" "ses_header s' = header_of hb" "ses_payload_program_size s' = n"
    and k: "kept (in_candidate s) c1 c'" by (simp_all add: s1)
  from dev1 jw(1) len announced(4) obtain w' where w': "journal_record c1 w'"
    "ses_writing_metadata s' = w'"
    and st: "ses_state s' = UPDATE_INSTALL_SESSION_WRITING" "ses_payload_hash_ctx s' = crypto_sha512_init crypt"
      "stored c' (unat (signed_image_base (ses_candidate ?s))) hb" "host_healthy c'"
      "ses_payload_received s' = 0" "ses_payload_programmed s' = 0" "ses_program_fill s' = 0"
    using fresh by (elim begin_store_ok) (simp_all add: s1)
  have "w' = w" using w'(1) jw(2) by (auto dest: journal_record_unique)
  moreover have "stream crypt s' c' hb []"
    using st f' dev fixed_members(2,12) [OF f'(1)] mem(2) acc len
    by (auto simp: stream_def header_stored_def absorbed_init header_of_def header_accepted_def
        header_layout_ok_def Let_def)
  moreover have "journal_record c' w"
    using journal_record_kept [OF dev jw(1) k] jw(2) by simp
  ultimately show ?thesis
    using acc ver before prep w' st f' fits by (intro that) (simp_all add: session_writing_def)
qed simp_all

lemma finish_ok:
  assumes inv: "session_inv crypt s c" and str: "stream crypt s c hb p"
    and run: "update_installer_finish crypt s c = (UPDATE_INSTALL_OK, s', c')"
  obtains w where
    "boot_metadata_prepare_next (ses_writing_metadata s) BOOT_METADATA_STATE_CANDIDATE_READY
       (ses_active_slot_id s) (slot_num (slot_id (ses_candidate s)))
       (image_version (decode_manifest_bytes hb)) 0 0 0 = Inr w"
    "journal_record c' w" "ses_state s' = UPDATE_INSTALL_SESSION_FINISHED"
    "slot_bootable crypt (ses_public_key s) (host_view c') (ses_candidate s)"
    "stored c' (unat (signed_image_base (ses_candidate s))) (hb @ p)" "host_healthy c'"
proof -
  note dev = inv_device [OF inv] and good = inv_healthy [OF inv]
  from dev run show ?thesis
  proof (cases rule: finish_cases)
    case (verified c1 s0 s1)
    have wr: "session_writing s" using verified(1) by (simp add: session_writing_def)
    have inv1: "session_inv crypt s c1" by (rule inv_progress [OF inv wr refl verified(2)])
    note mem = fixed_members [OF update_members(1) [OF verified(3)]] update_members(2,3) [OF verified(3)]
    have hdr: "ses_header s = header_of hb" "length hb = 512" using str by (auto simp: stream_def header_stored_def)
    have dev1: "session_device s1" using dev mem by simp
    from verified(5) [unfolded commit_ready_def] obtain w where
      prep: "boot_metadata_prepare_next (ses_writing_metadata s) BOOT_METADATA_STATE_CANDIDATE_READY
        (ses_active_slot_id s) (slot_num (slot_id (ses_candidate s)))
        (image_version (decode_manifest_bytes hb)) 0 0 0 = Inr w"
      and com: "boot_metadata_commit (ses_restricted_flash s) c1 w = (BOOT_METADATA_OK, c')"
      by (cases rule: commit_state_cases) (auto simp: mem hdr header_of_def)
    note rec = inv_writing [OF inv1 wr] and good1 = inv_healthy [OF inv1]
    note jw = commit_record [OF dev good1 com rec(1)]
    have boot: "slot_bootable crypt (ses_public_key s) (host_view c') (ses_candidate s)"
      using installed_bootable(1) [OF dev1 verified(4)] mem
      by (intro bootable_metadata_write [OF dev commit_kept [OF dev com]]) simp
    have "header_stored s c1 hb" "stored c1 (unat (payload_base (ses_candidate s))) p"
      by (rule flush_stores [OF str verified(7)])+
    then have st1: "stored c1 (unat (signed_image_base (ses_candidate s))) (hb @ p)"
      using candidate_payload_base(1) [OF dev] hdr(2) by (simp add: stored_appendI header_stored_def)
    have len: "length (hb @ p) \<le> 512 + 0x5FE00" using str hdr by (simp add: stream_def header_stored_def)
    have "host_view c' (unat (signed_image_base (ses_candidate s)) + i) =
        host_view c1 (unat (signed_image_base (ses_candidate s)) + i)" if "i < length (hb @ p)" for i
    proof -
      have "in_candidate s (unat (signed_image_base (ses_candidate s)) + i)"
        using that len candidate_payload_base(3) [OF dev] by (simp add: in_candidate_def in_slot_def)
      moreover have "in_flash (unat (signed_image_base (ses_candidate s)) + i)"
        using that len candidate_payload_base(3,4,5) [OF dev] by (simp add: in_flash_def)
      ultimately show ?thesis
        using commit_kept [OF dev com] candidate_not_metadata [OF dev] unfolding kept_def by blast
    qed
    with st1 have "stored c' (unat (signed_image_base (ses_candidate s))) (hb @ p)" by (simp add: stored_nth)
    with prep jw boot verified(6) show ?thesis by (intro that) simp_all
  qed simp
qed

lemma install_loop_ok:
  assumes "session_inv crypt s c" "stream crypt s c hb (take off payload)"
    and "off \<le> n" "length payload = n" "n = hdr_payload_size (header_of hb)"
    and "install_loop crypt options payload n off s c = (UPDATE_INSTALL_OK, s', c')"
  shows "\<exists>s1 c1. session_inv crypt s1 c1 \<and> session_fixed s1 = session_fixed s \<and>
    ses_writing_metadata s1 = ses_writing_metadata s \<and> stream crypt s1 c1 hb payload \<and>
    update_installer_finish crypt s1 c1 = (UPDATE_INSTALL_OK, s', c')"
  using assms
proof (induction "n - off" arbitrary: off s c rule: less_induct)
  case less
  note run = less.prems(6) [unfolded install_loop.simps [of crypt options payload n off s c] Let_def]
  show ?case
  proof (cases "off < n")
    case False
    with less.prems(3,4) have "take off payload = payload" by simp
    with less.prems run False show ?thesis
      by (intro exI [of _ s] exI [of _ c]) (auto split: prod.splits if_splits)
  next
    case True
    define k where "k = min (n - off) (io_program_buffer_size options)"
    obtain st s1 c1 where w: "update_installer_write crypt s c off (take k (drop off payload)) = (st, s1, c1)"
      by (metis prod_cases3)
    from run True w have k: "k \<noteq> 0" and st: "st = UPDATE_INSTALL_OK"
      and rest: "install_loop crypt options payload n (off + k) s1 c1 = (UPDATE_INSTALL_OK, s', c')"
      by (auto simp: k_def [symmetric] split: if_splits prod.splits)
    have kn: "off + k \<le> n" "n - (off + k) < n - off" using True k by (auto simp: k_def)
    note dev = inv_device [OF less.prems(1)]
    from write_kept [OF dev w] have up: "session_update s1 = session_update s" by simp
    have "stream crypt s1 c1 hb (take (off + k) payload)"
      using write_stream [OF less.prems(2) w [unfolded st]] by (simp add: take_add)
    from less.hyps [OF kn(2) inv_write [OF less.prems(1) w] this kn(1) less.prems(4,5) rest]
      update_members(1,3) [OF up] show ?thesis by simp
  qed
qed

lemma result_inv:
  "session_inv crypt (s\<lparr>ses_result := x\<rparr>) c = session_inv crypt s c"
  by (simp add: session_inv_def session_device_def session_open_def session_writing_def writing_entry_def)

lemma install_ok:
  assumes flash: "flash_ops flash = writable_ops" "wf_flash flash" and good: "host_healthy c"
    and start: "boot_metadata_recover_from_flash metadata_flash c = (BOOT_METADATA_OK, Some (r, v))"
    and run: "update_installer_install crypt flash bs pk options res c = (UPDATE_INSTALL_OK, s', c')"
  obtains s0 version w where
    "update_installer_session_init crypt flash pk options res c = (UPDATE_INSTALL_OK, s0)"
    "package_ok crypt pk (ses_candidate s0) bs"
    "confirmed_version_for_update crypt s0 c = Inr version" "version < image_version (decode_manifest_bytes bs)"
    "journal_record c' w" "w = \<lparr>sequence = sequence r + 2, state = BOOT_METADATA_STATE_CANDIDATE_READY,
       active_slot = active_slot r, candidate_slot = slot_num (slot_id (ses_candidate s0)),
       candidate_image_version = image_version (decode_manifest_bytes bs), boot_attempt_count = 0,
       confirmation_state = 0, result_code = 0\<rparr>"
    "slot_bootable crypt pk (host_view c') (ses_candidate s0)"
    "stored c' (unat (signed_image_base (ses_candidate s0))) bs" "host_healthy c'"
proof -
  obtain st0 s0 where init: "update_installer_session_init crypt flash pk options res c = (st0, s0)" by fastforce
  obtain pkg vs where ver: "update_package_verify_for_slot crypt bs pk (ses_candidate s0) = (pkg, vs)" by fastforce
  define s1 where "s1 = s0\<lparr>ses_result := map_option (\<lambda>r. r\<lparr>ir_package_verify_status := vs\<rparr>) (ses_result s0)\<rparr>"
  obtain st2 s2 c2 where beg: "update_installer_begin crypt s1 c (take 512 bs) = (st2, s2, c2)" by (metis prod_cases3)
  note run' = run [unfolded update_installer_install_def init prod.case ver Let_def, folded s1_def]
  from run' have st0: "st0 = UPDATE_INSTALL_OK" by (auto split: if_splits)
  note init = init [unfolded st0]
  note start0 = session_init_ok [OF init flash(1)]
  from run' st0 obtain p where pkg: "pkg = Inr p" by (cases pkg) auto
  have ab: "ses_candidate s0 = boot_slot_a \<or> ses_candidate s0 = boot_slot_b"
    using start0(1) by (simp add: session_device_def)
  have ok: "package_ok crypt pk (ses_candidate s0) bs" and p: "p = package_of bs"
    using verify_package_iff [OF ab, of crypt bs pk p] ver pkg by (auto simp: parse_iff package_ok_def)
  from run' st0 pkg beg have st2: "st2 = UPDATE_INSTALL_OK"
    and loop: "install_loop crypt options (pkg_payload p) (pkg_payload_size p) 0 s2 c2 = (UPDATE_INSTALL_OK, s', c')"
    by (auto split: if_splits)
  note before = inv_init [OF init flash good start]
  have fixed1: "session_fixed s1 = session_fixed s0" by (simp add: s1_def core_flags)
  note fm1 = fixed_members [OF fixed1]
  have inv1: "session_inv crypt s1 c" using before(1) by (simp add: s1_def result_inv)
  have len: "512 \<le> length bs" "length (drop 512 bs) = unat (image_size (decode_manifest_bytes bs))"
    using ok by (simp_all add: package_ok_def)
  note hb = header_bytes_of_package [OF len(1)]
  have fresh: "ses_payload_received s1 = 0" "ses_payload_programmed s1 = 0" "ses_program_fill s1 = 0"
    using start0(10-12) by (simp_all add: s1_def)
  from begin_ok [OF inv1 fresh beg [unfolded st2]] obtain version w1 where
    vers: "confirmed_version_for_update crypt s1 c = Inr version" "version < image_version (decode_manifest_bytes (take 512 bs))"
    and prep1: "boot_metadata_prepare_next (ses_metadata_before s1) BOOT_METADATA_STATE_WRITING (ses_active_slot_id s1)
       (slot_num (slot_id (ses_candidate s1))) (image_version (decode_manifest_bytes (take 512 bs))) 0 0 0 = Inr w1"
    and w1: "ses_writing_metadata s2 = w1" and str: "stream crypt s2 c2 (take 512 bs) []"
    and fixed2: "session_fixed s2 = session_fixed s1"
    by metis
  note fm2 = fixed_members [OF fixed2]
  have inv2: "session_inv crypt s2 c2" by (rule inv_begin [OF inv1 beg])
  from install_loop_ok [OF inv2 _ _ _ _ loop, of "take 512 bs"] str p len hb obtain s3 c3 where
    inv3: "session_inv crypt s3 c3" and fixed3: "session_fixed s3 = session_fixed s2"
    and w3: "ses_writing_metadata s3 = w1" and str3: "stream crypt s3 c3 (take 512 bs) (drop 512 bs)"
    and fin: "update_installer_finish crypt s3 c3 = (UPDATE_INSTALL_OK, s', c')"
    by (auto simp: package_of_def header_of_def w1)
  note fm3 = fixed_members [OF fixed3]
  from finish_ok [OF inv3 str3 fin] obtain w where
    prep2: "boot_metadata_prepare_next w1 BOOT_METADATA_STATE_CANDIDATE_READY (ses_active_slot_id s3)
       (slot_num (slot_id (ses_candidate s3))) (image_version (decode_manifest_bytes (take 512 bs))) 0 0 0 = Inr w"
    and jw: "journal_record c' w" "slot_bootable crypt (ses_public_key s3) (host_view c') (ses_candidate s3)"
      "stored c' (unat (signed_image_base (ses_candidate s3))) bs" "host_healthy c'"
    by (auto simp: w3)
  have "fst (boot_metadata_recover_from_flash flash c) = BOOT_METADATA_OK"
    using recover_host [OF flash(2,1) good] start by simp
  with start0(7) before(2) have act: "ses_active_slot_id s0 = active_slot r" by auto
  from prepare_next_fields [OF prep1] prepare_next_fields [OF prep2] fm1 fm2 fm3 before(2) act hb
  have w: "w = \<lparr>sequence = sequence r + 2, state = BOOT_METADATA_STATE_CANDIDATE_READY,
       active_slot = active_slot r, candidate_slot = slot_num (slot_id (ses_candidate s0)),
       candidate_image_version = image_version (decode_manifest_bytes bs), boot_attempt_count = 0,
       confirmation_state = 0, result_code = 0\<rparr>" by simp
  show ?thesis
    by (rule that [OF init ok _ _ jw(1) w])
      (use jw fm1 fm2 fm3 start0(5) vers hb confirmed_version_cong [OF fixed1] in auto)
qed

text \<open>The version an update has to exceed, in terms of the journal and the flash contents.\<close>

lemma confirmed_version_floor:
  assumes "confirmed_version_for_update crypt s c = Inr version" and "ses_active s = Some act"
  shows "if state (ses_metadata_before s) = BOOT_METADATA_STATE_CONFIRMED
    then version = candidate_image_version (ses_metadata_before s)
    else slot_bootable crypt (ses_public_key s) (host_view c) act \<and>
      version = image_version (decode_manifest_bytes (slot_manifest (host_view c) act))"
  using assms
  by (auto simp: confirmed_version_for_update_def Let_def signed_image_verify_update_slot_buffer_def
      verify_buffer_iff slot_bootable_def signed_image_decode_manifest_def split: if_splits prod.splits)

section \<open>Properties\<close>

text \<open>
  C24. A begun update is a genuine, newer one: when \<^verbatim>\<open>update_installer_begin\<close> succeeds, the header
  has the accepted format, a valid signature and the candidate slot's address, and its version
  exceeds the version of the image the device runs: the confirmed version of the journal if the
  journal is CONFIRMED, and otherwise (after a rejected or rolled back update) the version
  in the manifest of the active slot, which is verified in the flash. The journal announces the update
  (WRITING, same active slot, next sequence number), and the header is in the candidate slot.
\<close>

theorem begin_refuses_rollback:
  assumes init: "update_installer_session_init crypt flash pk options res c = (UPDATE_INSTALL_OK, s)"
    and flash: "flash_ops flash = writable_ops" "wf_flash flash" and good: "host_healthy c"
    and start: "boot_metadata_recover_from_flash metadata_flash c = (BOOT_METADATA_OK, Some (r, v))"
    and run: "update_installer_begin crypt s c hb = (UPDATE_INSTALL_OK, s', c')"
  shows "header_accepted crypt pk (ses_candidate s) hb \<and>
    (\<exists>act. boot_slot_lookup (active_slot r) = Some act \<and>
      (if state r = BOOT_METADATA_STATE_CONFIRMED
       then candidate_image_version r < image_version (decode_manifest_bytes hb)
       else slot_bootable crypt pk (host_view c) act \<and>
         image_version (decode_manifest_bytes (slot_manifest (host_view c) act)) <
         image_version (decode_manifest_bytes hb))) \<and>
    journal_record c' \<lparr>sequence = sequence r + 1, state = BOOT_METADATA_STATE_WRITING,
      active_slot = active_slot r, candidate_slot = slot_num (slot_id (ses_candidate s)),
      candidate_image_version = image_version (decode_manifest_bytes hb), boot_attempt_count = 0,
      confirmation_state = 0, result_code = 0\<rparr> \<and>
    stream crypt s' c' hb []"
proof -
  note start0 = session_init_ok [OF init flash(1)] and before = inv_init [OF init flash good start]
  have "fst (boot_metadata_recover_from_flash flash c) = BOOT_METADATA_OK"
    using recover_host [OF flash(2,1) good] start by simp
  with start0(7) before(2) obtain act where act: "ses_active s = Some act"
    "boot_slot_lookup (active_slot r) = Some act" "ses_active_slot_id s = active_slot r" by auto
  from begin_ok [OF before(1) start0(10-12) run] obtain version w where
    ok: "header_accepted crypt (ses_public_key s) (ses_candidate s) hb"
      "confirmed_version_for_update crypt s c = Inr version" "version < image_version (decode_manifest_bytes hb)"
      "journal_record c' w" "stream crypt s' c' hb []"
    and prep: "boot_metadata_prepare_next (ses_metadata_before s) BOOT_METADATA_STATE_WRITING (ses_active_slot_id s)
       (slot_num (slot_id (ses_candidate s))) (image_version (decode_manifest_bytes hb)) 0 0 0 = Inr w"
    by metis
  from confirmed_version_floor [OF ok(2) act(1)] ok(3) before(2) start0(5)
  have "if state r = BOOT_METADATA_STATE_CONFIRMED
    then candidate_image_version r < image_version (decode_manifest_bytes hb)
    else slot_bootable crypt pk (host_view c) act \<and>
      image_version (decode_manifest_bytes (slot_manifest (host_view c) act)) <
      image_version (decode_manifest_bytes hb)"
    by (simp split: if_splits)
  with ok prepare_next_fields [OF prep] before(2) act start0(5) show ?thesis by auto
qed

text \<open>
  C23. Writing refines appending: the abstract state of a session is the header and the payload
  accepted so far; a successful \<^verbatim>\<open>update_installer_write\<close> was given the next offset and appends
  exactly its data, through buffering, programming and hashing, and completes the payload
  exactly at the announced size.
\<close>

theorem write_refines_append:
  assumes "stream crypt s c hb p"
    and "update_installer_write crypt s c off d = (UPDATE_INSTALL_OK, s', c')"
  shows "stream crypt s' c' hb (p @ d) \<and> off = length p \<and>
    ses_state s' = (if length (p @ d) = unat (image_size (decode_manifest_bytes hb))
                    then UPDATE_INSTALL_SESSION_PAYLOAD_COMPLETE else UPDATE_INSTALL_SESSION_WRITING)"
  using write_stream [OF assms] by (simp add: header_of_def)

text \<open>
  A successful installation has installed the package: the candidate slot holds exactly the
  bytes of the package, which the boot loader accepts, the version exceeds the confirmed one, and
  the journal announces the candidate with the active slot unchanged.
\<close>

theorem install_stores_package:
  assumes flash: "flash_ops flash = writable_ops" "wf_flash flash" and good: "host_healthy c"
    and start: "boot_metadata_recover_from_flash metadata_flash c = (BOOT_METADATA_OK, Some (r, v))"
    and run: "update_installer_install crypt flash bs pk options res c = (UPDATE_INSTALL_OK, s', c')"
  shows "\<exists>slot \<in> {boot_slot_a, boot_slot_b}. slot_num (slot_id slot) \<noteq> active_slot r \<and>
    mem_range (host_view c') (unat (signed_image_base slot)) (length bs) = bs \<and>
    slot_bootable crypt pk (host_view c') slot \<and>
    (state r = BOOT_METADATA_STATE_CONFIRMED \<longrightarrow>
       candidate_image_version r < image_version (decode_manifest_bytes bs)) \<and>
    journal_record c' \<lparr>sequence = sequence r + 2, state = BOOT_METADATA_STATE_CANDIDATE_READY,
      active_slot = active_slot r, candidate_slot = slot_num (slot_id slot),
      candidate_image_version = image_version (decode_manifest_bytes bs), boot_attempt_count = 0,
      confirmation_state = 0, result_code = 0\<rparr>"
proof -
  from install_ok [OF assms] obtain s0 version w where
    init: "update_installer_session_init crypt flash pk options res c = (UPDATE_INSTALL_OK, s0)"
    and ver: "confirmed_version_for_update crypt s0 c = Inr version" "version < image_version (decode_manifest_bytes bs)"
    and rest: "journal_record c' w" "w = \<lparr>sequence = sequence r + 2, state = BOOT_METADATA_STATE_CANDIDATE_READY,
       active_slot = active_slot r, candidate_slot = slot_num (slot_id (ses_candidate s0)),
       candidate_image_version = image_version (decode_manifest_bytes bs), boot_attempt_count = 0,
       confirmation_state = 0, result_code = 0\<rparr>"
    "slot_bootable crypt pk (host_view c') (ses_candidate s0)"
    "stored c' (unat (signed_image_base (ses_candidate s0))) bs"
    by metis
  note start0 = session_init_ok [OF init flash(1)] and before = inv_init(2) [OF init flash good start]
  have "fst (boot_metadata_recover_from_flash flash c) = BOOT_METADATA_OK"
    using recover_host [OF flash(2,1) good] start by simp
  with start0(2,7) before have "slot_num (slot_id (ses_candidate s0)) \<noteq> active_slot r"
    by (auto simp: session_slots_def boot_slot_rows)
  moreover have "state r = BOOT_METADATA_STATE_CONFIRMED \<longrightarrow>
       candidate_image_version r < image_version (decode_manifest_bytes bs)"
    using ver before by (auto simp: confirmed_version_for_update_def)
  moreover have "ses_candidate s0 \<in> {boot_slot_a, boot_slot_b}"
    using start0(1) by (auto simp: session_device_def)
  ultimately show ?thesis using rest by (auto simp: stored_def)
qed

end
