(* ===== verification/Update_Liveness.thy ===== *)
theory Update_Liveness
  imports Update_Progress
begin

text \<open>
  Progress of an update: on a fault-free device with byte programming and without injected
  faults, every step of the installation of a valid package succeeds, so the whole installation
  returns \<^verbatim>\<open>UPDATE_INSTALL_OK\<close> and the next boot tries the candidate. The incremental hash of the
  cryptographic library is a parameter; that it agrees with the one-shot hash is a hypothesis.
\<close>

section \<open>Steps that succeed on a fault-free device\<close>

definition live :: "'h update_installer_session \<Rightarrow> host_context \<Rightarrow> bool" where
  "live s c \<longleftrightarrow>
     session_device s \<and> host_fault_free c \<and> program_alignment (ses_restricted_flash s) = 1 \<and>
     io_fault_hook (ses_options s) = None \<and> 0 < io_program_buffer_size (ses_options s) \<and>
     io_program_buffer_size (ses_options s) \<le> io_readback_buffer_size (ses_options s)"

lemma live_fixed: "session_fixed s' = session_fixed s \<Longrightarrow> host_fault_free c' \<Longrightarrow> live s c \<Longrightarrow> live s' c'"
  using fixed_members [of s' s] by (simp add: live_def)

lemma live_healthy: "live s c \<Longrightarrow> host_healthy c"
  by (simp add: live_def host_reliable.fault_free_healthy)

lemma live_no_fault: "live s c \<Longrightarrow> maybe_fault (ses_options s) point detail = UPDATE_INSTALL_OK"
  by (simp add: live_def maybe_fault_def)

definition blank :: "host_context \<Rightarrow> nat \<Rightarrow> nat \<Rightarrow> bool" where
  "blank c a e \<longleftrightarrow> (\<forall>n. a \<le> n \<and> n < e \<longrightarrow> host_view c n = 0xFF)"

lemma session_reliable:
  assumes "session_device s" "program_alignment (ses_restricted_flash s) = 1"
  shows "journal_reliable writable_ops host_view host_healthy host_fault_free (ses_restricted_flash s)"
proof (intro journal_reliable.intro journal_reliable_axioms.intro)
  show "flash_reliable writable_ops host_view host_healthy host_fault_free"
    by (rule host_reliable.flash_reliable_axioms)
  show "journal_device writable_ops host_view host_healthy (ses_restricted_flash s)"
    by (rule session_journal [OF assms(1)])
  show "program_alignment (ses_restricted_flash s) = 1" by (rule assms(2))
  have "write_regions (ses_restricted_flash s) = restricted_regions (ses_candidate s)"
    using assms(1) by (simp add: session_device_def)
  then show "range_is_write_allowed (ses_restricted_flash s) BOOT_METADATA_A_BASE 0x4000"
    "range_is_write_allowed (ses_restricted_flash s) BOOT_METADATA_B_BASE 0x4000"
    by (simp_all add: range_is_write_allowed_def restricted_regions_def mk_region_def checked_range_end_def)
qed

lemma session_commit_succeeds:
  assumes live: "live s c" and r: "journal_record c r" and step: "valid_step r nx"
  shows "\<exists>c'. boot_metadata_commit (ses_restricted_flash s) c nx = (BOOT_METADATA_OK, c') \<and> host_fault_free c'"
proof -
  have dev: "session_device s" and ff: "host_fault_free c" using live by (simp_all add: live_def)
  from r obtain v where "boot_metadata_recover_from_flash metadata_flash c = (BOOT_METADATA_OK, Some (r, v))"
    by (rule journal_recordE)
  then have "commit_base (boot_metadata_recover_from_flash (ses_restricted_flash s) c) = Some r"
    using recover_session [OF dev live_healthy [OF live]] by (simp add: commit_base_def)
  from journal_reliable.commit_succeeds [OF session_reliable ff this step] live show ?thesis
    by (simp add: live_def)
qed

lemma candidate_writable:
  assumes "session_device s" "unat (signed_image_base (ses_candidate s)) \<le> unat a"
    "unat a + n \<le> unat (slot_end (ses_candidate s))"
  shows "range_is_write_allowed (ses_restricted_flash s) a n"
  using assms
  by (intro range_is_write_allowedI
      [of "mk_region (signed_image_base (ses_candidate s)) (slot_end (ses_candidate s))"])
    (auto simp: session_device_def restricted_regions_def mk_region_def word_le_nat_alt)

lemma erase_sector_live:
  assumes live: "live s c" and i: "unat i < 12"
    and inside: "unat (signed_image_base (ses_candidate s)) \<le> unat (sector_base (boot_flash_sectors ! unat i))"
      "unat (sector_end (boot_flash_sectors ! unat i)) \<le> unat (slot_end (ses_candidate s))"
  shows "\<exists>c'. boot_flash_erase_sector (ses_restricted_flash s) c i = (BOOT_FLASH_OK, c') \<and>
    host_fault_free c' \<and> (\<forall>n. in_sector i n \<longrightarrow> host_view c' n = 0xFF) \<and>
    (\<forall>n. in_flash n \<and> \<not> in_sector i n \<longrightarrow> host_view c' n = host_view c n)"
proof -
  have dev: "session_device s" and ff: "host_fault_free c" and ops: "flash_ops (ses_restricted_flash s) = writable_ops"
    using live by (simp_all add: live_def session_device_def)
  have "unat (sector_base (boot_flash_sectors ! unat i)) + unat (sector_size (boot_flash_sectors ! unat i)) =
      unat (sector_end (boot_flash_sectors ! unat i))"
    using sector_row_nth [OF i] by (simp add: sector_row_ok_def)
  with candidate_writable [OF dev inside(1)] inside(2)
  have "range_is_write_allowed (ses_restricted_flash s) (sector_base (boot_flash_sectors ! unat i))
      (unat (sector_size (boot_flash_sectors ! unat i)))" by simp
  from host_reliable.erase_sector_succeeds [OF ops ff i this] obtain c' where
    run: "boot_flash_erase_sector (ses_restricted_flash s) c i = (BOOT_FLASH_OK, c')" and ff': "host_fault_free c'"
    by blast
  from host_backend.erase_sector_law [OF ops live_healthy [OF live] run] host_frame.erase_sector_frame [OF ops run]
  show ?thesis using run ff' by (auto simp: erased_def)
qed

lemma erase_sectors_live:
  assumes "live s c"
    and "\<forall>i \<in> set is. unat i < 12 \<and>
      unat (signed_image_base (ses_candidate s)) \<le> unat (sector_base (boot_flash_sectors ! unat i)) \<and>
      unat (sector_end (boot_flash_sectors ! unat i)) \<le> unat (slot_end (ses_candidate s))"
  shows "\<exists>s' c'. erase_sectors is s c = (UPDATE_INSTALL_OK, s', c') \<and> host_fault_free c' \<and>
    (\<forall>n. in_flash n \<and> (host_view c n = 0xFF \<or> (\<exists>i \<in> set is. in_sector i n)) \<longrightarrow> host_view c' n = 0xFF)"
  using assms
proof (induction "is" arbitrary: s c)
  case Nil
  then show ?case by (simp add: live_def)
next
  case (Cons i "is")
  then obtain c1 where run: "boot_flash_erase_sector (ses_restricted_flash s) c i = (BOOT_FLASH_OK, c1)"
    and ff: "host_fault_free c1" and er: "\<forall>n. in_sector i n \<longrightarrow> host_view c1 n = 0xFF"
    "\<forall>n. in_flash n \<and> \<not> in_sector i n \<longrightarrow> host_view c1 n = host_view c n"
    using erase_sector_live [of s c i] by auto
  let ?s = "s\<lparr>ses_result := map_option (\<lambda>r. r\<lparr>ir_erased_sector_count :=
    ir_erased_sector_count r + 1\<rparr>) (ses_result s)\<rparr>"
  have "live ?s c1" by (rule live_fixed [OF core_flags(6) ff Cons.prems(1)])
  with Cons.IH [of ?s c1] Cons.prems(2) obtain s' c' where
    rest: "erase_sectors is ?s c1 = (UPDATE_INSTALL_OK, s', c')" "host_fault_free c'"
    "\<forall>n. in_flash n \<and> (host_view c1 n = 0xFF \<or> (\<exists>i \<in> set is. in_sector i n)) \<longrightarrow> host_view c' n = 0xFF"
    by auto
  moreover have "erase_sectors (i # is) s c = (UPDATE_INSTALL_OK, s', c')"
    using run rest(1) live_no_fault [OF Cons.prems(1)] by simp
  moreover have "host_view c' n = 0xFF"
    if "in_flash n" "host_view c n = 0xFF \<or> (\<exists>j \<in> set (i # is). in_sector j n)" for n
    using that rest(3) er by (cases "in_sector i n") auto
  ultimately show ?case by blast
qed

lemma candidate_sectors:
  assumes "slot = boot_slot_a \<or> slot = boot_slot_b"
  defines "is \<equiv> map word_of_nat [unat (first_sector slot)..<Suc (unat (last_sector slot))] :: u32 list"
  shows "\<forall>i \<in> set is. unat i < 12 \<and>
      unat (signed_image_base slot) \<le> unat (sector_base (boot_flash_sectors ! unat i)) \<and>
      unat (sector_end (boot_flash_sectors ! unat i)) \<le> unat (slot_end slot)"
    "in_slot slot n \<Longrightarrow> \<exists>i \<in> set is. in_sector i n"
proof -
  have a: "map word_of_nat [unat (first_sector boot_slot_a)..<Suc (unat (last_sector boot_slot_a))] = [5, 6, 7 :: u32]"
    "map word_of_nat [unat (first_sector boot_slot_b)..<Suc (unat (last_sector boot_slot_b))] = [8, 9, 10 :: u32]"
    by (simp_all add: boot_slot_rows upt_rec)
  show "\<forall>i \<in> set is. unat i < 12 \<and>
      unat (signed_image_base slot) \<le> unat (sector_base (boot_flash_sectors ! unat i)) \<and>
      unat (sector_end (boot_flash_sectors ! unat i)) \<le> unat (slot_end slot)"
    using assms(1) unfolding is_def
    by (elim disjE) (simp_all only: a, simp_all add: boot_flash_sectors_def mk_sector_def boot_slot_rows)
  show "in_slot slot n \<Longrightarrow> \<exists>i \<in> set is. in_sector i n"
    using assms(1) unfolding is_def
    by (elim disjE) (simp_all only: a, auto simp: in_slot_def in_sector_def boot_flash_sectors_def mk_sector_def boot_slot_rows)
qed

lemma erase_candidate_live:
  assumes live: "live s c"
  shows "\<exists>s' c'. erase_candidate_slot s c = (UPDATE_INSTALL_OK, s', c') \<and> host_fault_free c' \<and>
    blank c' (unat (signed_image_base (ses_candidate s))) (unat (slot_end (ses_candidate s)))"
proof -
  have ab: "ses_candidate s = boot_slot_a \<or> ses_candidate s = boot_slot_b"
    using live by (simp add: live_def session_device_def)
  note sec = candidate_sectors [OF ab]
  from erase_sectors_live [OF live sec(1)] obtain s' c' where
    run: "erase_candidate_slot s c = (UPDATE_INSTALL_OK, s', c')" and ff: "host_fault_free c'"
    and ff2: "\<forall>n. in_flash n \<and> (host_view c n = 0xFF \<or> (\<exists>i \<in> set (map word_of_nat
      [unat (first_sector (ses_candidate s))..<Suc (unat (last_sector (ses_candidate s)))] :: u32 list). in_sector i n)) \<longrightarrow>
      host_view c' n = 0xFF"
    unfolding erase_candidate_slot_def by blast
  have "blank c' (unat (signed_image_base (ses_candidate s))) (unat (slot_end (ses_candidate s)))"
    using ff2 sec(2) slot_parts_in_slot(4) [OF ab] unfolding blank_def in_slot_def by blast
  with run ff show ?thesis by blast
qed

lemma checked_offset:
  assumes "unat base + off \<le> SIZE_MAX"
  obtains a where "checked_u32_add base (of_nat off) = Some a" "unat a = unat base + off"
proof -
  have "unat (of_nat off :: u32) = off" using assms by (simp add: u32_of_nat)
  with assms have "checked_u32_add base (of_nat off) = Some (base + of_nat off)"
    by (simp add: checked_u32_add_Some)
  with checked_u32_add_unat [OF this] \<open>unat (of_nat off :: u32) = off\<close> show ?thesis by (intro that) simp_all
qed

lemma count_block_count: "ses_programmed_block_count (count_block s) = ses_programmed_block_count s + 1"
  by (simp add: count_block_def)

lemma blank_part: "blank c a e \<Longrightarrow> a \<le> a' \<Longrightarrow> e' \<le> e \<Longrightarrow> blank c a' e'"
  by (simp add: blank_def)

lemma program_block_live:
  assumes live: "live s c" and count: "unat (ses_programmed_block_count s) < 0xFFFFFFFF"
    and inside: "unat (signed_image_base (ses_candidate s)) \<le> unat a"
      "unat a + length d \<le> unat (slot_end (ses_candidate s))"
    and blank: "blank c (unat a) (unat a + length d)"
  shows "\<exists>c'. program_aligned_block s c a d = (UPDATE_INSTALL_OK, count_block s, c') \<and> host_fault_free c' \<and>
    (\<forall>e. blank c (unat a) e \<longrightarrow> e \<le> unat FLASH_END \<longrightarrow> blank c' (unat a + length d) e)"
proof -
  have dev: "session_device s" and ff: "host_fault_free c" and al: "program_alignment (ses_restricted_flash s) = 1"
    using live by (simp_all add: live_def)
  note f = session_device_def [THEN iffD1, OF dev]
  note geo = candidate_payload_base [OF dev]
  have span: "flash_span a (length d)" using inside geo by (simp add: flash_span_def)
  from blank have clear: "\<And>i. i < length d \<Longrightarrow> host_view c (unat a + i) AND d ! i = d ! i"
    by (simp add: blank_def)
  from host_reliable.program_aligned_succeeds [OF _ _ ff span _ _ candidate_writable [OF dev inside] clear] f al
  obtain c' where prog: "boot_flash_program_aligned (ses_restricted_flash s) c a d = (BOOT_FLASH_OK, c')"
    and ff': "host_fault_free c'" by auto
  have ops: "flash_ops (ses_restricted_flash s) = writable_ops" "wf_flash (ses_restricted_flash s)" using f by simp_all
  have good: "host_healthy c'" by (rule host_reliable.fault_free_healthy [OF ff'])
  have read: "boot_flash_read (ses_restricted_flash s) c' a (length d) = (BOOT_FLASH_OK, d)"
    using host_backend.program_aligned_ok [OF ops live_healthy [OF live] prog]
      host_backend.read_ok [OF ops good span] by simp
  have cnt: "ses_programmed_block_count s \<noteq> UINT32_MAX" using count by auto
  have run: "program_aligned_block s c a d = (UPDATE_INSTALL_OK, count_block s, c')"
    by (simp add: program_aligned_block_def Let_def live_no_fault [OF live] prog read cnt)
  note blk = program_block_ok [OF dev live_healthy [OF live] run]
  have "blank c' (unat a + length d) e" if "blank c (unat a) e" "e \<le> unat FLASH_END" for e
    using that inside geo unfolding blank_def by (auto simp: in_flash_def intro: trans [OF blk(5)])
  with run ff' show ?thesis by blast
qed

text \<open>The header: at most one block per byte.\<close>

lemma program_source_live:
  assumes live: "live s c" and base: "base = signed_image_base (ses_candidate s)"
    and src: "length src = n" and n: "n \<le> 512"
    and count: "ses_programmed_block_count s = 0"
    and blank: "blank c (unat base) (unat (slot_end (ses_candidate s)))"
    and run: "program_source_range base src n n s c = (st, s', c')"
  shows "st = UPDATE_INSTALL_OK \<and> session_core s' = session_core s \<and> host_fault_free c' \<and>
    unat (ses_programmed_block_count s') \<le> n \<and> blank c' (unat base + n) (unat (slot_end (ses_candidate s)))"
proof -
  have dev: "session_device s" using live by (simp add: live_def)
  note geo = candidate_payload_base [OF dev]
  from run n have loop: "program_source_loop base src n n 0 s c = (st, s', c')"
    by (simp add: program_source_range_def)
  define P where "P off s1 c1 \<longleftrightarrow> session_core s1 = session_core s \<and> host_fault_free c1 \<and> off \<le> n \<and>
      unat (ses_programmed_block_count s1) \<le> off \<and> blank c1 (unat base + off) (unat (slot_end (ses_candidate s)))"
    for off s1 c1
  show ?thesis
  proof (rule program_source_loop_rule [where P = P and Q = "\<lambda>st s1 c1. st = UPDATE_INSTALL_OK \<and>
      session_core s1 = session_core s \<and> host_fault_free c1 \<and> unat (ses_programmed_block_count s1) \<le> n \<and>
      blank c1 (unat base + n) (unat (slot_end (ses_candidate s)))", OF _ _ _ _ loop])
    show "P 0 s c" using live count blank by (simp add: P_def live_def)
  next
    fix off s1 c1 k st s2 c2
    assume p: "P off s1 c1" and off: "off < n"
      and k: "k = min (n - off) (io_program_buffer_size (ses_options s1))" "0 < k"
      and run: "program_source_chunk base src n k off s1 c1 = (st, s2, c2)"
    define t where "t = set_program_buffer (set_program_buffer s1 0 (replicate k 0xFF)) 0
      (take (if off < n then min (n - off) k else 0) (drop off src))"
    have core: "session_core t = session_core s" using p by (simp add: t_def P_def)
    have bytes: "take k (io_program_buffer (ses_options t)) = take k (drop off src)"
      unfolding t_def using off k src by (intro source_chunk_bytes) auto
    have len: "length (take k (drop off src)) = k" using k src by simp
    have live': "live t c1" using live_fixed [OF core_fixed [OF core] _ live] p by (simp add: P_def)
    have cnt: "ses_programmed_block_count t = ses_programmed_block_count s1"
      by (simp add: t_def set_program_buffer_def)
    have cand: "ses_candidate t = ses_candidate s" by (rule core_members(2) [OF core])
    obtain a where a: "checked_u32_add base (of_nat off) = Some a" and ua: "unat a = unat base + off"
      using checked_offset [of base off] geo base off n by auto
    have run1: "program_aligned_block t c1 a (take k (drop off src)) = (st, s2, c2)"
      using run by (simp add: program_source_chunk_def Let_def t_def [symmetric] bytes a)
    have kn: "off + k \<le> n" using off k by simp
    have bl: "blank c1 (unat a) (unat (slot_end (ses_candidate s)))" using p by (simp add: P_def ua)
    have fit: "unat a + k \<le> unat (slot_end (ses_candidate s))" using ua kn n base geo by simp
    have "\<exists>c'. program_aligned_block t c1 a (take k (drop off src)) = (UPDATE_INSTALL_OK, count_block t, c') \<and>
      host_fault_free c' \<and> (\<forall>e. blank c1 (unat a) e \<longrightarrow> e \<le> unat FLASH_END \<longrightarrow>
        blank c' (unat a + length (take k (drop off src))) e)"
      by (rule program_block_live [OF live'])
        (use p off n base ua fit in \<open>auto simp: P_def cnt cand len intro!: blank_part [OF bl]\<close>)
    then have st: "st = UPDATE_INSTALL_OK" "s2 = count_block t" "host_fault_free c2"
      "blank c2 (unat base + (off + k)) (unat (slot_end (ses_candidate s)))"
      using run1 bl geo(5) ua unfolding len by (auto simp: add.assoc)
    have "unat (ses_programmed_block_count s1 + 1) \<le> off + k"
      using p k off n by (auto simp: P_def unat_word_ariths)
    with st kn core show "if st = UPDATE_INSTALL_OK then P (off + k) s2 c2 else
      st = UPDATE_INSTALL_OK \<and> session_core s2 = session_core s \<and> host_fault_free c2 \<and>
      unat (ses_programmed_block_count s2) \<le> n \<and> blank c2 (unat base + n) (unat (slot_end (ses_candidate s)))"
      by (simp add: P_def count_block_count cnt)
  next
    fix off s1 c1
    assume p: "P off s1 c1"
    then have "io_program_buffer_size (ses_options s1) \<noteq> 0"
      using live fixed_members(8) [OF core_fixed, of s1 s] by (simp add: P_def live_def)
    moreover assume "io_program_buffer_size (ses_options s1) = 0"
    ultimately show "UPDATE_INSTALL_ERR_STATE = UPDATE_INSTALL_OK \<and> session_core s1 = session_core s \<and>
      host_fault_free c1 \<and> unat (ses_programmed_block_count s1) \<le> n \<and>
      blank c1 (unat base + n) (unat (slot_end (ses_candidate s)))" by simp
  qed (auto simp: P_def)
qed

text \<open>A session with room for its payload: what is not programmed yet is still blank.\<close>

definition room :: "'h update_installer_session \<Rightarrow> host_context \<Rightarrow> bool" where
  "room s c \<longleftrightarrow>
     live s c \<and> unat (ses_programmed_block_count s) \<le> 512 + ses_payload_programmed s \<and>
     ses_payload_program_size s = hdr_payload_size (ses_header s) \<and>
     blank c (unat (payload_base (ses_candidate s)) + ses_payload_programmed s)
       (unat (slot_end (ses_candidate s)))"

lemma room_live: "room s c \<Longrightarrow> live s c"
  by (simp add: room_def)

lemma flush_live:
  assumes str: "stream crypt s c hb p" and room: "room s c"
    and full: "final \<or> ses_program_fill s = io_program_buffer_size (ses_options s)"
  shows "\<exists>s' c'. flush_payload_program_buffer s c final = (UPDATE_INSTALL_OK, s', c') \<and> room s' c' \<and>
    ses_program_fill s' = 0 \<and> ses_payload_programmed s' = length p"
proof (cases "ses_program_fill s = 0")
  case True
  with str room show ?thesis by (simp add: flush_payload_program_buffer_def Let_def stream_def)
next
  case False
  let ?f = "ses_program_fill s" and ?k = "ses_payload_programmed s" and ?b = "payload_base (ses_candidate s)"
  define s1 where "s1 = (if final then set_program_buffer s ?f [] else s)"
  have live: "live s c" and dev: "session_device s" and al: "program_alignment (ses_restricted_flash s) = 1"
    using room by (simp_all add: room_def live_def)
  have core: "session_core s1 = session_core s" by (simp add: s1_def)
  have cnt: "ses_programmed_block_count s1 = ses_programmed_block_count s"
    by (simp add: s1_def set_program_buffer_def)
  note geo = candidate_payload_base [OF dev] and mem = core_members [OF core]
  have len: "?k + ?f = length p" "length p \<le> hdr_payload_size (ses_header s)" "length p \<le> 0x5FE00"
    and buf: "?f \<le> length (io_program_buffer (ses_options s))"
    using str by (auto simp: stream_def header_stored_def)
  define d where "d = take ?f (io_program_buffer (ses_options s1))"
  have d: "length d = ?f" using buf by (auto simp: d_def s1_def set_program_buffer_def bytes_write_def)
  obtain a where a: "checked_u32_add ?b (of_nat ?k) = Some a" "unat a = unat ?b + ?k"
    using checked_offset [of ?b ?k] geo len by auto
  have "host_fault_free c" using live by (simp add: live_def)
  then have live1: "live s1 c" by (rule live_fixed [OF core_fixed [OF core] _ live])
  have bl: "blank c (unat a) (unat (slot_end (ses_candidate s)))" using room a by (simp add: room_def)
  have fit: "unat a + ?f \<le> unat (slot_end (ses_candidate s))" using a geo len by simp
  have "\<exists>c'. program_aligned_block s1 c a d = (UPDATE_INSTALL_OK, count_block s1, c') \<and> host_fault_free c' \<and>
      (\<forall>e. blank c (unat a) e \<longrightarrow> e \<le> unat FLASH_END \<longrightarrow> blank c' (unat a + length d) e)"
    by (rule program_block_live [OF live1])
      (use room len a fit geo in \<open>auto simp: room_def cnt mem d intro!: blank_part [OF bl]\<close>)
  then obtain c' where blk: "program_aligned_block s1 c a d = (UPDATE_INSTALL_OK, count_block s1, c')"
    and ff: "host_fault_free c'" and bl': "blank c' (unat ?b + length p) (unat (slot_end (ses_candidate s)))"
    using bl geo(5) a(2) len(1) d by (auto simp: add.assoc)
  let ?s = "(count_block s1)\<lparr>ses_payload_programmed := length p, ses_program_fill := 0\<rparr>"
  have cs: "session_core (count_block s1) = session_core s" by (simp add: core)
  have run: "flush_payload_program_buffer s c final = (UPDATE_INSTALL_OK, ?s, c')"
    using False full len room a(1) blk core_members(9) [OF cs] al
    by (auto simp: flush_payload_program_buffer_def Let_def checked_round_up_def room_def s1_def d_def)
  have up: "session_update ?s = session_update s" using core_update [OF cs] by simp
  note um = update_members [OF up] and fm = fixed_members [OF update_members(1) [OF up]]
  have "unat (ses_programmed_block_count s + 1) \<le> 512 + length p"
    using room len False by (auto simp: room_def unat_word_ariths)
  then have "room ?s c'"
    using live_fixed [OF um(1) ff live] bl' room um fm by (simp add: room_def count_block_count cnt)
  with run show ?thesis by (intro exI [of _ ?s] exI [of _ c']) simp
qed

lemma room_update:
  assumes "session_update s' = session_update s" "ses_programmed_block_count s' = ses_programmed_block_count s"
    "ses_payload_programmed s' = ses_payload_programmed s"
  shows "room s' c = room s c"
  using update_members [OF assms(1)] fixed_members [OF update_members(1) [OF assms(1)]] assms(2,3)
  by (simp add: room_def live_def)

lemma write_chunk_live:
  assumes str: "stream crypt s c hb p" and room: "room s c"
    and fits: "length p + length piece \<le> hdr_payload_size (ses_header s)"
    and space: "ses_program_fill s + length piece \<le> io_program_buffer_size (ses_options s)"
  shows "\<exists>s' c'. write_chunk crypt s c piece = (UPDATE_INSTALL_OK, s', c') \<and> room s' c' \<and>
    ses_program_fill s' < io_program_buffer_size (ses_options s')"
proof -
  let ?s = "buffered crypt s piece"
  note buf = buffered_stream [OF str fits] and up = buffered_update [of crypt s piece]
  have cnt: "ses_programmed_block_count ?s = ses_programmed_block_count s"
    "ses_payload_programmed ?s = ses_payload_programmed s"
    by (simp_all add: buffered_def set_program_buffer_def)
  have room1: "room ?s c" using room room_update [OF up cnt] by simp
  note size = fixed_members(8) [OF update_members(1) [OF up]]
  show ?thesis
  proof (cases "ses_program_fill ?s = io_program_buffer_size (ses_options ?s)")
    case False
    with space buf(2) size room1 show ?thesis
      by (intro exI [of _ ?s] exI [of _ c]) (simp add: write_chunk_def Let_def buffered_def [symmetric])
  next
    case True
    from flush_live [OF buf(1) room1, of False] True obtain s2 c2 where
      fl: "flush_payload_program_buffer ?s c False = (UPDATE_INSTALL_OK, s2, c2)" "room s2 c2" "ses_program_fill s2 = 0"
      by auto
    then have "0 < io_program_buffer_size (ses_options s2)" by (simp add: room_def live_def)
    with True fl show ?thesis
      by (intro exI [of _ s2] exI [of _ c2]) (simp add: write_chunk_def Let_def buffered_def [symmetric])
  qed
qed

lemma write_loop_live:
  assumes str: "stream crypt s c hb p" and room: "room s c"
    and fits: "length p + length d \<le> hdr_payload_size (header_of hb)"
    and fill: "ses_program_fill s < io_program_buffer_size (ses_options s)"
    and run: "write_loop crypt s c d = (st, s', c')"
  shows "st = UPDATE_INSTALL_OK \<and> room s' c' \<and> ses_program_fill s' < io_program_buffer_size (ses_options s')"
proof -
  define P where "P s1 c1 input \<longleftrightarrow> (\<exists>x. x @ input = d \<and> stream crypt s1 c1 hb (p @ x) \<and>
      room s1 c1 \<and> ses_program_fill s1 < io_program_buffer_size (ses_options s1))" for s1 c1 input
  show ?thesis
  proof (rule write_loop_rule [where P = P and Q = "\<lambda>st s1 c1. st = UPDATE_INSTALL_OK \<and> room s1 c1 \<and>
      ses_program_fill s1 < io_program_buffer_size (ses_options s1)", OF _ _ _ _ run])
    show "P s c d" using str room fill by (simp add: P_def)
  next
    fix s1 c1 st s2 c2 and input :: bytes and k
    assume p: "P s1 c1 input" and k: "k \<le> length input"
      "k = min (length input) (size_sub (io_program_buffer_size (ses_options s1)) (ses_program_fill s1))"
      and run: "write_chunk crypt s1 c1 (take k input) = (st, s2, c2)"
    from p obtain x where x: "x @ input = d" "stream crypt s1 c1 hb (p @ x)" "room s1 c1"
      "ses_program_fill s1 < io_program_buffer_size (ses_options s1)" by (auto simp: P_def)
    have h1: "ses_header s1 = header_of hb" using x(2) by (simp add: stream_def header_stored_def)
    have fit: "length (p @ x) + length (take k input) \<le> hdr_payload_size (ses_header s1)"
      using fits h1 x(1) k by auto
    from write_chunk_live [OF x(2,3) fit] x(4) k run
    have ok: "st = UPDATE_INSTALL_OK" "room s2 c2" "ses_program_fill s2 < io_program_buffer_size (ses_options s2)"
      by auto
    moreover have "stream crypt s2 c2 hb (p @ x @ take k input)"
      using write_chunk_stream(1) [OF x(2) fit run [unfolded ok(1)]] by simp
    ultimately have "P s2 c2 (drop k input)" using x(1) by (auto simp: P_def intro!: exI [of _ "x @ take k input"])
    with ok show "if st = UPDATE_INSTALL_OK then P s2 c2 (drop k input)
      else st = UPDATE_INSTALL_OK \<and> room s2 c2 \<and> ses_program_fill s2 < io_program_buffer_size (ses_options s2)"
      by simp
  qed (auto simp: P_def)
qed

lemma write_live:
  assumes str: "stream crypt s c hb p" and room: "room s c"
    and fits: "length p + length d \<le> hdr_payload_size (header_of hb)" and d: "d \<noteq> []"
    and fill: "ses_program_fill s < io_program_buffer_size (ses_options s)"
    and st: "ses_state s = UPDATE_INSTALL_SESSION_WRITING"
    and run: "update_installer_write crypt s c (length p) d = (r, s', c')"
  shows "r = UPDATE_INSTALL_OK \<and> room s' c' \<and> ses_program_fill s' < io_program_buffer_size (ses_options s')"
proof -
  obtain q s1 c1 where loop: "write_loop crypt s c d = (q, s1, c1)" by (metis prod_cases3)
  from write_loop_live [OF str room fits fill loop] have ok: "q = UPDATE_INSTALL_OK" "room s1 c1"
    "ses_program_fill s1 < io_program_buffer_size (ses_options s1)" by simp_all
  have rec: "ses_payload_received s = length p" "ses_header s = header_of hb"
    using str by (auto simp: stream_def header_stored_def)
  have "room (s1\<lparr>ses_state := x\<rparr>) c1" for x
    using ok(2) room_update [of "s1\<lparr>ses_state := x\<rparr>" s1 c1] by simp
  with run loop ok st d rec fits show ?thesis
    by (auto simp: update_installer_write_def split: if_splits)
qed

text \<open>The incremental hash of the library computes the one-shot hash, however the input is cut.\<close>

definition sha512_streams :: "'h crypto \<Rightarrow> bool" where
  "sha512_streams crypt \<longleftrightarrow> (\<forall>chunks.
     crypto_sha512_final crypt (foldl (crypto_sha512_absorb crypt) (crypto_sha512_init crypt) chunks) =
     crypto_sha512 crypt (concat chunks))"

lemma absorbed_final:
  "sha512_streams crypt \<Longrightarrow> absorbed crypt ctx p \<Longrightarrow> crypto_sha512_final crypt ctx = crypto_sha512 crypt p"
  by (auto simp: sha512_streams_def absorbed_def)

lemma hash_loop_live:
  assumes live: "live s c" and st: "stored c (unat (payload_base (ses_candidate s))) p"
    and len: "length p = hdr_payload_size (ses_header s)" "length p \<le> 0x5FE00"
    and "off \<le> length p" "absorbed crypt ctx (take off p)"
  shows "\<exists>ctx'. hash_payload_loop crypt s c off ctx = Inr ctx' \<and> absorbed crypt ctx' p"
  using assms(5,6)
proof (induction "length p - off" arbitrary: off ctx rule: less_induct)
  case less
  note unfold = hash_payload_loop.simps [of crypt s c off ctx]
  show ?case
  proof (cases "off < length p")
    case False
    with len have "hash_payload_loop crypt s c off ctx = Inr ctx" by (subst unfold) simp
    with less.prems False show ?thesis by simp
  next
    case True
    have dev: "session_device s" using live by (simp add: live_def)
    note f = session_device_def [THEN iffD1, OF dev] and geo = candidate_payload_base [OF dev]
    define k where "k = min (length p - off) (io_readback_buffer_size (ses_options s))"
    have k: "0 < k" "off + k \<le> length p" using True live by (auto simp: k_def live_def)
    obtain a where a: "checked_u32_add (payload_base (ses_candidate s)) (of_nat off) = Some a"
      "unat a = unat (payload_base (ses_candidate s)) + off"
      using checked_offset [of "payload_base (ses_candidate s)" off] geo True len by auto
    have span: "flash_span a k" using a(2) geo k len by (simp add: flash_span_def)
    have ops: "flash_ops (ses_restricted_flash s) = writable_ops" "wf_flash (ses_restricted_flash s)" using f by simp_all
    have "take k (drop off (mem_range (host_view c) (unat (payload_base (ses_candidate s))) (length p))) =
        mem_range (host_view c) (unat a) k" using k a(2) by (simp add: drop_mem_range take_mem_range)
    then have "mem_range (host_view c) (unat a) k = take k (drop off p)" using st by (simp add: stored_def)
    then have read: "boot_flash_read (ses_restricted_flash s) c a k = (BOOT_FLASH_OK, take k (drop off p))"
      using host_backend.read_ok [OF ops live_healthy [OF live] span] by simp
    have "absorbed crypt (crypto_sha512_absorb crypt ctx (take k (drop off p))) (take (off + k) p)"
      using absorbed_step [OF less.prems(2)] by (simp add: take_add)
    from less.hyps [OF _ _ this] k True have
      "\<exists>ctx'. hash_payload_loop crypt s c (off + k) (crypto_sha512_absorb crypt ctx (take k (drop off p))) = Inr ctx' \<and>
        absorbed crypt ctx' p" by simp
    moreover have "hash_payload_loop crypt s c off ctx =
        hash_payload_loop crypt s c (off + k) (crypto_sha512_absorb crypt ctx (take k (drop off p)))"
      using True k a read by (subst unfold) (simp add: len(1) [symmetric] k_def [symmetric])
    ultimately show ?thesis by simp
  qed
qed


text \<open>The journal entries of an update.\<close>

lemma update_step:
  assumes seq: "sequence cur < UINT32_MAX - 1"
    and st: "st = BOOT_METADATA_STATE_WRITING \<or> st = BOOT_METADATA_STATE_CANDIDATE_READY"
      "transition_state_allowed (state cur) st"
    and slots: "slot_value_is_valid act" "slot_value_is_valid cand" "cand \<noteq> BOOT_SLOT_NONE" "act \<noteq> cand"
    and v: "v \<noteq> 0"
  shows "\<exists>nx. boot_metadata_prepare_next cur st act cand v 0 0 0 = Inr nx"
proof -
  have "sequence cur + 1 \<noteq> 0" "sequence cur + 1 \<noteq> UINT32_MAX" "sequence cur \<noteq> UINT32_MAX"
    using seq by (auto simp: word_less_nat_alt word_unat_eq_iff unat_word_ariths)
  moreover have "\<not> UINT32_MAX - 1 \<le> sequence cur" using seq by simp
  ultimately show ?thesis
    using st slots v
    by (elim disjE) (simp_all add: boot_metadata_prepare_next_def Let_def boot_metadata_validate_transition_def
        state_record_is_canonical_def candidate_record_is_canonical_def state_value_is_valid_def
        transition_fields_allowed_def)
qed

lemma commit_state_live:
  assumes live: "live s c" and r: "journal_record c cur" and ops: "ses_options s = options"
    and prep: "boot_metadata_prepare_next cur st act cand v 0 0 0 = Inr nx"
  shows "\<exists>c'. commit_metadata_state (ses_restricted_flash s) c cur st act cand v options point =
      (UPDATE_INSTALL_OK, c') \<and> host_fault_free c' \<and> journal_record c' nx"
proof -
  from session_commit_succeeds [OF live r prepare_next_step [OF prep]] obtain c' where
    com: "boot_metadata_commit (ses_restricted_flash s) c nx = (BOOT_METADATA_OK, c')" and ff: "host_fault_free c'"
    by blast
  have "session_device s" using live by (simp add: live_def)
  from commit_record(2) [OF this live_healthy [OF live] com r] com ff prep live_no_fault [OF live] ops
  show ?thesis by (auto simp: commit_metadata_state_def Let_def)
qed

lemma installed_live:
  assumes dev: "session_device s" and ok: "package_ok crypt (ses_public_key s) (ses_candidate s) bs"
    and hdr: "ses_header s = header_of bs"
    and st: "stored c (unat (signed_image_base (ses_candidate s))) bs"
  shows "installed_verify_status crypt s c = VERIFY_OK"
proof -
  let ?slot = "ses_candidate s" and ?m = "decode_manifest_bytes bs"
  have ab: "?slot = boot_slot_a \<or> ?slot = boot_slot_b" using dev by (simp add: session_device_def)
  have lay: "length bs = 512 + unat (image_size ?m)" "unat (image_size ?m) \<le> 0x5FE00" "96 \<le> length bs" "header_layout_ok bs"
    using ok by (auto simp: package_ok_def header_layout_ok_def Let_def)
  note held = st [unfolded stored_def]
  note parts = slot_holds_parts [OF ab held lay(1,2)]
  have boot: "slot_bootable crypt (ses_public_key s) (host_view c) ?slot"
    by (rule package_bootable [OF ab ok held])
  have ver: "signed_image_verify_update_slot_buffer crypt (slot_manifest (host_view c) ?slot)
      (slot_signature (host_view c) ?slot) (slot_payload (host_view c) ?slot)
      (unat (maximum_payload_size ?slot)) (ses_public_key s) ?slot = VERIFY_OK"
  proof -
    have "unat (image_size (decode_manifest_bytes (slot_manifest (host_view c) ?slot))) \<le> unat (maximum_payload_size ?slot)"
      using boot by (simp add: slot_bootable_def image_ok_def slot_policy_def)
    with boot slot_table_geometry(1) [OF ab] show ?thesis
      by (simp add: signed_image_verify_update_slot_buffer_def verify_buffer_iff slot_bootable_def)
  qed
  have dec: "signed_image_decode_manifest (slot_manifest (host_view c) ?slot) = (VERIFY_OK, ?m)"
    using lay by (simp add: signed_image_decode_manifest_def parts decode_manifest_take)
  have "unat (signature_address ?slot + 64) = unat (signed_image_base ?slot) + 160"
    using ab by (auto simp: boot_slot_rows)
  moreover have "take 352 (drop 160 (mem_range (host_view c) (unat (signed_image_base ?slot)) (length bs))) =
      mem_range (host_view c) (unat (signed_image_base ?slot) + 160) 352"
    using lay(1) by (simp add: drop_mem_range take_mem_range)
  moreover have "take 352 (drop 160 bs) = replicate 352 0xFF"
    using lay by (intro nth_equalityI) (auto simp: header_layout_ok_def Let_def)
  ultimately have "mem_range (host_view c) (unat (signature_address ?slot + 64)) 352 = replicate 352 0xFF"
    using held by metis
  then have "installed_header_matches_expected (host_view c) ?slot (ses_header s)"
    by (simp add: installed_header_matches_expected_def parts hdr header_of_def list_all_iff)
  then show ?thesis
    by (simp add: installed_verify_status_def Let_def ver dec manifest_matches_header_def hdr header_of_def crypto_verify64_def)
qed


lemma finish_live:
  assumes inv: "session_inv crypt s c" and str: "stream crypt s c (take 512 bs) (drop 512 bs)" and room: "room s c"
    and ok: "package_ok crypt (ses_public_key s) (ses_candidate s) bs" and sha: "sha512_streams crypt"
    and st: "ses_state s = UPDATE_INSTALL_SESSION_PAYLOAD_COMPLETE"
    and prep: "boot_metadata_prepare_next (ses_writing_metadata s) BOOT_METADATA_STATE_CANDIDATE_READY
       (ses_active_slot_id s) (slot_num (slot_id (ses_candidate s)))
       (image_version (decode_manifest_bytes bs)) 0 0 0 = Inr w"
  shows "\<exists>s' c'. update_installer_finish crypt s c = (UPDATE_INSTALL_OK, s', c') \<and> host_fault_free c'"
proof -
  let ?p = "drop 512 bs" and ?m = "decode_manifest_bytes bs"
  have lay: "512 \<le> length bs" "length ?p = unat (image_size ?m)" "unat (image_size ?m) \<le> 0x5FE00" "96 \<le> length bs"
    using ok by (auto simp: package_ok_def header_layout_ok_def Let_def)
  note hb = header_bytes_of_package [OF lay(1)]
  have hdr: "ses_header s = header_of bs" and dev: "session_device s" and ab: "absorbed crypt (ses_payload_hash_ctx s) ?p"
    using str hb by (auto simp: stream_def header_stored_def)
  from flush_live [OF str room, of True] obtain s1 c1 where
    fl: "flush_payload_program_buffer s c True = (UPDATE_INSTALL_OK, s1, c1)" and room1: "room s1 c1"
    and n1: "ses_payload_programmed s1 = length ?p" by auto
  note fs = flush_stores [OF str fl]
  from flush_kept [OF dev fl] have up: "session_update s1 = session_update s" and k1: "kept (in_candidate s) c c1" by simp_all
  note um = update_members [OF up] and fm = fixed_members [OF update_members(1) [OF up]]
  have size: "ses_payload_program_size s1 = length ?p"
    using room1 lay hdr um by (simp add: room_def header_of_def)
  define s2 where "s2 = s1\<lparr>ses_payload_hash_finalized := True\<rparr>"
  have up2: "session_update s2 = session_update s" by (simp add: s2_def up)
  note um2 = update_members [OF up2] and fm2 = fixed_members [OF update_members(1) [OF up2]]
  have room2: "room s2 c1" using room_update [of s2 s1 c1] room1 by (simp add: s2_def)
  have m96: "decode_manifest_bytes (take 96 bs) = ?m" using lay by (simp add: decode_manifest_take)
  have whole: "take (unat (image_size ?m)) ?p = ?p" by (rule take_all) (simp only: lay(2) order_refl)
  have hash: "crypto_verify64 (crypto_sha512 crypt ?p) (payload_sha512 ?m)"
    using ok by (simp add: package_ok_def image_authentic_def Let_def m96 whole)
  have v1: "verify_streaming_payload_hash crypt s1 = (UPDATE_INSTALL_OK, s2)"
    using absorbed_final [OF sha ab] fs(4) hash um(2) hdr
    by (simp add: verify_streaming_payload_hash_def s2_def header_of_def)
  from hash_loop_live [OF room_live [OF room2], of ?p 0 crypt "crypto_sha512_init crypt"] fs(2) lay um2 fm2 hdr
  obtain ctx where "hash_payload_loop crypt s2 c1 0 (crypto_sha512_init crypt) = Inr ctx" "absorbed crypt ctx ?p"
    by (auto simp: header_of_def absorbed_init)
  then have v2: "hash_installed_payload crypt s2 c1 = UPDATE_INSTALL_OK"
    using absorbed_final [OF sha] hash um2 hdr live_no_fault [OF room_live [OF room2]]
    by (simp add: hash_installed_payload_def Let_def header_of_def)
  have held: "stored c1 (unat (signed_image_base (ses_candidate s))) bs"
    using fs(1,2) stored_appendI [of c1 _ "take 512 bs" ?p] candidate_payload_base(1) [OF dev] lay(1)
    by (simp add: header_stored_def)
  have v3: "installed_verify_status crypt s2 c1 = VERIFY_OK"
    by (rule installed_live) (use dev ok hdr held um2 fm2 in auto)
  define s3 where "s3 = s2\<lparr>ses_result := map_option (\<lambda>r. r\<lparr>ir_installed_verify_status := VERIFY_OK\<rparr>) (ses_result s2)\<rparr>"
  have v3': "verify_installed_package crypt s2 c1 = (UPDATE_INSTALL_OK, s3)"
    using v3 live_no_fault [OF room_live [OF room2]] by (simp add: verify_installed_package_def s3_def)
  have up3: "session_update s3 = session_update s" by (simp add: s3_def up2)
  note um3 = update_members [OF up3] and fm3 = fixed_members [OF update_members(1) [OF up3]]
  have live3: "live s3 c1" using room2 um3 fm3 fm2 by (simp add: room_def live_def)
  have "journal_record c1 (ses_writing_metadata s)"
    using inv_writing(1) [OF inv] st journal_record_kept [OF dev inv_healthy [OF inv] k1]
    by (simp add: session_writing_def)
  from commit_state_live [OF live3 this refl prep, of UPDATE_INSTALL_FAULT_METADATA_CANDIDATE_READY] obtain c2 where
    "commit_metadata_state (ses_restricted_flash s3) c1 (ses_writing_metadata s3) BOOT_METADATA_STATE_CANDIDATE_READY
      (ses_active_slot_id s3) (slot_num (slot_id (ses_candidate s3))) (image_version (hdr_manifest (ses_header s3)))
      (ses_options s3) UPDATE_INSTALL_FAULT_METADATA_CANDIDATE_READY = (UPDATE_INSTALL_OK, c2)" "host_fault_free c2"
    using um3 fm3 hdr by (auto simp: header_of_def)
  then show ?thesis
    using st fl n1 size v1 v2 v3' by (simp add: update_installer_finish_def)
qed

lemma package_header_accepted:
  assumes "package_ok crypt pk slot bs"
  shows "header_accepted crypt pk slot (take 512 bs)"
proof -
  have len: "512 \<le> length bs" using assms by (simp add: package_ok_def)
  have "take 64 (drop 96 (take 512 bs)) = take 64 (drop 96 bs)" by (simp add: drop_take)
  with assms header_bytes_of_package [OF len] len show ?thesis
    by (simp add: header_accepted_def package_ok_def image_ok_def slot_policy_def image_authentic_def Let_def)
qed

lemma package_fits:
  assumes live: "live s c" and ok: "package_ok crypt pk (ses_candidate s) bs"
  shows "candidate_package_fits (ses_restricted_flash s) (ses_candidate s) (header_of bs) =
    Inr (unat (image_size (decode_manifest_bytes bs)))"
proof -
  let ?n = "unat (image_size (decode_manifest_bytes bs))"
  have dev: "session_device s" and al: "program_alignment (ses_restricted_flash s) = 1"
    using live by (simp_all add: live_def)
  note geo = candidate_payload_base [OF dev]
  have n: "?n \<le> 0x5FE00" using ok by (simp add: package_ok_def header_layout_ok_def Let_def)
  obtain a where a: "checked_u32_add (signed_image_base (ses_candidate s)) (of_nat (512 + ?n)) = Some a"
    "unat a = unat (signed_image_base (ses_candidate s)) + (512 + ?n)"
    using checked_offset [of "signed_image_base (ses_candidate s)" "512 + ?n"] n geo by auto
  have "\<not> slot_end (ses_candidate s) < a" using a(2) n geo(3) by (simp add: word_less_nat_alt)
  then show ?thesis
    using n a(1) al by (simp add: candidate_package_fits_def checked_round_up_def header_of_def)
qed

lemma erase_count:
  "erase_sectors xs s c = (st, s', c') \<Longrightarrow> ses_programmed_block_count s' = ses_programmed_block_count s"
  by (induction xs arbitrary: s c) (auto simp: Let_def split: if_splits prod.splits)

lemma begin_live:
  assumes inv: "session_inv crypt s c" and live: "live s c" and slots: "session_slots s" "ses_active s \<noteq> None"
    and st: "ses_state s = UPDATE_INSTALL_SESSION_INITIALIZED"
    and fresh: "ses_payload_received s = 0" "ses_payload_programmed s = 0" "ses_program_fill s = 0"
      "ses_programmed_block_count s = 0"
    and before: "journal_record c (ses_metadata_before s)" "sequence (ses_metadata_before s) < UINT32_MAX - 1"
      "state (ses_metadata_before s) = BOOT_METADATA_STATE_CONFIRMED \<or>
       state (ses_metadata_before s) = BOOT_METADATA_STATE_REJECTED_INVALID"
    and ok: "package_ok crypt (ses_public_key s) (ses_candidate s) bs"
    and ver: "confirmed_version_for_update crypt s c = Inr version"
      "version < image_version (decode_manifest_bytes bs)"
  shows "\<exists>s' c'. update_installer_begin crypt s c (take 512 bs) = (UPDATE_INSTALL_OK, s', c') \<and> room s' c' \<and>
    ses_program_fill s' = 0"
proof -
  let ?hb = "take 512 bs" and ?m = "decode_manifest_bytes bs"
  note dev = inv_device [OF inv] and good = inv_healthy [OF inv]
  have len: "512 \<le> length bs" using ok by (simp add: package_ok_def)
  note hb = header_bytes_of_package [OF len] and acc = package_header_accepted [OF ok]
  note fits = package_fits [OF live ok]
  from before(1) obtain v where rec: "boot_metadata_recover_from_flash (ses_restricted_flash s) c =
      (BOOT_METADATA_OK, Some (ses_metadata_before s, v))"
    using recover_session [OF dev good] by (metis journal_recordE)
  define s1 where "s1 = s\<lparr>ses_header := header_of bs, ses_payload_program_size := unat (image_size ?m),
    ses_result := map_option (\<lambda>r. r\<lparr>ir_package_verify_status := VERIFY_OK, ir_image_version := image_version ?m\<rparr>)
      (ses_result s)\<rparr>"
  have fixed1: "session_fixed s1 = session_fixed s" by (simp add: s1_def session_fixed_def)
  note fm = fixed_members [OF fixed1]
  have hv: "update_package_verify_header_for_slot crypt ?hb (ses_public_key s) (ses_candidate s) =
      (Inr (header_of bs), VERIFY_OK)" using acc hb by (simp add: verify_header_iff)
  have cv: "confirmed_version_for_update crypt (s\<lparr>ses_result := r, ses_header := h\<rparr>) c = Inr version" for r h
    using ver(1) confirmed_version_cong [of "s\<lparr>ses_result := r, ses_header := h\<rparr>" s] by (simp add: session_fixed_def)
  have chk: "begin_checks crypt s c ?hb = (UPDATE_INSTALL_OK, s1)"
    using ver(2) fits
    by (simp add: begin_checks_def rec start_metadata_def metadata_matches_start_def hv cv Let_def s1_def
        header_of_def option.map_comp comp_def not_le)
  have live1: "live s1 c" using live fm by (simp add: live_def)
  have "image_version ?m \<noteq> 0" using ver(2) by (auto simp: word_less_nat_alt)
  moreover from slots have ids: "slot_value_is_valid (ses_active_slot_id s)"
    "slot_value_is_valid (slot_num (slot_id (ses_candidate s)))" "slot_num (slot_id (ses_candidate s)) \<noteq> BOOT_SLOT_NONE"
    "ses_active_slot_id s \<noteq> slot_num (slot_id (ses_candidate s))"
    by (auto simp: session_slots_def slot_value_is_valid_def boot_slot_rows)
  ultimately obtain w where prep: "boot_metadata_prepare_next (ses_metadata_before s) BOOT_METADATA_STATE_WRITING
      (ses_active_slot_id s) (slot_num (slot_id (ses_candidate s))) (image_version ?m) 0 0 0 = Inr w"
    using update_step [OF before(2), of BOOT_METADATA_STATE_WRITING] before(3) by fastforce
  from commit_state_live [OF live1 before(1) refl prep, of UPDATE_INSTALL_FAULT_METADATA_WRITING] obtain c1 where
    com: "commit_metadata_state (ses_restricted_flash s) c (ses_metadata_before s) BOOT_METADATA_STATE_WRITING
      (ses_active_slot_id s) (slot_num (slot_id (ses_candidate s))) (image_version ?m) (ses_options s1)
      UPDATE_INSTALL_FAULT_METADATA_WRITING = (UPDATE_INSTALL_OK, c1)" and ff: "host_fault_free c1"
    and jw: "journal_record c1 w" using fm by auto
  have valid: "copy_a_valid (ses_metadata_recovery s) \<or> copy_b_valid (ses_metadata_recovery s)"
    using inv by (simp add: session_inv_def)
  then have jn: "begin_journal s1 c = (UPDATE_INSTALL_OK, c1)"
    using com fm by (auto simp: begin_journal_def Let_def s1_def header_of_def)
  let ?s = "s1\<lparr>ses_metadata_writing_committed := True\<rparr>"
  define s2 where "s2 = ?s\<lparr>ses_writing_metadata := w\<rparr>"
  have fixed2: "session_fixed s2 = session_fixed s" by (simp add: s2_def core_flags fixed1)
  note fm2 = fixed_members [OF fixed2]
  have live2: "live s2 c1" by (rule live_fixed [OF fixed2 ff live])
  obtain v' where rec1: "boot_metadata_recover_from_flash (ses_restricted_flash ?s) c1 = (BOOT_METADATA_OK, Some (w, v'))"
    using recover_session [of s2 c1] live2 live_healthy [OF live2] jw fm fm2
    by (auto simp: live_def elim!: journal_recordE)
  have we: "writing_entry ?s w" using prepare_next_fields [OF prep] fm by (simp add: writing_entry_def s1_def)
  from erase_candidate_live [OF live2] obtain s3 c2 where er: "erase_candidate_slot s2 c1 = (UPDATE_INSTALL_OK, s3, c2)"
    and ff2: "host_fault_free c2" and bl: "blank c2 (unat (signed_image_base (ses_candidate s))) (unat (slot_end (ses_candidate s)))"
    using fm2 by auto
  have "session_device s2" using live2 by (simp add: live_def)
  from erase_candidate_kept [OF this er] have core3: "session_core s3 = session_core s2" by simp
  have fixed3: "session_fixed (s3\<lparr>ses_candidate_erased := True\<rparr>) = session_fixed s"
    by (simp add: core_flags core_fixed [OF core3] fixed2)
  let ?s3 = "s3\<lparr>ses_candidate_erased := True\<rparr>"
  note fm3 = fixed_members [OF fixed3]
  have live3: "live ?s3 c2" by (rule live_fixed [OF fixed3 ff2 live])
  have count: "ses_programmed_block_count ?s3 = 0"
    using erase_count [OF er [unfolded erase_candidate_slot_def]] fresh(4) by (simp add: s2_def s1_def)
  obtain p s4 c3 where pr: "program_source_range (signed_image_base (ses_candidate s)) ?hb 512 512 ?s3 c2 = (p, s4, c3)"
    by (metis prod_cases3)
  from program_source_live [OF live3 _ _ _ count _ pr] bl fm3 len
  have p: "p = UPDATE_INSTALL_OK" and core4: "session_core s4 = session_core ?s3" and ff3: "host_fault_free c3"
    and n4: "unat (ses_programmed_block_count s4) \<le> 512"
    and bl3: "blank c3 (unat (signed_image_base (ses_candidate s)) + 512) (unat (slot_end (ses_candidate s)))"
    by simp_all
  let ?t = "s4\<lparr>ses_payload_hash_ctx := crypto_sha512_init crypt, ses_state := UPDATE_INSTALL_SESSION_WRITING\<rparr>"
  have fixedt: "session_fixed ?t = session_fixed s" by (simp add: core_flags core_fixed [OF core4] core_fixed [OF core3] fixed2)
  have "begin_store crypt ?s c1 ?hb = (UPDATE_INSTALL_OK, ?t, c3)"
    using rec1 we er pr p fm
    by (simp add: begin_store_def writing_entry_def s2_def)
  then have "update_installer_begin crypt s c ?hb = (UPDATE_INSTALL_OK, ?t, c3)"
    using st chk jn by (simp add: update_installer_begin_def)
  moreover have "room ?t c3"
    using live_fixed [OF fixedt ff3 live] n4 bl3 fixed_members(2) [OF fixedt] candidate_payload_base(1) [OF dev]
      core_members(3,9,11) [OF core4] core_members(3,9,11) [OF core3] fresh
    by (simp add: room_def s2_def s1_def header_of_def)
  moreover have "ses_program_fill ?t = 0"
    using core_members(8) [OF core4] core_members(8) [OF core3] fresh by (simp add: s2_def s1_def)
  ultimately show ?thesis by blast
qed


lemma install_loop_live:
  assumes "session_inv crypt s c" "stream crypt s c (take 512 bs) (take off (drop 512 bs))" "room s c"
    and fill: "ses_program_fill s < io_program_buffer_size (ses_options s)"
    and st: "ses_state s = (if off = length (drop 512 bs) then UPDATE_INSTALL_SESSION_PAYLOAD_COMPLETE
      else UPDATE_INSTALL_SESSION_WRITING)"
    and off: "off \<le> n" and n: "n = length (drop 512 bs)"
    and size: "0 < io_program_buffer_size options"
    and ok: "package_ok crypt (ses_public_key s) (ses_candidate s) bs" and sha: "sha512_streams crypt"
    and prep: "boot_metadata_prepare_next (ses_writing_metadata s) BOOT_METADATA_STATE_CANDIDATE_READY
       (ses_active_slot_id s) (slot_num (slot_id (ses_candidate s)))
       (image_version (decode_manifest_bytes bs)) 0 0 0 = Inr w"
  shows "\<exists>s' c'. install_loop crypt options (drop 512 bs) n off s c = (UPDATE_INSTALL_OK, s', c') \<and> host_fault_free c'"
  using assms(1-6) ok prep
proof (induction "n - off" arbitrary: off s c rule: less_induct)
  case less
  note unfold = install_loop.simps [of crypt options "drop 512 bs" n off s c]
  note inv = less.prems(1) and str = less.prems(2) and room = less.prems(3)
  have lay: "512 \<le> length bs" "n = unat (image_size (decode_manifest_bytes bs))"
    using ok n by (auto simp: package_ok_def)
  have hs: "hdr_payload_size (header_of (take 512 bs)) = n"
    using header_bytes_of_package [OF lay(1)] lay(2) by (simp add: header_of_def)
  show ?case
  proof (cases "off < n")
    case False
    with less.prems(6) n have "off = length (drop 512 bs)" by simp
    with less.prems finish_live [OF inv _ room less.prems(7) sha _ less.prems(8)] False show ?thesis
      by (subst unfold) auto
  next
    case True
    define k where "k = min (n - off) (io_program_buffer_size options)"
    have k: "0 < k" "off + k \<le> n" using True size by (auto simp: k_def)
    let ?d = "take k (drop off (drop 512 bs))" and ?p = "take off (drop 512 bs)"
    have dl: "length ?d = k" "length ?p = off" "?p @ ?d = take (off + k) (drop 512 bs)"
      using k n by (auto simp: take_add)
    obtain r s1 c1 where w: "update_installer_write crypt s c off ?d = (r, s1, c1)" by (metis prod_cases3)
    have "r = UPDATE_INSTALL_OK \<and> room s1 c1 \<and> ses_program_fill s1 < io_program_buffer_size (ses_options s1)"
      by (rule write_live [OF str room _ _ less.prems(4)])
        (use w k dl hs True less.prems(5) n in \<open>auto simp del: drop_drop\<close>)
    then have r: "r = UPDATE_INSTALL_OK" and room1: "room s1 c1"
      and fill1: "ses_program_fill s1 < io_program_buffer_size (ses_options s1)" by simp_all
    from write_stream [OF str w [unfolded r]] dl hs n
    have str1: "stream crypt s1 c1 (take 512 bs) (take (off + k) (drop 512 bs))"
      and st1: "ses_state s1 = (if off + k = length (drop 512 bs) then UPDATE_INSTALL_SESSION_PAYLOAD_COMPLETE
      else UPDATE_INSTALL_SESSION_WRITING)" by (auto simp del: drop_drop)
    from write_kept [OF inv_device [OF inv] w] have up: "session_update s1 = session_update s" by simp
    note um = update_members [OF up] and fm = fixed_members [OF update_members(1) [OF up]]
    have "n - (off + k) < n - off" using True k by simp
    from less.hyps [OF this inv_write [OF inv w] str1 room1 fill1 st1 k(2)] less.prems(7,8) um fm
    obtain s' c' where "install_loop crypt options (drop 512 bs) n (off + k) s1 c1 = (UPDATE_INSTALL_OK, s', c')"
      "host_fault_free c'" by auto
    moreover have "install_loop crypt options (drop 512 bs) n off s c =
        install_loop crypt options (drop 512 bs) n (off + k) s1 c1"
      using True k w r by (subst unfold) (simp add: k_def [symmetric])
    ultimately show ?thesis by simp
  qed
qed

lemma init_live:
  assumes ff: "host_fault_free c" and flash: "flash_ops flash = writable_ops" "wf_flash flash" "program_alignment flash = 1"
    and opts: "options_are_valid flash options"
    and rec: "boot_metadata_recover_from_flash metadata_flash c = (BOOT_METADATA_OK, Some (r, v))"
    and st: "state r = BOOT_METADATA_STATE_CONFIRMED"
  shows "\<exists>s. update_installer_session_init crypt flash pk options res c = (UPDATE_INSTALL_OK, s)"
proof -
  note good = host_reliable.fault_free_healthy [OF ff]
  have "boot_metadata_recover_from_flash flash c = (BOOT_METADATA_OK, Some (r, v))"
    using recover_host [OF flash(2,1) good] rec by simp
  moreover have "boot_slot_lookup (active_slot r) = Some boot_slot_a \<or> boot_slot_lookup (active_slot r) = Some boot_slot_b"
    "candidate_slot r = BOOT_SLOT_NONE" "confirmation_state r = 1"
    using target_journal.recover_canonical [OF good rec] st
    by (auto simp: state_record_is_canonical_def slot_value_is_valid_def split: if_splits)
  then have "\<exists>act cand. select_inactive_slot r = Inr (act, cand) \<and> (cand = boot_slot_a \<or> cand = boot_slot_b)"
    using st by (auto simp: select_inactive_slot_def Let_def)
  moreover have "\<exists>f. init_restricted_flash flash cand = Inr f" if "cand = boot_slot_a \<or> cand = boot_slot_b" for cand
    using that flash(3)
    by (auto simp: init_restricted_flash_def boot_flash_init_def is_power_of_two_def restricted_regions_def
        mk_region_def boot_slot_rows)
  ultimately show ?thesis
    using opts by (fastforce simp: update_installer_session_init_def Let_def start_metadata_def)
qed


text \<open>An opened session on a fault-free device, ready to install into the inactive slot.\<close>

definition session_fresh :: "'h crypto \<Rightarrow> boot_metadata_record \<Rightarrow> boot_slot_descriptor \<Rightarrow> bytes \<Rightarrow>
    'h update_installer_session \<Rightarrow> host_context \<Rightarrow> bool" where
  "session_fresh crypt r slot pk s c \<longleftrightarrow>
     session_inv crypt s c \<and> live s c \<and> session_slots s \<and> ses_active s \<noteq> None \<and>
     ses_active_slot_id s = active_slot r \<and> ses_candidate s = slot \<and> ses_public_key s = pk \<and>
     ses_metadata_before s = r \<and> journal_record c r \<and>
     ses_state s = UPDATE_INSTALL_SESSION_INITIALIZED \<and> ses_payload_received s = 0 \<and>
     ses_payload_programmed s = 0 \<and> ses_program_fill s = 0 \<and> ses_programmed_block_count s = 0"

lemma fresh_result: "session_fresh crypt r slot pk (s\<lparr>ses_result := x\<rparr>) c = session_fresh crypt r slot pk s c"
  by (simp add: session_fresh_def result_inv live_def session_device_def session_slots_def cong: option.case_cong)

lemma open_fresh:
  assumes ff: "host_fault_free c" and flash: "flash_ops flash = writable_ops" "wf_flash flash" "program_alignment flash = 1"
    and opts: "options_are_valid flash options" "io_fault_hook options = None"
    and rec: "boot_metadata_recover_from_flash metadata_flash c = (BOOT_METADATA_OK, Some (r, v))"
    and st: "state r = BOOT_METADATA_STATE_CONFIRMED"
    and slot: "slot \<in> {boot_slot_a, boot_slot_b}" "slot_num (slot_id slot) \<noteq> active_slot r"
  shows "\<exists>s. update_installer_session_init crypt flash pk options res c = (UPDATE_INSTALL_OK, s) \<and>
    session_fresh crypt r slot pk s c"
proof -
  note good = host_reliable.fault_free_healthy [OF ff]
  from init_live [OF ff flash opts(1) rec st] obtain s where
    init: "update_installer_session_init crypt flash pk options res c = (UPDATE_INSTALL_OK, s)" by blast
  note start = session_init_ok [OF init flash(1)] and before = inv_init [OF init flash(1,2) good rec]
  have "fst (boot_metadata_recover_from_flash flash c) = BOOT_METADATA_OK"
    using recover_host [OF flash(2,1) good] rec by simp
  with start(7) before(2) have act: "ses_active_slot_id s = active_slot r" "ses_active s \<noteq> None" by auto
  have cand: "ses_candidate s = slot"
    using start(2) slot act by (auto simp: session_slots_def boot_slot_rows split: option.splits)
  have "io_program_buffer_size options \<le> io_readback_buffer_size options" "0 < io_program_buffer_size options"
    using opts(1) by (auto simp: options_are_valid_def)
  then have "live s c" using start(1,9,14) ff flash(3) opts(2) by (simp add: live_def)
  with init start before act cand journal_recordI [OF rec] show ?thesis by (simp add: session_fresh_def)
qed

lemma begin_fresh:
  assumes fresh: "session_fresh crypt r slot pk s c"
    and st: "state r = BOOT_METADATA_STATE_CONFIRMED" "unat (sequence r) < 0xFFFFFFFC"
    and ok: "package_ok crypt pk slot bs" and newer: "candidate_image_version r < image_version (decode_manifest_bytes bs)"
  obtains s' c' w where "update_installer_begin crypt s c (take 512 bs) = (UPDATE_INSTALL_OK, s', c')"
    "session_inv crypt s' c'" "room s' c'" "ses_program_fill s' = 0" "stream crypt s' c' (take 512 bs) []"
    "ses_state s' = UPDATE_INSTALL_SESSION_WRITING" "session_fixed s' = session_fixed s"
    "boot_metadata_prepare_next (ses_writing_metadata s') BOOT_METADATA_STATE_CANDIDATE_READY
       (ses_active_slot_id s') (slot_num (slot_id (ses_candidate s')))
       (image_version (decode_manifest_bytes bs)) 0 0 0 = Inr w"
proof -
  note f = fresh [unfolded session_fresh_def]
  have inv: "session_inv crypt s c" and live: "live s c" and slots: "session_slots s" "ses_active s \<noteq> None"
    and cnt: "ses_payload_received s = 0" "ses_payload_programmed s = 0" "ses_program_fill s = 0" using f by simp_all
  have seq: "sequence r < UINT32_MAX - 1" using st(2) by (simp add: word_less_nat_alt)
  have cv: "confirmed_version_for_update crypt s c = Inr (candidate_image_version r)"
    using f st(1) by (simp add: confirmed_version_for_update_def)
  from begin_live [OF inv live slots _ cnt _ _ _ _ _ cv newer] f st ok seq obtain s' c' where
    beg: "update_installer_begin crypt s c (take 512 bs) = (UPDATE_INSTALL_OK, s', c')"
    and room: "room s' c'" "ses_program_fill s' = 0" by auto
  from begin_ok [OF inv cnt beg] obtain w where
    prep: "boot_metadata_prepare_next (ses_metadata_before s) BOOT_METADATA_STATE_WRITING (ses_active_slot_id s)
       (slot_num (slot_id (ses_candidate s))) (image_version (decode_manifest_bytes (take 512 bs))) 0 0 0 = Inr w"
    and w: "ses_writing_metadata s' = w" "ses_state s' = UPDATE_INSTALL_SESSION_WRITING"
    and str: "stream crypt s' c' (take 512 bs) []" and fixed: "session_fixed s' = session_fixed s" by metis
  note fm = fixed_members [OF fixed] and wf = prepare_next_fields [OF prep]
  have "unat (sequence w) = unat (sequence r) + 1" using wf f st(2) by (simp add: unat_word_ariths)
  then have seq2: "sequence w < UINT32_MAX - 1" using st(2) by (simp add: word_less_nat_alt)
  have ids: "slot_value_is_valid (ses_active_slot_id s)" "slot_value_is_valid (slot_num (slot_id (ses_candidate s)))"
    "slot_num (slot_id (ses_candidate s)) \<noteq> BOOT_SLOT_NONE"
    "ses_active_slot_id s \<noteq> slot_num (slot_id (ses_candidate s))"
    using slots by (auto simp: session_slots_def slot_value_is_valid_def boot_slot_rows)
  have "image_version (decode_manifest_bytes bs) \<noteq> 0" using newer by (auto simp: word_less_nat_alt)
  from update_step [OF seq2 _ _ ids this, of BOOT_METADATA_STATE_CANDIDATE_READY] wf obtain w2 where
    "boot_metadata_prepare_next w BOOT_METADATA_STATE_CANDIDATE_READY (ses_active_slot_id s)
      (slot_num (slot_id (ses_candidate s))) (image_version (decode_manifest_bytes bs)) 0 0 0 = Inr w2" by auto
  with that [OF beg inv_begin [OF inv beg] room str w(2) fixed] w(1) fm show ?thesis by simp
qed

text \<open>The conditions under which an installation must succeed, and what it then leaves.\<close>

lemma install_live:
  assumes ff: "host_fault_free c" and flash: "flash_ops flash = writable_ops" "wf_flash flash" "program_alignment flash = 1"
    and opts: "options_are_valid flash options" "io_fault_hook options = None"
    and rec: "boot_metadata_recover_from_flash metadata_flash c = (BOOT_METADATA_OK, Some (r, v))"
    and st: "state r = BOOT_METADATA_STATE_CONFIRMED" "unat (sequence r) < 0xFFFFFFFC"
    and slot: "slot \<in> {boot_slot_a, boot_slot_b}" "slot_num (slot_id slot) \<noteq> active_slot r"
    and ok: "package_ok crypt pk slot bs" and newer: "candidate_image_version r < image_version (decode_manifest_bytes bs)"
    and sha: "sha512_streams crypt"
  shows "\<exists>s c'. update_installer_install crypt flash bs pk options res c = (UPDATE_INSTALL_OK, s, c') \<and> host_fault_free c'"
proof -
  from open_fresh [OF ff flash opts rec st(1) slot] obtain s0 where
    init: "update_installer_session_init crypt flash pk options res c = (UPDATE_INSTALL_OK, s0)"
    and fr0: "session_fresh crypt r slot pk s0 c" by blast
  have ab: "slot = boot_slot_a \<or> slot = boot_slot_b" using slot(1) by simp
  obtain vs where ver: "update_package_verify_for_slot crypt bs pk slot = (Inr (package_of bs), vs)"
    using ok package_ok_iff [OF ab] by (metis prod.collapse)
  let ?s = "s0\<lparr>ses_result := map_option (\<lambda>r. r\<lparr>ir_package_verify_status := vs\<rparr>) (ses_result s0)\<rparr>"
  have fr: "session_fresh crypt r slot pk ?s c" by (simp only: fresh_result fr0)
  from begin_fresh [OF fr st ok newer] obtain s2 c2 w where
    beg: "update_installer_begin crypt ?s c (take 512 bs) = (UPDATE_INSTALL_OK, s2, c2)"
    and inv: "session_inv crypt s2 c2" and room: "room s2 c2" and fill: "ses_program_fill s2 = 0"
    and str: "stream crypt s2 c2 (take 512 bs) []" and w: "ses_state s2 = UPDATE_INSTALL_SESSION_WRITING"
    and fixed: "session_fixed s2 = session_fixed ?s"
    and prep: "boot_metadata_prepare_next (ses_writing_metadata s2) BOOT_METADATA_STATE_CANDIDATE_READY
       (ses_active_slot_id s2) (slot_num (slot_id (ses_candidate s2)))
       (image_version (decode_manifest_bytes bs)) 0 0 0 = Inr w" by metis
  have cand: "ses_candidate s0 = slot" "ses_candidate s2 = slot" "ses_public_key s2 = pk"
    using fr0 fr fixed_members(2,3) [OF fixed] by (simp_all add: session_fresh_def)
  have len: "512 \<le> length bs" "length (drop 512 bs) = unat (image_size (decode_manifest_bytes bs))"
      "8 \<le> unat (image_size (decode_manifest_bytes bs))"
    using ok by (simp_all add: package_ok_def header_layout_ok_def Let_def)
  have size: "0 < io_program_buffer_size options" using opts(1) by (auto simp: options_are_valid_def)
  have "\<exists>s' c'. install_loop crypt options (drop 512 bs) (unat (image_size (decode_manifest_bytes bs))) 0 s2 c2 =
      (UPDATE_INSTALL_OK, s', c') \<and> host_fault_free c'"
    by (rule install_loop_live [OF inv _ room _ _ _ _ size _ sha prep])
      (use str fill room_live [OF room] w len ok cand in \<open>auto simp: live_def\<close>)
  with init ver cand beg show ?thesis
    by (simp add: update_installer_install_def package_of_def)
qed

section \<open>Properties\<close>

text \<open>
  A valid update goes through, from the package to the trial boot: on a fault-free device with
  a confirmed image, byte programming and no injected fault, installing a package that the
  package check accepts for the inactive slot, with a newer version, succeeds; and the next boot
  records a trial and enters the new image. The only hypothesis on the cryptographic library is
  that hashing in pieces gives the hash of the whole.
\<close>

theorem install_then_boots:
  assumes ff: "host_fault_free c"
    and flash: "flash_ops flash = writable_ops" "wf_flash flash" "program_alignment flash = 1"
    and opts: "options_are_valid flash options" "io_fault_hook options = None"
    and rec: "boot_metadata_recover_from_flash metadata_flash c = (BOOT_METADATA_OK, Some (r, v))"
    and st: "state r = BOOT_METADATA_STATE_CONFIRMED" "unat (sequence r) < 0xFFFFFFFC"
    and slot: "slot \<in> {boot_slot_a, boot_slot_b}" "slot_num (slot_id slot) \<noteq> active_slot r"
    and pkg: "fst (update_package_verify_for_slot crypt bs pk slot) = Inr p"
    and newer: "candidate_image_version r < image_version (decode_manifest_bytes bs)"
    and sha: "sha512_streams crypt"
  shows "\<exists>s c1. update_installer_install crypt flash bs pk options res c = (UPDATE_INSTALL_OK, s, c1) \<and>
    mem_range (host_view c1) (unat (signed_image_base slot)) (length bs) = bs \<and>
    (\<exists>ev st effs c2 r2. boot_sequence_execute crypt pk c1 csr = (ev, BOOT_JUMP st effs, c2) \<and>
       last effs = ENTER (slot_entry (host_view c1) slot) \<and>
       journal_view (boot_metadata_recover_from_flash metadata_flash c2) = (BOOT_METADATA_OK, Some r2) \<and>
       state r2 = BOOT_METADATA_STATE_PENDING_TRIAL \<and> boot_attempt_count r2 = 2)"
proof -
  have ab: "slot = boot_slot_a \<or> slot = boot_slot_b" using slot(1) by simp
  have ok: "package_ok crypt pk slot bs"
    using pkg by (simp add: verify_package_iff [OF ab] parse_iff package_ok_def)
  from install_live [OF ff flash opts rec st slot ok newer sha] obtain s c1 where
    run: "update_installer_install crypt flash bs pk options res c = (UPDATE_INSTALL_OK, s, c1)"
    and ff1: "host_fault_free c1" by blast
  note good = host_reliable.fault_free_healthy [OF ff]
  from install_ok [OF flash(1,2) good rec run] obtain s0 w where
    init: "update_installer_session_init crypt flash pk options res c = (UPDATE_INSTALL_OK, s0)"
    and jw: "journal_record c1 w" and w: "w = \<lparr>sequence = sequence r + 2, state = BOOT_METADATA_STATE_CANDIDATE_READY,
       active_slot = active_slot r, candidate_slot = slot_num (slot_id (ses_candidate s0)),
       candidate_image_version = image_version (decode_manifest_bytes bs), boot_attempt_count = 0,
       confirmation_state = 0, result_code = 0\<rparr>"
    and boot: "slot_bootable crypt pk (host_view c1) (ses_candidate s0)"
    and held: "stored c1 (unat (signed_image_base (ses_candidate s0))) bs" by metis
  from open_fresh [OF ff flash opts rec st(1) slot, of crypt pk res] init have cand: "ses_candidate s0 = slot"
    by (auto simp: session_fresh_def)
  from jw obtain v1 where rec1: "boot_metadata_recover_from_flash metadata_flash c1 = (BOOT_METADATA_OK, Some (w, v1))"
    by (rule journal_recordE)
  have seq: "sequence w < UINT32_MAX - 1" using w st(2) by (simp add: word_less_nat_alt unat_word_ariths)
  have look: "boot_slot_lookup (candidate_slot w) = Some slot" using w cand ab by (auto simp: boot_slot_rows)
  have "slot_bootable crypt pk (host_view c1) slot" using boot cand by simp
  from ready_candidate_boots [OF ff1 rec1 _ seq look this, of csr] w run held cand show ?thesis
    by (simp add: stored_def)
qed

end
