(* ===== verification/Sample_Update.thy ===== *)
theory Sample_Update
  imports Sample_Device Update_Liveness
begin

text \<open>
  The theorems about updates on a concrete device: slot A holds the confirmed image of
  \<open>Sample_Device\<close> (version 5), and a package of version 6 for slot B is installed.
\<close>

section \<open>Data\<close>

definition sample_options :: update_install_options where
  "sample_options =
     \<lparr>io_program_buffer = replicate 256 0, io_program_buffer_size = 256,
      io_readback_buffer_size = 256, io_fault_hook = None, io_recovery_bootstrap = False\<rparr>"

definition sample_package :: bytes where
  "sample_package =
     le32 SIGNED_IMAGE_MAGIC @ le32 2 @ le32 6 @ le32 0x08080200 @ le32 8 @ le32 0 @
     le32 0xF429AB01 @ le32 1 @ replicate 64 0 @ replicate 64 0 @ replicate 352 0xFF @
     le32 0x20020000 @ le32 0x08080205"

lemma sample_package_length: "length sample_package = 520"
  by (simp add: sample_package_def)

lemma sample_package_words:
  "decode_manifest_bytes sample_package =
     \<lparr>magic = SIGNED_IMAGE_MAGIC, header_version = 2, image_version = 6,
      vector_address = 0x08080200, image_size = 8, flags = 0, reserved0 = 0xF429AB01,
      reserved1 = 1, payload_sha512 = replicate 64 0\<rparr>"
  by (simp add: decode_manifest_bytes_def sample_package_def le32_def load_le32_def)

lemma sample_package_parts:
  "take 4 (take 96 sample_package) = le32 SIGNED_IMAGE_MAGIC"
  "drop 512 sample_package = le32 0x20020000 @ le32 0x08080205"
  "160 \<le> i \<Longrightarrow> i < 512 \<Longrightarrow> sample_package ! i = 0xFF"
  by (simp_all add: sample_package_def) (auto simp: nth_append)

lemma slot_b_fields:
  "payload_base boot_slot_b = 0x08080200" "slot_end boot_slot_b = 0x080E0000"
  "maximum_payload_size boot_slot_b = 0x0005FE00" "signed_image_base boot_slot_b = 0x08080000"
  by (simp_all add: boot_slot_b_def)

lemma sample_package_ok: "package_ok sample_crypto [] boot_slot_b sample_package"
proof -
  have "load_le32 (drop 512 sample_package) = 0x20020000" "load_le32 (drop 4 (drop 512 sample_package)) = 0x08080205"
    unfolding sample_package_parts(2) by (simp_all add: le32_def load_le32_def)
  then have "image_ok (decode_manifest_bytes sample_package) (slot_policy boot_slot_b) (drop 512 sample_package)"
    by (simp add: sample_package_words image_ok_def vector_ok_def slot_policy_def slot_b_fields del: drop_drop)
  moreover have "image_authentic sample_crypto (take 96 sample_package) (take 64 (drop 96 sample_package))
      (drop 512 sample_package) []"
    using sample_package_parts(1) decode_manifest_take [of sample_package]
    by (simp add: image_authentic_def sample_package_length sample_package_words sample_crypto_def crypto_verify64_def)
  moreover have "header_layout_ok sample_package"
    by (simp add: header_layout_ok_def sample_package_words sample_package_length sample_package_parts(3))
  ultimately show ?thesis
    by (simp add: package_ok_def sample_package_length sample_package_words)
qed

lemma sample_streams: "sha512_streams sample_crypto"
  by (simp add: sha512_streams_def sample_crypto_def)

lemma sample_flash:
  "flash_ops metadata_flash = writable_ops" "wf_flash metadata_flash" "program_alignment metadata_flash = 1"
  "options_are_valid metadata_flash sample_options" "io_fault_hook sample_options = None"
  using metadata_flash_wf by (simp_all add: metadata_flash_def options_are_valid_def sample_options_def)

lemma sample_state:
  "state confirmed_record = BOOT_METADATA_STATE_CONFIRMED" "unat (sequence confirmed_record) < 0xFFFFFFFC"
  "boot_slot_b \<in> {boot_slot_a, boot_slot_b}" "slot_num (slot_id boot_slot_b) \<noteq> active_slot confirmed_record"
  "candidate_image_version confirmed_record < image_version (decode_manifest_bytes sample_package)"
  by (simp_all add: confirmed_record_def boot_slot_b_def sample_package_words)


lemmas sample_start = sample_recover [OF sample_canonical(1)]

section \<open>A session\<close>

lemma sample_session:
  "\<exists>s. update_installer_session_init sample_crypto metadata_flash [] sample_options None
     (sample_device confirmed_record) = (UPDATE_INSTALL_OK, s) \<and>
   session_fresh sample_crypto confirmed_record boot_slot_b [] s (sample_device confirmed_record)"
  by (rule open_fresh [OF sample_healthy(2) sample_flash sample_start sample_state(1,3,4)])

text \<open>The three calls of the session and their results.\<close>

lemma sample_calls:
  obtains s s1 c1 s2 c2 s3 c3 r where
    "update_installer_session_init sample_crypto metadata_flash [] sample_options None
       (sample_device confirmed_record) = (UPDATE_INSTALL_OK, s)" "ses_candidate s = boot_slot_b"
    "update_installer_begin sample_crypto s (sample_device confirmed_record) (take 512 sample_package) =
       (UPDATE_INSTALL_OK, s1, c1)"
    "stream sample_crypto s1 c1 (take 512 sample_package) []"
    "update_installer_write sample_crypto s1 c1 0 (drop 512 sample_package) = (UPDATE_INSTALL_OK, s2, c2)"
    "update_installer_finish sample_crypto s2 c2 = (UPDATE_INSTALL_OK, s3, c3)"
    "journal_record c3 r" "state r = BOOT_METADATA_STATE_CANDIDATE_READY"
proof -
  let ?c = "sample_device confirmed_record" and ?hb = "take 512 sample_package" and ?p = "drop 512 sample_package"
  from sample_session obtain s where init: "update_installer_session_init sample_crypto metadata_flash []
      sample_options None ?c = (UPDATE_INSTALL_OK, s)"
    and fresh: "session_fresh sample_crypto confirmed_record boot_slot_b [] s ?c" by blast
  from begin_fresh [OF fresh sample_state(1,2) sample_package_ok sample_state(5)] obtain s1 c1 w where
    beg: "update_installer_begin sample_crypto s ?c ?hb = (UPDATE_INSTALL_OK, s1, c1)"
    and inv: "session_inv sample_crypto s1 c1" and room: "room s1 c1" and fill: "ses_program_fill s1 = 0"
    and str: "stream sample_crypto s1 c1 ?hb []" and st: "ses_state s1 = UPDATE_INSTALL_SESSION_WRITING"
    and fixed: "session_fixed s1 = session_fixed s"
    and prep: "boot_metadata_prepare_next (ses_writing_metadata s1) BOOT_METADATA_STATE_CANDIDATE_READY
       (ses_active_slot_id s1) (slot_num (slot_id (ses_candidate s1)))
       (image_version (decode_manifest_bytes sample_package)) 0 0 0 = Inr w" by metis
  have hs: "hdr_payload_size (header_of ?hb) = 8" "length ?p = 8" "?p \<noteq> []"
    using header_bytes_of_package [of sample_package] sample_package_length
    by (simp_all add: header_of_def sample_package_words)
  obtain q s2 c2 where w: "update_installer_write sample_crypto s1 c1 0 ?p = (q, s2, c2)" by (metis prod_cases3)
  have "q = UPDATE_INSTALL_OK \<and> room s2 c2 \<and> ses_program_fill s2 < io_program_buffer_size (ses_options s2)"
    by (rule write_live [OF str room _ hs(3) _ st]) (use hs fill w room_live [OF room] in \<open>simp_all add: live_def\<close>)
  then have q: "q = UPDATE_INSTALL_OK" and room2: "room s2 c2" by simp_all
  from write_stream [OF str w [unfolded q]] hs have str2: "stream sample_crypto s2 c2 ?hb ?p"
    and st2: "ses_state s2 = UPDATE_INSTALL_SESSION_PAYLOAD_COMPLETE" by auto
  from write_kept [OF inv_device [OF inv] w] have up: "session_update s2 = session_update s1" by simp
  note um = update_members [OF up] and fm = fixed_members [OF update_members(1) [OF up]] fixed_members [OF fixed]
  have id: "ses_candidate s = boot_slot_b" "ses_public_key s = []" using fresh by (simp_all add: session_fresh_def)
  from finish_live [OF inv_write [OF inv w] str2 room2 _ sample_streams st2, of w] prep um fm id sample_package_ok
  obtain s3 c3 where fin: "update_installer_finish sample_crypto s2 c2 = (UPDATE_INSTALL_OK, s3, c3)" by auto
  from finish_ok [OF inv_write [OF inv w] str2 fin] obtain r where r: "journal_record c3 r"
    "boot_metadata_prepare_next (ses_writing_metadata s2) BOOT_METADATA_STATE_CANDIDATE_READY
       (ses_active_slot_id s2) (slot_num (slot_id (ses_candidate s2)))
       (image_version (decode_manifest_bytes ?hb)) 0 0 0 = Inr r" by metis
  show ?thesis
    by (rule that [OF init id(1) beg str w [unfolded q] fin r(1)]) (simp add: prepare_next_fields [OF r(2)])
qed

definition sample_ops :: "session_op list" where
  "sample_ops = [OP_BEGIN (take 512 sample_package), OP_WRITE 0 (drop 512 sample_package), OP_FINISH]"

lemma sample_ops_run:
  obtains s s' c' r where
    "update_installer_session_init sample_crypto metadata_flash [] sample_options None
       (sample_device confirmed_record) = (UPDATE_INSTALL_OK, s)" "ses_candidate s = boot_slot_b"
    "session_ops sample_crypto sample_ops s (sample_device confirmed_record) = (s', c')"
    "journal_record c' r" "state r = BOOT_METADATA_STATE_CANDIDATE_READY"
  by (rule sample_calls) (auto simp: sample_ops_def intro: that)

section \<open>Instances\<close>

theorem active_image_keeps_booting_witness:
  "\<exists>ev s effs c'. boot_sequence_execute sample_crypto [] (sample_device confirmed_record) 0 = (ev, BOOT_JUMP s effs, c')"
  using active_image_keeps_booting [OF sample_start sample_healthy(1) confirmed_sample(2) sample_bootable] by blast

theorem verified_package_bootable_witness:
  "slot_bootable sample_crypto [] (\<lambda>n. sample_package ! (n - 0x08080000)) boot_slot_b"
proof -
  have "fst (update_package_verify_for_slot sample_crypto sample_package [] boot_slot_b) = Inr (package_of sample_package)"
    using sample_package_ok by (simp add: package_ok_iff)
  moreover have "mem_range (\<lambda>n. sample_package ! (n - 0x08080000)) (unat (signed_image_base boot_slot_b))
      (length sample_package) = sample_package"
    by (simp add: mem_range_eq_iff slot_b_fields)
  ultimately show ?thesis using verified_package_bootable [OF sample_state(3)] by blast
qed

theorem update_confined_witness:
  "\<exists>s s' c'. update_installer_session_init sample_crypto metadata_flash [] sample_options None
     (sample_device confirmed_record) = (UPDATE_INSTALL_OK, s) \<and>
   session_ops sample_crypto sample_ops s (sample_device confirmed_record) = (s', c') \<and>
   host_view c' 0x08020200 = host_view (sample_device confirmed_record) 0x08020200"
proof -
  obtain s s' c' where init: "update_installer_session_init sample_crypto metadata_flash [] sample_options None
       (sample_device confirmed_record) = (UPDATE_INSTALL_OK, s)" and cand: "ses_candidate s = boot_slot_b"
    and run: "session_ops sample_crypto sample_ops s (sample_device confirmed_record) = (s', c')"
    by (rule sample_ops_run)
  have "in_flash 0x08020200" "\<not> in_metadata 0x08020200" "\<not> in_slot boot_slot_b 0x08020200"
    by (simp_all add: in_flash_def in_metadata_def in_slot_def slot_b_fields)
  with update_confined [OF init sample_flash(1) run] cand init run show ?thesis by auto
qed

theorem announced_candidate_bootable_witness:
  "\<exists>s s' c'. update_installer_session_init sample_crypto metadata_flash [] sample_options None
     (sample_device confirmed_record) = (UPDATE_INSTALL_OK, s) \<and>
   session_ops sample_crypto sample_ops s (sample_device confirmed_record) = (s', c') \<and>
   slot_bootable sample_crypto [] (host_view c') boot_slot_b"
proof -
  obtain s s' c' r where init: "update_installer_session_init sample_crypto metadata_flash [] sample_options None
       (sample_device confirmed_record) = (UPDATE_INSTALL_OK, s)" and cand: "ses_candidate s = boot_slot_b"
    and run: "session_ops sample_crypto sample_ops s (sample_device confirmed_record) = (s', c')"
    and r: "journal_record c' r" "state r = BOOT_METADATA_STATE_CANDIDATE_READY"
    by (rule sample_ops_run)
  from announced_candidate_bootable [OF init sample_flash(1,2) sample_healthy(1) sample_start run r] cand init run
  show ?thesis by auto
qed

theorem update_never_bricks_witness:
  "\<exists>s s' c' ev st effs c''. session_ops sample_crypto sample_ops s (sample_device confirmed_record) = (s', c') \<and>
   boot_sequence_execute sample_crypto [] c' 0 = (ev, BOOT_JUMP st effs, c'')"
proof -
  obtain s s' c' where init: "update_installer_session_init sample_crypto metadata_flash [] sample_options None
       (sample_device confirmed_record) = (UPDATE_INSTALL_OK, s)"
    and run: "session_ops sample_crypto sample_ops s (sample_device confirmed_record) = (s', c')"
    by (rule sample_ops_run)
  from update_never_bricks [OF init sample_flash(1,2) sample_healthy(1) sample_start confirmed_sample(2)
      sample_bootable run, of 0] run
  show ?thesis by blast
qed

theorem begin_refuses_rollback_witness:
  "\<exists>s s' c'. update_installer_begin sample_crypto s (sample_device confirmed_record) (take 512 sample_package) =
     (UPDATE_INSTALL_OK, s', c') \<and> stream sample_crypto s' c' (take 512 sample_package) []"
proof -
  obtain s s' c' where init: "update_installer_session_init sample_crypto metadata_flash [] sample_options None
       (sample_device confirmed_record) = (UPDATE_INSTALL_OK, s)"
    and run: "update_installer_begin sample_crypto s (sample_device confirmed_record) (take 512 sample_package) =
      (UPDATE_INSTALL_OK, s', c')"
    by (rule sample_calls)
  from begin_refuses_rollback [OF init sample_flash(1,2) sample_healthy(1) sample_start run] run show ?thesis by blast
qed

theorem write_refines_append_witness:
  "\<exists>s c s' c'. update_installer_write sample_crypto s c 0 (drop 512 sample_package) = (UPDATE_INSTALL_OK, s', c') \<and>
     stream sample_crypto s' c' (take 512 sample_package) (drop 512 sample_package)"
proof -
  obtain s c s' c' where str: "stream sample_crypto s c (take 512 sample_package) []"
    and run: "update_installer_write sample_crypto s c 0 (drop 512 sample_package) = (UPDATE_INSTALL_OK, s', c')"
    by (rule sample_calls)
  from write_refines_append [OF str run] run show ?thesis by auto
qed

lemma sample_install:
  "\<exists>s c'. update_installer_install sample_crypto metadata_flash sample_package [] sample_options None
     (sample_device confirmed_record) = (UPDATE_INSTALL_OK, s, c')"
  using install_live [OF sample_healthy(2) sample_flash sample_start sample_state(1-4) sample_package_ok
      sample_state(5) sample_streams] by blast

theorem install_stores_package_witness:
  "\<exists>s c' (slot :: boot_slot_descriptor). update_installer_install sample_crypto metadata_flash sample_package [] sample_options None
     (sample_device confirmed_record) = (UPDATE_INSTALL_OK, s, c') \<and>
   mem_range (host_view c') (unat (signed_image_base slot)) (length sample_package) = sample_package"
proof -
  from sample_install obtain s c' where run: "update_installer_install sample_crypto metadata_flash sample_package []
    sample_options None (sample_device confirmed_record) = (UPDATE_INSTALL_OK, s, c')" by blast
  from install_stores_package [OF sample_flash(1,2) sample_healthy(1) sample_start run] run show ?thesis by blast
qed

theorem install_then_boots_witness:
  "\<exists>s c1 ev st effs c2. update_installer_install sample_crypto metadata_flash sample_package [] sample_options None
     (sample_device confirmed_record) = (UPDATE_INSTALL_OK, s, c1) \<and>
   boot_sequence_execute sample_crypto [] c1 0 = (ev, BOOT_JUMP st effs, c2) \<and>
   last effs = ENTER (slot_entry (host_view c1) boot_slot_b)"
proof -
  have "fst (update_package_verify_for_slot sample_crypto sample_package [] boot_slot_b) = Inr (package_of sample_package)"
    using sample_package_ok by (simp add: package_ok_iff)
  from install_then_boots [OF sample_healthy(2) sample_flash sample_start sample_state(1-4) this sample_state(5)
      sample_streams, of None 0]
  show ?thesis by blast
qed

end
