(* ===== verification/Diagnostic_Console.thy ===== *)
theory Diagnostic_Console
  imports Update_Protocol Boot_Policy
begin

text \<open>
  The read-only diagnostic console (\<^verbatim>\<open>diagnostic_console.c\<close>) with the measurements it prints
  (\<^verbatim>\<open>performance.c\<close>). Every call of the write function is one piece of output; the pieces of a
  command are written in order until one fails, as the conjunctions of the source do. A text is
  its list of bytes; the newline is the byte 10.

  The reset cause callback is the value it returns, the reset callback a function on its context.
\<close>

section \<open>Types\<close>

abbreviation DIAGNOSTIC_CONSOLE_MAX_LINE_LENGTH :: nat where "DIAGNOSTIC_CONSOLE_MAX_LINE_LENGTH \<equiv> 64"
abbreviation DIAGNOSTIC_CONSOLE_MAX_ARGUMENTS :: nat where "DIAGNOSTIC_CONSOLE_MAX_ARGUMENTS \<equiv> 4"
abbreviation DIAGNOSTIC_CONSOLE_DEFAULT_IDLE_TIMEOUT_POLLS :: u32 where
  "DIAGNOSTIC_CONSOLE_DEFAULT_IDLE_TIMEOUT_POLLS \<equiv> 200000"

datatype diagnostic_console_result =
    DIAGNOSTIC_CONSOLE_RESULT_BOOT_CONTINUE
  | DIAGNOSTIC_CONSOLE_RESULT_RESET_REQUESTED
  | DIAGNOSTIC_CONSOLE_RESULT_TIMEOUT
  | DIAGNOSTIC_CONSOLE_RESULT_IO_ERROR
  | DIAGNOSTIC_CONSOLE_RESULT_RECOVERY_REQUESTED

datatype line_status = LINE_STATUS_READY | LINE_STATUS_TIMEOUT | LINE_STATUS_IO_ERROR

record performance =
  performance_cpu_clock_hz :: u32
  sha512_cycles :: u32
  ed25519_cycles :: u32
  verification_cycles :: u32

record ('w, 'r, 'x) diagnostic_console_config =
  cc_reader :: "'r getc"
  cc_write :: "'w \<Rightarrow> bytes \<Rightarrow> bool \<times> 'w"
  cc_flash :: "host_context boot_flash option"
  cc_board_name :: "bytes option"
  cc_reset_cause :: "reset_cause option"
  cc_reset :: "('x \<Rightarrow> 'x) option"
  cc_reset_context :: 'x
  cc_idle_timeout_polls :: u32
  cc_performance :: performance

record diagnostic_console =
  dc_line :: bytes
  dc_line_length :: nat
  dc_command_count :: u32
  dc_overflowed :: bool
  dc_boot_requested :: bool

section \<open>Measurements\<close>

definition board_clock_get_sysclk_hz :: u32 where
  "board_clock_get_sysclk_hz = 16000000"

definition performance_cycles_to_us :: "performance \<Rightarrow> u32 \<Rightarrow> u32" where
  "performance_cycles_to_us p cycles =
     (if performance_cpu_clock_hz p < 1000000 then 0
      else cycles div (performance_cpu_clock_hz p div 1000000))"

definition performance_sha512_us :: "performance \<Rightarrow> u32" where
  "performance_sha512_us p = performance_cycles_to_us p (sha512_cycles p)"

definition performance_ed25519_us :: "performance \<Rightarrow> u32" where
  "performance_ed25519_us p = performance_cycles_to_us p (ed25519_cycles p)"

definition performance_verification_us :: "performance \<Rightarrow> u32" where
  "performance_verification_us p = performance_cycles_to_us p (verification_cycles p)"

section \<open>Output\<close>

abbreviation newline :: bytes where "newline \<equiv> [10]"

definition console_puts :: "bytes \<Rightarrow> bytes list" where
  "console_puts s = [s]"

text \<open>The decimal digits, least significant first; the buffer holds \<open>n\<close> of them.\<close>

fun u32_digits :: "nat \<Rightarrow> u32 \<Rightarrow> bytes" where
  "u32_digits 0 v = []"
| "u32_digits (Suc n) v = (if v \<noteq> 0 then (0x30 + ucast (v mod 10)) # u32_digits n (v div 10) else [])"

definition console_put_u32 :: "u32 \<Rightarrow> bytes list" where
  "console_put_u32 v = (if v = 0 then console_puts (ascii ''0'') else map (\<lambda>d. [d]) (rev (u32_digits 10 v)))"

definition console_put_hex32 :: "u32 \<Rightarrow> bytes list" where
  "console_put_hex32 v =
     [ascii ''0x'' @ map (\<lambda>i. ascii ''0123456789ABCDEF'' ! unat ((drop_bit (28 - i * 4) v) AND 0x0F)) [0..<8]]"

definition console_put_bool :: "bool \<Rightarrow> bytes list" where
  "console_put_bool value = console_puts (if value then ascii ''yes'' else ascii ''no'')"

definition console_put_slot :: "u32 \<Rightarrow> bytes list" where
  "console_put_slot slot =
     (if slot = slot_num BOOT_SLOT_A then console_puts (ascii ''A'')
      else if slot = slot_num BOOT_SLOT_B then console_puts (ascii ''B'')
      else if slot = BOOT_SLOT_NONE then console_puts (ascii ''none'')
      else console_put_hex32 slot)"

text \<open>Writing the pieces until one is refused.\<close>

fun console_write :: "('w \<Rightarrow> bytes \<Rightarrow> bool \<times> 'w) \<Rightarrow> bytes list \<Rightarrow> 'w \<Rightarrow> bool \<times> 'w" where
  "console_write wr [] w = (True, w)"
| "console_write wr (d # ds) w =
     (case wr w d of (ok, w') \<Rightarrow> if ok then console_write wr ds w' else (False, w'))"

section \<open>Words\<close>

fun str_equal :: "bytes \<Rightarrow> bytes \<Rightarrow> bool" where
  "str_equal (a # as) (b # bs) = (if a \<noteq> b then False else str_equal as bs)"
| "str_equal [] [] = True"
| "str_equal [] (b # bs) = False"
| "str_equal (a # as) [] = False"

definition is_space :: "u8 \<Rightarrow> bool" where
  "is_space c \<longleftrightarrow> c = 0x20 \<or> c = 0x09"

text \<open>The text up to the terminating NUL.\<close>

definition c_string :: "bytes \<Rightarrow> bytes" where
  "c_string line = takeWhile (\<lambda>c. c \<noteq> 0) line"

text \<open>
  \<^verbatim>\<open>tokenize\<close> on the text: the words, whether there are too many of them, and the text with the
  spaces it passed overwritten by NUL.
\<close>

function tokenize_loop :: "nat \<Rightarrow> bytes \<Rightarrow> bytes list \<times> bool \<times> bytes" where
  "tokenize_loop count cursor =
     (if cursor = [] then ([], False, [])
      else let n = length (takeWhile is_space cursor); word_start = dropWhile is_space cursor
           in if word_start = [] then ([], False, replicate n 0)
              else if count \<ge> DIAGNOSTIC_CONSOLE_MAX_ARGUMENTS then ([], True, replicate n 0 @ word_start)
              else let w = takeWhile (\<lambda>c. \<not> is_space c) word_start
                   in case tokenize_loop (Suc count) (dropWhile (\<lambda>c. \<not> is_space c) word_start) of
                        (argv, too_many, rest) \<Rightarrow> (w # argv, too_many, replicate n 0 @ w @ rest))"
  by pat_completeness auto

lemma word_start_shorter:
  "dropWhile is_space xs \<noteq> [] \<Longrightarrow> length (dropWhile (\<lambda>c. \<not> is_space c) (dropWhile is_space xs)) < length xs"
proof (induction xs)
  case (Cons x xs)
  show ?case
  proof (cases "is_space x")
    case False
    then have "length (dropWhile (\<lambda>c. \<not> is_space c) (dropWhile is_space (x # xs))) \<le> length xs"
      by (simp add: length_dropWhile_le)
    then show ?thesis by simp
  qed (use Cons in auto)
qed simp

termination tokenize_loop
  by (relation "measure (\<lambda>(count, cursor). length cursor)") (auto simp: word_start_shorter)

declare tokenize_loop.simps [simp del]

definition tokenize :: "bytes \<Rightarrow> bytes list \<times> bool \<times> bytes" where
  "tokenize line =
     (case tokenize_loop 0 (c_string line) of
        (argv, too_many, text') \<Rightarrow> (argv, too_many, text' @ drop (length text') line))"

section \<open>Commands\<close>

fun boot_metadata_status_text :: "boot_metadata_status \<Rightarrow> bytes" where
  "boot_metadata_status_text BOOT_METADATA_OK = ascii ''OK''"
| "boot_metadata_status_text BOOT_METADATA_ERR_INVALID_ARGUMENT = ascii ''INVALID ARGUMENT''"
| "boot_metadata_status_text BOOT_METADATA_ERR_BAD_FORMAT = ascii ''BAD FORMAT''"
| "boot_metadata_status_text BOOT_METADATA_ERR_CRC = ascii ''CRC''"
| "boot_metadata_status_text BOOT_METADATA_ERR_NO_VALID_COPY = ascii ''NO VALID COPY''"
| "boot_metadata_status_text BOOT_METADATA_ERR_AMBIGUOUS = ascii ''AMBIGUOUS''"
| "boot_metadata_status_text BOOT_METADATA_ERR_BAD_TRANSITION = ascii ''BAD TRANSITION''"
| "boot_metadata_status_text BOOT_METADATA_ERR_SEQUENCE = ascii ''SEQUENCE''"
| "boot_metadata_status_text BOOT_METADATA_ERR_FLASH = ascii ''FLASH''"

fun boot_metadata_state_text :: "boot_metadata_state \<Rightarrow> bytes" where
  "boot_metadata_state_text BOOT_METADATA_STATE_EMPTY = ascii ''EMPTY''"
| "boot_metadata_state_text BOOT_METADATA_STATE_WRITING = ascii ''WRITING''"
| "boot_metadata_state_text BOOT_METADATA_STATE_CANDIDATE_READY = ascii ''CANDIDATE READY''"
| "boot_metadata_state_text BOOT_METADATA_STATE_PENDING_TRIAL = ascii ''PENDING TRIAL''"
| "boot_metadata_state_text BOOT_METADATA_STATE_CONFIRMED = ascii ''CONFIRMED''"
| "boot_metadata_state_text BOOT_METADATA_STATE_REJECTED_INVALID = ascii ''REJECTED INVALID''"
| "boot_metadata_state_text (BOOT_METADATA_STATE_OTHER w) = ascii ''UNKNOWN''"

definition print_slot_descriptor :: "u32 \<Rightarrow> bytes list" where
  "print_slot_descriptor number =
     (case boot_slot_lookup number of
        None \<Rightarrow> console_puts (ascii ''slot lookup failed'' @ newline)
      | Some slot \<Rightarrow>
          console_puts (ascii ''slot '') @ console_put_slot number @
          console_puts (ascii '': signed='') @ console_put_hex32 (signed_image_base slot) @
          console_puts (ascii '' payload='') @ console_put_hex32 (payload_base slot) @
          console_puts (ascii '' end='') @ console_put_hex32 (slot_end slot) @
          console_puts (ascii '' max='') @ console_put_u32 (maximum_payload_size slot) @
          console_puts (ascii '' sectors='') @ console_put_u32 (first_sector slot) @
          console_puts (ascii ''..'') @ console_put_u32 (last_sector slot) @ console_puts newline)"

definition print_reset_flag :: "string \<Rightarrow> bool \<Rightarrow> bytes list" where
  "print_reset_flag name value =
     console_puts (ascii name) @ console_puts (ascii ''='') @ console_put_bool value @ console_puts newline"

definition command_help :: "bytes list" where
  "command_help =
     console_puts (ascii ''commands: help version info slots metadata flashinfo resetcause performance status boot reboot recovery'' @
       newline)"

definition command_version :: "('w, 'r, 'x) diagnostic_console_config \<Rightarrow> bytes list" where
  "command_version config =
     console_puts (ascii ''bootloader=EXP045 V2'' @ newline) @ console_puts (ascii ''board='') @
     console_puts (case cc_board_name config of None \<Rightarrow> ascii ''STM32F429IGT6 Lab Board'' | Some name \<Rightarrow> name) @
     console_puts (newline @ ascii ''layout='') @ console_puts (ascii ''stm32f429_1m'') @
     console_puts (newline @ ascii ''protocol='') @ console_put_u32 (ucast UPDATE_PROTOCOL_VERSION) @
     console_puts (newline @ ascii ''package='') @ console_put_u32 2 @
     console_puts (newline @ ascii ''min-image-version='') @ console_put_u32 2 @ console_puts newline"

definition command_info :: "bytes list" where
  "command_info =
     console_puts (ascii ''cpu-hz='') @ console_put_u32 board_clock_get_sysclk_hz @
     console_puts (newline @ ascii ''flash-base='') @ console_put_hex32 FLASH_BASE @
     console_puts (newline @ ascii ''flash-end='') @ console_put_hex32 FLASH_END @
     console_puts (newline @ ascii ''bootloader-end='') @ console_put_hex32 BOOTLOADER_END @
     console_puts (newline @ ascii ''app-base='') @ console_put_hex32 APPLICATION_BASE_ADDRESS @ console_puts newline"

definition command_slots :: "bytes list" where
  "command_slots = print_slot_descriptor (slot_num BOOT_SLOT_A) @ print_slot_descriptor (slot_num BOOT_SLOT_B)"

definition print_selected_copy :: "boot_metadata_copy \<Rightarrow> bytes list" where
  "print_selected_copy copy =
     console_puts (case copy of BOOT_METADATA_COPY_A \<Rightarrow> ascii ''A'' | BOOT_METADATA_COPY_B \<Rightarrow> ascii ''B''
                   | BOOT_METADATA_COPY_NONE \<Rightarrow> ascii ''none'')"

definition command_metadata :: "('w, 'r, 'x) diagnostic_console_config \<Rightarrow> host_context \<Rightarrow> bytes list" where
  "command_metadata config c =
     (case cc_flash config of
        None \<Rightarrow> console_puts (ascii ''metadata-status=flash-unavailable'' @ newline)
      | Some flash \<Rightarrow>
          (let (status, found) = boot_metadata_recover_from_flash flash c;
               (r, recovery) = (case found of None \<Rightarrow> (boot_metadata_empty, no_recovery) | Some p \<Rightarrow> p)
           in console_puts (ascii ''metadata-status='') @ console_puts (boot_metadata_status_text status) @
              console_puts (newline @ ascii ''copy-a-valid='') @ console_put_bool (copy_a_valid recovery) @
              console_puts (newline @ ascii ''copy-b-valid='') @ console_put_bool (copy_b_valid recovery) @
              console_puts (newline @ ascii ''selected-copy='') @ print_selected_copy (selected_copy recovery) @
              console_puts (newline @ ascii ''sequence='') @ console_put_u32 (sequence r) @
              console_puts (newline @ ascii ''state='') @ console_puts (boot_metadata_state_text (state r)) @
              console_puts (newline @ ascii ''active-slot='') @ console_put_slot (active_slot r) @
              console_puts (newline @ ascii ''candidate-slot='') @ console_put_slot (candidate_slot r) @
              console_puts (newline @ ascii ''candidate-version='') @ console_put_u32 (candidate_image_version r) @
              console_puts (newline @ ascii ''attempts='') @ console_put_u32 (boot_attempt_count r) @
              console_puts (newline @ ascii ''confirmed='') @
              console_put_bool ((ucast (confirmation_state r) :: u8) \<noteq> 0) @
              console_puts (newline @ ascii ''result='') @ console_put_hex32 (result_code r) @ console_puts newline))"

definition command_flashinfo :: "bytes list" where
  "command_flashinfo =
     console_puts (ascii ''flash-size='') @ console_put_u32 (of_nat FLASH_TOTAL_SIZE) @
     console_puts (newline @ ascii ''sector-count='') @ console_put_u32 12 @
     console_puts (newline @ ascii ''metadata-a='') @ console_put_hex32 BOOT_METADATA_A_BASE @
     console_puts (ascii ''..'') @ console_put_hex32 BOOT_METADATA_A_END @
     console_puts (newline @ ascii ''metadata-b='') @ console_put_hex32 BOOT_METADATA_B_BASE @
     console_puts (ascii ''..'') @ console_put_hex32 BOOT_METADATA_B_END @
     console_puts (newline @ ascii ''recovery='') @ console_put_hex32 RECOVERY_BASE @
     console_puts (ascii ''..'') @ console_put_hex32 RECOVERY_END @ console_puts newline"

definition command_resetcause :: "('w, 'r, 'x) diagnostic_console_config \<Rightarrow> bytes list" where
  "command_resetcause config =
     (case cc_reset_cause config of
        None \<Rightarrow> console_puts (ascii ''resetcause=unavailable'' @ newline)
      | Some cause \<Rightarrow>
          console_puts (ascii ''raw='') @ console_put_hex32 (raw_csr cause) @ console_puts newline @
          print_reset_flag ''low-power'' (low_power_reset cause) @
          print_reset_flag ''window-watchdog'' (window_watchdog_reset cause) @
          print_reset_flag ''independent-watchdog'' (independent_watchdog_reset cause) @
          print_reset_flag ''software'' (software_reset cause) @
          print_reset_flag ''power-on'' (power_on_reset cause) @
          print_reset_flag ''pin'' (pin_reset cause) @
          print_reset_flag ''brownout'' (brownout_reset cause))"

definition command_performance :: "('w, 'r, 'x) diagnostic_console_config \<Rightarrow> bytes list" where
  "command_performance config =
     console_puts (ascii ''cpu-hz='') @ console_put_u32 board_clock_get_sysclk_hz @
     console_puts (newline @ ascii ''sha512-us='') @ console_put_u32 (performance_sha512_us (cc_performance config)) @
     console_puts (newline @ ascii ''ed25519-us='') @ console_put_u32 (performance_ed25519_us (cc_performance config)) @
     console_puts (newline @ ascii ''verify-us='') @
     console_put_u32 (performance_verification_us (cc_performance config)) @ console_puts newline"

definition command_status :: "diagnostic_console \<Rightarrow> bytes list" where
  "command_status console =
     console_puts (ascii ''console=ready'' @ newline @ ascii ''commands='') @
     console_put_u32 (dc_command_count console) @ console_puts (newline @ ascii ''readonly=yes'' @ newline)"

section \<open>Lines\<close>

definition diagnostic_console_init :: diagnostic_console where
  "diagnostic_console_init =
     \<lparr>dc_line = replicate (DIAGNOSTIC_CONSOLE_MAX_LINE_LENGTH + 1) 0, dc_line_length = 0, dc_command_count = 0,
      dc_overflowed = False, dc_boot_requested = False\<rparr>"

definition config_timeout :: "('w, 'r, 'x) diagnostic_console_config \<Rightarrow> u32" where
  "config_timeout config =
     (if cc_idle_timeout_polls config \<noteq> 0 then cc_idle_timeout_polls config
      else DIAGNOSTIC_CONSOLE_DEFAULT_IDLE_TIMEOUT_POLLS)"

text \<open>The initial line is given up to its NUL; one that does not fit is dropped after 64 stored bytes.\<close>

definition copy_initial_line :: "diagnostic_console \<Rightarrow> bytes \<Rightarrow> diagnostic_console" where
  "copy_initial_line console initial =
     (let n = length initial
      in if n > DIAGNOSTIC_CONSOLE_MAX_LINE_LENGTH
         then console\<lparr>dc_line := (bytes_write 0 (take DIAGNOSTIC_CONSOLE_MAX_LINE_LENGTH initial) (dc_line console))[0 := 0],
                      dc_line_length := 0, dc_overflowed := True\<rparr>
         else console\<lparr>dc_line := (bytes_write 0 initial (dc_line console))[n := 0],
                      dc_line_length := n, dc_overflowed := False\<rparr>)"

text \<open>The commands that only print; the three others are told apart before them, as all names differ.\<close>

definition query_output ::
    "('w, 'r, 'x) diagnostic_console_config \<Rightarrow> host_context \<Rightarrow> diagnostic_console \<Rightarrow> bytes \<Rightarrow> bytes list" where
  "query_output config c console name =
     (if str_equal name (ascii ''help'') then command_help
      else if str_equal name (ascii ''version'') then command_version config
      else if str_equal name (ascii ''info'') then command_info
      else if str_equal name (ascii ''slots'') then command_slots
      else if str_equal name (ascii ''metadata'') then command_metadata config c
      else if str_equal name (ascii ''flashinfo'') then command_flashinfo
      else if str_equal name (ascii ''resetcause'') then command_resetcause config
      else if str_equal name (ascii ''performance'') then command_performance config
      else if str_equal name (ascii ''status'') then command_status console
      else console_puts (ascii ''ERR unknown'' @ newline))"

type_synonym ('w, 'x) line_outcome = "diagnostic_console_result \<times> diagnostic_console \<times> 'w \<times> 'x"

definition line_answer ::
    "('w, 'r, 'x) diagnostic_console_config \<Rightarrow> bytes list \<Rightarrow> diagnostic_console_result \<Rightarrow> diagnostic_console \<Rightarrow>
     'w \<Rightarrow> ('w, 'x) line_outcome" where
  "line_answer config out result console w =
     (case console_write (cc_write config) out w of
        (ok, w') \<Rightarrow> (if ok then result else DIAGNOSTIC_CONSOLE_RESULT_IO_ERROR, console, w', cc_reset_context config))"

definition execute_line ::
    "('w, 'r, 'x) diagnostic_console_config \<Rightarrow> host_context \<Rightarrow> diagnostic_console \<Rightarrow> 'w \<Rightarrow> ('w, 'x) line_outcome" where
  "execute_line config c console w =
     (if dc_overflowed console
      then line_answer config (console_puts (ascii ''ERR line-too-long'' @ newline))
             DIAGNOSTIC_CONSOLE_RESULT_BOOT_CONTINUE
             (console\<lparr>dc_overflowed := False, dc_line_length := 0, dc_line := (dc_line console)[0 := 0]\<rparr>) w
      else case tokenize (dc_line console) of
        (argv, too_many, line') \<Rightarrow>
          (let console1 = console\<lparr>dc_line := line', dc_line_length := 0\<rparr>
           in if argv = []
              then (DIAGNOSTIC_CONSOLE_RESULT_BOOT_CONTINUE, console1, w, cc_reset_context config)
              else
                let console2 = console1\<lparr>dc_command_count := dc_command_count console1 + 1\<rparr>;
                    name = hd argv
                in if too_many \<or> length argv \<noteq> 1
                   then line_answer config (console_puts (ascii ''ERR args'' @ newline))
                          DIAGNOSTIC_CONSOLE_RESULT_BOOT_CONTINUE console2 w
                   else if str_equal name (ascii ''boot'')
                   then line_answer config (console_puts (ascii ''boot'' @ newline))
                          DIAGNOSTIC_CONSOLE_RESULT_BOOT_CONTINUE (console2\<lparr>dc_boot_requested := True\<rparr>) w
                   else if str_equal name (ascii ''reboot'')
                   then (case line_answer config (console_puts (ascii ''reboot'' @ newline))
                                DIAGNOSTIC_CONSOLE_RESULT_RESET_REQUESTED console2 w of
                           (result, console3, w', x) \<Rightarrow>
                             (result, console3, w',
                              if result = DIAGNOSTIC_CONSOLE_RESULT_RESET_REQUESTED
                              then (case cc_reset config of None \<Rightarrow> x | Some f \<Rightarrow> f x) else x))
                   else if str_equal name (ascii ''recovery'')
                   then line_answer config (console_puts (ascii ''recovery'' @ newline))
                          DIAGNOSTIC_CONSOLE_RESULT_RECOVERY_REQUESTED console2 w
                   else line_answer config (query_output config c console2 name)
                          DIAGNOSTIC_CONSOLE_RESULT_BOOT_CONTINUE console2 w))"

text \<open>
  One byte of \<^verbatim>\<open>read_line\<close>: \<open>Inl\<close> the console to go on with, or \<open>Inr\<close> the end of the line.
\<close>

definition store_char :: "diagnostic_console \<Rightarrow> u8 \<Rightarrow> diagnostic_console" where
  "store_char console b =
     (let n = dc_line_length console
      in if n \<ge> DIAGNOSTIC_CONSOLE_MAX_LINE_LENGTH then console\<lparr>dc_overflowed := True\<rparr>
         else console\<lparr>dc_line := (dc_line console)[n := b, Suc n := 0], dc_line_length := Suc n\<rparr>)"

definition read_byte ::
    "('w, 'r, 'x) diagnostic_console_config \<Rightarrow> u8 \<Rightarrow> diagnostic_console \<Rightarrow> 'w \<Rightarrow>
     diagnostic_console + line_status \<times> diagnostic_console \<times> 'w" where
  "read_byte config b console w =
     (let n = dc_line_length console
      in if b = 0x0D \<or> b = 0x0A
         then Inr (LINE_STATUS_READY, console\<lparr>dc_line := (dc_line console)[n := 0]\<rparr>, w)
         else if b = 0x08 \<or> b = 0x7F
         then Inl (if n \<noteq> 0 then console\<lparr>dc_line := (dc_line console)[n - 1 := 0], dc_line_length := n - 1\<rparr>
                   else console)
         else if b = 0x09 then Inl (store_char console 0x20)
         else if b < 0x20 \<or> b > 0x7E
         then (case console_write (cc_write config) (console_puts (ascii ''ERR control'' @ newline)) w of
                 (ok, w') \<Rightarrow> Inr (if ok then LINE_STATUS_READY else LINE_STATUS_IO_ERROR,
                                  console\<lparr>dc_line_length := 0, dc_line := (dc_line console)[0 := 0],
                                          dc_overflowed := False\<rparr>, w'))
         else Inl (store_char console b))"

partial_function (option) read_line ::
    "('w, 'r, 'x) diagnostic_console_config \<Rightarrow> diagnostic_console \<Rightarrow> 'w \<Rightarrow> 'r \<Rightarrow>
     (line_status \<times> diagnostic_console \<times> 'w \<times> 'r) option" where
  [code]: "read_line config console w r =
     (case byte_reader_getc_timeout (cc_reader config) r (config_timeout config) of
        (status, b, r1) \<Rightarrow>
          if status = BYTE_READER_TIMEOUT then Some (LINE_STATUS_TIMEOUT, console, w, r1)
          else if status \<noteq> BYTE_READER_OK then Some (LINE_STATUS_IO_ERROR, console, w, r1)
          else (case read_byte config b console w of
                  Inl console1 \<Rightarrow> read_line config console1 w r1
                | Inr (line, console1, w1) \<Rightarrow> Some (line, console1, w1, r1)))"

section \<open>The console\<close>

type_synonym ('w, 'r, 'x) console_outcome =
  "diagnostic_console_result \<times> diagnostic_console \<times> 'w \<times> 'r \<times> 'x"

partial_function (option) console_loop ::
    "('w, 'r, 'x) diagnostic_console_config \<Rightarrow> host_context \<Rightarrow> diagnostic_console \<Rightarrow> 'w \<Rightarrow> 'r \<Rightarrow>
     ('w, 'r, 'x) console_outcome option" where
  [code]: "console_loop config c console w r =
     (case console_write (cc_write config) (console_puts (ascii ''> '')) w of
        (ok, w1) \<Rightarrow>
          if \<not> ok then Some (DIAGNOSTIC_CONSOLE_RESULT_IO_ERROR, console, w1, r, cc_reset_context config)
          else Option.bind (read_line config console w1 r) (\<lambda>(line_status, console1, w2, r1).
            if line_status = LINE_STATUS_TIMEOUT
            then Some (DIAGNOSTIC_CONSOLE_RESULT_TIMEOUT, console1,
                       snd (console_write (cc_write config) (console_puts (ascii ''timeout'' @ newline)) w2), r1,
                       cc_reset_context config)
            else if line_status \<noteq> LINE_STATUS_READY
            then Some (DIAGNOSTIC_CONSOLE_RESULT_IO_ERROR, console1, w2, r1, cc_reset_context config)
            else (case execute_line config c console1 w2 of
                    (result, console2, w3, x) \<Rightarrow>
                      if result = DIAGNOSTIC_CONSOLE_RESULT_RESET_REQUESTED \<or>
                         result = DIAGNOSTIC_CONSOLE_RESULT_RECOVERY_REQUESTED \<or>
                         result = DIAGNOSTIC_CONSOLE_RESULT_IO_ERROR
                      then Some (result, console2, w3, r1, x)
                      else if dc_boot_requested console2
                      then Some (DIAGNOSTIC_CONSOLE_RESULT_BOOT_CONTINUE, console2, w3, r1, x)
                      else console_loop config c console2 w3 r1)))"

definition diagnostic_console_run ::
    "('w, 'r, 'x) diagnostic_console_config \<Rightarrow> host_context \<Rightarrow> bytes option \<Rightarrow> 'w \<Rightarrow> 'r \<Rightarrow>
     ('w, 'r, 'x) console_outcome option" where
  "diagnostic_console_run config c initial_line w r =
     (case console_write (cc_write config) (console_puts (ascii ''diagnostic console readonly'' @ newline)) w of
        (ok, w1) \<Rightarrow>
          if \<not> ok
          then Some (DIAGNOSTIC_CONSOLE_RESULT_IO_ERROR, diagnostic_console_init, w1, r, cc_reset_context config)
          else case initial_line of
            None \<Rightarrow> console_loop config c diagnostic_console_init w1 r
          | Some line \<Rightarrow>
              (case execute_line config c (copy_initial_line diagnostic_console_init line) w1 of
                 (result, console, w2, x) \<Rightarrow>
                   if result = DIAGNOSTIC_CONSOLE_RESULT_RESET_REQUESTED \<or>
                      result = DIAGNOSTIC_CONSOLE_RESULT_RECOVERY_REQUESTED \<or>
                      dc_boot_requested console \<or> result = DIAGNOSTIC_CONSOLE_RESULT_IO_ERROR
                   then Some (result, console, w2, r, x)
                   else console_loop config c console w2 r))"

end
