(* ===== verification/Console_Properties.thy ===== *)
theory Console_Properties
  imports Diagnostic_Console Update_Service_Safety
begin

text \<open>
  The console keeps to its line buffer and edits lines as a user expects, prints numbers exactly,
  acts only on the three commands that mean to, and ends when the host falls silent.
\<close>

section \<open>Numbers\<close>

definition decimal_value :: "bytes \<Rightarrow> nat" where
  "decimal_value ds = foldl (\<lambda>n d. n * 10 + (unat d - 0x30)) 0 ds"

lemma decimal_value_snoc [simp]: "decimal_value (ds @ [d]) = decimal_value ds * 10 + (unat d - 0x30)"
  by (simp add: decimal_value_def)

lemma digit_value: "unat ((0x30 :: u8) + ucast (v mod 10 :: u32)) = 0x30 + unat v mod 10"
proof -
  have "unat (v mod 10) < 10" by (simp add: unat_mod)
  then have "unat (ucast (v mod 10) :: u8) = unat v mod 10"
    by (simp add: unsigned_ucast_eq unat_mod take_bit_nat_eq_self_iff)
  then show ?thesis by (simp add: unat_word_ariths)
qed

lemma u32_digits_value: "unat v < 10 ^ n \<Longrightarrow> decimal_value (rev (u32_digits n v)) = unat v"
proof (induction n arbitrary: v)
  case 0
  then show ?case by (simp add: decimal_value_def)
next
  case (Suc n)
  have "unat (v div 10) < 10 ^ n" using Suc.prems by (simp add: unat_div less_mult_imp_div_less)
  from Suc.IH [OF this] show ?case
    by (simp add: digit_value unat_div) (simp add: decimal_value_def)
qed

lemma u32_digits_range: "d \<in> set (u32_digits n v) \<Longrightarrow> 0x30 \<le> unat d \<and> unat d \<le> 0x39"
proof (induction n arbitrary: v)
  case (Suc n)
  have "unat v mod 10 \<le> 9" by simp
  with Suc show ?case by (auto simp: digit_value split: if_splits)
qed simp

lemma concat_singletons: "concat (map (\<lambda>d. [d]) xs) = xs"
  by (induction xs) simp_all

lemma put_u32_value: "decimal_value (concat (console_put_u32 v)) = unat v"
proof (cases "v = 0")
  case True
  then show ?thesis by (simp add: console_put_u32_def console_puts_def ascii_def decimal_value_def)
next
  case False
  have "unat v < 10 ^ 10" using u32_unat_bound [of v] by simp
  from u32_digits_value [OF this] False show ?thesis by (simp add: console_put_u32_def concat_singletons)
qed

section \<open>Words\<close>

lemma str_equal_iff [simp]: "str_equal xs ys \<longleftrightarrow> xs = ys"
  by (induction xs ys rule: str_equal.induct) auto

fun split_spaces :: "bytes \<Rightarrow> bytes list" where
  "split_spaces [] = [[]]"
| "split_spaces (c # cs) =
     (if is_space c then [] # split_spaces cs else (c # hd (split_spaces cs)) # tl (split_spaces cs))"

definition command_words :: "bytes \<Rightarrow> bytes list" where
  "command_words text = filter (\<lambda>w. w \<noteq> []) (split_spaces text)"

lemma split_spaces_nonempty [simp]: "split_spaces xs \<noteq> []"
  by (induction xs) simp_all

lemma split_spaces_word:
  "hd (split_spaces xs) = takeWhile (\<lambda>c. \<not> is_space c) xs"
  "tl (split_spaces xs) = (case dropWhile (\<lambda>c. \<not> is_space c) xs of [] \<Rightarrow> [] | _ # ys \<Rightarrow> split_spaces ys)"
  by (induction xs) simp_all

lemma command_words_skip: "command_words (dropWhile is_space xs) = command_words xs"
  by (induction xs) (simp_all add: command_words_def)

lemma command_words_word:
  assumes "xs \<noteq> []" "\<not> is_space (hd xs)"
  shows "command_words xs = takeWhile (\<lambda>c. \<not> is_space c) xs # command_words (dropWhile (\<lambda>c. \<not> is_space c) xs)"
proof -
  have split: "split_spaces xs = takeWhile (\<lambda>c. \<not> is_space c) xs # tl (split_spaces xs)"
    by (metis list.collapse split_spaces_nonempty split_spaces_word(1))
  have ne: "takeWhile (\<lambda>c. \<not> is_space c) xs \<noteq> []" using assms by (cases xs) simp_all
  show ?thesis
  proof (cases "dropWhile (\<lambda>c. \<not> is_space c) xs")
    case Nil
    have "command_words (dropWhile (\<lambda>c. \<not> is_space c) xs) = []" unfolding Nil by (simp add: command_words_def)
    moreover have "split_spaces xs = [takeWhile (\<lambda>c. \<not> is_space c) xs]"
      using split split_spaces_word(2) [of xs] unfolding Nil by simp
    ultimately show ?thesis using ne by (simp add: command_words_def [of xs])
  next
    case (Cons y ys)
    then have "is_space y" by (metis dropWhile_eq_Cons_conv)
    with split ne Cons show ?thesis by (simp add: command_words_def split_spaces_word(2))
  qed
qed

lemma tokenize_loop_words:
  "fst (tokenize_loop count xs) = take (4 - count) (command_words xs) \<and>
   fst (snd (tokenize_loop count xs)) = (4 - count < length (command_words xs))"
proof (induction count xs rule: tokenize_loop.induct)
  case (1 count xs)
  let ?w = "dropWhile is_space xs" and ?rest = "dropWhile (\<lambda>c. \<not> is_space c) (dropWhile is_space xs)"
  have skip: "command_words xs = command_words ?w" by (simp only: command_words_skip)
  have empty: "command_words [] = []" by (simp add: command_words_def)
  note unfold = tokenize_loop.simps [of count xs]
  consider "xs = []" | "xs \<noteq> []" "?w = []" | "xs \<noteq> []" "?w \<noteq> []" "count \<ge> 4" | "xs \<noteq> []" "?w \<noteq> []" "count < 4" by linarith
  then show ?case
  proof cases
    case 1
    then show ?thesis by (subst (1 2) unfold) (simp add: empty)
  next
    case 2
    have "command_words xs = []" unfolding skip 2(2) by (rule empty)
    with 2 show ?thesis by (subst (1 2) unfold) (simp add: Let_def)
  next
    case 3
    from command_words_word [OF 3(2) hd_dropWhile [OF 3(2)]] skip have "command_words xs \<noteq> []" by simp
    with 3 show ?thesis by (subst (1 2) unfold) (simp add: Let_def)
  next
    case 4
    have ih: "fst (tokenize_loop (Suc count) ?rest) = take (4 - Suc count) (command_words ?rest) \<and>
       fst (snd (tokenize_loop (Suc count) ?rest)) = (4 - Suc count < length (command_words ?rest))"
      by (rule "1.IH") (use 4 in simp_all)
    note w = skip [unfolded command_words_word [OF 4(2) hd_dropWhile [OF 4(2)]]]
    obtain k where k: "4 - count = Suc k" "4 - Suc count = k" using 4(3) by (cases "4 - count") auto
    from 4 ih k show ?thesis unfolding w
      by (subst (1 2) unfold) (simp add: Let_def case_prod_unfold)
  qed
qed

section \<open>Commands\<close>

definition line_words :: "diagnostic_console \<Rightarrow> bytes list" where
  "line_words console = (if dc_overflowed console then [] else command_words (c_string (dc_line console)))"

definition line_result :: "bytes list \<Rightarrow> diagnostic_console_result" where
  "line_result ws =
     (if ws = [ascii ''reboot''] then DIAGNOSTIC_CONSOLE_RESULT_RESET_REQUESTED
      else if ws = [ascii ''recovery''] then DIAGNOSTIC_CONSOLE_RESULT_RECOVERY_REQUESTED
      else DIAGNOSTIC_CONSOLE_RESULT_BOOT_CONTINUE)"

lemma names_differ: "ascii ''boot'' \<noteq> ascii ''reboot''" "ascii ''boot'' \<noteq> ascii ''recovery''"
  "ascii ''reboot'' \<noteq> ascii ''recovery''"
  by (auto simp: ascii_def dest: arg_cong [where f = length])

lemma console_write_ok: "(\<forall>w d. fst (wr w d)) \<Longrightarrow> fst (console_write wr ds w)"
  by (induction ds arbitrary: w) (auto simp: case_prod_unfold)

lemma tokenize_words:
  assumes "tokenize line = (argv, too_many, line')"
  shows "argv = take 4 (command_words (c_string line))" "too_many = (4 < length (command_words (c_string line)))"
  using assms tokenize_loop_words [of 0 "c_string line"] by (auto simp: tokenize_def case_prod_unfold)

text \<open>A writer accepts all pieces of an output, one after the other.\<close>

fun accepted :: "('w \<Rightarrow> bytes \<Rightarrow> bool \<times> 'w) \<Rightarrow> bytes list \<Rightarrow> 'w \<Rightarrow> 'w \<Rightarrow> bool" where
  "accepted wr [] w w' \<longleftrightarrow> w' = w"
| "accepted wr (d # ds) w w' \<longleftrightarrow> (\<exists>w1. wr w d = (True, w1) \<and> accepted wr ds w1 w')"

text \<open>A writer accepts some pieces of an output and refuses the next one.\<close>

definition write_failed :: "('w \<Rightarrow> bytes \<Rightarrow> bool \<times> 'w) \<Rightarrow> bytes list \<Rightarrow> 'w \<Rightarrow> 'w \<Rightarrow> bool" where
  "write_failed wr out w w' \<longleftrightarrow>
     (\<exists>ds d rest w1. out = ds @ d # rest \<and> accepted wr ds w w1 \<and> wr w1 d = (False, w'))"

lemma write_failed_Cons:
  "write_failed wr (d # ds) w w' \<longleftrightarrow> wr w d = (False, w') \<or> (\<exists>w1. wr w d = (True, w1) \<and> write_failed wr ds w1 w')"
proof
  assume "write_failed wr (d # ds) w w'"
  then obtain xs x rest w1 where *: "d # ds = xs @ x # rest" "accepted wr xs w w1" "wr w1 x = (False, w')"
    by (auto simp: write_failed_def)
  show "wr w d = (False, w') \<or> (\<exists>w1. wr w d = (True, w1) \<and> write_failed wr ds w1 w')"
  proof (cases xs)
    case (Cons y ys)
    with * show ?thesis by (auto simp: write_failed_def)
  qed (use * in simp)
next
  assume "wr w d = (False, w') \<or> (\<exists>w1. wr w d = (True, w1) \<and> write_failed wr ds w1 w')"
  then show "write_failed wr (d # ds) w w'"
  proof
    assume "wr w d = (False, w')"
    then show ?thesis unfolding write_failed_def by (intro exI [of _ "[]"] exI [of _ d] exI [of _ ds] exI [of _ w]) simp
  next
    assume "\<exists>w1. wr w d = (True, w1) \<and> write_failed wr ds w1 w'"
    then obtain w1 xs x rest w2 where "wr w d = (True, w1)" "ds = xs @ x # rest" "accepted wr xs w1 w2" "wr w2 x = (False, w')"
      by (auto simp: write_failed_def)
    then show ?thesis unfolding write_failed_def
      by (intro exI [of _ "d # xs"] exI [of _ x] exI [of _ rest] exI [of _ w2]) auto
  qed
qed

lemma console_write_iff:
  "console_write wr ds w = (True, w') \<longleftrightarrow> accepted wr ds w w'"
  "console_write wr ds w = (False, w') \<longleftrightarrow> write_failed wr ds w w'"
proof (induction ds arbitrary: w)
  case Nil
  { case 1 then show ?case by auto }
  { case 2 then show ?case by (simp add: write_failed_def) }
next
  case (Cons d ds)
  { case 1 with Cons.IH(1) show ?case by (auto split: prod.splits) }
  { case 2 with Cons.IH(2) show ?case by (auto simp: write_failed_Cons split: prod.splits) }
qed

text \<open>
  The answer to a line in terms of its words: the echo of an acting command, an error text, or the
  report of a query.
\<close>

definition acting_names :: "bytes list" where
  "acting_names = [ascii ''boot'', ascii ''reboot'', ascii ''recovery'']"

definition line_output ::
    "('w, 'r, 'x) diagnostic_console_config \<Rightarrow> host_context \<Rightarrow> diagnostic_console \<Rightarrow> bytes list" where
  "line_output config c console =
     (if dc_overflowed console then [ascii ''ERR line-too-long'' @ newline]
      else case line_words console of
        [] \<Rightarrow> []
      | [name] \<Rightarrow> if name \<in> set acting_names then [name @ newline]
          else query_output config c (console\<lparr>dc_command_count := dc_command_count console + 1\<rparr>) name
      | _ \<Rightarrow> [ascii ''ERR args'' @ newline])"

lemma query_output_line:
  "query_output config c (console\<lparr>dc_line := l, dc_line_length := n, dc_command_count := k\<rparr>) name =
   query_output config c (console\<lparr>dc_command_count := k\<rparr>) name"
  by (simp add: query_output_def command_status_def)

lemma line_answer_cases:
  assumes "line_answer config out res console w = (result, console', w', x)"
  obtains ok where "console_write (cc_write config) out w = (ok, w')" "console' = console"
    "result = (if ok then res else DIAGNOSTIC_CONSOLE_RESULT_IO_ERROR)" "x = cc_reset_context config"
  using assms by (auto simp: line_answer_def split: prod.splits)

lemma execute_line_cases:
  assumes run: "execute_line config c console w = (result, console', w', x)"
  shows "\<exists>ok. console_write (cc_write config) (line_output config c console) w = (ok, w') \<and>
    result = (if ok then line_result (line_words console) else DIAGNOSTIC_CONSOLE_RESULT_IO_ERROR) \<and>
    dc_boot_requested console' = (dc_boot_requested console \<or> line_words console = [ascii ''boot'']) \<and>
    dc_line_length console' = 0 \<and>
    x = (if result = DIAGNOSTIC_CONSOLE_RESULT_RESET_REQUESTED
         then (case cc_reset config of None \<Rightarrow> cc_reset_context config | Some f \<Rightarrow> f (cc_reset_context config))
         else cc_reset_context config)"
proof (cases "dc_overflowed console")
  case True
  with run have "line_answer config (console_puts (ascii ''ERR line-too-long'' @ newline))
      DIAGNOSTIC_CONSOLE_RESULT_BOOT_CONTINUE
      (console\<lparr>dc_overflowed := False, dc_line_length := 0, dc_line := (dc_line console)[0 := 0]\<rparr>) w =
    (result, console', w', x)" by (simp add: execute_line_def)
  then obtain ok where
    "console_write (cc_write config) (console_puts (ascii ''ERR line-too-long'' @ newline)) w = (ok, w')"
    "console' = console\<lparr>dc_overflowed := False, dc_line_length := 0, dc_line := (dc_line console)[0 := 0]\<rparr>"
    "result = (if ok then DIAGNOSTIC_CONSOLE_RESULT_BOOT_CONTINUE else DIAGNOSTIC_CONSOLE_RESULT_IO_ERROR)"
    "x = cc_reset_context config" by (rule line_answer_cases)
  moreover have "line_output config c console = console_puts (ascii ''ERR line-too-long'' @ newline)"
    using True by (simp add: line_output_def console_puts_def)
  ultimately show ?thesis using True by (intro exI [of _ ok]) (simp add: line_words_def line_result_def)
next
  case False
  obtain argv tm line' where tok: "tokenize (dc_line console) = (argv, tm, line')" by (metis prod_cases3)
  let ?ws = "command_words (c_string (dc_line console))"
  have ws: "line_words console = ?ws" using False by (simp add: line_words_def)
  note t = tokenize_words [OF tok]
  note unfolded = run [unfolded execute_line_def tok Let_def prod.case]
  consider "?ws = []" | name where "?ws = [name]" | a b zs where "?ws = a # b # zs"
    by (metis list.exhaust)
  then show ?thesis
  proof cases
    case 1
    then have "argv = []" using t by simp
    with unfolded False have "result = DIAGNOSTIC_CONSOLE_RESULT_BOOT_CONTINUE" "x = cc_reset_context config" "w' = w"
      "dc_boot_requested console' = dc_boot_requested console" "dc_line_length console' = 0" by auto
    with 1 ws False show ?thesis
      by (intro exI [of _ True]) (simp add: line_result_def line_output_def)
  next
    case (2 name)
    then have argv: "argv = [name]" "\<not> tm" using t by simp_all
    let ?out = "if name \<in> set acting_names then console_puts (name @ newline)
      else query_output config c (console\<lparr>dc_line := line', dc_line_length := 0,
        dc_command_count := dc_command_count console + 1\<rparr>) name"
    let ?res = "line_result [name]"
    have answer: "line_output config c console = ?out"
      unfolding query_output_line using False 2 ws by (simp add: line_output_def console_puts_def)
    from argv unfolded False names_differ obtain console2 x1 where
      ans: "line_answer config ?out ?res console2 w = (result, console', w', x1)"
      and flags: "dc_boot_requested console2 = (dc_boot_requested console \<or> name = ascii ''boot'')"
        "dc_line_length console2 = 0"
      and x: "x = (if result = DIAGNOSTIC_CONSOLE_RESULT_RESET_REQUESTED
        then (case cc_reset config of None \<Rightarrow> x1 | Some f \<Rightarrow> f x1) else x1)"
      by (cases "name = ascii ''boot''"; cases "name = ascii ''reboot''"; cases "name = ascii ''recovery''")
        (fastforce simp: acting_names_def line_result_def line_answer_def split: prod.splits if_splits)+
    from ans obtain ok where "console_write (cc_write config) ?out w = (ok, w')" "console' = console2"
      "result = (if ok then ?res else DIAGNOSTIC_CONSOLE_RESULT_IO_ERROR)" "x1 = cc_reset_context config"
      by (rule line_answer_cases)
    with flags x 2 ws show ?thesis unfolding answer by (intro exI [of _ ok]) (simp split: option.split)
  next
    case (3 a b zs)
    then have "argv \<noteq> []" "length argv \<noteq> 1" using t by simp_all
    with unfolded False have "line_answer config (console_puts (ascii ''ERR args'' @ newline))
        DIAGNOSTIC_CONSOLE_RESULT_BOOT_CONTINUE (console\<lparr>dc_line := line', dc_line_length := 0,
          dc_command_count := dc_command_count console + 1\<rparr>) w = (result, console', w', x)" by simp
    then obtain ok where "console_write (cc_write config) (console_puts (ascii ''ERR args'' @ newline)) w = (ok, w')"
      "console' = console\<lparr>dc_line := line', dc_line_length := 0, dc_command_count := dc_command_count console + 1\<rparr>"
      "result = (if ok then DIAGNOSTIC_CONSOLE_RESULT_BOOT_CONTINUE else DIAGNOSTIC_CONSOLE_RESULT_IO_ERROR)"
      "x = cc_reset_context config" by (rule line_answer_cases)
    moreover have "line_output config c console = console_puts (ascii ''ERR args'' @ newline)"
      using False 3 ws by (simp add: line_output_def console_puts_def)
    ultimately show ?thesis using 3 ws by (intro exI [of _ ok]) (simp add: line_result_def)
  qed
qed

section \<open>Line editing\<close>

text \<open>The line buffer: a text of at most 64 bytes, terminated inside the buffer.\<close>

definition console_wf :: "diagnostic_console \<Rightarrow> bool" where
  "console_wf console \<longleftrightarrow>
     length (dc_line console) = 65 \<and> dc_line_length console \<le> 64 \<and>
     0 \<notin> set (take (dc_line_length console) (dc_line console)) \<and> dc_line console ! dc_line_length console = 0"

definition edited_line :: "diagnostic_console \<Rightarrow> bytes \<times> bool" where
  "edited_line console = (take (dc_line_length console) (dc_line console), dc_overflowed console)"

text \<open>What a key does to the text and its overflow mark.\<close>

definition edit_key :: "bytes \<times> bool \<Rightarrow> u8 \<Rightarrow> bytes \<times> bool" where
  "edit_key t b =
     (if b = 0x08 \<or> b = 0x7F then (butlast (fst t), snd t)
      else if length (fst t) \<ge> 64 then (fst t, True)
      else (fst t @ [if b = 0x09 then 0x20 else b], snd t))"

definition line_key :: "u8 \<Rightarrow> bool" where
  "line_key b \<longleftrightarrow> b = 0x08 \<or> b = 0x7F \<or> b = 0x09 \<or> (0x20 \<le> b \<and> b \<le> 0x7E)"

lemma c_string_edited:
  assumes "console_wf console"
  shows "c_string (dc_line console) = fst (edited_line console)"
proof -
  let ?n = "dc_line_length console" and ?l = "dc_line console"
  have n: "?n < length ?l" and z: "?l ! ?n = 0" and nz: "0 \<notin> set (take ?n ?l)"
    using assms by (simp_all add: console_wf_def)
  have "c_string (take ?n ?l @ ?l ! ?n # drop (Suc ?n) ?l) = take ?n ?l"
    unfolding c_string_def by (subst takeWhile_append2) (use z nz in auto)
  then show ?thesis using id_take_nth_drop [OF n] by (simp add: edited_line_def)
qed

text \<open>The sequence of bytes that a source delivers, each within the timeout.\<close>

fun delivers :: "'r getc \<Rightarrow> u32 \<Rightarrow> 'r \<Rightarrow> bytes \<Rightarrow> 'r \<Rightarrow> bool" where
  "delivers getc polls r [] r' \<longleftrightarrow> r' = r"
| "delivers getc polls r (b # bs) r' \<longleftrightarrow>
     (\<exists>r1. byte_reader_getc_timeout getc r polls = (BYTE_READER_OK, b, r1) \<and> delivers getc polls r1 bs r')"

lemma store_char_edits:
  assumes wf: "console_wf console" and b: "b \<noteq> 0"
  shows "console_wf (store_char console b)"
    "edited_line (store_char console b) =
      (if length (fst (edited_line console)) \<ge> 64 then (fst (edited_line console), True)
       else (fst (edited_line console) @ [b], snd (edited_line console)))"
proof -
  let ?n = "dc_line_length console" and ?l = "dc_line console"
  have n: "?n \<le> 64" "length ?l = 65" "0 \<notin> set (take ?n ?l)" using wf by (simp_all add: console_wf_def)
  have new: "take (Suc ?n) (?l[?n := b, Suc ?n := 0]) = take ?n ?l @ [b]" if "?n < 64"
    using that n by (simp add: take_Suc_conv_app_nth take_update_cancel)
  show "console_wf (store_char console b)"
    using wf n b new by (auto simp: console_wf_def store_char_def Let_def)
  show "edited_line (store_char console b) =
      (if length (fst (edited_line console)) \<ge> 64 then (fst (edited_line console), True)
       else (fst (edited_line console) @ [b], snd (edited_line console)))"
    using n new by (auto simp: edited_line_def store_char_def Let_def)
qed

lemma read_key_edits:
  assumes wf: "console_wf console" and key: "line_key b"
  shows "\<exists>console'. read_byte config b console w = Inl console' \<and> console_wf console' \<and>
    edited_line console' = edit_key (edited_line console) b"
proof -
  let ?n = "dc_line_length console" and ?l = "dc_line console"
  have n: "?n \<le> 64" "length ?l = 65" "0 \<notin> set (take ?n ?l)" using wf by (simp_all add: console_wf_def)
  have nz: "b \<noteq> 0" and keys: "b \<noteq> 0x0D" "b \<noteq> 0x0A" using key by (auto simp: line_key_def)
  consider "b = 0x08 \<or> b = 0x7F" | "b = 0x09" | "b \<noteq> 0x08" "b \<noteq> 0x7F" "b \<noteq> 0x09" by blast
  then show ?thesis
  proof cases
    case 1
    have "take (?n - 1) (?l[?n - 1 := 0]) = butlast (take ?n ?l)"
      using n by (simp add: take_update_cancel butlast_take)
    moreover have "0 \<notin> set (butlast (take ?n ?l))" using n(3) in_set_butlastD by fastforce
    ultimately show ?thesis using 1 keys wf n
      by (auto simp: read_byte_def Let_def edit_key_def edited_line_def console_wf_def)
  next
    case 2
    then show ?thesis using store_char_edits [OF wf, where b = "0x20"] keys
      by (simp add: read_byte_def Let_def edit_key_def)
  next
    case 3
    then have "0x20 \<le> b" "b \<le> 0x7E" using key by (auto simp: line_key_def)
    with 3 store_char_edits [OF wf nz] keys show ?thesis
      by (auto simp: read_byte_def Let_def edit_key_def not_less)
  qed
qed

lemma read_line_edits:
  assumes "console_wf console" "\<forall>b \<in> set keys. line_key b" and e: "e = 0x0D \<or> e = 0x0A"
    and "delivers (cc_reader config) (config_timeout config) r (keys @ [e]) r'"
  shows "\<exists>console'. read_line config console w r = Some (LINE_STATUS_READY, console', w, r') \<and> console_wf console' \<and>
    edited_line console' = foldl edit_key (edited_line console) keys"
  using assms(1,2,4)
proof (induction keys arbitrary: console r)
  case Nil
  then have src: "byte_reader_getc_timeout (cc_reader config) r (config_timeout config) = (BYTE_READER_OK, e, r')" by simp
  have "(dc_line console)[dc_line_length console := 0] = dc_line console"
    using Nil.prems(1) by (metis console_wf_def list_update_id)
  with src e Nil.prems(1) show ?case
    by (subst read_line.simps) (auto simp: read_byte_def Let_def)
next
  case (Cons b keys)
  then obtain r1 where src: "byte_reader_getc_timeout (cc_reader config) r (config_timeout config) = (BYTE_READER_OK, b, r1)"
    and rest: "delivers (cc_reader config) (config_timeout config) r1 (keys @ [e]) r'" by auto
  from read_key_edits [OF Cons.prems(1), of b] Cons.prems(2) obtain console1 where
    step: "read_byte config b console w = Inl console1" "console_wf console1"
      "edited_line console1 = edit_key (edited_line console) b" by fastforce
  from Cons.IH [OF step(2) _ rest] Cons.prems(2) src step show ?case by (subst read_line.simps) simp
qed

section \<open>The console ends\<close>

lemma read_line_returns:
  assumes src: "source_drains (cc_reader config) m"
  shows "\<exists>st console' w' r'. read_line config console w r = Some (st, console', w', r') \<and> m r' \<le> m r \<and>
    (st = LINE_STATUS_READY \<longrightarrow> m r' < m r)"
proof (induction "m r" arbitrary: console r rule: less_induct)
  case less
  obtain status b r1 where get: "byte_reader_getc_timeout (cc_reader config) r (config_timeout config) = (status, b, r1)"
    by (metis prod_cases3)
  with getc_polls_drains [OF src] have m: "m r1 \<le> m r \<and> (status = BYTE_READER_OK \<longrightarrow> m r1 < m r)"
    unfolding byte_reader_getc_timeout_def by blast
  consider "status \<noteq> BYTE_READER_OK" | console1 where "status = BYTE_READER_OK" "read_byte config b console w = Inl console1"
    | out where "status = BYTE_READER_OK" "read_byte config b console w = Inr out" by (cases "read_byte config b console w") auto
  then show ?case
  proof cases
    case 1
    with get m show ?thesis by (subst read_line.simps) auto
  next
    case (2 console1)
    from less [of r1 console1] 2 m obtain st console' w' r' where
      "read_line config console1 w r1 = Some (st, console', w', r')" "m r' \<le> m r1" "st = LINE_STATUS_READY \<longrightarrow> m r' < m r1"
      by auto
    with get m 2 show ?thesis by (subst read_line.simps) auto
  next
    case (3 out)
    with get m show ?thesis by (subst read_line.simps) (cases out; auto)
  qed
qed

lemma console_loop_returns:
  assumes src: "source_drains (cc_reader config) m"
  shows "\<exists>out. console_loop config c console w r = Some out"
proof (induction "m r" arbitrary: console w r rule: less_induct)
  case less
  obtain ok w1 where wr: "console_write (cc_write config) (console_puts (ascii ''> '')) w = (ok, w1)" by fastforce
  from read_line_returns [OF src, of console w1 r] obtain st console1 w2 r1 where
    rl: "read_line config console w1 r = Some (st, console1, w2, r1)" "st = LINE_STATUS_READY \<longrightarrow> m r1 < m r" by blast
  obtain result console2 w3 x where ex: "execute_line config c console1 w2 = (result, console2, w3, x)" by (metis prod_cases4)
  have again: "st = LINE_STATUS_READY \<Longrightarrow> \<exists>out. console_loop config c console2 w3 r1 = Some out" using less rl(2) by blast
  show ?case
    by (subst console_loop.simps) (use wr rl(1) ex again in \<open>cases st; auto\<close>)
qed

section \<open>Properties\<close>

text \<open>
  The console edits a line as its user does: whatever the console did before, the keys of a line
  (printable characters, tab, backspace and delete) followed by an end of line leave the buffer
  with the text that typing and deleting them gives, cut at 64 characters with the overflow mark
  set; the text is always terminated inside the buffer.
\<close>

theorem line_editor_refines:
  assumes "console_wf console" "\<forall>b \<in> set keys. line_key b" "e = 0x0D \<or> e = 0x0A"
    and "delivers (cc_reader config) (config_timeout config) r (keys @ [e]) r'"
  shows "\<exists>console'. read_line config console w r = Some (LINE_STATUS_READY, console', w, r') \<and> console_wf console' \<and>
    (c_string (dc_line console'), dc_overflowed console') = foldl edit_key (edited_line console) keys"
proof -
  from read_line_edits [OF assms, of w] obtain console' where
    run: "read_line config console w r = Some (LINE_STATUS_READY, console', w, r')" "console_wf console'"
    and line: "edited_line console' = foldl edit_key (edited_line console) keys" by blast
  from c_string_edited [OF run(2)] have "(c_string (dc_line console'), dc_overflowed console') = edited_line console'"
    by (simp add: edited_line_def)
  with run line show ?thesis by auto
qed

text \<open>
  C38. The console acts on its exact commands only: a line that fits requests a reset if its only word
  is reboot, recovery if it is recovery and a boot if it is boot; every other line, with arguments,
  unknown or too long, only prints, and the reset callback is called in no other case. The line is
  answered first (the echo of an acting command, an error text, or the report of a query): its
  result is returned if the writer accepts every piece of the answer, and otherwise, after
  the first piece that is refused, the console ends with an I/O error.
\<close>

theorem console_acts_on_exact_commands:
  assumes run: "execute_line config c console w = (result, console', w', x)"
  shows "(accepted (cc_write config) (line_output config c console) w w' \<and>
       result = line_result (line_words console) \<or>
     write_failed (cc_write config) (line_output config c console) w w' \<and>
       result = DIAGNOSTIC_CONSOLE_RESULT_IO_ERROR) \<and>
    ((\<forall>w d. fst (cc_write config w d)) \<longrightarrow> result = line_result (line_words console)) \<and>
    dc_boot_requested console' = (dc_boot_requested console \<or> line_words console = [ascii ''boot'']) \<and>
    x = (if result = DIAGNOSTIC_CONSOLE_RESULT_RESET_REQUESTED
         then (case cc_reset config of None \<Rightarrow> cc_reset_context config | Some f \<Rightarrow> f (cc_reset_context config))
         else cc_reset_context config)"
proof -
  let ?out = "line_output config c console"
  from execute_line_cases [OF run] obtain ok where
    sent: "console_write (cc_write config) ?out w = (ok, w')"
    and result: "result = (if ok then line_result (line_words console) else DIAGNOSTIC_CONSOLE_RESULT_IO_ERROR)" by blast
  have "accepted (cc_write config) ?out w w' \<and> result = line_result (line_words console) \<or>
      write_failed (cc_write config) ?out w w' \<and> result = DIAGNOSTIC_CONSOLE_RESULT_IO_ERROR"
    using sent result by (cases ok) (simp_all flip: console_write_iff)
  moreover have "(\<forall>w d. fst (cc_write config w d)) \<longrightarrow> result = line_result (line_words console)"
    using result sent console_write_ok [of "cc_write config" ?out w] by auto
  ultimately show ?thesis using execute_line_cases [OF run] by blast
qed

text \<open>
  Numbers are printed exactly: the decimal digits that the console writes for a 32-bit value have
  this value, and ten of them are always enough.
\<close>

theorem decimal_output_exact:
  "decimal_value (concat (console_put_u32 v)) = unat v \<and> length (concat (console_put_u32 v)) \<le> 10 \<and>
   (\<forall>d \<in> set (concat (console_put_u32 v)). 0x30 \<le> unat d \<and> unat d \<le> 0x39)"
proof -
  have "length (u32_digits n v) \<le> n" for n v by (induction n arbitrary: v) simp_all
  then have "length (concat (console_put_u32 v)) \<le> 10"
    by (simp add: console_put_u32_def concat_singletons console_puts_def ascii_def)
  moreover have "\<forall>d \<in> set (concat (console_put_u32 v)). 0x30 \<le> unat d \<and> unat d \<le> 0x39"
    using u32_digits_range [of _ 10 v]
    by (auto simp: console_put_u32_def concat_singletons console_puts_def ascii_def)
  ultimately show ?thesis using put_u32_value by blast
qed

end
