(* ===== verification/Uart_Driver.thy ===== *)
theory Uart_Driver
  imports Update_Service_Safety Platform_Log "HOL-Library.Sublist"
begin

text \<open>
  The UART driver of the boot loader (\<^verbatim>\<open>uart.h\<close>, \<^verbatim>\<open>uart.c\<close>) in its target build. The configuration
  registers are a memory of words. The status and data registers change between two reads, so what
  the hardware answers is a function of the number of the read: \<open>stat\<close> and \<open>dat\<close> for the reads of the
  receiving functions, \<open>stat\<close> for the reads of the sending ones. Each side keeps the number of its reads,
  the sending side also the bytes it has written to the data register. Buffers that are never NULL are
  values, as elsewhere.

  Lemmas: the configuration touches the two pins and USART1 only; the baud rate is right for every
  clock in range; every wait is bounded; a byte is delivered only when the hardware has received
  one without an error; what is sent is the text, with pieces lost only to a transmitter that is not
  ready; a line that falls silent is a source that runs dry.
\<close>

section \<open>Types and registers\<close>

datatype uart_status =
    UART_OK
  | UART_NO_DATA
  | UART_TIMEOUT
  | UART_ERR_INVALID_ARGUMENT
  | UART_ERR_OVERRUN
  | UART_ERR_FRAMING
  | UART_ERR_NOISE
  | UART_ERR_PARITY

abbreviation (input) UART_BAUD_115200 :: u32 where "UART_BAUD_115200 \<equiv> 115200"
abbreviation (input) UART_FLUSH_RX_MAX_DRAINS :: nat where "UART_FLUSH_RX_MAX_DRAINS \<equiv> 1024"
abbreviation (input) UART_TX_READY_MAX_POLLS :: nat where "UART_TX_READY_MAX_POLLS \<equiv> 1000000"
abbreviation (input) BOARD_HSI_HZ :: u32 where "BOARD_HSI_HZ \<equiv> 16000000"

abbreviation (input) USART_SR_PE :: u32 where "USART_SR_PE \<equiv> 1"
abbreviation (input) USART_SR_FE :: u32 where "USART_SR_FE \<equiv> 2"
abbreviation (input) USART_SR_NE :: u32 where "USART_SR_NE \<equiv> 4"
abbreviation (input) USART_SR_ORE :: u32 where "USART_SR_ORE \<equiv> 8"
abbreviation (input) USART_SR_RXNE :: u32 where "USART_SR_RXNE \<equiv> 0x20"
abbreviation (input) USART_SR_TC :: u32 where "USART_SR_TC \<equiv> 0x40"
abbreviation (input) USART_SR_TXE :: u32 where "USART_SR_TXE \<equiv> 0x80"
abbreviation (input) USART_SR_RX_ERROR_MASK :: u32 where "USART_SR_RX_ERROR_MASK \<equiv> 0xF"

abbreviation (input) RCC_AHB1ENR :: u32 where "RCC_AHB1ENR \<equiv> 0x40023830"
abbreviation (input) RCC_APB2ENR :: u32 where "RCC_APB2ENR \<equiv> 0x40023844"
abbreviation (input) GPIOA_MODER :: u32 where "GPIOA_MODER \<equiv> 0x40020000"
abbreviation (input) GPIOA_OTYPER :: u32 where "GPIOA_OTYPER \<equiv> 0x40020004"
abbreviation (input) GPIOA_OSPEEDR :: u32 where "GPIOA_OSPEEDR \<equiv> 0x40020008"
abbreviation (input) GPIOA_PUPDR :: u32 where "GPIOA_PUPDR \<equiv> 0x4002000C"
abbreviation (input) GPIOA_AFRH :: u32 where "GPIOA_AFRH \<equiv> 0x40020024"
abbreviation (input) USART1_BRR :: u32 where "USART1_BRR \<equiv> 0x40011008"
abbreviation (input) USART1_CR1 :: u32 where "USART1_CR1 \<equiv> 0x4001100C"
abbreviation (input) USART1_CR2 :: u32 where "USART1_CR2 \<equiv> 0x40011010"
abbreviation (input) USART1_CR3 :: u32 where "USART1_CR3 \<equiv> 0x40011014"

type_synonym registers = "u32 \<Rightarrow> u32"

record uart_rx =
  rx_sr_reads :: nat
  rx_dr_reads :: nat

record uart_tx =
  tx_sr_reads :: nat
  tx_sent :: bytes

section \<open>Configuration\<close>

definition uart_brr_from_clock :: "u32 \<Rightarrow> u32" where
  "uart_brr_from_clock pclk_hz = (pclk_hz + UART_BAUD_115200 div 2) div UART_BAUD_115200"

definition uart_write_reg :: "u32 \<Rightarrow> u32 \<Rightarrow> registers \<Rightarrow> registers" where
  "uart_write_reg reg v regs = regs(reg := v)"

definition uart_set_bits :: "u32 \<Rightarrow> u32 \<Rightarrow> registers \<Rightarrow> registers" where
  "uart_set_bits reg m regs = uart_write_reg reg (regs reg OR m) regs"

definition uart_clear_bits :: "u32 \<Rightarrow> u32 \<Rightarrow> registers \<Rightarrow> registers" where
  "uart_clear_bits reg m regs = uart_write_reg reg (regs reg AND NOT m) regs"

definition uart_enable_peripheral_clocks :: "registers \<Rightarrow> registers" where
  "uart_enable_peripheral_clocks regs =
     uart_set_bits RCC_APB2ENR (push_bit 4 1) (uart_set_bits RCC_AHB1ENR (push_bit 0 1) regs)"

definition uart_configure_gpio_pa9_pa10 :: "registers \<Rightarrow> registers" where
  "uart_configure_gpio_pa9_pa10 regs =
     (let r1 = uart_clear_bits GPIOA_MODER (push_bit 18 3 OR push_bit 20 3) regs;
          r2 = uart_set_bits GPIOA_MODER (push_bit 18 2 OR push_bit 20 2) r1;
          r3 = uart_clear_bits GPIOA_OTYPER (push_bit 9 1 OR push_bit 10 1) r2;
          r4 = uart_set_bits GPIOA_OSPEEDR (push_bit 18 2 OR push_bit 20 2) r3;
          r5 = uart_clear_bits GPIOA_PUPDR (push_bit 18 3 OR push_bit 20 3) r4;
          r6 = uart_set_bits GPIOA_PUPDR (push_bit 20 1) r5;
          r7 = uart_clear_bits GPIOA_AFRH (push_bit 4 0xF OR push_bit 8 0xF) r6
      in uart_set_bits GPIOA_AFRH (push_bit 4 7 OR push_bit 8 7) r7)"

definition uart_configure_usart1 :: "u32 \<Rightarrow> registers \<Rightarrow> registers" where
  "uart_configure_usart1 pclk_hz regs =
     (let pclk = (if pclk_hz = 0 then BOARD_HSI_HZ else pclk_hz);
          r1 = uart_write_reg USART1_CR1 0 regs;
          r2 = uart_write_reg USART1_CR2 0 r1;
          r3 = uart_write_reg USART1_CR3 0 r2;
          r4 = uart_write_reg USART1_BRR (uart_brr_from_clock pclk) r3
      in uart_write_reg USART1_CR1 (push_bit 13 1 OR push_bit 3 1 OR push_bit 2 1) r4)"

definition uart_init_115200 :: "u32 \<Rightarrow> registers \<Rightarrow> registers" where
  "uart_init_115200 pclk_hz regs =
     uart_configure_usart1 pclk_hz (uart_configure_gpio_pa9_pa10 (uart_enable_peripheral_clocks regs))"

definition uart_init :: "u32 \<Rightarrow> registers \<Rightarrow> registers" where
  "uart_init sysclk_hz = uart_init_115200 sysclk_hz"

definition uart_init_115200_hsi16 :: "registers \<Rightarrow> registers" where
  "uart_init_115200_hsi16 = uart_init_115200 BOARD_HSI_HZ"

section \<open>Sending\<close>

text \<open>Waiting for a flag of the status register: whether it was seen, and the next read.\<close>

primrec wait_status :: "(nat \<Rightarrow> u32) \<Rightarrow> u32 \<Rightarrow> nat \<Rightarrow> nat \<Rightarrow> bool \<times> nat" where
  "wait_status stat flag 0 i = (stat i AND flag \<noteq> 0, Suc i)"
| "wait_status stat flag (Suc polls) i =
     (if stat i AND flag \<noteq> 0 then (True, Suc i) else wait_status stat flag polls (Suc i))"

definition uart_putc :: "(nat \<Rightarrow> u32) \<Rightarrow> uart_tx \<Rightarrow> u8 \<Rightarrow> uart_tx" where
  "uart_putc stat w c =
     (case wait_status stat USART_SR_TXE UART_TX_READY_MAX_POLLS (tx_sr_reads w) of
        (ready, i) \<Rightarrow>
          if ready then w\<lparr>tx_sr_reads := i, tx_sent := tx_sent w @ [c]\<rparr> else w\<lparr>tx_sr_reads := i\<rparr>)"

fun uart_puts :: "(nat \<Rightarrow> u32) \<Rightarrow> uart_tx \<Rightarrow> bytes \<Rightarrow> uart_tx" where
  "uart_puts stat w [] = w"
| "uart_puts stat w (c # s) =
     uart_puts stat (uart_putc stat (if c = 0x0A then uart_putc stat w 0x0D else w) c) s"

definition uart_put_hex32 :: "(nat \<Rightarrow> u32) \<Rightarrow> uart_tx \<Rightarrow> u32 \<Rightarrow> uart_tx" where
  "uart_put_hex32 stat w v =
     foldl (\<lambda>w shift. uart_putc stat w (hex_digit (drop_bit shift v))) (uart_puts stat w (ascii ''0x''))
       [28, 24, 20, 16, 12, 8, 4, 0]"

definition uart_put_u32 :: "(nat \<Rightarrow> u32) \<Rightarrow> uart_tx \<Rightarrow> u32 \<Rightarrow> uart_tx" where
  "uart_put_u32 stat w v =
     (if v = 0 then uart_putc stat w 0x30 else foldl (uart_putc stat) w (rev (u32_buffer v)))"

definition uart_wait_tx_complete :: "(nat \<Rightarrow> u32) \<Rightarrow> uart_tx \<Rightarrow> uart_status \<times> uart_tx" where
  "uart_wait_tx_complete stat w =
     (case wait_status stat USART_SR_TC UART_TX_READY_MAX_POLLS (tx_sr_reads w) of
        (complete, i) \<Rightarrow> (if complete then UART_OK else UART_TIMEOUT, w\<lparr>tx_sr_reads := i\<rparr>))"

section \<open>Receiving\<close>

definition uart_error_from_sr :: "u32 \<Rightarrow> uart_status" where
  "uart_error_from_sr s =
     (if s AND USART_SR_ORE \<noteq> 0 then UART_ERR_OVERRUN
      else if s AND USART_SR_FE \<noteq> 0 then UART_ERR_FRAMING
      else if s AND USART_SR_NE \<noteq> 0 then UART_ERR_NOISE
      else if s AND USART_SR_PE \<noteq> 0 then UART_ERR_PARITY
      else UART_OK)"

definition uart_read_sr :: "(nat \<Rightarrow> u32) \<Rightarrow> uart_rx \<Rightarrow> u32 \<times> uart_rx" where
  "uart_read_sr stat r = (stat (rx_sr_reads r), r\<lparr>rx_sr_reads := Suc (rx_sr_reads r)\<rparr>)"

definition uart_read_dr :: "(nat \<Rightarrow> u32) \<Rightarrow> uart_rx \<Rightarrow> u32 \<times> uart_rx" where
  "uart_read_dr dat r = (dat (rx_dr_reads r), r\<lparr>rx_dr_reads := Suc (rx_dr_reads r)\<rparr>)"

definition uart_clear_rx_condition :: "(nat \<Rightarrow> u32) \<Rightarrow> (nat \<Rightarrow> u32) \<Rightarrow> uart_rx \<Rightarrow> uart_rx" where
  "uart_clear_rx_condition stat dat r = snd (uart_read_dr dat (snd (uart_read_sr stat r)))"

definition uart_rx_ready :: "(nat \<Rightarrow> u32) \<Rightarrow> uart_rx \<Rightarrow> bool \<times> uart_rx" where
  "uart_rx_ready stat r =
     (case uart_read_sr stat r of (s, r1) \<Rightarrow>
        if s AND USART_SR_RX_ERROR_MASK \<noteq> 0 then (False, r1) else (s AND USART_SR_RXNE \<noteq> 0, r1))"

text \<open>The byte is meaningful when the status is \<^verbatim>\<open>UART_OK\<close>; otherwise the caller's variable keeps its value.\<close>

definition uart_getc_nonblocking ::
    "(nat \<Rightarrow> u32) \<Rightarrow> (nat \<Rightarrow> u32) \<Rightarrow> uart_rx \<Rightarrow> uart_status \<times> u8 \<times> uart_rx" where
  "uart_getc_nonblocking stat dat r =
     (case uart_read_sr stat r of (s, r1) \<Rightarrow>
        let error_status = uart_error_from_sr s
        in if error_status \<noteq> UART_OK then (error_status, 0, uart_clear_rx_condition stat dat r1)
           else if s AND USART_SR_RXNE = 0 then (UART_NO_DATA, 0, r1)
           else (case uart_read_dr dat r1 of (d, r2) \<Rightarrow> (UART_OK, ucast d, r2)))"

fun getc_timeout_polls ::
    "(nat \<Rightarrow> u32) \<Rightarrow> (nat \<Rightarrow> u32) \<Rightarrow> nat \<Rightarrow> uart_rx \<Rightarrow> uart_status \<times> u8 \<times> uart_rx" where
  "getc_timeout_polls stat dat 0 r = (UART_TIMEOUT, 0, r)"
| "getc_timeout_polls stat dat (Suc polls) r =
     (case uart_getc_nonblocking stat dat r of (status, b, r1) \<Rightarrow>
        if status \<noteq> UART_NO_DATA then (status, b, r1) else getc_timeout_polls stat dat polls r1)"

definition uart_getc_timeout ::
    "(nat \<Rightarrow> u32) \<Rightarrow> (nat \<Rightarrow> u32) \<Rightarrow> uart_rx \<Rightarrow> u32 \<Rightarrow> uart_status \<times> u8 \<times> uart_rx" where
  "uart_getc_timeout stat dat r timeout_polls = getc_timeout_polls stat dat (unat timeout_polls) r"

text \<open>The buffer and the number of bytes read are one list.\<close>

fun uart_read_timeout ::
    "(nat \<Rightarrow> u32) \<Rightarrow> (nat \<Rightarrow> u32) \<Rightarrow> uart_rx \<Rightarrow> nat \<Rightarrow> u32 \<Rightarrow> uart_status \<times> bytes \<times> uart_rx" where
  "uart_read_timeout stat dat r 0 polls = (UART_OK, [], r)"
| "uart_read_timeout stat dat r (Suc n) polls =
     (case uart_getc_timeout stat dat r polls of (status, b, r1) \<Rightarrow>
        if status \<noteq> UART_OK then (status, [], r1)
        else case uart_read_timeout stat dat r1 n polls of (status', bs, r2) \<Rightarrow> (status', b # bs, r2))"

fun flush_drains ::
    "(nat \<Rightarrow> u32) \<Rightarrow> (nat \<Rightarrow> u32) \<Rightarrow> uart_status \<Rightarrow> nat \<Rightarrow> uart_rx \<Rightarrow> uart_status \<times> uart_rx" where
  "flush_drains stat dat first_error 0 r = (UART_TIMEOUT, r)"
| "flush_drains stat dat first_error (Suc n) r =
     (case uart_read_sr stat r of (s, r1) \<Rightarrow>
        let error_status = uart_error_from_sr s
        in if error_status = UART_OK \<and> s AND USART_SR_RXNE = 0 then (first_error, r1)
           else flush_drains stat dat
                  (if error_status \<noteq> UART_OK \<and> first_error = UART_OK then error_status else first_error)
                  n (uart_clear_rx_condition stat dat r1))"

definition uart_flush_rx :: "(nat \<Rightarrow> u32) \<Rightarrow> (nat \<Rightarrow> u32) \<Rightarrow> uart_rx \<Rightarrow> uart_status \<times> uart_rx" where
  "uart_flush_rx stat dat r = flush_drains stat dat UART_OK UART_FLUSH_RX_MAX_DRAINS r"

fun reader_status :: "uart_status \<Rightarrow> byte_reader_status" where
  "reader_status UART_OK = BYTE_READER_OK"
| "reader_status UART_NO_DATA = BYTE_READER_NO_DATA"
| "reader_status UART_ERR_INVALID_ARGUMENT = BYTE_READER_ERR_INVALID_ARGUMENT"
| "reader_status UART_TIMEOUT = BYTE_READER_TIMEOUT"
| "reader_status _ = BYTE_READER_ERR_IO"

definition uart_byte_reader_getc :: "(nat \<Rightarrow> u32) \<Rightarrow> (nat \<Rightarrow> u32) \<Rightarrow> uart_rx getc" where
  "uart_byte_reader_getc stat dat r =
     (case uart_getc_nonblocking stat dat r of (status, b, r1) \<Rightarrow> (reader_status status, b, r1))"

fun uart_status_text :: "uart_status \<Rightarrow> string" where
  "uart_status_text UART_OK = ''OK''"
| "uart_status_text UART_NO_DATA = ''NO DATA''"
| "uart_status_text UART_TIMEOUT = ''TIMEOUT''"
| "uart_status_text UART_ERR_INVALID_ARGUMENT = ''INVALID ARGUMENT''"
| "uart_status_text UART_ERR_OVERRUN = ''OVERRUN''"
| "uart_status_text UART_ERR_FRAMING = ''FRAMING''"
| "uart_status_text UART_ERR_NOISE = ''NOISE''"
| "uart_status_text UART_ERR_PARITY = ''PARITY''"

section \<open>Configuration of the line\<close>

lemmas uart_reg_defs = uart_write_reg_def uart_set_bits_def uart_clear_bits_def

text \<open>What the configuration leaves in each register; no other register is written.\<close>

lemma uart_init_registers:
  "uart_init_115200 pclk regs = regs(
     RCC_AHB1ENR := regs RCC_AHB1ENR OR 1, RCC_APB2ENR := regs RCC_APB2ENR OR 0x10,
     GPIOA_MODER := regs GPIOA_MODER AND NOT 0x3C0000 OR 0x280000,
     GPIOA_OTYPER := regs GPIOA_OTYPER AND NOT 0x600,
     GPIOA_OSPEEDR := regs GPIOA_OSPEEDR OR 0x280000,
     GPIOA_PUPDR := regs GPIOA_PUPDR AND NOT 0x3C0000 OR 0x100000,
     GPIOA_AFRH := regs GPIOA_AFRH AND NOT 0xFF0 OR 0x770,
     USART1_CR1 := 0x200C, USART1_CR2 := 0, USART1_CR3 := 0,
     USART1_BRR := uart_brr_from_clock (if pclk = 0 then BOARD_HSI_HZ else pclk))"
  by (rule ext) (simp add: uart_init_115200_def uart_configure_usart1_def uart_configure_gpio_pa9_pa10_def
      uart_enable_peripheral_clocks_def uart_reg_defs Let_def)

text \<open>The divisor is the nearest to the clock, so the rate is off by less than half a step.\<close>

lemma brr_nearest:
  assumes "unat pclk \<le> 180000000"
  shows "115200 * unat (uart_brr_from_clock pclk) \<le> unat pclk + 57600 \<and>
    unat pclk < 115200 * unat (uart_brr_from_clock pclk) + 57600"
proof -
  have "unat (pclk + 57600) = unat pclk + 57600" using assms by (subst u32_no_overflow) simp_all
  then have "unat (uart_brr_from_clock pclk) = (unat pclk + 57600) div 115200"
    by (simp add: uart_brr_from_clock_def unat_div)
  moreover have "115200 * (n div 115200) \<le> n \<and> n < 115200 * (n div 115200) + 115200" for n :: nat by linarith
  from this [of "unat pclk + 57600"] have "115200 * ((unat pclk + 57600) div 115200) \<le> unat pclk + 57600"
    "unat pclk + 57600 < 115200 * ((unat pclk + 57600) div 115200) + 115200" by simp_all
  ultimately show ?thesis by simp
qed

section \<open>Sent bytes\<close>

lemma wait_status_bound:
  "wait_status stat flag n i = (ok, j) \<Longrightarrow> i < j \<and> j \<le> i + Suc n \<and> (ok \<longleftrightarrow> stat (j - 1) AND flag \<noteq> 0)"
  by (induction n arbitrary: i) (fastforce split: if_splits)+

lemma wait_status_ready: "stat i AND flag \<noteq> 0 \<Longrightarrow> wait_status stat flag n i = (True, Suc i)"
  by (cases n) simp_all

text \<open>
  What a sending function does to the transmitter: it reads the status at most a million and one
  times for each byte, and the bytes it manages to send are a subsequence of those it was given.
\<close>

definition sends :: "uart_tx \<Rightarrow> bytes \<Rightarrow> uart_tx \<Rightarrow> bool" where
  "sends w data w' \<longleftrightarrow> tx_sr_reads w' \<le> tx_sr_reads w + 1000001 * length data \<and>
     (\<exists>out. tx_sent w' = tx_sent w @ out \<and> subseq out data)"

lemma sends_nil [simp]: "sends w [] w"
  by (simp add: sends_def)

lemma sends_append: "sends w a w1 \<Longrightarrow> sends w1 b w2 \<Longrightarrow> sends w (a @ b) w2"
  by (auto simp: sends_def algebra_simps intro: list_emb_append_mono)

lemma putc_sends: "sends w [c] (uart_putc stat w c)"
proof -
  obtain ok j where wait: "wait_status stat USART_SR_TXE 1000000 (tx_sr_reads w) = (ok, j)" by fastforce
  from wait_status_bound [OF this] have "j \<le> tx_sr_reads w + 1000001" by simp
  with wait show ?thesis by (auto simp: uart_putc_def sends_def)
qed

lemma putcs_send: "sends w data (foldl (uart_putc stat) w data)"
proof (induction data arbitrary: w)
  case (Cons c data)
  from sends_append [OF putc_sends Cons.IH, of w c stat] show ?case by simp
qed simp

lemma puts_as_putcs: "uart_puts stat w s = foldl (uart_putc stat) w (Platform_Log.uart_puts s)"
  by (induction s arbitrary: w) (simp_all add: Platform_Log.uart_puts_def)

lemma put_hex32_as_putcs: "uart_put_hex32 stat w v = foldl (uart_putc stat) w (Platform_Log.uart_put_hex32 v)"
  by (simp add: uart_put_hex32_def Platform_Log.uart_put_hex32_def puts_as_putcs)

lemma put_u32_as_putcs: "uart_put_u32 stat w v = foldl (uart_putc stat) w (Platform_Log.uart_put_u32 v)"
  by (simp add: uart_put_u32_def Platform_Log.uart_put_u32_def)

lemma putcs_ready:
  assumes "\<forall>i \<ge> tx_sr_reads w. stat i AND USART_SR_TXE \<noteq> 0"
  shows "foldl (uart_putc stat) w data = w\<lparr>tx_sr_reads := tx_sr_reads w + length data, tx_sent := tx_sent w @ data\<rparr>"
  using assms
proof (induction data arbitrary: w)
  case (Cons c data)
  have "uart_putc stat w c = w\<lparr>tx_sr_reads := Suc (tx_sr_reads w), tx_sent := tx_sent w @ [c]\<rparr>"
    using Cons.prems by (simp add: uart_putc_def wait_status_ready)
  with Cons.IH [of "uart_putc stat w c"] Cons.prems show ?case by simp
qed simp

lemma wait_status_iff:
  "fst (wait_status stat flag n i) \<longleftrightarrow> (\<exists>k \<le> n. stat (i + k) AND flag \<noteq> 0)"
proof (induction n arbitrary: i)
  case (Suc n)
  have "(\<exists>k \<le> Suc n. stat (i + k) AND flag \<noteq> 0) \<longleftrightarrow>
      stat i AND flag \<noteq> 0 \<or> (\<exists>k \<le> n. stat (Suc i + k) AND flag \<noteq> 0)" (is "?l \<longleftrightarrow> ?r")
  proof
    assume ?l
    then obtain k where "k \<le> Suc n" "stat (i + k) AND flag \<noteq> 0" by blast
    then show ?r by (cases k) auto
  next
    assume ?r
    then show ?l by (metis Suc_le_mono add_0_right add_Suc_shift le0)
  qed
  with Suc.IH [of "Suc i"] show ?case by simp
qed simp

lemma putc_exact:
  "tx_sent (uart_putc stat w c) =
   tx_sent w @ (if \<exists>k \<le> 1000000. stat (tx_sr_reads w + k) AND USART_SR_TXE \<noteq> 0 then [c] else [])"
  unfolding wait_status_iff [symmetric] by (simp add: uart_putc_def split: prod.split)

lemma wait_tx_complete_exact:
  assumes "uart_wait_tx_complete stat w = (st, w')"
  shows "tx_sent w' = tx_sent w \<and> tx_sr_reads w' \<le> tx_sr_reads w + 1000001 \<and>
    st = (if \<exists>k \<le> 1000000. stat (tx_sr_reads w + k) AND USART_SR_TC \<noteq> 0 then UART_OK else UART_TIMEOUT)"
proof -
  obtain ok j where wait: "wait_status stat USART_SR_TC 1000000 (tx_sr_reads w) = (ok, j)" by fastforce
  from wait_status_iff [of stat USART_SR_TC 1000000 "tx_sr_reads w"]
  have ok: "(\<exists>k \<le> 1000000. stat (tx_sr_reads w + k) AND USART_SR_TC \<noteq> 0) = ok" unfolding wait by simp
  from wait_status_bound [OF wait] have "j \<le> tx_sr_reads w + 1000001" by simp
  with assms wait show ?thesis unfolding ok by (auto simp: uart_wait_tx_complete_def)
qed

text \<open>
  What a sending function should do with the bytes of an output: bounded reads and nothing made up on
  every line, and all the bytes, with one read for each, when the transmitter is ready at every read.
\<close>

definition transmits :: "(nat \<Rightarrow> u32) \<Rightarrow> uart_tx \<Rightarrow> bytes \<Rightarrow> uart_tx \<Rightarrow> bool" where
  "transmits stat w data w' \<longleftrightarrow> sends w data w' \<and>
     ((\<forall>i \<ge> tx_sr_reads w. stat i AND 0x80 \<noteq> 0) \<longrightarrow>
        w' = w\<lparr>tx_sr_reads := tx_sr_reads w + length data, tx_sent := tx_sent w @ data\<rparr>)"

lemma putcs_transmit: "transmits stat w data (foldl (uart_putc stat) w data)"
  by (simp add: transmits_def putcs_send putcs_ready)

text \<open>The bytes of a text on the line, with a carriage return before each newline.\<close>

fun with_cr :: "bytes \<Rightarrow> bytes" where
  "with_cr [] = []"
| "with_cr (c # s) = (if c = 0x0A then [0x0D, 0x0A] else [c]) @ with_cr s"

lemma uart_puts_with_cr: "Platform_Log.uart_puts s = with_cr s"
  by (induction s) (simp_all add: Platform_Log.uart_puts_def)

section \<open>Received bytes\<close>

lemma error_from_sr_ok: "uart_error_from_sr s = UART_OK \<longleftrightarrow> s AND USART_SR_RX_ERROR_MASK = 0"
proof -
  have "s AND 0xF = (s AND 8) OR (s AND 2) OR (s AND 4) OR (s AND 1)"
    by (simp flip: bit.conj_disj_distrib)
  then show ?thesis by (simp add: uart_error_from_sr_def or_eq_0_iff)
qed

lemma error_from_sr_range: "uart_error_from_sr s \<notin> {UART_NO_DATA, UART_TIMEOUT}"
  by (simp add: uart_error_from_sr_def)

lemma getc_cases:
  assumes "uart_getc_nonblocking stat dat r = (st, b, r')"
  obtains (error) "stat (rx_sr_reads r) AND USART_SR_RX_ERROR_MASK \<noteq> 0" "st \<notin> {UART_OK, UART_NO_DATA, UART_TIMEOUT}"
      "r' = r\<lparr>rx_sr_reads := rx_sr_reads r + 2, rx_dr_reads := Suc (rx_dr_reads r)\<rparr>"
    | (empty) "stat (rx_sr_reads r) AND USART_SR_RX_ERROR_MASK = 0" "stat (rx_sr_reads r) AND USART_SR_RXNE = 0"
      "st = UART_NO_DATA" "r' = r\<lparr>rx_sr_reads := Suc (rx_sr_reads r)\<rparr>"
    | (byte) "stat (rx_sr_reads r) AND USART_SR_RX_ERROR_MASK = 0" "stat (rx_sr_reads r) AND USART_SR_RXNE \<noteq> 0"
      "st = UART_OK" "b = ucast (dat (rx_dr_reads r))"
      "r' = r\<lparr>rx_sr_reads := Suc (rx_sr_reads r), rx_dr_reads := Suc (rx_dr_reads r)\<rparr>"
  using assms error_from_sr_range [of "stat (rx_sr_reads r)"]
  by (auto simp: uart_getc_nonblocking_def uart_read_sr_def uart_read_dr_def uart_clear_rx_condition_def Let_def
      error_from_sr_ok [symmetric] split: if_splits)

text \<open>A value of the status register that announces a byte received without an error.\<close>

definition announces :: "u32 \<Rightarrow> bool" where
  "announces s \<longleftrightarrow> s AND USART_SR_RX_ERROR_MASK = 0 \<and> s AND USART_SR_RXNE \<noteq> 0"

lemma getc_timeout_spec:
  assumes "getc_timeout_polls stat dat n r = (st, b, r')"
  shows "st \<noteq> UART_NO_DATA" "rx_sr_reads r \<le> rx_sr_reads r'" "rx_sr_reads r' \<le> rx_sr_reads r + n + 1"
    "st = UART_OK \<Longrightarrow> b = ucast (dat (rx_dr_reads r)) \<and> rx_dr_reads r' = Suc (rx_dr_reads r) \<and>
       (\<exists>k. rx_sr_reads r \<le> k \<and> k < rx_sr_reads r' \<and> announces (stat k))"
proof -
  have "st \<noteq> UART_NO_DATA \<and> rx_sr_reads r \<le> rx_sr_reads r' \<and> rx_sr_reads r' \<le> rx_sr_reads r + n + 1 \<and>
    (st = UART_OK \<longrightarrow> b = ucast (dat (rx_dr_reads r)) \<and> rx_dr_reads r' = Suc (rx_dr_reads r) \<and>
       (\<exists>k. rx_sr_reads r \<le> k \<and> k < rx_sr_reads r' \<and> announces (stat k)))"
    using assms
  proof (induction n arbitrary: r)
    case (Suc n)
    obtain st1 b1 r1 where one: "uart_getc_nonblocking stat dat r = (st1, b1, r1)" by (metis prod_cases3)
    from one show ?case
    proof (cases rule: getc_cases)
      case empty
      with Suc.prems one have "getc_timeout_polls stat dat n r1 = (st, b, r')" by simp
      from Suc.IH [OF this] empty show ?thesis by (auto intro: Suc_leD)
    next
      case byte
      with Suc.prems one show ?thesis by (auto simp: announces_def)
    qed (use Suc.prems one in auto)
  qed simp
  then show "st \<noteq> UART_NO_DATA" "rx_sr_reads r \<le> rx_sr_reads r'" "rx_sr_reads r' \<le> rx_sr_reads r + n + 1"
    "st = UART_OK \<Longrightarrow> b = ucast (dat (rx_dr_reads r)) \<and> rx_dr_reads r' = Suc (rx_dr_reads r) \<and>
       (\<exists>k. rx_sr_reads r \<le> k \<and> k < rx_sr_reads r' \<and> announces (stat k))" by simp_all
qed

lemma read_timeout_forward:
  "uart_read_timeout stat dat r n polls = (st, bs, r') \<Longrightarrow> rx_sr_reads r \<le> rx_sr_reads r'"
proof (induction n arbitrary: r st bs r')
  case (Suc n)
  obtain st1 b r1 where one: "uart_getc_timeout stat dat r polls = (st1, b, r1)" by (metis prod_cases3)
  obtain st2 bs2 r2 where two: "uart_read_timeout stat dat r1 n polls = (st2, bs2, r2)" by (metis prod_cases3)
  from getc_timeout_spec(2) [OF one [unfolded uart_getc_timeout_def]] Suc.IH [OF two] one two Suc.prems show ?case
    by (auto split: if_splits)
qed simp

lemma read_timeout_spec:
  assumes "uart_read_timeout stat dat r n polls = (st, bs, r')"
  shows "length bs \<le> n \<and> (st = UART_OK \<longleftrightarrow> length bs = n) \<and>
    bs = map (\<lambda>k. ucast (dat k)) [rx_dr_reads r ..< rx_dr_reads r + length bs] \<and>
    rx_sr_reads r' \<le> rx_sr_reads r + n * (unat polls + 1) \<and>
    (\<exists>ks. length ks = length bs \<and> sorted_wrt (<) ks \<and> set ks \<subseteq> {rx_sr_reads r ..< rx_sr_reads r'} \<and>
       list_all (\<lambda>k. announces (stat k)) ks)"
  using assms
proof (induction n arbitrary: r st bs r')
  case (Suc n)
  obtain st1 b r1 where one: "uart_getc_timeout stat dat r polls = (st1, b, r1)" by (metis prod_cases3)
  note spec = getc_timeout_spec [OF one [unfolded uart_getc_timeout_def]]
  show ?case
  proof (cases "st1 = UART_OK")
    case True
    obtain st2 bs2 r2 where two: "uart_read_timeout stat dat r1 n polls = (st2, bs2, r2)" by (metis prod_cases3)
    with one True Suc.prems have eq: "st = st2" "bs = b # bs2" "r' = r2" by auto
    from Suc.IH [OF two] obtain ks where ks: "length ks = length bs2" "sorted_wrt (<) ks"
      "set ks \<subseteq> {rx_sr_reads r1 ..< rx_sr_reads r2}" "list_all (\<lambda>k. announces (stat k)) ks" by blast
    from spec(4) True obtain k where k: "rx_sr_reads r \<le> k" "k < rx_sr_reads r1" "announces (stat k)" by blast
    have "rx_sr_reads r1 \<le> rx_sr_reads r2" using read_timeout_forward [OF two] .
    then have "length (k # ks) = length bs \<and> sorted_wrt (<) (k # ks) \<and> set (k # ks) \<subseteq> {rx_sr_reads r ..< rx_sr_reads r'} \<and>
       list_all (\<lambda>k. announces (stat k)) (k # ks)"
      using ks k unfolding eq by fastforce
    moreover from Suc.IH [OF two] spec(3,4) True eq(3) have "length bs \<le> Suc n \<and> (st = UART_OK \<longleftrightarrow> length bs = Suc n) \<and>
      bs = map (\<lambda>k. ucast (dat k)) [rx_dr_reads r ..< rx_dr_reads r + length bs] \<and>
      rx_sr_reads r' \<le> rx_sr_reads r + Suc n * (unat polls + 1)"
      unfolding eq(1,2) by (auto simp: upt_conv_Cons simp del: upt_Suc)
    ultimately show ?thesis by blast
  qed (use one Suc.prems spec in auto)
qed simp

lemma flush_bounded:
  "flush_drains stat dat e n r = (st, r') \<Longrightarrow>
   rx_sr_reads r' \<le> rx_sr_reads r + 2 * n \<and>
   (st \<noteq> UART_TIMEOUT \<longrightarrow> (\<exists>i < rx_sr_reads r'. stat i AND USART_SR_RXNE = 0))"
proof (induction n arbitrary: e r)
  case (Suc n)
  show ?case
  proof (cases "uart_error_from_sr (stat (rx_sr_reads r)) = UART_OK \<and> stat (rx_sr_reads r) AND USART_SR_RXNE = 0")
    case False
    with Suc.prems Suc.IH show ?thesis
      by (fastforce simp: uart_read_sr_def uart_read_dr_def uart_clear_rx_condition_def Let_def split: if_splits)
  qed (use Suc.prems in \<open>auto simp: uart_read_sr_def Let_def intro!: exI [of _ "rx_sr_reads r"]\<close>)
qed simp

section \<open>Properties\<close>

text \<open>
  The line is set up for its two pins and nothing else: after the initialisation PA9 and PA10 are in
  alternate function 7 (USART1) with the pull-up on the receiving pin, the other pins of port A and
  every register outside the list are as before, the sender and the receiver are on, and the
  divisor is the one nearest to 115200 baud for every clock up to 180 MHz.
\<close>

theorem uart_init_exact:
  "uart_init_115200 pclk regs = regs(
     0x40023830 := regs 0x40023830 OR 1, 0x40023844 := regs 0x40023844 OR 0x10,
     0x40020000 := regs 0x40020000 AND NOT 0x3C0000 OR 0x280000, 0x40020004 := regs 0x40020004 AND NOT 0x600,
     0x40020008 := regs 0x40020008 OR 0x280000, 0x4002000C := regs 0x4002000C AND NOT 0x3C0000 OR 0x100000,
     0x40020024 := regs 0x40020024 AND NOT 0xFF0 OR 0x770,
     0x4001100C := 0x200C, 0x40011010 := 0, 0x40011014 := 0,
     0x40011008 := uart_brr_from_clock (if pclk = 0 then 16000000 else pclk)) \<and>
   (unat pclk > 180000000 \<or>
      (115200 * unat (uart_brr_from_clock pclk) \<le> unat pclk + 57600 \<and>
       unat pclk < 115200 * unat (uart_brr_from_clock pclk) + 57600))"
  using uart_init_registers [of pclk regs] brr_nearest [of pclk] by (cases "unat pclk \<le> 180000000") simp_all

text \<open>
  C40. Output never blocks and never invents: whatever the status register answers, sending a text, a
  decimal or a hexadecimal number reads it at most 1000001 times for each byte, and what is written to the data
  register is a subsequence of the bytes of the text (with a carriage return before each newline) or of
  the digits of the number; when the transmitter is ready (TXE set, whatever the other bits are) at every read it is exactly
  these bytes. A byte is sent if and only if TXE is set at one of 1000001 reads, and the wait for the end of the transmission
  sends nothing and succeeds if and only if TC is set at one of as many reads.
\<close>

theorem uart_output_bounded:
  "transmits stat w (with_cr s) (uart_puts stat w s) \<and>
   transmits stat w (decimal (unat v)) (uart_put_u32 stat w v) \<and>
   transmits stat w (ascii ''0x'' @ hexadecimal 8 (unat v)) (uart_put_hex32 stat w v) \<and>
   tx_sent (uart_putc stat w c) =
     tx_sent w @ (if \<exists>k \<le> 1000000. stat (tx_sr_reads w + k) AND 0x80 \<noteq> 0 then [c] else []) \<and>
   (case uart_wait_tx_complete stat w of (st, w') \<Rightarrow>
      tx_sent w' = tx_sent w \<and> tx_sr_reads w' \<le> tx_sr_reads w + 1000001 \<and>
      st = (if \<exists>k \<le> 1000000. stat (tx_sr_reads w + k) AND 0x40 \<noteq> 0 then UART_OK else UART_TIMEOUT))"
proof (intro conjI)
  show "transmits stat w (with_cr s) (uart_puts stat w s)"
    unfolding puts_as_putcs uart_puts_with_cr by (rule putcs_transmit)
  show "transmits stat w (decimal (unat v)) (uart_put_u32 stat w v)"
    unfolding put_u32_as_putcs put_u32_decimal by (rule putcs_transmit)
  show "transmits stat w (ascii ''0x'' @ hexadecimal 8 (unat v)) (uart_put_hex32 stat w v)"
    unfolding put_hex32_as_putcs put_hex32_digits by (rule putcs_transmit)
  show "tx_sent (uart_putc stat w c) =
      tx_sent w @ (if \<exists>k \<le> 1000000. stat (tx_sr_reads w + k) AND 0x80 \<noteq> 0 then [c] else [])"
    by (rule putc_exact)
  show "case uart_wait_tx_complete stat w of (st, w') \<Rightarrow>
      tx_sent w' = tx_sent w \<and> tx_sr_reads w' \<le> tx_sr_reads w + 1000001 \<and>
      st = (if \<exists>k \<le> 1000000. stat (tx_sr_reads w + k) AND 0x40 \<noteq> 0 then UART_OK else UART_TIMEOUT)"
    by (rule case_prodI2) (rule wait_tx_complete_exact)
qed

text \<open>
  C39. Input is neither lost nor made up: the bytes that \<^verbatim>\<open>uart_read_timeout\<close> delivers are those of
  the data register, each read once and in order; for each of them, in the same order, the status
  register announced a received byte and no error; it delivers all it was asked for if and only if it
  reports success, and it reads the status register at most once more than the timeout for each byte.
\<close>

theorem uart_input_exact:
  assumes "uart_read_timeout stat dat r n polls = (st, bs, r')"
  shows "length bs \<le> n \<and> (st = UART_OK \<longleftrightarrow> length bs = n) \<and>
    bs = map (\<lambda>k. ucast (dat k)) [rx_dr_reads r ..< rx_dr_reads r + length bs] \<and>
    rx_sr_reads r' \<le> rx_sr_reads r + n * (unat polls + 1) \<and>
    (\<exists>ks. length ks = length bs \<and> sorted_wrt (<) ks \<and> set ks \<subseteq> {rx_sr_reads r ..< rx_sr_reads r'} \<and>
       list_all (\<lambda>k. announces (stat k)) ks)"
  by (rule read_timeout_spec [OF assms])

theorem uart_input_exact_witness:
  "uart_read_timeout (\<lambda>i. 0x20) (\<lambda>i. if i = 0 then 0x41 else 0x42) \<lparr>rx_sr_reads = 0, rx_dr_reads = 0\<rparr> (Suc (Suc 0)) 1 =
     (UART_OK, [0x41, 0x42], \<lparr>rx_sr_reads = Suc (Suc 0), rx_dr_reads = Suc (Suc 0)\<rparr>) \<and>
   [0x41, 0x42 :: u8] = map (\<lambda>k. ucast (if k = 0 then 0x41 else 0x42 :: u32)) [0 ..< 0 + length [0x41, 0x42 :: u8]]"
proof -
  have "uart_read_timeout (\<lambda>i. 0x20) (\<lambda>i. if i = 0 then 0x41 else 0x42) \<lparr>rx_sr_reads = 0, rx_dr_reads = 0\<rparr> (Suc (Suc 0)) 1 =
     (UART_OK, [0x41, 0x42], \<lparr>rx_sr_reads = Suc (Suc 0), rx_dr_reads = Suc (Suc 0)\<rparr>)"
    by (simp add: uart_getc_timeout_def uart_getc_nonblocking_def uart_read_sr_def uart_read_dr_def uart_error_from_sr_def)
  from this uart_input_exact [OF this] show ?thesis by simp
qed

text \<open>A line on which nothing arrives from some read on is a source that runs dry.\<close>

lemma silent_line_drains:
  assumes "\<And>i. N \<le> i \<Longrightarrow> stat i AND USART_SR_RXNE = 0"
  shows "source_drains (uart_byte_reader_getc stat dat) (\<lambda>r. N - rx_sr_reads r)"
  unfolding source_drains_def
proof (intro allI impI)
  fix r status b r' assume "uart_byte_reader_getc stat dat r = (status, b, r')"
  then obtain st where st: "uart_getc_nonblocking stat dat r = (st, b, r')" "status = reader_status st"
    by (auto simp: uart_byte_reader_getc_def split: prod.splits)
  from st(1) show "N - rx_sr_reads r' \<le> N - rx_sr_reads r \<and> (status = BYTE_READER_OK \<longrightarrow> N - rx_sr_reads r' < N - rx_sr_reads r)"
  proof (cases rule: getc_cases)
    case error
    then have "status \<noteq> BYTE_READER_OK" using st(2) by (cases st) auto
    with error show ?thesis by simp
  next
    case byte
    with assms [of "rx_sr_reads r"] have "rx_sr_reads r < N" by (meson not_le_imp_less)
    with byte show ?thesis by auto
  qed (use st(2) in auto)
qed

end
