(* ===== verification/Update_Mode.thy ===== *)
theory Update_Mode
  imports Console_Properties Device_Life Uart_Driver
begin

text \<open>
  The time between reset and boot (\<^verbatim>\<open>update_mode.c\<close>, \<^verbatim>\<open>main.c\<close>): the loader listens on the UART for
  a bounded time; a HELLO frame starts the update service, a line of text the console; otherwise
  the boot sequence runs.

  The receiving side of the UART is a character source, the sending side a function that sends a byte
  and one that waits for the end; \<open>uart_driver\<close> makes them of the functions of \<open>Uart_Driver\<close>. The reset request is recorded in a flag, since
  the call does not return on the device. The refresh of the watchdog is not modelled.
\<close>

section \<open>Types\<close>

abbreviation UPDATE_MODE_PROGRAM_BUFFER_SIZE :: nat where "UPDATE_MODE_PROGRAM_BUFFER_SIZE \<equiv> 512"

datatype update_mode_entry =
    UPDATE_MODE_ENTRY_BOOT
  | UPDATE_MODE_ENTRY_BINARY_HELLO
  | UPDATE_MODE_ENTRY_TEXT_CONSOLE

record ('w, 'r) uart_line =
  ul_getc :: "'r getc"
  ul_putc :: "'w \<Rightarrow> u8 \<Rightarrow> 'w"
  ul_wait_tx_complete :: "'w \<Rightarrow> bool \<times> 'w"

definition uart_driver :: "(nat \<Rightarrow> u32) \<Rightarrow> (nat \<Rightarrow> u32) \<Rightarrow> (nat \<Rightarrow> u32) \<Rightarrow> (uart_tx, uart_rx) uart_line" where
  "uart_driver rx_stat dat tx_stat =
     \<lparr>ul_getc = uart_byte_reader_getc rx_stat dat, ul_putc = uart_putc tx_stat,
      ul_wait_tx_complete = (\<lambda>w. case uart_wait_tx_complete tx_stat w of (status, w') \<Rightarrow> (status = UART_OK, w'))\<rparr>"

definition uart_binary_write :: "('w, 'r) uart_line \<Rightarrow> 'w \<Rightarrow> bytes \<Rightarrow> update_protocol_status \<times> 'w" where
  "uart_binary_write u w data =
     (case ul_wait_tx_complete u (foldl (ul_putc u) w data) of
        (ok, w') \<Rightarrow> (if ok then UPDATE_PROTOCOL_STATUS_OK else UPDATE_PROTOCOL_STATUS_IO_ERROR, w'))"

definition uart_console_write :: "('w, 'r) uart_line \<Rightarrow> 'w \<Rightarrow> bytes \<Rightarrow> bool \<times> 'w" where
  "uart_console_write u w data = (True, foldl (ul_putc u) w data)"

definition update_mode_reset :: "bool \<Rightarrow> bool" where
  "update_mode_reset requested = True"

section \<open>Waiting for a host\<close>

text \<open>The text line: its buffer, its length and the overflow mark.\<close>

type_synonym text_line = "bytes \<times> nat \<times> bool"

definition reset_text_line :: "text_line \<Rightarrow> text_line" where
  "reset_text_line t = (case t of (line, n, overflow) \<Rightarrow> (line[0 := 0], 0, False))"

definition entry_text_accept_byte :: "u8 \<Rightarrow> text_line \<Rightarrow> text_line" where
  "entry_text_accept_byte b t =
     (case t of (line, n, overflow) \<Rightarrow>
        if b = 0x08 \<or> b = 0x7F
        then (if n \<noteq> 0 then (line[n - 1 := 0], n - 1, overflow) else t)
        else if b \<noteq> 0x09 \<and> (b < 0x20 \<or> b > 0x7E) then reset_text_line t
        else if n \<ge> DIAGNOSTIC_CONSOLE_MAX_LINE_LENGTH then (line, n, True)
        else (line[n := (if b = 0x09 then 0x20 else b), Suc n := 0], Suc n, overflow))"

text \<open>The line as the end of line leaves it.\<close>

definition finish_text_line :: "text_line \<Rightarrow> bytes" where
  "finish_text_line t =
     (case t of (line, n, overflow) \<Rightarrow> if overflow then line[n := 0, 0 := 0] else line[n := 0])"

function wait_entry_loop ::
    "'r getc \<Rightarrow> u32 \<Rightarrow> u32 \<Rightarrow> update_protocol_parser \<Rightarrow> text_line \<Rightarrow> 'r \<Rightarrow> update_mode_entry \<times> bytes \<times> 'r" where
  "wait_entry_loop getc idle_polls byte_count p t r =
     (if idle_polls < UPDATE_SERVICE_DEFAULT_ENTRY_IDLE_POLLS \<and> byte_count < UPDATE_SERVICE_DEFAULT_ENTRY_MAX_BYTES
      then (case byte_reader_getc_nonblocking getc r of
              (read_status, b, r1) \<Rightarrow>
                if read_status = BYTE_READER_NO_DATA
                then wait_entry_loop getc (idle_polls + 1) byte_count p t r1
                else if read_status \<noteq> BYTE_READER_OK then (UPDATE_MODE_ENTRY_BOOT, fst t, r1)
                else (case update_protocol_parser_push p b of
                        (parse_status, p1) \<Rightarrow>
                          if hello_ready parse_status p1 then (UPDATE_MODE_ENTRY_BINARY_HELLO, fst t, r1)
                          else if b = 0x0D \<or> b = 0x0A
                          then (UPDATE_MODE_ENTRY_TEXT_CONSOLE, finish_text_line t, r1)
                          else wait_entry_loop getc 0 (byte_count + 1) (entry_parser_next parse_status p1)
                                 (entry_text_accept_byte b t) r1))
      else (UPDATE_MODE_ENTRY_BOOT, fst t, r))"
  by pat_completeness auto

termination wait_entry_loop
  by (relation "measures [\<lambda>(_, _, n, _, _, _). unat (UPDATE_SERVICE_DEFAULT_ENTRY_MAX_BYTES - n),
        \<lambda>(_, n, _, _, _, _). unat (UPDATE_SERVICE_DEFAULT_ENTRY_IDLE_POLLS - n)]")
    (auto simp only: in_measures wf_measures prod.case counter_step simp_thms)

declare wait_entry_loop.simps [simp del]

definition wait_for_update_or_console_entry :: "'r getc \<Rightarrow> bytes \<Rightarrow> 'r \<Rightarrow> update_mode_entry \<times> bytes \<times> 'r" where
  "wait_for_update_or_console_entry getc text_line r =
     (if length text_line \<le> DIAGNOSTIC_CONSOLE_MAX_LINE_LENGTH then (UPDATE_MODE_ENTRY_BOOT, text_line, r)
      else wait_entry_loop getc 0 0 update_protocol_parser_init (text_line[0 := 0], 0, False) r)"

section \<open>Update mode\<close>

definition update_mode_config ::
    "('w, 'r) uart_line \<Rightarrow> bytes \<Rightarrow> host_context boot_flash \<Rightarrow> bool \<Rightarrow> bytes \<Rightarrow> 'w \<Rightarrow> ('w, 'r, bool) update_service_config" where
  "update_mode_config u firmware_public_key flash recovery_bootstrap program_buffer w =
     \<lparr>sc_flash = flash, sc_public_key = firmware_public_key,
      sc_install_options =
        \<lparr>io_program_buffer = program_buffer, io_program_buffer_size = UPDATE_MODE_PROGRAM_BUFFER_SIZE,
         io_readback_buffer_size = UPDATE_MODE_PROGRAM_BUFFER_SIZE, io_fault_hook = None,
         io_recovery_bootstrap = recovery_bootstrap\<rparr>,
      sc_reader = ul_getc u, sc_write = uart_binary_write u, sc_write_context = w,
      sc_reset = Some update_mode_reset, sc_reset_context = False,
      sc_entry_idle_polls = UPDATE_SERVICE_DEFAULT_ENTRY_IDLE_POLLS,
      sc_entry_max_bytes = UPDATE_SERVICE_DEFAULT_ENTRY_MAX_BYTES,
      sc_frame_byte_timeout_polls = UPDATE_SERVICE_DEFAULT_FRAME_BYTE_TIMEOUT_POLLS,
      sc_max_frame_timeouts = UPDATE_SERVICE_DEFAULT_MAX_FRAME_TIMEOUTS\<rparr>"

definition update_mode_console_config ::
    "('w, 'r) uart_line \<Rightarrow> host_context boot_flash \<Rightarrow> performance \<Rightarrow> u32 \<Rightarrow> ('w, 'r, bool) diagnostic_console_config" where
  "update_mode_console_config u flash perf csr =
     \<lparr>cc_reader = ul_getc u, cc_write = uart_console_write u, cc_flash = Some flash,
      cc_board_name = Some (ascii ''STM32F429IGT6 Lab Board''), cc_reset_cause = Some (reset_cause_capture csr),
      cc_reset = Some update_mode_reset, cc_reset_context = False,
      cc_idle_timeout_polls = DIAGNOSTIC_CONSOLE_DEFAULT_IDLE_TIMEOUT_POLLS, cc_performance = perf\<rparr>"

fun console_service_result :: "diagnostic_console_result \<Rightarrow> update_service_result" where
  "console_service_result DIAGNOSTIC_CONSOLE_RESULT_RESET_REQUESTED = UPDATE_SERVICE_RESULT_RESET_REQUESTED"
| "console_service_result DIAGNOSTIC_CONSOLE_RESULT_RECOVERY_REQUESTED = UPDATE_SERVICE_RESULT_RECOVERY_REQUESTED"
| "console_service_result DIAGNOSTIC_CONSOLE_RESULT_BOOT_CONTINUE = UPDATE_SERVICE_RESULT_BOOT_CONTINUE"
| "console_service_result DIAGNOSTIC_CONSOLE_RESULT_TIMEOUT = UPDATE_SERVICE_RESULT_BOOT_CONTINUE"
| "console_service_result DIAGNOSTIC_CONSOLE_RESULT_IO_ERROR = UPDATE_SERVICE_RESULT_BOOT_CONTINUE"

text \<open>
  The static buffers are arguments: the program buffer and the initial contents of the line. The
  result has the state of both sides of the UART, the device and the reset flag.
\<close>

type_synonym ('w, 'r) mode_outcome = "update_service_result \<times> 'w \<times> 'r \<times> host_context \<times> bool"

definition update_mode_poll_and_process_mode ::
    "'h crypto \<Rightarrow> ('w, 'r) uart_line \<Rightarrow> bytes \<Rightarrow> performance \<Rightarrow> u32 \<Rightarrow> bytes \<Rightarrow> bytes \<Rightarrow> bool \<Rightarrow> 'w \<Rightarrow> 'r \<Rightarrow> host_context \<Rightarrow>
     ('w, 'r) mode_outcome option" where
  "update_mode_poll_and_process_mode crypt u firmware_public_key perf csr program_buffer initial_line recovery_bootstrap w r c =
     (case boot_flash_target_init of
        Inl _ \<Rightarrow> Some (UPDATE_SERVICE_RESULT_BOOT_CONTINUE, w, r, c, False)
      | Inr flash \<Rightarrow>
          (case wait_for_update_or_console_entry (ul_getc u) initial_line r of
             (UPDATE_MODE_ENTRY_BINARY_HELLO, _, r1) \<Rightarrow>
               map_option
                 (\<lambda>(result, s, r2, c', x).
                   (result, (case s of None \<Rightarrow> w | Some session \<Rightarrow> writer_context (up_writer session)), r2, c', x))
                 (update_service_run_after_hello crypt
                    (update_mode_config u firmware_public_key flash recovery_bootstrap program_buffer w) r1 c)
           | (UPDATE_MODE_ENTRY_TEXT_CONSOLE, line, r1) \<Rightarrow>
               map_option (\<lambda>(result, _, w', r2, x). (console_service_result result, w', r2, c, x))
                 (diagnostic_console_run (update_mode_console_config u flash perf csr) c (Some (c_string line)) w r1)
           | (UPDATE_MODE_ENTRY_BOOT, _, r1) \<Rightarrow> Some (UPDATE_SERVICE_RESULT_BOOT_CONTINUE, w, r1, c, False)))"

definition update_mode_poll_and_process ::
    "'h crypto \<Rightarrow> ('w, 'r) uart_line \<Rightarrow> bytes \<Rightarrow> performance \<Rightarrow> u32 \<Rightarrow> bytes \<Rightarrow> bytes \<Rightarrow> 'w \<Rightarrow> 'r \<Rightarrow> host_context \<Rightarrow>
     ('w, 'r) mode_outcome option" where
  "update_mode_poll_and_process crypt u firmware_public_key perf csr program_buffer initial_line =
     update_mode_poll_and_process_mode crypt u firmware_public_key perf csr program_buffer initial_line False"

text \<open>The recovery loop polls until a reset is requested.\<close>

partial_function (option) recovery_loop ::
    "'h crypto \<Rightarrow> ('w, 'r) uart_line \<Rightarrow> bytes \<Rightarrow> performance \<Rightarrow> u32 \<Rightarrow> bytes \<Rightarrow> bytes \<Rightarrow> 'w \<Rightarrow> 'r \<Rightarrow> host_context \<Rightarrow>
     ('w \<times> 'r \<times> host_context) option" where
  [code]: "recovery_loop crypt u firmware_public_key perf csr program_buffer initial_line w r c =
     Option.bind
       (update_mode_poll_and_process_mode crypt u firmware_public_key perf csr program_buffer initial_line True w r c)
       (\<lambda>(result, w1, r1, c1, x).
         if result = UPDATE_SERVICE_RESULT_RESET_REQUESTED then Some (w1, r1, c1)
         else recovery_loop crypt u firmware_public_key perf csr program_buffer initial_line
                (foldl (ul_putc u) w1 (ascii ''RECOVERY WAIT signed-package-required'' @ [13, 10])) r1 c1)"

definition update_mode_run_recovery ::
    "'h crypto \<Rightarrow> ('w, 'r) uart_line \<Rightarrow> bytes \<Rightarrow> performance \<Rightarrow> u32 \<Rightarrow> bytes \<Rightarrow> bytes \<Rightarrow> 'w \<Rightarrow> 'r \<Rightarrow> host_context \<Rightarrow>
     ('w \<times> 'r \<times> host_context) option" where
  "update_mode_run_recovery crypt u firmware_public_key perf csr program_buffer initial_line w r c =
     recovery_loop crypt u firmware_public_key perf csr program_buffer initial_line
       (foldl (ul_putc u) w (ascii ''RECOVERY READY signed-uart-update=required slot=A-bootstrap'' @ [13, 10])) r c"

section \<open>Main\<close>

text \<open>
  A power cycle ends with a requested reset, in the recovery loop (which never returns to \<^verbatim>\<open>main\<close>),
  or with the boot sequence.
\<close>

datatype main_outcome =
    MAIN_RESET
  | MAIN_RECOVERY
  | MAIN_BOOT "boot_event list" boot_outcome

definition boot_main ::
    "'h crypto \<Rightarrow> ('w, 'r) uart_line \<Rightarrow> bytes \<Rightarrow> performance \<Rightarrow> u32 \<Rightarrow> bytes \<Rightarrow> bytes \<Rightarrow> 'w \<Rightarrow> 'r \<Rightarrow> host_context \<Rightarrow>
     (main_outcome \<times> host_context) option" where
  "boot_main crypt u firmware_public_key perf csr program_buffer initial_line w r c =
     map_option
       (\<lambda>(result, _, _, c1, _).
         if result = UPDATE_SERVICE_RESULT_RESET_REQUESTED then (MAIN_RESET, c1)
         else if result = UPDATE_SERVICE_RESULT_RECOVERY_REQUESTED then (MAIN_RECOVERY, c1)
         else (case boot_sequence_execute crypt firmware_public_key c1 csr of
                 (ev, out, c2) \<Rightarrow> (MAIN_BOOT ev out, c2)))
       (update_mode_poll_and_process crypt u firmware_public_key perf csr program_buffer initial_line w r c)"

section \<open>The text line\<close>

definition text_line_ok :: "text_line \<Rightarrow> bool" where
  "text_line_ok t = (case t of (line, n, overflow) \<Rightarrow> length line = 65 \<and> n \<le> 64 \<and> line ! n = 0)"

lemma entry_text_ok: "text_line_ok t \<Longrightarrow> text_line_ok (entry_text_accept_byte b t)"
  by (cases t) (auto simp: text_line_ok_def entry_text_accept_byte_def reset_text_line_def)

lemma entry_texts_ok: "text_line_ok t \<Longrightarrow> text_line_ok (fold entry_text_accept_byte bs t)"
  by (induction bs arbitrary: t) (simp_all add: entry_text_ok)

definition console_text :: "diagnostic_console \<Rightarrow> text_line" where
  "console_text console = (dc_line console, dc_line_length console, dc_overflowed console)"

lemma entry_text_console:
  "read_byte config b console w = Inl console' \<Longrightarrow>
   entry_text_accept_byte b (console_text console) = console_text console'"
  by (auto simp: read_byte_def entry_text_accept_byte_def console_text_def store_char_def Let_def
      split: if_splits prod.splits)

section \<open>A power cycle\<close>

lemma target_flash_ok:
  assumes "boot_flash_target_init = Inr flash"
  shows "config_ok pk (update_mode_config u pk flash recovery program_buffer w)"
  using assms boot_flash_init_wf [of writable_ops "[]" BOOT_FLASH_TARGET_PROGRAM_ALIGNMENT flash]
  by (simp add: boot_flash_target_init_def config_ok_def update_mode_config_def split: if_splits)

lemma target_flash_exists: "\<exists>flash. boot_flash_target_init = Inr flash"
  by (simp add: boot_flash_target_init_def boot_flash_init_def boot_flash_target_ramfunc_bounds_valid_def
      is_power_of_two_def)

lemma console_returns:
  assumes "source_drains (cc_reader config) m"
  shows "\<exists>out. diagnostic_console_run config c line w r = Some out"
proof -
  have loop: "\<exists>out. console_loop config c console w r = Some out" for console w r
    by (rule console_loop_returns [OF assms])
  show ?thesis
    unfolding diagnostic_console_run_def case_prod_unfold
    by (cases line) (auto simp: loop simp del: split_paired_Ex)
qed

lemma mode_safe:
  assumes src: "source_drains (ul_getc u) m" and inv: "life_inv crypt pk c"
  shows "\<exists>result w' r' c' x.
    update_mode_poll_and_process_mode crypt u pk perf csr program_buffer line recovery w r c = Some (result, w', r', c', x) \<and>
    life_inv crypt pk c'"
proof -
  obtain flash where flash: "boot_flash_target_init = Inr flash" using target_flash_exists by blast
  obtain entry ln r1 where wait: "wait_for_update_or_console_entry (ul_getc u) line r = (entry, ln, r1)"
    by (metis prod_cases3)
  let ?config = "update_mode_config u pk flash recovery program_buffer w"
  let ?console = "update_mode_console_config u flash perf csr"
  have "source_drains (sc_reader ?config) m" using src by (simp add: update_mode_config_def)
  from service_after_hello_returns [OF this, of crypt r1 c] obtain result s r2 c' x where
    service: "update_service_run_after_hello crypt ?config r1 c = Some (result, s, r2, c', x)" by (metis prod_cases5)
  note life = life_after_hello [OF inv target_flash_ok [OF flash] service]
  have "source_drains (cc_reader ?console) m" using src by (simp add: update_mode_console_config_def)
  from console_returns [OF this, of c "Some (c_string ln)" w r1] obtain cr k w1 r3 y where
    console: "diagnostic_console_run ?console c (Some (c_string ln)) w r1 = Some (cr, k, w1, r3, y)" by (metis prod_cases5)
  note unfold = update_mode_poll_and_process_mode_def flash wait
  show ?thesis
  proof (cases entry)
    case UPDATE_MODE_ENTRY_BOOT
    show ?thesis unfolding unfold using inv by (auto simp: UPDATE_MODE_ENTRY_BOOT)
  next
    case UPDATE_MODE_ENTRY_BINARY_HELLO
    show ?thesis unfolding unfold using service life by (simp add: UPDATE_MODE_ENTRY_BINARY_HELLO)
  next
    case UPDATE_MODE_ENTRY_TEXT_CONSOLE
    show ?thesis unfolding unfold using console inv by (simp add: UPDATE_MODE_ENTRY_TEXT_CONSOLE)
  qed
qed

section \<open>Properties\<close>

text \<open>
  The line typed before the console starts stays in its buffer: whatever bytes arrive, the 65 bytes
  hold at most 64 characters and the terminator, so no byte is stored outside; and a key does to
  it exactly what the editor of the console does.
\<close>

theorem entry_line_in_bounds:
  "text_line_ok (fold entry_text_accept_byte bs (replicate 65 0, 0, False)) \<and>
   (read_byte config b console w = Inl console' \<longrightarrow>
      entry_text_accept_byte b (console_text console) = console_text console')"
  using entry_texts_ok [of "(replicate 65 0, 0, False)" bs] entry_text_console [of config b console w console']
  by (simp add: text_line_ok_def)

lemma power_cycle:
  assumes src: "source_drains (ul_getc u) m"
    and good: "host_healthy c" and rec: "journal_record c rd" "record_good crypt pk (host_view c) rd"
  shows "\<exists>out c'. boot_main crypt u pk perf csr program_buffer line w r c = Some (out, c') \<and>
    (out = MAIN_RESET \<or> out = MAIN_RECOVERY \<or>
     (\<exists>ev st effs. out = MAIN_BOOT ev (BOOT_JUMP st effs) \<and>
        (\<exists>entered \<in> {boot_slot_a, boot_slot_b}. slot_bootable crypt pk (host_view c') entered \<and>
           last effs = ENTER (slot_entry (host_view c') entered)))) \<and>
    host_healthy c' \<and> (\<exists>rd'. journal_record c' rd' \<and> record_good crypt pk (host_view c') rd')"
proof -
  have "life_inv crypt pk c" using good rec by (auto simp: life_inv_def)
  from mode_safe [OF src this, of perf csr program_buffer line False w r] obtain result w' r' c1 x where
    mode: "update_mode_poll_and_process_mode crypt u pk perf csr program_buffer line False w r c = Some (result, w', r', c1, x)"
    and inv: "life_inv crypt pk c1" by blast
  from device_boots [OF inv, of csr] obtain ev st effs c2 where
    boot: "boot_sequence_execute crypt pk c1 csr = (ev, BOOT_JUMP st effs, c2)"
      "\<exists>entered \<in> {boot_slot_a, boot_slot_b}. slot_bootable crypt pk (host_view c2) entered \<and>
           last effs = ENTER (slot_entry (host_view c2) entered)" by blast
  from life_boot [OF inv, of csr] boot have inv2: "life_inv crypt pk c2" by simp
  consider "result = UPDATE_SERVICE_RESULT_RESET_REQUESTED" | "result = UPDATE_SERVICE_RESULT_RECOVERY_REQUESTED"
    | "result = UPDATE_SERVICE_RESULT_BOOT_CONTINUE" by (cases result) auto
  then show ?thesis
    using mode boot inv [unfolded life_inv_def] inv2 [unfolded life_inv_def]
    by cases (simp_all add: boot_main_def update_mode_poll_and_process_def)
qed


end
