(* ===== verification/Update_Protocol_Liveness.thy ===== *)
theory Update_Protocol_Liveness
  imports Update_Protocol_Safety Update_Liveness
begin

text \<open>
  A host that follows the protocol installs its package: the bytes of a BEGIN frame with the
  package header, of WRITE frames with the payload in blocks of any admissible size, and of a
  FINISH frame take a session from its start to the announced candidate. The responses do not
  matter to the device, so nothing is assumed of the writer.
\<close>

section \<open>The installer during a transfer\<close>

text \<open>The first \<open>k\<close> bytes of the payload have been handed over.\<close>

definition installing ::
    "'h crypto \<Rightarrow> bytes \<Rightarrow> boot_slot_descriptor \<Rightarrow> bytes \<Rightarrow> nat \<Rightarrow> 'h update_installer_session \<Rightarrow> host_context \<Rightarrow> bool" where
  "installing crypt pk slot bs k i c \<longleftrightarrow>
     session_inv crypt i c \<and> room i c \<and> stream crypt i c (take 512 bs) (take k (drop 512 bs)) \<and>
     k \<le> length (drop 512 bs) \<and> ses_program_fill i < io_program_buffer_size (ses_options i) \<and>
     ses_state i = (if k = length (drop 512 bs) then UPDATE_INSTALL_SESSION_PAYLOAD_COMPLETE
                    else UPDATE_INSTALL_SESSION_WRITING) \<and>
     ses_candidate i = slot \<and> ses_public_key i = pk \<and>
     unat (sequence (ses_writing_metadata i)) < 0xFFFFFFFD \<and>
     (\<exists>w. boot_metadata_prepare_next (ses_writing_metadata i) BOOT_METADATA_STATE_CANDIDATE_READY
        (ses_active_slot_id i) (slot_num (slot_id slot)) (image_version (decode_manifest_bytes bs)) 0 0 0 = Inr w)"

lemma package_sizes:
  assumes "package_ok crypt pk slot bs"
  shows "512 \<le> length bs" "hdr_payload_size (header_of (take 512 bs)) = length (drop 512 bs)"
    "length (drop 512 bs) \<le> 0x5FE00" "0 < length (drop 512 bs)"
proof -
  have lay: "512 \<le> length bs" "length (drop 512 bs) = unat (image_size (decode_manifest_bytes bs))"
    "unat (image_size (decode_manifest_bytes bs)) \<le> 0x5FE00" "8 \<le> unat (image_size (decode_manifest_bytes bs))"
    using assms by (auto simp: package_ok_def header_layout_ok_def image_ok_def Let_def)
  show "512 \<le> length bs" "length (drop 512 bs) \<le> 0x5FE00" "0 < length (drop 512 bs)" using lay by simp_all
  show "hdr_payload_size (header_of (take 512 bs)) = length (drop 512 bs)"
    using header_bytes_of_package [OF lay(1)] lay(2) by (simp add: header_of_def)
qed

lemma installing_begin:
  assumes fresh: "session_fresh crypt r slot pk i c" and st: "state r = BOOT_METADATA_STATE_CONFIRMED" "unat (sequence r) < 0xFFFFFFFC"
    and ok: "package_ok crypt pk slot bs" and newer: "candidate_image_version r < image_version (decode_manifest_bytes bs)"
  shows "\<exists>i' c'. update_installer_begin crypt i c (take 512 bs) = (UPDATE_INSTALL_OK, i', c') \<and> installing crypt pk slot bs 0 i' c'"
proof -
  from begin_fresh [OF fresh st ok newer] obtain i' c' w where
    beg: "update_installer_begin crypt i c (take 512 bs) = (UPDATE_INSTALL_OK, i', c')"
    and inv: "session_inv crypt i' c'" and room: "room i' c'" and fill: "ses_program_fill i' = 0"
    and str: "stream crypt i' c' (take 512 bs) []" and w: "ses_state i' = UPDATE_INSTALL_SESSION_WRITING"
    and fixed: "session_fixed i' = session_fixed i"
    and prep: "boot_metadata_prepare_next (ses_writing_metadata i') BOOT_METADATA_STATE_CANDIDATE_READY
       (ses_active_slot_id i') (slot_num (slot_id (ses_candidate i')))
       (image_version (decode_manifest_bytes bs)) 0 0 0 = Inr w" by metis
  have id: "ses_candidate i' = slot" "ses_public_key i' = pk"
    using fixed_members [OF fixed] fresh by (simp_all add: session_fresh_def)
  note f = fresh [unfolded session_fresh_def]
  from begin_ok [OF _ _ _ _ beg] f obtain w' where
    "boot_metadata_prepare_next (ses_metadata_before i) BOOT_METADATA_STATE_WRITING (ses_active_slot_id i)
       (slot_num (slot_id (ses_candidate i))) (image_version (decode_manifest_bytes (take 512 bs))) 0 0 0 = Inr w'"
    "ses_writing_metadata i' = w'" by metis
  from prepare_next_fields [OF this(1)] this(2) f st(2) have seq: "unat (sequence (ses_writing_metadata i')) < 0xFFFFFFFD"
    by (simp add: unat_word_ariths)
  have "0 < io_program_buffer_size (ses_options i')" using room by (simp add: room_def live_def)
  with beg inv room fill str w prep id seq package_sizes(4) [OF ok] show ?thesis by (simp add: installing_def)
qed

lemma installing_write:
  assumes i: "installing crypt pk slot bs k i c" and ok: "package_ok crypt pk slot bs"
    and d: "d \<noteq> []" "d = take (length d) (drop k (drop 512 bs))"
  shows "\<exists>i' c'. update_installer_write crypt i c k d = (UPDATE_INSTALL_OK, i', c') \<and>
    installing crypt pk slot bs (k + length d) i' c'"
proof -
  let ?p = "drop 512 bs"
  note i' = i [unfolded installing_def]
  have inv: "session_inv crypt i c" and room: "room i c" and str: "stream crypt i c (take 512 bs) (take k ?p)"
    and fill: "ses_program_fill i < io_program_buffer_size (ses_options i)" and k: "k \<le> length ?p" using i' by blast+
  have "length d = min (length d) (length ?p - k)" using arg_cong [OF d(2), of length] by (simp del: drop_drop)
  then have len: "k + length d \<le> length ?p" "0 < length d" using d(1) k by auto
  have st: "ses_state i = UPDATE_INSTALL_SESSION_WRITING" using i' len by auto
  have kl: "length (take k ?p) = k" "take k ?p @ d = take (k + length d) ?p"
    using k d(2) by (simp_all add: take_add del: drop_drop)
  obtain q i1 c1 where w: "update_installer_write crypt i c k d = (q, i1, c1)" by (metis prod_cases3)
  have "q = UPDATE_INSTALL_OK \<and> room i1 c1 \<and> ses_program_fill i1 < io_program_buffer_size (ses_options i1)"
    by (rule write_live [OF str room _ d(1) fill st]) (use len kl w package_sizes(2) [OF ok] in auto)
  then have q: "q = UPDATE_INSTALL_OK" and room1: "room i1 c1"
    and fill1: "ses_program_fill i1 < io_program_buffer_size (ses_options i1)" by simp_all
  from write_stream [OF str w [unfolded q]] package_sizes(2) [OF ok] kl
  have str1: "stream crypt i1 c1 (take 512 bs) (take (k + length d) ?p)"
    and st1: "ses_state i1 = (if k + length d = length ?p then UPDATE_INSTALL_SESSION_PAYLOAD_COMPLETE
      else UPDATE_INSTALL_SESSION_WRITING)"
    using len by (auto simp del: drop_drop)
  from write_kept [OF inv_device [OF inv] w] have up: "session_update i1 = session_update i" by simp
  note um = update_members [OF up] and fm = fixed_members [OF update_members(1) [OF up]]
  have "ses_candidate i1 = slot" "ses_public_key i1 = pk" "ses_writing_metadata i1 = ses_writing_metadata i"
    "ses_active_slot_id i1 = ses_active_slot_id i" using um fm i' by simp_all
  with w q inv_write [OF inv w] room1 str1 fill1 st1 len i' show ?thesis by (simp add: installing_def del: drop_drop)
qed

lemma installing_finish:
  assumes i: "installing crypt pk slot bs (length (drop 512 bs)) i c" and ok: "package_ok crypt pk slot bs"
    and sha: "sha512_streams crypt"
  shows "\<exists>i' c' w. update_installer_finish crypt i c = (UPDATE_INSTALL_OK, i', c') \<and> host_fault_free c' \<and>
    journal_record c' w \<and> sequence w < UINT32_MAX - 1 \<and>
    state w = BOOT_METADATA_STATE_CANDIDATE_READY \<and> candidate_slot w = slot_num (slot_id slot) \<and>
    slot_bootable crypt pk (host_view c') slot \<and> stored c' (unat (signed_image_base slot)) bs"
proof -
  note i' = i [unfolded installing_def]
  have inv: "session_inv crypt i c" and room: "room i c" and str: "stream crypt i c (take 512 bs) (drop 512 bs)"
    and st: "ses_state i = UPDATE_INSTALL_SESSION_PAYLOAD_COMPLETE" and id: "ses_candidate i = slot" "ses_public_key i = pk"
    using i' by simp_all
  from i' obtain w where prep: "boot_metadata_prepare_next (ses_writing_metadata i) BOOT_METADATA_STATE_CANDIDATE_READY
       (ses_active_slot_id i) (slot_num (slot_id (ses_candidate i))) (image_version (decode_manifest_bytes bs)) 0 0 0 = Inr w"
    using id by auto
  from finish_live [OF inv str room _ sha st prep] ok id obtain i1 c1 where
    fin: "update_installer_finish crypt i c = (UPDATE_INSTALL_OK, i1, c1)" and ff: "host_fault_free c1" by auto
  from finish_ok [OF inv str fin] obtain w' where
    prep': "boot_metadata_prepare_next (ses_writing_metadata i) BOOT_METADATA_STATE_CANDIDATE_READY
       (ses_active_slot_id i) (slot_num (slot_id (ses_candidate i)))
       (image_version (decode_manifest_bytes (take 512 bs))) 0 0 0 = Inr w'"
    and r: "journal_record c1 w'" "slot_bootable crypt (ses_public_key i) (host_view c1) (ses_candidate i)"
      "stored c1 (unat (signed_image_base (ses_candidate i))) (take 512 bs @ drop 512 bs)" by metis
  from prepare_next_fields [OF prep'] have "sequence w' < UINT32_MAX - 1"
    "state w' = BOOT_METADATA_STATE_CANDIDATE_READY" "candidate_slot w' = slot_num (slot_id slot)"
    using i' by (simp_all add: id word_less_nat_alt unat_word_ariths)
  with fin ff r id show ?thesis by auto
qed

section \<open>Frames and the session\<close>

text \<open>A session between two frames.\<close>

definition between_frames :: "('h, 'w) update_protocol_session \<Rightarrow> bool" where
  "between_frames s \<longleftrightarrow> parser_wf (up_parser s) \<and> ps_state (up_parser s) = UPDATE_PROTOCOL_STATE_SYNC"

text \<open>The bytes of a frame, and what the parser hands to the session for them.\<close>

definition wire :: "u8 \<Rightarrow> u16 \<Rightarrow> bytes \<Rightarrow> bytes" where
  "wire command seq payload =
     (case update_protocol_encode_frame command seq payload UPDATE_PROTOCOL_MAX_FRAME_SIZE of
        Inl _ \<Rightarrow> [] | Inr bs \<Rightarrow> bs)"

definition carries :: "update_protocol_frame \<Rightarrow> u8 \<Rightarrow> u16 \<Rightarrow> bytes \<Rightarrow> bool" where
  "carries f command seq payload \<longleftrightarrow>
     fr_version f = UPDATE_PROTOCOL_VERSION \<and> fr_command f = command \<and> fr_sequence f = seq \<and>
     unat (fr_payload_length f) = length payload \<and> take (length payload) (fr_payload f) = payload"

lemma receive_append:
  "receive crypt (xs @ ys) s c = (case receive crypt xs s c of (s', c') \<Rightarrow> receive crypt ys s' c')"
  by (induction xs arbitrary: s c) (simp_all add: case_prod_unfold)

lemma receive_last:
  assumes "push_all (up_parser s) bs = (replicate n UPDATE_PROTOCOL_PARSE_NEED_MORE @ [ps], q)"
    and "ps \<noteq> UPDATE_PROTOCOL_PARSE_NEED_MORE"
  shows "receive crypt bs s c = snd (handle_parsed crypt (s\<lparr>up_parser := q\<rparr>) c ps)"
  using assms
proof (induction n arbitrary: s bs)
  case 0
  then obtain b where "bs = [b]" "update_protocol_parser_push (up_parser s) b = (ps, q)"
    by (cases bs; cases "tl bs") (auto split: prod.splits)
  with 0 show ?case by (simp add: update_protocol_session_process_byte_def case_prod_unfold)
next
  case (Suc n)
  then obtain b bs' p where b: "bs = b # bs'" "update_protocol_parser_push (up_parser s) b = (UPDATE_PROTOCOL_PARSE_NEED_MORE, p)"
    "push_all p bs' = (replicate n UPDATE_PROTOCOL_PARSE_NEED_MORE @ [ps], q)"
    by (cases bs) (auto split: prod.splits)
  with Suc.IH [of "s\<lparr>up_parser := p\<rparr>" bs'] Suc.prems(2) show ?case
    by (simp add: update_protocol_session_process_byte_def)
qed

lemma receive_frame:
  assumes s: "between_frames s" and len: "length payload \<le> 1024"
  shows "\<exists>q f. receive crypt (wire command seq payload) s c = snd (handle_frame crypt (s\<lparr>up_parser := q\<rparr>) c f) \<and>
    carries f command seq payload \<and> between_frames (s\<lparr>up_parser := q\<rparr>)"
proof -
  let ?h = "frame_header command seq (length payload)"
  have wf: "parser_wf (up_parser s)" and sync: "ps_state (up_parser s) = UPDATE_PROTOCOL_STATE_SYNC"
    using s by (simp_all add: between_frames_def)
  note h = frame_header_fields [where command = command and seq = seq and n = "length payload"]
  have wire: "wire command seq payload = ?h @ payload @ le32 (update_protocol_crc32_update 0 (?h @ payload))"
    using len by (simp add: wire_def update_protocol_encode_frame_def build_header_def frame_header_def Let_def
        update_protocol_crc32_update_def)
  from parse_frame [OF wf sync h(1,2) _ len, of "le32 (update_protocol_crc32_update 0 (?h @ payload))"] h(6) len
  obtain q where push: "push_all (up_parser s) (wire command seq payload) =
      (replicate (length payload + 13) UPDATE_PROTOCOL_PARSE_NEED_MORE @ [UPDATE_PROTOCOL_PARSE_FRAME_READY], q)"
    and q: "ps_frame q = header_frame ?h (bytes_write 0 payload (fr_payload (ps_frame (up_parser s))))"
      "ps_state q = UPDATE_PROTOCOL_STATE_SYNC"
    unfolding wire using load_le32_le32 [of _ "[]"] by auto
  have "carries (ps_frame q) command seq payload"
    using q(1) h len by (simp add: carries_def header_frame_def bytes_write_def)
  moreover have "between_frames (s\<lparr>up_parser := q\<rparr>)"
    using q(2) parser_wf_push_all [OF wf push] by (simp add: between_frames_def)
  ultimately show ?thesis using receive_last [OF push, of crypt c] by (auto simp: handle_parsed_def)
qed

section \<open>The steps of a transfer\<close>

definition transferring ::
    "'h crypto \<Rightarrow> bytes \<Rightarrow> boot_slot_descriptor \<Rightarrow> bytes \<Rightarrow> nat \<Rightarrow> ('h, 'w) update_protocol_session \<Rightarrow> host_context \<Rightarrow> bool" where
  "transferring crypt pk slot bs k s c \<longleftrightarrow>
     between_frames s \<and> up_state s = UPDATE_PROTOCOL_SESSION_UPDATING \<and> up_installer_started s \<and>
     up_update_payload_offset s = k \<and> installing crypt pk slot bs k (up_installer s) c"

lemma transferring_core:
  assumes "session_core_part s' = session_core_part s"
  shows "transferring crypt pk slot bs k s' c = transferring crypt pk slot bs k s c"
  by (simp add: transferring_def between_frames_def core_part_members [OF assms])

lemma transferring_advance:
  "transferring crypt pk slot bs k (advance_sequence s) c = transferring crypt pk slot bs k s c"
  by (simp add: transferring_def between_frames_def advance_sequence_def)

text \<open>An acknowledged step: the session after the handler, the response and the next sequence number.\<close>

definition acknowledged :: "('h, 'w) update_protocol_session \<Rightarrow> update_protocol_frame \<Rightarrow> bytes \<Rightarrow> ('h, 'w) update_protocol_session" where
  "acknowledged s f extra = advance_sequence (snd (send_ack s (fr_sequence f) (fr_command f) extra))"

lemma acknowledged_core:
  "transferring crypt pk slot bs k (acknowledged s f extra) c = transferring crypt pk slot bs k s c"
  "up_expected_sequence (acknowledged s f extra) = up_expected_sequence s + 1"
  "up_state (acknowledged s f extra) = up_state s"
  using core_part_members [OF response_core(3), of s "fr_sequence f" "fr_command f" extra]
  by (simp_all add: acknowledged_def transferring_advance transferring_core [OF response_core(3)])
    (simp_all add: advance_sequence_def)

lemma begin_step:
  assumes s: "between_frames s" "up_state s = UPDATE_PROTOCOL_SESSION_IDLE" "up_public_key s = pk"
    and f: "carries f UPDATE_PROTOCOL_CMD_BEGIN_UPDATE (up_expected_sequence s) (take 512 bs)" "512 \<le> length bs"
    and init: "update_installer_session_init crypt (up_flash s) pk (up_install_options s) (ses_result (up_installer s)) c =
      (UPDATE_INSTALL_OK, i0)"
    and beg: "update_installer_begin crypt i0 c (take 512 bs) = (UPDATE_INSTALL_OK, i, c')"
    and i: "installing crypt pk slot bs 0 i c'"
  shows "\<exists>s'. snd (handle_frame crypt s c f) = (s', c') \<and> transferring crypt pk slot bs 0 s' c' \<and>
    up_expected_sequence s' = up_expected_sequence s + 1"
proof -
  let ?s = "s\<lparr>up_installer_started := True, up_installer := i, up_state := UPDATE_PROTOCOL_SESSION_UPDATING,
    up_update_payload_offset := 0\<rparr>"
  have len: "unat (fr_payload_length f) = 512" "take 512 (fr_payload f) = take 512 bs"
    using f by (auto simp: carries_def)
  have "snd (handle_frame crypt s c f) = (acknowledged ?s f [], c')"
    using f s init beg len
    by (simp add: handle_frame_def carries_def execute_frame_def handle_begin_update_def with_device_def
        acknowledged_def)
  moreover have "transferring crypt pk slot bs 0 ?s c'"
    using s i by (simp add: transferring_def between_frames_def)
  ultimately show ?thesis by (simp add: acknowledged_core)
qed

lemma write_step:
  assumes s: "transferring crypt pk slot bs k s c" and ok: "package_ok crypt pk slot bs"
    and d: "d \<noteq> []" "length d \<le> 1020" "d = take (length d) (drop k (drop 512 bs))"
    and f: "carries f UPDATE_PROTOCOL_CMD_WRITE_BLOCK (up_expected_sequence s) (le32 (of_nat k) @ d)"
  shows "\<exists>s' c'. snd (handle_frame crypt s c f) = (s', c') \<and> transferring crypt pk slot bs (k + length d) s' c' \<and>
    up_expected_sequence s' = up_expected_sequence s + 1"
proof -
  note s' = s [unfolded transferring_def]
  from s' installing_write [OF _ ok d(1,3)] obtain i c' where
    w: "update_installer_write crypt (up_installer s) c k d = (UPDATE_INSTALL_OK, i, c')"
    and i: "installing crypt pk slot bs (k + length d) i c'" by blast
  have k: "k + length d \<le> 0x5FE00" using i package_sizes(3) [OF ok] unfolding installing_def by linarith
  have "fr_payload f = take (4 + length d) (fr_payload f) @ drop (4 + length d) (fr_payload f)" by simp
  also have "take (4 + length d) (fr_payload f) = le32 (of_nat k) @ d" using f by (simp add: carries_def)
  finally have pl: "fr_payload f = le32 (of_nat k) @ d @ drop (4 + length d) (fr_payload f)" by simp
  have len: "unat (fr_payload_length f) = 4 + length d" using f by (simp add: carries_def)
  have off: "unat (load_le32 (fr_payload f)) = k"
    by (subst pl) (use k in \<open>simp add: load_le32_le32 unat_of_nat\<close>)
  have blk: "take (length d) (drop 4 (fr_payload f)) = d" by (subst pl) simp
  let ?s = "s\<lparr>up_installer := i, up_update_payload_offset := k + length d\<rparr>"
  have "0 < length d" using d(1) by simp
  then have "snd (handle_frame crypt s c f) = (acknowledged ?s f [], c')"
    using f s' w len off blk d(2) k
    by (simp add: handle_frame_def carries_def execute_frame_def handle_write_block_def with_device_def Let_def
        acknowledged_def size_add_def)
  moreover have "transferring crypt pk slot bs (k + length d) ?s c'"
    using s' i by (simp add: transferring_def between_frames_def)
  ultimately show ?thesis by (simp add: acknowledged_core)
qed

lemma finish_step:
  assumes s: "transferring crypt pk slot bs (length (drop 512 bs)) s c" and ok: "package_ok crypt pk slot bs"
    and sha: "sha512_streams crypt"
    and f: "carries f UPDATE_PROTOCOL_CMD_FINISH_UPDATE (up_expected_sequence s) []"
  shows "\<exists>s' c' w. snd (handle_frame crypt s c f) = (s', c') \<and> up_state s' = UPDATE_PROTOCOL_SESSION_FINISHED \<and>
    host_fault_free c' \<and> journal_record c' w \<and> sequence w < UINT32_MAX - 1 \<and>
    state w = BOOT_METADATA_STATE_CANDIDATE_READY \<and> candidate_slot w = slot_num (slot_id slot) \<and>
    slot_bootable crypt pk (host_view c') slot \<and> stored c' (unat (signed_image_base slot)) bs"
proof -
  note s' = s [unfolded transferring_def]
  from s' installing_finish [OF _ ok sha] obtain i c' w where
    fin: "update_installer_finish crypt (up_installer s) c = (UPDATE_INSTALL_OK, i, c')"
    and res: "host_fault_free c'" "journal_record c' w" "sequence w < UINT32_MAX - 1"
      "state w = BOOT_METADATA_STATE_CANDIDATE_READY" "candidate_slot w = slot_num (slot_id slot)"
      "slot_bootable crypt pk (host_view c') slot" "stored c' (unat (signed_image_base slot)) bs" by blast
  let ?s = "s\<lparr>up_installer := i, up_state := UPDATE_PROTOCOL_SESSION_FINISHED\<rparr>"
  have empty: "payload_is_empty f" using f by (simp add: carries_def payload_is_empty_def unat_eq_zero)
  have "snd (handle_frame crypt s c f) = (acknowledged ?s f (build_status_payload ?s), c')"
    using f s' fin empty
    by (simp add: handle_frame_def carries_def execute_frame_def handle_finish_update_def with_device_def Let_def
        acknowledged_def)
  then show ?thesis using res by (auto simp: acknowledged_core)
qed

section \<open>The script of the host\<close>

text \<open>The payload in blocks; \<open>seq\<close> and \<open>k\<close> are the next sequence number and offset.\<close>

fun write_frames :: "u16 \<Rightarrow> nat \<Rightarrow> bytes list \<Rightarrow> bytes" where
  "write_frames seq k [] = []"
| "write_frames seq k (d # ds) =
     wire UPDATE_PROTOCOL_CMD_WRITE_BLOCK seq (le32 (of_nat k) @ d) @ write_frames (seq + 1) (k + length d) ds"

definition update_script :: "u16 \<Rightarrow> bytes \<Rightarrow> bytes list \<Rightarrow> bytes" where
  "update_script seq package blocks =
     wire UPDATE_PROTOCOL_CMD_BEGIN_UPDATE seq (take 512 package) @
     write_frames (seq + 1) 0 blocks @
     wire UPDATE_PROTOCOL_CMD_FINISH_UPDATE (seq + 1 + of_nat (length blocks)) []"

lemma write_script:
  assumes "transferring crypt pk slot bs k s c" and ok: "package_ok crypt pk slot bs"
    and "concat blocks = drop k (drop 512 bs)" and "\<forall>d \<in> set blocks. d \<noteq> [] \<and> length d \<le> 1020"
  shows "\<exists>s' c'. receive crypt (write_frames (up_expected_sequence s) k blocks) s c = (s', c') \<and>
    transferring crypt pk slot bs (length (drop 512 bs)) s' c' \<and>
    up_expected_sequence s' = up_expected_sequence s + of_nat (length blocks)"
  using assms(1,3,4)
proof (induction blocks arbitrary: k s c)
  case Nil
  have "k \<le> length (drop 512 bs)" using Nil.prems(1) unfolding transferring_def installing_def by blast
  with Nil.prems have "k = length (drop 512 bs)" by (simp del: drop_drop)
  with Nil.prems show ?case by (simp del: drop_drop)
next
  case (Cons d blocks)
  have d: "d \<noteq> []" "length d \<le> 1020" "d = take (length d) (drop k (drop 512 bs))"
    using Cons.prems(2,3) by (auto simp: append_eq_conv_conj)
  have rest: "concat blocks = drop (k + length d) (drop 512 bs)"
    using arg_cong [OF Cons.prems(2), of "drop (length d)"] by (simp add: ac_simps)
  have bf: "between_frames s" using Cons.prems(1) by (simp add: transferring_def)
  have len: "length (le32 (of_nat k) @ d) \<le> 1024" using d(2) by simp
  from receive_frame [OF bf len] obtain q f where
    rx: "receive crypt (wire UPDATE_PROTOCOL_CMD_WRITE_BLOCK (up_expected_sequence s) (le32 (of_nat k) @ d)) s c =
      snd (handle_frame crypt (s\<lparr>up_parser := q\<rparr>) c f)"
    and f: "carries f UPDATE_PROTOCOL_CMD_WRITE_BLOCK (up_expected_sequence s) (le32 (of_nat k) @ d)"
    and q: "between_frames (s\<lparr>up_parser := q\<rparr>)" by blast
  have "transferring crypt pk slot bs k (s\<lparr>up_parser := q\<rparr>) c" using Cons.prems(1) q by (simp add: transferring_def)
  from write_step [OF this ok d, of f] f obtain s1 c1 where
    step: "snd (handle_frame crypt (s\<lparr>up_parser := q\<rparr>) c f) = (s1, c1)"
      "transferring crypt pk slot bs (k + length d) s1 c1" "up_expected_sequence s1 = up_expected_sequence s + 1" by auto
  from Cons.IH [OF step(2) rest] Cons.prems(3) rx step show ?case
    by (auto simp: receive_append add.assoc)
qed

text \<open>
  C5. A host that follows the protocol installs its package: on a fault-free device with a confirmed
  image, the bytes of a BEGIN frame with the header of a package that the package check accepts for
  the inactive slot and whose version is newer, of WRITE frames with its payload cut into blocks of
  1 to 1020 bytes in any way, and of a FINISH frame, take a new session to FINISHED; the slot then
  holds the package, and the next boot records a trial and enters it. Nothing is assumed of the
  response channel, and of the cryptographic library only that hashing in pieces gives the hash of
  the whole.
\<close>

theorem script_installs:
  assumes ff: "host_fault_free c"
    and flash: "flash_ops flash = writable_ops" "wf_flash flash" "program_alignment flash = 1"
    and opts: "options_are_valid flash options" "io_fault_hook options = None"
    and rec: "boot_metadata_recover_from_flash metadata_flash c = (BOOT_METADATA_OK, Some (r, v))"
    and st: "state r = BOOT_METADATA_STATE_CONFIRMED" "unat (sequence r) < 0xFFFFFFFC"
    and slot: "slot \<in> {boot_slot_a, boot_slot_b}" "slot_num (slot_id slot) \<noteq> active_slot r"
    and pkg: "fst (update_package_verify_for_slot crypt bs pk slot) = Inr p"
    and newer: "candidate_image_version r < image_version (decode_manifest_bytes bs)"
    and sha: "sha512_streams crypt"
    and blocks: "concat blocks = drop 512 bs" "\<forall>d \<in> set blocks. d \<noteq> [] \<and> length d \<le> 1020"
  shows "\<exists>s c1. receive crypt (update_script 0 bs blocks) (update_protocol_session_init crypt flash pk options wr ctx) c = (s, c1) \<and>
    up_state s = UPDATE_PROTOCOL_SESSION_FINISHED \<and>
    mem_range (host_view c1) (unat (signed_image_base slot)) (length bs) = bs \<and>
    (\<exists>ev st effs c2 r2. boot_sequence_execute crypt pk c1 csr = (ev, BOOT_JUMP st effs, c2) \<and>
       last effs = ENTER (slot_entry (host_view c1) slot) \<and>
       journal_view (boot_metadata_recover_from_flash metadata_flash c2) = (BOOT_METADATA_OK, Some r2) \<and>
       state r2 = BOOT_METADATA_STATE_PENDING_TRIAL \<and> boot_attempt_count r2 = 2)"
proof -
  let ?s0 = "update_protocol_session_init crypt flash pk options wr ctx"
  have ab: "slot = boot_slot_a \<or> slot = boot_slot_b" using slot(1) by simp
  have ok: "package_ok crypt pk slot bs"
    using pkg by (simp add: verify_package_iff [OF ab] parse_iff package_ok_def)
  have s0: "between_frames ?s0" "up_state ?s0 = UPDATE_PROTOCOL_SESSION_IDLE" "up_public_key ?s0 = pk"
    "up_expected_sequence ?s0 = 0" "up_flash ?s0 = flash" "up_install_options ?s0 = options"
    using parser_wf_init by (simp_all add: between_frames_def update_protocol_session_init_def update_protocol_parser_init_def
        parser_reset_state_def)
  from open_fresh [OF ff flash opts rec st(1) slot, of crypt pk "ses_result (up_installer ?s0)"] obtain i0 where
    init: "update_installer_session_init crypt flash pk options (ses_result (up_installer ?s0)) c = (UPDATE_INSTALL_OK, i0)"
    and fresh: "session_fresh crypt r slot pk i0 c" by blast
  from installing_begin [OF fresh st ok newer] obtain i1 c1 where
    beg: "update_installer_begin crypt i0 c (take 512 bs) = (UPDATE_INSTALL_OK, i1, c1)" "installing crypt pk slot bs 0 i1 c1"
    by blast
  have hl: "length (take 512 bs) \<le> 1024" by simp
  from receive_frame [OF s0(1) hl] obtain q f where
    rx: "receive crypt (wire UPDATE_PROTOCOL_CMD_BEGIN_UPDATE 0 (take 512 bs)) ?s0 c =
      snd (handle_frame crypt (?s0\<lparr>up_parser := q\<rparr>) c f)"
    and f: "carries f UPDATE_PROTOCOL_CMD_BEGIN_UPDATE 0 (take 512 bs)"
    and q: "between_frames (?s0\<lparr>up_parser := q\<rparr>)" by blast
  from begin_step [OF q, of pk f bs crypt c i0 i1 c1 slot] f s0 init beg package_sizes(1) [OF ok] obtain s1 where
    b: "snd (handle_frame crypt (?s0\<lparr>up_parser := q\<rparr>) c f) = (s1, c1)" "transferring crypt pk slot bs 0 s1 c1"
      "up_expected_sequence s1 = 1" by auto
  from write_script [OF b(2) ok _ blocks(2)] blocks(1) b(3) obtain s2 c2 where
    w: "receive crypt (write_frames 1 0 blocks) s1 c1 = (s2, c2)" "transferring crypt pk slot bs (length (drop 512 bs)) s2 c2"
      "up_expected_sequence s2 = 1 + of_nat (length blocks)" by auto
  have bf: "between_frames s2" using w(2) by (simp add: transferring_def)
  have "length ([] :: bytes) \<le> 1024" by simp
  from receive_frame [OF bf this] obtain q' f' where
    rx': "receive crypt (wire UPDATE_PROTOCOL_CMD_FINISH_UPDATE (1 + of_nat (length blocks)) []) s2 c2 =
      snd (handle_frame crypt (s2\<lparr>up_parser := q'\<rparr>) c2 f')"
    and f': "carries f' UPDATE_PROTOCOL_CMD_FINISH_UPDATE (1 + of_nat (length blocks)) []"
    and q': "between_frames (s2\<lparr>up_parser := q'\<rparr>)" by blast
  have "transferring crypt pk slot bs (length (drop 512 bs)) (s2\<lparr>up_parser := q'\<rparr>) c2"
    using w(2) q' by (simp add: transferring_def)
  from finish_step [OF this ok sha, of f'] f' w(3) obtain s3 c3 wr' where
    fin: "snd (handle_frame crypt (s2\<lparr>up_parser := q'\<rparr>) c2 f') = (s3, c3)" "up_state s3 = UPDATE_PROTOCOL_SESSION_FINISHED"
    and ff3: "host_fault_free c3" and j: "journal_record c3 wr'" "sequence wr' < UINT32_MAX - 1"
      "state wr' = BOOT_METADATA_STATE_CANDIDATE_READY" "candidate_slot wr' = slot_num (slot_id slot)"
    and res: "slot_bootable crypt pk (host_view c3) slot" "stored c3 (unat (signed_image_base slot)) bs" by auto
  have run: "receive crypt (update_script 0 bs blocks) ?s0 c = (s3, c3)"
    using rx b w rx' fin by (simp add: update_script_def receive_append)
  from j(1) obtain v' where rec': "boot_metadata_recover_from_flash metadata_flash c3 = (BOOT_METADATA_OK, Some (wr', v'))"
    by (rule journal_recordE)
  have look: "boot_slot_lookup (candidate_slot wr') = Some slot" using j(4) ab by (auto simp: boot_slot_rows)
  from ready_candidate_boots [OF ff3 rec' j(3,2) look res(1), of csr] run fin res show ?thesis
    by (simp add: stored_def)
qed

end
