(* ===== verification/Sample_Protocol.thy ===== *)
theory Sample_Protocol
  imports Sample_Update Update_Mode Update_Protocol_Liveness
begin

text \<open>
  The theorems about the protocol, the service and the life of the device on the concrete device
  of \<open>Sample_Device\<close>, with a host that sends a given list of bytes and then falls silent.
\<close>

section \<open>A host and a configuration\<close>

fun list_getc :: "bytes getc" where
  "list_getc [] = (BYTE_READER_NO_DATA, 0, [])"
| "list_getc (b # bs) = (BYTE_READER_OK, b, bs)"

lemma list_getc_drains: "source_drains list_getc length"
  unfolding source_drains_def
proof (intro allI impI)
  fix r status b r'
  assume "list_getc r = (status, b, r')"
  then show "length r' \<le> length r \<and> (status = BYTE_READER_OK \<longrightarrow> length r' < length r)" by (cases r) auto
qed

definition sample_config :: "(bytes, bytes, nat) update_service_config" where
  "sample_config =
     \<lparr>sc_flash = metadata_flash, sc_public_key = [], sc_install_options = sample_options,
      sc_reader = list_getc, sc_write = (\<lambda>sent d. (UPDATE_PROTOCOL_STATUS_OK, sent @ d)), sc_write_context = [],
      sc_reset = Some Suc, sc_reset_context = 0, sc_entry_idle_polls = 4, sc_entry_max_bytes = 0,
      sc_frame_byte_timeout_polls = 4, sc_max_frame_timeouts = 0\<rparr>"

lemma sample_config_simps:
  "sc_flash sample_config = metadata_flash" "sc_public_key sample_config = []" "sc_reader sample_config = list_getc"
  by (simp_all add: sample_config_def)

lemma sample_config_ok: "config_ok [] sample_config"
  by (simp add: config_ok_def sample_config_simps sample_flash)

lemma sample_record_good:
  "journal_record (sample_device confirmed_record) confirmed_record"
  "record_good sample_crypto [] (host_view (sample_device confirmed_record)) confirmed_record"
  using journal_recordI [OF sample_start] confirmed_sample(2) sample_bootable sample_state(1)
  by (simp_all add: record_good_def slot_good_def)

text \<open>The device whose power was cut right after the header of the package had been accepted.\<close>

lemma sample_cut:
  obtains c r where "host_healthy c" "journal_record c r" "state r = BOOT_METADATA_STATE_WRITING"
proof -
  from sample_session obtain s where
    fresh: "session_fresh sample_crypto confirmed_record boot_slot_b [] s (sample_device confirmed_record)" by blast
  from begin_fresh [OF fresh sample_state(1,2) sample_package_ok sample_state(5)] obtain s1 c1 where
    inv: "session_inv sample_crypto s1 c1" and st: "ses_state s1 = UPDATE_INSTALL_SESSION_WRITING" by metis
  have "session_writing s1" using st by (simp add: session_writing_def)
  from inv_writing [OF inv this] inv_healthy [OF inv] show ?thesis
    by (intro that [of c1 "ses_writing_metadata s1"]) (simp_all add: writing_entry_def)
qed

section \<open>Instances\<close>

theorem protocol_never_bricks_witness:
  "\<exists>s c' ev st effs c''. receive sample_crypto [0x53, 0x42, 0xFF] (service_session sample_crypto sample_config)
     (sample_device confirmed_record) = (s, c') \<and>
   boot_sequence_execute sample_crypto [] c' 0 = (ev, BOOT_JUMP st effs, c'')"
proof -
  obtain s c' where run: "receive sample_crypto [0x53, 0x42, 0xFF] (service_session sample_crypto sample_config)
     (sample_device confirmed_record) = (s, c')" by fastforce
  from protocol_never_bricks [OF sample_flash(1,2) sample_healthy(1) sample_start confirmed_sample(2) sample_bootable
      run [unfolded service_session_def sample_config_simps], of 0] run
  show ?thesis by blast
qed

theorem stale_frame_ignored_witness:
  "snd (snd (handle_frame sample_crypto (service_session sample_crypto sample_config) (sample_device confirmed_record)
     \<lparr>fr_version = 1, fr_command = UPDATE_PROTOCOL_CMD_BEGIN_UPDATE, fr_sequence = 7, fr_payload_length = 0,
      fr_payload = []\<rparr>)) = sample_device confirmed_record"
proof -
  let ?f = "\<lparr>fr_version = 1, fr_command = UPDATE_PROTOCOL_CMD_BEGIN_UPDATE, fr_sequence = 7, fr_payload_length = 0,
      fr_payload = []\<rparr>"
  obtain st s' c' where run: "handle_frame sample_crypto (service_session sample_crypto sample_config)
      (sample_device confirmed_record) ?f = (st, s', c')" by (metis prod_cases3)
  from stale_frame_ignored [OF run] run show ?thesis
    by (simp add: service_session_def update_protocol_session_init_def)
qed

theorem service_terminates_witness:
  "\<exists>out. update_service_run sample_crypto sample_config [0, 1, 2] (sample_device confirmed_record) = Some out"
  using service_terminates [of sample_config length] list_getc_drains by (metis sample_config_simps(3))

theorem service_never_bricks_witness:
  "\<exists>result s r' c' x ev st effs c''.
     update_service_run sample_crypto sample_config [0, 1, 2] (sample_device confirmed_record) = Some (result, s, r', c', x) \<and>
     boot_sequence_execute sample_crypto [] c' 0 = (ev, BOOT_JUMP st effs, c'')"
proof -
  have "source_drains (sc_reader sample_config) length" by (simp add: sample_config_simps list_getc_drains)
  from service_never_bricks [OF this, unfolded sample_config_simps, OF sample_flash(1,2) sample_healthy(1) sample_start
      confirmed_sample(2) sample_bootable, of "[0, 1, 2]" 0]
  show ?thesis by blast
qed

theorem device_always_boots_witness:
  "\<exists>ev st effs c'. boot_sequence_execute sample_crypto []
     (device_life sample_crypto [] [UPDATE_CUT sample_config [1, 2], RESET 0, UPDATE_SERVICE sample_config [3], CONFIRM 1]
       (sample_device confirmed_record)) 0 = (ev, BOOT_JUMP st effs, c')"
proof -
  have "list_all (event_ok []) [UPDATE_CUT sample_config [1, 2], RESET 0, UPDATE_SERVICE sample_config [3], CONFIRM 1]"
    by (simp add: sample_config_ok)
  from device_always_boots [OF sample_healthy(1) sample_record_good this, of 0] show ?thesis by blast
qed

theorem interrupted_update_blocks_witness:
  "\<exists>c r. journal_record c r \<and> state r = BOOT_METADATA_STATE_WRITING \<and>
     device_life sample_crypto [] [UPDATE_SERVICE sample_config [1, 2], RESET 0] c = c"
proof -
  obtain c r where c: "host_healthy c" "journal_record c r" "state r = BOOT_METADATA_STATE_WRITING" by (rule sample_cut)
  have "list_all (event_ok []) [UPDATE_SERVICE sample_config [1, 2], RESET 0]" by (simp add: sample_config_ok)
  from interrupted_update_blocks [OF c this, of sample_crypto] c show ?thesis by blast
qed

theorem script_installs_witness:
  "\<exists>s c1. receive sample_crypto (update_script 0 sample_package [drop 512 sample_package])
     (update_protocol_session_init sample_crypto metadata_flash [] sample_options (\<lambda>sent d. (UPDATE_PROTOCOL_STATUS_OK, sent @ d)) [])
     (sample_device confirmed_record) = (s, c1) \<and> up_state s = UPDATE_PROTOCOL_SESSION_FINISHED"
proof -
  have "fst (update_package_verify_for_slot sample_crypto sample_package [] boot_slot_b) = Inr (package_of sample_package)"
    using sample_package_ok by (simp add: package_ok_iff)
  note pkg = this
  have "drop 512 sample_package \<noteq> []" "length (drop 512 sample_package) \<le> 1020" "concat [drop 512 sample_package] = drop 512 sample_package"
    using sample_package_length by simp_all
  then show ?thesis
    using script_installs [OF sample_healthy(2) sample_flash sample_start sample_state(1-4) pkg sample_state(5) sample_streams,
        of "[drop 512 sample_package]" "\<lambda>sent d. (UPDATE_PROTOCOL_STATUS_OK, sent @ d)" "[]" 0] by auto
qed

section \<open>Console and update mode\<close>

definition sample_console :: "(bytes, bytes, nat) diagnostic_console_config" where
  "sample_console =
     \<lparr>cc_reader = list_getc, cc_write = (\<lambda>sent d. (True, sent @ d)), cc_flash = Some metadata_flash,
      cc_board_name = None, cc_reset_cause = None, cc_reset = Some Suc, cc_reset_context = 0,
      cc_idle_timeout_polls = 1,
      cc_performance = \<lparr>performance_cpu_clock_hz = 16000000, sha512_cycles = 0, ed25519_cycles = 0, verification_cycles = 0\<rparr>\<rparr>"

lemma sample_console_wf: "console_wf diagnostic_console_init" "edited_line diagnostic_console_init = ([], False)"
  by (simp_all add: console_wf_def edited_line_def diagnostic_console_init_def)

lemma sample_delivers: "delivers list_getc 1 [0x68, 0x08, 0x69, 0x0D] ([0x68, 0x08, 0x69] @ [0x0D]) []"
  by (simp add: byte_reader_getc_timeout_def byte_reader_getc_nonblocking_def)

theorem line_editor_refines_witness:
  "\<exists>console'. read_line sample_console diagnostic_console_init [] [0x68, 0x08, 0x69, 0x0D] =
     Some (LINE_STATUS_READY, console', [], []) \<and> c_string (dc_line console') = [0x69]"
proof -
  have keys: "\<forall>b \<in> set [0x68, 0x08, 0x69]. line_key b" by (simp add: line_key_def)
  have src: "delivers (cc_reader sample_console) (config_timeout sample_console) [0x68, 0x08, 0x69, 0x0D]
      ([0x68, 0x08, 0x69] @ [0x0D]) []"
    using sample_delivers by (simp add: sample_console_def config_timeout_def)
  from line_editor_refines [OF sample_console_wf(1) keys disjI1 [OF refl] src, of "[]"] sample_console_wf(2)
  show ?thesis by (auto simp: edit_key_def)
qed

theorem console_acts_on_exact_commands_witness:
  "fst (execute_line sample_console (sample_device confirmed_record)
     (copy_initial_line diagnostic_console_init (ascii ''reboot'')) []) =
     DIAGNOSTIC_CONSOLE_RESULT_RESET_REQUESTED"
proof -
  let ?k = "copy_initial_line diagnostic_console_init (ascii ''reboot'')"
  obtain result k w' x where run: "execute_line sample_console (sample_device confirmed_record) ?k [] = (result, k, w', x)" by (metis prod_cases4)
  have "line_words ?k = [ascii ''reboot'']" by code_simp
  with console_acts_on_exact_commands [OF run] run show ?thesis
    by (simp add: line_result_def sample_console_def)
qed

theorem decimal_output_exact_witness:
  "decimal_value (concat (console_put_u32 4294967295)) = 4294967295 \<and> length (concat (console_put_u32 4294967295)) \<le> 10"
  using decimal_output_exact [of 4294967295] by simp

theorem entry_line_in_bounds_witness:
  "text_line_ok (fold entry_text_accept_byte [0x68, 0x69] (replicate 65 0, 0, False)) \<and>
   entry_text_accept_byte 0x68 (console_text diagnostic_console_init) = console_text (store_char diagnostic_console_init 0x68)"
proof -
  have "read_byte sample_console 0x68 diagnostic_console_init [] = Inl (store_char diagnostic_console_init 0x68)"
    by (simp add: read_byte_def Let_def)
  with entry_line_in_bounds [of "[0x68, 0x69]" sample_console "0x68" diagnostic_console_init "[]"
      "store_char diagnostic_console_init 0x68"] show ?thesis by blast
qed


end
