(* ===== verification/Sample_Platform.thy ===== *)
theory Sample_Platform
  imports Platform_Guarantees Sample_Protocol
begin

text \<open>
  A concrete build and device for the theorems about the research application: the application of
  slot A on the devices of the boot path, with an MPU of eight regions and a watchdog that answers
  at once. Each theorem with hypotheses has its instance here.
\<close>

section \<open>Data\<close>

definition sample_build :: build where
  "sample_build =
     \<lparr>PLATFORM_APP_BASE = SLOT_A_PAYLOAD_BASE, RSM_RESTRICTED_DIAGNOSTICS = False, CONFIRMATION_DELAY_TICKS = 2,
      TEST_SCENARIO = SCENARIO_NORMAL, vector_table = SLOT_A_PAYLOAD_BASE,
      vector_symbols = 0x20020000 # replicate 10 0x08020401, stack_guard_start = 0x2001E000, short_enums = True\<rparr>"

text \<open>Registers as they are after reset, with the given option bytes; the vector table reads as zero.\<close>

definition sample_hw :: "u32 \<Rightarrow> hw" where
  "sample_hw optcr =
     \<lparr>hw32 = (\<lambda>a. if a = 0xE000ED08 then SLOT_A_PAYLOAD_BASE else if a = 0xE000ED90 then 0x800
                  else if a = 0x40023C14 then optcr else 0),
      hw16 = (\<lambda>a. 1024),
      hw_core = \<lparr>core_vtor = SLOT_A_PAYLOAD_BASE, core_msp = 0x20020000, core_psp = 0, core_control = 0, core_primask = 0,
        core_basepri = 0, core_faultmask = 0\<rparr>\<rparr>"

abbreviation sample_rcc :: "nat \<Rightarrow> u32" where "sample_rcc \<equiv> \<lambda>_. 3"
abbreviation sample_iwdg :: "nat \<Rightarrow> u32" where "sample_iwdg \<equiv> \<lambda>_. 0"

definition sample_power_on :: "host_context \<Rightarrow> platform" where
  "sample_power_on c = platform_reset c no_report some_fault reset_mpu (\<lambda>_. 0)"

text \<open>The same registers with the vector table of the build in the flash.\<close>

definition intact_hw :: hw where
  "intact_hw = (sample_hw 0)\<lparr>hw32 := (\<lambda>a.
     if SLOT_A_PAYLOAD_BASE \<le> a \<and> a < SLOT_A_PAYLOAD_BASE + 64
     then load_expected_vector_entries sample_build ! unat ((a - SLOT_A_PAYLOAD_BASE) div 4)
     else hw32 (sample_hw 0) a)\<rparr>"

text \<open>Eight turns in which the command "help" is typed.\<close>

definition typed_help :: "hw \<Rightarrow> (hw \<times> u8 option) list" where
  "typed_help h = map (\<lambda>x. (h, x)) [None, Some 0x68, Some 0x65, Some 0x6C, Some 0x70, Some 0x0D, None, None]"

abbreviation sample_turns :: "(hw \<times> u8 option) list" where "sample_turns \<equiv> typed_help intact_hw"

lemma sample_build_ok: "slot_build sample_build" "test_scenario_health_ok sample_build" "ready_tick sample_build = 2"
  by (simp_all add: slot_build_def sample_build_def test_scenario_health_ok_def ready_tick_def)

lemma intact_registers:
  "hw32 intact_hw MPU_TYPE_ADDR = 0x800" "hw32 intact_hw VTOR_ADDR = SLOT_A_PAYLOAD_BASE" "hw32 intact_hw 0x40023C14 = 0"
  by (simp_all add: intact_hw_def sample_hw_def)

lemma sample_mpu:
  "fst (mpu_policy_init (stack_guard_start sample_build) (hw32 intact_hw MPU_TYPE_ADDR) reset_mpu)"
  "mpu_rasr reset_mpu 5 AND 1 = 0" "mpu_rasr reset_mpu 6 AND 1 = 0" "mpu_rasr reset_mpu 7 AND 1 = 0"
  unfolding intact_registers
  by (simp_all add: mpu_policy_init_def mpu_policy_build_regions_def policy_regions_def region_valid_def Let_def
      sample_build_def reset_mpu_def)

lemma sample_init: "init_good sample_build intact_hw sample_rcc sample_iwdg reset_mpu"
proof -
  have "fst (platform_watchdog_init sample_rcc sample_iwdg)"
    by (simp add: platform_watchdog_init_def wait_while.simps Let_def)
  moreover have "mandatory_self_tests_pass sample_build intact_hw"
    by (simp add: mandatory_self_tests_pass_def sample_build_def intact_hw_def sample_hw_def)
  ultimately show ?thesis using sample_mpu(1) by (simp add: init_good_def)
qed

lemma entry_cases:
  fixes i :: u32
  assumes "i < 16"
  shows "i \<in> {0, 1, 2, 3, 4, 5, 6, 7, 8, 9, 10, 11, 12, 13, 14, 15}"
proof -
  have "unat i < 16" using assms by (simp add: word_less_nat_alt)
  then have "unat i \<in> {0, 1, 2, 3, 4, 5, 6, 7, 8, 9, 10, 11, 12, 13, 14, 15}"
    by (simp only: insert_iff empty_iff) presburger
  then show ?thesis unfolding insert_iff empty_iff word_unat_eq_iff by simp
qed

lemma sample_entries:
  "load_expected_vector_entries sample_build =
     [0x20020000, 0x08020401, 0x08020401, 0x08020401, 0x08020401, 0x08020401, 0x08020401, 0, 0, 0, 0,
      0x08020401, 0x08020401, 0, 0x08020401, 0x08020401]"
  by (simp add: load_expected_vector_entries_def sample_build_def numeral_eq_Suc)

lemma sample_intact: "table_intact sample_build boot_slot_a intact_hw"
proof -
  have "entry_ok (vector_config sample_build) i (vc_observed (hw32 intact_hw) (vector_config sample_build) i)" if "i < 16" for i
    using entry_cases [OF that]
    by (elim insertE emptyE; simp add: entry_ok_def vc_kind_def vc_entry_def vc_observed_def vector_config_def
        vector_entry_kinds_def RSM_PLATFORM_APP_END_def intact_hw_def sample_entries; simp add: sample_build_def)
  then show ?thesis using intact_registers(2)
    by (simp add: table_intact_def entries_ok_def boot_slot_a_def) (simp add: vector_config_def)
qed

lemma sample_base: "PLATFORM_APP_BASE sample_build = payload_base boot_slot_a"
  by (simp add: sample_build_def boot_slot_a_def)

lemma sample_turns_intact: "\<forall>(h, x) \<in> set sample_turns. table_intact sample_build boot_slot_a h"
  using sample_intact by (simp add: typed_help_def)

lemma sample_length: "length (typed_help h) = 8"
  by (simp add: typed_help_def)

lemma sample_lookup: "boot_slot_lookup 0 = Some boot_slot_a"
  by (simp add: boot_slot_rows)

lemma sample_pending: "trial_pending (sample_device trial_record) trial_record boot_slot_a"
  using sample_healthy(2) [of trial_record] journal_recordI [OF sample_recover [OF sample_canonical(3)]]
  by (simp add: trial_pending_def trial_record_def sample_lookup)

lemma sample_ready: "journal_record (sample_device ready_record) ready_record"
  by (rule journal_recordI [OF sample_recover [OF sample_canonical(2)]])

abbreviation sample_run :: "host_context \<Rightarrow> idle_result" where
  "sample_run c \<equiv> platform_main sample_build intact_hw sample_rcc sample_iwdg sample_turns (sample_power_on c)"

lemma sample_confirms:
  "\<exists>p. platform_main sample_build intact_hw sample_rcc sample_iwdg sample_turns
      (platform_reset (sample_device trial_record) no_report some_fault reset_mpu (\<lambda>_. 0)) = IDLE_DONE p \<and>
    journal_record (p_flash p) (confirmed_next trial_record)"
proof (rule main_confirms [OF sample_pending sample_init sample_build_ok(2)])
  show "\<forall>(h, x) \<in> set sample_turns. hw32 h VTOR_ADDR = payload_base boot_slot_a"
    using sample_turns_intact by (auto simp: table_intact_def)
qed (simp add: sample_build_ok sample_length)

section \<open>Instances\<close>

theorem app_well_formed_witness: "app_ok sample_build (idle_state (sample_run (sample_device confirmed_record)))"
  unfolding sample_power_on_def by (rule app_well_formed [OF sample_build_ok(1)])

theorem application_keeps_device_bootable_witness:
  "\<exists>ev st effs c'. boot_sequence_execute sample_crypto [] (p_flash (idle_state (sample_run (sample_device confirmed_record)))) 0 =
     (ev, BOOT_JUMP st effs, c')"
  using application_keeps_device_bootable [OF sample_healthy(1) sample_record_good, of sample_build intact_hw sample_rcc
      sample_iwdg sample_turns no_report some_fault reset_mpu "\<lambda>_. 0" 0]
  unfolding sample_power_on_def by blast

theorem application_confirms_trial_witness:
  "\<exists>p. sample_run (sample_device trial_record) = IDLE_DONE p \<and>
     rsm_vector_public_status_name (vector_snapshot p) = ascii ''pass'' \<and> vs_failure_count (vector_snapshot p) = 0 \<and>
     journal_record (p_flash p) (confirmed_next trial_record)"
  unfolding sample_power_on_def
  by (rule application_confirms_trial [OF sample_pending sample_init sample_build_ok(2) sample_base sample_intact sample_turns_intact])
    (simp add: sample_build_ok sample_length)

theorem application_writes_need_gate_witness:
  "init_good sample_build intact_hw sample_rcc sample_iwdg reset_mpu \<and> test_scenario_health_ok sample_build"
proof -
  obtain p where p: "platform_main sample_build intact_hw sample_rcc sample_iwdg sample_turns
      (platform_reset (sample_device trial_record) no_report some_fault reset_mpu (\<lambda>_. 0)) = IDLE_DONE p"
    "journal_record (p_flash p) (confirmed_next trial_record)"
    using sample_confirms by blast
  have "confirmed_next trial_record \<noteq> trial_record" by (simp add: confirmed_next_def trial_record_def)
  then have "p_flash p \<noteq> sample_device trial_record"
    using p(2) journal_record_unique sample_pending by (auto simp: trial_pending_def)
  then have "p_flash (idle_state (platform_main sample_build intact_hw sample_rcc sample_iwdg sample_turns
      (platform_reset (sample_device trial_record) no_report some_fault reset_mpu (\<lambda>_. 0)))) \<noteq> sample_device trial_record"
    by (simp add: p(1))
  from application_writes_need_gate [OF this] show ?thesis by blast
qed

theorem memory_policy_always_in_force_witness:
  "\<not> mpu_permits MPU_WRITE (p_mpu (idle_state (sample_run (sample_device trial_record)))) 0x08008000"
  using memory_policy_always_in_force [OF sample_mpu refl, of "0x08008000"] unfolding sample_power_on_def by simp

text \<open>The table reads as zero for eight turns in the middle of the run.\<close>

theorem corrupted_vector_raises_alarm_witness:
  "\<exists>p. platform_main sample_build intact_hw sample_rcc sample_iwdg
       (sample_turns @ typed_help (sample_hw 0) @ sample_turns) (sample_power_on (sample_device trial_record)) = IDLE_DONE p \<and>
     platform_health_get_state (p_health p) = PLATFORM_SECURITY_FAILURE"
proof -
  obtain p where p: "platform_main sample_build intact_hw sample_rcc sample_iwdg
      (sample_turns @ typed_help (sample_hw 0) @ sample_turns)
      (platform_reset (sample_device trial_record) no_report some_fault reset_mpu (\<lambda>_. 0)) = IDLE_DONE p"
    using main_continues [OF sample_build_ok(2)] by blast
  have "vc_observed (hw32 (sample_hw 0)) (vector_config sample_build) 0 = 0"
    by (simp add: vc_observed_def vector_config_def sample_build_def sample_hw_def)
  then have "\<not> entry_ok (vector_config sample_build) 0 (vc_observed (hw32 (sample_hw 0)) (vector_config sample_build) 0)"
    by (simp add: entry_ok_def vc_kind_def vc_entry_def vector_config_def vector_entry_kinds_def)
  then have bad: "\<forall>(h', x) \<in> set (typed_help (sample_hw 0)).
      \<not> entry_ok (vector_config sample_build) 0 (vc_observed (hw32 h') (vector_config sample_build) 0)"
    by (auto simp: typed_help_def)
  have "8 \<le> length (typed_help (sample_hw 0))" by (simp add: sample_length)
  from corrupted_vector_raises_alarm [OF sample_build_ok(1) p this _ bad] p show ?thesis
    unfolding sample_power_on_def by simp
qed

theorem candidate_becomes_active_witness:
  "\<exists>ev s effs c1 p ev' s' effs'.
    boot_sequence_execute sample_crypto [] (sample_device ready_record) 0 = (ev, BOOT_JUMP s effs, c1) \<and>
    sample_run c1 = IDLE_DONE p \<and>
    boot_sequence_execute sample_crypto [] (p_flash p) 0 = (ev', BOOT_JUMP s' effs', p_flash p)"
proof -
  have r: "state ready_record = BOOT_METADATA_STATE_CANDIDATE_READY" "sequence ready_record < UINT32_MAX - 2"
    "boot_slot_lookup (candidate_slot ready_record) = Some boot_slot_a" by (simp_all add: ready_record_def sample_lookup)
  have "ready_tick sample_build \<le> length sample_turns" by (simp add: sample_build_ok sample_length)
  from candidate_becomes_active [OF sample_healthy(2) sample_ready r sample_bootable sample_init sample_build_ok(2) sample_base
      sample_intact sample_turns_intact this,
      where pk = "[]" and csr = 0 and csr' = 0 and report = no_report and fault = some_fault and gpio = "\<lambda>_. 0"]
  show ?thesis unfolding sample_power_on_def by blast
qed


end
