(* ===== verification/Boot_Provision.thy ===== *)
theory Boot_Provision
  imports Device_Life
begin

text \<open>
  Factory provisioning: the records that the host tool \<^verbatim>\<open>boot_metadata_provision\<close> makes for a new
  device (\<^verbatim>\<open>tools/boot_metadata_provision_core.c\<close>, \<^verbatim>\<open>tools/boot_metadata_provision.c\<close>). The arguments of
  the command line are a list of strings, an option that was not given is None. A file is written when
  the file system lets it (\<open>can_write\<close>); the files of a run are returned in the order they are
  written. \<^verbatim>\<open>strtoul\<close> is the function of the C library with base 0 and a 64-bit \<^verbatim>\<open>unsigned long\<close>. The
  contents of the JSON report are not modelled, only whether it can be written.

  Lemmas: which arguments give an image and what the image holds; a device with the two images in its
  metadata sectors and an acceptable image in the slot boots that slot.
\<close>

section \<open>Records\<close>

definition prepare_confirmed :: "u32 \<Rightarrow> u32 \<Rightarrow> boot_metadata_status + boot_metadata_record" where
  "prepare_confirmed active version =
     boot_metadata_prepare_next boot_metadata_empty BOOT_METADATA_STATE_CONFIRMED active BOOT_SLOT_NONE version 0 1 0"

definition boot_metadata_provision_confirmed_record :: "u32 \<Rightarrow> u32 \<Rightarrow> boot_metadata_status + boot_metadata_record" where
  "boot_metadata_provision_confirmed_record active version = prepare_confirmed active version"

definition boot_metadata_provision_confirmed_image :: "u32 \<Rightarrow> u32 \<Rightarrow> boot_metadata_status + bytes" where
  "boot_metadata_provision_confirmed_image active version =
     (case prepare_confirmed active version of Inl status \<Rightarrow> Inl status | Inr r \<Rightarrow> boot_metadata_encode r)"

definition boot_metadata_provision_update_sequence ::
    "u32 \<Rightarrow> u32 \<Rightarrow> u32 \<Rightarrow> u32 \<Rightarrow> boot_metadata_status + bytes \<times> bytes \<times> bytes" where
  "boot_metadata_provision_update_sequence active candidate version candidate_version =
     (if active = candidate \<or> candidate_version \<le> version then Inl BOOT_METADATA_ERR_BAD_FORMAT
      else case prepare_confirmed active version of Inl status \<Rightarrow> Inl status | Inr confirmed_rec \<Rightarrow>
      case boot_metadata_prepare_next confirmed_rec BOOT_METADATA_STATE_WRITING active candidate candidate_version 0 0 0 of
        Inl status \<Rightarrow> Inl status | Inr writing_rec \<Rightarrow>
      case boot_metadata_prepare_next writing_rec BOOT_METADATA_STATE_CANDIDATE_READY active candidate candidate_version 0 0 0 of
        Inl status \<Rightarrow> Inl status | Inr ready_rec \<Rightarrow>
      case boot_metadata_encode confirmed_rec of Inl status \<Rightarrow> Inl status | Inr confirmed_image \<Rightarrow>
      case boot_metadata_encode writing_rec of Inl status \<Rightarrow> Inl status | Inr writing_image \<Rightarrow>
      case boot_metadata_encode ready_rec of Inl status \<Rightarrow> Inl status | Inr ready_image \<Rightarrow>
        Inr (confirmed_image, writing_image, ready_image))"

section \<open>Command line\<close>

record provision_options =
  po_slot :: "string option"
  po_candidate_slot :: "string option"
  po_image_version :: "string option"
  po_candidate_image_version :: "string option"
  po_copy_a_output :: "string option"
  po_copy_b_output :: "string option"
  po_confirmed_output :: "string option"
  po_writing_output :: "string option"
  po_candidate_ready_output :: "string option"
  po_json_output :: "string option"
  po_sector_image :: bool

definition no_options :: provision_options where
  "no_options =
     \<lparr>po_slot = None, po_candidate_slot = None, po_image_version = None, po_candidate_image_version = None,
      po_copy_a_output = None, po_copy_b_output = None, po_confirmed_output = None, po_writing_output = None,
      po_candidate_ready_output = None, po_json_output = None, po_sector_image = False\<rparr>"

text \<open>\<^verbatim>\<open>strtoul\<close> with base 0: the value, whether it overflowed, and the rest of the text; None without a digit.\<close>

definition char_code :: "char \<Rightarrow> nat" where
  "char_code c = of_char c"

definition digit_value :: "char \<Rightarrow> nat option" where
  "digit_value c =
     (let n = char_code c
      in if 48 \<le> n \<and> n \<le> 57 then Some (n - 48)
         else if 97 \<le> n \<and> n \<le> 122 then Some (n - 87)
         else if 65 \<le> n \<and> n \<le> 90 then Some (n - 55)
         else None)"

definition is_digit_of :: "nat \<Rightarrow> char \<Rightarrow> bool" where
  "is_digit_of base c \<longleftrightarrow> (case digit_value c of None \<Rightarrow> False | Some d \<Rightarrow> d < base)"

definition digits_value :: "nat \<Rightarrow> string \<Rightarrow> nat" where
  "digits_value base ds = foldl (\<lambda>n c. n * base + the (digit_value c)) 0 ds"

definition is_c_space :: "char \<Rightarrow> bool" where
  "is_c_space c \<longleftrightarrow> char_code c = 32 \<or> 9 \<le> char_code c \<and> char_code c \<le> 13"

definition strip_sign :: "string \<Rightarrow> bool \<times> string" where
  "strip_sign s = (case s of c # cs \<Rightarrow> if c = CHR ''-'' then (True, cs) else if c = CHR ''+'' then (False, cs) else (False, s)
                   | [] \<Rightarrow> (False, s))"

definition strip_base :: "string \<Rightarrow> nat \<times> string" where
  "strip_base s =
     (if length s \<ge> 3 \<and> s ! 0 = CHR ''0'' \<and> (s ! 1 = CHR ''x'' \<or> s ! 1 = CHR ''X'') \<and> is_digit_of 16 (s ! 2)
      then (16, drop 2 s)
      else if s \<noteq> [] \<and> s ! 0 = CHR ''0'' then (8, s) else (10, s))"

definition strtoul :: "string \<Rightarrow> (nat \<times> bool \<times> string) option" where
  "strtoul text =
     (case strip_sign (dropWhile is_c_space text) of (negative, s) \<Rightarrow>
      case strip_base s of (base, t) \<Rightarrow>
        let ds = takeWhile (is_digit_of base) t; n = digits_value base ds
        in if ds = [] then None
           else if n \<ge> 2 ^ 64 then Some (2 ^ 64 - 1, True, dropWhile (is_digit_of base) t)
           else Some (if negative then (2 ^ 64 - n) mod 2 ^ 64 else n, False, dropWhile (is_digit_of base) t))"

definition parse_u32 :: "string option \<Rightarrow> u32 option" where
  "parse_u32 text =
     (case text of
        None \<Rightarrow> None
      | Some s \<Rightarrow>
          if s = [] then None
          else case strtoul s of
                 None \<Rightarrow> None
               | Some (parsed, overflow, rest) \<Rightarrow>
                   if overflow \<or> rest \<noteq> [] \<or> parsed > 4294967295 then None else Some (of_nat parsed))"

definition parse_slot :: "string option \<Rightarrow> u32 option" where
  "parse_slot text =
     (if text = Some ''a'' \<or> text = Some ''A'' then Some (slot_num BOOT_SLOT_A)
      else if text = Some ''b'' \<or> text = Some ''B'' then Some (slot_num BOOT_SLOT_B)
      else None)"

definition fill_sector_image :: "nat \<Rightarrow> bytes \<Rightarrow> bytes" where
  "fill_sector_image n rec = rec @ replicate (n - length rec) 0xFF"

text \<open>The arguments after the command; an option at the end without its value is refused.\<close>

fun parse_create_confirmed :: "string list \<Rightarrow> provision_options \<Rightarrow> provision_options option" where
  "parse_create_confirmed [] opts =
     (if po_slot opts \<noteq> None \<and> po_image_version opts \<noteq> None \<and> po_copy_a_output opts \<noteq> None \<and> po_copy_b_output opts \<noteq> None
      then Some opts else None)"
| "parse_create_confirmed (arg # args) opts =
     (if arg = ''--sector-image'' then parse_create_confirmed args (opts\<lparr>po_sector_image := True\<rparr>)
      else case args of
             [] \<Rightarrow> None
           | v # rest \<Rightarrow>
               if arg = ''--slot'' then parse_create_confirmed rest (opts\<lparr>po_slot := Some v\<rparr>)
               else if arg = ''--image-version'' then parse_create_confirmed rest (opts\<lparr>po_image_version := Some v\<rparr>)
               else if arg = ''--copy-a-output'' then parse_create_confirmed rest (opts\<lparr>po_copy_a_output := Some v\<rparr>)
               else if arg = ''--copy-b-output'' then parse_create_confirmed rest (opts\<lparr>po_copy_b_output := Some v\<rparr>)
               else if arg = ''--json-output'' then parse_create_confirmed rest (opts\<lparr>po_json_output := Some v\<rparr>)
               else None)"

fun parse_create_update_sequence :: "string list \<Rightarrow> provision_options \<Rightarrow> provision_options option" where
  "parse_create_update_sequence [] opts =
     (if po_slot opts \<noteq> None \<and> po_image_version opts \<noteq> None \<and> po_candidate_slot opts \<noteq> None \<and>
         po_candidate_image_version opts \<noteq> None \<and> po_confirmed_output opts \<noteq> None \<and> po_writing_output opts \<noteq> None \<and>
         po_candidate_ready_output opts \<noteq> None
      then Some opts else None)"
| "parse_create_update_sequence [arg] opts = None"
| "parse_create_update_sequence (arg # v # rest) opts =
     (if arg = ''--active-slot'' then parse_create_update_sequence rest (opts\<lparr>po_slot := Some v\<rparr>)
      else if arg = ''--active-version'' then parse_create_update_sequence rest (opts\<lparr>po_image_version := Some v\<rparr>)
      else if arg = ''--candidate-slot'' then parse_create_update_sequence rest (opts\<lparr>po_candidate_slot := Some v\<rparr>)
      else if arg = ''--candidate-version'' then parse_create_update_sequence rest (opts\<lparr>po_candidate_image_version := Some v\<rparr>)
      else if arg = ''--confirmed-output'' then parse_create_update_sequence rest (opts\<lparr>po_confirmed_output := Some v\<rparr>)
      else if arg = ''--writing-output'' then parse_create_update_sequence rest (opts\<lparr>po_writing_output := Some v\<rparr>)
      else if arg = ''--candidate-ready-output'' then parse_create_update_sequence rest (opts\<lparr>po_candidate_ready_output := Some v\<rparr>)
      else if arg = ''--json-output'' then parse_create_update_sequence rest (opts\<lparr>po_json_output := Some v\<rparr>)
      else None)"

text \<open>Writing files in order until one fails: whether all succeeded, and the files written.\<close>

fun write_files :: "(string \<Rightarrow> bool) \<Rightarrow> (string option \<times> bytes) list \<Rightarrow> bool \<times> (string \<times> bytes) list" where
  "write_files can_write [] = (True, [])"
| "write_files can_write ((None, data) # files) = (False, [])"
| "write_files can_write ((Some path, data) # files) =
     (if can_write path
      then case write_files can_write files of (ok, written) \<Rightarrow> (ok, (path, data) # written)
      else (False, []))"

definition write_json :: "(string \<Rightarrow> bool) \<Rightarrow> string option \<Rightarrow> bool" where
  "write_json can_write path = (case path of None \<Rightarrow> True | Some p \<Rightarrow> can_write p)"

definition run_create_confirmed :: "(string \<Rightarrow> bool) \<Rightarrow> provision_options \<Rightarrow> bool \<times> (string \<times> bytes) list" where
  "run_create_confirmed can_write opts =
     (case (parse_slot (po_slot opts), parse_u32 (po_image_version opts)) of
        (Some active, Some version) \<Rightarrow>
          (case boot_metadata_provision_confirmed_image active version of
             Inl _ \<Rightarrow> (False, [])
           | Inr rec \<Rightarrow>
               let copy_a = (if po_sector_image opts then fill_sector_image 0x4000 rec else rec);
                   copy_b = (if po_sector_image opts then fill_sector_image 0x4000 rec else rec)
               in case write_files can_write [(po_copy_a_output opts, copy_a), (po_copy_b_output opts, copy_b)] of
                    (ok, written) \<Rightarrow> (ok \<and> write_json can_write (po_json_output opts) \<and> length copy_a = length copy_b, written))
      | _ \<Rightarrow> (False, []))"

definition run_create_update_sequence :: "(string \<Rightarrow> bool) \<Rightarrow> provision_options \<Rightarrow> bool \<times> (string \<times> bytes) list" where
  "run_create_update_sequence can_write opts =
     (case (parse_slot (po_slot opts), parse_slot (po_candidate_slot opts), parse_u32 (po_image_version opts),
            parse_u32 (po_candidate_image_version opts)) of
        (Some active, Some candidate, Some version, Some candidate_version) \<Rightarrow>
          (case boot_metadata_provision_update_sequence active candidate version candidate_version of
             Inl _ \<Rightarrow> (False, [])
           | Inr (confirmed_image, writing_image, ready_image) \<Rightarrow>
               case write_files can_write [(po_confirmed_output opts, confirmed_image), (po_writing_output opts, writing_image),
                      (po_candidate_ready_output opts, ready_image)] of
                 (ok, written) \<Rightarrow> (ok \<and> write_json can_write (po_json_output opts), written))
      | _ \<Rightarrow> (False, []))"

text \<open>\<^verbatim>\<open>main\<close>: the arguments without the name of the program; the result is whether it exits with 0.\<close>

definition provision_main :: "(string \<Rightarrow> bool) \<Rightarrow> string list \<Rightarrow> bool \<times> (string \<times> bytes) list" where
  "provision_main can_write args =
     (case args of
        [] \<Rightarrow> (False, [])
      | command # rest \<Rightarrow>
          if command = ''--help'' \<or> command = ''-h'' then (True, [])
          else if command = ''create-confirmed''
          then (case parse_create_confirmed rest no_options of
                  None \<Rightarrow> (False, []) | Some opts \<Rightarrow> run_create_confirmed can_write opts)
          else if command = ''create-update-sequence''
          then (case parse_create_update_sequence rest no_options of
                  None \<Rightarrow> (False, []) | Some opts \<Rightarrow> run_create_update_sequence can_write opts)
          else (False, []))"

section \<open>What the records hold\<close>

definition factory_record :: "u32 \<Rightarrow> u32 \<Rightarrow> boot_metadata_record" where
  "factory_record active version =
     \<lparr>sequence = 1, state = BOOT_METADATA_STATE_CONFIRMED, active_slot = active, candidate_slot = BOOT_SLOT_NONE,
      candidate_image_version = version, boot_attempt_count = 0, confirmation_state = 1, result_code = 0\<rparr>"

definition factory_slot :: "u32 \<Rightarrow> bool" where
  "factory_slot n \<longleftrightarrow> n = slot_num BOOT_SLOT_A \<or> n = slot_num BOOT_SLOT_B"

lemmas record_checks = state_record_is_canonical_def candidate_record_is_canonical_def state_value_is_valid_def
  slot_value_is_valid_def boot_metadata_validate_transition_def transition_fields_allowed_def boot_metadata_prepare_next_def

lemma prepare_confirmed_iff:
  "prepare_confirmed active version = Inr r \<longleftrightarrow> factory_slot active \<and> version \<noteq> 0 \<and> r = factory_record active version"
  by (auto simp: prepare_confirmed_def record_checks boot_metadata_empty_def factory_record_def factory_slot_def Let_def
      split: if_splits)

lemma factory_canonical: "factory_slot active \<Longrightarrow> version \<noteq> 0 \<Longrightarrow> state_record_is_canonical (factory_record active version)"
  by (auto simp: record_checks factory_record_def factory_slot_def)

lemma confirmed_image_iff:
  "boot_metadata_provision_confirmed_image active version = Inr img \<longleftrightarrow>
     factory_slot active \<and> version \<noteq> 0 \<and> img = encode_record (factory_record active version)"
proof (cases "factory_slot active \<and> version \<noteq> 0")
  case True
  then have "prepare_confirmed active version = Inr (factory_record active version)" by (simp add: prepare_confirmed_iff)
  with True factory_canonical [of active version] show ?thesis
    by (simp add: boot_metadata_provision_confirmed_image_def boot_metadata_encode_iff)
next
  case False
  then obtain status where "prepare_confirmed active version = Inl status"
    using prepare_confirmed_iff [of active version] by (cases "prepare_confirmed active version") auto
  with False show ?thesis by (auto simp: boot_metadata_provision_confirmed_image_def)
qed

definition factory_writing :: "u32 \<Rightarrow> u32 \<Rightarrow> u32 \<Rightarrow> boot_metadata_record" where
  "factory_writing active candidate version =
     \<lparr>sequence = 2, state = BOOT_METADATA_STATE_WRITING, active_slot = active, candidate_slot = candidate,
      candidate_image_version = version, boot_attempt_count = 0, confirmation_state = 0, result_code = 0\<rparr>"

definition factory_ready :: "u32 \<Rightarrow> u32 \<Rightarrow> u32 \<Rightarrow> boot_metadata_record" where
  "factory_ready active candidate version =
     (factory_writing active candidate version)\<lparr>sequence := 3, state := BOOT_METADATA_STATE_CANDIDATE_READY\<rparr>"

lemma prepare_step_iff:
  assumes "sequence cur < UINT32_MAX - 1"
  shows "boot_metadata_prepare_next cur st act cand version attempts confirmation res = Inr r \<longleftrightarrow>
    r = \<lparr>sequence = sequence cur + 1, state = st, active_slot = act, candidate_slot = cand, candidate_image_version = version,
         boot_attempt_count = attempts, confirmation_state = confirmation, result_code = res\<rparr> \<and>
    boot_metadata_validate_transition cur r = BOOT_METADATA_OK"
  using assms by (auto simp: boot_metadata_prepare_next_def Let_def)

lemma prepare_writing_iff:
  assumes "factory_slot active"
  shows "boot_metadata_prepare_next (factory_record active v) BOOT_METADATA_STATE_WRITING active candidate version 0 0 0 = Inr r \<longleftrightarrow>
     factory_slot candidate \<and> candidate \<noteq> active \<and> version \<noteq> 0 \<and> r = factory_writing active candidate version"
proof -
  have "boot_metadata_prepare_next (factory_record active v) BOOT_METADATA_STATE_WRITING active candidate version 0 0 0 = Inr r \<longleftrightarrow>
    r = factory_writing active candidate version \<and> boot_metadata_validate_transition (factory_record active v) r = BOOT_METADATA_OK"
    by (subst prepare_step_iff) (simp_all add: factory_record_def factory_writing_def)
  moreover have "boot_metadata_validate_transition (factory_record active v) (factory_writing active candidate version) = BOOT_METADATA_OK \<longleftrightarrow>
    state_record_is_canonical (factory_writing active candidate version)"
    by (simp add: boot_metadata_validate_transition_def transition_fields_allowed_def factory_record_def factory_writing_def)
  moreover have "state_record_is_canonical (factory_writing active candidate version) \<longleftrightarrow> factory_slot candidate \<and> candidate \<noteq> active \<and> version \<noteq> 0"
    using assms by (auto simp: state_record_is_canonical_def candidate_record_is_canonical_def state_value_is_valid_def
        slot_value_is_valid_def factory_slot_def factory_writing_def)
  ultimately show ?thesis by blast
qed

lemma prepare_ready:
  assumes "factory_slot active" "factory_slot candidate" "candidate \<noteq> active" "version \<noteq> 0"
  shows "boot_metadata_prepare_next (factory_writing active candidate version) BOOT_METADATA_STATE_CANDIDATE_READY
     active candidate version 0 0 0 = Inr (factory_ready active candidate version)"
    "state_record_is_canonical (factory_writing active candidate version)"
    "state_record_is_canonical (factory_ready active candidate version)"
  using assms by (auto simp: record_checks factory_ready_def factory_writing_def factory_slot_def Let_def)

lemma update_sequence_iff:
  "boot_metadata_provision_update_sequence active candidate version candidate_version = Inr imgs \<longleftrightarrow>
     factory_slot active \<and> factory_slot candidate \<and> candidate \<noteq> active \<and> version \<noteq> 0 \<and> version < candidate_version \<and>
     imgs = (encode_record (factory_record active version), encode_record (factory_writing active candidate candidate_version),
       encode_record (factory_ready active candidate candidate_version))"
  (is "?lhs \<longleftrightarrow> ?rhs")
proof
  assume ?lhs
  then obtain r w x where steps: "active \<noteq> candidate" "version < candidate_version" "prepare_confirmed active version = Inr r"
    "boot_metadata_prepare_next r BOOT_METADATA_STATE_WRITING active candidate candidate_version 0 0 0 = Inr w"
    "boot_metadata_prepare_next w BOOT_METADATA_STATE_CANDIDATE_READY active candidate candidate_version 0 0 0 = Inr x"
    and imgs: "boot_metadata_encode r = Inr (fst imgs)" "boot_metadata_encode w = Inr (fst (snd imgs))"
      "boot_metadata_encode x = Inr (snd (snd imgs))"
    by (auto simp: boot_metadata_provision_update_sequence_def not_le split: if_splits sum.splits)
  from steps(3) have r: "factory_slot active" "version \<noteq> 0" "r = factory_record active version" by (simp_all add: prepare_confirmed_iff)
  from steps(4) r have w: "factory_slot candidate" "candidate_version \<noteq> 0" "w = factory_writing active candidate candidate_version"
    by (simp_all add: prepare_writing_iff)
  from steps(1,5) r w prepare_ready(1) [of active candidate candidate_version] have "x = factory_ready active candidate candidate_version" by simp
  with imgs r w steps(1,2) show ?rhs by (simp add: boot_metadata_encode_iff prod_eq_iff)
next
  assume ?rhs
  moreover from this have "candidate_version \<noteq> 0" by auto
  ultimately show ?lhs
    using prepare_confirmed_iff [of active version "factory_record active version"]
      prepare_writing_iff [of active version candidate candidate_version "factory_writing active candidate candidate_version"]
      prepare_ready [of active candidate candidate_version] factory_canonical [of active version]
    by (auto simp: boot_metadata_provision_update_sequence_def not_le boot_metadata_encode_iff [THEN iffD2])
qed

section \<open>Properties\<close>

lemma sector_image_head: "length rec = 128 \<Longrightarrow> take 128 (fill_sector_image 0x4000 rec) = rec"
  by (simp add: fill_sector_image_def)

text \<open>A decimal number without leading zeros, and its value.\<close>

definition decimal_number :: "string \<Rightarrow> nat \<Rightarrow> bool" where
  "decimal_number ds v \<longleftrightarrow>
     ds \<noteq> [] \<and> hd ds \<noteq> CHR ''0'' \<and> (\<forall>d \<in> set ds. d \<in> set ''0123456789'') \<and>
     v = foldl (\<lambda>n d. 10 * n + (of_char d - 48)) 0 ds"

lemma decimal_char:
  assumes "d \<in> set ''0123456789''"
  shows "digit_value d = Some (of_char d - 48)" "is_digit_of 10 d" "\<not> is_c_space d" "d \<noteq> CHR ''-''" "d \<noteq> CHR ''+''"
  using assms by (auto simp: digit_value_def is_digit_of_def is_c_space_def char_code_def)

lemma decimal_digits_value:
  "\<forall>d \<in> set ds. d \<in> set ''0123456789'' \<Longrightarrow>
   foldl (\<lambda>n c. n * 10 + the (digit_value c)) n ds = foldl (\<lambda>n d. 10 * n + (of_char d - 48)) n ds"
proof (induction ds arbitrary: n)
  case (Cons d ds)
  then have "digit_value d = Some (of_char d - 48)" by (intro decimal_char(1)) simp
  with Cons show ?case by (simp add: mult.commute)
qed simp

lemma strtoul_decimal:
  assumes "decimal_number ds v" and "v < 2 ^ 64"
  shows "strtoul ds = Some (v, False, [])"
proof -
  from assms(1) have ds: "ds \<noteq> []" "hd ds \<noteq> CHR ''0''" "\<forall>d \<in> set ds. d \<in> set ''0123456789''"
    and v: "v = foldl (\<lambda>n d. 10 * n + (of_char d - 48)) 0 ds" by (simp_all add: decimal_number_def)
  obtain d ds' where Cons: "ds = d # ds'" using ds(1) by (cases ds) auto
  then have d: "d \<in> set ''0123456789''" using ds(3) by simp
  have space: "dropWhile is_c_space ds = ds" using decimal_char(3) [OF d] by (simp add: Cons)
  have sign: "strip_sign ds = (False, ds)" using decimal_char(4,5) [OF d] by (simp add: strip_sign_def Cons)
  have base: "strip_base ds = (10, ds)" using ds(2) by (simp add: strip_base_def Cons)
  have all: "\<forall>x \<in> set ds. is_digit_of 10 x" using ds(3) decimal_char(2) by blast
  have digits: "takeWhile (is_digit_of 10) ds = ds" "dropWhile (is_digit_of 10) ds = []"
    using all takeWhile_eq_all_conv dropWhile_eq_Nil_conv by blast+
  have "digits_value 10 ds = v" using decimal_digits_value [OF ds(3), of 0] by (simp add: digits_value_def v)
  with ds(1) assms(2) show ?thesis unfolding strtoul_def space sign base prod.case digits Let_def by simp
qed

lemma decimal_positive:
  assumes "decimal_number ds v"
  shows "0 < v"
proof -
  have grow: "n \<le> foldl (\<lambda>n d. 10 * n + (of_char d - 48)) n xs" for n :: nat and xs :: string
  proof (induction xs arbitrary: n)
    case (Cons x xs)
    from Cons [of "10 * n + (of_char x - 48)"] show ?case by simp
  qed simp
  obtain d ds' where ds: "ds = d # ds'" using assms by (cases ds) (auto simp: decimal_number_def)
  then have "d \<in> set ''123456789''" using assms by (auto simp: decimal_number_def)
  then have "(0 :: nat) < of_char d - 48" by auto
  with grow [of "of_char d - 48" ds'] assms show ?thesis by (simp add: decimal_number_def ds)
qed

lemma parse_u32_decimal:
  assumes "decimal_number ds v" and "v < 2 ^ 32"
  shows "parse_u32 (Some ds) = Some (of_nat v)" "(of_nat v :: u32) \<noteq> 0" "unat (of_nat v :: u32) = v"
proof -
  have "v < 2 ^ 64" using assms(2) by simp
  from strtoul_decimal [OF assms(1) this] assms show "parse_u32 (Some ds) = Some (of_nat v)"
    by (simp add: parse_u32_def decimal_number_def)
  show v: "unat (of_nat v :: u32) = v" using assms(2) by (simp add: unat_of_nat)
  show "(of_nat v :: u32) \<noteq> 0" using decimal_positive [OF assms(1)] v by auto
qed

text \<open>The arguments of the tool for a new device, and the slots they name.\<close>

definition create_confirmed_arguments :: "string \<Rightarrow> string \<Rightarrow> string \<Rightarrow> string \<Rightarrow> bool \<Rightarrow> string list" where
  "create_confirmed_arguments sl ver pa pb whole =
     [''create-confirmed'', ''--slot'', sl, ''--image-version'', ver, ''--copy-a-output'', pa, ''--copy-b-output'', pb] @
     (if whole then [''--sector-image''] else [])"

definition names_slot :: "string \<Rightarrow> boot_slot_descriptor \<Rightarrow> bool" where
  "names_slot sl slot \<longleftrightarrow> sl \<in> {''a'', ''A''} \<and> slot = boot_slot_a \<or> sl \<in> {''b'', ''B''} \<and> slot = boot_slot_b"

lemma create_confirmed_run:
  assumes slot: "names_slot sl slot" and ver: "decimal_number ver v" "v < 2 ^ 32"
    and files: "can_write pa" "can_write pb"
    and r: "r = factory_record (slot_num (slot_id slot)) (of_nat v)"
    and img: "img = (if whole then fill_sector_image 0x4000 (encode_record r) else encode_record r)"
  shows "provision_main can_write (create_confirmed_arguments sl ver pa pb whole) = (True, [(pa, img), (pb, img)])"
    "take 128 img = encode_record r" "length img = (if whole then 0x4000 else 128)"
    "state_record_is_canonical r"
proof -
  note p = parse_u32_decimal [OF ver]
  have fs: "factory_slot (slot_num (slot_id slot))" using slot by (auto simp: names_slot_def factory_slot_def boot_slot_a_def boot_slot_b_def)
  have parse: "parse_slot (Some sl) = Some (slot_num (slot_id slot))"
    using slot by (auto simp: names_slot_def parse_slot_def boot_slot_a_def boot_slot_b_def)
  have image: "boot_metadata_provision_confirmed_image (slot_num (slot_id slot)) (of_nat v) = Inr (encode_record r)"
    unfolding r using fs p(2) by (simp add: confirmed_image_iff)
  show "provision_main can_write (create_confirmed_arguments sl ver pa pb whole) = (True, [(pa, img), (pb, img)])"
    using files by (simp add: provision_main_def create_confirmed_arguments_def no_options_def run_create_confirmed_def parse p(1)
        image write_json_def img Let_def)
  show "take 128 img = encode_record r" by (simp add: img sector_image_head)
  show "length img = (if whole then 0x4000 else 128)" by (simp add: img fill_sector_image_def)
  show "state_record_is_canonical r" unfolding r by (rule factory_canonical [OF fs p(2)])
qed

lemma flashed_record:
  assumes "mem_range m base (length img) = img" "take 128 img = encode_record r"
  shows "mem_range m base 128 = encode_record r"
proof -
  have "length (take 128 img) = 128" unfolding assms(2) by simp
  then have "128 \<le> length img" by simp
  then have "take 128 (mem_range m base (length img)) = mem_range m base 128" by (simp add: mem_range_def take_map)
  with assms show ?thesis by simp
qed

text \<open>
  C12. A provisioned device boots: called for slot a or b with a decimal version below \<open>2 ^ 32\<close> and writable files,
  the tool succeeds and writes the two metadata images, plain records or whole sector images. On every
  device that holds them in the two metadata sectors the journal recovers to the confirmed
  record of this slot and version with sequence number 1, and if the slot holds an
  acceptable, authentic image, the boot sequence writes nothing and enters that image.
\<close>

theorem provisioned_device_boots:
  assumes slot: "names_slot sl slot" and ver: "decimal_number ver v" "v < 2 ^ 32"
    and files: "can_write pa" "can_write pb"
  shows "\<exists>a b. provision_main can_write (create_confirmed_arguments sl ver pa pb whole) = (True, [(pa, a), (pb, b)]) \<and>
    length a = (if whole then 0x4000 else 128) \<and>
    (\<forall>c. host_healthy c \<and> mem_range (host_view c) 0x08008000 (length a) = a \<and>
         mem_range (host_view c) 0x0800C000 (length b) = b \<longrightarrow>
       (\<exists>r. journal_record c r \<and> state r = BOOT_METADATA_STATE_CONFIRMED \<and> sequence r = 1 \<and>
          active_slot r = slot_num (slot_id slot) \<and> unat (candidate_image_version r) = v) \<and>
       (slot_bootable crypt pk (host_view c) slot \<longrightarrow>
         (\<exists>ev s effs. boot_sequence_execute crypt pk c csr = (ev, BOOT_JUMP s effs, c) \<and>
            last effs = ENTER (slot_entry (host_view c) slot))))"
proof -
  let ?r = "factory_record (slot_num (slot_id slot)) (of_nat v)"
  let ?img = "if whole then fill_sector_image 0x4000 (encode_record ?r) else encode_record ?r"
  note run = create_confirmed_run [OF slot ver files refl refl [of ?img]]
  have lookup: "boot_slot_lookup (active_slot ?r) = Some slot"
    using slot by (auto simp: names_slot_def factory_record_def) (simp_all add: boot_slot_a_def boot_slot_b_def)
  have fields: "state ?r = BOOT_METADATA_STATE_CONFIRMED" "sequence ?r = 1" "active_slot ?r = slot_num (slot_id slot)"
    "unat (candidate_image_version ?r) = v"
    using parse_u32_decimal(3) [OF ver] by (simp_all add: factory_record_def)
  have "(\<exists>r. journal_record c r \<and> state r = BOOT_METADATA_STATE_CONFIRMED \<and> sequence r = 1 \<and>
          active_slot r = slot_num (slot_id slot) \<and> unat (candidate_image_version r) = v) \<and>
       (slot_bootable crypt pk (host_view c) slot \<longrightarrow>
         (\<exists>ev s effs. boot_sequence_execute crypt pk c csr = (ev, BOOT_JUMP s effs, c) \<and>
            last effs = ENTER (slot_entry (host_view c) slot)))"
    if good: "host_healthy c" and flashed: "mem_range (host_view c) 0x08008000 (length ?img) = ?img"
      "mem_range (host_view c) 0x0800C000 (length ?img) = ?img" for c
  proof -
    note copies = flashed_record [OF flashed(1) run(2)] flashed_record [OF flashed(2) run(2)]
    have recover: "boot_metadata_recover_from_flash metadata_flash c =
        (BOOT_METADATA_OK, Some (?r, \<lparr>copy_a_valid = True, copy_b_valid = True, selected_copy = BOOT_METADATA_COPY_A\<rparr>))"
      using target_journal.recover_from_flash_eq [OF good] copies decode_encode_record [OF run(4)]
      by (simp add: target_journal.copy_bytes_def copy_base_def boot_metadata_recover_def Let_def)
    from journal_recordI [OF recover] boot_confirmed_run [OF recover fields(1) lookup] fields show ?thesis by blast
  qed
  with run(1,3) show ?thesis by (intro exI [of _ ?img]) blast
qed

end
