(* ===== verification/Sample_Provision.thy ===== *)
theory Sample_Provision
  imports Sample_Device Boot_Provision
begin

text \<open>
  A device fresh from the factory: the device of \<open>Sample_Device\<close> with the record that the provisioning
  tool makes for slot A in both metadata sectors.
\<close>

definition factory_storage :: "nat \<Rightarrow> u8" where
  "factory_storage n =
     (if 0xC000 \<le> n \<and> n < 0xC080 then encode_record confirmed_record ! (n - 0xC000) else sample_storage confirmed_record n)"

definition factory_device :: host_context where
  "factory_device = boot_flash_target_host_context_init\<lparr>storage := factory_storage\<rparr>"

lemma factory_confirmed: "factory_record 0 5 = confirmed_record"
  by (simp add: factory_record_def confirmed_record_def)

lemma factory_tool:
  "provision_main (\<lambda>_. True) (create_confirmed_arguments ''a'' ''5'' ''a.bin'' ''b.bin'' False) =
     (True, [(''a.bin'', encode_record confirmed_record), (''b.bin'', encode_record confirmed_record)])"
  using create_confirmed_run(1) [of "''a''" boot_slot_a "''5''" 5 "\<lambda>_. True" "''a.bin''" "''b.bin''", OF _ _ _ _ _ refl refl,
      of False]
  by (simp add: names_slot_def decimal_number_def boot_slot_a_def factory_confirmed)

lemma factory_view: "host_view factory_device n = factory_storage (n - 0x08000000)"
  by (simp add: host_view_def factory_device_def)

lemma factory_flashed:
  "mem_range (host_view factory_device) 0x08008000 (length (encode_record confirmed_record)) = encode_record confirmed_record"
  "mem_range (host_view factory_device) 0x0800C000 (length (encode_record confirmed_record)) = encode_record confirmed_record"
  by (auto simp: mem_range_def factory_view factory_storage_def sample_storage_def intro!: nth_equalityI)

lemma factory_bootable: "slot_bootable sample_crypto [] (host_view factory_device) boot_slot_a"
proof -
  have "host_view factory_device n = host_view (sample_device confirmed_record) n" if "n \<ge> 0x08020000" for n
  proof -
    from that have "\<not> n - 0x08000000 < 0xC080" by linarith
    then show ?thesis by (simp add: factory_view sample_view factory_storage_def)
  qed
  then show ?thesis
    using slot_bootable_cong [of boot_slot_a "host_view factory_device" "host_view (sample_device confirmed_record)" sample_crypto "[]"]
      sample_bootable [of "[]" confirmed_record] by (simp add: in_slot_def boot_slot_a_def)
qed

theorem provisioned_device_boots_witness:
  "provision_main (\<lambda>_. True) (create_confirmed_arguments ''a'' ''5'' ''a.bin'' ''b.bin'' False) =
     (True, [(''a.bin'', encode_record confirmed_record), (''b.bin'', encode_record confirmed_record)]) \<and>
   (\<exists>ev s effs. boot_sequence_execute sample_crypto [] factory_device 0 = (ev, BOOT_JUMP s effs, factory_device) \<and>
      last effs = ENTER 0x08020205)"
proof -
  have good: "host_healthy factory_device"
    by (simp add: factory_device_def host_healthy_def faults_def boot_flash_target_host_context_init_def numeral_eq_Suc)
  have entry: "slot_entry (host_view factory_device) boot_slot_a = 0x08020205"
    by (simp add: slot_entry_def slot_a_fields flash_word_def load_le32_def factory_view factory_storage_def sample_storage_def
        sample_vectors_def le32_def)
  have "names_slot ''a'' boot_slot_a" "decimal_number ''5'' 5" "(5 :: nat) < 2 ^ 32"
    by (simp_all add: names_slot_def decimal_number_def)
  from provisioned_device_boots [OF this, of "\<lambda>_. True" "''a.bin''" "''b.bin''" False sample_crypto "[]" 0] factory_tool
  have "\<forall>c. host_healthy c \<and>
      mem_range (host_view c) 0x08008000 (length (encode_record confirmed_record)) = encode_record confirmed_record \<and>
      mem_range (host_view c) 0x0800C000 (length (encode_record confirmed_record)) = encode_record confirmed_record \<longrightarrow>
      slot_bootable sample_crypto [] (host_view c) boot_slot_a \<longrightarrow>
      (\<exists>ev s effs. boot_sequence_execute sample_crypto [] c 0 = (ev, BOOT_JUMP s effs, c) \<and>
        last effs = ENTER (slot_entry (host_view c) boot_slot_a))" by auto
  with good factory_flashed factory_bootable factory_tool entry show ?thesis by metis
qed

end
