(* ===== verification/Sha512.thy ===== *)
theory Sha512
  imports Boot_Prelude
begin

text \<open>
  SHA-512 as the boot loader computes it (\<^verbatim>\<open>monocypher-ed25519.c\<close>, first half): the compression
  function that keeps the message schedule in a ring of 16 words, the context with its partial block,
  and the incremental interface that aligns itself to words and blocks.

  A context member of fixed size is a list; \<^verbatim>\<open>input_idx\<close> is a natural number. A message with its size
  is a list of bytes, so advancing the message pointer drops bytes from it.

  The second part is the standard: FIPS 180-4, with the padded message, the schedule of 80 words and
  the rotations of the word library. \<open>Sha512_Correct\<close> shows that the code computes it.
\<close>

type_synonym u64 = "64 word"

section \<open>Utilities\<close>

definition align :: "size_t \<Rightarrow> size_t \<Rightarrow> size_t" where
  "align x pow_2 = size_sub 0 x AND (pow_2 - 1)"

definition load64_be :: "bytes \<Rightarrow> u64" where
  "load64_be s =
     push_bit 56 (ucast (s ! 0)) OR push_bit 48 (ucast (s ! 1)) OR push_bit 40 (ucast (s ! 2)) OR
     push_bit 32 (ucast (s ! 3)) OR push_bit 24 (ucast (s ! 4)) OR push_bit 16 (ucast (s ! 5)) OR
     push_bit 8 (ucast (s ! 6)) OR ucast (s ! 7)"

definition store64_be :: "u64 \<Rightarrow> bytes" where
  "store64_be x =
     [ucast (drop_bit 56 x), ucast (drop_bit 48 x), ucast (drop_bit 40 x), ucast (drop_bit 32 x),
      ucast (drop_bit 24 x), ucast (drop_bit 16 x), ucast (drop_bit 8 x), ucast x]"

text \<open>Loading \<open>n\<close> words into the array \<open>dst\<close> from position \<open>off\<close> on.\<close>

definition load64_be_buf :: "u64 list \<Rightarrow> nat \<Rightarrow> bytes \<Rightarrow> nat \<Rightarrow> u64 list" where
  "load64_be_buf dst off src n = foldl (\<lambda>d i. d[off + i := load64_be (drop (i * 8) src)]) dst [0..<n]"

section \<open>Compression\<close>

definition rot :: "u64 \<Rightarrow> nat \<Rightarrow> u64" where
  "rot x c = drop_bit c x OR push_bit (64 - c) x"

definition ch :: "u64 \<Rightarrow> u64 \<Rightarrow> u64 \<Rightarrow> u64" where
  "ch x y z = (x AND y) XOR (NOT x AND z)"

definition maj :: "u64 \<Rightarrow> u64 \<Rightarrow> u64 \<Rightarrow> u64" where
  "maj x y z = (x AND y) XOR (x AND z) XOR (y AND z)"

definition big_sigma0 :: "u64 \<Rightarrow> u64" where "big_sigma0 x = rot x 28 XOR rot x 34 XOR rot x 39"
definition big_sigma1 :: "u64 \<Rightarrow> u64" where "big_sigma1 x = rot x 14 XOR rot x 18 XOR rot x 41"
definition lit_sigma0 :: "u64 \<Rightarrow> u64" where "lit_sigma0 x = rot x 1 XOR rot x 8 XOR drop_bit 7 x"
definition lit_sigma1 :: "u64 \<Rightarrow> u64" where "lit_sigma1 x = rot x 19 XOR rot x 61 XOR drop_bit 6 x"

definition sha512_K :: "u64 list" where
  "sha512_K = [
     0x428A2F98D728AE22, 0x7137449123EF65CD, 0xB5C0FBCFEC4D3B2F, 0xE9B5DBA58189DBBC,
     0x3956C25BF348B538, 0x59F111F1B605D019, 0x923F82A4AF194F9B, 0xAB1C5ED5DA6D8118,
     0xD807AA98A3030242, 0x12835B0145706FBE, 0x243185BE4EE4B28C, 0x550C7DC3D5FFB4E2,
     0x72BE5D74F27B896F, 0x80DEB1FE3B1696B1, 0x9BDC06A725C71235, 0xC19BF174CF692694,
     0xE49B69C19EF14AD2, 0xEFBE4786384F25E3, 0x0FC19DC68B8CD5B5, 0x240CA1CC77AC9C65,
     0x2DE92C6F592B0275, 0x4A7484AA6EA6E483, 0x5CB0A9DCBD41FBD4, 0x76F988DA831153B5,
     0x983E5152EE66DFAB, 0xA831C66D2DB43210, 0xB00327C898FB213F, 0xBF597FC7BEEF0EE4,
     0xC6E00BF33DA88FC2, 0xD5A79147930AA725, 0x06CA6351E003826F, 0x142929670A0E6E70,
     0x27B70A8546D22FFC, 0x2E1B21385C26C926, 0x4D2C6DFC5AC42AED, 0x53380D139D95B3DF,
     0x650A73548BAF63DE, 0x766A0ABB3C77B2A8, 0x81C2C92E47EDAEE6, 0x92722C851482353B,
     0xA2BFE8A14CF10364, 0xA81A664BBC423001, 0xC24B8B70D0F89791, 0xC76C51A30654BE30,
     0xD192E819D6EF5218, 0xD69906245565A910, 0xF40E35855771202A, 0x106AA07032BBD1B8,
     0x19A4C116B8D2D0C8, 0x1E376C085141AB53, 0x2748774CDF8EEB99, 0x34B0BCB5E19B48A8,
     0x391C0CB3C5C95A63, 0x4ED8AA4AE3418ACB, 0x5B9CCA4F7763E373, 0x682E6FF3D6B2B8A3,
     0x748F82EE5DEFB2FC, 0x78A5636F43172F60, 0x84C87814A1F0AB72, 0x8CC702081A6439EC,
     0x90BEFFFA23631E28, 0xA4506CEBDE82BDE9, 0xBEF9A3F7B2C67915, 0xC67178F2E372532B,
     0xCA273ECEEA26619C, 0xD186B8C721C0C207, 0xEADA7DD6CDE0EB1E, 0xF57D4F7FEE6ED178,
     0x06F067AA72176FBA, 0x0A637DC5A2C898A6, 0x113F9804BEF90DAE, 0x1B710B35131C471B,
     0x28DB77F523047D84, 0x32CAAB7B40C72493, 0x3C9EBE0A15C9BEBC, 0x431D67C49C100D4C,
     0x4CC5D4BECB3E42B6, 0x597F299CFC657E2A, 0x5FCB6FAB3AD6FAEC, 0x6C44198C4A475817]"

record crypto_sha512_ctx =
  sha_hash :: "u64 list"
  sha_input :: "u64 list"
  sha_input_size :: "u64 \<times> u64"
  sha_input_idx :: nat

text \<open>The eight working variables, and one round with the input word \<open>w\<close>.\<close>

type_synonym sha_vars = "u64 \<times> u64 \<times> u64 \<times> u64 \<times> u64 \<times> u64 \<times> u64 \<times> u64"

definition sha512_round :: "u64 \<Rightarrow> sha_vars \<Rightarrow> sha_vars" where
  "sha512_round w v =
     (case v of (a, b, c, d, e, f, g, h) \<Rightarrow>
        let t1 = big_sigma1 e + ch e f g + h + w;
            t2 = big_sigma0 a + maj a b c
        in (t1 + t2, a, b, c, d + t1, e, f, g))"

definition expand_input :: "nat \<Rightarrow> u64 list \<Rightarrow> u64 list" where
  "expand_input j input =
     (let i1 = input[j := input ! j + lit_sigma1 (input ! (size_sub j 2 AND 15))];
          i2 = i1[j := i1 ! j + lit_sigma0 (i1 ! (size_sub j 15 AND 15))]
      in i2[j := i2 ! j + i2 ! (size_sub j 7 AND 15)])"

definition first_rounds :: "u64 list \<Rightarrow> sha_vars \<Rightarrow> sha_vars" where
  "first_rounds input v = foldl (\<lambda>v j. sha512_round (sha512_K ! j + input ! j) v) v [0..<16]"

definition expanded_round :: "nat \<Rightarrow> u64 list \<times> sha_vars \<Rightarrow> nat \<Rightarrow> u64 list \<times> sha_vars" where
  "expanded_round i16 s j =
     (case s of (input, v) \<Rightarrow>
        let input' = expand_input j input in (input', sha512_round (sha512_K ! (i16 + j) + input' ! j) v))"

definition later_rounds :: "u64 list \<Rightarrow> sha_vars \<Rightarrow> u64 list \<times> sha_vars" where
  "later_rounds input v = foldl (\<lambda>s i. foldl (expanded_round (16 * i)) s [0..<16]) (input, v) [1..<5]"

definition vars_of :: "u64 list \<Rightarrow> sha_vars" where
  "vars_of h = (h ! 0, h ! 1, h ! 2, h ! 3, h ! 4, h ! 5, h ! 6, h ! 7)"

definition add_vars :: "u64 list \<Rightarrow> sha_vars \<Rightarrow> u64 list" where
  "add_vars hs v =
     (case v of (a, b, c, d, e, f, g, h) \<Rightarrow>
        [hs ! 0 + a, hs ! 1 + b, hs ! 2 + c, hs ! 3 + d, hs ! 4 + e, hs ! 5 + f, hs ! 6 + g, hs ! 7 + h])"

definition sha512_compress :: "crypto_sha512_ctx \<Rightarrow> crypto_sha512_ctx" where
  "sha512_compress ctx =
     (case later_rounds (sha_input ctx) (first_rounds (sha_input ctx) (vars_of (sha_hash ctx))) of
        (input, v) \<Rightarrow> ctx\<lparr>sha_input := input, sha_hash := add_vars (sha_hash ctx) v\<rparr>)"

section \<open>Incremental interface\<close>

definition sha512_set_input :: "crypto_sha512_ctx \<Rightarrow> u8 \<Rightarrow> crypto_sha512_ctx" where
  "sha512_set_input ctx b =
     (let word = drop_bit 3 (sha_input_idx ctx); byte = sha_input_idx ctx AND 7
      in ctx\<lparr>sha_input := (sha_input ctx)[word := sha_input ctx ! word OR push_bit (8 * (7 - byte)) (ucast b)]\<rparr>)"

definition sha512_incr :: "u64 \<times> u64 \<Rightarrow> u64 \<Rightarrow> u64 \<times> u64" where
  "sha512_incr x y = (case x of (x0, x1) \<Rightarrow> if x1 + y < y then (x0 + 1, x1 + y) else (x0, x1 + y))"

definition crypto_sha512_init_impl :: crypto_sha512_ctx where
  "crypto_sha512_init_impl =
     \<lparr>sha_hash = [0x6A09E667F3BCC908, 0xBB67AE8584CAA73B, 0x3C6EF372FE94F82B, 0xA54FF53A5F1D36F1,
                  0x510E527FADE682D1, 0x9B05688C2B3E6C1F, 0x1F83D9ABFB41BD6B, 0x5BE0CD19137E2179],
      sha_input = replicate 16 0, sha_input_size = (0, 0), sha_input_idx = 0\<rparr>"

text \<open>Bytes one at a time.\<close>

definition absorb_bytes :: "crypto_sha512_ctx \<Rightarrow> bytes \<Rightarrow> crypto_sha512_ctx" where
  "absorb_bytes ctx bs =
     foldl (\<lambda>c b. let c' = sha512_set_input c b in c'\<lparr>sha_input_idx := sha_input_idx c' + 1\<rparr>) ctx bs"

definition absorb_words :: "crypto_sha512_ctx \<Rightarrow> nat \<Rightarrow> bytes \<Rightarrow> nat \<Rightarrow> crypto_sha512_ctx" where
  "absorb_words ctx off message nb_words =
     ctx\<lparr>sha_input := load64_be_buf (sha_input ctx) off message nb_words,
         sha_input_idx := sha_input_idx ctx + push_bit 3 nb_words\<rparr>"

definition align_words :: "crypto_sha512_ctx \<Rightarrow> bytes \<Rightarrow> crypto_sha512_ctx \<times> bytes" where
  "align_words ctx message =
     (if sha_input_idx ctx AND 7 \<noteq> 0
      then let nb_bytes = min (align (sha_input_idx ctx) 8) (length message)
           in (absorb_bytes ctx (take nb_bytes message), drop nb_bytes message)
      else (ctx, message))"

definition align_blocks :: "crypto_sha512_ctx \<Rightarrow> bytes \<Rightarrow> crypto_sha512_ctx \<times> bytes" where
  "align_blocks ctx message =
     (if sha_input_idx ctx AND 127 \<noteq> 0
      then let nb_words = drop_bit 3 (min (align (sha_input_idx ctx) 128) (length message))
           in (absorb_words ctx (drop_bit 3 (sha_input_idx ctx)) message nb_words, drop (push_bit 3 nb_words) message)
      else (ctx, message))"

definition compress_block :: "crypto_sha512_ctx \<Rightarrow> crypto_sha512_ctx" where
  "compress_block ctx =
     (sha512_compress (ctx\<lparr>sha_input_size := sha512_incr (sha_input_size ctx) 1024\<rparr>))
       \<lparr>sha_input_idx := 0, sha_input := replicate 16 0\<rparr>"

primrec absorb_blocks :: "nat \<Rightarrow> crypto_sha512_ctx \<Rightarrow> bytes \<Rightarrow> crypto_sha512_ctx \<times> bytes" where
  "absorb_blocks 0 ctx message = (ctx, message)"
| "absorb_blocks (Suc n) ctx message =
     absorb_blocks n (compress_block (ctx\<lparr>sha_input := load64_be_buf (sha_input ctx) 0 message 16\<rparr>)) (drop 128 message)"

definition absorb_rest :: "crypto_sha512_ctx \<Rightarrow> bytes \<Rightarrow> crypto_sha512_ctx" where
  "absorb_rest ctx message =
     (if message \<noteq> []
      then let nb_words = drop_bit 3 (length message)
           in absorb_bytes (absorb_words ctx 0 message nb_words) (drop (push_bit 3 nb_words) message)
      else ctx)"

text \<open>The number of blocks is fixed before the loop; what is left after it has the size modulo 128.\<close>

definition crypto_sha512_update_impl :: "crypto_sha512_ctx \<Rightarrow> bytes \<Rightarrow> crypto_sha512_ctx" where
  "crypto_sha512_update_impl ctx message =
     (if message = [] then ctx
      else case align_words ctx message of (c1, m1) \<Rightarrow>
           case align_blocks c1 m1 of (c2, m2) \<Rightarrow>
           (let c3 = (if sha_input_idx c2 = 128 then compress_block c2 else c2)
            in case absorb_blocks (drop_bit 7 (length m2)) c3 m2 of (c4, m4) \<Rightarrow>
                 absorb_rest c4 (take (length m2 AND 127) m4)))"

definition wiped_ctx :: crypto_sha512_ctx where
  "wiped_ctx = \<lparr>sha_hash = replicate 8 0, sha_input = replicate 16 0, sha_input_size = (0, 0), sha_input_idx = 0\<rparr>"

definition crypto_sha512_final_impl :: "crypto_sha512_ctx \<Rightarrow> bytes \<times> crypto_sha512_ctx" where
  "crypto_sha512_final_impl ctx =
     (let c0 = (if sha_input_idx ctx = 0 then ctx\<lparr>sha_input := replicate 16 0\<rparr> else ctx);
          c1 = sha512_set_input c0 128;
          c2 = c1\<lparr>sha_input_size := sha512_incr (sha_input_size c1) (of_nat (sha_input_idx c1 * 8))\<rparr>;
          c3 = (if sha_input_idx c2 > 111
                then let c = sha512_compress c2 in c\<lparr>sha_input := replicate 14 0 @ drop 14 (sha_input c)\<rparr>
                else c2);
          c4 = c3\<lparr>sha_input := (sha_input c3)[14 := fst (sha_input_size c3), 15 := snd (sha_input_size c3)]\<rparr>;
          c5 = sha512_compress c4
      in (concat (map store64_be (sha_hash c5)), wiped_ctx))"

definition crypto_sha512_impl :: "bytes \<Rightarrow> bytes" where
  "crypto_sha512_impl message =
     fst (crypto_sha512_final_impl (crypto_sha512_update_impl crypto_sha512_init_impl message))"

section \<open>The standard\<close>

text \<open>The padded message, its blocks and the words of a block.\<close>

definition fips_pad :: "bytes \<Rightarrow> bytes" where
  "fips_pad m =
     m @ [0x80] @ replicate ((239 - length m mod 128) mod 128) 0 @
     store64_be (of_nat (8 * length m div 2 ^ 64)) @ store64_be (of_nat (8 * length m))"

fun fips_blocks :: "bytes \<Rightarrow> bytes list" where
  "fips_blocks m = (if length m < 128 then [] else take 128 m # fips_blocks (drop 128 m))"

declare fips_blocks.simps [simp del]

definition block_words :: "bytes \<Rightarrow> u64 list" where
  "block_words b = map (\<lambda>i. load64_be (drop (8 * i) b)) [0..<16]"

text \<open>The message schedule: the words of the block and \<open>n\<close> more.\<close>

primrec fips_schedule :: "u64 list \<Rightarrow> nat \<Rightarrow> u64 list" where
  "fips_schedule m 0 = m"
| "fips_schedule m (Suc n) =
     (let w = fips_schedule m n; x = w ! (n + 14); y = w ! (n + 1)
      in w @ [(word_rotr 19 x XOR word_rotr 61 x XOR drop_bit 6 x) + w ! (n + 9) +
              (word_rotr 1 y XOR word_rotr 8 y XOR drop_bit 7 y) + w ! n])"

definition fips_round :: "u64 \<Rightarrow> u64 \<Rightarrow> sha_vars \<Rightarrow> sha_vars" where
  "fips_round k w v =
     (case v of (a, b, c, d, e, f, g, h) \<Rightarrow>
        let t1 = h + (word_rotr 14 e XOR word_rotr 18 e XOR word_rotr 41 e) + ((e AND f) XOR (NOT e AND g)) + k + w;
            t2 = (word_rotr 28 a XOR word_rotr 34 a XOR word_rotr 39 a) + ((a AND b) XOR (a AND c) XOR (b AND c))
        in (t1 + t2, a, b, c, d + t1, e, f, g))"

definition fips_compress :: "u64 list \<Rightarrow> bytes \<Rightarrow> u64 list" where
  "fips_compress hs b =
     add_vars hs (foldl (\<lambda>v (k, w). fips_round k w v) (vars_of hs)
       (zip sha512_K (fips_schedule (block_words b) 64)))"

definition fips_sha512 :: "bytes \<Rightarrow> bytes" where
  "fips_sha512 m =
     concat (map store64_be (foldl fips_compress (sha_hash crypto_sha512_init_impl) (fips_blocks (fips_pad m))))"

end
