(* ===== verification/Sha512_Correct.thy ===== *)
theory Sha512_Correct
  imports Sha512
begin

text \<open>
  The SHA-512 of the boot loader computes the standard function, however the message is cut into
  pieces. A context represents the bytes absorbed so far (\<open>sha_holds\<close>): whole blocks are in the hash and
  in the bit count, the rest is in the input words, padded with zeros. Every phase of
  \<^verbatim>\<open>crypto_sha512_update\<close> moves a piece of the message into this abstraction.
\<close>

section \<open>Rounds\<close>

lemma rot_rotr:
  assumes "0 < c" "c < 64"
  shows "rot x c = word_rotr c x"
proof (rule bit_word_eqI)
  fix n assume "n < LENGTH(64)"
  then have n: "n < 64" by simp
  have wrap: "(n + c) mod 64 = (if n + c < 64 then n + c else n - (64 - c))"
    using assms n by (auto simp: mod_if)
  have "\<not> bit x (n + c)" if "64 \<le> n + c" using bit_imp_le_length [of x "n + c"] that by auto
  then show "bit (rot x c) n \<longleftrightarrow> bit (word_rotr c x) n"
    using assms n by (cases "n + c < 64") (auto simp: rot_def bit_or_iff bit_drop_bit_eq bit_push_bit_iff
        bit_word_rotr_iff wrap add.commute [of c n])
qed

lemma round_fips: "sha512_round (k + w) v = fips_round k w v"
  by (cases v) (simp add: sha512_round_def fips_round_def big_sigma0_def big_sigma1_def ch_def maj_def rot_rotr Let_def ac_simps)

lemma length_schedule [simp]: "length (fips_schedule m n) = length m + n"
  by (induction n) (simp_all add: Let_def)

lemma schedule_stable: "t < length m + n \<Longrightarrow> n \<le> n' \<Longrightarrow> fips_schedule m n' ! t = fips_schedule m n ! t"
  by (induction n') (auto simp: Let_def nth_append le_Suc_eq)

text \<open>The rounds up to \<open>t\<close> of a block with the words \<open>m\<close>.\<close>

definition fips_rounds :: "u64 list \<Rightarrow> sha_vars \<Rightarrow> nat \<Rightarrow> sha_vars" where
  "fips_rounds m v t = foldl (\<lambda>v i. fips_round (sha512_K ! i) (fips_schedule m 64 ! i) v) v [0..<t]"

lemma fips_rounds_Suc:
  "fips_rounds m v (Suc t) = fips_round (sha512_K ! t) (fips_schedule m 64 ! t) (fips_rounds m v t)"
  by (simp add: fips_rounds_def)

lemma length_K [simp]: "length sha512_K = 80"
  by (simp add: sha512_K_def)

lemma foldl_zip_upt:
  "length xs = length ys \<Longrightarrow> foldl (\<lambda>v (x, y). f x y v) v (zip xs ys) = foldl (\<lambda>v i. f (xs ! i) (ys ! i) v) v [0..<length xs]"
proof (induction xs ys arbitrary: v rule: rev_induct2)
  case (4 x xs y ys)
  then have "foldl (\<lambda>v i. f ((xs @ [x]) ! i) ((ys @ [y]) ! i) v) v [0..<length xs] = foldl (\<lambda>v i. f (xs ! i) (ys ! i) v) v [0..<length xs]"
    by (intro foldl_cong) (auto simp: nth_append)
  with 4 show ?case by (simp add: nth_append)
qed simp_all

lemma fips_compress_rounds:
  "fips_compress hs b = add_vars hs (fips_rounds (block_words b) (vars_of hs) 80)"
  by (simp add: fips_compress_def fips_rounds_def foldl_zip_upt [where f = fips_round] block_words_def)

lemma first_rounds_fips: "length m = 16 \<Longrightarrow> first_rounds m v = fips_rounds m v 16"
  unfolding first_rounds_def fips_rounds_def
  by (intro foldl_cong) (auto simp: round_fips schedule_stable [of _ m 0 64])

section \<open>The ring of input words\<close>

definition ring_holds :: "u64 list \<Rightarrow> u64 list \<Rightarrow> nat \<Rightarrow> bool" where
  "ring_holds m input t \<longleftrightarrow> length input = 16 \<and> (\<forall>s < t. t \<le> s + 16 \<longrightarrow> input ! (s mod 16) = fips_schedule m 64 ! s)"

lemma ring_at: "ring_holds m input t \<Longrightarrow> s < t \<Longrightarrow> t \<le> s + 16 \<Longrightarrow> input ! (s mod 16) = fips_schedule m 64 ! s"
  by (simp add: ring_holds_def)

lemma and_15: "n AND 15 = n mod 16" for n :: nat
  using take_bit_eq_mask [of 4 n] by (simp add: mask_eq_exp_minus_1 take_bit_eq_mod)

lemma ring_index:
  assumes "j < 16" "k \<le> 15"
  shows "size_sub j k AND 15 = (j + (16 - k)) mod 16"
proof (cases "k \<le> j")
  case True
  then have "j + (16 - k) = (j - k) + 16" using assms by simp
  with True show ?thesis by (simp only: size_sub_def and_15 if_True mod_add_self2)
next
  case False
  then have "j + 4294967296 - k = (j + (16 - k)) + 268435455 * 16" using assms by simp
  with False show ?thesis by (simp only: size_sub_def and_15 if_False mod_mult_self1)
qed

lemma ring_back:
  assumes "k \<le> 15" "16 \<le> t"
  shows "size_sub (t mod 16) k AND 15 = (t - k) mod 16"
proof -
  have "t mod 16 + (16 - k) + (t div 16 - 1) * 16 = t - k"
    using assms by (simp add: algebra_simps)
  then show ?thesis using ring_index [of "t mod 16" k] assms(1) by (metis mod_less_divisor mod_mult_self1 zero_less_numeral)
qed

lemma window_distinct:
  assumes "s mod 16 = t mod 16" "s < t" "t < s + (16 :: nat)"
  shows False
proof -
  have "16 dvd t - s" using assms(1,2) by (metis less_imp_le_nat mod_eq_dvd_iff_nat)
  then show False using assms(2,3) by (auto dest: dvd_imp_le)
qed

lemma expand_ring:
  assumes inv: "ring_holds m input t" and t: "16 \<le> t" "t < 80" and m: "length m = 16"
  shows "ring_holds m (expand_input (t mod 16) input) (Suc t)"
proof -
  let ?W = "\<lambda>s. fips_schedule m 64 ! s"
  have len: "length input = 16" using inv by (simp add: ring_holds_def)
  have at: "input ! (s mod 16) = ?W s" if "s < t" "t \<le> s + 16" for s
    using ring_at [OF inv that] .
  have neq: "(t - k) mod 16 \<noteq> t mod 16" if "0 < k" "k \<le> 15" for k
  proof
    assume "(t - k) mod 16 = t mod 16"
    then show False by (rule window_distinct) (use t that in linarith)+
  qed
  have self: "(t - 16) mod 16 = t mod 16" using t by (simp add: le_mod_geq)
  have new: "?W t = lit_sigma1 (?W (t - 2)) + ?W (t - 7) + lit_sigma0 (?W (t - 15)) + ?W (t - 16)"
  proof -
    obtain n where n: "t = n + 16" using t by (metis add.commute le_Suc_ex)
    have "?W t = fips_schedule m (Suc n) ! t" using t m n by (intro schedule_stable) auto
    moreover have "fips_schedule m n ! s = ?W s" if "s < n + 16" for s
      using t m n that by (intro schedule_stable [symmetric]) auto
    ultimately show ?thesis
      by (simp add: n m Let_def nth_append lit_sigma0_def lit_sigma1_def rot_rotr add.commute [of _ n])
  qed
  have "expand_input (t mod 16) input = input[t mod 16 := ?W t]"
    using len at [of "t - 2"] at [of "t - 7"] at [of "t - 15"] at [of "t - 16"] t neq [of 7, symmetric] neq [of 15, symmetric]
    by (simp add: expand_input_def Let_def ring_back self new add_ac)
  moreover have "input[t mod 16 := ?W t] ! (s mod 16) = ?W s" if "s < Suc t" "Suc t \<le> s + 16" for s
  proof (cases "s = t")
    case False
    with that window_distinct [of s t] have "s mod 16 \<noteq> t mod 16" by auto
    with at [of s] False that show ?thesis by simp
  qed (simp add: len)
  ultimately show ?thesis by (simp add: ring_holds_def len)
qed

text \<open>The nested loops run over the rounds 16 to 79.\<close>

definition ring_round :: "u64 list \<times> sha_vars \<Rightarrow> nat \<Rightarrow> u64 list \<times> sha_vars" where
  "ring_round s t = expanded_round (16 * (t div 16)) s (t mod 16)"

lemma later_rounds_flat: "later_rounds input v = foldl ring_round (input, v) [16..<80]"
proof -
  have inner: "foldl (expanded_round (16 * i)) s [0..<16] = foldl ring_round s [16 * i ..< 16 * i + 16]" for i s
  proof -
    have "[16 * i ..< 16 * i + 16] = map (\<lambda>j. 16 * i + j) [0..<16]" by (rule nth_equalityI) simp_all
    then show ?thesis
      by (simp add: foldl_map ring_round_def) (intro foldl_cong, auto simp: div_mult_self4)
  qed
  have "[16..<80] = [16..<32] @ [32..<48] @ [48..<64] @ [64..<(80 :: nat)]"
    by (simp add: upt_add_eq_append [symmetric])
  moreover have "[1..<5] = [1, 2, 3, (4 :: nat)]" by (simp add: upt_rec)
  ultimately show ?thesis by (simp add: later_rounds_def inner)
qed

lemma ring_rounds:
  assumes m: "length m = 16" and n: "n \<le> 64"
  shows "\<exists>input. foldl ring_round (m, fips_rounds m v 16) [16..<16 + n] = (input, fips_rounds m v (16 + n)) \<and>
    ring_holds m input (16 + n)"
  using n
proof (induction n)
  case 0
  show ?case by (simp add: ring_holds_def m schedule_stable [of _ m 0 64])
next
  case (Suc n)
  then obtain input where run: "foldl ring_round (m, fips_rounds m v 16) [16..<16 + n] = (input, fips_rounds m v (16 + n))"
    and inv: "ring_holds m input (16 + n)" by auto
  let ?next = "expand_input ((16 + n) mod 16) input"
  have nxt: "ring_holds m ?next (Suc (16 + n))" using expand_ring [OF inv _ _ m] Suc.prems by simp
  then have "?next ! ((16 + n) mod 16) = fips_schedule m 64 ! (16 + n)"
    by (rule ring_at) simp_all
  then have "ring_round (input, fips_rounds m v (16 + n)) (16 + n) = (?next, fips_rounds m v (Suc (16 + n)))"
    by (simp only: ring_round_def expanded_round_def prod.case Let_def round_fips fips_rounds_Suc mult_div_mod_eq)
  with run nxt show ?case by (simp only: add_Suc_right upt_Suc_append le_add1 foldl_append foldl.simps) blast
qed

lemma compress_fips:
  assumes "sha_input ctx = block_words b"
  shows "sha_hash (sha512_compress ctx) = fips_compress (sha_hash ctx) b"
    "sha_input_size (sha512_compress ctx) = sha_input_size ctx" "sha_input_idx (sha512_compress ctx) = sha_input_idx ctx"
    "length (sha_input (sha512_compress ctx)) = 16"
proof -
  let ?m = "block_words b"
  have m: "length ?m = 16" by (simp add: block_words_def)
  from ring_rounds [OF m, of 64 "vars_of (sha_hash ctx)"] obtain input where
    "later_rounds ?m (first_rounds ?m (vars_of (sha_hash ctx))) = (input, fips_rounds ?m (vars_of (sha_hash ctx)) 80)"
    "length input = 16"
    by (auto simp: later_rounds_flat first_rounds_fips [OF m] ring_holds_def)
  then show "sha_hash (sha512_compress ctx) = fips_compress (sha_hash ctx) b"
    "sha_input_size (sha512_compress ctx) = sha_input_size ctx" "sha_input_idx (sha512_compress ctx) = sha_input_idx ctx"
    "length (sha_input (sha512_compress ctx)) = 16"
    by (simp_all add: sha512_compress_def assms fips_compress_rounds)
qed

section \<open>Input words\<close>

text \<open>A partial block, filled with zeros.\<close>

definition zero_fill :: "bytes \<Rightarrow> bytes" where
  "zero_fill p = p @ replicate (128 - length p) 0"

lemma length_block_words [simp]: "length (block_words b) = 16"
  by (simp add: block_words_def)

lemma nth_block_words: "i < 16 \<Longrightarrow> block_words b ! i = load64_be (drop (8 * i) b)"
  by (simp add: block_words_def)

lemma load64_be_cong: "(\<And>k. k < 8 \<Longrightarrow> s ! k = s' ! k) \<Longrightarrow> load64_be s = load64_be s'"
  by (simp add: load64_be_def)

lemma load64_be_byte:
  assumes k: "k < 8" and len: "8 \<le> length s" and zero: "s ! k = 0"
  shows "load64_be (s[k := b]) = load64_be s OR push_bit (8 * (7 - k)) (ucast b)"
proof -
  have "k \<in> {0, 1, 2, 3, 4, 5, 6, 7}" using k by auto
  moreover have "0 < length s" using len by linarith
  ultimately show ?thesis using len zero by (auto simp: load64_be_def nth_list_update or.left_commute or.commute or.assoc)
qed

lemma length_zero_fill: "length p \<le> 128 \<Longrightarrow> length (zero_fill p) = 128"
  by (simp add: zero_fill_def)

lemma nth_zero_fill: "length p \<le> 128 \<Longrightarrow> i < 128 \<Longrightarrow> zero_fill p ! i = (if i < length p then p ! i else 0)"
  by (simp add: zero_fill_def nth_append)

lemma block_words_update:
  assumes z: "length z = 128" and i: "i < 128" and zero: "z ! i = 0"
  shows "block_words (z[i := b]) =
    (block_words z)[i div 8 := block_words z ! (i div 8) OR push_bit (8 * (7 - i mod 8)) (ucast b)]"
proof (rule nth_equalityI)
  fix w assume "w < length (block_words (z[i := b]))"
  then have w: "w < 16" by simp
  have bound: "i div 8 < 16" using i by simp
  show "block_words (z[i := b]) ! w =
    (block_words z)[i div 8 := block_words z ! (i div 8) OR push_bit (8 * (7 - i mod 8)) (ucast b)] ! w"
  proof (cases "w = i div 8")
    case True
    have "drop (8 * w) (z[i := b]) = (drop (8 * w) z)[i mod 8 := b]"
      using True by (simp add: drop_update_swap minus_mult_div_eq_mod)
    moreover have "drop (8 * w) z ! (i mod 8) = 0" "8 \<le> length (drop (8 * w) z)" using True z zero i w by simp_all
    ultimately show ?thesis using True w bound load64_be_byte [of "i mod 8" "drop (8 * w) z" b] by (simp add: nth_block_words)
  next
    case False
    have "z[i := b] ! (8 * w + k) = z ! (8 * w + k)" if "k < 8" for k
    proof -
      have "8 * w + k \<noteq> i" using False that by auto
      then show ?thesis by simp
    qed
    then have "load64_be (drop (8 * w) (z[i := b])) = load64_be (drop (8 * w) z)"
      using w z by (intro load64_be_cong) simp
    with False w show ?thesis by (simp add: nth_block_words)
  qed
qed simp

lemma block_words_set:
  assumes p: "length p < 128"
  shows "block_words (zero_fill (p @ [b])) =
    (block_words (zero_fill p))[length p div 8 := block_words (zero_fill p) ! (length p div 8) OR
       push_bit (8 * (7 - length p mod 8)) (ucast b)]"
proof -
  have "zero_fill (p @ [b]) = (zero_fill p)[length p := b]"
    using p by (intro nth_equalityI) (auto simp: length_zero_fill nth_zero_fill nth_list_update nth_append)
  then show ?thesis
    using block_words_update [of "zero_fill p" "length p" b] p by (simp add: length_zero_fill nth_zero_fill)
qed

lemma load_buf_nth:
  "off + n \<le> length dst \<Longrightarrow> length (load64_be_buf dst off src n) = length dst \<and>
   (\<forall>i < length dst. load64_be_buf dst off src n ! i =
      (if off \<le> i \<and> i < off + n then load64_be (drop (8 * (i - off)) src) else dst ! i))"
  by (induction n) (auto simp: load64_be_buf_def nth_list_update mult.commute less_Suc_eq)

lemma block_words_load:
  assumes p: "length p mod 8 = 0" and n: "length p + 8 * n \<le> 128" "8 * n \<le> length message"
  shows "load64_be_buf (block_words (zero_fill p)) (length p div 8) message n = block_words (zero_fill (p @ take (8 * n) message))"
proof (rule nth_equalityI)
  obtain q where q: "length p = 8 * q" using p by auto
  let ?src = "zero_fill (p @ take (8 * n) message)"
  have fit: "q + n \<le> length (block_words (zero_fill p))" using n q by simp
  note buf = load_buf_nth [OF fit, of message]
  show "length (load64_be_buf (block_words (zero_fill p)) (length p div 8) message n) = length (block_words ?src)"
    using buf q by simp
  fix i assume "i < length (load64_be_buf (block_words (zero_fill p)) (length p div 8) message n)"
  then have i: "i < 16" using buf q by simp
  have "load64_be (drop (8 * i) ?src) =
    (if q \<le> i \<and> i < q + n then load64_be (drop (8 * (i - q)) message) else load64_be (drop (8 * i) (zero_fill p)))"
    using i q n by (auto intro!: load64_be_cong simp: length_zero_fill nth_zero_fill nth_append diff_mult_distrib2)
  with buf i q show "load64_be_buf (block_words (zero_fill p)) (length p div 8) message n ! i = block_words ?src ! i"
    by (simp add: nth_block_words)
qed

section \<open>What a context holds\<close>

text \<open>
  The bytes \<open>m\<close> are in the hash and in the bit count, block by block; the bytes \<open>p\<close>, at most a block, are
  in the input words.
\<close>

definition bit_count :: "u64 \<times> u64 \<Rightarrow> nat" where
  "bit_count x = unat (fst x) * 2 ^ 64 + unat (snd x)"

definition sha_holds :: "crypto_sha512_ctx \<Rightarrow> bytes \<Rightarrow> bytes \<Rightarrow> bool" where
  "sha_holds ctx m p \<longleftrightarrow> 128 dvd length m \<and> length p \<le> 128 \<and>
     sha_hash ctx = foldl fips_compress (sha_hash crypto_sha512_init_impl) (fips_blocks m) \<and>
     bit_count (sha_input_size ctx) = 8 * length m mod 2 ^ 128 \<and>
     sha_input_idx ctx = length p \<and> sha_input ctx = block_words (zero_fill p)"

lemma carry_128:
  assumes "(a :: nat) < 2 ^ 64" "2 ^ 64 \<le> s" "s < 2 ^ 65"
  shows "(a + 1) mod 2 ^ 64 * 2 ^ 64 + (s - 2 ^ 64) = (a * 2 ^ 64 + s) mod 2 ^ 128"
proof (cases "a + 1 < 2 ^ 64")
  case True
  with assms show ?thesis by simp
next
  case False
  with assms(1) have "a = 2 ^ 64 - 1" by simp
  then have "a * 2 ^ 64 + s = 2 ^ 128 + (s - 2 ^ 64)" "(a + 1) mod 2 ^ 64 = 0" using assms(2) by simp_all
  moreover have "s - 2 ^ 64 < 2 ^ 128" using assms(3) by simp
  ultimately show ?thesis by (simp del: power_numeral)
qed

lemma incr_count: "bit_count (sha512_incr x y) = (bit_count x + unat y) mod 2 ^ 128"
proof -
  obtain x0 x1 where x: "x = (x0, x1)" by (cases x)
  have b: "unat x0 < 2 ^ 64" "unat x1 < 2 ^ 64" "unat y < 2 ^ 64"
    using unsigned_less [of x0, where 'a = nat] unsigned_less [of x1, where 'a = nat] unsigned_less [of y, where 'a = nat] by simp_all
  show ?thesis
  proof (cases "unat x1 + unat y < 2 ^ 64")
    case True
    then have "unat (x1 + y) = unat x1 + unat y" by (simp add: unat_word_ariths)
    with True b show ?thesis by (simp add: x sha512_incr_def bit_count_def word_less_nat_alt)
  next
    case False
    then have sum: "unat (x1 + y) = unat x1 + unat y - 2 ^ 64"
      using b by (simp add: unat_word_ariths mod_if)
    moreover from this have "x1 + y < y" using b False by (simp add: word_less_nat_alt)
    moreover have "unat (x0 + 1) = (unat x0 + 1) mod 2 ^ 64" by (simp add: unat_word_ariths)
    ultimately have "bit_count (sha512_incr x y) = (unat x0 + 1) mod 2 ^ 64 * 2 ^ 64 + (unat x1 + unat y - 2 ^ 64)"
      by (simp add: x sha512_incr_def bit_count_def)
    also have "\<dots> = (unat x0 * 2 ^ 64 + (unat x1 + unat y)) mod 2 ^ 128"
      using carry_128 [OF b(1), of "unat x1 + unat y"] b False by simp
    finally show ?thesis by (simp add: x bit_count_def add.assoc)
  qed
qed

lemma fips_blocks_snoc: "128 dvd length m \<Longrightarrow> length b = 128 \<Longrightarrow> fips_blocks (m @ b) = fips_blocks m @ [b]"
proof (induction m rule: fips_blocks.induct)
  case (1 m)
  show ?case
  proof (cases "length m < 128")
    case True
    with 1(2) have "m = []" by (auto dest: dvd_imp_le)
    with 1(3) show ?thesis by (simp add: fips_blocks.simps)
  next
    case False
    then have "128 dvd length (drop 128 m)" using 1(2) by simp
    with 1(1) [OF False] 1(3) have "fips_blocks (drop 128 m @ b) = fips_blocks (drop 128 m) @ [b]" by simp
    with False show ?thesis by (subst (1 2) fips_blocks.simps) simp
  qed
qed

lemma init_holds: "sha_holds crypto_sha512_init_impl [] []"
proof -
  have "block_words (zero_fill []) = replicate 16 0"
    by (rule nth_equalityI) (simp_all add: nth_block_words zero_fill_def load64_be_def)
  then show ?thesis
    by (simp add: sha_holds_def crypto_sha512_init_impl_def bit_count_def fips_blocks.simps)
qed

lemma nat_and_masks: "n AND 7 = n mod 8" "n AND 127 = n mod 128" for n :: nat
  using take_bit_eq_mask [of 3 n] take_bit_eq_mask [of 7 n] by (simp_all add: mask_eq_exp_minus_1 take_bit_eq_mod)

lemmas nat_bits = nat_and_masks drop_bit_eq_div push_bit_eq_mult

lemma bytes_hold:
  "sha_holds ctx m p \<Longrightarrow> length p + length bs \<le> 128 \<Longrightarrow> sha_holds (absorb_bytes ctx bs) m (p @ bs)"
proof (induction bs arbitrary: ctx p)
  case (Cons b bs)
  let ?c = "sha512_set_input ctx b"
  have "sha_holds (?c\<lparr>sha_input_idx := sha_input_idx ?c + 1\<rparr>) m (p @ [b])"
    using Cons.prems block_words_set [of p b] by (simp add: sha_holds_def sha512_set_input_def Let_def nat_bits)
  from Cons.IH [OF this] Cons.prems(2) show ?case by (simp add: absorb_bytes_def Let_def)
qed (simp add: absorb_bytes_def)

lemma words_hold:
  assumes "sha_holds ctx m p" "length p mod 8 = 0" "length p + 8 * n \<le> 128" "8 * n \<le> length message" "off = length p div 8"
  shows "sha_holds (absorb_words ctx off message n) m (p @ take (8 * n) message)"
  using assms block_words_load [of p n message] by (simp add: sha_holds_def absorb_words_def push_bit_eq_mult)

lemma block_holds:
  assumes holds: "sha_holds ctx m p" and p: "length p = 128"
  shows "sha_holds (compress_block ctx) (m @ p) []"
proof -
  let ?c = "ctx\<lparr>sha_input_size := sha512_incr (sha_input_size ctx) 1024\<rparr>"
  have "sha_input ?c = block_words p" using holds p by (simp add: sha_holds_def zero_fill_def)
  note compress = compress_fips [OF this]
  have "(8 * length m mod 2 ^ 128 + 1024) mod 2 ^ 128 = (8 * length m + 1024) mod (2 ^ 128 :: nat)" by (rule mod_add_left_eq)
  then show ?thesis
    using holds p compress fips_blocks_snoc [of m p] init_holds
    by (simp add: sha_holds_def compress_block_def incr_count crypto_sha512_init_impl_def)
qed

lemma blocks_hold:
  "sha_holds ctx m [] \<Longrightarrow> 128 * n \<le> length message \<Longrightarrow>
   absorb_blocks n ctx message = (ctx', message') \<Longrightarrow>
   sha_holds ctx' (m @ take (128 * n) message) [] \<and> message' = drop (128 * n) message"
proof (induction n arbitrary: ctx m message)
  case (Suc n)
  let ?c = "ctx\<lparr>sha_input := load64_be_buf (sha_input ctx) 0 message 16\<rparr>"
  have "sha_input_idx ctx = 0" using Suc.prems(1) by (simp add: sha_holds_def)
  have "sha_holds (absorb_words ctx 0 message 16) m (take 128 message)"
    using words_hold [OF Suc.prems(1), of 16 message 0] Suc.prems(2) by simp
  then have "sha_holds (compress_block (absorb_words ctx 0 message 16)) (m @ take 128 message) []"
    using Suc.prems(2) by (intro block_holds) simp_all
  moreover have "compress_block (absorb_words ctx 0 message 16) = compress_block ?c"
    by (simp add: compress_block_def absorb_words_def sha512_compress_def split: prod.split)
  ultimately have "sha_holds (compress_block ?c) (m @ take 128 message) []" by simp
  from Suc.IH [OF this, of "drop 128 message"] Suc.prems(2,3) show ?case
    by (simp add: take_add [of 128 "128 * n"] add.commute)
qed simp

lemma rest_holds:
  assumes holds: "sha_holds ctx m p" and small: "length message < 128"
    and fits: "message = [] \<or> p = [] \<or> length p mod 8 = 0 \<and> length message < 8" and p: "length p < 128"
  shows "sha_holds (absorb_rest ctx message) m (p @ message)"
proof (cases "message = []")
  case False
  define n where "n = length message div 8"
  have n: "8 * n \<le> length message" "length message - 8 * n < 8" by (simp_all add: n_def)
  have "sha_holds (absorb_words ctx 0 message n) m (p @ take (8 * n) message)"
  proof (cases "p = []")
    case True
    then show ?thesis using words_hold [OF holds, of n message 0] n small by simp
  next
    case False
    with fits \<open>message \<noteq> []\<close> have "n = 0" by (simp add: n_def)
    with holds show ?thesis by (simp add: absorb_words_def load64_be_buf_def)
  qed
  moreover have "length (p @ take (8 * n) message) + length (drop (8 * n) message) \<le> 128"
    using fits small p False n by auto
  ultimately have "sha_holds (absorb_bytes (absorb_words ctx 0 message n) (drop (8 * n) message)) m
      ((p @ take (8 * n) message) @ drop (8 * n) message)"
    by (rule bytes_hold)
  then show ?thesis using False by (simp add: absorb_rest_def Let_def nat_bits n_def mult.commute)
qed (use holds in \<open>simp add: absorb_rest_def\<close>)

text \<open>The distances to the next word and to the next block.\<close>

lemma align_word: "n \<le> 128 \<Longrightarrow> n mod 8 \<noteq> 0 \<Longrightarrow> align n 8 = 8 - n mod 8"
proof -
  assume n: "n \<le> 128" "n mod 8 \<noteq> 0"
  have "n = 8 * (n div 8) + n mod 8" by simp
  then have "4294967296 - n = (8 - n mod 8) + (536870911 - n div 8) * 8" using n by arith
  then have "(4294967296 - n) mod 8 = 8 - n mod 8" using n(2) by (metis mod_less mod_mult_self1 diff_less neq0_conv zero_less_numeral)
  with n show ?thesis by (cases "n = 0") (simp_all add: align_def size_sub_def nat_bits)
qed

lemma align_block: "0 < n \<Longrightarrow> n < 128 \<Longrightarrow> align n 128 = 128 - n"
proof -
  assume n: "0 < n" "n < 128"
  have "4294967296 - n = (128 - n) + 33554431 * 128" using n by arith
  then have "(4294967296 - n) mod 128 = 128 - n" using n by (metis mod_less mod_mult_self1 diff_less zero_less_numeral)
  with n show ?thesis by (simp add: align_def size_sub_def nat_bits)
qed

lemma align_words_hold:
  assumes holds: "sha_holds ctx m p" and run: "align_words ctx message = (ctx', rest)"
  shows "\<exists>p'. sha_holds ctx' m p' \<and> p' @ rest = p @ message \<and> (rest = [] \<or> length p' mod 8 = 0)"
proof (cases "length p mod 8 = 0")
  case True
  with holds run show ?thesis by (auto simp: align_words_def sha_holds_def nat_bits)
next
  case False
  let ?n = "min (8 - length p mod 8) (length message)"
  have idx: "sha_input_idx ctx = length p" "length p \<le> 128" using holds by (simp_all add: sha_holds_def)
  from align_word [OF idx(2) False] run False idx(1) have
    eq: "ctx' = absorb_bytes ctx (take ?n message)" "rest = drop ?n message" by (auto simp: align_words_def nat_bits Let_def)
  define q r where "q = length p div 8" and "r = length p mod 8"
  then have qr: "length p = 8 * q + r" "0 < r" "r < 8" using False by simp_all
  then have "length p + (8 - length p mod 8) = 8 * (q + 1)" by simp
  then have "(length p + (8 - length p mod 8)) mod 8 = 0" "length p + (8 - length p mod 8) \<le> 128"
    using idx(2) qr by simp_all
  moreover from this have "sha_holds ctx' m (p @ take ?n message)"
    unfolding eq by (intro bytes_hold [OF holds]) auto
  ultimately show ?thesis using eq(2) by (intro exI [of _ "p @ take ?n message"]) (auto simp: min_def)
qed

lemma align_blocks_hold:
  assumes holds: "sha_holds ctx m p" and word: "message = [] \<or> length p mod 8 = 0"
    and run: "align_blocks ctx message = (ctx', rest)"
  shows "\<exists>p'. sha_holds ctx' m p' \<and> p' @ rest = p @ message \<and>
    (rest = [] \<or> p' = [] \<or> length p' = 128 \<or> length p' mod 8 = 0 \<and> length rest < 8)"
proof (cases "length p mod 128 = 0")
  case True
  with holds have "p = [] \<or> length p = 128" by (cases "length p < 128") (auto simp: sha_holds_def)
  with True holds run show ?thesis by (auto simp: align_blocks_def sha_holds_def nat_bits)
next
  case False
  have idx: "sha_input_idx ctx = length p" "0 < length p" "length p < 128"
    using holds False by (auto simp: sha_holds_def le_eq_less_or_eq)
  define n where "n = min (128 - length p) (length message) div 8"
  from align_block [OF idx(2,3)] run False idx(1) have
    eq: "ctx' = absorb_words ctx (length p div 8) message n" "rest = drop (8 * n) message"
    by (auto simp: align_blocks_def nat_bits Let_def n_def mult.commute)
  show ?thesis
  proof (cases "message = []")
    case True
    with eq holds show ?thesis by (auto simp: n_def absorb_words_def load64_be_buf_def)
  next
    case m: False
    with word have w: "length p mod 8 = 0" by simp
    then obtain q where q: "length p = 8 * q" by auto
    then have mult: "8 * ((128 - length p) div 8) = 128 - length p" using idx(3) by (simp add: diff_mult_distrib2 [symmetric, of 8 16 q, simplified])
    have "8 * n \<le> min (128 - length p) (length message)" unfolding n_def by (rule times_div_less_eq_dividend)
    then have n: "length p + 8 * n \<le> 128" "8 * n \<le> length message" using idx(3) unfolding min.bounded_iff by linarith+
    have "length p + 8 * n = 128 \<or> length message - 8 * n < 8"
    proof (cases "128 - length p \<le> length message")
      case True
      then have "8 * n = 128 - length p" using mult by (simp add: n_def min_absorb1)
      then show ?thesis using idx(3) by simp
    next
      case False
      then have "n = length message div 8" by (simp add: n_def min_absorb2)
      then show ?thesis by (simp add: minus_mult_div_eq_mod)
    qed
    with words_hold [OF holds w n refl] eq n w show ?thesis
      by (intro exI [of _ "p @ take (8 * n) message"]) (auto simp: mod_add_eq)
  qed
qed

lemma update_holds:
  assumes ctx: "sha_holds ctx m p" "length p < 128"
  shows "\<exists>m' p'. sha_holds (crypto_sha512_update_impl ctx message) m' p' \<and> length p' < 128 \<and> m' @ p' = m @ p @ message"
proof (cases "message = []")
  case False
  obtain c1 m1 where r1: "align_words ctx message = (c1, m1)" by (metis surj_pair)
  from align_words_hold [OF ctx(1) r1] obtain p1 where
    "sha_holds c1 m p1 \<and> p1 @ m1 = p @ message \<and> (m1 = [] \<or> length p1 mod 8 = 0)" ..
  then have p1: "sha_holds c1 m p1" "p1 @ m1 = p @ message" "m1 = [] \<or> length p1 mod 8 = 0" by simp_all
  obtain c2 m2 where r2: "align_blocks c1 m1 = (c2, m2)" by (metis surj_pair)
  from align_blocks_hold [OF p1(1,3) r2] obtain p2 where
    "sha_holds c2 m p2 \<and> p2 @ m2 = p1 @ m1 \<and>
      (m2 = [] \<or> p2 = [] \<or> length p2 = 128 \<or> length p2 mod 8 = 0 \<and> length m2 < 8)" ..
  then have p2: "sha_holds c2 m p2" "p2 @ m2 = p1 @ m1"
    "m2 = [] \<or> p2 = [] \<or> length p2 = 128 \<or> length p2 mod 8 = 0 \<and> length m2 < 8" by simp_all
  let ?c3 = "if sha_input_idx c2 = 128 then compress_block c2 else c2"
  obtain m3 p3 where p3: "sha_holds ?c3 m3 p3" "m3 @ p3 = m @ p2" "length p3 < 128"
      "m2 = [] \<or> p3 = [] \<or> length p3 mod 8 = 0 \<and> length m2 < 8"
  proof (cases "length p2 = 128")
    case True
    from that [of "m @ p2" "[]"] block_holds [OF p2(1) True] True p2(1) show ?thesis by (simp add: sha_holds_def)
  next
    case False
    from that [of m p2] p2 False show ?thesis by (auto simp: sha_holds_def)
  qed
  obtain c4 m4 where r4: "absorb_blocks (length m2 div 128) ?c3 m2 = (c4, m4)" by (metis surj_pair)
  obtain m5 where p4: "sha_holds c4 m5 p3" "m5 @ p3 @ m4 = m3 @ p3 @ m2" "length m4 = length m2 mod 128"
      "m4 = [] \<or> p3 = [] \<or> length p3 mod 8 = 0 \<and> length m4 < 8"
  proof (cases "p3 = []")
    case True
    have "128 * (length m2 div 128) \<le> length m2" by simp
    from blocks_hold [OF p3(1) [unfolded True] this r4] True that [of "m3 @ take (128 * (length m2 div 128)) m2"]
    show ?thesis by (simp add: minus_mult_div_eq_mod)
  next
    case False
    with p3(4) have "length m2 div 128 = 0" by auto
    with r4 that [of m3] p3 False show ?thesis by auto
  qed
  have "crypto_sha512_update_impl ctx message = absorb_rest c4 m4"
    using False r1 r2 r4 p4(3) by (simp add: crypto_sha512_update_impl_def Let_def nat_bits)
  moreover have "sha_holds (absorb_rest c4 m4) m5 (p3 @ m4)" using rest_holds [OF p4(1) _ p4(4) p3(3)] p4(3) by simp
  moreover have "length (p3 @ m4) < 128"
  proof -
    consider "m4 = []" | "p3 = []" | "length p3 mod 8 = 0" "length m4 < 8" using p4(4) by metis
    then show ?thesis
    proof cases
      case 3
      then obtain q where "length p3 = 8 * q" by auto
      with 3(2) p3(3) show ?thesis by simp
    qed (use p3(3) p4(3) in simp_all)
  qed
  moreover have eq: "m5 @ p3 @ m4 = m @ p @ message"
  proof -
    have "m5 @ p3 @ m4 = (m3 @ p3) @ m2" using p4(2) by simp
    also have "\<dots> = m @ p2 @ m2" unfolding p3(2) by simp
    finally show ?thesis unfolding p2(2) p1(2) .
  qed
  ultimately show ?thesis by (intro exI [of _ m5] exI [of _ "p3 @ m4"]) (simp only: eq append_assoc simp_thms)
next
  case True
  with ctx show ?thesis by (intro exI [of _ m] exI [of _ p]) (simp add: crypto_sha512_update_impl_def)
qed

section \<open>The last block\<close>

lemma length_store64 [simp]: "length (store64_be x) = 8"
  by (simp add: store64_be_def)

lemma load_store64: "load64_be (store64_be x @ ys) = x"
proof (rule bit_word_eqI)
  fix n assume "n < LENGTH(64)"
  then have n: "n < 64" by simp
  then consider "n < 8" | "8 \<le> n" "n < 16" | "16 \<le> n" "n < 24" | "24 \<le> n" "n < 32"
    | "32 \<le> n" "n < 40" | "40 \<le> n" "n < 48" | "48 \<le> n" "n < 56" | "56 \<le> n" "n < 64" by linarith
  then show "bit (load64_be (store64_be x @ ys)) n \<longleftrightarrow> bit x n"
    by cases (auto simp: load64_be_def store64_be_def bit_or_iff bit_push_bit_iff bit_unsigned_iff bit_drop_bit_eq)
qed

lemma block_words_tail:
  assumes z: "112 \<le> length z" and ws: "length ws = 16" "\<And>i. i < 14 \<Longrightarrow> ws ! i = load64_be (drop (8 * i) z)"
  shows "ws[14 := a, 15 := b] = block_words (take 112 z @ store64_be a @ store64_be b)"
proof (rule nth_equalityI)
  fix i assume "i < length (ws[14 := a, 15 := b])"
  then consider "i < 14" | "i = 14" | "i = 15" using ws(1) by fastforce
  then show "ws[14 := a, 15 := b] ! i = block_words (take 112 z @ store64_be a @ store64_be b) ! i"
  proof cases
    case 1
    have "load64_be (drop (8 * i) (take 112 z @ store64_be a @ store64_be b)) = load64_be (drop (8 * i) z)"
    proof (rule load64_be_cong)
      fix k :: nat assume "k < 8"
      then have "8 * i + k < 112" "k < 112 - 8 * i" using 1 by simp_all
      then show "drop (8 * i) (take 112 z @ store64_be a @ store64_be b) ! k = drop (8 * i) z ! k"
        using z by (simp add: nth_append)
    qed
    with 1 ws show ?thesis by (simp add: nth_block_words)
  qed (use z ws load_store64 [of a "store64_be b"] load_store64 [of b "[]"] in \<open>simp_all add: nth_block_words\<close>)
qed (simp add: ws)

lemma unat_of_nat_u64: "n < 2 ^ 64 \<Longrightarrow> unat (of_nat n :: u64) = n"
  by (simp add: unsigned_of_nat take_bit_eq_mod)

lemma count_words:
  assumes "bit_count x = n mod 2 ^ 128"
  shows "fst x = of_nat (n div 2 ^ 64)" "snd x = of_nat n"
proof -
  have lo: "unat (snd x) < 2 ^ 64" using unsigned_less [of "snd x", where 'a = nat] by simp
  have "unat (snd x) = n mod 2 ^ 128 mod 2 ^ 64" "unat (fst x) = n mod 2 ^ 128 div 2 ^ 64"
    using lo unfolding assms [symmetric] bit_count_def by simp_all
  moreover have "n mod 2 ^ 128 mod 2 ^ 64 = n mod (2 ^ 64 :: nat)" by (rule mod_mod_cancel) simp
  moreover have "n mod 2 ^ 128 div 2 ^ 64 = n div 2 ^ 64 mod (2 ^ 64 :: nat)"
    using div_exp_mod_exp_eq [of n 64 64] by simp
  ultimately show "fst x = of_nat (n div 2 ^ 64)" "snd x = of_nat n"
    by (simp_all add: word_unat_eq_iff unsigned_of_nat take_bit_eq_mod)
qed

text \<open>The padded message ends in the partial block with its mark and the length, in one block or two.\<close>

lemma fips_pad_blocks:
  assumes m: "128 dvd length m" and p: "length p < 128"
  defines "len \<equiv> store64_be (of_nat (8 * length (m @ p) div 2 ^ 64)) @ store64_be (of_nat (8 * length (m @ p)))"
  shows "fips_blocks (fips_pad (m @ p)) = fips_blocks m @
    (if length p \<le> 111 then [take 112 (zero_fill (p @ [0x80])) @ len]
     else [zero_fill (p @ [0x80]), replicate 112 0 @ len])"
proof -
  have mod: "length (m @ p) mod 128 = length p" using m p by auto
  have len: "length len = 16" by (simp add: len_def)
  show ?thesis
  proof (cases "length p \<le> 111")
    case True
    have "(239 - length p) mod 128 = 111 - length p" using True by (simp add: mod_if)
    moreover have "take 112 (zero_fill (p @ [0x80])) = p @ [0x80] @ replicate (111 - length p) 0"
    proof -
      have "112 - length p = Suc (111 - length p)" using True by simp
      then show ?thesis using True by (simp add: zero_fill_def)
    qed
    ultimately have "fips_pad (m @ p) = m @ (take 112 (zero_fill (p @ [0x80])) @ len)"
      unfolding fips_pad_def mod len_def by simp
    with fips_blocks_snoc [OF m, of "take 112 (zero_fill (p @ [0x80])) @ len"] True len show ?thesis
      by (simp add: length_zero_fill)
  next
    case False
    have "(239 - length p) mod 128 = 239 - length p" using False by (simp add: mod_if)
    moreover have "zero_fill (p @ [0x80]) @ replicate 112 0 = p @ [0x80] @ replicate (239 - length p) 0"
      using False p by (simp add: zero_fill_def replicate_add [symmetric])
    ultimately have "fips_pad (m @ p) = (m @ zero_fill (p @ [0x80])) @ (replicate 112 0 @ len)"
      unfolding fips_pad_def mod len_def by simp
    with fips_blocks_snoc [of "m @ zero_fill (p @ [0x80])" "replicate 112 0 @ len"] fips_blocks_snoc [OF m, of "zero_fill (p @ [0x80])"]
      m p False len show ?thesis by (simp add: length_zero_fill)
  qed
qed

lemma final_holds:
  assumes ctx: "sha_holds ctx m p" "length p < 128"
  shows "fst (crypto_sha512_final_impl ctx) = fips_sha512 (m @ p)"
proof -
  let ?c0 = "if sha_input_idx ctx = 0 then ctx\<lparr>sha_input := replicate 16 0\<rparr> else ctx"
  have "?c0 = ctx" using ctx init_holds by (auto simp: sha_holds_def crypto_sha512_init_impl_def)
  define c2 where "c2 = (sha512_set_input ctx 128)
    \<lparr>sha_input_size := sha512_incr (sha_input_size ctx) (of_nat (sha_input_idx ctx * 8))\<rparr>"
  let ?b = "zero_fill (p @ [0x80])"
  have hash: "sha_hash c2 = foldl fips_compress (sha_hash crypto_sha512_init_impl) (fips_blocks m)"
    and idx: "sha_input_idx c2 = length p"
    using ctx by (simp_all add: c2_def sha_holds_def sha512_set_input_def Let_def)
  have input: "sha_input c2 = block_words ?b"
    using ctx block_words_set [of p 128] by (simp add: c2_def sha_holds_def sha512_set_input_def Let_def nat_bits)
  have "bit_count (sha_input_size c2) = 8 * length (m @ p) mod 2 ^ 128"
  proof -
    have "unat (of_nat (length p * 8) :: u64) = length p * 8"
      using ctx(2) by (intro unat_of_nat_u64) simp
    then show ?thesis using ctx(1) mod_add_left_eq [of "8 * length m" "2 ^ 128" "8 * length p"]
      by (simp add: c2_def sha_holds_def incr_count algebra_simps)
  qed
  note size = count_words [OF this]
  let ?len = "store64_be (of_nat (8 * length (m @ p) div 2 ^ 64)) @ store64_be (of_nat (8 * length (m @ p)))"
  define c3 where "c3 = (if sha_input_idx c2 > 111
    then let c = sha512_compress c2 in c\<lparr>sha_input := replicate 14 0 @ drop 14 (sha_input c)\<rparr> else c2)"
  let ?c4 = "c3\<lparr>sha_input := (sha_input c3)[14 := fst (sha_input_size c3), 15 := snd (sha_input_size c3)]\<rparr>"
  have final: "fst (crypto_sha512_final_impl ctx) = concat (map store64_be (sha_hash (sha512_compress ?c4)))"
    using \<open>?c0 = ctx\<close> by (simp add: crypto_sha512_final_impl_def Let_def c2_def c3_def sha512_set_input_def)
  have "sha_hash (sha512_compress ?c4) = foldl fips_compress (sha_hash crypto_sha512_init_impl) (fips_blocks (fips_pad (m @ p)))"
  proof (cases "length p \<le> 111")
    case True
    then have "c3 = c2" by (simp add: c3_def idx)
    moreover have "sha_input ?c4 = block_words (take 112 ?b @ ?len)"
      using block_words_tail [of ?b "sha_input c2"] ctx(2) size \<open>c3 = c2\<close>
      by (simp add: input length_zero_fill nth_block_words)
    ultimately show ?thesis
      using compress_fips(1) [of ?c4] fips_pad_blocks [of m p] ctx True hash by (simp add: sha_holds_def)
  next
    case False
    let ?ws = "replicate 14 0 @ drop 14 (sha_input (sha512_compress c2))"
    have "length ?ws = 16" "\<And>i. i < 14 \<Longrightarrow> ?ws ! i = load64_be (drop (8 * i) (replicate 112 0))"
      using compress_fips(4) [OF input] by (auto simp: nth_append load64_be_def)
    from block_words_tail [OF _ this, of "fst (sha_input_size c2)" "snd (sha_input_size c2)"] False size compress_fips(2) [OF input]
    have "sha_input ?c4 = block_words (replicate 112 0 @ ?len)" by (simp add: c3_def idx Let_def)
    then show ?thesis
      using compress_fips(1) [of ?c4] compress_fips(1) [OF input] fips_pad_blocks [of m p] ctx False hash
      by (simp add: sha_holds_def c3_def idx Let_def)
  qed
  with final show ?thesis by (simp add: fips_sha512_def)
qed

section \<open>Properties\<close>

lemma updates_hold:
  "sha_holds ctx m p \<Longrightarrow> length p < 128 \<Longrightarrow>
   \<exists>m' p'. sha_holds (foldl crypto_sha512_update_impl ctx chunks) m' p' \<and> length p' < 128 \<and> m' @ p' = m @ p @ concat chunks"
proof (induction chunks arbitrary: ctx m p)
  case (Cons chunk chunks)
  from update_holds [OF Cons.prems, of chunk] obtain m1 p1 where
    "sha_holds (crypto_sha512_update_impl ctx chunk) m1 p1 \<and> length p1 < 128 \<and> m1 @ p1 = m @ p @ chunk" by (elim exE)
  then have one: "sha_holds (crypto_sha512_update_impl ctx chunk) m1 p1" "length p1 < 128" "m1 @ p1 = m @ p @ chunk" by simp_all
  have "m1 @ p1 @ concat chunks = m @ p @ concat (chunk # chunks)" using one(3) by simp
  with Cons.IH [OF one(1,2)] show ?case by simp
next
  case Nil
  then show ?case by (intro exI [of _ m] exI [of _ p]) simp
qed

text \<open>
  The boot loader computes SHA-512: however a message is cut into pieces, absorbing them one after
  the other and finishing gives the hash that FIPS 180-4 defines for the whole message. The ring
  of 16 schedule words, the alignment to words and blocks and the carry of the bit count are invisible.
\<close>

lemma sha512_streaming:
  "fst (crypto_sha512_final_impl (foldl crypto_sha512_update_impl crypto_sha512_init_impl chunks)) = fips_sha512 (concat chunks)"
proof -
  obtain m p where "sha_holds (foldl crypto_sha512_update_impl crypto_sha512_init_impl chunks) m p" "length p < 128"
      "m @ p = concat chunks"
    using updates_hold [OF init_holds, of chunks] by auto
  with final_holds show ?thesis by metis
qed

end
