(* ===== verification/Boot_Crypto.thy ===== *)
theory Boot_Crypto
  imports Sha512_Correct Update_Liveness
begin

text \<open>
  The cryptographic functions the boot loader links (\<^verbatim>\<open>monocypher.c\<close>, \<^verbatim>\<open>monocypher-ed25519.c\<close>) as an
  instance of the parameter \<open>crypto\<close> of the other theories: SHA-512 is the model of \<open>Sha512\<close>, the
  signature check stays a parameter. The comparison of hashes in constant time is modelled here.

  Lemmas: hashing in pieces is a law of the interface \<open>streaming_hash\<close>, which SHA-512 satisfies; the
  comparison in constant time is equality.
\<close>

section \<open>Comparison in constant time\<close>

definition load32_le :: "bytes \<Rightarrow> u32" where
  "load32_le s =
     push_bit 0 (ucast (s ! 0)) OR push_bit 8 (ucast (s ! 1)) OR push_bit 16 (ucast (s ! 2)) OR push_bit 24 (ucast (s ! 3))"

definition load64_le :: "bytes \<Rightarrow> u64" where
  "load64_le s = ucast (load32_le s) OR push_bit 32 (ucast (load32_le (drop 4 s)))"

text \<open>The result of \<^verbatim>\<open>neq0\<close> is an \<^verbatim>\<open>int\<close>, 0 or -1.\<close>

definition neq0 :: "u64 \<Rightarrow> int" where
  "neq0 diff =
     (let half = drop_bit 32 diff OR ucast (ucast diff :: u32);
          eq0 = 1 AND drop_bit 32 (half - 1)
      in sint (ucast eq0 :: u32) - 1)"

definition x16 :: "bytes \<Rightarrow> bytes \<Rightarrow> u64" where
  "x16 a b = (load64_le a XOR load64_le b) OR (load64_le (drop 8 a) XOR load64_le (drop 8 b))"

definition x32 :: "bytes \<Rightarrow> bytes \<Rightarrow> u64" where
  "x32 a b = x16 a b OR x16 (drop 16 a) (drop 16 b)"

definition x64 :: "bytes \<Rightarrow> bytes \<Rightarrow> u64" where
  "x64 a b = x32 a b OR x32 (drop 32 a) (drop 32 b)"

definition crypto_verify32_impl :: "bytes \<Rightarrow> bytes \<Rightarrow> int" where
  "crypto_verify32_impl a b = neq0 (x32 a b)"

definition crypto_verify64_impl :: "bytes \<Rightarrow> bytes \<Rightarrow> int" where
  "crypto_verify64_impl a b = neq0 (x64 a b)"

lemma unat_ucast_u64: "unat (ucast (x :: u32) :: u64) = unat x"
  using u32_unat_bound [of x] by (simp add: unsigned_ucast_eq take_bit_nat_eq_self)

lemma neq0_correct: "neq0 diff = (if diff = 0 then 0 else -1)"
proof -
  define hi lo :: u32 where "hi = ucast (drop_bit 32 diff)" and "lo = ucast diff"
  have half: "drop_bit 32 diff OR ucast lo = (ucast (hi OR lo) :: u64)"
    by (rule bit_word_eqI) (auto simp: hi_def lo_def bit_or_iff bit_unsigned_iff bit_drop_bit_eq dest: bit_imp_le_length)
  have zero: "hi OR lo = 0 \<longleftrightarrow> diff = 0"
  proof
    assume "hi OR lo = 0"
    then have "hi = 0" "lo = 0" by (simp_all add: or_eq_0_iff)
    show "diff = 0"
    proof (rule bit_word_eqI)
      fix n assume "n < LENGTH(64)"
      then have n: "n < 64" by simp
      have "bit diff n \<longleftrightarrow> (if n < 32 then bit lo n else bit hi (n - 32))"
        using n by (auto simp: hi_def lo_def bit_unsigned_iff bit_drop_bit_eq)
      with \<open>hi = 0\<close> \<open>lo = 0\<close> show "bit diff n \<longleftrightarrow> bit 0 n" by simp
    qed
  qed (simp add: hi_def lo_def)
  show ?thesis
  proof (cases "diff = 0")
    case False
    then have pos: "hi OR lo \<noteq> 0" using zero by simp
    then have "(ucast (hi OR lo) :: u64) \<noteq> 0" by (metis unat_ucast_u64 unsigned_0 unat_eq_0)
    then have "unat ((ucast (hi OR lo) :: u64) - 1) = unat (hi OR lo) - 1"
      by (simp add: unat_minus_one unat_ucast_u64)
    then have "unat (drop_bit 32 ((ucast (hi OR lo) :: u64) - 1)) = (unat (hi OR lo) - 1) div 2 ^ 32"
      by (simp add: drop_bit_eq_div unat_div)
    also have "\<dots> = 0" using u32_unat_bound [of "hi OR lo"] by simp
    finally have "drop_bit 32 ((ucast (hi OR lo) :: u64) - 1) = 0" by (simp add: unat_eq_0)
    with False half show ?thesis by (simp add: neq0_def Let_def lo_def)
  next
    case True
    have "1 AND (mask 32 :: u64) = 1" by (rule bit_word_eqI) (auto simp: bit_and_iff bit_mask_iff bit_1_iff)
    with True show ?thesis by (simp add: neq0_def Let_def)
  qed
qed

lemma bit_load32_le: "n < 32 \<Longrightarrow> bit (load32_le s) n \<longleftrightarrow> bit (s ! (n div 8)) (n mod 8)"
proof -
  assume "n < 32"
  then obtain q r where n: "n = 8 * q + r" "q < 4" "r < 8"
    by (metis div_mult_mod_eq less_mult_imp_div_less mod_less_divisor mult.commute mult_numeral_left_semiring_numeral
        num_double numeral_times_numeral zero_less_numeral)
  then have "q \<in> {0, 1, 2, 3}" by auto
  then show ?thesis using n(1,3) by (auto simp: load32_le_def bit_or_iff bit_push_bit_iff bit_unsigned_iff dest: bit_imp_le_length)
qed

lemma bit_load64_le: "8 \<le> length s \<Longrightarrow> n < 64 \<Longrightarrow> bit (load64_le s) n \<longleftrightarrow> bit (s ! (n div 8)) (n mod 8)"
proof -
  assume s: "8 \<le> length s" and n: "n < 64"
  show ?thesis
  proof (cases "n < 32")
    case True
    then show ?thesis by (simp add: load64_le_def bit_or_iff bit_push_bit_iff bit_unsigned_iff bit_load32_le)
  next
    case False
    have eq: "n = (n - 32) + 4 * 8" using False by simp
    have idx: "n div 8 = 4 + (n - 32) div 8" by (subst eq, rule div_mult_self1) simp
    have idx': "n mod 8 = (n - 32) mod 8" by (subst eq, rule mod_mult_self1)
    have "bit (load64_le s) n \<longleftrightarrow> bit (load32_le (drop 4 s)) (n - 32)"
      using False n by (auto simp: load64_le_def bit_or_iff bit_push_bit_iff bit_unsigned_iff dest: bit_imp_le_length)
    then show ?thesis using bit_load32_le [of "n - 32" "drop 4 s"] n s False by (simp add: idx idx')
  qed
qed

lemma load64_le_eq:
  assumes "8 \<le> length a" "8 \<le> length b"
  shows "load64_le a = load64_le b \<longleftrightarrow> take 8 a = take 8 b"
proof
  assume eq: "load64_le a = load64_le b"
  have "a ! k = b ! k" if "k < 8" for k
  proof (rule bit_word_eqI)
    fix r assume "r < LENGTH(8)"
    then have "(8 * k + r) div 8 = k" "(8 * k + r) mod 8 = r" "8 * k + r < 64" using that by simp_all
    with bit_load64_le [OF assms(1), of "8 * k + r"] bit_load64_le [OF assms(2), of "8 * k + r"] eq
    show "bit (a ! k) r \<longleftrightarrow> bit (b ! k) r" by simp
  qed
  then show "take 8 a = take 8 b" using assms by (intro nth_equalityI) simp_all
next
  assume "take 8 a = take 8 b"
  then have "a ! k = b ! k" if "k < 8" for k using that by (metis nth_take)
  then show "load64_le a = load64_le b" using assms by (simp add: load64_le_def load32_le_def)
qed

lemma xor_eq_0: "a XOR b = 0 \<longleftrightarrow> a = b" for a b :: "'a :: len word"
  by (metis xor_self_eq bit.xor_left_self xor.right_neutral)

lemma x16_zero: "16 \<le> length a \<Longrightarrow> 16 \<le> length b \<Longrightarrow> x16 a b = 0 \<longleftrightarrow> take 16 a = take 16 b"
  by (simp add: x16_def or_eq_0_iff xor_eq_0 load64_le_eq take_add [of 8 8, simplified] append_eq_append_conv)

lemma x32_zero: "32 \<le> length a \<Longrightarrow> 32 \<le> length b \<Longrightarrow> x32 a b = 0 \<longleftrightarrow> take 32 a = take 32 b"
  by (simp add: x32_def or_eq_0_iff x16_zero take_add [of 16 16, simplified] append_eq_append_conv)

lemma verify64_exact:
  assumes "length a = 64" "length b = 64"
  shows "crypto_verify64_impl a b = (if a = b then 0 else -1)"
proof -
  have "x64 a b = 0 \<longleftrightarrow> take 32 a @ drop 32 a = take 32 b @ drop 32 b"
    using assms by (subst append_eq_append_conv) (simp_all add: x64_def or_eq_0_iff x32_zero)
  then show ?thesis by (simp add: crypto_verify64_impl_def neq0_correct)
qed

section \<open>Hashing in pieces\<close>

locale streaming_hash =
  fixes hash :: "bytes \<Rightarrow> bytes" and init :: 'h and absorb :: "'h \<Rightarrow> bytes \<Rightarrow> 'h" and finish :: "'h \<Rightarrow> bytes"
  assumes stream: "finish (foldl absorb init chunks) = hash (concat chunks)"
begin

text \<open>Only the bytes matter, not how they are cut.\<close>

lemma cut_irrelevant: "concat xs = concat ys \<Longrightarrow> finish (foldl absorb init xs) = finish (foldl absorb init ys)"
  by (simp add: stream)

lemma one_piece: "finish (absorb init m) = hash m"
  using stream [of "[m]"] by simp

end

interpretation sha512: streaming_hash fips_sha512 crypto_sha512_init_impl crypto_sha512_update_impl
  "\<lambda>ctx. fst (crypto_sha512_final_impl ctx)"
  by unfold_locales (rule sha512_streaming)

definition monocypher :: "(bytes \<Rightarrow> bytes \<Rightarrow> bytes \<Rightarrow> bool) \<Rightarrow> crypto_sha512_ctx crypto" where
  "monocypher check =
     \<lparr>crypto_sha512 = crypto_sha512_impl, crypto_sha512_init = crypto_sha512_init_impl,
      crypto_sha512_absorb = crypto_sha512_update_impl, crypto_sha512_final = (\<lambda>ctx. fst (crypto_sha512_final_impl ctx)),
      crypto_ed25519_check = check\<rparr>"

lemma sha512_impl_fips: "crypto_sha512_impl = fips_sha512"
  by (rule ext) (simp add: crypto_sha512_impl_def sha512.one_piece)

text \<open>
  C7. The boot loader computes SHA-512: its one-shot function is the function that FIPS 180-4 defines,
  and absorbing a message in any pieces gives the same hash, which is all that the installation of
  an update assumes of its cryptographic library. The ring of 16 schedule words, the alignment to words
  and blocks and the carry of the bit count are invisible.
\<close>

theorem boot_loader_computes_sha512:
  "crypto_sha512 (monocypher check) message = fips_sha512 message \<and> sha512_streams (monocypher check)"
  by (simp add: monocypher_def sha512_impl_fips sha512_streams_def sha512.stream)

end
